(* ===== verification/Prelude.thy ===== *)
theory Prelude
  imports
    "HOL-Library.Word"
    "HOL-Library.RBT"
    "HOL-Library.Product_Lexorder"
    "HOL-Library.Option_ord"
    "HOL-Library.Monad_Syntax"
    "HOL-Library.Multiset"
    "HOL-Library.Signed_Division"
begin

text \<open>
  The vocabulary shared by the component theories.

  \<^item> Machine integers. The C++ fixed-width unsigned types are words of that width. A
    signed 32-bit value is the word of its bits and is read with \<open>sint\<close>. The code widens
    to 64-bit signed integers before it adds coordinates; sums of a 32-bit signed and 32-bit
    unsigned values cannot leave the 64-bit range, so those intermediate values are \<open>int\<close>
    and every cast back to a narrower type is written out with \<open>word_of_int\<close>.
  \<^item> \<open>std::map\<close> is the red-black tree of the library: \<open>RBT.entries\<close> is the iteration in
    key order, \<open>RBT.lookup\<close> is \<open>find\<close>, \<open>RBT.insert\<close> is assignment through \<open>operator[]\<close>.
  \<^item> An access that would throw (\<open>at\<close> on a missing key), that would be undefined behaviour,
    or a loop that would not end, is the value \<open>None\<close> of an option; \<open>fold_option\<close> is a range
    \<open>for\<close> loop whose body may fail that way.
  \<^item> \<open>std::sort\<close> by a key tuple is \<open>sort_key\<close> over the lexicographic product order.
\<close>

unbundle bit_operations_syntax

named_theorems casts \<open>reading a cast back when the value is in range\<close>
named_theorems map_simps \<open>facts about the entries of ordered maps\<close>

type_synonym u8 = "8 word"
type_synonym u16 = "16 word"
type_synonym u32 = "32 word"
type_synonym u64 = "64 word"
type_synonym i32 = "32 word"

definition i32_of :: "int \<Rightarrow> i32" where
  "i32_of v = word_of_int v"

definition u32_of :: "int \<Rightarrow> u32" where
  "u32_of v = word_of_int v"

definition u64_of :: "int \<Rightarrow> u64" where
  "u64_of v = word_of_int v"

abbreviation int32_max :: int where
  "int32_max \<equiv> 2147483647"

abbreviation int32_min :: int where
  "int32_min \<equiv> - 2147483648"

text \<open>\<open>std::clamp\<close> as the library implements it.\<close>

definition clamp :: "int \<Rightarrow> int \<Rightarrow> int \<Rightarrow> int" where
  "clamp v lo hi = (if v < lo then lo else if hi < v then hi else v)"

text \<open>A range \<open>for\<close> loop whose body may throw.\<close>

fun fold_option :: "('a \<Rightarrow> 's \<Rightarrow> 's option) \<Rightarrow> 'a list \<Rightarrow> 's \<Rightarrow> 's option" where
  "fold_option f [] s = Some s"
| "fold_option f (x # xs) s =
     (case f x s of None \<Rightarrow> None | Some s' \<Rightarrow> fold_option f xs s')"

text \<open>\<open>m.at(k)\<close> used as a left-hand side: update in place, throw when the key is missing.\<close>

definition at_update :: "'k::linorder \<Rightarrow> ('v \<Rightarrow> 'v) \<Rightarrow> ('k, 'v) RBT.rbt \<Rightarrow> ('k, 'v) RBT.rbt option" where
  "at_update k f m = (case RBT.lookup m k of None \<Rightarrow> None | Some v \<Rightarrow> Some (RBT.insert k (f v) m))"

text \<open>\<open>m.emplace(k, v)\<close>: an existing entry is kept.\<close>

definition map_emplace :: "'k::linorder \<Rightarrow> 'v \<Rightarrow> ('k, 'v) RBT.rbt \<Rightarrow> ('k, 'v) RBT.rbt" where
  "map_emplace k v m = (case RBT.lookup m k of None \<Rightarrow> RBT.insert k v m | Some _ \<Rightarrow> m)"

text \<open>\<open>m.size()\<close> and \<open>m.contains(k)\<close>.\<close>

definition map_size :: "('k::linorder, 'v) RBT.rbt \<Rightarrow> nat" where
  "map_size m = length (RBT.entries m)"

definition map_contains :: "('k::linorder, 'v) RBT.rbt \<Rightarrow> 'k \<Rightarrow> bool" where
  "map_contains m k = (RBT.lookup m k \<noteq> None)"

section \<open>Reading casts back\<close>

lemma sint_i32_of [casts]: "int32_min \<le> v \<Longrightarrow> v \<le> int32_max \<Longrightarrow> sint (i32_of v) = v"
  by (simp add: i32_of_def sint_sbintrunc' signed_take_bit_int_eq_self)

lemma uint_u32_of [casts]: "0 \<le> v \<Longrightarrow> v < 4294967296 \<Longrightarrow> uint (u32_of v) = v"
  by (simp add: u32_of_def uint_word_of_int_eq take_bit_int_eq_self)

lemma uint_u64_of [casts]: "0 \<le> v \<Longrightarrow> v < 18446744073709551616 \<Longrightarrow> uint (u64_of v) = v"
  by (simp add: u64_of_def uint_word_of_int_eq take_bit_int_eq_self)

lemma sint32_range: "int32_min \<le> sint (a :: i32)" "sint (a :: i32) \<le> int32_max"
  using sint_greater_eq [of a] sint_less [of a] by simp_all

lemma uint32_range: "0 \<le> uint (a :: u32)" "uint (a :: u32) < 4294967296"
  using uint_lt2p [of a] by simp_all

lemma uint64_range: "0 \<le> uint (a :: u64)" "uint (a :: u64) < 18446744073709551616"
  using uint_lt2p [of a] by simp_all

lemma uint_ucast_u64: "uint (ucast (a :: u32) :: u64) = uint a"
  using uint32_range [of a] by (simp add: unsigned_ucast_eq unsigned_take_bit_eq take_bit_int_eq_self)

lemma sint_add_no_overflow:
  assumes "int32_min \<le> sint a + sint b" "sint a + sint b \<le> int32_max"
  shows "sint (a + b :: i32) = sint a + sint b"
  using assms by (simp add: sint_word_ariths signed_take_bit_int_eq_self)

lemma uint_eq_0_iff32: "uint (a :: u32) = 0 \<longleftrightarrow> a = 0"
  by (simp add: uint_0_iff)

lemma uint_pos_iff32: "0 < uint (a :: u32) \<longleftrightarrow> a \<noteq> 0"
  using uint32_range [of a] by (auto simp: uint_0_iff order_less_le)

section \<open>Clamping\<close>

lemma clamp_between: "lo \<le> hi \<Longrightarrow> lo \<le> clamp v lo hi \<and> clamp v lo hi \<le> hi"
  by (simp add: clamp_def)

lemma clamp_id: "lo \<le> v \<Longrightarrow> v \<le> hi \<Longrightarrow> clamp v lo hi = v"
  by (simp add: clamp_def)

section \<open>Loops that may fail\<close>

lemma fold_option_append:
  "fold_option f (xs @ ys) s = fold_option f xs s \<bind> fold_option f ys"
  by (induction xs arbitrary: s) (auto split: option.splits)

text \<open>
  An invariant indexed by the elements already processed: the loop succeeds and establishes
  it for the whole list.
\<close>

lemma fold_option_invariant:
  assumes "P [] s"
    and step: "\<And>done x rest s. xs = done @ x # rest \<Longrightarrow> P done s \<Longrightarrow>
                 \<exists>s'. f x s = Some s' \<and> P (done @ [x]) s'"
  shows "\<exists>s'. fold_option f xs s = Some s' \<and> P xs s'"
proof -
  have "\<exists>s'. fold_option f rest s = Some s' \<and> P (done @ rest) s'"
    if "xs = done @ rest" "P done s" for "done" rest s
    using that
  proof (induction rest arbitrary: "done" s)
    case Nil
    then show ?case by simp
  next
    case (Cons x rest)
    then obtain s' where s': "f x s = Some s'" "P (done @ [x]) s'"
      using step by blast
    with Cons.prems Cons.IH [of "done @ [x]" s'] show ?case by simp
  qed
  from this [of "[]" xs s] assms(1) show ?thesis by simp
qed

corollary fold_option_keeps:
  assumes "P s" and "\<And>x s. x \<in> set xs \<Longrightarrow> P s \<Longrightarrow> \<exists>s'. f x s = Some s' \<and> P s'"
  shows "\<exists>s'. fold_option f xs s = Some s' \<and> P s'"
  using assms by (intro fold_option_invariant [where P = "\<lambda>_. P"]) auto

section \<open>Ordered maps\<close>

lemma set_entries [map_simps]: "(k, v) \<in> set (RBT.entries m) \<longleftrightarrow> RBT.lookup m k = Some v"
  by (simp add: RBT.lookup_in_tree)

lemma set_keys [map_simps]: "k \<in> set (RBT.keys m) \<longleftrightarrow> (\<exists>v. RBT.lookup m k = Some v)"
  by (simp add: RBT.keys_entries map_simps)

lemma contains_iff [map_simps]: "map_contains m k \<longleftrightarrow> (\<exists>v. RBT.lookup m k = Some v)"
  by (auto simp: map_contains_def)

lemma entries_empty_iff: "RBT.entries m = [] \<longleftrightarrow> m = RBT.empty"
  by (metis RBT.keys_def_alt RBT.keys_empty_eq RBT.non_empty_keys list.map_disc_iff)

lemma at_update_Some [map_simps]:
  "at_update k f m = Some m' \<longleftrightarrow> (\<exists>v. RBT.lookup m k = Some v \<and> m' = RBT.insert k (f v) m)"
  by (auto simp: at_update_def split: option.splits)

lemma map_size_card: "map_size m = card (dom (RBT.lookup m))"
proof -
  have "map_size m = length (RBT.keys m)" by (simp add: map_size_def RBT.keys_def_alt)
  also have "\<dots> = card (set (RBT.keys m))" by (simp add: distinct_card)
  finally show ?thesis by (simp add: RBT.lookup_keys)
qed

lemma map_size_insert:
  "map_size (RBT.insert k v m) = (if map_contains m k then map_size m else Suc (map_size m))"
  by (auto simp: map_size_card card_insert_if map_contains_def domIff)

lemma map_size_delete_le: "map_size (RBT.delete k m) \<le> map_size m"
  by (simp add: map_size_card card_mono)

lemma map_size_empty [simp]: "map_size RBT.empty = 0"
  by (simp add: map_size_card)

lemma keys_distinct_entries: "distinct (map fst (RBT.entries m))"
  by (rule RBT.distinct_entries)

lemma lookup_emplace:
  "RBT.lookup (map_emplace k v m) =
     (case RBT.lookup m k of None \<Rightarrow> (RBT.lookup m)(k \<mapsto> v) | Some _ \<Rightarrow> RBT.lookup m)"
  by (simp add: map_emplace_def split: option.splits)

text \<open>A loop that emplaces one entry per entry of another map into an empty map.\<close>

lemma lookup_fold_emplace:
  assumes "distinct (map fst es)" "\<forall>k \<in> set (map fst es). RBT.lookup m k = None"
  shows "RBT.lookup (fold (\<lambda>(k, v). map_emplace k (f k v)) es m) k =
           (case map_of es k of None \<Rightarrow> RBT.lookup m k | Some v \<Rightarrow> Some (f k v))"
  using assms
proof (induction es arbitrary: m)
  case (Cons e es)
  obtain k' v' where e: "e = (k', v')" by (cases e)
  from Cons.prems e have "\<forall>k \<in> set (map fst es). RBT.lookup (map_emplace k' (f k' v') m) k = None"
    by (auto simp: lookup_emplace)
  with Cons.IH [of "map_emplace k' (f k' v') m"] Cons.prems e show ?case
    by (auto simp: lookup_emplace split: option.splits dest: map_of_SomeD)
qed simp

lemma lookup_fold_emplace_entries:
  "RBT.lookup (fold (\<lambda>(k, v). map_emplace k (f k v)) (RBT.entries t) RBT.empty) k =
     map_option (f k) (RBT.lookup t k)"
  by (subst lookup_fold_emplace) (auto simp: keys_distinct_entries split: option.splits)

section \<open>Sorting\<close>

text \<open>A symmetric pairwise property does not depend on the order of the list.\<close>

lemma sorted_wrt_perm:
  assumes "\<And>x y. R x y \<Longrightarrow> R y x" "mset xs = mset ys" "sorted_wrt R xs"
  shows "sorted_wrt R ys"
  using assms(2,3)
proof (induction xs arbitrary: ys)
  case Nil
  then show ?case by simp
next
  case (Cons x xs)
  then have "x \<in> set ys" by (metis list.set_intros(1) mset_eq_setD)
  then obtain as bs where ys: "ys = as @ x # bs" by (auto simp: in_set_conv_decomp)
  with Cons.prems(1) have m: "mset xs = mset (as @ bs)" by simp
  with Cons have "sorted_wrt R (as @ bs)" by simp
  moreover have "\<forall>y \<in> set (as @ bs). R x y"
    using Cons.prems(2) mset_eq_setD [OF m] by auto
  ultimately show ?case unfolding ys by (auto simp: sorted_wrt_append assms(1))
qed

end
