(* ===== verification/X11_Core.thy ===== *)
theory X11_Core
  imports Prelude "HOL-Library.Finite_Map"
begin

text \<open>
  The numbers of the X protocol the server works with: event masks (\<open>protocol/x11/event_mask.hpp\<close>) and the
  predefined atoms (\<open>protocol/x11/atoms.hpp\<close>); and the comparison of timestamps, which wrap around.
\<close>

named_theorems event_masks \<open>the values of the event masks\<close>

definition em_KeyPress :: u32 where [event_masks]: "em_KeyPress = 0x1"

definition em_KeyRelease :: u32 where [event_masks]: "em_KeyRelease = 0x2"

definition em_ButtonPress :: u32 where [event_masks]: "em_ButtonPress = 0x4"

definition em_ButtonRelease :: u32 where [event_masks]: "em_ButtonRelease = 0x8"

definition em_EnterWindow :: u32 where [event_masks]: "em_EnterWindow = 0x10"

definition em_LeaveWindow :: u32 where [event_masks]: "em_LeaveWindow = 0x20"

definition em_PointerMotion :: u32 where [event_masks]: "em_PointerMotion = 0x40"

definition em_PointerMotionHint :: u32 where [event_masks]: "em_PointerMotionHint = 0x80"

definition em_Button1Motion :: u32 where [event_masks]: "em_Button1Motion = 0x100"

definition em_Button2Motion :: u32 where [event_masks]: "em_Button2Motion = 0x200"

definition em_Button3Motion :: u32 where [event_masks]: "em_Button3Motion = 0x400"

definition em_Button4Motion :: u32 where [event_masks]: "em_Button4Motion = 0x800"

definition em_Button5Motion :: u32 where [event_masks]: "em_Button5Motion = 0x1000"

definition em_ButtonMotion :: u32 where [event_masks]: "em_ButtonMotion = 0x2000"

definition em_KeymapState :: u32 where [event_masks]: "em_KeymapState = 0x4000"

definition em_Exposure :: u32 where [event_masks]: "em_Exposure = 0x8000"

definition em_VisibilityChange :: u32 where [event_masks]: "em_VisibilityChange = 0x10000"

definition em_StructureNotify :: u32 where [event_masks]: "em_StructureNotify = 0x20000"

definition em_ResizeRedirect :: u32 where [event_masks]: "em_ResizeRedirect = 0x40000"

definition em_SubstructureNotify :: u32 where [event_masks]: "em_SubstructureNotify = 0x80000"

definition em_SubstructureRedirect :: u32 where [event_masks]: "em_SubstructureRedirect = 0x100000"

definition em_FocusChange :: u32 where [event_masks]: "em_FocusChange = 0x200000"

definition em_PropertyChange :: u32 where [event_masks]: "em_PropertyChange = 0x400000"

definition em_ColormapChange :: u32 where [event_masks]: "em_ColormapChange = 0x800000"

definition em_OwnerGrabButton :: u32 where [event_masks]: "em_OwnerGrabButton = 0x1000000"

definition em_All :: u32 where [event_masks]: "em_All = 0x01ffffff"

definition em_DoNotPropagate :: u32 where
  [event_masks]: "em_DoNotPropagate = em_KeyPress OR em_KeyRelease OR em_ButtonPress OR em_ButtonRelease OR em_PointerMotion OR em_ButtonMotion"

definition kNoneAtom :: u32 where
  "kNoneAtom = 0"

definition kPredefinedAtoms :: "(u32 \<times> string) list" where
  "kPredefinedAtoms =
    [(1, ''PRIMARY''),
     (2, ''SECONDARY''),
     (3, ''ARC''),
     (4, ''ATOM''),
     (5, ''BITMAP''),
     (6, ''CARDINAL''),
     (7, ''COLORMAP''),
     (8, ''CURSOR''),
     (9, ''CUT_BUFFER0''),
     (10, ''CUT_BUFFER1''),
     (11, ''CUT_BUFFER2''),
     (12, ''CUT_BUFFER3''),
     (13, ''CUT_BUFFER4''),
     (14, ''CUT_BUFFER5''),
     (15, ''CUT_BUFFER6''),
     (16, ''CUT_BUFFER7''),
     (17, ''DRAWABLE''),
     (18, ''FONT''),
     (19, ''INTEGER''),
     (20, ''PIXMAP''),
     (21, ''POINT''),
     (22, ''RECTANGLE''),
     (23, ''RESOURCE_MANAGER''),
     (24, ''RGB_COLOR_MAP''),
     (25, ''RGB_BEST_MAP''),
     (26, ''RGB_BLUE_MAP''),
     (27, ''RGB_DEFAULT_MAP''),
     (28, ''RGB_GRAY_MAP''),
     (29, ''RGB_GREEN_MAP''),
     (30, ''RGB_RED_MAP''),
     (31, ''STRING''),
     (32, ''VISUALID''),
     (33, ''WINDOW''),
     (34, ''WM_COMMAND''),
     (35, ''WM_HINTS''),
     (36, ''WM_CLIENT_MACHINE''),
     (37, ''WM_ICON_NAME''),
     (38, ''WM_ICON_SIZE''),
     (39, ''WM_NAME''),
     (40, ''WM_NORMAL_HINTS''),
     (41, ''WM_SIZE_HINTS''),
     (42, ''WM_ZOOM_HINTS''),
     (43, ''MIN_SPACE''),
     (44, ''NORM_SPACE''),
     (45, ''MAX_SPACE''),
     (46, ''END_SPACE''),
     (47, ''SUPERSCRIPT_X''),
     (48, ''SUPERSCRIPT_Y''),
     (49, ''SUBSCRIPT_X''),
     (50, ''SUBSCRIPT_Y''),
     (51, ''UNDERLINE_POSITION''),
     (52, ''UNDERLINE_THICKNESS''),
     (53, ''STRIKEOUT_ASCENT''),
     (54, ''STRIKEOUT_DESCENT''),
     (55, ''ITALIC_ANGLE''),
     (56, ''X_HEIGHT''),
     (57, ''QUAD_WIDTH''),
     (58, ''WEIGHT''),
     (59, ''POINT_SIZE''),
     (60, ''RESOLUTION''),
     (61, ''COPYRIGHT''),
     (62, ''NOTICE''),
     (63, ''FONT_NAME''),
     (64, ''FAMILY_NAME''),
     (65, ''FULL_NAME''),
     (66, ''CAP_HEIGHT''),
     (67, ''WM_CLASS''),
     (68, ''WM_TRANSIENT_FOR'')]"

definition kLastPredefinedAtom :: u32 where
  "kLastPredefinedAtom = fst (last kPredefinedAtoms)"

text \<open>\<open>emplace\<close> keeps an existing entry.\<close>

definition emplace :: "'k \<Rightarrow> 'v \<Rightarrow> ('k, 'v) fmap \<Rightarrow> ('k, 'v) fmap" where
  "emplace k v m = (case fmlookup m k of None \<Rightarrow> fmupd k v m | Some _ \<Rightarrow> m)"

text \<open>\<open>std::ranges::find\<close> and \<open>std::distance\<close>.\<close>

fun position :: "'a \<Rightarrow> 'a list \<Rightarrow> nat option" where
  "position x [] = None"
| "position x (y # ys) = (if y = x then Some 0 else map_option Suc (position x ys))"

lemma position_Some: "position x ys = Some d \<Longrightarrow> d < length ys \<and> ys ! d = x"
  by (induction ys arbitrary: d) (auto split: if_splits)

text \<open>
  Is the first timestamp later than the second one? The difference is read as a signed number, so a timestamp
  is later than the half circle of timestamps before it. (\<open>timestamp_after\<close> in \<open>grab_state.cpp\<close>, \<open>later\<close> in
  \<open>selection_store.cpp\<close>.)
\<close>

definition timestamp_after :: "u32 \<Rightarrow> u32 \<Rightarrow> bool" where
  "timestamp_after left right \<longleftrightarrow> sint (left - right) > 0"

lemma timestamp_after_irrefl [simp]: "\<not> timestamp_after t t"
  by (simp add: timestamp_after_def)

lemma timestamp_after_asym: "timestamp_after a b \<Longrightarrow> \<not> timestamp_after b a"
proof
  assume ab: "timestamp_after a b" and ba: "timestamp_after b a"
  have "b - a = i32_of (- sint (a - b))" by (simp add: i32_of_def)
  then have "sint (b - a) = - sint (a - b)"
    using ab sint32_range [of "a - b"] by (simp add: timestamp_after_def sint_i32_of)
  then show False using ab ba by (simp add: timestamp_after_def)
qed

end
