(* ===== verification/Srv_Grabs.thy ===== *)
theory Srv_Grabs
  imports X11_Core
begin

text \<open>
  The grabs of the server (\<open>glasswyrmd/grab_state.hpp\<close>, \<open>glasswyrmd/grab_state.cpp\<close>): the active pointer and
  keyboard grabs, the passive button grabs that wait for a button, and the routing of events under a grab.

  The image of a cursor is only stored and handed on: it is a type variable. A status other than \<open>GS_Success\<close>
  is a refusal. The serial of a passive grab wraps around as the 64-bit counter of the code does.
\<close>

section \<open>Data\<close>

definition kAnyModifier :: u16 where "kAnyModifier = 0x8000"

definition kAnyButton :: u8 where "kAnyButton = 0"

datatype grab_mode = Synchronous | Asynchronous

datatype grab_status = GS_Success | GS_AlreadyGrabbed | GS_InvalidTime | GS_NotViewable | GS_InvalidMode
  | GS_InvalidEventMask | GS_UnsupportedConfine | GS_InvalidCursor | GS_InvalidButton | GS_InvalidModifiers
  | GS_BadAccess | GS_NotFound | GS_NotOwner | GS_BadImplementation

datatype grab_origin = Explicit | AutomaticButton | PassiveButton

record 'img pointer_grab_request =
  pgq_client :: u64
  pgq_window :: u32
  pgq_owner_events :: bool
  pgq_event_mask :: u32
  pgq_pointer_mode :: grab_mode
  pgq_keyboard_mode :: grab_mode
  pgq_confine_to :: u32
  pgq_cursor :: u32
  pgq_cursor_valid :: bool
  pgq_cursor_image :: "'img option"
  pgq_request_time :: u32
  pgq_current_time :: u32
  pgq_window_viewable :: bool

record keyboard_grab_request =
  kgq_client :: u64
  kgq_window :: u32
  kgq_owner_events :: bool
  kgq_pointer_mode :: grab_mode
  kgq_keyboard_mode :: grab_mode
  kgq_request_time :: u32
  kgq_current_time :: u32
  kgq_window_viewable :: bool

record 'img passive_request =
  pbq_client :: u64
  pbq_window :: u32
  pbq_button :: u8
  pbq_modifiers :: u16
  pbq_owner_events :: bool
  pbq_event_mask :: u32
  pbq_pointer_mode :: grab_mode
  pbq_keyboard_mode :: grab_mode
  pbq_confine_to :: u32
  pbq_cursor :: u32
  pbq_cursor_valid :: bool
  pbq_cursor_image :: "'img option"

record 'img pointer_grab =
  pg_origin :: grab_origin
  pg_client :: u64
  pg_window :: u32
  pg_owner_events :: bool
  pg_event_mask :: u32
  pg_cursor :: u32
  pg_cursor_image :: "'img option"
  pg_activation_time :: u32
  pg_held_buttons :: u16

record keyboard_grab =
  kg_client :: u64
  kg_window :: u32
  kg_owner_events :: bool
  kg_activation_time :: u32

datatype route_kind = Natural | GrabWindow | Suppressed

record route_input =
  ri_natural_client :: u64
  ri_natural_window :: u32
  ri_event_mask :: u32
  ri_real_pointer_target :: u32

record route_decision =
  rd_kind :: route_kind
  rd_client :: u64
  rd_window :: u32
  rd_crossing_target :: u32

datatype allow_mode = AsyncPointer | SyncPointer | ReplayPointer | AsyncKeyboard | SyncKeyboard | ReplayKeyboard | AsyncBoth | SyncBoth

record cleanup_result =
  cl_pointer_released :: bool
  cl_keyboard_released :: bool
  cl_passive_buttons_removed :: nat

record 'img passive_grab =
  pb_request :: "'img passive_request"
  pb_serial :: u64

record 'img grab_state =
  gs_pointer_grab :: "'img pointer_grab option"
  gs_keyboard_grab :: "keyboard_grab option"
  gs_passive_buttons :: "'img passive_grab list"
  gs_last_pointer_grab_time :: u32
  gs_last_keyboard_grab_time :: u32
  gs_next_passive_serial :: u64

definition no_grabs :: "'img grab_state" where
  "no_grabs = \<lparr>gs_pointer_grab = None, gs_keyboard_grab = None, gs_passive_buttons = [], gs_last_pointer_grab_time = 0,
     gs_last_keyboard_grab_time = 0, gs_next_passive_serial = 1\<rparr>"

section \<open>Checks\<close>

definition kPointerGrabMask :: u32 where
  "kPointerGrabMask = em_ButtonPress OR em_ButtonRelease OR em_EnterWindow OR em_LeaveWindow OR em_PointerMotion OR
     em_PointerMotionHint OR em_Button1Motion OR em_Button2Motion OR em_Button3Motion OR em_Button4Motion OR
     em_Button5Motion OR em_ButtonMotion"

definition kAutomaticGrabMask :: u32 where
  "kAutomaticGrabMask = em_ButtonRelease OR em_PointerMotion OR em_Button1Motion OR em_Button2Motion OR em_Button3Motion OR
     em_Button4Motion OR em_Button5Motion OR em_ButtonMotion"

definition kCoreModifierMask :: u16 where "kCoreModifierMask = 0x00ff"

definition valid_button :: "u8 \<Rightarrow> bool" where
  "valid_button button \<longleftrightarrow> button = kAnyButton \<or> (button \<ge> 1 \<and> button \<le> 9)"

definition valid_modifiers :: "u16 \<Rightarrow> bool" where
  "valid_modifiers modifiers \<longleftrightarrow> modifiers = kAnyModifier \<or> modifiers AND NOT kCoreModifierMask = 0"

definition button_bit :: "u8 \<Rightarrow> u16" where
  "button_bit button = (if button < 1 \<or> button > 9 then 0 else push_bit (unat (button - 1)) 1)"

text \<open>The time a request means, when it is neither before the last grab nor in the future.\<close>

definition valid_time :: "u32 \<Rightarrow> u32 \<Rightarrow> u32 \<Rightarrow> u32 option" where
  "valid_time request_time current_time last_grab_time =
     (let resolved = if request_time = 0 then current_time else request_time
      in if \<not> timestamp_after last_grab_time resolved \<and> \<not> timestamp_after resolved current_time then Some resolved else None)"

definition validate_pointer_fields :: "u32 \<Rightarrow> grab_mode \<Rightarrow> grab_mode \<Rightarrow> u32 \<Rightarrow> u32 \<Rightarrow> bool \<Rightarrow> grab_status" where
  "validate_pointer_fields event_mask pointer_mode keyboard_mode confine_to cursor cursor_valid =
     (if pointer_mode \<noteq> Asynchronous \<or> keyboard_mode \<noteq> Asynchronous then GS_BadImplementation
      else if event_mask AND NOT kPointerGrabMask \<noteq> 0 then GS_InvalidEventMask
      else if confine_to \<noteq> 0 then GS_UnsupportedConfine
      else if cursor \<noteq> 0 \<and> \<not> cursor_valid then GS_InvalidCursor
      else GS_Success)"

section \<open>Active grabs\<close>

definition grab_pointer :: "'img pointer_grab_request \<Rightarrow> 'img grab_state \<Rightarrow> grab_status \<times> 'img grab_state" where
  "grab_pointer request s =
     (let fields = validate_pointer_fields (pgq_event_mask request) (pgq_pointer_mode request) (pgq_keyboard_mode request)
        (pgq_confine_to request) (pgq_cursor request) (pgq_cursor_valid request)
      in if fields \<noteq> GS_Success then (fields, s)
         else if \<not> pgq_window_viewable request then (GS_NotViewable, s)
         else case valid_time (pgq_request_time request) (pgq_current_time request) (gs_last_pointer_grab_time s) of
           None \<Rightarrow> (GS_InvalidTime, s)
         | Some activation_time \<Rightarrow>
             if gs_pointer_grab s \<noteq> None then (GS_AlreadyGrabbed, s)
             else (GS_Success, s\<lparr>gs_pointer_grab := Some \<lparr>pg_origin = Explicit, pg_client = pgq_client request,
                 pg_window = pgq_window request, pg_owner_events = pgq_owner_events request,
                 pg_event_mask = pgq_event_mask request, pg_cursor = pgq_cursor request,
                 pg_cursor_image = pgq_cursor_image request, pg_activation_time = activation_time, pg_held_buttons = 0\<rparr>,
               gs_last_pointer_grab_time := activation_time\<rparr>))"

definition ungrab_pointer :: "u64 \<Rightarrow> u32 \<Rightarrow> u32 \<Rightarrow> 'img grab_state \<Rightarrow> bool \<times> 'img grab_state" where
  "ungrab_pointer client request_time current_time s =
     (case gs_pointer_grab s of
        None \<Rightarrow> (False, s)
      | Some grab \<Rightarrow>
          if pg_client grab \<noteq> client \<or> valid_time request_time current_time (gs_last_pointer_grab_time s) = None then (False, s)
          else (True, s\<lparr>gs_pointer_grab := None\<rparr>))"

definition change_active_pointer_grab ::
    "u64 \<Rightarrow> u32 \<Rightarrow> u32 \<Rightarrow> bool \<Rightarrow> 'img option \<Rightarrow> u32 \<Rightarrow> u32 \<Rightarrow> 'img grab_state \<Rightarrow> grab_status \<times> 'img grab_state" where
  "change_active_pointer_grab client event_mask cursor cursor_valid cursor_image request_time current_time s =
     (case gs_pointer_grab s of
        None \<Rightarrow> (GS_NotFound, s)
      | Some grab \<Rightarrow>
          if pg_client grab \<noteq> client then (GS_NotOwner, s)
          else if event_mask AND NOT kPointerGrabMask \<noteq> 0 then (GS_InvalidEventMask, s)
          else if cursor \<noteq> 0 \<and> \<not> cursor_valid then (GS_InvalidCursor, s)
          else if valid_time request_time current_time (gs_last_pointer_grab_time s) = None then (GS_InvalidTime, s)
          else (GS_Success, s\<lparr>gs_pointer_grab := Some (grab\<lparr>pg_event_mask := event_mask, pg_cursor := cursor,
                 pg_cursor_image := cursor_image\<rparr>)\<rparr>))"

definition grab_keyboard :: "keyboard_grab_request \<Rightarrow> 'img grab_state \<Rightarrow> grab_status \<times> 'img grab_state" where
  "grab_keyboard request s =
     (if kgq_pointer_mode request \<noteq> Asynchronous \<or> kgq_keyboard_mode request \<noteq> Asynchronous then (GS_BadImplementation, s)
      else if \<not> kgq_window_viewable request then (GS_NotViewable, s)
      else case valid_time (kgq_request_time request) (kgq_current_time request) (gs_last_keyboard_grab_time s) of
        None \<Rightarrow> (GS_InvalidTime, s)
      | Some activation_time \<Rightarrow>
          if gs_keyboard_grab s \<noteq> None then (GS_AlreadyGrabbed, s)
          else (GS_Success, s\<lparr>gs_keyboard_grab := Some \<lparr>kg_client = kgq_client request, kg_window = kgq_window request,
                 kg_owner_events = kgq_owner_events request, kg_activation_time = activation_time\<rparr>,
               gs_last_keyboard_grab_time := activation_time\<rparr>))"

definition ungrab_keyboard :: "u64 \<Rightarrow> u32 \<Rightarrow> u32 \<Rightarrow> 'img grab_state \<Rightarrow> bool \<times> 'img grab_state" where
  "ungrab_keyboard client request_time current_time s =
     (case gs_keyboard_grab s of
        None \<Rightarrow> (False, s)
      | Some grab \<Rightarrow>
          if kg_client grab \<noteq> client \<or> valid_time request_time current_time (gs_last_keyboard_grab_time s) = None then (False, s)
          else (True, s\<lparr>gs_keyboard_grab := None\<rparr>))"

section \<open>Buttons\<close>

definition begin_automatic_button_grab :: "u64 \<Rightarrow> u32 \<Rightarrow> u8 \<Rightarrow> u32 \<Rightarrow> 'img grab_state \<Rightarrow> bool \<times> 'img grab_state" where
  "begin_automatic_button_grab client window button current_time s =
     (if gs_pointer_grab s \<noteq> None \<or> button_bit button = 0 then (False, s)
      else (True, s\<lparr>gs_pointer_grab := Some \<lparr>pg_origin = AutomaticButton, pg_client = client, pg_window = window,
               pg_owner_events = True, pg_event_mask = kAutomaticGrabMask, pg_cursor = 0, pg_cursor_image = None,
               pg_activation_time = current_time, pg_held_buttons = button_bit button\<rparr>,
             gs_last_pointer_grab_time := current_time\<rparr>))"

definition note_button_press :: "u8 \<Rightarrow> 'img grab_state \<Rightarrow> 'img grab_state" where
  "note_button_press button s =
     (case gs_pointer_grab s of
        None \<Rightarrow> s
      | Some grab \<Rightarrow> if pg_origin grab = Explicit then s
          else s\<lparr>gs_pointer_grab := Some (grab\<lparr>pg_held_buttons := pg_held_buttons grab OR button_bit button\<rparr>)\<rparr>)"

definition note_button_release :: "u8 \<Rightarrow> 'img grab_state \<Rightarrow> bool \<times> 'img grab_state" where
  "note_button_release button s =
     (case gs_pointer_grab s of
        None \<Rightarrow> (False, s)
      | Some grab \<Rightarrow> if pg_origin grab = Explicit then (False, s)
          else let held = pg_held_buttons grab AND NOT (button_bit button)
               in if held \<noteq> 0 then (False, s\<lparr>gs_pointer_grab := Some (grab\<lparr>pg_held_buttons := held\<rparr>)\<rparr>)
                  else (True, s\<lparr>gs_pointer_grab := None\<rparr>))"

section \<open>Passive grabs\<close>

definition passive_overlaps :: "'img passive_request \<Rightarrow> 'img passive_request \<Rightarrow> bool" where
  "passive_overlaps left right \<longleftrightarrow>
     (let buttons = pbq_button left = kAnyButton \<or> pbq_button right = kAnyButton \<or> pbq_button left = pbq_button right;
          modifiers = pbq_modifiers left = kAnyModifier \<or> pbq_modifiers right = kAnyModifier \<or> pbq_modifiers left = pbq_modifiers right
      in pbq_window left = pbq_window right \<and> buttons \<and> modifiers)"

text \<open>
  The loop of \<open>grab_button\<close> over the passive grabs: it returns the status and the list when it ends inside the
  loop, and \<open>None\<close> when it comes to its end.
\<close>

fun replace_passive :: "'img passive_request \<Rightarrow> 'img passive_grab list \<Rightarrow> (grab_status \<times> 'img passive_grab list) option" where
  "replace_passive request [] = None"
| "replace_passive request (passive # rest) =
     (if \<not> passive_overlaps (pb_request passive) request
      then map_option (\<lambda>(status, others). (status, passive # others)) (replace_passive request rest)
      else if pbq_client (pb_request passive) \<noteq> pbq_client request then Some (GS_BadAccess, passive # rest)
      else if pbq_button (pb_request passive) = pbq_button request \<and> pbq_modifiers (pb_request passive) = pbq_modifiers request
      then Some (GS_Success, passive\<lparr>pb_request := request\<rparr> # rest)
      else map_option (\<lambda>(status, others). (status, passive # others)) (replace_passive request rest))"

definition grab_button :: "'img passive_request \<Rightarrow> 'img grab_state \<Rightarrow> grab_status \<times> 'img grab_state" where
  "grab_button request s =
     (if \<not> valid_button (pbq_button request) then (GS_InvalidButton, s)
      else if \<not> valid_modifiers (pbq_modifiers request) then (GS_InvalidModifiers, s)
      else let fields = validate_pointer_fields (pbq_event_mask request) (pbq_pointer_mode request) (pbq_keyboard_mode request)
             (pbq_confine_to request) (pbq_cursor request) (pbq_cursor_valid request)
           in if fields \<noteq> GS_Success then (fields, s)
              else case replace_passive request (gs_passive_buttons s) of
                Some (status, passives) \<Rightarrow> (status, s\<lparr>gs_passive_buttons := passives\<rparr>)
              | None \<Rightarrow> (GS_Success, s\<lparr>gs_passive_buttons := gs_passive_buttons s @ [\<lparr>pb_request = request, pb_serial = gs_next_passive_serial s\<rparr>],
                    gs_next_passive_serial := gs_next_passive_serial s + 1\<rparr>))"

definition specificity :: "'img passive_request \<Rightarrow> nat" where
  "specificity request = (if pbq_button request \<noteq> kAnyButton then 2 else 0) + (if pbq_modifiers request \<noteq> kAnyModifier then 1 else 0)"

definition passive_matches :: "u8 \<Rightarrow> u16 \<Rightarrow> 'img passive_request \<Rightarrow> bool" where
  "passive_matches button core_modifiers request \<longleftrightarrow>
     \<not> (pbq_button request \<noteq> kAnyButton \<and> pbq_button request \<noteq> button) \<and>
     \<not> (pbq_modifiers request \<noteq> kAnyModifier \<and> pbq_modifiers request \<noteq> core_modifiers)"

text \<open>The best grab so far, with its depth and its specificity.\<close>

definition better_passive ::
    "u8 \<Rightarrow> u16 \<Rightarrow> u32 list \<Rightarrow> 'img passive_grab \<Rightarrow> ('img passive_grab \<times> nat \<times> nat) option \<Rightarrow> ('img passive_grab \<times> nat \<times> nat) option" where
  "better_passive button core_modifiers pointer_ancestry passive best =
     (case position (pbq_window (pb_request passive)) pointer_ancestry of
        None \<Rightarrow> best
      | Some depth \<Rightarrow>
          if \<not> passive_matches button core_modifiers (pb_request passive) then best
          else let specific = specificity (pb_request passive)
               in case best of
                    None \<Rightarrow> Some (passive, depth, specific)
                  | Some (held, best_depth, best_specificity) \<Rightarrow>
                      if depth < best_depth \<or> depth = best_depth \<and> specific > best_specificity \<or>
                         depth = best_depth \<and> specific = best_specificity \<and> pb_serial passive < pb_serial held
                      then Some (passive, depth, specific) else best)"

definition activate_passive_button :: "u8 \<Rightarrow> u16 \<Rightarrow> u32 list \<Rightarrow> u32 \<Rightarrow> 'img grab_state \<Rightarrow> bool \<times> 'img grab_state" where
  "activate_passive_button button modifiers pointer_ancestry current_time s =
     (if gs_pointer_grab s \<noteq> None \<or> button < 1 \<or> button > 9 \<or> pointer_ancestry = [] then (False, s)
      else let core_modifiers = modifiers AND kCoreModifierMask
           in case fold (better_passive button core_modifiers pointer_ancestry) (gs_passive_buttons s) None of
                None \<Rightarrow> (False, s)
              | Some (best, _) \<Rightarrow>
                  let request = pb_request best
                  in (True, s\<lparr>gs_pointer_grab := Some \<lparr>pg_origin = PassiveButton, pg_client = pbq_client request,
                         pg_window = pbq_window request, pg_owner_events = pbq_owner_events request,
                         pg_event_mask = pbq_event_mask request, pg_cursor = pbq_cursor request,
                         pg_cursor_image = pbq_cursor_image request, pg_activation_time = current_time,
                         pg_held_buttons = button_bit button\<rparr>,
                       gs_last_pointer_grab_time := current_time\<rparr>))"

section \<open>Routing\<close>

definition route_pointer :: "route_input \<Rightarrow> 'img grab_state \<Rightarrow> route_decision" where
  "route_pointer input s =
     (case gs_pointer_grab s of
        None \<Rightarrow> \<lparr>rd_kind = Natural, rd_client = ri_natural_client input, rd_window = ri_natural_window input,
                  rd_crossing_target = ri_real_pointer_target input\<rparr>
      | Some grab \<Rightarrow>
          if pg_owner_events grab \<and> ri_natural_client input = pg_client grab \<and> ri_natural_client input \<noteq> 0
          then \<lparr>rd_kind = Natural, rd_client = ri_natural_client input, rd_window = ri_natural_window input,
                 rd_crossing_target = ri_real_pointer_target input\<rparr>
          else if pg_event_mask grab AND ri_event_mask input \<noteq> 0
          then \<lparr>rd_kind = GrabWindow, rd_client = pg_client grab, rd_window = pg_window grab,
                 rd_crossing_target = ri_real_pointer_target input\<rparr>
          else \<lparr>rd_kind = Suppressed, rd_client = 0, rd_window = 0, rd_crossing_target = ri_real_pointer_target input\<rparr>)"

definition route_keyboard :: "route_input \<Rightarrow> 'img grab_state \<Rightarrow> route_decision" where
  "route_keyboard input s =
     (case gs_keyboard_grab s of
        None \<Rightarrow> \<lparr>rd_kind = Natural, rd_client = ri_natural_client input, rd_window = ri_natural_window input,
                  rd_crossing_target = ri_real_pointer_target input\<rparr>
      | Some grab \<Rightarrow>
          if kg_owner_events grab \<and> ri_natural_client input = kg_client grab \<and> ri_natural_client input \<noteq> 0
          then \<lparr>rd_kind = Natural, rd_client = ri_natural_client input, rd_window = ri_natural_window input,
                 rd_crossing_target = ri_real_pointer_target input\<rparr>
          else \<lparr>rd_kind = GrabWindow, rd_client = kg_client grab, rd_window = kg_window grab,
                 rd_crossing_target = ri_real_pointer_target input\<rparr>)"

definition allow_events :: "allow_mode \<Rightarrow> u32 \<Rightarrow> u32 \<Rightarrow> 'img grab_state \<Rightarrow> grab_status" where
  "allow_events mode request_time current_time s =
     (if mode \<noteq> AsyncPointer \<and> mode \<noteq> AsyncKeyboard \<and> mode \<noteq> AsyncBoth then GS_BadImplementation
      else let last_time =
             (if mode = AsyncKeyboard then gs_last_keyboard_grab_time s
              else if mode = AsyncBoth \<and> timestamp_after (gs_last_keyboard_grab_time s) (gs_last_pointer_grab_time s)
              then gs_last_keyboard_grab_time s else gs_last_pointer_grab_time s)
           in if valid_time request_time current_time last_time \<noteq> None then GS_Success else GS_InvalidTime)"

section \<open>Cleanup\<close>

definition release_active :: "'img grab_state \<Rightarrow> cleanup_result \<times> 'img grab_state" where
  "release_active s =
     (\<lparr>cl_pointer_released = gs_pointer_grab s \<noteq> None, cl_keyboard_released = gs_keyboard_grab s \<noteq> None, cl_passive_buttons_removed = 0\<rparr>,
      s\<lparr>gs_pointer_grab := None, gs_keyboard_grab := None\<rparr>)"

definition cleanup_client_grabs :: "u64 \<Rightarrow> 'img grab_state \<Rightarrow> cleanup_result \<times> 'img grab_state" where
  "cleanup_client_grabs client s =
     (let drop_pointer = (case gs_pointer_grab s of None \<Rightarrow> False | Some grab \<Rightarrow> pg_client grab = client);
          drop_keyboard = (case gs_keyboard_grab s of None \<Rightarrow> False | Some grab \<Rightarrow> kg_client grab = client);
          passives = filter (\<lambda>passive. pbq_client (pb_request passive) \<noteq> client) (gs_passive_buttons s)
      in (\<lparr>cl_pointer_released = drop_pointer, cl_keyboard_released = drop_keyboard,
            cl_passive_buttons_removed = length (gs_passive_buttons s) - length passives\<rparr>,
          s\<lparr>gs_pointer_grab := if drop_pointer then None else gs_pointer_grab s,
            gs_keyboard_grab := if drop_keyboard then None else gs_keyboard_grab s, gs_passive_buttons := passives\<rparr>))"

definition cleanup_window_grabs :: "u32 \<Rightarrow> 'img grab_state \<Rightarrow> cleanup_result \<times> 'img grab_state" where
  "cleanup_window_grabs window s =
     (let drop_pointer = (case gs_pointer_grab s of None \<Rightarrow> False | Some grab \<Rightarrow> pg_window grab = window);
          drop_keyboard = (case gs_keyboard_grab s of None \<Rightarrow> False | Some grab \<Rightarrow> kg_window grab = window);
          passives = filter (\<lambda>passive. pbq_window (pb_request passive) \<noteq> window) (gs_passive_buttons s)
      in (\<lparr>cl_pointer_released = drop_pointer, cl_keyboard_released = drop_keyboard,
            cl_passive_buttons_removed = length (gs_passive_buttons s) - length passives\<rparr>,
          s\<lparr>gs_pointer_grab := if drop_pointer then None else gs_pointer_grab s,
            gs_keyboard_grab := if drop_keyboard then None else gs_keyboard_grab s, gs_passive_buttons := passives\<rparr>))"

definition suspend :: "'img grab_state \<Rightarrow> cleanup_result \<times> 'img grab_state" where
  "suspend s = release_active s"

section \<open>The invariant\<close>

text \<open>Two passive grabs that wait for a common button press belong to one client and are not for the same one.\<close>

definition compatible_passives :: "'img passive_grab \<Rightarrow> 'img passive_grab \<Rightarrow> bool" where
  "compatible_passives p q \<longleftrightarrow>
     (passive_overlaps (pb_request p) (pb_request q) \<longrightarrow>
        pbq_client (pb_request p) = pbq_client (pb_request q) \<and>
        \<not> (pbq_button (pb_request p) = pbq_button (pb_request q) \<and> pbq_modifiers (pb_request p) = pbq_modifiers (pb_request q)))"

definition valid_passive :: "'img passive_request \<Rightarrow> bool" where
  "valid_passive request \<longleftrightarrow> valid_button (pbq_button request) \<and> valid_modifiers (pbq_modifiers request) \<and>
     pbq_event_mask request AND NOT kPointerGrabMask = 0"

definition passives_ok :: "'img passive_grab list \<Rightarrow> bool" where
  "passives_ok ps \<longleftrightarrow> (\<forall>p \<in> set ps. valid_passive (pb_request p)) \<and> sorted_wrt compatible_passives ps"

definition held_ok :: "'img pointer_grab \<Rightarrow> bool" where
  "held_ok grab \<longleftrightarrow> (pg_origin grab = Explicit \<longleftrightarrow> pg_held_buttons grab = 0) \<and> pg_event_mask grab AND NOT kPointerGrabMask = 0"

definition grabs_ok :: "'img grab_state \<Rightarrow> bool" where
  "grabs_ok s \<longleftrightarrow> passives_ok (gs_passive_buttons s) \<and> (\<forall>grab. gs_pointer_grab s = Some grab \<longrightarrow> held_ok grab)"

lemma compatible_passives_sym: "compatible_passives p q \<longleftrightarrow> compatible_passives q p"
  by (auto simp: compatible_passives_def passive_overlaps_def Let_def)

lemma button_bit_nonzero: "button \<ge> 1 \<Longrightarrow> button \<le> 9 \<Longrightarrow> button_bit button \<noteq> 0"
proof -
  assume b: "button \<ge> 1" "button \<le> 9"
  have "unat button - 1 < 16" using b by (simp add: word_le_nat_alt)
  then have "unat (button - 1) < 16" using b by (simp add: unat_sub)
  then have "bit (button_bit button) (unat (button - 1))" using b by (auto simp: button_bit_def not_less bit_simps)
  then show ?thesis by auto
qed

definition replaced_in :: "'img passive_request \<Rightarrow> 'img passive_grab list \<Rightarrow> 'img passive_grab list \<Rightarrow> bool" where
  "replaced_in request ps ps' \<longleftrightarrow> (\<exists>xs p ys. ps = xs @ p # ys \<and> ps' = xs @ p\<lparr>pb_request := request\<rparr> # ys \<and>
     pbq_client (pb_request p) = pbq_client request \<and> pbq_window (pb_request p) = pbq_window request \<and>
     pbq_button (pb_request p) = pbq_button request \<and> pbq_modifiers (pb_request p) = pbq_modifiers request)"

lemma replaced_in_here:
  "pbq_client (pb_request p) = pbq_client request \<Longrightarrow> pbq_window (pb_request p) = pbq_window request \<Longrightarrow>
   pbq_button (pb_request p) = pbq_button request \<Longrightarrow> pbq_modifiers (pb_request p) = pbq_modifiers request \<Longrightarrow>
   replaced_in request (p # ps) (p\<lparr>pb_request := request\<rparr> # ps)"
  unfolding replaced_in_def by (rule exI [of _ "[]"]) auto

lemma replaced_in_later: "replaced_in request ps ps' \<Longrightarrow> replaced_in request (p # ps) (p # ps')"
  unfolding replaced_in_def by (elim exE, rule_tac x = "p # xs" in exI) auto

lemma replace_passive_outcome:
  "case replace_passive request ps of
     None \<Rightarrow> \<forall>p \<in> set ps. compatible_passives p \<lparr>pb_request = request, pb_serial = n\<rparr>
   | Some (status, ps') \<Rightarrow>
       status = GS_BadAccess \<and> ps' = ps \<and> (\<exists>p \<in> set ps. passive_overlaps (pb_request p) request \<and> pbq_client (pb_request p) \<noteq> pbq_client request) \<or>
       status = GS_Success \<and> replaced_in request ps ps'"
proof (induction ps)
  case (Cons p ps)
  consider (skip) "replace_passive request (p # ps) = map_option (\<lambda>(status, others). (status, p # others)) (replace_passive request ps)"
      "compatible_passives p \<lparr>pb_request = request, pb_serial = n\<rparr>"
    | (refuse) "replace_passive request (p # ps) = Some (GS_BadAccess, p # ps)" "passive_overlaps (pb_request p) request"
      "pbq_client (pb_request p) \<noteq> pbq_client request"
    | (replace) "replace_passive request (p # ps) = Some (GS_Success, p\<lparr>pb_request := request\<rparr> # ps)"
      "pbq_client (pb_request p) = pbq_client request" "pbq_window (pb_request p) = pbq_window request"
      "pbq_button (pb_request p) = pbq_button request" "pbq_modifiers (pb_request p) = pbq_modifiers request"
  proof (cases "passive_overlaps (pb_request p) request")
    case True
    then have "pbq_window (pb_request p) = pbq_window request" by (simp add: passive_overlaps_def Let_def)
    with True that show ?thesis
      by (cases "pbq_client (pb_request p) = pbq_client request";
          cases "pbq_button (pb_request p) = pbq_button request \<and> pbq_modifiers (pb_request p) = pbq_modifiers request")
        (simp_all add: compatible_passives_def)
  qed (use that in \<open>simp add: compatible_passives_def\<close>)
  then show ?case
  proof cases
    case skip
    show ?thesis
    proof (cases "replace_passive request ps")
      case None
      with Cons skip show ?thesis by simp
    next
      case (Some r)
      obtain status ps' where r: "r = (status, ps')" by fastforce
      then show ?thesis using Cons Some skip r by (auto intro: replaced_in_later)
    qed
  next
    case replace
    then show ?thesis by (simp add: replaced_in_here)
  qed simp
qed simp

lemma valid_fields_mask: "validate_pointer_fields m pm km c cu v = GS_Success \<Longrightarrow> m AND NOT kPointerGrabMask = 0"
  by (auto simp: validate_pointer_fields_def split: if_splits)

lemma grab_button_ok:
  assumes "grabs_ok s"
  shows "grabs_ok (snd (grab_button request s))"
proof -
  let ?passive = "\<lparr>pb_request = request, pb_serial = gs_next_passive_serial s\<rparr>"
  consider "snd (grab_button request s) = s"
    | (valid) "valid_passive request" "snd (grab_button request s) =
        (case replace_passive request (gs_passive_buttons s) of
           Some (status, passives) \<Rightarrow> s\<lparr>gs_passive_buttons := passives\<rparr>
         | None \<Rightarrow> s\<lparr>gs_passive_buttons := gs_passive_buttons s @ [?passive], gs_next_passive_serial := gs_next_passive_serial s + 1\<rparr>)"
  proof (cases "valid_button (pbq_button request) \<and> valid_modifiers (pbq_modifiers request) \<and>
      validate_pointer_fields (pbq_event_mask request) (pbq_pointer_mode request) (pbq_keyboard_mode request)
        (pbq_confine_to request) (pbq_cursor request) (pbq_cursor_valid request) = GS_Success")
    case True
    then have "valid_passive request" using valid_fields_mask unfolding valid_passive_def by blast
    moreover have "snd (grab_button request s) =
        (case replace_passive request (gs_passive_buttons s) of
           Some (status, passives) \<Rightarrow> s\<lparr>gs_passive_buttons := passives\<rparr>
         | None \<Rightarrow> s\<lparr>gs_passive_buttons := gs_passive_buttons s @ [?passive], gs_next_passive_serial := gs_next_passive_serial s + 1\<rparr>)"
      using True by (simp add: grab_button_def split: option.split)
    ultimately show ?thesis by (rule that(2))
  next
    case False
    then have "snd (grab_button request s) = s" by (auto simp: grab_button_def Let_def)
    then show ?thesis by (rule that(1))
  qed
  then show ?thesis
  proof cases
    case valid
    note outcome = replace_passive_outcome [where request = request and ps = "gs_passive_buttons s" and n = "gs_next_passive_serial s"]
    have ok: "passives_ok (gs_passive_buttons s)" and pointer: "\<forall>grab. gs_pointer_grab s = Some grab \<longrightarrow> held_ok grab"
      using assms by (simp_all add: grabs_ok_def)
    show ?thesis
    proof (cases "replace_passive request (gs_passive_buttons s)")
      case None
      then have "passives_ok (gs_passive_buttons s @ [?passive])"
        using ok outcome valid(1) by (auto simp: passives_ok_def sorted_wrt_append)
      then show ?thesis using pointer None by (simp add: valid(2) grabs_ok_def)
    next
      case (Some r)
      obtain status ps' where r: "r = (status, ps')" by fastforce
      have "passives_ok ps'"
      proof (cases "status = GS_Success")
        case True
        then obtain xs p ys where "gs_passive_buttons s = xs @ p # ys" "ps' = xs @ p\<lparr>pb_request := request\<rparr> # ys"
          and same: "pbq_client (pb_request p) = pbq_client request" "pbq_window (pb_request p) = pbq_window request"
            "pbq_button (pb_request p) = pbq_button request" "pbq_modifiers (pb_request p) = pbq_modifiers request"
          using outcome Some r by (auto simp: replaced_in_def)
        moreover have "compatible_passives q (p\<lparr>pb_request := request\<rparr>) \<longleftrightarrow> compatible_passives q p"
          "compatible_passives (p\<lparr>pb_request := request\<rparr>) q \<longleftrightarrow> compatible_passives p q" for q
          by (simp_all add: compatible_passives_def passive_overlaps_def same)
        ultimately show ?thesis using ok valid(1) by (auto simp: passives_ok_def sorted_wrt_append)
      next
        case False
        with outcome Some r ok show ?thesis by auto
      qed
      then show ?thesis using pointer Some r by (simp add: valid(2) grabs_ok_def)
    qed
  qed (simp add: assms)
qed

lemma grabs_ok_passives: "grabs_ok s \<Longrightarrow> passives_ok (gs_passive_buttons s)"
  by (simp add: grabs_ok_def)

lemma automatic_mask: "kAutomaticGrabMask AND NOT kPointerGrabMask = 0"
  by (simp add: kAutomaticGrabMask_def kPointerGrabMask_def event_masks)

lemma pointer_grab_ok:
  assumes "grabs_ok s"
  shows "grabs_ok (snd (grab_pointer pr s))" "grabs_ok (snd (ungrab_pointer c rt ct s))"
    "grabs_ok (snd (change_active_pointer_grab c em cu cv ci rt ct s))"
    "grabs_ok (snd (grab_keyboard kr s))" "grabs_ok (snd (ungrab_keyboard c rt ct s))"
    "grabs_ok (snd (begin_automatic_button_grab c w b ct s))" "grabs_ok (note_button_press b s)"
    "grabs_ok (snd (note_button_release b s))"
proof -
  show "grabs_ok (snd (grab_pointer pr s))"
    using assms by (auto simp: grab_pointer_def grabs_ok_def held_ok_def Let_def valid_fields_mask split: option.splits)
  show "grabs_ok (snd (ungrab_pointer c rt ct s))"
    using assms by (auto simp: ungrab_pointer_def grabs_ok_def split: option.splits)
  show "grabs_ok (snd (change_active_pointer_grab c em cu cv ci rt ct s))"
    using assms by (auto simp: change_active_pointer_grab_def grabs_ok_def held_ok_def split: option.splits)
  show "grabs_ok (snd (grab_keyboard kr s))" "grabs_ok (snd (ungrab_keyboard c rt ct s))"
    using assms by (auto simp: grab_keyboard_def ungrab_keyboard_def grabs_ok_def split: option.splits)
  show "grabs_ok (snd (begin_automatic_button_grab c w b ct s))"
    using assms by (auto simp: begin_automatic_button_grab_def grabs_ok_def held_ok_def automatic_mask)
  show "grabs_ok (note_button_press b s)"
    using assms by (auto simp: note_button_press_def grabs_ok_def held_ok_def or_eq_0_iff split: option.splits)
  show "grabs_ok (snd (note_button_release b s))"
    using assms by (auto simp: note_button_release_def grabs_ok_def held_ok_def Let_def split: option.splits)
qed

section \<open>The grab a button press activates\<close>

text \<open>A passive grab waits for the button and modifiers on the window at a depth of the ancestry.\<close>

definition eligible :: "u8 \<Rightarrow> u16 \<Rightarrow> u32 list \<Rightarrow> 'img passive_grab \<Rightarrow> nat \<Rightarrow> bool" where
  "eligible button core_modifiers ancestry p depth \<longleftrightarrow>
     position (pbq_window (pb_request p)) ancestry = Some depth \<and> passive_matches button core_modifiers (pb_request p)"

definition ranks_before :: "'img passive_grab \<times> nat \<Rightarrow> 'img passive_grab \<times> nat \<Rightarrow> bool" where
  "ranks_before a b \<longleftrightarrow> (case (a, b) of ((p, d), (q, e)) \<Rightarrow>
     d < e \<or> d = e \<and> specificity (pb_request q) < specificity (pb_request p) \<or>
     d = e \<and> specificity (pb_request q) = specificity (pb_request p) \<and> pb_serial p \<le> pb_serial q)"

lemma better_passive_best:
  assumes "case acc of None \<Rightarrow> \<forall>q \<in> set qs. \<forall>e. \<not> eligible b m ancestry q e
    | Some (p, d, sp) \<Rightarrow> p \<in> set qs \<and> eligible b m ancestry p d \<and> sp = specificity (pb_request p) \<and>
        (\<forall>q \<in> set qs. \<forall>e. eligible b m ancestry q e \<longrightarrow> ranks_before (p, d) (q, e))"
  shows "case fold (better_passive b m ancestry) ps acc of None \<Rightarrow> \<forall>q \<in> set (qs @ ps). \<forall>e. \<not> eligible b m ancestry q e
    | Some (p, d, sp) \<Rightarrow> p \<in> set (qs @ ps) \<and> eligible b m ancestry p d \<and> sp = specificity (pb_request p) \<and>
        (\<forall>q \<in> set (qs @ ps). \<forall>e. eligible b m ancestry q e \<longrightarrow> ranks_before (p, d) (q, e))"
  using assms
proof (induction ps arbitrary: acc qs)
  case (Cons r ps)
  have "case better_passive b m ancestry r acc of None \<Rightarrow> \<forall>q \<in> set (qs @ [r]). \<forall>e. \<not> eligible b m ancestry q e
    | Some (p, d, sp) \<Rightarrow> p \<in> set (qs @ [r]) \<and> eligible b m ancestry p d \<and> sp = specificity (pb_request p) \<and>
        (\<forall>q \<in> set (qs @ [r]). \<forall>e. eligible b m ancestry q e \<longrightarrow> ranks_before (p, d) (q, e))"
  proof (cases "\<exists>d. eligible b m ancestry r d")
    case False
    then have "better_passive b m ancestry r acc = acc"
      by (auto simp: better_passive_def eligible_def split: option.split)
    then show ?thesis using Cons.prems False by (auto split: option.splits)
  next
    case True
    then obtain d where d: "position (pbq_window (pb_request r)) ancestry = Some d"
        "passive_matches b m (pb_request r)" by (auto simp: eligible_def)
    show ?thesis
    proof (cases acc)
      case None
      then show ?thesis using Cons.prems d by (auto simp: better_passive_def eligible_def Let_def ranks_before_def)
    next
      case (Some best)
      obtain p e sp where best: "best = (p, e, sp)" by (cases best)
      have p: "p \<in> set qs" "eligible b m ancestry p e" "sp = specificity (pb_request p)"
        "\<And>q f. q \<in> set qs \<Longrightarrow> eligible b m ancestry q f \<Longrightarrow> ranks_before (p, e) (q, f)"
        using Cons.prems by (auto simp: Some best)
      let ?better = "d < e \<or> d = e \<and> specificity (pb_request r) > sp \<or> d = e \<and> specificity (pb_request r) = sp \<and> pb_serial r < pb_serial p"
      have r: "eligible b m ancestry r f \<longleftrightarrow> f = d" for f using d by (auto simp: eligible_def)
      show ?thesis
      proof (cases ?better)
        case True
        then have "better_passive b m ancestry r acc = Some (r, d, specificity (pb_request r))"
          using d by (simp add: better_passive_def Some best Let_def)
        moreover have "ranks_before (r, d) (q, f)" if "q \<in> set qs" "eligible b m ancestry q f" for q f
          using True p(3) p(4) [OF that] unfolding ranks_before_def prod.case by (elim disjE conjE) (linarith | simp)+
        moreover have "ranks_before (r, d) (r, d)" by (simp add: ranks_before_def)
        ultimately show ?thesis using r by auto
      next
        case False
        then have "better_passive b m ancestry r acc = Some (p, e, sp)"
          using d by (auto simp: better_passive_def Some best Let_def)
        moreover have "ranks_before (p, e) (r, d)"
          using False p(3) unfolding ranks_before_def prod.case by (auto simp: not_less)
        ultimately show ?thesis using p r by auto
      qed
    qed
  qed
  from Cons.IH [OF this] show ?case by (simp only: append_assoc append_Cons append_Nil fold.simps o_apply)
qed (simp only: append_Nil2 fold.simps id_apply)

text \<open>Grabs at the same depth and of the same specificity are one grab: the serials never decide.\<close>

lemma eligible_unique:
  assumes "passives_ok ps" "p \<in> set ps" "q \<in> set ps" "eligible b m ancestry p d" "eligible b m ancestry q d"
    "specificity (pb_request p) = specificity (pb_request q)"
  shows "p = q"
proof (rule ccontr)
  assume "p \<noteq> q"
  obtain i j where ij: "i < length ps" "p = ps ! i" "j < length ps" "q = ps ! j" using assms(2,3) by (auto simp: in_set_conv_nth)
  with \<open>p \<noteq> q\<close> have "i < j \<or> j < i" by (metis nat_neq_iff)
  then have "compatible_passives p q"
    using assms(1) ij compatible_passives_sym [of p q] by (auto simp: passives_ok_def sorted_wrt_iff_nth_less)
  moreover have "pbq_window (pb_request p) = pbq_window (pb_request q)"
    using assms(4,5) position_Some [of "pbq_window (pb_request p)" ancestry d] position_Some [of "pbq_window (pb_request q)" ancestry d]
    by (auto simp: eligible_def)
  moreover have "pbq_button (pb_request p) = pbq_button (pb_request q)" "pbq_modifiers (pb_request p) = pbq_modifiers (pb_request q)"
    using assms(4-6) by (auto simp: eligible_def passive_matches_def specificity_def split: if_splits)
  ultimately show False by (simp add: compatible_passives_def passive_overlaps_def)
qed

lemma activate_passive_button_best:
  assumes "grabs_ok s"
  shows "case activate_passive_button b m ancestry ct s of
      (False, s') \<Rightarrow> s' = s \<and> (gs_pointer_grab s = None \<longrightarrow> valid_button b \<longrightarrow> b \<noteq> kAnyButton \<longrightarrow>
        (\<forall>q \<in> set (gs_passive_buttons s). \<forall>e. \<not> eligible b (m AND kCoreModifierMask) ancestry q e))
    | (True, s') \<Rightarrow> gs_pointer_grab s = None \<and> (\<exists>p \<in> set (gs_passive_buttons s). \<exists>d. eligible b (m AND kCoreModifierMask) ancestry p d \<and>
        (\<forall>q \<in> set (gs_passive_buttons s). \<forall>e. q \<noteq> p \<longrightarrow> eligible b (m AND kCoreModifierMask) ancestry q e \<longrightarrow>
           d < e \<or> d = e \<and> specificity (pb_request q) < specificity (pb_request p)) \<and>
        s' = s\<lparr>gs_pointer_grab := Some \<lparr>pg_origin = PassiveButton, pg_client = pbq_client (pb_request p),
            pg_window = pbq_window (pb_request p), pg_owner_events = pbq_owner_events (pb_request p),
            pg_event_mask = pbq_event_mask (pb_request p), pg_cursor = pbq_cursor (pb_request p),
            pg_cursor_image = pbq_cursor_image (pb_request p), pg_activation_time = ct, pg_held_buttons = button_bit b\<rparr>,
          gs_last_pointer_grab_time := ct\<rparr>)"
proof (cases "gs_pointer_grab s \<noteq> None \<or> b < 1 \<or> b > 9 \<or> ancestry = []")
  case True
  then show ?thesis
    by (auto simp: activate_passive_button_def valid_button_def kAnyButton_def eligible_def)
next
  case False
  note best = better_passive_best [where acc = None and qs = "[]" and ps = "gs_passive_buttons s" and b = b
      and m = "m AND kCoreModifierMask" and ancestry = ancestry]
  show ?thesis
  proof (cases "fold (better_passive b (m AND kCoreModifierMask) ancestry) (gs_passive_buttons s) None")
    case None
    then show ?thesis using best False by (simp add: activate_passive_button_def)
  next
    case (Some r)
    obtain p d sp where r: "r = (p, d, sp)" by (cases r)
    have p: "p \<in> set (gs_passive_buttons s)" "eligible b (m AND kCoreModifierMask) ancestry p d"
      "\<And>q e. q \<in> set (gs_passive_buttons s) \<Longrightarrow> eligible b (m AND kCoreModifierMask) ancestry q e \<Longrightarrow> ranks_before (p, d) (q, e)"
      using best by (auto simp: Some r)
    have "d < e \<or> d = e \<and> specificity (pb_request q) < specificity (pb_request p)"
      if "q \<in> set (gs_passive_buttons s)" "q \<noteq> p" "eligible b (m AND kCoreModifierMask) ancestry q e" for q e
      using p(3) [OF that(1,3)] eligible_unique [OF grabs_ok_passives [OF assms] that(1) p(1) that(3)] p(2) that(2)
      by (auto simp: ranks_before_def)
    then show ?thesis
      using False p(1,2) by (simp add: activate_passive_button_def Some r Let_def) blast
  qed
qed

lemma activate_ok:
  assumes "grabs_ok s"
  shows "grabs_ok (snd (activate_passive_button b m ancestry ct s))"
proof (cases "activate_passive_button b m ancestry ct s")
  case (Pair activated s')
  note best = activate_passive_button_best [OF assms, of b m ancestry ct, unfolded Pair prod.case]
  show ?thesis
  proof (cases activated)
    case True
    then have "\<not> b < 1" "\<not> b > 9" using Pair by (auto simp: activate_passive_button_def split: if_splits)
    then have "b \<ge> 1" "b \<le> 9" by (simp_all only: not_less)
    then have "button_bit b \<noteq> 0" by (rule button_bit_nonzero)
    with best True assms show ?thesis
      unfolding Pair by (auto simp: grabs_ok_def held_ok_def passives_ok_def valid_passive_def)
  qed (use best assms Pair in simp)
qed

section \<open>Reachable grabs\<close>

lemma passives_ok_filter: "passives_ok ps \<Longrightarrow> passives_ok (filter P ps)"
  by (auto simp: passives_ok_def sorted_wrt_filter)

lemma cleanup_ok:
  assumes "grabs_ok s"
  shows "grabs_ok (snd (cleanup_client_grabs c s))" "grabs_ok (snd (cleanup_window_grabs w s))" "grabs_ok (snd (suspend s))"
  using assms by (auto simp: cleanup_client_grabs_def cleanup_window_grabs_def suspend_def release_active_def grabs_ok_def Let_def passives_ok_filter)

text \<open>Everything the server does with its grabs.\<close>

datatype 'img grab_action =
    Grab_Pointer "'img pointer_grab_request"
  | Ungrab_Pointer u64 u32 u32
  | Change_Pointer_Grab u64 u32 u32 bool "'img option" u32 u32
  | Grab_Keyboard keyboard_grab_request
  | Ungrab_Keyboard u64 u32 u32
  | Automatic_Grab u64 u32 u8 u32
  | Button_Press u8
  | Button_Release u8
  | Grab_Button "'img passive_request"
  | Activate_Passive u8 u16 "u32 list" u32
  | Cleanup_Client u64
  | Cleanup_Window u32
  | Suspend

fun grab_step :: "'img grab_action \<Rightarrow> 'img grab_state \<Rightarrow> 'img grab_state" where
  "grab_step (Grab_Pointer request) s = snd (grab_pointer request s)"
| "grab_step (Ungrab_Pointer c rt ct) s = snd (ungrab_pointer c rt ct s)"
| "grab_step (Change_Pointer_Grab c em cu cv ci rt ct) s = snd (change_active_pointer_grab c em cu cv ci rt ct s)"
| "grab_step (Grab_Keyboard request) s = snd (grab_keyboard request s)"
| "grab_step (Ungrab_Keyboard c rt ct) s = snd (ungrab_keyboard c rt ct s)"
| "grab_step (Automatic_Grab c w b ct) s = snd (begin_automatic_button_grab c w b ct s)"
| "grab_step (Button_Press b) s = note_button_press b s"
| "grab_step (Button_Release b) s = snd (note_button_release b s)"
| "grab_step (Grab_Button request) s = snd (grab_button request s)"
| "grab_step (Activate_Passive b m ancestry ct) s = snd (activate_passive_button b m ancestry ct s)"
| "grab_step (Cleanup_Client c) s = snd (cleanup_client_grabs c s)"
| "grab_step (Cleanup_Window w) s = snd (cleanup_window_grabs w s)"
| "grab_step Suspend s = snd (suspend s)"

inductive grabs_reachable :: "'img grab_state \<Rightarrow> bool" where
  start: "grabs_reachable no_grabs"
| step: "grabs_reachable s \<Longrightarrow> grabs_reachable (grab_step action s)"

lemma grab_step_ok: "grabs_ok s \<Longrightarrow> grabs_ok (grab_step action s)"
  by (cases action) (simp_all add: pointer_grab_ok grab_button_ok activate_ok cleanup_ok)

lemma grabs_reachable_ok: "grabs_reachable s \<Longrightarrow> grabs_ok s"
  by (induction rule: grabs_reachable.induct) (simp_all add: grab_step_ok, simp add: no_grabs_def grabs_ok_def passives_ok_def)

section \<open>Who ends a grab\<close>

text \<open>The actions by which a pointer grab may end.\<close>

fun ends_pointer_grab :: "'img pointer_grab \<Rightarrow> 'img grab_action \<Rightarrow> bool" where
  "ends_pointer_grab grab (Ungrab_Pointer c rt ct) = (c = pg_client grab)"
| "ends_pointer_grab grab (Button_Release b) = (pg_origin grab \<noteq> Explicit \<and> pg_held_buttons grab AND NOT (button_bit b) = 0)"
| "ends_pointer_grab grab (Cleanup_Client c) = (c = pg_client grab)"
| "ends_pointer_grab grab (Cleanup_Window w) = (w = pg_window grab)"
| "ends_pointer_grab grab Suspend = True"
| "ends_pointer_grab grab _ = False"

fun ends_keyboard_grab :: "keyboard_grab \<Rightarrow> 'img grab_action \<Rightarrow> bool" where
  "ends_keyboard_grab grab (Ungrab_Keyboard c rt ct) = (c = kg_client grab)"
| "ends_keyboard_grab grab (Cleanup_Client c) = (c = kg_client grab)"
| "ends_keyboard_grab grab (Cleanup_Window w) = (w = kg_window grab)"
| "ends_keyboard_grab grab Suspend = True"
| "ends_keyboard_grab grab _ = False"

text \<open>What no action changes of a pointer grab.\<close>

definition same_pointer_grab :: "'img pointer_grab \<Rightarrow> 'img pointer_grab \<Rightarrow> bool" where
  "same_pointer_grab g h \<longleftrightarrow> pg_origin g = pg_origin h \<and> pg_client g = pg_client h \<and> pg_window g = pg_window h \<and>
     pg_owner_events g = pg_owner_events h \<and> pg_activation_time g = pg_activation_time h"

lemmas grab_operations = grab_pointer_def ungrab_pointer_def change_active_pointer_grab_def grab_keyboard_def ungrab_keyboard_def
  begin_automatic_button_grab_def note_button_press_def note_button_release_def activate_passive_button_def
  cleanup_client_grabs_def cleanup_window_grabs_def suspend_def release_active_def

lemma grab_button_pointer: "gs_pointer_grab (snd (grab_button request s)) = gs_pointer_grab s"
    "gs_keyboard_grab (snd (grab_button request s)) = gs_keyboard_grab s"
  by (auto simp: grab_button_def Let_def split: option.split)

lemma pointer_grab_kept:
  assumes "gs_pointer_grab s = Some grab"
  shows "case gs_pointer_grab (grab_step action s) of None \<Rightarrow> ends_pointer_grab grab action
    | Some grab' \<Rightarrow> same_pointer_grab grab grab' \<and>
        ((pg_event_mask grab', pg_cursor grab') \<noteq> (pg_event_mask grab, pg_cursor grab) \<longrightarrow>
          (\<exists>em cu cv ci rt ct. action = Change_Pointer_Grab (pg_client grab) em cu cv ci rt ct))"
  using assms
  by (cases action) (auto simp: grab_operations grab_button_pointer same_pointer_grab_def Let_def split: option.splits)

lemma keyboard_grab_kept:
  assumes "gs_keyboard_grab s = Some grab"
  shows "gs_keyboard_grab (grab_step action s) = (if gs_keyboard_grab (grab_step action s) = None \<and> ends_keyboard_grab grab action then None else Some grab)"
  using assms
  by (cases action) (auto simp: grab_operations grab_button_pointer Let_def split: option.splits)

end
