(* ===== verification/Srv_Atoms.thy ===== *)
theory Srv_Atoms
  imports X11_Core
begin

text \<open>
  The atoms of the server (\<open>glasswyrmd/atom_table.hpp\<close>, \<open>glasswyrmd/atom_table.cpp\<close>): a two-way table of names and
  numbers that starts with the predefined atoms and numbers new names in turn. Running out of memory, which the
  code reports as exhaustion, is not modelled.
\<close>

definition kHighestPredefinedAtom :: u32 where
  "kHighestPredefinedAtom = kLastPredefinedAtom"

datatype intern_status = IA_Success | IA_Exhausted

record intern_result =
  ia_status :: intern_status
  ia_atom :: u32

record atom_table =
  at_ids_by_name :: "(string, u32) fmap"
  at_names_by_id :: "(u32, string) fmap"
  at_next_dynamic_atom :: u32
  at_maximum_atom :: u32

definition new_atom_table :: "u32 \<Rightarrow> atom_table" where
  "new_atom_table maximum_atom =
     \<lparr>at_ids_by_name = fold (\<lambda>(i, name). emplace name i) kPredefinedAtoms fmempty,
      at_names_by_id = fold (\<lambda>(i, name). emplace i name) kPredefinedAtoms fmempty,
      at_next_dynamic_atom = kHighestPredefinedAtom + 1, at_maximum_atom = maximum_atom\<rparr>"

definition find_atom :: "string \<Rightarrow> atom_table \<Rightarrow> u32 option" where
  "find_atom name t = fmlookup (at_ids_by_name t) name"

definition atom_name :: "u32 \<Rightarrow> atom_table \<Rightarrow> string option" where
  "atom_name atom t = fmlookup (at_names_by_id t) atom"

definition valid_atom :: "u32 \<Rightarrow> bool \<Rightarrow> atom_table \<Rightarrow> bool" where
  "valid_atom atom allow_none t \<longleftrightarrow> allow_none \<and> atom = 0 \<or> fmlookup (at_names_by_id t) atom \<noteq> None"

definition intern_atom :: "string \<Rightarrow> bool \<Rightarrow> atom_table \<Rightarrow> intern_result \<times> atom_table" where
  "intern_atom name only_if_exists t =
     (case find_atom name t of
        Some existing \<Rightarrow> (\<lparr>ia_status = IA_Success, ia_atom = existing\<rparr>, t)
      | None \<Rightarrow>
          if only_if_exists then (\<lparr>ia_status = IA_Success, ia_atom = 0\<rparr>, t)
          else if at_next_dynamic_atom t = 0 \<or> at_next_dynamic_atom t > at_maximum_atom t
          then (\<lparr>ia_status = IA_Exhausted, ia_atom = 0\<rparr>, t)
          else let atom = at_next_dynamic_atom t
               in (\<lparr>ia_status = IA_Success, ia_atom = atom\<rparr>,
                   t\<lparr>at_ids_by_name := emplace name atom (at_ids_by_name t),
                     at_names_by_id := emplace atom name (at_names_by_id t),
                     at_next_dynamic_atom := if atom = - 1 then 0 else atom + 1\<rparr>))"

section \<open>The invariant\<close>

text \<open>The two maps are inverse to each other, and the numbers in use are the ones below the next number.\<close>

definition atoms_ok :: "atom_table \<Rightarrow> bool" where
  "atoms_ok t \<longleftrightarrow>
     (\<forall>name atom. find_atom name t = Some atom \<longleftrightarrow> atom_name atom t = Some name) \<and>
     (\<forall>atom. (\<exists>name. atom_name atom t = Some name) \<longleftrightarrow> atom \<noteq> 0 \<and> (at_next_dynamic_atom t = 0 \<or> atom < at_next_dynamic_atom t)) \<and>
     (\<forall>(atom, name) \<in> set kPredefinedAtoms. atom_name atom t = Some name) \<and>
     (at_next_dynamic_atom t = 0 \<or> kHighestPredefinedAtom < at_next_dynamic_atom t)"

inductive atoms_reachable :: "atom_table \<Rightarrow> bool" where
  start: "atoms_reachable (new_atom_table maximum_atom)"
| intern: "atoms_reachable t \<Longrightarrow> atoms_reachable (snd (intern_atom name only t))"

lemma lookup_emplace_all:
  "fmlookup (fold (\<lambda>(k, v). emplace k v) ps m) k = (case fmlookup m k of Some v \<Rightarrow> Some v | None \<Rightarrow> map_of ps k)"
proof (induction ps arbitrary: m)
  case (Cons p ps)
  obtain i v where p: "p = (i, v)" by fastforce
  show ?case using Cons.IH [of "emplace i v m"] by (auto simp: p emplace_def split: option.splits)
qed (simp split: option.split)

definition swapped_atoms :: "(string \<times> u32) list" where
  "swapped_atoms = map (\<lambda>(i, name). (name, i)) kPredefinedAtoms"

lemma predefined_numbers: "map fst kPredefinedAtoms = map word_of_nat [1..<69]"
  by (simp add: kPredefinedAtoms_def upt_rec)

lemma predefined_names_distinct: "distinct (map snd kPredefinedAtoms)"
  by (simp add: kPredefinedAtoms_def)

lemma highest_predefined: "kHighestPredefinedAtom = 68"
  by (simp add: kHighestPredefinedAtom_def kLastPredefinedAtom_def kPredefinedAtoms_def)

lemma small_number: "n < 69 \<Longrightarrow> unat (word_of_nat n :: u32) = n"
  by (simp add: unat_of_nat)

lemma predefined_distinct: "distinct (map fst kPredefinedAtoms)" "distinct (map fst swapped_atoms)"
proof -
  have "inj_on (word_of_nat :: nat \<Rightarrow> u32) (set [1..<69])"
    by (intro inj_onI) (metis atLeastLessThan_iff set_upt small_number)
  then show "distinct (map fst kPredefinedAtoms)" unfolding predefined_numbers by (simp only: distinct_map distinct_upt)
  have "map fst swapped_atoms = map snd kPredefinedAtoms" by (simp add: swapped_atoms_def case_prod_beta)
  then show "distinct (map fst swapped_atoms)" by (simp only: predefined_names_distinct)
qed

lemma predefined_range: "(a, name) \<in> set kPredefinedAtoms \<Longrightarrow> a \<noteq> 0 \<and> a < 69"
    "a \<noteq> 0 \<Longrightarrow> a < 69 \<Longrightarrow> \<exists>name. (a, name) \<in> set kPredefinedAtoms"
proof -
  have range: "a \<in> fst ` set kPredefinedAtoms \<longleftrightarrow> a \<noteq> 0 \<and> a < 69"
  proof -
    have "fst ` set kPredefinedAtoms = word_of_nat ` {1..<69}" using predefined_numbers by (metis list.set_map set_upt)
    moreover have "a \<in> word_of_nat ` {1..<69} \<longleftrightarrow> a \<noteq> 0 \<and> a < 69"
    proof
      assume "a \<noteq> 0 \<and> a < 69"
      then have "unat a \<in> {1..<69}" by (simp add: word_less_nat_alt unat_gt_0 Suc_le_eq)
      then show "a \<in> word_of_nat ` {1..<69}" by (intro image_eqI [of a _ "unat a"]) simp_all
    next
      assume "a \<in> word_of_nat ` {1..<69}"
      then obtain n where "a = word_of_nat n" "1 \<le> n" "n < 69" by auto
      then show "a \<noteq> 0 \<and> a < 69" using small_number [of n] by (auto simp: word_less_nat_alt unat_eq_zero)
    qed
    ultimately show ?thesis by simp
  qed
  show "(a, name) \<in> set kPredefinedAtoms \<Longrightarrow> a \<noteq> 0 \<and> a < 69" using range by (metis fst_conv image_eqI)
  show "a \<noteq> 0 \<Longrightarrow> a < 69 \<Longrightarrow> \<exists>name. (a, name) \<in> set kPredefinedAtoms" using range by force
qed

lemma new_atom_table_lookup:
  "atom_name a (new_atom_table m) = Some n \<longleftrightarrow> (a, n) \<in> set kPredefinedAtoms"
  "find_atom n (new_atom_table m) = Some a \<longleftrightarrow> (a, n) \<in> set kPredefinedAtoms"
proof -
  show "atom_name a (new_atom_table m) = Some n \<longleftrightarrow> (a, n) \<in> set kPredefinedAtoms"
    by (simp add: atom_name_def new_atom_table_def lookup_emplace_all map_of_eq_Some_iff predefined_distinct)
  have "fold (\<lambda>(i, name). emplace name i) kPredefinedAtoms fmempty = fold (\<lambda>(k, v). emplace k v) swapped_atoms fmempty"
    unfolding swapped_atoms_def fold_map comp_def by (rule arg_cong [of _ _ "\<lambda>f. fold f kPredefinedAtoms fmempty"]) auto
  then have "find_atom n (new_atom_table m) = map_of swapped_atoms n"
    by (simp add: find_atom_def new_atom_table_def lookup_emplace_all)
  then show "find_atom n (new_atom_table m) = Some a \<longleftrightarrow> (a, n) \<in> set kPredefinedAtoms"
    by (auto simp: map_of_eq_Some_iff predefined_distinct) (auto simp: swapped_atoms_def)
qed

lemma new_atoms_ok: "atoms_ok (new_atom_table m)"
proof -
  have "at_next_dynamic_atom (new_atom_table m) = 69" by (simp add: new_atom_table_def highest_predefined)
  then show ?thesis using predefined_range by (auto simp: atoms_ok_def new_atom_table_lookup highest_predefined)
qed

lemma intern_new:
  assumes "atoms_ok t" "find_atom name t = None" "\<not> only" "at_next_dynamic_atom t \<noteq> 0" "at_next_dynamic_atom t \<le> at_maximum_atom t"
  defines "t' \<equiv> snd (intern_atom name only t)"
  shows "ia_status (fst (intern_atom name only t)) = IA_Success" "ia_atom (fst (intern_atom name only t)) = at_next_dynamic_atom t"
    "find_atom n t' = (if n = name then Some (at_next_dynamic_atom t) else find_atom n t)"
    "atom_name a t' = (if a = at_next_dynamic_atom t then Some name else atom_name a t)"
    "at_next_dynamic_atom t' = at_next_dynamic_atom t + 1"
proof -
  have fresh: "atom_name (at_next_dynamic_atom t) t = None"
  proof (rule ccontr)
    assume "atom_name (at_next_dynamic_atom t) t \<noteq> None"
    then obtain n where "atom_name (at_next_dynamic_atom t) t = Some n" by blast
    then show False using assms(1,4) unfolding atoms_ok_def by blast
  qed
  have step: "intern_atom name only t = (\<lparr>ia_status = IA_Success, ia_atom = at_next_dynamic_atom t\<rparr>,
      t\<lparr>at_ids_by_name := fmupd name (at_next_dynamic_atom t) (at_ids_by_name t),
        at_names_by_id := fmupd (at_next_dynamic_atom t) name (at_names_by_id t), at_next_dynamic_atom := at_next_dynamic_atom t + 1\<rparr>)"
    using assms(2-5) fresh by (simp add: intern_atom_def Let_def emplace_def find_atom_def atom_name_def not_less)
  show "ia_status (fst (intern_atom name only t)) = IA_Success" "ia_atom (fst (intern_atom name only t)) = at_next_dynamic_atom t"
    "find_atom n t' = (if n = name then Some (at_next_dynamic_atom t) else find_atom n t)"
    "atom_name a t' = (if a = at_next_dynamic_atom t then Some name else atom_name a t)"
    "at_next_dynamic_atom t' = at_next_dynamic_atom t + 1"
    by (simp_all add: t'_def step find_atom_def atom_name_def)
qed

lemma word_next: "a < m + 1 \<longleftrightarrow> a \<le> m" if "m + 1 \<noteq> 0" for a m :: u32
  using that unatSuc [of m] by (simp add: word_less_nat_alt word_le_nat_alt add.commute less_Suc_eq_le)

lemma intern_atoms_ok:
  assumes "atoms_ok t"
  shows "atoms_ok (snd (intern_atom name only t))"
proof (cases "find_atom name t = None \<and> \<not> only \<and> at_next_dynamic_atom t \<noteq> 0 \<and> at_next_dynamic_atom t \<le> at_maximum_atom t")
  case False
  then have "snd (intern_atom name only t) = t" by (auto simp: intern_atom_def not_le split: option.split)
  then show ?thesis using assms by simp
next
  case True
  define m where "m = at_next_dynamic_atom t"
  from True have c: "find_atom name t = None" "\<not> only" "at_next_dynamic_atom t \<noteq> 0" "at_next_dynamic_atom t \<le> at_maximum_atom t" by simp_all
  note new = intern_new [OF assms c, folded m_def]
  have new': "find_atom n (snd (intern_atom name only t)) = (if n = name then Some m else find_atom n t)"
    "atom_name a (snd (intern_atom name only t)) = (if a = m then Some name else atom_name a t)"
    "at_next_dynamic_atom (snd (intern_atom name only t)) = m + 1" for n a
    by (rule new)+
  note ok = assms [unfolded atoms_ok_def, folded m_def]
  have inverse: "find_atom n t = Some a \<longleftrightarrow> atom_name a t = Some n" for n a
    by (rule ok [THEN conjunct1, THEN spec, THEN spec])
  have used: "(\<exists>n. atom_name a t = Some n) \<longleftrightarrow> a \<noteq> 0 \<and> (m = 0 \<or> a < m)" for a
    by (rule ok [THEN conjunct2, THEN conjunct1, THEN spec])
  have predefined: "atom_name a t = Some n" if "(a, n) \<in> set kPredefinedAtoms" for a n
    using bspec [OF ok [THEN conjunct2, THEN conjunct2, THEN conjunct1] that] by (simp only: prod.case)
  have high: "m = 0 \<or> kHighestPredefinedAtom < m" using ok by (elim conjE)
  have m: "m \<noteq> 0" using True by (simp add: m_def)
  have step: "m + 1 = 0 \<or> (\<forall>a. a < m + 1 \<longleftrightarrow> a \<le> m)" using word_next by blast
  have all: "a \<le> m" if "m + 1 = 0" for a :: u32
  proof -
    have "m = - 1" using that by (simp only: eq_neg_iff_add_eq_0)
    then show ?thesis by simp
  qed
  show ?thesis
    unfolding atoms_ok_def new'
  proof (intro conjI allI)
    show "((if n = name then Some m else find_atom n t) = Some a) = ((if a = m then Some name else atom_name a t) = Some n)" for n a
      using inverse [of n a] inverse [of name a] used [of m] True m by auto
    show "(\<exists>n. (if a = m then Some name else atom_name a t) = Some n) = (a \<noteq> 0 \<and> (m + 1 = 0 \<or> a < m + 1))" for a
      using used [of a] m step all [of a] by (auto simp: order_le_less)
    show "\<forall>(a, n) \<in> set kPredefinedAtoms. (if a = m then Some name else atom_name a t) = Some n"
    proof (rule ballI, clarify)
      fix a n
      assume "(a, n) \<in> set kPredefinedAtoms"
      then have "atom_name a t = Some n" by (rule predefined)
      moreover have "a \<noteq> m" using calculation used [of m] by auto
      ultimately show "(if a = m then Some name else atom_name a t) = Some n" by simp
    qed
    show "m + 1 = 0 \<or> kHighestPredefinedAtom < m + 1" using high m step by (auto simp: order_le_less)
  qed
qed

lemma atoms_reachable_ok: "atoms_reachable t \<Longrightarrow> atoms_ok t"
  by (induction rule: atoms_reachable.induct) (simp_all add: new_atoms_ok intern_atoms_ok)

text \<open>What one request to intern a name does.\<close>

lemma intern_outcome:
  assumes "atoms_ok t" "intern_atom name only t = (result, t')"
  shows "\<forall>n a. find_atom n t = Some a \<longrightarrow> find_atom n t' = Some a"
    "ia_status result = IA_Exhausted \<longleftrightarrow> find_atom name t = None \<and> \<not> only \<and>
       (at_next_dynamic_atom t = 0 \<or> at_next_dynamic_atom t > at_maximum_atom t)"
    "ia_atom result \<noteq> 0 \<longleftrightarrow> find_atom name t' \<noteq> None"
    "ia_atom result \<noteq> 0 \<Longrightarrow> find_atom name t' = Some (ia_atom result) \<and> atom_name (ia_atom result) t' = Some name"
proof -
  have nonzero: "a \<noteq> 0" if "find_atom n t = Some a" for n a
    using assms(1) that unfolding atoms_ok_def by blast
  have names: "atom_name a t = Some n" if "find_atom n t = Some a" for n a
    using assms(1) that unfolding atoms_ok_def by blast
  have "(\<forall>n a. find_atom n t = Some a \<longrightarrow> find_atom n t' = Some a) \<and>
    (ia_status result = IA_Exhausted \<longleftrightarrow> find_atom name t = None \<and> \<not> only \<and>
       (at_next_dynamic_atom t = 0 \<or> at_next_dynamic_atom t > at_maximum_atom t)) \<and>
    (ia_atom result \<noteq> 0 \<longleftrightarrow> find_atom name t' \<noteq> None) \<and>
    (ia_atom result \<noteq> 0 \<longrightarrow> find_atom name t' = Some (ia_atom result) \<and> atom_name (ia_atom result) t' = Some name)"
  proof -
  consider (known) a where "find_atom name t = Some a" "result = \<lparr>ia_status = IA_Success, ia_atom = a\<rparr>" "t' = t"
    | (absent) "find_atom name t = None" "only" "result = \<lparr>ia_status = IA_Success, ia_atom = 0\<rparr>" "t' = t"
    | (full) "find_atom name t = None" "\<not> only" "at_next_dynamic_atom t = 0 \<or> at_next_dynamic_atom t > at_maximum_atom t"
        "result = \<lparr>ia_status = IA_Exhausted, ia_atom = 0\<rparr>" "t' = t"
    | (new) "find_atom name t = None" "\<not> only" "at_next_dynamic_atom t \<noteq> 0" "at_next_dynamic_atom t \<le> at_maximum_atom t"
    using assms(2) by (cases "find_atom name t") (auto simp: intern_atom_def not_less split: if_splits)
    then show ?thesis
  proof cases
    case known
    then show ?thesis using nonzero names by auto
  next
    case new
    note n = intern_new [OF assms(1) new, unfolded assms(2) fst_conv snd_conv]
    show ?thesis using new by (auto simp: n)
  qed auto
  qed
  then show "\<forall>n a. find_atom n t = Some a \<longrightarrow> find_atom n t' = Some a"
    "ia_status result = IA_Exhausted \<longleftrightarrow> find_atom name t = None \<and> \<not> only \<and>
       (at_next_dynamic_atom t = 0 \<or> at_next_dynamic_atom t > at_maximum_atom t)"
    "ia_atom result \<noteq> 0 \<longleftrightarrow> find_atom name t' \<noteq> None"
    "ia_atom result \<noteq> 0 \<Longrightarrow> find_atom name t' = Some (ia_atom result) \<and> atom_name (ia_atom result) t' = Some name"
    by blast+
qed

end
