(* ===== verification/Srv_Selections.thy ===== *)
theory Srv_Selections
  imports X11_Core
begin

text \<open>
  The selections of the server (\<open>glasswyrmd/selection_store.hpp\<close>, \<open>glasswyrmd/selection_store.cpp\<close>): who owns each
  selection since when, and which clients are told of changes.

  The order in which the code visits its hash table is not fixed; every list it returns is sorted by a unique key,
  so the models sort the keys. Notifications to one client keep the order of the subscriptions here, where the code
  leaves it open. Running out of memory is not modelled.
\<close>

record selection_owner =
  so_client :: u64
  so_window :: u32
  so_last_change_time :: u32

record xfixes_subscription =
  xs_client :: u64
  xs_window :: u32
  xs_selection :: u32
  xs_mask :: u32

record xfixes_notification =
  xn_client :: u64
  xn_subtype :: u8
  xn_window :: u32
  xn_owner :: u32
  xn_selection :: u32
  xn_timestamp :: u32
  xn_selection_timestamp :: u32

datatype ownership_status = SO_Applied | SO_IgnoredStaleTime | SO_InvalidSelection | SO_InvalidOwnerWindow

record ownership_change =
  oc_status :: ownership_status
  oc_effective_time :: u32
  oc_previous_owner :: "selection_owner option"

datatype conversion_kind = NotifyNoOwner | ForwardToOwner

record selection_conversion =
  sv_kind :: conversion_kind
  sv_requestor_client :: u64
  sv_requestor_window :: u32
  sv_selection :: u32
  sv_target :: u32
  sv_property :: u32
  sv_time :: u32
  sv_owner :: "selection_owner option"

record selection_store =
  ss_owners :: "(u32, selection_owner) fmap"
  ss_subscriptions :: "xfixes_subscription list"

definition no_selections :: selection_store where
  "no_selections = \<lparr>ss_owners = fmempty, ss_subscriptions = []\<rparr>"

definition effective_time :: "u32 \<Rightarrow> u32 \<Rightarrow> u32" where
  "effective_time request_time server_time = (if request_time = 0 then server_time else request_time)"

definition set_owner :: "u64 \<Rightarrow> u32 \<Rightarrow> u32 \<Rightarrow> bool \<Rightarrow> u32 \<Rightarrow> u32 \<Rightarrow> selection_store \<Rightarrow> ownership_change \<times> selection_store" where
  "set_owner client selection owner_window owner_window_exists request_time server_time s =
     (let result = \<lparr>oc_status = SO_Applied, oc_effective_time = effective_time request_time server_time, oc_previous_owner = None\<rparr>
      in if selection = 0 then (result\<lparr>oc_status := SO_InvalidSelection\<rparr>, s)
         else if owner_window \<noteq> 0 \<and> \<not> owner_window_exists then (result\<lparr>oc_status := SO_InvalidOwnerWindow\<rparr>, s)
         else let current = fmlookup (ss_owners s) selection;
                  last_change = (case current of None \<Rightarrow> 0 | Some owner \<Rightarrow> so_last_change_time owner)
              in if last_change \<noteq> 0 \<and> timestamp_after last_change (oc_effective_time result) \<or>
                    timestamp_after (oc_effective_time result) server_time
                 then (result\<lparr>oc_status := SO_IgnoredStaleTime\<rparr>, s)
                 else (result\<lparr>oc_previous_owner := current\<rparr>,
                       s\<lparr>ss_owners := if owner_window = 0 then fmdrop selection (ss_owners s)
                           else fmupd selection \<lparr>so_client = client, so_window = owner_window,
                                  so_last_change_time = oc_effective_time result\<rparr> (ss_owners s)\<rparr>))"

definition selection_owner_of :: "u32 \<Rightarrow> selection_store \<Rightarrow> selection_owner option" where
  "selection_owner_of selection s = fmlookup (ss_owners s) selection"

definition convert_selection :: "u64 \<Rightarrow> u32 \<Rightarrow> u32 \<Rightarrow> u32 \<Rightarrow> u32 \<Rightarrow> u32 \<Rightarrow> u32 \<Rightarrow> selection_store \<Rightarrow> selection_conversion" where
  "convert_selection requestor_client requestor_window selection target property request_time server_time s =
     (let owner = selection_owner_of selection s
      in \<lparr>sv_kind = if owner \<noteq> None then ForwardToOwner else NotifyNoOwner, sv_requestor_client = requestor_client,
          sv_requestor_window = requestor_window, sv_selection = selection, sv_target = target,
          sv_property = if owner = None then 0 else property, sv_time = effective_time request_time server_time, sv_owner = owner\<rparr>)"

text \<open>The selections whose owner satisfies a condition, in order.\<close>

definition selections_where :: "(selection_owner \<Rightarrow> bool) \<Rightarrow> selection_store \<Rightarrow> u32 list" where
  "selections_where P s = filter (\<lambda>k. case fmlookup (ss_owners s) k of Some owner \<Rightarrow> P owner | None \<Rightarrow> False)
     (sorted_list_of_fset (fmdom (ss_owners s)))"

definition clear_window :: "u32 \<Rightarrow> selection_store \<Rightarrow> u32 list \<times> selection_store" where
  "clear_window window s =
     (selections_where (\<lambda>owner. so_window owner = window) s,
      s\<lparr>ss_owners := fmfilter (\<lambda>k. case fmlookup (ss_owners s) k of Some owner \<Rightarrow> so_window owner \<noteq> window | None \<Rightarrow> False) (ss_owners s),
        ss_subscriptions := filter (\<lambda>x. xs_window x \<noteq> window) (ss_subscriptions s)\<rparr>)"

definition clear_client :: "u64 \<Rightarrow> selection_store \<Rightarrow> u32 list \<times> selection_store" where
  "clear_client client s =
     (selections_where (\<lambda>owner. so_client owner = client) s,
      s\<lparr>ss_owners := fmfilter (\<lambda>k. case fmlookup (ss_owners s) k of Some owner \<Rightarrow> so_client owner \<noteq> client | None \<Rightarrow> False) (ss_owners s),
        ss_subscriptions := filter (\<lambda>x. xs_client x \<noteq> client) (ss_subscriptions s)\<rparr>)"

definition maximum_subscriptions :: nat where
  "maximum_subscriptions = 4096"

definition subscription_key :: "xfixes_subscription \<Rightarrow> u64 \<times> u32 \<times> u32" where
  "subscription_key x = (xs_client x, xs_window x, xs_selection x)"

text \<open>\<open>find_if\<close> with the erasure and the assignment of the element it finds.\<close>

fun erase_first :: "('a \<Rightarrow> bool) \<Rightarrow> 'a list \<Rightarrow> 'a list" where
  "erase_first P [] = []"
| "erase_first P (x # xs) = (if P x then xs else x # erase_first P xs)"

fun update_first :: "('a \<Rightarrow> bool) \<Rightarrow> ('a \<Rightarrow> 'a) \<Rightarrow> 'a list \<Rightarrow> 'a list" where
  "update_first P f [] = []"
| "update_first P f (x # xs) = (if P x then f x # xs else x # update_first P f xs)"

definition select_xfixes :: "u64 \<Rightarrow> u32 \<Rightarrow> u32 \<Rightarrow> u32 \<Rightarrow> selection_store \<Rightarrow> bool \<times> selection_store" where
  "select_xfixes client window selection event_mask s =
     (let found = (\<lambda>x. subscription_key x = (client, window, selection))
      in if event_mask = 0 then (True, s\<lparr>ss_subscriptions := erase_first found (ss_subscriptions s)\<rparr>)
         else if \<exists>x \<in> set (ss_subscriptions s). found x
         then (True, s\<lparr>ss_subscriptions := update_first found (\<lambda>x. x\<lparr>xs_mask := event_mask\<rparr>) (ss_subscriptions s)\<rparr>)
         else if length (ss_subscriptions s) \<ge> maximum_subscriptions then (False, s)
         else (True, s\<lparr>ss_subscriptions := ss_subscriptions s @
                [\<lparr>xs_client = client, xs_window = window, xs_selection = selection, xs_mask = event_mask\<rparr>]\<rparr>))"

text \<open>The bit of a subtype; C++ leaves a shift by 32 or more undefined, and the callers pass 0 to 2.\<close>

definition xfixes_notifications :: "u32 \<Rightarrow> u8 \<Rightarrow> u32 \<Rightarrow> u32 \<Rightarrow> u32 \<Rightarrow> selection_store \<Rightarrow> xfixes_notification list" where
  "xfixes_notifications selection subtype owner timestamp selection_timestamp s =
     sort_key xn_client (map (\<lambda>x. \<lparr>xn_client = xs_client x, xn_subtype = subtype, xn_window = xs_window x, xn_owner = owner,
         xn_selection = selection, xn_timestamp = timestamp, xn_selection_timestamp = selection_timestamp\<rparr>)
       (filter (\<lambda>x. xs_selection x = selection \<and> xs_mask x AND push_bit (unat subtype) 1 \<noteq> 0) (ss_subscriptions s)))"

definition owned_by_client :: "u64 \<Rightarrow> selection_store \<Rightarrow> (u32 \<times> selection_owner) list" where
  "owned_by_client client s =
     List.map_filter (\<lambda>k. map_option (Pair k) (fmlookup (ss_owners s) k)) (selections_where (\<lambda>owner. so_client owner = client) s)"

definition owned_by_window :: "u32 \<Rightarrow> selection_store \<Rightarrow> (u32 \<times> selection_owner) list" where
  "owned_by_window window s =
     List.map_filter (\<lambda>k. map_option (Pair k) (fmlookup (ss_owners s) k)) (selections_where (\<lambda>owner. so_window owner = window) s)"

section \<open>The invariant\<close>

definition selections_ok :: "selection_store \<Rightarrow> bool" where
  "selections_ok s \<longleftrightarrow>
     (\<forall>selection owner. fmlookup (ss_owners s) selection = Some owner \<longrightarrow> selection \<noteq> 0 \<and> so_window owner \<noteq> 0) \<and>
     distinct (map subscription_key (ss_subscriptions s)) \<and> (\<forall>x \<in> set (ss_subscriptions s). xs_mask x \<noteq> 0) \<and>
     length (ss_subscriptions s) \<le> maximum_subscriptions"

datatype selection_action = Set_Owner u64 u32 u32 bool u32 u32 | Clear_Window u32 | Clear_Client u64 | Select_XFixes u64 u32 u32 u32

fun selection_step :: "selection_action \<Rightarrow> selection_store \<Rightarrow> selection_store" where
  "selection_step (Set_Owner c sel w e rt st) s = snd (set_owner c sel w e rt st s)"
| "selection_step (Clear_Window w) s = snd (clear_window w s)"
| "selection_step (Clear_Client c) s = snd (clear_client c s)"
| "selection_step (Select_XFixes c w sel m) s = snd (select_xfixes c w sel m s)"

inductive selections_reachable :: "selection_store \<Rightarrow> bool" where
  start: "selections_reachable no_selections"
| step: "selections_reachable s \<Longrightarrow> selections_reachable (selection_step action s)"

lemma erase_first_subset: "set (erase_first P xs) \<subseteq> set xs" "length (erase_first P xs) \<le> length xs"
  by (induction xs) auto

lemma erase_first_distinct: "distinct (map f xs) \<Longrightarrow> distinct (map f (erase_first P xs))"
  by (induction xs) (auto dest: subsetD [OF erase_first_subset(1)] simp: image_iff)

lemma update_first_map: "(\<And>x. g (f x) = g x) \<Longrightarrow> map g (update_first P f xs) = map g xs"
  by (induction xs) auto

lemma update_first_set: "x \<in> set (update_first P f xs) \<Longrightarrow> x \<in> set xs \<or> (\<exists>y \<in> set xs. x = f y)"
  by (induction xs) (auto split: if_splits)

lemma distinct_filter_map: "distinct (map f xs) \<Longrightarrow> distinct (map f (filter P xs))"
  by (auto simp: distinct_map inj_on_def)

lemma selections_step_ok:
  assumes "selections_ok s"
  shows "selections_ok (selection_step action s)"
proof (cases action)
  case (Set_Owner c sel w e rt st)
  then show ?thesis using assms by (auto simp: set_owner_def Let_def selections_ok_def split: if_splits)
next
  case (Clear_Window w)
  then show ?thesis
    using assms by (auto simp: clear_window_def selections_ok_def distinct_filter_map intro: le_trans [OF length_filter_le])
next
  case (Clear_Client c)
  then show ?thesis
    using assms by (auto simp: clear_client_def selections_ok_def distinct_filter_map intro: le_trans [OF length_filter_le])
next
  case (Select_XFixes c w sel m)
  have keys: "map subscription_key (update_first P (xs_mask_update f) xs) = map subscription_key xs" for P f xs
    by (rule update_first_map) (simp add: subscription_key_def)
  have "length (update_first P f xs) = length xs" for P f and xs :: "xfixes_subscription list" by (induction xs) auto
  with keys show ?thesis
    using assms unfolding Select_XFixes
    by (auto simp: select_xfixes_def Let_def selections_ok_def erase_first_distinct subscription_key_def
        dest: update_first_set subsetD [OF erase_first_subset(1)] intro: le_trans [OF erase_first_subset(2)])
qed

lemma selections_reachable_ok: "selections_reachable s \<Longrightarrow> selections_ok s"
  by (induction rule: selections_reachable.induct) (simp_all add: selections_step_ok, simp add: no_selections_def selections_ok_def)

section \<open>Ownership\<close>

lemma set_owner_outcome:
  assumes "set_owner client selection window window_exists request_time server_time s = (change, s')"
  shows "oc_status change \<noteq> SO_Applied \<Longrightarrow> s' = s"
    "oc_status change = SO_Applied \<Longrightarrow> selection_owner_of k s' =
       (if k \<noteq> selection then selection_owner_of k s
        else if window = 0 then None
        else Some \<lparr>so_client = client, so_window = window, so_last_change_time = effective_time request_time server_time\<rparr>)"
    "oc_status change = SO_Applied \<Longrightarrow> oc_previous_owner change = selection_owner_of selection s \<and> ss_subscriptions s' = ss_subscriptions s"
    "oc_status change = SO_Applied \<longleftrightarrow> selection \<noteq> 0 \<and> (window = 0 \<or> window_exists) \<and>
       \<not> timestamp_after (effective_time request_time server_time) server_time \<and>
       (case selection_owner_of selection s of None \<Rightarrow> True | Some owner \<Rightarrow> so_last_change_time owner = 0 \<or>
          \<not> timestamp_after (so_last_change_time owner) (effective_time request_time server_time))"
  using assms by (auto simp: set_owner_def Let_def selection_owner_of_def split: if_splits option.splits)

lemma cleared_owner:
  "selection_owner_of k (snd (clear_client c s)) =
     (case selection_owner_of k s of Some owner \<Rightarrow> if so_client owner = c then None else Some owner | None \<Rightarrow> None)"
  "selection_owner_of k (snd (clear_window w s)) =
     (case selection_owner_of k s of Some owner \<Rightarrow> if so_window owner = w then None else Some owner | None \<Rightarrow> None)"
  by (auto simp: clear_client_def clear_window_def selection_owner_of_def split: option.splits)

lemma selections_where_exact:
  "sorted (selections_where P s)" "distinct (selections_where P s)"
  "k \<in> set (selections_where P s) \<longleftrightarrow> (\<exists>owner. selection_owner_of k s = Some owner \<and> P owner)"
  by (auto simp: selections_where_def selection_owner_of_def sorted_wrt_filter sorted_list_of_fset.rep_eq split: option.splits dest: fmdomI)

section \<open>The ownership the core protocol asks for\<close>

text \<open>
  The core protocol keeps the last-change time of a selection for good: a change sets it, and when the owner goes away,
  because its window or its client does, the owner becomes none \<open>but the last-change time is not affected\<close>. A ledger has
  the owner and the time of every selection; the time 0 stands for no change so far, as in the code.
\<close>

type_synonym selection_ledger = "u32 \<Rightarrow> selection_owner option \<times> u32"

definition empty_ledger :: selection_ledger where
  "empty_ledger = (\<lambda>selection. (None, 0))"

definition proper_change :: "u32 \<Rightarrow> u32 \<Rightarrow> bool \<Rightarrow> u32 \<Rightarrow> u32 \<Rightarrow> bool" where
  "proper_change selection owner_window owner_window_exists request_time server_time \<longleftrightarrow>
     selection \<noteq> 0 \<and> (owner_window = 0 \<or> owner_window_exists) \<and>
     \<not> timestamp_after (effective_time request_time server_time) server_time"

definition before_last_change :: "selection_ledger \<Rightarrow> u32 \<Rightarrow> u32 \<Rightarrow> u32 \<Rightarrow> bool" where
  "before_last_change l selection request_time server_time \<longleftrightarrow>
     snd (l selection) \<noteq> 0 \<and> timestamp_after (snd (l selection)) (effective_time request_time server_time)"

fun protocol_step :: "selection_action \<Rightarrow> selection_ledger \<Rightarrow> selection_ledger" where
  "protocol_step (Set_Owner client selection w e rt st) l =
     (if proper_change selection w e rt st \<and> \<not> before_last_change l selection rt st
      then l(selection := (if w = 0 then None
               else Some \<lparr>so_client = client, so_window = w, so_last_change_time = effective_time rt st\<rparr>, effective_time rt st))
      else l)"
| "protocol_step (Clear_Window w) l =
     (\<lambda>k. case l k of (Some owner, t) \<Rightarrow> (if so_window owner = w then None else Some owner, t) | (None, t) \<Rightarrow> (None, t))"
| "protocol_step (Clear_Client c) l =
     (\<lambda>k. case l k of (Some owner, t) \<Rightarrow> (if so_client owner = c then None else Some owner, t) | (None, t) \<Rightarrow> (None, t))"
| "protocol_step (Select_XFixes c w sel m) l = l"

text \<open>A request that comes too late for its selection, which nobody owns any more.\<close>

definition late_for_unowned :: "selection_ledger \<Rightarrow> u32 \<Rightarrow> u32 \<Rightarrow> bool \<Rightarrow> u32 \<Rightarrow> u32 \<Rightarrow> bool" where
  "late_for_unowned l selection w e rt st \<longleftrightarrow>
     proper_change selection w e rt st \<and> fst (l selection) = None \<and> before_last_change l selection rt st"

fun none_late_for_unowned :: "selection_ledger \<Rightarrow> selection_action list \<Rightarrow> bool" where
  "none_late_for_unowned l [] \<longleftrightarrow> True"
| "none_late_for_unowned l (a # as) \<longleftrightarrow>
     (case a of Set_Owner c sel w e rt st \<Rightarrow> \<not> late_for_unowned l sel w e rt st | _ \<Rightarrow> True) \<and>
     none_late_for_unowned (protocol_step a l) as"

text \<open>The store and the ledger agree on the owners, and the times the store still has are those of the ledger.\<close>

definition follows :: "selection_ledger \<Rightarrow> selection_store \<Rightarrow> bool" where
  "follows l s \<longleftrightarrow> (\<forall>k. selection_owner_of k s = fst (l k) \<and> (\<forall>owner. fst (l k) = Some owner \<longrightarrow> so_last_change_time owner = snd (l k)))"

lemma follows_applied:
  assumes "follows l s"
  shows "oc_status (fst (set_owner client selection w e rt st s)) = SO_Applied \<longleftrightarrow>
     proper_change selection w e rt st \<and> (\<not> before_last_change l selection rt st \<or> late_for_unowned l selection w e rt st)"
proof -
  have "selection_owner_of selection s = fst (l selection)"
    "\<And>owner. fst (l selection) = Some owner \<Longrightarrow> so_last_change_time owner = snd (l selection)"
    using assms by (simp_all add: follows_def)
  then show ?thesis
    unfolding set_owner_outcome(4) [OF prod.collapse [symmetric]]
    by (auto simp: proper_change_def before_last_change_def late_for_unowned_def split: option.splits)
qed

lemma follows_step:
  assumes "follows l s" "case a of Set_Owner c sel w e rt st \<Rightarrow> \<not> late_for_unowned l sel w e rt st | _ \<Rightarrow> True"
  shows "follows (protocol_step a l) (selection_step a s)"
proof (cases a)
  case (Set_Owner client selection w e rt st)
  note out = set_owner_outcome [OF prod.collapse [symmetric], of client selection w e rt st s]
  show ?thesis
  proof (cases "oc_status (fst (set_owner client selection w e rt st s)) = SO_Applied")
    case True
    moreover from this assms have "proper_change selection w e rt st \<and> \<not> before_last_change l selection rt st"
      using follows_applied [OF assms(1)] Set_Owner by auto
    ultimately show ?thesis using assms(1) out(2) by (simp add: Set_Owner follows_def)
  next
    case False
    then have "protocol_step a l = l" using follows_applied [OF assms(1)] by (auto simp: Set_Owner)
    then show ?thesis using assms(1) out(1) [OF False] by (simp only: Set_Owner selection_step.simps)
  qed
next
  case (Clear_Window w)
  have "selection_owner_of k (snd (clear_window w s)) = fst (protocol_step a l k) \<and>
      (\<forall>owner. fst (protocol_step a l k) = Some owner \<longrightarrow> so_last_change_time owner = snd (protocol_step a l k))" for k
    using assms(1) [unfolded follows_def, rule_format, of k] by (cases "l k") (auto simp: Clear_Window follows_def cleared_owner split: option.splits)
  then show ?thesis by (simp add: Clear_Window follows_def)
next
  case (Clear_Client c)
  have "selection_owner_of k (snd (clear_client c s)) = fst (protocol_step a l k) \<and>
      (\<forall>owner. fst (protocol_step a l k) = Some owner \<longrightarrow> so_last_change_time owner = snd (protocol_step a l k))" for k
    using assms(1) [unfolded follows_def, rule_format, of k] by (cases "l k") (auto simp: Clear_Client follows_def cleared_owner split: option.splits)
  then show ?thesis by (simp add: Clear_Client follows_def)
next
  case (Select_XFixes c w sel m)
  have "selection_owner_of k (snd (select_xfixes c w sel m s)) = selection_owner_of k s" for k
    by (simp add: select_xfixes_def selection_owner_of_def Let_def)
  then show ?thesis using assms(1) by (simp add: Select_XFixes follows_def)
qed

lemma follows_run:
  "follows l s \<Longrightarrow> none_late_for_unowned l as \<Longrightarrow> follows (fold protocol_step as l) (fold selection_step as s)"
  by (induction as arbitrary: l s) (simp_all add: follows_step)

lemma follows_start: "follows empty_ledger no_selections"
  by (simp add: follows_def empty_ledger_def no_selections_def selection_owner_of_def)

end
