(* ===== verification/Geometry.thy ===== *)
theory Geometry
  imports Prelude
begin

text \<open>
  The core library: checked size arithmetic (\<open>core/checked_math.hpp\<close>), the rectangle and its
  intersection (\<open>core/geometry/rectangle\<close>) and the coalescing region that accumulates
  rectangles (\<open>core/geometry/region\<close>). A rectangle denotes the set of pixels it covers; the
  region lemmas say that coalescing never loses a pixel and never leaves the bounds.
\<close>

section \<open>Checked size arithmetic\<close>

definition checked_add :: "u64 \<Rightarrow> u64 \<Rightarrow> u64 option" where
  "checked_add left right = (if right > (-1) - left then None else Some (left + right))"

definition checked_multiply :: "u64 \<Rightarrow> u64 \<Rightarrow> u64 option" where
  "checked_multiply left right =
     (if left \<noteq> 0 \<and> right > (-1) div left then None else Some (left * right))"

definition checked_align_up :: "u64 \<Rightarrow> u64 \<Rightarrow> u64 option" where
  "checked_align_up value alignment =
     (if alignment = 0 \<or> alignment AND (alignment - 1) \<noteq> 0 then None
      else (case checked_add value (alignment - 1) of
              None \<Rightarrow> None
            | Some with_padding \<Rightarrow> Some (with_padding AND NOT (alignment - 1))))"

section \<open>Rectangles\<close>

record rectangle =
  rect_x :: i32
  rect_y :: i32
  rect_width :: u32
  rect_height :: u32

definition make_rectangle :: "i32 \<Rightarrow> i32 \<Rightarrow> u32 \<Rightarrow> u32 \<Rightarrow> rectangle" where
  "make_rectangle x y w h = \<lparr>rect_x = x, rect_y = y, rect_width = w, rect_height = h\<rparr>"

definition rect_empty :: "rectangle \<Rightarrow> bool" where
  "rect_empty r = (rect_width r = 0 \<or> rect_height r = 0)"

text \<open>The exclusive right and bottom edges, computed in 64 bits by the code.\<close>

definition right_edge :: "rectangle \<Rightarrow> int" where
  "right_edge r = sint (rect_x r) + uint (rect_width r)"

definition bottom_edge :: "rectangle \<Rightarrow> int" where
  "bottom_edge r = sint (rect_y r) + uint (rect_height r)"

definition intersect :: "rectangle \<Rightarrow> rectangle \<Rightarrow> rectangle option" where
  "intersect left right =
     (let x1 = max (sint (rect_x left)) (sint (rect_x right));
          y1 = max (sint (rect_y left)) (sint (rect_y right));
          x2 = min (right_edge left) (right_edge right);
          y2 = min (bottom_edge left) (bottom_edge right)
      in if x2 \<le> x1 \<or> y2 \<le> y1 then None
         else Some (make_rectangle (i32_of x1) (i32_of y1) (u32_of (x2 - x1)) (u32_of (y2 - y1))))"

text \<open>The pixels of a rectangle.\<close>

definition rect_pts :: "rectangle \<Rightarrow> (int \<times> int) set" where
  "rect_pts r = {(px, py). sint (rect_x r) \<le> px \<and> px < right_edge r \<and>
                           sint (rect_y r) \<le> py \<and> py < bottom_edge r}"

abbreviation region_pts :: "rectangle list \<Rightarrow> (int \<times> int) set" where
  "region_pts rs \<equiv> \<Union> (rect_pts ` set rs)"

section \<open>The coalescing region\<close>

definition touches :: "rectangle \<Rightarrow> rectangle \<Rightarrow> bool" where
  "touches left right \<longleftrightarrow>
     sint (rect_x left) \<le> right_edge right \<and> sint (rect_x right) \<le> right_edge left \<and>
     sint (rect_y left) \<le> bottom_edge right \<and> sint (rect_y right) \<le> bottom_edge left"

definition rect_bounds :: "rectangle \<Rightarrow> rectangle \<Rightarrow> rectangle" where
  "rect_bounds left right =
     (let x1 = min (sint (rect_x left)) (sint (rect_x right));
          y1 = min (sint (rect_y left)) (sint (rect_y right));
          x2 = max (right_edge left) (right_edge right);
          y2 = max (bottom_edge left) (bottom_edge right)
      in make_rectangle (i32_of x1) (i32_of y1) (u32_of (x2 - x1)) (u32_of (y2 - y1)))"

text \<open>
  The inner loop of \<open>Region::add\<close> at a fixed first index: the first later rectangle that
  touches \<open>r\<close> is joined into \<open>r\<close> and erased.
\<close>

fun absorb_first :: "rectangle \<Rightarrow> rectangle list \<Rightarrow> (rectangle \<times> rectangle list) option" where
  "absorb_first r [] = None"
| "absorb_first r (s # ss) =
     (if touches r s then Some (rect_bounds r s, ss)
      else (case absorb_first r ss of None \<Rightarrow> None | Some (r', ss') \<Rightarrow> Some (r', s # ss')))"

text \<open>One round of the two nested loops; \<open>None\<close> when nothing changed.\<close>

fun merge_once :: "rectangle list \<Rightarrow> rectangle list option" where
  "merge_once [] = None"
| "merge_once (r # rs) =
     (case absorb_first r rs of
        Some (r', rs') \<Rightarrow> Some (r' # rs')
      | None \<Rightarrow> map_option (\<lambda>rs'. r # rs') (merge_once rs))"

lemma absorb_first_length: "absorb_first r rs = Some (r', rs') \<Longrightarrow> length rs = Suc (length rs')"
  by (induction rs arbitrary: rs') (auto split: if_splits option.splits)

lemma merge_once_length: "merge_once rs = Some rs' \<Longrightarrow> length rs = Suc (length rs')"
  by (induction rs arbitrary: rs') (auto split: option.splits dest: absorb_first_length)

function merge_all :: "rectangle list \<Rightarrow> rectangle list" where
  "merge_all rs = (case merge_once rs of None \<Rightarrow> rs | Some rs' \<Rightarrow> merge_all rs')"
  by pat_completeness auto
termination
  by (relation "measure length") (auto dest: merge_once_length)

declare merge_all.simps [simp del]

record region =
  region_bounds :: rectangle
  region_rectangles :: "rectangle list"

definition kMaximumRectangles :: nat where
  "kMaximumRectangles = 1024"

definition make_region :: "rectangle \<Rightarrow> region" where
  "make_region b = \<lparr>region_bounds = b, region_rectangles = []\<rparr>"

definition rect_key :: "rectangle \<Rightarrow> int \<times> int \<times> u32 \<times> u32" where
  "rect_key r = (sint (rect_y r), sint (rect_x r), rect_height r, rect_width r)"

definition region_add :: "region \<Rightarrow> rectangle \<Rightarrow> region" where
  "region_add region rectangle =
     (case intersect (region_bounds region) rectangle of
        None \<Rightarrow> region
      | Some clipped \<Rightarrow>
          (let merged = sort_key rect_key (merge_all (region_rectangles region @ [clipped]))
           in region\<lparr>region_rectangles :=
                (if length merged > kMaximumRectangles then [region_bounds region] else merged)\<rparr>))"

section \<open>Checked arithmetic is exact\<close>

lemma checked_add_spec:
  "checked_add a b = (if uint a + uint b < 2 ^ 64 then Some (u64_of (uint a + uint b)) else None)"
proof -
  have "0 \<le> (18446744073709551615 :: int) - uint a" "18446744073709551615 - uint a < 18446744073709551616"
    using uint64_range [of a] by linarith+
  then have "uint ((-1) - a) = 2 ^ 64 - 1 - uint a"
    by (simp add: uint_word_ariths mod_pos_pos_trivial)
  then have "b > (-1) - a \<longleftrightarrow> uint a + uint b \<ge> 2 ^ 64"
    by (auto simp: word_less_def)
  then show ?thesis by (auto simp: checked_add_def u64_of_def)
qed

lemma le_div_iff_int: "0 < c \<Longrightarrow> b \<le> m div c \<longleftrightarrow> b * c \<le> m" for b c m :: int
proof
  assume "0 < c" "b \<le> m div c"
  then have "b * c \<le> (m div c) * c" by simp
  also have "\<dots> \<le> m" using \<open>0 < c\<close> pos_mod_sign [of c m] div_mult_mod_eq [of m c] by linarith
  finally show "b * c \<le> m" .
next
  assume c: "0 < c" "b * c \<le> m"
  then have "(b * c) div c \<le> m div c" by (intro zdiv_mono1)
  with c show "b \<le> m div c" by simp
qed

lemma pred_double_div2: "0 < m \<Longrightarrow> (2 * m - Suc 0) div 2 = m - Suc 0"
  by (cases m) simp_all

lemma checked_multiply_spec:
  "checked_multiply a b =
     (if uint a * uint b < 2 ^ 64 then Some (u64_of (uint a * uint b)) else None)"
proof (cases "a = 0")
  case True
  then show ?thesis by (simp add: checked_multiply_def u64_of_def)
next
  case False
  then have a: "0 < uint a" using uint64_range [of a] by (simp add: uint_0_iff order_less_le)
  have m: "uint (-1 :: u64) = 2 ^ 64 - 1" by (simp add: unsigned_minus_1_eq_mask mask_eq_exp_minus_1)
  have "uint b \<le> (2 ^ 64 - 1) div uint a \<longleftrightarrow> uint b * uint a \<le> 2 ^ 64 - 1"
    using a by (rule le_div_iff_int)
  then have "b > (-1) div a \<longleftrightarrow> uint a * uint b \<ge> 2 ^ 64"
    unfolding word_less_def uint_div m by (auto simp: not_le [symmetric] mult.commute)
  then show ?thesis using False by (auto simp: checked_multiply_def u64_of_def)
qed

lemma and_pred_zero_power2: "n \<noteq> 0 \<Longrightarrow> n AND (n - 1) = 0 \<Longrightarrow> \<exists>k. n = 2 ^ k" for n :: nat
proof (induction n rule: less_induct)
  case (less n)
  show ?case
  proof (cases "even n")
    case True
    then obtain m where m: "n = 2 * m" "m \<noteq> 0" using less.prems(1) by auto
    then have "n AND (n - 1) = 2 * (m AND (m - 1))"
      by (subst and_nat_rec) (simp add: pred_double_div2)
    with less m obtain k where "m = 2 ^ k" by fastforce
    with m have "n = 2 ^ Suc k" by simp
    then show ?thesis by blast
  next
    case False
    then obtain m where "n = 2 * m + 1" by (auto elim: oddE)
    with less.prems(2) have "m = 0" by (subst (asm) and_nat_rec) simp
    with \<open>n = 2 * m + 1\<close> have "n = 2 ^ 0" by simp
    then show ?thesis by blast
  qed
qed

text \<open>Clearing the low bits of a word subtracts the remainder.\<close>

lemma uint_and_not_mask: "uint (x AND NOT (mask k)) = uint x - uint x mod 2 ^ k" for x :: u64
proof -
  have "x AND NOT (mask k) = x AND NOT (take_bit k x)"
    by (simp add: take_bit_eq_mask ac_simps) (simp add: bit.conj_disj_distrib)
  also have "\<dots> = x - take_bit k x"
    by (rule disjunctive_diff [symmetric]) (simp add: bit_take_bit_iff)
  finally have "x AND NOT (mask k) = x - take_bit k x" .
  moreover have "uint (take_bit k x) = uint x mod 2 ^ k"
    by (simp only: unsigned_take_bit_eq) (simp add: take_bit_eq_mod)
  moreover have "take_bit k x \<le> x"
    by (simp add: word_le_def calculation(2) zmod_le_nonneg_dividend)
  ultimately show ?thesis by (simp add: uint_sub_lem [THEN iffD1] word_le_def)
qed

lemma power2_alignment:
  assumes "a \<noteq> 0" "a AND (a - 1) = (0 :: u64)"
  obtains k where "k < 64" "a = 2 ^ k" "uint a = 2 ^ k"
proof -
  have "unat a \<noteq> 0" using assms(1) by (simp add: unat_eq_0)
  moreover have "unat (a - 1) = unat a - 1"
    using assms(1) by (simp add: unat_minus_one)
  then have "unat a AND (unat a - 1) = 0"
    using assms(2) by (metis unsigned_0 unsigned_and_eq)
  ultimately obtain k where k: "unat a = 2 ^ k" using and_pred_zero_power2 by blast
  then have "(2 :: nat) ^ k < 2 ^ 64" using k unsigned_less [of a, where ?'a = nat] by simp
  then have "k < 64" by (rule power_less_imp_less_exp [rotated]) simp
  moreover have "uint a = 2 ^ k" using k by (metis of_nat_numeral of_nat_power uint_nat)
  moreover have "a = 2 ^ k"
    using \<open>uint a = 2 ^ k\<close> by (metis of_int_numeral of_int_power word_of_int_uint)
  ultimately show ?thesis using that by blast
qed

lemma checked_align_up_spec:
  assumes "checked_align_up v a = Some r"
  shows "uint a dvd uint r" "uint v \<le> uint r" "uint r < uint v + uint a"
proof -
  from assms have a: "a \<noteq> 0" "a AND (a - 1) = 0"
    by (auto simp: checked_align_up_def split: if_splits)
  then obtain k where k: "a = 2 ^ k" "uint a = 2 ^ k" by (rule power2_alignment)
  define p where "p = uint v + (2 ^ k - 1)"
  have one: "uint (a - 1) = 2 ^ k - 1"
    using k a by (simp add: uint_minus_simple_alt [THEN iffD1] word_le_def uint_0_iff)
  from assms a one have p: "p < 2 ^ 64" and r: "r = u64_of p AND NOT (mask k)"
    by (auto simp: checked_align_up_def checked_add_spec p_def k mask_eq_exp_minus_1 split: if_splits)
  have "0 \<le> p" using uint64_range(1) [of v] by (simp add: p_def)
  with p r have "uint r = p - p mod 2 ^ k"
    by (simp add: uint_and_not_mask casts)
  moreover have "0 \<le> p mod 2 ^ k" "p mod 2 ^ k \<le> 2 ^ k - 1" by simp_all
  ultimately show "uint v \<le> uint r" "uint r < uint v + uint a"
    unfolding k(2) p_def by linarith+
  show "uint a dvd uint r"
    unfolding k(2) \<open>uint r = _\<close> by (simp add: dvd_minus_mod)
qed

section \<open>Intersection and bounding box on pixels\<close>

lemma intersect_None_iff: "intersect a b = None \<longleftrightarrow> rect_pts a \<inter> rect_pts b = {}"
proof -
  have "rect_pts a \<inter> rect_pts b = {} \<longleftrightarrow>
        min (right_edge a) (right_edge b) \<le> max (sint (rect_x a)) (sint (rect_x b)) \<or>
        min (bottom_edge a) (bottom_edge b) \<le> max (sint (rect_y a)) (sint (rect_y b))"
    (is "_ \<longleftrightarrow> ?empty")
  proof
    assume "rect_pts a \<inter> rect_pts b = {}"
    then have "(max (sint (rect_x a)) (sint (rect_x b)), max (sint (rect_y a)) (sint (rect_y b)))
                 \<notin> rect_pts a \<inter> rect_pts b" by blast
    then show ?empty by (auto simp: rect_pts_def)
  qed (auto simp: rect_pts_def)
  then show ?thesis by (simp add: intersect_def Let_def)
qed

lemma intersect_pts:
  assumes "intersect a b = Some c"
  shows "rect_pts c = rect_pts a \<inter> rect_pts b"
    and "\<not> rect_empty c"
    and "right_edge c = min (right_edge a) (right_edge b)"
    and "bottom_edge c = min (bottom_edge a) (bottom_edge b)"
proof -
  let ?x1 = "max (sint (rect_x a)) (sint (rect_x b))"
  let ?y1 = "max (sint (rect_y a)) (sint (rect_y b))"
  let ?x2 = "min (right_edge a) (right_edge b)"
  let ?y2 = "min (bottom_edge a) (bottom_edge b)"
  from assms have lt: "?x1 < ?x2" "?y1 < ?y2"
    and c: "c = make_rectangle (i32_of ?x1) (i32_of ?y1) (u32_of (?x2 - ?x1)) (u32_of (?y2 - ?y1))"
    by (auto simp: intersect_def Let_def split: if_splits)
  have w: "?x2 - ?x1 < 4294967296" "?y2 - ?y1 < 4294967296"
    using uint32_range(2) [of "rect_width a"] uint32_range(2) [of "rect_height a"]
    by (auto simp: right_edge_def bottom_edge_def)
  have x: "sint (rect_x c) = ?x1" "sint (rect_y c) = ?y1"
    using sint32_range [of "rect_x a"] sint32_range [of "rect_x b"]
      sint32_range [of "rect_y a"] sint32_range [of "rect_y b"]
    by (auto simp: c make_rectangle_def intro!: sint_i32_of)
  have u: "uint (rect_width c) = ?x2 - ?x1" "uint (rect_height c) = ?y2 - ?y1"
    using lt w by (simp_all add: c make_rectangle_def casts)
  show e: "right_edge c = ?x2" "bottom_edge c = ?y2"
    by (simp_all add: right_edge_def bottom_edge_def x u)
  show "rect_pts c = rect_pts a \<inter> rect_pts b"
    by (auto simp: rect_pts_def e x)
  show "\<not> rect_empty c"
    using lt u by (auto simp: rect_empty_def simp flip: uint_eq_0_iff32)
qed

section \<open>Coalescing keeps every pixel\<close>

text \<open>
  The interface of a coalescing step: two admissible rectangles are replaced by one that is
  admissible again and covers both. Both accumulating regions of the program (the one of
  the core library and the compositor's damage region) are built on such a step.
\<close>

locale rect_join =
  fixes pts :: "'r \<Rightarrow> 'p set"
    and join :: "'r \<Rightarrow> 'r \<Rightarrow> 'r option"
    and ok :: "'r \<Rightarrow> bool"
  assumes join_ok: "ok a \<Longrightarrow> ok b \<Longrightarrow> join a b = Some c \<Longrightarrow> ok c"
    and join_covers: "ok a \<Longrightarrow> ok b \<Longrightarrow> join a b = Some c \<Longrightarrow> pts a \<union> pts b \<subseteq> pts c"
begin

lemma replace_pair:
  assumes "mset rs = {#a, b#} + R" "mset rs' = {#c#} + R"
    and "\<forall>r \<in> set rs. ok r" "join a b = Some c"
  shows "(\<forall>r \<in> set rs'. ok r) \<and> \<Union> (pts ` set rs) \<subseteq> \<Union> (pts ` set rs')"
proof -
  have rs: "set rs = {a, b} \<union> set_mset R" and rs': "set rs' = {c} \<union> set_mset R"
    using assms(1,2) by (metis set_mset_add_mset_insert set_mset_empty set_mset_mset set_mset_union)+
  have "ok a" "ok b" using assms(3) rs by auto
  with assms(4) have "ok c" "pts a \<union> pts b \<subseteq> pts c" by (auto intro: join_ok dest: join_covers)
  with assms(3) show ?thesis unfolding rs rs' by auto
qed

end

text \<open>A rectangle admissible in a region: non-empty and inside the bounds.\<close>

definition rect_within :: "rectangle \<Rightarrow> rectangle \<Rightarrow> bool" where
  "rect_within b r \<longleftrightarrow> \<not> rect_empty r \<and>
     sint (rect_x b) \<le> sint (rect_x r) \<and> right_edge r \<le> right_edge b \<and>
     sint (rect_y b) \<le> sint (rect_y r) \<and> bottom_edge r \<le> bottom_edge b"

lemma rect_within_pts: "rect_within b r \<Longrightarrow> rect_pts r \<subseteq> rect_pts b"
  by (auto simp: rect_within_def rect_pts_def)

lemma nonempty_edges:
  "\<not> rect_empty r \<Longrightarrow> sint (rect_x r) < right_edge r \<and> sint (rect_y r) < bottom_edge r"
  by (simp add: rect_empty_def right_edge_def bottom_edge_def uint_pos_iff32)

lemma rect_bounds_edges:
  assumes "rect_within b l" "rect_within b r"
  defines "c \<equiv> rect_bounds l r"
  shows "sint (rect_x c) = min (sint (rect_x l)) (sint (rect_x r))"
    and "sint (rect_y c) = min (sint (rect_y l)) (sint (rect_y r))"
    and "right_edge c = max (right_edge l) (right_edge r)"
    and "bottom_edge c = max (bottom_edge l) (bottom_edge r)"
proof -
  let ?x1 = "min (sint (rect_x l)) (sint (rect_x r))"
  let ?y1 = "min (sint (rect_y l)) (sint (rect_y r))"
  let ?x2 = "max (right_edge l) (right_edge r)"
  let ?y2 = "max (bottom_edge l) (bottom_edge r)"
  have w: "0 \<le> ?x2 - ?x1" "?x2 - ?x1 < 4294967296" "0 \<le> ?y2 - ?y1" "?y2 - ?y1 < 4294967296"
    using assms(1,2) uint32_range(2) [of "rect_width b"] uint32_range(2) [of "rect_height b"]
      nonempty_edges [of l] nonempty_edges [of r]
    by (auto simp: rect_within_def right_edge_def [of b] bottom_edge_def [of b])
  show x: "sint (rect_x c) = ?x1" "sint (rect_y c) = ?y1"
    using sint32_range [of "rect_x l"] sint32_range [of "rect_x r"]
      sint32_range [of "rect_y l"] sint32_range [of "rect_y r"]
    by (auto simp: c_def rect_bounds_def make_rectangle_def Let_def intro!: sint_i32_of)
  show "right_edge c = ?x2" "bottom_edge c = ?y2"
    unfolding right_edge_def [of c] bottom_edge_def [of c] x
    using w by (simp_all add: c_def rect_bounds_def make_rectangle_def Let_def casts)
qed

lemma rect_bounds_within:
  assumes "rect_within b l" "rect_within b r"
  shows "rect_within b (rect_bounds l r)" and "rect_pts l \<union> rect_pts r \<subseteq> rect_pts (rect_bounds l r)"
proof -
  note e = rect_bounds_edges [OF assms]
  have l: "sint (rect_x l) < right_edge l" "sint (rect_y l) < bottom_edge l"
    using assms(1) nonempty_edges by (auto simp: rect_within_def)
  have "\<not> rect_empty (rect_bounds l r)"
    using l e by (auto simp: rect_empty_def right_edge_def [of "rect_bounds l r"]
        bottom_edge_def [of "rect_bounds l r"] simp flip: uint_eq_0_iff32)
  with assms show "rect_within b (rect_bounds l r)" by (auto simp: rect_within_def e)
  show "rect_pts l \<union> rect_pts r \<subseteq> rect_pts (rect_bounds l r)"
    by (auto simp: rect_pts_def e)
qed

interpretation geo: rect_join rect_pts "\<lambda>l r. Some (rect_bounds l r)" "rect_within b" for b
  by unfold_locales (use rect_bounds_within in blast)+

lemma absorb_first_mset:
  "absorb_first r rs = Some (r', rs') \<Longrightarrow>
     \<exists>s. r' = rect_bounds r s \<and> mset rs = {#s#} + mset rs'"
  by (induction rs arbitrary: rs') (auto split: if_splits option.splits)

lemma merge_once_mset:
  "merge_once rs = Some rs' \<Longrightarrow>
     \<exists>a b R. mset rs = {#a, b#} + R \<and> mset rs' = {#rect_bounds a b#} + R"
proof (induction rs arbitrary: rs')
  case Nil
  then show ?case by simp
next
  case (Cons r rs)
  show ?case
  proof (cases "absorb_first r rs")
    case None
    with Cons obtain rs'' a b R where "rs' = r # rs''"
      "mset rs = {#a, b#} + R" "mset rs'' = {#rect_bounds a b#} + R" by auto
    then have "mset (r # rs) = {#a, b#} + (R + {#r#})" "mset rs' = {#rect_bounds a b#} + (R + {#r#})"
      by simp_all
    then show ?thesis by blast
  next
    case (Some p)
    then obtain r' rest where p: "absorb_first r rs = Some (r', rest)" by (cases p) auto
    from absorb_first_mset [OF p] obtain s where
      s: "r' = rect_bounds r s" "mset rs = {#s#} + mset rest" by blast
    from Cons.prems p have "rs' = r' # rest" by simp
    with s have "mset (r # rs) = {#r, s#} + mset rest \<and> mset rs' = {#rect_bounds r s#} + mset rest"
      by simp
    then show ?thesis by (intro exI)
  qed
qed

lemma merge_all_covers:
  assumes "\<forall>r \<in> set rs. rect_within b r"
  shows "(\<forall>r \<in> set (merge_all rs). rect_within b r) \<and> region_pts rs \<subseteq> region_pts (merge_all rs)"
  using assms
proof (induction rs rule: merge_all.induct)
  case (1 rs)
  show ?case
  proof (cases "merge_once rs")
    case None
    with "1.prems" show ?thesis by (simp add: merge_all.simps [of rs])
  next
    case (Some rs')
    obtain l r R where "mset rs = {#l, r#} + R" "mset rs' = {#rect_bounds l r#} + R"
      using merge_once_mset [OF Some] by blast
    then have ok: "\<forall>r \<in> set rs'. rect_within b r" and sub: "region_pts rs \<subseteq> region_pts rs'"
      using geo.replace_pair [of rs l r R rs' "rect_bounds l r" b] "1.prems" by simp_all
    have "merge_all rs = merge_all rs'" using Some by (simp add: merge_all.simps [of rs])
    then show ?thesis
      using "1.IH" [OF Some ok] subset_trans [OF sub, of "region_pts (merge_all rs)"] by simp
  qed
qed

text \<open>When the loop ends, no two rectangles of the region touch.\<close>

lemma absorb_first_None: "absorb_first r rs = None \<Longrightarrow> s \<in> set rs \<Longrightarrow> \<not> touches r s"
  by (induction rs) (auto split: if_splits option.splits)

lemma merge_once_None: "merge_once rs = None \<Longrightarrow> sorted_wrt (\<lambda>r s. \<not> touches r s) rs"
  by (induction rs) (auto split: option.splits dest: absorb_first_None)

lemma merge_once_merge_all: "merge_once (merge_all rs) = None"
proof (induction rs rule: merge_all.induct)
  case (1 rs)
  then show ?case by (cases "merge_once rs") (simp_all add: merge_all.simps [of rs])
qed

lemma touches_sym: "touches r s \<Longrightarrow> touches s r"
  by (auto simp: touches_def)

lemma merge_all_separated: "sorted_wrt (\<lambda>r s. \<not> touches r s) (sort_key f (merge_all rs))"
  by (rule sorted_wrt_perm [OF _ _ merge_once_None [OF merge_once_merge_all]])
     (auto dest: touches_sym)

text \<open>The invariant of a region and what an addition does to it.\<close>

definition region_ok :: "region \<Rightarrow> bool" where
  "region_ok g \<longleftrightarrow> (\<forall>r \<in> set (region_rectangles g). rect_within (region_bounds g) r) \<and>
     sorted_wrt (\<lambda>r s. \<not> touches r s) (region_rectangles g) \<and>
     sorted (map rect_key (region_rectangles g)) \<and>
     length (region_rectangles g) \<le> kMaximumRectangles"

lemma region_ok_make: "region_ok (make_region b)"
  by (simp add: region_ok_def make_region_def)

lemma intersect_within: "intersect b r = Some c \<Longrightarrow> rect_within b c"
  using intersect_pts [of b r c] nonempty_edges [of b]
proof -
  assume a: "intersect b r = Some c"
  note p = intersect_pts [OF a]
  from a have "sint (rect_x c) = max (sint (rect_x b)) (sint (rect_x r))"
    "sint (rect_y c) = max (sint (rect_y b)) (sint (rect_y r))"
    using sint32_range [of "rect_x b"] sint32_range [of "rect_x r"]
      sint32_range [of "rect_y b"] sint32_range [of "rect_y r"]
    by (auto simp: intersect_def Let_def make_rectangle_def split: if_splits intro!: sint_i32_of)
  with p show ?thesis by (simp add: rect_within_def)
qed

lemma region_add_ok:
  assumes "region_ok g"
  shows "region_ok (region_add g r)"
proof (cases "intersect (region_bounds g) r")
  case None
  with assms show ?thesis by (simp add: region_add_def)
next
  case (Some c)
  have c: "rect_within (region_bounds g) c" using Some by (rule intersect_within)
  then have "\<not> rect_empty (region_bounds g)"
    using nonempty_edges [of c]
    by (auto simp: rect_within_def rect_empty_def right_edge_def [of "region_bounds g"]
        bottom_edge_def [of "region_bounds g"])
  then have "rect_within (region_bounds g) (region_bounds g)" by (simp add: rect_within_def)
  moreover have "\<forall>s \<in> set (merge_all (region_rectangles g @ [c])). rect_within (region_bounds g) s"
    using assms c by (intro conjunct1 [OF merge_all_covers]) (auto simp: region_ok_def)
  ultimately show ?thesis
    using Some merge_all_separated [of rect_key]
    by (auto simp: region_add_def region_ok_def Let_def kMaximumRectangles_def)
qed

lemma region_add_pts:
  assumes "region_ok g"
  shows "region_pts (region_rectangles g) \<union> (rect_pts r \<inter> rect_pts (region_bounds g))
           \<subseteq> region_pts (region_rectangles (region_add g r))"
    and "region_pts (region_rectangles (region_add g r)) \<subseteq> rect_pts (region_bounds g)"
proof -
  let ?b = "region_bounds g"
  have b: "region_bounds (region_add g r) = ?b"
    by (simp add: region_add_def Let_def split: option.splits)
  show "region_pts (region_rectangles (region_add g r)) \<subseteq> rect_pts ?b"
    using region_add_ok [OF assms, of r] rect_within_pts [of ?b] unfolding region_ok_def b by blast
  show "region_pts (region_rectangles g) \<union> (rect_pts r \<inter> rect_pts ?b)
           \<subseteq> region_pts (region_rectangles (region_add g r))"
  proof (cases "intersect ?b r")
    case None
    then have "rect_pts r \<inter> rect_pts ?b = {}" by (auto simp: intersect_None_iff)
    with None show ?thesis by (simp add: region_add_def)
  next
    case (Some c)
    have ok: "\<forall>s \<in> set (region_rectangles g @ [c]). rect_within ?b s"
      using assms intersect_within [OF Some] by (auto simp: region_ok_def)
    have "rect_pts c = rect_pts ?b \<inter> rect_pts r" using Some by (rule intersect_pts)
    then have all: "region_pts (region_rectangles g) \<union> (rect_pts r \<inter> rect_pts ?b)
        = region_pts (region_rectangles g @ [c])" by auto
    have "region_pts (region_rectangles g @ [c]) \<subseteq> rect_pts ?b"
      using ok rect_within_pts by blast
    moreover have "region_pts (region_rectangles g @ [c]) \<subseteq>
        region_pts (merge_all (region_rectangles g @ [c]))"
      using merge_all_covers [OF ok] by (rule conjunct2)
    ultimately show ?thesis unfolding all using Some by (auto simp: region_add_def Let_def)
  qed
qed

section \<open>Properties\<close>

text \<open>
  The checked operations are exact: the sum and the product are returned exactly when they
  fit in 64 bits, and are refused otherwise.
\<close>

lemma checked_arithmetic_exact:
  "map_option uint (checked_add a b) = (if uint a + uint b < 2 ^ 64 then Some (uint a + uint b) else None)
   \<and> map_option uint (checked_multiply a b) = (if uint a * uint b < 2 ^ 64 then Some (uint a * uint b) else None)"
  using uint64_range [of a] uint64_range [of b]
  by (simp add: checked_add_spec checked_multiply_spec casts)

text \<open>
  The intersection of two rectangles has exactly the pixels that both have, and is refused
  exactly when there are none; no coordinate or extent of the result wraps around.
\<close>

lemma intersect_exact:
  "(case intersect a b of None \<Rightarrow> {} | Some c \<Rightarrow> rect_pts c) = rect_pts a \<inter> rect_pts b"
  using intersect_None_iff [of a b] intersect_pts(1) [of a b] by (auto split: option.splits)

text \<open>
  Adding a rectangle to a region keeps every pixel that was there and every pixel of the
  rectangle inside the bounds, adds nothing outside the bounds, and keeps the region a bounded,
  sorted list of pairwise separated rectangles.
\<close>

lemma region_add_correct:
  assumes "region_ok g"
  shows "region_ok (region_add g r) \<and>
     region_pts (region_rectangles g) \<union> (rect_pts r \<inter> rect_pts (region_bounds g))
       \<subseteq> region_pts (region_rectangles (region_add g r)) \<and>
     region_pts (region_rectangles (region_add g r)) \<subseteq> rect_pts (region_bounds g)"
  using region_add_ok [OF assms] region_add_pts [OF assms] by blast

end
