(* ===== verification/Srv_Region.thy ===== *)
theory Srv_Region
  imports Geometry
begin

text \<open>
  The regions of the XFIXES extension (\<open>glasswyrmd/xfixes_region.cpp\<close>): a region is a sorted list of
  disjoint rectangles, and union, intersection and difference are computed on such lists.

  Sums of coordinates and extents are 64-bit in the code and unbounded here. The distance of two coordinates in
  \<open>subtract_one\<close> is a 32-bit difference, which C++ leaves undefined beyond \<open>INT32_MAX\<close>: it is the
  wrapping difference here, and \<open>protocol_distance\<close> shows that it does not overflow for rectangles a
  request can carry. An exhausted limit is \<open>None\<close>, as \<open>std::nullopt\<close> in the code.
\<close>

definition kMaximumXFixesRegionRectangles :: nat where
  "kMaximumXFixesRegionRectangles = 4096"

definition region_valid :: "rectangle \<Rightarrow> bool" where
  "region_valid r \<longleftrightarrow> \<not> (rect_width r = 0 \<or> rect_height r = 0) \<and> right_edge r \<le> int32_max \<and> bottom_edge r \<le> int32_max"

definition subtract_one :: "rectangle \<Rightarrow> rectangle \<Rightarrow> rectangle list" where
  "subtract_one source removed =
     (case intersect source removed of
        None \<Rightarrow> [source]
      | Some overlap \<Rightarrow>
          (if sint (rect_y source) < sint (rect_y overlap)
           then [make_rectangle (rect_x source) (rect_y source) (rect_width source) (rect_y overlap - rect_y source)] else []) @
          (if bottom_edge overlap < bottom_edge source
           then [make_rectangle (rect_x source) (i32_of (bottom_edge overlap)) (rect_width source)
                   (u32_of (bottom_edge source - bottom_edge overlap))] else []) @
          (if sint (rect_x source) < sint (rect_x overlap)
           then [make_rectangle (rect_x source) (rect_y overlap) (rect_x overlap - rect_x source) (rect_height overlap)] else []) @
          (if right_edge overlap < right_edge source
           then [make_rectangle (i32_of (right_edge overlap)) (rect_y overlap)
                   (u32_of (right_edge source - right_edge overlap)) (rect_height overlap)] else []))"

text \<open>The left rectangle grown by the right one, when they share an edge.\<close>

definition merge_pair :: "rectangle \<Rightarrow> rectangle \<Rightarrow> rectangle option" where
  "merge_pair left right =
     (if rect_y left = rect_y right \<and> rect_height left = rect_height right \<and> right_edge left = sint (rect_x right)
      then Some (left\<lparr>rect_width := rect_width left + rect_width right\<rparr>)
      else if rect_x left = rect_x right \<and> rect_width left = rect_width right \<and> bottom_edge left = sint (rect_y right)
      then Some (left\<lparr>rect_height := rect_height left + rect_height right\<rparr>)
      else None)"

definition sort_rectangles :: "rectangle list \<Rightarrow> rectangle list" where
  "sort_rectangles rs = sort_key rect_key rs"

text \<open>The inner loop of \<open>merge_adjacent\<close>: the first rectangle that merges into the left one is erased.\<close>

fun merge_right :: "rectangle \<Rightarrow> rectangle list \<Rightarrow> (rectangle \<times> rectangle list) option" where
  "merge_right left [] = None"
| "merge_right left (r # rs) =
     (case merge_pair left r of
        Some merged \<Rightarrow> Some (merged, rs)
      | None \<Rightarrow> map_option (\<lambda>(merged, rest). (merged, r # rest)) (merge_right left rs))"

lemma merge_right_length: "merge_right l rs = Some (m, rest) \<Longrightarrow> length rs = Suc (length rest)"
  by (induction rs arbitrary: rest) (auto split: option.splits)

text \<open>After a merge the outer loop stays at the same index, so the grown rectangle is tried again.\<close>

function merge_adjacent :: "rectangle list \<Rightarrow> rectangle list \<times> bool" where
  "merge_adjacent [] = ([], False)"
| "merge_adjacent (left # rest) =
     (case merge_right left rest of
        Some (merged, others) \<Rightarrow> (fst (merge_adjacent (merged # others)), True)
      | None \<Rightarrow> (case merge_adjacent rest of (others, any) \<Rightarrow> (left # others, any)))"
  by pat_completeness auto
termination
  by (relation "measure length") (auto dest: merge_right_length)

declare merge_adjacent.simps(2) [simp del]

lemma merge_adjacent_length: "length (fst (merge_adjacent rs)) \<le> length rs \<and>
    (snd (merge_adjacent rs) \<longrightarrow> length (fst (merge_adjacent rs)) < length rs)"
proof (induction rs rule: merge_adjacent.induct)
  case (2 left rest)
  show ?case
  proof (cases "merge_right left rest")
    case None
    with 2(1) [OF None] show ?thesis by (cases "merge_adjacent rest") (auto simp: merge_adjacent.simps(2))
  next
    case (Some p)
    then obtain merged others where p: "merge_right left rest = Some (merged, others)" by (cases p) auto
    from 2(2) [OF p refl] merge_right_length [OF p] show ?thesis by (simp add: merge_adjacent.simps(2) p)
  qed
qed simp

text \<open>\<open>while (merge_adjacent(destination)) {}\<close>\<close>

function merge_until_done :: "rectangle list \<Rightarrow> rectangle list" where
  "merge_until_done rs = (case merge_adjacent rs of (rs', any) \<Rightarrow> if any then merge_until_done rs' else rs')"
  by pat_completeness auto
termination
  proof (relation "measure length")
qed (simp, metis fst_conv in_measure merge_adjacent_length snd_conv)

declare merge_until_done.simps [simp del]

text \<open>
  The pieces of the fragments outside one rectangle of the destination, and outside all of them: \<open>None\<close>
  when there are more than a region may hold.
\<close>

fun subtract_fragments :: "nat \<Rightarrow> rectangle \<Rightarrow> rectangle list \<Rightarrow> rectangle list \<Rightarrow> rectangle list option" where
  "subtract_fragments held removed [] next_fragments = Some next_fragments"
| "subtract_fragments held removed (fragment # fragments) next_fragments =
     (let extended = next_fragments @ subtract_one fragment removed
      in if length extended + held > kMaximumXFixesRegionRectangles then None
         else subtract_fragments held removed fragments extended)"

fun subtract_existing :: "nat \<Rightarrow> rectangle list \<Rightarrow> rectangle list \<Rightarrow> rectangle list option" where
  "subtract_existing held [] fragments = Some fragments"
| "subtract_existing held (existing # rest) fragments =
     (case subtract_fragments held existing fragments [] of
        None \<Rightarrow> None
      | Some [] \<Rightarrow> Some []
      | Some fragments \<Rightarrow> subtract_existing held rest fragments)"

definition add_rectangle :: "rectangle list \<Rightarrow> rectangle \<Rightarrow> rectangle list option" where
  "add_rectangle destination r =
     (if \<not> region_valid r then (if rect_width r = 0 \<or> rect_height r = 0 then Some destination else None)
      else case subtract_existing (length destination) destination [r] of
             None \<Rightarrow> None
           | Some fragments \<Rightarrow>
               let result = sort_rectangles (merge_until_done (destination @ fragments))
               in if length result \<le> kMaximumXFixesRegionRectangles then Some result else None)"

definition normalize_region :: "rectangle list \<Rightarrow> rectangle list option" where
  "normalize_region rs =
     (if length rs > kMaximumXFixesRegionRectangles then None else fold_option (\<lambda>r result. add_rectangle result r) rs [])"

definition union_regions :: "rectangle list \<Rightarrow> rectangle list \<Rightarrow> rectangle list option" where
  "union_regions left right =
     (case normalize_region left of None \<Rightarrow> None | Some result \<Rightarrow> fold_option (\<lambda>r result. add_rectangle result r) right result)"

definition intersect_regions :: "rectangle list \<Rightarrow> rectangle list \<Rightarrow> rectangle list option" where
  "intersect_regions left right =
     fold_option (\<lambda>first result. fold_option (\<lambda>second result.
        case intersect first second of None \<Rightarrow> Some result | Some overlap \<Rightarrow> add_rectangle result overlap) right result) left []"

fun subtract_sources :: "rectangle \<Rightarrow> rectangle list \<Rightarrow> rectangle list \<Rightarrow> rectangle list option" where
  "subtract_sources removed [] next_sources = Some next_sources"
| "subtract_sources removed (source # sources) next_sources =
     (let extended = next_sources @ subtract_one source removed
      in if length extended > kMaximumXFixesRegionRectangles then None else subtract_sources removed sources extended)"

definition subtract_regions :: "rectangle list \<Rightarrow> rectangle list \<Rightarrow> rectangle list option" where
  "subtract_regions left right =
     (case normalize_region left of
        None \<Rightarrow> None
      | Some result \<Rightarrow> fold_option (\<lambda>removed result.
          case subtract_sources removed result [] of None \<Rightarrow> None | Some next_sources \<Rightarrow> normalize_region next_sources) right result)"

text \<open>The displacement is a 16-bit signed integer.\<close>

definition fits_int16 :: "int \<Rightarrow> bool" where
  "fits_int16 v \<longleftrightarrow> - 32768 \<le> v \<and> v \<le> 32767"

definition translate_rectangle :: "u16 \<Rightarrow> u16 \<Rightarrow> rectangle \<Rightarrow> rectangle option" where
  "translate_rectangle dx dy r =
     (let x = sint (rect_x r) + sint dx; y = sint (rect_y r) + sint dy
      in if \<not> fits_int16 x \<or> \<not> fits_int16 y then None
         else Some (make_rectangle (i32_of x) (i32_of y) (rect_width r) (rect_height r)))"

definition translate_region :: "rectangle list \<Rightarrow> u16 \<Rightarrow> u16 \<Rightarrow> rectangle list option" where
  "translate_region source dx dy =
     fold_option (\<lambda>r result. map_option (\<lambda>t. result @ [t]) (translate_rectangle dx dy r)) source []"

definition region_extents :: "rectangle list \<Rightarrow> rectangle" where
  "region_extents rs =
     (case rs of
        [] \<Rightarrow> make_rectangle 0 0 0 0
      | front # _ \<Rightarrow>
          (let left = fold (\<lambda>r. min (sint (rect_x r))) rs (sint (rect_x front));
               top = fold (\<lambda>r. min (sint (rect_y r))) rs (sint (rect_y front));
               right = fold (\<lambda>r. max (right_edge r)) rs (right_edge front);
               bottom = fold (\<lambda>r. max (bottom_edge r)) rs (bottom_edge front)
           in make_rectangle (i32_of left) (i32_of top) (u32_of (right - left)) (u32_of (bottom - top))))"

section \<open>Difference and merging on pixels\<close>

lemma region_valid_edges:
  assumes "region_valid r"
  shows "int32_min \<le> sint (rect_x r)" "sint (rect_x r) < right_edge r" "right_edge r \<le> int32_max"
    "int32_min \<le> sint (rect_y r)" "sint (rect_y r) < bottom_edge r" "bottom_edge r \<le> int32_max"
  using assms nonempty_edges [of r] sint32_range [of "rect_x r"] sint32_range [of "rect_y r"]
  by (auto simp: region_valid_def rect_empty_def)

text \<open>A rectangle between two corners inside the range of coordinates.\<close>

lemma make_rectangle_edges:
  assumes "int32_min \<le> sint x" "sint x < x2" "x2 \<le> int32_max" "int32_min \<le> sint y" "sint y < y2" "y2 \<le> int32_max"
    "uint w = x2 - sint x" "uint h = y2 - sint y"
  shows "region_valid (make_rectangle x y w h)" "rect_pts (make_rectangle x y w h) = {(px, py). sint x \<le> px \<and> px < x2 \<and> sint y \<le> py \<and> py < y2}"
  using assms by (auto simp: region_valid_def make_rectangle_def right_edge_def bottom_edge_def rect_pts_def simp flip: uint_eq_0_iff32)

lemma uint_difference: "sint a \<ge> sint b \<Longrightarrow> uint (a - b) = sint a - sint b" for a b :: i32
proof -
  assume le: "sint a \<ge> sint b"
  have "uint (a - b) = uint (word_of_int (sint a - sint b) :: i32)" by simp
  also have "\<dots> = take_bit 32 (sint a - sint b)" by (simp only: uint_word_of_int_eq) simp
  also have "\<dots> = sint a - sint b"
    using le sint32_range [of a] sint32_range [of b] by (intro take_bit_int_eq_self) simp_all
  finally show ?thesis .
qed


text \<open>Rectangles a region may hold: admissible ones, no two of which share a pixel.\<close>

definition regular :: "rectangle list \<Rightarrow> bool" where
  "regular rs \<longleftrightarrow> (\<forall>r \<in> set rs. region_valid r) \<and> sorted_wrt (\<lambda>a b. rect_pts a \<inter> rect_pts b = {}) rs"

lemma regular_append:
  "regular (xs @ ys) \<longleftrightarrow> regular xs \<and> regular ys \<and> region_pts xs \<inter> region_pts ys = {}"
  by (auto simp: regular_def sorted_wrt_append)

lemma regular_Cons: "regular (r # rs) \<longleftrightarrow> region_valid r \<and> regular rs \<and> rect_pts r \<inter> region_pts rs = {}"
  by (auto simp: regular_def)

lemma regular_Nil [simp]: "regular []"
  by (simp add: regular_def)

lemma subtract_one_pts:
  assumes "region_valid s"
  shows "regular (subtract_one s r) \<and> region_pts (subtract_one s r) = rect_pts s - rect_pts r"
proof (cases "intersect s r")
  case None
  then have "rect_pts s \<inter> rect_pts r = {}" by (simp add: intersect_None_iff)
  moreover have "subtract_one s r = [s]" by (simp add: subtract_one_def None)
  ultimately show ?thesis using assms by (auto simp: regular_Cons)
next
  case (Some c)
  note c = intersect_pts [OF Some]
  note s = region_valid_edges [OF assms]
  have edges: "sint (rect_x s) \<le> sint (rect_x c)" "sint (rect_x c) < right_edge c" "right_edge c \<le> right_edge s"
    "sint (rect_y s) \<le> sint (rect_y c)" "sint (rect_y c) < bottom_edge c" "bottom_edge c \<le> bottom_edge s"
  proof -
    note e = nonempty_edges [OF c(2)]
    then have "(sint (rect_x c), sint (rect_y c)) \<in> rect_pts c" by (simp add: rect_pts_def)
    then have "(sint (rect_x c), sint (rect_y c)) \<in> rect_pts s" using c(1) by blast
    then show "sint (rect_x s) \<le> sint (rect_x c)" "sint (rect_y s) \<le> sint (rect_y c)" by (simp_all add: rect_pts_def)
    show "sint (rect_x c) < right_edge c" "sint (rect_y c) < bottom_edge c" using e by simp_all
    show "right_edge c \<le> right_edge s" "bottom_edge c \<le> bottom_edge s" using c(3,4) by simp_all
  qed
  have x2: "sint (i32_of (right_edge c)) = right_edge c" and y2: "sint (i32_of (bottom_edge c)) = bottom_edge c"
    using edges s by (simp_all add: sint_i32_of)
  have extents: "uint (rect_width s) = right_edge s - sint (rect_x s)" "uint (rect_height s) = bottom_edge s - sint (rect_y s)"
    "uint (rect_width c) = right_edge c - sint (rect_x c)" "uint (rect_height c) = bottom_edge c - sint (rect_y c)"
    by (simp_all add: right_edge_def bottom_edge_def)
  define top where "top = (if sint (rect_y s) < sint (rect_y c)
    then [make_rectangle (rect_x s) (rect_y s) (rect_width s) (rect_y c - rect_y s)] else [])"
  define bottom where "bottom = (if bottom_edge c < bottom_edge s
    then [make_rectangle (rect_x s) (i32_of (bottom_edge c)) (rect_width s) (u32_of (bottom_edge s - bottom_edge c))] else [])"
  define left where "left = (if sint (rect_x s) < sint (rect_x c)
    then [make_rectangle (rect_x s) (rect_y c) (rect_x c - rect_x s) (rect_height c)] else [])"
  define right where "right = (if right_edge c < right_edge s
    then [make_rectangle (i32_of (right_edge c)) (rect_y c) (u32_of (right_edge s - right_edge c)) (rect_height c)] else [])"
  have pieces: "subtract_one s r = top @ bottom @ left @ right"
    by (simp add: subtract_one_def Some top_def bottom_def left_def right_def)
  have single: "regular [q] \<and> region_pts [q] = rect_pts q" if "region_valid q" for q
    using that by (simp add: regular_Cons)
  have top: "regular top \<and> region_pts top = {(px, py). sint (rect_x s) \<le> px \<and> px < right_edge s \<and> sint (rect_y s) \<le> py \<and> py < sint (rect_y c)}"
    using edges s extents make_rectangle_edges [of "rect_x s" "right_edge s" "rect_y s" "sint (rect_y c)" "rect_width s" "rect_y c - rect_y s"]
    by (auto simp: top_def uint_difference regular_Cons)
  have bottom: "regular bottom \<and> region_pts bottom = {(px, py). sint (rect_x s) \<le> px \<and> px < right_edge s \<and> bottom_edge c \<le> py \<and> py < bottom_edge s}"
    using edges s extents make_rectangle_edges [of "rect_x s" "right_edge s" "i32_of (bottom_edge c)" "bottom_edge s" "rect_width s" "u32_of (bottom_edge s - bottom_edge c)"]
    by (auto simp: bottom_def y2 casts regular_Cons)
  have left: "regular left \<and> region_pts left = {(px, py). sint (rect_x s) \<le> px \<and> px < sint (rect_x c) \<and> sint (rect_y c) \<le> py \<and> py < bottom_edge c}"
    using edges s extents make_rectangle_edges [of "rect_x s" "sint (rect_x c)" "rect_y c" "bottom_edge c" "rect_x c - rect_x s" "rect_height c"]
    by (auto simp: left_def uint_difference regular_Cons)
  have right: "regular right \<and> region_pts right = {(px, py). right_edge c \<le> px \<and> px < right_edge s \<and> sint (rect_y c) \<le> py \<and> py < bottom_edge c}"
    using edges s extents make_rectangle_edges [of "i32_of (right_edge c)" "right_edge s" "rect_y c" "bottom_edge c" "u32_of (right_edge s - right_edge c)" "rect_height c"]
    by (auto simp: right_def x2 casts regular_Cons)
  have cs: "rect_pts s - rect_pts r = rect_pts s - rect_pts c" using c(1) by blast
  have "region_pts (subtract_one s r) = rect_pts s - rect_pts r"
  proof -
    have "region_pts (subtract_one s r) = region_pts top \<union> region_pts bottom \<union> region_pts left \<union> region_pts right"
      unfolding pieces by auto
    also have "\<dots> = rect_pts s - rect_pts c"
      unfolding top [THEN conjunct2] bottom [THEN conjunct2] left [THEN conjunct2] right [THEN conjunct2] rect_pts_def [of s] rect_pts_def [of c]
      using edges by auto
    finally show ?thesis unfolding cs .
  qed
  moreover have "regular (subtract_one s r)"
  proof -
    note sets = top [THEN conjunct2] bottom [THEN conjunct2] left [THEN conjunct2] right [THEN conjunct2]
    have "region_pts top \<inter> region_pts bottom = {}" "region_pts top \<inter> region_pts left = {}" "region_pts top \<inter> region_pts right = {}"
      "region_pts bottom \<inter> region_pts left = {}" "region_pts bottom \<inter> region_pts right = {}" "region_pts left \<inter> region_pts right = {}"
      unfolding sets using edges by auto
    then show ?thesis
      using top bottom left right unfolding pieces regular_append set_append image_Un Union_Un_distrib by (simp only: Int_Un_distrib Un_empty)
  qed
  ultimately show ?thesis by blast
qed

lemma merge_pair_pts:
  assumes "region_valid l" "region_valid r" "merge_pair l r = Some m"
  shows "region_valid m \<and> rect_pts m = rect_pts l \<union> rect_pts r"
proof -
  note l = region_valid_edges [OF assms(1)] and r = region_valid_edges [OF assms(2)]
  have extents: "uint (rect_width l) = right_edge l - sint (rect_x l)" "uint (rect_height l) = bottom_edge l - sint (rect_y l)"
    "uint (rect_width r) = right_edge r - sint (rect_x r)" "uint (rect_height r) = bottom_edge r - sint (rect_y r)"
    by (simp_all add: right_edge_def bottom_edge_def)
  have sum: "uint (v + w) = uint v + uint w" if "uint v + uint w < 4294967296" for v w :: u32
    using that by (simp add: uint_word_ariths mod_pos_pos_trivial)
  have same_edges: "rect_y l = rect_y r \<Longrightarrow> rect_height l = rect_height r \<Longrightarrow> bottom_edge l = bottom_edge r"
    "rect_x l = rect_x r \<Longrightarrow> rect_width l = rect_width r \<Longrightarrow> right_edge l = right_edge r"
    by (simp_all add: right_edge_def bottom_edge_def)
  consider (wide) "rect_y l = rect_y r" "rect_height l = rect_height r" "right_edge l = sint (rect_x r)"
      "m = l\<lparr>rect_width := rect_width l + rect_width r\<rparr>"
    | (tall) "rect_x l = rect_x r" "rect_width l = rect_width r" "bottom_edge l = sint (rect_y r)"
      "m = l\<lparr>rect_height := rect_height l + rect_height r\<rparr>"
    using assms(3) by (auto simp: merge_pair_def split: if_splits)
  then show ?thesis
  proof cases
    case wide
    have m: "rect_x m = rect_x l" "rect_y m = rect_y l" "rect_height m = rect_height l" "rect_width m = rect_width l + rect_width r"
      by (simp_all add: wide(4))
    have w: "uint (rect_width m) = right_edge r - sint (rect_x l)"
      using wide(3) extents(1,3) l r by (simp add: m(4) sum)
    have right: "right_edge m = right_edge r" using w by (simp add: right_edge_def [of m] m(1))
    have bottom: "bottom_edge m = bottom_edge l" unfolding bottom_edge_def m ..
    have "0 < uint (rect_width m)" using w wide(3) l(2) r(2) by simp
    then have "region_valid m"
      using assms(1) l(6) r(3) unfolding region_valid_def m right bottom by (simp add: uint_pos_iff32 m)
    moreover have "rect_pts m = rect_pts l \<union> rect_pts r"
      unfolding rect_pts_def right bottom m(1,2) using wide(1,3) same_edges(1) [OF wide(1,2)] l(2) r(2) by auto
    ultimately show ?thesis ..
  next
    case tall
    have m: "rect_x m = rect_x l" "rect_y m = rect_y l" "rect_width m = rect_width l" "rect_height m = rect_height l + rect_height r"
      by (simp_all add: tall(4))
    have h: "uint (rect_height m) = bottom_edge r - sint (rect_y l)"
      using tall(3) extents(2,4) l r by (simp add: m(4) sum)
    have bottom: "bottom_edge m = bottom_edge r" using h by (simp add: bottom_edge_def [of m] m(2))
    have right: "right_edge m = right_edge l" unfolding right_edge_def m ..
    have "0 < uint (rect_height m)" using h tall(3) l(5) r(5) by simp
    then have "region_valid m"
      using assms(1) l(3) r(6) unfolding region_valid_def m right bottom by (simp add: uint_pos_iff32 m)
    moreover have "rect_pts m = rect_pts l \<union> rect_pts r"
      unfolding rect_pts_def right bottom m(1,2) using tall(1,3) same_edges(2) [OF tall(1,2)] l(5) r(5) by auto
    ultimately show ?thesis ..
  qed
qed

text \<open>Merging covers the same pixels with fewer rectangles.\<close>

definition same_region :: "rectangle list \<Rightarrow> rectangle list \<Rightarrow> bool" where
  "same_region rs rs' \<longleftrightarrow> (regular rs \<longrightarrow> regular rs' \<and> region_pts rs' = region_pts rs)"

lemma same_region_trans: "same_region a b \<Longrightarrow> same_region b c \<Longrightarrow> same_region a c"
  by (simp add: same_region_def)

lemma merge_right_same: "merge_right l rs = Some (m, rest) \<Longrightarrow> same_region (l # rs) (m # rest)"
proof (induction rs arbitrary: rest)
  case (Cons r rs)
  show ?case
  proof (cases "merge_pair l r")
    case None
    with Cons obtain rest' where rest: "merge_right l rs = Some (m, rest')" "rest = r # rest'"
      by (auto split: option.splits)
    show ?thesis
      unfolding same_region_def
    proof (intro impI)
      assume r: "regular (l # r # rs)"
      then have "regular (l # rs)" and apart: "rect_pts r \<inter> (rect_pts l \<union> region_pts rs) = {}" "region_valid r"
        by (auto simp: regular_Cons)
      with Cons.IH [OF rest(1)] have m: "regular (m # rest')" "region_pts (m # rest') = region_pts (l # rs)"
        by (auto simp: same_region_def)
      then have "rect_pts r \<inter> region_pts (m # rest') = {}" using apart(1) by auto
      then have "regular (m # rest)" using m(1) apart(2) by (auto simp: rest(2) regular_Cons)
      then show "regular (m # rest) \<and> region_pts (m # rest) = region_pts (l # r # rs)" using m(2) by (auto simp: rest(2))
    qed
  next
    case (Some merged)
    with Cons.prems have "merged = m" "rest = rs" by auto
    with Some show ?thesis using merge_pair_pts [of l r m] by (auto simp: same_region_def regular_Cons)
  qed
qed simp

lemma merge_adjacent_same: "same_region rs (fst (merge_adjacent rs))"
proof (induction rs rule: merge_adjacent.induct)
  case 1
  then show ?case by (simp add: same_region_def)
next
  case (2 left rest)
  show ?case
  proof (cases "merge_right left rest")
    case None
    obtain others any where o: "merge_adjacent rest = (others, any)" by fastforce
    with 2(1) [OF None] show ?thesis by (auto simp: merge_adjacent.simps(2) None same_region_def regular_Cons)
  next
    case (Some p)
    then obtain merged others where p: "merge_right left rest = Some (merged, others)" by (cases p) auto
    show ?thesis
      using same_region_trans [OF merge_right_same [OF p] 2(2) [OF p refl]] by (simp add: merge_adjacent.simps(2) p)
  qed
qed

lemma merge_until_done_same: "same_region rs (merge_until_done rs)"
proof (induction rs rule: merge_until_done.induct)
  case (1 rs)
  obtain rs' any where m: "merge_adjacent rs = (rs', any)" by fastforce
  then show ?case
    using 1 [OF m [symmetric]] merge_adjacent_same [of rs] same_region_trans
    by (subst merge_until_done.simps) (auto simp: m)
qed

lemma sort_rectangles_same: "same_region rs (sort_rectangles rs)"
proof -
  have "sorted_wrt (\<lambda>a b. rect_pts a \<inter> rect_pts b = {}) rs \<Longrightarrow> sorted_wrt (\<lambda>a b. rect_pts a \<inter> rect_pts b = {}) (sort_rectangles rs)"
    by (erule sorted_wrt_perm [rotated 2]) (auto simp: sort_rectangles_def)
  then show ?thesis by (auto simp: same_region_def regular_def sort_rectangles_def)
qed

section \<open>Regions as sets of pixels\<close>

text \<open>What a region is between two requests.\<close>

definition normal_region :: "rectangle list \<Rightarrow> bool" where
  "normal_region rs \<longleftrightarrow> regular rs \<and> sorted (map rect_key rs) \<and> length rs \<le> kMaximumXFixesRegionRectangles"

lemma subtract_fragments_pts:
  "subtract_fragments n removed fs acc = Some next_fragments \<Longrightarrow> regular fs \<Longrightarrow> regular acc \<Longrightarrow> region_pts fs \<inter> region_pts acc = {} \<Longrightarrow>
     regular next_fragments \<and> region_pts next_fragments = region_pts acc \<union> (region_pts fs - rect_pts removed)"
proof (induction n removed fs acc rule: subtract_fragments.induct)
  case (2 n removed f fs acc)
  have f: "regular (subtract_one f removed)" "region_pts (subtract_one f removed) = rect_pts f - rect_pts removed"
    using subtract_one_pts [of f removed] 2(3) by (auto simp: regular_Cons)
  have "subtract_fragments n removed fs (acc @ subtract_one f removed) = Some next_fragments"
    using 2(2) by (auto simp: Let_def split: if_splits)
  moreover have "regular (acc @ subtract_one f removed)" "region_pts fs \<inter> region_pts (acc @ subtract_one f removed) = {}" "regular fs"
    using 2(3-5) f by (auto simp: regular_append regular_Cons)
  moreover have "\<not> length (acc @ subtract_one f removed) + n > kMaximumXFixesRegionRectangles"
    using 2(2) by (auto simp: Let_def split: if_splits)
  ultimately have "regular next_fragments \<and>
      region_pts next_fragments = region_pts (acc @ subtract_one f removed) \<union> (region_pts fs - rect_pts removed)"
    using 2(1) [OF refl] by blast
  then show ?case using f(2) by auto
qed simp

lemma subtract_existing_pts:
  "subtract_existing n existing fs = Some rest \<Longrightarrow> regular fs \<Longrightarrow> regular rest \<and> region_pts rest = region_pts fs - region_pts existing"
proof (induction existing arbitrary: fs)
  case (Cons e es)
  then obtain next_fragments where n: "subtract_fragments n e fs [] = Some next_fragments" by (auto split: option.splits)
  then have next_fragments: "regular next_fragments" "region_pts next_fragments = region_pts fs - rect_pts e"
    using subtract_fragments_pts [OF n Cons.prems(2)] by auto
  show ?case
  proof (cases next_fragments)
    case Nil
    then have "rest = []" using Cons.prems(1) n by simp
    then show ?thesis using next_fragments(2) Nil by auto
  next
    case (Cons f fs')
    then have "subtract_existing n es next_fragments = Some rest" using Cons.prems(1) n by simp
    from Cons.IH [OF this next_fragments(1)] next_fragments(2) show ?thesis by auto
  qed
qed simp

lemma add_rectangle_pts:
  assumes "normal_region d" "add_rectangle d r = Some d'"
  shows "normal_region d' \<and> region_pts d' = region_pts d \<union> rect_pts r"
proof (cases "region_valid r")
  case False
  then have "rect_pts r = {}" "d' = d"
    using assms(2) by (auto simp: add_rectangle_def rect_pts_def right_edge_def bottom_edge_def split: if_splits)
  then show ?thesis using assms(1) by simp
next
  case True
  then obtain fragments where f: "subtract_existing (length d) d [r] = Some fragments"
    and d': "d' = sort_rectangles (merge_until_done (d @ fragments))" "length d' \<le> kMaximumXFixesRegionRectangles"
    using assms(2) by (auto simp: add_rectangle_def Let_def split: option.splits if_splits)
  have fragments: "regular fragments" "region_pts fragments = rect_pts r - region_pts d"
    using subtract_existing_pts [OF f] True by (auto simp: regular_Cons)
  then have "regular (d @ fragments)" using assms(1) by (auto simp: normal_region_def regular_append)
  moreover have "same_region (d @ fragments) d'"
    unfolding d'(1) by (rule same_region_trans [OF merge_until_done_same sort_rectangles_same])
  ultimately have "regular d'" "region_pts d' = region_pts (d @ fragments)" by (auto simp: same_region_def)
  then show ?thesis
    using fragments(2) d'(2) by (auto simp: normal_region_def d'(1) sort_rectangles_def)
qed

lemma normal_region_Nil: "normal_region []"
  by (simp add: normal_region_def)

text \<open>Adding a list of rectangles, in every loop that does.\<close>

lemma add_rectangles_pts:
  "fold_option (\<lambda>r result. add_rectangle result r) rs d = Some d' \<Longrightarrow> normal_region d \<Longrightarrow>
     normal_region d' \<and> region_pts d' = region_pts d \<union> region_pts rs"
proof (induction rs arbitrary: d)
  case (Cons r rs)
  then obtain e where e: "add_rectangle d r = Some e" "fold_option (\<lambda>r result. add_rectangle result r) rs e = Some d'"
    by (auto split: option.splits)
  from Cons.IH [OF e(2)] add_rectangle_pts [OF Cons.prems(2) e(1)] show ?case by auto
qed simp

lemma normalize_region_pts:
  "normalize_region rs = Some result \<Longrightarrow> normal_region result \<and> region_pts result = region_pts rs"
  using add_rectangles_pts [of rs "[]" result] by (auto simp: normalize_region_def normal_region_Nil split: if_splits)

lemma union_regions_pts:
  "union_regions l r = Some result \<Longrightarrow> normal_region result \<and> region_pts result = region_pts l \<union> region_pts r"
  using normalize_region_pts [of l] add_rectangles_pts [of r _ result]
  by (fastforce simp: union_regions_def split: option.splits)

lemma intersect_row_pts:
  "fold_option (\<lambda>second result. case intersect first second of None \<Rightarrow> Some result | Some overlap \<Rightarrow> add_rectangle result overlap) rs d = Some d' \<Longrightarrow>
     normal_region d \<Longrightarrow> normal_region d' \<and> region_pts d' = region_pts d \<union> (rect_pts first \<inter> region_pts rs)"
proof (induction rs arbitrary: d)
  case (Cons r rs)
  show ?case
  proof (cases "intersect first r")
    case None
    with Cons.prems Cons.IH [of d] show ?thesis using None by (auto simp: intersect_None_iff [of first r])
  next
    case (Some c)
    with Cons.prems obtain e where e: "add_rectangle d c = Some e"
      "fold_option (\<lambda>second result. case intersect first second of None \<Rightarrow> Some result | Some overlap \<Rightarrow> add_rectangle result overlap) rs e = Some d'"
      by (auto split: option.splits)
    from Cons.IH [OF e(2)] add_rectangle_pts [OF Cons.prems(2) e(1)] intersect_pts(1) [OF Some] show ?thesis by auto
  qed
qed simp

lemma intersect_rows_pts:
  "fold_option (\<lambda>first result. fold_option (\<lambda>second result. case intersect first second of None \<Rightarrow> Some result
      | Some overlap \<Rightarrow> add_rectangle result overlap) r result) l d = Some d' \<Longrightarrow>
     normal_region d \<Longrightarrow> normal_region d' \<and> region_pts d' = region_pts d \<union> (region_pts l \<inter> region_pts r)"
proof (induction l arbitrary: d)
  case (Cons first l)
  then obtain e where e: "fold_option (\<lambda>second result. case intersect first second of None \<Rightarrow> Some result
        | Some overlap \<Rightarrow> add_rectangle result overlap) r d = Some e"
    "fold_option (\<lambda>first result. fold_option (\<lambda>second result. case intersect first second of None \<Rightarrow> Some result
        | Some overlap \<Rightarrow> add_rectangle result overlap) r result) l e = Some d'"
    by (auto split: option.splits)
  from Cons.IH [OF e(2)] intersect_row_pts [OF e(1) Cons.prems(2)] show ?case by auto
qed simp

lemma subtract_sources_pts:
  "subtract_sources removed rs acc = Some result \<Longrightarrow> regular rs \<Longrightarrow> regular acc \<Longrightarrow> region_pts rs \<inter> region_pts acc = {} \<Longrightarrow>
     region_pts result = region_pts acc \<union> (region_pts rs - rect_pts removed)"
proof (induction removed rs acc rule: subtract_sources.induct)
  case (2 removed f fs acc)
  have f: "regular (subtract_one f removed)" "region_pts (subtract_one f removed) = rect_pts f - rect_pts removed"
    using subtract_one_pts [of f removed] 2(3) by (auto simp: regular_Cons)
  have "subtract_sources removed fs (acc @ subtract_one f removed) = Some result"
    "\<not> length (acc @ subtract_one f removed) > kMaximumXFixesRegionRectangles"
    using 2(2) by (auto simp: Let_def split: if_splits)
  moreover have "regular (acc @ subtract_one f removed)" "region_pts fs \<inter> region_pts (acc @ subtract_one f removed) = {}" "regular fs"
    using 2(3-5) f by (auto simp: regular_append regular_Cons)
  ultimately have "region_pts result = region_pts (acc @ subtract_one f removed) \<union> (region_pts fs - rect_pts removed)"
    using 2(1) [OF refl] by blast
  then show ?case using f(2) by auto
qed simp

lemma subtract_all_pts:
  "fold_option (\<lambda>removed result. case subtract_sources removed result [] of None \<Rightarrow> None
      | Some next_sources \<Rightarrow> normalize_region next_sources) rs d = Some d' \<Longrightarrow>
     normal_region d \<Longrightarrow> normal_region d' \<and> region_pts d' = region_pts d - region_pts rs"
proof (induction rs arbitrary: d)
  case (Cons r rs)
  then obtain s e where e: "subtract_sources r d [] = Some s" "normalize_region s = Some e"
    "fold_option (\<lambda>removed result. case subtract_sources removed result [] of None \<Rightarrow> None
      | Some next_sources \<Rightarrow> normalize_region next_sources) rs e = Some d'"
    by (auto split: option.splits)
  have "region_pts s = region_pts d - rect_pts r"
    using subtract_sources_pts [OF e(1)] Cons.prems(2) by (simp add: normal_region_def)
  with Cons.IH [OF e(3)] normalize_region_pts [OF e(2)] show ?case by auto
qed simp

text \<open>The pixels moved by a displacement.\<close>

definition shifted :: "u16 \<Rightarrow> u16 \<Rightarrow> (int \<times> int) set \<Rightarrow> (int \<times> int) set" where
  "shifted dx dy s = (\<lambda>(px, py). (px + sint dx, py + sint dy)) ` s"

lemma shifted_Un: "shifted dx dy (a \<union> b) = shifted dx dy a \<union> shifted dx dy b"
  by (simp add: shifted_def image_Un)

lemma shifted_empty [simp]: "shifted dx dy {} = {}"
  by (simp add: shifted_def)

lemma shifted_Int: "shifted dx dy (a \<inter> b) = shifted dx dy a \<inter> shifted dx dy b"
proof -
  have "inj (\<lambda>(px, py). (px + sint dx, py + sint dy))" by (auto simp: inj_def)
  then show ?thesis by (simp add: shifted_def image_Int)
qed

lemma translate_rectangle_pts:
  assumes "translate_rectangle dx dy r = Some t"
  shows "rect_pts t = shifted dx dy (rect_pts r)"
proof -
  have x: "sint (rect_x t) = sint (rect_x r) + sint dx" and y: "sint (rect_y t) = sint (rect_y r) + sint dy"
    and w: "rect_width t = rect_width r" "rect_height t = rect_height r"
    using assms by (auto simp: translate_rectangle_def Let_def fits_int16_def make_rectangle_def casts split: if_splits)
  have "(px, py) \<in> rect_pts t \<longleftrightarrow> (px - sint dx, py - sint dy) \<in> rect_pts r" for px py
    by (auto simp: rect_pts_def right_edge_def bottom_edge_def x y w)
  then show ?thesis by (force simp: shifted_def image_iff)
qed

lemma translate_list_pts:
  "fold_option (\<lambda>r result. map_option (\<lambda>t. result @ [t]) (translate_rectangle dx dy r)) rs acc = Some result \<Longrightarrow>
     region_pts result = region_pts acc \<union> shifted dx dy (region_pts rs) \<and>
     length result = length acc + length rs"
proof (induction rs arbitrary: acc)
  case (Cons r rs)
  then obtain t where t: "translate_rectangle dx dy r = Some t"
    "fold_option (\<lambda>r result. map_option (\<lambda>t. result @ [t]) (translate_rectangle dx dy r)) rs (acc @ [t]) = Some result"
    by (auto split: option.splits)
  from Cons.IH [OF t(2)] translate_rectangle_pts [OF t(1)] show ?case by (auto simp: shifted_Un)
qed simp

lemma translate_rectangle_regular:
  assumes "regular rs" "fold_option (\<lambda>r result. map_option (\<lambda>t. result @ [t]) (translate_rectangle dx dy r)) rs acc = Some result"
    "sorted_wrt (\<lambda>a b. rect_pts a \<inter> rect_pts b = {}) acc"
    "region_pts acc \<inter> shifted dx dy (region_pts rs) = {}"
  shows "sorted_wrt (\<lambda>a b. rect_pts a \<inter> rect_pts b = {}) result"
  using assms
proof (induction rs arbitrary: acc)
  case (Cons r rs)
  then obtain t where t: "translate_rectangle dx dy r = Some t"
    "fold_option (\<lambda>r result. map_option (\<lambda>t. result @ [t]) (translate_rectangle dx dy r)) rs (acc @ [t]) = Some result"
    by (auto split: option.splits)
  note moved = translate_rectangle_pts [OF t(1)]
  have apart: "rect_pts r \<inter> region_pts rs = {}" "regular rs" using Cons.prems(1) by (auto simp: regular_Cons)
  have "rect_pts t \<inter> shifted dx dy (region_pts rs) = {}"
    unfolding moved shifted_Int [symmetric] apart(1) by simp
  moreover have "region_pts acc \<inter> rect_pts t = {}" using Cons.prems(4) unfolding moved by (auto simp: shifted_Un)
  ultimately show ?case
    using Cons.prems(3,4) by (intro Cons.IH [OF apart(2) t(2)]) (auto simp: sorted_wrt_append shifted_Un)
qed simp

text \<open>The extremum of a loop over the rectangles.\<close>

lemma fold_min: "fold (\<lambda>r. min (f r)) rs a \<le> a \<and> (\<forall>r \<in> set rs. fold (\<lambda>r. min (f r)) rs a \<le> f r) \<and>
    (fold (\<lambda>r. min (f r)) rs a = a \<or> (\<exists>r \<in> set rs. fold (\<lambda>r. min (f r)) rs a = f r))" for a :: int
proof (induction rs arbitrary: a)
  case (Cons r rs)
  from Cons.IH [of "min (f r) a"] show ?case by (auto simp: min_def split: if_splits)
qed simp

lemma fold_max_edge: "fold (\<lambda>r. max (f r)) rs a \<ge> a \<and> (\<forall>r \<in> set rs. fold (\<lambda>r. max (f r)) rs a \<ge> f r) \<and>
    (fold (\<lambda>r. max (f r)) rs a = a \<or> (\<exists>r \<in> set rs. fold (\<lambda>r. max (f r)) rs a = f r))" for a :: int
proof (induction rs arbitrary: a)
  case (Cons r rs)
  from Cons.IH [of "max (f r) a"] show ?case by (auto simp: max_def split: if_splits)
qed simp

text \<open>The extents of a region are the smallest rectangle around it.\<close>

lemma region_extents_smallest:
  assumes "regular rs" "rs \<noteq> []"
  shows "region_pts rs \<subseteq> rect_pts (region_extents rs)"
    and "region_pts rs \<subseteq> rect_pts q \<Longrightarrow> rect_pts (region_extents rs) \<subseteq> rect_pts q"
proof -
  obtain f rest where rs: "rs = f # rest" using assms(2) by (cases rs) auto
  define l where "l = fold (\<lambda>r. min (sint (rect_x r))) rs (sint (rect_x f))"
  define t where "t = fold (\<lambda>r. min (sint (rect_y r))) rs (sint (rect_y f))"
  define b where "b = fold (\<lambda>r. max (bottom_edge r)) rs (bottom_edge f)"
  define e where "e = fold (\<lambda>r. max (right_edge r)) rs (right_edge f)"
  have f: "f \<in> set rs" by (simp add: rs)
  have valid: "region_valid r" if "r \<in> set rs" for r using assms(1) that by (simp add: regular_def)
  have L: "\<forall>r \<in> set rs. l \<le> sint (rect_x r)" "\<exists>r \<in> set rs. l = sint (rect_x r)"
    using fold_min [of "\<lambda>r. sint (rect_x r)" rs "sint (rect_x f)"] f unfolding l_def by auto
  have T: "\<forall>r \<in> set rs. t \<le> sint (rect_y r)" "\<exists>r \<in> set rs. t = sint (rect_y r)"
    using fold_min [of "\<lambda>r. sint (rect_y r)" rs "sint (rect_y f)"] f unfolding t_def by auto
  have E: "\<forall>r \<in> set rs. right_edge r \<le> e" "\<exists>r \<in> set rs. e = right_edge r"
    using fold_max_edge [of "right_edge f" right_edge rs] f unfolding e_def by auto
  have B: "\<forall>r \<in> set rs. bottom_edge r \<le> b" "\<exists>r \<in> set rs. b = bottom_edge r"
    using fold_max_edge [of "bottom_edge f" bottom_edge rs] f unfolding b_def by auto
  have bounds: "int32_min \<le> l" "l < e" "e \<le> int32_max" "int32_min \<le> t" "t < b" "b \<le> int32_max"
    using L T E B region_valid_edges valid f by (metis order_le_less_trans order_less_le_trans)+
  have x: "region_extents rs = make_rectangle (i32_of l) (i32_of t) (u32_of (e - l)) (u32_of (b - t))"
    by (simp add: region_extents_def rs Let_def l_def t_def e_def b_def)
  have "rect_pts (region_extents rs) = {(px, py). l \<le> px \<and> px < e \<and> t \<le> py \<and> py < b}"
    unfolding x using bounds make_rectangle_edges(2) [of "i32_of l" e "i32_of t" b "u32_of (e - l)" "u32_of (b - t)"]
    by (simp add: casts)
  note pts = this
  show "region_pts rs \<subseteq> rect_pts (region_extents rs)"
    unfolding pts using L(1) T(1) E(1) B(1) by (fastforce simp: rect_pts_def)
  show "rect_pts (region_extents rs) \<subseteq> rect_pts q" if q: "region_pts rs \<subseteq> rect_pts q"
  proof -
    have corners: "sint (rect_x q) \<le> sint (rect_x r)" "right_edge r \<le> right_edge q" "sint (rect_y q) \<le> sint (rect_y r)"
      "bottom_edge r \<le> bottom_edge q" if "r \<in> set rs" for r
    proof -
      note v = region_valid_edges [OF valid [OF that]]
      have "(sint (rect_x r), sint (rect_y r)) \<in> rect_pts r" "(right_edge r - 1, bottom_edge r - 1) \<in> rect_pts r"
        using v by (auto simp: rect_pts_def)
      then have "(sint (rect_x r), sint (rect_y r)) \<in> rect_pts q" "(right_edge r - 1, bottom_edge r - 1) \<in> rect_pts q"
        using q that by blast+
      then show "sint (rect_x q) \<le> sint (rect_x r)" "right_edge r \<le> right_edge q" "sint (rect_y q) \<le> sint (rect_y r)"
        "bottom_edge r \<le> bottom_edge q" by (auto simp: rect_pts_def)
    qed
    have "sint (rect_x q) \<le> l" "e \<le> right_edge q" "sint (rect_y q) \<le> t" "b \<le> bottom_edge q"
      using corners L(2) T(2) E(2) B(2) by auto
    then show ?thesis unfolding pts by (auto simp: rect_pts_def)
  qed
qed

text \<open>
  For rectangles a request can carry (16-bit signed origin, 16-bit extents) the 32-bit differences of
  \<open>subtract_one\<close> do not overflow.
\<close>

lemma protocol_distance:
  assumes "- 32768 \<le> sint (rect_x s)" "right_edge s \<le> 98303" "- 32768 \<le> sint (rect_y s)" "bottom_edge s \<le> 98303" "intersect s r = Some c"
  shows "sint (rect_y c) - sint (rect_y s) \<le> int32_max" "sint (rect_x c) - sint (rect_x s) \<le> int32_max"
  using nonempty_edges [OF intersect_pts(2) [OF assms(5)]] intersect_pts(3,4) [OF assms(5)] assms(1-4) by auto

end
