(* ===== verification/Srv_Types.thy ===== *)
theory Srv_Types
  imports Srv_Region X11_Core
begin

text \<open>
  The resources of the server: the data of \<open>glasswyrmd/resource_table.hpp\<close> and of the headers it includes.

  A shared pointer is a reference: an address, with what the resource table asks of the object behind it. The
  pixels of a drawable and the picture of a cursor are not looked at by the table. Containers whose order is not
  fixed are finite maps, \<open>size_t\<close> is a natural number. The fields of a window that the table neither reads
  nor writes (those of the window policy and of the scale of its buffers, except the clients that select events of
  the latter) are left out.
\<close>

section \<open>The screen\<close>

record screen_model =
  sm_root_window :: u32
  sm_default_colormap :: u32
  sm_root_visual :: u32
  sm_root_depth :: u8
  sm_width_pixels :: u16
  sm_height_pixels :: u16
  sm_width_millimeters :: u16
  sm_height_millimeters :: u16
  sm_red_mask :: u32
  sm_green_mask :: u32
  sm_blue_mask :: u32
  sm_maximum_request_length :: u16
  sm_resource_id_mask :: u32
  sm_refresh_millihertz :: u32

definition kScreenModel :: screen_model where
  "kScreenModel = \<lparr>sm_root_window = 1, sm_default_colormap = 2, sm_root_visual = 3, sm_root_depth = 24, sm_width_pixels = 1024,
     sm_height_pixels = 768, sm_width_millimeters = 270, sm_height_millimeters = 203, sm_red_mask = 0x00ff0000,
     sm_green_mask = 0x0000ff00, sm_blue_mask = 0x000000ff, sm_maximum_request_length = 65535, sm_resource_id_mask = 0x001fffff,
     sm_refresh_millihertz = 60000\<rparr>"

definition resource_id_matches_client :: "u32 \<Rightarrow> u32 \<Rightarrow> u32 \<Rightarrow> bool" where
  "resource_id_matches_client xid resource_base resource_mask \<longleftrightarrow>
     xid \<noteq> 0 \<and> resource_base AND resource_mask = 0 \<and> xid AND NOT resource_mask = resource_base"

definition is_server_owned_id :: "u32 \<Rightarrow> screen_model \<Rightarrow> bool" where
  "is_server_owned_id xid screen \<longleftrightarrow>
     xid = sm_root_window screen \<or> xid = sm_default_colormap screen \<or> xid = sm_root_visual screen \<or>
     (xid \<ge> 0x1FFFF100 \<and> xid \<le> 0x1FFFF1FF)"

section \<open>Pixels and cursors\<close>

text \<open>A shared block of pixels.\<close>

record storage_ref =
  sr_address :: nat
  sr_width :: u32
  sr_height :: u32

datatype pixmap_storage = Bitmap_Storage storage_ref | Alpha_Storage storage_ref | Pixel_Storage storage_ref

definition kMaximumDimension :: u32 where "kMaximumDimension = 16384"

definition kMaximumBytes :: nat where "kMaximumBytes = 67108864"

text \<open>\<open>create\<close> of the three storages: the dimensions it accepts, at an address the allocator returns.\<close>

definition storage_create :: "nat \<Rightarrow> nat option \<Rightarrow> u32 \<Rightarrow> u32 \<Rightarrow> storage_ref option" where
  "storage_create bytes_per_pixel allocation width height =
     (if width = 0 \<or> height = 0 \<or> width > kMaximumDimension \<or> height > kMaximumDimension then None
      else if unat width * unat height > kMaximumBytes div bytes_per_pixel then None
      else map_option (\<lambda>address. \<lparr>sr_address = address, sr_width = width, sr_height = height\<rparr>) allocation)"

definition pixel_bytes :: "storage_ref \<Rightarrow> nat" where
  "pixel_bytes s = unat (sr_width s) * unat (sr_height s) * 4"

fun storage_bytes :: "pixmap_storage \<Rightarrow> nat" where
  "storage_bytes (Bitmap_Storage s) = unat (sr_width s) * unat (sr_height s)"
| "storage_bytes (Alpha_Storage s) = unat (sr_width s) * unat (sr_height s)"
| "storage_bytes (Pixel_Storage s) = pixel_bytes s"

fun storage_identity :: "pixmap_storage \<Rightarrow> nat" where
  "storage_identity (Bitmap_Storage s) = sr_address s"
| "storage_identity (Alpha_Storage s) = sr_address s"
| "storage_identity (Pixel_Storage s) = sr_address s"

text \<open>A shared cursor image, with its \<open>byte_size\<close>.\<close>

record cursor_ref =
  cr_address :: nat
  cr_byte_size :: nat

section \<open>Properties\<close>

datatype property_data = Data8 "u8 list" | Data16 "u16 list" | Data32 "u32 list"

record x_property =
  pr_type :: u32
  pr_data :: property_data

datatype property_mode = PM_Replace | PM_Prepend | PM_Append

record property_slice =
  ps_type :: u32
  ps_format :: u8
  ps_bytes_after :: u32
  ps_data :: property_data

section \<open>Windows\<close>

datatype window_class = CopyFromParent | InputOutput | InputOnly | Undefined_Class u16

datatype map_state = Unmapped | Unviewable | Viewable

datatype lifecycle_stack_mode = Stack_None | Stack_Above | Stack_Below

datatype background_source = Background_None | ParentRelative | Background_Pixel

record window_attributes =
  wa_background_source :: background_source
  wa_background_pixmap :: u32
  wa_background_pixel :: u32
  wa_border_pixmap :: u32
  wa_border_pixel :: u32
  wa_bit_gravity :: u8
  wa_window_gravity :: u8
  wa_backing_store :: u8
  wa_backing_planes :: u32
  wa_backing_pixel :: u32
  wa_override_redirect :: bool
  wa_save_under :: bool
  wa_do_not_propagate_mask :: u32
  wa_colormap :: u32
  wa_cursor :: u32
  wa_cursor_inherit :: bool
  wa_cursor_image :: "cursor_ref option"

definition default_attributes :: window_attributes where
  "default_attributes = \<lparr>wa_background_source = Background_None, wa_background_pixmap = 0, wa_background_pixel = 0, wa_border_pixmap = 0,
     wa_border_pixel = 0, wa_bit_gravity = 0, wa_window_gravity = 0, wa_backing_store = 0, wa_backing_planes = 0xffffffff,
     wa_backing_pixel = 0, wa_override_redirect = False, wa_save_under = False, wa_do_not_propagate_mask = 0, wa_colormap = 0,
     wa_cursor = 0, wa_cursor_inherit = True, wa_cursor_image = None\<rparr>"

text \<open>What the lifecycle and the policy of windows keep of a window.\<close>

record window_lifecycle =
  wl_focused :: bool
  wl_stacking :: i32
  wl_creation_serial :: u64
  wl_map_serial :: u64
  wl_focus_serial :: u64
  wl_geometry_serial :: u64
  wl_stack_serial :: u64
  wl_stack_sibling :: u32
  wl_stack_mode :: lifecycle_stack_mode

definition default_lifecycle :: window_lifecycle where
  "default_lifecycle = \<lparr>wl_focused = False, wl_stacking = - 1, wl_creation_serial = 0, wl_map_serial = 0, wl_focus_serial = 0,
     wl_geometry_serial = 0, wl_stack_serial = 0, wl_stack_sibling = 0, wl_stack_mode = Stack_None\<rparr>"

record server_window =
  sw_parent :: u32
  sw_children :: "u32 list"
  sw_x :: u16
  sw_y :: u16
  sw_width :: u16
  sw_height :: u16
  sw_border_width :: u16
  sw_requested_x :: i32
  sw_requested_y :: i32
  sw_requested_width :: u32
  sw_requested_height :: u32
  sw_requested_border_width :: u32
  sw_depth :: u8
  sw_class :: window_class
  sw_visual :: u32
  sw_map_state :: map_state
  sw_map_requested :: bool
  sw_policy_visible :: bool
  sw_cleanup_pending :: bool
  sw_lifecycle :: window_lifecycle
  sw_attributes :: window_attributes
  sw_storage :: "storage_ref option"
  sw_event_selections :: "(u64, u32) fmap"
  sw_properties :: "(u32, x_property) fmap"
  sw_scale_selections :: "(u64, u32) fmap"

definition default_window :: server_window where
  "default_window = \<lparr>sw_parent = 0, sw_children = [], sw_x = 0, sw_y = 0, sw_width = 0, sw_height = 0, sw_border_width = 0,
     sw_requested_x = 0, sw_requested_y = 0, sw_requested_width = 0, sw_requested_height = 0, sw_requested_border_width = 0,
     sw_depth = 0, sw_class = InputOutput, sw_visual = 0, sw_map_state = Unmapped, sw_map_requested = False,
     sw_policy_visible = False, sw_cleanup_pending = False, sw_lifecycle = default_lifecycle, sw_attributes = default_attributes,
     sw_storage = None, sw_event_selections = fmempty, sw_properties = fmempty, sw_scale_selections = fmempty\<rparr>"

record window_create_spec =
  cs_xid :: u32
  cs_parent :: u32
  cs_x :: u16
  cs_y :: u16
  cs_width :: u16
  cs_height :: u16
  cs_border_width :: u16
  cs_depth :: u8
  cs_class :: window_class
  cs_visual :: u32
  cs_attribute_mask :: u32
  cs_initial_event_mask :: u32
  cs_attributes :: window_attributes

record local_configure =
  lc_x :: "i32 option"
  lc_y :: "i32 option"
  lc_width :: "u32 option"
  lc_height :: "u32 option"
  lc_border_width :: "u32 option"
  lc_sibling :: "u32 option"
  lc_stack_mode :: lifecycle_stack_mode

section \<open>Other resources\<close>

record pixmap =
  px_root :: u32
  px_depth :: u8
  px_width :: u16
  px_height :: u16
  px_storage :: pixmap_storage

record graphics_context =
  gc_root :: u32
  gc_depth :: u8
  gc_function :: u8
  gc_plane_mask :: u32
  gc_foreground :: u32
  gc_background :: u32
  gc_line_width :: u16
  gc_line_style :: u8
  gc_cap_style :: u8
  gc_join_style :: u8
  gc_fill_style :: u8
  gc_stipple :: "storage_ref option"
  gc_subwindow_mode :: u8
  gc_graphics_exposures :: bool
  gc_clip_x_origin :: u16
  gc_clip_y_origin :: u16
  gc_clip_mask :: u32
  gc_font :: u32

datatype font_identity = Font_Fixed | Font_Cursor | Font_Nil2

record font =
  fo_canonical :: u32
  fo_identity :: font_identity

definition kDefaultFontXid :: u32 where "kDefaultFontXid = 0xfffffff0"

text \<open>An attached shared memory segment; the mapping is its address.\<close>

record shm_segment =
  sh_shmid :: i32
  sh_size :: nat
  sh_read_only :: bool
  sh_peer_uid :: u32
  sh_mapping :: "nat option"

datatype report_level = DR_BoundingBox | DR_NonEmpty

record damage_resource =
  dr_drawable :: u32
  dr_level :: report_level
  dr_accumulated :: "rectangle list"
  dr_non_empty_event_sent :: bool

record damage_notification =
  dn_client :: u64
  dn_damage :: u32
  dn_drawable :: u32
  dn_level :: report_level
  dn_area :: rectangle
  dn_geometry :: rectangle

record premultiplied_color =
  pc_red :: u8
  pc_green :: u8
  pc_blue :: u8
  pc_alpha :: u8

datatype picture_source = Drawable_Source u32 | Solid_Source premultiplied_color

record picture =
  pi_format :: u32
  pi_source :: picture_source
  pi_clip_x_origin :: i32
  pi_clip_y_origin :: i32
  pi_clip_rectangles :: "rectangle list option"

section \<open>The table\<close>

datatype resource_type = RT_Window | RT_Pixmap | RT_GraphicsContext | RT_Font | RT_Cursor | RT_Colormap | RT_ShmSegment
  | RT_XFixesRegion | RT_Damage | RT_Picture

datatype payload = PL_Window server_window | PL_Pixmap pixmap | PL_GraphicsContext graphics_context | PL_Font font
  | PL_Cursor "cursor_ref option" | PL_Colormap u32 | PL_ShmSegment shm_segment | PL_XFixesRegion "rectangle list"
  | PL_Damage damage_resource | PL_Picture picture

record resource =
  re_type :: resource_type
  re_owner :: "u64 option"
  re_payload :: payload

record resource_limits =
  rl_bytes_per_property :: nat
  rl_total_property_bytes :: nat
  rl_properties_per_window :: nat
  rl_canonical_drawable_bytes :: nat
  rl_pixmaps :: nat
  rl_graphics_contexts :: nat
  rl_fonts_per_client :: nat
  rl_total_fonts :: nat
  rl_cursors_per_client :: nat
  rl_total_cursor_bytes :: nat
  rl_colormaps_per_client :: nat
  rl_shm_segments_per_client :: nat
  rl_shm_bytes_per_client :: nat
  rl_regions_per_client :: nat
  rl_region_rectangles :: nat
  rl_damage_per_client :: nat
  rl_pictures_per_client :: nat

definition default_limits :: resource_limits where
  "default_limits = \<lparr>rl_bytes_per_property = 4194304, rl_total_property_bytes = 67108864, rl_properties_per_window = 4096,
     rl_canonical_drawable_bytes = 268435456, rl_pixmaps = 8192, rl_graphics_contexts = 8192, rl_fonts_per_client = 256,
     rl_total_fonts = 1024, rl_cursors_per_client = 256, rl_total_cursor_bytes = 4194304, rl_colormaps_per_client = 4096,
     rl_shm_segments_per_client = 256, rl_shm_bytes_per_client = 536870912, rl_regions_per_client = 4096,
     rl_region_rectangles = kMaximumXFixesRegionRectangles, rl_damage_per_client = 4096, rl_pictures_per_client = 8192\<rparr>"

record resource_table =
  rt_screen :: screen_model
  rt_limits :: resource_limits
  rt_resources :: "(u32, resource) fmap"
  rt_by_owner :: "(u64, u32 list) fmap"
  rt_property_bytes :: nat
  rt_drawable_bytes :: nat
  rt_cursor_bytes :: nat
  rt_root_cursor :: "cursor_ref option"

record cleanup_counts =
  cc_resources_destroyed :: nat
  cc_property_bytes_released :: nat

record cleanup_window =
  cw_xid :: u32
  cw_parent :: u32
  cw_structure_recipients :: "u64 list"
  cw_substructure_recipients :: "u64 list"
  cw_owner :: "u64 option"

record window_destroy_plan =
  dp_root :: u32
  dp_postorder :: "cleanup_window list"

record client_cleanup_plan =
  cp_owner :: u64
  cp_roots :: "u32 list"
  cp_postorder :: "cleanup_window list"
  cp_affects_policy :: bool

end
