(* ===== verification/Srv_Table.thy ===== *)
theory Srv_Table
  imports Srv_Types
begin

text \<open>
  The resource table of the server (\<open>glasswyrmd/resource_table.cpp\<close>, \<open>window_store.cpp\<close>, \<open>property.cpp\<close> and
  \<open>property_store.cpp\<close>): lookups, windows, event selections and properties.

  Running out of memory, which the code reports as \<open>BadAlloc\<close>, is not modelled, except for blocks of pixels, whose
  address is an argument. The recursion over the tree of windows is \<open>None\<close> when it does not end.
\<close>

section \<open>Lookups\<close>

definition find_resource :: "u32 \<Rightarrow> resource_table \<Rightarrow> resource option" where
  "find_resource xid t = fmlookup (rt_resources t) xid"

definition find_window :: "u32 \<Rightarrow> resource_table \<Rightarrow> server_window option" where
  "find_window xid t = (case find_resource xid t of None \<Rightarrow> None | Some r \<Rightarrow>
     (case re_payload r of PL_Window w \<Rightarrow> Some w | _ \<Rightarrow> None))"

definition find_pixmap :: "u32 \<Rightarrow> resource_table \<Rightarrow> pixmap option" where
  "find_pixmap xid t = (case find_resource xid t of None \<Rightarrow> None | Some r \<Rightarrow>
     (case re_payload r of PL_Pixmap p \<Rightarrow> Some p | _ \<Rightarrow> None))"

definition find_gc :: "u32 \<Rightarrow> resource_table \<Rightarrow> graphics_context option" where
  "find_gc xid t = (case find_resource xid t of None \<Rightarrow> None | Some r \<Rightarrow>
     (case re_payload r of PL_GraphicsContext g \<Rightarrow> Some g | _ \<Rightarrow> None))"

definition find_font :: "u32 \<Rightarrow> resource_table \<Rightarrow> font option" where
  "find_font xid t = (case find_resource xid t of None \<Rightarrow> None | Some r \<Rightarrow>
     (case re_payload r of PL_Font f \<Rightarrow> Some f | _ \<Rightarrow> None))"

definition find_cursor :: "u32 \<Rightarrow> resource_table \<Rightarrow> cursor_ref option option" where
  "find_cursor xid t = (case find_resource xid t of None \<Rightarrow> None | Some r \<Rightarrow>
     (case re_payload r of PL_Cursor c \<Rightarrow> Some c | _ \<Rightarrow> None))"

definition find_colormap :: "u32 \<Rightarrow> resource_table \<Rightarrow> u32 option" where
  "find_colormap xid t = (case find_resource xid t of None \<Rightarrow> None | Some r \<Rightarrow>
     (case re_payload r of PL_Colormap v \<Rightarrow> Some v | _ \<Rightarrow> None))"

definition valid_colormap :: "u32 \<Rightarrow> resource_table \<Rightarrow> bool" where
  "valid_colormap xid t \<longleftrightarrow> xid = sm_default_colormap (rt_screen t) \<or> find_colormap xid t \<noteq> None"

definition find_shm_segment :: "u32 \<Rightarrow> resource_table \<Rightarrow> shm_segment option" where
  "find_shm_segment xid t = (case find_resource xid t of None \<Rightarrow> None | Some r \<Rightarrow>
     (case re_payload r of PL_ShmSegment s \<Rightarrow> Some s | _ \<Rightarrow> None))"

definition find_xfixes_region :: "u32 \<Rightarrow> resource_table \<Rightarrow> rectangle list option" where
  "find_xfixes_region xid t = (case find_resource xid t of None \<Rightarrow> None | Some r \<Rightarrow>
     (case re_payload r of PL_XFixesRegion rs \<Rightarrow> Some rs | _ \<Rightarrow> None))"

definition find_damage :: "u32 \<Rightarrow> resource_table \<Rightarrow> damage_resource option" where
  "find_damage xid t = (case find_resource xid t of None \<Rightarrow> None | Some r \<Rightarrow>
     (case re_payload r of PL_Damage d \<Rightarrow> Some d | _ \<Rightarrow> None))"

definition find_picture :: "u32 \<Rightarrow> resource_table \<Rightarrow> picture option" where
  "find_picture xid t = (case find_resource xid t of None \<Rightarrow> None | Some r \<Rightarrow>
     (case re_payload r of PL_Picture p \<Rightarrow> Some p | _ \<Rightarrow> None))"

text \<open>The loop of \<open>effective_cursor\<close>, which looks at one window more than there are resources.\<close>

fun cursor_along :: "nat \<Rightarrow> u32 \<Rightarrow> resource_table \<Rightarrow> cursor_ref option" where
  "cursor_along 0 current t = None"
| "cursor_along (Suc depth) current t =
     (case find_window current t of
        None \<Rightarrow> None
      | Some w \<Rightarrow>
          if \<not> wa_cursor_inherit (sw_attributes w) then wa_cursor_image (sw_attributes w)
          else if current = sm_root_window (rt_screen t) then rt_root_cursor t
          else cursor_along depth (sw_parent w) t)"

definition effective_cursor :: "u32 \<Rightarrow> resource_table \<Rightarrow> cursor_ref option" where
  "effective_cursor pointer_target t = cursor_along (Suc (fcard (fmdom (rt_resources t)))) pointer_target t"

definition valid_new_resource_id :: "u32 \<Rightarrow> u32 \<Rightarrow> u32 \<Rightarrow> resource_table \<Rightarrow> bool" where
  "valid_new_resource_id xid resource_base resource_mask t \<longleftrightarrow>
     resource_id_matches_client xid resource_base resource_mask \<and> \<not> is_server_owned_id xid (rt_screen t) \<and>
     find_resource xid t = None"

definition resource_count :: "resource_type \<Rightarrow> resource_table \<Rightarrow> nat" where
  "resource_count type t = fcard (ffilter (\<lambda>xid. case find_resource xid t of Some r \<Rightarrow> re_type r = type | None \<Rightarrow> False) (fmdom (rt_resources t)))"

text \<open>The resources of a type that belong to a client.\<close>

definition owned_count :: "resource_type \<Rightarrow> u64 \<Rightarrow> resource_table \<Rightarrow> nat" where
  "owned_count type owner t = fcard (ffilter (\<lambda>xid. case find_resource xid t of
     Some r \<Rightarrow> re_type r = type \<and> re_owner r = Some owner | None \<Rightarrow> False) (fmdom (rt_resources t)))"

definition owned_ids :: "u64 \<Rightarrow> resource_table \<Rightarrow> u32 list" where
  "owned_ids owner t = (case fmlookup (rt_by_owner t) owner of None \<Rightarrow> [] | Some ids \<Rightarrow> ids)"

definition resource_count_by_owner :: "u64 \<Rightarrow> resource_table \<Rightarrow> nat" where
  "resource_count_by_owner owner t = length (owned_ids owner t)"

section \<open>Changing the table\<close>

text \<open>\<open>resources_.emplace\<close> with \<open>resources_by_owner_[owner].push_back\<close>; and the two erasures that undo them.\<close>

definition adopt :: "u64 \<Rightarrow> u32 \<Rightarrow> resource_type \<Rightarrow> payload \<Rightarrow> resource_table \<Rightarrow> resource_table" where
  "adopt owner xid type payload t =
     t\<lparr>rt_resources := emplace xid \<lparr>re_type = type, re_owner = Some owner, re_payload = payload\<rparr> (rt_resources t),
       rt_by_owner := fmupd owner (owned_ids owner t @ [xid]) (rt_by_owner t)\<rparr>"

definition remove_owned_id :: "u64 \<Rightarrow> u32 \<Rightarrow> resource_table \<Rightarrow> resource_table" where
  "remove_owned_id owner xid t =
     (case fmlookup (rt_by_owner t) owner of
        None \<Rightarrow> t
      | Some ids \<Rightarrow> t\<lparr>rt_by_owner :=
          let rest = filter (\<lambda>i. i \<noteq> xid) ids in if rest = [] then fmdrop owner (rt_by_owner t) else fmupd owner rest (rt_by_owner t)\<rparr>)"

definition erase_resource :: "u32 \<Rightarrow> resource_table \<Rightarrow> resource_table" where
  "erase_resource xid t = t\<lparr>rt_resources := fmdrop xid (rt_resources t)\<rparr>"

text \<open>Erasing a resource and, when it has an owner, its number in the list of the owner.\<close>

definition disown :: "u32 \<Rightarrow> resource_table \<Rightarrow> resource_table" where
  "disown xid t =
     (case find_resource xid t of
        None \<Rightarrow> t
      | Some r \<Rightarrow> (case re_owner r of None \<Rightarrow> erase_resource xid t | Some owner \<Rightarrow> remove_owned_id owner xid (erase_resource xid t)))"

text \<open>An assignment through the pointer a lookup returned.\<close>

definition set_payload :: "u32 \<Rightarrow> payload \<Rightarrow> resource_table \<Rightarrow> resource_table" where
  "set_payload xid payload t =
     (case find_resource xid t of
        None \<Rightarrow> t
      | Some r \<Rightarrow> t\<lparr>rt_resources := fmupd xid (r\<lparr>re_payload := payload\<rparr>) (rt_resources t)\<rparr>)"

definition update_window :: "u32 \<Rightarrow> (server_window \<Rightarrow> server_window) \<Rightarrow> resource_table \<Rightarrow> resource_table" where
  "update_window xid f t = (case find_window xid t of None \<Rightarrow> t | Some w \<Rightarrow> set_payload xid (PL_Window (f w)) t)"

text \<open>A range \<open>for\<close> loop over all resources that assigns to windows.\<close>

definition update_windows :: "(server_window \<Rightarrow> server_window) \<Rightarrow> resource_table \<Rightarrow> resource_table" where
  "update_windows f t = t\<lparr>rt_resources := fmmap (\<lambda>r. case re_payload r of PL_Window w \<Rightarrow> r\<lparr>re_payload := PL_Window (f w)\<rparr> | _ \<Rightarrow> r) (rt_resources t)\<rparr>"

section \<open>The table at the start\<close>

definition new_resource_table :: "screen_model \<Rightarrow> resource_limits \<Rightarrow> cursor_ref option \<Rightarrow> resource_table" where
  "new_resource_table screen limits root_cursor =
     (let root = default_window\<lparr>sw_width := sm_width_pixels screen, sw_height := sm_height_pixels screen, sw_depth := sm_root_depth screen,
            sw_class := InputOutput, sw_visual := sm_root_visual screen, sw_map_state := Viewable,
            sw_attributes := default_attributes\<lparr>wa_colormap := sm_default_colormap screen\<rparr>\<rparr>
      in \<lparr>rt_screen = screen, rt_limits = limits,
          rt_resources = emplace kDefaultFontXid \<lparr>re_type = RT_Font, re_owner = None,
              re_payload = PL_Font \<lparr>fo_canonical = kDefaultFontXid, fo_identity = Font_Fixed\<rparr>\<rparr>
            (emplace (sm_default_colormap screen) \<lparr>re_type = RT_Colormap, re_owner = None, re_payload = PL_Colormap (sm_root_visual screen)\<rparr>
            (emplace (sm_root_window screen) \<lparr>re_type = RT_Window, re_owner = None, re_payload = PL_Window root\<rparr> fmempty)),
          rt_by_owner = fmempty, rt_property_bytes = 0, rt_drawable_bytes = 0, rt_cursor_bytes = 0, rt_root_cursor = root_cursor\<rparr>)"

definition update_screen_geometry :: "screen_model \<Rightarrow> resource_table \<Rightarrow> bool \<times> resource_table" where
  "update_screen_geometry screen t =
     (let old = rt_screen t
      in if sm_root_window screen \<noteq> sm_root_window old \<or> sm_default_colormap screen \<noteq> sm_default_colormap old \<or>
            sm_root_visual screen \<noteq> sm_root_visual old \<or> sm_root_depth screen \<noteq> sm_root_depth old \<or>
            sm_red_mask screen \<noteq> sm_red_mask old \<or> sm_green_mask screen \<noteq> sm_green_mask old \<or>
            sm_blue_mask screen \<noteq> sm_blue_mask old \<or> sm_maximum_request_length screen \<noteq> sm_maximum_request_length old \<or>
            sm_resource_id_mask screen \<noteq> sm_resource_id_mask old \<or> sm_width_pixels screen = 0 \<or> sm_height_pixels screen = 0 \<or>
            sm_width_millimeters screen = 0 \<or> sm_height_millimeters screen = 0 \<or> sm_refresh_millihertz screen = 0
         then (False, t)
         else case find_window (sm_root_window old) t of
           None \<Rightarrow> (False, t)
         | Some _ \<Rightarrow> (True, update_window (sm_root_window old) (\<lambda>root. root\<lparr>sw_width := sm_width_pixels screen, sw_height := sm_height_pixels screen\<rparr>)
             (t\<lparr>rt_screen := screen\<rparr>)))"

definition create_server_proxy_window :: "u32 \<Rightarrow> resource_table \<Rightarrow> bool \<times> resource_table" where
  "create_server_proxy_window xid t =
     (if xid = 0 \<or> find_resource xid t \<noteq> None then (False, t)
      else let screen = rt_screen t;
               proxy = default_window\<lparr>sw_parent := sm_root_window screen, sw_width := 1, sw_height := 1, sw_requested_width := 1,
                 sw_requested_height := 1, sw_depth := sm_root_depth screen, sw_class := InputOutput, sw_visual := sm_root_visual screen,
                 sw_attributes := default_attributes\<lparr>wa_colormap := sm_default_colormap screen\<rparr>\<rparr>
           in (True, update_window (sm_root_window screen) (\<lambda>root. root\<lparr>sw_children := sw_children root @ [xid]\<rparr>)
                (t\<lparr>rt_resources := emplace xid \<lparr>re_type = RT_Window, re_owner = None, re_payload = PL_Window proxy\<rparr> (rt_resources t)\<rparr>)))"

section \<open>Map states\<close>

definition kEwmhSupportingWindow :: u32 where "kEwmhSupportingWindow = 4"

definition is_policy_candidate :: "u32 \<Rightarrow> resource_table \<Rightarrow> bool" where
  "is_policy_candidate xid t \<longleftrightarrow> xid \<noteq> kEwmhSupportingWindow \<and>
     (case find_window xid t of None \<Rightarrow> False | Some w \<Rightarrow> sw_parent w = sm_root_window (rt_screen t) \<and> sw_class w = InputOutput)"

definition next_map_state :: "bool \<Rightarrow> bool \<Rightarrow> server_window \<Rightarrow> map_state" where
  "next_map_state candidate parent_viewable w =
     (if \<not> sw_map_requested w then Unmapped
      else if candidate \<and> \<not> sw_policy_visible w then Unmapped
      else if parent_viewable then Viewable else Unviewable)"

lemma fold_option_mono [partial_function_mono]:
  assumes "\<And>x s. mono_option (\<lambda>f. B f x s)"
  shows "mono_option (\<lambda>f. fold_option (B f) xs s)"
proof (induction xs arbitrary: s)
  case Nil
  show ?case by (simp add: option.const_mono)
next
  case (Cons x xs)
  have "mono_option (\<lambda>f. Option.bind (B f x s) (fold_option (B f) xs))"
    by (rule bind_mono [OF assms Cons.IH])
  moreover have "Option.bind (B f x s) (fold_option (B f) xs) = fold_option (B f) (x # xs) s" for f
    by (cases "B f x s") simp_all
  ultimately show ?case by simp
qed

partial_function (option) recompute_map_states_from :: "u32 \<Rightarrow> bool \<Rightarrow> resource_table \<Rightarrow> resource_table option" where
  "recompute_map_states_from xid parent_viewable t =
     (case find_window xid t of
        None \<Rightarrow> Some t
      | Some w \<Rightarrow>
          let state = next_map_state (is_policy_candidate xid t) parent_viewable w
          in fold_option (\<lambda>child t. recompute_map_states_from child (state = Viewable) t) (sw_children w)
               (update_window xid (\<lambda>w. w\<lparr>sw_map_state := state\<rparr>) t))"

definition recompute_map_states :: "u32 \<Rightarrow> resource_table \<Rightarrow> resource_table option" where
  "recompute_map_states xid t =
     (if xid = sm_root_window (rt_screen t)
      then case find_window xid t of
             None \<Rightarrow> None
           | Some root \<Rightarrow> fold_option (\<lambda>child t. recompute_map_states_from child True t) (sw_children root)
               (update_window xid (\<lambda>w. w\<lparr>sw_map_state := Viewable\<rparr>) t)
      else case find_window xid t of
             None \<Rightarrow> Some t
           | Some w \<Rightarrow> recompute_map_states_from xid
               (case find_window (sw_parent w) t of None \<Rightarrow> False | Some parent \<Rightarrow> sw_map_state parent = Viewable) t)"

datatype lifecycle_status = LL_Success | LL_BadWindow | LL_BadMatch | LL_BadValue | LL_BadAlloc

definition set_local_map_intent :: "u32 \<Rightarrow> bool \<Rightarrow> resource_table \<Rightarrow> (lifecycle_status \<times> resource_table) option" where
  "set_local_map_intent xid mapped t =
     (case find_window xid t of
        None \<Rightarrow> Some (LL_BadWindow, t)
      | Some _ \<Rightarrow>
          if xid = sm_root_window (rt_screen t) \<or> is_policy_candidate xid t then Some (LL_BadMatch, t)
          else map_option (Pair LL_Success)
                 (recompute_map_states xid (update_window xid (\<lambda>w. w\<lparr>sw_map_requested := mapped\<rparr>) t)))"

end
