(* ===== verification/Srv_Windows.thy ===== *)
theory Srv_Windows
  imports Srv_Table
begin

text \<open>
  Windows (\<open>glasswyrmd/window_store.cpp\<close>): creation, geometry and stacking, event selections; and their properties
  (\<open>glasswyrmd/property.cpp\<close>, \<open>glasswyrmd/property_store.cpp\<close>).
\<close>

section \<open>Geometry and stacking\<close>

text \<open>
  Where a window goes among the children of its parent; \<open>None\<close> is the increment of an end iterator, when the
  sibling is not among them.
\<close>

definition reorder_children :: "u32 \<Rightarrow> lifecycle_stack_mode \<Rightarrow> u32 option \<Rightarrow> u32 list \<Rightarrow> u32 list option" where
  "reorder_children xid mode sibling children =
     (let others = filter (\<lambda>c. c \<noteq> xid) children
      in case sibling of
           None \<Rightarrow> Some (if mode = Stack_Above then others @ [xid] else xid # others)
         | Some s \<Rightarrow>
             (case position s others of
                None \<Rightarrow> if mode = Stack_Above then None else Some (others @ [xid])
              | Some i \<Rightarrow> let at = if mode = Stack_Above then Suc i else i
                         in Some (take at others @ [xid] @ drop at others)))"

definition exceeds16 :: "u32 option \<Rightarrow> bool" where
  "exceeds16 v = (case v of None \<Rightarrow> False | Some w \<Rightarrow> w > 65535)"

definition outside16 :: "i32 option \<Rightarrow> bool" where
  "outside16 v = (case v of None \<Rightarrow> False | Some w \<Rightarrow> sint w < - 32768 \<or> sint w > 32767)"

definition bad_geometry :: "local_configure \<Rightarrow> bool" where
  "bad_geometry c \<longleftrightarrow> lc_width c = Some 0 \<or> exceeds16 (lc_width c) \<or> lc_height c = Some 0 \<or> exceeds16 (lc_height c) \<or>
     exceeds16 (lc_border_width c) \<or> outside16 (lc_x c) \<or> outside16 (lc_y c)"

definition bad_sibling :: "u32 \<Rightarrow> server_window \<Rightarrow> local_configure \<Rightarrow> resource_table \<Rightarrow> bool" where
  "bad_sibling xid w c t =
     (case lc_sibling c of
        None \<Rightarrow> False
      | Some sibling \<Rightarrow> sibling = xid \<or>
          (case find_window sibling t of None \<Rightarrow> True | Some s \<Rightarrow> sw_parent s \<noteq> sw_parent w \<or> lc_stack_mode c = Stack_None))"

text \<open>The storage after a change of the extent: kept, replaced, or refused (\<open>Inl\<close>).\<close>

definition resized_storage :: "nat option \<Rightarrow> u16 \<Rightarrow> u16 \<Rightarrow> server_window \<Rightarrow> lifecycle_status + storage_ref option" where
  "resized_storage allocation width height w =
     (case sw_storage w of
        None \<Rightarrow> Inr None
      | Some s \<Rightarrow>
          if sr_width s = ucast width \<and> sr_height s = ucast height then Inr (Some s)
          else (case storage_create 4 allocation (ucast width) (ucast height) of None \<Rightarrow> Inl LL_BadAlloc | Some s' \<Rightarrow> Inr (Some s')))"

definition configured_window :: "local_configure \<Rightarrow> u16 \<Rightarrow> u16 \<Rightarrow> storage_ref option \<Rightarrow> server_window \<Rightarrow> server_window" where
  "configured_window c width height storage w =
     (let x = (case lc_x c of None \<Rightarrow> sw_x w | Some v \<Rightarrow> ucast v); y = (case lc_y c of None \<Rightarrow> sw_y w | Some v \<Rightarrow> ucast v);
          border = (case lc_border_width c of None \<Rightarrow> sw_border_width w | Some v \<Rightarrow> ucast v)
      in w\<lparr>sw_x := x, sw_y := y, sw_width := width, sw_height := height, sw_border_width := border, sw_storage := storage,
           sw_requested_x := scast x, sw_requested_y := scast y, sw_requested_width := ucast width,
           sw_requested_height := ucast height, sw_requested_border_width := ucast border\<rparr>)"

definition configure_local :: "nat option \<Rightarrow> u32 \<Rightarrow> local_configure \<Rightarrow> resource_table \<Rightarrow> (lifecycle_status \<times> resource_table) option" where
  "configure_local allocation xid c t =
     (case find_window xid t of
        None \<Rightarrow> Some (LL_BadWindow, t)
      | Some w \<Rightarrow>
          if xid = sm_root_window (rt_screen t) \<or> is_policy_candidate xid t then Some (LL_BadMatch, t)
          else if bad_geometry c then Some (LL_BadValue, t)
          else case find_window (sw_parent w) t of
            None \<Rightarrow> Some (LL_BadWindow, t)
          | Some parent \<Rightarrow>
              if bad_sibling xid w c t then Some (LL_BadMatch, t)
              else let width = (case lc_width c of None \<Rightarrow> sw_width w | Some v \<Rightarrow> ucast v);
                       height = (case lc_height c of None \<Rightarrow> sw_height w | Some v \<Rightarrow> ucast v)
                   in case resized_storage allocation width height w of
                     Inl status \<Rightarrow> Some (status, t)
                   | Inr storage \<Rightarrow>
                       (case (if lc_stack_mode c = Stack_None then Some (sw_children parent)
                              else reorder_children xid (lc_stack_mode c) (lc_sibling c) (sw_children parent)) of
                          None \<Rightarrow> None
                        | Some children \<Rightarrow> Some (LL_Success,
                            update_window (sw_parent w) (\<lambda>p. p\<lparr>sw_children := children\<rparr>)
                              (update_window xid (configured_window c width height storage) t))))"

fun append_visible :: "u32 list \<Rightarrow> u32 list \<Rightarrow> resource_table \<Rightarrow> u32 list option" where
  "append_visible [] result t = Some result"
| "append_visible (child # rest) result t =
     (if \<not> is_policy_candidate child t \<or> child \<in> set result then None else append_visible rest (result @ [child]) t)"

definition reorder_root_children :: "u32 list \<Rightarrow> resource_table \<Rightarrow> bool \<times> resource_table" where
  "reorder_root_children visible_bottom_to_top t =
     (case find_window (sm_root_window (rt_screen t)) t of
        None \<Rightarrow> (False, t)
      | Some root \<Rightarrow>
          (case append_visible visible_bottom_to_top (filter (\<lambda>c. c \<notin> set visible_bottom_to_top) (sw_children root)) t of
             None \<Rightarrow> (False, t)
           | Some children \<Rightarrow> (True, update_window (sm_root_window (rt_screen t)) (\<lambda>w. w\<lparr>sw_children := children\<rparr>) t)))"

section \<open>Creation\<close>

datatype create_window_status = CW_Success | CW_BadIdChoice | CW_BadWindow | CW_BadValue | CW_BadMatch | CW_BadAlloc

definition kInputOnlyAttributes :: u32 where
  "kInputOnlyAttributes = push_bit 5 1 OR push_bit 9 1 OR push_bit 11 1 OR push_bit 12 1 OR push_bit 14 1"

text \<open>The class of the new window: \<open>None\<close> for an undefined class.\<close>

definition chosen_class :: "window_create_spec \<Rightarrow> server_window \<Rightarrow> window_class option" where
  "chosen_class spec parent =
     (case cs_class spec of
        CopyFromParent \<Rightarrow> Some (sw_class parent)
      | InputOutput \<Rightarrow> Some InputOutput
      | InputOnly \<Rightarrow> Some InputOnly
      | Undefined_Class _ \<Rightarrow> None)"

definition new_window :: "u64 \<Rightarrow> window_create_spec \<Rightarrow> window_class \<Rightarrow> u8 \<Rightarrow> u32 \<Rightarrow> server_window" where
  "new_window owner spec class depth visual =
     default_window\<lparr>sw_parent := cs_parent spec, sw_x := cs_x spec, sw_y := cs_y spec, sw_width := cs_width spec, sw_height := cs_height spec,
       sw_border_width := cs_border_width spec, sw_requested_x := scast (cs_x spec), sw_requested_y := scast (cs_y spec),
       sw_requested_width := ucast (cs_width spec), sw_requested_height := ucast (cs_height spec),
       sw_requested_border_width := ucast (cs_border_width spec), sw_attributes := cs_attributes spec,
       sw_event_selections := if cs_initial_event_mask spec \<noteq> 0 then fmupd owner (cs_initial_event_mask spec) fmempty else fmempty,
       sw_class := class, sw_depth := depth, sw_visual := visual\<rparr>"

definition create_window :: "u64 \<Rightarrow> u32 \<Rightarrow> u32 \<Rightarrow> window_create_spec \<Rightarrow> resource_table \<Rightarrow> create_window_status \<times> resource_table" where
  "create_window owner resource_base resource_mask spec t =
     (if \<not> valid_new_resource_id (cs_xid spec) resource_base resource_mask t then (CW_BadIdChoice, t)
      else case find_window (cs_parent spec) t of
        None \<Rightarrow> (CW_BadWindow, t)
      | Some parent \<Rightarrow>
          if cs_width spec = 0 \<or> cs_height spec = 0 then (CW_BadValue, t)
          else case chosen_class spec parent of
            None \<Rightarrow> (CW_BadValue, t)
          | Some class \<Rightarrow>
              let input_only = class = InputOnly;
                  depth = if input_only then 0 else if cs_depth spec = 0 then sw_depth parent else cs_depth spec;
                  visual = if input_only then 0 else if cs_visual spec = 0 then sw_visual parent else cs_visual spec
              in if input_only \<and> (cs_depth spec \<noteq> 0 \<or> cs_visual spec \<noteq> 0 \<or> cs_border_width spec \<noteq> 0 \<or>
                                  cs_attribute_mask spec AND NOT kInputOnlyAttributes \<noteq> 0) then (CW_BadMatch, t)
                 else if \<not> input_only \<and> (sw_class parent = InputOnly \<or> depth \<noteq> sm_root_depth (rt_screen t) \<or>
                                  visual \<noteq> sm_root_visual (rt_screen t)) then (CW_BadMatch, t)
                 else (CW_Success,
                       update_window (cs_parent spec) (\<lambda>p. p\<lparr>sw_children := sw_children p @ [cs_xid spec]\<rparr>)
                         (adopt owner (cs_xid spec) RT_Window (PL_Window (new_window owner spec class depth visual)) t)))"

section \<open>Event selections\<close>

definition set_event_selection :: "u32 \<Rightarrow> u64 \<Rightarrow> u32 \<Rightarrow> resource_table \<Rightarrow> bool \<times> resource_table" where
  "set_event_selection window client event_mask t =
     (case find_window window t of
        None \<Rightarrow> (False, t)
      | Some _ \<Rightarrow> (True, update_window window (\<lambda>w. w\<lparr>sw_event_selections :=
          if event_mask = 0 then fmdrop client (sw_event_selections w) else fmupd client event_mask (sw_event_selections w)\<rparr>) t))"

definition event_selection :: "u32 \<Rightarrow> u64 \<Rightarrow> resource_table \<Rightarrow> u32" where
  "event_selection window client t =
     (case find_window window t of None \<Rightarrow> 0 | Some w \<Rightarrow> (case fmlookup (sw_event_selections w) client of None \<Rightarrow> 0 | Some m \<Rightarrow> m))"

definition all_event_selections :: "u32 \<Rightarrow> resource_table \<Rightarrow> u32" where
  "all_event_selections window t =
     (case find_window window t of
        None \<Rightarrow> 0
      | Some w \<Rightarrow> fold (\<lambda>client result. result OR the (fmlookup (sw_event_selections w) client))
          (sorted_list_of_fset (fmdom (sw_event_selections w))) 0)"

definition remove_event_selections :: "u64 \<Rightarrow> resource_table \<Rightarrow> resource_table" where
  "remove_event_selections client t = update_windows (\<lambda>w. w\<lparr>sw_event_selections := fmdrop client (sw_event_selections w)\<rparr>) t"

definition remove_gw_scale_selections :: "u64 \<Rightarrow> resource_table \<Rightarrow> resource_table" where
  "remove_gw_scale_selections client t = update_windows (\<lambda>w. w\<lparr>sw_scale_selections := fmdrop client (sw_scale_selections w)\<rparr>) t"

section \<open>Property data\<close>

fun item_bits :: "property_data \<Rightarrow> u8" where
  "item_bits (Data8 _) = 8"
| "item_bits (Data16 _) = 16"
| "item_bits (Data32 _) = 32"

fun item_count :: "property_data \<Rightarrow> nat" where
  "item_count (Data8 vs) = length vs"
| "item_count (Data16 vs) = length vs"
| "item_count (Data32 vs) = length vs"

fun byte_size :: "property_data \<Rightarrow> nat" where
  "byte_size (Data8 vs) = length vs * 1"
| "byte_size (Data16 vs) = length vs * 2"
| "byte_size (Data32 vs) = length vs * 4"

definition slice_values :: "nat \<Rightarrow> nat \<Rightarrow> nat \<Rightarrow> 'v list \<Rightarrow> 'v list" where
  "slice_values item_size byte_offset byte_length values =
     (let first = byte_offset div item_size; items = byte_length div item_size; past = min (length values) (first + items)
      in if first \<ge> length values then [] else take (past - first) (drop first values))"

fun slice_property_data :: "property_data \<Rightarrow> nat \<Rightarrow> nat \<Rightarrow> property_data" where
  "slice_property_data (Data8 vs) byte_offset byte_length = Data8 (slice_values 1 byte_offset byte_length vs)"
| "slice_property_data (Data16 vs) byte_offset byte_length = Data16 (slice_values 2 byte_offset byte_length vs)"
| "slice_property_data (Data32 vs) byte_offset byte_length = Data32 (slice_values 4 byte_offset byte_length vs)"

fun concatenate_property_data :: "property_data \<Rightarrow> property_data \<Rightarrow> property_data" where
  "concatenate_property_data (Data8 left) (Data8 right) = Data8 (left @ right)"
| "concatenate_property_data (Data16 left) (Data16 right) = Data16 (left @ right)"
| "concatenate_property_data (Data32 left) (Data32 right) = Data32 (left @ right)"
| "concatenate_property_data left right = left"

section \<open>Properties of windows\<close>

datatype property_status = PT_Success | PT_BadWindow | PT_BadMatch | PT_BadAlloc

text \<open>The value of the property after the change.\<close>

definition replacement_property :: "x_property option \<Rightarrow> x_property \<Rightarrow> property_mode \<Rightarrow> x_property" where
  "replacement_property current value mode =
     (case current of
        None \<Rightarrow> value
      | Some old \<Rightarrow>
          (case mode of
             PM_Replace \<Rightarrow> value
           | PM_Append \<Rightarrow> value\<lparr>pr_data := concatenate_property_data (pr_data old) (pr_data value)\<rparr>
           | PM_Prepend \<Rightarrow> value\<lparr>pr_data := concatenate_property_data (pr_data value) (pr_data old)\<rparr>))"

definition change_property :: "u32 \<Rightarrow> u32 \<Rightarrow> x_property \<Rightarrow> property_mode \<Rightarrow> resource_table \<Rightarrow> property_status \<times> resource_table" where
  "change_property window property_atom value mode t =
     (case find_window window t of
        None \<Rightarrow> (PT_BadWindow, t)
      | Some w \<Rightarrow>
          let current = fmlookup (sw_properties w) property_atom
          in if (case current of None \<Rightarrow> False | Some old \<Rightarrow> mode \<noteq> PM_Replace \<and>
                   (pr_type old \<noteq> pr_type value \<or> item_bits (pr_data old) \<noteq> item_bits (pr_data value))) then (PT_BadMatch, t)
             else let replacement = replacement_property current value mode;
                      old_size = (case current of None \<Rightarrow> 0 | Some old \<Rightarrow> byte_size (pr_data old));
                      new_size = byte_size (pr_data replacement)
                  in if new_size > rl_bytes_per_property (rt_limits t) \<or>
                        current = None \<and> fcard (fmdom (sw_properties w)) \<ge> rl_properties_per_window (rt_limits t) \<or>
                        new_size > rl_total_property_bytes (rt_limits t) - (rt_property_bytes t - old_size) then (PT_BadAlloc, t)
                     else (PT_Success,
                           (update_window window (\<lambda>w. w\<lparr>sw_properties := fmupd property_atom replacement (sw_properties w)\<rparr>) t)
                             \<lparr>rt_property_bytes := rt_property_bytes t - old_size + new_size\<rparr>))"

definition delete_property :: "u32 \<Rightarrow> u32 \<Rightarrow> resource_table \<Rightarrow> bool \<times> resource_table" where
  "delete_property window property_atom t =
     (case find_window window t of
        None \<Rightarrow> (False, t)
      | Some w \<Rightarrow>
          (case fmlookup (sw_properties w) property_atom of
             None \<Rightarrow> (True, t)
           | Some old \<Rightarrow> (True,
               (update_window window (\<lambda>w. w\<lparr>sw_properties := fmdrop property_atom (sw_properties w)\<rparr>) t)
                 \<lparr>rt_property_bytes := rt_property_bytes t - byte_size (pr_data old)\<rparr>)))"

datatype property_read_status = PV_Success | PV_BadWindow | PV_BadValue

record property_read =
  pv_status :: property_read_status
  pv_present :: bool
  pv_type_matched :: bool
  pv_deleted :: bool
  pv_value :: property_slice

definition empty_read :: property_read where
  "empty_read = \<lparr>pv_status = PV_Success, pv_present = False, pv_type_matched = False, pv_deleted = False,
     pv_value = \<lparr>ps_type = 0, ps_format = 0, ps_bytes_after = 0, ps_data = Data8 []\<rparr>\<rparr>"

definition get_property :: "u32 \<Rightarrow> u32 \<Rightarrow> u32 \<Rightarrow> bool \<Rightarrow> u32 \<Rightarrow> u32 \<Rightarrow> resource_table \<Rightarrow> property_read \<times> resource_table" where
  "get_property window property_atom requested_type delete_after_read long_offset long_length t =
     (case find_window window t of
        None \<Rightarrow> (empty_read\<lparr>pv_status := PV_BadWindow\<rparr>, t)
      | Some w \<Rightarrow>
          (case fmlookup (sw_properties w) property_atom of
             None \<Rightarrow> (empty_read, t)
           | Some property \<Rightarrow>
               let size = byte_size (pr_data property); offset = unat long_offset * 4
               in if offset > size then (empty_read\<lparr>pv_status := PV_BadValue\<rparr>, t)
                  else let matched = requested_type = 0 \<or> requested_type = pr_type property;
                           result = empty_read\<lparr>pv_present := True, pv_type_matched := matched,
                             pv_value := \<lparr>ps_type = pr_type property, ps_format = item_bits (pr_data property),
                               ps_bytes_after = word_of_nat size, ps_data = Data8 []\<rparr>\<rparr>
                       in if \<not> matched then (result, t)
                          else let available = size - offset; returned = min available (unat long_length * 4);
                                   slice = \<lparr>ps_type = pr_type property, ps_format = item_bits (pr_data property),
                                     ps_bytes_after = word_of_nat (available - returned),
                                     ps_data = slice_property_data (pr_data property) offset returned\<rparr>
                               in if delete_after_read \<and> ps_bytes_after slice = 0
                                  then (result\<lparr>pv_value := slice, pv_deleted := True\<rparr>,
                                        (update_window window (\<lambda>w. w\<lparr>sw_properties := fmdrop property_atom (sw_properties w)\<rparr>) t)
                                          \<lparr>rt_property_bytes := rt_property_bytes t - size\<rparr>)
                                  else (result\<lparr>pv_value := slice\<rparr>, t)))"

definition list_properties :: "u32 \<Rightarrow> resource_table \<Rightarrow> u32 list" where
  "list_properties window t =
     (case find_window window t of None \<Rightarrow> [] | Some w \<Rightarrow> sorted_list_of_fset (fmdom (sw_properties w)))"

end
