(* ===== verification/Srv_Stores.thy ===== *)
theory Srv_Stores
  imports Srv_Windows
begin

text \<open>
  The other resources: pixmaps and graphics contexts (\<open>glasswyrmd/drawable_store.cpp\<close>), cursors (\<open>cursor_store.cpp\<close>),
  fonts (\<open>font_store.cpp\<close>), colormaps (\<open>colormap_store.cpp\<close>), shared memory (\<open>shm_store.cpp\<close>), regions
  (\<open>xfixes_region_store.cpp\<close>), damage (\<open>damage_store.cpp\<close>) and pictures (\<open>picture_store.cpp\<close>).

  The address of a new block of pixels, the answers of the kernel about a shared memory segment and the recoloured
  image of a cursor are arguments. Loops over all resources whose results the code sorts go through the numbers in
  order.
\<close>

section \<open>Damage\<close>

datatype damage_status = DS_Success | DS_BadIdChoice | DS_BadDamage | DS_BadDrawable | DS_BadValue | DS_BadAlloc

definition drawable_geometry :: "u32 \<Rightarrow> resource_table \<Rightarrow> rectangle option" where
  "drawable_geometry drawable t =
     (case find_window drawable t of
        Some w \<Rightarrow> Some (make_rectangle 0 0 (ucast (sw_width w)) (ucast (sw_height w)))
      | None \<Rightarrow> (case find_pixmap drawable t of
          Some p \<Rightarrow> Some (make_rectangle 0 0 (ucast (px_width p)) (ucast (px_height p)))
        | None \<Rightarrow> None))"

definition create_damage :: "u64 \<Rightarrow> u32 \<Rightarrow> u32 \<Rightarrow> u32 \<Rightarrow> u32 \<Rightarrow> report_level \<Rightarrow> resource_table \<Rightarrow> damage_status \<times> resource_table" where
  "create_damage owner resource_base resource_mask xid drawable level t =
     (if \<not> valid_new_resource_id xid resource_base resource_mask t then (DS_BadIdChoice, t)
      else if drawable_geometry drawable t = None then (DS_BadDrawable, t)
      else if owned_count RT_Damage owner t \<ge> rl_damage_per_client (rt_limits t) then (DS_BadAlloc, t)
      else (DS_Success, adopt owner xid RT_Damage
             (PL_Damage \<lparr>dr_drawable = drawable, dr_level = level, dr_accumulated = [], dr_non_empty_event_sent = False\<rparr>) t))"

definition destroy_damage :: "u32 \<Rightarrow> resource_table \<Rightarrow> damage_status \<times> resource_table" where
  "destroy_damage xid t = (if find_damage xid t = None then (DS_BadDamage, t) else (DS_Success, disown xid t))"

text \<open>The optional regions of \<open>subtract_damage\<close>: \<open>None\<close> when a number is given that is no region.\<close>

definition optional_region :: "u32 \<Rightarrow> resource_table \<Rightarrow> rectangle list option option" where
  "optional_region xid t = (if xid = 0 then Some None else map_option Some (find_xfixes_region xid t))"

definition subtract_damage :: "u32 \<Rightarrow> u32 \<Rightarrow> u32 \<Rightarrow> resource_table \<Rightarrow> (damage_status \<times> damage_notification list) \<times> resource_table" where
  "subtract_damage xid repair_region parts_region t =
     (case find_damage xid t of
        None \<Rightarrow> ((DS_BadDamage, []), t)
      | Some damage \<Rightarrow>
          (case optional_region repair_region t of
             None \<Rightarrow> ((DS_BadValue, []), t)
           | Some repair \<Rightarrow>
               if optional_region parts_region t = None then ((DS_BadValue, []), t)
               else let repaired = (case repair of None \<Rightarrow> Some (dr_accumulated damage) | Some rs \<Rightarrow> intersect_regions (dr_accumulated damage) rs);
                        remaining = (case repair of None \<Rightarrow> Some [] | Some rs \<Rightarrow> subtract_regions (dr_accumulated damage) rs);
                        limit = rl_region_rectangles (rt_limits t)
                    in case (repaired, remaining) of
                      (Some parts, Some rest) \<Rightarrow>
                        if length parts > limit \<or> length rest > limit then ((DS_BadAlloc, []), t)
                        else let owner = Option.bind (find_resource xid t) re_owner;
                                 bounds = drawable_geometry (dr_drawable damage) t
                             in if rest \<noteq> [] \<and> (owner = None \<or> bounds = None) then ((DS_BadDamage, []), t)
                                else let notifications = (if rest = [] then [] else
                                         [\<lparr>dn_client = the owner, dn_damage = xid, dn_drawable = dr_drawable damage, dn_level = dr_level damage,
                                           dn_area = region_extents rest, dn_geometry = the bounds\<rparr>]);
                                         with_parts = (if parts_region = 0 then t else set_payload parts_region (PL_XFixesRegion parts) t)
                                     in ((DS_Success, notifications),
                                         set_payload xid (PL_Damage (damage\<lparr>dr_accumulated := rest, dr_non_empty_event_sent := rest \<noteq> []\<rparr>)) with_parts)
                    | _ \<Rightarrow> ((DS_BadAlloc, []), t)))"

text \<open>What one damage resource accumulates, and whether its client is told; the outer \<open>None\<close> is a failure.\<close>

definition stage_damage ::
    "u32 \<Rightarrow> rectangle list \<Rightarrow> rectangle \<Rightarrow> nat \<Rightarrow> u64 \<Rightarrow> u32 \<Rightarrow> damage_resource \<Rightarrow> (rectangle list \<times> damage_notification option) option" where
  "stage_damage drawable incoming bounds limit owner xid damage =
     (case union_regions (dr_accumulated damage) incoming of
        None \<Rightarrow> None
      | Some united \<Rightarrow>
          if length united > limit \<and> limit = 0 then None
          else let accumulated = (if length united > limit then [bounds] else united);
                   previous_bounds = region_extents (dr_accumulated damage);
                   next_bounds = region_extents accumulated;
                   notify = (if dr_level damage = DR_NonEmpty then dr_accumulated damage = [] else previous_bounds \<noteq> next_bounds)
               in Some (accumulated, if notify then Some \<lparr>dn_client = owner, dn_damage = xid, dn_drawable = drawable, dn_level = dr_level damage,
                      dn_area = (if dr_level damage = DR_BoundingBox then next_bounds else region_extents incoming), dn_geometry = bounds\<rparr>
                    else None))"

text \<open>The loop that stages the change of every damage resource of the drawable.\<close>

definition stage_one :: "u32 \<Rightarrow> rectangle list \<Rightarrow> rectangle \<Rightarrow> resource_table \<Rightarrow> u32 \<Rightarrow>
    (u32 \<times> damage_resource \<times> rectangle list \<times> damage_notification option) list \<Rightarrow>
    (u32 \<times> damage_resource \<times> rectangle list \<times> damage_notification option) list option" where
  "stage_one drawable incoming bounds t xid staged =
     (case find_damage xid t of
        None \<Rightarrow> Some staged
      | Some damage \<Rightarrow>
          (case Option.bind (find_resource xid t) re_owner of
             None \<Rightarrow> Some staged
           | Some owner \<Rightarrow>
               if dr_drawable damage \<noteq> drawable then Some staged
               else map_option (\<lambda>(accumulated, notification). staged @ [(xid, damage, accumulated, notification)])
                      (stage_damage drawable incoming bounds (rl_region_rectangles (rt_limits t)) owner xid damage)))"

definition add_damage :: "u32 \<Rightarrow> rectangle list \<Rightarrow> resource_table \<Rightarrow> (damage_status \<times> damage_notification list) \<times> resource_table" where
  "add_damage drawable rectangles t =
     (case drawable_geometry drawable t of
        None \<Rightarrow> ((DS_BadDrawable, []), t)
      | Some bounds \<Rightarrow>
          (case normalize_region (List.map_filter (intersect bounds) rectangles) of
             None \<Rightarrow> ((DS_BadAlloc, []), t)
           | Some [] \<Rightarrow> ((DS_Success, []), t)
           | Some incoming \<Rightarrow>
               (case fold_option (stage_one drawable incoming bounds t) (sorted_list_of_fset (fmdom (rt_resources t))) [] of
                  None \<Rightarrow> ((DS_BadAlloc, []), t)
                | Some staged \<Rightarrow>
                    ((DS_Success, sort_key dn_damage (List.map_filter (\<lambda>(_, _, _, notification). notification) staged)),
                     fold (\<lambda>(xid, damage, accumulated, _). set_payload xid (PL_Damage (damage\<lparr>dr_accumulated := accumulated,
                         dr_non_empty_event_sent := True\<rparr>))) staged t))))"

definition damage_drawable :: "u32 \<Rightarrow> rectangle \<Rightarrow> resource_table \<Rightarrow> damage_notification list \<times> resource_table" where
  "damage_drawable drawable r t =
     (case add_damage drawable [r] t of ((status, notifications), t') \<Rightarrow> (if status = DS_Success then notifications else [], t'))"

definition remove_damage_for_drawable :: "u32 \<Rightarrow> resource_table \<Rightarrow> nat \<times> resource_table" where
  "remove_damage_for_drawable drawable t =
     (let removed = filter (\<lambda>xid. case find_damage xid t of Some d \<Rightarrow> dr_drawable d = drawable | None \<Rightarrow> False)
        (sorted_list_of_fset (fmdom (rt_resources t)))
      in (length removed, fold (\<lambda>xid t. snd (destroy_damage xid t)) removed t))"

section \<open>Pictures\<close>

datatype picture_status = PS_Success | PS_BadIdChoice | PS_BadPicture | PS_BadDrawable | PS_BadFormat | PS_BadMatch | PS_BadValue | PS_BadAlloc

definition create_picture :: "u64 \<Rightarrow> u32 \<Rightarrow> u32 \<Rightarrow> u32 \<Rightarrow> picture \<Rightarrow> resource_table \<Rightarrow> picture_status \<times> resource_table" where
  "create_picture owner resource_base resource_mask xid value t =
     (if \<not> valid_new_resource_id xid resource_base resource_mask t then (PS_BadIdChoice, t)
      else if length (filter (\<lambda>i. find_picture i t \<noteq> None) (owned_ids owner t)) \<ge> rl_pictures_per_client (rt_limits t) then (PS_BadAlloc, t)
      else (PS_Success, adopt owner xid RT_Picture (PL_Picture value) t))"

definition free_picture :: "u32 \<Rightarrow> resource_table \<Rightarrow> picture_status \<times> resource_table" where
  "free_picture xid t = (if find_picture xid t = None then (PS_BadPicture, t) else (PS_Success, disown xid t))"

definition remove_pictures_for_drawable :: "u32 \<Rightarrow> resource_table \<Rightarrow> nat \<times> resource_table" where
  "remove_pictures_for_drawable drawable t =
     (let doomed = filter (\<lambda>xid. case find_picture xid t of Some p \<Rightarrow> pi_source p = Drawable_Source drawable | None \<Rightarrow> False)
        (sorted_list_of_fset (fmdom (rt_resources t)))
      in (length doomed, fold (\<lambda>xid t. snd (free_picture xid t)) doomed t))"

section \<open>Pixmaps\<close>

datatype pixmap_status = PX_Success | PX_BadIdChoice | PX_BadDrawable | PX_BadValue | PX_BadMatch | PX_BadAlloc

text \<open>The bytes of all pixmaps, a shared storage counted once: with the lowest number that has it.\<close>

definition drawable_contribution :: "u32 \<Rightarrow> resource_table \<Rightarrow> nat" where
  "drawable_contribution xid t =
     (case find_pixmap xid t of
        None \<Rightarrow> 0
      | Some p \<Rightarrow>
          if (\<exists>other \<in> fset (fmdom (rt_resources t)). other < xid \<and>
                (case find_pixmap other t of None \<Rightarrow> False | Some q \<Rightarrow> storage_identity (px_storage q) = storage_identity (px_storage p)))
          then 0 else storage_bytes (px_storage p))"

definition recompute_canonical_drawable_bytes :: "resource_table \<Rightarrow> resource_table" where
  "recompute_canonical_drawable_bytes t =
     t\<lparr>rt_drawable_bytes := sum (\<lambda>xid. drawable_contribution xid t) (fset (fmdom (rt_resources t)))\<rparr>"

definition bad_anchor :: "u32 \<Rightarrow> resource_table \<Rightarrow> bool" where
  "bad_anchor drawable t =
     (case find_window drawable t of
        None \<Rightarrow> False
      | Some w \<Rightarrow> drawable \<noteq> sm_root_window (rt_screen t) \<and>
          (sw_parent w \<noteq> sm_root_window (rt_screen t) \<or> sw_class w \<noteq> InputOutput \<or> sw_depth w \<noteq> 24))"

definition pixmap_storage_create :: "nat option \<Rightarrow> u8 \<Rightarrow> u16 \<Rightarrow> u16 \<Rightarrow> pixmap_storage option" where
  "pixmap_storage_create allocation depth width height =
     (if depth = 1 then map_option Bitmap_Storage (storage_create 1 allocation (ucast width) (ucast height))
      else if depth = 8 then map_option Alpha_Storage (storage_create 1 allocation (ucast width) (ucast height))
      else map_option Pixel_Storage (storage_create 4 allocation (ucast width) (ucast height)))"

definition create_pixmap ::
    "nat option \<Rightarrow> u64 \<Rightarrow> u32 \<Rightarrow> u32 \<Rightarrow> u32 \<Rightarrow> u32 \<Rightarrow> u8 \<Rightarrow> u16 \<Rightarrow> u16 \<Rightarrow> resource_table \<Rightarrow> pixmap_status \<times> resource_table" where
  "create_pixmap allocation owner resource_base resource_mask xid drawable depth width height t =
     (if \<not> valid_new_resource_id xid resource_base resource_mask t then (PX_BadIdChoice, t)
      else if drawable \<noteq> sm_root_window (rt_screen t) \<and> find_window drawable t = None \<and> find_pixmap drawable t = None then (PX_BadDrawable, t)
      else if bad_anchor drawable t then (PX_BadMatch, t)
      else if depth \<noteq> 1 \<and> depth \<noteq> 8 \<and> depth \<noteq> 24 \<and> depth \<noteq> 32 \<or> width = 0 \<or> height = 0 then (PX_BadValue, t)
      else if resource_count RT_Pixmap t \<ge> rl_pixmaps (rt_limits t) then (PX_BadAlloc, t)
      else case pixmap_storage_create allocation depth width height of
        None \<Rightarrow> (PX_BadAlloc, t)
      | Some storage \<Rightarrow>
          if storage_bytes storage > rl_canonical_drawable_bytes (rt_limits t) - rt_drawable_bytes t then (PX_BadAlloc, t)
          else (PX_Success, recompute_canonical_drawable_bytes (adopt owner xid RT_Pixmap
                 (PL_Pixmap \<lparr>px_root = sm_root_window (rt_screen t), px_depth = depth, px_width = width, px_height = height, px_storage = storage\<rparr>) t)))"

definition free_pixmap :: "u32 \<Rightarrow> resource_table \<Rightarrow> bool \<times> resource_table" where
  "free_pixmap xid t =
     (if find_pixmap xid t = None then (False, t)
      else (True, recompute_canonical_drawable_bytes
             (disown xid (snd (remove_pictures_for_drawable xid (snd (remove_damage_for_drawable xid t)))))))"

definition window_storage :: "nat option \<Rightarrow> server_window \<Rightarrow> storage_ref option" where
  "window_storage allocation w =
     (case sw_storage w of Some s \<Rightarrow> Some s | None \<Rightarrow> storage_create 4 allocation (ucast (sw_width w)) (ucast (sw_height w)))"

definition already_counted :: "nat \<Rightarrow> resource_table \<Rightarrow> bool" where
  "already_counted identity t \<longleftrightarrow>
     (\<exists>xid \<in> fset (fmdom (rt_resources t)). case find_pixmap xid t of None \<Rightarrow> False | Some p \<Rightarrow> storage_identity (px_storage p) = identity)"

definition name_window_pixmap :: "nat option \<Rightarrow> u64 \<Rightarrow> u32 \<Rightarrow> u32 \<Rightarrow> u32 \<Rightarrow> u32 \<Rightarrow> resource_table \<Rightarrow> pixmap_status \<times> resource_table" where
  "name_window_pixmap allocation owner resource_base resource_mask xid window_xid t =
     (if \<not> valid_new_resource_id xid resource_base resource_mask t then (PX_BadIdChoice, t)
      else case find_window window_xid t of
        None \<Rightarrow> (PX_BadDrawable, t)
      | Some w \<Rightarrow>
          if window_xid = sm_root_window (rt_screen t) \<or> sw_class w \<noteq> InputOutput \<or> sw_depth w \<noteq> 24 then (PX_BadMatch, t)
          else if resource_count RT_Pixmap t \<ge> rl_pixmaps (rt_limits t) then (PX_BadAlloc, t)
          else case window_storage allocation w of
            None \<Rightarrow> (PX_BadAlloc, t)
          | Some storage \<Rightarrow>
              let t' = update_window window_xid (\<lambda>w. w\<lparr>sw_storage := Some storage\<rparr>) t
              in if \<not> already_counted (sr_address storage) t' \<and>
                    pixel_bytes storage > rl_canonical_drawable_bytes (rt_limits t) - rt_drawable_bytes t then (PX_BadAlloc, t')
                 else (PX_Success, recompute_canonical_drawable_bytes (adopt owner xid RT_Pixmap
                        (PL_Pixmap \<lparr>px_root = sm_root_window (rt_screen t), px_depth = sw_depth w, px_width = sw_width w,
                           px_height = sw_height w, px_storage = Pixel_Storage storage\<rparr>) t')))"

section \<open>Graphics contexts\<close>

datatype gc_status = GC_Success | GC_BadIdChoice | GC_BadDrawable | GC_BadMatch | GC_BadAlloc

text \<open>The depth of the drawable: \<open>Inl\<close> the refusal.\<close>

definition gc_drawable_depth :: "u32 \<Rightarrow> resource_table \<Rightarrow> gc_status + u8" where
  "gc_drawable_depth drawable t =
     (if drawable = sm_root_window (rt_screen t) then Inr (sm_root_depth (rt_screen t))
      else case find_window drawable t of
        Some w \<Rightarrow> if sw_class w \<noteq> InputOutput \<or> sw_depth w \<noteq> sm_root_depth (rt_screen t) then Inl GC_BadMatch else Inr (sw_depth w)
      | None \<Rightarrow> (case find_pixmap drawable t of Some p \<Rightarrow> Inr (px_depth p) | None \<Rightarrow> Inl GC_BadDrawable))"

definition create_gc :: "u64 \<Rightarrow> u32 \<Rightarrow> u32 \<Rightarrow> u32 \<Rightarrow> u32 \<Rightarrow> graphics_context \<Rightarrow> resource_table \<Rightarrow> gc_status \<times> resource_table" where
  "create_gc owner resource_base resource_mask xid drawable gc t =
     (if \<not> valid_new_resource_id xid resource_base resource_mask t then (GC_BadIdChoice, t)
      else case gc_drawable_depth drawable t of
        Inl status \<Rightarrow> (status, t)
      | Inr depth \<Rightarrow>
          if depth \<noteq> 1 \<and> depth \<noteq> 24 then (GC_BadMatch, t)
          else let gc = (if depth = 1 then gc\<lparr>gc_foreground := gc_foreground gc AND 1, gc_background := gc_background gc AND 1,
                           gc_plane_mask := gc_plane_mask gc AND 1\<rparr> else gc)
               in if resource_count RT_GraphicsContext t \<ge> rl_graphics_contexts (rt_limits t) then (GC_BadAlloc, t)
                  else (GC_Success, adopt owner xid RT_GraphicsContext
                         (PL_GraphicsContext (gc\<lparr>gc_root := sm_root_window (rt_screen t), gc_depth := depth\<rparr>)) t))"

definition free_gc :: "u32 \<Rightarrow> resource_table \<Rightarrow> bool \<times> resource_table" where
  "free_gc xid t = (if find_gc xid t = None then (False, t) else (True, disown xid t))"

section \<open>Fonts, colormaps, shared memory\<close>

datatype open_font_status = OF_Success | OF_BadIdChoice | OF_BadAlloc

definition total_fonts :: "resource_table \<Rightarrow> nat" where
  "total_fonts t = fcard (ffilter (\<lambda>xid. case find_resource xid t of
     Some r \<Rightarrow> re_type r = RT_Font \<and> re_owner r \<noteq> None | None \<Rightarrow> False) (fmdom (rt_resources t)))"

definition open_font :: "u64 \<Rightarrow> u32 \<Rightarrow> u32 \<Rightarrow> u32 \<Rightarrow> font_identity \<Rightarrow> resource_table \<Rightarrow> open_font_status \<times> resource_table" where
  "open_font owner resource_base resource_mask xid identity t =
     (if \<not> valid_new_resource_id xid resource_base resource_mask t then (OF_BadIdChoice, t)
      else if owned_count RT_Font owner t \<ge> rl_fonts_per_client (rt_limits t) \<or> total_fonts t \<ge> rl_total_fonts (rt_limits t) then (OF_BadAlloc, t)
      else (OF_Success, adopt owner xid RT_Font (PL_Font \<lparr>fo_canonical = kDefaultFontXid, fo_identity = identity\<rparr>) t))"

definition has_owner :: "u32 \<Rightarrow> resource_table \<Rightarrow> bool" where
  "has_owner xid t = (case find_resource xid t of None \<Rightarrow> False | Some r \<Rightarrow> re_owner r \<noteq> None)"

definition close_font :: "u32 \<Rightarrow> resource_table \<Rightarrow> bool \<times> resource_table" where
  "close_font xid t = (if find_font xid t = None \<or> \<not> has_owner xid t then (False, t) else (True, disown xid t))"

datatype create_colormap_status = CM_Success | CM_BadIdChoice | CM_BadWindow | CM_BadMatch | CM_BadAlloc

definition create_colormap :: "u64 \<Rightarrow> u32 \<Rightarrow> u32 \<Rightarrow> u32 \<Rightarrow> u32 \<Rightarrow> u32 \<Rightarrow> resource_table \<Rightarrow> create_colormap_status \<times> resource_table" where
  "create_colormap owner resource_base resource_mask xid window visual t =
     (if \<not> valid_new_resource_id xid resource_base resource_mask t then (CM_BadIdChoice, t)
      else if find_window window t = None then (CM_BadWindow, t)
      else if visual \<noteq> sm_root_visual (rt_screen t) then (CM_BadMatch, t)
      else if owned_count RT_Colormap owner t \<ge> rl_colormaps_per_client (rt_limits t) then (CM_BadAlloc, t)
      else (CM_Success, adopt owner xid RT_Colormap (PL_Colormap visual) t))"

datatype free_colormap_status = FC_Success | FC_BadColormap | FC_BadAccess

text \<open>The owner of a colormap that is not the default one is dereferenced: \<open>None\<close> when there is none.\<close>

definition free_colormap :: "u32 \<Rightarrow> resource_table \<Rightarrow> (free_colormap_status \<times> resource_table) option" where
  "free_colormap xid t =
     (if xid = sm_default_colormap (rt_screen t) then Some (FC_BadAccess, t)
      else case find_resource xid t of
        None \<Rightarrow> Some (FC_BadColormap, t)
      | Some r \<Rightarrow> if re_type r \<noteq> RT_Colormap then Some (FC_BadColormap, t)
          else if re_owner r = None then None else Some (FC_Success, disown xid t))"

datatype attach_status = AS_Success | AS_BadIdChoice | AS_BadValue | AS_BadAccess | AS_BadAlloc

text \<open>What \<open>shmctl\<close> reports of a segment, \<open>SHM_DEST\<close> of its mode included.\<close>

record shm_status =
  st_segsz :: nat
  st_destroyed :: bool
  st_uid :: u32
  st_cuid :: u32

text \<open>The loop over the segments of the client: their number and bytes, \<open>None\<close> when they exceed the limit.\<close>

definition owned_shm :: "u64 \<Rightarrow> resource_table \<Rightarrow> u32 \<Rightarrow> nat \<times> nat \<Rightarrow> (nat \<times> nat) option" where
  "owned_shm owner t xid counted =
     (case find_resource xid t of
        None \<Rightarrow> Some counted
      | Some r \<Rightarrow>
          if re_owner r \<noteq> Some owner \<or> re_type r \<noteq> RT_ShmSegment then Some counted
          else (case find_shm_segment xid t of
             None \<Rightarrow> None
           | Some segment \<Rightarrow>
               if sh_size segment > rl_shm_bytes_per_client (rt_limits t) \<or>
                  snd counted > rl_shm_bytes_per_client (rt_limits t) - sh_size segment then None
               else Some (fst counted + 1, snd counted + sh_size segment)))"

definition attach_shm_segment ::
    "(u32 \<Rightarrow> shm_status option) \<Rightarrow> nat option \<Rightarrow> u64 \<Rightarrow> u32 \<Rightarrow> u32 \<Rightarrow> u32 \<Rightarrow> u32 \<Rightarrow> bool \<Rightarrow> u32 \<Rightarrow> resource_table \<Rightarrow> attach_status \<times> resource_table" where
  "attach_shm_segment shmctl shmat owner resource_base resource_mask xid shmid_wire read_only peer_uid t =
     (if \<not> valid_new_resource_id xid resource_base resource_mask t then (AS_BadIdChoice, t)
      else if shmid_wire > 0x7fffffff then (AS_BadValue, t)
      else case shmctl shmid_wire of
        None \<Rightarrow> (AS_BadAccess, t)
      | Some status \<Rightarrow>
          if st_segsz status = 0 \<or> st_destroyed status \<or> st_uid status \<noteq> peer_uid \<and> st_cuid status \<noteq> peer_uid then (AS_BadAccess, t)
          else (case fold_option (owned_shm owner t) (sorted_list_of_fset (fmdom (rt_resources t))) (0, 0) of
             None \<Rightarrow> (AS_BadAlloc, t)
           | Some (owned_segments, owned_bytes) \<Rightarrow>
               if owned_segments \<ge> rl_shm_segments_per_client (rt_limits t) \<or>
                  st_segsz status > rl_shm_bytes_per_client (rt_limits t) - owned_bytes then (AS_BadAlloc, t)
               else (case shmat of
                  None \<Rightarrow> (AS_BadAccess, t)
                | Some address \<Rightarrow> (AS_Success, adopt owner xid RT_ShmSegment
                    (PL_ShmSegment \<lparr>sh_shmid = shmid_wire, sh_size = st_segsz status, sh_read_only = read_only, sh_peer_uid = peer_uid,
                       sh_mapping = Some address\<rparr>) t))))"

definition detach_shm_segment :: "u32 \<Rightarrow> resource_table \<Rightarrow> bool \<times> resource_table" where
  "detach_shm_segment xid t = (if find_shm_segment xid t = None then (False, t) else (True, disown xid t))"

section \<open>Cursors\<close>

datatype create_cursor_status = CR_Success | CR_BadIdChoice | CR_BadAlloc

definition create_cursor :: "u64 \<Rightarrow> u32 \<Rightarrow> u32 \<Rightarrow> u32 \<Rightarrow> cursor_ref option \<Rightarrow> resource_table \<Rightarrow> create_cursor_status \<times> resource_table" where
  "create_cursor owner resource_base resource_mask xid shared t =
     (if \<not> valid_new_resource_id xid resource_base resource_mask t then (CR_BadIdChoice, t)
      else case shared of
        None \<Rightarrow> (CR_BadAlloc, t)
      | Some picture \<Rightarrow>
          if owned_count RT_Cursor owner t \<ge> rl_cursors_per_client (rt_limits t) \<or>
             rt_cursor_bytes t > rl_total_cursor_bytes (rt_limits t) \<or>
             cr_byte_size picture > rl_total_cursor_bytes (rt_limits t) - rt_cursor_bytes t then (CR_BadAlloc, t)
          else (CR_Success, (adopt owner xid RT_Cursor (PL_Cursor shared) t)\<lparr>rt_cursor_bytes := rt_cursor_bytes t + cr_byte_size picture\<rparr>))"

text \<open>The byte size of the image of a cursor; the pointer is dereferenced, and no cursor is made without an image.\<close>

definition image_bytes :: "cursor_ref option \<Rightarrow> nat" where
  "image_bytes shared = (case shared of None \<Rightarrow> 0 | Some c \<Rightarrow> cr_byte_size c)"

definition forget_cursor :: "u32 \<Rightarrow> server_window \<Rightarrow> server_window" where
  "forget_cursor xid w =
     (if \<not> wa_cursor_inherit (sw_attributes w) \<and> wa_cursor (sw_attributes w) = xid
      then w\<lparr>sw_attributes := (sw_attributes w)\<lparr>wa_cursor := 0\<rparr>\<rparr> else w)"

definition free_cursor :: "u32 \<Rightarrow> resource_table \<Rightarrow> bool \<times> resource_table" where
  "free_cursor xid t =
     (case find_cursor xid t of
        None \<Rightarrow> (False, t)
      | Some shared \<Rightarrow>
          if \<not> has_owner xid t then (False, t)
          else (True, (disown xid (update_windows (forget_cursor xid) t))\<lparr>rt_cursor_bytes := rt_cursor_bytes t - image_bytes shared\<rparr>))"

datatype recolor_status = RS_Success | RS_BadCursor | RS_BadAlloc

definition recolored_window :: "u32 \<Rightarrow> cursor_ref \<Rightarrow> server_window \<Rightarrow> server_window" where
  "recolored_window xid replacement w =
     (if \<not> wa_cursor_inherit (sw_attributes w) \<and> wa_cursor (sw_attributes w) = xid
      then w\<lparr>sw_attributes := (sw_attributes w)\<lparr>wa_cursor_image := Some replacement\<rparr>\<rparr> else w)"

text \<open>The replacement is what \<open>input::recolor_cursor\<close> returns.\<close>

definition recolor_cursor :: "cursor_ref option \<Rightarrow> u32 \<Rightarrow> resource_table \<Rightarrow> recolor_status \<times> resource_table" where
  "recolor_cursor replacement xid t =
     (case find_cursor xid t of
        None \<Rightarrow> (RS_BadCursor, t)
      | Some shared \<Rightarrow>
          (case replacement of
             None \<Rightarrow> (RS_BadAlloc, t)
           | Some recolored \<Rightarrow>
               let old_bytes = image_bytes shared; new_bytes = cr_byte_size recolored
               in if rt_cursor_bytes t < old_bytes \<or> rt_cursor_bytes t - old_bytes > rl_total_cursor_bytes (rt_limits t) \<or>
                     new_bytes > rl_total_cursor_bytes (rt_limits t) - (rt_cursor_bytes t - old_bytes) then (RS_BadAlloc, t)
                  else (RS_Success, (set_payload xid (PL_Cursor replacement) (update_windows (recolored_window xid recolored) t))
                         \<lparr>rt_cursor_bytes := rt_cursor_bytes t - old_bytes + new_bytes\<rparr>)))"

section \<open>Regions\<close>

datatype region_status = RG_Success | RG_BadIdChoice | RG_BadRegion | RG_BadValue | RG_BadAlloc

definition create_xfixes_region :: "u64 \<Rightarrow> u32 \<Rightarrow> u32 \<Rightarrow> u32 \<Rightarrow> rectangle list \<Rightarrow> resource_table \<Rightarrow> region_status \<times> resource_table" where
  "create_xfixes_region owner resource_base resource_mask xid rectangles t =
     (if \<not> valid_new_resource_id xid resource_base resource_mask t then (RG_BadIdChoice, t)
      else if owned_count RT_XFixesRegion owner t \<ge> rl_regions_per_client (rt_limits t) then (RG_BadAlloc, t)
      else if length rectangles > rl_region_rectangles (rt_limits t) then (RG_BadAlloc, t)
      else case normalize_region rectangles of
        None \<Rightarrow> (RG_BadValue, t)
      | Some normalized \<Rightarrow>
          if length normalized > rl_region_rectangles (rt_limits t) then (RG_BadAlloc, t)
          else (RG_Success, adopt owner xid RT_XFixesRegion (PL_XFixesRegion normalized) t))"

definition destroy_xfixes_region :: "u32 \<Rightarrow> resource_table \<Rightarrow> region_status \<times> resource_table" where
  "destroy_xfixes_region xid t = (if find_xfixes_region xid t = None then (RG_BadRegion, t) else (RG_Success, disown xid t))"

text \<open>The end every operation on a region shares: a result that fits is stored.\<close>

definition store_region :: "u32 \<Rightarrow> region_status \<Rightarrow> rectangle list option \<Rightarrow> resource_table \<Rightarrow> region_status \<times> resource_table" where
  "store_region xid failure result t =
     (case result of
        None \<Rightarrow> (failure, t)
      | Some rs \<Rightarrow> if length rs > rl_region_rectangles (rt_limits t) then (RG_BadAlloc, t) else (RG_Success, set_payload xid (PL_XFixesRegion rs) t))"

definition set_xfixes_region :: "u32 \<Rightarrow> rectangle list \<Rightarrow> resource_table \<Rightarrow> region_status \<times> resource_table" where
  "set_xfixes_region xid rectangles t =
     (if find_xfixes_region xid t = None then (RG_BadRegion, t)
      else if length rectangles > rl_region_rectangles (rt_limits t) then (RG_BadAlloc, t)
      else store_region xid RG_BadValue (normalize_region rectangles) t)"

definition copy_xfixes_region :: "u32 \<Rightarrow> u32 \<Rightarrow> resource_table \<Rightarrow> region_status \<times> resource_table" where
  "copy_xfixes_region source destination t =
     (case find_xfixes_region source t of
        None \<Rightarrow> (RG_BadRegion, t)
      | Some rs \<Rightarrow> if find_xfixes_region destination t = None then (RG_BadRegion, t) else store_region destination RG_BadAlloc (Some rs) t)"

definition combine_xfixes_regions :: "u32 \<Rightarrow> u32 \<Rightarrow> u32 \<Rightarrow> u8 \<Rightarrow> resource_table \<Rightarrow> region_status \<times> resource_table" where
  "combine_xfixes_regions source1 source2 destination operation t =
     (case (find_xfixes_region source1 t, find_xfixes_region source2 t) of
        (Some first, Some second) \<Rightarrow>
          if find_xfixes_region destination t = None then (RG_BadRegion, t)
          else if operation = 0 then store_region destination RG_BadAlloc (union_regions first second) t
          else if operation = 1 then store_region destination RG_BadAlloc (intersect_regions first second) t
          else if operation = 2 then store_region destination RG_BadAlloc (subtract_regions first second) t
          else (RG_BadValue, t)
      | _ \<Rightarrow> (RG_BadRegion, t))"

definition translate_xfixes_region :: "u32 \<Rightarrow> u16 \<Rightarrow> u16 \<Rightarrow> resource_table \<Rightarrow> region_status \<times> resource_table" where
  "translate_xfixes_region xid dx dy t =
     (case find_xfixes_region xid t of
        None \<Rightarrow> (RG_BadRegion, t)
      | Some rs \<Rightarrow> store_region xid RG_BadValue (translate_region rs dx dy) t)"

definition extents_xfixes_region :: "u32 \<Rightarrow> u32 \<Rightarrow> resource_table \<Rightarrow> region_status \<times> resource_table" where
  "extents_xfixes_region source destination t =
     (case find_xfixes_region source t of
        None \<Rightarrow> (RG_BadRegion, t)
      | Some rs \<Rightarrow>
          if find_xfixes_region destination t = None then (RG_BadRegion, t)
          else let extents = region_extents rs
               in store_region destination RG_BadAlloc (Some (if rect_width extents \<noteq> 0 \<and> rect_height extents \<noteq> 0 then [extents] else [])) t)"

end
