(* ===== verification/Srv_Cleanup.thy ===== *)
theory Srv_Cleanup
  imports Srv_Stores
begin

text \<open>
  Destruction of windows and the end of a client (\<open>glasswyrmd/resource_cleanup.cpp\<close>): the plan of a destruction in
  postorder, its execution, and the resources of a client in the order of the code.

  The loops over the tree of windows keep an explicit stack; a loop that would not end is the outer \<open>None\<close>.
\<close>

section \<open>Destroying a window\<close>

text \<open>The clients that select events of a mask on a window, sorted.\<close>

definition recipients :: "u32 \<Rightarrow> server_window \<Rightarrow> u64 list" where
  "recipients event_mask w =
     filter (\<lambda>client. the (fmlookup (sw_event_selections w) client) AND event_mask \<noteq> 0)
       (sorted_list_of_fset (fmdom (sw_event_selections w)))"

definition cleanup_entry :: "u32 \<Rightarrow> server_window \<Rightarrow> resource_table \<Rightarrow> cleanup_window" where
  "cleanup_entry xid w t =
     \<lparr>cw_xid = xid, cw_parent = sw_parent w, cw_structure_recipients = recipients em_StructureNotify w,
      cw_substructure_recipients = (case find_window (sw_parent w) t of None \<Rightarrow> [] | Some parent \<Rightarrow> recipients em_SubstructureNotify parent),
      cw_owner = Option.bind (find_resource xid t) re_owner\<rparr>"

text \<open>The last child of a window is on top of the stack.\<close>

definition push_children :: "u32 list \<Rightarrow> (u32 \<times> bool) list \<Rightarrow> (u32 \<times> bool) list" where
  "push_children children stack = rev (map (\<lambda>child. (child, False)) children) @ stack"

partial_function (option) capture_loop :: "resource_table \<Rightarrow> (u32 \<times> bool) list \<Rightarrow> cleanup_window list \<Rightarrow> cleanup_window list option option" where
  "capture_loop t stack postorder =
     (case stack of
        [] \<Rightarrow> Some (Some postorder)
      | (current, expanded) # rest \<Rightarrow>
          (case find_window current t of
             None \<Rightarrow> Some None
           | Some w \<Rightarrow>
               if \<not> expanded then capture_loop t (push_children (sw_children w) ((current, True) # rest)) postorder
               else capture_loop t rest (postorder @ [cleanup_entry current w t])))"

definition capture_destroy_plan :: "u32 \<Rightarrow> resource_table \<Rightarrow> window_destroy_plan option option" where
  "capture_destroy_plan xid t =
     (if xid = sm_root_window (rt_screen t) \<or> find_window xid t = None then Some None
      else map_option (map_option (\<lambda>postorder. \<lparr>dp_root = xid, dp_postorder = postorder\<rparr>)) (capture_loop t [(xid, False)] []))"

definition window_property_bytes :: "server_window \<Rightarrow> nat" where
  "window_property_bytes w = sum (\<lambda>a. byte_size (pr_data (the (fmlookup (sw_properties w) a)))) (fset (fmdom (sw_properties w)))"

definition remove_child :: "u32 \<Rightarrow> u32 list \<Rightarrow> u32 list" where
  "remove_child xid children =
     (if children \<noteq> [] \<and> last children = xid then butlast children else remove1 xid children)"

definition destroy_leaf :: "u32 \<Rightarrow> cleanup_counts \<times> resource_table \<Rightarrow> cleanup_counts \<times> resource_table" where
  "destroy_leaf xid state =
     (case state of (counts, t) \<Rightarrow>
        (case find_window xid t of
           None \<Rightarrow> (counts, t)
         | Some w \<Rightarrow>
             if xid = sm_root_window (rt_screen t) then (counts, t)
             else let (damages, t1) = remove_damage_for_drawable xid t; (pictures, t2) = remove_pictures_for_drawable xid t1;
                      bytes = window_property_bytes w;
                      t3 = disown xid (update_window (sw_parent w) (\<lambda>p. p\<lparr>sw_children := remove_child xid (sw_children p)\<rparr>) t2)
                  in (counts\<lparr>cc_resources_destroyed := cc_resources_destroyed counts + damages + pictures + 1,
                        cc_property_bytes_released := cc_property_bytes_released counts + bytes\<rparr>,
                      t3\<lparr>rt_property_bytes := rt_property_bytes t3 - bytes\<rparr>)))"

datatype destroy_status = DW_Success | DW_BadWindow | DW_RootPreserved

definition same_windows :: "cleanup_window list \<Rightarrow> cleanup_window list \<Rightarrow> bool" where
  "same_windows a b \<longleftrightarrow> map (\<lambda>e. (cw_xid e, cw_parent e)) a = map (\<lambda>e. (cw_xid e, cw_parent e)) b"

definition no_counts :: cleanup_counts where
  "no_counts = \<lparr>cc_resources_destroyed = 0, cc_property_bytes_released = 0\<rparr>"

definition add_counts :: "cleanup_counts \<Rightarrow> cleanup_counts \<Rightarrow> cleanup_counts" where
  "add_counts a b = \<lparr>cc_resources_destroyed = cc_resources_destroyed a + cc_resources_destroyed b,
     cc_property_bytes_released = cc_property_bytes_released a + cc_property_bytes_released b\<rparr>"

definition commit_destroy_plan :: "window_destroy_plan \<Rightarrow> cleanup_counts \<times> resource_table \<Rightarrow> (destroy_status \<times> cleanup_counts \<times> resource_table) option" where
  "commit_destroy_plan plan state =
     (case state of (counts, t) \<Rightarrow>
        (case capture_destroy_plan (dp_root plan) t of
           None \<Rightarrow> None
         | Some None \<Rightarrow> Some (DW_BadWindow, counts, t)
         | Some (Some current) \<Rightarrow>
             if \<not> same_windows (dp_postorder current) (dp_postorder plan) then Some (DW_BadWindow, counts, t)
             else (case fold (\<lambda>entry. destroy_leaf (cw_xid entry)) (dp_postorder plan) (no_counts, t) of (local_counts, t') \<Rightarrow>
                     Some (DW_Success, add_counts counts local_counts, t'))))"

definition destroy_window :: "u32 \<Rightarrow> cleanup_counts \<times> resource_table \<Rightarrow> (destroy_status \<times> cleanup_counts \<times> resource_table) option" where
  "destroy_window xid state =
     (case state of (counts, t) \<Rightarrow>
        if xid = sm_root_window (rt_screen t) then Some (DW_RootPreserved, counts, t)
        else if find_window xid t = None then Some (DW_BadWindow, counts, t)
        else (case capture_destroy_plan xid t of
           None \<Rightarrow> None
         | Some None \<Rightarrow> Some (DW_BadWindow, counts, t)
         | Some (Some plan) \<Rightarrow> commit_destroy_plan plan state))"

section \<open>The end of a client\<close>

text \<open>Is a window inside another window of the client?\<close>

partial_function (option) covered :: "u64 \<Rightarrow> u32 \<Rightarrow> resource_table \<Rightarrow> bool option" where
  "covered owner parent t =
     (if parent = 0 \<or> parent = sm_root_window (rt_screen t) then Some False
      else case find_resource parent t of
        None \<Rightarrow> Some False
      | Some r \<Rightarrow>
          if re_owner r = Some owner then Some True
          else (case find_window parent t of None \<Rightarrow> Some False | Some w \<Rightarrow> covered owner (sw_parent w) t))"

definition collect_root :: "u64 \<Rightarrow> resource_table \<Rightarrow> u32 \<Rightarrow> u32 list \<Rightarrow> u32 list option" where
  "collect_root owner t xid roots =
     (case find_window xid t of
        None \<Rightarrow> Some roots
      | Some w \<Rightarrow> map_option (\<lambda>inside. if inside then roots else roots @ [xid]) (covered owner (sw_parent w) t))"

record capture_state =
  ks_table :: resource_table
  ks_captured :: "u32 fset"
  ks_postorder :: "cleanup_window list"
  ks_affects_policy :: bool

partial_function (option) capture_cleanup :: "(u32 \<times> bool) list \<Rightarrow> capture_state \<Rightarrow> capture_state option" where
  "capture_cleanup stack k =
     (case stack of
        [] \<Rightarrow> Some k
      | (xid, expanded) # rest \<Rightarrow>
          (case find_window xid (ks_table k) of
             None \<Rightarrow> capture_cleanup rest k
           | Some w \<Rightarrow>
               if \<not> expanded then capture_cleanup (push_children (sw_children w) ((xid, True) # rest)) k
               else if xid |\<in>| ks_captured k then capture_cleanup rest k
               else let t = update_window xid (\<lambda>w. w\<lparr>sw_cleanup_pending := True\<rparr>) (ks_table k)
                    in capture_cleanup rest (k\<lparr>ks_table := t, ks_captured := finsert xid (ks_captured k),
                         ks_affects_policy := ks_affects_policy k \<or> is_policy_candidate xid t,
                         ks_postorder := ks_postorder k @ [cleanup_entry xid w t]\<rparr>)))"

definition prepare_client_cleanup :: "u64 \<Rightarrow> resource_table \<Rightarrow> (client_cleanup_plan \<times> resource_table) option" where
  "prepare_client_cleanup owner t0 =
     (let t = remove_gw_scale_selections owner (remove_event_selections owner t0)
      in case fmlookup (rt_by_owner t) owner of
           None \<Rightarrow> Some (\<lparr>cp_owner = owner, cp_roots = [], cp_postorder = [], cp_affects_policy = False\<rparr>, t)
         | Some owned \<Rightarrow>
             (case fold_option (collect_root owner t) (rev owned) [] of
                None \<Rightarrow> None
              | Some roots \<Rightarrow>
                  map_option (\<lambda>k. (\<lparr>cp_owner = owner, cp_roots = roots, cp_postorder = ks_postorder k, cp_affects_policy = ks_affects_policy k\<rparr>,
                      ks_table k))
                    (fold_option (\<lambda>root k. capture_cleanup [(root, False)] k) roots
                       \<lparr>ks_table = t, ks_captured = {||}, ks_postorder = [], ks_affects_policy = False\<rparr>)))"

definition destroy_root :: "u32 \<Rightarrow> cleanup_counts \<times> resource_table \<Rightarrow> (cleanup_counts \<times> resource_table) option" where
  "destroy_root root state =
     (case capture_destroy_plan root (snd state) of
        None \<Rightarrow> None
      | Some None \<Rightarrow> Some state
      | Some (Some plan) \<Rightarrow> map_option snd (commit_destroy_plan plan state))"

definition free_any :: "u32 \<Rightarrow> resource_table \<Rightarrow> resource_table option" where
  "free_any xid t =
     (if find_pixmap xid t \<noteq> None then Some (snd (free_pixmap xid t))
      else if find_gc xid t \<noteq> None then Some (snd (free_gc xid t))
      else if find_font xid t \<noteq> None then Some (snd (close_font xid t))
      else if find_cursor xid t \<noteq> None then Some (snd (free_cursor xid t))
      else if find_colormap xid t \<noteq> None then map_option snd (free_colormap xid t)
      else if find_shm_segment xid t \<noteq> None then Some (snd (detach_shm_segment xid t))
      else if find_xfixes_region xid t \<noteq> None then Some (snd (destroy_xfixes_region xid t))
      else if find_damage xid t \<noteq> None then Some (snd (destroy_damage xid t))
      else if find_picture xid t \<noteq> None then Some (snd (free_picture xid t))
      else Some t)"

definition free_remaining :: "u32 \<Rightarrow> cleanup_counts \<times> resource_table \<Rightarrow> (cleanup_counts \<times> resource_table) option" where
  "free_remaining xid state =
     (case state of (counts, t) \<Rightarrow>
        map_option (Pair (counts\<lparr>cc_resources_destroyed := cc_resources_destroyed counts + 1\<rparr>)) (free_any xid t))"

definition commit_client_cleanup :: "client_cleanup_plan \<Rightarrow> resource_table \<Rightarrow> (cleanup_counts \<times> resource_table) option" where
  "commit_client_cleanup plan t =
     (case fold_option destroy_root (cp_roots plan) (no_counts, t) of
        None \<Rightarrow> None
      | Some (counts, t') \<Rightarrow> fold_option free_remaining (owned_ids (cp_owner plan) t') (counts, t'))"

definition cleanup_client :: "u64 \<Rightarrow> resource_table \<Rightarrow> (cleanup_counts \<times> resource_table) option" where
  "cleanup_client owner t =
     (case prepare_client_cleanup owner t of None \<Rightarrow> None | Some (plan, t') \<Rightarrow> commit_client_cleanup plan t')"

definition cleanup_pending :: "u32 \<Rightarrow> resource_table \<Rightarrow> bool" where
  "cleanup_pending xid t = (case find_window xid t of None \<Rightarrow> False | Some w \<Rightarrow> sw_cleanup_pending w)"

end
