(* ===== verification/Srv_Invariant.thy ===== *)
theory Srv_Invariant
  imports Srv_Cleanup
begin

text \<open>
  The check the server has for its own resource table (\<open>glasswyrmd/resource_invariants.cpp\<close>), and the invariant that
  implies it: the well-formedness of a table, split into the parts the operations touch one at a time.
\<close>

section \<open>The check of the server\<close>

definition drawable_exists :: "u32 \<Rightarrow> resource_table \<Rightarrow> bool" where
  "drawable_exists drawable t \<longleftrightarrow> find_window drawable t \<noteq> None \<or> find_pixmap drawable t \<noteq> None"

definition valid_storage :: "pixmap \<Rightarrow> bool" where
  "valid_storage p = (case px_storage p of
     Bitmap_Storage _ \<Rightarrow> px_depth p = 1 | Alpha_Storage _ \<Rightarrow> px_depth p = 8 | Pixel_Storage _ \<Rightarrow> px_depth p = 24 \<or> px_depth p = 32)"

definition payload_holds :: "resource_type \<Rightarrow> payload \<Rightarrow> resource_table \<Rightarrow> bool" where
  "payload_holds type payload t =
     (case payload of
        PL_Pixmap p \<Rightarrow> type = RT_Pixmap \<and> valid_storage p
      | PL_Cursor shared \<Rightarrow> shared \<noteq> None
      | PL_ShmSegment s \<Rightarrow> sh_mapping s \<noteq> None \<and> sh_size s \<noteq> 0 \<and> 0 \<le> sint (sh_shmid s)
      | PL_XFixesRegion rs \<Rightarrow> type = RT_XFixesRegion \<and> length rs \<le> rl_region_rectangles (rt_limits t)
      | PL_Damage d \<Rightarrow> type = RT_Damage \<and> drawable_exists (dr_drawable d) t \<and> length (dr_accumulated d) \<le> rl_region_rectangles (rt_limits t)
      | PL_Picture p \<Rightarrow> type = RT_Picture \<and> (case pi_source p of Drawable_Source d \<Rightarrow> find_resource d t \<noteq> None \<and> drawable_exists d t | Solid_Source _ \<Rightarrow> True)
      | _ \<Rightarrow> True)"

definition listed_once :: "u64 \<Rightarrow> u32 \<Rightarrow> resource_table \<Rightarrow> bool" where
  "listed_once owner xid t = (case fmlookup (rt_by_owner t) owner of None \<Rightarrow> False | Some ids \<Rightarrow> count_list ids xid = 1)"

definition other_holds :: "u32 \<Rightarrow> resource \<Rightarrow> resource_table \<Rightarrow> bool" where
  "other_holds xid r t \<longleftrightarrow>
     \<not> (re_owner r = None \<and> re_type r \<noteq> RT_Font \<and> re_type r \<noteq> RT_Colormap \<or> re_type r = RT_Window) \<and>
     (case re_owner r of
        None \<Rightarrow> xid = kDefaultFontXid \<and> find_font xid t \<noteq> None \<or> xid = sm_default_colormap (rt_screen t) \<and> find_colormap xid t \<noteq> None
      | Some owner \<Rightarrow> listed_once owner xid t \<and> payload_holds (re_type r) (re_payload r) t)"

definition cursor_holds :: "window_attributes \<Rightarrow> resource_table \<Rightarrow> bool" where
  "cursor_holds a t =
     (if wa_cursor_inherit a then \<not> (wa_cursor a \<noteq> 0 \<or> wa_cursor_image a \<noteq> None)
      else wa_cursor_image a \<noteq> None \<and> (wa_cursor a \<noteq> 0 \<longrightarrow> find_cursor (wa_cursor a) t = Some (wa_cursor_image a)))"

definition children_hold :: "u32 \<Rightarrow> server_window \<Rightarrow> resource_table \<Rightarrow> bool" where
  "children_hold xid w t \<longleftrightarrow> (\<forall>child \<in> set (sw_children w). case find_window child t of None \<Rightarrow> False | Some c \<Rightarrow> sw_parent c = xid)"

definition window_holds :: "u32 \<Rightarrow> resource \<Rightarrow> server_window \<Rightarrow> resource_table \<Rightarrow> bool" where
  "window_holds xid r w t \<longleftrightarrow>
     cursor_holds (sw_attributes w) t \<and>
     (if xid = sm_root_window (rt_screen t) then children_hold xid w t
      else let server_proxy = (xid = 4 \<and> re_owner r = None)
           in (case find_window (sw_parent w) t of None \<Rightarrow> False | Some parent \<Rightarrow> count_list (sw_children parent) xid = 1) \<and>
              (re_owner r \<noteq> None \<or> server_proxy) \<and>
              (server_proxy \<or> (case re_owner r of None \<Rightarrow> False | Some owner \<Rightarrow> listed_once owner xid t) \<and> children_hold xid w t))"

definition entry_holds :: "u32 \<Rightarrow> resource_table \<Rightarrow> bool" where
  "entry_holds xid t =
     (case find_resource xid t of
        None \<Rightarrow> True
      | Some r \<Rightarrow> (case find_window xid t of Some w \<Rightarrow> window_holds xid r w t | None \<Rightarrow> other_holds xid r t))"

definition calculated_property_bytes :: "resource_table \<Rightarrow> nat" where
  "calculated_property_bytes t = sum (\<lambda>xid. case find_window xid t of None \<Rightarrow> 0 | Some w \<Rightarrow> window_property_bytes w) (fset (fmdom (rt_resources t)))"

definition calculated_cursor_bytes :: "resource_table \<Rightarrow> nat" where
  "calculated_cursor_bytes t = sum (\<lambda>xid. case find_cursor xid t of None \<Rightarrow> 0 | Some shared \<Rightarrow> image_bytes shared) (fset (fmdom (rt_resources t)))"

definition calculated_drawable_bytes :: "resource_table \<Rightarrow> nat" where
  "calculated_drawable_bytes t = sum (\<lambda>xid. drawable_contribution xid t) (fset (fmdom (rt_resources t)))"

definition owner_holds :: "u64 \<Rightarrow> resource_table \<Rightarrow> bool" where
  "owner_holds owner t \<longleftrightarrow> (\<forall>xid \<in> set (owned_ids owner t).
     (case find_resource xid t of None \<Rightarrow> False | Some r \<Rightarrow> re_owner r = Some owner) \<and> count_list (owned_ids owner t) xid = 1)"

definition invariants_hold :: "resource_table \<Rightarrow> bool" where
  "invariants_hold t \<longleftrightarrow>
     (case find_window (sm_root_window (rt_screen t)) t of None \<Rightarrow> False | Some root \<Rightarrow> sw_parent root = 0) \<and>
     (case find_resource (sm_root_window (rt_screen t)) t of None \<Rightarrow> False | Some r \<Rightarrow> re_owner r = None) \<and> rt_root_cursor t \<noteq> None \<and>
     (\<forall>xid \<in> fset (fmdom (rt_resources t)). entry_holds xid t) \<and>
     calculated_property_bytes t = rt_property_bytes t \<and> calculated_drawable_bytes t = rt_drawable_bytes t \<and>
     calculated_cursor_bytes t = rt_cursor_bytes t \<and>
     (\<forall>owner \<in> fset (fmdom (rt_by_owner t)). owner_holds owner t)"

section \<open>Views of a table\<close>

text \<open>
  What one part of the invariant looks at: a function of each payload. Operations change a view at one resource or not
  at all, which is what the lemmas of \<open>Srv_Frames\<close> say.
\<close>

definition view :: "(payload \<Rightarrow> 'v option) \<Rightarrow> resource_table \<Rightarrow> u32 \<Rightarrow> 'v option" where
  "view g t xid = (case find_resource xid t of None \<Rightarrow> None | Some r \<Rightarrow> g (re_payload r))"

definition kind :: "resource_table \<Rightarrow> u32 \<Rightarrow> (resource_type \<times> u64 option) option" where
  "kind t xid = map_option (\<lambda>r. (re_type r, re_owner r)) (find_resource xid t)"

fun payload_type :: "payload \<Rightarrow> resource_type" where
  "payload_type (PL_Window _) = RT_Window"
| "payload_type (PL_Pixmap _) = RT_Pixmap"
| "payload_type (PL_GraphicsContext _) = RT_GraphicsContext"
| "payload_type (PL_Font _) = RT_Font"
| "payload_type (PL_Cursor _) = RT_Cursor"
| "payload_type (PL_Colormap _) = RT_Colormap"
| "payload_type (PL_ShmSegment _) = RT_ShmSegment"
| "payload_type (PL_XFixesRegion _) = RT_XFixesRegion"
| "payload_type (PL_Damage _) = RT_Damage"
| "payload_type (PL_Picture _) = RT_Picture"

fun as_window :: "payload \<Rightarrow> server_window option" where
  "as_window (PL_Window w) = Some w"
| "as_window _ = None"

fun as_links :: "payload \<Rightarrow> (u32 \<times> u32 list) option" where
  "as_links (PL_Window w) = Some (sw_parent w, sw_children w)"
| "as_links _ = None"

fun as_target :: "payload \<Rightarrow> u32 option" where
  "as_target (PL_Damage d) = Some (dr_drawable d)"
| "as_target (PL_Picture p) = (case pi_source p of Drawable_Source d \<Rightarrow> Some d | Solid_Source _ \<Rightarrow> None)"
| "as_target _ = None"

fun as_image :: "payload \<Rightarrow> cursor_ref option option" where
  "as_image (PL_Cursor c) = Some c"
| "as_image _ = None"

text \<open>What a window has of a cursor: whether it inherits it, its number and its image.\<close>

fun as_cursor :: "payload \<Rightarrow> (bool \<times> u32 \<times> cursor_ref option) option" where
  "as_cursor (PL_Window w) = Some (wa_cursor_inherit (sw_attributes w), wa_cursor (sw_attributes w), wa_cursor_image (sw_attributes w))"
| "as_cursor _ = None"

fun as_pixmap :: "payload \<Rightarrow> pixmap_storage option" where
  "as_pixmap (PL_Pixmap p) = Some (px_storage p)"
| "as_pixmap _ = None"

fun as_block :: "payload \<Rightarrow> pixmap_storage option" where
  "as_block (PL_Window w) = map_option Pixel_Storage (sw_storage w)"
| "as_block (PL_Pixmap p) = Some (px_storage p)"
| "as_block _ = None"

fun as_property_bytes :: "payload \<Rightarrow> nat option" where
  "as_property_bytes (PL_Window w) = Some (window_property_bytes w)"
| "as_property_bytes _ = None"

fun as_cursor_bytes :: "payload \<Rightarrow> nat option" where
  "as_cursor_bytes (PL_Cursor c) = Some (image_bytes c)"
| "as_cursor_bytes _ = None"

text \<open>The sum of a view.\<close>

definition sum_view :: "(u32 \<Rightarrow> nat option) \<Rightarrow> nat" where
  "sum_view v = (\<Sum>xid \<in> UNIV. case v xid of None \<Rightarrow> 0 | Some n \<Rightarrow> n)"

section \<open>Well-formed tables\<close>

definition typed :: "resource_table \<Rightarrow> bool" where
  "typed t \<longleftrightarrow> (\<forall>xid type owner. kind t xid = Some (type, owner) \<longrightarrow> view (Some \<circ> payload_type) t xid = Some type \<and> xid \<noteq> 0)"

text \<open>Every owned resource is in the list of its owner, and the lists hold nothing else.\<close>

definition owners_ok :: "resource_table \<Rightarrow> bool" where
  "owners_ok t \<longleftrightarrow> (\<forall>owner. distinct (owned_ids owner t) \<and> (\<forall>xid. xid \<in> set (owned_ids owner t) \<longleftrightarrow> (\<exists>type. kind t xid = Some (type, Some owner))))"

text \<open>The resources of the server itself.\<close>

definition server_resource :: "screen_model \<Rightarrow> u32 \<Rightarrow> resource_type \<Rightarrow> bool" where
  "server_resource screen xid type \<longleftrightarrow>
     xid = sm_root_window screen \<and> type = RT_Window \<or> xid = kEwmhSupportingWindow \<and> type = RT_Window \<or>
     xid = kDefaultFontXid \<and> type = RT_Font \<or> xid = sm_default_colormap screen \<and> type = RT_Colormap"

definition unowned_ok :: "resource_table \<Rightarrow> bool" where
  "unowned_ok t \<longleftrightarrow> (\<forall>xid type. kind t xid = Some (type, None) \<longrightarrow> server_resource (rt_screen t) xid type)"

definition root_ok :: "resource_table \<Rightarrow> bool" where
  "root_ok t \<longleftrightarrow> kind t (sm_root_window (rt_screen t)) = Some (RT_Window, None) \<and>
     kind t (sm_default_colormap (rt_screen t)) = Some (RT_Colormap, None) \<and>
     (\<exists>children. view as_links t (sm_root_window (rt_screen t)) = Some (0, children)) \<and> rt_root_cursor t \<noteq> None"

text \<open>The windows are a tree: parents and children agree, and no window is inside itself.\<close>

definition child_relation :: "resource_table \<Rightarrow> (u32 \<times> u32) set" where
  "child_relation t = {(c, xid). \<exists>parent children. view as_links t xid = Some (parent, children) \<and> c \<in> set children}"

definition window_linked :: "resource_table \<Rightarrow> u32 \<Rightarrow> u32 \<Rightarrow> u32 list \<Rightarrow> bool" where
  "window_linked t xid parent children \<longleftrightarrow> distinct children \<and> (\<forall>c \<in> set children. \<exists>cs. view as_links t c = Some (xid, cs)) \<and>
     (xid \<noteq> sm_root_window (rt_screen t) \<longrightarrow> (xid, parent) \<in> child_relation t)"

definition tree_ok :: "resource_table \<Rightarrow> bool" where
  "tree_ok t \<longleftrightarrow> (\<forall>xid parent children. view as_links t xid = Some (parent, children) \<longrightarrow> window_linked t xid parent children) \<and> wf (child_relation t)"

definition is_drawable :: "resource_table \<Rightarrow> u32 \<Rightarrow> bool" where
  "is_drawable t xid \<longleftrightarrow> view (Some \<circ> payload_type) t xid \<in> {Some RT_Window, Some RT_Pixmap}"

definition refs_ok :: "resource_table \<Rightarrow> bool" where
  "refs_ok t \<longleftrightarrow> (\<forall>xid d. view as_target t xid = Some d \<longrightarrow> is_drawable t d)"

text \<open>The parts of the invariant that only change when resources come and go.\<close>

definition structure_ok :: "resource_table \<Rightarrow> bool" where
  "structure_ok t \<longleftrightarrow> typed t \<and> owners_ok t \<and> unowned_ok t \<and> root_ok t \<and> tree_ok t \<and> refs_ok t"

text \<open>What a payload keeps by itself.\<close>

definition properties_ok :: "resource_limits \<Rightarrow> server_window \<Rightarrow> bool" where
  "properties_ok limits w \<longleftrightarrow> fcard (fmdom (sw_properties w)) \<le> rl_properties_per_window limits \<and>
     (\<forall>a p. fmlookup (sw_properties w) a = Some p \<longrightarrow> byte_size (pr_data p) \<le> rl_bytes_per_property limits)"

fun payload_ok :: "resource_limits \<Rightarrow> payload \<Rightarrow> bool" where
  "payload_ok limits (PL_Window w) = properties_ok limits w"
| "payload_ok limits (PL_Pixmap p) = valid_storage p"
| "payload_ok limits (PL_Cursor shared) = (shared \<noteq> None)"
| "payload_ok limits (PL_ShmSegment s) = (sh_mapping s \<noteq> None \<and> sh_size s \<noteq> 0 \<and> 0 \<le> sint (sh_shmid s))"
| "payload_ok limits (PL_XFixesRegion rs) = (length rs \<le> rl_region_rectangles limits)"
| "payload_ok limits (PL_Damage d) = (length (dr_accumulated d) \<le> rl_region_rectangles limits)"
| "payload_ok limits _ = True"

definition payloads_ok :: "resource_table \<Rightarrow> bool" where
  "payloads_ok t \<longleftrightarrow> (\<forall>xid p. view Some t xid = Some p \<longrightarrow> payload_ok (rt_limits t) p)"

text \<open>
  A window with a cursor of its own has an image, and as long as the cursor has a number it is the image of that cursor.
  Only the windows in \<open>late\<close> may have the number and the image of a cursor as it once was.
\<close>

definition cursors_ok :: "u32 set \<Rightarrow> resource_table \<Rightarrow> bool" where
  "cursors_ok late t \<longleftrightarrow> (\<forall>xid inherit cursor shared. view as_cursor t xid = Some (inherit, cursor, shared) \<longrightarrow>
     (if inherit then cursor = 0 \<and> shared = None else shared \<noteq> None \<and> (cursor \<noteq> 0 \<longrightarrow> xid \<notin> late \<longrightarrow> view as_image t cursor = Some shared)))"

text \<open>One address is one block of pixels.\<close>

definition storages_ok :: "resource_table \<Rightarrow> bool" where
  "storages_ok t \<longleftrightarrow> inj_on storage_identity (ran (view as_block t))"

definition drawable_bytes :: "resource_table \<Rightarrow> nat" where
  "drawable_bytes t = sum storage_bytes (ran (view as_pixmap t))"

definition sums_ok :: "resource_table \<Rightarrow> bool" where
  "sums_ok t \<longleftrightarrow> rt_property_bytes t = sum_view (view as_property_bytes t) \<and> rt_cursor_bytes t = sum_view (view as_cursor_bytes t) \<and>
     rt_drawable_bytes t = drawable_bytes t"

definition within_limits :: "resource_table \<Rightarrow> bool" where
  "within_limits t \<longleftrightarrow> rt_property_bytes t \<le> rl_total_property_bytes (rt_limits t) \<and>
     rt_drawable_bytes t \<le> rl_canonical_drawable_bytes (rt_limits t) \<and> rt_cursor_bytes t \<le> rl_total_cursor_bytes (rt_limits t)"

definition table_ok :: "u32 set \<Rightarrow> resource_table \<Rightarrow> bool" where
  "table_ok late t \<longleftrightarrow> structure_ok t \<and> payloads_ok t \<and> cursors_ok late t \<and> storages_ok t \<and> sums_ok t \<and> within_limits t"

lemmas table_parts = structure_ok_def table_ok_def

section \<open>Reading the views\<close>

named_theorems views \<open>lookups as views\<close>

lemma view_iff: "view g t xid = Some v \<longleftrightarrow> (\<exists>r. find_resource xid t = Some r \<and> g (re_payload r) = Some v)"
  by (auto simp: view_def split: option.splits)

lemma kind_iff: "kind t xid = Some (type, owner) \<longleftrightarrow> (\<exists>r. find_resource xid t = Some r \<and> re_type r = type \<and> re_owner r = owner)"
  by (auto simp: kind_def)

lemma find_window_view [views]: "find_window xid t = view as_window t xid"
  by (auto simp: find_window_def view_def split: option.splits payload.splits)

lemma find_pixmap_iff: "find_pixmap xid t = Some p \<longleftrightarrow> (\<exists>r. find_resource xid t = Some r \<and> re_payload r = PL_Pixmap p)"
  by (auto simp: find_pixmap_def split: option.splits payload.splits)

lemma find_window_iff: "find_window xid t = Some w \<longleftrightarrow> (\<exists>r. find_resource xid t = Some r \<and> re_payload r = PL_Window w)"
  by (auto simp: find_window_def split: option.splits payload.splits)

lemma find_cursor_view [views]: "find_cursor xid t = view as_image t xid"
  by (auto simp: find_cursor_def view_def split: option.splits payload.splits)

lemma pixmap_view: "view as_pixmap t xid = map_option px_storage (find_pixmap xid t)"
  by (auto simp: find_pixmap_def view_def split: option.splits payload.splits)

lemma links_view: "view as_links t xid = map_option (\<lambda>w. (sw_parent w, sw_children w)) (find_window xid t)"
  by (auto simp: find_window_def view_def split: option.splits payload.splits)

lemma type_window: "view (Some \<circ> payload_type) t xid = Some RT_Window \<longleftrightarrow> find_window xid t \<noteq> None"
  by (auto simp: find_window_def view_def split: option.splits payload.splits)

lemma type_pixmap: "view (Some \<circ> payload_type) t xid = Some RT_Pixmap \<longleftrightarrow> find_pixmap xid t \<noteq> None"
  by (auto simp: find_pixmap_def view_def split: option.splits payload.splits)

lemma is_drawable_exists: "is_drawable t d \<longleftrightarrow> drawable_exists d t"
  by (simp add: is_drawable_def drawable_exists_def type_window type_pixmap)

lemma sum_view_domain: "(\<Sum>xid \<in> fset (fmdom (rt_resources t)). case view g t xid of None \<Rightarrow> 0 | Some n \<Rightarrow> n) = sum_view (view g t)"
  unfolding sum_view_def
  by (rule sum.mono_neutral_left) (auto simp: view_def find_resource_def fmdom_notD split: option.splits)

lemma sum_view_upd: "sum_view (v(xid := n)) + (case v xid of None \<Rightarrow> 0 | Some a \<Rightarrow> a) = sum_view v + (case n of None \<Rightarrow> 0 | Some a \<Rightarrow> a)"
proof -
  have "sum_view u = (case u xid of None \<Rightarrow> 0 | Some a \<Rightarrow> a) + (\<Sum>y \<in> UNIV - {xid}. case u y of None \<Rightarrow> 0 | Some a \<Rightarrow> a)" for u :: "u32 \<Rightarrow> nat option"
    unfolding sum_view_def by (rule sum.remove) auto
  from this [of v] this [of "v(xid := n)"]
  have "sum_view v = (case v xid of None \<Rightarrow> 0 | Some a \<Rightarrow> a) + (\<Sum>y \<in> UNIV - {xid}. case v y of None \<Rightarrow> 0 | Some a \<Rightarrow> a)"
    "sum_view (v(xid := n)) = (case n of None \<Rightarrow> 0 | Some a \<Rightarrow> a) + (\<Sum>y \<in> UNIV - {xid}. case v y of None \<Rightarrow> 0 | Some a \<Rightarrow> a)"
    by (auto intro: sum.cong)
  then show ?thesis by simp
qed

lemma sum_view_member: "v xid = Some n \<Longrightarrow> n \<le> sum_view v"
  using sum_view_upd [of v xid None] by simp

section \<open>The invariant implies the check\<close>

lemma pixmaps_are_blocks: "ran (view as_pixmap t) \<subseteq> ran (view as_block t)"
proof
  fix s assume "s \<in> ran (view as_pixmap t)"
  then obtain xid where "view as_pixmap t xid = Some s" by (auto simp: ran_def)
  then have "view as_block t xid = Some s" by (auto simp: view_def split: option.splits elim!: as_pixmap.elims)
  then show "s \<in> ran (view as_block t)" by (auto simp: ran_def)
qed

text \<open>Counting a shared block at the lowest number that has it is counting every block once.\<close>

lemma drawable_bytes_calculated:
  assumes "storages_ok t"
  shows "calculated_drawable_bytes t = drawable_bytes t"
proof -
  let ?v = "view as_pixmap t"
  have inj: "s = s'" if "s \<in> ran ?v" "s' \<in> ran ?v" "storage_identity s = storage_identity s'" for s s'
    using assms that pixmaps_are_blocks [of t] by (auto simp: storages_ok_def dest!: inj_onD)
  define lowest where "lowest = {xid. \<exists>s. ?v xid = Some s \<and> \<not> (\<exists>y < xid. ?v y = Some s)}"
  have contribution: "drawable_contribution xid t = (if xid \<in> lowest then storage_bytes (the (?v xid)) else 0)" for xid
  proof (cases "find_pixmap xid t")
    case None
    then show ?thesis by (simp add: drawable_contribution_def lowest_def pixmap_view)
  next
    case (Some p)
    have eq: "?v y = Some (px_storage p)" if "find_pixmap y t = Some q" "storage_identity (px_storage q) = storage_identity (px_storage p)" for y q
    proof -
      have "?v y = Some (px_storage q)" "?v xid = Some (px_storage p)" using that(1) Some by (simp_all add: pixmap_view)
      then show ?thesis using inj [OF ranI ranI that(2)] by simp
    qed
    have "(\<exists>y \<in> fset (fmdom (rt_resources t)). y < xid \<and> (case find_pixmap y t of None \<Rightarrow> False | Some q \<Rightarrow>
        storage_identity (px_storage q) = storage_identity (px_storage p))) \<longleftrightarrow> (\<exists>y < xid. ?v y = Some (px_storage p))"
    proof
      assume "\<exists>y < xid. ?v y = Some (px_storage p)"
      then obtain y q where y: "y < xid" "find_pixmap y t = Some q" "px_storage q = px_storage p" by (auto simp: pixmap_view)
      then have "y \<in> fset (fmdom (rt_resources t))" by (auto simp: find_pixmap_iff find_resource_def intro: fmdomI)
      with y show "\<exists>y \<in> fset (fmdom (rt_resources t)). y < xid \<and> (case find_pixmap y t of None \<Rightarrow> False | Some q \<Rightarrow>
        storage_identity (px_storage q) = storage_identity (px_storage p))" by (intro bexI [of _ y]) auto
    qed (use eq in \<open>auto split: option.splits\<close>)
    then have "drawable_contribution xid t = (if \<exists>y < xid. ?v y = Some (px_storage p) then 0 else storage_bytes (px_storage p))"
      using Some by (simp add: drawable_contribution_def)
    moreover have "?v xid = Some (px_storage p)" using Some by (simp add: pixmap_view)
    ultimately show ?thesis by (auto simp: lowest_def)
  qed
  have "bij_betw (\<lambda>xid. the (?v xid)) lowest (ran ?v)"
  proof (rule bij_betw_imageI)
    show "inj_on (\<lambda>xid. the (?v xid)) lowest"
    proof (rule inj_onI)
      fix x y assume "x \<in> lowest" "y \<in> lowest" "the (?v x) = the (?v y)"
      then show "x = y" unfolding lowest_def by (cases x y rule: linorder_cases) auto
    qed
    show "(\<lambda>xid. the (?v xid)) ` lowest = ran ?v"
    proof
      show "ran ?v \<subseteq> (\<lambda>xid. the (?v xid)) ` lowest"
      proof
        fix s assume "s \<in> ran ?v"
        then have ex: "\<exists>xid. ?v xid = Some s" by (auto simp: ran_def)
        define m where "m = Min {xid. ?v xid = Some s}"
        have "m \<in> {xid. ?v xid = Some s}" unfolding m_def by (rule Min_in) (use ex in auto)
        moreover have "\<not> y < m" if "?v y = Some s" for y unfolding m_def using that by (simp add: not_less)
        ultimately have "m \<in> lowest" "the (?v m) = s" by (auto simp: lowest_def)
        then show "s \<in> (\<lambda>xid. the (?v xid)) ` lowest" by blast
      qed
    qed (auto simp: lowest_def ran_def)
  qed
  then have "drawable_bytes t = (\<Sum>xid \<in> lowest. storage_bytes (the (?v xid)))"
    unfolding drawable_bytes_def by (rule sum.reindex_bij_betw [symmetric])
  also have "\<dots> = (\<Sum>xid \<in> fset (fmdom (rt_resources t)). drawable_contribution xid t)"
    unfolding contribution
    by (rule sum.mono_neutral_cong_left)
      (auto simp: lowest_def pixmap_view find_pixmap_iff find_resource_def intro: fmdomI)
  finally show ?thesis by (simp add: calculated_drawable_bytes_def)
qed

lemma property_bytes_calculated: "calculated_property_bytes t = sum_view (view as_property_bytes t)"
proof -
  have "(case find_window xid t of None \<Rightarrow> 0 | Some w \<Rightarrow> window_property_bytes w) = (case view as_property_bytes t xid of None \<Rightarrow> 0 | Some n \<Rightarrow> n)" for xid
    by (auto simp: find_window_def view_def split: option.splits payload.splits)
  then show ?thesis by (simp add: calculated_property_bytes_def sum_view_domain)
qed

lemma cursor_bytes_calculated: "calculated_cursor_bytes t = sum_view (view as_cursor_bytes t)"
proof -
  have "(case find_cursor xid t of None \<Rightarrow> 0 | Some c \<Rightarrow> image_bytes c) = (case view as_cursor_bytes t xid of None \<Rightarrow> 0 | Some n \<Rightarrow> n)" for xid
    by (auto simp: find_cursor_def view_def split: option.splits payload.splits)
  then show ?thesis by (simp add: calculated_cursor_bytes_def sum_view_domain)
qed

lemma count_distinct: "distinct xs \<Longrightarrow> x \<in> set xs \<Longrightarrow> count_list xs x = 1"
  by (induction xs) auto

lemma owned_listed:
  assumes "owners_ok t" "kind t xid = Some (type, Some owner)"
  shows "listed_once owner xid t"
proof -
  have "xid \<in> set (owned_ids owner t)" "distinct (owned_ids owner t)" using assms by (auto simp: owners_ok_def)
  then show ?thesis by (auto simp: listed_once_def owned_ids_def count_distinct split: option.splits)
qed

text \<open>The parts of the invariant at one table.\<close>

lemma ok_parts:
  assumes "table_ok late t"
  shows "typed t" "owners_ok t" "unowned_ok t" "root_ok t" "tree_ok t" "refs_ok t" "payloads_ok t" "cursors_ok late t" "storages_ok t"
    "sums_ok t" "within_limits t"
  using assms by (simp_all add: table_parts)

lemma tree_links: "tree_ok t \<Longrightarrow> find_window xid t = Some w \<Longrightarrow> window_linked t xid (sw_parent w) (sw_children w)"
  by (simp add: tree_ok_def links_view)

lemma tree_children: "tree_ok t \<Longrightarrow> find_window xid t = Some w \<Longrightarrow> children_hold xid w t"
  by (drule (1) tree_links) (auto simp: children_hold_def window_linked_def links_view split: option.splits)

lemma tree_parent:
  assumes t: "tree_ok t" and "find_window xid t = Some w" "xid \<noteq> sm_root_window (rt_screen t)"
  shows "\<exists>p. find_window (sw_parent w) t = Some p \<and> xid \<in> set (sw_children p) \<and> distinct (sw_children p)"
proof -
  obtain p where p: "find_window (sw_parent w) t = Some p" "xid \<in> set (sw_children p)"
    using tree_links [OF t assms(2)] assms(3) by (auto simp: window_linked_def child_relation_def links_view)
  then show ?thesis using tree_links [OF t p(1)] by (simp add: window_linked_def)
qed

text \<open>What a window keeps of a cursor even when it is one of those that were late.\<close>

definition cursor_fits :: "u32 set \<Rightarrow> u32 \<Rightarrow> window_attributes \<Rightarrow> resource_table \<Rightarrow> bool" where
  "cursor_fits late xid a t \<longleftrightarrow>
     (if wa_cursor_inherit a then wa_cursor a = 0 \<and> wa_cursor_image a = None
      else wa_cursor_image a \<noteq> None \<and> (wa_cursor a \<noteq> 0 \<longrightarrow> xid \<notin> late \<longrightarrow> find_cursor (wa_cursor a) t = Some (wa_cursor_image a)))"

lemma cursor_holds_fits: "cursor_holds a t \<Longrightarrow> cursor_fits late xid a t"
  by (auto simp: cursor_holds_def cursor_fits_def split: if_splits)

lemma cursor_fits_holds: "cursor_fits late xid a t \<Longrightarrow> xid \<notin> late \<Longrightarrow> cursor_holds a t"
  by (auto simp: cursor_holds_def cursor_fits_def split: if_splits)

lemma view_cursors:
  "(\<forall>xid inherit cursor shared. view as_cursor t xid = Some (inherit, cursor, shared) \<longrightarrow> P xid inherit cursor shared) \<longleftrightarrow>
     (\<forall>xid w. find_window xid t = Some w \<longrightarrow>
       P xid (wa_cursor_inherit (sw_attributes w)) (wa_cursor (sw_attributes w)) (wa_cursor_image (sw_attributes w)))"
proof -
  have view: "view as_cursor t xid = map_option (\<lambda>w. (wa_cursor_inherit (sw_attributes w), wa_cursor (sw_attributes w),
      wa_cursor_image (sw_attributes w))) (find_window xid t)" for xid
    by (auto simp: find_window_def view_def split: option.splits payload.splits)
  show ?thesis unfolding view map_option_eq_Some prod.inject by blast
qed

lemma cursors_fit: "cursors_ok late t \<longleftrightarrow> (\<forall>xid w. find_window xid t = Some w \<longrightarrow> cursor_fits late xid (sw_attributes w) t)"
  unfolding cursors_ok_def cursor_fits_def find_cursor_view by (rule view_cursors)

lemma cursor_of_window:
  assumes "cursors_ok late t" "find_window xid t = Some w"
  shows "cursor_fits late xid (sw_attributes w) t"
  using assms by (simp add: cursors_fit)

lemma late_more: "cursors_ok late t \<Longrightarrow> late \<subseteq> late' \<Longrightarrow> cursors_ok late' t"
  unfolding cursors_fit cursor_fits_def by (simp split: if_split_asm) blast

lemma table_late_more: "table_ok late t \<Longrightarrow> late \<subseteq> late' \<Longrightarrow> table_ok late' t"
  using late_more by (auto simp: table_ok_def)

lemma type_of_payload:
  assumes "typed t" "find_resource xid t = Some r"
  shows "re_type r = payload_type (re_payload r)" "xid \<noteq> 0"
proof -
  have "kind t xid = Some (re_type r, re_owner r)" using assms(2) by (simp add: kind_def)
  then have "view (Some \<circ> payload_type) t xid = Some (re_type r) \<and> xid \<noteq> 0" using assms(1) by (simp add: typed_def)
  with assms(2) show "re_type r = payload_type (re_payload r)" "xid \<noteq> 0" by (simp_all add: view_def)
qed

lemma server_owned:
  assumes "unowned_ok t" "find_resource xid t = Some r" "re_owner r = None"
  shows "server_resource (rt_screen t) xid (re_type r)"
proof -
  have "kind t xid = Some (re_type r, None)" using assms by (simp add: kind_def)
  with assms(1) show ?thesis by (simp add: unowned_ok_def)
qed

lemma ok_window_holds:
  assumes ok: "table_ok late t" and r: "find_resource xid t = Some r" and w: "find_window xid t = Some w"
  shows "window_holds xid r w t \<longleftrightarrow> cursor_holds (sw_attributes w) t"
proof (cases "xid = sm_root_window (rt_screen t)")
  case True
  then show ?thesis using tree_children [OF ok_parts(5) [OF ok] w]
    by (simp add: window_holds_def)
next
  case False
  have type: "re_type r = RT_Window" using type_of_payload [OF ok_parts(1) [OF ok] r] r w by (auto simp: find_window_iff)
  have "server_resource (rt_screen t) xid RT_Window" if "re_owner r = None"
    using server_owned [OF ok_parts(3) [OF ok] r that] type by simp
  then have proxy: "re_owner r = None \<Longrightarrow> xid = 4" using False by (simp add: server_resource_def kEwmhSupportingWindow_def)
  have listed: "listed_once owner xid t" if "re_owner r = Some owner" for owner
    using owned_listed [OF ok_parts(2) [OF ok]] r that by (simp add: kind_def)
  obtain p where "find_window (sw_parent w) t = Some p" "count_list (sw_children p) xid = 1"
    using tree_parent [OF ok_parts(5) [OF ok] w False] by (auto simp: count_distinct)
  then show ?thesis
    using False tree_children [OF ok_parts(5) [OF ok] w] proxy listed
    by (cases "re_owner r") (simp_all add: window_holds_def)
qed

lemma ok_payload_holds:
  assumes ok: "table_ok late t" and r: "find_resource xid t = Some r"
  shows "payload_holds (re_type r) (re_payload r) t"
proof -
  have "view Some t xid = Some (re_payload r)" using r by (simp add: view_def)
  with ok_parts(7) [OF ok] have payload: "payload_ok (rt_limits t) (re_payload r)" by (simp add: payloads_ok_def)
  have target: "drawable_exists d t \<and> find_resource d t \<noteq> None" if "as_target (re_payload r) = Some d" for d
  proof -
    have "is_drawable t d" using ok_parts(6) [OF ok] r that by (auto simp: refs_ok_def view_iff)
    then show ?thesis by (auto simp: is_drawable_exists drawable_exists_def find_window_iff find_pixmap_iff)
  qed
  show ?thesis using payload target type_of_payload [OF ok_parts(1) [OF ok] r]
    by (cases "re_payload r") (simp_all add: payload_holds_def split: picture_source.splits)
qed

lemma ok_other_holds:
  assumes ok: "table_ok late t" and r: "find_resource xid t = Some r" and n: "find_window xid t = None"
  shows "other_holds xid r t"
proof -
  have type: "re_type r = payload_type (re_payload r)" by (rule type_of_payload [OF ok_parts(1) [OF ok] r])
  have nw: "re_type r \<noteq> RT_Window" using type r n by (cases "re_payload r") (simp_all add: find_window_def)
  show ?thesis
  proof (cases "re_owner r")
    case None
    then have "xid = kDefaultFontXid \<and> re_type r = RT_Font \<or> xid = sm_default_colormap (rt_screen t) \<and> re_type r = RT_Colormap"
      using server_owned [OF ok_parts(3) [OF ok] r] nw by (simp add: server_resource_def)
    then show ?thesis using None r type
      by (cases "re_payload r") (auto simp: other_holds_def find_font_def find_colormap_def)
  next
    case (Some owner)
    then have "listed_once owner xid t" using owned_listed [OF ok_parts(2) [OF ok]] r by (simp add: kind_def)
    then show ?thesis using Some nw ok_payload_holds [OF ok r] by (simp add: other_holds_def)
  qed
qed

lemma ok_owner_holds:
  assumes ok: "table_ok late t"
  shows "owner_holds owner t"
proof -
  have "distinct (owned_ids owner t)" using ok_parts(2) [OF ok] by (simp add: owners_ok_def)
  moreover have "case find_resource xid t of None \<Rightarrow> False | Some r \<Rightarrow> re_owner r = Some owner" if "xid \<in> set (owned_ids owner t)" for xid
  proof -
    have "\<exists>type. kind t xid = Some (type, Some owner)" using ok_parts(2) [OF ok] that by (simp add: owners_ok_def)
    then show ?thesis by (auto simp: kind_iff)
  qed
  ultimately show ?thesis by (simp add: owner_holds_def count_distinct)
qed

lemma ok_root:
  assumes ok: "table_ok late t"
  shows "\<exists>r w. find_resource (sm_root_window (rt_screen t)) t = Some r \<and> re_owner r = None \<and>
    find_window (sm_root_window (rt_screen t)) t = Some w \<and> sw_parent w = 0"
  using ok_parts(4) [OF ok] by (auto simp: root_ok_def kind_iff links_view)

text \<open>The check of the server comes down to the cursors of the windows.\<close>

lemma ok_check:
  assumes ok: "table_ok late t"
  shows "invariants_hold t \<longleftrightarrow> (\<forall>xid w. find_window xid t = Some w \<longrightarrow> cursor_holds (sw_attributes w) t)"
proof -
  have entry: "entry_holds xid t \<longleftrightarrow> (\<forall>w. find_window xid t = Some w \<longrightarrow> cursor_holds (sw_attributes w) t)" for xid
    using ok_window_holds [OF ok] ok_other_holds [OF ok]
    by (cases "find_window xid t") (auto simp: entry_holds_def dest: find_window_iff [THEN iffD1] split: option.splits)
  have "find_window xid t = Some w \<Longrightarrow> xid \<in> fset (fmdom (rt_resources t))" for xid w
    by (auto simp: find_window_iff find_resource_def intro: fmdomI)
  then have "(\<forall>xid \<in> fset (fmdom (rt_resources t)). entry_holds xid t) \<longleftrightarrow>
      (\<forall>xid w. find_window xid t = Some w \<longrightarrow> cursor_holds (sw_attributes w) t)"
    by (auto simp: entry)
  moreover have "rt_root_cursor t \<noteq> None" using ok_parts(4) [OF ok] by (simp add: root_ok_def)
  moreover have "calculated_property_bytes t = rt_property_bytes t" "calculated_drawable_bytes t = rt_drawable_bytes t"
    "calculated_cursor_bytes t = rt_cursor_bytes t"
    using ok_parts(10) [OF ok] drawable_bytes_calculated [OF ok_parts(9) [OF ok]]
    by (simp_all add: sums_ok_def property_bytes_calculated cursor_bytes_calculated)
  ultimately show ?thesis using ok_root [OF ok] ok_owner_holds [OF ok] by (auto simp: invariants_hold_def)
qed

lemma ok_invariants_hold: "table_ok {} t \<Longrightarrow> invariants_hold t"
  using ok_check [of "{}" t] cursor_of_window [OF ok_parts(8)] cursor_fits_holds by blast

lemma ok_none_late: "table_ok late t \<Longrightarrow> invariants_hold t \<Longrightarrow> table_ok {} t"
  using ok_check cursor_holds_fits by (auto simp: table_ok_def cursors_fit)

end
