(* ===== verification/Srv_Properties.thy ===== *)
theory Srv_Properties
  imports Srv_Grabs Srv_Atoms Srv_Selections Srv_Invariant
begin

text \<open>
  What the stores of the server promise: the algebra of regions, the grabs, the atoms and the selections.
\<close>

section \<open>Regions\<close>

text \<open>
  C27. The operations on regions are the operations on the sets of their pixels: a result, when the limit on the
  number of rectangles allows one, is in the normal form (valid rectangles, sorted, no two overlapping, at most
  4096) and covers exactly the union, the intersection or the difference; a translated region covers the displaced
  pixels; and the extents are the smallest rectangle around a region.
\<close>

theorem region_algebra_exact:
  "(normalize_region left = Some result \<longrightarrow> normal_region result \<and> region_pts result = region_pts left) \<and>
   (union_regions left right = Some result \<longrightarrow> normal_region result \<and> region_pts result = region_pts left \<union> region_pts right) \<and>
   (intersect_regions left right = Some result \<longrightarrow> normal_region result \<and> region_pts result = region_pts left \<inter> region_pts right) \<and>
   (subtract_regions left right = Some result \<longrightarrow> normal_region result \<and> region_pts result = region_pts left - region_pts right) \<and>
   (translate_region left dx dy = Some result \<longrightarrow> region_pts result = shifted dx dy (region_pts left)) \<and>
   (normal_region left \<and> left \<noteq> [] \<longrightarrow> region_pts left \<subseteq> rect_pts (region_extents left) \<and>
      (\<forall>q. region_pts left \<subseteq> rect_pts q \<longrightarrow> rect_pts (region_extents left) \<subseteq> rect_pts q))"
proof (intro conjI impI allI)
  assume "subtract_regions left right = Some result"
  then obtain d where d: "normalize_region left = Some d"
    "fold_option (\<lambda>removed result. case subtract_sources removed result [] of None \<Rightarrow> None
       | Some next_sources \<Rightarrow> normalize_region next_sources) right d = Some result"
    by (auto simp: subtract_regions_def split: option.splits)
  from subtract_all_pts [OF d(2)] normalize_region_pts [OF d(1)]
  show "normal_region result" "region_pts result = region_pts left - region_pts right" by auto
next
  assume "intersect_regions left right = Some result"
  from intersect_rows_pts [OF this [unfolded intersect_regions_def] normal_region_Nil]
  show "normal_region result" "region_pts result = region_pts left \<inter> region_pts right" by auto
next
  assume "translate_region left dx dy = Some result"
  from translate_list_pts [OF this [unfolded translate_region_def]]
  show "region_pts result = shifted dx dy (region_pts left)" by simp
next
  assume "normal_region left \<and> left \<noteq> []"
  then have left: "regular left" "left \<noteq> []" by (auto simp: normal_region_def)
  from region_extents_smallest(1) [OF left] show "region_pts left \<subseteq> rect_pts (region_extents left)" .
  show "rect_pts (region_extents left) \<subseteq> rect_pts q" if "region_pts left \<subseteq> rect_pts q" for q
    using region_extents_smallest(2) [OF left that] .
qed (use normalize_region_pts union_regions_pts in auto)

definition example_left :: "rectangle list" where
  "example_left = [make_rectangle 0 0 2 1]"

definition example_right :: "rectangle list" where
  "example_right = [make_rectangle 1 0 2 1]"

lemma example_subtraction: "subtract_regions example_left example_right = Some [make_rectangle 0 0 1 1]"
  by code_simp

theorem region_algebra_exact_witness:
  "region_pts [make_rectangle 0 0 1 1] = region_pts example_left - region_pts example_right \<and> normal_region [make_rectangle 0 0 1 1] \<and>
   rect_pts (region_extents [make_rectangle 0 0 1 1]) \<subseteq> rect_pts (make_rectangle 0 0 1 1)"
proof -
  let ?r = "[make_rectangle 0 0 1 1]"
  note left = region_algebra_exact [of example_left ?r example_right 0 0]
  have s: "normal_region ?r \<and> region_pts ?r = region_pts example_left - region_pts example_right"
    by (rule mp [OF left [THEN conjunct2, THEN conjunct2, THEN conjunct2, THEN conjunct1] example_subtraction])
  note extents = region_algebra_exact [of ?r ?r ?r 0 0, THEN conjunct2, THEN conjunct2, THEN conjunct2, THEN conjunct2, THEN conjunct2]
  have "\<forall>q. region_pts ?r \<subseteq> rect_pts q \<longrightarrow> rect_pts (region_extents ?r) \<subseteq> rect_pts q"
    by (rule conjunct2 [OF mp [OF extents]]) (simp add: s)
  then have "region_pts ?r \<subseteq> rect_pts (make_rectangle 0 0 1 1) \<longrightarrow> rect_pts (region_extents ?r) \<subseteq> rect_pts (make_rectangle 0 0 1 1)" ..
  then have "rect_pts (region_extents ?r) \<subseteq> rect_pts (make_rectangle 0 0 1 1)" by (rule mp) simp
  then show ?thesis by (intro conjI s [THEN conjunct1] s [THEN conjunct2])
qed

section \<open>Grabs\<close>

text \<open>
  C28. In every state the grabs can reach: two passive grabs that wait for a common button press belong to the same
  client and are not for the same button and modifiers, all of them ask only for pointer events, an explicit grab
  holds no button, and an automatic or passive one holds at least one button, so it ends with a release.
\<close>

theorem grab_invariant:
  assumes "grabs_reachable s"
  shows "sorted_wrt (\<lambda>p q. passive_overlaps (pb_request p) (pb_request q) \<longrightarrow>
            pbq_client (pb_request p) = pbq_client (pb_request q) \<and>
            (pbq_button (pb_request p), pbq_modifiers (pb_request p)) \<noteq> (pbq_button (pb_request q), pbq_modifiers (pb_request q)))
          (gs_passive_buttons s) \<and>
         (\<forall>p \<in> set (gs_passive_buttons s). valid_passive (pb_request p)) \<and>
         (case gs_pointer_grab s of None \<Rightarrow> True | Some grab \<Rightarrow>
            (pg_origin grab = Explicit \<longleftrightarrow> pg_held_buttons grab = 0) \<and> pg_event_mask grab AND NOT kPointerGrabMask = 0)"
proof -
  have ok: "passives_ok (gs_passive_buttons s)" "\<forall>grab. gs_pointer_grab s = Some grab \<longrightarrow> held_ok grab"
    using grabs_reachable_ok [OF assms] by (simp_all add: grabs_ok_def)
  show ?thesis
  proof (intro conjI)
    have "sorted_wrt compatible_passives (gs_passive_buttons s)" using ok(1) by (simp add: passives_ok_def)
    then show "sorted_wrt (\<lambda>p q. passive_overlaps (pb_request p) (pb_request q) \<longrightarrow>
            pbq_client (pb_request p) = pbq_client (pb_request q) \<and>
            (pbq_button (pb_request p), pbq_modifiers (pb_request p)) \<noteq> (pbq_button (pb_request q), pbq_modifiers (pb_request q)))
          (gs_passive_buttons s)"
      by (rule sorted_wrt_mono_rel [rotated]) (simp add: compatible_passives_def)
    show "\<forall>p \<in> set (gs_passive_buttons s). valid_passive (pb_request p)" using ok(1) by (simp add: passives_ok_def)
    show "case gs_pointer_grab s of None \<Rightarrow> True | Some grab \<Rightarrow>
            (pg_origin grab = Explicit \<longleftrightarrow> pg_held_buttons grab = 0) \<and> pg_event_mask grab AND NOT kPointerGrabMask = 0"
      using ok(2) by (simp add: held_ok_def split: option.split)
  qed
qed

text \<open>Two passive grabs of different windows and a state that holds them.\<close>

definition example_passive :: "u64 \<Rightarrow> u32 \<Rightarrow> u8 \<Rightarrow> unit passive_request" where
  "example_passive client window button = \<lparr>pbq_client = client, pbq_window = window, pbq_button = button, pbq_modifiers = kAnyModifier,
     pbq_owner_events = False, pbq_event_mask = em_ButtonPress, pbq_pointer_mode = Asynchronous, pbq_keyboard_mode = Asynchronous,
     pbq_confine_to = 0, pbq_cursor = 0, pbq_cursor_valid = True, pbq_cursor_image = None\<rparr>"

definition example_grabs :: "unit grab_state" where
  "example_grabs = grab_step (Grab_Button (example_passive 2 5 1)) (grab_step (Grab_Button (example_passive 1 1 kAnyButton)) no_grabs)"

lemma example_grabs_reachable: "grabs_reachable example_grabs"
  unfolding example_grabs_def by (intro grabs_reachable.intros)

theorem grab_invariant_witness: "list_all (\<lambda>p. valid_passive (pb_request p)) (gs_passive_buttons example_grabs)"
  using grab_invariant [OF example_grabs_reachable] unfolding list_all_iff by blast

text \<open>
  C29. A button press activates a passive grab exactly when no pointer grab is active and one is eligible; the one it
  activates is the only best one: every other eligible grab is on a later window of the ancestry, or on the same
  window and less specific, so the order in which grabs were made never decides. A press that activates none leaves
  the state as it is.
\<close>

theorem passive_activation:
  assumes "grabs_reachable s"
  shows "case activate_passive_button b m ancestry ct s of
      (False, s') \<Rightarrow> s' = s \<and> (gs_pointer_grab s = None \<longrightarrow> valid_button b \<longrightarrow> b \<noteq> kAnyButton \<longrightarrow>
        (\<forall>q \<in> set (gs_passive_buttons s). \<forall>e. \<not> eligible b (m AND kCoreModifierMask) ancestry q e))
    | (True, s') \<Rightarrow> gs_pointer_grab s = None \<and> (\<exists>p \<in> set (gs_passive_buttons s). \<exists>d. eligible b (m AND kCoreModifierMask) ancestry p d \<and>
        (\<forall>q \<in> set (gs_passive_buttons s). \<forall>e. q \<noteq> p \<longrightarrow> eligible b (m AND kCoreModifierMask) ancestry q e \<longrightarrow>
           d < e \<or> d = e \<and> specificity (pb_request q) < specificity (pb_request p)) \<and>
        s' = s\<lparr>gs_pointer_grab := Some \<lparr>pg_origin = PassiveButton, pg_client = pbq_client (pb_request p),
            pg_window = pbq_window (pb_request p), pg_owner_events = pbq_owner_events (pb_request p),
            pg_event_mask = pbq_event_mask (pb_request p), pg_cursor = pbq_cursor (pb_request p),
            pg_cursor_image = pbq_cursor_image (pb_request p), pg_activation_time = ct, pg_held_buttons = button_bit b\<rparr>,
          gs_last_pointer_grab_time := ct\<rparr>)"
  using activate_passive_button_best [OF grabs_reachable_ok [OF assms]] .

lemma example_activated:
  "fst (activate_passive_button 1 0 [5, 1] 7 example_grabs)"
  by code_simp

theorem passive_activation_witness:
  "\<exists>p \<in> set (gs_passive_buttons example_grabs). \<exists>d. eligible 1 (0 AND kCoreModifierMask) [5, 1] p d"
  using passive_activation [OF example_grabs_reachable, of 1 0 "[5, 1]" 7] example_activated
  by (cases "activate_passive_button 1 0 [5, 1] 7 example_grabs") auto

text \<open>
  C30. A grab is never taken over: whatever happens, the active pointer grab keeps its client, its window, its origin
  and its time until its own client ends it, its last button is released, its client or window goes away, or input
  is suspended; only its client can change its event mask. The same holds for the keyboard.
\<close>

theorem grabs_not_taken_over:
  "(gs_pointer_grab s = Some grab \<longrightarrow>
     (case gs_pointer_grab (grab_step action s) of None \<Rightarrow> ends_pointer_grab grab action
      | Some grab' \<Rightarrow> same_pointer_grab grab grab' \<and>
          ((pg_event_mask grab', pg_cursor grab') \<noteq> (pg_event_mask grab, pg_cursor grab) \<longrightarrow>
            (\<exists>em cu cv ci rt ct. action = Change_Pointer_Grab (pg_client grab) em cu cv ci rt ct)))) \<and>
   (gs_keyboard_grab s = Some keyboard \<longrightarrow>
     gs_keyboard_grab (grab_step action s) = Some keyboard \<or>
     gs_keyboard_grab (grab_step action s) = None \<and> ends_keyboard_grab keyboard action)"
proof (intro conjI impI)
  assume "gs_pointer_grab s = Some grab"
  then show "case gs_pointer_grab (grab_step action s) of None \<Rightarrow> ends_pointer_grab grab action
      | Some grab' \<Rightarrow> same_pointer_grab grab grab' \<and>
          ((pg_event_mask grab', pg_cursor grab') \<noteq> (pg_event_mask grab, pg_cursor grab) \<longrightarrow>
            (\<exists>em cu cv ci rt ct. action = Change_Pointer_Grab (pg_client grab) em cu cv ci rt ct))"
    by (rule pointer_grab_kept)
next
  assume "gs_keyboard_grab s = Some keyboard"
  from keyboard_grab_kept [OF this, of action]
  show "gs_keyboard_grab (grab_step action s) = Some keyboard \<or>
      gs_keyboard_grab (grab_step action s) = None \<and> ends_keyboard_grab keyboard action"
    by (simp split: if_splits)
qed

definition example_active :: "unit grab_state" where
  "example_active = grab_step (Activate_Passive 1 0 [5, 1] 7) example_grabs"

lemma example_active_grab: "map_option pg_client (gs_pointer_grab example_active) = Some 2"
  by code_simp

theorem grabs_not_taken_over_witness:
  "map_option pg_client (gs_pointer_grab (grab_step (Automatic_Grab 9 1 2 8) example_active)) = Some 2"
proof -
  obtain grab where g: "gs_pointer_grab example_active = Some grab" "pg_client grab = 2"
    using example_active_grab by auto
  note kept = grabs_not_taken_over [of example_active grab "Automatic_Grab 9 1 2 8" undefined, THEN conjunct1, rule_format, OF g(1)]
  show ?thesis
  proof (cases "gs_pointer_grab (grab_step (Automatic_Grab 9 1 2 8) example_active)")
    case None
    then show ?thesis using kept by (simp only: option.case ends_pointer_grab.simps)
  next
    case (Some grab')
    then show ?thesis using kept g(2) by (simp add: same_pointer_grab_def)
  qed
qed

section \<open>Atoms\<close>

text \<open>
  Atoms are stable names: in every table the server can reach, names and numbers are in one-to-one
  correspondence, the 68 predefined atoms have their numbers, and interning keeps every name its number. A request
  that succeeds with a number has that number stand for the name; it answers zero exactly when the name is unknown
  and must not be made; it fails exactly when a new number would exceed the limit or the numbers have run out.
\<close>

lemma atoms_are_stable:
  assumes "atoms_reachable t" "intern_atom name only_if_exists t = (result, t')"
  shows "(\<forall>n a. find_atom n t = Some a \<longleftrightarrow> atom_name a t = Some n) \<and>
     (\<forall>(a, n) \<in> set kPredefinedAtoms. atom_name a t = Some n) \<and>
     (\<forall>n a. find_atom n t = Some a \<longrightarrow> find_atom n t' = Some a) \<and>
     (ia_status result = IA_Exhausted \<longleftrightarrow> find_atom name t = None \<and> \<not> only_if_exists \<and>
        (at_next_dynamic_atom t = 0 \<or> at_next_dynamic_atom t > at_maximum_atom t)) \<and>
     (ia_atom result \<noteq> 0 \<longleftrightarrow> find_atom name t' \<noteq> None) \<and>
     (ia_atom result \<noteq> 0 \<longrightarrow> find_atom name t' = Some (ia_atom result) \<and> atom_name (ia_atom result) t' = Some name)"
proof -
  note ok = atoms_reachable_ok [OF assms(1)]
  note outcome = intern_outcome [OF ok assms(2)]
  show ?thesis
    by (intro conjI ok [unfolded atoms_ok_def, THEN conjunct1] ok [unfolded atoms_ok_def, THEN conjunct2, THEN conjunct2, THEN conjunct1]
        outcome(1,2,3)) (use outcome(4) in blast)
qed

section \<open>Selections\<close>

text \<open>
  A request to own a selection is applied exactly when the selection and the owner window exist and its time is
  neither before the last change by the present owner nor in the future. Then the selection, and no other one, has
  the new owner (none for the window zero) and the previous one is reported; a request that is not applied changes
  nothing. The end of a client or window takes exactly its selections away.
\<close>

lemma selection_ownership:
  "case set_owner client selection window window_exists request_time server_time s of (change, s') \<Rightarrow>
     (oc_status change = SO_Applied \<longleftrightarrow> selection \<noteq> 0 \<and> (window = 0 \<or> window_exists) \<and>
        \<not> timestamp_after (effective_time request_time server_time) server_time \<and>
        (case selection_owner_of selection s of None \<Rightarrow> True | Some owner \<Rightarrow>
           \<not> (so_last_change_time owner \<noteq> 0 \<and> timestamp_after (so_last_change_time owner) (effective_time request_time server_time)))) \<and>
     (if oc_status change = SO_Applied
      then oc_previous_owner change = selection_owner_of selection s \<and> ss_subscriptions s' = ss_subscriptions s \<and>
        (\<forall>k. selection_owner_of k s' =
           (if k \<noteq> selection then selection_owner_of k s
            else if window = 0 then None
            else Some \<lparr>so_client = client, so_window = window, so_last_change_time = effective_time request_time server_time\<rparr>))
      else s' = s)"
proof (cases "set_owner client selection window window_exists request_time server_time s")
  case (Pair change s')
  show ?thesis
    unfolding Pair prod.case
  proof (rule conjI)
    show "oc_status change = SO_Applied \<longleftrightarrow> selection \<noteq> 0 \<and> (window = 0 \<or> window_exists) \<and>
        \<not> timestamp_after (effective_time request_time server_time) server_time \<and>
        (case selection_owner_of selection s of None \<Rightarrow> True | Some owner \<Rightarrow>
           \<not> (so_last_change_time owner \<noteq> 0 \<and> timestamp_after (so_last_change_time owner) (effective_time request_time server_time)))"
      using set_owner_outcome(4) [OF Pair] by (simp only: de_Morgan_conj not_not)
  qed (use set_owner_outcome(1-3) [OF Pair] in simp)
qed

text \<open>
  C31. After any history of changes, cleanups and subscriptions in which no request came before the last change of a
  selection that nobody owned any more, the owners are those of the core protocol, which keeps last-change times for good.
  The code then applies a change exactly when the protocol does, or when it is just such a request: the store drops the time
  of the last change with the owner, so that it gives the selection to a client the protocol ignores.
\<close>

theorem selection_ownership_protocol:
  assumes "none_late_for_unowned empty_ledger history"
  defines "s \<equiv> fold selection_step history no_selections" and "l \<equiv> fold protocol_step history empty_ledger"
  shows "selection_owner_of k s = fst (l k) \<and>
     (oc_status (fst (set_owner client selection w e rt st s)) = SO_Applied \<longleftrightarrow>
        proper_change selection w e rt st \<and> \<not> before_last_change l selection rt st \<or> late_for_unowned l selection w e rt st) \<and>
     (\<not> late_for_unowned l selection w e rt st \<longrightarrow>
        selection_owner_of k (snd (set_owner client selection w e rt st s)) =
          fst (protocol_step (Set_Owner client selection w e rt st) l k)) \<and>
     (late_for_unowned l selection w e rt st \<and> w \<noteq> 0 \<longrightarrow>
        fst (protocol_step (Set_Owner client selection w e rt st) l selection) = None \<and>
        selection_owner_of selection (snd (set_owner client selection w e rt st s)) =
          Some \<lparr>so_client = client, so_window = w, so_last_change_time = effective_time rt st\<rparr>)"
proof -
  have f: "follows l s" unfolding s_def l_def by (rule follows_run [OF follows_start assms(1)])
  note applied = follows_applied [OF f, of client selection w e rt st]
  have step: "selection_owner_of k (snd (set_owner client selection w e rt st s)) =
      fst (protocol_step (Set_Owner client selection w e rt st) l k)" if "\<not> late_for_unowned l selection w e rt st"
    using follows_step [OF f, of "Set_Owner client selection w e rt st"] that by (simp only: follows_def selection_step.simps selection_action.case not_False_eq_True simp_thms)
  have "fst (protocol_step (Set_Owner client selection w e rt st) l selection) = None \<and>
      selection_owner_of selection (snd (set_owner client selection w e rt st s)) =
        Some \<lparr>so_client = client, so_window = w, so_last_change_time = effective_time rt st\<rparr>"
    if "late_for_unowned l selection w e rt st" "w \<noteq> 0"
    using applied that set_owner_outcome(2) [OF prod.collapse [symmetric], of client selection w e rt st s]
    by (auto simp: late_for_unowned_def)
  with step applied f show ?thesis by (auto simp: follows_def late_for_unowned_def)
qed

text \<open>A client takes the selection at 100 and gives it up at 200; another then takes it with the time 150.\<close>

definition example_selection_history :: "selection_action list" where
  "example_selection_history = [Set_Owner 1 9 5 True 100 300, Set_Owner 1 9 0 False 200 300]"

theorem selection_ownership_protocol_witness:
  "\<exists>history. none_late_for_unowned empty_ledger history \<and> snd (fold protocol_step history empty_ledger 9) = 200 \<and>
     selection_owner_of 9 (fold selection_step history no_selections) = None \<and>
     map_option so_client (selection_owner_of 9 (snd (set_owner 2 9 7 True 150 300 (fold selection_step history no_selections)))) = Some 2"
proof -
  have h: "none_late_for_unowned empty_ledger example_selection_history" by code_simp
  have "late_for_unowned (fold protocol_step example_selection_history empty_ledger) 9 7 True 150 300"
    "fst (fold protocol_step example_selection_history empty_ledger 9) = None"
    "snd (fold protocol_step example_selection_history empty_ledger 9) = 200" by code_simp+
  then show ?thesis
    using h selection_ownership_protocol [OF h, of 9 2 9 7 True 150 300]
    by (intro exI [of _ example_selection_history]) simp
qed

end
