(* ===== verification/Srv_Frames.thy ===== *)
theory Srv_Frames
  imports Srv_Invariant
begin

text \<open>
  What the primitive changes of a table do to its views, and the parts of the invariant they keep: a new resource that
  is not a window, a resource that goes away, and assignments that leave the structure alone.
\<close>

section \<open>Views after a change\<close>

named_theorems table_views \<open>the views of a changed table\<close>

lemma find_adopt:
  "find_resource xid t = None \<Longrightarrow> find_resource y (adopt owner xid type p t) =
     (if y = xid then Some \<lparr>re_type = type, re_owner = Some owner, re_payload = p\<rparr> else find_resource y t)"
  by (simp add: adopt_def find_resource_def emplace_def)

lemma view_adopt [table_views]: "find_resource xid t = None \<Longrightarrow> view g (adopt owner xid type p t) = (view g t)(xid := g p)"
  by (rule ext) (simp add: view_def find_adopt)

lemma kind_adopt [table_views]: "find_resource xid t = None \<Longrightarrow> kind (adopt owner xid type p t) = (kind t)(xid := Some (type, Some owner))"
  by (rule ext) (simp add: kind_def find_adopt)

lemma owned_adopt [table_views]: "owned_ids k (adopt owner xid type p t) = (if k = owner then owned_ids owner t @ [xid] else owned_ids k t)"
  by (simp add: adopt_def owned_ids_def)

lemma adopt_fields [table_views]:
  "rt_screen (adopt owner xid type p t) = rt_screen t" "rt_limits (adopt owner xid type p t) = rt_limits t"
  "rt_property_bytes (adopt owner xid type p t) = rt_property_bytes t" "rt_drawable_bytes (adopt owner xid type p t) = rt_drawable_bytes t"
  "rt_cursor_bytes (adopt owner xid type p t) = rt_cursor_bytes t" "rt_root_cursor (adopt owner xid type p t) = rt_root_cursor t"
  by (simp_all add: adopt_def)

lemma remove_owned_fields [table_views]:
  "rt_resources (remove_owned_id owner xid t) = rt_resources t"
  "rt_screen (remove_owned_id owner xid t) = rt_screen t" "rt_limits (remove_owned_id owner xid t) = rt_limits t"
  "rt_property_bytes (remove_owned_id owner xid t) = rt_property_bytes t" "rt_drawable_bytes (remove_owned_id owner xid t) = rt_drawable_bytes t"
  "rt_cursor_bytes (remove_owned_id owner xid t) = rt_cursor_bytes t" "rt_root_cursor (remove_owned_id owner xid t) = rt_root_cursor t"
  by (simp_all add: remove_owned_id_def Let_def split: option.splits)

lemma disown_fields [table_views]:
  "rt_screen (disown xid t) = rt_screen t" "rt_limits (disown xid t) = rt_limits t"
  "rt_property_bytes (disown xid t) = rt_property_bytes t" "rt_drawable_bytes (disown xid t) = rt_drawable_bytes t"
  "rt_cursor_bytes (disown xid t) = rt_cursor_bytes t" "rt_root_cursor (disown xid t) = rt_root_cursor t"
  by (simp_all add: disown_def erase_resource_def remove_owned_fields split: option.splits)

lemma find_disown: "find_resource y (disown xid t) = (if y = xid then None else find_resource y t)"
  by (auto simp: disown_def erase_resource_def find_resource_def remove_owned_fields split: option.splits)

lemma view_disown [table_views]: "view g (disown xid t) = (view g t)(xid := None)"
  by (rule ext) (simp add: view_def find_disown)

lemma kind_disown [table_views]: "kind (disown xid t) = (kind t)(xid := None)"
  by (rule ext) (simp add: kind_def find_disown)

lemma owned_remove: "owned_ids k (remove_owned_id owner xid t) = (if k = owner then filter (\<lambda>i. i \<noteq> xid) (owned_ids k t) else owned_ids k t)"
  by (auto simp: remove_owned_id_def owned_ids_def Let_def split: option.splits)

lemma owned_erase: "owned_ids k (erase_resource xid t) = owned_ids k t"
  by (simp add: erase_resource_def owned_ids_def)

lemma owned_disown [table_views]:
  assumes "owners_ok t"
  shows "owned_ids k (disown xid t) = filter (\<lambda>i. i \<noteq> xid) (owned_ids k t)"
proof (cases "xid \<in> set (owned_ids k t)")
  case True
  then obtain r where "find_resource xid t = Some r" "re_owner r = Some k" using assms by (auto simp: owners_ok_def kind_iff)
  then show ?thesis by (simp add: disown_def owned_remove owned_erase)
next
  case False
  then have "filter (\<lambda>i. i \<noteq> xid) (owned_ids k t) = owned_ids k t" by (auto simp: filter_id_conv)
  then show ?thesis by (simp add: disown_def owned_remove owned_erase split: option.splits)
qed

lemma set_payload_fields [table_views]:
  "rt_screen (set_payload xid p t) = rt_screen t" "rt_limits (set_payload xid p t) = rt_limits t"
  "rt_property_bytes (set_payload xid p t) = rt_property_bytes t" "rt_drawable_bytes (set_payload xid p t) = rt_drawable_bytes t"
  "rt_cursor_bytes (set_payload xid p t) = rt_cursor_bytes t" "rt_root_cursor (set_payload xid p t) = rt_root_cursor t"
  "owned_ids k (set_payload xid p t) = owned_ids k t"
  by (simp_all add: set_payload_def owned_ids_def split: option.splits)

lemma find_set_payload:
  "find_resource y (set_payload xid p t) = (if y = xid then map_option (\<lambda>r. r\<lparr>re_payload := p\<rparr>) (find_resource xid t) else find_resource y t)"
  by (auto simp: set_payload_def find_resource_def split: option.splits)

lemma view_set_payload [table_views]: "find_resource xid t \<noteq> None \<Longrightarrow> view g (set_payload xid p t) = (view g t)(xid := g p)"
  by (rule ext) (auto simp: view_def find_set_payload)

lemma kind_set_payload [table_views]: "kind (set_payload xid p t) = kind t"
  by (rule ext) (auto simp: kind_def find_set_payload option.map_comp comp_def)

lemma update_window_fields [table_views]:
  "rt_screen (update_window xid f t) = rt_screen t" "rt_limits (update_window xid f t) = rt_limits t"
  "rt_property_bytes (update_window xid f t) = rt_property_bytes t" "rt_drawable_bytes (update_window xid f t) = rt_drawable_bytes t"
  "rt_cursor_bytes (update_window xid f t) = rt_cursor_bytes t" "rt_root_cursor (update_window xid f t) = rt_root_cursor t"
  "owned_ids k (update_window xid f t) = owned_ids k t" "kind (update_window xid f t) = kind t"
  by (simp_all add: update_window_def table_views split: option.splits)

lemma find_update_window:
  "find_resource y (update_window xid f t) =
     (if y = xid then map_option (\<lambda>r. case re_payload r of PL_Window w \<Rightarrow> r\<lparr>re_payload := PL_Window (f w)\<rparr> | _ \<Rightarrow> r) (find_resource xid t)
      else find_resource y t)"
  by (auto simp: update_window_def find_window_def find_set_payload split: option.splits payload.splits)

lemma view_update_window:
  "find_window xid t = Some w \<Longrightarrow> view g (update_window xid f t) = (view g t)(xid := g (PL_Window (f w)))"
  by (rule ext) (auto simp: view_def find_update_window find_window_iff)

lemma view_update_window_same [table_views]: "(\<And>w. g (PL_Window (f w)) = g (PL_Window w)) \<Longrightarrow> view g (update_window xid f t) = view g t"
  by (rule ext) (auto simp: view_def find_update_window split: option.splits payload.splits)

lemma update_windows_fields [table_views]:
  "rt_screen (update_windows f t) = rt_screen t" "rt_limits (update_windows f t) = rt_limits t"
  "rt_property_bytes (update_windows f t) = rt_property_bytes t" "rt_drawable_bytes (update_windows f t) = rt_drawable_bytes t"
  "rt_cursor_bytes (update_windows f t) = rt_cursor_bytes t" "rt_root_cursor (update_windows f t) = rt_root_cursor t"
  "owned_ids k (update_windows f t) = owned_ids k t"
  by (simp_all add: update_windows_def owned_ids_def)

lemma find_update_windows:
  "find_resource y (update_windows f t) =
     map_option (\<lambda>r. case re_payload r of PL_Window w \<Rightarrow> r\<lparr>re_payload := PL_Window (f w)\<rparr> | _ \<Rightarrow> r) (find_resource y t)"
  by (simp add: update_windows_def find_resource_def)

lemma kind_update_windows [table_views]: "kind (update_windows f t) = kind t"
  by (rule ext) (auto simp: kind_def find_update_windows option.map_comp comp_def intro!: option.map_cong split: payload.splits)

lemma view_update_windows:
  "view g (update_windows f t) = (\<lambda>xid. case find_window xid t of Some w \<Rightarrow> g (PL_Window (f w)) | None \<Rightarrow> view g t xid)"
  by (rule ext) (auto simp: view_def find_update_windows find_window_def split: option.splits payload.splits)

lemma view_update_windows_same [table_views]: "(\<And>w. g (PL_Window (f w)) = g (PL_Window w)) \<Longrightarrow> view g (update_windows f t) = view g t"
  by (rule ext) (auto simp: view_def find_update_windows split: option.splits payload.splits)

text \<open>Fields that are no resources.\<close>

lemma table_fields [table_views]:
  "view g (t\<lparr>rt_property_bytes := n\<rparr>) = view g t" "view g (t\<lparr>rt_drawable_bytes := n\<rparr>) = view g t" "view g (t\<lparr>rt_cursor_bytes := n\<rparr>) = view g t"
  "view g (t\<lparr>rt_screen := s\<rparr>) = view g t"
  "kind (t\<lparr>rt_property_bytes := n\<rparr>) = kind t" "kind (t\<lparr>rt_drawable_bytes := n\<rparr>) = kind t" "kind (t\<lparr>rt_cursor_bytes := n\<rparr>) = kind t"
  "kind (t\<lparr>rt_screen := s\<rparr>) = kind t"
  "owned_ids k (t\<lparr>rt_property_bytes := n\<rparr>) = owned_ids k t" "owned_ids k (t\<lparr>rt_drawable_bytes := n\<rparr>) = owned_ids k t"
  "owned_ids k (t\<lparr>rt_cursor_bytes := n\<rparr>) = owned_ids k t" "owned_ids k (t\<lparr>rt_screen := s\<rparr>) = owned_ids k t"
  by (auto simp: view_def [abs_def] kind_def [abs_def] owned_ids_def find_resource_def)

section \<open>Parts of the invariant that share their views\<close>

definition frame ::
    "resource_table \<Rightarrow> u32 \<times> u32 \<times> bool \<times> (u64 \<Rightarrow> u32 list) \<times> (u32 \<Rightarrow> (resource_type \<times> u64 option) option) \<times>
       (u32 \<Rightarrow> resource_type option) \<times> (u32 \<Rightarrow> (u32 \<times> u32 list) option) \<times> (u32 \<Rightarrow> u32 option)" where
  "frame t = (sm_root_window (rt_screen t), sm_default_colormap (rt_screen t), rt_root_cursor t = None, (\<lambda>owner. owned_ids owner t),
     kind t, view (Some \<circ> payload_type) t, view as_links t, view as_target t)"

lemma frame_owned: "frame t' = frame t \<Longrightarrow> owned_ids owner t' = owned_ids owner t"
  by (simp add: frame_def) meson

lemma structure_frame:
  assumes "frame t' = frame t"
  shows "structure_ok t' \<longleftrightarrow> structure_ok t"
proof -
  have f: "sm_root_window (rt_screen t') = sm_root_window (rt_screen t)" "sm_default_colormap (rt_screen t') = sm_default_colormap (rt_screen t)"
    "(rt_root_cursor t' = None) = (rt_root_cursor t = None)" "kind t' = kind t" "view (Some \<circ> payload_type) t' = view (Some \<circ> payload_type) t"
    "view as_links t' = view as_links t" "view as_target t' = view as_target t"
    using assms by (simp_all add: frame_def)
  show ?thesis
    by (simp add: structure_ok_def typed_def owners_ok_def unowned_ok_def root_ok_def tree_ok_def refs_ok_def window_linked_def
        child_relation_def is_drawable_def server_resource_def f frame_owned [OF assms])
qed

text \<open>The rest of the invariant.\<close>

definition contents_ok :: "u32 set \<Rightarrow> resource_table \<Rightarrow> bool" where
  "contents_ok late t \<longleftrightarrow> payloads_ok t \<and> cursors_ok late t \<and> storages_ok t \<and> sums_ok t \<and> within_limits t"

lemma table_ok_split: "table_ok late t \<longleftrightarrow> structure_ok t \<and> contents_ok late t"
  by (simp add: table_ok_def contents_ok_def)

definition contents ::
    "resource_table \<Rightarrow> resource_limits \<times> nat \<times> nat \<times> nat \<times> (u32 \<Rightarrow> bool option) \<times> (u32 \<Rightarrow> (bool \<times> u32 \<times> cursor_ref option) option) \<times>
       (u32 \<Rightarrow> cursor_ref option option) \<times> (u32 \<Rightarrow> pixmap_storage option) \<times> (u32 \<Rightarrow> pixmap_storage option) \<times> (u32 \<Rightarrow> nat option) \<times> (u32 \<Rightarrow> nat option)" where
  "contents t = (rt_limits t, rt_property_bytes t, rt_drawable_bytes t, rt_cursor_bytes t, view (Some \<circ> payload_ok (rt_limits t)) t, view as_cursor t,
     view as_image t, view as_pixmap t, view as_block t, view as_property_bytes t, view as_cursor_bytes t)"

lemma payloads_view: "payloads_ok t \<longleftrightarrow> (\<forall>xid. view (Some \<circ> payload_ok (rt_limits t)) t xid \<noteq> Some False)"
  by (auto simp: payloads_ok_def view_def split: option.splits)

lemma contents_frame:
  assumes "contents t' = contents t"
  shows "contents_ok late t' \<longleftrightarrow> contents_ok late t"
proof -
  have "rt_limits t' = rt_limits t" using assms by (simp add: contents_def)
  with assms show ?thesis
    by (simp add: contents_def contents_ok_def payloads_view cursors_ok_def storages_ok_def sums_ok_def within_limits_def drawable_bytes_def)
qed

text \<open>An assignment to a window that changes nothing the invariant looks at.\<close>

definition quiet :: "(server_window \<Rightarrow> server_window) \<Rightarrow> bool" where
  "quiet f \<longleftrightarrow> (\<forall>w. sw_parent (f w) = sw_parent w \<and> sw_children (f w) = sw_children w \<and> sw_attributes (f w) = sw_attributes w \<and>
     sw_storage (f w) = sw_storage w \<and> sw_properties (f w) = sw_properties w)"

lemma quiet_update:
  assumes "quiet f"
  shows "frame (update_window xid f t) = frame t" "contents (update_window xid f t) = contents t"
    "frame (update_windows f t) = frame t" "contents (update_windows f t) = contents t"
  using assms by (simp_all add: quiet_def frame_def contents_def table_views window_property_bytes_def properties_ok_def)

lemma quiet_table_ok:
  assumes "quiet f"
  shows "table_ok late (update_window xid f t) \<longleftrightarrow> table_ok late t" "table_ok late (update_windows f t) \<longleftrightarrow> table_ok late t"
  by (simp_all add: table_ok_split structure_frame [OF quiet_update(1) [OF assms]] contents_frame [OF quiet_update(2) [OF assms]]
      structure_frame [OF quiet_update(3) [OF assms]] contents_frame [OF quiet_update(4) [OF assms]])

end
