(* ===== verification/Srv_Safety.thy ===== *)
theory Srv_Safety
  imports Srv_Frames
begin

text \<open>
  The operations on the resources that are not windows keep the invariant, and so do those that change windows in
  place: properties, event selections, map states, cursors, damage and regions.
\<close>

section \<open>A resource comes or goes\<close>

lemma typed_view: "typed t \<Longrightarrow> view (Some \<circ> payload_type) t xid = map_option fst (kind t xid)"
  by (cases "find_resource xid t") (auto simp: view_def kind_def dest: type_of_payload)

lemma fresh_views: "find_resource xid t = None \<Longrightarrow> view g t xid = None" "find_resource xid t = None \<Longrightarrow> kind t xid = None"
  by (simp_all add: view_def kind_def)

lemma fresh_upd: "find_resource xid t = None \<Longrightarrow> (view g t)(xid := None) = view g t"
  by (simp add: fun_upd_idem fresh_views)

lemma not_window: "payload_type p \<noteq> RT_Window \<Longrightarrow> as_links p = None \<and> as_cursor p = None \<and> as_property_bytes p = None \<and> as_window p = None"
  by (cases p) auto

lemma view_found: "find_resource xid t = Some r \<Longrightarrow> view g t xid = g (re_payload r)"
  by (simp add: view_def)

text \<open>The root is a window, and is never new.\<close>

lemma root_found: "root_ok t \<Longrightarrow> find_resource (sm_root_window (rt_screen t)) t \<noteq> None"
  by (auto simp: root_ok_def kind_iff)

lemma adopt_structure:
  assumes ok: "structure_ok t" and fresh: "find_resource xid t = None" and "xid \<noteq> 0" "payload_type p \<noteq> RT_Window"
    and target: "\<And>d. as_target p = Some d \<Longrightarrow> is_drawable t d"
  shows "structure_ok (adopt owner xid (payload_type p) p t)"
proof -
  note parts = ok [unfolded structure_ok_def]
  note new = fresh_views [OF fresh]
  have root: "sm_root_window (rt_screen t) \<noteq> xid" using root_found [of t] fresh parts by auto
  have links: "view as_links (adopt owner xid (payload_type p) p t) = view as_links t"
    using not_window [OF assms(4)] by (simp add: table_views fresh fresh_upd)
  have "typed (adopt owner xid (payload_type p) p t)"
    using parts assms(3) by (simp add: typed_def table_views fresh)
  moreover have "owners_ok (adopt owner xid (payload_type p) p t)"
    using parts new(2) by (auto simp: owners_ok_def table_views fresh)
  moreover have "unowned_ok (adopt owner xid (payload_type p) p t)"
    using parts by (simp add: unowned_ok_def table_views fresh)
  moreover have "sm_default_colormap (rt_screen t) \<noteq> xid" using parts new(2) by (auto simp: root_ok_def)
  then have "root_ok (adopt owner xid (payload_type p) p t)"
    using parts root by (simp add: root_ok_def table_views fresh links [unfolded table_views])
  moreover have "tree_ok (adopt owner xid (payload_type p) p t)"
    using parts by (simp add: tree_ok_def window_linked_def child_relation_def links adopt_fields)
  moreover have "refs_ok (adopt owner xid (payload_type p) p t)"
  proof -
    have "is_drawable (adopt owner xid (payload_type p) p t) d" if "is_drawable t d" for d
      using that new(1) [of "Some \<circ> payload_type"] by (auto simp: is_drawable_def table_views fresh)
    then show ?thesis using parts target by (auto simp: refs_ok_def view_adopt [OF fresh])
  qed
  ultimately show ?thesis by (simp add: structure_ok_def)
qed

lemma disown_structure:
  assumes ok: "structure_ok t" and r: "find_resource xid t = Some r" and "payload_type (re_payload r) \<noteq> RT_Window"
    and free: "payload_type (re_payload r) = RT_Pixmap \<Longrightarrow> \<forall>y. view as_target t y \<noteq> Some xid"
    and default: "payload_type (re_payload r) = RT_Colormap \<Longrightarrow> xid \<noteq> sm_default_colormap (rt_screen t)"
  shows "structure_ok (disown xid t)"
proof -
  note parts = ok [unfolded structure_ok_def]
  have owners: "owners_ok t" using parts by simp
  have root: "sm_root_window (rt_screen t) \<noteq> xid" using parts r not_window [OF assms(3)] by (auto simp: root_ok_def view_def)
  have links: "view as_links (disown xid t) = view as_links t"
    using not_window [OF assms(3)] r by (simp add: table_views fun_upd_idem view_found)
  have "typed (disown xid t)" using parts by (simp add: typed_def table_views)
  moreover have "owners_ok (disown xid t)" using owners by (auto simp: owners_ok_def owned_disown [OF owners] kind_disown)
  moreover have "unowned_ok (disown xid t)" using parts by (simp add: unowned_ok_def table_views)
  moreover have "sm_default_colormap (rt_screen t) \<noteq> xid"
    using default type_of_payload [OF conjunct1 [OF parts] r] parts r by (auto simp: root_ok_def kind_def)
  then have "root_ok (disown xid t)" using parts root by (simp add: root_ok_def links) (simp add: table_views)
  moreover have "tree_ok (disown xid t)"
    using parts by (simp add: tree_ok_def window_linked_def child_relation_def links disown_fields)
  moreover have "refs_ok (disown xid t)"
  proof -
    have "is_drawable (disown xid t) d" if "is_drawable t d" "view as_target t y = Some d" for y d
      using that r assms(3) free by (auto simp: is_drawable_def table_views view_found)
    then show ?thesis using parts by (auto simp: refs_ok_def view_disown)
  qed
  ultimately show ?thesis by (simp add: structure_ok_def)
qed

text \<open>A resource that is no window, no pixmap and no cursor counts for nothing.\<close>

definition plain :: "payload \<Rightarrow> bool" where
  "plain p \<longleftrightarrow> payload_type p \<notin> {RT_Window, RT_Pixmap, RT_Cursor}"

lemma plain_views:
  "plain p \<Longrightarrow> as_cursor p = None \<and> as_image p = None \<and> as_pixmap p = None \<and> as_block p = None \<and> as_property_bytes p = None \<and> as_cursor_bytes p = None \<and>
     payload_type p \<noteq> RT_Window \<and> payload_type p \<noteq> RT_Pixmap"
  by (cases p) (auto simp: plain_def)

text \<open>Tables whose contents differ at most in the payloads of resources that count for nothing.\<close>

definition counted ::
    "resource_table \<Rightarrow> resource_limits \<times> nat \<times> nat \<times> nat \<times> (u32 \<Rightarrow> (bool \<times> u32 \<times> cursor_ref option) option) \<times>
       (u32 \<Rightarrow> cursor_ref option option) \<times> (u32 \<Rightarrow> pixmap_storage option) \<times> (u32 \<Rightarrow> pixmap_storage option) \<times> (u32 \<Rightarrow> nat option) \<times> (u32 \<Rightarrow> nat option)" where
  "counted t = (rt_limits t, rt_property_bytes t, rt_drawable_bytes t, rt_cursor_bytes t, view as_cursor t,
     view as_image t, view as_pixmap t, view as_block t, view as_property_bytes t, view as_cursor_bytes t)"

lemma contents_counted:
  assumes "counted t' = counted t" "payloads_ok t'" "contents_ok late t"
  shows "contents_ok late t'"
  using assms by (simp add: counted_def contents_ok_def cursors_ok_def storages_ok_def sums_ok_def within_limits_def drawable_bytes_def)

lemma payloads_adopt: "payloads_ok t \<Longrightarrow> find_resource xid t = None \<Longrightarrow> payload_ok (rt_limits t) p \<Longrightarrow> payloads_ok (adopt owner xid type p t)"
  by (simp add: payloads_ok_def table_views)

lemma payloads_disown: "payloads_ok t \<Longrightarrow> payloads_ok (disown xid t)"
  by (simp add: payloads_ok_def table_views)

lemma payloads_set: "payloads_ok t \<Longrightarrow> find_resource xid t \<noteq> None \<Longrightarrow> payload_ok (rt_limits t) p \<Longrightarrow> payloads_ok (set_payload xid p t)"
  by (simp add: payloads_ok_def table_views)

lemma adopt_plain:
  assumes ok: "table_ok late t" and fresh: "find_resource xid t = None" and "xid \<noteq> 0" and p: "plain p" "payload_ok (rt_limits t) p"
    and target: "\<And>d. as_target p = Some d \<Longrightarrow> is_drawable t d"
  shows "table_ok late (adopt owner xid (payload_type p) p t)"
proof -
  have "counted (adopt owner xid (payload_type p) p t) = counted t"
    using plain_views [OF p(1)] by (simp add: counted_def table_views fresh fresh_upd)
  moreover have "payloads_ok (adopt owner xid (payload_type p) p t)" using ok fresh p(2) by (simp add: payloads_adopt table_ok_def)
  ultimately have "contents_ok late (adopt owner xid (payload_type p) p t)"
    using ok by (simp add: contents_counted table_ok_split)
  moreover have "structure_ok (adopt owner xid (payload_type p) p t)"
    using ok plain_views [OF p(1)] target assms(3) by (intro adopt_structure fresh) (auto simp: table_ok_split)
  ultimately show ?thesis by (simp add: table_ok_split)
qed

lemma disown_plain:
  assumes ok: "table_ok late t" and r: "find_resource xid t = Some r" and p: "plain (re_payload r)"
    and default: "payload_type (re_payload r) = RT_Colormap \<Longrightarrow> xid \<noteq> sm_default_colormap (rt_screen t)"
  shows "table_ok late (disown xid t)"
proof -
  have "counted (disown xid t) = counted t"
    using plain_views [OF p] by (simp add: counted_def table_views view_found [OF r] fun_upd_idem)
  moreover have "payloads_ok (disown xid t)" using ok by (simp add: payloads_disown table_ok_def)
  ultimately have "contents_ok late (disown xid t)" using ok by (simp add: contents_counted table_ok_split)
  moreover have "structure_ok (disown xid t)"
    using ok plain_views [OF p] default by (intro disown_structure [OF _ r]) (auto simp: table_ok_split)
  ultimately show ?thesis by (simp add: table_ok_split)
qed

text \<open>An assignment to a resource that counts for nothing.\<close>

lemma set_plain:
  assumes ok: "table_ok late t" and r: "find_resource xid t = Some r" and p: "plain p" "payload_type (re_payload r) = payload_type p"
    "as_target p = as_target (re_payload r)" "payload_ok (rt_limits t) p"
  shows "table_ok late (set_payload xid p t)"
proof -
  have q: "plain (re_payload r)" using p(1,2) by (simp add: plain_def)
  have found: "find_resource xid t \<noteq> None" using r by simp
  have views: "as_links p = None" "as_links (re_payload r) = None"
    using not_window plain_views [OF p(1)] plain_views [OF q] by blast+
  have "frame (set_payload xid p t) = frame t"
    by (simp add: frame_def table_views found p(2,3) views fun_upd_idem view_found [OF r])
  from structure_frame [OF this] have "structure_ok (set_payload xid p t)" using ok by (simp add: table_ok_split)
  moreover have "counted (set_payload xid p t) = counted t"
    using plain_views [OF p(1)] plain_views [OF q] by (simp add: counted_def table_views found view_found [OF r] fun_upd_idem)
  from contents_counted [OF this, of late] have "contents_ok late (set_payload xid p t)"
    using ok found p(4) by (simp add: payloads_set table_ok_split contents_ok_def)
  ultimately show ?thesis by (simp add: table_ok_split)
qed

lemma fresh_id: "valid_new_resource_id xid base client_mask t \<Longrightarrow> find_resource xid t = None \<and> xid \<noteq> 0"
  by (simp add: valid_new_resource_id_def resource_id_matches_client_def)

section \<open>Resources that count for nothing\<close>

named_theorems lookups \<open>what a lookup found\<close>

lemma lookup_iffs [lookups]:
  "find_gc xid t = Some gc \<longleftrightarrow> (\<exists>r. find_resource xid t = Some r \<and> re_payload r = PL_GraphicsContext gc)"
  "find_font xid t = Some f \<longleftrightarrow> (\<exists>r. find_resource xid t = Some r \<and> re_payload r = PL_Font f)"
  "find_colormap xid t = Some v \<longleftrightarrow> (\<exists>r. find_resource xid t = Some r \<and> re_payload r = PL_Colormap v)"
  "find_shm_segment xid t = Some s \<longleftrightarrow> (\<exists>r. find_resource xid t = Some r \<and> re_payload r = PL_ShmSegment s)"
  "find_xfixes_region xid t = Some rs \<longleftrightarrow> (\<exists>r. find_resource xid t = Some r \<and> re_payload r = PL_XFixesRegion rs)"
  "find_damage xid t = Some d \<longleftrightarrow> (\<exists>r. find_resource xid t = Some r \<and> re_payload r = PL_Damage d)"
  "find_picture xid t = Some p \<longleftrightarrow> (\<exists>r. find_resource xid t = Some r \<and> re_payload r = PL_Picture p)"
  "find_cursor xid t = Some c \<longleftrightarrow> (\<exists>r. find_resource xid t = Some r \<and> re_payload r = PL_Cursor c)"
  by (auto simp: find_gc_def find_font_def find_colormap_def find_shm_segment_def find_xfixes_region_def find_damage_def find_picture_def
      find_cursor_def split: option.splits payload.splits)

lemma adopt_new:
  assumes "table_ok late t" "valid_new_resource_id xid base client_mask t" "type = payload_type p" "plain p" "payload_ok (rt_limits t) p"
    "\<And>d. as_target p = Some d \<Longrightarrow> is_drawable t d"
  shows "table_ok late (adopt owner xid type p t)"
  using assms fresh_id [OF assms(2)] by (auto intro: adopt_plain)

lemma drawable_geometry_exists: "drawable_geometry d t \<noteq> None \<longleftrightarrow> is_drawable t d"
  by (auto simp: drawable_geometry_def is_drawable_exists drawable_exists_def split: option.splits)

lemma create_damage_ok: "table_ok late t \<Longrightarrow> table_ok late (snd (create_damage owner base client_mask xid drawable level t))"
  by (auto simp: create_damage_def plain_def simp flip: drawable_geometry_exists intro!: adopt_new)

lemma destroy_damage_ok: "table_ok late t \<Longrightarrow> table_ok late (snd (destroy_damage xid t))"
  by (auto simp: destroy_damage_def lookups plain_def intro: disown_plain)

lemma free_picture_ok: "table_ok late t \<Longrightarrow> table_ok late (snd (free_picture xid t))"
  by (auto simp: free_picture_def lookups plain_def intro: disown_plain)

lemma fold_preserves: "P t \<Longrightarrow> (\<And>x t. P t \<Longrightarrow> P (f x t)) \<Longrightarrow> P (fold f xs t)"
  by (induction xs arbitrary: t) auto

lemma remove_damage_ok: "table_ok late t \<Longrightarrow> table_ok late (snd (remove_damage_for_drawable drawable t))"
  unfolding remove_damage_for_drawable_def Let_def snd_conv by (erule fold_preserves [where P = "table_ok late"]) (rule destroy_damage_ok)

lemma remove_pictures_ok: "table_ok late t \<Longrightarrow> table_ok late (snd (remove_pictures_for_drawable drawable t))"
  unfolding remove_pictures_for_drawable_def Let_def snd_conv by (erule fold_preserves [where P = "table_ok late"]) (rule free_picture_ok)

text \<open>The requests check the drawable of a new picture before they call \<open>create_picture\<close>.\<close>

lemma create_picture_ok:
  assumes "table_ok late t" "\<And>d. pi_source value = Drawable_Source d \<Longrightarrow> drawable_exists d t"
  shows "table_ok late (snd (create_picture owner base client_mask xid value t))"
  using assms by (auto simp: create_picture_def plain_def is_drawable_exists intro!: adopt_new split: picture_source.splits)

lemma create_gc_ok: "table_ok late t \<Longrightarrow> table_ok late (snd (create_gc owner base client_mask xid drawable gc t))"
  by (auto simp: create_gc_def plain_def Let_def intro!: adopt_new split: sum.splits)

lemma free_gc_ok: "table_ok late t \<Longrightarrow> table_ok late (snd (free_gc xid t))"
  by (auto simp: free_gc_def lookups plain_def intro: disown_plain)

lemma open_font_ok: "table_ok late t \<Longrightarrow> table_ok late (snd (open_font owner base client_mask xid identity t))"
  by (auto simp: open_font_def plain_def intro!: adopt_new)

lemma close_font_ok: "table_ok late t \<Longrightarrow> table_ok late (snd (close_font xid t))"
  by (auto simp: close_font_def lookups plain_def intro: disown_plain)

lemma create_colormap_ok: "table_ok late t \<Longrightarrow> table_ok late (snd (create_colormap owner base client_mask xid window visual t))"
  by (auto simp: create_colormap_def plain_def intro!: adopt_new)

lemma free_colormap_ok:
  assumes ok: "table_ok late t"
  shows "\<exists>status t'. free_colormap xid t = Some (status, t') \<and> table_ok late t'"
proof (cases "xid = sm_default_colormap (rt_screen t) \<or> find_resource xid t = None")
  case True
  then show ?thesis using ok by (auto simp: free_colormap_def)
next
  case False
  then obtain r where r: "find_resource xid t = Some r" and x: "xid \<noteq> sm_default_colormap (rt_screen t)" by auto
  note type = type_of_payload [OF ok_parts(1) [OF ok] r]
  have "re_owner r \<noteq> None" if "re_type r = RT_Colormap"
    using server_owned [OF ok_parts(3) [OF ok] r] that x by (auto simp: server_resource_def)
  moreover have "table_ok late (disown xid t)" if "re_type r = RT_Colormap"
    using type that x by (intro disown_plain [OF ok r]) (simp_all add: plain_def)
  ultimately show ?thesis using r x ok by (auto simp: free_colormap_def)
qed

lemma attach_shm_segment_ok: "table_ok late t \<Longrightarrow> table_ok late (snd (attach_shm_segment shmctl shmat owner base client_mask xid shmid read_only uid t))"
proof -
  assume ok: "table_ok late t"
  have "0 \<le> sint shmid" if "\<not> shmid > 0x7fffffff"
  proof -
    have "uint shmid < 2 ^ 31" using that by (simp add: word_less_def not_less)
    moreover have "- (2 ^ 31) \<le> uint shmid" by (rule order_trans [OF _ uint_ge_0]) simp
    ultimately have "signed_take_bit 31 (uint shmid) = uint shmid" by (rule signed_take_bit_int_eq_self [rotated])
    then have "sint shmid = uint shmid" by (simp add: sint_uint)
    then show ?thesis by simp
  qed
  then show ?thesis using ok
    by (auto simp: attach_shm_segment_def plain_def intro!: adopt_new split: option.splits)
qed

lemma detach_shm_segment_ok: "table_ok late t \<Longrightarrow> table_ok late (snd (detach_shm_segment xid t))"
  by (auto simp: detach_shm_segment_def lookups plain_def intro: disown_plain)

lemma create_xfixes_region_ok: "table_ok late t \<Longrightarrow> table_ok late (snd (create_xfixes_region owner base client_mask xid rectangles t))"
  by (auto simp: create_xfixes_region_def plain_def intro!: adopt_new split: option.splits)

lemma destroy_xfixes_region_ok: "table_ok late t \<Longrightarrow> table_ok late (snd (destroy_xfixes_region xid t))"
  by (auto simp: destroy_xfixes_region_def lookups plain_def intro: disown_plain)

lemma store_region_ok:
  assumes "table_ok late t" "find_xfixes_region xid t \<noteq> None"
  shows "table_ok late (snd (store_region xid failure result t))"
proof -
  obtain r rs where "find_resource xid t = Some r" "re_payload r = PL_XFixesRegion rs" using assms(2) by (auto simp: lookups)
  then show ?thesis using assms(1)
    by (auto simp: store_region_def plain_def intro!: set_plain [of late t xid r] split: option.splits)
qed

lemma region_operations_ok:
  assumes "table_ok late t"
  shows "table_ok late (snd (set_xfixes_region xid rectangles t))" "table_ok late (snd (copy_xfixes_region source xid t))"
    "table_ok late (snd (combine_xfixes_regions source source2 xid operation t))" "table_ok late (snd (translate_xfixes_region xid dx dy t))"
    "table_ok late (snd (extents_xfixes_region source xid t))"
  using assms store_region_ok [OF assms]
  by (auto simp: set_xfixes_region_def copy_xfixes_region_def combine_xfixes_regions_def translate_xfixes_region_def extents_xfixes_region_def
      Let_def split: option.splits)

section \<open>Damage\<close>

lemma set_damage_ok:
  assumes "table_ok late t" "find_damage xid t = Some d" "dr_drawable d' = dr_drawable d" "length (dr_accumulated d') \<le> rl_region_rectangles (rt_limits t)"
  shows "table_ok late (set_payload xid (PL_Damage d') t)"
proof -
  obtain r where "find_resource xid t = Some r" "re_payload r = PL_Damage d" using assms(2) by (auto simp: lookups)
  then show ?thesis using assms by (intro set_plain [of late t xid r]) (simp_all add: plain_def)
qed

lemma find_damage_set: "find_damage y (set_payload xid (PL_Damage d) t) =
    (if find_resource xid t \<noteq> None \<and> y = xid then Some d else find_damage y t)"
  by (auto simp: find_damage_def find_set_payload split: option.splits)

lemma subtract_damage_ok: "table_ok late t \<Longrightarrow> table_ok late (snd (subtract_damage xid repair_region parts_region t))"
proof -
  assume ok: "table_ok late t"
  show ?thesis
  proof (cases "find_damage xid t")
    case None
    then show ?thesis using ok by (simp add: subtract_damage_def)
  next
    case (Some d)
    have parts: "table_ok late (set_payload parts_region (PL_XFixesRegion parts) t) \<and>
        find_damage xid (set_payload parts_region (PL_XFixesRegion parts) t) = Some d"
      if region: "optional_region parts_region t \<noteq> None" "parts_region \<noteq> 0" and len: "length parts \<le> rl_region_rectangles (rt_limits t)" for parts
    proof -
      obtain r rs where r: "find_resource parts_region t = Some r" "re_payload r = PL_XFixesRegion rs"
        using region by (auto simp: optional_region_def lookups)
      then have "xid \<noteq> parts_region" using Some by (auto simp: lookups)
      moreover have "table_ok late (set_payload parts_region (PL_XFixesRegion parts) t)"
        using len r by (intro set_plain [OF ok, of _ r]) (simp_all add: plain_def)
      ultimately show ?thesis using Some by (simp add: find_damage_def find_set_payload)
    qed
    then show ?thesis using ok Some set_damage_ok
      by (simp add: subtract_damage_def Let_def not_less set_payload_fields split: option.splits)
  qed
qed

lemma stage_damage_length: "stage_damage drawable incoming bounds limit owner xid d = Some (accumulated, n) \<Longrightarrow> length accumulated \<le> limit"
  by (auto simp: stage_damage_def Let_def split: option.splits if_splits)

lemma staged_ok:
  assumes "fold_option (stage_one drawable incoming bounds t) xids staged = Some staged'"
    "\<forall>(xid, d, accumulated, n) \<in> set staged. find_damage xid t = Some d \<and> length accumulated \<le> rl_region_rectangles (rt_limits t)"
  shows "\<forall>(xid, d, accumulated, n) \<in> set staged'. find_damage xid t = Some d \<and> length accumulated \<le> rl_region_rectangles (rt_limits t)"
  using assms
proof (induction xids arbitrary: staged)
  case (Cons x xids)
  then obtain staged1 where s: "stage_one drawable incoming bounds t x staged = Some staged1"
    "fold_option (stage_one drawable incoming bounds t) xids staged1 = Some staged'" by (auto split: option.splits)
  have "\<forall>(xid, d, accumulated, n) \<in> set staged1. find_damage xid t = Some d \<and> length accumulated \<le> rl_region_rectangles (rt_limits t)"
    using s(1) Cons.prems(2) stage_damage_length
    by (fastforce simp: stage_one_def split: option.splits if_splits)
  then show ?case by (rule Cons.IH [OF s(2)])
qed simp

lemma set_damages_ok:
  assumes "table_ok late t"
    "\<forall>(xid, d, accumulated, n) \<in> set staged. (\<exists>d'. find_damage xid t = Some d' \<and> dr_drawable d' = dr_drawable d) \<and>
       length accumulated \<le> rl_region_rectangles (rt_limits t)"
  shows "table_ok late (fold (\<lambda>(xid, d, accumulated, _). set_payload xid (PL_Damage (d\<lparr>dr_accumulated := accumulated, dr_non_empty_event_sent := True\<rparr>))) staged t)"
  using assms
proof (induction staged arbitrary: t)
  case (Cons x staged)
  obtain xid d accumulated n where x: "x = (xid, d, accumulated, n)" by (cases x) auto
  obtain d' where d: "find_damage xid t = Some d'" "dr_drawable d' = dr_drawable d" "length accumulated \<le> rl_region_rectangles (rt_limits t)"
    using Cons.prems(2) by (auto simp: x)
  let ?d = "d\<lparr>dr_accumulated := accumulated, dr_non_empty_event_sent := True\<rparr>"
  have "table_ok late (set_payload xid (PL_Damage ?d) t)" by (rule set_damage_ok [OF Cons.prems(1) d(1)]) (use d in simp_all)
  moreover have "\<exists>d'. find_damage y (set_payload xid (PL_Damage ?d) t) = Some d' \<and> dr_drawable d' = dr_drawable e"
    if "find_damage y t = Some e'" "dr_drawable e' = dr_drawable e" for y e e'
    using that d by (auto simp: find_damage_set)
  ultimately show ?case using Cons.prems(2) by (auto simp: x set_payload_fields intro!: Cons.IH) blast
qed simp

lemma add_damage_ok: "table_ok late t \<Longrightarrow> table_ok late (snd (add_damage drawable rectangles t))"
proof -
  assume ok: "table_ok late t"
  show ?thesis using ok
    by (auto simp: add_damage_def split: option.splits list.splits dest!: staged_ok intro!: set_damages_ok)
qed

lemma damage_drawable_ok: "table_ok late t \<Longrightarrow> table_ok late (snd (damage_drawable drawable r t))"
  using add_damage_ok [of late t drawable "[r]"] by (cases "add_damage drawable [r] t") (simp add: damage_drawable_def split: prod.splits)

end
