(* ===== verification/Srv_Shared.thy ===== *)
theory Srv_Shared
  imports Srv_Safety
begin

text \<open>
  The resources that count for something keep the invariant: cursors and their images, pixmaps and their blocks of
  pixels, and the properties of windows.
\<close>

section \<open>Cursors\<close>

lemma has_owner_root: "root_ok t \<Longrightarrow> find_cursor (sm_root_window (rt_screen t)) t = None"
  by (auto simp: root_ok_def find_cursor_def view_iff split: option.splits payload.splits elim!: as_links.elims)

lemma create_cursor_ok:
  assumes ok: "table_ok late t"
  shows "table_ok late (snd (create_cursor owner base client_mask xid shared t))"
proof (cases "snd (create_cursor owner base client_mask xid shared t) = t")
  case True
  then show ?thesis using ok by simp
next
  case False
  then obtain picture where new: "valid_new_resource_id xid base client_mask t" and s: "shared = Some picture"
    and room: "cr_byte_size picture \<le> rl_total_cursor_bytes (rt_limits t) - rt_cursor_bytes t" "rt_cursor_bytes t \<le> rl_total_cursor_bytes (rt_limits t)"
    and t': "snd (create_cursor owner base client_mask xid shared t) =
      (adopt owner xid RT_Cursor (PL_Cursor shared) t)\<lparr>rt_cursor_bytes := rt_cursor_bytes t + cr_byte_size picture\<rparr>"
    by (auto simp: create_cursor_def not_le split: option.splits if_splits)
  let ?t = "(adopt owner xid RT_Cursor (PL_Cursor shared) t)\<lparr>rt_cursor_bytes := rt_cursor_bytes t + cr_byte_size picture\<rparr>"
  note fresh = conjunct1 [OF fresh_id [OF new]]
  have "structure_ok (adopt owner xid (payload_type (PL_Cursor shared)) (PL_Cursor shared) t)"
    using ok fresh_id [OF new] by (intro adopt_structure) (auto simp: table_ok_split)
  moreover have "frame ?t = frame (adopt owner xid (payload_type (PL_Cursor shared)) (PL_Cursor shared) t)"
    by (simp add: frame_def table_views fresh)
  ultimately have "structure_ok ?t" using structure_frame by blast
  moreover have "contents_ok late ?t"
  proof -
    have parts: "payloads_ok t" "cursors_ok late t" "storages_ok t" "sums_ok t" "within_limits t" using ok by (simp_all add: table_ok_def)
    have "payloads_ok ?t" using parts(1) by (simp add: payloads_ok_def table_views fresh s)
    moreover have "cursors_ok late ?t"
    proof -
      have "view as_image t c \<noteq> None \<Longrightarrow> c \<noteq> xid" for c using fresh by (auto simp: view_def)
      then show ?thesis using parts(2) by (fastforce simp: cursors_ok_def table_views fresh fresh_upd)
    qed
    moreover have "storages_ok ?t" using parts(3) by (simp add: storages_ok_def table_views fresh fresh_upd)
    moreover have "sums_ok ?t"
      using parts(4) sum_view_upd [of "view as_cursor_bytes t" xid "Some (cr_byte_size picture)"]
      by (simp add: sums_ok_def drawable_bytes_def table_views fresh fresh_upd fresh_views(1) s image_bytes_def)
    moreover have "within_limits ?t" using parts(5) room by (simp add: within_limits_def table_views)
    ultimately show ?thesis by (simp add: contents_ok_def)
  qed
  ultimately show ?thesis unfolding t' by (simp add: table_ok_split)
qed

text \<open>The two assignments to windows that concern one cursor.\<close>

lemma cursor_updates:
  fixes f :: "server_window \<Rightarrow> server_window"
  assumes "f = forget_cursor xid \<or> f = recolored_window xid replacement"
  shows "frame (update_windows f t) = frame t" "payloads_ok (update_windows f t) = payloads_ok t"
    "view as_image (update_windows f t) = view as_image t" "view as_pixmap (update_windows f t) = view as_pixmap t"
    "view as_block (update_windows f t) = view as_block t" "view as_property_bytes (update_windows f t) = view as_property_bytes t"
    "view as_cursor_bytes (update_windows f t) = view as_cursor_bytes t"
proof -
  have f: "sw_parent (f w) = sw_parent w" "sw_children (f w) = sw_children w" "sw_storage (f w) = sw_storage w" "sw_properties (f w) = sw_properties w" for w
    using assms by (auto simp: forget_cursor_def recolored_window_def)
  show "frame (update_windows f t) = frame t" "view as_image (update_windows f t) = view as_image t" "view as_pixmap (update_windows f t) = view as_pixmap t"
    "view as_block (update_windows f t) = view as_block t" "view as_property_bytes (update_windows f t) = view as_property_bytes t"
    "view as_cursor_bytes (update_windows f t) = view as_cursor_bytes t"
    by (simp_all add: frame_def table_views f window_property_bytes_def)
  show "payloads_ok (update_windows f t) = payloads_ok t" by (simp add: payloads_view table_views properties_ok_def f)
qed

text \<open>What a window has of a cursor after them.\<close>

lemma forget_view:
  assumes "view as_cursor (update_windows (forget_cursor xid) t) y = Some (inherit, c, shared)"
  shows "\<exists>c0. view as_cursor t y = Some (inherit, c0, shared) \<and> (c = 0 \<and> \<not> inherit \<or> c = c0 \<and> (c \<noteq> xid \<or> inherit))"
  using assms
  by (auto simp: view_update_windows find_window_def view_def forget_cursor_def split: option.splits payload.splits if_splits)

lemma recolored_view:
  assumes "view as_cursor (update_windows (recolored_window xid replacement) t) y = Some (inherit, c, shared)"
  shows "\<exists>i0. view as_cursor t y = Some (inherit, c, i0) \<and> (c = xid \<and> \<not> inherit \<and> shared = Some replacement \<or> (c \<noteq> xid \<or> inherit) \<and> shared = i0)"
  using assms
  by (auto simp: view_update_windows find_window_def view_def recolored_window_def split: option.splits payload.splits if_splits)

lemma free_cursor_ok:
  assumes ok: "table_ok late t"
  shows "table_ok late (snd (free_cursor xid t))"
proof (cases "snd (free_cursor xid t) = t")
  case True
  then show ?thesis using ok by simp
next
  case False
  then obtain shared where c: "find_cursor xid t = Some shared" and t': "snd (free_cursor xid t) =
      (disown xid (update_windows (forget_cursor xid) t))\<lparr>rt_cursor_bytes := rt_cursor_bytes t - image_bytes shared\<rparr>"
    by (auto simp: free_cursor_def split: option.splits if_splits)
  let ?u = "update_windows (forget_cursor xid) t"
  let ?t = "(disown xid ?u)\<lparr>rt_cursor_bytes := rt_cursor_bytes t - image_bytes shared\<rparr>"
  have u: "forget_cursor xid = forget_cursor xid \<or> forget_cursor xid = recolored_window xid undefined" by simp
  note upd = cursor_updates [OF u, of t]
  have parts: "structure_ok t" "payloads_ok t" "cursors_ok late t" "storages_ok t" "sums_ok t" "within_limits t" using ok by (simp_all add: table_parts)
  obtain r where r: "find_resource xid t = Some r" "re_payload r = PL_Cursor shared" using c by (auto simp: lookups)
  have r': "find_resource xid ?u = Some r" using r by (simp add: find_update_windows)
  have su: "structure_ok ?u" using structure_frame [OF upd(1)] parts(1) by simp
  have "structure_ok (disown xid ?u)" by (rule disown_structure [OF su r']) (simp_all add: r(2))
  moreover have "frame ?t = frame (disown xid ?u)" by (simp add: frame_def table_views)
  ultimately have "structure_ok ?t" using structure_frame by blast
  moreover have "payloads_ok ?t" using upd(2) parts(2) by (simp add: payloads_ok_def table_views)
  moreover have "cursors_ok late ?t"
  proof -
    have "if inherit then c = 0 \<and> image = None else image \<noteq> None \<and> (c \<noteq> 0 \<longrightarrow> y \<notin> late \<longrightarrow> view as_image ?t c = Some image)"
      if seen: "view as_cursor ?t y = Some (inherit, c, image)" for y inherit c and image :: "cursor_ref option"
    proof -
      have "view as_cursor ?u y = Some (inherit, c, image)" using seen by (simp add: table_views split: if_splits)
      then obtain c0 where old: "view as_cursor t y = Some (inherit, c0, image)" "c = 0 \<and> \<not> inherit \<or> c = c0 \<and> (c \<noteq> xid \<or> inherit)"
        using forget_view by blast
      have "if inherit then c0 = 0 \<and> image = None else image \<noteq> None \<and> (c0 \<noteq> 0 \<longrightarrow> y \<notin> late \<longrightarrow> view as_image t c0 = Some image)"
        using parts(3) old(1) by (simp add: cursors_ok_def)
      then show ?thesis using old(2) by (auto simp: table_views upd(3) split: if_splits)
    qed
    then show ?thesis by (auto simp: cursors_ok_def)
  qed
  moreover have "storages_ok ?t"
    using parts(4) r by (simp add: storages_ok_def table_views upd fun_upd_idem view_found [OF r(1)])
  moreover have "sums_ok ?t"
    using parts(5) sum_view_upd [of "view as_cursor_bytes t" xid None] r
    by (simp add: sums_ok_def drawable_bytes_def table_views upd fun_upd_idem view_found [OF r(1)])
  moreover have "within_limits ?t" using parts(6) by (auto simp: within_limits_def table_views)
  ultimately show ?thesis unfolding t' by (simp add: table_parts)
qed

lemma recolor_cursor_ok:
  assumes ok: "table_ok late t"
  shows "table_ok late (snd (recolor_cursor replacement xid t))"
proof (cases "snd (recolor_cursor replacement xid t) = t")
  case True
  then show ?thesis using ok by simp
next
  case False
  then obtain shared recolored where c: "find_cursor xid t = Some shared" and repl: "replacement = Some recolored"
    and room: "cr_byte_size recolored \<le> rl_total_cursor_bytes (rt_limits t) - (rt_cursor_bytes t - image_bytes shared)"
      "rt_cursor_bytes t - image_bytes shared \<le> rl_total_cursor_bytes (rt_limits t)"
    and t': "snd (recolor_cursor replacement xid t) = (set_payload xid (PL_Cursor replacement) (update_windows (recolored_window xid recolored) t))
      \<lparr>rt_cursor_bytes := rt_cursor_bytes t - image_bytes shared + cr_byte_size recolored\<rparr>"
    by (auto simp: recolor_cursor_def Let_def not_less split: option.splits if_splits)
  let ?u = "update_windows (recolored_window xid recolored) t"
  let ?t = "(set_payload xid (PL_Cursor replacement) ?u)\<lparr>rt_cursor_bytes := rt_cursor_bytes t - image_bytes shared + cr_byte_size recolored\<rparr>"
  have u: "recolored_window xid recolored = forget_cursor xid \<or> recolored_window xid recolored = recolored_window xid recolored" by simp
  note upd = cursor_updates [OF u, of t]
  have parts: "structure_ok t" "payloads_ok t" "cursors_ok late t" "storages_ok t" "sums_ok t" "within_limits t" using ok by (simp_all add: table_parts)
  obtain r where r: "find_resource xid t = Some r" "re_payload r = PL_Cursor shared" using c by (auto simp: lookups)
  have found: "find_resource xid ?u \<noteq> None" and r': "find_resource xid ?u = Some r" using r by (simp_all add: find_update_windows)
  have new_bytes: "image_bytes replacement = cr_byte_size recolored" by (simp add: repl image_bytes_def)
  have "frame ?t = frame ?u"
    by (simp add: frame_def table_views found upd(1) [unfolded frame_def] fun_upd_idem view_found [OF r'] view_found [OF r(1)] r(2))
  then have "structure_ok ?t" using structure_frame [OF upd(1)] structure_frame [of ?t ?u] parts(1) by simp
  moreover have "payloads_ok ?t" using upd(2) parts(2) found by (simp add: payloads_ok_def table_views repl)
  moreover have "cursors_ok late ?t"
  proof -
    have "if inherit then c = 0 \<and> image = None else image \<noteq> None \<and> (c \<noteq> 0 \<longrightarrow> y \<notin> late \<longrightarrow> view as_image ?t c = Some image)"
      if seen: "view as_cursor ?t y = Some (inherit, c, image)" for y inherit c and image :: "cursor_ref option"
    proof -
      have "view as_cursor ?t y = view as_cursor ?u y" using r' r(2) by (auto simp: table_views found view_def)
      with seen have "view as_cursor ?u y = Some (inherit, c, image)" by simp
      then obtain i0 where old: "view as_cursor t y = Some (inherit, c, i0)"
        "c = xid \<and> \<not> inherit \<and> image = Some recolored \<or> (c \<noteq> xid \<or> inherit) \<and> image = i0"
        using recolored_view by blast
      have "if inherit then c = 0 \<and> i0 = None else i0 \<noteq> None \<and> (c \<noteq> 0 \<longrightarrow> y \<notin> late \<longrightarrow> view as_image t c = Some i0)"
        using parts(3) old(1) by (simp add: cursors_ok_def)
      then show ?thesis using old(2) by (auto simp: table_views found upd(3) repl split: if_splits)
    qed
    then show ?thesis by (auto simp: cursors_ok_def)
  qed
  moreover have "storages_ok ?t"
    using parts(4) r by (simp add: storages_ok_def table_views found upd fun_upd_idem view_found [OF r(1)])
  moreover have "sums_ok ?t"
    using parts(5) sum_view_upd [of "view as_cursor_bytes t" xid "Some (image_bytes replacement)"] r
      sum_view_member [of "view as_cursor_bytes t" xid "image_bytes shared"]
    by (simp add: sums_ok_def drawable_bytes_def table_views found upd fun_upd_idem view_found [OF r(1)] flip: new_bytes)
  moreover have "within_limits ?t" using parts(6) room by (simp add: within_limits_def table_views)
  ultimately show ?thesis unfolding t' by (simp add: table_parts)
qed

section \<open>What refers to a drawable\<close>

lemma find_destroy_damage:
  "find_resource y (snd (destroy_damage xid t)) = (if y = xid \<and> find_damage y t \<noteq> None then None else find_resource y t)"
  by (auto simp: destroy_damage_def find_disown)

lemma find_free_picture:
  "find_resource y (snd (free_picture xid t)) = (if y = xid \<and> find_picture y t \<noteq> None then None else find_resource y t)"
  by (auto simp: free_picture_def find_disown)

lemma find_destroy_damages:
  "find_resource y (fold (\<lambda>xid t. snd (destroy_damage xid t)) xs t) = (if y \<in> set xs \<and> find_damage y t \<noteq> None then None else find_resource y t)"
proof (induction xs arbitrary: t)
  case (Cons x xs)
  have "find_damage y (snd (destroy_damage x t)) = (if y = x then None else find_damage y t)"
    by (auto simp: find_damage_def find_destroy_damage split: option.splits payload.splits)
  then show ?case by (auto simp: Cons.IH find_destroy_damage)
qed simp

lemma find_free_pictures:
  "find_resource y (fold (\<lambda>xid t. snd (free_picture xid t)) xs t) = (if y \<in> set xs \<and> find_picture y t \<noteq> None then None else find_resource y t)"
proof (induction xs arbitrary: t)
  case (Cons x xs)
  have "find_picture y (snd (free_picture x t)) = (if y = x then None else find_picture y t)"
    by (auto simp: find_picture_def find_free_picture split: option.splits payload.splits)
  then show ?case by (auto simp: Cons.IH find_free_picture)
qed simp

text \<open>The table without the damage and the pictures of a drawable.\<close>

definition unreferenced :: "u32 \<Rightarrow> resource_table \<Rightarrow> resource_table" where
  "unreferenced drawable t = snd (remove_pictures_for_drawable drawable (snd (remove_damage_for_drawable drawable t)))"

lemma found_in_domain: "find_resource y t = Some r \<Longrightarrow> y |\<in>| fmdom (rt_resources t)"
  by (simp add: find_resource_def fmdomI)

lemma find_remove_damage:
  "find_resource y (snd (remove_damage_for_drawable drawable t)) =
     (if (\<exists>d. find_damage y t = Some d \<and> dr_drawable d = drawable) then None else find_resource y t)"
proof (cases "find_damage y t")
  case (Some d)
  then have "y |\<in>| fmdom (rt_resources t)" by (auto simp: lookups dest: found_in_domain)
  with Some show ?thesis by (simp add: remove_damage_for_drawable_def Let_def find_destroy_damages)
qed (simp add: remove_damage_for_drawable_def Let_def find_destroy_damages)

lemma find_remove_pictures:
  "find_resource y (snd (remove_pictures_for_drawable drawable t)) =
     (if (\<exists>p. find_picture y t = Some p \<and> pi_source p = Drawable_Source drawable) then None else find_resource y t)"
proof (cases "find_picture y t")
  case (Some p)
  then have "y |\<in>| fmdom (rt_resources t)" by (auto simp: lookups dest: found_in_domain)
  with Some show ?thesis by (simp add: remove_pictures_for_drawable_def Let_def find_free_pictures)
qed (simp add: remove_pictures_for_drawable_def Let_def find_free_pictures)

lemma find_unreferenced:
  "find_resource y (unreferenced drawable t) = (if view as_target t y = Some drawable then None else find_resource y t)"
proof (cases "find_resource y t")
  case (Some r)
  then show ?thesis
    by (cases "re_payload r") (simp_all add: unreferenced_def find_remove_pictures find_remove_damage view_def find_damage_def find_picture_def
        split: picture_source.splits)
qed (simp add: unreferenced_def find_remove_pictures find_remove_damage)

lemma unreferenced_target: "view as_target (unreferenced drawable t) y \<noteq> Some drawable"
  by (simp add: view_def find_unreferenced split: option.splits)

lemma view_unreferenced:
  assumes "\<And>d. g (PL_Damage d) = None" "\<And>p. g (PL_Picture p) = None"
  shows "view g (unreferenced drawable t) = view g t"
proof
  fix y
  show "view g (unreferenced drawable t) y = view g t y"
  proof (cases "find_resource y t")
    case (Some r)
    then show ?thesis using assms by (cases "re_payload r") (simp_all add: view_def find_unreferenced)
  qed (simp add: view_def find_unreferenced)
qed

lemma unreferenced_ok: "table_ok late t \<Longrightarrow> table_ok late (unreferenced drawable t)"
  by (simp add: unreferenced_def remove_damage_ok remove_pictures_ok)

definition fixed_fields :: "resource_table \<Rightarrow> screen_model \<times> resource_limits \<times> nat \<times> nat \<times> nat \<times> cursor_ref option" where
  "fixed_fields t = (rt_screen t, rt_limits t, rt_property_bytes t, rt_drawable_bytes t, rt_cursor_bytes t, rt_root_cursor t)"

lemma unreferenced_fixed: "fixed_fields (unreferenced drawable t) = fixed_fields t"
proof -
  have "fixed_fields (snd (destroy_damage xid u)) = fixed_fields u" "fixed_fields (snd (free_picture xid u)) = fixed_fields u" for xid u
    by (simp_all add: fixed_fields_def destroy_damage_def free_picture_def disown_fields)
  then have "fixed_fields (fold (\<lambda>xid t. snd (destroy_damage xid t)) xs u) = fixed_fields u"
    "fixed_fields (fold (\<lambda>xid t. snd (free_picture xid t)) xs u) = fixed_fields u" for xs u
    by (induction xs arbitrary: u) simp_all
  then show ?thesis by (simp add: unreferenced_def remove_pictures_for_drawable_def remove_damage_for_drawable_def Let_def)
qed

lemma unreferenced_fields:
  "rt_screen (unreferenced drawable t) = rt_screen t" "rt_limits (unreferenced drawable t) = rt_limits t"
  "rt_property_bytes (unreferenced drawable t) = rt_property_bytes t" "rt_root_cursor (unreferenced drawable t) = rt_root_cursor t"
  "rt_drawable_bytes (unreferenced drawable t) = rt_drawable_bytes t" "rt_cursor_bytes (unreferenced drawable t) = rt_cursor_bytes t"
  using unreferenced_fixed [of drawable t] by (simp_all add: fixed_fields_def)

section \<open>Pixmaps\<close>

definition fresh_address :: "nat option \<Rightarrow> resource_table \<Rightarrow> bool" where
  "fresh_address allocation t \<longleftrightarrow> (\<forall>a. allocation = Some a \<longrightarrow> a \<notin> storage_identity ` ran (view as_block t))"

lemma recompute_calculated: "recompute_canonical_drawable_bytes t = t\<lparr>rt_drawable_bytes := calculated_drawable_bytes t\<rparr>"
  by (simp add: recompute_canonical_drawable_bytes_def calculated_drawable_bytes_def)

lemma recompute_ok:
  assumes "structure_ok t" "payloads_ok t" "cursors_ok late t" "storages_ok t" "drawable_bytes t \<le> rl_canonical_drawable_bytes (rt_limits t)"
    "rt_property_bytes t = sum_view (view as_property_bytes t)" "rt_property_bytes t \<le> rl_total_property_bytes (rt_limits t)"
    "rt_cursor_bytes t = sum_view (view as_cursor_bytes t)" "rt_cursor_bytes t \<le> rl_total_cursor_bytes (rt_limits t)"
  shows "table_ok late (recompute_canonical_drawable_bytes t)"
proof -
  let ?t = "t\<lparr>rt_drawable_bytes := drawable_bytes t\<rparr>"
  have eq: "recompute_canonical_drawable_bytes t = ?t" by (simp add: recompute_calculated drawable_bytes_calculated [OF assms(4)])
  have "frame ?t = frame t" by (simp add: frame_def table_views)
  then have "structure_ok ?t" using structure_frame assms(1) by blast
  moreover have "contents_ok late ?t"
    using assms by (simp add: contents_ok_def payloads_ok_def cursors_ok_def storages_ok_def sums_ok_def within_limits_def drawable_bytes_def table_views)
  ultimately show ?thesis unfolding eq by (simp add: table_ok_split)
qed

lemma storage_created: "storage_create n allocation width height = Some s \<Longrightarrow> allocation = Some (sr_address s)"
  by (auto simp: storage_create_def split: if_splits)

lemma pixmap_storage_created:
  "pixmap_storage_create allocation depth width height = Some storage \<Longrightarrow> allocation = Some (storage_identity storage)"
  by (auto simp: pixmap_storage_create_def dest: storage_created split: if_splits)

lemma pixmap_storage_valid:
  "pixmap_storage_create allocation depth width height = Some storage \<Longrightarrow> depth = 1 \<or> depth = 8 \<or> depth = 24 \<or> depth = 32 \<Longrightarrow>
     valid_storage \<lparr>px_root = r, px_depth = depth, px_width = width, px_height = height, px_storage = storage\<rparr>"
  by (auto simp: pixmap_storage_create_def valid_storage_def split: if_splits)

text \<open>A new pixmap, whose block is new or that of a window.\<close>

lemma adopt_pixmap:
  assumes ok: "table_ok late t" and new: "valid_new_resource_id xid base client_mask t" and valid: "valid_storage p"
    and block: "px_storage p \<in> ran (view as_block t) \<or> storage_identity (px_storage p) \<notin> storage_identity ` ran (view as_block t)"
    and room: "px_storage p \<in> ran (view as_pixmap t) \<or> storage_bytes (px_storage p) \<le> rl_canonical_drawable_bytes (rt_limits t) - rt_drawable_bytes t"
  shows "table_ok late (recompute_canonical_drawable_bytes (adopt owner xid RT_Pixmap (PL_Pixmap p) t))"
proof (rule recompute_ok)
  let ?t = "adopt owner xid RT_Pixmap (PL_Pixmap p) t"
  note fresh = conjunct1 [OF fresh_id [OF new]]
  have parts: "structure_ok t" "payloads_ok t" "cursors_ok late t" "storages_ok t" "sums_ok t" "within_limits t" using ok by (simp_all add: table_parts)
  have "structure_ok (adopt owner xid (payload_type (PL_Pixmap p)) (PL_Pixmap p) t)"
    by (rule adopt_structure [OF parts(1) fresh]) (use fresh_id [OF new] in simp_all)
  then show "structure_ok ?t" by simp
  show "payloads_ok ?t" using parts(2) fresh valid by (simp add: payloads_adopt)
  show "cursors_ok late ?t" using parts(3) by (simp add: cursors_ok_def table_views fresh fresh_upd)
  have blocks: "ran (view as_block ?t) = insert (px_storage p) (ran (view as_block t))"
    by (simp add: table_views fresh ran_map_upd fresh_views)
  show "storages_ok ?t" using parts(4) block by (auto simp: storages_ok_def blocks insert_absorb dest: inj_onD)
  have pixmaps: "ran (view as_pixmap ?t) = insert (px_storage p) (ran (view as_pixmap t))"
    by (simp add: table_views fresh ran_map_upd fresh_views)
  have "drawable_bytes ?t \<le> (if px_storage p \<in> ran (view as_pixmap t) then 0 else storage_bytes (px_storage p)) + drawable_bytes t"
    by (simp add: drawable_bytes_def pixmaps insert_absorb finite_ran)
  then show "drawable_bytes ?t \<le> rl_canonical_drawable_bytes (rt_limits ?t)"
    using room parts(5,6) by (auto simp: sums_ok_def within_limits_def table_views split: if_splits)
qed (use ok in \<open>simp_all add: table_ok_def sums_ok_def within_limits_def table_views fresh_upd conjunct1 [OF fresh_id [OF new]]\<close>)

lemma create_pixmap_ok:
  assumes ok: "table_ok late t" and allocation: "fresh_address allocation t"
  shows "table_ok late (snd (create_pixmap allocation owner base client_mask xid drawable depth width height t))"
proof (cases "snd (create_pixmap allocation owner base client_mask xid drawable depth width height t) = t")
  case True
  then show ?thesis using ok by simp
next
  case False
  then obtain storage where new: "valid_new_resource_id xid base client_mask t" and depth: "depth = 1 \<or> depth = 8 \<or> depth = 24 \<or> depth = 32"
    and storage: "pixmap_storage_create allocation depth width height = Some storage"
    and room: "storage_bytes storage \<le> rl_canonical_drawable_bytes (rt_limits t) - rt_drawable_bytes t"
    and t': "snd (create_pixmap allocation owner base client_mask xid drawable depth width height t) =
      recompute_canonical_drawable_bytes (adopt owner xid RT_Pixmap (PL_Pixmap \<lparr>px_root = sm_root_window (rt_screen t), px_depth = depth,
        px_width = width, px_height = height, px_storage = storage\<rparr>) t)"
    by (auto simp: create_pixmap_def not_less split: option.splits if_splits)
  show ?thesis unfolding t'
  proof (rule adopt_pixmap [OF ok new])
    show "valid_storage \<lparr>px_root = sm_root_window (rt_screen t), px_depth = depth, px_width = width, px_height = height, px_storage = storage\<rparr>"
      by (rule pixmap_storage_valid [OF storage depth])
  qed (use allocation pixmap_storage_created [OF storage] room in \<open>simp_all add: fresh_address_def\<close>)
qed

lemma free_pixmap_ok:
  assumes ok: "table_ok late t"
  shows "table_ok late (snd (free_pixmap xid t))"
proof (cases "find_pixmap xid t")
  case None
  then show ?thesis using ok by (simp add: free_pixmap_def)
next
  case (Some p)
  let ?u = "unreferenced xid t" and ?t = "disown xid (unreferenced xid t)"
  have t': "snd (free_pixmap xid t) = recompute_canonical_drawable_bytes ?t" using Some by (simp add: free_pixmap_def unreferenced_def)
  obtain r where r: "find_resource xid t = Some r" "re_payload r = PL_Pixmap p" using Some by (auto simp: find_pixmap_iff)
  then have u: "find_resource xid ?u = Some r" by (simp add: find_unreferenced view_def)
  note okay = unreferenced_ok [OF ok, of xid]
  have parts: "structure_ok ?u" "payloads_ok ?u" "cursors_ok late ?u" "storages_ok ?u" "sums_ok ?u" "within_limits ?u"
    using okay by (simp_all add: table_parts)
  have subset: "ran ((view g ?u)(xid := None)) \<subseteq> ran (view g ?u)" for g :: "payload \<Rightarrow> pixmap_storage option" by (auto simp: ran_def)
  show ?thesis unfolding t'
  proof (rule recompute_ok)
    show "structure_ok ?t" by (rule disown_structure [OF parts(1) u]) (simp_all add: r(2) unreferenced_target)
    show "payloads_ok ?t" using parts(2) by (rule payloads_disown)
    show "cursors_ok late ?t" using parts(3) by (simp add: cursors_ok_def view_disown fun_upd_idem view_found [OF u] r(2))
    show "storages_ok ?t" using parts(4) inj_on_subset [OF _ subset] by (simp add: storages_ok_def view_disown)
    have "drawable_bytes ?t \<le> drawable_bytes ?u"
      unfolding drawable_bytes_def view_disown by (rule sum_mono2 [OF finite_ran subset]) simp_all
    then show "drawable_bytes ?t \<le> rl_canonical_drawable_bytes (rt_limits ?t)"
      using parts(5,6) by (simp add: sums_ok_def within_limits_def disown_fields)
  qed (use parts(5,6) in \<open>simp_all add: sums_ok_def within_limits_def table_views fun_upd_idem view_found [OF u] r(2)\<close>)
qed

section \<open>Windows in place\<close>

text \<open>An assignment that keeps the place of a window in the tree and its cursor.\<close>

lemma update_frame:
  assumes "find_window xid t = Some w" "sw_parent (f w) = sw_parent w" "sw_children (f w) = sw_children w"
  shows "frame (update_window xid f t) = frame t"
proof -
  obtain r where "find_resource xid t = Some r" "re_payload r = PL_Window w" using assms(1) by (auto simp: find_window_iff)
  then show ?thesis using assms(2,3) by (simp add: frame_def update_window_fields view_update_window [OF assms(1)] fun_upd_idem view_found)
qed

lemma window_view: "find_window xid t = Some w \<Longrightarrow> view g t xid = g (PL_Window w)"
  by (auto simp: find_window_iff view_def)

lemma update_contents:
  assumes w: "find_window xid t = Some w" and "contents_ok late t" "sw_attributes (f w) = sw_attributes w" "properties_ok (rt_limits t) (f w)"
    "window_property_bytes (f w) = window_property_bytes w"
    and block: "sw_storage (f w) = sw_storage w \<or> (\<exists>s. sw_storage (f w) = Some s \<and> fresh_address (Some (sr_address s)) t)"
  shows "contents_ok late (update_window xid f t)"
proof -
  note upd = update_window_fields view_update_window [OF w] window_view [OF w]
  have parts: "payloads_ok t" "cursors_ok late t" "storages_ok t" "sums_ok t" "within_limits t" using assms(2) by (simp_all add: contents_ok_def)
  have "payloads_ok (update_window xid f t)" using parts(1) assms(4) by (simp add: payloads_ok_def upd)
  moreover have "cursors_ok late (update_window xid f t)" using parts(2) assms(3) by (simp add: cursors_ok_def upd fun_upd_idem)
  moreover have "storages_ok (update_window xid f t)"
    using block
  proof
    assume "sw_storage (f w) = sw_storage w"
    then show ?thesis using parts(3) by (simp add: storages_ok_def upd fun_upd_idem)
  next
    assume "\<exists>s. sw_storage (f w) = Some s \<and> fresh_address (Some (sr_address s)) t"
    then obtain s where s: "sw_storage (f w) = Some s" "sr_address s \<notin> storage_identity ` ran (view as_block t)" by (auto simp: fresh_address_def)
    have "ran ((view as_block t)(xid \<mapsto> Pixel_Storage s)) \<subseteq> insert (Pixel_Storage s) (ran (view as_block t))" by (auto simp: ran_def)
    moreover have "inj_on storage_identity (insert (Pixel_Storage s) (ran (view as_block t)))" using parts(3) s(2) by (auto simp: storages_ok_def)
    ultimately have "inj_on storage_identity (ran ((view as_block t)(xid \<mapsto> Pixel_Storage s)))" by (rule inj_on_subset [rotated])
    then show ?thesis using s(1) by (simp add: storages_ok_def upd)
  qed
  moreover have "sums_ok (update_window xid f t)"
    using parts(4) assms(5) by (simp add: sums_ok_def drawable_bytes_def upd fun_upd_idem)
  moreover have "within_limits (update_window xid f t)" using parts(5) by (simp add: within_limits_def update_window_fields)
  ultimately show ?thesis by (simp add: contents_ok_def)
qed

lemma update_ok:
  assumes "table_ok late t" "find_window xid t = Some w" "sw_parent (f w) = sw_parent w" "sw_children (f w) = sw_children w"
    "sw_attributes (f w) = sw_attributes w" "sw_properties (f w) = sw_properties w"
    "sw_storage (f w) = sw_storage w \<or> (\<exists>s. sw_storage (f w) = Some s \<and> fresh_address (Some (sr_address s)) t)"
  shows "table_ok late (update_window xid f t)"
proof -
  have "properties_ok (rt_limits t) w"
    using ok_parts(7) [OF assms(1)] window_view [OF assms(2), of Some] by (force simp: payloads_ok_def)
  then have "contents_ok late (update_window xid f t)"
    using assms by (intro update_contents) (simp_all add: table_ok_split properties_ok_def window_property_bytes_def)
  then show ?thesis using assms(1) structure_frame [OF update_frame [of xid t w f, OF assms(2-4)]] by (simp add: table_ok_split)
qed

lemma name_window_pixmap_ok:
  assumes ok: "table_ok late t" and allocation: "fresh_address allocation t"
  shows "table_ok late (snd (name_window_pixmap allocation owner base client_mask xid window t))"
proof (cases "snd (name_window_pixmap allocation owner base client_mask xid window t) = t")
  case True
  then show ?thesis using ok by simp
next
  case False
  then obtain w storage where new: "valid_new_resource_id xid base client_mask t" and w: "find_window window t = Some w" and depth: "sw_depth w = 24"
    and storage: "window_storage allocation w = Some storage"
    by (auto simp: name_window_pixmap_def Let_def split: option.splits if_splits)
  let ?t = "update_window window (\<lambda>w. w\<lparr>sw_storage := Some storage\<rparr>) t"
  let ?p = "\<lparr>px_root = sm_root_window (rt_screen t), px_depth = sw_depth w, px_width = sw_width w, px_height = sw_height w, px_storage = Pixel_Storage storage\<rparr>"
  have "sw_storage w = Some storage \<or> fresh_address (Some (sr_address storage)) t"
    using storage allocation by (auto simp: window_storage_def dest!: storage_created split: option.splits)
  then have okay: "table_ok late ?t" by (intro update_ok [OF ok w]) auto
  have new': "valid_new_resource_id xid base client_mask ?t"
    using new by (auto simp: valid_new_resource_id_def update_window_fields find_update_window)
  have "view as_block ?t window = Some (Pixel_Storage storage)" by (simp add: view_update_window [OF w])
  then have block: "Pixel_Storage storage \<in> ran (view as_block ?t)" by (rule ranI)
  have counted: "Pixel_Storage storage \<in> ran (view as_pixmap ?t)" if seen: "already_counted (sr_address storage) ?t"
  proof -
    obtain y q where q: "find_pixmap y ?t = Some q" "storage_identity (px_storage q) = sr_address storage"
      using seen unfolding already_counted_def by (auto split: option.split_asm)
    then have "view as_pixmap ?t y = Some (px_storage q)" by (simp add: pixmap_view)
    then have pixmap: "px_storage q \<in> ran (view as_pixmap ?t)" by (rule ranI)
    have "px_storage q \<in> ran (view as_block ?t)" using pixmaps_are_blocks pixmap by blast
    moreover have "inj_on storage_identity (ran (view as_block ?t))" using ok_parts(9) [OF okay] by (simp add: storages_ok_def)
    ultimately have "px_storage q = Pixel_Storage storage" using block q(2) by (simp add: inj_on_eq_iff [symmetric])
    with pixmap show ?thesis by simp
  qed
  have kept: "rt_limits ?t = rt_limits t" "rt_drawable_bytes ?t = rt_drawable_bytes t" by (simp_all add: update_window_fields)
  show ?thesis
  proof (cases "\<not> already_counted (sr_address storage) ?t \<and> pixel_bytes storage > rl_canonical_drawable_bytes (rt_limits t) - rt_drawable_bytes t")
    case True
    then have "snd (name_window_pixmap allocation owner base client_mask xid window t) \<in> {t, ?t}"
      using new w storage by (simp add: name_window_pixmap_def Let_def)
    then show ?thesis using ok okay by auto
  next
    case False
    then have "snd (name_window_pixmap allocation owner base client_mask xid window t) \<in>
        {t, recompute_canonical_drawable_bytes (adopt owner xid RT_Pixmap (PL_Pixmap ?p) ?t)}"
      using new w storage by (auto simp: name_window_pixmap_def Let_def)
    moreover have "table_ok late (recompute_canonical_drawable_bytes (adopt owner xid RT_Pixmap (PL_Pixmap ?p) ?t))"
      by (rule adopt_pixmap [OF okay new'])
        (use depth block counted False kept in \<open>auto simp: valid_storage_def\<close>)
    ultimately show ?thesis using ok by auto
  qed
qed

section \<open>Properties\<close>

definition property_sum :: "(u32, x_property) fmap \<Rightarrow> nat" where
  "property_sum m = (\<Sum>a \<in> fset (fmdom m). byte_size (pr_data (the (fmlookup m a))))"

lemma window_property_sum: "window_property_bytes w = property_sum (sw_properties w)"
  by (simp add: window_property_bytes_def property_sum_def)

lemma property_sum_drop:
  "property_sum (fmdrop a m) + (case fmlookup m a of None \<Rightarrow> 0 | Some p \<Rightarrow> byte_size (pr_data p)) = property_sum m"
proof (cases "fmlookup m a")
  case (Some p)
  have "property_sum (fmdrop a m) = (\<Sum>x \<in> fset (fmdom m) - {a}. byte_size (pr_data (the (fmlookup m x))))"
    unfolding property_sum_def by (rule sum.cong) auto
  moreover have "a \<in> fset (fmdom m)" using Some by (simp add: fmdomI)
  ultimately show ?thesis using Some by (simp add: property_sum_def sum.remove)
next
  case None
  then have "fmdrop a m = m" by (intro fmap_ext) auto
  with None show ?thesis by simp
qed

lemma property_sum_upd: "property_sum (fmupd a p m) = byte_size (pr_data p) + property_sum (fmdrop a m)"
proof -
  have "property_sum (fmupd a p m) = byte_size (pr_data p) + (\<Sum>x \<in> fset (fmdom m) - {a}. byte_size (pr_data (the (fmlookup (fmupd a p m) x))))"
    by (simp add: property_sum_def sum.insert_remove)
  also have "(\<Sum>x \<in> fset (fmdom m) - {a}. byte_size (pr_data (the (fmlookup (fmupd a p m) x)))) = property_sum (fmdrop a m)"
    unfolding property_sum_def by (rule sum.cong) auto
  finally show ?thesis .
qed

text \<open>A window with other properties, and their bytes counted.\<close>

lemma set_properties_ok:
  assumes ok: "table_ok late t" and w: "find_window xid t = Some w"
    and old: "window_property_bytes w = old + rest" and new: "property_sum m = fresh + rest"
    and limits: "properties_ok (rt_limits t) (w\<lparr>sw_properties := m\<rparr>)"
    and room: "rt_property_bytes t - old + fresh \<le> rl_total_property_bytes (rt_limits t)"
    and f: "f w = w\<lparr>sw_properties := m\<rparr>"
  shows "table_ok late ((update_window xid f t)\<lparr>rt_property_bytes := rt_property_bytes t - old + fresh\<rparr>)"
proof -
  let ?t = "(update_window xid f t)\<lparr>rt_property_bytes := rt_property_bytes t - old + fresh\<rparr>"
  note upd = update_window_fields view_update_window [OF w] window_view [OF w] table_fields f
  have parts: "structure_ok t" "payloads_ok t" "cursors_ok late t" "storages_ok t" "sums_ok t" "within_limits t" using ok by (simp_all add: table_parts)
  have "frame ?t = frame (update_window xid f t)" by (simp add: frame_def table_fields)
  also have "\<dots> = frame t" by (rule update_frame [OF w]) (simp_all add: f)
  finally have "structure_ok ?t" using structure_frame parts(1) by blast
  moreover have "payloads_ok ?t" using parts(2) limits by (simp add: payloads_ok_def upd)
  moreover have "cursors_ok late ?t" using parts(3) by (simp add: cursors_ok_def upd fun_upd_idem)
  moreover have "storages_ok ?t" using parts(4) by (simp add: storages_ok_def upd fun_upd_idem)
  moreover have "sums_ok ?t"
    using parts(5) sum_view_upd [of "view as_property_bytes t" xid "Some (fresh + rest)"] sum_view_member [of "view as_property_bytes t" xid "old + rest"]
    by (simp add: sums_ok_def drawable_bytes_def upd fun_upd_idem window_property_sum new old [unfolded window_property_sum])
  moreover have "within_limits ?t" using parts(6) room by (simp add: within_limits_def upd)
  ultimately show ?thesis by (simp add: table_parts)
qed

lemma window_properties_ok: "table_ok late t \<Longrightarrow> find_window xid t = Some w \<Longrightarrow> properties_ok (rt_limits t) w"
  using ok_parts(7) [of late t] window_view [of xid t w Some] by (force simp: payloads_ok_def)

lemma drop_properties_ok: "properties_ok limits w \<Longrightarrow> properties_ok limits (w\<lparr>sw_properties := fmdrop a (sw_properties w)\<rparr>)"
proof -
  assume w: "properties_ok limits w"
  have "fcard (fmdom (fmdrop a (sw_properties w))) \<le> fcard (fmdom (sw_properties w))" by (rule fcard_mono) auto
  with w show ?thesis by (auto simp: properties_ok_def)
qed

lemma drop_property_ok:
  assumes ok: "table_ok late t" and w: "find_window xid t = Some w" and p: "fmlookup (sw_properties w) a = Some p"
  shows "table_ok late ((update_window xid (\<lambda>w. w\<lparr>sw_properties := fmdrop a (sw_properties w)\<rparr>) t)
     \<lparr>rt_property_bytes := rt_property_bytes t - byte_size (pr_data p)\<rparr>)"
proof -
  have "table_ok late ((update_window xid (\<lambda>w. w\<lparr>sw_properties := fmdrop a (sw_properties w)\<rparr>) t)
     \<lparr>rt_property_bytes := rt_property_bytes t - byte_size (pr_data p) + 0\<rparr>)"
  proof (rule set_properties_ok [OF ok w])
    show "window_property_bytes w = byte_size (pr_data p) + property_sum (fmdrop a (sw_properties w))"
      using property_sum_drop [of a "sw_properties w"] p by (simp add: window_property_sum)
    show "properties_ok (rt_limits t) (w\<lparr>sw_properties := fmdrop a (sw_properties w)\<rparr>)"
      by (rule drop_properties_ok [OF window_properties_ok [OF ok w]])
    show "rt_property_bytes t - byte_size (pr_data p) + 0 \<le> rl_total_property_bytes (rt_limits t)"
      using ok_parts(11) [OF ok] by (auto simp: within_limits_def)
  qed simp_all
  then show ?thesis by simp
qed

lemma delete_property_ok: "table_ok late t \<Longrightarrow> table_ok late (snd (delete_property xid a t))"
  by (auto simp: delete_property_def drop_property_ok split: option.splits)

lemma get_property_ok: "table_ok late t \<Longrightarrow> table_ok late (snd (get_property xid a type delete_after long_offset long_length t))"
  by (auto simp: get_property_def Let_def drop_property_ok split: option.splits)

lemma change_property_ok:
  assumes ok: "table_ok late t"
  shows "table_ok late (snd (change_property xid a value mode t))"
proof (cases "snd (change_property xid a value mode t) = t")
  case True
  then show ?thesis using ok by simp
next
  case False
  define old where "old w = (case fmlookup (sw_properties w) a of None \<Rightarrow> 0 | Some p \<Rightarrow> byte_size (pr_data p))" for w :: server_window
  define new where "new w = replacement_property (fmlookup (sw_properties w) a) value mode" for w :: server_window
  obtain w where w: "find_window xid t = Some w" and size: "byte_size (pr_data (new w)) \<le> rl_bytes_per_property (rt_limits t)"
    and count: "fmlookup (sw_properties w) a = None \<Longrightarrow> fcard (fmdom (sw_properties w)) < rl_properties_per_window (rt_limits t)"
    and room: "byte_size (pr_data (new w)) \<le> rl_total_property_bytes (rt_limits t) - (rt_property_bytes t - old w)"
    and t': "snd (change_property xid a value mode t) = (update_window xid (\<lambda>u. u\<lparr>sw_properties := fmupd a (new w) (sw_properties u)\<rparr>) t)
      \<lparr>rt_property_bytes := rt_property_bytes t - old w + byte_size (pr_data (new w))\<rparr>"
    using False by (auto simp: change_property_def Let_def old_def new_def not_less not_le split: option.split_asm if_split_asm)
  have limits: "properties_ok (rt_limits t) (w\<lparr>sw_properties := fmupd a (new w) (sw_properties w)\<rparr>)"
  proof -
    note before = window_properties_ok [OF ok w]
    have "fcard (finsert a (fmdom (sw_properties w))) \<le> rl_properties_per_window (rt_limits t)"
    proof (cases "fmlookup (sw_properties w) a")
      case None
      then show ?thesis using count by (simp add: fcard_finsert_disjoint fmdom_notI)
    next
      case (Some p)
      then have "finsert a (fmdom (sw_properties w)) = fmdom (sw_properties w)" by (simp add: finsert_absorb fmdomI)
      then show ?thesis using before by (simp add: properties_ok_def)
    qed
    then show ?thesis using before size by (auto simp: properties_ok_def)
  qed
  show ?thesis unfolding t'
  proof (rule set_properties_ok [OF ok w _ _ limits])
    show "window_property_bytes w = old w + property_sum (fmdrop a (sw_properties w))"
      using property_sum_drop [of a "sw_properties w"] by (simp add: window_property_sum old_def)
    show "property_sum (fmupd a (new w) (sw_properties w)) = byte_size (pr_data (new w)) + property_sum (fmdrop a (sw_properties w))"
      by (rule property_sum_upd)
    show "rt_property_bytes t - old w + byte_size (pr_data (new w)) \<le> rl_total_property_bytes (rt_limits t)"
      using room ok_parts(11) [OF ok] by (auto simp: within_limits_def)
  qed simp
qed

end
