(* ===== verification/Srv_Tree.thy ===== *)
theory Srv_Tree
  imports Srv_Shared
begin

text \<open>
  The tree of windows: new windows, changes of the stacking order, and the states of mapping. Every operation keeps
  the invariant, and those that walk over the tree return.
\<close>

section \<open>Changing the tree\<close>

lemma tree_unfold:
  "tree_ok t \<longleftrightarrow> (\<forall>xid parent children. view as_links t xid = Some (parent, children) \<longrightarrow> distinct children \<and>
      (\<forall>c \<in> set children. \<exists>cs. view as_links t c = Some (xid, cs)) \<and>
      (xid \<noteq> sm_root_window (rt_screen t) \<longrightarrow> (\<exists>pp cs. view as_links t parent = Some (pp, cs) \<and> xid \<in> set cs))) \<and> wf (child_relation t)"
  by (simp add: tree_ok_def window_linked_def child_relation_def)

text \<open>A window without children under another one.\<close>

lemma tree_add:
  assumes ok: "tree_ok t" and parent: "view as_links t parent = Some (pp, siblings)" and new: "view as_links t xid = None"
    and links: "view as_links t' = (view as_links t)(xid := Some (parent, []), parent := Some (pp, siblings @ [xid]))"
    and root: "sm_root_window (rt_screen t') = sm_root_window (rt_screen t)"
  shows "tree_ok t'"
proof -
  have ne: "parent \<noteq> xid" using parent new by auto
  have child: "c \<noteq> xid" if "view as_links t y = Some (p, cs)" "c \<in> set cs" for y p cs c
  proof -
    have "\<exists>cs'. view as_links t c = Some (y, cs')" using ok that by (simp add: tree_unfold)
    with new show ?thesis by auto
  qed
  have relation: "child_relation t' = insert (xid, parent) (child_relation t)"
  proof (rule set_eqI)
    fix e show "e \<in> child_relation t' \<longleftrightarrow> e \<in> insert (xid, parent) (child_relation t)"
      using parent new ne by (cases e) (auto simp: child_relation_def links)
  qed
  have "(parent, xid) \<notin> (child_relation t)\<^sup>*"
  proof
    assume "(parent, xid) \<in> (child_relation t)\<^sup>*"
    then obtain z where "(z, xid) \<in> child_relation t" using ne by (auto elim: rtranclE)
    then show False using new by (auto simp: child_relation_def)
  qed
  then have "wf (child_relation t')" using ok by (simp add: relation tree_ok_def)
  moreover have "distinct children \<and> (\<forall>c \<in> set children. \<exists>cs. view as_links t' c = Some (y, cs)) \<and>
      (y \<noteq> sm_root_window (rt_screen t') \<longrightarrow> (\<exists>qq cs. view as_links t' q = Some (qq, cs) \<and> y \<in> set cs))"
    if y: "view as_links t' y = Some (q, children)" for y q children
  proof (cases "y = xid")
    case True
    then show ?thesis using y ne by (auto simp: links)
  next
    case False
    obtain old where old: "view as_links t y = Some (q, old)" "children = (if y = parent then old @ [xid] else old)"
      using y False parent by (auto simp: links split: if_splits)
    have t: "distinct old \<and> (\<forall>c \<in> set old. \<exists>cs. view as_links t c = Some (y, cs)) \<and>
      (y \<noteq> sm_root_window (rt_screen t) \<longrightarrow> (\<exists>qq cs. view as_links t q = Some (qq, cs) \<and> y \<in> set cs))"
      using ok old(1) by (simp add: tree_unfold)
    have "xid \<notin> set old" using child [OF old(1)] by blast
    moreover have "\<exists>cs. view as_links t' c = Some (y, cs)" if "c \<in> set old" for c
      using t that child [OF old(1) that] parent by (cases "c = parent") (auto simp: links)
    moreover have "\<exists>qq cs. view as_links t' q = Some (qq, cs) \<and> y \<in> set cs" if inner: "y \<noteq> sm_root_window (rt_screen t)"
    proof -
      obtain qq cs where q: "view as_links t q = Some (qq, cs)" "y \<in> set cs" using t inner by blast
      with new have "q \<noteq> xid" by auto
      with q parent show ?thesis by (auto simp: links)
    qed
    moreover have "\<exists>cs. view as_links t' c = Some (y, cs)" if "c \<in> set children" "c \<notin> set old" for c
    proof -
      have "c = xid" "y = parent" using that old(2) by (auto split: if_splits)
      then show ?thesis using ne by (simp add: links)
    qed
    ultimately show ?thesis using t old(2) unfolding root by auto
  qed
  ultimately show ?thesis unfolding tree_unfold by blast
qed

text \<open>The children of a window in another order.\<close>

lemma tree_reorder:
  assumes ok: "tree_ok t" and w: "view as_links t xid = Some (parent, children)" and "set children' = set children" "distinct children'"
    and links: "view as_links t' = (view as_links t)(xid := Some (parent, children'))"
    and root: "sm_root_window (rt_screen t') = sm_root_window (rt_screen t)"
  shows "tree_ok t'"
proof -
  have relation: "child_relation t' = child_relation t"
  proof (rule set_eqI)
    fix e show "e \<in> child_relation t' \<longleftrightarrow> e \<in> child_relation t"
      using w assms(3) by (cases e) (auto simp: child_relation_def links)
  qed
  have linked: "(\<exists>cs. view as_links t' y = Some (p, cs)) \<longleftrightarrow> (\<exists>cs. view as_links t y = Some (p, cs))" for y p
    using w by (auto simp: links)
  have "window_linked t' y p cs" if y: "view as_links t' y = Some (p, cs)" for y p cs
  proof -
    obtain cs0 where old: "view as_links t y = Some (p, cs0)" "set cs = set cs0" "distinct cs0 \<Longrightarrow> distinct cs"
      using y w assms(3,4) by (auto simp: links split: if_splits)
    have "window_linked t y p cs0" using ok old(1) by (simp add: tree_ok_def)
    then show ?thesis using old(2,3) by (simp add: window_linked_def relation linked root)
  qed
  then show ?thesis using ok by (simp add: tree_ok_def relation)
qed

text \<open>A window without children goes away.\<close>

lemma tree_remove:
  assumes ok: "tree_ok t" and leaf: "view as_links t xid = Some (parent, [])" and parent: "view as_links t parent = Some (pp, siblings)"
    and "set siblings' = set siblings - {xid}" "distinct siblings'"
    and links: "view as_links t' = (view as_links t)(parent := Some (pp, siblings'), xid := None)"
    and root: "sm_root_window (rt_screen t') = sm_root_window (rt_screen t)"
    and inside: "xid \<noteq> sm_root_window (rt_screen t)"
  shows "tree_ok t'"
proof -
  have "\<exists>qq cs. view as_links t parent = Some (qq, cs) \<and> xid \<in> set cs" using ok leaf inside unfolding tree_unfold by blast
  then have member: "xid \<in> set siblings" using parent by simp
  have ne: "parent \<noteq> xid" using member leaf parent by auto
  have relation: "child_relation t' \<subseteq> child_relation t"
    using assms(4) parent by (auto simp: child_relation_def links split: if_splits)
  have "wf (child_relation t')" using ok relation by (auto simp: tree_ok_def intro: wf_subset)
  moreover have "distinct children \<and> (\<forall>c \<in> set children. \<exists>cs. view as_links t' c = Some (y, cs)) \<and>
      (y \<noteq> sm_root_window (rt_screen t') \<longrightarrow> (\<exists>qq cs. view as_links t' q = Some (qq, cs) \<and> y \<in> set cs))"
    if y: "view as_links t' y = Some (q, children)" for y q children
  proof -
    have yx: "y \<noteq> xid" using y by (auto simp: links)
    obtain old where old: "view as_links t y = Some (q, old)" "children = (if y = parent then siblings' else old)"
      using y yx parent by (auto simp: links split: if_splits)
    have t: "distinct old \<and> (\<forall>c \<in> set old. \<exists>cs. view as_links t c = Some (y, cs)) \<and>
      (y \<noteq> sm_root_window (rt_screen t) \<longrightarrow> (\<exists>qq cs. view as_links t q = Some (qq, cs) \<and> y \<in> set cs))"
      using ok old(1) by (simp add: tree_unfold)
    have set: "set children = set old - {xid}"
    proof (cases "y = parent")
      case True
      then show ?thesis using old parent assms(4) by auto
    next
      case False
      then have "xid \<notin> set old" using t leaf by auto
      then show ?thesis using False old(2) by simp
    qed
    moreover have "distinct children" using old(2) t assms(5) by simp
    moreover have "\<exists>cs. view as_links t' c = Some (y, cs)" if "c \<in> set children" for c
    proof -
      have c: "c \<in> set old" "c \<noteq> xid" using that set by auto
      with t obtain cs where "view as_links t c = Some (y, cs)" by blast
      with c(2) parent show ?thesis by (cases "c = parent") (auto simp: links)
    qed
    moreover have "\<exists>qq cs. view as_links t' q = Some (qq, cs) \<and> y \<in> set cs" if inner: "y \<noteq> sm_root_window (rt_screen t)"
    proof -
      obtain qq cs where q: "view as_links t q = Some (qq, cs)" "y \<in> set cs" using t inner by blast
      then have "q \<noteq> xid" using leaf by auto
      with q parent yx assms(4) show ?thesis by (cases "q = parent") (auto simp: links)
    qed
    ultimately show ?thesis by (simp add: root)
  qed
  ultimately show ?thesis unfolding tree_unfold by blast
qed

section \<open>New windows\<close>

lemma found_kind: "typed t \<Longrightarrow> find_window xid t = Some w \<Longrightarrow> \<exists>owner. kind t xid = Some (RT_Window, owner)"
  by (auto simp: find_window_iff kind_def dest: type_of_payload)

lemma add_window:
  assumes ok: "table_ok late t" and fresh: "find_resource xid t = None" "xid \<noteq> 0" and p: "find_resource parent t = Some r" "re_payload r = PL_Window p"
    and w: "sw_parent w = parent" "sw_children w = []" "sw_storage w = None" "sw_properties w = fmempty" "cursor_fits late xid (sw_attributes w) t"
    and owner: "owner = None \<Longrightarrow> server_resource (rt_screen t) xid RT_Window"
    and found: "\<And>y. find_resource y t' = (if y = parent then Some (r\<lparr>re_payload := PL_Window (p\<lparr>sw_children := sw_children p @ [xid]\<rparr>)\<rparr>)
      else if y = xid then Some \<lparr>re_type = RT_Window, re_owner = owner, re_payload = PL_Window w\<rparr> else find_resource y t)"
    and owned: "\<And>k. owned_ids k t' = (if owner = Some k then owned_ids k t @ [xid] else owned_ids k t)"
    and fields: "fixed_fields t' = fixed_fields t"
  shows "table_ok late t'"
proof -
  have parts: "typed t" "owners_ok t" "unowned_ok t" "root_ok t" "tree_ok t" "refs_ok t" "payloads_ok t" "cursors_ok late t" "storages_ok t"
    "sums_ok t" "within_limits t" using ok by (simp_all add: table_parts)
  have ne: "parent \<noteq> xid" using fresh p by auto
  let ?p = "p\<lparr>sw_children := sw_children p @ [xid]\<rparr>"
  have view: "view g t' = (view g t)(xid := g (PL_Window w), parent := g (PL_Window ?p))" for g :: "payload \<Rightarrow> 'z option"
    by (rule ext) (simp add: view_def found ne)
  have same: "view g t' = view g t" if "g (PL_Window w) = None" "g (PL_Window ?p) = g (PL_Window p)" for g :: "payload \<Rightarrow> 'z option"
    using that ne p fresh by (auto simp: view fun_eq_iff view_def)
  have kind: "kind t' = (kind t)(xid := Some (RT_Window, owner))"
    using p ne by (auto simp: fun_eq_iff kind_def found)
  have fixed: "rt_screen t' = rt_screen t" "rt_limits t' = rt_limits t" "rt_property_bytes t' = rt_property_bytes t"
    "rt_drawable_bytes t' = rt_drawable_bytes t" "rt_cursor_bytes t' = rt_cursor_bytes t" "rt_root_cursor t' = rt_root_cursor t"
    using fields by (simp_all add: fixed_fields_def)
  note new = fresh_views [OF fresh(1)]
  have types: "view (Some \<circ> payload_type) t' = (view (Some \<circ> payload_type) t)(xid := Some RT_Window)"
    using p ne by (auto simp: view fun_eq_iff view_def)
  have links: "view as_links t' = (view as_links t)(xid := Some (parent, []), parent := Some (sw_parent p, sw_children p @ [xid]))"
    by (simp add: view w)
  have parent: "view as_links t parent = Some (sw_parent p, sw_children p)" using p by (simp add: view_def)
  have "typed t'" using parts(1) fresh(2) by (simp add: typed_def kind types)
  moreover have "owners_ok t'"
    using parts(2) new(2) by (cases owner) (auto simp: owners_ok_def owned kind)
  moreover have "unowned_ok t'" using parts(3) owner by (auto simp: unowned_ok_def kind fixed)
  moreover have "root_ok t'" using parts(4) new(2) parent ne by (auto simp: root_ok_def kind fixed links)
  moreover have "tree_ok t'"
    by (rule tree_add [OF parts(5) parent new(1) links]) (simp add: fixed)
  moreover have "refs_ok t'"
    using parts(6) new(1) [of "Some \<circ> payload_type"] by (auto simp: refs_ok_def same is_drawable_def types)
  moreover have "payloads_ok t'"
  proof -
    have "view Some t parent = Some (PL_Window p)" using p by (simp add: view_def)
    then have "payload_ok (rt_limits t) (PL_Window p)" using parts(7) unfolding payloads_ok_def by blast
    then show ?thesis using parts(7) w(4) by (auto simp: payloads_ok_def view fixed properties_ok_def fcard.rep_eq)
  qed
  moreover have "cursors_ok late t'"
  proof -
    have "view as_image t' = view as_image t" by (rule same) simp_all
    moreover have "view as_cursor t' = (view as_cursor t)(xid := as_cursor (PL_Window w))"
      using p ne by (auto simp: view fun_eq_iff view_def)
    ultimately show ?thesis using parts(8) w(5) by (auto simp: cursors_ok_def cursor_fits_def find_cursor_view split: if_splits)
  qed
  moreover have "storages_ok t'" using parts(9) same [of as_block] w(3) by (simp add: storages_ok_def)
  moreover have "sums_ok t'"
  proof -
    have "sum_view (view as_property_bytes t') = sum_view (view as_property_bytes t)"
    proof -
      have "view as_property_bytes t' = (view as_property_bytes t)(xid := Some 0)"
        using p ne w(4) by (auto simp: view fun_eq_iff view_def window_property_bytes_def)
      then show ?thesis using sum_view_upd [of "view as_property_bytes t" xid "Some 0"] new(1) [of as_property_bytes] by simp
    qed
    then show ?thesis using parts(10) same [of as_cursor_bytes] same [of as_pixmap] by (simp add: sums_ok_def drawable_bytes_def fixed)
  qed
  moreover have "within_limits t'" using parts(11) by (simp add: within_limits_def fixed)
  ultimately show ?thesis by (simp add: table_parts)
qed

text \<open>A new window, whose cursor may be that of an earlier table when the window counts as late.\<close>

lemma create_window_ok:
  assumes ok: "table_ok late t" and cursor: "cursor_fits late (cs_xid spec) (cs_attributes spec) t"
  shows "table_ok late (snd (create_window owner base client_mask spec t))"
proof (cases "snd (create_window owner base client_mask spec t) = t")
  case True
  then show ?thesis using ok by simp
next
  case False
  then obtain p c depth visual where new: "valid_new_resource_id (cs_xid spec) base client_mask t" and p: "find_window (cs_parent spec) t = Some p"
    and t': "snd (create_window owner base client_mask spec t) =
      update_window (cs_parent spec) (\<lambda>p. p\<lparr>sw_children := sw_children p @ [cs_xid spec]\<rparr>)
        (adopt owner (cs_xid spec) RT_Window (PL_Window (new_window owner spec c depth visual)) t)"
    by (auto simp: create_window_def Let_def split: option.split_asm if_split_asm)
  obtain r where r: "find_resource (cs_parent spec) t = Some r" "re_payload r = PL_Window p" using p by (auto simp: find_window_iff)
  note fresh = fresh_id [OF new]
  then have ne: "cs_parent spec \<noteq> cs_xid spec" using r by auto
  show ?thesis unfolding t'
  proof (rule add_window [where owner = "Some owner", OF ok _ _ r])
    show "find_resource (cs_xid spec) t = None" "cs_xid spec \<noteq> 0" using fresh by simp_all
    show "cursor_fits late (cs_xid spec) (sw_attributes (new_window owner spec c depth visual)) t" using cursor by (simp add: new_window_def default_window_def)
  qed (use fresh r ne in \<open>simp_all add: new_window_def default_window_def find_update_window find_adopt fixed_fields_def adopt_fields
      update_window_fields owned_adopt\<close>)
qed

lemma proxy_ok:
  assumes ok: "table_ok late t"
  shows "table_ok late (snd (create_server_proxy_window kEwmhSupportingWindow t))"
proof (cases "find_resource kEwmhSupportingWindow t")
  case (Some r)
  then show ?thesis using ok by (simp add: create_server_proxy_window_def)
next
  case None
  let ?root = "sm_root_window (rt_screen t)"
  obtain r p where r: "find_resource ?root t = Some r" "re_payload r = PL_Window p" using ok_root [OF ok] by (auto simp: find_window_iff)
  then have ne: "?root \<noteq> kEwmhSupportingWindow" using None by auto
  define w where "w = default_window\<lparr>sw_parent := ?root, sw_width := 1, sw_height := 1, sw_requested_width := 1,
    sw_requested_height := 1, sw_depth := sm_root_depth (rt_screen t), sw_class := InputOutput, sw_visual := sm_root_visual (rt_screen t),
    sw_attributes := default_attributes\<lparr>wa_colormap := sm_default_colormap (rt_screen t)\<rparr>\<rparr>"
  have w: "sw_parent w = ?root" "sw_children w = []" "sw_storage w = None" "sw_properties w = fmempty" by (simp_all add: w_def default_window_def)
  have t': "snd (create_server_proxy_window kEwmhSupportingWindow t) =
    update_window ?root (\<lambda>root. root\<lparr>sw_children := sw_children root @ [kEwmhSupportingWindow]\<rparr>)
      (t\<lparr>rt_resources := emplace kEwmhSupportingWindow \<lparr>re_type = RT_Window, re_owner = None, re_payload = PL_Window w\<rparr> (rt_resources t)\<rparr>)"
    using None by (simp add: create_server_proxy_window_def Let_def w_def) (simp add: kEwmhSupportingWindow_def)
  have found: "find_resource y (t\<lparr>rt_resources := emplace kEwmhSupportingWindow \<lparr>re_type = RT_Window, re_owner = None, re_payload = PL_Window w\<rparr> (rt_resources t)\<rparr>) =
      (if y = kEwmhSupportingWindow then Some \<lparr>re_type = RT_Window, re_owner = None, re_payload = PL_Window w\<rparr> else find_resource y t)" for y
    using None by (simp add: find_resource_def emplace_def)
  show ?thesis unfolding t'
  proof (rule add_window [OF ok None _ r])
    show "kEwmhSupportingWindow \<noteq> 0" by (simp add: kEwmhSupportingWindow_def)
    show "cursor_fits late kEwmhSupportingWindow (sw_attributes w) t" by (simp add: w_def cursor_fits_def default_attributes_def)
    show "server_resource (rt_screen t) kEwmhSupportingWindow RT_Window" by (simp add: server_resource_def)
    show "owned_ids k (update_window ?root (\<lambda>root. root\<lparr>sw_children := sw_children root @ [kEwmhSupportingWindow]\<rparr>)
      (t\<lparr>rt_resources := emplace kEwmhSupportingWindow \<lparr>re_type = RT_Window, re_owner = None, re_payload = PL_Window w\<rparr> (rt_resources t)\<rparr>)) =
        (if None = Some k then owned_ids k t @ [kEwmhSupportingWindow] else owned_ids k t)" for k
      unfolding update_window_fields by (simp add: owned_ids_def)
  qed (use r ne in \<open>simp_all add: w find_update_window found fixed_fields_def update_window_fields\<close>)
qed

lemma update_screen_geometry_ok:
  assumes ok: "table_ok late t"
  shows "table_ok late (snd (update_screen_geometry screen t))"
proof (cases "snd (update_screen_geometry screen t) = t")
  case True
  then show ?thesis using ok by simp
next
  case False
  let ?root = "sm_root_window (rt_screen t)"
  let ?f = "\<lambda>root. root\<lparr>sw_width := sm_width_pixels screen, sw_height := sm_height_pixels screen\<rparr>"
  have same: "sm_root_window screen = ?root" "sm_default_colormap screen = sm_default_colormap (rt_screen t)"
    and t': "snd (update_screen_geometry screen t) = update_window ?root ?f (t\<lparr>rt_screen := screen\<rparr>)"
    using False by (auto simp: update_screen_geometry_def Let_def split: option.split_asm if_split_asm)
  have "frame (t\<lparr>rt_screen := screen\<rparr>) = frame t" "contents (t\<lparr>rt_screen := screen\<rparr>) = contents t"
    by (simp_all add: frame_def contents_def table_fields same)
  then have "table_ok late (t\<lparr>rt_screen := screen\<rparr>)" using ok structure_frame contents_frame unfolding table_ok_split by blast
  moreover have "quiet ?f" by (simp add: quiet_def)
  ultimately show ?thesis unfolding t' using quiet_table_ok(1) by blast
qed

section \<open>The stacking order\<close>

lemma position_member: "x \<in> set ys \<Longrightarrow> \<exists>i. position x ys = Some i"
  by (induction ys) auto

lemma reorder_permutes:
  assumes "xid \<in> set children" "distinct children" "\<And>s. sibling = Some s \<Longrightarrow> s \<in> set children \<and> s \<noteq> xid"
  shows "\<exists>children'. reorder_children xid mode sibling children = Some children' \<and> set children' = set children \<and> distinct children'"
proof (cases sibling)
  case None
  then show ?thesis using assms by (auto simp: reorder_children_def Let_def)
next
  case (Some s)
  let ?others = "filter (\<lambda>c. c \<noteq> xid) children"
  obtain i where i: "position s ?others = Some i" using assms(3) [OF Some] position_member [of s ?others] by auto
  define k where "k = (if mode = Stack_Above then Suc i else i)"
  have result: "reorder_children xid mode sibling children = Some (take k ?others @ [xid] @ drop k ?others)"
    by (simp add: reorder_children_def Some i k_def Let_def)
  have "mset (take k ?others) + mset (drop k ?others) = mset ?others" by (simp flip: mset_append)
  then have same: "mset (take k ?others @ [xid] @ drop k ?others) = mset (xid # ?others)" by simp
  have "set (take k ?others @ [xid] @ drop k ?others) = set (xid # ?others)" by (rule mset_eq_setD [OF same])
  moreover have "distinct (take k ?others @ [xid] @ drop k ?others)"
    using mset_eq_imp_distinct_iff [OF same] assms(2) by simp
  ultimately have "set (take k ?others @ [xid] @ drop k ?others) = set children" "distinct (take k ?others @ [xid] @ drop k ?others)"
    using assms(1) by auto
  then show ?thesis using result by blast
qed

text \<open>Another order of the children of one window.\<close>

lemma set_children_ok:
  assumes ok: "table_ok late t" and w: "find_window xid t = Some w" and children: "set children = set (sw_children w)" "distinct children"
  shows "table_ok late (update_window xid (\<lambda>w. w\<lparr>sw_children := children\<rparr>) t)"
proof -
  let ?f = "\<lambda>w. w\<lparr>sw_children := children\<rparr>"
  let ?t = "update_window xid ?f t"
  note upd = update_window_fields view_update_window [OF w] window_view [OF w]
  have parts: "typed t" "owners_ok t" "unowned_ok t" "root_ok t" "tree_ok t" "refs_ok t" "contents_ok late t"
    using ok by (simp_all add: table_ok_split structure_ok_def)
  have types: "view (Some \<circ> payload_type) ?t = view (Some \<circ> payload_type) t" by (simp add: upd fun_upd_idem)
  have links: "view as_links ?t = (view as_links t)(xid := Some (sw_parent w, children))" by (simp add: upd)
  have "typed ?t" "owners_ok ?t" "unowned_ok ?t" using parts(1-3) by (simp_all add: typed_def owners_ok_def unowned_ok_def update_window_fields types)
  moreover have "root_ok ?t" using parts(4) window_view [OF w, of as_links] by (auto simp: root_ok_def update_window_fields links)
  moreover have "tree_ok ?t"
    by (rule tree_reorder [OF parts(5) _ children links]) (simp_all add: window_view [OF w] update_window_fields)
  moreover have "refs_ok ?t"
  proof -
    have "view as_target ?t = view as_target t" by (simp add: upd fun_upd_idem)
    then show ?thesis using parts(6) by (simp add: refs_ok_def is_drawable_def types)
  qed
  moreover have "contents ?t = contents t"
    by (simp add: contents_def upd fun_upd_idem properties_ok_def window_property_bytes_def)
  then have "contents_ok late ?t" using contents_frame parts(7) by blast
  ultimately show ?thesis by (simp add: table_ok_split structure_ok_def)
qed

lemma resized_storage_fresh:
  "resized_storage allocation width height w = Inr storage \<Longrightarrow> storage = sw_storage w \<or> (\<exists>s. storage = Some s \<and> allocation = Some (sr_address s))"
proof (cases "sw_storage w")
  case (Some old)
  assume "resized_storage allocation width height w = Inr storage"
  then have "storage = Some old \<or> (\<exists>s. storage = Some s \<and> storage_create 4 allocation (ucast width) (ucast height) = Some s)"
    using Some by (auto simp: resized_storage_def split: option.split_asm if_split_asm)
  then show ?thesis unfolding Some by (auto dest: storage_created)
qed (simp add: resized_storage_def)

lemma configure_local_ok:
  assumes ok: "table_ok late t" and allocation: "fresh_address allocation t"
  shows "\<exists>status t'. configure_local allocation xid c t = Some (status, t') \<and> table_ok late t'"
proof (cases "\<exists>status. configure_local allocation xid c t = Some (status, t)")
  case True
  then show ?thesis using ok by blast
next
  case False
  then obtain w parent where w: "find_window xid t = Some w" and inner: "xid \<noteq> sm_root_window (rt_screen t)"
    and p: "find_window (sw_parent w) t = Some parent" and sibling: "\<not> bad_sibling xid w c t"
    by (auto simp: configure_local_def split: option.split_asm if_split_asm)
  define width where "width = (case lc_width c of None \<Rightarrow> sw_width w | Some v \<Rightarrow> ucast v)"
  define height where "height = (case lc_height c of None \<Rightarrow> sw_height w | Some v \<Rightarrow> ucast v)"
  obtain storage where storage: "resized_storage allocation width height w = Inr storage"
    using False w p sibling unfolding width_def height_def
    by (cases "resized_storage allocation (case lc_width c of None \<Rightarrow> sw_width w | Some v \<Rightarrow> ucast v)
        (case lc_height c of None \<Rightarrow> sw_height w | Some v \<Rightarrow> ucast v) w")
      (auto simp: configure_local_def Let_def split: if_split_asm)
  have member: "xid \<in> set (sw_children parent)" "distinct (sw_children parent)"
    using tree_parent [OF ok_parts(5) [OF ok] w inner] p by auto
  have siblings: "s \<in> set (sw_children parent) \<and> s \<noteq> xid" if chosen: "lc_sibling c = Some s" for s
  proof -
    obtain sw where s: "find_window s t = Some sw" "sw_parent sw = sw_parent w" "s \<noteq> xid"
      using sibling chosen by (auto simp: bad_sibling_def split: option.split_asm)
    have "s \<noteq> sm_root_window (rt_screen t)"
    proof
      assume "s = sm_root_window (rt_screen t)"
      then have "sw_parent w = 0" using ok_root [OF ok] s by auto
      then show False using p type_of_payload(2) [OF ok_parts(1) [OF ok]] by (auto simp: find_window_iff)
    qed
    then show ?thesis using tree_parent [OF ok_parts(5) [OF ok] s(1)] s(2,3) p by auto
  qed
  obtain children where children: "(if lc_stack_mode c = Stack_None then Some (sw_children parent)
      else reorder_children xid (lc_stack_mode c) (lc_sibling c) (sw_children parent)) = Some children"
    "set children = set (sw_children parent)" "distinct children"
    using reorder_permutes [OF member siblings, of "lc_sibling c" "lc_stack_mode c"] member(2)
    by (cases "lc_stack_mode c = Stack_None") auto
  let ?u = "update_window xid (configured_window c width height storage) t"
  have result: "\<exists>status. configure_local allocation xid c t =
      Some (status, update_window (sw_parent w) (\<lambda>p. p\<lparr>sw_children := children\<rparr>) ?u)"
    using False w p sibling storage children(1) unfolding width_def height_def
    by (auto simp: configure_local_def Let_def split: if_split_asm)
  have storages: "storage = sw_storage w \<or> (\<exists>s. storage = Some s \<and> fresh_address (Some (sr_address s)) t)"
    using resized_storage_fresh [OF storage] allocation by auto
  have "table_ok late ?u"
    by (rule update_ok [OF ok w]) (use storages in \<open>auto simp: configured_window_def Let_def\<close>)
  moreover have "\<exists>q. find_window (sw_parent w) ?u = Some q \<and> sw_children q = sw_children parent"
  proof (cases "sw_parent w = xid")
    case True
    then show ?thesis using p w by (auto simp: find_window_def find_update_window configured_window_def Let_def split: option.split_asm payload.split_asm)
  next
    case False
    then show ?thesis using p by (simp add: find_window_def find_update_window)
  qed
  then obtain q where "find_window (sw_parent w) ?u = Some q" "set children = set (sw_children q)" using children(2) by auto
  ultimately have "table_ok late (update_window (sw_parent w) (\<lambda>p. p\<lparr>sw_children := children\<rparr>) ?u)"
    using children(3) by (rule set_children_ok)
  with result show ?thesis by blast
qed

lemma append_visible_result:
  "append_visible visible result t = Some children \<Longrightarrow> distinct result \<Longrightarrow>
     children = result @ visible \<and> distinct children \<and> (\<forall>c \<in> set visible. is_policy_candidate c t)"
proof (induction visible arbitrary: result)
  case (Cons c visible)
  then have "append_visible visible (result @ [c]) t = Some children" "is_policy_candidate c t" "distinct (result @ [c])"
    by (auto split: if_split_asm)
  with Cons.IH [OF this(1,3)] show ?case by auto
qed simp

lemma reorder_root_children_ok:
  assumes ok: "table_ok late t"
  shows "table_ok late (snd (reorder_root_children visible t))"
proof -
  let ?root = "sm_root_window (rt_screen t)"
  obtain w where w: "find_window ?root t = Some w" and parent: "sw_parent w = 0" using ok_root [OF ok] by auto
  have distinct: "distinct (sw_children w)" using tree_links [OF ok_parts(5) [OF ok] w] by (simp add: window_linked_def)
  have "table_ok late (update_window ?root (\<lambda>w. w\<lparr>sw_children := children\<rparr>) t)"
    if "append_visible visible (filter (\<lambda>c. c \<notin> set visible) (sw_children w)) t = Some children" for children
  proof -
    have result: "children = filter (\<lambda>c. c \<notin> set visible) (sw_children w) @ visible" "distinct children"
      "\<forall>c \<in> set visible. is_policy_candidate c t"
      using append_visible_result [OF that distinct_filter [OF distinct]] by blast+
    have "c \<in> set (sw_children w)" if listed: "c \<in> set visible" for c
    proof -
      obtain cw where c: "find_window c t = Some cw" "sw_parent cw = ?root"
        using result(3) listed by (auto simp: is_policy_candidate_def split: option.split_asm)
      have "c \<noteq> ?root" using c w parent type_of_payload(2) [OF ok_parts(1) [OF ok]] by (auto simp: find_window_iff)
      then show ?thesis using tree_parent [OF ok_parts(5) [OF ok] c(1)] c(2) w by auto
    qed
    then have "set children = set (sw_children w)" using result(1) by auto
    then show ?thesis by (rule set_children_ok [OF ok w _ result(2)])
  qed
  then show ?thesis using ok w by (auto simp: reorder_root_children_def split: option.split)
qed

section \<open>Event selections\<close>

lemma event_selections_ok:
  assumes "table_ok late t"
  shows "table_ok late (snd (set_event_selection window client event_mask t))" "table_ok late (remove_event_selections client t)"
    "table_ok late (remove_gw_scale_selections client t)"
  using assms
  by (auto simp: set_event_selection_def remove_event_selections_def remove_gw_scale_selections_def quiet_table_ok quiet_def split: option.split)

end
