(* ===== verification/Srv_Map.thy ===== *)
theory Srv_Map
  imports Srv_Tree
begin

text \<open>
  The states of mapping: the recursion over the tree of windows returns, changes nothing but the states, and leaves
  every window in the state that its own request, the policy and the state of its parent give.
\<close>

section \<open>The tree as a relation\<close>

lemma child_parent: "(c, x) \<in> child_relation t \<longleftrightarrow> (\<exists>w. find_window x t = Some w \<and> c \<in> set (sw_children w))"
  by (auto simp: child_relation_def links_view)

lemma parent_of_child:
  assumes "tree_ok t" "(c, x) \<in> child_relation t"
  shows "\<exists>w. find_window c t = Some w \<and> sw_parent w = x"
proof -
  obtain w where w: "find_window x t = Some w" "c \<in> set (sw_children w)" using assms(2) by (auto simp: child_parent)
  then have "case find_window c t of None \<Rightarrow> False | Some cw \<Rightarrow> sw_parent cw = x"
    using tree_children [OF assms(1) w(1)] by (simp add: children_hold_def)
  then show ?thesis by (simp split: option.split_asm)
qed

lemma child_of_parent:
  "tree_ok t \<Longrightarrow> find_window c t = Some w \<Longrightarrow> c \<noteq> sm_root_window (rt_screen t) \<Longrightarrow> (c, sw_parent w) \<in> child_relation t"
  by (drule (2) tree_parent) (auto simp: child_parent)

lemma parent_unique: "tree_ok t \<Longrightarrow> single_valued (child_relation t)"
proof (rule single_valuedI)
  fix c x y
  assume "tree_ok t" "(c, x) \<in> child_relation t" "(c, y) \<in> child_relation t"
  from parent_of_child [OF this(1,2)] parent_of_child [OF this(1,3)] show "x = y" by auto
qed

text \<open>The subtrees of two children of one window have nothing in common.\<close>

lemma subtrees_disjoint:
  assumes ok: "tree_ok t" and c: "(c, x) \<in> child_relation t" and d: "(d, x) \<in> child_relation t" and ne: "c \<noteq> d"
    and "(y, c) \<in> (child_relation t)\<^sup>*" "(y, d) \<in> (child_relation t)\<^sup>*"
  shows False
proof -
  have acyclic: "acyclic (child_relation t)" using ok by (simp add: tree_ok_def wf_acyclic)
  have no: "False" if "(a, x) \<in> child_relation t" "(b, x) \<in> child_relation t" "a \<noteq> b" "(a, b) \<in> (child_relation t)\<^sup>*" for a b
  proof -
    from that(3,4) have "\<exists>z. (a, z) \<in> child_relation t \<and> (z, b) \<in> (child_relation t)\<^sup>*" by (auto elim: converse_rtranclE)
    then have "(x, b) \<in> (child_relation t)\<^sup>*" using parent_unique [OF ok] that(1) by (auto dest: single_valuedD)
    then have "(x, x) \<in> (child_relation t)\<^sup>+" using that(2) by auto
    then show False using acyclic by (simp add: acyclic_def)
  qed
  have "(c, d) \<in> (child_relation t)\<^sup>* \<or> (d, c) \<in> (child_relation t)\<^sup>*"
    using single_valued_confluent [OF parent_unique [OF ok] assms(5,6)] .
  then show False using no c d ne by blast
qed

text \<open>Every window is below the root.\<close>

lemma converse_wf: "tree_ok t \<Longrightarrow> wf ((child_relation t)\<inverse>)"
  by (rule finite_acyclic_wf_converse) (auto simp: tree_ok_def wf_acyclic intro: finite_subset [OF subset_UNIV])

lemma below_root:
  assumes ok: "tree_ok t"
  shows "find_window y t = Some w \<Longrightarrow> (y, sm_root_window (rt_screen t)) \<in> (child_relation t)\<^sup>*"
proof (induction y arbitrary: w rule: wf_induct_rule [OF converse_wf [OF ok]])
  case (1 y)
  show ?case
  proof (cases "y = sm_root_window (rt_screen t)")
    case False
    from child_of_parent [OF ok 1(2) this] have step: "(y, sw_parent w) \<in> child_relation t" .
    moreover obtain p where "find_window (sw_parent w) t = Some p" using tree_parent [OF ok 1(2) False] by auto
    ultimately show ?thesis using 1(1) by (auto intro: converse_rtrancl_into_rtrancl)
  qed simp
qed

section \<open>Tables that differ in states only\<close>

definition restate :: "map_state \<Rightarrow> resource \<Rightarrow> resource" where
  "restate state r = (case re_payload r of PL_Window w \<Rightarrow> r\<lparr>re_payload := PL_Window (w\<lparr>sw_map_state := state\<rparr>)\<rparr> | _ \<Rightarrow> r)"

definition restated :: "(u32 \<Rightarrow> map_state) \<Rightarrow> resource_table \<Rightarrow> resource_table" where
  "restated states t = t\<lparr>rt_resources := fmmap_keys (\<lambda>xid. restate (states xid)) (rt_resources t)\<rparr>"

lemma find_restated: "find_resource y (restated states t) = map_option (restate (states y)) (find_resource y t)"
  by (simp add: restated_def find_resource_def)

lemma restate_window [simp]: "re_payload r = PL_Window w \<Longrightarrow> restate state r = r\<lparr>re_payload := PL_Window (w\<lparr>sw_map_state := state\<rparr>)\<rparr>"
  by (simp add: restate_def)

lemma restate_other: "(\<And>w. re_payload r \<noteq> PL_Window w) \<Longrightarrow> restate state r = r"
  by (auto simp: restate_def split: payload.split)

text \<open>Two tables with the same resources and the same fields.\<close>

lemma same_table:
  assumes "\<And>y. find_resource y t = find_resource y t'" "t\<lparr>rt_resources := fmempty\<rparr> = t'\<lparr>rt_resources := fmempty\<rparr>"
  shows "t = t'"
proof -
  have "rt_resources t = rt_resources t'" by (rule fmap_ext) (use assms(1) in \<open>simp add: find_resource_def\<close>)
  then show ?thesis using assms(2) by (cases t; cases t') simp
qed

lemma window_restated [simp]: "find_window y (restated states t) = map_option (\<lambda>w. w\<lparr>sw_map_state := states y\<rparr>) (find_window y t)"
  by (auto simp: find_window_def find_restated restate_def split: option.splits payload.splits)

lemma restated_fields [simp]: "rt_screen (restated states t) = rt_screen t"
  by (simp add: restated_def)

lemma candidate_restated [simp]: "is_policy_candidate y (restated states t) = is_policy_candidate y t"
  by (auto simp: is_policy_candidate_def split: option.splits)

lemma update_restated:
  assumes "\<And>w. f w = w\<lparr>sw_map_state := s\<rparr>"
  shows "update_window xid f (restated states t) = restated (states(xid := s)) t"
proof (rule same_table)
  fix y
  show "find_resource y (update_window xid f (restated states t)) = find_resource y (restated (states(xid := s)) t)"
  proof (cases "find_resource y t")
    case (Some r)
    then show ?thesis
      by (cases "y = xid"; cases "re_payload r") (simp_all add: find_update_window find_restated restate_def assms)
  qed (auto simp: find_update_window find_restated)
next
  show "(update_window xid f (restated states t))\<lparr>rt_resources := fmempty\<rparr> = (restated (states(xid := s)) t)\<lparr>rt_resources := fmempty\<rparr>"
    by (simp add: update_window_def set_payload_def restated_def split: option.split)
qed

definition states_of :: "resource_table \<Rightarrow> u32 \<Rightarrow> map_state" where
  "states_of t y = (case find_window y t of None \<Rightarrow> Unmapped | Some w \<Rightarrow> sw_map_state w)"

lemma restated_same: "restated (states_of t) t = t"
proof (rule same_table)
  fix y
  show "find_resource y (restated (states_of t) t) = find_resource y t"
  proof (cases "find_resource y t")
    case (Some r)
    then show ?thesis
      by (cases "re_payload r") (simp_all add: find_restated restate_def states_of_def find_window_def)
  qed (simp add: find_restated)
qed (simp add: restated_def)

lemma restated_ok: "table_ok late (restated states t) \<longleftrightarrow> table_ok late t"
proof -
  have view: "view g (restated states t) = view g t" if "\<And>w s. g (PL_Window (w\<lparr>sw_map_state := s\<rparr>)) = g (PL_Window w)" for g :: "payload \<Rightarrow> 'z option"
    using that by (auto simp: fun_eq_iff view_def find_restated restate_def split: option.splits payload.splits)
  have kind: "kind (restated states t) = kind t"
    by (auto simp: fun_eq_iff kind_def find_restated restate_def option.map_comp comp_def intro!: option.map_cong split: payload.splits)
  have fixed: "fixed_fields (restated states t) = fixed_fields t" "owned_ids k (restated states t) = owned_ids k t" for k
    by (simp_all add: fixed_fields_def restated_def owned_ids_def)
  have "frame (restated states t) = frame t" using fixed(1) by (simp add: frame_def view kind fixed(2) fixed_fields_def)
  moreover have "contents (restated states t) = contents t"
    using fixed(1) by (simp add: contents_def view fixed_fields_def properties_ok_def window_property_bytes_def)
  ultimately show ?thesis using structure_frame contents_frame unfolding table_ok_split by blast
qed

section \<open>The recursion over the tree\<close>

text \<open>The states of a subtree, given whether the parent of its top is viewable.\<close>

definition settled_below :: "resource_table \<Rightarrow> u32 \<Rightarrow> bool \<Rightarrow> (u32 \<Rightarrow> map_state) \<Rightarrow> bool" where
  "settled_below t x visible states \<longleftrightarrow>
     (\<forall>w. find_window x t = Some w \<longrightarrow> states x = next_map_state (is_policy_candidate x t) visible w) \<and>
     (\<forall>y w. (y, x) \<in> (child_relation t)\<^sup>+ \<longrightarrow> find_window y t = Some w \<longrightarrow>
        states y = next_map_state (is_policy_candidate y t) (states (sw_parent w) = Viewable) w)"

lemma settled_below_cong:
  assumes ok: "tree_ok t" and same: "\<And>y. (y, x) \<in> (child_relation t)\<^sup>* \<Longrightarrow> states' y = states y" and settled: "settled_below t x visible states"
  shows "settled_below t x visible states'"
proof -
  have "states' y = next_map_state (is_policy_candidate y t) (states' (sw_parent w) = Viewable) w"
    if y: "(y, x) \<in> (child_relation t)\<^sup>+" "find_window y t = Some w" for y w
  proof -
    obtain z where z: "(y, z) \<in> child_relation t" "(z, x) \<in> (child_relation t)\<^sup>*" using y(1) by (auto dest: tranclD)
    then have "z = sw_parent w" using parent_of_child [OF ok z(1)] y(2) by auto
    then have "states' (sw_parent w) = states (sw_parent w)" "states' y = states y" using same z(2) y(1) by (auto dest: trancl_into_rtrancl)
    then show ?thesis using settled y by (simp add: settled_below_def)
  qed
  moreover have "states' x = states x" by (rule same) simp
  ultimately show ?thesis using settled by (simp add: settled_below_def)
qed

definition resettled :: "resource_table \<Rightarrow> u32 \<Rightarrow> bool \<Rightarrow> (u32 \<Rightarrow> map_state) \<Rightarrow> (u32 \<Rightarrow> map_state) \<Rightarrow> bool" where
  "resettled t x visible states states' \<longleftrightarrow> (\<forall>y. (y, x) \<notin> (child_relation t)\<^sup>* \<longrightarrow> states' y = states y) \<and> settled_below t x visible states'"

text \<open>The loop over the children of one window, when the recursion is right for each of them.\<close>

lemma recompute_children:
  assumes ok: "tree_ok t" and w: "find_window x t = Some w"
    and child: "\<And>c states. c \<in> set (sw_children w) \<Longrightarrow>
      \<exists>states'. recompute_map_states_from c visible (restated states t) = Some (restated states' t) \<and> resettled t c visible states states'"
  shows "\<exists>states'. fold_option (\<lambda>c u. recompute_map_states_from c visible u) (sw_children w) (restated states t) = Some (restated states' t) \<and>
    (\<forall>y. (\<forall>c \<in> set (sw_children w). (y, c) \<notin> (child_relation t)\<^sup>*) \<longrightarrow> states' y = states y) \<and>
    (\<forall>c \<in> set (sw_children w). settled_below t c visible states')"
proof -
  define P where "P done u \<longleftrightarrow> (\<exists>states'. u = restated states' t \<and>
    (\<forall>y. (\<forall>c \<in> set done. (y, c) \<notin> (child_relation t)\<^sup>*) \<longrightarrow> states' y = states y) \<and> (\<forall>c \<in> set done. settled_below t c visible states'))" for "done" u
  have distinct: "distinct (sw_children w)" using tree_links [OF ok w] by (simp add: window_linked_def)
  have "\<exists>u. fold_option (\<lambda>c u. recompute_map_states_from c visible u) (sw_children w) (restated states t) = Some u \<and> P (sw_children w) u"
  proof (rule fold_option_invariant)
    show "P [] (restated states t)" by (auto simp: P_def)
  next
    fix "done" c rest u
    assume split: "sw_children w = done @ c # rest" and "P done u"
    then obtain s where u: "u = restated s t" and outside: "\<And>y. \<forall>c \<in> set done. (y, c) \<notin> (child_relation t)\<^sup>* \<Longrightarrow> s y = states y"
      and settled: "\<forall>c \<in> set done. settled_below t c visible s" by (auto simp: P_def)
    obtain s' where s': "recompute_map_states_from c visible u = Some (restated s' t)" "resettled t c visible s s'"
      using child [of c s] split u by auto
    have "settled_below t d visible s'" if "d \<in> set done" for d
    proof (rule settled_below_cong [OF ok])
      fix y assume y: "(y, d) \<in> (child_relation t)\<^sup>*"
      have "(d, x) \<in> child_relation t" "(c, x) \<in> child_relation t" "d \<noteq> c" using that split w distinct by (auto simp: child_parent)
      then have "(y, c) \<notin> (child_relation t)\<^sup>*" using subtrees_disjoint [OF ok _ _ _ y] by blast
      then show "s' y = s y" using s'(2) by (simp add: resettled_def)
    qed (use settled that in auto)
    moreover have "settled_below t c visible s'" using s'(2) by (simp add: resettled_def)
    moreover have "s' y = states y" if "\<forall>d \<in> set (done @ [c]). (y, d) \<notin> (child_relation t)\<^sup>*" for y
      using that outside [of y] s'(2) by (simp add: resettled_def)
    ultimately show "\<exists>u'. recompute_map_states_from c visible u = Some u' \<and> P (done @ [c]) u'" using s'(1) by (auto simp: P_def)
  qed
  then show ?thesis by (auto simp: P_def)
qed

lemma next_state_restated [simp]: "next_map_state candidate visible (w\<lparr>sw_map_state := s\<rparr>) = next_map_state candidate visible w"
  by (simp add: next_map_state_def)

text \<open>A window and its children settle the subtree.\<close>

lemma below_window:
  assumes "find_window x t = Some w" "(y, x) \<in> (child_relation t)\<^sup>+"
  shows "\<exists>c \<in> set (sw_children w). (y, c) \<in> (child_relation t)\<^sup>*"
  using assms by (auto simp: child_parent dest!: tranclD2)

lemma settle_children:
  assumes ok: "tree_ok t" and w: "find_window x t = Some w" and state: "states x = next_map_state (is_policy_candidate x t) visible w"
    and children: "\<forall>c \<in> set (sw_children w). settled_below t c (states x = Viewable) states"
  shows "settled_below t x visible states"
proof -
  have "states y = next_map_state (is_policy_candidate y t) (states (sw_parent v) = Viewable) v"
    if y: "(y, x) \<in> (child_relation t)\<^sup>+" "find_window y t = Some v" for y v
  proof -
    obtain c where c: "c \<in> set (sw_children w)" "(y, c) \<in> (child_relation t)\<^sup>*" using below_window [OF w y(1)] by blast
    with children have settled: "settled_below t c (states x = Viewable) states" by blast
    show ?thesis
    proof (cases "y = c")
      case True
      have "sw_parent v = x" using parent_of_child [OF ok, of c x] c(1) w y(2) True by (auto simp: child_parent)
      then show ?thesis using settled y(2) True by (simp add: settled_below_def)
    next
      case False
      then have "(y, c) \<in> (child_relation t)\<^sup>+" using c(2) by (auto dest: rtranclD)
      then show ?thesis using settled y(2) by (simp add: settled_below_def)
    qed
  qed
  then show ?thesis using w state by (simp add: settled_below_def)
qed

lemma child_below: "find_window x t = Some w \<Longrightarrow> c \<in> set (sw_children w) \<Longrightarrow> (y, c) \<in> (child_relation t)\<^sup>* \<Longrightarrow> (y, x) \<in> (child_relation t)\<^sup>+"
  by (auto simp: child_parent intro: rtrancl_into_trancl1)

lemma tree_wf: "tree_ok t \<Longrightarrow> wf (child_relation t)"
  by (simp add: tree_ok_def)

lemma acyclic_tree: "tree_ok t \<Longrightarrow> (x, x) \<notin> (child_relation t)\<^sup>+"
  using wf_acyclic by (auto simp: tree_ok_def acyclic_def)

lemma recompute_from:
  assumes ok: "tree_ok t"
  shows "\<exists>states'. recompute_map_states_from x visible (restated states t) = Some (restated states' t) \<and> resettled t x visible states states'"
proof (induction x arbitrary: visible states rule: wf_induct_rule [OF tree_wf [OF ok]])
  case (1 x)
  show ?case
  proof (cases "find_window x t")
    case None
    then have "(y, x) \<notin> (child_relation t)\<^sup>+" for y by (auto simp: child_parent dest!: tranclD2)
    then show ?thesis using None
      by (subst recompute_map_states_from.simps) (auto simp: resettled_def settled_below_def)
  next
    case (Some w)
    define state where "state = next_map_state (is_policy_candidate x t) visible w"
    let ?s = "states(x := state)"
    have "\<exists>s'. fold_option (\<lambda>c u. recompute_map_states_from c (state = Viewable) u) (sw_children w) (restated ?s t) = Some (restated s' t) \<and>
      (\<forall>y. (\<forall>c \<in> set (sw_children w). (y, c) \<notin> (child_relation t)\<^sup>*) \<longrightarrow> s' y = ?s y) \<and>
      (\<forall>c \<in> set (sw_children w). settled_below t c (state = Viewable) s')"
      by (rule recompute_children [OF ok Some]) (use 1 Some in \<open>auto simp: child_parent\<close>)
    then obtain s' where s': "fold_option (\<lambda>c u. recompute_map_states_from c (state = Viewable) u) (sw_children w) (restated ?s t) = Some (restated s' t)"
      and outside: "\<And>y. \<forall>c \<in> set (sw_children w). (y, c) \<notin> (child_relation t)\<^sup>* \<Longrightarrow> s' y = ?s y"
      and settled: "\<forall>c \<in> set (sw_children w). settled_below t c (state = Viewable) s'" by blast
    have result: "recompute_map_states_from x visible (restated states t) = Some (restated s' t)"
      using s' Some by (subst recompute_map_states_from.simps) (simp add: update_restated state_def [symmetric] Let_def)
    have self: "s' x = state" using outside [of x] child_below [OF Some] acyclic_tree [OF ok] by auto
    have "s' y = states y" if "(y, x) \<notin> (child_relation t)\<^sup>*" for y
    proof -
      have "\<forall>c \<in> set (sw_children w). (y, c) \<notin> (child_relation t)\<^sup>*"
        using that child_below [OF Some] by (blast dest: trancl_into_rtrancl)
      moreover have "y \<noteq> x" using that by auto
      ultimately show ?thesis using outside [of y] by simp
    qed
    moreover have "settled_below t x visible s'"
      by (rule settle_children [OF ok Some]) (use self settled in \<open>simp_all add: state_def\<close>)
    ultimately show ?thesis using result by (auto simp: resettled_def)
  qed
qed

section \<open>Tables whose states are right\<close>

text \<open>Every window but the root is in the state its request, the policy and its parent give; the root is viewable.\<close>

definition maps_ok :: "resource_table \<Rightarrow> bool" where
  "maps_ok t \<longleftrightarrow> states_of t (sm_root_window (rt_screen t)) = Viewable \<and>
     (\<forall>y w. find_window y t = Some w \<longrightarrow> y \<noteq> sm_root_window (rt_screen t) \<longrightarrow>
        sw_map_state w = next_map_state (is_policy_candidate y t) (states_of t (sw_parent w) = Viewable) w)"

text \<open>A window that asks to be shown, and is allowed to.\<close>

definition shown :: "resource_table \<Rightarrow> u32 \<Rightarrow> bool" where
  "shown t y \<longleftrightarrow> (case find_window y t of None \<Rightarrow> False | Some w \<Rightarrow> sw_map_requested w \<and> (is_policy_candidate y t \<longrightarrow> sw_policy_visible w))"

lemma states_restated: "find_window y t \<noteq> None \<Longrightarrow> states_of (restated states t) y = states y"
  by (auto simp: states_of_def)

lemma maps_restated:
  assumes ok: "table_ok late t"
  shows "maps_ok (restated states t) \<longleftrightarrow> states (sm_root_window (rt_screen t)) = Viewable \<and>
     (\<forall>y w. find_window y t = Some w \<longrightarrow> y \<noteq> sm_root_window (rt_screen t) \<longrightarrow>
        states y = next_map_state (is_policy_candidate y t) (states (sw_parent w) = Viewable) w)"
proof -
  let ?root = "sm_root_window (rt_screen t)"
  have root: "states_of (restated states t) ?root = states ?root"
    using ok_root [OF ok] by (intro states_restated) auto
  have parent: "states_of (restated states t) (sw_parent w) = states (sw_parent w)"
    if "find_window y t = Some w" "y \<noteq> ?root" for y w
    using tree_parent [OF ok_parts(5) [OF ok] that] by (intro states_restated) auto
  show ?thesis
  proof
    assume maps: "maps_ok (restated states t)"
    have "states y = next_map_state (is_policy_candidate y t) (states (sw_parent w) = Viewable) w"
      if y: "find_window y t = Some w" "y \<noteq> ?root" for y w
    proof -
      have "find_window y (restated states t) = Some (w\<lparr>sw_map_state := states y\<rparr>)" using y by simp
      then have "sw_map_state (w\<lparr>sw_map_state := states y\<rparr>) = next_map_state (is_policy_candidate y (restated states t))
          (states_of (restated states t) (sw_parent (w\<lparr>sw_map_state := states y\<rparr>)) = Viewable) (w\<lparr>sw_map_state := states y\<rparr>)"
        using maps y(2) unfolding maps_ok_def restated_fields by blast
      then show ?thesis using parent [OF y] by simp
    qed
    then show "states ?root = Viewable \<and> (\<forall>y w. find_window y t = Some w \<longrightarrow> y \<noteq> ?root \<longrightarrow>
        states y = next_map_state (is_policy_candidate y t) (states (sw_parent w) = Viewable) w)"
      using maps root by (simp add: maps_ok_def)
  next
    assume right: "states ?root = Viewable \<and> (\<forall>y w. find_window y t = Some w \<longrightarrow> y \<noteq> ?root \<longrightarrow>
        states y = next_map_state (is_policy_candidate y t) (states (sw_parent w) = Viewable) w)"
    have "sw_map_state v = next_map_state (is_policy_candidate y (restated states t)) (states_of (restated states t) (sw_parent v) = Viewable) v"
      if v: "find_window y (restated states t) = Some v" "y \<noteq> ?root" for y v
    proof -
      obtain w where w: "find_window y t = Some w" "v = w\<lparr>sw_map_state := states y\<rparr>" using v(1) by auto
      then show ?thesis using right v(2) parent [OF w(1) v(2)] by simp
    qed
    then show "maps_ok (restated states t)" using right root by (simp add: maps_ok_def)
  qed
qed

text \<open>Such a table shows exactly the windows that ask for it together with all the windows around them.\<close>

lemma maps_viewable:
  assumes ok: "table_ok late t" and maps: "maps_ok t"
  shows "find_window y t = Some w \<Longrightarrow> (sw_map_state w = Viewable \<longleftrightarrow>
      (\<forall>z. (y, z) \<in> (child_relation t)\<^sup>* \<longrightarrow> z \<noteq> sm_root_window (rt_screen t) \<longrightarrow> shown t z))"
proof (induction y arbitrary: w rule: wf_induct_rule [OF converse_wf [OF ok_parts(5) [OF ok]]])
  case (1 y)
  let ?root = "sm_root_window (rt_screen t)"
  note tree = ok_parts(5) [OF ok]
  obtain r where r: "find_window ?root t = Some r" "sw_parent r = 0" using ok_root [OF ok] by auto
  show ?case
  proof (cases "y = ?root")
    case True
    have "z = ?root" if "(?root, z) \<in> (child_relation t)\<^sup>*" for z
    proof (rule ccontr)
      assume "z \<noteq> ?root"
      with that obtain x where x: "(?root, x) \<in> child_relation t" by (auto elim: converse_rtranclE)
      then have "x = 0" using parent_of_child [OF tree x] r by auto
      then show False using x type_of_payload(2) [OF ok_parts(1) [OF ok]] by (auto simp: child_parent find_window_iff)
    qed
    then show ?thesis using maps 1(2) True by (auto simp: maps_ok_def states_of_def)
  next
    case False
    obtain p where p: "find_window (sw_parent w) t = Some p" using tree_parent [OF tree 1(2) False] by auto
    have step: "(y, sw_parent w) \<in> child_relation t" by (rule child_of_parent [OF tree 1(2) False])
    have up: "(y, z) \<in> (child_relation t)\<^sup>* \<longleftrightarrow> z = y \<or> (sw_parent w, z) \<in> (child_relation t)\<^sup>*" for z
    proof
      assume "(y, z) \<in> (child_relation t)\<^sup>*"
      then show "z = y \<or> (sw_parent w, z) \<in> (child_relation t)\<^sup>*"
        using single_valuedD [OF parent_unique [OF tree] step] by (auto elim: converse_rtranclE)
    qed (use step in \<open>auto intro: converse_rtrancl_into_rtrancl\<close>)
    have "sw_map_state p = Viewable \<longleftrightarrow> (\<forall>z. (sw_parent w, z) \<in> (child_relation t)\<^sup>* \<longrightarrow> z \<noteq> ?root \<longrightarrow> shown t z)"
      using 1(1) step p by auto
    moreover have "sw_map_state w = next_map_state (is_policy_candidate y t) (sw_map_state p = Viewable) w"
      using maps 1(2) False p by (auto simp: maps_ok_def states_of_def)
    ultimately show ?thesis using 1(2) False by (auto simp: up next_map_state_def shown_def)
  qed
qed

lemma maps_unmapped:
  assumes "maps_ok t" "find_window y t = Some w" "y \<noteq> sm_root_window (rt_screen t)"
  shows "sw_map_state w = Unmapped \<longleftrightarrow> \<not> shown t y"
  using assms by (auto simp: maps_ok_def next_map_state_def shown_def)

section \<open>The operations\<close>

lemma recompute_root:
  assumes ok: "table_ok late t"
  shows "\<exists>states. recompute_map_states (sm_root_window (rt_screen t)) t = Some (restated states t) \<and> maps_ok (restated states t)"
proof -
  let ?root = "sm_root_window (rt_screen t)"
  note tree = ok_parts(5) [OF ok]
  obtain r where r: "find_window ?root t = Some r" using ok_root [OF ok] by auto
  let ?s = "(states_of t)(?root := Viewable)"
  have "\<exists>s'. fold_option (\<lambda>c u. recompute_map_states_from c True u) (sw_children r) (restated ?s t) = Some (restated s' t) \<and>
      (\<forall>y. (\<forall>c \<in> set (sw_children r). (y, c) \<notin> (child_relation t)\<^sup>*) \<longrightarrow> s' y = ?s y) \<and>
      (\<forall>c \<in> set (sw_children r). settled_below t c True s')"
    by (rule recompute_children [OF tree r recompute_from [OF tree]])
  then obtain s' where s': "fold_option (\<lambda>c u. recompute_map_states_from c True u) (sw_children r) (restated ?s t) = Some (restated s' t)"
    and outside: "\<And>y. \<forall>c \<in> set (sw_children r). (y, c) \<notin> (child_relation t)\<^sup>* \<Longrightarrow> s' y = ?s y"
    and settled: "\<forall>c \<in> set (sw_children r). settled_below t c True s'" by blast
  have start: "update_window ?root (\<lambda>w. w\<lparr>sw_map_state := Viewable\<rparr>) t = restated ?s t"
    using update_restated [of "\<lambda>w. w\<lparr>sw_map_state := Viewable\<rparr>" Viewable ?root "states_of t" t] by (simp add: restated_same)
  have result: "recompute_map_states ?root t = Some (restated s' t)"
    using s' r by (simp add: recompute_map_states_def start)
  have root: "s' ?root = Viewable" using outside [of ?root] child_below [OF r] acyclic_tree [OF tree] by auto
  have "s' y = next_map_state (is_policy_candidate y t) (s' (sw_parent w) = Viewable) w"
    if y: "find_window y t = Some w" "y \<noteq> ?root" for y w
  proof -
    have "(y, ?root) \<in> (child_relation t)\<^sup>+" using below_root [OF tree y(1)] y(2) by (auto dest: rtranclD)
    then obtain c where c: "c \<in> set (sw_children r)" "(y, c) \<in> (child_relation t)\<^sup>*" using below_window [OF r] by blast
    show ?thesis
    proof (cases "y = c")
      case True
      have "sw_parent w = ?root" using parent_of_child [OF tree, of c ?root] c(1) r y(1) True by (auto simp: child_parent)
      then show ?thesis using settled c(1) True y(1) root by (auto simp: settled_below_def)
    next
      case False
      then have "(y, c) \<in> (child_relation t)\<^sup>+" using c(2) by (auto dest: rtranclD)
      then show ?thesis using settled c(1) y(1) by (auto simp: settled_below_def)
    qed
  qed
  then have "maps_ok (restated s' t)" using root by (simp add: maps_restated [OF ok])
  with result show ?thesis by blast
qed

text \<open>The subtree of one window, when the states around it are right.\<close>

lemma recompute_window:
  assumes ok: "table_ok late t" and w: "find_window x t = Some w" and inner: "x \<noteq> sm_root_window (rt_screen t)"
    and root: "states_of t (sm_root_window (rt_screen t)) = Viewable"
    and others: "\<And>y v. find_window y t = Some v \<Longrightarrow> y \<noteq> sm_root_window (rt_screen t) \<Longrightarrow> y \<noteq> x \<Longrightarrow>
      sw_map_state v = next_map_state (is_policy_candidate y t) (states_of t (sw_parent v) = Viewable) v"
  shows "\<exists>states. recompute_map_states x t = Some (restated states t) \<and> maps_ok (restated states t)"
proof -
  let ?root = "sm_root_window (rt_screen t)"
  note tree = ok_parts(5) [OF ok]
  obtain p where p: "find_window (sw_parent w) t = Some p" using tree_parent [OF tree w inner] by auto
  let ?visible = "states_of t (sw_parent w) = Viewable"
  obtain s' where s': "recompute_map_states_from x ?visible (restated (states_of t) t) = Some (restated s' t)" "resettled t x ?visible (states_of t) s'"
    using recompute_from [OF tree] by blast
  have result: "recompute_map_states x t = Some (restated s' t)"
    using s'(1) w p inner by (simp add: recompute_map_states_def restated_same states_of_def)
  have outside: "s' y = states_of t y" if "(y, x) \<notin> (child_relation t)\<^sup>*" for y using s'(2) that by (simp add: resettled_def)
  have below: "(y, x) \<notin> (child_relation t)\<^sup>*" if "y = ?root" for y
  proof
    assume "(y, x) \<in> (child_relation t)\<^sup>*"
    then have "(?root, x) \<in> (child_relation t)\<^sup>+" using that inner by (auto dest: rtranclD)
    moreover have "(x, ?root) \<in> (child_relation t)\<^sup>*" by (rule below_root [OF tree w])
    ultimately show False using acyclic_tree [OF tree] by (auto dest: trancl_rtrancl_trancl)
  qed
  have "s' y = next_map_state (is_policy_candidate y t) (s' (sw_parent v) = Viewable) v"
    if y: "find_window y t = Some v" "y \<noteq> ?root" for y v
  proof (cases "(y, x) \<in> (child_relation t)\<^sup>*")
    case False
    have "(sw_parent v, x) \<notin> (child_relation t)\<^sup>*"
      using False child_of_parent [OF tree y] by (auto intro: converse_rtrancl_into_rtrancl)
    then have "s' (sw_parent v) = states_of t (sw_parent v)" "s' y = sw_map_state v"
      using outside False y(1) by (auto simp: states_of_def)
    then show ?thesis using others [OF y] False by auto
  next
    case True
    show ?thesis
    proof (cases "y = x")
      case True
      have "(sw_parent w, x) \<notin> (child_relation t)\<^sup>*"
        using child_of_parent [OF tree w inner] acyclic_tree [OF tree, of x] by (auto intro: rtrancl_into_trancl2)
      then have "s' (sw_parent w) = states_of t (sw_parent w)" by (rule outside)
      then show ?thesis using s'(2) w y(1) True by (auto simp: resettled_def settled_below_def)
    next
      case False
      then have "(y, x) \<in> (child_relation t)\<^sup>+" using True by (auto dest: rtranclD)
      then show ?thesis using s'(2) y(1) by (simp add: resettled_def settled_below_def)
    qed
  qed
  moreover have "s' ?root = Viewable" using outside [OF below [OF refl]] root by simp
  ultimately have "maps_ok (restated s' t)" by (simp add: maps_restated [OF ok])
  with result show ?thesis by blast
qed

lemma set_local_map_intent_ok:
  assumes ok: "table_ok late t"
  shows "\<exists>status t'. set_local_map_intent xid mapped t = Some (status, t') \<and> table_ok late t'"
proof (cases "find_window xid t = None \<or> xid = sm_root_window (rt_screen t) \<or> is_policy_candidate xid t")
  case True
  then show ?thesis using ok by (auto simp: set_local_map_intent_def split: option.split)
next
  case False
  then obtain w where w: "find_window xid t = Some w" by auto
  let ?f = "\<lambda>w. w\<lparr>sw_map_requested := mapped\<rparr>"
  let ?u = "update_window xid ?f t"
  have u: "table_ok late ?u" using ok quiet_table_ok(1) [of ?f] by (simp add: quiet_def)
  obtain v where v: "find_window xid ?u = Some v" using w by (auto simp: find_window_def find_update_window split: option.splits payload.splits)
  have "\<exists>states. recompute_map_states xid ?u = Some (restated states ?u)"
    using False v recompute_from [OF ok_parts(5) [OF u], of xid _ "states_of ?u"]
    by (auto simp: recompute_map_states_def update_window_fields restated_same split: option.split)
  then show ?thesis using False w u restated_ok by (auto simp: set_local_map_intent_def)
qed

end
