(* ===== verification/Srv_Destroy.thy ===== *)
theory Srv_Destroy
  imports Srv_Map
begin

text \<open>
  The destruction of windows keeps the invariant, returns, and takes away exactly a subtree, with the damage and the
  pictures of its windows.
\<close>

section \<open>A window without children\<close>

lemma remove_child_filter: "distinct children \<Longrightarrow> remove_child xid children = filter (\<lambda>c. c \<noteq> xid) children"
proof (cases "children \<noteq> [] \<and> last children = xid")
  case True
  assume distinct: "distinct children"
  obtain rest where rest: "children = rest @ [xid]" using True append_butlast_last_id [of children] by metis
  then have "filter (\<lambda>c. c \<noteq> xid) rest = rest" using distinct by (auto simp: filter_id_conv)
  then show ?thesis using rest by (simp add: remove_child_def)
next
  case False
  assume "distinct children"
  moreover have "(\<noteq>) xid = (\<lambda>c. c \<noteq> xid)" by auto
  ultimately show ?thesis using False by (auto simp: remove_child_def distinct_remove1_removeAll removeAll_filter_not_eq)
qed

text \<open>What is left of a resource when some windows are gone.\<close>

definition without :: "u32 set \<Rightarrow> resource \<Rightarrow> resource" where
  "without gone r =
     (case re_payload r of
        PL_Window w \<Rightarrow> r\<lparr>re_payload := PL_Window (w\<lparr>sw_children := filter (\<lambda>c. c \<notin> gone) (sw_children w)\<rparr>)\<rparr>
      | _ \<Rightarrow> r)"

text \<open>What is left of a table: the windows, their damage and their pictures are gone.\<close>

definition surviving :: "u32 set \<Rightarrow> resource_table \<Rightarrow> u32 \<Rightarrow> resource option" where
  "surviving gone t y =
     (if y \<in> gone \<or> view as_target t y \<in> Some ` gone then None else map_option (without gone) (find_resource y t))"

lemma without_fields [simp]: "re_type (without gone r) = re_type r" "re_owner (without gone r) = re_owner r"
  by (simp_all add: without_def split: payload.split)

lemma without_none: "(\<And>w. re_payload r = PL_Window w \<Longrightarrow> \<forall>c \<in> set (sw_children w). c \<notin> gone) \<Longrightarrow> without gone r = r"
proof (cases "re_payload r")
  case (PL_Window w)
  assume "\<And>w. re_payload r = PL_Window w \<Longrightarrow> \<forall>c \<in> set (sw_children w). c \<notin> gone"
  then have "filter (\<lambda>c. c \<notin> gone) (sw_children w) = sw_children w" using PL_Window by (auto simp: filter_id_conv)
  then show ?thesis using PL_Window by (cases r) (simp add: without_def)
qed (simp_all add: without_def)

lemma without_twice: "without b (without a r) = without (a \<union> b) r"
  by (cases "re_payload r") (auto simp: without_def intro: filter_cong)

lemma without_target [simp]: "as_target (re_payload (without gone r)) = as_target (re_payload r)"
  by (cases "re_payload r") (simp_all add: without_def)

definition leafless :: "u32 \<Rightarrow> server_window \<Rightarrow> resource_table \<Rightarrow> resource_table" where
  "leafless xid w t =
     (disown xid (update_window (sw_parent w) (\<lambda>p. p\<lparr>sw_children := remove_child xid (sw_children p)\<rparr>) (unreferenced xid t)))
       \<lparr>rt_property_bytes := rt_property_bytes t - window_property_bytes w\<rparr>"

lemma destroy_leaf_table:
  "find_window xid t = Some w \<Longrightarrow> xid \<noteq> sm_root_window (rt_screen t) \<Longrightarrow> snd (destroy_leaf xid (counts, t)) = leafless xid w t"
  using unreferenced_fields(3) [of xid t]
  by (cases "remove_damage_for_drawable xid t"; cases "remove_pictures_for_drawable xid (snd (remove_damage_for_drawable xid t))")
    (simp add: destroy_leaf_def leafless_def unreferenced_def Let_def disown_fields update_window_fields)

lemma window_unreferenced: "find_window y (unreferenced xid t) = find_window y t"
  by (simp add: find_window_view view_unreferenced)

text \<open>The change of a table, once nothing refers to the window.\<close>

lemma remove_window:
  assumes ok: "table_ok late t" and w: "find_window xid t = Some w" "sw_children w = []" and inner: "xid \<noteq> sm_root_window (rt_screen t)"
    and free: "\<And>y. view as_target t y \<noteq> Some xid"
  shows "table_ok late ((disown xid (update_window (sw_parent w) (\<lambda>p. p\<lparr>sw_children := remove_child xid (sw_children p)\<rparr>) t))
    \<lparr>rt_property_bytes := rt_property_bytes t - window_property_bytes w\<rparr>)" (is "table_ok late ?t")
proof -
  let ?f = "\<lambda>p. p\<lparr>sw_children := remove_child xid (sw_children p)\<rparr>"
  let ?u = "update_window (sw_parent w) ?f t"
  have parts: "typed t" "owners_ok t" "unowned_ok t" "root_ok t" "tree_ok t" "refs_ok t" "payloads_ok t" "cursors_ok late t" "storages_ok t"
    "sums_ok t" "within_limits t" using ok by (simp_all add: table_parts)
  obtain p where p: "find_window (sw_parent w) t = Some p" "xid \<in> set (sw_children p)" "distinct (sw_children p)"
    using tree_parent [OF parts(5) w(1) inner] by auto
  then have ne: "sw_parent w \<noteq> xid" using w by auto
  have view: "view g ?t = (view g t)(sw_parent w := g (PL_Window (?f p)), xid := None)" for g :: "payload \<Rightarrow> 'z option"
    by (simp add: table_fields view_disown view_update_window [OF p(1)])
  have same: "view g ?t = (view g t)(xid := None)" if "g (PL_Window (?f p)) = g (PL_Window p)" for g :: "payload \<Rightarrow> 'z option"
    using that by (simp add: view fun_upd_idem window_view [OF p(1)])
  have gone: "view g ?t = view g t" if "g (PL_Window (?f p)) = g (PL_Window p)" "g (PL_Window w) = None" for g :: "payload \<Rightarrow> 'z option"
    using same [OF that(1)] that(2) by (simp add: fun_upd_idem window_view [OF w(1)])
  have kind: "kind ?t = (kind t)(xid := None)" by (simp add: table_fields kind_disown update_window_fields)
  have owners: "owners_ok ?u" using parts(2) by (simp add: owners_ok_def update_window_fields)
  have owned: "owned_ids k ?t = filter (\<lambda>i. i \<noteq> xid) (owned_ids k t)" for k
    using owned_disown [OF owners] by (simp add: table_fields update_window_fields)
  have fixed: "rt_screen ?t = rt_screen t" "rt_limits ?t = rt_limits t" "rt_property_bytes ?t = rt_property_bytes t - window_property_bytes w"
    "rt_drawable_bytes ?t = rt_drawable_bytes t" "rt_cursor_bytes ?t = rt_cursor_bytes t" "rt_root_cursor ?t = rt_root_cursor t"
    by (simp_all add: disown_fields update_window_fields)
  have links: "view as_links t (sw_parent w) = Some (sw_parent p, sw_children p)" "view as_links t xid = Some (sw_parent w, [])"
    using w by (simp_all add: window_view [OF p(1)] window_view [OF w(1)])
  have removed: "set (remove_child xid (sw_children p)) = set (sw_children p) - {xid}" "distinct (remove_child xid (sw_children p))"
    using p(3) by (auto simp: remove_child_filter)
  have "typed ?t" using parts(1) by (simp add: typed_def kind same)
  moreover have "owners_ok ?t" using parts(2) by (auto simp: owners_ok_def owned kind)
  moreover have "unowned_ok ?t" using parts(3) by (simp add: unowned_ok_def kind fixed)
  moreover have "kind t xid \<noteq> Some (RT_Colormap, None)" using found_kind [OF parts(1) w(1)] by auto
  then have "root_ok ?t"
    using parts(4) inner links(1) by (auto simp: root_ok_def kind fixed view)
  moreover have "tree_ok ?t"
  proof (rule tree_remove [OF parts(5) links(2,1) removed _ _ inner])
    show "view as_links ?t = (view as_links t)(sw_parent w := Some (sw_parent p, remove_child xid (sw_children p)), xid := None)"
      by (simp add: view)
  qed (simp add: fixed)
  moreover have "refs_ok ?t"
  proof -
    have "is_drawable ?t d" if "view as_target t y = Some d" for y d
      using parts(6) that free [of y] by (auto simp: refs_ok_def is_drawable_def same)
    moreover have "view as_target ?t = view as_target t" by (rule gone) simp_all
    ultimately show ?thesis by (simp add: refs_ok_def)
  qed
  moreover have "payloads_ok ?t"
  proof -
    have "payload_ok (rt_limits t) (PL_Window (?f p))"
      using window_properties_ok [OF ok p(1)] by (simp add: properties_ok_def)
    then show ?thesis using parts(7) by (simp add: payloads_ok_def view fixed)
  qed
  moreover have "cursors_ok late ?t"
  proof -
    have "view as_cursor ?t = (view as_cursor t)(xid := None)" "view as_image ?t = view as_image t"
      using same [of as_cursor] gone [of as_image] by simp_all
    then show ?thesis using parts(8) by (simp add: cursors_ok_def)
  qed
  moreover have "storages_ok ?t"
  proof -
    have "view as_block ?t = (view as_block t)(xid := None)" by (rule same) simp
    moreover have "ran ((view as_block t)(xid := None)) \<subseteq> ran (view as_block t)" by (auto simp: ran_def)
    ultimately show ?thesis using parts(9) by (auto simp: storages_ok_def intro: inj_on_subset)
  qed
  moreover have "sums_ok ?t"
  proof -
    have "view as_property_bytes ?t = (view as_property_bytes t)(xid := None)" by (rule same) (simp add: window_property_bytes_def)
    then have "sum_view (view as_property_bytes ?t) + window_property_bytes w = sum_view (view as_property_bytes t)"
      using sum_view_upd [of "view as_property_bytes t" xid None] by (simp add: window_view [OF w(1)])
    then have property: "sum_view (view as_property_bytes ?t) = sum_view (view as_property_bytes t) - window_property_bytes w" by simp
    have others: "view as_cursor_bytes ?t = view as_cursor_bytes t" "view as_pixmap ?t = view as_pixmap t"
      by (rule gone; simp)+
    show ?thesis unfolding sums_ok_def drawable_bytes_def fixed property others
      using parts(10) by (simp add: sums_ok_def drawable_bytes_def)
  qed
  moreover have "within_limits ?t" using parts(11) by (auto simp: within_limits_def fixed)
  ultimately show ?thesis by (simp add: table_parts)
qed

lemma leafless_ok:
  assumes ok: "table_ok late t" and w: "find_window xid t = Some w" "sw_children w = []" and inner: "xid \<noteq> sm_root_window (rt_screen t)"
  shows "table_ok late (leafless xid w t)"
proof -
  have "find_window xid (unreferenced xid t) = Some w" using w by (simp add: window_unreferenced)
  from remove_window [OF unreferenced_ok [OF ok] this w(2)] show ?thesis
    using inner unreferenced_target by (simp add: leafless_def unreferenced_fields)
qed

lemma leafless_fields: "rt_screen (leafless xid w t) = rt_screen t" "rt_limits (leafless xid w t) = rt_limits t"
  by (simp_all add: leafless_def disown_fields update_window_fields unreferenced_fields)

lemma find_leafless:
  assumes ok: "table_ok late t" and w: "find_window xid t = Some w" and inner: "xid \<noteq> sm_root_window (rt_screen t)"
  shows "find_resource y (leafless xid w t) = surviving {xid} t y"
proof -
  note tree = ok_parts(5) [OF ok]
  let ?f = "\<lambda>p. p\<lparr>sw_children := remove_child xid (sw_children p)\<rparr>"
  have found: "find_resource y (leafless xid w t) = (if y = xid then None else find_resource y (update_window (sw_parent w) ?f (unreferenced xid t)))"
    by (simp add: leafless_def find_resource_def find_disown [unfolded find_resource_def])
  show ?thesis
  proof (cases "y = xid \<or> view as_target t y = Some xid \<or> find_resource y t = None")
    case True
    then show ?thesis
      unfolding found by (auto simp: surviving_def find_update_window find_unreferenced)
  next
    case False
    then obtain r where r: "find_resource y t = Some r" by auto
    have kept: "find_resource y (update_window (sw_parent w) ?f (unreferenced xid t)) = Some (without {xid} r)"
    proof (cases "re_payload r")
      case (PL_Window v)
      then have v: "find_window y t = Some v" using r by (simp add: find_window_iff)
      have distinct: "distinct (sw_children v)" using tree_links [OF tree v] by (simp add: window_linked_def)
      have "xid \<in> set (sw_children v) \<Longrightarrow> y = sw_parent w"
        using parent_of_child [OF tree, of xid y] v w by (auto simp: child_parent)
      then have other: "without {xid} r = r" if "y \<noteq> sw_parent w" using that PL_Window by (intro without_none) auto
      have "(\<lambda>c. c \<noteq> xid) = (\<lambda>c. c \<notin> {xid})" by auto
      then show ?thesis using False r PL_Window other distinct
        by (cases "y = sw_parent w") (simp_all add: find_update_window find_unreferenced without_def remove_child_filter)
    qed (use False r in \<open>auto simp: find_update_window find_unreferenced without_def\<close>)
    then show ?thesis using False r unfolding found by (simp add: surviving_def)
  qed
qed

lemma surviving_view: 
  assumes "\<And>y. find_resource y t' = surviving gone t y"
  shows "find_window y t' = (if y \<in> gone then None else map_option (\<lambda>w. w\<lparr>sw_children := filter (\<lambda>c. c \<notin> gone) (sw_children w)\<rparr>) (find_window y t))"
    "view as_target t' y = (if y \<in> gone \<or> view as_target t y \<in> Some ` gone then None else view as_target t y)"
  by (auto simp: find_window_def assms surviving_def without_def view_def split: option.splits payload.splits)

lemma surviving_twice:
  assumes "\<And>y. find_resource y t' = surviving a t y"
  shows "surviving b t' y = surviving (a \<union> b) t y"
  by (auto simp: surviving_def surviving_view [OF assms] assms option.map_comp comp_def without_twice)

section \<open>The plan of a destruction\<close>

definition subtree :: "resource_table \<Rightarrow> u32 \<Rightarrow> u32 set" where
  "subtree t x = {y. (y, x) \<in> (child_relation t)\<^sup>*}"

text \<open>An order of some subtrees in which nothing comes before what is inside it.\<close>

definition traversal :: "resource_table \<Rightarrow> u32 set \<Rightarrow> u32 list \<Rightarrow> bool" where
  "traversal t tops xs \<longleftrightarrow> set xs = (\<Union>x \<in> tops. subtree t x) \<and> distinct xs \<and> sorted_wrt (\<lambda>a b. (b, a) \<notin> (child_relation t)\<^sup>+) xs"

definition entries :: "resource_table \<Rightarrow> u32 list \<Rightarrow> cleanup_window list" where
  "entries t xs = map (\<lambda>y. cleanup_entry y (the (find_window y t)) t) xs"

lemma entries_append [simp]: "entries t (xs @ ys) = entries t xs @ entries t ys"
  by (simp add: entries_def)

lemma entries_ids: "map cw_xid (entries t xs) = xs"
  by (simp add: entries_def cleanup_entry_def comp_def)

lemma traversal_append:
  assumes ok: "tree_ok t" and c: "(c, x) \<in> child_relation t" and cs: "\<forall>d \<in> cs. (d, x) \<in> child_relation t \<and> d \<noteq> c"
    and "traversal t {c} xs" "traversal t cs ys"
  shows "traversal t (insert c cs) (xs @ ys)"
proof -
  have apart: "False" if "a \<in> subtree t c" "b \<in> subtree t d" "d \<in> cs" "(b, a) \<in> (child_relation t)\<^sup>*" for a b d
  proof -
    have "(b, c) \<in> (child_relation t)\<^sup>*" "(b, d) \<in> (child_relation t)\<^sup>*" using that by (auto simp: subtree_def)
    then show False using subtrees_disjoint [OF ok c] cs that(3) by blast
  qed
  then have "set xs \<inter> set ys = {}" using assms(4,5) by (fastforce simp: traversal_def)
  moreover have "(b, a) \<notin> (child_relation t)\<^sup>+" if members: "a \<in> set xs" "b \<in> set ys" for a b
  proof
    assume inside: "(b, a) \<in> (child_relation t)\<^sup>+"
    obtain d where "a \<in> subtree t c" "d \<in> cs" "b \<in> subtree t d" using members assms(4,5) by (auto simp: traversal_def)
    then show False using apart trancl_into_rtrancl [OF inside] by blast
  qed
  ultimately show ?thesis using assms(4,5) by (auto simp: traversal_def sorted_wrt_append)
qed

definition captures :: "resource_table \<Rightarrow> u32 list \<Rightarrow> u32 list \<Rightarrow> bool" where
  "captures t cs xs \<longleftrightarrow>
     (\<forall>rest acc. capture_loop t (map (\<lambda>c. (c, False)) cs @ rest) acc = capture_loop t rest (acc @ entries t xs)) \<and> traversal t (set cs) xs"

lemma capture_children:
  assumes ok: "tree_ok t" and w: "find_window x t = Some w"
  shows "set cs \<subseteq> set (sw_children w) \<Longrightarrow> distinct cs \<Longrightarrow> (\<And>c. c \<in> set cs \<Longrightarrow> \<exists>xs. captures t [c] xs) \<Longrightarrow> \<exists>xs. captures t cs xs"
proof (induction cs)
  case Nil
  then show ?case by (intro exI [of _ "[]"]) (simp add: captures_def traversal_def entries_def)
next
  case (Cons c cs)
  then obtain xs ys where xs: "captures t [c] xs" "captures t cs ys" by fastforce
  have "traversal t (insert c (set cs)) (xs @ ys)"
  proof (rule traversal_append [OF ok, where x = x])
    show "(c, x) \<in> child_relation t" "\<forall>d \<in> set cs. (d, x) \<in> child_relation t \<and> d \<noteq> c"
      using Cons.prems(1,2) w by (auto simp: child_parent)
  qed (use xs in \<open>simp_all add: captures_def\<close>)
  then show ?case using xs by (intro exI [of _ "xs @ ys"]) (simp add: captures_def)
qed

lemma capture_window:
  assumes ok: "tree_ok t"
  shows "find_window x t = Some w \<Longrightarrow> \<exists>xs. captures t [x] xs"
proof (induction x arbitrary: w rule: wf_induct_rule [OF tree_wf [OF ok]])
  case (1 x)
  let ?R = "child_relation t"
  have child: "\<exists>xs. captures t [c] xs" if "c \<in> set (rev (sw_children w))" for c
  proof -
    have step: "(c, x) \<in> ?R" using that 1(2) by (auto simp: child_parent)
    then obtain v where "find_window c t = Some v" using parent_of_child [OF ok] by blast
    then show ?thesis using 1(1) step by blast
  qed
  have "distinct (sw_children w)" using tree_links [OF ok 1(2)] by (simp add: window_linked_def)
  then obtain xs where xs: "captures t (rev (sw_children w)) xs"
    using capture_children [OF ok 1(2), of "rev (sw_children w)"] child by auto
  have below: "y \<in> set xs \<longleftrightarrow> (y, x) \<in> ?R\<^sup>+" for y
    using xs below_window [OF 1(2)] child_below [OF 1(2)] by (auto simp: captures_def traversal_def subtree_def)
  have "capture_loop t ((x, False) # rest) acc = capture_loop t rest (acc @ entries t (xs @ [x]))" for rest acc
  proof -
    have "capture_loop t ((x, False) # rest) acc = capture_loop t (push_children (sw_children w) ((x, True) # rest)) acc"
      using 1(2) by (subst capture_loop.simps) simp
    also have "\<dots> = capture_loop t ((x, True) # rest) (acc @ entries t xs)"
      using xs by (simp add: captures_def push_children_def rev_map)
    also have "\<dots> = capture_loop t rest (acc @ entries t (xs @ [x]))"
      using 1(2) by (subst capture_loop.simps) (simp add: entries_def)
    finally show ?thesis .
  qed
  moreover have "traversal t {x} (xs @ [x])"
  proof -
    have "distinct xs" "sorted_wrt (\<lambda>a b. (b, a) \<notin> ?R\<^sup>+) xs" using xs by (simp_all add: captures_def traversal_def)
    moreover have "x \<notin> set xs" using acyclic_tree [OF ok] by (simp add: below)
    moreover have "(x, y) \<notin> ?R\<^sup>+" if "y \<in> set xs" for y
      using that acyclic_tree [OF ok, of x] by (auto simp: below dest: trancl_trans)
    moreover have "set xs \<union> {x} = subtree t x" by (auto simp: below subtree_def rtrancl_eq_or_trancl)
    ultimately show ?thesis by (auto simp: traversal_def sorted_wrt_append)
  qed
  ultimately show ?case by (intro exI [of _ "xs @ [x]"]) (simp add: captures_def)
qed

lemma capture_destroy_plan_returns:
  assumes ok: "tree_ok t" and w: "find_window x t = Some w" and inner: "x \<noteq> sm_root_window (rt_screen t)"
  shows "\<exists>xs. capture_destroy_plan x t = Some (Some \<lparr>dp_root = x, dp_postorder = entries t xs\<rparr>) \<and> traversal t {x} xs"
proof -
  obtain xs where xs: "captures t [x] xs" using capture_window [OF ok w] by blast
  then have "capture_loop t [(x, False)] [] = capture_loop t [] (entries t xs)"
    unfolding captures_def by (metis append_Cons append_Nil list.simps(8) list.simps(9))
  also have "\<dots> = Some (Some (entries t xs))" by (subst capture_loop.simps) simp
  finally show ?thesis using xs w inner by (auto simp: capture_destroy_plan_def captures_def)
qed

section \<open>The destruction of a subtree\<close>

lemma child_relation_surviving:
  assumes "\<And>y. find_resource y t' = surviving gone t y"
  shows "(c, x) \<in> child_relation t' \<longleftrightarrow> (c, x) \<in> child_relation t \<and> c \<notin> gone \<and> x \<notin> gone"
  by (auto simp: child_parent surviving_view(1) [OF assms])

text \<open>Windows in an order like that of a plan, children before their parents.\<close>

lemma destroy_leaves:
  assumes "table_ok late t" "distinct xs" "sm_root_window (rt_screen t) \<notin> set xs" "\<forall>x \<in> set xs. find_window x t \<noteq> None"
    "\<forall>x \<in> set xs. \<forall>c. (c, x) \<in> child_relation t \<longrightarrow> c \<in> set xs" "sorted_wrt (\<lambda>a b. (b, a) \<notin> child_relation t) xs"
  shows "table_ok late (snd (fold destroy_leaf xs (counts, t))) \<and> rt_screen (snd (fold destroy_leaf xs (counts, t))) = rt_screen t \<and>
    (\<forall>y. find_resource y (snd (fold destroy_leaf xs (counts, t))) = surviving (set xs) t y)"
  using assms
proof (induction xs arbitrary: counts t)
  case Nil
  have "without {} = (\<lambda>r. r)" by (rule ext, rule without_none) simp
  then show ?case using Nil by (simp add: surviving_def option.map_ident)
next
  case (Cons x xs)
  obtain w where w: "find_window x t = Some w" using Cons.prems(4) by auto
  have inner: "x \<noteq> sm_root_window (rt_screen t)" using Cons.prems(3) by auto
  have "c \<notin> set (sw_children w)" for c
  proof
    assume "c \<in> set (sw_children w)"
    then have c: "(c, x) \<in> child_relation t" using w by (simp add: child_parent)
    then have "c \<noteq> x" using acyclic_tree [OF ok_parts(5) [OF Cons.prems(1)]] by auto
    then show False using c Cons.prems(5,6) by auto
  qed
  then have leaf: "sw_children w = []" by (cases "sw_children w") auto
  let ?u = "leafless x w t"
  have found: "find_resource y ?u = surviving {x} t y" for y by (rule find_leafless [OF Cons.prems(1) w inner])
  have ok: "table_ok late ?u" by (rule leafless_ok [OF Cons.prems(1) w leaf inner])
  have sub: "(c, y) \<in> child_relation ?u \<longleftrightarrow> (c, y) \<in> child_relation t \<and> c \<noteq> x \<and> y \<noteq> x" for c y
    by (simp add: child_relation_surviving [OF found])
  obtain counts' where step: "destroy_leaf x (counts, t) = (counts', ?u)"
    using destroy_leaf_table [OF w inner, of counts] by (metis prod.collapse)
  have "table_ok late (snd (fold destroy_leaf xs (counts', ?u))) \<and> rt_screen (snd (fold destroy_leaf xs (counts', ?u))) = rt_screen ?u \<and>
    (\<forall>y. find_resource y (snd (fold destroy_leaf xs (counts', ?u))) = surviving (set xs) ?u y)"
  proof (rule Cons.IH [OF ok])
    show "distinct xs" using Cons.prems(2) by simp
    show "sm_root_window (rt_screen ?u) \<notin> set xs" using Cons.prems(3) by (simp add: leafless_fields)
    show "\<forall>y \<in> set xs. find_window y ?u \<noteq> None" using Cons.prems(2,4) by (auto simp: surviving_view(1) [OF found])
    show "\<forall>y \<in> set xs. \<forall>c. (c, y) \<in> child_relation ?u \<longrightarrow> c \<in> set xs" using Cons.prems(5) by (auto simp: sub)
    show "sorted_wrt (\<lambda>a b. (b, a) \<notin> child_relation ?u) xs" using Cons.prems(6) by (auto simp: sub intro: sorted_wrt_mono_rel [rotated])
  qed
  then show ?case using step surviving_twice [OF found, of "set xs"] by (simp add: leafless_fields)
qed

text \<open>A plan of the table as it is destroys the subtree.\<close>

lemma commit_plan:
  assumes ok: "table_ok late t" and w: "find_window x t = Some w" and inner: "x \<noteq> sm_root_window (rt_screen t)"
    and plan: "capture_destroy_plan x t = Some (Some plan)"
  shows "\<exists>counts' t'. commit_destroy_plan plan (counts, t) = Some (DW_Success, counts', t') \<and> table_ok late t' \<and> rt_screen t' = rt_screen t \<and>
    (\<forall>y. find_resource y t' = surviving (subtree t x) t y)"
proof -
  note tree = ok_parts(5) [OF ok]
  obtain xs where xs: "plan = \<lparr>dp_root = x, dp_postorder = entries t xs\<rparr>" "traversal t {x} xs"
    using capture_destroy_plan_returns [OF tree w inner] plan by auto
  have set: "set xs = subtree t x" using xs(2) by (simp add: traversal_def)
  have window: "find_window y t \<noteq> None" if y: "y \<in> subtree t x" for y
  proof (cases "y = x")
    case False
    then obtain z where "(y, z) \<in> child_relation t" using y by (auto simp: subtree_def elim: converse_rtranclE)
    then show ?thesis using parent_of_child [OF tree] by blast
  qed (use w in simp)
  have root: "sm_root_window (rt_screen t) \<notin> subtree t x"
  proof
    assume "sm_root_window (rt_screen t) \<in> subtree t x"
    then have "(sm_root_window (rt_screen t), x) \<in> (child_relation t)\<^sup>+" using inner by (auto simp: subtree_def dest: rtranclD)
    moreover have "(x, sm_root_window (rt_screen t)) \<in> (child_relation t)\<^sup>*" by (rule below_root [OF tree w])
    ultimately show False using acyclic_tree [OF tree] by (auto dest: trancl_rtrancl_trancl)
  qed
  have closed: "c \<in> subtree t x" if "y \<in> subtree t x" "(c, y) \<in> child_relation t" for c y
    using that by (auto simp: subtree_def intro: converse_rtrancl_into_rtrancl)
  have sorted: "sorted_wrt (\<lambda>a b. (b, a) \<notin> child_relation t) xs"
    using xs(2) by (auto simp: traversal_def intro: sorted_wrt_mono_rel [rotated])
  have result: "fold (\<lambda>entry. destroy_leaf (cw_xid entry)) (entries t xs) s = fold destroy_leaf xs s" for s
    by (simp add: entries_def cleanup_entry_def fold_map comp_def)
  obtain local t' where t': "fold destroy_leaf xs (no_counts, t) = (local, t')" by fastforce
  have "table_ok late t' \<and> rt_screen t' = rt_screen t \<and> (\<forall>y. find_resource y t' = surviving (subtree t x) t y)"
    using destroy_leaves [OF ok, of xs no_counts] xs(2) sorted window root closed by (simp add: t' set traversal_def)
  then show ?thesis using plan by (simp add: commit_destroy_plan_def xs(1) same_windows_def result t')
qed

lemma destroy_window_subtree:
  assumes ok: "table_ok late t" and w: "find_window x t = Some w" and inner: "x \<noteq> sm_root_window (rt_screen t)"
  shows "\<exists>counts' t'. destroy_window x (counts, t) = Some (DW_Success, counts', t') \<and> table_ok late t' \<and> rt_screen t' = rt_screen t \<and>
    (\<forall>y. find_resource y t' = surviving (subtree t x) t y)"
proof -
  obtain xs where plan: "capture_destroy_plan x t = Some (Some \<lparr>dp_root = x, dp_postorder = entries t xs\<rparr>)"
    using capture_destroy_plan_returns [OF ok_parts(5) [OF ok] w inner] by blast
  then show ?thesis using commit_plan [OF ok w inner plan] w inner by (simp add: destroy_window_def)
qed

lemma destroy_window_ok:
  assumes ok: "table_ok late t"
  shows "\<exists>status counts' t'. destroy_window x (counts, t) = Some (status, counts', t') \<and> table_ok late t'"
proof (cases "find_window x t = None \<or> x = sm_root_window (rt_screen t)")
  case True
  then show ?thesis using ok by (auto simp: destroy_window_def)
next
  case False
  then obtain w where "find_window x t = Some w" "x \<noteq> sm_root_window (rt_screen t)" by auto
  then show ?thesis using destroy_window_subtree [OF ok, of x w counts] by blast
qed

end
