(* ===== verification/Srv_End.thy ===== *)
theory Srv_End
  imports Srv_Destroy
begin

text \<open>
  The end of a client: the walks over its windows return, the invariant holds, and afterwards no resource belongs to
  the client and no window sends it events.
\<close>

section \<open>Tables that lose resources\<close>

fun as_selections :: "payload \<Rightarrow> (u64, u32) fmap option" where
  "as_selections (PL_Window w) = Some (sw_event_selections w)"
| "as_selections _ = None"

text \<open>A client that no window sends events to.\<close>

definition silent :: "u64 \<Rightarrow> resource_table \<Rightarrow> bool" where
  "silent client t \<longleftrightarrow> (\<forall>y m. view as_selections t y = Some m \<longrightarrow> fmlookup m client = None)"

definition shrinks :: "resource_table \<Rightarrow> resource_table \<Rightarrow> bool" where
  "shrinks t t' \<longleftrightarrow> (\<forall>y k. kind t' y = Some k \<longrightarrow> kind t y = Some k) \<and> (\<forall>y m. view as_selections t' y = Some m \<longrightarrow> view as_selections t y = Some m)"

lemma shrinks_refl [simp]: "shrinks t t"
  by (simp add: shrinks_def)

lemma shrinks_trans: "shrinks a b \<Longrightarrow> shrinks b c \<Longrightarrow> shrinks a c"
  by (simp add: shrinks_def)

lemma shrinks_silent: "shrinks t t' \<Longrightarrow> silent client t \<Longrightarrow> silent client t'"
  unfolding shrinks_def silent_def by blast

lemma shrinks_disown: "shrinks t u \<Longrightarrow> shrinks t (disown xid u)"
  by (simp add: shrinks_def table_views)

lemma shrinks_surviving:
  assumes "\<And>y. find_resource y t' = surviving gone t y"
  shows "shrinks t t'"
proof -
  have "kind t y = Some k" if "kind t' y = Some k" for y k
    using that by (auto simp: kind_def assms surviving_def split: if_splits)
  moreover have "view as_selections t y = Some m" if seen: "view as_selections t' y = Some m" for y m
  proof -
    obtain r where r: "find_resource y t = Some r" "as_selections (re_payload (without gone r)) = Some m"
      using seen by (auto simp: view_iff assms surviving_def split: if_splits)
    then show ?thesis by (cases "re_payload r") (simp_all add: view_def without_def)
  qed
  ultimately show ?thesis by (simp add: shrinks_def)
qed

lemma shrinks_unreferenced: "shrinks t (unreferenced xid t)"
proof -
  have "view as_selections (unreferenced xid t) = view as_selections t" by (rule view_unreferenced) simp_all
  then show ?thesis by (auto simp: shrinks_def kind_def find_unreferenced)
qed

lemma shrinks_fields: "shrinks t u \<Longrightarrow> shrinks t (u\<lparr>rt_cursor_bytes := n\<rparr>)" "shrinks t u \<Longrightarrow> shrinks t (u\<lparr>rt_drawable_bytes := n\<rparr>)"
  by (simp_all add: shrinks_def table_views)

lemma shrinks_forget: "shrinks t (update_windows (forget_cursor xid) t)"
proof -
  have "as_selections (PL_Window (forget_cursor xid w)) = as_selections (PL_Window w)" for w by (simp add: forget_cursor_def)
  then show ?thesis by (simp add: shrinks_def table_views)
qed

section \<open>Freeing what is left\<close>

lemma free_any_absent: "find_resource xid t = None \<Longrightarrow> free_any xid t = Some t"
  by (simp add: free_any_def find_pixmap_def find_gc_def find_font_def find_cursor_def find_colormap_def find_shm_segment_def
      find_xfixes_region_def find_damage_def find_picture_def)

lemmas lookup_defs = find_window_def find_pixmap_def find_gc_def find_font_def find_cursor_def find_colormap_def find_shm_segment_def
  find_xfixes_region_def find_damage_def find_picture_def

lemma free_pixmap_gone: "find_pixmap xid t \<noteq> None \<Longrightarrow> shrinks t (snd (free_pixmap xid t)) \<and> find_resource xid (snd (free_pixmap xid t)) = None"
proof -
  have "shrinks t (disown xid (unreferenced xid t))" by (rule shrinks_disown [OF shrinks_unreferenced])
  then show "find_pixmap xid t \<noteq> None \<Longrightarrow> ?thesis"
    using find_disown [of xid xid "unreferenced xid t"]
    by (auto simp: free_pixmap_def unreferenced_def recompute_canonical_drawable_bytes_def shrinks_fields find_resource_def)
qed

lemma free_cursor_gone:
  "find_cursor xid t \<noteq> None \<Longrightarrow> has_owner xid t \<Longrightarrow> shrinks t (snd (free_cursor xid t)) \<and> find_resource xid (snd (free_cursor xid t)) = None"
  using shrinks_disown [OF shrinks_forget [of t xid], of xid]
  by (auto simp: free_cursor_def shrinks_fields) (simp add: find_resource_def find_disown [unfolded find_resource_def])

text \<open>
  What the cleanup relies on in every store: freeing a resource that has an owner keeps the invariant, takes the
  resource away and lets nothing new appear.
\<close>

locale owned_store =
  fixes find_it :: "u32 \<Rightarrow> resource_table \<Rightarrow> 'v option" and free_it :: "u32 \<Rightarrow> resource_table \<Rightarrow> 'status \<times> resource_table"
  assumes keeps: "table_ok late t \<Longrightarrow> table_ok late (snd (free_it xid t))"
    and takes: "find_it xid t \<noteq> None \<Longrightarrow> has_owner xid t \<Longrightarrow> shrinks t (snd (free_it xid t)) \<and> find_resource xid (snd (free_it xid t)) = None"
begin

lemma released:
  "table_ok late t \<Longrightarrow> find_it xid t \<noteq> None \<Longrightarrow> has_owner xid t \<Longrightarrow> result = Some (snd (free_it xid t)) \<Longrightarrow>
     \<exists>t'. result = Some t' \<and> table_ok late t' \<and> shrinks t t' \<and> find_resource xid t' = None"
  by (simp add: keeps takes)

end

lemma disown_takes: "shrinks t (disown xid t) \<and> find_resource xid (disown xid t) = None"
  by (simp add: shrinks_disown find_disown)

interpretation pixmaps: owned_store find_pixmap free_pixmap
  by unfold_locales (simp_all add: free_pixmap_ok free_pixmap_gone)

interpretation gcs: owned_store find_gc free_gc
  by unfold_locales (erule free_gc_ok, auto simp: free_gc_def disown_takes)

interpretation fonts: owned_store find_font close_font
  by unfold_locales (erule close_font_ok, auto simp: close_font_def disown_takes)

interpretation cursors: owned_store find_cursor free_cursor
  by unfold_locales (simp_all add: free_cursor_ok free_cursor_gone)

interpretation segments: owned_store find_shm_segment detach_shm_segment
  by unfold_locales (erule detach_shm_segment_ok, auto simp: detach_shm_segment_def disown_takes)

interpretation regions: owned_store find_xfixes_region destroy_xfixes_region
  by unfold_locales (erule destroy_xfixes_region_ok, auto simp: destroy_xfixes_region_def disown_takes)

interpretation damages: owned_store find_damage destroy_damage
  by unfold_locales (erule destroy_damage_ok, auto simp: destroy_damage_def disown_takes)

interpretation pictures: owned_store find_picture free_picture
  by unfold_locales (erule free_picture_ok, auto simp: free_picture_def disown_takes)

lemma free_any_owned:
  assumes ok: "table_ok late t" and r: "find_resource xid t = Some r" "re_owner r = Some owner" and window: "find_window xid t = None"
  shows "\<exists>t'. free_any xid t = Some t' \<and> table_ok late t' \<and> shrinks t t' \<and> find_resource xid t' = None"
proof -
  have owner: "has_owner xid t" using r by (simp add: has_owner_def)
  note found = r(1) lookup_defs
  show ?thesis
  proof (cases "re_payload r")
    case (PL_Window w)
    then show ?thesis using window r by (simp add: find_window_def)
  next
    case (PL_Pixmap p)
    then show ?thesis by (intro pixmaps.released [OF ok _ owner]) (simp_all add: free_any_def found)
  next
    case (PL_GraphicsContext g)
    then show ?thesis by (intro gcs.released [OF ok _ owner]) (simp_all add: free_any_def found)
  next
    case (PL_Font f)
    then show ?thesis by (intro fonts.released [OF ok _ owner]) (simp_all add: free_any_def found)
  next
    case (PL_Cursor c)
    then show ?thesis by (intro cursors.released [OF ok _ owner]) (simp_all add: free_any_def found)
  next
    case (PL_Colormap v)
    then have type: "re_type r = RT_Colormap" using type_of_payload [OF ok_parts(1) [OF ok] r(1)] by simp
    have "kind t (sm_default_colormap (rt_screen t)) = Some (RT_Colormap, None)" using ok_parts(4) [OF ok] by (simp add: root_ok_def)
    then have "xid \<noteq> sm_default_colormap (rt_screen t)" using r by (auto simp: kind_iff)
    then have "free_any xid t = map_option snd (free_colormap xid t)" "free_colormap xid t = Some (FC_Success, disown xid t)"
      using PL_Colormap type r by (simp_all add: free_any_def found free_colormap_def)
    then show ?thesis using disown_takes free_colormap_ok [OF ok, of xid] by simp
  next
    case (PL_ShmSegment s)
    then show ?thesis by (intro segments.released [OF ok _ owner]) (simp_all add: free_any_def found)
  next
    case (PL_XFixesRegion rs)
    then show ?thesis by (intro regions.released [OF ok _ owner]) (simp_all add: free_any_def found)
  next
    case (PL_Damage d)
    then show ?thesis by (intro damages.released [OF ok _ owner]) (simp_all add: free_any_def found)
  next
    case (PL_Picture p)
    then show ?thesis by (intro pictures.released [OF ok _ owner]) (simp_all add: free_any_def found)
  qed
qed

section \<open>The walk that marks windows\<close>

text \<open>Tables that differ in nothing but fields the invariant and the cleanup do not look at.\<close>

definition alike :: "resource_table \<Rightarrow> resource_table \<Rightarrow> bool" where
  "alike t t' \<longleftrightarrow> frame t' = frame t \<and> contents t' = contents t \<and> view as_selections t' = view as_selections t \<and> rt_screen t' = rt_screen t"

lemma alike_refl [simp]: "alike t t"
  by (simp add: alike_def)

lemma alike_ok: "alike t t' \<Longrightarrow> table_ok late t' \<longleftrightarrow> table_ok late t"
  by (simp add: alike_def table_ok_split structure_frame [of t' t] contents_frame [of t' t])

lemma alike_links: "alike t t' \<Longrightarrow> view as_links t' = view as_links t"
  by (simp add: alike_def frame_def)

lemma alike_kind: "alike t t' \<Longrightarrow> kind t' = kind t"
  by (simp add: alike_def frame_def)

lemma alike_relation: "alike t t' \<Longrightarrow> child_relation t' = child_relation t"
  by (simp add: child_relation_def alike_links)

lemma alike_window: "alike t t' \<Longrightarrow> find_window y t' = None \<longleftrightarrow> find_window y t = None"
  using links_view [of t y] links_view [of t' y] by (auto simp: alike_links)

lemma alike_pending:
  assumes "alike t u"
  shows "alike t (update_window xid (\<lambda>w. w\<lparr>sw_cleanup_pending := True\<rparr>) u)"
proof -
  have "quiet (\<lambda>w. w\<lparr>sw_cleanup_pending := True\<rparr>)" by (simp add: quiet_def)
  then show ?thesis using assms quiet_update by (simp add: alike_def table_views)
qed

definition skips :: "resource_table \<Rightarrow> u32 list \<Rightarrow> bool" where
  "skips t cs \<longleftrightarrow> (\<forall>k rest. alike t (ks_table k) \<longrightarrow>
     (\<exists>k'. capture_cleanup (map (\<lambda>c. (c, False)) cs @ rest) k = capture_cleanup rest k' \<and> alike t (ks_table k')))"

lemma skips_list: "(\<And>c. c \<in> set cs \<Longrightarrow> skips t [c]) \<Longrightarrow> skips t cs"
proof (induction cs)
  case (Cons c cs)
  then have "skips t [c]" "skips t cs" by simp_all
  have "\<exists>k'. capture_cleanup (map (\<lambda>c. (c, False)) (c # cs) @ rest) k = capture_cleanup rest k' \<and> alike t (ks_table k')"
    if k: "alike t (ks_table k)" for k rest
  proof -
    obtain k1 where k1: "capture_cleanup (map (\<lambda>c. (c, False)) [c] @ (map (\<lambda>c. (c, False)) cs @ rest)) k =
        capture_cleanup (map (\<lambda>c. (c, False)) cs @ rest) k1" "alike t (ks_table k1)"
      using \<open>skips t [c]\<close> k unfolding skips_def by blast
    moreover obtain k2 where "capture_cleanup (map (\<lambda>c. (c, False)) cs @ rest) k1 = capture_cleanup rest k2" "alike t (ks_table k2)"
      using \<open>skips t cs\<close> k1(2) unfolding skips_def by blast
    ultimately show ?thesis by auto
  qed
  then show ?case by (simp add: skips_def)
qed (auto simp: skips_def)

lemma capture_cleanup_window:
  assumes ok: "tree_ok t"
  shows "skips t [x]"
proof (induction x rule: wf_induct_rule [OF tree_wf [OF ok]])
  case (1 x)
  have "\<exists>k'. capture_cleanup ((x, False) # rest) k = capture_cleanup rest k' \<and> alike t (ks_table k')" if k: "alike t (ks_table k)" for k rest
  proof (cases "find_window x (ks_table k)")
    case None
    then show ?thesis using k by (subst capture_cleanup.simps) auto
  next
    case (Some w)
    have "skips t [c]" if "c \<in> set (rev (sw_children w))" for c
    proof -
      have "(c, x) \<in> child_relation (ks_table k)" using that Some by (auto simp: child_parent)
      then show ?thesis using 1 by (simp add: alike_relation [OF k])
    qed
    then have "skips t (rev (sw_children w))" by (rule skips_list)
    then obtain k1 where k1: "capture_cleanup (map (\<lambda>c. (c, False)) (rev (sw_children w)) @ (x, True) # rest) k =
        capture_cleanup ((x, True) # rest) k1" "alike t (ks_table k1)" using k unfolding skips_def by blast
    have first: "capture_cleanup ((x, False) # rest) k = capture_cleanup ((x, True) # rest) k1"
      using Some k1(1) by (subst capture_cleanup.simps) (simp add: push_children_def rev_map)
    have "\<exists>k'. capture_cleanup ((x, True) # rest) k1 = capture_cleanup rest k' \<and> alike t (ks_table k')"
    proof (cases "find_window x (ks_table k1) = None \<or> x |\<in>| ks_captured k1")
      case True
      then show ?thesis using k1(2) by (subst capture_cleanup.simps) (auto split: option.split)
    next
      case False
      then show ?thesis using alike_pending [OF k1(2)] by (subst capture_cleanup.simps) (auto simp: Let_def)
    qed
    then show ?thesis using first by simp
  qed
  then show ?case by (simp add: skips_def)
qed

lemma capture_cleanup_returns:
  assumes ok: "tree_ok t"
  shows "alike t (ks_table k) \<Longrightarrow> \<exists>k'. fold_option (\<lambda>root k. capture_cleanup [(root, False)] k) roots k = Some k' \<and> alike t (ks_table k')"
proof (induction roots arbitrary: k)
  case (Cons x roots)
  have "\<exists>k1. capture_cleanup (map (\<lambda>c. (c, False)) [x] @ []) k = capture_cleanup [] k1 \<and> alike t (ks_table k1)"
    using capture_cleanup_window [OF ok, of x] Cons.prems unfolding skips_def by blast
  then obtain k1 where "capture_cleanup [(x, False)] k = capture_cleanup [] k1" "alike t (ks_table k1)" by auto
  moreover have "capture_cleanup [] k1 = Some k1" by (subst capture_cleanup.simps) simp
  ultimately show ?case using Cons.IH [of k1] by simp
qed simp

section \<open>The windows to start from\<close>

text \<open>A window of the client that is no root of the tree, at or around a window.\<close>

definition owned_window :: "u64 \<Rightarrow> resource_table \<Rightarrow> u32 \<Rightarrow> bool" where
  "owned_window owner t x \<longleftrightarrow> find_window x t \<noteq> None \<and> (\<exists>type. kind t x = Some (type, Some owner))"

lemma owned_inner: "table_ok late t \<Longrightarrow> owned_window owner t x \<Longrightarrow> x \<noteq> sm_root_window (rt_screen t)"
  using ok_parts(4) [of late t] by (auto simp: owned_window_def root_ok_def)

lemma covered_ancestors:
  assumes ok: "table_ok late t"
  shows "find_window p t = Some w \<Longrightarrow> covered owner p t = Some (\<exists>z. (p, z) \<in> (child_relation t)\<^sup>* \<and> owned_window owner t z)"
proof (induction p arbitrary: w rule: wf_induct_rule [OF converse_wf [OF ok_parts(5) [OF ok]]])
  case (1 p)
  note tree = ok_parts(5) [OF ok]
  obtain r where r: "find_resource p t = Some r" "re_payload r = PL_Window w" using 1(2) by (auto simp: find_window_iff)
  have nonzero: "p \<noteq> 0" by (rule type_of_payload [OF ok_parts(1) [OF ok] r(1)])
  show ?case
  proof (cases "p = sm_root_window (rt_screen t)")
    case True
    obtain rw where rw: "find_window p t = Some rw" "sw_parent rw = 0" using ok_root [OF ok] True by auto
    have "\<not> owned_window owner t z" if z: "(p, z) \<in> (child_relation t)\<^sup>*" for z
    proof -
      have "z = p"
      proof (rule ccontr)
        assume "z \<noteq> p"
        with z obtain x where x: "(p, x) \<in> child_relation t" by (auto elim: converse_rtranclE)
        then have "x = 0" using parent_of_child [OF tree x] rw by auto
        then show False using x type_of_payload(2) [OF ok_parts(1) [OF ok]] by (auto simp: child_parent find_window_iff)
      qed
      then show ?thesis using owned_inner [OF ok] True by auto
    qed
    then show ?thesis using True by (subst covered.simps) auto
  next
    case False
    obtain q where q: "find_window (sw_parent w) t = Some q" using tree_parent [OF tree 1(2) False] by auto
    have step: "(p, sw_parent w) \<in> child_relation t" by (rule child_of_parent [OF tree 1(2) False])
    have up: "(p, z) \<in> (child_relation t)\<^sup>* \<longleftrightarrow> z = p \<or> (sw_parent w, z) \<in> (child_relation t)\<^sup>*" for z
    proof
      assume "(p, z) \<in> (child_relation t)\<^sup>*"
      then show "z = p \<or> (sw_parent w, z) \<in> (child_relation t)\<^sup>*"
        using single_valuedD [OF parent_unique [OF tree] step] by (auto elim: converse_rtranclE)
    qed (use step in \<open>auto intro: converse_rtrancl_into_rtrancl\<close>)
    have self: "owned_window owner t p \<longleftrightarrow> re_owner r = Some owner" using 1(2) r by (simp add: owned_window_def kind_def)
    have "covered owner (sw_parent w) t = Some (\<exists>z. (sw_parent w, z) \<in> (child_relation t)\<^sup>* \<and> owned_window owner t z)"
      using 1(1) step q by auto
    then show ?thesis using False nonzero r 1(2) self by (subst covered.simps) (auto simp: up)
  qed
qed

definition top_window :: "u64 \<Rightarrow> resource_table \<Rightarrow> u32 \<Rightarrow> bool" where
  "top_window owner t x \<longleftrightarrow> find_window x t \<noteq> None \<and> \<not> (\<exists>z. (x, z) \<in> (child_relation t)\<^sup>+ \<and> owned_window owner t z)"

lemma collect_roots:
  assumes ok: "table_ok late t"
  shows "\<forall>x \<in> set xs. find_window x t \<noteq> None \<longrightarrow> x \<noteq> sm_root_window (rt_screen t) \<Longrightarrow>
    fold_option (collect_root owner t) xs roots = Some (roots @ filter (top_window owner t) xs)"
proof (induction xs arbitrary: roots)
  case (Cons x xs)
  note tree = ok_parts(5) [OF ok]
  have "collect_root owner t x roots = Some (if top_window owner t x then roots @ [x] else roots)"
  proof (cases "find_window x t")
    case (Some w)
    then have inner: "x \<noteq> sm_root_window (rt_screen t)" using Cons.prems by simp
    obtain q where q: "find_window (sw_parent w) t = Some q" using tree_parent [OF tree Some inner] by auto
    have step: "(x, sw_parent w) \<in> child_relation t" by (rule child_of_parent [OF tree Some inner])
    have "(x, z) \<in> (child_relation t)\<^sup>+ \<longleftrightarrow> (sw_parent w, z) \<in> (child_relation t)\<^sup>*" for z
    proof
      assume "(x, z) \<in> (child_relation t)\<^sup>+"
      then obtain y where "(x, y) \<in> child_relation t" "(y, z) \<in> (child_relation t)\<^sup>*" by (blast dest: tranclD)
      then show "(sw_parent w, z) \<in> (child_relation t)\<^sup>*" using single_valuedD [OF parent_unique [OF tree] step] by auto
    qed (rule rtrancl_into_trancl2 [OF step])
    then show ?thesis using Some covered_ancestors [OF ok q, of owner] by (simp add: collect_root_def top_window_def)
  qed (simp add: collect_root_def top_window_def)
  then show ?case using Cons by simp
qed simp

text \<open>Every window of the client is inside one of them.\<close>

lemma below_top:
  assumes ok: "table_ok late t"
  shows "owned_window owner t x \<Longrightarrow> \<exists>r. owned_window owner t r \<and> top_window owner t r \<and> (x, r) \<in> (child_relation t)\<^sup>*"
proof (induction x rule: wf_induct_rule [OF wf_trancl [OF converse_wf [OF ok_parts(5) [OF ok]]]])
  case (1 x)
  show ?case
  proof (cases "top_window owner t x")
    case False
    then obtain z where z: "(x, z) \<in> (child_relation t)\<^sup>+" "owned_window owner t z" using 1(2) by (auto simp: top_window_def owned_window_def)
    have "(z, x) \<in> ((child_relation t)\<inverse>)\<^sup>+" using z(1) by (simp add: trancl_converse)
    then obtain r where "owned_window owner t r" "top_window owner t r" "(z, r) \<in> (child_relation t)\<^sup>*" using 1(1) z(2) by blast
    then show ?thesis using z(1) by (auto intro: trancl_into_rtrancl rtrancl_trans)
  qed (use 1(2) in auto)
qed

section \<open>Destroying the windows of a client\<close>

lemma path_survives:
  assumes found: "\<And>y. find_resource y t' = surviving (subtree t r) t y"
  shows "(x, z) \<in> (child_relation t)\<^sup>* \<Longrightarrow> x \<notin> subtree t r \<Longrightarrow> (x, z) \<in> (child_relation t')\<^sup>*"
proof (induction rule: converse_rtrancl_induct)
  case (step x y)
  have "y \<notin> subtree t r" using step by (auto simp: subtree_def intro: converse_rtrancl_into_rtrancl)
  moreover from this have "(x, y) \<in> child_relation t'" using step by (simp add: child_relation_surviving [OF found])
  ultimately show ?case using step by (auto intro: converse_rtrancl_into_rtrancl)
qed simp

text \<open>Every window of the client is inside a window of the list.\<close>

definition reached :: "u64 \<Rightarrow> u32 list \<Rightarrow> resource_table \<Rightarrow> bool" where
  "reached owner rs t \<longleftrightarrow> (\<forall>x. owned_window owner t x \<longrightarrow> (\<exists>r \<in> set rs. (x, r) \<in> (child_relation t)\<^sup>*))"

lemma destroy_root_step:
  assumes ok: "table_ok late t" and inner: "r \<noteq> sm_root_window (rt_screen t)" and reached: "reached owner (r # rs) t"
  shows "\<exists>counts' t'. destroy_root r (counts, t) = Some (counts', t') \<and> table_ok late t' \<and> rt_screen t' = rt_screen t \<and> shrinks t t' \<and> reached owner rs t'"
proof (cases "find_window r t")
  case None
  have "reached owner rs t"
  proof -
    have "(x, r) \<notin> (child_relation t)\<^sup>*" if "owned_window owner t x" for x
      using that None by (auto simp: owned_window_def child_parent elim: rtranclE)
    then show ?thesis using reached by (auto simp: reached_def)
  qed
  then show ?thesis using None ok by (simp add: destroy_root_def capture_destroy_plan_def)
next
  case (Some w)
  obtain plan where plan: "capture_destroy_plan r t = Some (Some plan)"
    using capture_destroy_plan_returns [OF ok_parts(5) [OF ok] Some inner] by blast
  obtain counts' t' where t': "commit_destroy_plan plan (counts, t) = Some (DW_Success, counts', t')" "table_ok late t'" "rt_screen t' = rt_screen t"
    and found: "\<And>y. find_resource y t' = surviving (subtree t r) t y"
    using commit_plan [OF ok Some inner plan] by blast
  have "\<exists>q \<in> set rs. (x, q) \<in> (child_relation t')\<^sup>*" if x: "owned_window owner t' x" for x
  proof -
    have out: "x \<notin> subtree t r" using x by (auto simp: owned_window_def surviving_view(1) [OF found])
    have "owned_window owner t x"
      using x by (auto simp: owned_window_def surviving_view(1) [OF found] kind_def found surviving_def split: if_splits)
    then obtain q where q: "q \<in> set (r # rs)" "(x, q) \<in> (child_relation t)\<^sup>*" using reached by (auto simp: reached_def)
    then have "q \<in> set rs" using out by (auto simp: subtree_def)
    then show ?thesis using path_survives [OF found q(2) out] by blast
  qed
  then have "reached owner rs t'" by (simp add: reached_def)
  then show ?thesis using t' plan shrinks_surviving [OF found] by (simp add: destroy_root_def)
qed

lemma destroy_roots:
  "table_ok late t \<Longrightarrow> sm_root_window (rt_screen t) \<notin> set rs \<Longrightarrow> reached owner rs t \<Longrightarrow>
     \<exists>counts' t'. fold_option destroy_root rs (counts, t) = Some (counts', t') \<and> table_ok late t' \<and> shrinks t t' \<and> reached owner [] t'"
proof (induction rs arbitrary: counts t)
  case (Cons r rs)
  have "r \<noteq> sm_root_window (rt_screen t)" using Cons.prems(2) by auto
  then obtain counts1 t1 where t1: "destroy_root r (counts, t) = Some (counts1, t1)" "table_ok late t1" "rt_screen t1 = rt_screen t"
    "shrinks t t1" "reached owner rs t1" using destroy_root_step [OF Cons.prems(1) _ Cons.prems(3)] by blast
  then show ?case using Cons.IH [of t1 counts1] Cons.prems(2) shrinks_trans [OF t1(4)] by fastforce
qed auto

section \<open>Freeing the other resources of a client\<close>

definition owns_only :: "u64 \<Rightarrow> u32 list \<Rightarrow> resource_table \<Rightarrow> bool" where
  "owns_only owner xs t \<longleftrightarrow> (\<forall>y type. kind t y = Some (type, Some owner) \<longrightarrow> type \<noteq> RT_Window \<and> y \<in> set xs)"

lemma free_remaining_step:
  assumes ok: "table_ok late t" and owns: "owns_only owner (x # xs) t" and theirs: "\<And>r. find_resource x t = Some r \<Longrightarrow> re_owner r = Some owner"
  shows "\<exists>counts' t'. free_remaining x (counts, t) = Some (counts', t') \<and> table_ok late t' \<and> shrinks t t' \<and> owns_only owner xs t'"
proof (cases "find_resource x t")
  case None
  then have "kind t x = None" by (simp add: kind_def)
  then have "owns_only owner xs t" using owns unfolding owns_only_def by (metis option.distinct(1) set_ConsD)
  then show ?thesis using None ok by (simp add: free_remaining_def free_any_absent)
next
  case (Some r)
  have kind: "kind t x = Some (re_type r, Some owner)" using Some theirs by (simp add: kind_def)
  then have "re_type r \<noteq> RT_Window" using owns by (auto simp: owns_only_def)
  then have window: "find_window x t = None" using type_of_payload(1) [OF ok_parts(1) [OF ok] Some] Some
    by (cases "re_payload r") (simp_all add: find_window_def)
  obtain t' where t': "free_any x t = Some t'" "table_ok late t'" "shrinks t t'" "find_resource x t' = None"
    using free_any_owned [OF ok Some theirs [OF Some] window] by blast
  have "kind t' x = None" using t'(4) by (simp add: kind_def)
  moreover have "type \<noteq> RT_Window \<and> y \<in> set (x # xs)" if "kind t' y = Some (type, Some owner)" for y type
    using owns t'(3) that unfolding owns_only_def shrinks_def by blast
  ultimately have "owns_only owner xs t'" unfolding owns_only_def by (metis option.distinct(1) set_ConsD)
  then show ?thesis using t' by (simp add: free_remaining_def)
qed

lemma free_remaining_all:
  "table_ok late t \<Longrightarrow> owns_only owner xs t \<Longrightarrow> (\<And>x r. x \<in> set xs \<Longrightarrow> find_resource x t = Some r \<Longrightarrow> re_owner r = Some owner) \<Longrightarrow>
     \<exists>counts' t'. fold_option free_remaining xs (counts, t) = Some (counts', t') \<and> table_ok late t' \<and> shrinks t t' \<and> owns_only owner [] t'"
proof (induction xs arbitrary: counts t)
  case (Cons x xs)
  obtain counts1 t1 where t1: "free_remaining x (counts, t) = Some (counts1, t1)" "table_ok late t1" "shrinks t t1" "owns_only owner xs t1"
    using free_remaining_step [OF Cons.prems(1,2)] Cons.prems(3) by (metis list.set_intros(1))
  have "re_owner r = Some owner" if "y \<in> set xs" "find_resource y t1 = Some r" for y r
  proof -
    have "kind t y = Some (re_type r, re_owner r)" using t1(3) that(2) by (simp add: shrinks_def kind_def)
    then show ?thesis using Cons.prems(3) [of y] that(1) by (auto simp: kind_def)
  qed
  then obtain counts2 t2 where "fold_option free_remaining xs (counts1, t1) = Some (counts2, t2)" "table_ok late t2" "shrinks t1 t2" "owns_only owner [] t2"
    using Cons.IH [OF t1(2,4), of counts1] by blast
  then show ?case using t1(1) shrinks_trans [OF t1(3)] by auto
qed auto

section \<open>The whole cleanup\<close>

lemma prepare_returns:
  assumes ok: "table_ok late t0"
  shows "\<exists>plan t. prepare_client_cleanup owner t0 = Some (plan, t) \<and> cp_owner plan = owner \<and> table_ok late t \<and> silent owner t \<and>
    sm_root_window (rt_screen t) \<notin> set (cp_roots plan) \<and> reached owner (cp_roots plan) t"
proof -
  define t where "t = remove_gw_scale_selections owner (remove_event_selections owner t0)"
  have okay: "table_ok late t" using ok by (simp add: t_def event_selections_ok)
  have silent: "silent owner t"
    by (auto simp: silent_def t_def remove_gw_scale_selections_def remove_event_selections_def view_update_windows find_window_def
        find_update_windows view_def split: option.splits payload.splits)
  show ?thesis
  proof (cases "fmlookup (rt_by_owner t) owner")
    case None
    then have "owned_ids owner t = []" by (simp add: owned_ids_def)
    moreover have "y \<in> set (owned_ids owner t)" if "kind t y = Some (type, Some owner)" for y type
      using ok_parts(2) [OF okay] that unfolding owners_ok_def by blast
    ultimately have "kind t y \<noteq> Some (type, Some owner)" for y type by auto
    then have "reached owner [] t" by (auto simp: reached_def owned_window_def)
    then show ?thesis using None okay silent by (simp add: prepare_client_cleanup_def t_def [symmetric] Let_def)
  next
    case (Some owned)
    then have owned: "owned_ids owner t = owned" by (simp add: owned_ids_def)
    have mem: "x \<in> set owned \<longleftrightarrow> (\<exists>type. kind t x = Some (type, Some owner))" for x
      using ok_parts(2) [OF okay] by (simp add: owners_ok_def flip: owned)
    have inner: "x \<noteq> sm_root_window (rt_screen t)" if "x \<in> set owned" for x
      using that ok_parts(4) [OF okay] by (auto simp: mem root_ok_def)
    define roots where "roots = filter (top_window owner t) (rev owned)"
    have roots: "fold_option (collect_root owner t) (rev owned) [] = Some roots"
      using collect_roots [OF okay, of "rev owned" owner "[]"] inner by (simp add: roots_def)
    let ?k = "\<lparr>ks_table = t, ks_captured = {||}, ks_postorder = [], ks_affects_policy = False\<rparr>"
    obtain k where k: "fold_option (\<lambda>root k. capture_cleanup [(root, False)] k) roots ?k = Some k" "alike t (ks_table k)"
      using capture_cleanup_returns [OF ok_parts(5) [OF okay], of ?k roots] by auto
    have "reached owner roots t"
      unfolding reached_def
    proof (intro allI impI)
      fix x assume "owned_window owner t x"
      then obtain r where r: "owned_window owner t r" "top_window owner t r" "(x, r) \<in> (child_relation t)\<^sup>*"
        using below_top [OF okay] by blast
      then have "r \<in> set roots" by (simp add: roots_def mem owned_window_def)
      then show "\<exists>r \<in> set roots. (x, r) \<in> (child_relation t)\<^sup>*" using r(3) by blast
    qed
    then have "reached owner roots (ks_table k)"
      by (simp add: reached_def owned_window_def alike_relation [OF k(2)] alike_window [OF k(2)] alike_kind [OF k(2)])
    moreover have "table_ok late (ks_table k)" "silent owner (ks_table k)" "rt_screen (ks_table k) = rt_screen t"
      using okay silent k(2) alike_ok [OF k(2)] by (simp_all add: silent_def alike_def)
    moreover have "sm_root_window (rt_screen t) \<notin> set roots" using inner by (auto simp: roots_def)
    ultimately show ?thesis using Some roots k(1) by (simp add: prepare_client_cleanup_def t_def [symmetric] Let_def)
  qed
qed

lemma commit_cleanup:
  assumes ok: "table_ok late t" and inner: "sm_root_window (rt_screen t) \<notin> set (cp_roots plan)" and reached: "reached (cp_owner plan) (cp_roots plan) t"
  shows "\<exists>counts t'. commit_client_cleanup plan t = Some (counts, t') \<and> table_ok late t' \<and> shrinks t t' \<and>
    (\<forall>y type. kind t' y \<noteq> Some (type, Some (cp_owner plan)))"
proof -
  obtain counts1 t1 where t1: "fold_option destroy_root (cp_roots plan) (no_counts, t) = Some (counts1, t1)" "table_ok late t1" "shrinks t t1"
    "reached (cp_owner plan) [] t1" using destroy_roots [OF ok inner reached, of no_counts] by blast
  have members: "y \<in> set (owned_ids (cp_owner plan) t1) \<longleftrightarrow> (\<exists>type. kind t1 y = Some (type, Some (cp_owner plan)))" for y
    using ok_parts(2) [OF t1(2)] by (simp add: owners_ok_def)
  have "owns_only (cp_owner plan) (owned_ids (cp_owner plan) t1) t1"
    unfolding owns_only_def
  proof (intro allI impI conjI notI)
    fix y type assume y: "kind t1 y = Some (type, Some (cp_owner plan))"
    then show "y \<in> set (owned_ids (cp_owner plan) t1)" by (auto simp: members)
    assume "type = RT_Window"
    then have "view (Some \<circ> payload_type) t1 y = Some RT_Window" using ok_parts(1) [OF t1(2)] y by (simp add: typed_def)
    then have "owned_window (cp_owner plan) t1 y" using y by (simp add: owned_window_def type_window)
    then show False using t1(4) by (simp add: reached_def)
  qed
  moreover have "re_owner r = Some (cp_owner plan)" if "y \<in> set (owned_ids (cp_owner plan) t1)" "find_resource y t1 = Some r" for y r
    using that by (auto simp: members kind_def)
  ultimately obtain counts2 t2 where t2: "fold_option free_remaining (owned_ids (cp_owner plan) t1) (counts1, t1) = Some (counts2, t2)"
    "table_ok late t2" "shrinks t1 t2" "owns_only (cp_owner plan) [] t2"
    using free_remaining_all [OF t1(2)] by blast
  have "\<forall>y type. kind t2 y \<noteq> Some (type, Some (cp_owner plan))" using t2(4) by (auto simp: owns_only_def)
  then show ?thesis using t1(1) t2 shrinks_trans [OF t1(3) t2(3)] by (simp add: commit_client_cleanup_def)
qed

lemma cleanup_client_ok:
  assumes ok: "table_ok late t"
  shows "\<exists>counts t'. cleanup_client owner t = Some (counts, t') \<and> table_ok late t' \<and> silent owner t' \<and>
    (\<forall>y type. kind t' y \<noteq> Some (type, Some owner))"
proof -
  obtain plan u where u: "prepare_client_cleanup owner t = Some (plan, u)" "cp_owner plan = owner" "table_ok late u" "silent owner u"
    "sm_root_window (rt_screen u) \<notin> set (cp_roots plan)" "reached owner (cp_roots plan) u" using prepare_returns [OF ok] by blast
  obtain counts t' where "commit_client_cleanup plan u = Some (counts, t')" "table_ok late t'" "shrinks u t'"
    "\<forall>y type. kind t' y \<noteq> Some (type, Some owner)" using commit_cleanup [OF u(3,5)] u(2,6) by auto
  then show ?thesis using u shrinks_silent by (auto simp: cleanup_client_def)
qed

end
