(* ===== verification/Bytes.thy ===== *)
theory Bytes
  imports Prelude
begin

text \<open>
  Little-endian byte strings and the 64-bit FNV-1a hash, as the hashing and encoding code of
  the repository uses them.
\<close>

section \<open>Bytes of a word\<close>

text \<open>The loop that emits the low byte and shifts right by eight, \<open>n\<close> times.\<close>

fun little_bytes :: "nat \<Rightarrow> 'a::len word \<Rightarrow> u8 list" where
  "little_bytes 0 w = []"
| "little_bytes (Suc n) w = ucast w # little_bytes n (drop_bit 8 w)"

fun little_value :: "u8 list \<Rightarrow> nat" where
  "little_value [] = 0"
| "little_value (b # bs) = unat b + 256 * little_value bs"

definition bool_byte :: "bool \<Rightarrow> u8" where
  "bool_byte b = (if b then 1 else 0)"

lemma length_little_bytes [simp]: "length (little_bytes n w) = n"
  by (induction n arbitrary: w) simp_all

lemma unat_drop_bit8: "unat (drop_bit 8 w) = unat w div 256" for w :: "'a::len word"
  unfolding unat_drop_bit_eq by (simp add: drop_bit_eq_div)

lemma little_value_bytes: "little_value (little_bytes n w) = unat w mod 256 ^ n"
proof (induction n arbitrary: w)
  case (Suc n)
  have "unat (ucast w :: u8) = unat w mod 256" 
    unfolding unsigned_ucast_eq unsigned_take_bit_eq by (simp add: take_bit_eq_mod)
  then have "little_value (little_bytes (Suc n) w) = unat w mod 256 + 256 * (unat w div 256 mod 256 ^ n)"
    by (simp add: Suc unat_drop_bit8)
  then show ?case by (simp add: mod_mult2_eq)
qed simp

lemma unat_less_bytes: "LENGTH('a) = 8 * n \<Longrightarrow> unat (w :: 'a::len word) < 256 ^ n"
  using unsigned_less [of w, where ?'a = nat] by (simp add: power_mult)

text \<open>As many bytes as the word has determine the word.\<close>

lemma little_bytes_inject:
  fixes v w :: "'a::len word"
  assumes "LENGTH('a) = 8 * n"
  shows "little_bytes n v = little_bytes n w \<longleftrightarrow> v = w"
proof
  assume "little_bytes n v = little_bytes n w"
  then have "unat v mod 256 ^ n = unat w mod 256 ^ n" by (simp flip: little_value_bytes)
  then have "unat v = unat w"
    using unat_less_bytes [OF assms, of v] unat_less_bytes [OF assms, of w] by simp
  then show "v = w" by (rule unsigned_word_eqI)
qed simp

lemma bool_byte_inject [simp]: "bool_byte a = bool_byte b \<longleftrightarrow> a = b"
  by (simp add: bool_byte_def)

section \<open>FNV-1a\<close>

definition hash_byte :: "u64 \<Rightarrow> u8 \<Rightarrow> u64" where
  "hash_byte h v = (h XOR ucast v) * 1099511628211"

fun hash_little :: "nat \<Rightarrow> u64 \<Rightarrow> u64 \<Rightarrow> u64" where
  "hash_little 0 h bits = h"
| "hash_little (Suc n) h bits = hash_little n (hash_byte h (ucast bits)) (drop_bit 8 bits)"

definition hash_basis :: u64 where
  "hash_basis = 14695981039346656037"

definition hash_bytes :: "u64 \<Rightarrow> u8 list \<Rightarrow> u64" where
  "hash_bytes h bs = fold (\<lambda>b h. hash_byte h b) bs h"

lemma hash_bytes_simps [simp]:
  "hash_bytes h [] = h" "hash_bytes h (b # bs) = hash_bytes (hash_byte h b) bs"
  "hash_bytes h (bs @ cs) = hash_bytes (hash_bytes h bs) cs"
  by (simp_all add: hash_bytes_def)

lemma hash_little_bytes: "hash_little n h w = hash_bytes h (little_bytes n w)"
  by (induction n arbitrary: h w) simp_all

text \<open>The prime is odd, hence invertible modulo two to the 64: no step loses information.\<close>

lemma fnv_prime_inverse: "(1099511628211 :: u64) * 14886173955864302971 = 1"
  by simp

lemma hash_byte_inject: "hash_byte h a = hash_byte h' b \<longleftrightarrow> h XOR ucast a = h' XOR ucast b"
proof
  assume "hash_byte h a = hash_byte h' b"
  then have "(h XOR ucast a) * (1099511628211 * 14886173955864302971)
           = (h' XOR ucast b) * (1099511628211 * 14886173955864302971)"
    unfolding hash_byte_def by (simp only: mult.assoc [symmetric])
  then show "h XOR ucast a = h' XOR ucast b" by (simp only: fnv_prime_inverse mult_1_right)
qed (simp add: hash_byte_def)

lemma xor_left_cancel: "h XOR a = h XOR b \<longleftrightarrow> a = b" for a b h :: "'a::len word"
  by (metis xor.assoc xor_self_eq xor.left_neutral)

lemma xor_right_cancel: "a XOR h = b XOR h \<longleftrightarrow> a = b" for a b h :: "'a::len word"
  by (metis xor.commute xor_left_cancel)

lemma ucast_u8_u64_inject: "(ucast a :: u64) = ucast b \<longleftrightarrow> a = b" for a b :: u8
proof
  assume "(ucast a :: u64) = ucast b"
  moreover have "(ucast (ucast c :: u64) :: u8) = c" for c :: u8
    by (rule bit_word_eqI) (simp add: bit_simps)
  ultimately show "a = b" by metis
qed simp

lemma hash_bytes_state_inject: "hash_bytes h bs = hash_bytes h' bs \<longleftrightarrow> h = h'"
  by (induction bs arbitrary: h h') (simp_all add: hash_byte_inject xor_right_cancel)

text \<open>Streams that differ in one byte have different hashes.\<close>

lemma hash_bytes_one_byte: "hash_bytes h (as @ a # bs) = hash_bytes h (as @ b # bs) \<longleftrightarrow> a = b"
  by (simp add: hash_bytes_state_inject hash_byte_inject xor_left_cancel ucast_u8_u64_inject)

end
