(* ===== verification/Wire_Bytes.thy ===== *)
theory Wire_Bytes
  imports Bytes
begin

text \<open>
  Reading and writing of the little-endian fields of a message (\<open>ipc/wire/byte_reader.hpp\<close>,
  \<open>ipc/wire/byte_writer.hpp\<close>). A reader is the bytes that remain, \<open>None\<close> is a read past the end. A
  writer is the bytes a field appends. An enumeration with a fixed underlying type is its integer.
\<close>

unbundle bit_operations_syntax

section \<open>Model\<close>

datatype codec_error = Truncated | TrailingData | InvalidValue | LimitExceeded | SizeMismatch

definition write_u8 :: "u8 \<Rightarrow> u8 list" where
  "write_u8 v = [v]"

definition write_u16 :: "u16 \<Rightarrow> u8 list" where
  "write_u16 v = write_u8 (ucast v) @ write_u8 (ucast (drop_bit 8 v))"

definition write_u32 :: "u32 \<Rightarrow> u8 list" where
  "write_u32 v = write_u16 (ucast v) @ write_u16 (ucast (drop_bit 16 v))"

definition write_i32 :: "i32 \<Rightarrow> u8 list" where
  "write_i32 v = write_u32 v"

definition write_u64 :: "u64 \<Rightarrow> u8 list" where
  "write_u64 v = write_u32 (ucast v) @ write_u32 (ucast (drop_bit 32 v))"

definition write_bool :: "bool \<Rightarrow> u8 list" where
  "write_bool v = write_u8 (bool_byte v)"

fun read_u8 :: "u8 list \<Rightarrow> (u8 \<times> u8 list) option" where
  "read_u8 [] = None"
| "read_u8 (b # bs) = Some (b, bs)"

definition read_u16 :: "u8 list \<Rightarrow> (u16 \<times> u8 list) option" where
  "read_u16 b = do {
     (low, b) \<leftarrow> read_u8 b;
     (high, b) \<leftarrow> read_u8 b;
     Some (ucast low OR push_bit 8 (ucast high), b) }"

definition read_u32 :: "u8 list \<Rightarrow> (u32 \<times> u8 list) option" where
  "read_u32 b = do {
     (low, b) \<leftarrow> read_u16 b;
     (high, b) \<leftarrow> read_u16 b;
     Some (ucast low OR push_bit 16 (ucast high), b) }"

definition read_i32 :: "u8 list \<Rightarrow> (i32 \<times> u8 list) option" where
  "read_i32 b = read_u32 b"

definition read_u64 :: "u8 list \<Rightarrow> (u64 \<times> u8 list) option" where
  "read_u64 b = do {
     (low, b) \<leftarrow> read_u32 b;
     (high, b) \<leftarrow> read_u32 b;
     Some (ucast low OR push_bit 32 (ucast high), b) }"

definition read_bytes :: "nat \<Rightarrow> u8 list \<Rightarrow> (u8 list \<times> u8 list) option" where
  "read_bytes octets b = (if length b < octets then None else Some (take octets b, drop octets b))"

text \<open>
  The end of every decoder of a message of fixed size: the fields were read or the message is too
  short, nothing may remain, and the value and the other bytes that were read are checked.
\<close>

definition checked :: "(('v \<times> 'z) \<times> u8 list) option \<Rightarrow> ('v \<Rightarrow> 'z \<Rightarrow> bool) \<Rightarrow> codec_error + 'v" where
  "checked r invalid =
     (case r of
        None \<Rightarrow> Inl Truncated
      | Some ((x, z), rest) \<Rightarrow> if rest \<noteq> [] then Inl TrailingData else if invalid x z then Inl InvalidValue else Inr x)"

section \<open>Fields\<close>

text \<open>
  What a kind of field promises: it is written with a fixed number of bytes, and a read succeeds exactly
  on the bytes of a value followed by what it leaves.
\<close>

locale field =
  fixes put :: "'a \<Rightarrow> u8 list" and get :: "u8 list \<Rightarrow> ('a \<times> u8 list) option" and octets :: nat
  assumes read_iff: "get b = Some (v, rest) \<longleftrightarrow> b = put v @ rest"
    and write_length: "length (put v) = octets"
    and read_long: "octets \<le> length b \<Longrightarrow> \<exists>v rest. get b = Some (v, rest)"
begin

lemma read_write: "get (put v @ rest) = Some (v, rest)"
  by (simp add: read_iff)

lemma read_last: "get (put v) = Some (v, [])"
  using read_write [of v "[]"] by simp

lemma read_short: "get b = None \<longleftrightarrow> length b < octets"
proof
  assume "get b = None"
  then show "length b < octets" using read_long [of b] by force
next
  assume "length b < octets"
  moreover have "octets \<le> length b" if "get b = Some (v, rest)" for v rest
    using that write_length [of v] by (simp add: read_iff)
  ultimately show "get b = None" by (cases "get b") force+
qed

text \<open>Reading one field first, in a sequence of reads.\<close>

lemma bind_iff: "(get b \<bind> (\<lambda>(v, b'). k v b')) = Some y \<longleftrightarrow> (\<exists>v rest. b = put v @ rest \<and> k v rest = Some y)"
  by (auto simp: bind_eq_Some_conv read_iff)

lemma bind_write: "(get (put v @ rest) \<bind> (\<lambda>(v, b'). k v b')) = k v rest"
  by (simp add: read_write)

end

named_theorems fields \<open>the laws of the fields\<close>
named_theorems wire \<open>the definitions of the messages\<close>

interpretation fu8: field write_u8 read_u8 1
proof
  show "read_u8 b = Some (v, rest) \<longleftrightarrow> b = write_u8 v @ rest" for b v rest by (cases b) (auto simp: write_u8_def)
  show "length (write_u8 v) = 1" for v by (simp add: write_u8_def)
  show "1 \<le> length b \<Longrightarrow> \<exists>v rest. read_u8 b = Some (v, rest)" for b by (cases b) auto
qed

text \<open>Two halves make a word of twice the width, low half first.\<close>

locale halves = field put get octets
  for put :: "'h::len word \<Rightarrow> u8 list" and get and octets +
  fixes put2 :: "'w::len word \<Rightarrow> u8 list" and get2 :: "u8 list \<Rightarrow> ('w word \<times> u8 list) option"
  assumes width: "LENGTH('w) = 2 * LENGTH('h)"
    and put2: "put2 v = put (ucast v) @ put (ucast (drop_bit LENGTH('h) v))"
    and get2: "get2 b = get b \<bind> (\<lambda>(low, b). get b \<bind> (\<lambda>(high, b). Some (ucast low OR push_bit LENGTH('h) (ucast high), b)))"
begin

lemma join_low: "(ucast (ucast low OR push_bit LENGTH('h) (ucast high) :: 'w word) :: 'h word) = low"
  for high :: "'h word"
  by (rule bit_word_eqI) (auto simp: bit_simps width)

lemma join_high:
  "(ucast (drop_bit LENGTH('h) (ucast low OR push_bit LENGTH('h) (ucast high) :: 'w word)) :: 'h word) = high"
  for low :: "'h word"
  by (rule bit_word_eqI) (auto simp: bit_simps width dest: bit_imp_le_length)

lemma join_split: "(ucast (ucast v :: 'h word) OR push_bit LENGTH('h) (ucast (ucast (drop_bit LENGTH('h) v) :: 'h word)) :: 'w word) = v"
  by (rule bit_word_eqI) (auto simp: bit_simps width dest: bit_imp_le_length)

lemma double: "field put2 get2 (2 * octets)"
proof
  show "get2 b = Some (v, rest) \<longleftrightarrow> b = put2 v @ rest" for b v rest
  proof
    assume "get2 b = Some (v, rest)"
    then obtain low high where b: "b = put low @ put high @ rest" "v = ucast low OR push_bit LENGTH('h) (ucast high)"
      by (auto simp: get2 bind_eq_Some_conv read_iff)
    show "b = put2 v @ rest" unfolding put2 b(2) join_low join_high by (simp add: b(1))
  next
    assume "b = put2 v @ rest"
    then have "get2 b = Some (ucast (ucast v :: 'h word) OR push_bit LENGTH('h) (ucast (ucast (drop_bit LENGTH('h) v) :: 'h word)), rest)"
      by (simp add: get2 put2 read_write)
    then show "get2 b = Some (v, rest)" unfolding join_split .
  qed
  show "length (put2 v) = 2 * octets" for v by (simp add: put2 write_length)
  fix b :: "u8 list" assume long: "2 * octets \<le> length b"
  then obtain low rest where l: "get b = Some (low, rest)" using read_long [of b] by auto
  then have "octets \<le> length rest" using long write_length [of low] by (simp add: read_iff)
  then obtain high rest' where "get rest = Some (high, rest')" using read_long by blast
  with l show "\<exists>v rest. get2 b = Some (v, rest)" by (simp add: get2)
qed

end

interpretation h16: halves write_u8 read_u8 1 write_u16 read_u16
  by unfold_locales (simp_all add: write_u16_def read_u16_def)

interpretation fu16: field write_u16 read_u16 2
  using h16.double by simp

interpretation h32: halves write_u16 read_u16 2 write_u32 read_u32
  by unfold_locales (simp_all add: write_u32_def read_u32_def)

interpretation fu32: field write_u32 read_u32 4
  using h32.double by simp

interpretation fi32: field write_i32 read_i32 4
  unfolding write_i32_def [abs_def] read_i32_def [abs_def] by (rule fu32.field_axioms)

interpretation h64: halves write_u32 read_u32 4 write_u64 read_u64
  by unfold_locales (simp_all add: write_u64_def read_u64_def)

interpretation fu64: field write_u64 read_u64 8
  using h64.double by simp

lemmas field_laws = fu8.field_axioms fu16.field_axioms fu32.field_axioms fi32.field_axioms fu64.field_axioms

lemmas read_writes [fields] = fu8.read_write fu16.read_write fu32.read_write fi32.read_write fu64.read_write

lemmas read_lasts [fields] = fu8.read_last fu16.read_last fu32.read_last fi32.read_last fu64.read_last

lemmas read_iffs = fu8.read_iff fu16.read_iff fu32.read_iff fi32.read_iff fu64.read_iff

lemmas write_lengths [fields] = fu8.write_length fu16.write_length fu32.write_length fi32.write_length fu64.write_length

lemma write_bool_length [fields]: "length (write_bool v) = 1"
  by (simp add: write_bool_def write_lengths)

section \<open>Sequences of fields\<close>

text \<open>A sequence of reads consumes a number of bytes when it succeeds exactly if there are as many.\<close>

definition consumes :: "nat \<Rightarrow> (u8 list \<Rightarrow> ('a \<times> u8 list) option) \<Rightarrow> bool" where
  "consumes n r \<longleftrightarrow> (\<forall>b. if length b < n then r b = None
     else \<exists>v. r b = Some (v, drop n b))"

lemma consumes_return: "consumes 0 (\<lambda>b. Some (v, b))"
  by (simp add: consumes_def)

lemma consumes_bind:
  assumes "consumes n r" "\<And>v. consumes m (k v)"
  shows "consumes (n + m) (\<lambda>b. r b \<bind> (\<lambda>(v, b'). k v b'))"
  unfolding consumes_def
proof (intro allI)
  fix b
  show "if length b < n + m then r b \<bind> (\<lambda>(v, b'). k v b') = None
      else \<exists>v. r b \<bind> (\<lambda>(v, b'). k v b') = Some (v, drop (n + m) b)"
  proof (cases "length b < n")
    case True
    with assms(1) have "r b = None" by (simp add: consumes_def)
    with True show ?thesis by simp
  next
    case False
    with assms(1) obtain v where v: "r b = Some (v, drop n b)" unfolding consumes_def by metis
    from assms(2) [of v] have "if length (drop n b) < m then k v (drop n b) = None
        else \<exists>w. k v (drop n b) = Some (w, drop m (drop n b))" unfolding consumes_def by blast
    with v False show ?thesis by (auto simp: add.commute split: if_splits)
  qed
qed

context field
begin

lemma consumes_field: "consumes octets get"
  unfolding consumes_def
proof (intro allI)
  fix b
  show "if length b < octets then get b = None else \<exists>v. get b = Some (v, drop octets b)"
  proof (cases "length b < octets")
    case True
    then show ?thesis by (simp add: read_short)
  next
    case False
    then obtain v rest where v: "get b = Some (v, rest)" using read_long [of b] by auto
    then have "rest = drop octets b" using write_length [of v] by (auto simp: read_iff)
    with v False show ?thesis by simp
  qed
qed

end

lemma read_bytes_iff: "read_bytes n b = Some (v, rest) \<longleftrightarrow> length v = n \<and> b = v @ rest"
  by (auto simp: read_bytes_def)

lemma read_bytes_write [fields]:
  "length v = n \<Longrightarrow> read_bytes n (v @ rest) = Some (v, rest)" "length v = n \<Longrightarrow> read_bytes n v = Some (v, [])"
  by (simp_all add: read_bytes_def)

lemma consumes_bytes: "consumes n (read_bytes n)"
  by (simp add: consumes_def read_bytes_def)

lemmas consumes_fields = consumes_bytes  fu8.consumes_field fu16.consumes_field fu32.consumes_field fi32.consumes_field fu64.consumes_field

lemmas consumes_sequence = consumes_return consumes_bind consumes_fields

lemma consumes_eq: "consumes m r \<Longrightarrow> m = n \<Longrightarrow> consumes n r"
  by simp

section \<open>Messages\<close>

text \<open>
  What every message promises its users: decoding succeeds exactly on the encodings of valid values. So a
  valid value survives the wire, and a decoder accepts one form of it only.
\<close>

locale codec =
  fixes encode :: "'v \<Rightarrow> u8 list" and valid :: "'v \<Rightarrow> bool" and decode :: "u8 list \<Rightarrow> codec_error + 'v"
  assumes decode_iff: "decode b = Inr v \<longleftrightarrow> valid v \<and> b = encode v"
begin

lemma decode_encode: "valid v \<Longrightarrow> decode (encode v) = Inr v"
  by (simp add: decode_iff)

lemma encode_inject: "valid v \<Longrightarrow> valid w \<Longrightarrow> encode v = encode w \<Longrightarrow> v = w"
  by (metis decode_encode sum.inject(2))

end

text \<open>For a message of fixed size the errors also say what is wrong with the length.\<close>

locale message = codec encode valid decode
  for octets :: nat and encode :: "'v \<Rightarrow> u8 list" and valid and decode +
  assumes truncated_iff: "decode b = Inl Truncated \<longleftrightarrow> length b < octets"
    and trailing_iff: "decode b = Inl TrailingData \<longleftrightarrow> octets < length b"
    and errors: "decode b = Inl e \<Longrightarrow> e = Truncated \<or> e = TrailingData \<or> e = InvalidValue"
begin

lemma encode_octets: "valid v \<Longrightarrow> length (encode v) = octets"
  using truncated_iff [of "encode v"] trailing_iff [of "encode v"] by (auto simp: decode_encode)

lemma invalid_iff: "decode b = Inl InvalidValue \<longleftrightarrow> length b = octets \<and> (\<forall>v. valid v \<longrightarrow> b \<noteq> encode v)"
proof (cases "decode b")
  case (Inl e)
  then show ?thesis
    using errors [OF Inl] truncated_iff [of b] trailing_iff [of b] decode_iff [of b] by auto
next
  case (Inr v)
  then show ?thesis using decode_iff [of b v] by auto
qed

end

text \<open>How a decoder of the usual form gets there.\<close>

lemma messageI:
  assumes c: "consumes n r"
    and canonical: "\<And>b x z rest. r b = Some ((x, z), rest) \<Longrightarrow> \<not> invalid x z \<Longrightarrow> b = encode x @ rest \<and> valid x"
    and complete: "\<And>v. valid v \<Longrightarrow> \<exists>z. r (encode v) = Some ((v, z), []) \<and> \<not> invalid v z"
  shows "message n encode valid (\<lambda>b. checked (r b) invalid)"
proof
  have c': "if length b < n then r b = None else \<exists>v. r b = Some (v, drop n b)" for b
    using c unfolding consumes_def by blast
  show "checked (r b) invalid = Inr v \<longleftrightarrow> valid v \<and> b = encode v" for b v
  proof
    assume "checked (r b) invalid = Inr v"
    then obtain z where "r b = Some ((v, z), [])" "\<not> invalid v z"
      by (auto simp: checked_def split: option.splits prod.splits if_splits)
    from canonical [OF this] show "valid v \<and> b = encode v" by simp
  next
    assume "valid v \<and> b = encode v"
    with complete [of v] show "checked (r b) invalid = Inr v" by (auto simp: checked_def)
  qed
  show "checked (r b) invalid = Inl Truncated \<longleftrightarrow> length b < n" for b
    using c' [of b] by (auto simp: checked_def split: if_splits prod.splits)
  show "checked (r b) invalid = Inl TrailingData \<longleftrightarrow> n < length b" for b
    using c' [of b] by (auto simp: checked_def split: if_splits prod.splits)
  show "checked (r b) invalid = Inl e \<Longrightarrow> e = Truncated \<or> e = TrailingData \<or> e = InvalidValue" for b e
    by (auto simp: checked_def split: if_splits prod.splits option.splits)
qed

text \<open>A byte that is at most one is the byte of a truth value.\<close>

lemma write_small_byte: "\<not> 1 < o' \<Longrightarrow> write_u8 o' = write_bool (o' \<noteq> 0)"
proof -
  assume "\<not> 1 < o'"
  then have "unat o' \<le> 1" by (simp add: word_le_nat_alt not_less)
  then have "unat o' = unat (0 :: u8) \<or> unat o' = unat (1 :: u8)" by auto
  then have "o' = 0 \<or> o' = 1" using unsigned_word_eqI by blast
  then show ?thesis by (auto simp: write_bool_def bool_byte_def)
qed

text \<open>A value of at most two fits into a byte.\<close>

lemma tri_byte [simp]: "(ucast (ucast d :: u16) :: u8) = d" for d :: u8
  by (rule bit_word_eqI) (auto simp: bit_simps)

lemma tri_small: "(ucast d :: u16) \<le> 2 \<longleftrightarrow> d \<le> 2" "(2 < (ucast d :: u16)) \<longleftrightarrow> 2 < d" for d :: u8
proof -
  have "unat (ucast d :: u16) = unat d"
    using unsigned_less [of d, where ?'a = nat] by (simp add: unsigned_ucast_eq take_bit_nat_eq_self)
  then show "(ucast d :: u16) \<le> 2 \<longleftrightarrow> d \<le> 2" "(2 < (ucast d :: u16)) \<longleftrightarrow> 2 < d"
    by (simp_all add: word_le_nat_alt word_less_nat_alt)
qed

lemma tri_value: "t \<le> 2 \<Longrightarrow> ucast (ucast t :: u8) = t" "t \<le> 2 \<Longrightarrow> (ucast t :: u8) \<le> 2" for t :: u16
proof -
  assume "t \<le> 2"
  then have "unat t = unat (0 :: u16) \<or> unat t = unat (1 :: u16) \<or> unat t = unat (2 :: u16)"
    by (auto simp: word_le_nat_alt)
  then have "t = 0 \<or> t = 1 \<or> t = 2" using unsigned_word_eqI by blast
  then show "ucast (ucast t :: u8) = t" "(ucast t :: u8) \<le> 2" by auto
qed

lemma read_bool [fields]: "read_u8 (write_bool v @ rest) = Some (bool_byte v, rest)"
  by (simp add: write_bool_def fields)

lemma bool_byte_facts [simp]: "bool_byte v \<noteq> 0 \<longleftrightarrow> v" "\<not> 1 < bool_byte v" "bool_byte v = 0 \<longleftrightarrow> \<not> v"
  by (simp_all add: bool_byte_def)

lemma word_one_le: "1 \<le> w \<longleftrightarrow> w \<noteq> 0" for w :: "'a::len word"
  by (metis not_less word_less_1)

lemmas canonical = bind_eq_Some_conv read_iffs read_bytes_iff write_small_byte tri_small not_less word_one_le

lemmas complete = fields tri_value not_less word_one_le

end
