(* ===== verification/X11_Wire.thy ===== *)
theory X11_Wire
  imports Wire_Bytes
begin

text \<open>
  The wire form of the core protocol (\<open>protocol/x11\<close>): fields in the byte order of the client
  (\<open>byte_order.hpp\<close>, \<open>byte_cursor.hpp\<close>), the numbers of \<open>core.hpp\<close>, events, replies and errors.

  A reader is the bytes that remain, \<open>None\<close> is a read past the end; a writer is the bytes it appends.
  A signed field of sixteen bits is its bit pattern, which is all that is sent of it.
\<close>

unbundle bit_operations_syntax

section \<open>Fields in either byte order\<close>

datatype byte_order = LittleEndian | BigEndian

definition byte_order_from_marker :: "u8 \<Rightarrow> byte_order option" where
  "byte_order_from_marker marker = (if marker = 0x6c then Some LittleEndian else if marker = 0x42 then Some BigEndian else None)"

definition x11_write_u16 :: "byte_order \<Rightarrow> u16 \<Rightarrow> u8 list" where
  "x11_write_u16 order v =
     (if order = LittleEndian then [ucast v, ucast (drop_bit 8 v)] else [ucast (drop_bit 8 v), ucast v])"

definition x11_write_u32 :: "byte_order \<Rightarrow> u32 \<Rightarrow> u8 list" where
  "x11_write_u32 order v =
     (if order = LittleEndian then [ucast v, ucast (drop_bit 8 v), ucast (drop_bit 16 v), ucast (drop_bit 24 v)]
      else [ucast (drop_bit 24 v), ucast (drop_bit 16 v), ucast (drop_bit 8 v), ucast v])"

definition write_padding :: "nat \<Rightarrow> u8 list" where
  "write_padding octets = replicate octets 0"

fun x11_read_u16 :: "byte_order \<Rightarrow> u8 list \<Rightarrow> (u16 \<times> u8 list) option" where
  "x11_read_u16 order (a # b # rest) =
     Some (if order = LittleEndian then ucast a OR push_bit 8 (ucast b) else push_bit 8 (ucast a) OR ucast b, rest)"
| "x11_read_u16 order _ = None"

fun x11_read_u32 :: "byte_order \<Rightarrow> u8 list \<Rightarrow> (u32 \<times> u8 list) option" where
  "x11_read_u32 order (a # b # c # d # rest) =
     Some (if order = LittleEndian
           then ucast a OR push_bit 8 (ucast b) OR push_bit 16 (ucast c) OR push_bit 24 (ucast d)
           else push_bit 24 (ucast a) OR push_bit 16 (ucast b) OR push_bit 8 (ucast c) OR ucast d, rest)"
| "x11_read_u32 order _ = None"

definition skip_bytes :: "nat \<Rightarrow> u8 list \<Rightarrow> u8 list option" where
  "skip_bytes octets b = (if octets > length b then None else Some (drop octets b))"

text \<open>Big-endian fields are little-endian ones backwards.\<close>

lemma write_u16_order: "x11_write_u16 order v = (if order = LittleEndian then write_u16 v else rev (write_u16 v))"
  by (simp add: x11_write_u16_def write_u16_def write_u8_def)

lemma write_u32_order: "x11_write_u32 order v = (if order = LittleEndian then write_u32 v else rev (write_u32 v))"
proof -
  have "(ucast (drop_bit 8 (ucast v :: u16)) :: u8) = ucast (drop_bit 8 v)" "(ucast (ucast v :: u16) :: u8) = ucast v"
    "(ucast (drop_bit 8 (ucast (drop_bit 16 v) :: u16)) :: u8) = ucast (drop_bit 24 v)" "(ucast (ucast (drop_bit 16 v) :: u16) :: u8) = ucast (drop_bit 16 v)"
    by (rule bit_word_eqI; auto simp: bit_simps)+
  then show ?thesis by (simp add: x11_write_u32_def write_u32_def write_u16_def write_u8_def)
qed

lemma read_u16_order: "x11_read_u16 BigEndian (a # b # rest) = read_u16 (b # a # rest)" "x11_read_u16 LittleEndian (a # b # rest) = read_u16 (a # b # rest)"
  by (simp_all add: read_u16_def or.commute)

lemma read_u32_order:
  "x11_read_u32 BigEndian (a # b # c # d # rest) = read_u32 (d # c # b # a # rest)"
  "x11_read_u32 LittleEndian (a # b # c # d # rest) = read_u32 (a # b # c # d # rest)"
proof -
  have "(push_bit 24 (ucast a) OR push_bit 16 (ucast b) OR push_bit 8 (ucast c) OR ucast d :: u32) =
      ucast (ucast d OR push_bit 8 (ucast c) :: u16) OR push_bit 16 (ucast (ucast b OR push_bit 8 (ucast a) :: u16))"
    "(ucast a OR push_bit 8 (ucast b) OR push_bit 16 (ucast c) OR push_bit 24 (ucast d) :: u32) =
      ucast (ucast a OR push_bit 8 (ucast b) :: u16) OR push_bit 16 (ucast (ucast c OR push_bit 8 (ucast d) :: u16))"
    by (rule bit_word_eqI; auto simp: bit_simps dest: bit_imp_le_length)+
  then show "x11_read_u32 BigEndian (a # b # c # d # rest) = read_u32 (d # c # b # a # rest)"
    "x11_read_u32 LittleEndian (a # b # c # d # rest) = read_u32 (a # b # c # d # rest)"
    by (simp_all add: read_u32_def read_u16_def)
qed

text \<open>A field read backwards is a field.\<close>

lemma reversed_field:
  assumes "field put get octets"
    and get: "\<And>b. get' b = (if length b < octets then None else get (rev (take octets b) @ drop octets b))"
  shows "field (\<lambda>v. rev (put v)) get' octets"
proof
  note iff = field.read_iff [OF assms(1)] and len = field.write_length [OF assms(1)]
  show "get' b = Some (v, rest) \<longleftrightarrow> b = rev (put v) @ rest" for b v rest
  proof
    assume "get' b = Some (v, rest)"
    then have long: "octets \<le> length b" and "rev (take octets b) @ drop octets b = put v @ rest"
      by (simp_all add: get iff split: if_splits)
    then have "rev (take octets b) = put v" "drop octets b = rest" using len by (simp_all add: append_eq_append_conv)
    then show "b = rev (put v) @ rest" by (metis append_take_drop_id rev_rev_ident)
  next
    assume "b = rev (put v) @ rest"
    then show "get' b = Some (v, rest)" using len by (simp add: get iff)
  qed
  show "length (rev (put v)) = octets" for v by (simp add: len)
  fix b :: "u8 list" assume "octets \<le> length b"
  then show "\<exists>v rest. get' b = Some (v, rest)"
    using field.read_long [OF assms(1), of "rev (take octets b) @ drop octets b"] by (simp add: get)
qed

lemma long_two: "2 \<le> length b \<Longrightarrow> \<exists>x y rest. b = x # y # rest"
  by (cases b; cases "tl b") auto

lemma long_four: "4 \<le> length b \<Longrightarrow> \<exists>w x y z rest. b = w # x # y # z # rest"
  using long_two [of b] long_two [of "drop 2 b"] by fastforce

lemma x11_u16_field: "field (x11_write_u16 order) (x11_read_u16 order) 2"
proof (cases order)
  case LittleEndian
  have "x11_read_u16 LittleEndian b = read_u16 b" for b
  proof (cases "2 \<le> length b")
    case True
    then show ?thesis using long_two read_u16_order(2) by blast
  next
    case False
    then show ?thesis by (cases b; cases "tl b") (auto simp: read_u16_def)
  qed
  then have "x11_read_u16 LittleEndian = read_u16" by (rule ext)
  moreover have "x11_write_u16 LittleEndian = write_u16" by (rule ext) (simp add: write_u16_order)
  ultimately show ?thesis using LittleEndian fu16.field_axioms by simp
next
  case BigEndian
  have "x11_read_u16 BigEndian b = (if length b < 2 then None else read_u16 (rev (take 2 b) @ drop 2 b))" for b
  proof (cases "2 \<le> length b")
    case True
    then obtain x y rest where "b = x # y # rest" using long_two by blast
    then show ?thesis by (simp only: read_u16_order) (simp add: numeral_2_eq_2)
  qed (cases b; cases "tl b"; auto)
  from reversed_field [OF fu16.field_axioms this]
  have "field (\<lambda>v. rev (write_u16 v)) (x11_read_u16 BigEndian) 2" .
  moreover have "x11_write_u16 BigEndian = (\<lambda>v. rev (write_u16 v))" by (rule ext) (simp add: write_u16_order)
  ultimately show ?thesis using BigEndian by simp
qed

lemma x11_u32_field: "field (x11_write_u32 order) (x11_read_u32 order) 4"
proof (cases order)
  case LittleEndian
  have "x11_read_u32 LittleEndian b = read_u32 b" for b
  proof (cases "4 \<le> length b")
    case True
    then show ?thesis using long_four read_u32_order(2) by blast
  next
    case False
    then have "read_u32 b = None" using fu32.read_short by simp
    then show ?thesis using False by (cases "(LittleEndian, b)" rule: x11_read_u32.cases) auto
  qed
  then have "x11_read_u32 LittleEndian = read_u32" by (rule ext)
  moreover have "x11_write_u32 LittleEndian = write_u32" by (rule ext) (simp add: write_u32_order)
  ultimately show ?thesis using LittleEndian fu32.field_axioms by simp
next
  case BigEndian
  have "x11_read_u32 BigEndian b = (if length b < 4 then None else read_u32 (rev (take 4 b) @ drop 4 b))" for b
  proof (cases "4 \<le> length b")
    case True
    then obtain w x y z rest where "b = w # x # y # z # rest" using long_four by blast
    then show ?thesis by (simp only: read_u32_order) (simp add: numeral_eq_Suc)
  next
    case False
    then show ?thesis by (cases "(BigEndian, b)" rule: x11_read_u32.cases) auto
  qed
  from reversed_field [OF fu32.field_axioms this]
  have "field (\<lambda>v. rev (write_u32 v)) (x11_read_u32 BigEndian) 4" .
  moreover have "x11_write_u32 BigEndian = (\<lambda>v. rev (write_u32 v))" by (rule ext) (simp add: write_u32_order)
  ultimately show ?thesis using BigEndian by simp
qed

interpretation x16: field "x11_write_u16 order" "x11_read_u16 order" 2 for order
  by (rule x11_u16_field)

interpretation x32: field "x11_write_u32 order" "x11_read_u32 order" 4 for order
  by (rule x11_u32_field)

context field begin

lemma put_inject: "put v @ rest = put w @ rest' \<longleftrightarrow> v = w \<and> rest = rest'"
proof
  assume "put v @ rest = put w @ rest'"
  then have "get (put v @ rest) = get (put w @ rest')" by simp
  then show "v = w \<and> rest = rest'" by (simp add: read_write)
qed simp

end

lemmas x11_inject = x16.put_inject x32.put_inject

lemmas x11_lengths = x16.write_length x32.write_length

section \<open>The numbers of the protocol\<close>

datatype core_event_type =
    Ev_KeyPress | Ev_KeyRelease | Ev_ButtonPress | Ev_ButtonRelease | Ev_MotionNotify | Ev_EnterNotify | Ev_LeaveNotify
  | Ev_FocusIn | Ev_FocusOut | Ev_Expose | Ev_GraphicsExpose | Ev_NoExpose | Ev_DestroyNotify | Ev_UnmapNotify | Ev_MapNotify
  | Ev_ConfigureNotify | Ev_PropertyNotify | Ev_SelectionClear | Ev_SelectionRequest | Ev_SelectionNotify | Ev_ClientMessage

fun event_code :: "core_event_type \<Rightarrow> u8" where
  "event_code Ev_KeyPress = 2"
| "event_code Ev_KeyRelease = 3"
| "event_code Ev_ButtonPress = 4"
| "event_code Ev_ButtonRelease = 5"
| "event_code Ev_MotionNotify = 6"
| "event_code Ev_EnterNotify = 7"
| "event_code Ev_LeaveNotify = 8"
| "event_code Ev_FocusIn = 9"
| "event_code Ev_FocusOut = 10"
| "event_code Ev_Expose = 12"
| "event_code Ev_GraphicsExpose = 13"
| "event_code Ev_NoExpose = 14"
| "event_code Ev_DestroyNotify = 17"
| "event_code Ev_UnmapNotify = 18"
| "event_code Ev_MapNotify = 19"
| "event_code Ev_ConfigureNotify = 22"
| "event_code Ev_PropertyNotify = 28"
| "event_code Ev_SelectionClear = 29"
| "event_code Ev_SelectionRequest = 30"
| "event_code Ev_SelectionNotify = 31"
| "event_code Ev_ClientMessage = 33"

datatype core_error_code =
    Er_BadRequest | Er_BadValue | Er_BadWindow | Er_BadPixmap | Er_BadAtom | Er_BadCursor | Er_BadFont | Er_BadMatch | Er_BadDrawable
  | Er_BadAccess | Er_BadAlloc | Er_BadColor | Er_BadGContext | Er_BadIDChoice | Er_BadName | Er_BadLength | Er_BadImplementation

fun error_code :: "core_error_code \<Rightarrow> u8" where
  "error_code Er_BadRequest = 1"
| "error_code Er_BadValue = 2"
| "error_code Er_BadWindow = 3"
| "error_code Er_BadPixmap = 4"
| "error_code Er_BadAtom = 5"
| "error_code Er_BadCursor = 6"
| "error_code Er_BadFont = 7"
| "error_code Er_BadMatch = 8"
| "error_code Er_BadDrawable = 9"
| "error_code Er_BadAccess = 10"
| "error_code Er_BadAlloc = 11"
| "error_code Er_BadColor = 12"
| "error_code Er_BadGContext = 13"
| "error_code Er_BadIDChoice = 14"
| "error_code Er_BadName = 15"
| "error_code Er_BadLength = 16"
| "error_code Er_BadImplementation = 17"

definition wire_sequence :: "u64 \<Rightarrow> u16" where
  "wire_sequence sequence = ucast (sequence AND 0xffff)"

lemma event_code_inject: "event_code a = event_code b \<longleftrightarrow> a = b"
  by (cases a; cases b) simp_all

lemma event_code_small: "event_code a < 64"
  by (cases a) simp_all

section \<open>Events\<close>

definition flag_byte :: "bool \<Rightarrow> u8" where
  "flag_byte b = (if b then 1 else 0)"

definition synthetic_code :: "core_event_type \<Rightarrow> bool \<Rightarrow> u8" where
  "synthetic_code type synthetic = event_code type OR (if synthetic then 0x80 else 0)"

definition event_header :: "byte_order \<Rightarrow> core_event_type \<Rightarrow> u64 \<Rightarrow> bool \<Rightarrow> u8 list" where
  "event_header order type sequence synthetic =
     write_u8 (synthetic_code type synthetic) @ write_u8 0 @ x11_write_u16 order (wire_sequence sequence)"

definition finish_event :: "u8 list \<Rightarrow> u8 list" where
  "finish_event writer = writer @ write_padding (32 - length writer)"

record destroy_notify = dn_event :: u32 dn_window :: u32

record unmap_notify = un_event :: u32 un_window :: u32 un_from_configure :: bool un_synthetic :: bool

record map_notify = mn_event :: u32 mn_window :: u32 mn_override_redirect :: bool

record configure_notify =
  cn_event :: u32
  cn_window :: u32
  cn_above_sibling :: u32
  cn_x :: u16
  cn_y :: u16
  cn_width :: u16
  cn_height :: u16
  cn_border_width :: u16
  cn_override_redirect :: bool

datatype property_notify_state = Property_NewValue | Property_Deleted

fun property_state_code :: "property_notify_state \<Rightarrow> u8" where
  "property_state_code Property_NewValue = 0"
| "property_state_code Property_Deleted = 1"

record property_notify = pn_window :: u32 pn_atom :: u32 pn_time :: u32 pn_state :: property_notify_state

record selection_clear = sc_time :: u32 sc_owner :: u32 sc_selection :: u32

record selection_request =
  sq_time :: u32
  sq_owner :: u32
  sq_requestor :: u32
  sq_selection :: u32
  sq_target :: u32
  sq_property :: u32

record selection_notify =
  sn_time :: u32
  sn_requestor :: u32
  sn_selection :: u32
  sn_target :: u32
  sn_property :: u32
  sn_synthetic :: bool

text \<open>The arrays have 20, 10 and 5 elements.\<close>

datatype client_message_data = Client8 "u8 list" | Client16 "u16 list" | Client32 "u32 list"

record client_message = cm_window :: u32 cm_type :: u32 cm_data :: client_message_data cm_synthetic :: bool

fun client_data_sized :: "client_message_data \<Rightarrow> bool" where
  "client_data_sized (Client8 vs) = (length vs = 20)"
| "client_data_sized (Client16 vs) = (length vs = 10)"
| "client_data_sized (Client32 vs) = (length vs = 5)"

definition encode_destroy_notify :: "byte_order \<Rightarrow> u64 \<Rightarrow> destroy_notify \<Rightarrow> u8 list" where
  "encode_destroy_notify order sequence e =
     finish_event (event_header order Ev_DestroyNotify sequence False @ x11_write_u32 order (dn_event e) @ x11_write_u32 order (dn_window e))"

definition encode_unmap_notify :: "byte_order \<Rightarrow> u64 \<Rightarrow> unmap_notify \<Rightarrow> u8 list" where
  "encode_unmap_notify order sequence e =
     finish_event (event_header order Ev_UnmapNotify sequence (un_synthetic e) @ x11_write_u32 order (un_event e) @
       x11_write_u32 order (un_window e) @ write_u8 (flag_byte (un_from_configure e)) @ write_padding 3)"

definition encode_map_notify :: "byte_order \<Rightarrow> u64 \<Rightarrow> map_notify \<Rightarrow> u8 list" where
  "encode_map_notify order sequence e =
     finish_event (event_header order Ev_MapNotify sequence False @ x11_write_u32 order (mn_event e) @
       x11_write_u32 order (mn_window e) @ write_u8 (flag_byte (mn_override_redirect e)) @ write_padding 3)"

definition encode_configure_notify :: "byte_order \<Rightarrow> u64 \<Rightarrow> configure_notify \<Rightarrow> u8 list" where
  "encode_configure_notify order sequence e =
     finish_event (event_header order Ev_ConfigureNotify sequence False @ x11_write_u32 order (cn_event e) @
       x11_write_u32 order (cn_window e) @ x11_write_u32 order (cn_above_sibling e) @ x11_write_u16 order (cn_x e) @
       x11_write_u16 order (cn_y e) @ x11_write_u16 order (cn_width e) @ x11_write_u16 order (cn_height e) @
       x11_write_u16 order (cn_border_width e) @ write_u8 (flag_byte (cn_override_redirect e)) @ write_u8 0)"

definition encode_property_notify :: "byte_order \<Rightarrow> u64 \<Rightarrow> property_notify \<Rightarrow> u8 list" where
  "encode_property_notify order sequence e =
     finish_event (event_header order Ev_PropertyNotify sequence False @ x11_write_u32 order (pn_window e) @
       x11_write_u32 order (pn_atom e) @ x11_write_u32 order (pn_time e) @ write_u8 (property_state_code (pn_state e)))"

definition encode_selection_clear :: "byte_order \<Rightarrow> u64 \<Rightarrow> selection_clear \<Rightarrow> u8 list" where
  "encode_selection_clear order sequence e =
     finish_event (event_header order Ev_SelectionClear sequence False @ x11_write_u32 order (sc_time e) @
       x11_write_u32 order (sc_owner e) @ x11_write_u32 order (sc_selection e))"

definition encode_selection_request :: "byte_order \<Rightarrow> u64 \<Rightarrow> selection_request \<Rightarrow> u8 list" where
  "encode_selection_request order sequence e =
     finish_event (event_header order Ev_SelectionRequest sequence False @ x11_write_u32 order (sq_time e) @
       x11_write_u32 order (sq_owner e) @ x11_write_u32 order (sq_requestor e) @ x11_write_u32 order (sq_selection e) @
       x11_write_u32 order (sq_target e) @ x11_write_u32 order (sq_property e))"

definition encode_selection_notify :: "byte_order \<Rightarrow> u64 \<Rightarrow> selection_notify \<Rightarrow> u8 list" where
  "encode_selection_notify order sequence e =
     finish_event (event_header order Ev_SelectionNotify sequence (sn_synthetic e) @ x11_write_u32 order (sn_time e) @
       x11_write_u32 order (sn_requestor e) @ x11_write_u32 order (sn_selection e) @ x11_write_u32 order (sn_target e) @
       x11_write_u32 order (sn_property e))"

fun client_format :: "client_message_data \<Rightarrow> u8" where
  "client_format (Client8 _) = 8"
| "client_format (Client16 _) = 16"
| "client_format (Client32 _) = 32"

fun write_client_data :: "byte_order \<Rightarrow> client_message_data \<Rightarrow> u8 list" where
  "write_client_data order (Client8 vs) = concat (map write_u8 vs)"
| "write_client_data order (Client16 vs) = concat (map (x11_write_u16 order) vs)"
| "write_client_data order (Client32 vs) = concat (map (x11_write_u32 order) vs)"

definition encode_client_message :: "byte_order \<Rightarrow> u64 \<Rightarrow> client_message \<Rightarrow> u8 list" where
  "encode_client_message order sequence e =
     finish_event (write_u8 (synthetic_code Ev_ClientMessage (cm_synthetic e)) @ write_u8 (client_format (cm_data e)) @
       x11_write_u16 order (wire_sequence sequence) @ x11_write_u32 order (cm_window e) @ x11_write_u32 order (cm_type e) @
       write_client_data order (cm_data e))"

record expose = ex_window :: u32 ex_x :: u16 ex_y :: u16 ex_width :: u16 ex_height :: u16 ex_count :: u16

record graphics_expose =
  gx_drawable :: u32
  gx_x :: u16
  gx_y :: u16
  gx_width :: u16
  gx_height :: u16
  gx_minor_opcode :: u16
  gx_count :: u16
  gx_major_opcode :: u8

record no_expose = nx_drawable :: u32 nx_minor_opcode :: u16 nx_major_opcode :: u8

definition encode_expose :: "byte_order \<Rightarrow> u64 \<Rightarrow> expose \<Rightarrow> u8 list" where
  "encode_expose order sequence e =
     finish_event (event_header order Ev_Expose sequence False @ x11_write_u32 order (ex_window e) @ x11_write_u16 order (ex_x e) @
       x11_write_u16 order (ex_y e) @ x11_write_u16 order (ex_width e) @ x11_write_u16 order (ex_height e) @ x11_write_u16 order (ex_count e))"

definition encode_graphics_expose :: "byte_order \<Rightarrow> u64 \<Rightarrow> graphics_expose \<Rightarrow> u8 list" where
  "encode_graphics_expose order sequence e =
     finish_event (event_header order Ev_GraphicsExpose sequence False @ x11_write_u32 order (gx_drawable e) @ x11_write_u16 order (gx_x e) @
       x11_write_u16 order (gx_y e) @ x11_write_u16 order (gx_width e) @ x11_write_u16 order (gx_height e) @
       x11_write_u16 order (gx_minor_opcode e) @ x11_write_u16 order (gx_count e) @ write_u8 (gx_major_opcode e) @ write_padding 3)"

definition encode_no_expose :: "byte_order \<Rightarrow> u64 \<Rightarrow> no_expose \<Rightarrow> u8 list" where
  "encode_no_expose order sequence e =
     finish_event (event_header order Ev_NoExpose sequence False @ x11_write_u32 order (nx_drawable e) @
       x11_write_u16 order (nx_minor_opcode e) @ write_u8 (nx_major_opcode e) @ write_padding 1)"

record input_event =
  ie_type :: core_event_type
  ie_detail :: u8
  ie_time :: u32
  ie_root :: u32
  ie_event :: u32
  ie_child :: u32
  ie_root_x :: u16
  ie_root_y :: u16
  ie_event_x :: u16
  ie_event_y :: u16
  ie_state :: u16
  ie_same_screen :: bool

text \<open>The assertion on the type is \<open>None\<close>.\<close>

definition encode_input_event :: "byte_order \<Rightarrow> u64 \<Rightarrow> input_event \<Rightarrow> u8 list option" where
  "encode_input_event order sequence e =
     (if ie_type e \<notin> {Ev_KeyPress, Ev_KeyRelease, Ev_ButtonPress, Ev_ButtonRelease, Ev_MotionNotify} then None
      else Some (write_u8 (event_code (ie_type e)) @ write_u8 (if ie_type e = Ev_MotionNotify then 0 else ie_detail e) @
        x11_write_u16 order (wire_sequence sequence) @ x11_write_u32 order (ie_time e) @ x11_write_u32 order (ie_root e) @
        x11_write_u32 order (ie_event e) @ x11_write_u32 order (ie_child e) @ x11_write_u16 order (ie_root_x e) @
        x11_write_u16 order (ie_root_y e) @ x11_write_u16 order (ie_event_x e) @ x11_write_u16 order (ie_event_y e) @
        x11_write_u16 order (ie_state e) @ write_u8 (flag_byte (ie_same_screen e)) @ write_u8 0))"

datatype notify_detail =
    Detail_Ancestor | Detail_Virtual | Detail_Inferior | Detail_Nonlinear | Detail_NonlinearVirtual | Detail_Pointer | Detail_PointerRoot | Detail_None

fun detail_code :: "notify_detail \<Rightarrow> u8" where
  "detail_code Detail_Ancestor = 0"
| "detail_code Detail_Virtual = 1"
| "detail_code Detail_Inferior = 2"
| "detail_code Detail_Nonlinear = 3"
| "detail_code Detail_NonlinearVirtual = 4"
| "detail_code Detail_Pointer = 5"
| "detail_code Detail_PointerRoot = 6"
| "detail_code Detail_None = 7"

datatype notify_mode = Mode_Normal | Mode_Grab | Mode_Ungrab | Mode_WhileGrabbed

fun notify_mode_code :: "notify_mode \<Rightarrow> u8" where
  "notify_mode_code Mode_Normal = 0"
| "notify_mode_code Mode_Grab = 1"
| "notify_mode_code Mode_Ungrab = 2"
| "notify_mode_code Mode_WhileGrabbed = 3"

record crossing_event =
  xe_type :: core_event_type
  xe_detail :: notify_detail
  xe_time :: u32
  xe_root :: u32
  xe_event :: u32
  xe_child :: u32
  xe_root_x :: u16
  xe_root_y :: u16
  xe_event_x :: u16
  xe_event_y :: u16
  xe_state :: u16
  xe_mode :: notify_mode
  xe_same_screen :: bool
  xe_focus :: bool

definition encode_crossing_event :: "byte_order \<Rightarrow> u64 \<Rightarrow> crossing_event \<Rightarrow> u8 list option" where
  "encode_crossing_event order sequence e =
     (if xe_type e \<notin> {Ev_EnterNotify, Ev_LeaveNotify} then None
      else Some (write_u8 (event_code (xe_type e)) @ write_u8 (detail_code (xe_detail e)) @ x11_write_u16 order (wire_sequence sequence) @
        x11_write_u32 order (xe_time e) @ x11_write_u32 order (xe_root e) @ x11_write_u32 order (xe_event e) @ x11_write_u32 order (xe_child e) @
        x11_write_u16 order (xe_root_x e) @ x11_write_u16 order (xe_root_y e) @ x11_write_u16 order (xe_event_x e) @
        x11_write_u16 order (xe_event_y e) @ x11_write_u16 order (xe_state e) @ write_u8 (notify_mode_code (xe_mode e)) @
        write_u8 ((if xe_same_screen e then 1 else 0) OR (if xe_focus e then 2 else 0))))"

record focus_event = fe_type :: core_event_type fe_detail :: notify_detail fe_event :: u32 fe_mode :: notify_mode

definition encode_focus_event :: "byte_order \<Rightarrow> u64 \<Rightarrow> focus_event \<Rightarrow> u8 list option" where
  "encode_focus_event order sequence e =
     (if fe_type e \<notin> {Ev_FocusIn, Ev_FocusOut} then None
      else Some (write_u8 (event_code (fe_type e)) @ write_u8 (detail_code (fe_detail e)) @ x11_write_u16 order (wire_sequence sequence) @
        x11_write_u32 order (fe_event e) @ write_u8 (notify_mode_code (fe_mode e)) @ write_padding 23))"

end
