(* ===== verification/X11_Stream.thy ===== *)
theory X11_Stream
  imports X11_Wire
begin

text \<open>
  A parser that is fed a stream in pieces: it copies what it still needs, looks at what it has when that is complete,
  and goes on until it has decided. The loop always returns, and what it decides does not depend on the pieces.
\<close>

locale incremental =
  fixes open_parser :: "'p \<Rightarrow> bool" and held :: "'p \<Rightarrow> nat" and wanted :: "'p \<Rightarrow> nat"
    and push :: "u8 list \<Rightarrow> 'p \<Rightarrow> 'p" and settle :: "'p \<Rightarrow> 'p" and ready :: "'p \<Rightarrow> bool"
    and loop :: "u8 list \<Rightarrow> nat \<Rightarrow> 'p \<Rightarrow> ('p \<times> nat) option"
  assumes push_push: "push b (push a p) = push (a @ b) p" and push_none: "push [] p = p"
    and pushed: "held (push a p) = held p + length a" "open_parser (push a p) = open_parser p"
    and wanted_push: "held p + length a < wanted p \<Longrightarrow> wanted (push a p) = wanted p"
    and short: "ready p \<Longrightarrow> open_parser p \<Longrightarrow> held p < wanted p \<Longrightarrow> settle p = p"
    and hungry: "ready p \<Longrightarrow> open_parser p \<Longrightarrow> held p < wanted p"
    and ready_push: "ready p \<Longrightarrow> held p + length a < wanted p \<Longrightarrow> ready (push a p)"
    and ready_settle: "ready p \<Longrightarrow> open_parser p \<Longrightarrow> held p + length a = wanted p \<Longrightarrow> ready (settle (push a p))"
    and loop: "ready p \<Longrightarrow> loop input n p =
      (if input = [] \<or> \<not> open_parser p then Some (p, n)
       else let k = min (wanted p - held p) (length input) in loop (drop k input) (n + k) (settle (push (take k input) p)))"
begin

text \<open>One byte after the other.\<close>

definition absorb :: "u8 \<Rightarrow> 'p \<Rightarrow> 'p" where
  "absorb byte p = settle (push [byte] p)"

fun feed :: "u8 list \<Rightarrow> 'p \<Rightarrow> 'p \<times> nat" where
  "feed [] p = (p, 0)"
| "feed (byte # bytes) p = (if open_parser p then (case feed bytes (absorb byte p) of (p', n) \<Rightarrow> (p', Suc n)) else (p, 0))"

lemma feed_closed: "\<not> open_parser p \<Longrightarrow> feed bytes p = (p, 0)"
  by (cases bytes) simp_all

lemma feed_append:
  "feed (a @ b) p = (case feed a p of (p', n) \<Rightarrow> if open_parser p' then (case feed b p' of (p'', m) \<Rightarrow> (p'', n + m)) else (p', n))"
proof (induction a arbitrary: p)
  case Nil
  then show ?case by (auto simp: feed_closed split: prod.split)
next
  case (Cons byte a)
  then show ?case by (auto split: prod.split)
qed

text \<open>A piece of what is wanted is only copied; the last byte of it is looked at.\<close>

lemma feed_piece:
  "ready p \<Longrightarrow> open_parser p \<Longrightarrow> a \<noteq> [] \<Longrightarrow> held p + length a \<le> wanted p \<Longrightarrow> feed a p = (settle (push a p), length a)"
proof (induction a arbitrary: p)
  case (Cons byte a)
  show ?case
  proof (cases "a = []")
    case True
    then show ?thesis using Cons.prems by (simp add: absorb_def)
  next
    case False
    have less: "held p + length [byte] < wanted p" using Cons.prems(4) False by (cases a) simp_all
    note wanted = wanted_push [OF less] and still = ready_push [OF Cons.prems(1) less]
    then have "settle (push [byte] p) = push [byte] p" using Cons.prems(2) less by (intro short) (simp_all add: pushed)
    then have absorbed: "absorb byte p = push [byte] p" by (simp add: absorb_def)
    have "feed a (push [byte] p) = (settle (push a (push [byte] p)), length a)"
      using Cons.prems False still wanted by (intro Cons.IH) (simp_all add: pushed)
    then show ?thesis using Cons.prems(2) by (simp add: absorbed push_push)
  qed
qed simp

theorem loop_feed: "ready p \<Longrightarrow> loop input n p = Some (fst (feed input p), n + snd (feed input p)) \<and> ready (fst (feed input p))"
proof (induction "length input" arbitrary: input n p rule: less_induct)
  case less
  show ?case
  proof (cases "input = [] \<or> \<not> open_parser p")
    case True
    then show ?thesis using loop [OF less.prems] less.prems by (auto simp: feed_closed)
  next
    case False
    let ?k = "min (wanted p - held p) (length input)"
    have hungry: "held p < wanted p" using hungry less.prems False by blast
    then have k: "0 < ?k" "held p + length (take ?k input) \<le> wanted p" using False by auto
    have "feed (take ?k input) p = (settle (push (take ?k input) p), length (take ?k input))"
      using less.prems False k by (intro feed_piece) auto
    then have piece: "feed (take ?k input) p = (settle (push (take ?k input) p), ?k)" by simp
    have open_p: "open_parser p" using False by simp
    have next_ready: "ready (settle (push (take ?k input) p))"
    proof (cases "held p + ?k = wanted p")
      case True
      then show ?thesis using less.prems False by (intro ready_settle) auto
    next
      case False
      then have part: "held p + length (take ?k input) < wanted p" using k by simp
      then have "settle (push (take ?k input) p) = push (take ?k input) p"
        using open_p ready_push [OF less.prems part] wanted_push [OF part] by (intro short) (simp_all add: pushed)
      then show ?thesis using ready_push [OF less.prems part] by simp
    qed
    have "length (drop ?k input) < length input" using k(1) False by simp
    note IH = less.hyps [OF this next_ready, of "n + ?k"]
    have whole: "feed input p = (case feed (take ?k input) p of (p', n) \<Rightarrow>
        if open_parser p' then (case feed (drop ?k input) p' of (p'', m) \<Rightarrow> (p'', n + m)) else (p', n))"
      using feed_append [of "take ?k input" "drop ?k input" p] by simp
    have "feed input p = (case feed (drop ?k input) (settle (push (take ?k input) p)) of (p'', m) \<Rightarrow> (p'', ?k + m))"
      unfolding whole piece prod.case
      by (cases "open_parser (settle (push (take ?k input) p))") (simp_all add: feed_closed)
    then show ?thesis using IH loop [OF less.prems, of input n] False
      by (cases "feed (drop ?k input) (settle (push (take ?k input) p))") (simp add: Let_def add.assoc)
  qed
qed

text \<open>What is decided does not depend on the pieces the input comes in.\<close>

lemma pieces:
  assumes "ready p"
  shows "loop (a @ b) 0 p = (case loop a 0 p of None \<Rightarrow> None | Some (p', n) \<Rightarrow>
    if open_parser p' then (case loop b 0 p' of None \<Rightarrow> None | Some (p'', m) \<Rightarrow> Some (p'', n + m)) else Some (p', n))"
proof -
  obtain p' n where a: "feed a p = (p', n)" by fastforce
  obtain p'' m where b: "feed b p' = (p'', m)" by fastforce
  have "loop a 0 p = Some (p', n)" "ready p'" using loop_feed [OF assms, of a 0] a by simp_all
  moreover have "loop b 0 p' = Some (p'', m)" using loop_feed [OF calculation(2), of b 0] b by simp
  moreover have "loop (a @ b) 0 p = Some (fst (feed (a @ b) p), snd (feed (a @ b) p))" using loop_feed [OF assms, of "a @ b" 0] by simp
  ultimately show ?thesis using a b by (simp add: feed_append)
qed

text \<open>An exact piece, and then what is left.\<close>

lemma loop_exact:
  assumes "ready p" "open_parser p" "a \<noteq> []" "held p + length a = wanted p"
  shows "loop (a @ b) 0 p = (let p' = settle (push a p) in
    if open_parser p' then (case loop b 0 p' of None \<Rightarrow> None | Some (p'', m) \<Rightarrow> Some (p'', length a + m)) else Some (p', length a))"
proof -
  have "loop a 0 p = Some (settle (push a p), length a)" using loop_feed [OF assms(1), of a 0] feed_piece [OF assms(1-3)] assms(4) by simp
  then show ?thesis by (simp add: pieces [OF assms(1)] Let_def)
qed

lemma loop_short:
  assumes "ready p" "open_parser p" "held p + length a < wanted p"
  shows "loop a 0 p = Some (push a p, length a)"
proof (cases "a = []")
  case True
  then show ?thesis using loop [OF assms(1), of a 0] by (simp add: push_none)
next
  case False
  have "settle (push a p) = push a p" using assms ready_push [OF assms(1,3)] wanted_push [OF assms(3)] by (intro short) (simp_all add: pushed)
  then show ?thesis using loop_feed [OF assms(1), of a 0] feed_piece [OF assms(1,2) False] assms(3) by simp
qed

lemma loop_closed: "ready p \<Longrightarrow> \<not> open_parser p \<Longrightarrow> loop a n p = Some (p, n)"
  using loop by simp

end

end
