(* ===== verification/X11_Request.thy ===== *)
theory X11_Request
  imports X11_Stream Geometry
begin

text \<open>
  The framing of requests (\<open>protocol/x11/request.cpp\<close>): the header of a request, ordinary or of \<open>BIG-REQUESTS\<close>, the
  limits on its length, and the loop that collects its bytes. Numbers of bytes are \<open>nat\<close>; the subtraction of what is
  held from what is wanted never goes below zero, which is part of the invariant of the parser.
\<close>

section \<open>Model\<close>

datatype frame_status = FS_NeedMore | FS_Complete | FS_ZeroLength | FS_TooLarge | FS_TruncatedInput

record framed_request =
  fq_opcode :: u8
  fq_data :: u8
  fq_length_units :: u32
  fq_header_size :: u8
  fq_bytes :: "u8 list"

definition no_request :: framed_request where
  "no_request = \<lparr>fq_opcode = 0, fq_data = 0, fq_length_units = 0, fq_header_size = 4, fq_bytes = []\<rparr>"

definition request_body :: "framed_request \<Rightarrow> u8 list" where
  "request_body q = drop (unat (fq_header_size q)) (fq_bytes q)"

definition core_size :: "framed_request \<Rightarrow> nat" where
  "core_size q = length (fq_bytes q) - unat (fq_header_size q) + 4"

record request_framer =
  rf_order :: byte_order
  rf_maximum :: u16
  rf_maximum_big :: u32
  rf_big_enabled :: bool
  rf_expected :: nat
  rf_status :: frame_status
  rf_request :: framed_request

definition kMaximumBigRequestLengthUnits :: u32 where
  "kMaximumBigRequestLengthUnits = 16 * 1024 * 1024 div 4"

text \<open>An invalid argument is an exception.\<close>

definition new_framer :: "byte_order \<Rightarrow> u16 \<Rightarrow> request_framer option" where
  "new_framer order maximum =
     (if maximum = 0 then None
      else Some \<lparr>rf_order = order, rf_maximum = maximum, rf_maximum_big = kMaximumBigRequestLengthUnits, rf_big_enabled = False,
                  rf_expected = 4, rf_status = FS_NeedMore, rf_request = no_request\<rparr>)"

definition enable_big_requests :: "u32 \<Rightarrow> request_framer \<Rightarrow> request_framer option" where
  "enable_big_requests maximum f =
     (if maximum < 2 \<or> maximum > kMaximumBigRequestLengthUnits then None else Some (f\<lparr>rf_big_enabled := True, rf_maximum_big := maximum\<rparr>))"

definition reset_framer :: "request_framer \<Rightarrow> request_framer" where
  "reset_framer f = f\<lparr>rf_expected := 4, rf_status := FS_NeedMore, rf_request := no_request\<rparr>"

definition inspect_header :: "request_framer \<Rightarrow> frame_status \<times> request_framer" where
  "inspect_header f =
     (let q = (rf_request f)\<lparr>fq_opcode := fq_bytes (rf_request f) ! 0, fq_data := fq_bytes (rf_request f) ! 1\<rparr>
      in case x11_read_u16 (rf_order f) (drop 2 (fq_bytes q)) of
           None \<Rightarrow> (FS_TruncatedInput, f\<lparr>rf_request := q\<rparr>)
         | Some (units, _) \<Rightarrow>
             let q = q\<lparr>fq_length_units := ucast units\<rparr>
             in if fq_length_units q = 0 then
                  (if \<not> rf_big_enabled f then (FS_ZeroLength, f\<lparr>rf_request := q\<rparr>)
                   else (FS_NeedMore, f\<lparr>rf_request := q\<lparr>fq_header_size := 8\<rparr>, rf_expected := 8\<rparr>))
                else if fq_length_units q > ucast (rf_maximum f) then (FS_TooLarge, f\<lparr>rf_request := q\<rparr>)
                else case checked_multiply (ucast (fq_length_units q)) 4 of
                  None \<Rightarrow> (FS_TooLarge, f\<lparr>rf_request := q\<rparr>)
                | Some octets \<Rightarrow> if octets < 4 then (FS_TooLarge, f\<lparr>rf_request := q\<rparr>)
                    else (FS_NeedMore, f\<lparr>rf_request := q, rf_expected := unat octets\<rparr>))"

definition inspect_extended_header :: "request_framer \<Rightarrow> frame_status \<times> request_framer" where
  "inspect_extended_header f =
     (case x11_read_u32 (rf_order f) (drop 4 (fq_bytes (rf_request f))) of
        None \<Rightarrow> (FS_TruncatedInput, f)
      | Some (units, _) \<Rightarrow>
          let q = (rf_request f)\<lparr>fq_length_units := units\<rparr>
          in if units < 2 \<or> units > rf_maximum_big f then (FS_TooLarge, f\<lparr>rf_request := q\<rparr>)
             else case checked_multiply (ucast units) 4 of
               None \<Rightarrow> (FS_TooLarge, f\<lparr>rf_request := q\<rparr>)
             | Some octets \<Rightarrow> if octets < 8 then (FS_TooLarge, f\<lparr>rf_request := q\<rparr>)
                 else (FS_NeedMore, f\<lparr>rf_request := q, rf_expected := unat octets\<rparr>))"

definition push_request :: "u8 list \<Rightarrow> request_framer \<Rightarrow> request_framer" where
  "push_request bytes f = f\<lparr>rf_request := (rf_request f)\<lparr>fq_bytes := fq_bytes (rf_request f) @ bytes\<rparr>\<rparr>"

text \<open>What the body of the loop does after it has copied.\<close>

definition settle_request :: "request_framer \<Rightarrow> request_framer" where
  "settle_request f0 =
     (let held = length (fq_bytes (rf_request f0));
          f1 = (if held = 4 \<and> rf_expected f0 = 4 then (case inspect_header f0 of (status, f) \<Rightarrow> f\<lparr>rf_status := status\<rparr>) else f0);
          f2 = (if rf_status f1 = FS_NeedMore \<and> fq_header_size (rf_request f1) = 8 \<and> held = 8 \<and> rf_expected f1 = 8
                then (case inspect_extended_header f1 of (status, f) \<Rightarrow> f\<lparr>rf_status := status\<rparr>) else f1)
      in if rf_status f2 = FS_NeedMore \<and> held = rf_expected f2 then f2\<lparr>rf_status := FS_Complete\<rparr> else f2)"

partial_function (option) consume_loop :: "u8 list \<Rightarrow> nat \<Rightarrow> request_framer \<Rightarrow> (request_framer \<times> nat) option" where
  "consume_loop input consumed f =
     (if input = [] \<or> rf_status f \<noteq> FS_NeedMore then Some (f, consumed)
      else let needed = rf_expected f - length (fq_bytes (rf_request f)); copy_size = min needed (length input)
           in consume_loop (drop copy_size input) (consumed + copy_size) (settle_request (push_request (take copy_size input) f)))"

definition consume_request :: "u8 list \<Rightarrow> request_framer \<Rightarrow> ((frame_status \<times> nat) \<times> request_framer) option" where
  "consume_request input f =
     (if rf_status f \<noteq> FS_NeedMore then Some ((rf_status f, 0), f)
      else map_option (\<lambda>(f', consumed). ((rf_status f', consumed), f')) (consume_loop input 0 f))"

definition framer_eof :: "request_framer \<Rightarrow> frame_status" where
  "framer_eof f = (if rf_status f = FS_NeedMore \<and> fq_bytes (rf_request f) \<noteq> [] then FS_TruncatedInput else rf_status f)"

section \<open>The invariant of the parser\<close>

definition framer_ready :: "request_framer \<Rightarrow> bool" where
  "framer_ready f \<longleftrightarrow> (rf_status f = FS_NeedMore \<longrightarrow> length (fq_bytes (rf_request f)) < rf_expected f)"

lemma push_fields [simp]:
  "fq_bytes (rf_request (push_request a f)) = fq_bytes (rf_request f) @ a" "rf_expected (push_request a f) = rf_expected f"
  "rf_status (push_request a f) = rf_status f" "rf_order (push_request a f) = rf_order f" "rf_maximum (push_request a f) = rf_maximum f"
  "rf_maximum_big (push_request a f) = rf_maximum_big f" "rf_big_enabled (push_request a f) = rf_big_enabled f"
  "fq_header_size (rf_request (push_request a f)) = fq_header_size (rf_request f)"
  by (simp_all add: push_request_def)

lemma unat_wider: "unat (ucast (v :: u16) :: u32) = unat v" "unat (ucast (w :: u32) :: u64) = unat w"
proof -
  have "uint (ucast v :: u32) = uint v" "uint (ucast w :: u64) = uint w" by (rule uint_up_ucast; simp add: is_up)+
  then show "unat (ucast v :: u32) = unat v" "unat (ucast w :: u64) = unat w" by (metis nat_uint_eq)+
qed

lemma units_size:
  "checked_multiply (ucast (units :: u32)) 4 = Some (4 * ucast units)" "unat (4 * ucast units :: u64) = 4 * unat units"
proof -
  have small: "uint units < 2 ^ 32" using uint32_range [of units] by simp
  have u: "uint (ucast units :: u64) = uint units" by (rule uint_up_ucast) (simp add: is_up)
  have word_of_int_units: "word_of_int (uint units) = (ucast units :: u64)" using word_of_int_uint [of "ucast units :: u64"] u by simp
  show "checked_multiply (ucast units) 4 = Some (4 * ucast units)"
    using small by (simp add: checked_multiply_spec u u64_of_def word_of_int_units mult.commute)
  have "unat units < 2 ^ 32" using unsigned_less [of units, where ?'a = nat] by simp
  moreover have "unat (ucast units :: u64) = unat units" by (rule unat_wider)
  ultimately show "unat (4 * ucast units :: u64) = 4 * unat units"
    by (simp add: unat_mult_lem [THEN iffD1])
qed

lemma settle_short: "length (fq_bytes (rf_request f)) < rf_expected f \<Longrightarrow> settle_request f = f"
proof -
  assume less: "length (fq_bytes (rf_request f)) < rf_expected f"
  then have "\<not> (length (fq_bytes (rf_request f)) = 4 \<and> rf_expected f = 4)" "\<not> (length (fq_bytes (rf_request f)) = 8 \<and> rf_expected f = 8)" by auto
  then show ?thesis using less unfolding settle_request_def Let_def by auto
qed

lemma inspect_header_decode:
  assumes "fq_bytes (rf_request f) = [opcode, minor] @ x11_write_u16 (rf_order f) units @ rest"
  shows "inspect_header f =
    (let q = (rf_request f)\<lparr>fq_opcode := opcode, fq_data := minor, fq_length_units := ucast units\<rparr>
     in if units = 0 then (if \<not> rf_big_enabled f then (FS_ZeroLength, f\<lparr>rf_request := q\<rparr>)
                           else (FS_NeedMore, f\<lparr>rf_request := q\<lparr>fq_header_size := 8\<rparr>, rf_expected := 8\<rparr>))
        else if units > rf_maximum f then (FS_TooLarge, f\<lparr>rf_request := q\<rparr>)
        else (FS_NeedMore, f\<lparr>rf_request := q, rf_expected := 4 * unat units\<rparr>))"
proof -
  have wide: "unat (ucast (v :: u16) :: u32) = unat v" for v by (rule unat_wider)
  have zero: "(ucast units :: u32) = 0 \<longleftrightarrow> units = 0" using wide [of units] by (metis unat_eq_zero)
  have less: "(ucast units :: u32) > ucast (rf_maximum f) \<longleftrightarrow> units > rf_maximum f" by (simp add: word_less_nat_alt wide)
  have "unat (4 * ucast (ucast units :: u32) :: u64) = 4 * unat units" using units_size(2) [of "ucast units"] by (simp add: wide)
  moreover have "\<not> (4 * ucast (ucast units :: u32) :: u64) < 4" if "units \<noteq> 0"
    using that calculation by (simp add: word_less_nat_alt unat_eq_0 [symmetric] del: unat_eq_0)
  ultimately show ?thesis using assms
    by (simp add: inspect_header_def Let_def zero less x16.read_write units_size(1))
qed

lemma inspect_extended_decode:
  assumes "fq_bytes (rf_request f) = header @ x11_write_u32 (rf_order f) units @ rest" "length header = 4"
  shows "inspect_extended_header f =
    (let q = (rf_request f)\<lparr>fq_length_units := units\<rparr>
     in if units < 2 \<or> units > rf_maximum_big f then (FS_TooLarge, f\<lparr>rf_request := q\<rparr>)
        else (FS_NeedMore, f\<lparr>rf_request := q, rf_expected := 4 * unat units\<rparr>))"
proof -
  have "\<not> (4 * ucast units :: u64) < 8" if "\<not> units < 2"
    using that units_size(2) [of units] by (simp add: word_less_nat_alt)
  then show ?thesis using assms
    by (simp add: inspect_extended_header_def Let_def x32.read_write units_size)
qed

lemma settle_ready: "length (fq_bytes (rf_request f)) = rf_expected f \<Longrightarrow> framer_ready (settle_request f)"
proof -
  assume full: "length (fq_bytes (rf_request f)) = rf_expected f"
  let ?b = "fq_bytes (rf_request f)"
  consider "rf_expected f = 4" | "rf_expected f = 8" "fq_header_size (rf_request f) = 8" | "rf_expected f \<noteq> 4" "\<not> (rf_expected f = 8 \<and> fq_header_size (rf_request f) = 8)"
    by blast
  then show ?thesis
  proof cases
    case 1
    then obtain opcode minor tail where b: "?b = [opcode, minor] @ tail" "2 \<le> length tail" using full by (auto simp: length_Suc_conv eval_nat_numeral)
    then obtain units rest where "tail = x11_write_u16 (rf_order f) units @ rest" using x16.read_long by (metis x16.read_iff)
    then have "?b = [opcode, minor] @ x11_write_u16 (rf_order f) units @ rest" using b by simp
    note decode = inspect_header_decode [OF this]
    have "4 * unat units \<noteq> 0" if "units \<noteq> 0" using that by (simp add: unat_eq_0)
    then show ?thesis using 1 full
      by (auto simp: settle_request_def Let_def decode framer_ready_def)
  next
    case 2
    then have "4 \<le> length (drop 4 ?b)" using full by simp
    then obtain units rest where tail: "drop 4 ?b = x11_write_u32 (rf_order f) units @ rest" using x32.read_long by (metis x32.read_iff)
    have "?b = take 4 ?b @ x11_write_u32 (rf_order f) units @ rest" using tail append_take_drop_id [of 4 ?b] by simp
    moreover have "length (take 4 ?b) = 4" using 2 full by simp
    ultimately have decode: "inspect_extended_header f =
      (let q = (rf_request f)\<lparr>fq_length_units := units\<rparr>
       in if units < 2 \<or> units > rf_maximum_big f then (FS_TooLarge, f\<lparr>rf_request := q\<rparr>)
          else (FS_NeedMore, f\<lparr>rf_request := q, rf_expected := 4 * unat units\<rparr>))" by (rule inspect_extended_decode)
    have "8 \<le> 4 * unat units" if "\<not> units < 2" using that by (simp add: word_less_nat_alt)
    then show ?thesis using 2 full
      by (auto simp: settle_request_def Let_def decode framer_ready_def)
  next
    case 3
    then show ?thesis using full by (auto simp: settle_request_def Let_def framer_ready_def)
  qed
qed

lemma consume_loop_step:
  "consume_loop input n f =
     (if input = [] \<or> \<not> rf_status f = FS_NeedMore then Some (f, n)
      else let k = min (rf_expected f - length (fq_bytes (rf_request f))) (length input)
           in consume_loop (drop k input) (n + k) (settle_request (push_request (take k input) f)))"
  by (subst consume_loop.simps) (simp add: Let_def)

interpretation framer: incremental "\<lambda>f. rf_status f = FS_NeedMore" "\<lambda>f. length (fq_bytes (rf_request f))" rf_expected push_request
    settle_request framer_ready consume_loop
proof
  show "push_request b (push_request a f) = push_request (a @ b) f" for a b f by (simp add: push_request_def)
  show "push_request [] f = f" for f by (simp add: push_request_def)
  show "framer_ready (settle_request (push_request a f))"
    if "length (fq_bytes (rf_request f)) + length a = rf_expected f" for f a using that by (intro settle_ready) simp
qed (use consume_loop_step in \<open>simp_all add: settle_short framer_ready_def\<close>)

section \<open>One request at a time\<close>

text \<open>What a fresh parser makes of the bytes at the head of its input, read at once.\<close>

definition whole_request :: "nat \<Rightarrow> u8 list \<Rightarrow> frame_status \<times> nat" where
  "whole_request octets input = (if length input < octets then (FS_NeedMore, length input) else (FS_Complete, octets))"

definition frame_request :: "request_framer \<Rightarrow> u8 list \<Rightarrow> frame_status \<times> nat" where
  "frame_request f input =
     (case x11_read_u16 (rf_order f) (drop 2 input) of
        None \<Rightarrow> (FS_NeedMore, length input)
      | Some (units, rest) \<Rightarrow>
          if units \<noteq> 0 then
            (if units > rf_maximum f then (FS_TooLarge, 4) else whole_request (4 * unat units) input)
          else if \<not> rf_big_enabled f then (FS_ZeroLength, 4)
          else (case x11_read_u32 (rf_order f) rest of
            None \<Rightarrow> (FS_NeedMore, length input)
          | Some (units, _) \<Rightarrow>
              if units < 2 \<or> units > rf_maximum_big f then (FS_TooLarge, 8) else whole_request (4 * unat units) input))"

definition fresh_framer :: "request_framer \<Rightarrow> bool" where
  "fresh_framer f \<longleftrightarrow> rf_status f = FS_NeedMore \<and> rf_expected f = 4 \<and> rf_request f = no_request"

lemma fresh_reset: "fresh_framer (reset_framer f)" and fresh_new: "new_framer order maximum = Some f \<Longrightarrow> fresh_framer f"
  by (auto simp: fresh_framer_def reset_framer_def new_framer_def split: if_splits)

lemma fresh_ready: "fresh_framer f \<Longrightarrow> framer_ready f"
  by (simp add: fresh_framer_def framer_ready_def no_request_def)

text \<open>The bytes after the header, when the length is settled.\<close>

lemma consume_rest:
  assumes "rf_status f = FS_NeedMore" "length (fq_bytes (rf_request f)) < rf_expected f"
    "rf_expected f \<noteq> 4" "\<not> (rf_expected f = 8 \<and> fq_header_size (rf_request f) = 8)"
  shows "consume_loop rest 0 f =
    (let k = min (rf_expected f - length (fq_bytes (rf_request f))) (length rest);
         status = (if length rest < rf_expected f - length (fq_bytes (rf_request f)) then FS_NeedMore else FS_Complete)
     in Some ((push_request (take k rest) f)\<lparr>rf_status := status\<rparr>, k))"
proof -
  let ?need = "rf_expected f - length (fq_bytes (rf_request f))"
  have ready: "framer_ready f" using assms(2) by (simp add: framer_ready_def)
  show ?thesis
  proof (cases "length rest < ?need")
    case True
    then have "consume_loop rest 0 f = Some (push_request rest f, length rest)" using assms(1) ready by (intro framer.loop_short) simp_all
    then show ?thesis using True assms(1) by (simp add: Let_def push_request_def)
  next
    case False
    then have "consume_loop (take ?need rest @ drop ?need rest) 0 f =
        (let p' = settle_request (push_request (take ?need rest) f) in
         if rf_status p' = FS_NeedMore then (case consume_loop (drop ?need rest) 0 p' of None \<Rightarrow> None | Some (p'', m) \<Rightarrow> Some (p'', length (take ?need rest) + m))
         else Some (p', length (take ?need rest)))"
      using assms(1,2) ready by (intro framer.loop_exact) auto
    moreover have "settle_request (push_request (take ?need rest) f) = (push_request (take ?need rest) f)\<lparr>rf_status := FS_Complete\<rparr>"
      using assms False by (auto simp: settle_request_def Let_def)
    ultimately show ?thesis using False by (simp add: Let_def min_def)
  qed
qed

text \<open>A header of which the last byte has arrived, with the rest of the request behind it.\<close>

lemma consume_header:
  assumes "framer_ready f" "rf_status f = FS_NeedMore" "head \<noteq> []" "length (fq_bytes (rf_request f)) + length head = rf_expected f"
    and settled: "settle_request (push_request head f) = f'"
    and decided: "rf_status f' \<noteq> FS_NeedMore \<or>
      length (fq_bytes (rf_request f')) < rf_expected f' \<and> rf_expected f' \<noteq> 4 \<and> \<not> (rf_expected f' = 8 \<and> fq_header_size (rf_request f') = 8)"
  shows "consume_loop (head @ rest) 0 f =
    (if rf_status f' \<noteq> FS_NeedMore then Some (f', length head)
     else let need = rf_expected f' - length (fq_bytes (rf_request f')); k = min need (length rest)
          in Some ((push_request (take k rest) f')\<lparr>rf_status := (if length rest < need then FS_NeedMore else FS_Complete)\<rparr>, length head + k))"
proof -
  have "consume_loop (head @ rest) 0 f =
      (let p' = settle_request (push_request head f) in
       if rf_status p' = FS_NeedMore then (case consume_loop rest 0 p' of None \<Rightarrow> None | Some (p'', m) \<Rightarrow> Some (p'', length head + m))
       else Some (p', length head))"
    by (rule framer.loop_exact) (use assms(1-4) in auto)
  then show ?thesis using decided by (auto simp: settled Let_def consume_rest)
qed

definition framed_exactly :: "request_framer \<Rightarrow> u8 list \<Rightarrow> request_framer \<Rightarrow> nat \<Rightarrow> bool" where
  "framed_exactly f input f' n \<longleftrightarrow> (rf_status f', n) = frame_request f input \<and> fq_bytes (rf_request f') = take n input \<and>
     (rf_status f' = FS_Complete \<longrightarrow> fq_opcode (rf_request f') = input ! 0 \<and> fq_data (rf_request f') = input ! 1 \<and>
        4 * unat (fq_length_units (rf_request f')) = n)"

lemma settle_header:
  "length (fq_bytes (rf_request f)) = 4 \<Longrightarrow> rf_expected f = 4 \<Longrightarrow> inspect_header f = (status, g) \<Longrightarrow>
    settle_request f = g\<lparr>rf_status := (if status = FS_NeedMore \<and> rf_expected g = 4 then FS_Complete else status)\<rparr>"
  by (simp add: settle_request_def Let_def)

lemma settle_extended:
  "length (fq_bytes (rf_request f)) = 8 \<Longrightarrow> rf_expected f = 8 \<Longrightarrow> fq_header_size (rf_request f) = 8 \<Longrightarrow> rf_status f = FS_NeedMore \<Longrightarrow>
    inspect_extended_header f = (status, g) \<Longrightarrow>
    settle_request f = g\<lparr>rf_status := (if status = FS_NeedMore \<and> rf_expected g = 8 then FS_Complete else status)\<rparr>"
  by (simp add: settle_request_def Let_def)

text \<open>The state after an ordinary header, and after the four bytes of its extension.\<close>

definition headed :: "request_framer \<Rightarrow> u8 \<Rightarrow> u8 \<Rightarrow> u32 \<Rightarrow> u8 \<Rightarrow> u8 list \<Rightarrow> nat \<Rightarrow> frame_status \<Rightarrow> request_framer" where
  "headed f opcode minor units header bytes expected status =
     f\<lparr>rf_request := \<lparr>fq_opcode = opcode, fq_data = minor, fq_length_units = units, fq_header_size = header, fq_bytes = bytes\<rparr>,
       rf_expected := expected, rf_status := status\<rparr>"

lemma headed_fields [simp]:
  "rf_request (headed f opcode minor units header bytes expected status) =
     \<lparr>fq_opcode = opcode, fq_data = minor, fq_length_units = units, fq_header_size = header, fq_bytes = bytes\<rparr>"
  "rf_expected (headed f opcode minor units header bytes expected status) = expected"
  "rf_status (headed f opcode minor units header bytes expected status) = status"
  "rf_order (headed f opcode minor units header bytes expected status) = rf_order f"
  "rf_maximum_big (headed f opcode minor units header bytes expected status) = rf_maximum_big f"
  by (simp_all add: headed_def)

lemma settle_first:
  fixes f opcode minor units
  defines "head \<equiv> [opcode, minor] @ x11_write_u16 (rf_order f) units"
  assumes "fresh_framer f"
  shows "settle_request (push_request head f) =
    (if units = 0 then (if rf_big_enabled f then headed f opcode minor 0 8 head 8 FS_NeedMore else headed f opcode minor 0 4 head 4 FS_ZeroLength)
     else if units > rf_maximum f then headed f opcode minor (ucast units) 4 head 4 FS_TooLarge
     else headed f opcode minor (ucast units) 4 head (4 * unat units) (if units = 1 then FS_Complete else FS_NeedMore))"
proof -
  let ?p = "f\<lparr>rf_request := \<lparr>fq_opcode = 0, fq_data = 0, fq_length_units = 0, fq_header_size = 4, fq_bytes = head\<rparr>\<rparr>"
  note fresh = assms(2) [unfolded fresh_framer_def no_request_def]
  have p: "push_request head f = ?p" using fresh by (simp add: push_request_def)
  have "fq_bytes (rf_request ?p) = [opcode, minor] @ x11_write_u16 (rf_order ?p) units @ []" by (simp add: head_def)
  note decode = inspect_header_decode [OF this]
  have four: "length (fq_bytes (rf_request ?p)) = 4" "rf_expected ?p = 4" using fresh by (simp_all add: head_def x16.write_length)
  have one: "4 * unat units = 4 \<longleftrightarrow> units = 1" using word_unat_eq_iff [of units 1] by simp
  consider "units = 0" | "units \<noteq> 0" "units > rf_maximum f" | "units \<noteq> 0" "\<not> units > rf_maximum f" by blast
  then show ?thesis
    by cases (use fresh one in \<open>simp_all add: p settle_header [OF four surjective_pairing] decode Let_def headed_def\<close>)
qed

lemma settle_second:
  assumes "length head = 4"
  shows "settle_request (push_request (x11_write_u32 (rf_order f) units) (headed f opcode minor 0 8 head 8 FS_NeedMore)) =
    (let all = head @ x11_write_u32 (rf_order f) units
     in if units < 2 \<or> units > rf_maximum_big f then headed f opcode minor units 8 all 8 FS_TooLarge
        else headed f opcode minor units 8 all (4 * unat units) (if units = 2 then FS_Complete else FS_NeedMore))"
proof -
  let ?all = "head @ x11_write_u32 (rf_order f) units"
  let ?p = "headed f opcode minor 0 8 ?all 8 FS_NeedMore"
  have p: "push_request (x11_write_u32 (rf_order f) units) (headed f opcode minor 0 8 head 8 FS_NeedMore) = ?p"
    by (simp add: push_request_def headed_def)
  have "fq_bytes (rf_request ?p) = head @ x11_write_u32 (rf_order ?p) units @ []" by simp
  note decode = inspect_extended_decode [OF this assms]
  have eight: "length (fq_bytes (rf_request ?p)) = 8" "rf_expected ?p = 8" "fq_header_size (rf_request ?p) = 8" "rf_status ?p = FS_NeedMore"
    using assms by (simp_all add: x32.write_length)
  have two: "4 * unat units = 8 \<longleftrightarrow> units = 2" using word_unat_eq_iff [of units 2] by simp
  have "settle_request ?p = (if units < 2 \<or> units > rf_maximum_big f then headed f opcode minor units 8 ?all 8 FS_TooLarge
        else headed f opcode minor units 8 ?all (4 * unat units) (if units = 2 then FS_Complete else FS_NeedMore))"
    by (cases "units < 2 \<or> units > rf_maximum_big f")
      (use two in \<open>simp_all add: settle_extended [OF eight surjective_pairing] decode Let_def\<close>, simp_all add: headed_def)
  then show ?thesis by (simp only: p Let_def)
qed

text \<open>A parser that has decided, or that waits for bytes that only have to be copied.\<close>

lemma consume_headed:
  assumes "framer_ready f" "rf_status f = FS_NeedMore" "head \<noteq> []" "length (fq_bytes (rf_request f)) + length head = rf_expected f"
    and "settle_request (push_request head f) = headed g opcode minor units header bytes expected status"
    and "status = FS_NeedMore \<Longrightarrow> length bytes < expected \<and> expected \<noteq> 4 \<and> \<not> (expected = 8 \<and> header = 8)"
  shows "consume_loop (head @ rest) 0 f =
    (if status \<noteq> FS_NeedMore then Some (headed g opcode minor units header bytes expected status, length head)
     else Some (headed g opcode minor units header (bytes @ take (expected - length bytes) rest) expected
            (if length rest < expected - length bytes then FS_NeedMore else FS_Complete), length head + min (expected - length bytes) (length rest)))"
proof -
  have "take (min n (length rest)) rest = take n rest" for n by (simp add: min_def)
  then show ?thesis using assms(6)
    by (subst consume_header [OF assms(1-5)]) (auto simp: Let_def push_request_def headed_def)
qed

lemma consume_ordinary:
  assumes "fresh_framer f" "units \<noteq> 0 \<or> \<not> rf_big_enabled f"
  shows "\<exists>f' n. consume_loop (([opcode, minor] @ x11_write_u16 (rf_order f) units) @ rest) 0 f = Some (f', n) \<and>
    framed_exactly f (([opcode, minor] @ x11_write_u16 (rf_order f) units) @ rest) f' n"
proof -
  define head where "head = [opcode, minor] @ x11_write_u16 (rf_order f) units"
  note fresh = assms(1) [unfolded fresh_framer_def no_request_def]
  have four: "length head = 4" "head \<noteq> []" by (simp_all add: head_def x16.write_length)
  have nth: "(head @ r) ! 0 = opcode" "(head @ r) ! Suc 0 = minor" for r by (simp_all add: head_def)
  have waits: "head \<noteq> []" "length (fq_bytes (rf_request f)) + length head = rf_expected f" "rf_status f = FS_NeedMore" using fresh four by simp_all
  note step = consume_headed [OF fresh_ready [OF assms(1)] waits(3,1,2)]
  have asked: "frame_request f (head @ rest) = (if units = 0 then (FS_ZeroLength, 4) else if units > rf_maximum f then (FS_TooLarge, 4)
      else whole_request (4 * unat units) (head @ rest))"
    using assms(2) by (simp add: frame_request_def head_def x16.read_write)
  have long: "4 < 4 * unat units" if "units \<noteq> 0" "units \<noteq> 1" using that word_unat_eq_iff [of units 1] word_unat_eq_iff [of units 0] by simp
  consider "units = 0" | "units \<noteq> 0" "units > rf_maximum f" | "units = 1" "units \<noteq> 0" "\<not> units > rf_maximum f"
    | "units \<noteq> 0" "units \<noteq> 1" "\<not> units > rf_maximum f" by blast
  then have "\<exists>f' n. consume_loop (head @ rest) 0 f = Some (f', n) \<and> framed_exactly f (head @ rest) f' n"
  proof cases
    case 1
    then have "settle_request (push_request head f) = headed f opcode minor 0 4 head 4 FS_ZeroLength" using settle_first [OF assms(1), of opcode minor units, folded head_def] assms(2) by simp
    from step [OF this] show ?thesis using 1 four by (simp add: framed_exactly_def asked nth)
  next
    case 2
    then have "settle_request (push_request head f) = headed f opcode minor (ucast units) 4 head 4 FS_TooLarge" using settle_first [OF assms(1), of opcode minor units, folded head_def] by simp
    from step [OF this] show ?thesis using 2 four by (simp add: framed_exactly_def asked nth)
  next
    case 3
    then have "settle_request (push_request head f) = headed f opcode minor (ucast units) 4 head 4 FS_Complete" using settle_first [OF assms(1), of opcode minor units, folded head_def] by simp
    from step [OF this] show ?thesis using 3 four by (simp add: framed_exactly_def asked nth whole_request_def unat_wider)
  next
    case 4
    then have "settle_request (push_request head f) = headed f opcode minor (ucast units) 4 head (4 * unat units) FS_NeedMore"
      using settle_first [OF assms(1), of opcode minor units, folded head_def] by simp
    from step [OF this] show ?thesis using 4 four long by (auto simp: framed_exactly_def asked nth whole_request_def unat_wider min_def)
  qed
  then show ?thesis unfolding head_def .
qed

lemma consume_big:
  assumes "fresh_framer f" "rf_big_enabled f"
  shows "\<exists>f' n. consume_loop (([opcode, minor] @ x11_write_u16 (rf_order f) 0) @ x11_write_u32 (rf_order f) units @ rest) 0 f = Some (f', n) \<and>
    framed_exactly f (([opcode, minor] @ x11_write_u16 (rf_order f) 0) @ x11_write_u32 (rf_order f) units @ rest) f' n"
proof -
  define head where "head = [opcode, minor] @ x11_write_u16 (rf_order f) 0"
  define octets where "octets = x11_write_u32 (rf_order f) units"
  let ?g = "headed f opcode minor 0 8 head 8 FS_NeedMore"
  note fresh = assms(1) [unfolded fresh_framer_def no_request_def]
  have four: "length head = 4" "length octets = 4" "head \<noteq> []" "octets \<noteq> []" by (auto simp: head_def octets_def x16.write_length x32.write_length x11_write_u32_def)
  have nth: "(head @ r) ! 0 = opcode" "(head @ r) ! Suc 0 = minor" for r by (simp_all add: head_def)
  have waits: "head \<noteq> []" "length (fq_bytes (rf_request f)) + length head = rf_expected f" "rf_status f = FS_NeedMore" using fresh four by simp_all
  have "settle_request (push_request head f) = ?g" using settle_first [OF assms(1), of opcode minor 0, folded head_def] assms(2) by simp
  then have first: "consume_loop (head @ octets @ rest) 0 f =
      (case consume_loop (octets @ rest) 0 ?g of None \<Rightarrow> None | Some (p'', m) \<Rightarrow> Some (p'', 4 + m))"
    using framer.loop_exact [OF fresh_ready [OF assms(1)] waits(3,1,2), of "octets @ rest"] unfolding four(1) by (simp add: Let_def)
  have ready: "framer_ready ?g" "rf_status ?g = FS_NeedMore" "octets \<noteq> []" "length (fq_bytes (rf_request ?g)) + length octets = rf_expected ?g"
    using four by (simp_all add: framer_ready_def)
  note step = consume_headed [OF ready]
  have asked: "frame_request f (head @ octets @ rest) = (if units < 2 \<or> units > rf_maximum_big f then (FS_TooLarge, 8)
      else whole_request (4 * unat units) (head @ octets @ rest))"
    using assms(2) by (simp add: frame_request_def head_def octets_def x16.read_write x32.read_write)
  have long: "8 < 4 * unat units" if "\<not> units < 2" "units \<noteq> 2" using that word_unat_eq_iff [of units 2] by (simp add: word_less_nat_alt)
  consider "units < 2 \<or> units > rf_maximum_big f" | "\<not> (units < 2 \<or> units > rf_maximum_big f)" "units = 2" | "\<not> (units < 2 \<or> units > rf_maximum_big f)" "units \<noteq> 2"
    by blast
  then have "\<exists>f' n. consume_loop (head @ octets @ rest) 0 f = Some (f', n) \<and> framed_exactly f (head @ octets @ rest) f' n"
  proof cases
    case 1
    then have "settle_request (push_request octets ?g) = headed f opcode minor units 8 (head @ octets) 8 FS_TooLarge" using settle_second [OF four(1), of f units opcode minor, folded octets_def] by (simp add: Let_def)
    from step [OF this] show ?thesis using 1 four by (simp add: framed_exactly_def asked nth first)
  next
    case 2
    then have "settle_request (push_request octets ?g) = headed f opcode minor units 8 (head @ octets) 8 FS_Complete" using settle_second [OF four(1), of f units opcode minor, folded octets_def] by (simp add: Let_def)
    from step [OF this] show ?thesis using 2 four by (simp add: framed_exactly_def asked nth first whole_request_def)
  next
    case 3
    then have "settle_request (push_request octets ?g) = headed f opcode minor units 8 (head @ octets) (4 * unat units) FS_NeedMore"
      using settle_second [OF four(1), of f units opcode minor, folded octets_def] by (simp add: Let_def)
    from step [OF this] show ?thesis using 3 four long by (auto simp: framed_exactly_def asked nth first whole_request_def min_def)
  qed
  then show ?thesis unfolding head_def octets_def .
qed

lemma consume_short:
  assumes "fresh_framer f" "frame_request f input = (FS_NeedMore, length input)" "length input < 4 \<or> length input < 8 \<and> rf_big_enabled f \<and>
    (\<exists>opcode minor rest. input = ([opcode, minor] @ x11_write_u16 (rf_order f) 0) @ rest)"
  shows "\<exists>f' n. consume_loop input 0 f = Some (f', n) \<and> framed_exactly f input f' n"
proof (cases "length input < 4")
  case True
  then have "consume_loop input 0 f = Some (push_request input f, length input)"
    using assms(1) fresh_ready by (intro framer.loop_short) (simp_all add: fresh_framer_def no_request_def)
  then show ?thesis using assms(1,2) by (simp add: framed_exactly_def fresh_framer_def no_request_def)
next
  case False
  then obtain opcode minor rest where input: "input = ([opcode, minor] @ x11_write_u16 (rf_order f) 0) @ rest" and small: "length input < 8" "rf_big_enabled f"
    using assms(3) by blast
  define head where "head = [opcode, minor] @ x11_write_u16 (rf_order f) 0"
  let ?g = "headed f opcode minor 0 8 head 8 FS_NeedMore"
  have four: "length head = 4" "head \<noteq> []" by (simp_all add: head_def x16.write_length)
  have "settle_request (push_request head f) = ?g" using settle_first [OF assms(1), of opcode minor 0, folded head_def] small by simp
  then have "consume_loop (head @ rest) 0 f = (case consume_loop rest 0 ?g of None \<Rightarrow> None | Some (p'', m) \<Rightarrow> Some (p'', 4 + m))"
    using framer.loop_exact [OF fresh_ready [OF assms(1)], of head rest, unfolded four(1)] assms(1) four(2)
    by (simp add: Let_def fresh_framer_def no_request_def)
  moreover have "consume_loop rest 0 ?g = Some (push_request rest ?g, length rest)"
    using small(1) four by (intro framer.loop_short) (simp_all add: framer_ready_def input x16.write_length)
  moreover have whole: "input = head @ rest" by (simp add: input head_def)
  ultimately show ?thesis using assms(2) four unfolding whole by (simp add: framed_exactly_def)
qed

text \<open>Every input has one of these forms.\<close>

lemma consume_loop_frames:
  assumes "fresh_framer f"
  shows "\<exists>f' n. consume_loop input 0 f = Some (f', n) \<and> framed_exactly f input f' n"
proof (cases "length input < 4")
  case True
  then have "x11_read_u16 (rf_order f) (drop 2 input) = None" by (simp add: x16.read_short)
  then show ?thesis using True assms by (intro consume_short) (simp_all add: frame_request_def)
next
  case False
  then obtain opcode minor tail where tail: "input = opcode # minor # tail" "2 \<le> length tail" using long_two [of input] by auto
  then obtain units rest where input: "input = ([opcode, minor] @ x11_write_u16 (rf_order f) units) @ rest"
    using x16.read_long [of tail "rf_order f"] by (auto simp: x16.read_iff)
  show ?thesis
  proof (cases "units \<noteq> 0 \<or> \<not> rf_big_enabled f")
    case True
    then show ?thesis unfolding input by (intro consume_ordinary assms)
  next
    case False
    then have zero: "units = 0" "rf_big_enabled f" by simp_all
    show ?thesis
    proof (cases "4 \<le> length rest")
      case True
      then obtain more rest' where "rest = x11_write_u32 (rf_order f) more @ rest'"
        using x32.read_long [of rest "rf_order f"] by (auto simp: x32.read_iff)
      then show ?thesis using consume_big [OF assms zero(2)] unfolding input zero(1) by blast
    next
      case short: False
      then have "x11_read_u32 (rf_order f) rest = None" by (simp add: x32.read_short)
      then have "frame_request f input = (FS_NeedMore, length input)" using zero by (simp add: frame_request_def input x16.read_write)
      moreover have "length input < 8" using short by (simp add: input x16.write_length)
      ultimately show ?thesis using assms zero input by (intro consume_short) auto
    qed
  qed
qed

lemma consume_request_frames:
  assumes "fresh_framer f"
  shows "\<exists>f'. consume_request input f = Some (frame_request f input, f') \<and> framed_exactly f input f' (snd (frame_request f input))"
proof -
  obtain f' n where run: "consume_loop input 0 f = Some (f', n)" "framed_exactly f input f' n" using consume_loop_frames [OF assms] by blast
  then have "frame_request f input = (rf_status f', n)" by (simp add: framed_exactly_def)
  then show ?thesis using run assms by (simp add: consume_request_def fresh_framer_def)
qed

lemma consume_request_pieces:
  assumes "framer_ready f"
  shows "consume_request (a @ b) f = (case consume_request a f of None \<Rightarrow> None | Some ((status, n), f') \<Rightarrow>
    if status \<noteq> FS_NeedMore then Some ((status, n), f')
    else (case consume_request b f' of None \<Rightarrow> None | Some ((status', m), f'') \<Rightarrow> Some ((status', n + m), f'')))"
  using framer.pieces [OF assms, of a b]
  by (auto simp: consume_request_def split: option.splits)

end
