(* ===== verification/Srv_Requests.thy ===== *)
theory Srv_Requests
  imports Srv_End X11_Request
begin

text \<open>
  The requests that create windows and change their attributes (\<open>glasswyrmd/request_handlers/lifecycle.cpp\<close>,
  \<open>glasswyrmd/request_handlers/window.cpp\<close>). With an integrated window manager the creation of a window below the root is
  deferred: the handler keeps the specification it has read, and the window is created later
  (\<open>ServerState::commit_create_lifecycle\<close>), from a cursor that may have changed since.

  A request is refused with an error code and the bad value of the error, is done, or is handed on. The events that a
  creation gives rise to are not modelled.
\<close>

section \<open>Attributes of windows\<close>

definition kWindowAttributeMask :: u32 where "kWindowAttributeMask = 0x00007fff"

text \<open>The assignment of one attribute; the attributes and the event mask that was asked for, or an error.\<close>

definition assign_attribute ::
    "nat \<Rightarrow> u32 \<Rightarrow> resource_table \<Rightarrow> window_attributes \<times> u32 option \<Rightarrow> core_error_code + window_attributes \<times> u32 option" where
  "assign_attribute bit_number value t result =
     (case result of (a, event_mask) \<Rightarrow>
        if bit_number = 0 then
          if value > 1 then Inl Er_BadPixmap
          else Inr (a\<lparr>wa_background_pixmap := value, wa_background_source := if value = 0 then Background_None else ParentRelative\<rparr>, event_mask)
        else if bit_number = 1 then
          Inr (a\<lparr>wa_background_pixel := value AND 0x00ffffff, wa_background_source := Background_Pixel\<rparr>, event_mask)
        else if bit_number = 2 then
          if value \<noteq> 0 then Inl Er_BadPixmap else Inr (a\<lparr>wa_border_pixmap := value\<rparr>, event_mask)
        else if bit_number = 3 then Inr (a\<lparr>wa_border_pixel := value\<rparr>, event_mask)
        else if bit_number = 4 then
          if value > 10 then Inl Er_BadValue else Inr (a\<lparr>wa_bit_gravity := ucast value\<rparr>, event_mask)
        else if bit_number = 5 then
          if value > 10 then Inl Er_BadValue else Inr (a\<lparr>wa_window_gravity := ucast value\<rparr>, event_mask)
        else if bit_number = 6 then
          if value > 2 then Inl Er_BadValue else Inr (a\<lparr>wa_backing_store := ucast value\<rparr>, event_mask)
        else if bit_number = 7 then Inr (a\<lparr>wa_backing_planes := value\<rparr>, event_mask)
        else if bit_number = 8 then Inr (a\<lparr>wa_backing_pixel := value\<rparr>, event_mask)
        else if bit_number = 9 then
          if value > 1 then Inl Er_BadValue else Inr (a\<lparr>wa_override_redirect := value \<noteq> 0\<rparr>, event_mask)
        else if bit_number = 10 then
          if value > 1 then Inl Er_BadValue else Inr (a\<lparr>wa_save_under := value \<noteq> 0\<rparr>, event_mask)
        else if bit_number = 11 then
          if value AND NOT em_All \<noteq> 0 then Inl Er_BadValue else Inr (a, Some value)
        else if bit_number = 12 then
          if value AND NOT em_DoNotPropagate \<noteq> 0 then Inl Er_BadValue else Inr (a\<lparr>wa_do_not_propagate_mask := value\<rparr>, event_mask)
        else if bit_number = 13 then
          if value \<noteq> 0 \<and> \<not> valid_colormap value t then Inl Er_BadColor else Inr (a\<lparr>wa_colormap := value\<rparr>, event_mask)
        else if bit_number = 14 then
          if value = 0 then Inr (a\<lparr>wa_cursor := 0, wa_cursor_inherit := True, wa_cursor_image := None\<rparr>, event_mask)
          else (case find_cursor value t of
                  Some shared \<Rightarrow> Inr (a\<lparr>wa_cursor := value, wa_cursor_inherit := False, wa_cursor_image := shared\<rparr>, event_mask)
                | None \<Rightarrow> Inl Er_BadCursor)
        else Inr (a, event_mask))"

text \<open>
  The loop over the bits of the mask. Bytes that run out are reported as \<open>BadImplementation\<close>, with the value that was
  read before.
\<close>

fun decode_attribute_bits ::
    "nat list \<Rightarrow> u32 \<Rightarrow> byte_order \<Rightarrow> resource_table \<Rightarrow> u8 list \<Rightarrow> u32 \<Rightarrow> window_attributes \<times> u32 option \<Rightarrow>
       (core_error_code \<times> u32) + window_attributes \<times> u32 option" where
  "decode_attribute_bits [] value_mask order t b bad_value result = Inr result"
| "decode_attribute_bits (bit_number # bits) value_mask order t b bad_value result =
     (if \<not> bit value_mask bit_number then decode_attribute_bits bits value_mask order t b bad_value result
      else case x11_read_u32 order b of
        None \<Rightarrow> Inl (Er_BadImplementation, bad_value)
      | Some (value, rest) \<Rightarrow>
          (case assign_attribute bit_number value t result of
             Inl e \<Rightarrow> Inl (e, value)
           | Inr result' \<Rightarrow> decode_attribute_bits bits value_mask order t rest value result'))"

definition decode_window_attributes ::
    "byte_order \<Rightarrow> u8 list \<Rightarrow> u32 \<Rightarrow> window_attributes \<Rightarrow> resource_table \<Rightarrow> (core_error_code \<times> u32) + window_attributes \<times> u32 option" where
  "decode_window_attributes order b value_mask attributes t = decode_attribute_bits [0..<15] value_mask order t b 0 (attributes, None)"

section \<open>Requests\<close>

record dispatch_context =
  dc_client_id :: u64
  dc_resource_base :: u32
  dc_resource_mask :: u32
  dc_byte_order :: byte_order
  dc_integrated_lifecycle :: bool

datatype request_result = RQ_Error core_error_code u32 | RQ_Done | RQ_Create_Window window_create_spec | RQ_Override_Change u32 bool

definition exact_size :: "framed_request \<Rightarrow> nat \<Rightarrow> bool" where
  "exact_size request expected \<longleftrightarrow> core_size request = expected"

definition popcount32 :: "u32 \<Rightarrow> nat" where
  "popcount32 v = length (filter (bit v) [0..<32])"

definition window_class_of :: "u16 \<Rightarrow> window_class" where
  "window_class_of v = (if v = 0 then CopyFromParent else if v = 1 then InputOutput else if v = 2 then InputOnly else Undefined_Class v)"

text \<open>The fields of a creation, with the class, the mask of its values and what comes after.\<close>

definition read_create_window :: "framed_request \<Rightarrow> byte_order \<Rightarrow> (window_create_spec \<times> u16 \<times> u32 \<times> u8 list) option" where
  "read_create_window request order =
     do {
       b \<leftarrow> skip_bytes 4 (fq_bytes request);
       (xid, b) \<leftarrow> x11_read_u32 order b;
       (parent, b) \<leftarrow> x11_read_u32 order b;
       (x, b) \<leftarrow> x11_read_u16 order b;
       (y, b) \<leftarrow> x11_read_u16 order b;
       (width, b) \<leftarrow> x11_read_u16 order b;
       (height, b) \<leftarrow> x11_read_u16 order b;
       (border_width, b) \<leftarrow> x11_read_u16 order b;
       (class, b) \<leftarrow> x11_read_u16 order b;
       (visual, b) \<leftarrow> x11_read_u32 order b;
       (value_mask, b) \<leftarrow> x11_read_u32 order b;
       Some (\<lparr>cs_xid = xid, cs_parent = parent, cs_x = x, cs_y = y, cs_width = width, cs_height = height, cs_border_width = border_width,
                cs_depth = fq_data request, cs_class = window_class_of class, cs_visual = visual, cs_attribute_mask = value_mask,
                cs_initial_event_mask = 0, cs_attributes = default_attributes\<rparr>, class, value_mask, b)
     }"

definition creates_candidate :: "window_create_spec \<Rightarrow> resource_table \<Rightarrow> bool" where
  "creates_candidate spec t = (case find_window (cs_parent spec) t of None \<Rightarrow> False | Some parent \<Rightarrow>
     cs_parent spec = sm_root_window (rt_screen t) \<and>
     (cs_class spec = InputOutput \<or> cs_class spec = CopyFromParent \<and> sw_class parent = InputOutput))"

text \<open>What a creation answers: a deferred one is handed on when the table would accept it now.\<close>

definition create_answer :: "bool \<Rightarrow> window_create_spec \<Rightarrow> create_window_status \<Rightarrow> request_result" where
  "create_answer candidate spec status =
     (case status of
        CW_Success \<Rightarrow> if candidate then RQ_Create_Window spec else RQ_Done
      | CW_BadIdChoice \<Rightarrow> RQ_Error Er_BadIDChoice (cs_xid spec)
      | CW_BadWindow \<Rightarrow> RQ_Error Er_BadWindow (cs_parent spec)
      | CW_BadValue \<Rightarrow> RQ_Error Er_BadValue 0
      | CW_BadMatch \<Rightarrow> RQ_Error Er_BadMatch 0
      | CW_BadAlloc \<Rightarrow> RQ_Error Er_BadAlloc 0)"

text \<open>What the request asks for, or the error; the attributes of its cursor are those of the table as it is now.\<close>

definition requested_window :: "dispatch_context \<Rightarrow> framed_request \<Rightarrow> resource_table \<Rightarrow> (core_error_code \<times> u32) + window_create_spec" where
  "requested_window c request t =
     (if length (fq_bytes request) < 32 then Inl (Er_BadLength, 0)
      else case read_create_window request (dc_byte_order c) of
        None \<Rightarrow> Inl (Er_BadLength, 0)
      | Some (spec, class, value_mask, b) \<Rightarrow>
          if class > 2 then Inl (Er_BadValue, ucast class)
          else if value_mask AND NOT kWindowAttributeMask \<noteq> 0 then Inl (Er_BadValue, value_mask)
          else if \<not> exact_size request (32 + popcount32 value_mask * 4) then Inl (Er_BadLength, 0)
          else case decode_window_attributes (dc_byte_order c) b value_mask (cs_attributes spec) t of
            Inl e \<Rightarrow> Inl e
          | Inr (attributes, event_mask) \<Rightarrow>
              if dc_integrated_lifecycle c \<and> cleanup_pending (cs_parent spec) t then Inl (Er_BadWindow, cs_parent spec)
              else Inr (spec\<lparr>cs_attributes := attributes, cs_initial_event_mask := (case event_mask of None \<Rightarrow> 0 | Some m \<Rightarrow> m)\<rparr>))"

definition request_create_window :: "dispatch_context \<Rightarrow> framed_request \<Rightarrow> resource_table \<Rightarrow> request_result \<times> resource_table" where
  "request_create_window c request t =
     (case requested_window c request t of
        Inl (e, bad_value) \<Rightarrow> (RQ_Error e bad_value, t)
      | Inr spec \<Rightarrow>
          let candidate = dc_integrated_lifecycle c \<and> creates_candidate spec t;
              (status, t') = create_window (dc_client_id c) (dc_resource_base c) (dc_resource_mask c) spec t
          in (create_answer candidate spec status, if candidate then t else t'))"

text \<open>The window of a change with its new attributes and the event mask asked for, or the error.\<close>

definition requested_attributes ::
    "dispatch_context \<Rightarrow> framed_request \<Rightarrow> resource_table \<Rightarrow> (core_error_code \<times> u32) + u32 \<times> u32 \<times> server_window \<times> window_attributes \<times> u32 option" where
  "requested_attributes c request t =
     (if length (fq_bytes request) < 12 then Inl (Er_BadLength, 0)
      else case x11_read_u32 (dc_byte_order c) (request_body request) of
        None \<Rightarrow> Inl (Er_BadLength, 0)
      | Some (window_id, b) \<Rightarrow>
      case x11_read_u32 (dc_byte_order c) b of
        None \<Rightarrow> Inl (Er_BadLength, 0)
      | Some (value_mask, b) \<Rightarrow>
          if value_mask AND NOT kWindowAttributeMask \<noteq> 0 then Inl (Er_BadValue, value_mask)
          else if \<not> exact_size request (12 + popcount32 value_mask * 4) then Inl (Er_BadLength, 0)
          else case find_window window_id t of
            None \<Rightarrow> Inl (Er_BadWindow, window_id)
          | Some w \<Rightarrow>
              if dc_integrated_lifecycle c \<and> cleanup_pending window_id t then Inl (Er_BadWindow, window_id)
              else case decode_window_attributes (dc_byte_order c) b value_mask (sw_attributes w) t of
                Inl e \<Rightarrow> Inl e
              | Inr (attributes, event_mask) \<Rightarrow>
                  if bit value_mask 9 \<and> window_id = sm_root_window (rt_screen t) then Inl (Er_BadMatch, window_id)
                  else Inr (window_id, value_mask, w, attributes, event_mask))"

text \<open>Only one client may select button presses, and nobody may redirect.\<close>

definition selection_refused :: "u64 \<Rightarrow> u32 \<Rightarrow> server_window \<Rightarrow> bool" where
  "selection_refused client selected w \<longleftrightarrow>
     selected AND (em_ResizeRedirect OR em_SubstructureRedirect) \<noteq> 0 \<or>
     selected AND em_ButtonPress \<noteq> 0 \<and>
       (\<exists>other \<in> fset (fmdom (sw_event_selections w)). other \<noteq> client \<and> the (fmlookup (sw_event_selections w) other) AND em_ButtonPress \<noteq> 0)"

definition request_change_window_attributes :: "dispatch_context \<Rightarrow> framed_request \<Rightarrow> resource_table \<Rightarrow> request_result \<times> resource_table" where
  "request_change_window_attributes c request t =
     (case requested_attributes c request t of
        Inl (e, bad_value) \<Rightarrow> (RQ_Error e bad_value, t)
      | Inr (window_id, value_mask, w, attributes, event_mask) \<Rightarrow>
          let defer_override = dc_integrated_lifecycle c \<and> bit value_mask 9 \<and> is_policy_candidate window_id t \<and> sw_map_requested w \<and>
                wa_override_redirect attributes \<noteq> wa_override_redirect (sw_attributes w);
              assigned = (if defer_override then attributes\<lparr>wa_override_redirect := wa_override_redirect (sw_attributes w)\<rparr> else attributes);
              result = (if defer_override then RQ_Override_Change window_id (wa_override_redirect attributes) else RQ_Done);
              assign = update_window window_id (\<lambda>w. w\<lparr>sw_attributes := assigned\<rparr>)
          in case event_mask of
               None \<Rightarrow> (result, assign t)
             | Some selected \<Rightarrow>
                 if selection_refused (dc_client_id c) selected w then (RQ_Error Er_BadAccess selected, t)
                 else (case set_event_selection window_id (dc_client_id c) selected t of
                         (False, t') \<Rightarrow> (RQ_Error Er_BadWindow window_id, t')
                       | (True, t') \<Rightarrow> (result, assign t')))"

section \<open>The cursor of decoded attributes\<close>

text \<open>Attributes have the cursor they had before, or one that the table has now.\<close>

definition same_cursor :: "window_attributes \<Rightarrow> window_attributes \<Rightarrow> bool" where
  "same_cursor a a' \<longleftrightarrow> wa_cursor a' = wa_cursor a \<and> wa_cursor_inherit a' = wa_cursor_inherit a \<and> wa_cursor_image a' = wa_cursor_image a"

lemma same_cursor_refl [simp]: "same_cursor a a"
  by (simp add: same_cursor_def)

lemma same_cursor_holds: "same_cursor a a' \<Longrightarrow> cursor_holds a' t \<longleftrightarrow> cursor_holds a t"
  by (simp add: same_cursor_def cursor_holds_def)

lemma same_cursor_fits: "same_cursor a a' \<Longrightarrow> cursor_fits late xid a' t \<longleftrightarrow> cursor_fits late xid a t"
  by (simp add: same_cursor_def cursor_fits_def)

lemma cursor_fits_cong: "view as_image u = view as_image t \<Longrightarrow> cursor_fits late xid a u \<longleftrightarrow> cursor_fits late xid a t"
  by (cases "wa_cursor_inherit a") (simp_all add: cursor_fits_def find_cursor_view)

lemma image_there: "table_ok late t \<Longrightarrow> find_cursor c t = Some shared \<Longrightarrow> shared \<noteq> None"
proof -
  assume ok: "table_ok late t" and c: "find_cursor c t = Some shared"
  then have "view Some t c = Some (PL_Cursor shared)" by (auto simp: find_cursor_def view_def split: option.splits payload.splits)
  with ok_parts(7) [OF ok] have "payload_ok (rt_limits t) (PL_Cursor shared)" unfolding payloads_ok_def by blast
  then show "shared \<noteq> None" by simp
qed

lemma assigned_cursor:
  assumes "table_ok late t" "assign_attribute n v t (a, m) = Inr (a', m')"
  shows "same_cursor a a' \<or> cursor_holds a' t"
  using assms image_there [OF assms(1), of v]
  by (auto simp: assign_attribute_def same_cursor_def cursor_holds_def split: if_splits option.splits)

lemma decoded_bits_cursor:
  assumes ok: "table_ok late t"
  shows "decode_attribute_bits bits value_mask order t b bad (a, m) = Inr (a', m') \<Longrightarrow> same_cursor a a' \<or> cursor_holds a' t"
proof (induction bits arbitrary: b bad a m)
  case (Cons n bits)
  show ?case
  proof (cases "bit value_mask n")
    case True
    then obtain v rest a1 m1 where "assign_attribute n v t (a, m) = Inr (a1, m1)"
      "decode_attribute_bits bits value_mask order t rest v (a1, m1) = Inr (a', m')"
      using Cons.prems by (auto split: option.split_asm sum.split_asm)
    with assigned_cursor [OF ok this(1)] Cons.IH [OF this(2)] show ?thesis
      by (auto simp: same_cursor_def cursor_holds_def)
  next
    case False
    then show ?thesis using Cons by simp
  qed
qed simp

lemma decoded_cursor:
  "table_ok late t \<Longrightarrow> decode_window_attributes order b value_mask a t = Inr (a', m) \<Longrightarrow> same_cursor a a' \<or> cursor_holds a' t"
  unfolding decode_window_attributes_def by (rule decoded_bits_cursor)

lemma decoded_new_cursor:
  "table_ok late t \<Longrightarrow> decode_window_attributes order b value_mask default_attributes t = Inr (a, m) \<Longrightarrow> cursor_holds a t"
  using decoded_cursor [of late t order b value_mask default_attributes a m] same_cursor_holds [of default_attributes a t]
  by (auto simp: cursor_holds_def default_attributes_def)

section \<open>The requests keep the table in order\<close>

lemma set_attributes_ok:
  assumes ok: "table_ok late t" and cursor: "cursor_fits late xid a t"
  shows "table_ok late (update_window xid (\<lambda>w. w\<lparr>sw_attributes := a\<rparr>) t)"
proof (cases "find_window xid t")
  case None
  then show ?thesis using ok by (simp add: update_window_def)
next
  case (Some w)
  let ?f = "\<lambda>w. w\<lparr>sw_attributes := a\<rparr>"
  note upd = update_window_fields view_update_window [OF Some] window_view [OF Some]
  have parts: "structure_ok t" "payloads_ok t" "cursors_ok late t" "storages_ok t" "sums_ok t" "within_limits t" using ok by (simp_all add: table_parts)
  have "structure_ok (update_window xid ?f t)" using parts(1) structure_frame [OF update_frame [OF Some, of ?f]] by simp
  moreover have "payloads_ok (update_window xid ?f t)"
    using parts(2) window_properties_ok [OF ok Some] by (simp add: payloads_ok_def upd properties_ok_def)
  moreover have "cursors_ok late (update_window xid ?f t)"
  proof -
    have image: "view as_image (update_window xid ?f t) = view as_image t" by (simp add: upd fun_upd_idem)
    have "find_window y (update_window xid ?f t) = (if y = xid then Some (?f w) else find_window y t)" for y
      using Some by (auto simp: find_window_def find_update_window split: option.splits payload.splits)
    then show ?thesis using parts(3) cursor by (auto simp: cursors_fit cursor_fits_cong [OF image] split: if_splits)
  qed
  moreover have "storages_ok (update_window xid ?f t)" using parts(4) by (simp add: storages_ok_def upd fun_upd_idem)
  moreover have "sums_ok (update_window xid ?f t)"
    using parts(5) by (simp add: sums_ok_def drawable_bytes_def upd fun_upd_idem window_property_bytes_def)
  moreover have "within_limits (update_window xid ?f t)" using parts(6) by (simp add: within_limits_def update_window_fields)
  ultimately show ?thesis by (simp add: table_ok_def)
qed

lemma read_default: "read_create_window request order = Some (spec, k, value_mask, b) \<Longrightarrow> cs_attributes spec = default_attributes"
  by (auto simp: read_create_window_def split: Option.bind_splits)

lemma requested_cursor: "table_ok late t \<Longrightarrow> requested_window c request t = Inr spec \<Longrightarrow> cursor_holds (cs_attributes spec) t"
  by (auto simp: requested_window_def read_default dest: decoded_new_cursor split: if_split_asm option.split_asm prod.split_asm sum.split_asm)

lemma request_create_window_ok:
  assumes ok: "table_ok late t" and result: "request_create_window c request t = (q, t')"
  shows "table_ok late t'" "q = RQ_Create_Window spec \<Longrightarrow> t' = t \<and> requested_window c request t = Inr spec"
proof -
  have "table_ok late t' \<and> (q = RQ_Create_Window spec \<longrightarrow> t' = t \<and> requested_window c request t = Inr spec)"
  proof (cases "requested_window c request t")
    case (Inl e)
    then show ?thesis using result ok by (cases e) (auto simp: request_create_window_def)
  next
    case (Inr found)
    have "table_ok late (snd (create_window (dc_client_id c) (dc_resource_base c) (dc_resource_mask c) found t))"
      by (rule create_window_ok [OF ok cursor_holds_fits [OF requested_cursor [OF ok Inr]]])
    then show ?thesis using result ok Inr
      by (auto simp: request_create_window_def create_answer_def Let_def
          split: prod.split_asm create_window_status.split_asm if_split_asm)
  qed
  then show "table_ok late t'" "q = RQ_Create_Window spec \<Longrightarrow> t' = t \<and> requested_window c request t = Inr spec" by simp_all
qed

lemma requested_attributes_found:
  "requested_attributes c request t = Inr (window_id, value_mask, w, a, m) \<Longrightarrow>
     find_window window_id t = Some w \<and> (\<exists>b. decode_window_attributes (dc_byte_order c) b value_mask (sw_attributes w) t = Inr (a, m))"
  by (auto simp: requested_attributes_def split: if_split_asm option.split_asm prod.split_asm sum.split_asm)

lemma request_change_window_attributes_ok:
  assumes ok: "table_ok late t"
  shows "table_ok late (snd (request_change_window_attributes c request t))"
proof (cases "requested_attributes c request t")
  case (Inl e)
  then show ?thesis using ok by (cases e) (simp add: request_change_window_attributes_def)
next
  case (Inr found)
  obtain xid value_mask w a m where found: "found = (xid, value_mask, w, a, m)" by (cases found) auto
  obtain b where w: "find_window xid t = Some w" and decoded: "decode_window_attributes (dc_byte_order c) b value_mask (sw_attributes w) t = Inr (a, m)"
    using requested_attributes_found Inr found by blast
  have "cursor_fits late xid (sw_attributes w) t" by (rule cursor_of_window [OF ok_parts(8) [OF ok] w])
  then have fits: "cursor_fits late xid a t"
    using decoded_cursor [OF ok decoded] cursor_holds_fits [of a t late xid] same_cursor_fits [of "sw_attributes w" a late xid t] by auto
  have step: "table_ok late (update_window xid (\<lambda>w. w\<lparr>sw_attributes := a'\<rparr>) u)"
    if "same_cursor a a'" "table_ok late u" "view as_image u = view as_image t" for a' u
  proof (rule set_attributes_ok [OF that(2)])
    show "cursor_fits late xid a' u"
      using fits by (simp add: cursor_fits_cong [OF that(3)] same_cursor_fits [OF that(1)])
  qed
  have selected: "view as_image (snd (set_event_selection xid client m t)) = view as_image t" for client m
    by (auto simp: set_event_selection_def table_views split: option.split)
  have same: "same_cursor a (if d then a\<lparr>wa_override_redirect := r\<rparr> else a)" for d r by (simp add: same_cursor_def)
  show ?thesis
  proof (cases m)
    case None
    then show ?thesis using Inr found step [OF same ok] by (simp add: request_change_window_attributes_def Let_def)
  next
    case (Some sel)
    obtain ok' u where u: "set_event_selection xid (dc_client_id c) sel t = (ok', u)" by force
    then have "table_ok late u" "view as_image u = view as_image t"
      using event_selections_ok(1) [OF ok, of xid "dc_client_id c" sel] selected [of "dc_client_id c" sel] by simp_all
    then show ?thesis using Inr found Some u step [OF same, of u] ok
      by (cases ok') (simp_all add: request_change_window_attributes_def Let_def)
  qed
qed

end
