(* ===== verification/Srv_Reachable.thy ===== *)
theory Srv_Reachable
  imports Srv_Requests
begin

text \<open>
  The tables the server can reach: every operation of the resource table as a step, with what its callers check
  first, and the invariant at the start and along the steps.
\<close>

section \<open>The table at the start\<close>

text \<open>A screen whose own resources have different numbers.\<close>

definition valid_screen :: "screen_model \<Rightarrow> bool" where
  "valid_screen screen \<longleftrightarrow> sm_root_window screen \<noteq> 0 \<and> sm_default_colormap screen \<noteq> 0 \<and>
     distinct [sm_root_window screen, sm_default_colormap screen, kDefaultFontXid]"

lemma server_screen_valid: "valid_screen kScreenModel"
  by (simp add: valid_screen_def kScreenModel_def kDefaultFontXid_def)

definition root_payload :: "screen_model \<Rightarrow> server_window" where
  "root_payload screen = default_window\<lparr>sw_width := sm_width_pixels screen, sw_height := sm_height_pixels screen, sw_depth := sm_root_depth screen,
     sw_class := InputOutput, sw_visual := sm_root_visual screen, sw_map_state := Viewable,
     sw_attributes := default_attributes\<lparr>wa_colormap := sm_default_colormap screen\<rparr>\<rparr>"

lemma find_new:
  assumes "valid_screen screen"
  shows "find_resource xid (new_resource_table screen limits root_cursor) =
    (if xid = sm_root_window screen then Some \<lparr>re_type = RT_Window, re_owner = None, re_payload = PL_Window (root_payload screen)\<rparr>
     else if xid = sm_default_colormap screen then Some \<lparr>re_type = RT_Colormap, re_owner = None, re_payload = PL_Colormap (sm_root_visual screen)\<rparr>
     else if xid = kDefaultFontXid then Some \<lparr>re_type = RT_Font, re_owner = None,
       re_payload = PL_Font \<lparr>fo_canonical = kDefaultFontXid, fo_identity = Font_Fixed\<rparr>\<rparr> else None)"
  using assms by (auto simp: new_resource_table_def Let_def find_resource_def emplace_def root_payload_def valid_screen_def)

lemma new_fields:
  "rt_screen (new_resource_table screen limits root_cursor) = screen" "rt_limits (new_resource_table screen limits root_cursor) = limits"
  "rt_property_bytes (new_resource_table screen limits root_cursor) = 0" "rt_drawable_bytes (new_resource_table screen limits root_cursor) = 0"
  "rt_cursor_bytes (new_resource_table screen limits root_cursor) = 0" "rt_root_cursor (new_resource_table screen limits root_cursor) = root_cursor"
  "owned_ids owner (new_resource_table screen limits root_cursor) = []"
  by (simp_all add: new_resource_table_def Let_def owned_ids_def)

lemma view_new:
  assumes "valid_screen screen"
  shows "view g (new_resource_table screen limits root_cursor) xid =
    (if xid = sm_root_window screen then g (PL_Window (root_payload screen))
     else if xid = sm_default_colormap screen then g (PL_Colormap (sm_root_visual screen))
     else if xid = kDefaultFontXid then g (PL_Font \<lparr>fo_canonical = kDefaultFontXid, fo_identity = Font_Fixed\<rparr>) else None)"
  by (simp add: view_def find_new [OF assms])

lemma root_payload_fields [simp]:
  "sw_parent (root_payload screen) = 0" "sw_children (root_payload screen) = []" "sw_properties (root_payload screen) = fmempty"
  "sw_storage (root_payload screen) = None" "wa_cursor_inherit (sw_attributes (root_payload screen))"
  "wa_cursor (sw_attributes (root_payload screen)) = 0" "wa_cursor_image (sw_attributes (root_payload screen)) = None"
  "sw_map_state (root_payload screen) = Viewable"
  by (simp_all add: root_payload_def default_window_def default_attributes_def)

lemma new_resource_table_ok:
  assumes v: "valid_screen screen" and c: "root_cursor \<noteq> None"
  shows "table_ok late (new_resource_table screen limits root_cursor)" (is "table_ok late ?t")
proof -
  have ne: "sm_root_window screen \<noteq> 0" "sm_default_colormap screen \<noteq> 0" "kDefaultFontXid \<noteq> 0"
    "sm_default_colormap screen \<noteq> sm_root_window screen" "kDefaultFontXid \<noteq> sm_root_window screen" "kDefaultFontXid \<noteq> sm_default_colormap screen"
    using v by (auto simp: valid_screen_def kDefaultFontXid_def)
  note new = view_new [OF v] new_fields
  have kind: "kind ?t xid = (if xid = sm_root_window screen then Some (RT_Window, None) else if xid = sm_default_colormap screen then Some (RT_Colormap, None)
      else if xid = kDefaultFontXid then Some (RT_Font, None) else None)" for xid
    by (simp add: kind_def find_new [OF v])
  have "typed ?t" using ne by (auto simp: typed_def kind new split: if_splits)
  moreover have "owners_ok ?t" by (auto simp: owners_ok_def kind new split: if_splits)
  moreover have "unowned_ok ?t" by (auto simp: unowned_ok_def kind new server_resource_def split: if_splits)
  moreover have "root_ok ?t" using ne c by (auto simp: root_ok_def kind new)
  moreover have "tree_ok ?t"
  proof -
    have "child_relation ?t = {}" by (auto simp: child_relation_def new split: if_splits)
    then show ?thesis by (auto simp: tree_ok_def window_linked_def new split: if_splits)
  qed
  moreover have "refs_ok ?t" by (auto simp: refs_ok_def new split: if_splits)
  moreover have "payloads_ok ?t" by (auto simp: payloads_ok_def new properties_ok_def fcard.rep_eq split: if_splits)
  moreover have "cursors_ok late ?t" by (auto simp: cursors_ok_def new split: if_splits)
  moreover have "storages_ok ?t" by (auto simp: storages_ok_def new inj_on_def ran_def split: if_splits)
  moreover have "sums_ok ?t"
  proof -
    have "sum_view (view as_property_bytes ?t) = 0" "sum_view (view as_cursor_bytes ?t) = 0"
      by (auto simp: sum_view_def new window_property_bytes_def split: option.splits if_splits)
    moreover have "ran (view as_pixmap ?t) = {}" by (auto simp: ran_def new split: if_splits)
    ultimately show ?thesis by (simp add: sums_ok_def drawable_bytes_def new_fields)
  qed
  moreover have "within_limits ?t" by (simp add: within_limits_def new_fields)
  ultimately show ?thesis by (simp add: table_parts)
qed

section \<open>Assignments through the pointer that find_window returns\<close>

lemma set_override_ok:
  assumes ok: "table_ok late t"
  shows "table_ok late (update_window xid (\<lambda>w. w\<lparr>sw_attributes := (sw_attributes w)\<lparr>wa_override_redirect := override\<rparr>\<rparr>) t)"
proof (cases "find_window xid t")
  case (Some w)
  let ?a = "(sw_attributes w)\<lparr>wa_override_redirect := override\<rparr>"
  have "cursor_fits late xid ?a t"
    using cursor_of_window [OF ok_parts(8) [OF ok] Some] same_cursor_fits [of "sw_attributes w" ?a late xid t]
    by (simp add: same_cursor_def)
  then have "table_ok late (update_window xid (\<lambda>w. w\<lparr>sw_attributes := ?a\<rparr>) t)" by (rule set_attributes_ok [OF ok])
  moreover have "update_window xid (\<lambda>w. w\<lparr>sw_attributes := (sw_attributes w)\<lparr>wa_override_redirect := override\<rparr>\<rparr>) t =
      update_window xid (\<lambda>w. w\<lparr>sw_attributes := ?a\<rparr>) t"
    using Some by (simp add: update_window_def)
  ultimately show ?thesis by simp
qed (use ok in \<open>simp add: update_window_def\<close>)

text \<open>An address is that of one block: a block of pixels is new, or it is the one that the table knows by this address.\<close>

definition one_block :: "storage_ref \<Rightarrow> resource_table \<Rightarrow> bool" where
  "one_block s t \<longleftrightarrow> (\<forall>b \<in> ran (view as_block t). storage_identity b = sr_address s \<longrightarrow> b = Pixel_Storage s)"

lemma set_storage_ok:
  assumes ok: "table_ok late t" and block: "\<And>s. storage = Some s \<Longrightarrow> one_block s t"
  shows "table_ok late (update_window xid (\<lambda>w. w\<lparr>sw_storage := storage\<rparr>) t)"
proof (cases "find_window xid t")
  case None
  then show ?thesis using ok by (simp add: update_window_def)
next
  case (Some w)
  let ?f = "\<lambda>w. w\<lparr>sw_storage := storage\<rparr>"
  note upd = update_window_fields view_update_window [OF Some] window_view [OF Some]
  have parts: "structure_ok t" "payloads_ok t" "cursors_ok late t" "storages_ok t" "sums_ok t" "within_limits t" using ok by (simp_all add: table_parts)
  have "structure_ok (update_window xid ?f t)" using parts(1) structure_frame [OF update_frame [OF Some, of ?f]] by simp
  moreover have "payloads_ok (update_window xid ?f t)"
    using parts(2) window_properties_ok [OF ok Some] by (simp add: payloads_ok_def upd properties_ok_def)
  moreover have "cursors_ok late (update_window xid ?f t)" using parts(3) by (simp add: cursors_ok_def upd fun_upd_idem)
  moreover have "storages_ok (update_window xid ?f t)"
  proof -
    let ?block = "map_option Pixel_Storage storage"
    have "ran ((view as_block t)(xid := ?block)) \<subseteq> set_option ?block \<union> ran (view as_block t)" by (auto simp: ran_def)
    moreover have "inj_on storage_identity (set_option ?block \<union> ran (view as_block t))"
    proof (cases storage)
      case (Some s)
      have "b = Pixel_Storage s" if "b \<in> ran (view as_block t)" "storage_identity b = sr_address s" for b
        using block [OF Some] that by (simp add: one_block_def)
      then have "storage_identity (Pixel_Storage s) \<notin> storage_identity ` (ran (view as_block t) - {Pixel_Storage s})" by auto
      then show ?thesis using parts(4) Some by (simp add: storages_ok_def)
    qed (use parts(4) in \<open>simp add: storages_ok_def\<close>)
    ultimately show ?thesis by (simp add: storages_ok_def upd) (rule inj_on_subset)
  qed
  moreover have "sums_ok (update_window xid ?f t)"
    using parts(5) by (simp add: sums_ok_def drawable_bytes_def upd fun_upd_idem window_property_bytes_def)
  moreover have "within_limits (update_window xid ?f t)" using parts(6) by (simp add: within_limits_def update_window_fields)
  ultimately show ?thesis by (simp add: table_ok_def)
qed

section \<open>The commit of an old plan\<close>

lemma free_any_ok:
  assumes ok: "table_ok late t"
  shows "\<exists>t'. free_any xid t = Some t' \<and> table_ok late t'"
  using ok free_colormap_ok [OF ok, of xid]
  by (auto simp: free_any_def intro: free_pixmap_ok free_gc_ok close_font_ok free_cursor_ok detach_shm_segment_ok destroy_xfixes_region_ok
      destroy_damage_ok free_picture_ok)

lemma destroy_root_ok:
  assumes ok: "table_ok late t"
  shows "\<exists>counts' t'. destroy_root r (counts, t) = Some (counts', t') \<and> table_ok late t'"
proof (cases "find_window r t = None \<or> r = sm_root_window (rt_screen t)")
  case True
  then show ?thesis using ok by (auto simp: destroy_root_def capture_destroy_plan_def)
next
  case False
  then obtain w where w: "find_window r t = Some w" "r \<noteq> sm_root_window (rt_screen t)" by auto
  then obtain plan where plan: "capture_destroy_plan r t = Some (Some plan)"
    using capture_destroy_plan_returns [OF ok_parts(5) [OF ok]] by blast
  then show ?thesis using commit_plan [OF ok w plan, of counts] by (auto simp: destroy_root_def)
qed

lemma fold_returns:
  assumes "\<And>x counts t. table_ok late t \<Longrightarrow> \<exists>counts' t'. f x (counts, t) = Some (counts', t') \<and> table_ok late t'"
  shows "table_ok late t \<Longrightarrow> \<exists>counts' t'. fold_option f xs (counts, t) = Some (counts', t') \<and> table_ok late t'"
proof (induction xs arbitrary: counts t)
  case (Cons x xs)
  then obtain counts1 t1 where "f x (counts, t) = Some (counts1, t1)" "table_ok late t1" using assms by blast
  then show ?case using Cons.IH [of t1 counts1] by simp
qed simp

lemma commit_client_cleanup_ok:
  assumes ok: "table_ok late t"
  shows "\<exists>counts t'. commit_client_cleanup plan t = Some (counts, t') \<and> table_ok late t'"
proof -
  obtain counts1 t1 where t1: "fold_option destroy_root (cp_roots plan) (no_counts, t) = Some (counts1, t1)" "table_ok late t1"
    using fold_returns [of late destroy_root, OF destroy_root_ok ok] by blast
  have "\<exists>counts' u'. free_remaining x (counts, u) = Some (counts', u') \<and> table_ok late u'" if "table_ok late u" for x counts u
    using free_any_ok [OF that, of x] by (auto simp: free_remaining_def)
  from fold_returns [of late free_remaining, OF this t1(2), of "owned_ids (cp_owner plan) t1" counts1]
  show ?thesis using t1(1) by (simp add: commit_client_cleanup_def)
qed

section \<open>The states of mapping\<close>

lemma recompute_map_states_ok:
  assumes ok: "table_ok late t" and result: "recompute_map_states xid t = Some t'"
  shows "table_ok late t'"
proof -
  have "table_ok late (restated s t)" for s using restated_ok ok by blast
  moreover have "\<exists>s. t' = restated s t"
  proof (cases "xid = sm_root_window (rt_screen t)")
    case True
    then show ?thesis using recompute_root [OF ok] result by auto
  next
    case False
    have returns: "\<exists>s. recompute_map_states_from xid visible t = Some (restated s t)" for visible
      using recompute_from [OF ok_parts(5) [OF ok], of xid visible "states_of t"] by (auto simp: restated_same)
    have "t' = t \<or> (\<exists>visible. recompute_map_states_from xid visible t = Some t')"
      using result False by (auto simp: recompute_map_states_def split: option.split_asm)
    then show ?thesis
    proof
      assume "t' = t"
      then show ?thesis using restated_same [of t] by (intro exI [of _ "states_of t"]) simp
    next
      assume "\<exists>visible. recompute_map_states_from xid visible t = Some t'"
      then obtain visible where "recompute_map_states_from xid visible t = Some t'" by blast
      then show ?thesis using returns [of visible] by auto
    qed
  qed
  ultimately show ?thesis by blast
qed

section \<open>Steps\<close>

text \<open>
  One call of an operation. The guards are what the allocator gives, a new block of pixels has an address of its own, and
  what the caller of \<open>create_picture\<close> looks up in the same request, the drawable. \<open>window\<close> and \<open>attributes\<close> are the requests
  that read the attributes of windows; \<open>assign\<close>, \<open>override\<close> and \<open>store\<close> are the assignments of other callers through the pointer
  that \<open>find_window\<close> returns.
\<close>

inductive table_step :: "resource_table \<Rightarrow> resource_table \<Rightarrow> bool" where
  screen: "table_step t (snd (update_screen_geometry screen t))"
| proxy: "table_step t (snd (create_server_proxy_window kEwmhSupportingWindow t))"
| window: "request_create_window c request t = (answer, t') \<Longrightarrow> table_step t t'"
| attributes: "request_change_window_attributes c request t = (answer, t') \<Longrightarrow> table_step t t'"
| assign: "quiet f \<Longrightarrow> table_step t (update_window xid f t)"
| override: "table_step t (update_window xid (\<lambda>w. w\<lparr>sw_attributes := (sw_attributes w)\<lparr>wa_override_redirect := override\<rparr>\<rparr>) t)"
| store: "(\<And>s. storage = Some s \<Longrightarrow> one_block s t) \<Longrightarrow> table_step t (update_window xid (\<lambda>w. w\<lparr>sw_storage := storage\<rparr>) t)"
| configure: "fresh_address allocation t \<Longrightarrow> configure_local allocation xid c t = Some (status, t') \<Longrightarrow> table_step t t'"
| map_intent: "set_local_map_intent xid mapped t = Some (lifecycle, t') \<Longrightarrow> table_step t t'"
| map_states: "recompute_map_states xid t = Some t' \<Longrightarrow> table_step t t'"
| reorder: "table_step t (snd (reorder_root_children visible t))"
| select_events: "table_step t (snd (set_event_selection xid client event_mask t))"
| forget_events: "table_step t (remove_event_selections client t)"
| forget_scales: "table_step t (remove_gw_scale_selections client t)"
| change_property: "table_step t (snd (change_property xid a value mode t))"
| delete_property: "table_step t (snd (delete_property xid a t))"
| get_property: "table_step t (snd (get_property xid a type delete_after long_offset long_length t))"
| create_damage: "table_step t (snd (create_damage owner base client_mask xid drawable level t))"
| destroy_damage: "table_step t (snd (destroy_damage xid t))"
| subtract_damage: "table_step t (snd (subtract_damage xid repair_region parts_region t))"
| add_damage: "table_step t (snd (add_damage drawable rectangles t))"
| damage_drawable: "table_step t (snd (damage_drawable drawable r t))"
| create_picture: "(\<And>d. pi_source value = Drawable_Source d \<Longrightarrow> drawable_exists d t) \<Longrightarrow> table_step t (snd (create_picture owner base client_mask xid value t))"
| free_picture: "table_step t (snd (free_picture xid t))"
| create_pixmap: "fresh_address allocation t \<Longrightarrow>
    table_step t (snd (create_pixmap allocation owner base client_mask xid drawable depth width height t))"
| name_pixmap: "fresh_address allocation t \<Longrightarrow> table_step t (snd (name_window_pixmap allocation owner base client_mask xid drawable t))"
| free_pixmap: "table_step t (snd (free_pixmap xid t))"
| create_gc: "table_step t (snd (create_gc owner base client_mask xid drawable gc t))"
| free_gc: "table_step t (snd (free_gc xid t))"
| open_font: "table_step t (snd (open_font owner base client_mask xid identity t))"
| close_font: "table_step t (snd (close_font xid t))"
| create_colormap: "table_step t (snd (create_colormap owner base client_mask xid drawable visual t))"
| free_colormap: "free_colormap xid t = Some (colormap_status, t') \<Longrightarrow> table_step t t'"
| attach_segment: "table_step t (snd (attach_shm_segment shmctl shmat owner base client_mask xid shmid read_only uid t))"
| detach_segment: "table_step t (snd (detach_shm_segment xid t))"
| create_cursor: "table_step t (snd (create_cursor owner base client_mask xid shared t))"
| free_cursor: "table_step t (snd (free_cursor xid t))"
| recolor_cursor: "table_step t (snd (recolor_cursor replacement xid t))"
| create_region: "table_step t (snd (create_xfixes_region owner base client_mask xid rectangles t))"
| destroy_region: "table_step t (snd (destroy_xfixes_region xid t))"
| set_region: "table_step t (snd (set_xfixes_region xid rectangles t))"
| copy_region: "table_step t (snd (copy_xfixes_region source xid t))"
| combine_regions: "table_step t (snd (combine_xfixes_regions source source2 xid operation t))"
| translate_region: "table_step t (snd (translate_xfixes_region xid dx dy t))"
| extents_region: "table_step t (snd (extents_xfixes_region source xid t))"
| destroy: "destroy_window xid (counts, t) = Some (destroyed, counts', t') \<Longrightarrow> table_step t t'"
| prepare_cleanup: "prepare_client_cleanup owner t = Some (plan, t') \<Longrightarrow> table_step t t'"
| commit_cleanup: "commit_client_cleanup plan t = Some (counts, t') \<Longrightarrow> table_step t t'"

lemmas operations_ok = update_screen_geometry_ok proxy_ok set_override_ok set_storage_ok reorder_root_children_ok event_selections_ok
  change_property_ok delete_property_ok get_property_ok create_damage_ok destroy_damage_ok subtract_damage_ok add_damage_ok damage_drawable_ok
  create_picture_ok free_picture_ok create_pixmap_ok name_window_pixmap_ok free_pixmap_ok create_gc_ok free_gc_ok open_font_ok close_font_ok
  create_colormap_ok attach_shm_segment_ok detach_shm_segment_ok create_cursor_ok free_cursor_ok recolor_cursor_ok create_xfixes_region_ok
  destroy_xfixes_region_ok region_operations_ok recompute_map_states_ok

lemma table_step_ok: "table_step t t' \<Longrightarrow> table_ok late t \<Longrightarrow> table_ok late t'"
proof (induction rule: table_step.induct)
  case (window c request t answer t')
  then show ?case using request_create_window_ok(1) by blast
next
  case (attributes c request t answer t')
  then show ?case using request_change_window_attributes_ok [of late t c request] by simp
next
  case (assign f t xid)
  then show ?case using quiet_table_ok(1) by blast
next
  case (configure allocation t xid c status t')
  then show ?case using configure_local_ok [of late t allocation xid c] by auto
next
  case (map_intent xid mapped t lifecycle t')
  then show ?case using set_local_map_intent_ok [of late t xid mapped] by auto
next
  case (free_colormap xid t status t')
  then show ?case using free_colormap_ok [of late t xid] by auto
next
  case (destroy xid counts t destroyed counts' t')
  then show ?case using destroy_window_ok [of late t xid counts] by auto
next
  case (prepare_cleanup owner t plan t')
  then show ?case using prepare_returns [of late t owner] by auto
next
  case (commit_cleanup plan t counts t')
  then show ?case using commit_client_cleanup_ok [of late t plan] by auto
qed (simp_all add: operations_ok)

section \<open>Runs\<close>

text \<open>
  A run of the server: the table, the creations of windows that were deferred, and the windows that were created late, when
  the cursor of the request was no longer the one of the table.
\<close>

inductive server_run :: "resource_table \<Rightarrow> (dispatch_context \<times> window_create_spec) set \<Rightarrow> u32 set \<Rightarrow> bool" where
  start: "valid_screen screen \<Longrightarrow> root_cursor \<noteq> None \<Longrightarrow> server_run (new_resource_table screen limits root_cursor) {} {}"
| step: "server_run t deferred late \<Longrightarrow> table_step t t' \<Longrightarrow> server_run t' deferred late"
| postpone: "server_run t deferred late \<Longrightarrow> request_create_window c request t = (RQ_Create_Window spec, t') \<Longrightarrow>
    server_run t' (insert (c, spec) deferred) late"
| commit: "server_run t deferred late \<Longrightarrow> (c, spec) \<in> deferred \<Longrightarrow>
    server_run (snd (create_window (dc_client_id c) (dc_resource_base c) (dc_resource_mask c) spec t)) deferred
      (if cursor_holds (cs_attributes spec) t then late else insert (cs_xid spec) late)"

definition table_reachable :: "resource_table \<Rightarrow> bool" where
  "table_reachable t \<longleftrightarrow> (\<exists>deferred late. server_run t deferred late)"

text \<open>What a deferred creation keeps of a cursor, whatever the table has become.\<close>

definition cursor_shaped :: "window_attributes \<Rightarrow> bool" where
  "cursor_shaped a \<longleftrightarrow> (if wa_cursor_inherit a then wa_cursor a = 0 \<and> wa_cursor_image a = None else wa_cursor_image a \<noteq> None)"

lemma shaped_fits: "cursor_shaped a \<Longrightarrow> xid \<in> late \<Longrightarrow> cursor_fits late xid a t"
  by (simp add: cursor_shaped_def cursor_fits_def)

lemma holds_shaped: "cursor_holds a t \<Longrightarrow> cursor_shaped a"
  by (auto simp: cursor_shaped_def cursor_holds_def split: if_splits)

lemma server_run_ok: "server_run t deferred late \<Longrightarrow> table_ok late t \<and> (\<forall>(c, spec) \<in> deferred. cursor_shaped (cs_attributes spec))"
proof (induction rule: server_run.induct)
  case (start screen root_cursor limits)
  then show ?case by (simp add: new_resource_table_ok)
next
  case (step t deferred late t')
  then show ?case using table_step_ok by blast
next
  case (postpone t deferred late c request spec t')
  then have "t' = t" "cursor_holds (cs_attributes spec) t"
    using request_create_window_ok(2) requested_cursor by blast+
  then show ?case using postpone.IH holds_shaped by auto
next
  case (commit t deferred late c spec)
  let ?late = "if cursor_holds (cs_attributes spec) t then late else insert (cs_xid spec) late"
  have "late \<subseteq> ?late" by auto
  then have "table_ok ?late t" using commit.IH table_late_more [of late t ?late] by blast
  moreover have "cursor_fits ?late (cs_xid spec) (cs_attributes spec) t"
    using commit shaped_fits cursor_holds_fits by auto
  ultimately show ?case using commit.IH create_window_ok by blast
qed

text \<open>The invariant of a table that is reached: nothing is late when the check of the server succeeds.\<close>

lemma table_reachable_ok: "table_reachable t \<Longrightarrow> \<exists>late. table_ok late t \<and> (invariants_hold t \<longrightarrow> late = {})"
  using server_run_ok ok_none_late unfolding table_reachable_def by blast

lemma reachable_step: "table_reachable t \<Longrightarrow> table_step t t' \<Longrightarrow> table_reachable t'"
  using server_run.step unfolding table_reachable_def by blast

text \<open>A deferred creation that is carried out: it passes the check exactly when its cursor is still that of the table.\<close>

lemma created_window:
  assumes "create_window owner base client_mask spec t = (CW_Success, t')"
  shows "\<exists>w. find_window (cs_xid spec) t' = Some w \<and> sw_attributes w = cs_attributes spec \<and> view as_image t' = view as_image t"
proof -
  obtain p c depth visual where new: "valid_new_resource_id (cs_xid spec) base client_mask t" and p: "find_window (cs_parent spec) t = Some p"
    and t': "t' = update_window (cs_parent spec) (\<lambda>p. p\<lparr>sw_children := sw_children p @ [cs_xid spec]\<rparr>)
        (adopt owner (cs_xid spec) RT_Window (PL_Window (new_window owner spec c depth visual)) t)"
    using assms by (auto simp: create_window_def Let_def split: option.split_asm if_split_asm)
  have ne: "cs_parent spec \<noteq> cs_xid spec" using fresh_id [OF new] p by (auto simp: find_window_iff)
  have "find_window (cs_xid spec) t' = Some (new_window owner spec c depth visual)"
    using ne fresh_id [OF new] by (simp add: t' find_window_def find_update_window find_adopt)
  moreover have "view as_image t' = view as_image t"
    using fresh_id [OF new] p
    by (auto simp: fun_eq_iff t' view_def find_update_window find_adopt find_window_iff split: option.splits payload.splits)
  ultimately show ?thesis by (auto simp: new_window_def default_window_def)
qed

lemma late_creation:
  assumes ok: "table_ok {} t" and shaped: "cursor_shaped (cs_attributes spec)"
    and created: "create_window owner base client_mask spec t = (CW_Success, t')"
  shows "invariants_hold t' \<longleftrightarrow> cursor_holds (cs_attributes spec) t"
proof -
  let ?x = "cs_xid spec"
  obtain w where new: "find_window ?x t' = Some w" "sw_attributes w = cs_attributes spec" and image: "view as_image t' = view as_image t"
    using created_window [OF created] by blast
  have t': "t' = snd (create_window owner base client_mask spec t)" using created by simp
  have holds: "cursor_holds a t' \<longleftrightarrow> cursor_holds a t" for a
    by (cases "wa_cursor_inherit a") (simp_all add: cursor_holds_def find_cursor_view image)
  show ?thesis
  proof
    assume "invariants_hold t'"
    moreover have "table_ok {?x} t'" unfolding t'
      by (rule create_window_ok [OF table_late_more [OF ok] shaped_fits [OF shaped]]) simp_all
    ultimately show "cursor_holds (cs_attributes spec) t" using ok_check new holds by metis
  next
    assume "cursor_holds (cs_attributes spec) t"
    then have "table_ok {} t'" unfolding t' by (intro create_window_ok [OF ok] cursor_holds_fits)
    then show "invariants_hold t'" by (rule ok_invariants_hold)
  qed
qed

end
