(* ===== verification/Srv_Reading.thy ===== *)
theory Srv_Reading
  imports Srv_Reachable
begin

text \<open>
  What the readers of a table get: the cursor of a window, whose loop always has windows enough, and the pieces of a
  property, which put together are the property.
\<close>

section \<open>The cursor of a window\<close>

definition above :: "resource_table \<Rightarrow> u32 \<Rightarrow> u32 set" where
  "above t x = {z. (x, z) \<in> (child_relation t)\<^sup>*}"

lemma above_parent:
  assumes ok: "table_ok late t" and w: "find_window x t = Some w" and inner: "x \<noteq> sm_root_window (rt_screen t)"
  shows "above t x = insert x (above t (sw_parent w))" "x \<notin> above t (sw_parent w)"
proof -
  note tree = ok_parts(5) [OF ok]
  have step: "(x, sw_parent w) \<in> child_relation t" by (rule child_of_parent [OF tree w inner])
  have "(x, z) \<in> (child_relation t)\<^sup>* \<longleftrightarrow> z = x \<or> (sw_parent w, z) \<in> (child_relation t)\<^sup>*" for z
  proof
    assume "(x, z) \<in> (child_relation t)\<^sup>*"
    then show "z = x \<or> (sw_parent w, z) \<in> (child_relation t)\<^sup>*"
      using single_valuedD [OF parent_unique [OF tree] step] by (auto elim: converse_rtranclE)
  qed (use step in \<open>auto intro: converse_rtrancl_into_rtrancl\<close>)
  then show "above t x = insert x (above t (sw_parent w))" by (auto simp: above_def)
  show "x \<notin> above t (sw_parent w)" using step acyclic_tree [OF tree, of x] by (auto simp: above_def intro: rtrancl_into_trancl2)
qed

lemma above_exists: "table_ok late t \<Longrightarrow> find_window x t \<noteq> None \<Longrightarrow> above t x \<subseteq> fset (fmdom (rt_resources t))"
proof
  fix z assume ok: "table_ok late t" and x: "find_window x t \<noteq> None" and z: "z \<in> above t x"
  have "find_window z t \<noteq> None"
  proof (cases "z = x")
    case False
    then obtain y where "(y, z) \<in> child_relation t" using z by (auto simp: above_def elim: rtranclE)
    then show ?thesis by (auto simp: child_parent)
  qed (use x in simp)
  then show "z \<in> fset (fmdom (rt_resources t))" by (auto simp: find_window_iff dest: found_in_domain)
qed

lemma finite_above [simp]: "finite (above t x)"
  by (rule finite_subset [OF subset_UNIV]) simp

lemma cursor_along_more: "cursor_along n x t = Some c \<Longrightarrow> n \<le> m \<Longrightarrow> cursor_along m x t = Some c"
proof (induction n arbitrary: x m)
  case (Suc n)
  then obtain m' where m: "m = Suc m'" "n \<le> m'" by (cases m) auto
  then show ?case using Suc.prems(1) Suc.IH [of _ m'] by (auto split: option.split_asm option.split if_split_asm)
qed simp

lemma cursor_along_enough:
  assumes ok: "table_ok late t"
  shows "find_window x t = Some w \<Longrightarrow> card (above t x) \<le> n \<Longrightarrow> cursor_along n x t \<noteq> None"
proof (induction n arbitrary: x w)
  case 0
  have "x \<in> above t x" by (simp add: above_def)
  then show ?case using 0 by auto
next
  case (Suc n)
  have fits: "cursor_fits late x (sw_attributes w) t" by (rule cursor_of_window [OF ok_parts(8) [OF ok] Suc.prems(1)])
  show ?case
  proof (cases "wa_cursor_inherit (sw_attributes w) \<and> x \<noteq> sm_root_window (rt_screen t)")
    case True
    obtain p where p: "find_window (sw_parent w) t = Some p" using tree_parent [OF ok_parts(5) [OF ok] Suc.prems(1)] True by auto
    have "card (above t x) = Suc (card (above t (sw_parent w)))" using above_parent [OF ok Suc.prems(1)] True by simp
    then have "cursor_along n (sw_parent w) t \<noteq> None" using Suc.IH [OF p] Suc.prems(2) by simp
    then show ?thesis using True Suc.prems(1) by simp
  next
    case False
    then show ?thesis using fits Suc.prems(1) ok_parts(4) [OF ok] by (auto simp: cursor_fits_def root_ok_def)
  qed
qed

lemma windows_enough:
  assumes ok: "table_ok late t" and w: "find_window x t = Some w"
  shows "card (above t x) \<le> fcard (fmdom (rt_resources t))"
  using card_mono [OF _ above_exists [OF ok, of x]] w by (simp add: fcard.rep_eq)

lemma effective_cursor_found:
  assumes ok: "table_ok late t" and w: "find_window x t = Some w"
  shows "effective_cursor x t \<noteq> None"
  using cursor_along_enough [OF ok w] windows_enough [OF ok w] by (simp add: effective_cursor_def del: cursor_along.simps)

lemma effective_cursor_parent:
  assumes ok: "table_ok late t" and w: "find_window x t = Some w" and inherit: "wa_cursor_inherit (sw_attributes w)" and inner: "x \<noteq> sm_root_window (rt_screen t)"
  shows "effective_cursor x t = effective_cursor (sw_parent w) t"
proof -
  let ?n = "fcard (fmdom (rt_resources t))"
  obtain p where p: "find_window (sw_parent w) t = Some p" using tree_parent [OF ok_parts(5) [OF ok] w inner] by auto
  obtain c where c: "cursor_along ?n (sw_parent w) t = Some c"
    using cursor_along_enough [OF ok p windows_enough [OF ok p]] by blast
  then have "cursor_along (Suc ?n) (sw_parent w) t = Some c" by (rule cursor_along_more) simp
  then show ?thesis using c w inherit inner unfolding effective_cursor_def by simp
qed

section \<open>The pieces of a property\<close>

text \<open>A number of 32 bit units of a property, from an offset on.\<close>

fun words_of :: "property_data \<Rightarrow> nat \<Rightarrow> nat \<Rightarrow> property_data" where
  "words_of (Data8 vs) first words = Data8 (take (4 * words) (drop (4 * first) vs))"
| "words_of (Data16 vs) first words = Data16 (take (2 * words) (drop (2 * first) vs))"
| "words_of (Data32 vs) first words = Data32 (take words (drop first vs))"

lemma slice_values_take: "slice_values k offset bytes vs = take (bytes div k) (drop (offset div k) vs)"
  by (simp add: slice_values_def Let_def min_def)

lemma take_available: "m = length vs - n \<Longrightarrow> take (min m k) (drop n vs) = take k (drop n vs)"
  by (simp add: min_def)

lemma div_min: "min a b div k = min (a div k) (b div (k :: nat))"
  by (simp add: min_def div_le_mono antisym)

lemma slice_words:
  assumes "first * 4 \<le> byte_size d"
  shows "slice_property_data d (first * 4) (min (byte_size d - first * 4) (words * 4)) = words_of d first words"
proof (cases d)
  case (Data8 vs)
  then show ?thesis by (simp add: slice_values_take take_available mult.commute)
next
  case (Data16 vs)
  have "(length vs * 2 - first * 4) div 2 = length vs - 2 * first" by presburger
  moreover have "first * 4 div 2 = 2 * first" "words * 4 div 2 = 2 * words" by presburger+
  ultimately show ?thesis using Data16 by (simp add: slice_values_take div_min take_available)
next
  case (Data32 vs)
  have "(length vs * 4 - first * 4) div 4 = length vs - first" by presburger
  then show ?thesis using Data32 by (simp add: slice_values_take div_min take_available)
qed

lemma words_append: "concatenate_property_data (words_of d first n) (words_of d (first + n) m) = words_of d first (n + m)"
  by (cases d) (simp_all add: take_add add_mult_distrib2 add.commute [of first n])

lemma words_all: "byte_size d \<le> words * 4 \<Longrightarrow> words_of d 0 words = d"
  by (cases d) simp_all

lemma get_property_words:
  assumes "find_window xid t = Some w" "fmlookup (sw_properties w) a = Some p" "type = 0 \<or> type = pr_type p" "unat first * 4 \<le> byte_size (pr_data p)"
  shows "get_property xid a type False first words t =
    (\<lparr>pv_status = PV_Success, pv_present = True, pv_type_matched = True, pv_deleted = False,
      pv_value = \<lparr>ps_type = pr_type p, ps_format = item_bits (pr_data p),
        ps_bytes_after = word_of_nat (byte_size (pr_data p) - unat first * 4 - min (byte_size (pr_data p) - unat first * 4) (unat words * 4)),
        ps_data = words_of (pr_data p) (unat first) (unat words)\<rparr>\<rparr>, t)"
  using assms by (simp add: get_property_def Let_def empty_read_def slice_words)

lemma change_property_stored:
  assumes "change_property xid a p PM_Replace t = (PT_Success, t')"
  shows "\<exists>w. find_window xid t' = Some w \<and> fmlookup (sw_properties w) a = Some p"
proof -
  obtain w n where w: "find_window xid t = Some w"
    and t': "t' = (update_window xid (\<lambda>w. w\<lparr>sw_properties := fmupd a p (sw_properties w)\<rparr>) t)\<lparr>rt_property_bytes := n\<rparr>"
    using assms by (auto simp: change_property_def replacement_property_def Let_def split: option.split_asm if_split_asm)
  have "find_window xid t' = Some (w\<lparr>sw_properties := fmupd a p (sw_properties w)\<rparr>)"
    unfolding t' find_window_view by (simp add: table_fields view_update_window [OF w])
  then show ?thesis by simp
qed

end
