(* ===== verification/Srv_Resource_Properties.thy ===== *)
theory Srv_Resource_Properties
  imports Srv_Reading
begin

text \<open>
  What the resource table of the server promises, in every state its operations can reach.
\<close>

section \<open>An example\<close>

text \<open>A request of a client that creates a window, with values for the bits of the mask, and the client that sends it.\<close>

definition example_create :: "u32 \<Rightarrow> u32 \<Rightarrow> u32 \<Rightarrow> u32 list \<Rightarrow> framed_request" where
  "example_create xid parent value_mask values = \<lparr>fq_opcode = 1, fq_data = 24, fq_length_units = word_of_nat (8 + length values), fq_header_size = 4,
     fq_bytes = [1, 24] @ x11_write_u16 LittleEndian (word_of_nat (8 + length values)) @
       x11_write_u32 LittleEndian xid @ x11_write_u32 LittleEndian parent @ x11_write_u16 LittleEndian 0 @ x11_write_u16 LittleEndian 0 @
       x11_write_u16 LittleEndian 10 @ x11_write_u16 LittleEndian 10 @ x11_write_u16 LittleEndian 0 @ x11_write_u16 LittleEndian 1 @
       x11_write_u32 LittleEndian 0 @ x11_write_u32 LittleEndian value_mask @ concat (map (x11_write_u32 LittleEndian) values)\<rparr>"

definition example_client :: "bool \<Rightarrow> dispatch_context" where
  "example_client integrated = \<lparr>dc_client_id = 7, dc_resource_base = 0x200000, dc_resource_mask = 0x1fffff, dc_byte_order = LittleEndian,
     dc_integrated_lifecycle = integrated\<rparr>"

definition example_limits :: resource_limits where
  "example_limits = \<lparr>rl_bytes_per_property = 64, rl_total_property_bytes = 64, rl_properties_per_window = 4,
     rl_canonical_drawable_bytes = 64, rl_pixmaps = 4, rl_graphics_contexts = 4, rl_fonts_per_client = 4,
     rl_total_fonts = 4, rl_cursors_per_client = 4, rl_total_cursor_bytes = 64, rl_colormaps_per_client = 4,
     rl_shm_segments_per_client = 4, rl_shm_bytes_per_client = 64, rl_regions_per_client = 4,
     rl_region_rectangles = 8, rl_damage_per_client = 4, rl_pictures_per_client = 4\<rparr>"

definition table_example_start :: resource_table where
  "table_example_start = new_resource_table kScreenModel example_limits (Some \<lparr>cr_address = 1, cr_byte_size = 16\<rparr>)"

text \<open>A client with a window inside a window; both have events selected.\<close>

definition table_example_outer :: resource_table where
  "table_example_outer = snd (request_create_window (example_client False) (example_create 0x200001 1 0x800 [1]) table_example_start)"

definition table_example :: resource_table where
  "table_example = snd (request_create_window (example_client False) (example_create 0x200002 0x200001 0x800 [1]) table_example_outer)"

lemma requested_reachable: "table_reachable t \<Longrightarrow> table_reachable (snd (request_create_window c request t))"
  by (rule reachable_step [OF _ table_step.window [OF prod.collapse [symmetric]]])

lemma start_run: "server_run table_example_start {} {}"
  unfolding table_example_start_def by (rule server_run.start [OF server_screen_valid]) simp

lemma table_example_reachable: "table_reachable table_example_start" "table_reachable table_example_outer" "table_reachable table_example"
proof -
  show start: "table_reachable table_example_start" using start_run by (auto simp: table_reachable_def)
  show outer: "table_reachable table_example_outer" unfolding table_example_outer_def by (rule requested_reachable [OF start])
  show "table_reachable table_example" unfolding table_example_def by (rule requested_reachable [OF outer])
qed

lemma example_windows:
  "map_option (\<lambda>w. (sw_parent w, sw_children w, wa_cursor_inherit (sw_attributes w))) (find_window 0x200002 table_example) = Some (0x200001, [], True)"
  "map_option (\<lambda>w. (sw_parent w, sw_children w)) (find_window 0x200001 table_example) = Some (1, [0x200002])"
  "rt_screen table_example = kScreenModel"
  by code_simp+

text \<open>
  A run in which a cursor goes away between the request that creates a window and the creation: another client makes the
  cursor, the window is asked for with it, the other client frees it, and the window is created.
\<close>

definition example_cursor :: resource_table where
  "example_cursor = snd (create_cursor 8 0x400000 0x1fffff 0x400001 (Some \<lparr>cr_address = 2, cr_byte_size = 16\<rparr>) table_example_start)"

definition example_asked :: framed_request where
  "example_asked = example_create 0x200001 1 0x4000 [0x400001]"

definition example_spec :: window_create_spec where
  "example_spec = (case requested_window (example_client True) example_asked example_cursor of Inr spec \<Rightarrow> spec)"

definition example_freed :: resource_table where
  "example_freed = snd (free_cursor 0x400001 example_cursor)"

definition example_late :: resource_table where
  "example_late = snd (create_window 7 0x200000 0x1fffff example_spec example_freed)"

lemma example_postponed:
  "fst (request_create_window (example_client True) example_asked example_cursor) = RQ_Create_Window example_spec"
  "snd (request_create_window (example_client True) example_asked example_cursor) = example_cursor"
  by code_simp+

lemma example_freed_run: "server_run example_freed {(example_client True, example_spec)} {}"
proof -
  have "server_run example_cursor {} {}"
    unfolding example_cursor_def by (rule server_run.step [OF start_run table_step.create_cursor])
  then have "server_run example_cursor {(example_client True, example_spec)} {}"
    using server_run.postpone [of example_cursor "{}" "{}" "example_client True" example_asked example_spec example_cursor] example_postponed
    by (metis prod.collapse)
  then show ?thesis unfolding example_freed_def by (rule server_run.step [OF _ table_step.free_cursor])
qed

lemma example_commit:
  "fst (create_window 7 0x200000 0x1fffff example_spec example_freed) = CW_Success"
  "\<not> cursor_holds (cs_attributes example_spec) example_freed"
  by code_simp+

section \<open>The invariant\<close>

text \<open>
  A deferred creation of a window that is carried out keeps the check of the server exactly when the cursor of its
  request is still what it was: nothing looks the cursor up again.
\<close>

lemma late_window_check:
  assumes "server_run t deferred late" "invariants_hold t" "(c, spec) \<in> deferred"
    "create_window (dc_client_id c) (dc_resource_base c) (dc_resource_mask c) spec t = (CW_Success, t')"
  shows "invariants_hold t' \<longleftrightarrow> cursor_holds (cs_attributes spec) t"
proof (rule late_creation [OF _ _ assms(4)])
  show "table_ok {} t" using server_run_ok [OF assms(1)] ok_none_late assms(2) by blast
  show "cursor_shaped (cs_attributes spec)" using server_run_ok [OF assms(1)] assms(3) by blast
qed

text \<open>
  C2. In every state the resource table can reach, whatever the order of the operations and however long the creation of
  a window is deferred after its request was read, the server's own check of the table comes down to the cursors of the
  windows: the root stands alone, parents and children agree, every owned resource is listed exactly once with its owner,
  damage and pictures refer to drawables that exist, and the three byte counters are the sums over the resources. A window
  has the image of its cursor unless it was created late, after the cursor of its request had changed; without such windows
  the check succeeds. When a deferred creation is carried out nothing looks the cursor up again: the check still succeeds
  exactly when the cursor is what it was, so a cursor freed or recolored in between makes it fail. The counters stay within
  their limits, and the windows are a tree.
\<close>

theorem resource_table_invariant:
  assumes "server_run t deferred late"
  shows "(invariants_hold t \<longleftrightarrow> (\<forall>x w. find_window x t = Some w \<longrightarrow> cursor_holds (sw_attributes w) t)) \<and>
    (\<forall>x w. find_window x t = Some w \<longrightarrow> x \<notin> late \<longrightarrow> cursor_holds (sw_attributes w) t) \<and> (late = {} \<longrightarrow> invariants_hold t) \<and>
    (\<forall>c spec t'. (c, spec) \<in> deferred \<longrightarrow> invariants_hold t \<longrightarrow>
       create_window (dc_client_id c) (dc_resource_base c) (dc_resource_mask c) spec t = (CW_Success, t') \<longrightarrow>
       (invariants_hold t' \<longleftrightarrow> cursor_holds (cs_attributes spec) t)) \<and>
    rt_property_bytes t \<le> rl_total_property_bytes (rt_limits t) \<and>
    rt_drawable_bytes t \<le> rl_canonical_drawable_bytes (rt_limits t) \<and> rt_cursor_bytes t \<le> rl_total_cursor_bytes (rt_limits t) \<and>
    (\<forall>x. find_window x t \<noteq> None \<longrightarrow> (x, sm_root_window (rt_screen t)) \<in> (child_relation t)\<^sup>* \<and> (x, x) \<notin> (child_relation t)\<^sup>+)"
proof -
  have ok: "table_ok late t" using server_run_ok [OF assms] by simp
  have "(x, sm_root_window (rt_screen t)) \<in> (child_relation t)\<^sup>* \<and> (x, x) \<notin> (child_relation t)\<^sup>+" if "find_window x t \<noteq> None" for x
    using that below_root [OF ok_parts(5) [OF ok], of x] acyclic_tree [OF ok_parts(5) [OF ok], of x] by auto
  moreover have "cursor_holds (sw_attributes w) t" if "find_window x t = Some w" "x \<notin> late" for x w
    using cursor_fits_holds [OF cursor_of_window [OF ok_parts(8) [OF ok] that(1)] that(2)] .
  ultimately show ?thesis
    using ok_check [OF ok] ok_parts(11) [OF ok] ok_invariants_hold [of t] ok late_window_check [OF assms] by (auto simp: within_limits_def)
qed

text \<open>
  A client asks for a window with a cursor below the root, which is deferred; the cursor is freed; then the window is created,
  and the check, which held before, fails.
\<close>

theorem resource_table_invariant_witness:
  "invariants_hold example_freed \<and> (\<exists>x. find_window x example_freed \<noteq> None) \<and> \<not> invariants_hold example_late"
proof -
  have "find_window 1 example_freed \<noteq> None" by code_simp
  moreover have c: "dc_client_id (example_client True) = 7" "dc_resource_base (example_client True) = 0x200000" "dc_resource_mask (example_client True) = 0x1fffff"
    by (simp_all add: example_client_def)
  moreover have "create_window 7 0x200000 0x1fffff example_spec example_freed = (CW_Success, example_late)"
    using example_commit(1) unfolding example_late_def by (metis prod.collapse)
  ultimately show ?thesis
    using resource_table_invariant [OF example_freed_run] example_commit(2) by (metis insertI1)
qed

text \<open>
  C32. Resources are well typed in every state the table can reach: the type of an entry is that of its payload, so
  that a lookup by type finds a resource exactly when it has that type; no entry has the number zero; an entry
  without an owner is one of the server's own; and each payload is within the limits of the table.
\<close>

theorem resources_well_typed:
  assumes "table_reachable t" "find_resource xid t = Some r"
  shows "xid \<noteq> 0 \<and> re_type r = payload_type (re_payload r) \<and> payload_ok (rt_limits t) (re_payload r) \<and>
    (re_owner r = None \<longrightarrow> server_resource (rt_screen t) xid (re_type r)) \<and>
    (re_type r = RT_Window \<longleftrightarrow> find_window xid t \<noteq> None) \<and> (re_type r = RT_Pixmap \<longleftrightarrow> find_pixmap xid t \<noteq> None) \<and>
    (re_type r = RT_Cursor \<longleftrightarrow> find_cursor xid t \<noteq> None) \<and> (re_type r = RT_Damage \<longleftrightarrow> find_damage xid t \<noteq> None)"
proof -
  obtain late where ok: "table_ok late t" using table_reachable_ok [OF assms(1)] by blast
  note type = type_of_payload [OF ok_parts(1) [OF ok] assms(2)]
  have "view Some t xid = Some (re_payload r)" using assms(2) by (simp add: view_def)
  then have "payload_ok (rt_limits t) (re_payload r)" using ok_parts(7) [OF ok] by (simp add: payloads_ok_def)
  moreover have "(payload_type (re_payload r) = RT_Window \<longleftrightarrow> find_window xid t \<noteq> None) \<and>
    (payload_type (re_payload r) = RT_Pixmap \<longleftrightarrow> find_pixmap xid t \<noteq> None) \<and>
    (payload_type (re_payload r) = RT_Cursor \<longleftrightarrow> find_cursor xid t \<noteq> None) \<and> (payload_type (re_payload r) = RT_Damage \<longleftrightarrow> find_damage xid t \<noteq> None)"
    using assms(2) by (cases "re_payload r") (simp_all add: lookup_defs)
  ultimately show ?thesis using type server_owned [OF ok_parts(3) [OF ok] assms(2)] by simp
qed

theorem resources_well_typed_witness:
  "\<exists>r. find_resource 0x200002 table_example = Some r \<and> re_type r = RT_Window"
proof -
  obtain w where w: "find_window 0x200002 table_example = Some w" using example_windows by auto
  then obtain r where r: "find_resource 0x200002 table_example = Some r" by (auto simp: find_window_iff)
  have "find_window 0x200002 table_example \<noteq> None" using w by simp
  then have "re_type r = RT_Window" using resources_well_typed [OF table_example_reachable(3) r] by blast
  then show ?thesis using r by blast
qed

section \<open>Windows and clients that go away\<close>

text \<open>
  C11. Destroying a window always returns; the root is refused and an unknown window reported, with nothing changed;
  otherwise exactly the windows inside the window and itself are gone, with the damage and the pictures of any of
  them, their parent no longer lists the window, every other resource is as it was, and the counters stay right: the check
  of the server succeeds if it did before.
\<close>

theorem destroy_window_exact:
  assumes "table_reachable t"
  shows "if xid = sm_root_window (rt_screen t) then destroy_window xid (counts, t) = Some (DW_RootPreserved, counts, t)
    else if find_window xid t = None then destroy_window xid (counts, t) = Some (DW_BadWindow, counts, t)
    else \<exists>counts' t'. destroy_window xid (counts, t) = Some (DW_Success, counts', t') \<and> (invariants_hold t \<longrightarrow> invariants_hold t') \<and>
      (\<forall>y. find_resource y t' = surviving (subtree t xid) t y)"
proof -
  obtain late where ok: "table_ok late t" and check: "invariants_hold t \<longrightarrow> late = {}" using table_reachable_ok [OF assms] by blast
  show ?thesis
  proof (cases "xid = sm_root_window (rt_screen t) \<or> find_window xid t = None")
    case True
    then show ?thesis by (auto simp: destroy_window_def)
  next
    case False
    then obtain w where w: "find_window xid t = Some w" "xid \<noteq> sm_root_window (rt_screen t)" by auto
    from destroy_window_subtree [OF ok w, of counts] show ?thesis using w ok_invariants_hold check by auto
  qed
qed

theorem destroy_window_exact_witness:
  "\<exists>counts' t'. destroy_window 0x200001 (no_counts, table_example) = Some (DW_Success, counts', t') \<and>
     find_window 0x200001 t' = None \<and> find_window 0x200002 t' = None \<and> find_window 1 t' \<noteq> None"
proof -
  obtain w v where w: "find_window 0x200001 table_example = Some w" "sw_children w = [0x200002]"
    and v: "find_window 0x200002 table_example = Some v"
    using example_windows by auto
  have root: "sm_root_window (rt_screen table_example) = 1" by (simp add: example_windows kScreenModel_def)
  obtain late where ok: "table_ok late table_example" using table_reachable_ok [OF table_example_reachable(3)] by blast
  obtain r where r: "find_window 1 table_example = Some r" using ok_root [OF ok] root by auto
  from destroy_window_exact [OF table_example_reachable(3), of "0x200001" no_counts] root w(1)
  obtain counts' t' where t': "destroy_window 0x200001 (no_counts, table_example) = Some (DW_Success, counts', t')"
    and found: "\<And>y. find_resource y t' = surviving (subtree table_example 0x200001) table_example y"
    by auto
  have "(0x200002, 0x200001) \<in> child_relation table_example" using w by (simp add: child_parent)
  then have inside: "0x200001 \<in> subtree table_example 0x200001" "0x200002 \<in> subtree table_example 0x200001" by (auto simp: subtree_def)
  have "1 \<notin> subtree table_example 0x200001"
  proof
    assume "1 \<in> subtree table_example 0x200001"
    then have "(1, 0x200001) \<in> (child_relation table_example)\<^sup>+" by (auto simp: subtree_def dest: rtranclD)
    moreover have "(0x200001, 1) \<in> (child_relation table_example)\<^sup>*"
      using below_root [OF ok_parts(5) [OF ok] w(1)] by (simp add: root)
    ultimately show False using acyclic_tree [OF ok_parts(5) [OF ok]] by (auto dest: trancl_rtrancl_trancl)
  qed
  then have "find_window 1 t' \<noteq> None" using r by (simp add: surviving_view(1) [OF found])
  then show ?thesis using t' inside by (simp add: surviving_view(1) [OF found])
qed

text \<open>
  C4. The cleanup after a client always returns, and leaves nothing of the client: no resource belongs to it, its list
  of resources is empty, and no window has events selected for it. The check of the server succeeds if it did before,
  although windows of other clients inside its windows have gone too.
\<close>

theorem client_cleanup_complete:
  assumes "table_reachable t"
  shows "\<exists>counts t'. cleanup_client client t = Some (counts, t') \<and> (invariants_hold t \<longrightarrow> invariants_hold t') \<and> owned_ids client t' = [] \<and>
    (\<forall>xid r. find_resource xid t' = Some r \<longrightarrow> re_owner r \<noteq> Some client) \<and>
    (\<forall>xid w. find_window xid t' = Some w \<longrightarrow> fmlookup (sw_event_selections w) client = None)"
proof -
  obtain late where ok: "table_ok late t" and check: "invariants_hold t \<longrightarrow> late = {}" using table_reachable_ok [OF assms] by blast
  obtain counts t' where t': "cleanup_client client t = Some (counts, t')" "table_ok late t'" "silent client t'"
    and gone: "\<And>y type. kind t' y \<noteq> Some (type, Some client)"
    using cleanup_client_ok [OF ok, of client] by blast
  have "xid \<notin> set (owned_ids client t')" for xid using ok_parts(2) [OF t'(2)] gone by (simp add: owners_ok_def)
  then have "owned_ids client t' = []" by (cases "owned_ids client t'") auto
  moreover have "\<forall>xid r. find_resource xid t' = Some r \<longrightarrow> re_owner r \<noteq> Some client" using gone by (simp add: kind_def)
  moreover have "fmlookup (sw_event_selections w) client = None" if "find_window xid t' = Some w" for xid w
    using t'(3) window_view [OF that, of as_selections] by (simp add: silent_def)
  ultimately show ?thesis using t'(1,2) ok_invariants_hold check by blast
qed

theorem client_cleanup_complete_witness:
  "\<exists>counts t'. cleanup_client 7 table_example = Some (counts, t') \<and> owned_ids 7 t' = []"
  using client_cleanup_complete [OF table_example_reachable(3), of 7] by blast

section \<open>The states of windows\<close>

text \<open>
  C33. Recomputing the states of mapping from the root always returns and changes nothing else, so the check of the server
  succeeds if it did before. Afterwards a window is
  unmapped exactly when it does not ask to be shown or the policy hides it, and viewable exactly when it and every
  window around it, up to the root, is shown.
\<close>

theorem map_states_settle:
  assumes "table_reachable t"
  shows "\<exists>states t'. recompute_map_states (sm_root_window (rt_screen t)) t = Some t' \<and> t' = restated states t \<and> (invariants_hold t \<longrightarrow> invariants_hold t') \<and>
    (\<forall>xid w. find_window xid t' = Some w \<longrightarrow>
       (xid \<noteq> sm_root_window (rt_screen t) \<longrightarrow> (sw_map_state w = Unmapped \<longleftrightarrow> \<not> shown t' xid)) \<and>
       (sw_map_state w = Viewable \<longleftrightarrow> (\<forall>z. (xid, z) \<in> (child_relation t')\<^sup>* \<longrightarrow> z \<noteq> sm_root_window (rt_screen t) \<longrightarrow> shown t' z)))"
proof -
  obtain late where okay: "table_ok late t" and check: "invariants_hold t \<longrightarrow> late = {}" using table_reachable_ok [OF assms] by blast
  obtain states where s: "recompute_map_states (sm_root_window (rt_screen t)) t = Some (restated states t)" "maps_ok (restated states t)"
    using recompute_root [OF okay] by blast
  have ok: "table_ok late (restated states t)" using restated_ok okay by blast
  have "\<forall>xid w. find_window xid (restated states t) = Some w \<longrightarrow>
       (xid \<noteq> sm_root_window (rt_screen t) \<longrightarrow> (sw_map_state w = Unmapped \<longleftrightarrow> \<not> shown (restated states t) xid)) \<and>
       (sw_map_state w = Viewable \<longleftrightarrow>
         (\<forall>z. (xid, z) \<in> (child_relation (restated states t))\<^sup>* \<longrightarrow> z \<noteq> sm_root_window (rt_screen t) \<longrightarrow> shown (restated states t) z))"
    using maps_viewable [OF ok s(2)] maps_unmapped [OF s(2)] unfolding restated_fields by blast
  moreover have "invariants_hold t \<longrightarrow> invariants_hold (restated states t)" using ok ok_invariants_hold check by auto
  ultimately show ?thesis using s(1) by blast
qed

theorem map_states_settle_witness:
  "\<exists>states t'. recompute_map_states 1 table_example = Some t' \<and> t' = restated states table_example"
  using map_states_settle [OF table_example_reachable(3)] by (auto simp: example_windows(3) kScreenModel_def)

section \<open>Readers\<close>

text \<open>
  C34. The search for the cursor to show over a window never gives up: the loop looks at most once at each resource, and
  in every state the table can reach that is enough. A window with a cursor of its own shows it, the root without one
  shows the server's, and any other window shows what its parent shows.
\<close>

theorem effective_cursor_total:
  assumes "table_reachable t" "find_window xid t = Some w"
  shows "effective_cursor xid t \<noteq> None \<and>
    effective_cursor xid t =
      (if \<not> wa_cursor_inherit (sw_attributes w) then wa_cursor_image (sw_attributes w)
       else if xid = sm_root_window (rt_screen t) then rt_root_cursor t
       else effective_cursor (sw_parent w) t)"
proof -
  obtain late where ok: "table_ok late t" using table_reachable_ok [OF assms(1)] by blast
  show ?thesis using effective_cursor_found [OF ok assms(2)] effective_cursor_parent [OF ok assms(2)] assms(2)
    by (simp add: effective_cursor_def)
qed

theorem effective_cursor_total_witness:
  "effective_cursor 0x200002 table_example = effective_cursor 0x200001 table_example \<and> effective_cursor 0x200002 table_example \<noteq> None"
proof -
  obtain w where w: "find_window 0x200002 table_example = Some w" "sw_parent w = 0x200001" "wa_cursor_inherit (sw_attributes w)"
    using example_windows by auto
  have "effective_cursor 0x200002 table_example \<noteq> None" using effective_cursor_total [OF table_example_reachable(3) w(1)] by (rule conjunct1)
  moreover have "effective_cursor 0x200002 table_example = effective_cursor 0x200001 table_example"
    using effective_cursor_total [OF table_example_reachable(3) w(1), THEN conjunct2] w by (simp add: example_windows(3) kScreenModel_def)
  ultimately show ?thesis by (intro conjI)
qed

text \<open>
  C35. What a property is changed to is what is read back, in one piece when enough is asked for; read in pieces,
  the pieces put together are what one read over both would give, and each read reports how many bytes come after.
  A read of the property's type or of any type leaves the table alone.
\<close>

theorem property_roundtrip:
  assumes "change_property xid a p PM_Replace t = (PT_Success, t')" "type = 0 \<or> type = pr_type p" "byte_size (pr_data p) < 2 ^ 32"
  shows "(byte_size (pr_data p) \<le> unat l * 4 \<longrightarrow>
      get_property xid a type False 0 l t' =
        (\<lparr>pv_status = PV_Success, pv_present = True, pv_type_matched = True, pv_deleted = False,
          pv_value = \<lparr>ps_type = pr_type p, ps_format = item_bits (pr_data p), ps_bytes_after = 0, ps_data = pr_data p\<rparr>\<rparr>, t')) \<and>
    ((unat first + unat l) * 4 \<le> byte_size (pr_data p) \<longrightarrow> unat l + unat m < 2 ^ 32 \<longrightarrow>
      concatenate_property_data (ps_data (pv_value (fst (get_property xid a type False first l t'))))
          (ps_data (pv_value (fst (get_property xid a type False (first + l) m t'))))
        = ps_data (pv_value (fst (get_property xid a type False first (l + m) t'))) \<and>
      unat (ps_bytes_after (pv_value (fst (get_property xid a type False first l t')))) = byte_size (pr_data p) - (unat first + unat l) * 4)"
proof -
  obtain w where w: "find_window xid t' = Some w" "fmlookup (sw_properties w) a = Some p" using change_property_stored [OF assms(1)] by blast
  note read = get_property_words [OF w assms(2)]
  show ?thesis
  proof (intro conjI impI)
    assume all: "byte_size (pr_data p) \<le> unat l * 4"
    show "get_property xid a type False 0 l t' =
        (\<lparr>pv_status = PV_Success, pv_present = True, pv_type_matched = True, pv_deleted = False,
          pv_value = \<lparr>ps_type = pr_type p, ps_format = item_bits (pr_data p), ps_bytes_after = 0, ps_data = pr_data p\<rparr>\<rparr>, t')"
      using read [of 0 l] all by (simp add: words_all)
  next
    assume inside: "(unat first + unat l) * 4 \<le> byte_size (pr_data p)" and room: "unat l + unat m < 2 ^ 32"
    have "unat first + unat l < 2 ^ LENGTH(32)" using inside assms(3) by simp
    then have sum: "unat (first + l) = unat first + unat l" by (simp add: unat_add_lem [THEN iffD1] word_size)
    have both: "unat (l + m) = unat l + unat m" using room by (simp add: unat_add_lem [THEN iffD1] word_size)
    have first: "unat first * 4 \<le> byte_size (pr_data p)" using inside by simp
    show "concatenate_property_data (ps_data (pv_value (fst (get_property xid a type False first l t'))))
          (ps_data (pv_value (fst (get_property xid a type False (first + l) m t'))))
        = ps_data (pv_value (fst (get_property xid a type False first (l + m) t')))"
      using read [OF first, of l] read [OF first, of "l + m"] read [of "first + l" m] inside
      by (simp add: sum both words_append)
    show "unat (ps_bytes_after (pv_value (fst (get_property xid a type False first l t')))) = byte_size (pr_data p) - (unat first + unat l) * 4"
    proof -
      have after: "byte_size (pr_data p) - unat first * 4 - min (byte_size (pr_data p) - unat first * 4) (unat l * 4) =
          byte_size (pr_data p) - (unat first + unat l) * 4" using inside by simp
      have "ps_bytes_after (pv_value (fst (get_property xid a type False first l t'))) = word_of_nat (byte_size (pr_data p) - (unat first + unat l) * 4)"
        by (simp only: read [OF first, of l] after fst_conv property_read.simps property_slice.simps)
      moreover have "unat (word_of_nat n :: u32) = n" if "n < 2 ^ 32" for n
        using that by (simp add: unsigned_of_nat take_bit_nat_eq_self)
      ultimately show ?thesis using assms(3) by (metis le_less_trans diff_le_self)
    qed
  qed
qed

definition example_property :: x_property where
  "example_property = \<lparr>pr_type = 31, pr_data = Data16 [1, 2, 3]\<rparr>"

lemma example_change: "fst (change_property 0x200001 39 example_property PM_Replace table_example) = PT_Success"
  by code_simp

theorem property_roundtrip_witness:
  "ps_data (pv_value (fst (get_property 0x200001 39 0 False 0 2 (snd (change_property 0x200001 39 example_property PM_Replace table_example)))))
    = Data16 [1, 2, 3]"
proof -
  have "change_property 0x200001 39 example_property PM_Replace table_example =
      (PT_Success, snd (change_property 0x200001 39 example_property PM_Replace table_example))"
    using example_change by (metis prod.collapse)
  from property_roundtrip [OF this, of 0 2 0 0] show ?thesis by (simp add: example_property_def)
qed

end
