(* ===== verification/Wm_Types.thy ===== *)
theory Wm_Types
  imports Geometry
begin

text \<open>
  The data of the window-management policy (\<open>wm/types.hpp\<close>): the raw state a producer sends,
  the policy state the engine computes from it, and the error codes of an evaluation. An enum of
  the code has a fixed 8-bit underlying type and can hold a value that is no enumerator; the
  enums that the engine receives from outside and checks have an \<open>Other\<close> constructor for those
  values, the enums that only the engine itself writes do not need it.
\<close>

section \<open>Limits\<close>

definition maximum_windows :: nat where
  "maximum_windows = 4096"

definition maximum_outputs :: nat where
  "maximum_outputs = 8"

definition maximum_work_extent :: int where
  "maximum_work_extent = 16384"

definition maximum_root_extent :: int where
  "maximum_root_extent = 32767"

definition maximum_window_extent :: int where
  "maximum_window_extent = 16384"

definition maximum_border_width :: int where
  "maximum_border_width = 65535"

section \<open>Enumerations\<close>

datatype window_type = WT_Unknown | WT_Normal | WT_Dialog | WT_Utility | WT_Other u8

datatype decoration_preference = DP_Unknown | DP_False | DP_True | DP_Other u8

datatype applied_state = AS_Normal | AS_Maximized | AS_Fullscreen | AS_Minimized

datatype tri_state = TS_Unknown | TS_False | TS_True

datatype stack_mode = SM_None | SM_Above | SM_Below | SM_Other u8

datatype output_transform =
    OT_Normal | OT_Rotate90 | OT_Rotate180 | OT_Rotate270
  | OT_Flipped | OT_Flipped90 | OT_Flipped180 | OT_Flipped270 | OT_Other u8

datatype evaluation_error =
    EE_None | EE_IncompleteSnapshot | EE_InvalidContext | EE_InvalidWindow
  | EE_UnknownReference | EE_Limit | EE_UnsupportedMetadata | EE_OutputFailure

text \<open>The numeric values of the enumerators, as the casts in the code read them.\<close>

fun window_type_value :: "window_type \<Rightarrow> nat" where
  "window_type_value WT_Unknown = 0"
| "window_type_value WT_Normal = 1"
| "window_type_value WT_Dialog = 2"
| "window_type_value WT_Utility = 3"
| "window_type_value (WT_Other v) = unat v"

fun applied_state_value :: "applied_state \<Rightarrow> nat" where
  "applied_state_value AS_Normal = 1"
| "applied_state_value AS_Maximized = 2"
| "applied_state_value AS_Fullscreen = 3"
| "applied_state_value AS_Minimized = 4"

fun tri_state_value :: "tri_state \<Rightarrow> nat" where
  "tri_state_value TS_Unknown = 0"
| "tri_state_value TS_False = 1"
| "tri_state_value TS_True = 2"

fun output_transform_value :: "output_transform \<Rightarrow> nat" where
  "output_transform_value OT_Normal = 0"
| "output_transform_value OT_Rotate90 = 1"
| "output_transform_value OT_Rotate180 = 2"
| "output_transform_value OT_Rotate270 = 3"
| "output_transform_value OT_Flipped = 4"
| "output_transform_value OT_Flipped90 = 5"
| "output_transform_value OT_Flipped180 = 6"
| "output_transform_value OT_Flipped270 = 7"
| "output_transform_value (OT_Other v) = unat v"

section \<open>Structures\<close>

type_synonym wm_rectangle = rectangle

record wm_context =
  root_window_id :: u32
  context_workspace_id :: u32
  context_output_id :: u64
  work_x :: i32
  work_y :: i32
  work_width :: u32
  work_height :: u32
  context_flags :: u32

record output_context =
  oc_output_id :: u64
  oc_logical :: wm_rectangle
  oc_work :: wm_rectangle
  oc_scale_numerator :: u32
  oc_scale_denominator :: u32
  oc_transform :: output_transform
  oc_enabled :: bool
  oc_primary :: bool
  oc_flags :: u32

record window_output_hint =
  hint_window_id :: u32
  hint_previous_output_id :: u64
  hint_preferred_output_id :: u64
  hint_flags :: u32

record raw_window =
  rw_window_id :: u32
  rw_parent_window_id :: u32
  rw_transient_for :: u32
  rw_workspace_id :: u32
  rw_requested_x :: i32
  rw_requested_y :: i32
  rw_requested_width :: u32
  rw_requested_height :: u32
  rw_border_width :: u32
  rw_window_type :: window_type
  rw_wants_map :: bool
  rw_override_redirect :: bool
  rw_decoration_preference :: decoration_preference
  rw_fullscreen_requested :: bool
  rw_maximized_requested :: bool
  rw_minimized_requested :: bool
  rw_attention_requested :: bool
  rw_creation_serial :: u64
  rw_map_serial :: u64
  rw_focus_serial :: u64
  rw_flags :: u32
  rw_geometry_serial :: u64
  rw_stack_serial :: u64
  rw_stack_sibling :: u32
  rw_stack_mode :: stack_mode

record raw_state =
  raw_complete :: bool
  raw_producer_generation :: u64
  raw_context :: wm_context
  raw_has_context :: bool
  raw_outputs :: "(u64, output_context) RBT.rbt"
  raw_output_hints :: "(u32, window_output_hint) RBT.rbt"
  raw_windows :: "(u32, raw_window) RBT.rbt"

record window_state =
  ws_window_id :: u32
  ws_transient_for :: u32
  ws_workspace_id :: u32
  ws_output_id :: u64
  ws_final_x :: i32
  ws_final_y :: i32
  ws_final_width :: u32
  ws_final_height :: u32
  ws_stacking :: i32
  ws_window_type :: window_type
  ws_applied_state :: applied_state
  ws_visible :: bool
  ws_focused :: bool
  ws_managed :: bool
  ws_decoration_eligible :: bool
  ws_override_redirect :: bool
  ws_attention_requested :: bool
  ws_fullscreen_eligible :: tri_state
  ws_direct_scanout_eligible :: tri_state

record policy_state =
  ps_generation :: u64
  ps_hash :: u64
  ps_context :: wm_context
  ps_outputs :: "(u64, output_context) RBT.rbt"
  ps_output_hints :: "(u32, window_output_hint) RBT.rbt"
  ps_windows :: "(u32, window_state) RBT.rbt"
  ps_output_order :: "u32 list"

record evaluation =
  eval_error :: evaluation_error
  eval_policy :: policy_state

record interactive_bindings =
  move_modifiers :: u16
  resize_modifiers :: u16
  close_modifiers :: u16
  move_button :: u8
  resize_button :: u8
  close_keysym :: u32
  minimum_width :: u32
  minimum_height :: u32
  raise_on_focus :: bool
  consume_wm_bindings :: bool

section \<open>Value-initialised structures\<close>

definition default_context :: wm_context where
  "default_context = \<lparr>root_window_id = 0, context_workspace_id = 0, context_output_id = 0,
     work_x = 0, work_y = 0, work_width = 0, work_height = 0, context_flags = 0\<rparr>"

definition default_hint :: window_output_hint where
  "default_hint = \<lparr>hint_window_id = 0, hint_previous_output_id = 0,
     hint_preferred_output_id = 0, hint_flags = 0\<rparr>"

definition default_raw_state :: raw_state where
  "default_raw_state = \<lparr>raw_complete = False, raw_producer_generation = 0,
     raw_context = default_context, raw_has_context = False, raw_outputs = RBT.empty,
     raw_output_hints = RBT.empty, raw_windows = RBT.empty\<rparr>"

definition default_window_state :: window_state where
  "default_window_state = \<lparr>ws_window_id = 0, ws_transient_for = 0, ws_workspace_id = 0,
     ws_output_id = 0, ws_final_x = 0, ws_final_y = 0, ws_final_width = 0, ws_final_height = 0,
     ws_stacking = -1, ws_window_type = WT_Unknown, ws_applied_state = AS_Normal,
     ws_visible = False, ws_focused = False, ws_managed = False, ws_decoration_eligible = False,
     ws_override_redirect = False, ws_attention_requested = False,
     ws_fullscreen_eligible = TS_False, ws_direct_scanout_eligible = TS_Unknown\<rparr>"

definition default_policy_state :: policy_state where
  "default_policy_state = \<lparr>ps_generation = 0, ps_hash = 0, ps_context = default_context,
     ps_outputs = RBT.empty, ps_output_hints = RBT.empty, ps_windows = RBT.empty,
     ps_output_order = []\<rparr>"

definition default_evaluation :: evaluation where
  "default_evaluation = \<lparr>eval_error = EE_None, eval_policy = default_policy_state\<rparr>"

section \<open>Flag bits\<close>

definition kAboveFlag :: u32 where
  "kAboveFlag = push_bit 0 1"

definition kBypassCompositorFlag :: u32 where
  "kBypassCompositorFlag = push_bit 1 1"

definition kInputDisabledFlag :: u32 where
  "kInputDisabledFlag = push_bit 2 1"

definition kKnownWindowFlags :: u32 where
  "kKnownWindowFlags = kAboveFlag OR kBypassCompositorFlag OR kInputDisabledFlag"

abbreviation window_keys :: "raw_state \<Rightarrow> u32 list" where
  "window_keys raw \<equiv> RBT.keys (raw_windows raw)"

end
