(* ===== verification/Wm_Validation.thy ===== *)
theory Wm_Validation
  imports Wm_Types
begin

text \<open>
  Validation of the raw policy state (\<open>wm/policy_validation.cpp\<close>). Every early return of the
  code is a branch here, in the order of the code. The lemmas extract from an accepted state
  what the rest of the engine relies on: the output layout is sound, every window is keyed by
  its own identifier, references resolve, and the transient-for chains end.
\<close>

section \<open>Rectangles and scales of outputs\<close>

definition extent_fits :: "i32 \<Rightarrow> u32 \<Rightarrow> bool" where
  "extent_fits origin extent \<longleftrightarrow> extent \<noteq> 0 \<and> sint origin + uint extent - 1 \<le> int32_max"

definition valid_rectangle :: "wm_rectangle \<Rightarrow> bool" where
  "valid_rectangle r \<longleftrightarrow>
     sint (rect_x r) \<ge> 0 \<and> sint (rect_y r) \<ge> 0 \<and> rect_width r \<noteq> 0 \<and> rect_height r \<noteq> 0 \<and>
     uint (rect_width r) \<le> maximum_work_extent \<and> uint (rect_height r) \<le> maximum_work_extent \<and>
     extent_fits (rect_x r) (rect_width r) \<and> extent_fits (rect_y r) (rect_height r)"

definition rect_contains :: "wm_rectangle \<Rightarrow> wm_rectangle \<Rightarrow> bool" where
  "rect_contains outer inner \<longleftrightarrow>
     sint (rect_x inner) \<ge> sint (rect_x outer) \<and> sint (rect_y inner) \<ge> sint (rect_y outer) \<and>
     sint (rect_x inner) + uint (rect_width inner) \<le> sint (rect_x outer) + uint (rect_width outer) \<and>
     sint (rect_y inner) + uint (rect_height inner) \<le> sint (rect_y outer) + uint (rect_height outer)"

definition rect_overlaps :: "wm_rectangle \<Rightarrow> wm_rectangle \<Rightarrow> bool" where
  "rect_overlaps left right \<longleftrightarrow>
     sint (rect_x left) < sint (rect_x right) + uint (rect_width right) \<and>
     sint (rect_x right) < sint (rect_x left) + uint (rect_width left) \<and>
     sint (rect_y left) < sint (rect_y right) + uint (rect_height right) \<and>
     sint (rect_y right) < sint (rect_y left) + uint (rect_height left)"

definition valid_scale :: "output_context \<Rightarrow> bool" where
  "valid_scale output \<longleftrightarrow>
     oc_scale_numerator output \<noteq> 0 \<and> oc_scale_denominator output \<noteq> 0 \<and>
     uint (oc_scale_denominator output) \<le> 120 \<and>
     gcd (uint (oc_scale_numerator output)) (uint (oc_scale_denominator output)) = 1 \<and>
     oc_scale_numerator output \<ge> oc_scale_denominator output \<and>
     uint (oc_scale_numerator output) \<le> 4 * uint (oc_scale_denominator output)"

section \<open>Outputs and hints\<close>

record output_scan =
  enabled_count :: nat
  primary_count :: nat
  maximum_x :: int
  maximum_y :: int
  enabled_outputs :: "output_context list"

definition start_scan :: output_scan where
  "start_scan = \<lparr>enabled_count = 0, primary_count = 0, maximum_x = 0, maximum_y = 0,
     enabled_outputs = []\<rparr>"

text \<open>The first loop of \<open>validate_outputs\<close>; \<open>Inl\<close> is its early return.\<close>

fun scan_outputs :: "(u64 \<times> output_context) list \<Rightarrow> output_scan \<Rightarrow> evaluation_error + output_scan" where
  "scan_outputs [] s = Inr s"
| "scan_outputs ((oid, output) # rest) s =
     (if oid = 0 \<or> oid \<noteq> oc_output_id output \<or> oc_flags output \<noteq> 0 \<or>
         output_transform_value (oc_transform output) > output_transform_value OT_Flipped270 \<or>
         \<not> valid_scale output \<or> (oc_primary output \<and> \<not> oc_enabled output)
      then Inl EE_InvalidContext
      else if \<not> oc_enabled output then
        (if oc_primary output \<or> rect_x (oc_logical output) \<noteq> 0 \<or> rect_y (oc_logical output) \<noteq> 0 \<or>
            rect_width (oc_logical output) \<noteq> 0 \<or> rect_height (oc_logical output) \<noteq> 0 \<or>
            rect_x (oc_work output) \<noteq> 0 \<or> rect_y (oc_work output) \<noteq> 0 \<or>
            rect_width (oc_work output) \<noteq> 0 \<or> rect_height (oc_work output) \<noteq> 0
         then Inl EE_InvalidContext
         else scan_outputs rest s)
      else if \<not> valid_rectangle (oc_logical output) \<or> \<not> valid_rectangle (oc_work output) \<or>
              \<not> rect_contains (oc_logical output) (oc_work output)
      then Inl EE_InvalidContext
      else scan_outputs rest
        (s\<lparr>enabled_count := Suc (enabled_count s),
           primary_count := primary_count s + (if oc_primary output then 1 else 0),
           maximum_x := max (maximum_x s)
             (sint (rect_x (oc_logical output)) + uint (rect_width (oc_logical output))),
           maximum_y := max (maximum_y s)
             (sint (rect_y (oc_logical output)) + uint (rect_height (oc_logical output))),
           enabled_outputs := enabled_outputs s @ [output]\<rparr>))"

text \<open>The nested loop over pairs of enabled outputs.\<close>

fun any_overlap :: "output_context list \<Rightarrow> bool" where
  "any_overlap [] = False"
| "any_overlap (left # rest) =
     (list_ex (\<lambda>right. rect_overlaps (oc_logical left) (oc_logical right)) rest \<or> any_overlap rest)"

definition validate_outputs :: "raw_state \<Rightarrow> evaluation_error" where
  "validate_outputs raw =
     (if map_size (raw_outputs raw) > maximum_outputs then EE_Limit
      else (case scan_outputs (RBT.entries (raw_outputs raw)) start_scan of
              Inl e \<Rightarrow> e
            | Inr s \<Rightarrow>
                (if any_overlap (enabled_outputs s) then EE_InvalidContext
                 else if enabled_count s = 0 \<or> primary_count s \<noteq> 1 \<or>
                   (case RBT.lookup (raw_outputs raw) (context_output_id (raw_context raw)) of
                      None \<Rightarrow> True
                    | Some output \<Rightarrow> \<not> oc_primary output) \<or>
                   work_x (raw_context raw) \<noteq> 0 \<or> work_y (raw_context raw) \<noteq> 0 \<or>
                   uint (work_width (raw_context raw)) \<noteq> maximum_x s \<or>
                   uint (work_height (raw_context raw)) \<noteq> maximum_y s
                 then EE_InvalidContext
                 else EE_None)))"

definition validate_hints :: "raw_state \<Rightarrow> evaluation_error" where
  "validate_hints raw =
     (if map_size (raw_output_hints raw) > map_size (raw_windows raw) then EE_Limit
      else if list_ex (\<lambda>(id, hint). id = 0 \<or> id \<noteq> hint_window_id hint \<or> hint_flags hint \<noteq> 0 \<or>
                          \<not> map_contains (raw_windows raw) id)
                (RBT.entries (raw_output_hints raw))
      then EE_InvalidWindow
      else EE_None)"

section \<open>Windows\<close>

definition known_metadata :: "raw_window \<Rightarrow> bool" where
  "known_metadata window \<longleftrightarrow>
     (rw_window_type window = WT_Unknown \<or> rw_window_type window = WT_Normal \<or>
      rw_window_type window = WT_Dialog \<or> rw_window_type window = WT_Utility) \<and>
     (rw_decoration_preference window = DP_Unknown \<or> rw_decoration_preference window = DP_False \<or>
      rw_decoration_preference window = DP_True) \<and>
     (rw_stack_mode window = SM_None \<or> rw_stack_mode window = SM_Above \<or>
      rw_stack_mode window = SM_Below)"

text \<open>
  \<open>validate_window\<close> adds the creation serial to the set it is given as its last check; the
  caller passes the extended set on only when no error was reported, see \<open>validate_windows\<close>.
\<close>

definition validate_window :: "raw_state \<Rightarrow> raw_window \<Rightarrow> u64 list \<Rightarrow> evaluation_error" where
  "validate_window raw window creation_serials =
     (let id = rw_window_id window in
      if id = 0 \<or> id = root_window_id (raw_context raw) \<or>
         rw_parent_window_id window \<noteq> root_window_id (raw_context raw) \<or>
         rw_creation_serial window = 0 \<or> rw_requested_width window = 0 \<or>
         rw_requested_height window = 0 \<or>
         uint (rw_requested_width window) > maximum_window_extent \<or>
         uint (rw_requested_height window) > maximum_window_extent \<or>
         uint (rw_border_width window) > maximum_border_width \<or>
         rw_flags window AND NOT kKnownWindowFlags \<noteq> 0 \<or> \<not> known_metadata window \<or>
         (rw_stack_serial window = 0 \<and>
          (rw_stack_sibling window \<noteq> 0 \<or> rw_stack_mode window \<noteq> SM_None)) \<or>
         (rw_stack_serial window \<noteq> 0 \<and> rw_stack_mode window = SM_None) \<or>
         rw_stack_sibling window = id \<or>
         (rw_wants_map window \<and> rw_map_serial window = 0) \<or>
         \<not> extent_fits (rw_requested_x window) (rw_requested_width window) \<or>
         \<not> extent_fits (rw_requested_y window) (rw_requested_height window) \<or>
         rw_creation_serial window \<in> set creation_serials
      then EE_InvalidWindow
      else if rw_workspace_id window \<noteq> 0 \<and>
              rw_workspace_id window \<noteq> context_workspace_id (raw_context raw)
      then EE_UnsupportedMetadata
      else if rw_transient_for window = id then EE_InvalidWindow
      else if rw_transient_for window \<noteq> 0 \<and>
              (case RBT.lookup (raw_windows raw) (rw_transient_for window) of
                 None \<Rightarrow> True
               | Some target \<Rightarrow> rw_override_redirect target)
      then EE_UnknownReference
      else if rw_stack_serial window = 0 then EE_None
      else if rw_transient_for window \<noteq> 0 then EE_UnsupportedMetadata
      else if rw_stack_sibling window = 0 then EE_None
      else (case RBT.lookup (raw_windows raw) (rw_stack_sibling window) of
              None \<Rightarrow> EE_UnknownReference
            | Some sibling \<Rightarrow>
                (if rw_transient_for sibling \<noteq> 0 \<or>
                    rw_override_redirect sibling \<noteq> rw_override_redirect window
                 then EE_UnsupportedMetadata else EE_None)))"

fun validate_windows ::
  "raw_state \<Rightarrow> (u32 \<times> raw_window) list \<Rightarrow> u64 list \<Rightarrow> evaluation_error" where
  "validate_windows raw [] serials = EE_None"
| "validate_windows raw ((wid, window) # rest) serials =
     (if wid \<noteq> rw_window_id window then EE_InvalidWindow
      else (case validate_window raw window serials of
              EE_None \<Rightarrow> validate_windows raw rest (rw_creation_serial window # serials)
            | e \<Rightarrow> e))"

text \<open>
  The walk along the transient-for chain. It ends because each round adds a window that was
  not visited before, or leaves the map.
\<close>

function transient_cycle_from :: "(u32, raw_window) RBT.rbt \<Rightarrow> u32 list \<Rightarrow> u32 \<Rightarrow> bool" where
  "transient_cycle_from windows visited current =
     (if current = 0 then False
      else if current \<in> set visited then True
      else (case RBT.lookup windows current of
              None \<Rightarrow> False
            | Some found \<Rightarrow>
                transient_cycle_from windows (current # visited) (rw_transient_for found)))"
  by pat_completeness auto
termination
proof (relation "measure (\<lambda>(windows, visited, current). card (dom (RBT.lookup windows) - set visited))",
    goal_cases)
  case (2 windows visited current found)
  then have "dom (RBT.lookup windows) - set (current # visited)
               \<subset> dom (RBT.lookup windows) - set visited" by auto
  then show ?case by (simp add: psubset_card_mono)
qed simp

declare transient_cycle_from.simps [simp del]

definition transient_cycle :: "raw_state \<Rightarrow> u32 \<Rightarrow> bool" where
  "transient_cycle raw wid = transient_cycle_from (raw_windows raw) [] wid"

definition validate :: "raw_state \<Rightarrow> evaluation_error" where
  "validate raw =
     (let context = raw_context raw;
          limit = (if RBT.is_empty (raw_outputs raw) then maximum_work_extent else maximum_root_extent)
      in if \<not> raw_complete raw \<or> \<not> raw_has_context raw then EE_IncompleteSnapshot
         else if root_window_id context = 0 \<or> context_workspace_id context = 0 \<or>
                 context_output_id context = 0 \<or> context_flags context \<noteq> 0 \<or>
                 work_width context = 0 \<or> work_height context = 0 \<or>
                 uint (work_width context) > limit \<or> uint (work_height context) > limit \<or>
                 \<not> extent_fits (work_x context) (work_width context) \<or>
                 \<not> extent_fits (work_y context) (work_height context)
         then EE_InvalidContext
         else let output_error =
                (if \<not> RBT.is_empty (raw_outputs raw) then
                   (case validate_outputs raw of EE_None \<Rightarrow> validate_hints raw | e \<Rightarrow> e)
                 else if \<not> RBT.is_empty (raw_output_hints raw) then EE_UnsupportedMetadata
                 else EE_None)
              in case output_error of
                   EE_None \<Rightarrow>
                     (if map_size (raw_windows raw) > maximum_windows then EE_Limit
                      else (case validate_windows raw (RBT.entries (raw_windows raw)) [] of
                              EE_None \<Rightarrow>
                                (if list_ex (transient_cycle raw) (RBT.keys (raw_windows raw))
                                 then EE_InvalidWindow else EE_None)
                            | e \<Rightarrow> e))
                 | e \<Rightarrow> e)"

section \<open>What an accepted state guarantees\<close>

lemma validate_windows_each:
  assumes "validate_windows raw es serials = EE_None" "(k, w) \<in> set es"
  shows "k = rw_window_id w" and "\<exists>ss. validate_window raw w ss = EE_None"
  using assms
  by (induction es arbitrary: serials) (auto split: if_splits evaluation_error.splits)

lemma validate_windows_serials:
  assumes "validate_windows raw es serials = EE_None"
  shows "distinct (map (rw_creation_serial \<circ> snd) es) \<and>
         set (map (rw_creation_serial \<circ> snd) es) \<inter> set serials = {}"
  using assms
proof (induction es arbitrary: serials)
  case (Cons e es)
  obtain k w where e: "e = (k, w)" by (cases e)
  from Cons.prems e have ok: "validate_window raw w serials = EE_None"
    and rest: "validate_windows raw es (rw_creation_serial w # serials) = EE_None"
    by (auto split: if_splits evaluation_error.splits)
  from ok have "rw_creation_serial w \<notin> set serials"
    by (auto simp: validate_window_def Let_def split: if_splits)
  with Cons.IH [OF rest] e show ?case by auto
qed simp

lemma valid_windowD:
  assumes "validate_window raw w ss = EE_None"
  shows "rw_window_id w \<noteq> 0" "rw_requested_width w \<noteq> 0" "rw_requested_height w \<noteq> 0"
    and "uint (rw_requested_width w) \<le> maximum_window_extent"
    and "uint (rw_requested_height w) \<le> maximum_window_extent"
    and "extent_fits (rw_requested_x w) (rw_requested_width w)"
    and "extent_fits (rw_requested_y w) (rw_requested_height w)"
    and "known_metadata w"
    and "rw_transient_for w \<noteq> 0 \<Longrightarrow>
           \<exists>t. RBT.lookup (raw_windows raw) (rw_transient_for w) = Some t \<and> \<not> rw_override_redirect t"
    and "rw_stack_serial w \<noteq> 0 \<Longrightarrow> rw_transient_for w = 0"
    and "rw_stack_serial w \<noteq> 0 \<Longrightarrow> rw_stack_sibling w \<noteq> 0 \<Longrightarrow>
           \<exists>s. RBT.lookup (raw_windows raw) (rw_stack_sibling w) = Some s \<and>
               rw_transient_for s = 0 \<and> rw_override_redirect s = rw_override_redirect w"
    and "rw_stack_sibling w \<noteq> rw_window_id w"
  using assms by (auto simp: validate_window_def Let_def split: if_splits option.splits)

lemma validate_cases:
  assumes "validate raw = EE_None"
  shows "validate_windows raw (RBT.entries (raw_windows raw)) [] = EE_None"
    and "\<forall>k \<in> set (RBT.keys (raw_windows raw)). \<not> transient_cycle raw k"
    and "map_size (raw_windows raw) \<le> maximum_windows"
    and "work_width (raw_context raw) \<noteq> 0" "work_height (raw_context raw) \<noteq> 0"
    and "extent_fits (work_x (raw_context raw)) (work_width (raw_context raw))"
    and "extent_fits (work_y (raw_context raw)) (work_height (raw_context raw))"
    and "uint (work_width (raw_context raw)) \<le> maximum_root_extent"
    and "uint (work_height (raw_context raw)) \<le> maximum_root_extent"
    and "raw_outputs raw \<noteq> RBT.empty \<Longrightarrow> validate_outputs raw = EE_None"
    and "raw_outputs raw = RBT.empty \<Longrightarrow> raw_output_hints raw = RBT.empty"
    and "raw_complete raw" "raw_has_context raw"
  using assms
  by (auto simp: validate_def Let_def list_ex_iff maximum_work_extent_def maximum_root_extent_def
      split: if_splits evaluation_error.splits)

lemma accepted_window:
  assumes "validate raw = EE_None" "RBT.lookup (raw_windows raw) k = Some w"
  shows "rw_window_id w = k" and "\<exists>ss. validate_window raw w ss = EE_None"
  using validate_windows_each [OF validate_cases(1) [OF assms(1)], of k w] assms(2)
  by (auto simp: map_simps)

lemma accepted_nonzero:
  "validate raw = EE_None \<Longrightarrow> RBT.lookup (raw_windows raw) k = Some w \<Longrightarrow> k \<noteq> 0"
  using accepted_window valid_windowD(1) by blast

lemma accepted_parent:
  assumes "validate raw = EE_None" "RBT.lookup (raw_windows raw) k = Some w" "rw_transient_for w \<noteq> 0"
  obtains t where "RBT.lookup (raw_windows raw) (rw_transient_for w) = Some t" "\<not> rw_override_redirect t"
  using assms accepted_window(2) valid_windowD(9) by blast

lemma accepted_no_cycle:
  "validate raw = EE_None \<Longrightarrow> RBT.lookup (raw_windows raw) k = Some w \<Longrightarrow> \<not> transient_cycle raw k"
  using validate_cases(2) by (auto simp: map_simps)

lemma accepted_serials_inj:
  assumes "validate raw = EE_None" "RBT.lookup (raw_windows raw) k = Some w"
    "RBT.lookup (raw_windows raw) k' = Some w'" "rw_creation_serial w = rw_creation_serial w'"
  shows "k = k'"
proof -
  have "(k, w) \<in> set (RBT.entries (raw_windows raw))" "(k', w') \<in> set (RBT.entries (raw_windows raw))"
    using assms(2,3) by (simp_all add: map_simps)
  moreover have "inj_on (rw_creation_serial \<circ> snd) (set (RBT.entries (raw_windows raw)))"
    using validate_windows_serials [OF validate_cases(1) [OF assms(1)]] by (simp add: distinct_map)
  ultimately have "(k, w) = (k', w')"
    using assms(4) by (intro inj_onD [of "rw_creation_serial \<circ> snd" "set (RBT.entries (raw_windows raw))"]) simp_all
  then show ?thesis by simp
qed

section \<open>Accepted outputs\<close>

lemma scan_outputs_error: "scan_outputs es s \<noteq> Inl EE_None"
  by (induction es s rule: scan_outputs.induct) auto

text \<open>One round of the scan that does not return.\<close>

definition output_accepted :: "u64 \<Rightarrow> output_context \<Rightarrow> bool" where
  "output_accepted k out \<longleftrightarrow> k \<noteq> 0 \<and> oc_output_id out = k \<and> (oc_primary out \<longrightarrow> oc_enabled out) \<and>
     (oc_enabled out \<longrightarrow> valid_rectangle (oc_logical out) \<and> valid_rectangle (oc_work out) \<and>
        rect_contains (oc_logical out) (oc_work out))"

definition scan_step :: "output_context \<Rightarrow> output_scan \<Rightarrow> output_scan" where
  "scan_step out s =
     (if oc_enabled out then
        s\<lparr>enabled_count := Suc (enabled_count s),
          primary_count := primary_count s + (if oc_primary out then 1 else 0),
          maximum_x := max (maximum_x s) (right_edge (oc_logical out)),
          maximum_y := max (maximum_y s) (bottom_edge (oc_logical out)),
          enabled_outputs := enabled_outputs s @ [out]\<rparr>
      else s)"

lemma scan_outputs_Cons:
  "scan_outputs ((k, out) # es) s = Inr s' \<Longrightarrow>
     output_accepted k out \<and> scan_outputs es (scan_step out s) = Inr s'"
  by (simp add: output_accepted_def scan_step_def right_edge_def bottom_edge_def split: if_splits)

lemma scan_outputs_collects:
  assumes "scan_outputs es s = Inr s'"
  shows "(\<forall>(k, out) \<in> set es. output_accepted k out) \<and>
         s' = fold (\<lambda>(k, out). scan_step out) es s"
  using assms
proof (induction es arbitrary: s)
  case (Cons e es)
  obtain k out where e: "e = (k, out)" by (cases e)
  from scan_outputs_Cons [of k out es s s'] Cons.prems e
  have step: "output_accepted k out" "scan_outputs es (scan_step out s) = Inr s'" by auto
  from Cons.IH [OF step(2)] step(1) e show ?case by auto
qed simp

lemma scan_fold_maximum:
  "maximum_x s \<le> maximum_x (fold (\<lambda>(k, out). scan_step out) es s) \<and>
   maximum_y s \<le> maximum_y (fold (\<lambda>(k, out). scan_step out) es s)"
proof (induction es arbitrary: s)
  case (Cons e es)
  obtain k out where "e = (k, out)" by (cases e)
  moreover have "maximum_x s \<le> maximum_x (scan_step out s)" "maximum_y s \<le> maximum_y (scan_step out s)"
    by (simp_all add: scan_step_def)
  ultimately show ?case using Cons.IH [of "scan_step out s"] by auto
qed simp

lemma scan_fold_edges:
  assumes "(k, out) \<in> set es" "oc_enabled out"
  shows "right_edge (oc_logical out) \<le> maximum_x (fold (\<lambda>(k, out). scan_step out) es s)"
    and "bottom_edge (oc_logical out) \<le> maximum_y (fold (\<lambda>(k, out). scan_step out) es s)"
proof -
  from assms(1) obtain as bs where es: "es = as @ (k, out) # bs" by (auto simp: in_set_conv_decomp)
  let ?s = "scan_step out (fold (\<lambda>(k, out). scan_step out) as s)"
  have "right_edge (oc_logical out) \<le> maximum_x ?s" "bottom_edge (oc_logical out) \<le> maximum_y ?s"
    using assms(2) by (simp_all add: scan_step_def)
  with scan_fold_maximum [of ?s bs] es
  show "right_edge (oc_logical out) \<le> maximum_x (fold (\<lambda>(k, out). scan_step out) es s)"
    "bottom_edge (oc_logical out) \<le> maximum_y (fold (\<lambda>(k, out). scan_step out) es s)" by auto
qed

lemma scan_fold_enabled:
  "enabled_outputs (fold (\<lambda>(k, out). scan_step out) es s)
     = enabled_outputs s @ filter oc_enabled (map snd es)"
  by (induction es arbitrary: s) (auto simp: scan_step_def)

lemma accepted_outputs:
  assumes "validate raw = EE_None" "RBT.lookup (raw_outputs raw) k = Some out" "oc_enabled out"
  shows "valid_rectangle (oc_logical out)" "valid_rectangle (oc_work out)"
    and "rect_contains (oc_logical out) (oc_work out)"
    and "right_edge (oc_logical out) \<le> maximum_root_extent"
    and "bottom_edge (oc_logical out) \<le> maximum_root_extent"
proof -
  have ne: "raw_outputs raw \<noteq> RBT.empty" using assms(2) by auto
  from validate_cases(10) [OF assms(1) ne] obtain s' where
    s': "scan_outputs (RBT.entries (raw_outputs raw)) start_scan = Inr s'"
    and m: "uint (work_width (raw_context raw)) = maximum_x s'"
      "uint (work_height (raw_context raw)) = maximum_y s'"
    by (auto simp: validate_outputs_def scan_outputs_error split: if_splits sum.splits)
  have e: "(k, out) \<in> set (RBT.entries (raw_outputs raw))" using assms(2) by (simp add: map_simps)
  show "valid_rectangle (oc_logical out)" "valid_rectangle (oc_work out)"
    "rect_contains (oc_logical out) (oc_work out)"
    using scan_outputs_collects [OF s'] e assms(3) by (fastforce simp: output_accepted_def)+
  show "right_edge (oc_logical out) \<le> maximum_root_extent" "bottom_edge (oc_logical out) \<le> maximum_root_extent"
    using scan_outputs_collects [OF s'] scan_fold_edges [OF e assms(3), of start_scan]
      m validate_cases(8,9) [OF assms(1)] by auto
qed

lemma accepted_primary:
  assumes "validate raw = EE_None" "raw_outputs raw \<noteq> RBT.empty"
  obtains out where "RBT.lookup (raw_outputs raw) (context_output_id (raw_context raw)) = Some out"
    "oc_primary out" "oc_enabled out"
proof -
  from validate_cases(10) [OF assms] obtain s' out where
    s': "scan_outputs (RBT.entries (raw_outputs raw)) start_scan = Inr s'"
    and out: "RBT.lookup (raw_outputs raw) (context_output_id (raw_context raw)) = Some out" "oc_primary out"
    by (auto simp: validate_outputs_def scan_outputs_error split: if_splits sum.splits option.splits)
  with scan_outputs_collects [OF s'] have "oc_enabled out" by (auto simp: map_simps output_accepted_def)
  with out that show ?thesis by blast
qed

end
