(* ===== verification/Wm_Ordering.thy ===== *)
theory Wm_Ordering
  imports Wm_Validation
begin

text \<open>
  Stacking (\<open>wm/policy_ordering.cpp\<close>): the parent-first order of transient windows, restacking
  requests, the transient trees, and the final stacking order. The walks along the
  transient-for chains are not obviously finite: the depth is a partial function and the tree
  emission has fuel, and the lemmas show that on an accepted state both give a result.
\<close>

section \<open>Sorting by the stacking key\<close>

definition stack_key :: "raw_window \<Rightarrow> bool \<times> u64 \<times> u64 \<times> u32" where
  "stack_key w = (rw_flags w AND kAboveFlag \<noteq> 0, rw_map_serial w, rw_creation_serial w, rw_window_id w)"

text \<open>
  The identifiers that are sorted are keys of the window map; a missing key, which would make
  the comparator throw, would be sorted first by the order of options.
\<close>

definition sort_ids :: "raw_state \<Rightarrow> u32 list \<Rightarrow> u32 list" where
  "sort_ids raw = sort_key (\<lambda>wid. map_option stack_key (RBT.lookup (raw_windows raw) wid))"

section \<open>Restacking\<close>

text \<open>
  \<open>band.insert\<close> at the sibling's position or after it. Stepping past the end of the band,
  which is undefined, is \<open>None\<close>.
\<close>

fun insert_at_sibling :: "bool \<Rightarrow> u32 \<Rightarrow> u32 \<Rightarrow> u32 list \<Rightarrow> u32 list option" where
  "insert_at_sibling after sibling wid [] = (if after then None else Some [wid])"
| "insert_at_sibling after sibling wid (b # bs) =
     (if b = sibling then Some (if after then b # wid # bs else wid # b # bs)
      else map_option (\<lambda>bs'. b # bs') (insert_at_sibling after sibling wid bs))"

definition restack_step :: "raw_state \<Rightarrow> u32 \<Rightarrow> u32 list \<Rightarrow> u32 list option" where
  "restack_step raw wid band =
     (case RBT.lookup (raw_windows raw) wid of
        None \<Rightarrow> None
      | Some operation \<Rightarrow>
          (if wid \<notin> set band then Some band
           else let rest = remove1 wid band in
             if rw_stack_sibling operation = 0 then
               Some (if rw_stack_mode operation = SM_Above then rest @ [wid] else wid # rest)
             else insert_at_sibling (rw_stack_mode operation = SM_Above)
                    (rw_stack_sibling operation) wid rest))"

definition restack_key :: "raw_window \<Rightarrow> u64 \<times> u64 \<times> u32" where
  "restack_key w = (rw_stack_serial w, rw_creation_serial w, rw_window_id w)"

definition restack_operations :: "raw_state \<Rightarrow> u32 list \<Rightarrow> u32 list" where
  "restack_operations raw band =
     sort_key (\<lambda>wid. map_option restack_key (RBT.lookup (raw_windows raw) wid))
       (filter (\<lambda>wid. case RBT.lookup (raw_windows raw) wid of
                         None \<Rightarrow> True | Some w \<Rightarrow> rw_stack_serial w \<noteq> 0) band)"

definition apply_restack :: "raw_state \<Rightarrow> u32 list \<Rightarrow> u32 list option" where
  "apply_restack raw band = fold_option (restack_step raw) (restack_operations raw band) band"

section \<open>Transient windows\<close>

text \<open>The number of windows on the chain that starts at \<open>current\<close>; \<open>None\<close> if it does not end.\<close>

partial_function (option) chain_length :: "(u32, raw_window) RBT.rbt \<Rightarrow> u32 \<Rightarrow> nat option" where
  "chain_length windows current =
     (if current = 0 then Some 0
      else Option.bind (RBT.lookup windows current) (\<lambda>w.
             Option.bind (chain_length windows (rw_transient_for w)) (\<lambda>n. Some (Suc n))))"

declare chain_length.simps [code]

definition transient_depth :: "raw_state \<Rightarrow> u32 \<Rightarrow> nat option" where
  "transient_depth raw wid =
     Option.bind (RBT.lookup (raw_windows raw) wid)
       (\<lambda>w. chain_length (raw_windows raw) (rw_transient_for w))"

text \<open>The comparator of the sort runs only when there are two elements to compare.\<close>

definition transient_parent_first :: "raw_state \<Rightarrow> u32 list option" where
  "transient_parent_first raw =
     (let ordered = map fst (filter (\<lambda>(wid, w). \<not> rw_override_redirect w \<and> rw_transient_for w \<noteq> 0)
                       (RBT.entries (raw_windows raw)))
      in if length ordered > 1 \<and> list_ex (\<lambda>wid. transient_depth raw wid = None) ordered then None
         else Some (sort_key (\<lambda>wid. (transient_depth raw wid, wid)) ordered))"

section \<open>The stacking order\<close>

fun filter_option :: "('a \<Rightarrow> bool option) \<Rightarrow> 'a list \<Rightarrow> 'a list option" where
  "filter_option p [] = Some []"
| "filter_option p (x # xs) =
     (case p x of
        None \<Rightarrow> None
      | Some b \<Rightarrow> map_option (\<lambda>ys. if b then x # ys else ys) (filter_option p xs))"

fun concat_option :: "('a \<Rightarrow> 'b list option) \<Rightarrow> 'a list \<Rightarrow> 'b list option" where
  "concat_option f [] = Some []"
| "concat_option f (x # xs) =
     (case f x of
        None \<Rightarrow> None
      | Some ys \<Rightarrow> map_option (\<lambda>zs. ys @ zs) (concat_option f xs))"

definition visible_at :: "policy_state \<Rightarrow> u32 \<Rightarrow> bool option" where
  "visible_at policy wid = map_option ws_visible (RBT.lookup (ps_windows policy) wid)"

definition tree_children :: "raw_state \<Rightarrow> policy_state \<Rightarrow> u32 \<Rightarrow> u32 list option" where
  "tree_children raw policy wid =
     filter_option (visible_at policy)
       (map fst (filter (\<lambda>(child_id, child). \<not> rw_override_redirect child \<and> rw_transient_for child = wid)
          (RBT.entries (raw_windows raw))))"

fun emit_transient_tree :: "nat \<Rightarrow> raw_state \<Rightarrow> policy_state \<Rightarrow> u32 \<Rightarrow> u32 list option" where
  "emit_transient_tree 0 raw policy wid = None"
| "emit_transient_tree (Suc fuel) raw policy wid =
     (case tree_children raw policy wid of
        None \<Rightarrow> None
      | Some children \<Rightarrow>
          map_option (\<lambda>below. wid # below)
            (concat_option (emit_transient_tree fuel raw policy) (sort_ids raw children)))"

definition not_fullscreen_at :: "policy_state \<Rightarrow> u32 \<Rightarrow> bool option" where
  "not_fullscreen_at policy wid =
     map_option (\<lambda>s. ws_applied_state s \<noteq> AS_Fullscreen) (RBT.lookup (ps_windows policy) wid)"

definition stable_partition :: "('a \<Rightarrow> bool option) \<Rightarrow> 'a list \<Rightarrow> 'a list option" where
  "stable_partition p xs =
     (case filter_option p xs of
        None \<Rightarrow> None
      | Some front \<Rightarrow> map_option (\<lambda>back. front @ back) (filter_option (\<lambda>x. map_option Not (p x)) xs))"

definition managed_root_ids :: "raw_state \<Rightarrow> u32 list" where
  "managed_root_ids raw =
     map fst (filter (\<lambda>(wid, w). \<not> rw_override_redirect w \<and> rw_transient_for w = 0)
       (RBT.entries (raw_windows raw)))"

definition override_ids :: "raw_state \<Rightarrow> u32 list" where
  "override_ids raw = map fst (filter (\<lambda>(wid, w). rw_override_redirect w) (RBT.entries (raw_windows raw)))"

text \<open>
  The recursion of \<open>emit_transient_tree\<close> is at most as deep as there are windows, so one unit
  of fuel per window and one more is enough.
\<close>

definition stacking_list :: "raw_state \<Rightarrow> policy_state \<Rightarrow> u32 list option" where
  "stacking_list raw policy = do {
     managed_roots \<leftarrow> apply_restack raw (sort_ids raw (managed_root_ids raw));
     overrides \<leftarrow> apply_restack raw (sort_ids raw (override_ids raw));
     managed_roots \<leftarrow> stable_partition (not_fullscreen_at policy) managed_roots;
     managed_roots \<leftarrow> filter_option (visible_at policy) managed_roots;
     overrides \<leftarrow> filter_option (visible_at policy) overrides;
     trees \<leftarrow> concat_option (emit_transient_tree (Suc (map_size (raw_windows raw))) raw policy) managed_roots;
     Some (trees @ overrides)
   }"

definition apply_stacking_and_transient_ordering ::
  "raw_state \<Rightarrow> policy_state \<Rightarrow> policy_state option" where
  "apply_stacking_and_transient_ordering raw policy = do {
     stacking \<leftarrow> stacking_list raw policy;
     windows \<leftarrow> fold_option (\<lambda>index. at_update (stacking ! index)
                    (\<lambda>s. s\<lparr>ws_stacking := i32_of (int index)\<rparr>))
                  [0..<length stacking] (ps_windows policy);
     Some (policy\<lparr>ps_windows := windows,
        ps_output_order := stacking @
          map fst (filter (\<lambda>(wid, s). \<not> ws_visible s) (RBT.entries windows))\<rparr>)
   }"

section \<open>Option-valued list operations\<close>

lemma filter_option_Some:
  "\<forall>x \<in> set xs. p x \<noteq> None \<Longrightarrow> filter_option p xs = Some (filter (\<lambda>x. p x = Some True) xs)"
  by (induction xs) auto

lemma concat_option_Some:
  "\<forall>x \<in> set xs. f x \<noteq> None \<Longrightarrow> concat_option f xs = Some (concat (map (the \<circ> f) xs))"
  by (induction xs) auto

lemma distinct_concat_map:
  assumes "distinct xs" "\<forall>x \<in> set xs. distinct (g x)"
    "\<forall>x \<in> set xs. \<forall>y \<in> set xs. x \<noteq> y \<longrightarrow> set (g x) \<inter> set (g y) = {}"
  shows "distinct (concat (map g xs))"
  using assms by (induction xs) auto

text \<open>\<open>a\<close> stands before \<open>b\<close> in a list.\<close>

definition precedes :: "'a list \<Rightarrow> 'a \<Rightarrow> 'a \<Rightarrow> bool" where
  "precedes xs a b \<longleftrightarrow> (\<exists>as bs. xs = as @ b # bs \<and> a \<in> set as)"

lemma precedes_append: "precedes xs a b \<Longrightarrow> precedes (ys @ xs @ zs) a b"
  unfolding precedes_def by (metis Un_iff append.assoc append_Cons set_append)

lemma precedes_split: "a \<in> set xs \<Longrightarrow> b \<in> set ys \<Longrightarrow> precedes (xs @ ys) a b"
  unfolding precedes_def by (metis Un_iff append.assoc set_append split_list)

lemma precedes_concat: "x \<in> set xs \<Longrightarrow> precedes (g x) a b \<Longrightarrow> precedes (concat (map g xs)) a b"
  using precedes_append [of "g x" a b] by (auto simp: in_set_conv_decomp)

lemma precedes_Cons: "precedes xs a b \<Longrightarrow> precedes (x # xs) a b"
  using precedes_append [of xs a b "[x]" "[]"] by simp

section \<open>Transient chains end\<close>

lemma chain_length_0 [simp]: "chain_length windows 0 = Some 0"
  by (simp add: chain_length.simps)

lemma no_cycle_chain:
  assumes "\<not> transient_cycle_from windows visited current"
    and "\<forall>k w. RBT.lookup windows k = Some w \<longrightarrow> rw_transient_for w \<noteq> 0 \<longrightarrow>
           (\<exists>t. RBT.lookup windows (rw_transient_for w) = Some t)"
    and "current \<noteq> 0 \<Longrightarrow> \<exists>w. RBT.lookup windows current = Some w"
    and "set visited \<subseteq> dom (RBT.lookup windows)" "distinct visited"
  shows "\<exists>n. chain_length windows current = Some n \<and> n + length visited \<le> map_size windows"
  using assms
proof (induction windows visited current rule: transient_cycle_from.induct)
  case (1 windows visited current)
  show ?case
  proof (cases "current = 0")
    case True
    have "length visited \<le> map_size windows"
      using "1.prems"(4,5) by (metis card_mono distinct_card finite_dom_lookup map_size_card)
    with True show ?thesis by simp
  next
    case False
    then obtain w where w: "RBT.lookup windows current = Some w" using "1.prems"(3) by blast
    from False w "1.prems"(1) have "current \<notin> set visited"
      and next_ok: "\<not> transient_cycle_from windows (current # visited) (rw_transient_for w)"
      by (auto simp: transient_cycle_from.simps [of windows visited current] split: if_splits)
    moreover from w "1.prems"(4) have "set (current # visited) \<subseteq> dom (RBT.lookup windows)" by auto
    ultimately obtain n where "chain_length windows (rw_transient_for w) = Some n"
      "n + length (current # visited) \<le> map_size windows"
      using "1.IH" [OF False _ w next_ok "1.prems"(2)] "1.prems"(2,5) w by auto
    with False w show ?thesis by (simp add: chain_length.simps [of windows current])
  qed
qed

lemma accepted_chain:
  assumes "validate raw = EE_None" "RBT.lookup (raw_windows raw) k = Some w"
  obtains n where "chain_length (raw_windows raw) (rw_transient_for w) = Some n"
    "chain_length (raw_windows raw) k = Some (Suc n)" "Suc n \<le> map_size (raw_windows raw)"
proof -
  from assms have "\<not> transient_cycle_from (raw_windows raw) [] k"
    using accepted_no_cycle by (simp add: transient_cycle_def)
  then obtain m where m: "chain_length (raw_windows raw) k = Some m" "m \<le> map_size (raw_windows raw)"
    using no_cycle_chain [of "raw_windows raw" "[]" k] assms accepted_parent [OF assms(1)]
    by (metis add_0_right distinct.simps(1) empty_subsetI list.set(1) list.size(3))
  moreover have "k \<noteq> 0" using assms accepted_nonzero by blast
  ultimately show ?thesis
    using assms(2) that by (auto simp: chain_length.simps [of "raw_windows raw" k] bind_eq_Some_conv)
qed

abbreviation chain :: "raw_state \<Rightarrow> u32 \<Rightarrow> nat" where
  "chain raw k \<equiv> the (chain_length (raw_windows raw) k)"

lemma chain_child:
  assumes "validate raw = EE_None" "RBT.lookup (raw_windows raw) k = Some w"
  shows "chain raw k = Suc (chain raw (rw_transient_for w))" "chain raw k \<le> map_size (raw_windows raw)"
    and "transient_depth raw k = Some (chain raw (rw_transient_for w))"
proof -
  obtain n where "chain_length (raw_windows raw) (rw_transient_for w) = Some n"
    "chain_length (raw_windows raw) k = Some (Suc n)" "Suc n \<le> map_size (raw_windows raw)"
    using assms by (rule accepted_chain)
  with assms(2) show "chain raw k = Suc (chain raw (rw_transient_for w))"
    "chain raw k \<le> map_size (raw_windows raw)"
    "transient_depth raw k = Some (chain raw (rw_transient_for w))"
    by (simp_all add: transient_depth_def)
qed

section \<open>Parent-first order\<close>

text \<open>A managed transient window.\<close>

definition managed_transient :: "raw_state \<Rightarrow> u32 \<Rightarrow> bool" where
  "managed_transient raw k \<longleftrightarrow>
     (\<exists>w. RBT.lookup (raw_windows raw) k = Some w \<and> \<not> rw_override_redirect w \<and> rw_transient_for w \<noteq> 0)"

lemma transient_parent_first_order:
  assumes ok: "validate raw = EE_None"
  obtains order where "transient_parent_first raw = Some order"
    "set order = {k. managed_transient raw k}" "distinct order"
    "\<And>done k rest w. order = done @ k # rest \<Longrightarrow> RBT.lookup (raw_windows raw) k = Some w \<Longrightarrow>
       managed_transient raw (rw_transient_for w) \<Longrightarrow> rw_transient_for w \<in> set done"
proof -
  let ?ids = "map fst (filter (\<lambda>(wid, w). \<not> rw_override_redirect w \<and> rw_transient_for w \<noteq> 0)
                (RBT.entries (raw_windows raw)))"
  let ?key = "\<lambda>wid. (transient_depth raw wid, wid)"
  let ?order = "sort_key ?key ?ids"
  have ids: "set ?ids = {k. managed_transient raw k}"
    by (force simp: managed_transient_def map_simps)
  have "distinct ?ids"
    using keys_distinct_entries by (rule distinct_map_filter)
  have "\<not> list_ex (\<lambda>wid. transient_depth raw wid = None) ?ids"
    using chain_child(3) [OF ok] unfolding list_ex_iff ids by (auto simp: managed_transient_def)
  then have "transient_parent_first raw = Some ?order"
    by (simp add: transient_parent_first_def Let_def)
  moreover have "rw_transient_for w \<in> set done"
    if d: "?order = done @ k # rest" and w: "RBT.lookup (raw_windows raw) k = Some w"
      and p: "managed_transient raw (rw_transient_for w)" for "done" k rest w
  proof -
    from p obtain v where v: "RBT.lookup (raw_windows raw) (rw_transient_for w) = Some v"
      by (auto simp: managed_transient_def)
    have less: "?key (rw_transient_for w) < ?key k"
      using chain_child(1,3) [OF ok w] chain_child(1,3) [OF ok v] by (simp add: less_prod_def)
    have "rw_transient_for w \<in> set ?order" using p ids by simp
    moreover have "\<forall>y \<in> set (k # rest). ?key k \<le> ?key y"
      using sorted_sort_key [of ?key ?ids] unfolding d by (auto simp: sorted_append)
    ultimately show ?thesis using less unfolding d by fastforce
  qed
  ultimately show ?thesis using that [of ?order] ids \<open>distinct ?ids\<close> by simp
qed

lemma transient_parent_distinct:
  assumes "validate raw = EE_None" "RBT.lookup (raw_windows raw) k = Some w"
  shows "rw_transient_for w \<noteq> k"
  using chain_child(1) [OF assms] by auto

text \<open>When a transient is reached, none of the windows already passed is a transient for it.\<close>

lemma parent_first_no_child:
  assumes ok: "validate raw = EE_None" and order: "transient_parent_first raw = Some order"
    and split: "order = done @ k # rest"
    and k': "k' \<in> set done" "RBT.lookup (raw_windows raw) k' = Some w'"
  shows "rw_transient_for w' \<noteq> k"
proof
  assume c: "rw_transient_for w' = k"
  from ok order have o: "set order = {k. managed_transient raw k}" "distinct order"
    and first: "\<And>done k rest w. order = done @ k # rest \<Longrightarrow> RBT.lookup (raw_windows raw) k = Some w \<Longrightarrow>
       managed_transient raw (rw_transient_for w) \<Longrightarrow> rw_transient_for w \<in> set done"
    by (auto elim!: transient_parent_first_order)
  from k'(1) obtain as bs where "done = as @ k' # bs" by (auto simp: in_set_conv_decomp)
  with first [of as k' "bs @ k # rest" w'] k'(2) c split o show False by auto
qed

section \<open>Restacking permutes the band\<close>

lemma insert_at_sibling_mset:
  "sibling \<in> set xs \<Longrightarrow> \<exists>ys. insert_at_sibling after sibling wid xs = Some ys \<and>
     mset ys = add_mset wid (mset xs)"
  by (induction xs) auto

lemma restack_step_mset:
  assumes "RBT.lookup (raw_windows raw) wid = Some w" "wid \<in> set band"
    and "rw_stack_sibling w \<noteq> 0 \<Longrightarrow> rw_stack_sibling w \<in> set band \<and> rw_stack_sibling w \<noteq> wid"
  shows "\<exists>band'. restack_step raw wid band = Some band' \<and> mset band' = mset band"
proof (cases "rw_stack_sibling w = 0")
  case True
  with assms show ?thesis by (auto simp: restack_step_def Let_def)
next
  case False
  with assms(3) have "rw_stack_sibling w \<in> set (remove1 wid band)" by simp
  from insert_at_sibling_mset [OF this, of "rw_stack_mode w = SM_Above" wid] assms(1,2) False
  show ?thesis by (auto simp: restack_step_def Let_def)
qed

lemma apply_restack_mset:
  assumes "\<And>wid. wid \<in> set band \<Longrightarrow>
             \<exists>w. RBT.lookup (raw_windows raw) wid = Some w \<and>
               (rw_stack_serial w \<noteq> 0 \<longrightarrow> rw_stack_sibling w \<noteq> 0 \<longrightarrow>
                  rw_stack_sibling w \<in> set band \<and> rw_stack_sibling w \<noteq> wid)"
  shows "\<exists>band'. apply_restack raw band = Some band' \<and> mset band' = mset band"
  unfolding apply_restack_def
proof (rule fold_option_keeps [where P = "\<lambda>b. mset b = mset band"])
  fix wid b
  assume "wid \<in> set (restack_operations raw band)" and b: "mset b = mset band"
  then have wid: "wid \<in> set band" and "\<And>w. RBT.lookup (raw_windows raw) wid = Some w \<Longrightarrow> rw_stack_serial w \<noteq> 0"
    by (auto simp: restack_operations_def split: option.splits)
  with assms [OF wid] obtain w where w: "RBT.lookup (raw_windows raw) wid = Some w"
    "rw_stack_sibling w \<noteq> 0 \<Longrightarrow> rw_stack_sibling w \<in> set band \<and> rw_stack_sibling w \<noteq> wid"
    by blast
  moreover have "set b = set band" using b by (rule mset_eq_setD)
  ultimately obtain b' where "restack_step raw wid b = Some b'" "mset b' = mset b"
    using restack_step_mset [of raw wid w b] wid by auto
  with b show "\<exists>b'. restack_step raw wid b = Some b' \<and> mset b' = mset band" by simp
qed simp

lemma set_managed_root_ids:
  "k \<in> set (managed_root_ids raw) \<longleftrightarrow>
     (\<exists>w. RBT.lookup (raw_windows raw) k = Some w \<and> \<not> rw_override_redirect w \<and> rw_transient_for w = 0)"
  by (force simp: managed_root_ids_def map_simps)

lemma set_override_ids:
  "k \<in> set (override_ids raw) \<longleftrightarrow>
     (\<exists>w. RBT.lookup (raw_windows raw) k = Some w \<and> rw_override_redirect w)"
  by (force simp: override_ids_def map_simps)

lemma distinct_band_ids: "distinct (managed_root_ids raw)" "distinct (override_ids raw)"
  unfolding managed_root_ids_def override_ids_def
  using keys_distinct_entries by (auto intro: distinct_map_filter)

lemma accepted_sibling:
  assumes "validate raw = EE_None" "RBT.lookup (raw_windows raw) k = Some w"
    "rw_stack_serial w \<noteq> 0" "rw_stack_sibling w \<noteq> 0"
  shows "\<exists>s. RBT.lookup (raw_windows raw) (rw_stack_sibling w) = Some s \<and> rw_transient_for s = 0 \<and>
           rw_override_redirect s = rw_override_redirect w"
    and "rw_stack_sibling w \<noteq> k" "rw_transient_for w = 0"
proof -
  from accepted_window [OF assms(1,2)] obtain ss where
    v: "validate_window raw w ss = EE_None" and k: "rw_window_id w = k" by blast
  show "\<exists>s. RBT.lookup (raw_windows raw) (rw_stack_sibling w) = Some s \<and> rw_transient_for s = 0 \<and>
          rw_override_redirect s = rw_override_redirect w"
    using valid_windowD(11) [OF v] assms(3,4) by blast
  show "rw_stack_sibling w \<noteq> k" using valid_windowD(12) [OF v] k by simp
  show "rw_transient_for w = 0" using valid_windowD(10) [OF v] assms(3) by simp
qed

lemma apply_restack_bands:
  assumes "validate raw = EE_None"
  shows "\<exists>b. apply_restack raw (sort_ids raw (managed_root_ids raw)) = Some b \<and>
             mset b = mset (managed_root_ids raw)"
    and "\<exists>b. apply_restack raw (sort_ids raw (override_ids raw)) = Some b \<and>
             mset b = mset (override_ids raw)"
proof -
  have "\<exists>w. RBT.lookup (raw_windows raw) k = Some w \<and>
          (rw_stack_serial w \<noteq> 0 \<longrightarrow> rw_stack_sibling w \<noteq> 0 \<longrightarrow>
             rw_stack_sibling w \<in> set (sort_ids raw (managed_root_ids raw)) \<and> rw_stack_sibling w \<noteq> k)"
    if "k \<in> set (sort_ids raw (managed_root_ids raw))" for k
    using that accepted_sibling [OF assms] by (fastforce simp: sort_ids_def set_managed_root_ids)
  from apply_restack_mset [OF this]
  show "\<exists>b. apply_restack raw (sort_ids raw (managed_root_ids raw)) = Some b \<and>
          mset b = mset (managed_root_ids raw)" by (simp add: sort_ids_def)
  have "\<exists>w. RBT.lookup (raw_windows raw) k = Some w \<and>
          (rw_stack_serial w \<noteq> 0 \<longrightarrow> rw_stack_sibling w \<noteq> 0 \<longrightarrow>
             rw_stack_sibling w \<in> set (sort_ids raw (override_ids raw)) \<and> rw_stack_sibling w \<noteq> k)"
    if "k \<in> set (sort_ids raw (override_ids raw))" for k
    using that accepted_sibling [OF assms] by (fastforce simp: sort_ids_def set_override_ids)
  from apply_restack_mset [OF this]
  show "\<exists>b. apply_restack raw (sort_ids raw (override_ids raw)) = Some b \<and>
          mset b = mset (override_ids raw)" by (simp add: sort_ids_def)
qed

section \<open>Transient trees\<close>

text \<open>The policy has a state for exactly the windows of the raw state.\<close>

definition same_keys :: "raw_state \<Rightarrow> policy_state \<Rightarrow> bool" where
  "same_keys raw policy \<longleftrightarrow> dom (RBT.lookup (ps_windows policy)) = dom (RBT.lookup (raw_windows raw))"

abbreviation visible_in :: "policy_state \<Rightarrow> u32 \<Rightarrow> bool" where
  "visible_in policy k \<equiv> visible_at policy k = Some True"

text \<open>The visible managed children of a window, and the windows of its tree.\<close>

definition tree_child :: "raw_state \<Rightarrow> policy_state \<Rightarrow> u32 \<Rightarrow> u32 \<Rightarrow> bool" where
  "tree_child raw policy p c \<longleftrightarrow>
     (\<exists>w. RBT.lookup (raw_windows raw) c = Some w \<and> \<not> rw_override_redirect w \<and> rw_transient_for w = p) \<and>
     visible_in policy c"

inductive tree_member :: "raw_state \<Rightarrow> policy_state \<Rightarrow> u32 \<Rightarrow> u32 \<Rightarrow> bool"
  for raw policy r where
  root: "tree_member raw policy r r"
| child: "tree_member raw policy r p \<Longrightarrow> tree_child raw policy p c \<Longrightarrow> tree_member raw policy r c"

lemma visible_at_defined:
  "same_keys raw policy \<Longrightarrow> RBT.lookup (raw_windows raw) k = Some w \<Longrightarrow> visible_at policy k \<noteq> None"
  by (auto simp: same_keys_def visible_at_def)

lemma same_keysD:
  "same_keys raw policy \<Longrightarrow> RBT.lookup (raw_windows raw) k = Some w \<Longrightarrow>
     \<exists>s. RBT.lookup (ps_windows policy) k = Some s"
  unfolding same_keys_def by (metis domD domI)

lemma tree_children_spec:
  assumes "same_keys raw policy"
  shows "\<exists>cs. tree_children raw policy p = Some cs \<and> distinct cs \<and> set cs = {c. tree_child raw policy p c}"
proof -
  let ?ids = "map fst (filter (\<lambda>(c, w). \<not> rw_override_redirect w \<and> rw_transient_for w = p)
                (RBT.entries (raw_windows raw)))"
  have ids: "set ?ids = {c. \<exists>w. RBT.lookup (raw_windows raw) c = Some w \<and>
               \<not> rw_override_redirect w \<and> rw_transient_for w = p}"
    by (force simp: map_simps)
  then have "\<forall>c \<in> set ?ids. visible_at policy c \<noteq> None"
    using visible_at_defined [OF assms] by auto
  then have "tree_children raw policy p = Some (filter (\<lambda>c. visible_in policy c) ?ids)"
    unfolding tree_children_def by (rule filter_option_Some)
  moreover have "distinct ?ids" using keys_distinct_entries by (rule distinct_map_filter)
  ultimately show ?thesis using ids by (auto simp: tree_child_def)
qed

lemma tree_child_chain:
  assumes "validate raw = EE_None" "tree_child raw policy p c"
  shows "chain raw c = Suc (chain raw p)" "chain raw c \<le> map_size (raw_windows raw)"
  using assms chain_child [OF assms(1), of c] by (auto simp: tree_child_def)

lemma tree_member_chain:
  assumes "tree_member raw policy r x" "validate raw = EE_None"
  shows "x = r \<or> chain raw r < chain raw x"
  using assms by (induction rule: tree_member.induct) (auto dest: tree_child_chain(1))

lemma tree_child_unique: "tree_child raw policy p c \<Longrightarrow> tree_child raw policy p' c \<Longrightarrow> p = p'"
  by (auto simp: tree_child_def)

lemma tree_member_unique:
  assumes "tree_member raw policy a x" "tree_member raw policy b x"
    and "validate raw = EE_None" "chain raw a = chain raw b"
  shows "a = b"
  using assms
proof (induction rule: tree_member.induct)
  case root
  then show ?case using tree_member_chain [of raw policy b a] by auto
next
  case (child p c)
  have "chain raw a < chain raw c"
    using tree_member_chain [of raw policy a c] tree_member_chain [of raw policy a p] child
      tree_child_chain(1) [of raw policy p c] by auto
  with child.prems(3) have "c \<noteq> b" by auto
  with child.prems(1) obtain p' where "tree_member raw policy b p'" "tree_child raw policy p' c"
    by (auto elim: tree_member.cases)
  with child tree_child_unique show ?case by metis
qed

lemma tree_member_top:
  "tree_member raw policy r x \<longleftrightarrow> x = r \<or> (\<exists>c. tree_child raw policy r c \<and> tree_member raw policy c x)"
proof
  assume "tree_member raw policy r x"
  then show "x = r \<or> (\<exists>c. tree_child raw policy r c \<and> tree_member raw policy c x)"
    by (induction rule: tree_member.induct) (blast intro: tree_member.intros)+
next
  have "tree_member raw policy r x" if "tree_member raw policy c x" "tree_child raw policy r c" for c
    using that by (induction rule: tree_member.induct) (blast intro: tree_member.intros)+
  moreover assume "x = r \<or> (\<exists>c. tree_child raw policy r c \<and> tree_member raw policy c x)"
  ultimately show "tree_member raw policy r x" by (blast intro: tree_member.root)
qed

text \<open>
  With fuel for the part of the chain below it, emitting a window gives its tree: every
  member exactly once, every parent before its children.
\<close>

lemma emit_transient_tree_spec:
  assumes "validate raw = EE_None" "same_keys raw policy"
    and "RBT.lookup (raw_windows raw) r = Some w" "map_size (raw_windows raw) < fuel + chain raw r"
  shows "\<exists>xs. emit_transient_tree fuel raw policy r = Some xs \<and> distinct xs \<and>
           set xs = {x. tree_member raw policy r x} \<and>
           (\<forall>p c. p \<in> set xs \<longrightarrow> tree_child raw policy p c \<longrightarrow> precedes xs p c)"
    (is "\<exists>xs. _ \<and> ?tree r xs")
  using assms(3,4)
proof (induction fuel arbitrary: r w)
  case 0
  with chain_child(2) [OF assms(1)] show ?case by fastforce
next
  case (Suc fuel)
  obtain cs where cs: "tree_children raw policy r = Some cs" "distinct cs"
    "set cs = {c. tree_child raw policy r c}" using tree_children_spec [OF assms(2)] by blast
  define emit where "emit = the \<circ> emit_transient_tree fuel raw policy"
  have sub: "emit_transient_tree fuel raw policy c = Some (emit c) \<and> ?tree c (emit c)"
    if c: "c \<in> set cs" for c
  proof -
    have "tree_child raw policy r c" using c cs(3) by simp
    then obtain v where "RBT.lookup (raw_windows raw) c = Some v" by (auto simp: tree_child_def)
    moreover have "map_size (raw_windows raw) < fuel + chain raw c"
      using tree_child_chain [OF assms(1) \<open>tree_child raw policy r c\<close>] Suc.prems(2) by simp
    ultimately show ?thesis using Suc.IH by (fastforce simp: emit_def)
  qed
  let ?cs = "sort_ids raw cs"
  have set_cs: "set ?cs = set cs" "distinct ?cs" using cs(2) by (simp_all add: sort_ids_def)
  let ?xs = "r # concat (map emit ?cs)"
  have "concat_option (emit_transient_tree fuel raw policy) ?cs = Some (concat (map emit ?cs))"
    unfolding emit_def using sub by (intro concat_option_Some) (simp add: set_cs)
  then have emit_r: "emit_transient_tree (Suc fuel) raw policy r = Some ?xs" using cs(1) by simp
  have members: "set ?xs = {x. tree_member raw policy r x}"
    using sub cs(3) set_cs tree_member_top [of raw policy r] by auto
  have "r \<notin> set (concat (map emit ?cs))"
  proof
    assume "r \<in> set (concat (map emit ?cs))"
    then obtain c where "c \<in> set cs" "tree_member raw policy c r" using sub set_cs by auto
    with tree_member_chain [OF _ assms(1), of policy c r] cs(3) tree_child_chain(1) [OF assms(1)]
    show False by fastforce
  qed
  moreover have conc: "distinct (concat (map emit ?cs))"
  proof (rule distinct_concat_map)
    show "\<forall>c \<in> set ?cs. \<forall>d \<in> set ?cs. c \<noteq> d \<longrightarrow> set (emit c) \<inter> set (emit d) = {}"
      using sub set_cs cs(3) tree_child_chain(1) [OF assms(1)] tree_member_unique [OF _ _ assms(1)]
      by fastforce
  qed (use sub set_cs in simp_all)
  moreover have order: "precedes ?xs p c" if "p \<in> set ?xs" "tree_child raw policy p c" for p c
  proof (cases "p = r")
    case True
    have "c \<in> set (concat (map emit ?cs))"
      using that True members tree_member.child [of raw policy r p c] \<open>r \<notin> _\<close> cs(3) sub set_cs
        tree_member.root by fastforce
    with True show ?thesis using precedes_split [of r "[r]" c] by simp
  next
    case False
    with that(1) obtain d where d: "d \<in> set ?cs" "p \<in> set (emit d)" by auto
    with sub [of d] that(2) set_cs have "precedes (emit d) p c" by blast
    then show ?thesis by (intro precedes_Cons precedes_concat [OF d(1)])
  qed
  ultimately have "distinct ?xs" by simp
  with emit_r members order show ?case by blast
qed

section \<open>The stacking order\<close>

text \<open>Visibility is inherited: a visible managed transient has a visible parent.\<close>

definition visibility_closed :: "raw_state \<Rightarrow> policy_state \<Rightarrow> bool" where
  "visibility_closed raw policy \<longleftrightarrow>
     (\<forall>k w. RBT.lookup (raw_windows raw) k = Some w \<longrightarrow> \<not> rw_override_redirect w \<longrightarrow>
        rw_transient_for w \<noteq> 0 \<longrightarrow> visible_in policy k \<longrightarrow> visible_in policy (rw_transient_for w))"

definition visible_managed :: "raw_state \<Rightarrow> policy_state \<Rightarrow> u32 set" where
  "visible_managed raw policy = {k. visible_in policy k \<and>
     (\<exists>w. RBT.lookup (raw_windows raw) k = Some w \<and> \<not> rw_override_redirect w)}"

definition visible_overrides :: "raw_state \<Rightarrow> policy_state \<Rightarrow> u32 set" where
  "visible_overrides raw policy = {k. visible_in policy k \<and>
     (\<exists>w. RBT.lookup (raw_windows raw) k = Some w \<and> rw_override_redirect w)}"

definition visible_root :: "raw_state \<Rightarrow> policy_state \<Rightarrow> u32 \<Rightarrow> bool" where
  "visible_root raw policy k \<longleftrightarrow> k \<in> set (managed_root_ids raw) \<and> visible_in policy k"

lemma visible_managed_tree:
  assumes "validate raw = EE_None" "visibility_closed raw policy"
  shows "visible_managed raw policy = {x. \<exists>r. visible_root raw policy r \<and> tree_member raw policy r x}"
proof (intro equalityI subsetI)
  fix x
  assume "x \<in> {x. \<exists>r. visible_root raw policy r \<and> tree_member raw policy r x}"
  then obtain r where "tree_member raw policy r x" "visible_root raw policy r" by blast
  then show "x \<in> visible_managed raw policy"
    by (induction rule: tree_member.induct)
       (auto simp: visible_managed_def visible_root_def set_managed_root_ids tree_child_def)
next
  fix x
  assume "x \<in> visible_managed raw policy"
  then have "\<exists>r. visible_root raw policy r \<and> tree_member raw policy r x"
  proof (induction "chain raw x" arbitrary: x rule: less_induct)
    case less
    then obtain w where w: "RBT.lookup (raw_windows raw) x = Some w" "\<not> rw_override_redirect w"
      "visible_in policy x" by (auto simp: visible_managed_def)
    show ?case
    proof (cases "rw_transient_for w = 0")
      case True
      with w have "visible_root raw policy x" by (auto simp: visible_root_def set_managed_root_ids)
      then show ?thesis using tree_member.root by blast
    next
      case False
      then obtain t where "RBT.lookup (raw_windows raw) (rw_transient_for w) = Some t" "\<not> rw_override_redirect t"
        using accepted_parent [OF assms(1) w(1)] by blast
      with assms(2) w False have "rw_transient_for w \<in> visible_managed raw policy"
        by (auto simp: visible_managed_def visibility_closed_def)
      moreover have "chain raw (rw_transient_for w) < chain raw x"
        using chain_child(1) [OF assms(1) w(1)] by simp
      ultimately obtain r where r: "visible_root raw policy r" "tree_member raw policy r (rw_transient_for w)"
        using less by blast
      have "tree_child raw policy (rw_transient_for w) x" using w by (auto simp: tree_child_def)
      with r show ?thesis using tree_member.child by blast
    qed
  qed
  then show "x \<in> {x. \<exists>r. visible_root raw policy r \<and> tree_member raw policy r x}" by blast
qed

lemma root_chain:
  assumes "validate raw = EE_None" "k \<in> set (managed_root_ids raw)"
  shows "chain raw k = 1"
  using assms chain_child(1) [OF assms(1), of k] by (auto simp: set_managed_root_ids)

text \<open>
  What the stacking order promises: the visible managed windows in their trees, bottom to
  top, then the visible override-redirect windows; each window once; a transient above its
  parent; a fullscreen root above every root that is not.
\<close>

definition stacking_spec :: "raw_state \<Rightarrow> policy_state \<Rightarrow> u32 list \<Rightarrow> u32 list \<Rightarrow> bool" where
  "stacking_spec raw policy trees overs \<longleftrightarrow>
     distinct trees \<and> distinct overs \<and>
     set trees = visible_managed raw policy \<and> set overs = visible_overrides raw policy \<and>
     (\<forall>p c. p \<in> set trees \<longrightarrow> tree_child raw policy p c \<longrightarrow> precedes trees p c) \<and>
     (\<forall>a b. visible_root raw policy a \<longrightarrow> visible_root raw policy b \<longrightarrow>
        not_fullscreen_at policy a = Some True \<longrightarrow> not_fullscreen_at policy b \<noteq> Some True \<longrightarrow>
        precedes trees a b)"

lemma stacking_list_spec:
  assumes ok: "validate raw = EE_None" and keys: "same_keys raw policy"
    and closed: "visibility_closed raw policy"
  obtains trees overs where "stacking_list raw policy = Some (trees @ overs)"
    "stacking_spec raw policy trees overs"
proof -
  obtain roots where roots: "apply_restack raw (sort_ids raw (managed_root_ids raw)) = Some roots"
    "mset roots = mset (managed_root_ids raw)" using apply_restack_bands(1) [OF ok] by blast
  obtain overs where overs: "apply_restack raw (sort_ids raw (override_ids raw)) = Some overs"
    "mset overs = mset (override_ids raw)" using apply_restack_bands(2) [OF ok] by blast
  have sets: "set roots = set (managed_root_ids raw)" "set overs = set (override_ids raw)"
    "distinct roots" "distinct overs"
    using roots(2) overs(2) distinct_band_ids [of raw] mset_eq_setD mset_eq_imp_distinct_iff by metis+
  have defined: "\<forall>k \<in> set roots \<union> set overs. visible_at policy k \<noteq> None \<and> not_fullscreen_at policy k \<noteq> None"
    using keys unfolding sets
    by (fastforce simp: set_managed_root_ids set_override_ids visible_at_def not_fullscreen_at_def
        dest: same_keysD)
  let ?nf = "\<lambda>k. not_fullscreen_at policy k = Some True"
  let ?roots = "filter (visible_in policy) (filter ?nf roots @ filter (\<lambda>k. \<not> ?nf k) roots)"
  have "(\<lambda>k. map_option Not (not_fullscreen_at policy k) = Some True) k = (\<not> ?nf k)"
    if "k \<in> set roots" for k
  proof -
    from defined that have "not_fullscreen_at policy k \<noteq> None" by blast
    then show ?thesis by (cases "not_fullscreen_at policy k") auto
  qed
  then have "filter (\<lambda>k. map_option Not (not_fullscreen_at policy k) = Some True) roots
              = filter (\<lambda>k. \<not> ?nf k) roots" by (intro filter_cong) auto
  then have part: "stable_partition (not_fullscreen_at policy) roots
               = Some (filter ?nf roots @ filter (\<lambda>k. \<not> ?nf k) roots)"
    using defined by (simp add: stable_partition_def filter_option_Some)
  have vis: "filter_option (visible_at policy) (filter ?nf roots @ filter (\<lambda>k. \<not> ?nf k) roots) = Some ?roots"
    "filter_option (visible_at policy) overs = Some (filter (visible_in policy) overs)"
    using defined by (intro filter_option_Some; auto)+
  define emit where "emit = the \<circ> emit_transient_tree (Suc (map_size (raw_windows raw))) raw policy"
  have roots_eq: "set ?roots = {r. visible_root raw policy r}"
    using sets by (auto simp: visible_root_def)
  have emit: "emit_transient_tree (Suc (map_size (raw_windows raw))) raw policy r = Some (emit r) \<and>
      distinct (emit r) \<and> set (emit r) = {x. tree_member raw policy r x} \<and>
      (\<forall>p c. p \<in> set (emit r) \<longrightarrow> tree_child raw policy p c \<longrightarrow> precedes (emit r) p c)"
    if "r \<in> set ?roots" for r
  proof -
    from that obtain w where w: "RBT.lookup (raw_windows raw) r = Some w"
      unfolding roots_eq by (auto simp: visible_root_def set_managed_root_ids)
    have "map_size (raw_windows raw) < Suc (map_size (raw_windows raw)) + chain raw r" by simp
    from emit_transient_tree_spec [OF ok keys w this] show ?thesis unfolding emit_def by fastforce
  qed
  let ?trees = "concat (map emit ?roots)"
  have trees: "concat_option (emit_transient_tree (Suc (map_size (raw_windows raw))) raw policy) ?roots
                = Some ?trees"
    unfolding emit_def using emit by (intro concat_option_Some) blast
  have result: "stacking_list raw policy = Some (?trees @ filter (visible_in policy) overs)"
    unfolding stacking_list_def using roots(1) overs(1) part vis trees by simp
  have dist: "distinct ?trees"
  proof (rule distinct_concat_map)
    show "distinct ?roots" using sets(3) by auto
    have "a = b" if "visible_root raw policy a" "visible_root raw policy b"
      "tree_member raw policy a x" "tree_member raw policy b x" for a b x
      using that tree_member_unique [OF that(3,4) ok] root_chain [OF ok] by (simp add: visible_root_def)
    with emit show "\<forall>a \<in> set ?roots. \<forall>b \<in> set ?roots. a \<noteq> b \<longrightarrow> set (emit a) \<inter> set (emit b) = {}"
      unfolding roots_eq by blast
  qed (use emit in blast)
  have set_trees: "set ?trees = visible_managed raw policy"
    using emit roots_eq unfolding visible_managed_tree [OF ok closed] by auto
  have set_overs: "set (filter (visible_in policy) overs) = visible_overrides raw policy"
    using sets(2) by (auto simp: visible_overrides_def set_override_ids)
  have parents: "precedes ?trees p c" if "p \<in> set ?trees" "tree_child raw policy p c" for p c
  proof -
    from that(1) obtain r where "r \<in> set ?roots" "p \<in> set (emit r)" by auto
    with emit that(2) show ?thesis by (intro precedes_concat [of r]) blast+
  qed
  have fullscreen: "precedes ?trees a b"
    if "visible_root raw policy a" "visible_root raw policy b" "?nf a" "\<not> ?nf b" for a b
  proof -
    have a: "a \<in> set (filter (visible_in policy) (filter ?nf roots))"
      and b: "b \<in> set (filter (visible_in policy) (filter (\<lambda>k. \<not> ?nf k) roots))"
      using that sets(1) by (auto simp: visible_root_def)
    have "a \<in> set (emit a)" "b \<in> set (emit b)"
      using emit [of a] emit [of b] a b tree_member.root by (auto simp del: filter_filter)
    with a b have "a \<in> set (concat (map emit (filter (visible_in policy) (filter ?nf roots))))"
      "b \<in> set (concat (map emit (filter (visible_in policy) (filter (\<lambda>k. \<not> ?nf k) roots))))" by auto
    then show ?thesis by (simp add: precedes_split del: filter_filter)
  qed
  have dist': "distinct (filter (visible_in policy) overs)" using sets(4) by simp
  have "stacking_spec raw policy ?trees (filter (visible_in policy) overs)"
    unfolding stacking_spec_def
    by (intro conjI allI impI;
        (rule dist dist' set_trees set_overs | (rule parents; assumption) | (rule fullscreen; assumption)))
  with result show ?thesis by (rule that)
qed

lemma fold_at_update_indices:
  assumes "distinct ks" "set ks \<subseteq> dom (RBT.lookup m)"
  shows "\<exists>m'. fold_option (\<lambda>i. at_update (ks ! i) (f i)) [0..<length ks] m = Some m' \<and>
           (\<forall>i < length ks. RBT.lookup m' (ks ! i) = map_option (f i) (RBT.lookup m (ks ! i))) \<and>
           (\<forall>k. k \<notin> set ks \<longrightarrow> RBT.lookup m' k = RBT.lookup m k)"
proof -
  let ?P = "\<lambda>done m'. \<forall>k. RBT.lookup m' k =
      (if k \<in> set (take (length done) ks)
       then map_option (f (LEAST i. ks ! i = k)) (RBT.lookup m k) else RBT.lookup m k)"
  have least: "(LEAST i. ks ! i = ks ! j) = j" if "j < length ks" for j
    using that assms(1) by (intro Least_equality) (auto simp: nth_eq_iff_index_eq not_less[symmetric])
  have "\<exists>m'. fold_option (\<lambda>i. at_update (ks ! i) (f i)) [0..<length ks] m = Some m' \<and> ?P [0..<length ks] m'"
  proof (rule fold_option_invariant)
    fix "done" i rest m'
    assume split: "[0..<length ks] = done @ i # rest" and P: "?P done m'"
    from split have "[0..<length ks] ! length done = i" by simp
    moreover have "length done < length ks" using arg_cong [OF split, of length] by simp
    ultimately have i: "i = length done" "i < length ks" by simp_all
    from i assms(1) have fresh: "ks ! i \<notin> set (take i ks)"
      by (auto simp: in_set_conv_nth nth_eq_iff_index_eq)
    obtain v where v: "RBT.lookup m (ks ! i) = Some v" using assms(2) nth_mem [OF i(2)] by blast
    with P fresh i have "RBT.lookup m' (ks ! i) = Some v" by simp
    then have "at_update (ks ! i) (f i) m' = Some (RBT.insert (ks ! i) (f i v) m')"
      by (simp add: map_simps)
    moreover have "?P (done @ [i]) (RBT.insert (ks ! i) (f i v) m')"
      using P v fresh i least [OF i(2)] by (auto simp: take_Suc_conv_app_nth)
    ultimately show "\<exists>m''. at_update (ks ! i) (f i) m' = Some m'' \<and> ?P (done @ [i]) m''" by blast
  qed simp
  then obtain m' where "fold_option (\<lambda>i. at_update (ks ! i) (f i)) [0..<length ks] m = Some m'"
    "?P [0..<length ks] m'" by blast
  then show ?thesis using least by (intro exI [of _ m']) auto
qed

text \<open>
  The result of the ordering pass: an order of all windows with the visible ones first, and
  each visible window's stacking number is its position.
\<close>

lemma apply_stacking_spec:
  assumes ok: "validate raw = EE_None" and keys: "same_keys raw policy"
    and closed: "visibility_closed raw policy"
  obtains trees overs hidden windows where
    "apply_stacking_and_transient_ordering raw policy =
       Some (policy\<lparr>ps_windows := windows, ps_output_order := (trees @ overs) @ hidden\<rparr>)"
    "stacking_spec raw policy trees overs"
    "distinct ((trees @ overs) @ hidden)"
    "set hidden = {k. visible_at policy k = Some False}"
    "\<forall>i < length (trees @ overs). RBT.lookup windows ((trees @ overs) ! i) =
       map_option (\<lambda>s. s\<lparr>ws_stacking := i32_of (int i)\<rparr>) (RBT.lookup (ps_windows policy) ((trees @ overs) ! i))"
    "\<forall>k. k \<notin> set (trees @ overs) \<longrightarrow> RBT.lookup windows k = RBT.lookup (ps_windows policy) k"
proof -
  obtain trees overs where st: "stacking_list raw policy = Some (trees @ overs)"
    and spec: "stacking_spec raw policy trees overs"
    using assms by (rule stacking_list_spec)
  let ?st = "trees @ overs"
  have sets: "set trees = visible_managed raw policy" "set overs = visible_overrides raw policy"
    "distinct trees" "distinct overs" using spec by (simp_all add: stacking_spec_def)
  have visible: "\<forall>k \<in> set ?st. visible_in policy k"
    by (auto simp: sets visible_managed_def visible_overrides_def)
  have d: "distinct ?st"
    using sets(3,4) by (auto simp: sets(1,2) visible_managed_def visible_overrides_def)
  have "set ?st \<subseteq> dom (RBT.lookup (ps_windows policy))"
    using visible by (fastforce simp: visible_at_def)
  from fold_at_update_indices [OF d this, of "\<lambda>i s. s\<lparr>ws_stacking := i32_of (int i)\<rparr>"]
  obtain windows where w: "fold_option (\<lambda>i. at_update (?st ! i) (\<lambda>s. s\<lparr>ws_stacking := i32_of (int i)\<rparr>))
      [0..<length ?st] (ps_windows policy) = Some windows"
    "\<forall>i < length ?st. RBT.lookup windows (?st ! i) =
       map_option (\<lambda>s. s\<lparr>ws_stacking := i32_of (int i)\<rparr>) (RBT.lookup (ps_windows policy) (?st ! i))"
    "\<forall>k. k \<notin> set ?st \<longrightarrow> RBT.lookup windows k = RBT.lookup (ps_windows policy) k" by blast
  let ?hidden = "map fst (filter (\<lambda>(wid, s). \<not> ws_visible s) (RBT.entries windows))"
  have vis: "map_option ws_visible (RBT.lookup windows k) = visible_at policy k" for k
  proof (cases "k \<in> set ?st")
    case True
    then obtain i where "i < length ?st" "?st ! i = k" unfolding in_set_conv_nth by blast
    with w(2) show ?thesis by (auto simp: visible_at_def option.map_comp comp_def)
  next
    case False
    with w(3) show ?thesis by (simp add: visible_at_def)
  qed
  have hidden: "set ?hidden = {k. visible_at policy k = Some False}"
    by (force simp: map_simps simp flip: vis)
  moreover have "distinct ?hidden" using keys_distinct_entries by (rule distinct_map_filter)
  ultimately have "distinct (?st @ ?hidden)" using d visible by fastforce
  moreover have "apply_stacking_and_transient_ordering raw policy =
      Some (policy\<lparr>ps_windows := windows, ps_output_order := ?st @ ?hidden\<rparr>)"
    using st w(1) by (simp add: apply_stacking_and_transient_ordering_def)
  ultimately show ?thesis using that [OF _ spec _ hidden w(2,3)] by blast
qed

section \<open>Properties\<close>

text \<open>
  The parent-first order of an accepted state lists every managed transient once, and each of
  them after the transient it is transient for.
\<close>

lemma transient_parent_first_correct:
  assumes "validate raw = EE_None"
  shows "\<exists>order. transient_parent_first raw = Some order \<and> distinct order \<and>
     set order = {k. managed_transient raw k} \<and>
     (\<forall>done k rest w. order = done @ k # rest \<longrightarrow> RBT.lookup (raw_windows raw) k = Some w \<longrightarrow>
        managed_transient raw (rw_transient_for w) \<longrightarrow> rw_transient_for w \<in> set done)"
proof (rule transient_parent_first_order [OF assms])
  fix order
  assume "transient_parent_first raw = Some order" "set order = {k. managed_transient raw k}" "distinct order"
    and "\<And>done k rest w. order = done @ k # rest \<Longrightarrow> RBT.lookup (raw_windows raw) k = Some w \<Longrightarrow>
       managed_transient raw (rw_transient_for w) \<Longrightarrow> rw_transient_for w \<in> set done"
  then show ?thesis by (intro exI [of _ order]) blast
qed

end
