(* ===== verification/Wm_Placement.thy ===== *)
theory Wm_Placement
  imports Wm_Ordering
begin

text \<open>
  Placement of windows. \<open>wm/policy_geometry.cpp\<close> places every window in the single work area of
  the context; \<open>wm/multi_output_*.cpp\<close> assigns every window to an enabled output and places it
  there (theory \<open>Wm_Multi_Output\<close>). Both fill the window states of an empty policy from the raw windows, roots first and
  transients after their parents.
\<close>

section \<open>What both placements share\<close>

definition applied_state_of :: "raw_window \<Rightarrow> applied_state" where
  "applied_state_of raw =
     (if rw_override_redirect raw then AS_Normal
      else if rw_minimized_requested raw then AS_Minimized
      else if rw_fullscreen_requested raw then AS_Fullscreen
      else if rw_maximized_requested raw then AS_Maximized
      else AS_Normal)"

definition decoration :: "raw_window \<Rightarrow> applied_state \<Rightarrow> bool" where
  "decoration raw state =
     (if rw_override_redirect raw \<or> state = AS_Fullscreen then False
      else if rw_decoration_preference raw = DP_False then False
      else if rw_window_type raw = WT_Utility \<or> rw_window_type raw = WT_Unknown
      then rw_decoration_preference raw = DP_True
      else True)"

definition requested_geometry :: "raw_window \<Rightarrow> wm_rectangle" where
  "requested_geometry window =
     \<lparr>rect_x = rw_requested_x window, rect_y = rw_requested_y window,
      rect_width = rw_requested_width window, rect_height = rw_requested_height window\<rparr>"

definition clamp_coordinate :: "int \<Rightarrow> i32 \<Rightarrow> int \<Rightarrow> i32" where
  "clamp_coordinate value low high = i32_of (clamp value (sint low) high)"

section \<open>Placement in one work area\<close>

definition cascade_windows :: "raw_state \<Rightarrow> raw_window list" where
  "cascade_windows raw =
     filter (\<lambda>w. \<not> rw_override_redirect w \<and> rw_transient_for w = 0 \<and> rw_wants_map w \<and>
                 \<not> rw_fullscreen_requested w \<and> \<not> rw_maximized_requested w \<and>
                 (rw_window_type w = WT_Normal \<or> rw_window_type w = WT_Utility \<or>
                  rw_window_type w = WT_Unknown))
       (map snd (RBT.entries (raw_windows raw)))"

definition cascade_slots :: "raw_state \<Rightarrow> (u32 \<times> nat) list" where
  "cascade_slots raw =
     (let cascade = sort_key (\<lambda>w. (rw_creation_serial w, rw_window_id w)) (cascade_windows raw)
      in zip (map rw_window_id cascade) [0..<length cascade])"

definition cascade_offset :: "nat \<Rightarrow> u32 \<Rightarrow> i32" where
  "cascade_offset slot span =
     (if span = 0 then i32_of 0 else i32_of (int ((slot * 32) mod (unat span + 1))))"

definition place_root ::
  "raw_state \<Rightarrow> raw_window \<Rightarrow> (u32 \<times> nat) list \<Rightarrow> window_state \<Rightarrow> window_state" where
  "place_root raw window slots state =
     (let context = raw_context raw in
      if rw_override_redirect window then
        state\<lparr>ws_final_x := rw_requested_x window, ws_final_y := rw_requested_y window\<rparr>
      else if ws_applied_state state = AS_Fullscreen \<or> ws_applied_state state = AS_Maximized then
        state\<lparr>ws_final_x := work_x context, ws_final_y := work_y context,
              ws_final_width := work_width context, ws_final_height := work_height context\<rparr>
      else if rw_transient_for window = 0 \<and> rw_geometry_serial window \<noteq> 0 then
        (let maximum_x = sint (work_x context) + uint (work_width context) - uint (ws_final_width state);
             maximum_y = sint (work_y context) + uint (work_height context) - uint (ws_final_height state)
         in state\<lparr>ws_final_x := clamp_coordinate (sint (rw_requested_x window)) (work_x context) maximum_x,
                  ws_final_y := clamp_coordinate (sint (rw_requested_y window)) (work_y context) maximum_y\<rparr>)
      else if rw_transient_for window = 0 then
        (let slot = (case map_of slots (rw_window_id window) of Some s \<Rightarrow> s | None \<Rightarrow> 0);
             x_span = work_width context - ws_final_width state;
             y_span = work_height context - ws_final_height state
         in state\<lparr>ws_final_x := work_x context + cascade_offset slot x_span,
                  ws_final_y := work_y context + cascade_offset slot y_span\<rparr>)
      else state)"

text \<open>Centred on the parent with the truncating division of C++, then kept in the work area.\<close>

definition centered :: "i32 \<Rightarrow> u32 \<Rightarrow> u32 \<Rightarrow> int" where
  "centered parent_origin parent_extent extent =
     sint parent_origin + (uint parent_extent - uint extent) sdiv 2"

definition place_transient ::
  "raw_state \<Rightarrow> u32 \<Rightarrow> (u32, window_state) RBT.rbt \<Rightarrow> (u32, window_state) RBT.rbt option" where
  "place_transient raw wid windows = do {
     raw_window \<leftarrow> RBT.lookup (raw_windows raw) wid;
     state \<leftarrow> RBT.lookup windows wid;
     parent \<leftarrow> RBT.lookup windows (rw_transient_for raw_window);
     let context = raw_context raw;
     let centered_x = centered (ws_final_x parent) (ws_final_width parent) (ws_final_width state);
     let centered_y = centered (ws_final_y parent) (ws_final_height parent) (ws_final_height state);
     Some (RBT.insert wid (state\<lparr>
        ws_final_x := clamp_coordinate centered_x (work_x context)
          (sint (work_x context) + uint (work_width context) - uint (ws_final_width state)),
        ws_final_y := clamp_coordinate centered_y (work_y context)
          (sint (work_y context) + uint (work_height context) - uint (ws_final_height state))\<rparr>) windows)
   }"

definition initial_state :: "raw_state \<Rightarrow> (u32 \<times> nat) list \<Rightarrow> u32 \<Rightarrow> raw_window \<Rightarrow> window_state" where
  "initial_state raw slots wid window =
     (let state = default_window_state\<lparr>
            ws_window_id := wid,
            ws_transient_for := rw_transient_for window,
            ws_workspace_id := context_workspace_id (raw_context raw),
            ws_window_type := rw_window_type window,
            ws_applied_state := applied_state_of window,
            ws_managed := \<not> rw_override_redirect window,
            ws_override_redirect := rw_override_redirect window,
            ws_attention_requested := rw_attention_requested window,
            ws_final_width := (if rw_override_redirect window then rw_requested_width window
                               else min (rw_requested_width window) (work_width (raw_context raw))),
            ws_final_height := (if rw_override_redirect window then rw_requested_height window
                                else min (rw_requested_height window) (work_height (raw_context raw)))\<rparr>;
          state = place_root raw window slots state
      in state\<lparr>ws_decoration_eligible := decoration window (ws_applied_state state)\<rparr>)"

definition apply_placement_and_fullscreen_geometry ::
  "raw_state \<Rightarrow> policy_state \<Rightarrow> policy_state option" where
  "apply_placement_and_fullscreen_geometry raw policy = do {
     let slots = cascade_slots raw;
     let windows = fold (\<lambda>(wid, window). map_emplace wid (initial_state raw slots wid window))
                     (RBT.entries (raw_windows raw)) (ps_windows policy);
     order \<leftarrow> transient_parent_first raw;
     windows \<leftarrow> fold_option (place_transient raw) order windows;
     Some (policy\<lparr>ps_windows := windows\<rparr>)
   }"

definition assign_outputs :: "raw_state \<Rightarrow> policy_state \<Rightarrow> policy_state" where
  "assign_outputs raw policy =
     policy\<lparr>ps_windows := RBT.map (\<lambda>_ s. s\<lparr>ws_output_id := context_output_id (raw_context raw)\<rparr>)
                            (ps_windows policy)\<rparr>"

section \<open>Arithmetic of the placements\<close>

text \<open>Clamping into an interval of coordinates.\<close>

lemma clamp_coordinate_between:
  assumes "sint low \<le> high" "high \<le> int32_max"
  shows "sint low \<le> sint (clamp_coordinate v low high)" "sint (clamp_coordinate v low high) \<le> high"
proof -
  have c: "sint low \<le> clamp v (sint low) high \<and> clamp v (sint low) high \<le> high"
    using assms(1) by (rule clamp_between)
  then have "sint (clamp_coordinate v low high) = clamp v (sint low) high"
    unfolding clamp_coordinate_def using assms sint32_range [of low] by (intro sint_i32_of) linarith+
  with c show "sint low \<le> sint (clamp_coordinate v low high)"
    "sint (clamp_coordinate v low high) \<le> high" by simp_all
qed

text \<open>A cascade offset stays within its span, so that adding it to the origin cannot overflow.\<close>

lemma cascade_offset_between:
  assumes "uint span \<le> int32_max"
  shows "0 \<le> sint (cascade_offset slot span)" "sint (cascade_offset slot span) \<le> uint span"
proof -
  have "int ((slot * 32) mod (unat span + 1)) \<le> uint span"
  proof -
    have "(slot * 32) mod (unat span + 1) < unat span + 1" by simp
    then have "(slot * 32) mod (unat span + 1) \<le> unat span" by linarith
    then show ?thesis by (metis of_nat_mono uint_nat)
  qed
  then have "sint (cascade_offset slot span) = (if span = 0 then 0 else int ((slot * 32) mod (unat span + 1)))"
    using assms unfolding cascade_offset_def by (auto intro!: sint_i32_of)
  with \<open>int _ \<le> uint span\<close> show "0 \<le> sint (cascade_offset slot span)"
    "sint (cascade_offset slot span) \<le> uint span"
    using uint32_range(1) [of span] by auto
qed

lemma cascade_origin_between:
  assumes "extent_fits origin extent" "width \<le> extent" "uint extent \<le> int32_max" "width \<noteq> 0"
  shows "sint origin \<le> sint (origin + cascade_offset slot (extent - width))"
    and "sint (origin + cascade_offset slot (extent - width)) + uint width \<le> sint origin + uint extent"
proof -
  have span: "uint (extent - width) = uint extent - uint width"
    using assms(2) by (simp add: uint_sub_lem [THEN iffD1] word_le_def)
  have w: "0 < uint width" using assms(4) by (simp add: uint_pos_iff32)
  note o = cascade_offset_between [of "extent - width" slot]
  have "sint (origin + cascade_offset slot (extent - width))
          = sint origin + sint (cascade_offset slot (extent - width))"
    using o span w assms(1,3) sint32_range(1) [of origin]
    by (intro sint_add_no_overflow) (auto simp: extent_fits_def)
  with o span w assms(3) show
    "sint origin \<le> sint (origin + cascade_offset slot (extent - width))"
    "sint (origin + cascade_offset slot (extent - width)) + uint width \<le> sint origin + uint extent"
    by auto
qed

section \<open>The contract of a placement\<close>

text \<open>The fields a placement takes over from the raw window, and those it leaves alone.\<close>

definition placed_state :: "raw_state \<Rightarrow> u32 \<Rightarrow> raw_window \<Rightarrow> window_state \<Rightarrow> bool" where
  "placed_state raw wid w s \<longleftrightarrow>
     ws_window_id s = wid \<and> ws_transient_for s = rw_transient_for w \<and>
     ws_workspace_id s = context_workspace_id (raw_context raw) \<and>
     ws_window_type s = rw_window_type w \<and> ws_applied_state s = applied_state_of w \<and>
     ws_managed s = (\<not> rw_override_redirect w) \<and> ws_override_redirect s = rw_override_redirect w \<and>
     ws_attention_requested s = rw_attention_requested w \<and>
     ws_decoration_eligible s = decoration w (applied_state_of w) \<and>
     \<not> ws_visible s \<and> \<not> ws_focused s \<and> ws_stacking s = -1"

definition window_rect :: "window_state \<Rightarrow> wm_rectangle" where
  "window_rect s = \<lparr>rect_x = ws_final_x s, rect_y = ws_final_y s,
     rect_width = ws_final_width s, rect_height = ws_final_height s\<rparr>"

lemma window_rect_updates [simp]:
  "window_rect (s\<lparr>ws_output_id := u\<rparr>) = window_rect s" "window_rect (s\<lparr>ws_visible := b\<rparr>) = window_rect s"
  "window_rect (s\<lparr>ws_focused := b\<rparr>) = window_rect s" "window_rect (s\<lparr>ws_stacking := i\<rparr>) = window_rect s"
  "window_rect (s\<lparr>ws_fullscreen_eligible := t\<rparr>) = window_rect s"
  "window_rect (s\<lparr>ws_direct_scanout_eligible := t\<rparr>) = window_rect s"
  by (simp_all add: window_rect_def)

abbreviation same_geometry :: "window_state \<Rightarrow> window_state \<Rightarrow> bool" where
  "same_geometry s s' \<equiv> window_rect s' = window_rect s \<and> ws_output_id s' = ws_output_id s"

text \<open>
  Every raw window has a placed state for which \<open>good\<close> holds. The placements establish it
  first for the roots and then, in parent-first order, for the transients.
\<close>

definition placed :: "raw_state \<Rightarrow> (u32 \<Rightarrow> raw_window \<Rightarrow> window_state \<Rightarrow> bool) \<Rightarrow>
    (u32, window_state) RBT.rbt \<Rightarrow> bool" where
  "placed raw good windows \<longleftrightarrow>
     dom (RBT.lookup windows) = dom (RBT.lookup (raw_windows raw)) \<and>
     (\<forall>k w s. RBT.lookup (raw_windows raw) k = Some w \<longrightarrow> RBT.lookup windows k = Some s \<longrightarrow>
        placed_state raw k w s \<and> good k w s)"

lemma placedD:
  assumes "placed raw good windows" "RBT.lookup (raw_windows raw) k = Some w"
  obtains s where "RBT.lookup windows k = Some s" "placed_state raw k w s" "good k w s"
proof -
  have "k \<in> dom (RBT.lookup windows)" using assms unfolding placed_def by blast
  then obtain s where "RBT.lookup windows k = Some s" by blast
  with assms that show ?thesis unfolding placed_def by blast
qed

lemma placed_keys: "placed raw good (ps_windows policy) \<Longrightarrow> same_keys raw policy"
  by (simp add: placed_def same_keys_def)

lemma placed_weaken:
  assumes "placed raw good windows"
    and "\<And>k w s. RBT.lookup (raw_windows raw) k = Some w \<Longrightarrow> good k w s \<Longrightarrow> good' k w s"
  shows "placed raw good' windows"
  using assms unfolding placed_def by blast

lemma placed_insert:
  assumes "placed raw good windows" "RBT.lookup (raw_windows raw) k = Some w"
    "placed_state raw k w s" "good' k w s"
    "\<And>k' w s. RBT.lookup (raw_windows raw) k' = Some w \<Longrightarrow> k' \<noteq> k \<Longrightarrow> good k' w s \<Longrightarrow> good' k' w s"
  shows "placed raw good' (RBT.insert k s windows)"
proof -
  have "dom (RBT.lookup (RBT.insert k s windows)) = dom (RBT.lookup (raw_windows raw))"
    using assms(1,2) by (auto simp: placed_def)
  moreover have "placed_state raw k' w' s' \<and> good' k' w' s'"
    if "RBT.lookup (raw_windows raw) k' = Some w'" "RBT.lookup (RBT.insert k s windows) k' = Some s'"
    for k' w' s'
    using that assms unfolding placed_def by (cases "k' = k") auto
  ultimately show ?thesis unfolding placed_def by blast
qed

lemma placed_start:
  assumes "\<And>k. RBT.lookup windows k = map_option (f k) (RBT.lookup (raw_windows raw) k)"
    and "\<And>k w. RBT.lookup (raw_windows raw) k = Some w \<Longrightarrow> placed_state raw k w (f k w) \<and> good k w (f k w)"
  shows "placed raw good windows"
  using assms by (auto simp: placed_def dom_def)

text \<open>A managed transient is on the output of the window it is transient for.\<close>

definition transients_follow :: "raw_state \<Rightarrow> u32 set \<Rightarrow> (u32, window_state) RBT.rbt \<Rightarrow> bool" where
  "transients_follow raw ks windows \<longleftrightarrow>
     (\<forall>k \<in> ks. \<forall>w s p. RBT.lookup (raw_windows raw) k = Some w \<longrightarrow> RBT.lookup windows k = Some s \<longrightarrow>
        RBT.lookup windows (rw_transient_for w) = Some p \<longrightarrow> ws_output_id s = ws_output_id p)"

abbreviation all_follow :: "raw_state \<Rightarrow> (u32, window_state) RBT.rbt \<Rightarrow> bool" where
  "all_follow raw \<equiv> transients_follow raw {k. managed_transient raw k}"

text \<open>
  A placement: on an accepted state it applies to, and from a policy without windows, it
  returns a policy that places every window and satisfies the placement's own geometric
  guarantee, with the transients on the output of their parents; it only touches the windows
  and the outputs of the policy. The guarantee is about geometry alone, so that later steps,
  which leave the geometry as it is, cannot break it.
\<close>

locale placement =
  fixes place :: "raw_state \<Rightarrow> policy_state \<Rightarrow> policy_state option"
    and applies :: "raw_state \<Rightarrow> bool"
    and good :: "raw_state \<Rightarrow> raw_window \<Rightarrow> window_state \<Rightarrow> bool"
  assumes place_windows: "validate raw = EE_None \<Longrightarrow> applies raw \<Longrightarrow> ps_windows policy = RBT.empty \<Longrightarrow>
      \<exists>policy'. place raw policy = Some policy' \<and> placed raw (\<lambda>_. good raw) (ps_windows policy') \<and>
        all_follow raw (ps_windows policy') \<and>
        ps_generation policy' = ps_generation policy \<and> ps_context policy' = ps_context policy"
    and good_frame: "good raw w s \<Longrightarrow> same_geometry s s' \<Longrightarrow> good raw w s'"

section \<open>One work area: every managed window lies inside it\<close>

definition work_area :: "raw_state \<Rightarrow> wm_rectangle" where
  "work_area raw = \<lparr>rect_x = work_x (raw_context raw), rect_y = work_y (raw_context raw),
     rect_width = work_width (raw_context raw), rect_height = work_height (raw_context raw)\<rparr>"

definition single_good :: "raw_state \<Rightarrow> raw_window \<Rightarrow> window_state \<Rightarrow> bool" where
  "single_good raw w s \<longleftrightarrow>
     (if rw_override_redirect w then window_rect s = requested_geometry w
      else rect_contains (work_area raw) (window_rect s) \<and> \<not> rect_empty (window_rect s) \<and>
           (applied_state_of w \<in> {AS_Fullscreen, AS_Maximized} \<longrightarrow> window_rect s = work_area raw))"

text \<open>The extent a window has before its origin is chosen.\<close>

definition extent_good :: "raw_state \<Rightarrow> raw_window \<Rightarrow> window_state \<Rightarrow> bool" where
  "extent_good raw w s \<longleftrightarrow>
     ws_final_width s \<noteq> 0 \<and> ws_final_height s \<noteq> 0 \<and>
     ws_final_width s \<le> work_width (raw_context raw) \<and> ws_final_height s \<le> work_height (raw_context raw) \<and>
     (applied_state_of w \<in> {AS_Fullscreen, AS_Maximized} \<longrightarrow>
        ws_final_width s = work_width (raw_context raw) \<and> ws_final_height s = work_height (raw_context raw))"

definition root_good :: "raw_state \<Rightarrow> u32 list \<Rightarrow> u32 \<Rightarrow> raw_window \<Rightarrow> window_state \<Rightarrow> bool" where
  "root_good raw done k w s \<longleftrightarrow>
     (\<not> rw_override_redirect w \<longrightarrow> extent_good raw w s) \<and>
     (\<not> managed_transient raw k \<or> k \<in> set done \<longrightarrow> single_good raw w s)"

lemma accepted_work:
  assumes "validate raw = EE_None"
  shows "extent_fits (work_x (raw_context raw)) (work_width (raw_context raw))"
    "extent_fits (work_y (raw_context raw)) (work_height (raw_context raw))"
    "work_width (raw_context raw) \<noteq> 0" "work_height (raw_context raw) \<noteq> 0"
    "uint (work_width (raw_context raw)) \<le> int32_max" "uint (work_height (raw_context raw)) \<le> int32_max"
  using validate_cases(4-9) [OF assms] by (simp_all add: maximum_root_extent_def)

lemma accepted_extents:
  assumes "validate raw = EE_None" "RBT.lookup (raw_windows raw) k = Some w"
  shows "rw_requested_width w \<noteq> 0" "rw_requested_height w \<noteq> 0"
    "uint (rw_requested_width w) \<le> 16384" "uint (rw_requested_height w) \<le> 16384"
  using accepted_window(2) [OF assms] valid_windowD(2-5)
  by (fastforce simp: maximum_window_extent_def)+

text \<open>A window of good extent whose origin is clamped into the work area is well placed.\<close>

lemma clamped_origin:
  fixes c :: int and origin :: i32 and extent width :: u32
  assumes "extent_fits origin extent" "width \<le> extent" "width \<noteq> 0"
  defines "v \<equiv> sint (clamp_coordinate c origin (sint origin + uint extent - uint width))"
  shows "sint origin \<le> v" "v + uint width \<le> sint origin + uint extent"
    and "width = extent \<Longrightarrow> clamp_coordinate c origin (sint origin + uint extent - uint width) = origin"
proof -
  have le: "sint origin \<le> sint origin + uint extent - uint width"
    and fit: "sint origin + uint extent - uint width \<le> int32_max"
    using assms(1-3) uint_pos_iff32 [of width] by (auto simp: extent_fits_def word_le_def)
  note c = clamp_coordinate_between [OF le fit, of c]
  show "sint origin \<le> v" "v + uint width \<le> sint origin + uint extent"
    using c unfolding v_def by linarith+
  show "clamp_coordinate c origin (sint origin + uint extent - uint width) = origin"
    if "width = extent" using c that by (intro signed_word_eqI) simp
qed

lemma initial_state_placed: "placed_state raw k w (initial_state raw slots k w)"
  by (simp add: placed_state_def initial_state_def place_root_def default_window_state_def Let_def)

lemma initial_state_extent:
  assumes "validate raw = EE_None" "RBT.lookup (raw_windows raw) k = Some w" "\<not> rw_override_redirect w"
  shows "extent_good raw w (initial_state raw slots k w)"
  using accepted_extents [OF assms(1,2)] accepted_work [OF assms(1)] assms(3)
  by (auto simp: extent_good_def initial_state_def place_root_def default_window_state_def Let_def min_def)

lemma initial_state_good:
  assumes ok: "validate raw = EE_None" and w: "RBT.lookup (raw_windows raw) k = Some w"
    and root: "\<not> managed_transient raw k"
  shows "single_good raw w (initial_state raw slots k w)"
proof (cases "rw_override_redirect w")
  case True
  then show ?thesis
    by (simp add: single_good_def initial_state_def place_root_def default_window_state_def Let_def
        window_rect_def requested_geometry_def)
next
  case managed: False
  then have tf: "rw_transient_for w = 0" using root w by (auto simp: managed_transient_def)
  note ext = initial_state_extent [OF ok w managed, of slots]
  note work = accepted_work [OF ok]
  show ?thesis
  proof (cases "applied_state_of w \<in> {AS_Fullscreen, AS_Maximized}")
    case True
    then have "window_rect (initial_state raw slots k w) = work_area raw"
      using managed by (auto simp: initial_state_def place_root_def default_window_state_def Let_def
          window_rect_def work_area_def)
    with managed work show ?thesis
      by (simp add: single_good_def rect_contains_def rect_empty_def work_area_def)
  next
    case False
    let ?s = "initial_state raw slots k w"
    have dims: "ws_final_width ?s = min (rw_requested_width w) (work_width (raw_context raw))"
      "ws_final_height ?s = min (rw_requested_height w) (work_height (raw_context raw))"
      using managed False
      by (auto simp: initial_state_def place_root_def default_window_state_def Let_def)
    have e: "ws_final_width ?s \<noteq> 0" "ws_final_height ?s \<noteq> 0"
      "ws_final_width ?s \<le> work_width (raw_context raw)" "ws_final_height ?s \<le> work_height (raw_context raw)"
      using ext by (auto simp: extent_good_def)
    have "rect_contains (work_area raw) (window_rect ?s)"
    proof (cases "rw_geometry_serial w = 0")
      case True
      define slot where "slot = (case map_of slots (rw_window_id w) of Some s \<Rightarrow> s | None \<Rightarrow> 0)"
      have "ws_final_x ?s = work_x (raw_context raw) + cascade_offset slot (work_width (raw_context raw) - ws_final_width ?s)"
        "ws_final_y ?s = work_y (raw_context raw) + cascade_offset slot (work_height (raw_context raw) - ws_final_height ?s)"
        using managed False tf True
        by (auto simp: initial_state_def place_root_def default_window_state_def Let_def slot_def)
      then show ?thesis
        using cascade_origin_between [OF work(1) e(3) work(5) e(1), of slot]
          cascade_origin_between [OF work(2) e(4) work(6) e(2), of slot]
        by (simp add: rect_contains_def work_area_def window_rect_def)
    next
      case moved: False
      have "ws_final_x ?s = clamp_coordinate (sint (rw_requested_x w)) (work_x (raw_context raw))
          (sint (work_x (raw_context raw)) + uint (work_width (raw_context raw)) - uint (ws_final_width ?s))"
        "ws_final_y ?s = clamp_coordinate (sint (rw_requested_y w)) (work_y (raw_context raw))
          (sint (work_y (raw_context raw)) + uint (work_height (raw_context raw)) - uint (ws_final_height ?s))"
        using managed False tf moved
        by (auto simp: initial_state_def place_root_def default_window_state_def Let_def)
      then show ?thesis
        using clamped_origin(1,2) [OF work(1) e(3,1)] clamped_origin(1,2) [OF work(2) e(4,2)]
        by (simp add: rect_contains_def work_area_def window_rect_def)
    qed
    then show ?thesis
      using managed False e by (simp add: single_good_def rect_empty_def window_rect_def)
  qed
qed

lemma place_transient_good:
  assumes ok: "validate raw = EE_None" and "managed_transient raw k"
    and P: "placed raw (root_good raw done) windows"
  shows "\<exists>windows'. place_transient raw k windows = Some windows' \<and>
           placed raw (root_good raw (done @ [k])) windows'"
proof -
  from assms(2) obtain w where w: "RBT.lookup (raw_windows raw) k = Some w" "\<not> rw_override_redirect w"
    "rw_transient_for w \<noteq> 0" by (auto simp: managed_transient_def)
  obtain t where t: "RBT.lookup (raw_windows raw) (rw_transient_for w) = Some t"
    using accepted_parent [OF ok w(1,3)] by blast
  obtain s where s: "RBT.lookup windows k = Some s" "placed_state raw k w s" "root_good raw done k w s"
    using P w(1) by (rule placedD)
  obtain p where p: "RBT.lookup windows (rw_transient_for w) = Some p" using P t by (rule placedD)
  have e: "extent_good raw w s" using s(3) w(2) by (simp add: root_good_def)
  note work = accepted_work [OF ok]
  define s' where "s' = s\<lparr>
     ws_final_x := clamp_coordinate (centered (ws_final_x p) (ws_final_width p) (ws_final_width s))
       (work_x (raw_context raw))
       (sint (work_x (raw_context raw)) + uint (work_width (raw_context raw)) - uint (ws_final_width s)),
     ws_final_y := clamp_coordinate (centered (ws_final_y p) (ws_final_height p) (ws_final_height s))
       (work_y (raw_context raw))
       (sint (work_y (raw_context raw)) + uint (work_height (raw_context raw)) - uint (ws_final_height s))\<rparr>"
  have step: "place_transient raw k windows = Some (RBT.insert k s' windows)"
    using w(1) s(1) p by (simp add: place_transient_def s'_def Let_def)
  have "single_good raw w s'"
    using e w(2) clamped_origin [OF work(1)] clamped_origin [OF work(2)]
    by (auto simp: extent_good_def single_good_def rect_contains_def rect_empty_def
        work_area_def window_rect_def s'_def)
  moreover have "extent_good raw w s'" using e by (simp add: extent_good_def s'_def)
  moreover have "placed_state raw k w s'" using s(2) by (simp add: placed_state_def s'_def)
  ultimately have "placed raw (root_good raw (done @ [k])) (RBT.insert k s' windows)"
    using w by (intro placed_insert [OF P w(1)]) (auto simp: root_good_def)
  with step show ?thesis by blast
qed

lemma apply_placement_places:
  assumes ok: "validate raw = EE_None" and "ps_windows policy = RBT.empty"
  shows "\<exists>windows. apply_placement_and_fullscreen_geometry raw policy = Some (policy\<lparr>ps_windows := windows\<rparr>) \<and>
           placed raw (\<lambda>_. single_good raw) windows"
proof -
  define start where "start = fold (\<lambda>(k, w). map_emplace k (initial_state raw (cascade_slots raw) k w))
    (RBT.entries (raw_windows raw)) (ps_windows policy)"
  have "RBT.lookup start k = map_option (initial_state raw (cascade_slots raw) k) (RBT.lookup (raw_windows raw) k)" for k
    unfolding start_def assms(2) by (rule lookup_fold_emplace_entries)
  then have start: "placed raw (root_good raw []) start"
    by (rule placed_start)
      (auto simp: root_good_def initial_state_placed intro: initial_state_extent [OF ok] initial_state_good [OF ok])
  obtain order where order: "transient_parent_first raw = Some order"
    "set order = {k. managed_transient raw k}" using ok by (rule transient_parent_first_order)
  have "\<exists>windows. fold_option (place_transient raw) order start = Some windows \<and>
          placed raw (root_good raw order) windows"
    using start order(2) by (intro fold_option_invariant) (auto intro!: place_transient_good [OF ok])
  then obtain windows where "fold_option (place_transient raw) order start = Some windows"
    and fin: "placed raw (root_good raw order) windows" by blast
  then have "apply_placement_and_fullscreen_geometry raw policy = Some (policy\<lparr>ps_windows := windows\<rparr>)"
    using order(1) by (simp add: apply_placement_and_fullscreen_geometry_def start_def Let_def)
  moreover have "placed raw (\<lambda>_. single_good raw) windows"
    using fin by (rule placed_weaken) (auto simp: root_good_def order(2))
  ultimately show ?thesis by blast
qed

definition single_output_placement :: "raw_state \<Rightarrow> policy_state \<Rightarrow> policy_state option" where
  "single_output_placement raw policy =
     map_option (assign_outputs raw) (apply_placement_and_fullscreen_geometry raw policy)"

text \<open>The guarantee of the single-output placement, with the output every window is put on.\<close>

definition single_guarantee :: "raw_state \<Rightarrow> raw_window \<Rightarrow> window_state \<Rightarrow> bool" where
  "single_guarantee raw w s \<longleftrightarrow>
     ws_output_id s = context_output_id (raw_context raw) \<and> single_good raw w s"

lemma assign_outputs_placed:
  assumes P: "placed raw (\<lambda>_. single_good raw) (ps_windows policy)"
  shows "placed raw (\<lambda>_. single_guarantee raw) (ps_windows (assign_outputs raw policy))"
    "all_follow raw (ps_windows (assign_outputs raw policy))"
proof -
  let ?set = "\<lambda>s. s\<lparr>ws_output_id := context_output_id (raw_context raw)\<rparr>"
  have l: "RBT.lookup (ps_windows (assign_outputs raw policy)) k
            = map_option ?set (RBT.lookup (ps_windows policy) k)" for k
    by (simp add: assign_outputs_def)
  have keep: "placed_state raw k w (?set s) \<and> single_guarantee raw w (?set s)"
    if "placed_state raw k w s" "single_good raw w s" for k w s
    using that by (simp add: placed_state_def single_guarantee_def single_good_def)
  have "dom (RBT.lookup (ps_windows (assign_outputs raw policy))) = dom (RBT.lookup (raw_windows raw))"
    using P by (simp add: placed_def l dom_def)
  moreover have "placed_state raw k w s \<and> single_guarantee raw w s"
    if "RBT.lookup (raw_windows raw) k = Some w"
      "RBT.lookup (ps_windows (assign_outputs raw policy)) k = Some s" for k w s
  proof -
    from that(2) obtain s0 where s0: "RBT.lookup (ps_windows policy) k = Some s0" "s = ?set s0"
      unfolding l by blast
    from P that(1) s0(1) have "placed_state raw k w s0" "single_good raw w s0"
      unfolding placed_def by blast+
    then show ?thesis unfolding s0(2) by (rule keep)
  qed
  ultimately show "placed raw (\<lambda>_. single_guarantee raw) (ps_windows (assign_outputs raw policy))"
    unfolding placed_def by blast
  show "all_follow raw (ps_windows (assign_outputs raw policy))"
    unfolding transients_follow_def l by auto
qed

interpretation single: placement single_output_placement "\<lambda>raw. raw_outputs raw = RBT.empty" single_guarantee
proof
  fix raw :: raw_state and policy :: policy_state
  assume "validate raw = EE_None" "ps_windows policy = RBT.empty"
  from apply_placement_places [OF this] obtain windows where
    "apply_placement_and_fullscreen_geometry raw policy = Some (policy\<lparr>ps_windows := windows\<rparr>)"
    and "placed raw (\<lambda>_. single_good raw) windows" by blast
  then show "\<exists>policy'. single_output_placement raw policy = Some policy' \<and>
      placed raw (\<lambda>_. single_guarantee raw) (ps_windows policy') \<and> all_follow raw (ps_windows policy') \<and>
      ps_generation policy' = ps_generation policy \<and> ps_context policy' = ps_context policy"
    using assign_outputs_placed [of raw "policy\<lparr>ps_windows := windows\<rparr>"]
    by (simp add: single_output_placement_def assign_outputs_def)
next
  fix raw w s s'
  assume "single_guarantee raw w s" "same_geometry s s'"
  then show "single_guarantee raw w s'" by (simp add: single_guarantee_def single_good_def)
qed

end
