(* ===== verification/Wm_Multi_Output.thy ===== *)
theory Wm_Multi_Output
  imports Wm_Placement
begin

text \<open>
  Placement on several outputs: \<open>wm/multi_output_assignment.cpp\<close> selects the output of a window
  and keeps a pixel of it visible, \<open>wm/multi_output_geometry.cpp\<close> places a window on an output,
  \<open>wm/multi_output_engine.cpp\<close> runs the assignment over the roots and then the transients. The
  placement is an instance of the same contract as the single-output one.
\<close>

section \<open>Selecting an output\<close>

record output_selection =
  sel_geometry :: wm_rectangle
  sel_inherited_output_id :: u64
  sel_previous_output_id :: u64
  sel_preferred_output_id :: u64
  sel_retain_previous :: bool

definition output_enabled :: "(u64, output_context) RBT.rbt \<Rightarrow> u64 \<Rightarrow> bool" where
  "output_enabled outputs oid = (case RBT.lookup outputs oid of None \<Rightarrow> False | Some out \<Rightarrow> oc_enabled out)"

definition intersection_area :: "wm_rectangle \<Rightarrow> wm_rectangle \<Rightarrow> u64" where
  "intersection_area left right =
     (let width = max 0 (min (right_edge left) (right_edge right)
                         - max (sint (rect_x left)) (sint (rect_x right)));
          height = max 0 (min (bottom_edge left) (bottom_edge right)
                         - max (sint (rect_y left)) (sint (rect_y right)))
      in u64_of width * u64_of height)"

definition intersects_any :: "(u64, output_context) RBT.rbt \<Rightarrow> wm_rectangle \<Rightarrow> bool" where
  "intersects_any outputs geometry =
     list_ex (\<lambda>(oid, out). oc_enabled out \<and> intersection_area (oc_logical out) geometry \<noteq> 0)
       (RBT.entries outputs)"

definition visible_coordinate :: "i32 \<Rightarrow> i32 \<Rightarrow> u32 \<Rightarrow> u32 \<Rightarrow> i32" where
  "visible_coordinate coordinate output_origin output_extent window_extent =
     (let low = sint output_origin - uint window_extent + 1;
          high = sint output_origin + uint output_extent - 1
      in i32_of (clamp (sint coordinate) low high))"

fun tied_outputs :: "wm_rectangle \<Rightarrow> (u64 \<times> output_context) list \<Rightarrow> u64 \<Rightarrow> u64 list \<Rightarrow> u64 list" where
  "tied_outputs geometry [] maximum_area tied = tied"
| "tied_outputs geometry ((oid, out) # rest) maximum_area tied =
     (if \<not> oc_enabled out then tied_outputs geometry rest maximum_area tied
      else let area = intersection_area geometry (oc_logical out);
               tied' = (if area > maximum_area then [] else tied);
               maximum_area' = (if area > maximum_area then area else maximum_area)
           in tied_outputs geometry rest maximum_area'
                (if area = maximum_area' then tied' @ [oid] else tied'))"

definition select_output :: "(u64, output_context) RBT.rbt \<Rightarrow> u64 \<Rightarrow> output_selection \<Rightarrow> u64" where
  "select_output outputs primary_output_id selection =
     (if output_enabled outputs (sel_inherited_output_id selection) then sel_inherited_output_id selection
      else if sel_retain_previous selection \<and> output_enabled outputs (sel_previous_output_id selection)
      then sel_previous_output_id selection
      else let tied = tied_outputs (sel_geometry selection) (RBT.entries outputs) 0 [];
               tied_contains = (\<lambda>oid. oid \<noteq> 0 \<and> oid \<in> set tied)
           in if tied_contains (sel_previous_output_id selection) then sel_previous_output_id selection
              else if tied_contains (sel_preferred_output_id selection) then sel_preferred_output_id selection
              else if tied_contains primary_output_id then primary_output_id
              else (case tied of [] \<Rightarrow> 0 | oid # _ \<Rightarrow> oid))"

definition retain_visible_pixel ::
  "(u64, output_context) RBT.rbt \<Rightarrow> u64 \<Rightarrow> wm_rectangle \<Rightarrow> wm_rectangle" where
  "retain_visible_pixel outputs assigned_output_id geometry =
     (if intersects_any outputs geometry then geometry
      else (case RBT.lookup outputs assigned_output_id of
              None \<Rightarrow> geometry
            | Some found \<Rightarrow>
                (if \<not> oc_enabled found then geometry
                 else let logical = oc_logical found in
                   geometry\<lparr>rect_x := visible_coordinate (rect_x geometry) (rect_x logical)
                                        (rect_width logical) (rect_width geometry),
                            rect_y := visible_coordinate (rect_y geometry) (rect_y logical)
                                        (rect_height logical) (rect_height geometry)\<rparr>)))"

definition initial_placement :: "output_context \<Rightarrow> u32 \<Rightarrow> u32 \<Rightarrow> nat \<Rightarrow> wm_rectangle" where
  "initial_placement output width height cascade_slot =
     (let work = oc_work output;
          w = min width (rect_width work);
          h = min height (rect_height work);
          x_span = rect_width work - w;
          y_span = rect_height work - h
      in \<lparr>rect_x = rect_x work + cascade_offset cascade_slot x_span,
          rect_y = rect_y work + cascade_offset cascade_slot y_span,
          rect_width = w, rect_height = h\<rparr>)"

definition fullscreen_geometry :: "output_context \<Rightarrow> wm_rectangle" where
  "fullscreen_geometry output = oc_work output"

definition maximize_geometry :: "output_context \<Rightarrow> wm_rectangle" where
  "maximize_geometry output = oc_work output"

section \<open>Placement on several outputs\<close>

definition decorated :: "raw_window \<Rightarrow> applied_state \<Rightarrow> bool" where
  "decorated window state =
     (if rw_override_redirect window \<or> state = AS_Fullscreen \<or> rw_decoration_preference window = DP_False
      then False
      else if rw_window_type window = WT_Utility \<or> rw_window_type window = WT_Unknown
      then rw_decoration_preference window = DP_True
      else True)"

definition hint_for :: "raw_state \<Rightarrow> u32 \<Rightarrow> window_output_hint" where
  "hint_for raw wid =
     (case RBT.lookup (raw_output_hints raw) wid of None \<Rightarrow> default_hint | Some hint \<Rightarrow> hint)"

definition initial_output :: "raw_state \<Rightarrow> window_output_hint \<Rightarrow> u64" where
  "initial_output raw hint =
     (if output_enabled (raw_outputs raw) (hint_preferred_output_id hint) then hint_preferred_output_id hint
      else if output_enabled (raw_outputs raw) (context_output_id (raw_context raw))
      then context_output_id (raw_context raw)
      else (case filter (\<lambda>(oid, out). oc_enabled out) (RBT.entries (raw_outputs raw)) of
              [] \<Rightarrow> 0
            | (oid, _) # _ \<Rightarrow> oid))"

definition cascade_candidate :: "raw_window \<Rightarrow> applied_state \<Rightarrow> bool" where
  "cascade_candidate window state \<longleftrightarrow>
     \<not> rw_override_redirect window \<and> rw_transient_for window = 0 \<and>
     rw_geometry_serial window = 0 \<and> state = AS_Normal \<and>
     (rw_window_type window = WT_Normal \<or> rw_window_type window = WT_Utility \<or>
      rw_window_type window = WT_Unknown)"

definition apply_geometry :: "window_state \<Rightarrow> wm_rectangle \<Rightarrow> window_state" where
  "apply_geometry state geometry =
     state\<lparr>ws_final_x := rect_x geometry, ws_final_y := rect_y geometry,
           ws_final_width := rect_width geometry, ws_final_height := rect_height geometry\<rparr>"

definition assign_root :: "raw_state \<Rightarrow> raw_window \<Rightarrow> window_state \<Rightarrow> window_output_hint \<Rightarrow> u64" where
  "assign_root raw window state hint =
     (if cascade_candidate window (ws_applied_state state) then initial_output raw hint
      else select_output (raw_outputs raw) (context_output_id (raw_context raw))
             \<lparr>sel_geometry = requested_geometry window, sel_inherited_output_id = 0,
              sel_previous_output_id = hint_previous_output_id hint,
              sel_preferred_output_id = hint_preferred_output_id hint,
              sel_retain_previous = (ws_applied_state state = AS_Fullscreen \<or>
                                     ws_applied_state state = AS_Maximized)\<rparr>)"

definition root_geometry ::
  "raw_state \<Rightarrow> raw_window \<Rightarrow> window_state \<Rightarrow> u64 \<Rightarrow> nat \<Rightarrow> wm_rectangle option" where
  "root_geometry raw window state output_id cascade_slot =
     (case RBT.lookup (raw_outputs raw) output_id of
        None \<Rightarrow> None
      | Some output \<Rightarrow> Some
          (if ws_applied_state state = AS_Fullscreen then fullscreen_geometry output
           else if ws_applied_state state = AS_Maximized then maximize_geometry output
           else if rw_override_redirect window then requested_geometry window
           else if rw_geometry_serial window = 0 then
             initial_placement output (rw_requested_width window) (rw_requested_height window) cascade_slot
           else retain_visible_pixel (raw_outputs raw) output_id (requested_geometry window)))"

definition root_order :: "raw_state \<Rightarrow> u32 list" where
  "root_order raw =
     sort_key (\<lambda>wid. (map_option rw_creation_serial (RBT.lookup (raw_windows raw) wid), wid))
       (map fst (filter (\<lambda>(wid, w). rw_override_redirect w \<or> rw_transient_for w = 0)
          (RBT.entries (raw_windows raw))))"

definition multi_place_transient ::
  "raw_state \<Rightarrow> u32 \<Rightarrow> (u32, window_state) RBT.rbt \<Rightarrow> (u32, window_state) RBT.rbt option" where
  "multi_place_transient raw wid windows = do {
     window \<leftarrow> RBT.lookup (raw_windows raw) wid;
     state \<leftarrow> RBT.lookup windows wid;
     parent \<leftarrow> RBT.lookup windows (rw_transient_for window);
     let state = state\<lparr>ws_output_id := ws_output_id parent\<rparr>;
     output \<leftarrow> RBT.lookup (raw_outputs raw) (ws_output_id state);
     let geometry =
       (if ws_applied_state state = AS_Fullscreen then fullscreen_geometry output
        else if ws_applied_state state = AS_Maximized then maximize_geometry output
        else let w = min (rw_requested_width window) (rect_width (oc_work output));
                 h = min (rw_requested_height window) (rect_height (oc_work output))
             in retain_visible_pixel (raw_outputs raw) (ws_output_id state)
                  \<lparr>rect_x = i32_of (centered (ws_final_x parent) (ws_final_width parent) w),
                   rect_y = i32_of (centered (ws_final_y parent) (ws_final_height parent) h),
                   rect_width = w, rect_height = h\<rparr>);
     Some (RBT.insert wid (apply_geometry state geometry) windows)
   }"

definition multi_initial_state :: "raw_state \<Rightarrow> u32 \<Rightarrow> raw_window \<Rightarrow> window_state" where
  "multi_initial_state raw wid window =
     default_window_state\<lparr>
       ws_window_id := wid,
       ws_transient_for := rw_transient_for window,
       ws_workspace_id := context_workspace_id (raw_context raw),
       ws_window_type := rw_window_type window,
       ws_applied_state := applied_state_of window,
       ws_managed := \<not> rw_override_redirect window,
       ws_override_redirect := rw_override_redirect window,
       ws_attention_requested := rw_attention_requested window,
       ws_decoration_eligible := decorated window (applied_state_of window)\<rparr>"

text \<open>One round of the loop over the roots; the second component is the slot counter of each output.\<close>

definition multi_place_root ::
  "raw_state \<Rightarrow> u32 \<Rightarrow> (u32, window_state) RBT.rbt \<times> (u64, nat) RBT.rbt \<Rightarrow>
     ((u32, window_state) RBT.rbt \<times> (u64, nat) RBT.rbt) option" where
  "multi_place_root raw wid = (\<lambda>(windows, slots). do {
     window \<leftarrow> RBT.lookup (raw_windows raw) wid;
     state \<leftarrow> RBT.lookup windows wid;
     let output_id = assign_root raw window state (hint_for raw wid);
     let state = state\<lparr>ws_output_id := output_id\<rparr>;
     let counted = cascade_candidate window (ws_applied_state state) \<and> rw_wants_map window;
     let next_slot = (case RBT.lookup slots output_id of None \<Rightarrow> 0 | Some n \<Rightarrow> n);
     let slot = (if counted then next_slot else 0);
     let slots = (if counted then RBT.insert output_id (Suc next_slot) slots else slots);
     geometry \<leftarrow> root_geometry raw window state output_id slot;
     Some (RBT.insert wid (apply_geometry state geometry) windows, slots)
   })"

definition apply_multi_output_geometry :: "raw_state \<Rightarrow> policy_state \<Rightarrow> policy_state option" where
  "apply_multi_output_geometry raw policy = do {
     let windows = fold (\<lambda>(wid, window). map_emplace wid (multi_initial_state raw wid window))
                     (RBT.entries (raw_windows raw)) (ps_windows policy);
     (windows, slots) \<leftarrow> fold_option (multi_place_root raw) (root_order raw) (windows, RBT.empty);
     order \<leftarrow> transient_parent_first raw;
     windows \<leftarrow> fold_option (multi_place_transient raw) order windows;
     Some (policy\<lparr>ps_outputs := raw_outputs raw, ps_output_hints := raw_output_hints raw,
                  ps_windows := windows\<rparr>)
   }"

section \<open>Arithmetic\<close>

lemma decorated_decoration: "decorated w state = decoration w state"
  by (simp add: decorated_def decoration_def)

text \<open>The area is zero exactly when no pixel is shared; the 64-bit product does not wrap.\<close>

lemma product_below_2_64:
  assumes "0 \<le> a" "a \<le> 4294967295" "0 \<le> b" "b \<le> (4294967295 :: int)"
  shows "0 \<le> a * b" "a * b < 18446744073709551616"
proof -
  show "0 \<le> a * b" using assms by simp
  have "a * b \<le> 4294967295 * 4294967295" using assms by (intro mult_mono) auto
  then show "a * b < 18446744073709551616" by simp
qed

lemma uint_area:
  assumes "0 \<le> a" "a \<le> 4294967295" "0 \<le> b" "b \<le> (4294967295 :: int)"
  shows "uint (u64_of a * u64_of b) = a * b"
proof -
  have "u64_of a * u64_of b = u64_of (a * b)" by (simp add: u64_of_def)
  then show ?thesis using product_below_2_64 [OF assms] by (simp add: casts)
qed

lemma positive_product_zero: "max 0 a * max 0 b = 0 \<longleftrightarrow> a \<le> 0 \<or> b \<le> (0 :: int)"
  by (auto simp: max_def)

lemma intersection_area_zero:
  "intersection_area l r = 0 \<longleftrightarrow> rect_pts l \<inter> rect_pts r = {}"
proof -
  let ?w = "min (right_edge l) (right_edge r) - max (sint (rect_x l)) (sint (rect_x r))"
  let ?h = "min (bottom_edge l) (bottom_edge r) - max (sint (rect_y l)) (sint (rect_y r))"
  have "?w \<le> 4294967295" "?h \<le> 4294967295"
    using uint32_range(2) [of "rect_width l"] uint32_range(2) [of "rect_height l"]
    by (auto simp: right_edge_def [of l] bottom_edge_def [of l])
  then have "uint (intersection_area l r) = max 0 ?w * max 0 ?h"
    unfolding intersection_area_def Let_def by (intro uint_area) auto
  then have "intersection_area l r = 0 \<longleftrightarrow> ?w \<le> 0 \<or> ?h \<le> 0"
    unfolding positive_product_zero [symmetric] by (metis uint_0_iff)
  also have "\<dots> \<longleftrightarrow> intersect l r = None"
    by (simp add: intersect_def Let_def)
  finally show ?thesis by (simp add: intersect_None_iff)
qed

lemma visible_coordinate_overlaps:
  fixes c origin :: i32 and oe we :: u32
  assumes "0 < uint oe" "0 < uint we" "sint origin + uint oe \<le> int32_max"
  defines "v \<equiv> sint (visible_coordinate c origin oe we)"
  shows "sint origin < v + uint we" "v < sint origin + uint oe"
proof -
  let ?low = "sint origin - uint we + 1" and ?high = "sint origin + uint oe - 1"
  have b: "?low \<le> clamp (sint c) ?low ?high \<and> clamp (sint c) ?low ?high \<le> ?high"
    using assms(1,2) by (intro clamp_between) linarith
  have "v = clamp (sint c) ?low ?high"
    unfolding v_def visible_coordinate_def Let_def
    using b assms(3) sint32_range [of c] sint32_range [of origin] assms(1)
    by (intro sint_i32_of) (auto simp: clamp_def split: if_splits)
  with b show "sint origin < v + uint we" "v < sint origin + uint oe" by linarith+
qed

text \<open>Two rectangles whose intervals overlap on both axes share a pixel.\<close>

lemma overlapping_pts:
  assumes "sint (rect_x l) < right_edge r" "sint (rect_x r) < right_edge l"
    "sint (rect_y l) < bottom_edge r" "sint (rect_y r) < bottom_edge l"
    "\<not> rect_empty l" "\<not> rect_empty r"
  shows "rect_pts l \<inter> rect_pts r \<noteq> {}"
proof -
  have "(max (sint (rect_x l)) (sint (rect_x r)), max (sint (rect_y l)) (sint (rect_y r))) \<in> rect_pts l \<inter> rect_pts r"
    using assms nonempty_edges [of l] nonempty_edges [of r] by (auto simp: rect_pts_def max_def)
  then show ?thesis by blast
qed

section \<open>The selected output\<close>

lemma output_enabled_iff:
  "output_enabled outputs k \<longleftrightarrow> (\<exists>out. RBT.lookup outputs k = Some out \<and> oc_enabled out)"
  by (auto simp: output_enabled_def split: option.splits)

abbreviation enabled_entries :: "(u64 \<times> output_context) list \<Rightarrow> (u64 \<times> output_context) list" where
  "enabled_entries es \<equiv> filter (\<lambda>(oid, out). oc_enabled out) es"

definition largest_area :: "wm_rectangle \<Rightarrow> (u64 \<times> output_context) list \<Rightarrow> u64 \<Rightarrow> u64" where
  "largest_area g es m = fold (\<lambda>(oid, out). max (intersection_area g (oc_logical out))) (enabled_entries es) m"

lemma largest_area_Cons:
  "largest_area g ((oid, out) # es) m =
     (if oc_enabled out then largest_area g es (max (intersection_area g (oc_logical out)) m)
      else largest_area g es m)"
  by (simp add: largest_area_def)

lemma largest_area_ge: "m \<le> largest_area g es m"
  unfolding largest_area_def
  by (induction es arbitrary: m) (auto split: prod.splits intro: order_trans [OF max.cobounded2])

lemma largest_area_upper:
  "(oid, out) \<in> set es \<Longrightarrow> oc_enabled out \<Longrightarrow> intersection_area g (oc_logical out) \<le> largest_area g es m"
proof (induction es arbitrary: m)
  case (Cons e es)
  obtain oid' out' where e: "e = (oid', out')" by (cases e)
  show ?case
  proof (cases "(oid, out) = e")
    case True
    then show ?thesis
      using Cons.prems(2) e largest_area_ge [of "max (intersection_area g (oc_logical out)) m" g es]
      by (simp add: largest_area_def)
  next
    case False
    then show ?thesis using Cons e by (auto simp: largest_area_def)
  qed
qed simp

text \<open>The candidates are exactly the enabled outputs of the largest overlap.\<close>

lemma tied_outputs_eq:
  "tied_outputs g es m t =
     (if largest_area g es m = m then t else []) @
     map fst (filter (\<lambda>(oid, out). intersection_area g (oc_logical out) = largest_area g es m) (enabled_entries es))"
proof (induction es arbitrary: m t)
  case Nil
  then show ?case by (simp add: largest_area_def)
next
  case (Cons e es)
  obtain oid out where e: "e = (oid, out)" by (cases e)
  let ?a = "intersection_area g (oc_logical out)"
  show ?case
  proof (cases "oc_enabled out")
    case False
    then show ?thesis by (simp add: e Cons.IH largest_area_Cons)
  next
    case True
    note ge = largest_area_ge [of "max ?a m" g es]
    show ?thesis
      using True ge by (cases "?a > m"; cases "?a = m")
        (auto simp: e Cons.IH largest_area_Cons Let_def max_def not_less split: if_splits)
  qed
qed

lemma tied_outputs_enabled:
  assumes "oid \<in> set (tied_outputs g (RBT.entries outputs) 0 [])"
  obtains out where "RBT.lookup outputs oid = Some out" "oc_enabled out"
    "intersection_area g (oc_logical out) = largest_area g (RBT.entries outputs) 0"
  using assms by (auto simp: tied_outputs_eq map_simps)

lemma largest_area_attained:
  "largest_area g es m = m \<or>
     (\<exists>oid out. (oid, out) \<in> set es \<and> oc_enabled out \<and> intersection_area g (oc_logical out) = largest_area g es m)"
proof (induction es arbitrary: m)
  case Nil
  then show ?case by (simp add: largest_area_def)
next
  case (Cons e es)
  obtain oid out where e: "e = (oid, out)" by (cases e)
  let ?a = "intersection_area g (oc_logical out)"
  show ?case
  proof (cases "oc_enabled out \<and> m < ?a")
    case True
    then have l: "largest_area g (e # es) m = largest_area g es ?a" by (simp add: e largest_area_Cons)
    have "(oid, out) \<in> set (e # es)" by (simp add: e)
    with Cons [of ?a] True show ?thesis unfolding l by (metis list.set_intros(2))
  next
    case False
    then have l: "largest_area g (e # es) m = largest_area g es m"
      by (auto simp: e largest_area_Cons max_def not_less)
    show ?thesis using Cons [of m] unfolding l by (auto simp: e)
  qed
qed

lemma tied_outputs_nonempty:
  assumes "RBT.lookup outputs k = Some out" "oc_enabled out"
  shows "tied_outputs g (RBT.entries outputs) 0 [] \<noteq> []"
proof -
  have "\<exists>oid out. (oid, out) \<in> set (RBT.entries outputs) \<and> oc_enabled out \<and>
          intersection_area g (oc_logical out) = largest_area g (RBT.entries outputs) 0"
  proof (cases "largest_area g (RBT.entries outputs) 0 = 0")
    case True
    with assms largest_area_upper [of k out "RBT.entries outputs" g 0] show ?thesis
      by (auto simp: map_simps)
  next
    case False
    with largest_area_attained [of g "RBT.entries outputs" 0] show ?thesis by blast
  qed
  then show ?thesis by (force simp: tied_outputs_eq filter_empty_conv)
qed

text \<open>
  An output is always selected when one is enabled. Unless it is inherited from the parent or
  retained, no other enabled output shows more of the window.
\<close>

lemma select_output_enabled:
  assumes "RBT.lookup outputs k = Some out" "oc_enabled out"
  shows "output_enabled outputs (select_output outputs primary sel)"
proof -
  note ne = tied_outputs_nonempty [OF assms, of "sel_geometry sel"]
  then obtain oid rest where "tied_outputs (sel_geometry sel) (RBT.entries outputs) 0 [] = oid # rest"
    by (auto simp: neq_Nil_conv)
  moreover have "output_enabled outputs oid"
    if "oid \<in> set (tied_outputs (sel_geometry sel) (RBT.entries outputs) 0 [])" for oid
    using that by (auto simp: output_enabled_iff elim: tied_outputs_enabled)
  ultimately show ?thesis by (auto simp: select_output_def Let_def)
qed

lemma select_output_largest:
  assumes "RBT.lookup outputs k = Some out" "oc_enabled out"
    "\<not> output_enabled outputs (sel_inherited_output_id sel)"
    "\<not> (sel_retain_previous sel \<and> output_enabled outputs (sel_previous_output_id sel))"
    "RBT.lookup outputs (select_output outputs primary sel) = Some chosen"
  shows "intersection_area (sel_geometry sel) (oc_logical out) \<le> intersection_area (sel_geometry sel) (oc_logical chosen)"
proof -
  let ?tied = "tied_outputs (sel_geometry sel) (RBT.entries outputs) 0 []"
  from tied_outputs_nonempty [OF assms(1,2), of "sel_geometry sel"]
  obtain oid rest where t: "?tied = oid # rest" by (auto simp: neq_Nil_conv)
  have "select_output outputs primary sel \<in> set ?tied"
    using assms(3,4) unfolding select_output_def by (auto simp: t Let_def)
  then have "intersection_area (sel_geometry sel) (oc_logical chosen)
       = largest_area (sel_geometry sel) (RBT.entries outputs) 0"
    using assms(5) by (auto elim: tied_outputs_enabled)
  moreover have "intersection_area (sel_geometry sel) (oc_logical out)
       \<le> largest_area (sel_geometry sel) (RBT.entries outputs) 0"
    using assms(1,2) by (intro largest_area_upper) (simp_all add: map_simps)
  ultimately show ?thesis by simp
qed

lemma assign_root_enabled:
  assumes "validate raw = EE_None" "raw_outputs raw \<noteq> RBT.empty"
  shows "output_enabled (raw_outputs raw) (assign_root raw w s hint)"
proof -
  obtain out where "RBT.lookup (raw_outputs raw) (context_output_id (raw_context raw)) = Some out"
    "oc_enabled out" using assms by (rule accepted_primary)
  with select_output_enabled [OF this] show ?thesis
    by (auto simp: assign_root_def initial_output_def output_enabled_iff)
qed

section \<open>The geometry on the selected output\<close>

text \<open>Some pixel of the rectangle is on an enabled output.\<close>

definition on_screen :: "raw_state \<Rightarrow> wm_rectangle \<Rightarrow> bool" where
  "on_screen raw g \<longleftrightarrow>
     (\<exists>oid out. RBT.lookup (raw_outputs raw) oid = Some out \<and> oc_enabled out \<and>
        rect_pts (oc_logical out) \<inter> rect_pts g \<noteq> {})"

lemma split_paired_Bex_entries:
  "(\<exists>e \<in> set (RBT.entries m). case e of (k, v) \<Rightarrow> P k v) \<longleftrightarrow> (\<exists>k v. RBT.lookup m k = Some v \<and> P k v)"
  by (force simp: map_simps)

lemma intersects_any_iff: "intersects_any (raw_outputs raw) g \<longleftrightarrow> on_screen raw g"
  unfolding intersects_any_def on_screen_def list_ex_iff
  by (simp add: intersection_area_zero split_paired_Bex_entries)

lemma accepted_logical:
  assumes "validate raw = EE_None" "RBT.lookup (raw_outputs raw) k = Some out" "oc_enabled out"
  shows "\<not> rect_empty (oc_logical out)" "\<not> rect_empty (oc_work out)"
    "right_edge (oc_logical out) \<le> int32_max" "bottom_edge (oc_logical out) \<le> int32_max"
    "rect_pts (oc_work out) \<subseteq> rect_pts (oc_logical out)"
  using accepted_outputs [OF assms]
  by (auto simp: valid_rectangle_def rect_empty_def maximum_root_extent_def rect_contains_def
      rect_pts_def right_edge_def bottom_edge_def)

lemma retain_visible_pixel_on_screen:
  assumes ok: "validate raw = EE_None"
    and out: "RBT.lookup (raw_outputs raw) k = Some out" "oc_enabled out" and g: "\<not> rect_empty g"
  shows "on_screen raw (retain_visible_pixel (raw_outputs raw) k g)"
proof (cases "intersects_any (raw_outputs raw) g")
  case True
  then show ?thesis by (simp add: retain_visible_pixel_def intersects_any_iff)
next
  case False
  let ?l = "oc_logical out"
  let ?g = "retain_visible_pixel (raw_outputs raw) k g"
  have g': "?g = g\<lparr>rect_x := visible_coordinate (rect_x g) (rect_x ?l) (rect_width ?l) (rect_width g),
      rect_y := visible_coordinate (rect_y g) (rect_y ?l) (rect_height ?l) (rect_height g)\<rparr>"
    using False out by (simp add: retain_visible_pixel_def Let_def)
  note l = accepted_logical [OF ok out]
  have "rect_pts ?l \<inter> rect_pts ?g \<noteq> {}"
    using l(1,3,4) g visible_coordinate_overlaps [of "rect_width ?l" "rect_width g" "rect_x ?l" "rect_x g"]
      visible_coordinate_overlaps [of "rect_height ?l" "rect_height g" "rect_y ?l" "rect_y g"]
    by (intro overlapping_pts) (auto simp: g' rect_empty_def uint_pos_iff32 right_edge_def bottom_edge_def)
  then show ?thesis using out by (auto simp: on_screen_def)
qed

lemma initial_placement_on_screen:
  assumes ok: "validate raw = EE_None"
    and out: "RBT.lookup (raw_outputs raw) k = Some out" "oc_enabled out"
    and "width \<noteq> 0" "height \<noteq> 0"
  shows "rect_contains (oc_work out) (initial_placement out width height slot)"
    "on_screen raw (initial_placement out width height slot)"
proof -
  let ?g = "initial_placement out width height slot" and ?w = "oc_work out"
  have v: "extent_fits (rect_x ?w) (rect_width ?w)" "extent_fits (rect_y ?w) (rect_height ?w)"
    "uint (rect_width ?w) \<le> int32_max" "uint (rect_height ?w) \<le> int32_max"
    "rect_width ?w \<noteq> 0" "rect_height ?w \<noteq> 0"
    using accepted_outputs(2) [OF ok out] by (auto simp: valid_rectangle_def maximum_work_extent_def)
  have m: "min width (rect_width ?w) \<noteq> 0" "min height (rect_height ?w) \<noteq> 0"
    using assms(4,5) v(5,6) by (simp_all add: min_def)
  show c: "rect_contains ?w ?g"
    using cascade_origin_between [OF v(1) min.cobounded2 v(3) m(1), of slot]
      cascade_origin_between [OF v(2) min.cobounded2 v(4) m(2), of slot]
    by (simp add: initial_placement_def Let_def rect_contains_def)
  have "\<not> rect_empty ?g" using m by (simp add: initial_placement_def rect_empty_def Let_def)
  then have "rect_pts ?g \<inter> rect_pts ?g \<noteq> {}"
    by (intro overlapping_pts) (simp_all add: nonempty_edges)
  moreover have "rect_pts ?g \<subseteq> rect_pts ?w"
    using c by (auto simp: rect_contains_def rect_pts_def right_edge_def bottom_edge_def)
  ultimately show "on_screen raw ?g"
    using accepted_logical(5) [OF ok out] out unfolding on_screen_def by blast
qed

section \<open>The placement\<close>

text \<open>
  What the multi-output placement promises: every window is on an enabled output; an
  override-redirect window keeps the geometry it asked for, a fullscreen or maximized one fills
  the work area of its output, and any other one keeps a pixel on some enabled output.
\<close>

definition multi_good :: "raw_state \<Rightarrow> raw_window \<Rightarrow> window_state \<Rightarrow> bool" where
  "multi_good raw w s \<longleftrightarrow>
     (\<exists>out. RBT.lookup (raw_outputs raw) (ws_output_id s) = Some out \<and> oc_enabled out \<and>
        (if rw_override_redirect w then window_rect s = requested_geometry w
         else if applied_state_of w \<in> {AS_Fullscreen, AS_Maximized} then window_rect s = oc_work out
         else on_screen raw (window_rect s)))"

lemma window_rect_apply_geometry [simp]: "window_rect (apply_geometry s g) = g"
  by (simp add: window_rect_def apply_geometry_def)

lemma placed_state_apply_geometry [simp]:
  "placed_state raw k w (apply_geometry s g) = placed_state raw k w s"
  "placed_state raw k w (s\<lparr>ws_output_id := oid\<rparr>) = placed_state raw k w s"
  by (simp_all add: placed_state_def apply_geometry_def)

lemma output_apply_geometry [simp]: "ws_output_id (apply_geometry s g) = ws_output_id s"
  by (simp add: apply_geometry_def)

lemma requested_nonempty:
  assumes "validate raw = EE_None" "RBT.lookup (raw_windows raw) k = Some w"
  shows "\<not> rect_empty (requested_geometry w)"
  using accepted_extents [OF assms] by (simp add: rect_empty_def requested_geometry_def)

lemma root_geometry_good:
  assumes ok: "validate raw = EE_None" and w: "RBT.lookup (raw_windows raw) k = Some w"
    and s: "ws_applied_state s = applied_state_of w" "ws_output_id s = oid"
    and en: "output_enabled (raw_outputs raw) oid"
  shows "\<exists>g. root_geometry raw w s oid slot = Some g \<and> multi_good raw w (apply_geometry s g)"
proof -
  obtain out where out: "RBT.lookup (raw_outputs raw) oid = Some out" "oc_enabled out"
    using en by (auto simp: output_enabled_iff)
  note e = accepted_extents [OF ok w]
  show ?thesis
    using out s retain_visible_pixel_on_screen [OF ok out requested_nonempty [OF ok w]]
      initial_placement_on_screen(2) [OF ok out e(1,2), of slot]
    by (auto simp: root_geometry_def multi_good_def applied_state_of_def fullscreen_geometry_def maximize_geometry_def)
qed

lemma multi_place_root_step:
  assumes ok: "validate raw = EE_None" and ne: "raw_outputs raw \<noteq> RBT.empty"
    and w: "RBT.lookup (raw_windows raw) k = Some w"
    and P: "placed raw (\<lambda>k w s. k \<in> set done \<longrightarrow> multi_good raw w s) windows"
  shows "\<exists>windows' slots'. multi_place_root raw k (windows, slots) = Some (windows', slots') \<and>
           placed raw (\<lambda>k' w s. k' \<in> set (done @ [k]) \<longrightarrow> multi_good raw w s) windows'"
proof -
  obtain s where s: "RBT.lookup windows k = Some s" "placed_state raw k w s" using P w by (rule placedD)
  define oid where "oid = assign_root raw w s (hint_for raw k)"
  define s1 where "s1 = s\<lparr>ws_output_id := oid\<rparr>"
  define counted where "counted = (cascade_candidate w (ws_applied_state s) \<and> rw_wants_map w)"
  define next_slot where "next_slot = (case RBT.lookup slots oid of None \<Rightarrow> 0 | Some n \<Rightarrow> n)"
  have "output_enabled (raw_outputs raw) oid" unfolding oid_def by (rule assign_root_enabled [OF ok ne])
  then obtain g where g: "root_geometry raw w s1 oid (if counted then next_slot else 0) = Some g"
    "multi_good raw w (apply_geometry s1 g)"
    using root_geometry_good [OF ok w, of s1 oid] s(2) by (auto simp: s1_def placed_state_def)
  have step: "multi_place_root raw k (windows, slots) =
      Some (RBT.insert k (apply_geometry s1 g) windows,
            if counted then RBT.insert oid (Suc next_slot) slots else slots)"
    using w s(1) g(1) unfolding s1_def counted_def next_slot_def oid_def multi_place_root_def
    by (simp add: Let_def)
  have "placed raw (\<lambda>k' w s. k' \<in> set (done @ [k]) \<longrightarrow> multi_good raw w s)
          (RBT.insert k (apply_geometry s1 g) windows)"
    using s(2) g(2) by (intro placed_insert [OF P w]) (auto simp: s1_def)
  with step show ?thesis by blast
qed

lemma set_root_order:
  assumes "RBT.lookup (raw_windows raw) k = Some w"
  shows "k \<in> set (root_order raw) \<longleftrightarrow> \<not> managed_transient raw k"
  using assms by (force simp: root_order_def managed_transient_def map_simps)

lemma root_order_keys: "k \<in> set (root_order raw) \<Longrightarrow> \<exists>w. RBT.lookup (raw_windows raw) k = Some w"
  by (auto simp: root_order_def map_simps)

lemma multi_place_roots:
  assumes ok: "validate raw = EE_None" and ne: "raw_outputs raw \<noteq> RBT.empty"
    and P: "placed raw (\<lambda>_ _ _. True) windows"
  shows "\<exists>windows' slots'. fold_option (multi_place_root raw) (root_order raw) (windows, slots) = Some (windows', slots') \<and>
           placed raw (\<lambda>k w s. \<not> managed_transient raw k \<longrightarrow> multi_good raw w s) windows'"
proof -
  have "\<exists>st. fold_option (multi_place_root raw) (root_order raw) (windows, slots) = Some st \<and>
          placed raw (\<lambda>k w s. k \<in> set (root_order raw) \<longrightarrow> multi_good raw w s) (fst st)"
  proof (rule fold_option_invariant)
    show "placed raw (\<lambda>k w s. k \<in> set [] \<longrightarrow> multi_good raw w s) (fst (windows, slots))"
      using P by simp
  next
    fix "done" k rest and st :: "(u32, window_state) RBT.rbt \<times> (u64, nat) RBT.rbt"
    assume "root_order raw = done @ k # rest"
      and "placed raw (\<lambda>k w s. k \<in> set done \<longrightarrow> multi_good raw w s) (fst st)"
    moreover from this(1) obtain w where "RBT.lookup (raw_windows raw) k = Some w"
      using root_order_keys [of k raw] by auto
    ultimately show "\<exists>st'. multi_place_root raw k st = Some st' \<and>
        placed raw (\<lambda>k' w s. k' \<in> set (done @ [k]) \<longrightarrow> multi_good raw w s) (fst st')"
      using multi_place_root_step [OF ok ne, of k w "done" "fst st" "snd st"] by auto
  qed
  then obtain windows' slots' where
    "fold_option (multi_place_root raw) (root_order raw) (windows, slots) = Some (windows', slots')"
    and "placed raw (\<lambda>k w s. k \<in> set (root_order raw) \<longrightarrow> multi_good raw w s) windows'" by auto
  moreover from this(2) have "placed raw (\<lambda>k w s. \<not> managed_transient raw k \<longrightarrow> multi_good raw w s) windows'"
    by (rule placed_weaken) (simp add: set_root_order)
  ultimately show ?thesis by blast
qed

lemma multi_place_transient_step:
  assumes ok: "validate raw = EE_None" and w: "RBT.lookup (raw_windows raw) k = Some w"
    and managed: "\<not> rw_override_redirect w"
    and s: "RBT.lookup windows k = Some s" "ws_applied_state s = applied_state_of w"
    and p: "RBT.lookup windows (rw_transient_for w) = Some p"
    and out: "RBT.lookup (raw_outputs raw) (ws_output_id p) = Some out" "oc_enabled out"
  shows "\<exists>g. multi_place_transient raw k windows =
             Some (RBT.insert k (apply_geometry (s\<lparr>ws_output_id := ws_output_id p\<rparr>) g) windows) \<and>
           multi_good raw w (apply_geometry (s\<lparr>ws_output_id := ws_output_id p\<rparr>) g)"
proof -
  define g where "g = (let width = min (rw_requested_width w) (rect_width (oc_work out));
                 height = min (rw_requested_height w) (rect_height (oc_work out))
             in \<lparr>rect_x = i32_of (centered (ws_final_x p) (ws_final_width p) width),
                   rect_y = i32_of (centered (ws_final_y p) (ws_final_height p) height),
                   rect_width = width, rect_height = height\<rparr>)"
  have "\<not> rect_empty g"
    using accepted_extents(1,2) [OF ok w] accepted_logical(2) [OF ok out]
    by (simp add: g_def Let_def rect_empty_def min_def)
  then have "on_screen raw (retain_visible_pixel (raw_outputs raw) (ws_output_id p) g)"
    by (rule retain_visible_pixel_on_screen [OF ok out])
  then show ?thesis
    using w s p out managed
    by (auto simp: multi_place_transient_def multi_good_def fullscreen_geometry_def maximize_geometry_def
        g_def Let_def)
qed

lemma transients_follow_insert:
  assumes "transients_follow raw ks windows" "rw_transient_for w \<noteq> k"
    and w: "RBT.lookup (raw_windows raw) k = Some w"
    and "RBT.lookup windows (rw_transient_for w) = Some p" "ws_output_id s = ws_output_id p"
    and no_child: "\<And>k' w'. k' \<in> ks \<Longrightarrow> RBT.lookup (raw_windows raw) k' = Some w' \<Longrightarrow> rw_transient_for w' \<noteq> k"
  shows "transients_follow raw (insert k ks) (RBT.insert k s windows)"
  unfolding transients_follow_def
proof (intro ballI allI impI)
  fix k' w' s' p'
  assume k': "k' \<in> insert k ks" "RBT.lookup (raw_windows raw) k' = Some w'"
    "RBT.lookup (RBT.insert k s windows) k' = Some s'"
    "RBT.lookup (RBT.insert k s windows) (rw_transient_for w') = Some p'"
  show "ws_output_id s' = ws_output_id p'"
  proof (cases "k' = k")
    case True
    then show ?thesis using k' assms by simp
  next
    case False
    with k' no_child [of k' w'] show ?thesis
      using assms(1) unfolding transients_follow_def by auto
  qed
qed

lemma multi_place_transients:
  assumes ok: "validate raw = EE_None" and order: "transient_parent_first raw = Some order"
    and P: "placed raw (\<lambda>k w s. \<not> managed_transient raw k \<longrightarrow> multi_good raw w s) windows"
  shows "\<exists>windows'. fold_option (multi_place_transient raw) order windows = Some windows' \<and>
           placed raw (\<lambda>_. multi_good raw) windows' \<and> all_follow raw windows'"
proof -
  from ok order have o: "set order = {k. managed_transient raw k}" "distinct order"
    and first: "\<And>done k rest w. order = done @ k # rest \<Longrightarrow> RBT.lookup (raw_windows raw) k = Some w \<Longrightarrow>
       managed_transient raw (rw_transient_for w) \<Longrightarrow> rw_transient_for w \<in> set done"
    by (auto elim!: transient_parent_first_order)
  let ?I = "\<lambda>done windows. placed raw (\<lambda>k w s. \<not> managed_transient raw k \<or> k \<in> set done \<longrightarrow> multi_good raw w s) windows \<and>
      transients_follow raw (set done) windows"
  have "\<exists>windows'. fold_option (multi_place_transient raw) order windows = Some windows' \<and> ?I order windows'"
  proof (rule fold_option_invariant)
    show "?I [] windows" using P by (simp add: transients_follow_def)
  next
    fix "done" k rest windows
    assume split: "order = done @ k # rest" and I: "?I done windows"
    then have "managed_transient raw k" using o(1) by auto
    then obtain w where w: "RBT.lookup (raw_windows raw) k = Some w" "\<not> rw_override_redirect w"
      "rw_transient_for w \<noteq> 0" by (auto simp: managed_transient_def)
    from I have I1: "placed raw (\<lambda>k w s. \<not> managed_transient raw k \<or> k \<in> set done \<longrightarrow> multi_good raw w s) windows"
      and I2: "transients_follow raw (set done) windows" by simp_all
    obtain t where t: "RBT.lookup (raw_windows raw) (rw_transient_for w) = Some t"
      using ok w(1,3) by (rule accepted_parent)
    obtain s where s: "RBT.lookup windows k = Some s" "placed_state raw k w s"
      using I1 w(1) by (rule placedD)
    obtain p where p: "RBT.lookup windows (rw_transient_for w) = Some p"
      "\<not> managed_transient raw (rw_transient_for w) \<or> rw_transient_for w \<in> set done \<longrightarrow> multi_good raw t p"
      using I1 t by (rule placedD)
    with first [OF split w(1)] have "multi_good raw t p" by blast
    then obtain out where out: "RBT.lookup (raw_outputs raw) (ws_output_id p) = Some out" "oc_enabled out"
      by (auto simp: multi_good_def)
    from s(2) have ap: "ws_applied_state s = applied_state_of w" by (simp add: placed_state_def)
    let ?s = "\<lambda>g. apply_geometry (s\<lparr>ws_output_id := ws_output_id p\<rparr>) g"
    obtain g where g: "multi_place_transient raw k windows = Some (RBT.insert k (?s g) windows)"
      "multi_good raw w (?s g)"
      using multi_place_transient_step [OF ok w(1,2) s(1) ap p(1) out] by blast
    have "placed raw (\<lambda>k' w s. \<not> managed_transient raw k' \<or> k' \<in> set (done @ [k]) \<longrightarrow> multi_good raw w s)
            (RBT.insert k (?s g) windows)"
      using s(2) g(2) by (intro placed_insert [OF I1 w(1)]) auto
    moreover have "transients_follow raw (set (done @ [k])) (RBT.insert k (?s g) windows)"
      using transients_follow_insert [OF I2 transient_parent_distinct [OF ok w(1)] w(1) p(1), of "?s g"]
        parent_first_no_child [OF ok order split] by simp
    ultimately show "\<exists>windows'. multi_place_transient raw k windows = Some windows' \<and> ?I (done @ [k]) windows'"
      using g(1) by blast
  qed
  then obtain windows' where f: "fold_option (multi_place_transient raw) order windows = Some windows'"
    and I: "?I order windows'" by blast
  from I have "placed raw (\<lambda>_. multi_good raw) windows'"
    by (intro placed_weaken [where good' = "\<lambda>_. multi_good raw", OF conjunct1 [OF I]]) (auto simp: o(1))
  with f I o(1) show ?thesis by auto
qed

interpretation multi: placement apply_multi_output_geometry "\<lambda>raw. raw_outputs raw \<noteq> RBT.empty" multi_good
proof
  fix raw :: raw_state and policy :: policy_state
  assume ok: "validate raw = EE_None" and ne: "raw_outputs raw \<noteq> RBT.empty"
    and empty: "ps_windows policy = RBT.empty"
  define start where "start = fold (\<lambda>(k, w). map_emplace k (multi_initial_state raw k w))
    (RBT.entries (raw_windows raw)) (ps_windows policy)"
  have "RBT.lookup start k = map_option (multi_initial_state raw k) (RBT.lookup (raw_windows raw) k)" for k
    unfolding start_def empty by (rule lookup_fold_emplace_entries)
  then have "placed raw (\<lambda>_ _ _. True) start"
    by (rule placed_start)
      (simp add: placed_state_def multi_initial_state_def default_window_state_def decorated_decoration)
  with multi_place_roots [OF ok ne, of start RBT.empty] obtain windows slots where
    r: "fold_option (multi_place_root raw) (root_order raw) (start, RBT.empty) = Some (windows, slots)"
    "placed raw (\<lambda>k w s. \<not> managed_transient raw k \<longrightarrow> multi_good raw w s) windows" by blast
  obtain order where order: "transient_parent_first raw = Some order"
    using ok by (rule transient_parent_first_order)
  from multi_place_transients [OF ok order r(2)] obtain windows' where
    "fold_option (multi_place_transient raw) order windows = Some windows'"
    "placed raw (\<lambda>_. multi_good raw) windows'" "all_follow raw windows'" by blast
  then show "\<exists>policy'. apply_multi_output_geometry raw policy = Some policy' \<and>
      placed raw (\<lambda>_. multi_good raw) (ps_windows policy') \<and> all_follow raw (ps_windows policy') \<and>
      ps_generation policy' = ps_generation policy \<and> ps_context policy' = ps_context policy"
    using r(1) order by (simp add: apply_multi_output_geometry_def start_def Let_def)
next
  fix raw w s s'
  assume "multi_good raw w s" "same_geometry s s'"
  then show "multi_good raw w s'" by (elim conjE) (simp only: multi_good_def)
qed

section \<open>Properties\<close>

text \<open>
  Unless a window inherits the output of its parent or retains its previous one, the output
  selected for it is enabled and no enabled output shows a larger part of the window.
\<close>

lemma select_output_maximal:
  assumes "RBT.lookup outputs k = Some out" "oc_enabled out"
    "\<not> output_enabled outputs (sel_inherited_output_id sel)"
    "\<not> (sel_retain_previous sel \<and> output_enabled outputs (sel_previous_output_id sel))"
  shows "\<exists>chosen. RBT.lookup outputs (select_output outputs primary sel) = Some chosen \<and> oc_enabled chosen \<and>
     intersection_area (sel_geometry sel) (oc_logical out) \<le> intersection_area (sel_geometry sel) (oc_logical chosen)"
proof -
  from select_output_enabled [OF assms(1,2), of primary sel] obtain chosen where
    c: "RBT.lookup outputs (select_output outputs primary sel) = Some chosen" "oc_enabled chosen"
    by (auto simp: output_enabled_iff)
  with select_output_largest [OF assms c(1)] show ?thesis by blast
qed

end
