(* ===== verification/Wm_Focus.thy ===== *)
theory Wm_Focus
  imports Wm_Placement
begin

text \<open>
  Visibility, focus and presentation eligibility (\<open>wm/policy_focus.cpp\<close>): which placed windows
  are shown, which one of them has the focus, and what the policy can say about direct scanout.
\<close>

section \<open>Visibility\<close>

definition shown_state :: "raw_window \<Rightarrow> window_state \<Rightarrow> window_state" where
  "shown_state window state =
     state\<lparr>ws_visible := rw_wants_map window \<and>
        (rw_override_redirect window \<or> ws_applied_state state \<noteq> AS_Minimized)\<rparr>"

text \<open>The parent is looked up only when the transient itself is visible.\<close>

definition hide_with_parent ::
  "u32 \<Rightarrow> (u32, window_state) RBT.rbt \<Rightarrow> (u32, window_state) RBT.rbt option" where
  "hide_with_parent wid windows = do {
     state \<leftarrow> RBT.lookup windows wid;
     if \<not> ws_visible state then Some (RBT.insert wid (state\<lparr>ws_visible := False\<rparr>) windows)
     else do {
       parent \<leftarrow> RBT.lookup windows (ws_transient_for state);
       Some (RBT.insert wid (state\<lparr>ws_visible := ws_visible parent\<rparr>) windows)
     }
   }"

definition fullscreen_state :: "window_state \<Rightarrow> window_state" where
  "fullscreen_state state =
     state\<lparr>ws_fullscreen_eligible :=
        (if ws_override_redirect state then TS_Unknown
         else if ws_visible state \<and> ws_applied_state state = AS_Fullscreen then TS_True
         else TS_False)\<rparr>"

definition apply_visibility :: "raw_state \<Rightarrow> policy_state \<Rightarrow> policy_state option" where
  "apply_visibility raw policy = do {
     windows \<leftarrow> fold_option (\<lambda>(wid, window). at_update wid (shown_state window))
                  (RBT.entries (raw_windows raw)) (ps_windows policy);
     order \<leftarrow> transient_parent_first raw;
     windows \<leftarrow> fold_option hide_with_parent order windows;
     Some (policy\<lparr>ps_windows := RBT.map (\<lambda>_. fullscreen_state) windows\<rparr>)
   }"

section \<open>Focus\<close>

text \<open>
  A candidate is kept with the raw window and the window state that the \<open>at\<close> calls on its
  identifier find; neither map changes while the candidate is selected.
\<close>

type_synonym focus_entry = "u32 \<times> raw_window \<times> window_state"

definition focus_candidates :: "raw_state \<Rightarrow> policy_state \<Rightarrow> focus_entry list option" where
  "focus_candidates raw policy =
     concat_option
       (\<lambda>(wid, window). map_option
          (\<lambda>state. if ws_visible state \<and> \<not> rw_override_redirect window \<and>
                       rw_flags window AND kInputDisabledFlag = 0
                    then [(wid, window, state)] else [])
          (RBT.lookup (ps_windows policy) wid))
       (RBT.entries (raw_windows raw))"

definition focus_rank :: "bool \<Rightarrow> focus_entry \<Rightarrow> nat" where
  "focus_rank has_fullscreen = (\<lambda>(wid, window, state).
     if has_fullscreen \<and> rw_transient_for window \<noteq> 0 then 2
     else if ws_applied_state state = AS_Fullscreen then 1 else 0)"

definition focus_before :: "bool \<Rightarrow> bool \<Rightarrow> focus_entry \<Rightarrow> focus_entry \<Rightarrow> bool" where
  "focus_before has_explicit has_fullscreen left right =
     (let l = fst (snd left); r = fst (snd right) in
      if has_explicit then
        (focus_rank has_fullscreen left, rw_focus_serial l, rw_map_serial l, rw_creation_serial l, rw_window_id l)
        < (focus_rank has_fullscreen right, rw_focus_serial r, rw_map_serial r, rw_creation_serial r, rw_window_id r)
      else
        (focus_rank has_fullscreen left, rw_map_serial l, rw_creation_serial l, rw_window_id l)
        < (focus_rank has_fullscreen right, rw_map_serial r, rw_creation_serial r, rw_window_id r))"

text \<open>\<open>std::max_element\<close> on a non-empty range: the first element no later one is greater than.\<close>

definition max_element :: "('a \<Rightarrow> 'a \<Rightarrow> bool) \<Rightarrow> 'a list \<Rightarrow> 'a" where
  "max_element before xs = fold (\<lambda>x largest. if before largest x then x else largest) (tl xs) (hd xs)"

definition has_explicit_focus :: "focus_entry list \<Rightarrow> bool" where
  "has_explicit_focus candidates = list_ex (\<lambda>(wid, window, state). rw_focus_serial window \<noteq> 0) candidates"

definition has_fullscreen_window :: "focus_entry list \<Rightarrow> bool" where
  "has_fullscreen_window candidates =
     list_ex (\<lambda>(wid, window, state). ws_applied_state state = AS_Fullscreen) candidates"

definition apply_focus :: "raw_state \<Rightarrow> policy_state \<Rightarrow> policy_state option" where
  "apply_focus raw policy = do {
     candidates \<leftarrow> focus_candidates raw policy;
     if candidates = [] then Some policy
     else do {
       let selected = fst (max_element
             (focus_before (has_explicit_focus candidates) (has_fullscreen_window candidates)) candidates);
       windows \<leftarrow> at_update selected (\<lambda>s. s\<lparr>ws_focused := True\<rparr>) (ps_windows policy);
       Some (policy\<lparr>ps_windows := windows\<rparr>)
     }
   }"

section \<open>Presentation\<close>

definition presentation_state :: "window_state \<Rightarrow> window_state" where
  "presentation_state state =
     state\<lparr>ws_direct_scanout_eligible :=
        (if \<not> ws_override_redirect state \<and> ws_fullscreen_eligible state = TS_True \<and> \<not> ws_focused state
         then TS_False else TS_Unknown)\<rparr>"

definition apply_presentation_eligibility :: "policy_state \<Rightarrow> policy_state" where
  "apply_presentation_eligibility policy =
     policy\<lparr>ps_windows := RBT.map (\<lambda>_. presentation_state) (ps_windows policy)\<rparr>"

definition apply_focus_and_visibility :: "raw_state \<Rightarrow> policy_state \<Rightarrow> policy_state option" where
  "apply_focus_and_visibility raw policy = do {
     policy \<leftarrow> apply_visibility raw policy;
     policy \<leftarrow> apply_focus raw policy;
     Some (apply_presentation_eligibility policy)
   }"

section \<open>Correctness of visibility\<close>

lemma fold_at_update_distinct:
  assumes "distinct (map fst es)" "\<forall>k \<in> set (map fst es). k \<in> dom (RBT.lookup m)"
  shows "\<exists>m'. fold_option (\<lambda>(k, v). at_update k (f v)) es m = Some m' \<and>
           (\<forall>k. RBT.lookup m' k = (case map_of es k of None \<Rightarrow> RBT.lookup m k
                                   | Some v \<Rightarrow> map_option (f v) (RBT.lookup m k)))"
  using assms
proof (induction es arbitrary: m)
  case (Cons e es)
  obtain k v where e: "e = (k, v)" by (cases e)
  with Cons.prems obtain s where s: "RBT.lookup m k = Some s" by auto
  have k: "map_of es k = None" using Cons.prems(1) by (simp add: e map_of_eq_None_iff)
  have "\<forall>k' \<in> set (map fst es). k' \<in> dom (RBT.lookup (RBT.insert k (f v s) m))"
    using Cons.prems(2) by (simp add: e)
  moreover have "distinct (map fst es)" using Cons.prems(1) by simp
  ultimately obtain m' where
    m': "fold_option (\<lambda>(k, v). at_update k (f v)) es (RBT.insert k (f v s) m) = Some m'"
    "\<forall>k'. RBT.lookup m' k' = (case map_of es k' of None \<Rightarrow> RBT.lookup (RBT.insert k (f v s) m) k'
        | Some v' \<Rightarrow> map_option (f v') (RBT.lookup (RBT.insert k (f v s) m) k'))"
    using Cons.IH [of "RBT.insert k (f v s) m"] by blast
  have "at_update k (f v) m = Some (RBT.insert k (f v s) m)" using s by (simp add: map_simps)
  moreover have "RBT.lookup m' k' = (case map_of (e # es) k' of None \<Rightarrow> RBT.lookup m k'
        | Some v \<Rightarrow> map_option (f v) (RBT.lookup m k'))" for k'
    using m'(2) s k by (cases "k' = k") (auto simp: e split: option.splits)
  ultimately show ?case using m'(1) by (simp add: e)
qed simp

text \<open>A window map that agrees with another one up to visibility.\<close>

definition with_visibility ::
  "(u32 \<Rightarrow> bool) \<Rightarrow> (u32, window_state) RBT.rbt \<Rightarrow> (u32, window_state) RBT.rbt \<Rightarrow> bool" where
  "with_visibility V m m' \<longleftrightarrow>
     (\<forall>k. RBT.lookup m' k = map_option (\<lambda>s. s\<lparr>ws_visible := V k\<rparr>) (RBT.lookup m k))"

definition base_visible :: "raw_window \<Rightarrow> bool" where
  "base_visible w \<longleftrightarrow> rw_wants_map w \<and> applied_state_of w \<noteq> AS_Minimized"

text \<open>
  Visibility as a specification: a window is shown when it asks to be mapped, is not minimized
  and, for a managed transient, the window it is transient for is shown.
\<close>

definition visibility_spec :: "raw_state \<Rightarrow> (u32 \<Rightarrow> bool) \<Rightarrow> bool" where
  "visibility_spec raw V \<longleftrightarrow>
     (\<forall>k w. RBT.lookup (raw_windows raw) k = Some w \<longrightarrow>
        V k = (base_visible w \<and> (managed_transient raw k \<longrightarrow> V (rw_transient_for w))))"

lemma hide_with_parent_step:
  assumes V: "with_visibility V m windows" and "RBT.lookup m k = Some s" "ws_transient_for s = p"
    "RBT.lookup m p \<noteq> None"
  shows "\<exists>windows'. hide_with_parent k windows = Some windows' \<and>
           with_visibility (V(k := (V k \<and> V p))) m windows'"
proof -
  from assms(4) obtain t where "RBT.lookup m p = Some t" by blast
  with V assms(2) have k: "RBT.lookup windows k = Some (s\<lparr>ws_visible := V k\<rparr>)"
    "RBT.lookup windows p = Some (t\<lparr>ws_visible := V p\<rparr>)" by (simp_all add: with_visibility_def)
  then have "hide_with_parent k windows = Some (RBT.insert k (s\<lparr>ws_visible := V k \<and> V p\<rparr>) windows)"
    using assms(3) by (simp add: hide_with_parent_def)
  moreover have "with_visibility (V(k := (V k \<and> V p))) m (RBT.insert k (s\<lparr>ws_visible := V k \<and> V p\<rparr>) windows)"
    using V assms(2) by (simp add: with_visibility_def)
  ultimately show ?thesis by blast
qed

lemma hide_transients:
  assumes ok: "validate raw = EE_None" and order: "transient_parent_first raw = Some order"
    and P: "placed raw good m" and V: "with_visibility V m windows"
    and base: "\<And>k w. RBT.lookup (raw_windows raw) k = Some w \<Longrightarrow> V k = base_visible w"
  shows "\<exists>windows' V'. fold_option hide_with_parent order windows = Some windows' \<and>
           with_visibility V' m windows' \<and> visibility_spec raw V'"
proof -
  let ?spec = "\<lambda>done V'. \<forall>k w. RBT.lookup (raw_windows raw) k = Some w \<longrightarrow>
      V' k = (base_visible w \<and> (k \<in> set done \<longrightarrow> V' (rw_transient_for w)))"
  let ?I = "\<lambda>done windows. \<exists>V'. with_visibility V' m windows \<and> ?spec done V'"
  have o: "set order = {k. managed_transient raw k}" "distinct order"
    using ok order by (auto elim!: transient_parent_first_order)
  have "\<exists>windows'. fold_option hide_with_parent order windows = Some windows' \<and> ?I order windows'"
  proof (rule fold_option_invariant)
    show "?I [] windows" using V base by auto
  next
    fix "done" k rest windows
    assume split: "order = done @ k # rest" and "?I done windows"
    then obtain V' where V': "with_visibility V' m windows" "?spec done V'" by blast
    have "managed_transient raw k" using split o(1) by auto
    then obtain w where w: "RBT.lookup (raw_windows raw) k = Some w" "rw_transient_for w \<noteq> 0"
      by (auto simp: managed_transient_def)
    obtain t where t: "RBT.lookup (raw_windows raw) (rw_transient_for w) = Some t"
      using ok w by (rule accepted_parent)
    obtain s where s: "RBT.lookup m k = Some s" "placed_state raw k w s" using P w(1) by (rule placedD)
    obtain p where p: "RBT.lookup m (rw_transient_for w) = Some p" using P t by (rule placedD)
    let ?V = "V'(k := (V' k \<and> V' (rw_transient_for w)))"
    from hide_with_parent_step [OF V'(1) s(1) refl] s(2) p obtain windows' where
      h: "hide_with_parent k windows = Some windows'" "with_visibility ?V m windows'"
      by (auto simp: placed_state_def)
    have ne: "rw_transient_for w \<noteq> k" by (rule transient_parent_distinct [OF ok w(1)])
    have "k \<notin> set done" using split o(2) by simp
    then have "?spec (done @ [k]) ?V"
      using V'(2) w(1) ne parent_first_no_child [OF ok order split] by auto
    with h show "\<exists>windows'. hide_with_parent k windows = Some windows' \<and> ?I (done @ [k]) windows'" by blast
  qed
  then obtain windows' V' where "fold_option hide_with_parent order windows = Some windows'"
    "with_visibility V' m windows'" "?spec order V'" by blast
  moreover from this(3) have "visibility_spec raw V'"
    unfolding visibility_spec_def using o(1) by simp
  ultimately show ?thesis by blast
qed

lemma apply_visibility_spec:
  assumes ok: "validate raw = EE_None" and P: "placed raw good (ps_windows policy)"
  obtains windows V where "apply_visibility raw policy = Some (policy\<lparr>ps_windows := windows\<rparr>)"
    "visibility_spec raw V"
    "\<forall>k. RBT.lookup windows k =
       map_option (\<lambda>s. fullscreen_state (s\<lparr>ws_visible := V k\<rparr>)) (RBT.lookup (ps_windows policy) k)"
proof -
  obtain order where order: "transient_parent_first raw = Some order"
    using ok by (rule transient_parent_first_order)
  have "\<forall>k \<in> set (map fst (RBT.entries (raw_windows raw))). k \<in> dom (RBT.lookup (ps_windows policy))"
    using P by (auto simp: placed_def map_simps)
  from fold_at_update_distinct [OF keys_distinct_entries this, of shown_state] obtain m where
    m: "fold_option (\<lambda>(k, w). at_update k (shown_state w)) (RBT.entries (raw_windows raw)) (ps_windows policy) = Some m"
    "\<forall>k. RBT.lookup m k = (case RBT.lookup (raw_windows raw) k of None \<Rightarrow> RBT.lookup (ps_windows policy) k
       | Some w \<Rightarrow> map_option (shown_state w) (RBT.lookup (ps_windows policy) k))"
    by auto
  define V where "V k = (case RBT.lookup (raw_windows raw) k of None \<Rightarrow> False | Some w \<Rightarrow> base_visible w)" for k
  have "RBT.lookup m k = map_option (\<lambda>s. s\<lparr>ws_visible := V k\<rparr>) (RBT.lookup (ps_windows policy) k)" for k
  proof (cases "RBT.lookup (raw_windows raw) k")
    case None
    then have "RBT.lookup (ps_windows policy) k = None" using P unfolding placed_def by blast
    with m(2) None show ?thesis by simp
  next
    case (Some w)
    obtain s where "RBT.lookup (ps_windows policy) k = Some s" "placed_state raw k w s"
      using P Some by (rule placedD)
    with m(2) Some show ?thesis
      by (auto simp: V_def shown_state_def base_visible_def placed_state_def applied_state_of_def)
  qed
  then have "with_visibility V (ps_windows policy) m" by (simp add: with_visibility_def)
  then obtain windows V' where h: "fold_option hide_with_parent order m = Some windows"
    "with_visibility V' (ps_windows policy) windows" "visibility_spec raw V'"
    using hide_transients [OF ok order P, of V m] by (auto simp: V_def)
  have "apply_visibility raw policy = Some (policy\<lparr>ps_windows := RBT.map (\<lambda>_. fullscreen_state) windows\<rparr>)"
    using m(1) order h(1) by (simp add: apply_visibility_def)
  then show ?thesis
    using h(2) by (intro that [OF _ h(3)]) (auto simp: with_visibility_def option.map_comp comp_def)
qed

section \<open>Correctness of focus\<close>

lemma max_element_maximal:
  fixes key :: "'a \<Rightarrow> 'k::linorder"
  assumes "xs \<noteq> []" "\<And>a b. before a b \<longleftrightarrow> key a < key b"
  shows "max_element before xs \<in> set xs \<and> (\<forall>x \<in> set xs. key x \<le> key (max_element before xs))"
proof -
  have "fold (\<lambda>x b. if before b x then x else b) ys b \<in> insert b (set ys) \<and>
        (\<forall>x \<in> insert b (set ys). key x \<le> key (fold (\<lambda>x b. if before b x then x else b) ys b))" for ys b
  proof (induction ys arbitrary: b)
    case (Cons y ys)
    show ?case using Cons [of b] Cons [of y] by (cases "before b y") (auto simp: assms(2) not_less)
  qed simp
  from this [of "tl xs" "hd xs"] show ?thesis
    using assms(1) by (cases xs) (simp_all add: max_element_def)
qed

definition focus_spec :: "focus_entry list \<Rightarrow> u32 option \<Rightarrow> bool" where
  "focus_spec cs focus \<longleftrightarrow>
     (if cs = [] then focus = None
      else \<exists>c \<in> set cs. focus = Some (fst c) \<and>
             (\<forall>c' \<in> set cs. \<not> focus_before (has_explicit_focus cs) (has_fullscreen_window cs) c c'))"

lemma selected_focus_spec:
  assumes "cs \<noteq> []"
  shows "focus_spec cs (Some (fst (max_element (focus_before (has_explicit_focus cs) (has_fullscreen_window cs)) cs)))"
proof -
  let ?before = "focus_before (has_explicit_focus cs) (has_fullscreen_window cs)"
  let ?rank = "focus_rank (has_fullscreen_window cs)"
  let ?w = "\<lambda>c :: focus_entry. fst (snd c)"
  have "max_element ?before cs \<in> set cs \<and> (\<forall>c \<in> set cs. \<not> ?before (max_element ?before cs) c)"
  proof (cases "has_explicit_focus cs")
    case True
    have "?before a b \<longleftrightarrow>
      (?rank a, rw_focus_serial (?w a), rw_map_serial (?w a), rw_creation_serial (?w a), rw_window_id (?w a))
      < (?rank b, rw_focus_serial (?w b), rw_map_serial (?w b), rw_creation_serial (?w b), rw_window_id (?w b))" for a b
      using True by (simp only: focus_before_def Let_def if_True)
    from max_element_maximal [where key = "\<lambda>a. (?rank a, rw_focus_serial (?w a), rw_map_serial (?w a),
        rw_creation_serial (?w a), rw_window_id (?w a))", OF assms this] show ?thesis
      unfolding \<open>\<And>b a. ?before a b \<longleftrightarrow> _\<close> not_less by blast
  next
    case False
    have "?before a b \<longleftrightarrow> (?rank a, rw_map_serial (?w a), rw_creation_serial (?w a), rw_window_id (?w a))
      < (?rank b, rw_map_serial (?w b), rw_creation_serial (?w b), rw_window_id (?w b))" for a b
      using False by (simp only: focus_before_def Let_def if_False)
    from max_element_maximal [where key = "\<lambda>a. (?rank a, rw_map_serial (?w a),
        rw_creation_serial (?w a), rw_window_id (?w a))", OF assms this] show ?thesis
      unfolding \<open>\<And>b a. ?before a b \<longleftrightarrow> _\<close> not_less by blast
  qed
  with assms show ?thesis unfolding focus_spec_def by auto
qed

lemma focus_candidates_spec:
  assumes "same_keys raw policy"
  obtains cs where "focus_candidates raw policy = Some cs"
    "\<forall>k w s. (k, w, s) \<in> set cs \<longleftrightarrow> RBT.lookup (raw_windows raw) k = Some w \<and>
       RBT.lookup (ps_windows policy) k = Some s \<and>
       ws_visible s \<and> \<not> rw_override_redirect w \<and> rw_flags w AND kInputDisabledFlag = 0"
proof -
  let ?f = "\<lambda>(wid, window). map_option
          (\<lambda>state. if ws_visible state \<and> \<not> rw_override_redirect window \<and>
                       rw_flags window AND kInputDisabledFlag = 0
                    then [(wid, window, state)] else [])
          (RBT.lookup (ps_windows policy) wid)"
  have d: "\<forall>e \<in> set (RBT.entries (raw_windows raw)). ?f e \<noteq> None"
    using same_keysD [OF assms] by (auto simp: map_simps)
  have "focus_candidates raw policy = Some (concat (map (the \<circ> ?f) (RBT.entries (raw_windows raw))))"
    unfolding focus_candidates_def using d by (rule concat_option_Some)
  moreover have "(k, w, s) \<in> set (concat (map (the \<circ> ?f) (RBT.entries (raw_windows raw)))) \<longleftrightarrow>
       RBT.lookup (raw_windows raw) k = Some w \<and> RBT.lookup (ps_windows policy) k = Some s \<and>
       ws_visible s \<and> \<not> rw_override_redirect w \<and> rw_flags w AND kInputDisabledFlag = 0" (is "?l \<longleftrightarrow> ?r") for k w s
  proof
    assume ?l
    then obtain k' w' where e: "RBT.lookup (raw_windows raw) k' = Some w'" "(k, w, s) \<in> set (the (?f (k', w')))"
      by (auto simp: map_simps)
    from same_keysD [OF assms e(1)] obtain s' where "RBT.lookup (ps_windows policy) k' = Some s'" by blast
    with e show ?r by (auto split: if_splits)
  next
    assume r: ?r
    then have "(k, w) \<in> set (RBT.entries (raw_windows raw))" "(k, w, s) \<in> set (the (?f (k, w)))"
      by (simp_all add: map_simps)
    then show ?l by (auto intro!: bexI [of _ "(k, w)"])
  qed
  ultimately show ?thesis using that by blast
qed

lemma apply_focus_spec:
  assumes "same_keys raw policy"
  obtains windows cs focus where "apply_focus raw policy = Some (policy\<lparr>ps_windows := windows\<rparr>)"
    "focus_candidates raw policy = Some cs" "focus_spec cs focus"
    "\<forall>k. RBT.lookup windows k =
       map_option (\<lambda>s. s\<lparr>ws_focused := (focus = Some k \<or> ws_focused s)\<rparr>) (RBT.lookup (ps_windows policy) k)"
proof -
  obtain cs where cs: "focus_candidates raw policy = Some cs"
    "\<forall>k w s. (k, w, s) \<in> set cs \<longrightarrow> RBT.lookup (ps_windows policy) k = Some s"
    using assms by (rule focus_candidates_spec) blast
  show ?thesis
  proof (cases "cs = []")
    case True
    show ?thesis
      by (rule that [of "ps_windows policy" cs None])
        (use True cs in \<open>simp_all add: apply_focus_def focus_spec_def option.map_ident\<close>)
  next
    case False
    define c where "c = max_element (focus_before (has_explicit_focus cs) (has_fullscreen_window cs)) cs"
    have spec: "focus_spec cs (Some (fst c))" unfolding c_def by (rule selected_focus_spec [OF False])
    then obtain w s where "(fst c, w, s) \<in> set cs"
      using False unfolding focus_spec_def by (metis option.inject prod.collapse)
    with cs(2) have s: "RBT.lookup (ps_windows policy) (fst c) = Some s" by blast
    let ?windows = "RBT.insert (fst c) (s\<lparr>ws_focused := True\<rparr>) (ps_windows policy)"
    have "apply_focus raw policy = Some (policy\<lparr>ps_windows := ?windows\<rparr>)"
      using cs(1) False s by (simp add: apply_focus_def at_update_def flip: c_def)
    moreover have "RBT.lookup ?windows k =
       map_option (\<lambda>s. s\<lparr>ws_focused := (Some (fst c) = Some k \<or> ws_focused s)\<rparr>) (RBT.lookup (ps_windows policy) k)" for k
      using s by (simp add: option.map_ident)
    ultimately show ?thesis using that cs(1) spec by blast
  qed
qed

section \<open>The whole pass\<close>

text \<open>
  The state of a window after the pass: its visibility, whether it has the focus and the two
  eligibilities have changed, the rest is as the placement left it.
\<close>

definition settled_state :: "bool \<Rightarrow> bool \<Rightarrow> window_state \<Rightarrow> window_state" where
  "settled_state visible focused s =
     s\<lparr>ws_visible := visible, ws_focused := focused,
       ws_fullscreen_eligible :=
         (if ws_override_redirect s then TS_Unknown
          else if visible \<and> ws_applied_state s = AS_Fullscreen then TS_True else TS_False),
       ws_direct_scanout_eligible :=
         (if \<not> ws_override_redirect s \<and> visible \<and> ws_applied_state s = AS_Fullscreen \<and> \<not> focused
          then TS_False else TS_Unknown)\<rparr>"

text \<open>The windows that may take the focus when \<open>V\<close> are the visible ones.\<close>

definition focusable :: "raw_state \<Rightarrow> (u32 \<Rightarrow> bool) \<Rightarrow> u32 \<Rightarrow> bool" where
  "focusable raw V k \<longleftrightarrow>
     (\<exists>w. RBT.lookup (raw_windows raw) k = Some w \<and> V k \<and> \<not> rw_override_redirect w \<and>
        rw_flags w AND kInputDisabledFlag = 0)"

definition fullscreen_in :: "raw_state \<Rightarrow> u32 \<Rightarrow> bool" where
  "fullscreen_in raw k \<longleftrightarrow>
     (\<exists>w. RBT.lookup (raw_windows raw) k = Some w \<and> applied_state_of w = AS_Fullscreen)"

text \<open>
  What the focus promises: some focusable window has it if there is one; a focusable
  fullscreen window can lose it only to a transient or to another fullscreen window; among
  windows of the same kind the most recently focused one wins.
\<close>

definition focus_promise :: "raw_state \<Rightarrow> (u32 \<Rightarrow> bool) \<Rightarrow> u32 option \<Rightarrow> bool" where
  "focus_promise raw V focus \<longleftrightarrow>
     (focus = None \<longleftrightarrow> (\<forall>k. \<not> focusable raw V k)) \<and>
     (\<forall>k. focus = Some k \<longrightarrow> focusable raw V k \<and>
        ((\<exists>f. focusable raw V f \<and> fullscreen_in raw f) \<longrightarrow>
            fullscreen_in raw k \<or> managed_transient raw k) \<and>
        (\<forall>k' w w'. focusable raw V k' \<longrightarrow> RBT.lookup (raw_windows raw) k = Some w \<longrightarrow>
           RBT.lookup (raw_windows raw) k' = Some w' \<longrightarrow> rw_transient_for w = 0 \<longrightarrow> rw_transient_for w' = 0 \<longrightarrow>
           applied_state_of w = applied_state_of w' \<longrightarrow> rw_focus_serial w' \<le> rw_focus_serial w))"

lemma not_before_rank: "\<not> focus_before e f l r \<Longrightarrow> focus_rank f r \<le> focus_rank f l"
  by (auto simp: focus_before_def Let_def not_less split: if_splits)

lemma not_before_serial:
  "\<not> focus_before True f l r \<Longrightarrow> focus_rank f l = focus_rank f r \<Longrightarrow>
     rw_focus_serial (fst (snd r)) \<le> rw_focus_serial (fst (snd l))"
  by (auto simp: focus_before_def Let_def not_less)

lemma focus_spec_promise:
  assumes cs: "\<forall>k w s. (k, w, s) \<in> set cs \<longleftrightarrow> RBT.lookup (raw_windows raw) k = Some w \<and>
       RBT.lookup m k = Some s \<and> ws_visible s \<and> \<not> rw_override_redirect w \<and> rw_flags w AND kInputDisabledFlag = 0"
    and m: "\<And>k w. RBT.lookup (raw_windows raw) k = Some w \<Longrightarrow>
       \<exists>s. RBT.lookup m k = Some s \<and> ws_visible s = V k \<and> ws_applied_state s = applied_state_of w"
    and spec: "focus_spec cs focus"
  shows "focus_promise raw V focus"
proof -
  have cand: "focusable raw V k \<longleftrightarrow> (\<exists>w s. (k, w, s) \<in> set cs)" for k
    using cs m unfolding focusable_def by (metis option.inject)
  have entry: "RBT.lookup (raw_windows raw) k = Some w \<and> ws_applied_state s = applied_state_of w"
    if "(k, w, s) \<in> set cs" for k w s
    using that cs m by (metis option.inject)
  have none: "focus = None \<longleftrightarrow> (\<forall>k. \<not> focusable raw V k)"
    using spec unfolding cand focus_spec_def
    by (metis (no_types, lifting) list.set_intros(1) neq_Nil_conv option.distinct(1) prod_cases3
        empty_iff list.set(1))
  have some: "focusable raw V k \<and> ((\<exists>f. focusable raw V f \<and> fullscreen_in raw f) \<longrightarrow>
        fullscreen_in raw k \<or> managed_transient raw k) \<and>
      (\<forall>k' w w'. focusable raw V k' \<longrightarrow> RBT.lookup (raw_windows raw) k = Some w \<longrightarrow>
           RBT.lookup (raw_windows raw) k' = Some w' \<longrightarrow> rw_transient_for w = 0 \<longrightarrow> rw_transient_for w' = 0 \<longrightarrow>
           applied_state_of w = applied_state_of w' \<longrightarrow> rw_focus_serial w' \<le> rw_focus_serial w)"
    if "focus = Some k" for k
  proof -
    from that spec obtain w s where c: "(k, w, s) \<in> set cs" and
      best: "\<forall>c' \<in> set cs. \<not> focus_before (has_explicit_focus cs) (has_fullscreen_window cs) (k, w, s) c'"
      unfolding focus_spec_def by (auto split: if_splits)
    note e = entry [OF c]
    have full: "fullscreen_in raw k \<or> managed_transient raw k"
      if "focusable raw V f" "fullscreen_in raw f" for f
    proof -
      from that(1) obtain w' s' where c': "(f, w', s') \<in> set cs" unfolding cand by blast
      with entry [OF c'] that(2) have f: "ws_applied_state s' = AS_Fullscreen" by (auto simp: fullscreen_in_def)
      then have hf: "has_fullscreen_window cs" using c' by (force simp: has_fullscreen_window_def list_ex_iff)
      have "focus_rank True (f, w', s') \<le> focus_rank True (k, w, s)"
        using best c' hf not_before_rank [of "has_explicit_focus cs" True] by auto
      then have "ws_applied_state s = AS_Fullscreen \<or> rw_transient_for w \<noteq> 0"
        using f by (auto simp: focus_rank_def split: if_splits)
      then show ?thesis using e cs c by (auto simp: fullscreen_in_def managed_transient_def)
    qed
    have serial: "rw_focus_serial w' \<le> rw_focus_serial w"
      if c': "(k', w', s') \<in> set cs" and "rw_transient_for w = 0" "rw_transient_for w' = 0"
        "applied_state_of w = applied_state_of w'" for k' w' s'
    proof (cases "rw_focus_serial w' = 0")
      case False
      then have "has_explicit_focus cs" using c' by (force simp: has_explicit_focus_def list_ex_iff)
      moreover have "focus_rank h (k, w, s) = focus_rank h (k', w', s')" for h
        using that(2-4) e entry [OF c'] by (simp add: focus_rank_def)
      ultimately show ?thesis
        using best c' not_before_serial [of "has_fullscreen_window cs" "(k, w, s)" "(k', w', s')"] by auto
    qed simp
    have "focusable raw V k" using c cand by blast
    then show ?thesis
      using full serial entry cand e by (intro conjI allI impI; metis option.inject)
  qed
  show ?thesis unfolding focus_promise_def using none some by blast
qed

lemma apply_focus_and_visibility_spec:
  assumes ok: "validate raw = EE_None" and P: "placed raw good (ps_windows policy)"
  obtains windows V focus where
    "apply_focus_and_visibility raw policy = Some (policy\<lparr>ps_windows := windows\<rparr>)"
    "visibility_spec raw V" "focus_promise raw V focus"
    "\<forall>k. RBT.lookup windows k =
       map_option (settled_state (V k) (focus = Some k)) (RBT.lookup (ps_windows policy) k)"
proof -
  obtain windows V where v: "apply_visibility raw policy = Some (policy\<lparr>ps_windows := windows\<rparr>)"
    "visibility_spec raw V"
    "\<forall>k. RBT.lookup windows k =
       map_option (\<lambda>s. fullscreen_state (s\<lparr>ws_visible := V k\<rparr>)) (RBT.lookup (ps_windows policy) k)"
    using assms by (rule apply_visibility_spec)
  let ?policy = "policy\<lparr>ps_windows := windows\<rparr>"
  have keys: "same_keys raw ?policy"
    using P v(3) by (simp add: same_keys_def placed_def dom_def)
  obtain windows' cs focus where f: "apply_focus raw ?policy = Some (?policy\<lparr>ps_windows := windows'\<rparr>)"
    "focus_candidates raw ?policy = Some cs" "focus_spec cs focus"
    "\<forall>k. RBT.lookup windows' k =
       map_option (\<lambda>s. s\<lparr>ws_focused := (focus = Some k \<or> ws_focused s)\<rparr>) (RBT.lookup (ps_windows ?policy) k)"
    using keys by (rule apply_focus_spec)
  have cs: "\<forall>k w s. (k, w, s) \<in> set cs \<longleftrightarrow> RBT.lookup (raw_windows raw) k = Some w \<and>
       RBT.lookup windows k = Some s \<and>
       ws_visible s \<and> \<not> rw_override_redirect w \<and> rw_flags w AND kInputDisabledFlag = 0"
    using keys f(2) by (auto elim!: focus_candidates_spec)
  have "\<exists>s. RBT.lookup windows k = Some s \<and> ws_visible s = V k \<and> ws_applied_state s = applied_state_of w"
    if w: "RBT.lookup (raw_windows raw) k = Some w" for k w
  proof -
    obtain s where "RBT.lookup (ps_windows policy) k = Some s" "placed_state raw k w s" using P w by (rule placedD)
    with v(3) show ?thesis by (simp add: fullscreen_state_def placed_state_def)
  qed
  from focus_spec_promise [OF cs this f(3)] have promise: "focus_promise raw V focus" .
  have "RBT.lookup (RBT.map (\<lambda>_. presentation_state) windows') k =
       map_option (settled_state (V k) (focus = Some k)) (RBT.lookup (ps_windows policy) k)" for k
  proof (cases "RBT.lookup (ps_windows policy) k")
    case (Some s)
    with P obtain w where "placed_state raw k w s" unfolding placed_def by (metis domD domI)
    with Some v(3) f(4) show ?thesis
      by (auto simp: presentation_state_def fullscreen_state_def settled_state_def placed_state_def)
  qed (use v(3) f(4) in simp)
  moreover have "apply_focus_and_visibility raw policy =
      Some (policy\<lparr>ps_windows := RBT.map (\<lambda>_. presentation_state) windows'\<rparr>)"
    using v(1) f(1) by (simp add: apply_focus_and_visibility_def apply_presentation_eligibility_def)
  ultimately show ?thesis using that v(2) promise by blast
qed

end
