(* ===== verification/Wm_Hash.thy ===== *)
theory Wm_Hash
  imports Wm_Types Bytes
begin

text \<open>
  The policy hash (\<open>wm/policy_hash.cpp\<close>): the wire form of a window state and the FNV-1a hash of
  a whole policy, which producers and consumers compare to agree on the committed policy.
\<close>

section \<open>The wire form of a window state\<close>

definition encode_policy_window_state :: "window_state \<Rightarrow> u8 list" where
  "encode_policy_window_state state =
     little_bytes 4 (ws_window_id state) @
     little_bytes 4 (ws_transient_for state) @
     little_bytes 4 (ws_workspace_id state) @
     little_bytes 4 (0 :: u32) @
     little_bytes 8 (ws_output_id state) @
     little_bytes 4 (ws_final_x state) @
     little_bytes 4 (ws_final_y state) @
     little_bytes 4 (ws_final_width state) @
     little_bytes 4 (ws_final_height state) @
     little_bytes 4 (ws_stacking state) @
     little_bytes 2 (word_of_nat (window_type_value (ws_window_type state)) :: u16) @
     little_bytes 2 (word_of_nat (applied_state_value (ws_applied_state state)) :: u16) @
     [bool_byte (ws_visible state),
      bool_byte (ws_focused state),
      bool_byte (ws_managed state),
      bool_byte (ws_decoration_eligible state),
      bool_byte (ws_override_redirect state),
      bool_byte (ws_attention_requested state),
      word_of_nat (tri_state_value (ws_fullscreen_eligible state)),
      word_of_nat (tri_state_value (ws_direct_scanout_eligible state))] @
     little_bytes 4 (0 :: u32) @
     little_bytes 4 (0 :: u32)"

section \<open>Hashing\<close>

definition tag_bytes :: "string \<Rightarrow> u8 list" where
  "tag_bytes tag = map of_char tag"

definition hash_context :: "u64 \<Rightarrow> wm_context \<Rightarrow> u64" where
  "hash_context hash context =
     (let hash = hash_little 4 hash (ucast (root_window_id context));
          hash = hash_little 4 hash (ucast (context_workspace_id context));
          hash = hash_little 8 hash (context_output_id context);
          hash = hash_little 4 hash (ucast (work_x context));
          hash = hash_little 4 hash (ucast (work_y context));
          hash = hash_little 4 hash (ucast (work_width context));
          hash = hash_little 4 hash (ucast (work_height context))
      in hash_little 4 hash (ucast (context_flags context)))"

definition hash_rectangle :: "u64 \<Rightarrow> wm_rectangle \<Rightarrow> u64" where
  "hash_rectangle hash r =
     (let hash = hash_little 4 hash (ucast (rect_x r));
          hash = hash_little 4 hash (ucast (rect_y r));
          hash = hash_little 4 hash (ucast (rect_width r))
      in hash_little 4 hash (ucast (rect_height r)))"

definition hash_output :: "u64 \<Rightarrow> output_context \<Rightarrow> u64" where
  "hash_output hash output =
     (let hash = hash_little 8 hash (oc_output_id output);
          hash = hash_rectangle hash (oc_logical output);
          hash = hash_rectangle hash (oc_work output);
          hash = hash_little 4 hash (ucast (oc_scale_numerator output));
          hash = hash_little 4 hash (ucast (oc_scale_denominator output));
          hash = hash_little 1 hash (word_of_nat (output_transform_value (oc_transform output)));
          hash = hash_little 1 hash (ucast (bool_byte (oc_enabled output)));
          hash = hash_little 1 hash (ucast (bool_byte (oc_primary output)))
      in hash_little 4 hash (ucast (oc_flags output)))"

definition hash_hint :: "u64 \<Rightarrow> window_output_hint \<Rightarrow> u64" where
  "hash_hint hash hint =
     (let hash = hash_little 4 hash (ucast (hint_window_id hint));
          hash = hash_little 8 hash (hint_previous_output_id hint);
          hash = hash_little 8 hash (hint_preferred_output_id hint)
      in hash_little 4 hash (ucast (hint_flags hint)))"

definition hash_size :: "u64 \<Rightarrow> nat \<Rightarrow> u64" where
  "hash_size hash n = hash_little 4 hash (ucast (word_of_nat n :: u32))"

text \<open>Everything the policy hash absorbs before the windows.\<close>

definition hash_header :: "policy_state \<Rightarrow> u64" where
  "hash_header policy =
     (let tag = (if RBT.is_empty (ps_outputs policy) then ''glasswyrm-policy-v1'' else ''glasswyrm-policy-v3'');
          hash = hash_bytes hash_basis (tag_bytes tag);
          hash = hash_little 8 hash (ps_generation policy);
          hash = hash_context hash (ps_context policy)
      in if RBT.is_empty (ps_outputs policy) then hash
         else let hash = hash_size hash (map_size (ps_outputs policy));
                  hash = fold (\<lambda>(oid, output) hash. hash_output hash output) (RBT.entries (ps_outputs policy)) hash;
                  hash = hash_size hash (map_size (ps_output_hints policy))
              in fold (\<lambda>(wid, hint) hash. hash_hint hash hint) (RBT.entries (ps_output_hints policy)) hash)"

definition policy_hash :: "policy_state \<Rightarrow> u64 option" where
  "policy_hash policy =
     fold_option (\<lambda>wid hash. map_option (\<lambda>s. hash_bytes hash (encode_policy_window_state s))
                              (RBT.lookup (ps_windows policy) wid))
       (ps_output_order policy) (hash_header policy)"

definition interactive_policy_hash :: "policy_state \<Rightarrow> interactive_bindings \<Rightarrow> u64" where
  "interactive_policy_hash policy bindings =
     (let tag = (if RBT.is_empty (ps_outputs policy) then ''glasswyrm-policy-v2'' else ''glasswyrm-policy-v3'');
          hash = hash_bytes hash_basis (tag_bytes tag);
          hash = hash_little 8 hash (ps_hash policy);
          hash = hash_little 2 hash (ucast (move_modifiers bindings));
          hash = hash_little 2 hash (ucast (resize_modifiers bindings));
          hash = hash_little 2 hash (ucast (close_modifiers bindings));
          hash = hash_little 1 hash (ucast (move_button bindings));
          hash = hash_little 1 hash (ucast (resize_button bindings));
          hash = hash_little 4 hash (ucast (close_keysym bindings));
          hash = hash_little 4 hash (ucast (minimum_width bindings));
          hash = hash_little 4 hash (ucast (minimum_height bindings));
          hash = hash_little 1 hash (ucast (bool_byte (raise_on_focus bindings)))
      in hash_little 1 hash (ucast (bool_byte (consume_wm_bindings bindings))))"

section \<open>The wire form determines the state\<close>

lemma length_encode_policy_window_state: "length (encode_policy_window_state s) = 64"
  by (simp add: encode_policy_window_state_def)

lemma little_bytes_inject_widths [simp]:
  "little_bytes 2 (a :: u16) = little_bytes 2 b \<longleftrightarrow> a = b"
  "little_bytes 4 (c :: u32) = little_bytes 4 d \<longleftrightarrow> c = d"
  "little_bytes 8 (e :: u64) = little_bytes 8 f \<longleftrightarrow> e = f"
  by (intro little_bytes_inject; simp)+

definition known_window_type :: "window_type \<Rightarrow> bool" where
  "known_window_type t \<longleftrightarrow> t \<in> {WT_Unknown, WT_Normal, WT_Dialog, WT_Utility}"

lemma window_type_value_inject:
  "known_window_type a \<Longrightarrow> known_window_type b \<Longrightarrow>
     (word_of_nat (window_type_value a) :: u16) = word_of_nat (window_type_value b) \<longleftrightarrow> a = b"
  by (auto simp: known_window_type_def)

lemma applied_state_value_inject:
  "(word_of_nat (applied_state_value a) :: u16) = word_of_nat (applied_state_value b) \<longleftrightarrow> a = b"
  by (cases a; cases b) simp_all

lemma tri_state_value_inject:
  "(word_of_nat (tri_state_value a) :: u8) = word_of_nat (tri_state_value b) \<longleftrightarrow> a = b"
  by (cases a; cases b) simp_all

lemma encode_policy_window_state_inject:
  assumes "known_window_type (ws_window_type a)" "known_window_type (ws_window_type b)"
    "encode_policy_window_state a = encode_policy_window_state b"
  shows "a = (b :: window_state)"
  using assms
  by (cases a, cases b) (simp add: encode_policy_window_state_def window_type_value_inject
      applied_state_value_inject tri_state_value_inject)

section \<open>The hash of a policy\<close>

lemma policy_hash_total:
  assumes "set (ps_output_order policy) \<subseteq> dom (RBT.lookup (ps_windows policy))"
  shows "policy_hash policy \<noteq> None"
proof -
  have "\<exists>h'. fold_option (\<lambda>wid hash. map_option (\<lambda>s. hash_bytes hash (encode_policy_window_state s))
             (RBT.lookup (ps_windows policy) wid)) (ps_output_order policy) h = Some h' \<and> True" for h
    using assms by (intro fold_option_keeps) auto
  then show ?thesis by (auto simp: policy_hash_def)
qed

text \<open>The stream of window encodings that follows the header.\<close>

definition window_stream :: "policy_state \<Rightarrow> u8 list option" where
  "window_stream policy =
     fold_option (\<lambda>wid bs. map_option (\<lambda>s. bs @ encode_policy_window_state s) (RBT.lookup (ps_windows policy) wid))
       (ps_output_order policy) []"

lemma fold_hash_stream:
  "fold_option (\<lambda>wid hash. map_option (\<lambda>s. hash_bytes hash (encode_policy_window_state s)) (RBT.lookup m wid))
      ks (hash_bytes h bs) =
   map_option (hash_bytes h)
     (fold_option (\<lambda>wid bs. map_option (\<lambda>s. bs @ encode_policy_window_state s) (RBT.lookup m wid)) ks bs)"
proof (induction ks arbitrary: bs)
  case (Cons k ks)
  then show ?case
  proof (cases "RBT.lookup m k")
    case (Some s)
    then show ?thesis using Cons [of "bs @ encode_policy_window_state s"] by simp
  qed simp
qed simp

lemma policy_hash_stream:
  "policy_hash policy = map_option (hash_bytes (hash_header policy)) (window_stream policy)"
  using fold_hash_stream [of "ps_windows policy" "ps_output_order policy" "hash_header policy" "[]"]
  by (simp add: policy_hash_def window_stream_def)

section \<open>Properties\<close>

text \<open>
  The wire form of a window state is 64 bytes long and determines the state: two states of
  known window types with the same bytes are equal.
\<close>

lemma encode_policy_window_state_faithful:
  assumes "known_window_type (ws_window_type a)" "known_window_type (ws_window_type b)"
  shows "length (encode_policy_window_state a) = 64 \<and>
     (encode_policy_window_state a = encode_policy_window_state b \<longleftrightarrow> a = b)"
  using length_encode_policy_window_state encode_policy_window_state_inject [OF assms] by blast

text \<open>
  The policy hash detects every change of a single byte of the encoded windows: two policies
  with the same header whose window streams differ in exactly one byte have different hashes.
\<close>

lemma policy_hash_detects_byte:
  assumes "hash_header p = hash_header q" "window_stream p = Some (as @ a # bs)"
    "window_stream q = Some (as @ b # bs)" "a \<noteq> b"
  shows "policy_hash p \<noteq> policy_hash q"
  using assms hash_bytes_one_byte [of "hash_header q" as a bs b] by (simp add: policy_hash_stream)

end
