(* ===== verification/Wm_Engine.thy ===== *)
theory Wm_Engine
  imports Wm_Multi_Output Wm_Focus Wm_Hash
begin

text \<open>
  The policy engine (\<open>wm/policy_engine.cpp\<close>): validation, placement, visibility and focus,
  stacking, and the hash, composed. The lemmas about the steps after the placement are proved
  once for any placement, and then used for the single-output and the multi-output one.
\<close>

section \<open>Evaluation\<close>

definition evaluate :: "raw_state \<Rightarrow> u64 \<Rightarrow> evaluation option" where
  "evaluate raw generation =
     (let error = validate raw in
      if error \<noteq> EE_None \<or> generation = 0 then
        Some (default_evaluation\<lparr>eval_error :=
          (if generation = 0 \<and> error = EE_None then EE_InvalidWindow else error)\<rparr>)
      else do {
        let policy = default_policy_state\<lparr>ps_generation := generation, ps_context := raw_context raw\<rparr>;
        policy \<leftarrow> (if RBT.is_empty (raw_outputs raw) then do {
                      policy \<leftarrow> apply_placement_and_fullscreen_geometry raw policy;
                      Some (assign_outputs raw policy)
                    }
                    else apply_multi_output_geometry raw policy);
        policy \<leftarrow> apply_focus_and_visibility raw policy;
        policy \<leftarrow> apply_stacking_and_transient_ordering raw policy;
        hash \<leftarrow> policy_hash policy;
        Some \<lparr>eval_error = EE_None, eval_policy = policy\<lparr>ps_hash := hash\<rparr>\<rparr>
      })"

section \<open>What an evaluation promises\<close>

text \<open>The fields of a window state that only depend on the raw window and on its visibility.\<close>

definition settled :: "raw_state \<Rightarrow> u32 \<Rightarrow> raw_window \<Rightarrow> window_state \<Rightarrow> bool" where
  "settled raw wid w s \<longleftrightarrow>
     ws_window_id s = wid \<and> ws_transient_for s = rw_transient_for w \<and>
     ws_workspace_id s = context_workspace_id (raw_context raw) \<and>
     ws_window_type s = rw_window_type w \<and> ws_applied_state s = applied_state_of w \<and>
     ws_managed s = (\<not> rw_override_redirect w) \<and> ws_override_redirect s = rw_override_redirect w \<and>
     ws_attention_requested s = rw_attention_requested w \<and>
     ws_decoration_eligible s = decoration w (applied_state_of w) \<and>
     ws_fullscreen_eligible s =
       (if rw_override_redirect w then TS_Unknown
        else if ws_visible s \<and> applied_state_of w = AS_Fullscreen then TS_True else TS_False) \<and>
     ws_direct_scanout_eligible s =
       (if ws_fullscreen_eligible s = TS_True \<and> \<not> ws_focused s then TS_False else TS_Unknown)"

text \<open>The position of every window in the output order is its stacking number.\<close>

definition numbered :: "policy_state \<Rightarrow> u32 list \<Rightarrow> u32 list \<Rightarrow> bool" where
  "numbered policy shown hidden \<longleftrightarrow>
     ps_output_order policy = shown @ hidden \<and> distinct (shown @ hidden) \<and>
     set hidden = {k. visible_at policy k = Some False} \<and>
     (\<forall>i < length shown. map_option ws_stacking (RBT.lookup (ps_windows policy) (shown ! i)) = Some (i32_of (int i))) \<and>
     (\<forall>k \<in> set hidden. map_option ws_stacking (RBT.lookup (ps_windows policy) k) = Some (-1))"

definition arranged ::
  "raw_state \<Rightarrow> (raw_window \<Rightarrow> window_state \<Rightarrow> bool) \<Rightarrow> policy_state \<Rightarrow> u32 option \<Rightarrow> u32 list \<Rightarrow> u32 list \<Rightarrow> u32 list \<Rightarrow> bool" where
  "arranged raw good policy focus trees overs hidden \<longleftrightarrow>
     same_keys raw policy \<and>
     (\<forall>k w s. RBT.lookup (raw_windows raw) k = Some w \<longrightarrow> RBT.lookup (ps_windows policy) k = Some s \<longrightarrow>
        settled raw k w s \<and> good w s \<and> (ws_focused s \<longleftrightarrow> focus = Some k)) \<and>
     all_follow raw (ps_windows policy) \<and>
     visibility_spec raw (visible_in policy) \<and> focus_promise raw (visible_in policy) focus \<and>
     stacking_spec raw policy trees overs \<and> numbered policy (trees @ overs) hidden"

section \<open>Visibility, focus and stacking after any placement\<close>

lemma visibility_spec_cong:
  assumes "validate raw = EE_None" "\<And>k w. RBT.lookup (raw_windows raw) k = Some w \<Longrightarrow> V k = V' k"
    "visibility_spec raw V"
  shows "visibility_spec raw V'"
  unfolding visibility_spec_def
proof (intro allI impI)
  fix k w
  assume w: "RBT.lookup (raw_windows raw) k = Some w"
  have "V (rw_transient_for w) = V' (rw_transient_for w)" if "managed_transient raw k"
  proof -
    have "rw_transient_for w \<noteq> 0" using that w by (auto simp: managed_transient_def)
    then obtain t where "RBT.lookup (raw_windows raw) (rw_transient_for w) = Some t"
      using assms(1) w by (auto elim: accepted_parent)
    then show ?thesis by (rule assms(2))
  qed
  with assms(2) [OF w] assms(3) w
  show "V' k = (base_visible w \<and> (managed_transient raw k \<longrightarrow> V' (rw_transient_for w)))"
    unfolding visibility_spec_def by metis
qed

lemma focus_promise_cong:
  assumes "\<And>k w. RBT.lookup (raw_windows raw) k = Some w \<Longrightarrow> V k = V' k" "focus_promise raw V focus"
  shows "focus_promise raw V' focus"
proof -
  have "focusable raw V = focusable raw V'" using assms(1) by (auto simp: focusable_def fun_eq_iff)
  with assms(2) show ?thesis by (simp add: focus_promise_def)
qed

lemma visibility_spec_closed:
  assumes "visibility_spec raw (visible_in policy)"
  shows "visibility_closed raw policy"
  using assms unfolding visibility_spec_def visibility_closed_def managed_transient_def by blast

lemma stacking_spec_cong:
  assumes "\<And>k. visible_at policy' k = visible_at policy k"
    "\<And>k. not_fullscreen_at policy' k = not_fullscreen_at policy k" "stacking_spec raw policy trees overs"
  shows "stacking_spec raw policy' trees overs"
proof -
  have "visible_managed raw policy' = visible_managed raw policy"
    "visible_overrides raw policy' = visible_overrides raw policy"
    "visible_root raw policy' = visible_root raw policy" "tree_child raw policy' = tree_child raw policy"
    by (auto simp: visible_managed_def visible_overrides_def visible_root_def tree_child_def assms(1) fun_eq_iff)
  with assms(3) show ?thesis unfolding stacking_spec_def assms(2) by metis
qed

lemma transients_follow_cong:
  assumes "\<And>k. map_option ws_output_id (RBT.lookup m' k) = map_option ws_output_id (RBT.lookup m k)"
    "transients_follow raw ks m"
  shows "transients_follow raw ks m'"
  unfolding transients_follow_def
proof (intro ballI allI impI)
  fix k w s p
  assume "k \<in> ks" "RBT.lookup (raw_windows raw) k = Some w"
    and s: "RBT.lookup m' k = Some s" and p: "RBT.lookup m' (rw_transient_for w) = Some p"
  moreover obtain s0 where "RBT.lookup m k = Some s0" "ws_output_id s0 = ws_output_id s"
    using assms(1) [of k] s by (auto simp: eq_commute [of "Some _"])
  moreover obtain p0 where "RBT.lookup m (rw_transient_for w) = Some p0" "ws_output_id p0 = ws_output_id p"
    using assms(1) [of "rw_transient_for w"] p by (auto simp: eq_commute [of "Some _"])
  ultimately show "ws_output_id s = ws_output_id p"
    using assms(2) unfolding transients_follow_def by metis
qed

text \<open>The stacking pass only changes stacking numbers.\<close>

lemma apply_stacking_numbered:
  assumes ok: "validate raw = EE_None" and keys: "same_keys raw policy"
    and closed: "visibility_closed raw policy"
    and fresh: "\<And>k s. RBT.lookup (ps_windows policy) k = Some s \<Longrightarrow> ws_stacking s = -1"
  obtains policy' trees overs hidden where
    "apply_stacking_and_transient_ordering raw policy = Some policy'"
    "ps_generation policy' = ps_generation policy" "ps_context policy' = ps_context policy"
    "stacking_spec raw policy' trees overs" "numbered policy' (trees @ overs) hidden"
    "\<forall>k. \<exists>n. RBT.lookup (ps_windows policy') k =
       map_option (\<lambda>s. s\<lparr>ws_stacking := n\<rparr>) (RBT.lookup (ps_windows policy) k)"
proof -
  obtain trees overs hidden windows where st:
    "apply_stacking_and_transient_ordering raw policy =
       Some (policy\<lparr>ps_windows := windows, ps_output_order := (trees @ overs) @ hidden\<rparr>)"
    "stacking_spec raw policy trees overs" "distinct ((trees @ overs) @ hidden)"
    "set hidden = {k. visible_at policy k = Some False}"
    "\<forall>i < length (trees @ overs). RBT.lookup windows ((trees @ overs) ! i) =
       map_option (\<lambda>s. s\<lparr>ws_stacking := i32_of (int i)\<rparr>) (RBT.lookup (ps_windows policy) ((trees @ overs) ! i))"
    "\<forall>k. k \<notin> set (trees @ overs) \<longrightarrow> RBT.lookup windows k = RBT.lookup (ps_windows policy) k"
    using ok keys closed by (rule apply_stacking_spec)
  define policy' where "policy' = policy\<lparr>ps_windows := windows, ps_output_order := (trees @ overs) @ hidden\<rparr>"
  have only: "\<exists>n. RBT.lookup windows k = map_option (\<lambda>s. s\<lparr>ws_stacking := n\<rparr>) (RBT.lookup (ps_windows policy) k)" for k
  proof (cases "k \<in> set (trees @ overs)")
    case True
    then show ?thesis using st(5) by (metis in_set_conv_nth)
  next
    case False
    then have "RBT.lookup windows k = map_option (\<lambda>s. s\<lparr>ws_stacking := -1\<rparr>) (RBT.lookup (ps_windows policy) k)"
      using st(6) fresh by (cases "RBT.lookup (ps_windows policy) k") auto
    then show ?thesis by blast
  qed
  have vis: "visible_at policy' k = visible_at policy k" "not_fullscreen_at policy' k = not_fullscreen_at policy k" for k
    using only [of k] by (auto simp: visible_at_def not_fullscreen_at_def policy'_def option.map_comp comp_def)
  have in_dom: "k \<in> dom (RBT.lookup (ps_windows policy))" if "visible_at policy k \<noteq> None" for k
    using that by (auto simp: visible_at_def)
  have shown: "visible_at policy k \<noteq> None" if "k \<in> set (trees @ overs)" for k
    using that st(2) by (auto simp: stacking_spec_def visible_managed_def visible_overrides_def)
  have "numbered policy' (trees @ overs) hidden"
    unfolding numbered_def vis
  proof (intro conjI)
    show "\<forall>i < length (trees @ overs).
        map_option ws_stacking (RBT.lookup (ps_windows policy') ((trees @ overs) ! i)) = Some (i32_of (int i))"
    proof (intro allI impI)
      fix i
      assume i: "i < length (trees @ overs)"
      then obtain s where "RBT.lookup (ps_windows policy) ((trees @ overs) ! i) = Some s"
        using in_dom [OF shown [OF nth_mem]] by blast
      with st(5) i show "map_option ws_stacking (RBT.lookup (ps_windows policy') ((trees @ overs) ! i)) = Some (i32_of (int i))"
        by (simp add: policy'_def)
    qed
    show "\<forall>k \<in> set hidden. map_option ws_stacking (RBT.lookup (ps_windows policy') k) = Some (-1)"
    proof
      fix k
      assume k: "k \<in> set hidden"
      then obtain s where s: "RBT.lookup (ps_windows policy) k = Some s"
        using in_dom [of k] st(4) by auto
      from k st(3) have "k \<notin> set (trees @ overs)" by auto
      with st(6) s fresh [OF s] show "map_option ws_stacking (RBT.lookup (ps_windows policy') k) = Some (-1)"
        by (simp add: policy'_def)
    qed
  qed (use st(3,4) in \<open>simp_all add: policy'_def\<close>)
  moreover have "stacking_spec raw policy' trees overs" using vis st(2) by (rule stacking_spec_cong)
  ultimately show ?thesis
    using that [of policy' trees overs hidden] st(1) only by (simp add: policy'_def)
qed

text \<open>The windows that are shown and those that are hidden are all the windows.\<close>

lemma order_covers:
  assumes keys: "same_keys raw policy" and st: "stacking_spec raw policy trees overs"
    and order: "ps_output_order policy = (trees @ overs) @ hidden"
    and hidden: "set hidden = {k. visible_at policy k = Some False}"
  shows "set (ps_output_order policy) = dom (RBT.lookup (raw_windows raw))"
proof (intro equalityI subsetI)
  fix k
  assume "k \<in> set (ps_output_order policy)"
  then have "visible_at policy k \<noteq> None"
    using st hidden by (auto simp: order stacking_spec_def visible_managed_def visible_overrides_def)
  then have "k \<in> dom (RBT.lookup (ps_windows policy))" by (auto simp: visible_at_def)
  then show "k \<in> dom (RBT.lookup (raw_windows raw))" using keys by (simp add: same_keys_def)
next
  fix k
  assume "k \<in> dom (RBT.lookup (raw_windows raw))"
  then obtain w where w: "RBT.lookup (raw_windows raw) k = Some w" by blast
  from visible_at_defined [OF keys w] obtain b where b: "visible_at policy k = Some b" by blast
  show "k \<in> set (ps_output_order policy)"
  proof (cases b)
    case True
    with b w have "k \<in> visible_managed raw policy \<union> visible_overrides raw policy"
      by (auto simp: visible_managed_def visible_overrides_def)
    with st show ?thesis by (auto simp: order stacking_spec_def)
  next
    case False
    with b hidden show ?thesis by (simp add: order)
  qed
qed

lemma numbered_hash: "numbered policy shown hidden \<Longrightarrow> policy_hash policy \<noteq> None"
  by (rule policy_hash_total) (force simp: numbered_def in_set_conv_nth)

text \<open>The part of the evaluation that follows the placement.\<close>

definition settle :: "raw_state \<Rightarrow> policy_state \<Rightarrow> policy_state option" where
  "settle raw policy = do {
     policy \<leftarrow> apply_focus_and_visibility raw policy;
     policy \<leftarrow> apply_stacking_and_transient_ordering raw policy;
     hash \<leftarrow> policy_hash policy;
     Some (policy\<lparr>ps_hash := hash\<rparr>)
   }"

lemma policy_hash_update [simp]: "policy_hash (policy\<lparr>ps_hash := h\<rparr>) = policy_hash policy"
  by (simp add: policy_hash_def hash_header_def)

lemma numbered_update_hash: "numbered (policy\<lparr>ps_hash := h\<rparr>) = numbered policy"
proof -
  have "visible_at (policy\<lparr>ps_hash := h\<rparr>) = visible_at policy" by (simp add: visible_at_def fun_eq_iff)
  then show ?thesis by (simp only: numbered_def fun_eq_iff) simp
qed

lemma arranged_update_hash:
  "arranged raw good policy focus trees overs hidden \<Longrightarrow>
     arranged raw good (policy\<lparr>ps_hash := h\<rparr>) focus trees overs hidden"
proof -
  have "visible_at (policy\<lparr>ps_hash := h\<rparr>) = visible_at policy" by (simp add: visible_at_def fun_eq_iff)
  moreover have "stacking_spec raw (policy\<lparr>ps_hash := h\<rparr>) trees overs = stacking_spec raw policy trees overs"
    by (rule iffI; erule stacking_spec_cong [rotated 2]) (simp_all add: visible_at_def not_fullscreen_at_def)
  moreover assume "arranged raw good policy focus trees overs hidden"
  ultimately show ?thesis by (simp add: arranged_def same_keys_def numbered_update_hash)
qed

context placement
begin

lemma settle_arranged:
  assumes ok: "validate raw = EE_None" and "applies raw" "ps_windows policy = RBT.empty"
  obtains placed_policy policy' focus trees overs hidden where
    "place raw policy = Some placed_policy" "settle raw placed_policy = Some policy'"
    "arranged raw (good raw) policy' focus trees overs hidden"
    "ps_generation policy' = ps_generation policy" "ps_context policy' = ps_context policy"
    "policy_hash policy' = Some (ps_hash policy')"
proof -
  from place_windows [OF assms] obtain p where p: "place raw policy = Some p"
    "placed raw (\<lambda>_. good raw) (ps_windows p)" "all_follow raw (ps_windows p)"
    "ps_generation p = ps_generation policy" "ps_context p = ps_context policy" by blast
  obtain windows V focus where f:
    "apply_focus_and_visibility raw p = Some (p\<lparr>ps_windows := windows\<rparr>)"
    "visibility_spec raw V" "focus_promise raw V focus"
    "\<forall>k. RBT.lookup windows k = map_option (settled_state (V k) (focus = Some k)) (RBT.lookup (ps_windows p) k)"
    using ok p(2) by (rule apply_focus_and_visibility_spec)
  let ?q = "p\<lparr>ps_windows := windows\<rparr>"
  have keys: "same_keys raw ?q" using p(2) f(4) by (simp add: same_keys_def placed_def dom_def)
  have V: "V k = visible_in ?q k" if w: "RBT.lookup (raw_windows raw) k = Some w" for k w
  proof -
    obtain s where "RBT.lookup (ps_windows p) k = Some s" using p(2) w by (rule placedD)
    with f(4) show ?thesis by (simp add: visible_at_def settled_state_def)
  qed
  have vis: "visibility_spec raw (visible_in ?q)" using ok V f(2) by (rule visibility_spec_cong)
  have foc: "focus_promise raw (visible_in ?q) focus" using V f(3) by (rule focus_promise_cong)
  have fresh: "ws_stacking s = -1" if "RBT.lookup (ps_windows ?q) k = Some s" for k s
  proof -
    from that f(4) obtain s0 where s0: "RBT.lookup (ps_windows p) k = Some s0"
      "s = settled_state (V k) (focus = Some k) s0" by auto
    with p(2) obtain w where "placed_state raw k w s0" unfolding placed_def by (metis domD domI)
    with s0(2) show ?thesis by (simp add: placed_state_def settled_state_def)
  qed
  obtain q' trees overs hidden where q': "apply_stacking_and_transient_ordering raw ?q = Some q'"
    "ps_generation q' = ps_generation ?q" "ps_context q' = ps_context ?q"
    "stacking_spec raw q' trees overs" "numbered q' (trees @ overs) hidden"
    "\<forall>k. \<exists>n. RBT.lookup (ps_windows q') k =
       map_option (\<lambda>s. s\<lparr>ws_stacking := n\<rparr>) (RBT.lookup (ps_windows ?q) k)"
    using ok keys visibility_spec_closed [OF vis] fresh by (rule apply_stacking_numbered)
  have final: "\<exists>n. RBT.lookup (ps_windows q') k = map_option
      (\<lambda>s. (settled_state (V k) (focus = Some k) s)\<lparr>ws_stacking := n\<rparr>) (RBT.lookup (ps_windows p) k)" for k
    using q'(6) [rule_format, of k] f(4) by (auto simp: option.map_comp comp_def)
  have at: "visible_at q' = visible_at ?q"
  proof
    fix k
    show "visible_at q' k = visible_at ?q k"
      using q'(6) [rule_format, of k] by (auto simp: visible_at_def option.map_comp comp_def)
  qed
  have out: "map_option ws_output_id (RBT.lookup (ps_windows q') k) = map_option ws_output_id (RBT.lookup (ps_windows p) k)" for k
    using final [of k] by (auto simp: option.map_comp comp_def settled_state_def)
  have "arranged raw (good raw) q' focus trees overs hidden"
    unfolding arranged_def at
  proof (intro conjI)
    have "dom (RBT.lookup (ps_windows q')) = dom (RBT.lookup (ps_windows p))"
      using final unfolding dom_def by (metis None_eq_map_option_iff)
    then show "same_keys raw q'" using p(2) by (simp add: same_keys_def placed_def)
    show "all_follow raw (ps_windows q')"
      using out p(3) by (rule transients_follow_cong)
    show "\<forall>k w s. RBT.lookup (raw_windows raw) k = Some w \<longrightarrow> RBT.lookup (ps_windows q') k = Some s \<longrightarrow>
        settled raw k w s \<and> good raw w s \<and> (ws_focused s \<longleftrightarrow> focus = Some k)"
    proof (intro allI impI)
      fix k w s
      assume w: "RBT.lookup (raw_windows raw) k = Some w" and s: "RBT.lookup (ps_windows q') k = Some s"
      obtain s0 where s0: "RBT.lookup (ps_windows p) k = Some s0" "placed_state raw k w s0" "good raw w s0"
        using p(2) w by (rule placedD)
      with final [of k] s obtain n where "s = (settled_state (V k) (focus = Some k) s0)\<lparr>ws_stacking := n\<rparr>" by auto
      then show "settled raw k w s \<and> good raw w s \<and> (ws_focused s \<longleftrightarrow> focus = Some k)"
        using s0(2) good_frame [OF s0(3), of s]
        by (auto simp: settled_def placed_state_def settled_state_def window_rect_def)
    qed
  qed (use vis foc q'(4,5) in auto)
  moreover obtain h where "policy_hash q' = Some h" using numbered_hash [OF q'(5)] by auto
  ultimately show ?thesis
    using that [of p "q'\<lparr>ps_hash := h\<rparr>" focus trees overs hidden] p f(1) q'(1-3)
    by (simp add: settle_def arranged_update_hash)
qed

end

section \<open>The engine\<close>

text \<open>The geometric guarantee of the placement that applies.\<close>

definition placement_guarantee :: "raw_state \<Rightarrow> raw_window \<Rightarrow> window_state \<Rightarrow> bool" where
  "placement_guarantee raw =
     (if raw_outputs raw = RBT.empty then single_guarantee raw else multi_good raw)"

lemma evaluate_settle:
  assumes "validate raw = EE_None" "generation \<noteq> 0"
  shows "evaluate raw generation =
     map_option (\<lambda>policy. \<lparr>eval_error = EE_None, eval_policy = policy\<rparr>)
       ((if raw_outputs raw = RBT.empty then single_output_placement raw else apply_multi_output_geometry raw)
          (default_policy_state\<lparr>ps_generation := generation, ps_context := raw_context raw\<rparr>)
        \<bind> settle raw)"
proof -
  have bind_map: "(m \<bind> (\<lambda>p. Some (f p))) = map_option f m" for m and f :: "policy_state \<Rightarrow> policy_state"
    by (cases m) simp_all
  have "map_option g (m \<bind> k) = m \<bind> (\<lambda>p. map_option g (k p))"
    for g :: "policy_state \<Rightarrow> evaluation" and m and k :: "policy_state \<Rightarrow> policy_state option"
    by (cases m) simp_all
  moreover have "map_option (\<lambda>policy. \<lparr>eval_error = EE_None, eval_policy = policy\<rparr>) (settle raw p) =
      apply_focus_and_visibility raw p \<bind> (\<lambda>policy. apply_stacking_and_transient_ordering raw policy \<bind>
        (\<lambda>policy. policy_hash policy \<bind>
          (\<lambda>hash. Some \<lparr>eval_error = EE_None, eval_policy = policy\<lparr>ps_hash := hash\<rparr>\<rparr>)))" for p
    unfolding settle_def
    by (cases "apply_focus_and_visibility raw p"; simp; fastforce split: bind_splits)
  ultimately show ?thesis
    using assms by (simp add: evaluate_def Let_def single_output_placement_def bind_map)
qed

lemma evaluate_accepted:
  assumes ok: "validate raw = EE_None" and gen: "generation \<noteq> 0"
  obtains policy focus trees overs hidden where
    "evaluate raw generation = Some \<lparr>eval_error = EE_None, eval_policy = policy\<rparr>"
    "arranged raw (placement_guarantee raw) policy focus trees overs hidden"
    "ps_generation policy = generation" "ps_context policy = raw_context raw"
    "policy_hash policy = Some (ps_hash policy)"
proof -
  let ?start = "default_policy_state\<lparr>ps_generation := generation, ps_context := raw_context raw\<rparr>"
  have start: "ps_windows ?start = RBT.empty" by (simp add: default_policy_state_def)
  show ?thesis
  proof (cases "raw_outputs raw = RBT.empty")
    case True
    from ok True start show ?thesis
      by (rule single.settle_arranged)
        (rule that, auto simp: evaluate_settle [OF ok gen] True placement_guarantee_def)
  next
    case False
    from ok False start show ?thesis
      by (rule multi.settle_arranged)
        (rule that, auto simp: evaluate_settle [OF ok gen] False placement_guarantee_def)
  qed
qed

lemma evaluate_refused:
  assumes "validate raw \<noteq> EE_None \<or> generation = 0"
  shows "evaluate raw generation = Some \<lparr>eval_error =
      (if validate raw = EE_None then EE_InvalidWindow else validate raw), eval_policy = default_policy_state\<rparr>"
  using assms by (auto simp: evaluate_def default_evaluation_def)

end
