(* ===== verification/Wm_Transaction.thy ===== *)
theory Wm_Transaction
  imports Wm_Engine
begin

text \<open>
  The policy transaction (\<open>wm/transaction.hpp\<close>, \<open>wm/transaction.cpp\<close>): a producer edits a
  pending raw state, in a snapshot or incrementally, and commits it. A commit evaluates the
  pending state and replaces the committed one only when the evaluation and the preflight of
  the output side succeed.
\<close>

section \<open>State and operations\<close>

record transaction =
  tx_pending :: raw_state
  tx_committed_raw :: raw_state
  tx_committed_policy :: policy_state
  tx_pre_snapshot :: "raw_state option"
  tx_snapshot_active :: bool

definition new_transaction :: transaction where
  "new_transaction = \<lparr>tx_pending = default_raw_state, tx_committed_raw = default_raw_state,
     tx_committed_policy = default_policy_state, tx_pre_snapshot = None, tx_snapshot_active = False\<rparr>"

definition begin_snapshot :: "transaction \<Rightarrow> bool \<times> transaction" where
  "begin_snapshot tx =
     (if tx_snapshot_active tx then (False, tx)
      else (True, tx\<lparr>tx_pre_snapshot := Some (tx_pending tx), tx_pending := default_raw_state,
                     tx_snapshot_active := True\<rparr>))"

definition end_snapshot :: "transaction \<Rightarrow> bool \<times> transaction" where
  "end_snapshot tx =
     (if \<not> tx_snapshot_active tx \<or> \<not> raw_has_context (tx_pending tx) then (False, tx)
      else (True, tx\<lparr>tx_pending := (tx_pending tx)\<lparr>raw_complete := True\<rparr>,
                     tx_snapshot_active := False, tx_pre_snapshot := None\<rparr>))"

definition abort_snapshot :: "transaction \<Rightarrow> bool \<times> transaction" where
  "abort_snapshot tx =
     (if \<not> tx_snapshot_active tx then (False, tx)
      else (case tx_pre_snapshot tx of
              None \<Rightarrow> (False, tx)
            | Some raw \<Rightarrow> (True, tx\<lparr>tx_pending := raw, tx_pre_snapshot := None, tx_snapshot_active := False\<rparr>)))"

definition upsert_context :: "wm_context \<Rightarrow> transaction \<Rightarrow> bool \<times> transaction" where
  "upsert_context context tx =
     (if \<not> tx_snapshot_active tx \<and> \<not> raw_complete (tx_committed_raw tx) then (False, tx)
      else if tx_snapshot_active tx \<and> raw_has_context (tx_pending tx) then (False, tx)
      else (True, tx\<lparr>tx_pending := (tx_pending tx)\<lparr>raw_context := context, raw_has_context := True\<rparr>\<rparr>))"

definition upsert_output :: "output_context \<Rightarrow> transaction \<Rightarrow> bool \<times> transaction" where
  "upsert_output output tx =
     (let pending = tx_pending tx in
      if \<not> tx_snapshot_active tx \<and> \<not> raw_complete (tx_committed_raw tx) then (False, tx)
      else if \<not> map_contains (raw_outputs pending) (oc_output_id output) \<and>
              map_size (raw_outputs pending) \<ge> maximum_outputs then (False, tx)
      else (True, tx\<lparr>tx_pending := pending\<lparr>raw_outputs :=
              RBT.insert (oc_output_id output) output (raw_outputs pending)\<rparr>\<rparr>))"

definition upsert_hint :: "window_output_hint \<Rightarrow> transaction \<Rightarrow> bool \<times> transaction" where
  "upsert_hint hint tx =
     (let pending = tx_pending tx in
      if \<not> tx_snapshot_active tx \<and> \<not> raw_complete (tx_committed_raw tx) then (False, tx)
      else if \<not> map_contains (raw_output_hints pending) (hint_window_id hint) \<and>
              map_size (raw_output_hints pending) \<ge> maximum_windows then (False, tx)
      else (True, tx\<lparr>tx_pending := pending\<lparr>raw_output_hints :=
              RBT.insert (hint_window_id hint) hint (raw_output_hints pending)\<rparr>\<rparr>))"

definition upsert_window :: "raw_window \<Rightarrow> transaction \<Rightarrow> bool \<times> transaction" where
  "upsert_window window tx =
     (let pending = tx_pending tx in
      if \<not> tx_snapshot_active tx \<and> \<not> raw_complete (tx_committed_raw tx) then (False, tx)
      else if \<not> map_contains (raw_windows pending) (rw_window_id window) \<and>
              map_size (raw_windows pending) \<ge> maximum_windows then (False, tx)
      else (True, tx\<lparr>tx_pending := pending\<lparr>raw_windows :=
              RBT.insert (rw_window_id window) window (raw_windows pending)\<rparr>\<rparr>))"

text \<open>The window is erased by the last operand of the guard, so only when the others are false.\<close>

definition remove_window :: "u32 \<Rightarrow> transaction \<Rightarrow> bool \<times> transaction" where
  "remove_window window_id tx =
     (let pending = tx_pending tx in
      if tx_snapshot_active tx \<or> \<not> raw_complete (tx_committed_raw tx) \<or> window_id = 0 \<or>
         \<not> map_contains (raw_windows pending) window_id then (False, tx)
      else (True, tx\<lparr>tx_pending := pending\<lparr>
              raw_windows := RBT.delete window_id (raw_windows pending),
              raw_output_hints := RBT.delete window_id (raw_output_hints pending)\<rparr>\<rparr>))"

text \<open>The preflight is a callback of the caller that may be absent.\<close>

definition commit ::
  "u64 \<Rightarrow> (policy_state \<Rightarrow> bool) option \<Rightarrow> transaction \<Rightarrow> (evaluation \<times> transaction) option" where
  "commit generation preflight tx =
     (if tx_snapshot_active tx then
        Some (default_evaluation\<lparr>eval_error := EE_IncompleteSnapshot\<rparr>, tx)
      else if generation = 0 \<or>
              (raw_producer_generation (tx_committed_raw tx) \<noteq> 0 \<and>
               generation < raw_producer_generation (tx_committed_raw tx)) then
        Some (default_evaluation\<lparr>eval_error := EE_InvalidWindow\<rparr>, tx)
      else do {
        let candidate = (tx_pending tx)\<lparr>raw_producer_generation := generation\<rparr>;
        evaluated \<leftarrow> evaluate candidate generation;
        Some (if eval_error evaluated \<noteq> EE_None then (evaluated, tx)
              else if (case preflight of None \<Rightarrow> False | Some f \<Rightarrow> \<not> f (eval_policy evaluated)) then
                (evaluated\<lparr>eval_error := EE_OutputFailure, eval_policy := default_policy_state\<rparr>, tx)
              else (evaluated, tx\<lparr>tx_committed_raw := candidate,
                                  tx_committed_policy := eval_policy evaluated,
                                  tx_pending := candidate\<rparr>))
      })"

definition disconnect :: "transaction \<Rightarrow> transaction" where
  "disconnect tx = tx\<lparr>tx_pending := default_raw_state, tx_committed_raw := default_raw_state,
     tx_committed_policy := default_policy_state, tx_pre_snapshot := None, tx_snapshot_active := False\<rparr>"

definition set_committed_policy_hash :: "u64 \<Rightarrow> transaction \<Rightarrow> transaction" where
  "set_committed_policy_hash h tx =
     tx\<lparr>tx_committed_policy := (tx_committed_policy tx)\<lparr>ps_hash := h\<rparr>\<rparr>"

lemmas upsert_defs = upsert_context_def upsert_output_def upsert_hint_def upsert_window_def

section \<open>Operations as steps\<close>

datatype tx_operation =
    Begin_Snapshot | End_Snapshot | Abort_Snapshot
  | Upsert_Context wm_context | Upsert_Output output_context
  | Upsert_Hint window_output_hint | Upsert_Window raw_window
  | Remove_Window u32
  | Commit u64 "(policy_state \<Rightarrow> bool) option"
  | Disconnect | Set_Committed_Policy_Hash u64

text \<open>The result of an operation: whether it was accepted, and the next state.\<close>

fun tx_apply :: "tx_operation \<Rightarrow> transaction \<Rightarrow> (bool \<times> transaction) option" where
  "tx_apply Begin_Snapshot tx = Some (begin_snapshot tx)"
| "tx_apply End_Snapshot tx = Some (end_snapshot tx)"
| "tx_apply Abort_Snapshot tx = Some (abort_snapshot tx)"
| "tx_apply (Upsert_Context c) tx = Some (upsert_context c tx)"
| "tx_apply (Upsert_Output o') tx = Some (upsert_output o' tx)"
| "tx_apply (Upsert_Hint h) tx = Some (upsert_hint h tx)"
| "tx_apply (Upsert_Window w) tx = Some (upsert_window w tx)"
| "tx_apply (Remove_Window wid) tx = Some (remove_window wid tx)"
| "tx_apply (Commit generation preflight) tx =
     map_option (\<lambda>(e, tx'). (eval_error e = EE_None, tx')) (commit generation preflight tx)"
| "tx_apply Disconnect tx = Some (True, disconnect tx)"
| "tx_apply (Set_Committed_Policy_Hash h) tx = Some (True, set_committed_policy_hash h tx)"

inductive tx_step :: "transaction \<Rightarrow> tx_operation \<Rightarrow> bool \<Rightarrow> transaction \<Rightarrow> bool" where
  "tx_apply operation tx = Some (accepted, tx') \<Longrightarrow> tx_step tx operation accepted tx'"

inductive tx_reachable :: "transaction \<Rightarrow> bool" where
  start: "tx_reachable new_transaction"
| step: "tx_reachable tx \<Longrightarrow> tx_step tx operation accepted tx' \<Longrightarrow> tx_reachable tx'"

inductive_simps tx_step_iff: "tx_step tx operation accepted tx'"

section \<open>Commit\<close>

lemma evaluate_total: "evaluate raw generation \<noteq> None"
proof (cases "validate raw \<noteq> EE_None \<or> generation = 0")
  case True
  then show ?thesis by (simp add: evaluate_refused)
next
  case False
  then obtain policy where "evaluate raw generation = Some \<lparr>eval_error = EE_None, eval_policy = policy\<rparr>"
    by (auto elim: evaluate_accepted)
  then show ?thesis by simp
qed

lemma evaluate_success:
  assumes "evaluate raw generation = Some e" "eval_error e = EE_None"
  shows "validate raw = EE_None" "generation \<noteq> 0"
proof -
  have "\<not> (validate raw \<noteq> EE_None \<or> generation = 0)"
  proof
    assume "validate raw \<noteq> EE_None \<or> generation = 0"
    from evaluate_refused [OF this] assms show False by (auto split: if_splits)
  qed
  then show "validate raw = EE_None" "generation \<noteq> 0" by simp_all
qed

lemma commit_total: "commit generation preflight tx \<noteq> None"
  using evaluate_total [of "(tx_pending tx)\<lparr>raw_producer_generation := generation\<rparr>" generation]
  by (auto simp: commit_def Let_def)

lemma output_failure_error: "e\<lparr>eval_error := EE_OutputFailure, eval_policy := p\<rparr> = e' \<Longrightarrow> eval_error e' = EE_OutputFailure"
  by auto

lemma commit_accepted:
  assumes "commit generation preflight tx = Some (e, tx')" "eval_error e = EE_None"
  defines "candidate \<equiv> (tx_pending tx)\<lparr>raw_producer_generation := generation\<rparr>"
  shows "\<not> tx_snapshot_active tx" "generation \<noteq> 0"
    "raw_producer_generation (tx_committed_raw tx) = 0 \<or> raw_producer_generation (tx_committed_raw tx) \<le> generation"
    "evaluate candidate generation = Some e"
    "preflight = Some f \<Longrightarrow> f (eval_policy e)"
    "tx' = tx\<lparr>tx_committed_raw := candidate, tx_committed_policy := eval_policy e, tx_pending := candidate\<rparr>"
  using assms
  by (auto simp: commit_def default_evaluation_def Let_def bind_eq_Some_conv not_less
      split: if_splits option.splits dest: output_failure_error)

lemma commit_refused:
  assumes "commit generation preflight tx = Some (e, tx')" "eval_error e \<noteq> EE_None"
  shows "tx' = tx" "eval_policy e = default_policy_state"
proof -
  have "eval_policy e' = default_policy_state"
    if "evaluate raw generation = Some e'" "eval_error e' \<noteq> EE_None" for raw e'
  proof (cases "validate raw \<noteq> EE_None \<or> generation = 0")
    case True
    then show ?thesis using that(1) by (auto simp: evaluate_refused)
  next
    case False
    then obtain policy where "evaluate raw generation = Some \<lparr>eval_error = EE_None, eval_policy = policy\<rparr>"
      by (auto elim: evaluate_accepted)
    with that show ?thesis by auto
  qed
  with assms show "tx' = tx" "eval_policy e = default_policy_state"
    by (auto simp: commit_def default_evaluation_def Let_def bind_eq_Some_conv split: if_splits)
qed

text \<open>A refused operation changes nothing.\<close>

lemma tx_step_refused:
  assumes "tx_step tx operation False tx'"
  shows "tx' = tx"
proof (cases operation)
  case (Commit generation preflight)
  with assms obtain e where "commit generation preflight tx = Some (e, tx')" "eval_error e \<noteq> EE_None"
    by (auto simp: tx_step_iff)
  then show ?thesis by (rule commit_refused)
qed (use assms in \<open>auto simp: tx_step_iff begin_snapshot_def end_snapshot_def abort_snapshot_def upsert_defs
      remove_window_def Let_def split: if_splits option.splits\<close>)

lemma tx_step_total: "\<exists>accepted tx'. tx_step tx operation accepted tx'"
proof (cases operation)
  case (Commit generation preflight)
  then show ?thesis using commit_total [of generation preflight tx] by (auto simp: tx_step_iff)
qed (auto simp: tx_step_iff prod_eq_iff)

section \<open>Snapshots\<close>

text \<open>The operations that neither end nor abort a snapshot nor drop the connection.\<close>

fun snapshot_edit :: "tx_operation \<Rightarrow> bool" where
  "snapshot_edit End_Snapshot = False"
| "snapshot_edit Abort_Snapshot = False"
| "snapshot_edit Disconnect = False"
| "snapshot_edit (Set_Committed_Policy_Hash h) = False"
| "snapshot_edit operation = True"

fun tx_run :: "tx_operation list \<Rightarrow> transaction \<Rightarrow> transaction option" where
  "tx_run [] tx = Some tx"
| "tx_run (operation # operations) tx =
     (case tx_apply operation tx of None \<Rightarrow> None | Some (_, tx') \<Rightarrow> tx_run operations tx')"

text \<open>Inside a snapshot only the pending state changes.\<close>

lemma pending_unchanged: "\<exists>raw. tx = tx\<lparr>tx_pending := raw\<rparr>"
  by (rule exI [of _ "tx_pending tx"]) simp

lemma snapshot_edit_step:
  assumes "tx_apply operation tx = Some (accepted, tx')" "snapshot_edit operation" "tx_snapshot_active tx"
  shows "\<exists>raw. tx' = tx\<lparr>tx_pending := raw\<rparr>"
  using assms
  by (cases operation)
    (auto simp: begin_snapshot_def upsert_defs remove_window_def commit_def Let_def pending_unchanged split: if_splits)

lemma snapshot_edit_run:
  assumes "tx_run operations tx = Some tx'" "\<forall>operation \<in> set operations. snapshot_edit operation"
    "tx_snapshot_active tx"
  shows "\<exists>raw. tx' = tx\<lparr>tx_pending := raw\<rparr>"
  using assms
proof (induction operations arbitrary: tx)
  case Nil
  then show ?case using pending_unchanged by simp
next
  case (Cons operation operations)
  then obtain accepted tx1 where s: "tx_apply operation tx = Some (accepted, tx1)" "tx_run operations tx1 = Some tx'"
    by (auto split: option.splits)
  from snapshot_edit_step [OF s(1)] Cons.prems(2,3) obtain raw where tx1: "tx1 = tx\<lparr>tx_pending := raw\<rparr>" by auto
  with Cons.IH [OF s(2)] Cons.prems(2,3) show ?case by auto
qed

lemma abort_restores:
  assumes "begin_snapshot tx = (True, tx1)" "tx_run operations tx1 = Some tx2"
    "\<forall>operation \<in> set operations. snapshot_edit operation" "tx_pre_snapshot tx = None"
  shows "abort_snapshot tx2 = (True, tx)"
proof -
  from assms(1) have tx1: "\<not> tx_snapshot_active tx"
    "tx1 = tx\<lparr>tx_pre_snapshot := Some (tx_pending tx), tx_pending := default_raw_state, tx_snapshot_active := True\<rparr>"
    by (auto simp: begin_snapshot_def split: if_splits)
  with snapshot_edit_run [OF assms(2,3)] obtain raw where "tx2 = tx1\<lparr>tx_pending := raw\<rparr>" by auto
  with tx1 assms(4) show ?thesis by (cases tx) (simp add: abort_snapshot_def)
qed

section \<open>Invariant\<close>

text \<open>A raw state within the limits of the protocol whose maps are keyed by identifier.\<close>

definition raw_bounded :: "raw_state \<Rightarrow> bool" where
  "raw_bounded raw \<longleftrightarrow>
     map_size (raw_windows raw) \<le> maximum_windows \<and> map_size (raw_outputs raw) \<le> maximum_outputs \<and>
     map_size (raw_output_hints raw) \<le> maximum_windows \<and>
     (\<forall>k w. RBT.lookup (raw_windows raw) k = Some w \<longrightarrow> rw_window_id w = k) \<and>
     (\<forall>k out. RBT.lookup (raw_outputs raw) k = Some out \<longrightarrow> oc_output_id out = k) \<and>
     (\<forall>k h. RBT.lookup (raw_output_hints raw) k = Some h \<longrightarrow> hint_window_id h = k)"

text \<open>The committed policy is the evaluation of the committed raw state, up to the hash.\<close>

definition committed_consistent :: "raw_state \<Rightarrow> policy_state \<Rightarrow> bool" where
  "committed_consistent raw policy \<longleftrightarrow>
     (if raw_complete raw then
        raw_producer_generation raw \<noteq> 0 \<and>
        (\<exists>p. evaluate raw (raw_producer_generation raw) = Some \<lparr>eval_error = EE_None, eval_policy = p\<rparr> \<and>
             policy\<lparr>ps_hash := 0\<rparr> = p\<lparr>ps_hash := 0\<rparr>)
      else raw = default_raw_state \<and> policy\<lparr>ps_hash := 0\<rparr> = default_policy_state\<lparr>ps_hash := 0\<rparr>)"

definition tx_ok :: "transaction \<Rightarrow> bool" where
  "tx_ok tx \<longleftrightarrow>
     (tx_snapshot_active tx \<longleftrightarrow> tx_pre_snapshot tx \<noteq> None) \<and>
     raw_bounded (tx_pending tx) \<and> raw_bounded (tx_committed_raw tx) \<and>
     (\<forall>raw. tx_pre_snapshot tx = Some raw \<longrightarrow> raw_bounded raw) \<and>
     committed_consistent (tx_committed_raw tx) (tx_committed_policy tx)"

lemma raw_bounded_default: "raw_bounded default_raw_state"
  by (simp add: raw_bounded_def default_raw_state_def)

lemma raw_bounded_scalars:
  "raw_bounded (raw\<lparr>raw_complete := c\<rparr>) = raw_bounded raw"
  "raw_bounded (raw\<lparr>raw_context := x, raw_has_context := c\<rparr>) = raw_bounded raw"
  "raw_bounded (raw\<lparr>raw_producer_generation := g\<rparr>) = raw_bounded raw"
  by (simp_all add: raw_bounded_def)

lemma upsert_bounded:
  "raw_bounded raw \<Longrightarrow> \<not> (\<not> map_contains (raw_windows raw) (rw_window_id w) \<and> maximum_windows \<le> map_size (raw_windows raw)) \<Longrightarrow>
     raw_bounded (raw\<lparr>raw_windows := RBT.insert (rw_window_id w) w (raw_windows raw)\<rparr>)"
  "raw_bounded raw \<Longrightarrow> \<not> (\<not> map_contains (raw_outputs raw) (oc_output_id out) \<and> maximum_outputs \<le> map_size (raw_outputs raw)) \<Longrightarrow>
     raw_bounded (raw\<lparr>raw_outputs := RBT.insert (oc_output_id out) out (raw_outputs raw)\<rparr>)"
  "raw_bounded raw \<Longrightarrow> \<not> (\<not> map_contains (raw_output_hints raw) (hint_window_id h) \<and> maximum_windows \<le> map_size (raw_output_hints raw)) \<Longrightarrow>
     raw_bounded (raw\<lparr>raw_output_hints := RBT.insert (hint_window_id h) h (raw_output_hints raw)\<rparr>)"
  by (auto simp: raw_bounded_def map_size_insert)

lemma delete_bounded:
  "raw_bounded raw \<Longrightarrow> raw_bounded (raw\<lparr>raw_windows := RBT.delete k (raw_windows raw),
     raw_output_hints := RBT.delete k (raw_output_hints raw)\<rparr>)"
  using map_size_delete_le [of k "raw_windows raw"] map_size_delete_le [of k "raw_output_hints raw"]
  by (auto simp: raw_bounded_def restrict_map_def split: if_splits)

lemma committed_consistent_default: "committed_consistent default_raw_state default_policy_state"
proof -
  have "\<not> raw_complete default_raw_state" by (simp add: default_raw_state_def)
  then show ?thesis by (simp add: committed_consistent_def)
qed

lemmas bounded_rules = raw_bounded_default raw_bounded_scalars upsert_bounded delete_bounded

lemma commit_ok:
  assumes "tx_ok tx" "commit generation preflight tx = Some (e, tx')"
  shows "tx_ok tx'"
proof (cases "eval_error e = EE_None")
  case False
  with assms commit_refused(1) show ?thesis by blast
next
  case True
  note c = commit_accepted [OF assms(2) True]
  from evaluate_success [OF c(4) True] have "validate ((tx_pending tx)\<lparr>raw_producer_generation := generation\<rparr>) = EE_None" by simp
  then have "raw_complete (tx_pending tx)" using validate_cases(12) by fastforce
  then have "committed_consistent ((tx_pending tx)\<lparr>raw_producer_generation := generation\<rparr>) (eval_policy e)"
    using c(2,4) True by (cases e) (auto simp: committed_consistent_def)
  with assms(1) show ?thesis unfolding c(6) by (simp add: tx_ok_def bounded_rules)
qed

lemma tx_ok_step:
  assumes "tx_ok tx" "tx_step tx operation accepted tx'"
  shows "tx_ok tx'"
proof (cases operation)
  case (Commit generation preflight)
  with assms obtain e where "commit generation preflight tx = Some (e, tx')" by (auto simp: tx_step_iff)
  with assms(1) show ?thesis by (rule commit_ok)
next
  case Disconnect
  with assms show ?thesis
    by (auto simp: tx_step_iff tx_ok_def disconnect_def bounded_rules committed_consistent_default)
next
  case (Set_Committed_Policy_Hash h)
  with assms show ?thesis
    by (auto simp: tx_step_iff tx_ok_def set_committed_policy_hash_def committed_consistent_def)
qed (use assms in \<open>auto simp: tx_step_iff tx_ok_def begin_snapshot_def end_snapshot_def abort_snapshot_def upsert_defs
      remove_window_def Let_def bounded_rules split: if_splits option.splits\<close>)

lemma tx_reachable_ok: "tx_reachable tx \<Longrightarrow> tx_ok tx"
proof (induction rule: tx_reachable.induct)
  case start
  show ?case
    by (simp add: tx_ok_def new_transaction_def bounded_rules committed_consistent_default)
next
  case (step tx operation accepted tx')
  then show ?case using tx_ok_step by blast
qed

text \<open>Between two disconnects the committed generation never goes back.\<close>

lemma tx_step_generation:
  assumes "tx_step tx operation accepted tx'" "operation \<noteq> Disconnect"
  shows "raw_producer_generation (tx_committed_raw tx) \<le> raw_producer_generation (tx_committed_raw tx')"
proof (cases operation)
  case (Commit generation preflight)
  with assms obtain e where c: "commit generation preflight tx = Some (e, tx')" by (auto simp: tx_step_iff)
  show ?thesis
  proof (cases "eval_error e = EE_None")
    case True
    from commit_accepted(3,6) [OF c True] show ?thesis by auto
  qed (use commit_refused(1) [OF c] in simp)
qed (use assms in \<open>auto simp: tx_step_iff begin_snapshot_def end_snapshot_def abort_snapshot_def upsert_defs
      remove_window_def set_committed_policy_hash_def Let_def split: if_splits option.splits\<close>)

section \<open>Properties\<close>

text \<open>
  C9. In every reachable transaction the committed policy is the evaluation of the committed raw
  state under its generation (up to the hash, which the peer may replace), the pending, committed
  and saved raw states are within the limits and keyed by identifier, and a saved state exists
  exactly while a snapshot is active.
\<close>

theorem transaction_invariant:
  assumes "tx_reachable tx"
  shows "committed_consistent (tx_committed_raw tx) (tx_committed_policy tx) \<and>
     raw_bounded (tx_pending tx) \<and> raw_bounded (tx_committed_raw tx) \<and>
     (\<forall>raw. tx_pre_snapshot tx = Some raw \<longrightarrow> raw_bounded raw) \<and>
     (tx_snapshot_active tx \<longleftrightarrow> tx_pre_snapshot tx \<noteq> None)"
  using tx_reachable_ok [OF assms] by (simp add: tx_ok_def)

theorem transaction_invariant_witness:
  "tx_reachable (snd (begin_snapshot new_transaction)) \<and>
   tx_snapshot_active (snd (begin_snapshot new_transaction)) \<and>
   raw_bounded (tx_pending (snd (begin_snapshot new_transaction)))"
proof -
  have "tx_step new_transaction Begin_Snapshot True (snd (begin_snapshot new_transaction))"
    by (simp add: tx_step_iff begin_snapshot_def new_transaction_def)
  then have r: "tx_reachable (snd (begin_snapshot new_transaction))"
    using tx_reachable.start tx_reachable.step by blast
  with transaction_invariant [OF r] show ?thesis
    by (simp add: begin_snapshot_def new_transaction_def)
qed

text \<open>
  C3. A commit always returns and is atomic. When it succeeds no snapshot is active, the
  generation is not zero and not below the committed one, and the evaluation of the pending state
  becomes the committed policy; otherwise the transaction is unchanged and the answer carries no
  policy.
\<close>

theorem commit_atomic:
  "\<exists>e tx'. commit generation preflight tx = Some (e, tx') \<and>
     (if eval_error e = EE_None
      then \<not> tx_snapshot_active tx \<and> generation \<noteq> 0 \<and>
           \<not> (generation < raw_producer_generation (tx_committed_raw tx)) \<and>
           (case preflight of None \<Rightarrow> True | Some f \<Rightarrow> f (eval_policy e)) \<and>
           evaluate (tx_committed_raw tx') generation = Some e \<and>
           tx_committed_raw tx' = (tx_pending tx)\<lparr>raw_producer_generation := generation\<rparr> \<and>
           tx_committed_policy tx' = eval_policy e \<and> tx_pending tx' = tx_committed_raw tx'
      else tx' = tx \<and> eval_policy e = default_policy_state)"
proof -
  obtain e tx' where c: "commit generation preflight tx = Some (e, tx')"
    using commit_total [of generation preflight tx] by auto
  show ?thesis
  proof (cases "eval_error e = EE_None")
    case True
    note a = commit_accepted [OF c True]
    have "case preflight of None \<Rightarrow> True | Some f \<Rightarrow> f (eval_policy e)"
    proof (cases preflight)
      case (Some f)
      with a(5) [of f] show ?thesis by simp
    qed simp
    moreover have "\<not> (generation < raw_producer_generation (tx_committed_raw tx))" using a(2,3) by auto
    ultimately show ?thesis using a(1,2,4,6) c True
      by (intro exI [of _ e] exI [of _ tx']) simp
  next
    case False
    with commit_refused [OF c] c show ?thesis by auto
  qed
qed

text \<open>
  Every operation returns, and one that is refused changes nothing.
\<close>

lemma operation_refused_unchanged:
  "\<exists>accepted tx'. tx_apply operation tx = Some (accepted, tx') \<and> (accepted \<or> tx' = tx)"
  using tx_step_total [of tx operation] tx_step_refused [of tx operation] unfolding tx_step_iff by metis

text \<open>
  C12. Aborting a snapshot undoes it: whatever the producer sent since the snapshot began, and
  however often it tried to begin, remove or commit meanwhile, the transaction is as before.
\<close>

theorem snapshot_abort_restores:
  assumes "tx_reachable tx" "begin_snapshot tx = (True, tx1)" "tx_run operations tx1 = Some tx2"
    "\<forall>operation \<in> set operations. snapshot_edit operation"
  shows "abort_snapshot tx2 = (True, tx)"
proof -
  have "tx_pre_snapshot tx = None"
    using tx_reachable_ok [OF assms(1)] assms(2) by (auto simp: tx_ok_def begin_snapshot_def split: if_splits)
  with assms(2-4) show ?thesis by (rule abort_restores)
qed

theorem snapshot_abort_restores_witness:
  "\<exists>tx2. tx_run [Upsert_Context default_context, Remove_Window 3, Commit 1 None]
            (snd (begin_snapshot new_transaction)) = Some tx2 \<and> abort_snapshot tx2 = (True, new_transaction)"
proof -
  have b: "begin_snapshot new_transaction = (True, snd (begin_snapshot new_transaction))"
    by (simp add: begin_snapshot_def new_transaction_def)
  obtain tx2 where r: "tx_run [Upsert_Context default_context, Remove_Window 3, Commit 1 None]
            (snd (begin_snapshot new_transaction)) = Some tx2"
    by (simp add: begin_snapshot_def new_transaction_def upsert_context_def remove_window_def commit_def
        default_raw_state_def)
  with snapshot_abort_restores [OF tx_reachable.start b r] show ?thesis by simp
qed

text \<open>
  As long as the producer stays connected the committed generation never goes back.
\<close>

lemma generation_monotone:
  assumes "tx_run operations tx = Some tx'" "Disconnect \<notin> set operations"
  shows "raw_producer_generation (tx_committed_raw tx) \<le> raw_producer_generation (tx_committed_raw tx')"
  using assms
proof (induction operations arbitrary: tx)
  case (Cons operation operations)
  then obtain accepted tx1 where s: "tx_apply operation tx = Some (accepted, tx1)" "tx_run operations tx1 = Some tx'"
    by (auto split: option.splits)
  from s(1) have "tx_step tx operation accepted tx1" by (simp add: tx_step_iff)
  moreover have "operation \<noteq> Disconnect" using Cons.prems(2) by auto
  ultimately have "raw_producer_generation (tx_committed_raw tx) \<le> raw_producer_generation (tx_committed_raw tx1)"
    by (rule tx_step_generation)
  with Cons.IH [OF s(2)] Cons.prems(2) show ?case by simp
qed simp

end
