(* ===== verification/Wm_Interactive.thy ===== *)
theory Wm_Interactive
  imports Wm_Types
begin

text \<open>
  Interactive move and resize (\<open>wm/interactive_policy.hpp\<close>, \<open>wm/interactive_policy.cpp\<close>): a
  pointer-driven state machine that sends at most one geometry request at a time and ends once
  the last pointer position has been dispatched and applied. The key binding that closes a
  window is here too.
\<close>

section \<open>State\<close>

definition kInteractiveMod1 :: u16 where
  "kInteractiveMod1 = push_bit 3 1"

definition kInteractiveF4Keysym :: u32 where
  "kInteractiveF4Keysym = 0xffc1"

definition default_bindings :: interactive_bindings where
  "default_bindings = \<lparr>move_modifiers = kInteractiveMod1, resize_modifiers = kInteractiveMod1,
     close_modifiers = kInteractiveMod1, move_button = 1, resize_button = 3,
     close_keysym = kInteractiveF4Keysym, minimum_width = 96, minimum_height = 64,
     raise_on_focus = True, consume_wm_bindings = True\<rparr>"

datatype interaction_kind = IK_None | IK_Move | IK_ResizeBottomRight

datatype interaction_cursor = IC_None | IC_FleurMove | IC_BottomRightResize

record pointer_position =
  ptr_x :: i32
  ptr_y :: i32

type_synonym interactive_geometry = rectangle

record interaction_begin =
  ib_kind :: interaction_kind
  ib_target :: u32
  ib_button :: u8
  ib_pointer :: pointer_position
  ib_applied_geometry :: interactive_geometry
  ib_managed :: bool
  ib_visible :: bool
  ib_direct_root :: bool
  ib_input_output :: bool

record interaction_begin_result =
  br_accepted :: bool
  br_consume_event :: bool
  br_focus :: bool
  br_raise :: bool
  br_cursor :: interaction_cursor

record interactive_policy =
  ip_bindings :: interactive_bindings
  ip_kind :: interaction_kind
  ip_cursor :: interaction_cursor
  ip_target :: u32
  ip_button :: u8
  ip_initial_pointer :: pointer_position
  ip_latest_pointer :: pointer_position
  ip_dispatched_pointer :: "pointer_position option"
  ip_initial_geometry :: interactive_geometry
  ip_last_committed :: interactive_geometry
  ip_transaction_in_flight :: bool
  ip_ending :: bool
  ip_cursor_published :: bool

definition new_interactive_policy :: "interactive_bindings \<Rightarrow> interactive_policy" where
  "new_interactive_policy bindings = \<lparr>ip_bindings = bindings, ip_kind = IK_None, ip_cursor = IC_None,
     ip_target = 0, ip_button = 0,
     ip_initial_pointer = \<lparr>ptr_x = 0, ptr_y = 0\<rparr>, ip_latest_pointer = \<lparr>ptr_x = 0, ptr_y = 0\<rparr>,
     ip_dispatched_pointer = None,
     ip_initial_geometry = make_rectangle 0 0 0 0, ip_last_committed = make_rectangle 0 0 0 0,
     ip_transaction_in_flight = False, ip_ending = False, ip_cursor_published = False\<rparr>"

section \<open>Operations\<close>

definition add_coordinate :: "i32 \<Rightarrow> int \<Rightarrow> i32" where
  "add_coordinate origin delta = i32_of (clamp (sint origin + delta) int32_min int32_max)"

definition resize_extent :: "u32 \<Rightarrow> int \<Rightarrow> u32 \<Rightarrow> u32" where
  "resize_extent origin delta minimum =
     u32_of (clamp (uint origin + delta) (uint minimum) maximum_window_extent)"

definition refused_begin :: interaction_begin_result where
  "refused_begin = \<lparr>br_accepted = False, br_consume_event = False, br_focus = False, br_raise = False,
     br_cursor = IC_None\<rparr>"

definition interaction_start ::
  "interaction_begin \<Rightarrow> interactive_policy \<Rightarrow> interaction_begin_result \<times> interactive_policy" where
  "interaction_start request policy =
     (if ip_kind policy \<noteq> IK_None \<or>
         (ib_kind request \<noteq> IK_Move \<and> ib_kind request \<noteq> IK_ResizeBottomRight) \<or>
         ib_target request = 0 \<or> ib_button request = 0 \<or>
         rect_width (ib_applied_geometry request) = 0 \<or>
         rect_height (ib_applied_geometry request) = 0 \<or> \<not> ib_managed request \<or>
         \<not> ib_visible request \<or> \<not> ib_direct_root request \<or> \<not> ib_input_output request
      then (refused_begin, policy)
      else let cursor = (if ib_kind request = IK_Move then IC_FleurMove else IC_BottomRightResize);
               policy' = policy\<lparr>ip_kind := ib_kind request, ip_target := ib_target request,
                 ip_button := ib_button request, ip_initial_pointer := ib_pointer request,
                 ip_latest_pointer := ib_pointer request, ip_dispatched_pointer := None,
                 ip_initial_geometry := ib_applied_geometry request,
                 ip_last_committed := ib_applied_geometry request,
                 ip_transaction_in_flight := False, ip_ending := False, ip_cursor_published := False,
                 ip_cursor := cursor\<rparr>
           in (\<lparr>br_accepted = True, br_consume_event = consume_wm_bindings (ip_bindings policy),
                br_focus = True, br_raise = raise_on_focus (ip_bindings policy), br_cursor = cursor\<rparr>,
               policy'))"

definition motion :: "pointer_position \<Rightarrow> interactive_policy \<Rightarrow> interactive_policy" where
  "motion pointer policy =
     (if ip_kind policy \<noteq> IK_None then policy\<lparr>ip_latest_pointer := pointer\<rparr> else policy)"

definition take_geometry_request ::
  "interactive_policy \<Rightarrow> interactive_geometry option \<times> interactive_policy" where
  "take_geometry_request policy =
     (let latest = ip_latest_pointer policy; initial = ip_initial_pointer policy;
          start = ip_initial_geometry policy in
      if ip_kind policy = IK_None \<or> ip_transaction_in_flight policy \<or> latest = initial \<or>
         ip_dispatched_pointer policy = Some latest
      then (None, policy)
      else let delta_x = sint (ptr_x latest) - sint (ptr_x initial);
               delta_y = sint (ptr_y latest) - sint (ptr_y initial);
               geometry =
                 (if ip_kind policy = IK_Move then
                    start\<lparr>rect_x := add_coordinate (rect_x start) delta_x,
                          rect_y := add_coordinate (rect_y start) delta_y\<rparr>
                  else
                    start\<lparr>rect_width := resize_extent (rect_width start) delta_x
                                          (minimum_width (ip_bindings policy)),
                          rect_height := resize_extent (rect_height start) delta_y
                                          (minimum_height (ip_bindings policy))\<rparr>)
           in (Some geometry, policy\<lparr>ip_dispatched_pointer := Some latest, ip_transaction_in_flight := True\<rparr>))"

definition complete_geometry :: "interactive_geometry \<Rightarrow> interactive_policy \<Rightarrow> bool \<times> interactive_policy" where
  "complete_geometry applied policy =
     (if \<not> ip_transaction_in_flight policy \<or> rect_width applied = 0 \<or> rect_height applied = 0
      then (False, policy)
      else (True, policy\<lparr>ip_last_committed := applied, ip_transaction_in_flight := False\<rparr>))"

definition release :: "u8 \<Rightarrow> pointer_position \<Rightarrow> interactive_policy \<Rightarrow> bool \<times> interactive_policy" where
  "release button pointer policy =
     (if ip_kind policy = IK_None \<or> button \<noteq> ip_button policy then (False, policy)
      else (True, policy\<lparr>ip_latest_pointer := pointer, ip_ending := True\<rparr>))"

definition confirm_cursor_published :: "interactive_policy \<Rightarrow> bool \<times> interactive_policy" where
  "confirm_cursor_published policy =
     (if ip_kind policy = IK_None then (False, policy)
      else (True, policy\<lparr>ip_cursor_published := True\<rparr>))"

definition finish_ready :: "interactive_policy \<Rightarrow> bool" where
  "finish_ready policy =
     (if \<not> ip_ending policy \<or> ip_transaction_in_flight policy \<or> \<not> ip_cursor_published policy then False
      else ip_latest_pointer policy = ip_initial_pointer policy \<or>
           ip_dispatched_pointer policy = Some (ip_latest_pointer policy))"

definition abort_interaction :: "interactive_policy \<Rightarrow> bool \<times> interactive_policy" where
  "abort_interaction policy =
     (if ip_kind policy = IK_None then (False, policy)
      else (True, policy\<lparr>ip_kind := IK_None, ip_cursor := IC_None, ip_target := 0, ip_button := 0,
              ip_dispatched_pointer := None, ip_transaction_in_flight := False, ip_ending := False,
              ip_cursor_published := False\<rparr>))"

definition finish :: "interactive_policy \<Rightarrow> bool \<times> interactive_policy" where
  "finish policy = (if \<not> finish_ready policy then (False, policy) else abort_interaction policy)"

datatype close_action = CA_None | CA_SendDeleteWindow | CA_DestroyTopLevel

record close_decision =
  cd_action :: close_action
  cd_consume_event :: bool
  cd_target :: u32
  cd_event_time :: u32

definition evaluate_close_binding ::
  "interactive_bindings \<Rightarrow> u16 \<Rightarrow> u32 \<Rightarrow> u32 \<Rightarrow> bool \<Rightarrow> bool \<Rightarrow> bool \<Rightarrow> u32 \<Rightarrow> close_decision" where
  "evaluate_close_binding bindings modifiers keysym focused_window focused_managed_top_level
     focused_override_redirect supports_delete_window event_time =
     (if modifiers \<noteq> close_modifiers bindings \<or> keysym \<noteq> close_keysym bindings \<or>
         focused_window = 0 \<or> \<not> focused_managed_top_level \<or> focused_override_redirect
      then \<lparr>cd_action = CA_None, cd_consume_event = False, cd_target = 0, cd_event_time = 0\<rparr>
      else \<lparr>cd_action = (if supports_delete_window then CA_SendDeleteWindow else CA_DestroyTopLevel),
            cd_consume_event = consume_wm_bindings bindings, cd_target = focused_window,
            cd_event_time = event_time\<rparr>)"

section \<open>Steps and invariant\<close>

inductive ip_step :: "interactive_policy \<Rightarrow> interactive_policy \<Rightarrow> bool" where
  "ip_step p (snd (interaction_start request p))"
| "ip_step p (motion pointer p)"
| "ip_step p (snd (take_geometry_request p))"
| "ip_step p (snd (complete_geometry applied p))"
| "ip_step p (snd (release button pointer p))"
| "ip_step p (snd (confirm_cursor_published p))"
| "ip_step p (snd (finish p))"
| "ip_step p (snd (abort_interaction p))"

inductive ip_reachable :: "interactive_policy \<Rightarrow> bool" where
  ip_start: "ip_reachable (new_interactive_policy bindings)"
| ip_step: "ip_reachable p \<Longrightarrow> ip_step p p' \<Longrightarrow> ip_reachable p'"

text \<open>
  An idle machine holds no target, no button, no cursor and no outstanding request; an active
  one has all of them, and a request in flight is for the dispatched pointer.
\<close>

definition ip_ok :: "interactive_policy \<Rightarrow> bool" where
  "ip_ok p \<longleftrightarrow>
     (if ip_kind p = IK_None
      then ip_cursor p = IC_None \<and> ip_target p = 0 \<and> ip_button p = 0 \<and> ip_dispatched_pointer p = None \<and>
           \<not> ip_transaction_in_flight p \<and> \<not> ip_ending p \<and> \<not> ip_cursor_published p
      else ip_cursor p = (if ip_kind p = IK_Move then IC_FleurMove else IC_BottomRightResize) \<and>
           ip_target p \<noteq> 0 \<and> ip_button p \<noteq> 0 \<and>
           \<not> rect_empty (ip_initial_geometry p) \<and> \<not> rect_empty (ip_last_committed p) \<and>
           (ip_transaction_in_flight p \<longrightarrow> ip_dispatched_pointer p \<noteq> None) \<and>
           ip_dispatched_pointer p \<noteq> Some (ip_initial_pointer p))"

lemma ip_ok_step: "ip_step p p' \<Longrightarrow> ip_ok p \<Longrightarrow> ip_ok p'"
  by (induction rule: ip_step.induct)
    (auto simp: ip_ok_def interaction_start_def motion_def take_geometry_request_def complete_geometry_def
      release_def confirm_cursor_published_def finish_def abort_interaction_def rect_empty_def Let_def
      split: if_splits)

lemma ip_reachable_ok: "ip_reachable p \<Longrightarrow> ip_ok p"
  by (induction rule: ip_reachable.induct)
    (auto simp: ip_ok_def new_interactive_policy_def dest: ip_ok_step)

section \<open>Requested geometry\<close>

lemma add_coordinate_value:
  "sint (add_coordinate origin delta) = clamp (sint origin + delta) int32_min int32_max"
  unfolding add_coordinate_def by (intro sint_i32_of) (auto simp: clamp_def)

lemma resize_extent_value:
  assumes "uint minimum \<le> maximum_window_extent"
  shows "uint (resize_extent origin delta minimum) = clamp (uint origin + delta) (uint minimum) maximum_window_extent"
proof -
  have "0 \<le> uint minimum" by simp
  then have "0 \<le> clamp (uint origin + delta) (uint minimum) maximum_window_extent"
    "clamp (uint origin + delta) (uint minimum) maximum_window_extent \<le> maximum_window_extent"
    using clamp_between [OF assms, of "uint origin + delta"] by linarith+
  then show ?thesis
    unfolding resize_extent_def by (intro uint_u32_of) (simp_all add: maximum_window_extent_def)
qed

lemma resize_extent_between:
  assumes "uint minimum \<le> maximum_window_extent"
  shows "minimum \<le> resize_extent origin delta minimum"
    "uint (resize_extent origin delta minimum) \<le> maximum_window_extent"
  using clamp_between [OF assms, of "uint origin + delta"] resize_extent_value [OF assms]
  by (simp_all add: word_le_def)

text \<open>
  While the machine is ending, with its cursor published and nothing in flight, it can finish
  or it has one more request to send; once that one is applied it can finish.
\<close>

lemma ending_not_stuck:
  assumes "ip_kind p \<noteq> IK_None" "ip_ending p" "ip_cursor_published p" "\<not> ip_transaction_in_flight p"
  shows "finish_ready p \<or> (\<exists>g p'. take_geometry_request p = (Some g, p') \<and>
           (\<forall>applied. \<not> rect_empty applied \<longrightarrow> finish_ready (snd (complete_geometry applied p'))))"
  using assms
  by (auto simp: finish_ready_def take_geometry_request_def complete_geometry_def rect_empty_def Let_def)

lemma finish_idle:
  assumes "ip_ok p" "finish p = (True, p')"
  shows "ip_kind p' = IK_None" "ip_ok p'" "ip_last_committed p' = ip_last_committed p"
proof -
  have "p' = snd (finish p)" using assms(2) by simp
  then have "ip_step p p'" by (simp add: ip_step.intros(7))
  then show "ip_ok p'" using assms(1) by (rule ip_ok_step)
  show "ip_kind p' = IK_None" "ip_last_committed p' = ip_last_committed p"
    using assms(2) by (auto simp: finish_def abort_interaction_def split: if_splits)
qed

section \<open>Properties\<close>

text \<open>A drag of a concrete window, used below.\<close>

definition drag_request :: interaction_begin where
  "drag_request = \<lparr>ib_kind = IK_Move, ib_target = 5, ib_button = 1, ib_pointer = \<lparr>ptr_x = 10, ptr_y = 10\<rparr>,
     ib_applied_geometry = make_rectangle 100 100 300 200, ib_managed = True, ib_visible = True,
     ib_direct_root = True, ib_input_output = True\<rparr>"

definition dragging :: interactive_policy where
  "dragging = motion \<lparr>ptr_x = 15, ptr_y = 30\<rparr>
     (snd (interaction_start drag_request (new_interactive_policy default_bindings)))"

lemma dragging_reachable: "ip_reachable dragging"
  unfolding dragging_def
  by (intro ip_reachable.ip_step [OF _ ip_step.intros(2)] ip_reachable.ip_step [OF _ ip_step.intros(1)] ip_start)

text \<open>
  In every reachable state of the interaction machine, an idle machine holds no target, button,
  cursor or outstanding request, and an active one has a target, a button, the cursor of its kind
  and non-empty geometries, and a request in flight is for a dispatched pointer position.
\<close>

lemma interaction_invariant:
  assumes "ip_reachable p"
  shows "ip_ok p"
  using assms by (rule ip_reachable_ok)

text \<open>
  A move request keeps the extent and saturates the origin at the ends of the coordinate range;
  a resize request keeps the origin and its extent is between the configured minimum and the
  largest window extent. At most one request is in flight.
\<close>

lemma geometry_request_correct:
  assumes "take_geometry_request p = (Some g, p')"
    "uint (minimum_width (ip_bindings p)) \<le> maximum_window_extent"
    "uint (minimum_height (ip_bindings p)) \<le> maximum_window_extent"
  shows "\<not> ip_transaction_in_flight p \<and> ip_transaction_in_flight p' \<and>
     (if ip_kind p = IK_Move
      then rect_width g = rect_width (ip_initial_geometry p) \<and> rect_height g = rect_height (ip_initial_geometry p) \<and>
           sint (rect_x g) = clamp (sint (rect_x (ip_initial_geometry p)) +
             (sint (ptr_x (ip_latest_pointer p)) - sint (ptr_x (ip_initial_pointer p)))) int32_min int32_max \<and>
           sint (rect_y g) = clamp (sint (rect_y (ip_initial_geometry p)) +
             (sint (ptr_y (ip_latest_pointer p)) - sint (ptr_y (ip_initial_pointer p)))) int32_min int32_max
      else rect_x g = rect_x (ip_initial_geometry p) \<and> rect_y g = rect_y (ip_initial_geometry p) \<and>
           minimum_width (ip_bindings p) \<le> rect_width g \<and> uint (rect_width g) \<le> maximum_window_extent \<and>
           minimum_height (ip_bindings p) \<le> rect_height g \<and> uint (rect_height g) \<le> maximum_window_extent)"
  using assms
  by (auto simp: take_geometry_request_def Let_def add_coordinate_value resize_extent_between split: if_splits)

text \<open>
  An interaction that is ending never gets stuck: once its cursor is published and no request
  is in flight, it can finish, or it sends one more request and can finish when that one is applied.
\<close>

lemma interaction_ends:
  assumes "ip_kind p \<noteq> IK_None" "ip_ending p" "ip_cursor_published p" "\<not> ip_transaction_in_flight p"
  shows "finish_ready p \<or> (\<exists>g p'. take_geometry_request p = (Some g, p') \<and>
           (\<forall>applied. \<not> rect_empty applied \<longrightarrow> finish_ready (snd (complete_geometry applied p'))))"
  using assms by (rule ending_not_stuck)

section \<open>Whole interactions\<close>

text \<open>The geometry that belongs to a position of the pointer, in numbers: moved or resized by what the pointer has moved in all.\<close>

definition belongs_to :: "pointer_position \<Rightarrow> interactive_policy \<Rightarrow> interactive_geometry \<Rightarrow> bool" where
  "belongs_to pointer p g \<longleftrightarrow>
     (let dx = sint (ptr_x pointer) - sint (ptr_x (ip_initial_pointer p));
          dy = sint (ptr_y pointer) - sint (ptr_y (ip_initial_pointer p));
          start = ip_initial_geometry p
      in if ip_kind p = IK_Move
         then rect_width g = rect_width start \<and> rect_height g = rect_height start \<and>
              sint (rect_x g) = clamp (sint (rect_x start) + dx) int32_min int32_max \<and>
              sint (rect_y g) = clamp (sint (rect_y start) + dy) int32_min int32_max
         else rect_x g = rect_x start \<and> rect_y g = rect_y start \<and>
              uint (rect_width g) = clamp (uint (rect_width start) + dx) (uint (minimum_width (ip_bindings p))) maximum_window_extent \<and>
              uint (rect_height g) = clamp (uint (rect_height start) + dy) (uint (minimum_height (ip_bindings p))) maximum_window_extent)"

text \<open>Bindings with which the bounds of an extent are in order; \<open>std::clamp\<close> is not defined for others.\<close>

definition valid_bindings :: "interactive_bindings \<Rightarrow> bool" where
  "valid_bindings b \<longleftrightarrow> uint (minimum_width b) \<le> maximum_window_extent \<and> uint (minimum_height b) \<le> maximum_window_extent"

text \<open>
  A run of the machine, with the last request of the interaction: the position of the pointer it was made for, the geometry it
  asks for and, once it is completed, the geometry the caller reported as applied.
\<close>

type_synonym last_request = "(pointer_position \<times> interactive_geometry \<times> interactive_geometry option) option"

definition completed_with :: "interactive_geometry \<Rightarrow> interactive_policy \<Rightarrow> last_request \<Rightarrow> last_request" where
  "completed_with applied p asked =
     (if fst (complete_geometry applied p) then map_option (\<lambda>(q, g, _). (q, g, Some applied)) asked else asked)"

inductive ip_run :: "interactive_policy \<Rightarrow> last_request \<Rightarrow> bool" where
  run_new: "valid_bindings bindings \<Longrightarrow> ip_run (new_interactive_policy bindings) None"
| run_start: "ip_run p asked \<Longrightarrow> interaction_start request p = (r, p') \<Longrightarrow> ip_run p' (if br_accepted r then None else asked)"
| run_motion: "ip_run p asked \<Longrightarrow> ip_run (motion pointer p) asked"
| run_take: "ip_run p asked \<Longrightarrow> take_geometry_request p = (g, p') \<Longrightarrow>
    ip_run p' (case g of None \<Rightarrow> asked | Some g \<Rightarrow> Some (ip_latest_pointer p, g, None))"
| run_complete: "ip_run p asked \<Longrightarrow> ip_run (snd (complete_geometry applied p)) (completed_with applied p asked)"
| run_release: "ip_run p asked \<Longrightarrow> ip_run (snd (release button pointer p)) asked"
| run_confirm: "ip_run p asked \<Longrightarrow> ip_run (snd (confirm_cursor_published p)) asked"
| run_finish: "ip_run p asked \<Longrightarrow> ip_run (snd (finish p)) asked"
| run_abort: "ip_run p asked \<Longrightarrow> ip_run (snd (abort_interaction p)) asked"

lemma run_reachable: "ip_run p asked \<Longrightarrow> ip_reachable p"
proof (induction rule: ip_run.induct)
  case (run_start p asked request r p')
  then show ?case using ip_reachable.ip_step [OF _ ip_step.intros(1), of p request] by simp
next
  case (run_take p asked g p')
  then show ?case using ip_reachable.ip_step [OF _ ip_step.intros(3), of p] by simp
qed (auto intro: ip_reachable.intros ip_step.intros)

lemma take_some:
  assumes "take_geometry_request p = (Some g, p')" "valid_bindings (ip_bindings p)"
  shows "belongs_to (ip_latest_pointer p) p g" "ip_latest_pointer p \<noteq> ip_initial_pointer p"
    "p' = p\<lparr>ip_dispatched_pointer := Some (ip_latest_pointer p), ip_transaction_in_flight := True\<rparr>"
  using assms
  by (auto simp: take_geometry_request_def belongs_to_def valid_bindings_def Let_def add_coordinate_value resize_extent_value split: if_splits)

lemma take_none: "take_geometry_request p = (None, p') \<Longrightarrow> p' = p"
  by (auto simp: take_geometry_request_def Let_def split: if_splits)

lemma belongs_simps [simp]:
  "belongs_to q (p\<lparr>ip_latest_pointer := x\<rparr>) g = belongs_to q p g"
  "belongs_to q (p\<lparr>ip_dispatched_pointer := d\<rparr>) g = belongs_to q p g"
  "belongs_to q (p\<lparr>ip_last_committed := c\<rparr>) g = belongs_to q p g"
  "belongs_to q (p\<lparr>ip_transaction_in_flight := f\<rparr>) g = belongs_to q p g"
  "belongs_to q (p\<lparr>ip_ending := f\<rparr>) g = belongs_to q p g"
  "belongs_to q (p\<lparr>ip_cursor_published := f\<rparr>) g = belongs_to q p g"
  by (simp_all add: belongs_to_def)

text \<open>The machine remembers the position of the last request and what was applied for it; before the first, nothing is.\<close>

definition run_ok :: "interactive_policy \<Rightarrow> last_request \<Rightarrow> bool" where
  "run_ok p asked \<longleftrightarrow> valid_bindings (ip_bindings p) \<and>
     (ip_kind p \<noteq> IK_None \<longrightarrow> ip_dispatched_pointer p = map_option fst asked \<and>
       (asked = None \<longrightarrow> ip_last_committed p = ip_initial_geometry p \<and> \<not> ip_transaction_in_flight p) \<and>
       (\<forall>q g applied. asked = Some (q, g, applied) \<longrightarrow> q \<noteq> ip_initial_pointer p \<and> belongs_to q p g \<and>
         applied = (if ip_transaction_in_flight p then None else Some (ip_last_committed p))))"

lemma run_ok: "ip_run p asked \<Longrightarrow> run_ok p asked"
proof (induction rule: ip_run.induct)
  case (run_take p asked g p')
  show ?case
  proof (cases g)
    case None
    then show ?thesis using run_take take_none by auto
  next
    case (Some g')
    then have "valid_bindings (ip_bindings p)" "take_geometry_request p = (Some g', p')" using run_take by (simp_all add: run_ok_def)
    note new = take_some [OF this(2,1)]
    have "belongs_to (ip_latest_pointer p) p' g'" using new(1) by (simp add: new(3))
    then show ?thesis using new(2,3) run_take.IH Some by (simp add: run_ok_def)
  qed
next
  case (run_start p asked request r p')
  then show ?case by (auto simp: run_ok_def interaction_start_def refused_begin_def Let_def split: if_splits)
next
  case (run_new bindings)
  then show ?case by (simp add: run_ok_def new_interactive_policy_def)
qed (auto simp: run_ok_def completed_with_def motion_def complete_geometry_def release_def confirm_cursor_published_def finish_def abort_interaction_def)

text \<open>
  C13. What a finished interaction leaves behind, in every run with bindings whose minimum extents do not exceed the largest
  one: nothing more is asked for, and either nothing ever was, the pointer is where the interaction began and the window has
  its first geometry; or the window has what was applied for the last request, that request asks for the geometry that belongs
  to the position of the pointer it was made for, and this is the last position of the pointer, unless the pointer has come
  back to where it was at the start. In that case the last request was for some other position: the window stays where that
  one put it, although the pointer has not moved in all.
\<close>

theorem finished_interaction_geometry:
  assumes "ip_run p asked" "finish_ready p"
  shows "take_geometry_request p = (None, p) \<and>
    (case asked of
       None \<Rightarrow> ip_latest_pointer p = ip_initial_pointer p \<and> ip_last_committed p = ip_initial_geometry p
     | Some (q, g, applied) \<Rightarrow> belongs_to q p g \<and> applied = Some (ip_last_committed p) \<and> q \<noteq> ip_initial_pointer p \<and>
         (q = ip_latest_pointer p \<or> ip_latest_pointer p = ip_initial_pointer p))"
proof -
  have active: "ip_kind p \<noteq> IK_None"
    using ip_reachable_ok [OF run_reachable [OF assms(1)]] assms(2) by (auto simp: ip_ok_def finish_ready_def split: if_splits)
  have "take_geometry_request p = (None, p)"
    using assms(2) by (auto simp: finish_ready_def take_geometry_request_def Let_def split: if_splits)
  then show ?thesis using run_ok [OF assms(1)] assms(2) active
    by (auto simp: run_ok_def finish_ready_def split: option.splits if_splits)
qed

text \<open>The example comes back: the window stays where the first request moved it.\<close>

theorem finished_interaction_geometry_witness:
  "\<exists>p asked. ip_run p asked \<and> finish_ready p \<and> ip_latest_pointer p = ip_initial_pointer p \<and>
     ip_last_committed p = make_rectangle 105 120 300 200 \<and> take_geometry_request p = (None, p)"
proof -
  let ?taken = "snd (take_geometry_request dragging)"
  let ?p = "snd (release 1 \<lparr>ptr_x = 10, ptr_y = 10\<rparr> (snd (confirm_cursor_published (snd (complete_geometry (make_rectangle 105 120 300 200) ?taken)))))"
  have "valid_bindings default_bindings" by code_simp
  then have "\<exists>asked. ip_run (snd (interaction_start drag_request (new_interactive_policy default_bindings))) asked"
    using ip_run.run_start [OF ip_run.run_new prod.collapse [symmetric]] by blast
  then have "\<exists>asked. ip_run ?taken asked"
    unfolding dragging_def using ip_run.run_take [OF ip_run.run_motion prod.collapse [symmetric]] by blast
  then obtain asked where run: "ip_run ?p asked"
    using ip_run.run_release ip_run.run_confirm ip_run.run_complete by blast
  have ready: "finish_ready ?p" by code_simp
  have "ip_latest_pointer ?p = ip_initial_pointer ?p" "ip_last_committed ?p = make_rectangle 105 120 300 200" by code_simp+
  then show ?thesis using finished_interaction_geometry [OF run ready] run ready by blast
qed

end
