(* ===== verification/Out_Types.thy ===== *)
theory Out_Types
  imports Geometry
begin

text \<open>
  The data of the output model (\<open>output/model/types.hpp\<close>): outputs, their modes and states, the
  layout of the desktop. Identifiers wrap a 64-bit value and are that value here.
\<close>

section \<open>Limits\<close>

definition kMaximumOutputs :: nat where
  "kMaximumOutputs = 8"

definition kMaximumOutputNameBytes :: nat where
  "kMaximumOutputNameBytes = 63"

definition kMaximumPhysicalExtent :: u32 where
  "kMaximumPhysicalExtent = 4096"

definition kMaximumPhysicalPixels :: u64 where
  "kMaximumPhysicalPixels = 16777216"

definition kMaximumTotalOutputPixels :: u64 where
  "kMaximumTotalOutputPixels = 67108864"

definition kMaximumRootLogicalWidth :: u32 where
  "kMaximumRootLogicalWidth = 32767"

definition kMaximumRootLogicalHeight :: u32 where
  "kMaximumRootLogicalHeight = 32767"

definition kMaximumScaleDenominator :: u32 where
  "kMaximumScaleDenominator = 120"

definition kMaximumModesPerOutput :: nat where
  "kMaximumModesPerOutput = 128"

section \<open>Values\<close>

record rational_scale =
  sc_numerator :: u32
  sc_denominator :: u32

datatype transform =
    Tr_Normal | Tr_Rotate90 | Tr_Rotate180 | Tr_Rotate270
  | Tr_Flipped | Tr_Flipped90 | Tr_Flipped180 | Tr_Flipped270 | Tr_Other u8

text \<open>
  \<open>Tr_Other v\<close> is a byte outside the enumeration; the enumerators own the values below 8, so a
  smaller \<open>v\<close> there reads as 8.
\<close>

fun transform_value :: "transform \<Rightarrow> nat" where
  "transform_value Tr_Normal = 0"
| "transform_value Tr_Rotate90 = 1"
| "transform_value Tr_Rotate180 = 2"
| "transform_value Tr_Rotate270 = 3"
| "transform_value Tr_Flipped = 4"
| "transform_value Tr_Flipped90 = 5"
| "transform_value Tr_Flipped180 = 6"
| "transform_value Tr_Flipped270 = 7"
| "transform_value (Tr_Other v) = max 8 (unat v)"

definition output_transform_bit :: "transform \<Rightarrow> u32" where
  "output_transform_bit t = (if transform_value t \<le> 7 then push_bit (transform_value t) 1 else 0)"

definition kAllOutputTransformsMask :: u32 where
  "kAllOutputTransformsMask =
     output_transform_bit Tr_Normal OR output_transform_bit Tr_Rotate90 OR
     output_transform_bit Tr_Rotate180 OR output_transform_bit Tr_Rotate270 OR
     output_transform_bit Tr_Flipped OR output_transform_bit Tr_Flipped90 OR
     output_transform_bit Tr_Flipped180 OR output_transform_bit Tr_Flipped270"

datatype output_kind = OK_Headless | OK_Drm | OK_Other u8

record physical_extent =
  pe_width :: u32
  pe_height :: u32

record logical_extent =
  le_width :: u32
  le_height :: u32

record logical_point =
  lp_x :: i32
  lp_y :: i32

record physical_point =
  pp_x :: u32
  pp_y :: u32

type_synonym logical_rectangle = rectangle

record physical_rectangle =
  pr_x :: u32
  pr_y :: u32
  pr_width :: u32
  pr_height :: u32

definition pr_empty :: "physical_rectangle \<Rightarrow> bool" where
  "pr_empty r \<longleftrightarrow> pr_width r = 0 \<or> pr_height r = 0"

datatype sdr_color = Sdr_Srgb | Sdr_DisplayP3 | Sdr_Color_Other u8

datatype sdr_color_primaries = Primaries_Srgb | Primaries_DisplayP3 | Primaries_Other u8

datatype sdr_transfer = Transfer_Srgb | Transfer_Linear | Transfer_Other u8

record sdr_metadata =
  sdr_color_space :: sdr_color
  sdr_transfer_function :: sdr_transfer
  sdr_primaries :: sdr_color_primaries
  sdr_luminance_available :: bool
  sdr_minimum_luminance_millinit :: u32
  sdr_maximum_luminance_millinit :: u32
  sdr_max_frame_average_luminance_millinit :: u32

record output_mode =
  om_id :: u64
  om_output_id :: u64
  om_physical_width :: u32
  om_physical_height :: u32
  om_refresh_millihertz :: u32
  om_flags :: u32
  om_name :: string
  om_preferred :: bool
  om_current :: bool

record output_descriptor =
  od_id :: u64
  od_name :: string
  od_kind :: output_kind
  od_connected :: bool
  od_physical_width_mm :: u32
  od_physical_height_mm :: u32
  od_supported_transform_mask :: u32
  od_minimum_scale :: rational_scale
  od_maximum_scale :: rational_scale
  od_maximum_scale_denominator :: u32
  od_mode_configurable :: bool
  od_scale_configurable :: bool
  od_transform_configurable :: bool
  od_primary_eligible :: bool
  od_arbitrary_headless_mode :: bool
  od_maximum_physical_width :: u32
  od_maximum_physical_height :: u32
  od_maximum_physical_pixels :: u64
  od_modes :: "output_mode list"

record output_state =
  os_output_id :: u64
  os_enabled :: bool
  os_mode_id :: u64
  os_logical_x :: i32
  os_logical_y :: i32
  os_logical_width :: u32
  os_logical_height :: u32
  os_physical_width :: u32
  os_physical_height :: u32
  os_refresh_millihertz :: u32
  os_scale :: rational_scale
  os_transform :: transform
  os_color :: sdr_metadata
  os_primary :: bool
  os_generation :: u64

record output_layout =
  ol_descriptors :: "(u64, output_descriptor) RBT.rbt"
  ol_states :: "(u64, output_state) RBT.rbt"
  ol_primary_output_id :: u64
  ol_root_logical_width :: u32
  ol_root_logical_height :: u32
  ol_generation :: u64
  ol_enabled_output_count :: nat
  ol_output_order :: "u64 list"

text \<open>The pixels of a physical rectangle; its edges are computed in 64 bits by the code.\<close>

definition pr_right :: "physical_rectangle \<Rightarrow> int" where
  "pr_right r = uint (pr_x r) + uint (pr_width r)"

definition pr_bottom :: "physical_rectangle \<Rightarrow> int" where
  "pr_bottom r = uint (pr_y r) + uint (pr_height r)"

definition pr_pts :: "physical_rectangle \<Rightarrow> (int \<times> int) set" where
  "pr_pts r = {(px, py). uint (pr_x r) \<le> px \<and> px < pr_right r \<and> uint (pr_y r) \<le> py \<and> py < pr_bottom r}"

end
