(* ===== verification/Out_Scale.thy ===== *)
theory Out_Scale
  imports Out_Types
begin

text \<open>
  Rational output scales (\<open>output/model/scale.hpp\<close>, \<open>output/model/scale.cpp\<close>): reduction,
  comparison by cross multiplication in 64 bits, and the logical size of a scaled output.
\<close>

section \<open>Operations\<close>

definition compare_scales :: "rational_scale \<Rightarrow> rational_scale \<Rightarrow> int" where
  "compare_scales left right =
     (let left_product = (ucast (sc_numerator left) :: u64) * ucast (sc_denominator right);
          right_product = (ucast (sc_numerator right) :: u64) * ucast (sc_denominator left)
      in if left_product < right_product then -1 else if left_product > right_product then 1 else 0)"

definition gcd_u32 :: "u32 \<Rightarrow> u32 \<Rightarrow> u32" where
  "gcd_u32 a b = word_of_nat (gcd (unat a) (unat b))"

definition reduce_scale :: "u32 \<Rightarrow> u32 \<Rightarrow> rational_scale option" where
  "reduce_scale numerator denominator =
     (if numerator = 0 \<or> denominator = 0 then None
      else let divisor = gcd_u32 numerator denominator
           in Some \<lparr>sc_numerator = numerator div divisor, sc_denominator = denominator div divisor\<rparr>)"

definition is_reduced :: "rational_scale \<Rightarrow> bool" where
  "is_reduced scale \<longleftrightarrow>
     sc_numerator scale \<noteq> 0 \<and> sc_denominator scale \<noteq> 0 \<and>
     gcd_u32 (sc_numerator scale) (sc_denominator scale) = 1"

definition scale_in_range :: "rational_scale \<Rightarrow> rational_scale \<Rightarrow> rational_scale \<Rightarrow> bool" where
  "scale_in_range value minimum maximum =
     (if sc_numerator value = 0 \<or> sc_denominator value = 0 \<or>
         sc_numerator minimum = 0 \<or> sc_denominator minimum = 0 \<or>
         sc_numerator maximum = 0 \<or> sc_denominator maximum = 0
      then False
      else compare_scales value minimum \<ge> 0 \<and> compare_scales value maximum \<le> 0)"

definition valid_output_scale :: "rational_scale \<Rightarrow> u32 \<Rightarrow> bool" where
  "valid_output_scale scale denominator_limit \<longleftrightarrow>
     denominator_limit \<noteq> 0 \<and> sc_denominator scale \<le> denominator_limit \<and>
     sc_denominator scale \<le> kMaximumScaleDenominator \<and> is_reduced scale \<and>
     scale_in_range scale \<lparr>sc_numerator = 1, sc_denominator = 1\<rparr> \<lparr>sc_numerator = 4, sc_denominator = 1\<rparr>"

definition derive_logical_dimension :: "u32 \<Rightarrow> rational_scale \<Rightarrow> u32 option" where
  "derive_logical_dimension transformed_physical_extent scale =
     (if \<not> is_reduced scale then None
      else let product = (ucast transformed_physical_extent :: u64) * ucast (sc_denominator scale);
               quotient = product div ucast (sc_numerator scale);
               rounded = quotient + (if product mod ucast (sc_numerator scale) \<noteq> 0 then 1 else 0)
           in if rounded > 4294967295 then None else Some (ucast rounded))"

definition derive_logical_extent :: "physical_extent \<Rightarrow> rational_scale \<Rightarrow> logical_extent option" where
  "derive_logical_extent extent scale =
     (let width = derive_logical_dimension (pe_width extent) scale;
          height = derive_logical_dimension (pe_height extent) scale
      in case (width, height) of
           (Some w, Some h) \<Rightarrow> Some \<lparr>le_width = w, le_height = h\<rparr>
         | _ \<Rightarrow> None)"

section \<open>Products of 32-bit values do not wrap\<close>

lemma product_u64:
  fixes a b :: u32
  shows "uint ((ucast a :: u64) * ucast b) = uint a * uint b"
proof -
  have "uint a * uint b \<le> 4294967295 * 4294967295"
    using uint32_range [of a] uint32_range [of b] by (intro mult_mono) auto
  moreover have "0 \<le> uint a * uint b" by simp
  ultimately show ?thesis by (simp add: uint_mult_ge0 uint_word_ariths uint_ucast_u64)
qed

lemma gcd_u32_value: "unat (gcd_u32 a b) = gcd (unat a) (unat b)" if "a \<noteq> 0 \<or> b \<noteq> 0"
proof -
  have bound: "gcd (unat a) (unat b) \<le> max (unat a) (unat b)"
    using that by (cases "a = 0") (auto simp: unat_eq_0 le_max_iff_disj gcd_le1_nat)
  have "max (unat a) (unat b) < 2 ^ 32"
    using unsigned_less [of a, where ?'a = nat] unsigned_less [of b, where ?'a = nat] by simp
  with bound have "gcd (unat a) (unat b) < 2 ^ 32" by (rule le_less_trans)
  then show ?thesis by (simp add: gcd_u32_def unsigned_of_nat take_bit_nat_eq_self)
qed

text \<open>Comparison is the comparison of the rationals.\<close>

lemma compare_scales_le: "compare_scales l r \<le> 0 \<longleftrightarrow>
    uint (sc_numerator l) * uint (sc_denominator r) \<le> uint (sc_numerator r) * uint (sc_denominator l)"
  by (simp add: compare_scales_def Let_def word_less_def product_u64)

lemma compare_scales_ge: "compare_scales l r \<ge> 0 \<longleftrightarrow>
    uint (sc_numerator r) * uint (sc_denominator l) \<le> uint (sc_numerator l) * uint (sc_denominator r)"
  by (simp add: compare_scales_def Let_def word_less_def product_u64)

lemma valid_output_scaleD:
  assumes "valid_output_scale scale limit"
  shows "0 < uint (sc_numerator scale)" "0 < uint (sc_denominator scale)"
    "uint (sc_denominator scale) \<le> 120" "uint (sc_denominator scale) \<le> uint (sc_numerator scale)"
    "uint (sc_numerator scale) \<le> 4 * uint (sc_denominator scale)" "is_reduced scale"
  using assms
  by (auto simp: valid_output_scale_def is_reduced_def scale_in_range_def compare_scales_le compare_scales_ge
      uint_pos_iff32 word_le_def kMaximumScaleDenominator_def)

section \<open>The logical size is the exact ceiling\<close>

lemma ceiling_step:
  fixes p n :: int
  assumes "0 < n" "0 \<le> p"
  defines "r \<equiv> p div n + (if p mod n \<noteq> 0 then 1 else 0)"
  shows "p \<le> r * n" "(r - 1) * n < p \<or> p = 0 \<and> r = 0" "0 \<le> r"
proof -
  define q m where "q = p div n" and "m = p mod n"
  have m: "0 \<le> m" "m < n" "p = q * n + m" using assms by (simp_all add: q_def m_def)
  have q: "0 \<le> q" using assms by (simp add: q_def pos_imp_zdiv_nonneg_iff)
  have r: "r = q + (if m \<noteq> 0 then 1 else 0)" by (simp add: r_def q_def m_def)
  show "p \<le> r * n" using m by (simp add: r distrib_right)
  show "0 \<le> r" using q by (simp add: r)
  show "(r - 1) * n < p \<or> p = 0 \<and> r = 0" using m assms(1)
    by (cases "m = 0") (auto simp: r left_diff_distrib)
qed

lemma derive_logical_dimension_ceiling:
  assumes "derive_logical_dimension extent scale = Some r"
  shows "uint extent * uint (sc_denominator scale) \<le> uint r * uint (sc_numerator scale)"
    "(uint r - 1) * uint (sc_numerator scale) < uint extent * uint (sc_denominator scale) \<or> extent = 0 \<and> r = 0"
proof -
  let ?n = "uint (sc_numerator scale)" and ?d = "uint (sc_denominator scale)"
  let ?p = "uint extent * ?d"
  define product where "product = (ucast extent :: u64) * ucast (sc_denominator scale)"
  define rounded where "rounded = product div ucast (sc_numerator scale) +
    (if product mod ucast (sc_numerator scale) \<noteq> 0 then 1 else 0)"
  from assms have red: "is_reduced scale" and small: "rounded \<le> 4294967295" and r: "r = ucast rounded"
    by (auto simp: derive_logical_dimension_def Let_def product_def rounded_def not_less split: if_splits)
  have n: "0 < ?n" "0 < ?d" using red by (auto simp: is_reduced_def uint_pos_iff32)
  have p: "uint product = ?p" by (simp add: product_def product_u64)
  have q: "uint (product div ucast (sc_numerator scale)) = ?p div ?n"
    "uint (product mod ucast (sc_numerator scale)) = ?p mod ?n"
    by (simp_all add: uint_div uint_mod p uint_ucast_u64)
  have "?p div ?n \<le> ?p" using n zdiv_mono2 [of ?p 1 ?n] by simp
  also have "\<dots> \<le> 4294967295 * 4294967295"
    using uint32_range [of extent] uint32_range [of "sc_denominator scale"] by (intro mult_mono) auto
  finally have big: "?p div ?n + 1 < 18446744073709551616" by simp
  have nz: "product mod ucast (sc_numerator scale) \<noteq> 0 \<longleftrightarrow> ?p mod ?n \<noteq> 0"
    unfolding q(2) [symmetric] by (simp add: uint_0_iff)
  have "0 \<le> ?p div ?n" using n by (simp add: pos_imp_zdiv_nonneg_iff)
  then have "uint rounded = ?p div ?n + (if ?p mod ?n \<noteq> 0 then 1 else 0)"
    using big q(1) unfolding rounded_def nz by (simp add: uint_word_ariths)
  moreover have "uint r = uint rounded"
    using small by (simp add: r unsigned_ucast_eq unsigned_take_bit_eq take_bit_int_eq_self word_le_def)
  ultimately have v: "uint r = ?p div ?n + (if ?p mod ?n \<noteq> 0 then 1 else 0)" by simp
  have "0 \<le> ?p" by simp
  note c = ceiling_step [OF n(1) this]
  show "?p \<le> uint r * ?n" unfolding v by (rule c(1))
  from c(2) show "(uint r - 1) * ?n < ?p \<or> extent = 0 \<and> r = 0"
    unfolding v [symmetric] using n(2) by (auto simp: uint_0_iff)
qed

lemma derive_logical_dimension_total:
  assumes "valid_output_scale scale limit"
  shows "\<exists>r. derive_logical_dimension extent scale = Some r"
proof -
  let ?n = "uint (sc_numerator scale)" and ?d = "uint (sc_denominator scale)"
  let ?p = "uint extent * ?d"
  note v = valid_output_scaleD [OF assms]
  define product where "product = (ucast extent :: u64) * ucast (sc_denominator scale)"
  define rounded where "rounded = product div ucast (sc_numerator scale) +
    (if product mod ucast (sc_numerator scale) \<noteq> 0 then 1 else 0)"
  have p: "uint product = ?p" by (simp add: product_def product_u64)
  have q: "uint (product div ucast (sc_numerator scale)) = ?p div ?n"
    "uint (product mod ucast (sc_numerator scale)) = ?p mod ?n"
    by (simp_all add: uint_div uint_mod p uint_ucast_u64)
  have "?p \<le> uint extent * ?n" using v(4) by (simp add: mult_left_mono)
  then have le: "?p div ?n \<le> uint extent"
    using v(1) by (metis zdiv_mono1 nonzero_mult_div_cancel_right less_irrefl)
  have eq: "?p mod ?n = 0" if "?p div ?n = uint extent"
  proof -
    have "?p = ?p div ?n * ?n + ?p mod ?n" by simp
    with that have "?p = uint extent * ?n + ?p mod ?n" by simp
    with \<open>?p \<le> uint extent * ?n\<close> pos_mod_sign [OF v(1), of ?p] show ?thesis by linarith
  qed
  have nz: "product mod ucast (sc_numerator scale) \<noteq> 0 \<longleftrightarrow> ?p mod ?n \<noteq> 0"
    unfolding q(2) [symmetric] by (simp add: uint_0_iff)
  have nn: "0 \<le> ?p div ?n" using v(1) by (simp add: pos_imp_zdiv_nonneg_iff)
  have "uint rounded = ?p div ?n + (if ?p mod ?n \<noteq> 0 then 1 else 0)"
    using le nn uint32_range [of extent] q(1) unfolding rounded_def nz by (simp add: uint_word_ariths)
  then have "uint rounded \<le> uint extent" using le eq by (cases "?p div ?n = uint extent") auto
  then have "rounded \<le> 4294967295" using uint32_range [of extent] by (simp add: word_le_def)
  then show ?thesis
    using v(6) by (simp add: derive_logical_dimension_def Let_def product_def rounded_def not_less)
qed

section \<open>Properties\<close>

text \<open>
  A scale is reduced to lowest terms without changing its value, and it is refused exactly when
  the numerator or the denominator is zero.
\<close>

lemma reduce_scale_correct:
  "case reduce_scale n d of
     None \<Rightarrow> n = 0 \<or> d = 0
   | Some s \<Rightarrow> is_reduced s \<and> uint (sc_numerator s) * uint d = uint n * uint (sc_denominator s)"
proof (cases "n = 0 \<or> d = 0")
  case True
  then show ?thesis by (simp add: reduce_scale_def)
next
  case False
  let ?g = "gcd (unat n) (unat d)"
  let ?n = "n div gcd_u32 n d" and ?d = "d div gcd_u32 n d"
  have g: "unat (gcd_u32 n d) = ?g" using False by (intro gcd_u32_value) simp
  have pos: "0 < unat n" "0 < unat d" "0 < ?g" using False by (simp_all add: unat_gt_0)
  have u: "unat ?n = unat n div ?g" "unat ?d = unat d div ?g" by (simp_all add: unat_div g)
  have dvd: "?g dvd unat n" "?g dvd unat d" by simp_all
  have nz: "0 < unat ?n" "0 < unat ?d"
    unfolding u using pos dvd by (simp_all add: div_greater_zero_iff dvd_imp_le)
  then have nz': "?n \<noteq> 0" "?d \<noteq> 0" by (simp_all add: unat_gt_0)
  have "gcd (unat ?n) (unat ?d) = 1"
    unfolding u using pos by (intro coprime_imp_gcd_eq_1 div_gcd_coprime) simp
  then have "unat (gcd_u32 ?n ?d) = 1" using gcd_u32_value [of ?n ?d] nz' by simp
  then have "gcd_u32 ?n ?d = 1" by (simp add: word_unat_eq_iff)
  then have red: "is_reduced \<lparr>sc_numerator = ?n, sc_denominator = ?d\<rparr>"
    using nz' by (simp add: is_reduced_def)
  have "unat ?n * unat d = unat n * unat ?d"
    unfolding u using dvd by (metis div_mult_swap dvd_div_mult mult.commute)
  then have "uint ?n * uint d = uint n * uint ?d"
    by (metis of_nat_mult uint_nat)
  with red False show ?thesis by (simp add: reduce_scale_def Let_def)
qed

text \<open>
  The logical size of an output is the exact ceiling of its physical size divided by the scale,
  and for a valid scale it always exists.
\<close>

lemma derive_logical_dimension_exact:
  assumes "valid_output_scale scale limit"
  shows "\<exists>r. derive_logical_dimension extent scale = Some r \<and>
     uint extent * uint (sc_denominator scale) \<le> uint r * uint (sc_numerator scale) \<and>
     ((uint r - 1) * uint (sc_numerator scale) < uint extent * uint (sc_denominator scale) \<or> extent = 0 \<and> r = 0)"
  using derive_logical_dimension_total [OF assms, of extent] derive_logical_dimension_ceiling by blast

end
