(* ===== verification/Out_Transform.thy ===== *)
theory Out_Transform
  imports Out_Types
begin

text \<open>
  Output transforms (\<open>output/model/transform.hpp\<close>, \<open>output/model/transform.cpp\<close>): the eight
  rotations and reflections that take a point of the transformed (logically oriented) plane to the
  native scanout plane and back, for boundary points and for rectangles. The reference they are
  compared with is the map of single pixels, \<open>native_pixel\<close>.
\<close>

section \<open>Operations\<close>

definition contains_boundary :: "physical_extent \<Rightarrow> physical_point \<Rightarrow> bool" where
  "contains_boundary extent point \<longleftrightarrow> pp_x point \<le> pe_width extent \<and> pp_y point \<le> pe_height extent"

definition contains_rectangle :: "physical_extent \<Rightarrow> physical_rectangle \<Rightarrow> bool" where
  "contains_rectangle extent rectangle \<longleftrightarrow>
     (ucast (pr_x rectangle) :: u64) + ucast (pr_width rectangle) \<le> ucast (pe_width extent) \<and>
     (ucast (pr_y rectangle) :: u64) + ucast (pr_height rectangle) \<le> ucast (pe_height extent)"

text \<open>\<open>std::minmax_element\<close> over a non-empty array, of which only the compared coordinate is used.\<close>

fun minimum_element :: "u32 list \<Rightarrow> u32" where
  "minimum_element [] = 0"
| "minimum_element [x] = x"
| "minimum_element (x # xs) = min x (minimum_element xs)"

fun maximum_element :: "u32 list \<Rightarrow> u32" where
  "maximum_element [] = 0"
| "maximum_element [x] = x"
| "maximum_element (x # xs) = max x (maximum_element xs)"

fun map_points :: "(physical_point \<Rightarrow> physical_point option) \<Rightarrow> physical_point list \<Rightarrow> physical_point list option" where
  "map_points mapper [] = Some []"
| "map_points mapper (c # cs) =
     (case mapper c of
        None \<Rightarrow> None
      | Some point \<Rightarrow> (case map_points mapper cs of None \<Rightarrow> None | Some points \<Rightarrow> Some (point # points)))"

definition map_rectangle_corners ::
    "physical_rectangle \<Rightarrow> (physical_point \<Rightarrow> physical_point option) \<Rightarrow> physical_rectangle option" where
  "map_rectangle_corners rectangle mapper =
     (let x1 = pr_x rectangle + pr_width rectangle;
          y1 = pr_y rectangle + pr_height rectangle;
          corners = [\<lparr>pp_x = pr_x rectangle, pp_y = pr_y rectangle\<rparr>, \<lparr>pp_x = x1, pp_y = pr_y rectangle\<rparr>,
                     \<lparr>pp_x = pr_x rectangle, pp_y = y1\<rparr>, \<lparr>pp_x = x1, pp_y = y1\<rparr>]
      in case map_points mapper corners of
           None \<Rightarrow> None
         | Some mapped \<Rightarrow>
             let minimum_x = minimum_element (map pp_x mapped); maximum_x = maximum_element (map pp_x mapped);
                 minimum_y = minimum_element (map pp_y mapped); maximum_y = maximum_element (map pp_y mapped)
             in Some \<lparr>pr_x = minimum_x, pr_y = minimum_y,
                      pr_width = maximum_x - minimum_x, pr_height = maximum_y - minimum_y\<rparr>)"

definition valid_output_transform :: "transform \<Rightarrow> bool" where
  "valid_output_transform t \<longleftrightarrow>
     transform_value t \<ge> transform_value Tr_Normal \<and> transform_value t \<le> transform_value Tr_Flipped270"

definition transform_swaps_axes :: "transform \<Rightarrow> bool" where
  "transform_swaps_axes t \<longleftrightarrow>
     transform_value t = transform_value Tr_Rotate90 \<or> transform_value t = transform_value Tr_Rotate270 \<or>
     transform_value t = transform_value Tr_Flipped90 \<or> transform_value t = transform_value Tr_Flipped270"

definition transformed_physical_extent :: "physical_extent \<Rightarrow> transform \<Rightarrow> physical_extent" where
  "transformed_physical_extent native_extent t =
     (if \<not> valid_output_transform t then \<lparr>pe_width = 0, pe_height = 0\<rparr>
      else if transform_swaps_axes t then \<lparr>pe_width = pe_height native_extent, pe_height = pe_width native_extent\<rparr>
      else native_extent)"

definition transform_boundary :: "physical_point \<Rightarrow> physical_extent \<Rightarrow> transform \<Rightarrow> physical_point option" where
  "transform_boundary transformed_point native_extent t =
     (if \<not> valid_output_transform t \<or>
         \<not> contains_boundary (transformed_physical_extent native_extent t) transformed_point
      then None
      else let u = pp_x transformed_point; v = pp_y transformed_point;
               width = pe_width native_extent; height = pe_height native_extent
           in case t of
                Tr_Normal \<Rightarrow> Some \<lparr>pp_x = u, pp_y = v\<rparr>
              | Tr_Rotate90 \<Rightarrow> Some \<lparr>pp_x = width - v, pp_y = u\<rparr>
              | Tr_Rotate180 \<Rightarrow> Some \<lparr>pp_x = width - u, pp_y = height - v\<rparr>
              | Tr_Rotate270 \<Rightarrow> Some \<lparr>pp_x = v, pp_y = height - u\<rparr>
              | Tr_Flipped \<Rightarrow> Some \<lparr>pp_x = width - u, pp_y = v\<rparr>
              | Tr_Flipped90 \<Rightarrow> Some \<lparr>pp_x = width - v, pp_y = height - u\<rparr>
              | Tr_Flipped180 \<Rightarrow> Some \<lparr>pp_x = u, pp_y = height - v\<rparr>
              | Tr_Flipped270 \<Rightarrow> Some \<lparr>pp_x = v, pp_y = u\<rparr>
              | Tr_Other _ \<Rightarrow> None)"

definition inverse_transform_boundary :: "physical_point \<Rightarrow> physical_extent \<Rightarrow> transform \<Rightarrow> physical_point option" where
  "inverse_transform_boundary native_point native_extent t =
     (if \<not> valid_output_transform t \<or> \<not> contains_boundary native_extent native_point then None
      else let x = pp_x native_point; y = pp_y native_point;
               width = pe_width native_extent; height = pe_height native_extent
           in case t of
                Tr_Normal \<Rightarrow> Some \<lparr>pp_x = x, pp_y = y\<rparr>
              | Tr_Rotate90 \<Rightarrow> Some \<lparr>pp_x = y, pp_y = width - x\<rparr>
              | Tr_Rotate180 \<Rightarrow> Some \<lparr>pp_x = width - x, pp_y = height - y\<rparr>
              | Tr_Rotate270 \<Rightarrow> Some \<lparr>pp_x = height - y, pp_y = x\<rparr>
              | Tr_Flipped \<Rightarrow> Some \<lparr>pp_x = width - x, pp_y = y\<rparr>
              | Tr_Flipped90 \<Rightarrow> Some \<lparr>pp_x = height - y, pp_y = width - x\<rparr>
              | Tr_Flipped180 \<Rightarrow> Some \<lparr>pp_x = x, pp_y = height - y\<rparr>
              | Tr_Flipped270 \<Rightarrow> Some \<lparr>pp_x = y, pp_y = x\<rparr>
              | Tr_Other _ \<Rightarrow> None)"

definition transform_rectangle ::
    "physical_rectangle \<Rightarrow> physical_extent \<Rightarrow> transform \<Rightarrow> physical_rectangle option" where
  "transform_rectangle transformed_rectangle native_extent t =
     (let transformed_extent = transformed_physical_extent native_extent t
      in if \<not> valid_output_transform t \<or> \<not> contains_rectangle transformed_extent transformed_rectangle then None
         else map_rectangle_corners transformed_rectangle (\<lambda>point. transform_boundary point native_extent t))"

definition inverse_transform_rectangle ::
    "physical_rectangle \<Rightarrow> physical_extent \<Rightarrow> transform \<Rightarrow> physical_rectangle option" where
  "inverse_transform_rectangle native_rectangle native_extent t =
     (if \<not> valid_output_transform t \<or> \<not> contains_rectangle native_extent native_rectangle then None
      else map_rectangle_corners native_rectangle (\<lambda>point. inverse_transform_boundary point native_extent t))"

section \<open>The reference: where one pixel goes\<close>

text \<open>
  The rotations are the quarter turns of the pixel grid, and a flipped transform reflects
  horizontally in the transformed plane and then rotates. A pixel covers the half-open unit square
  at its coordinates, hence the \<open>- 1\<close>.
\<close>

definition mirror_pixel :: "int \<Rightarrow> int \<times> int \<Rightarrow> int \<times> int" where
  "mirror_pixel width = (\<lambda>(u, v). (width - 1 - u, v))"

definition rotate_pixel :: "int \<Rightarrow> int \<times> int \<Rightarrow> int \<times> int" where
  "rotate_pixel height = (\<lambda>(u, v). (height - 1 - v, u))"

fun native_pixel :: "int \<Rightarrow> int \<Rightarrow> transform \<Rightarrow> int \<times> int \<Rightarrow> int \<times> int" where
  "native_pixel w h Tr_Normal p = p"
| "native_pixel w h Tr_Rotate90 p = rotate_pixel w p"
| "native_pixel w h Tr_Rotate180 p = rotate_pixel w (rotate_pixel h p)"
| "native_pixel w h Tr_Rotate270 p = rotate_pixel w (rotate_pixel h (rotate_pixel w p))"
| "native_pixel w h Tr_Flipped p = mirror_pixel w p"
| "native_pixel w h Tr_Flipped90 p = rotate_pixel w (mirror_pixel h p)"
| "native_pixel w h Tr_Flipped180 p = rotate_pixel w (rotate_pixel h (mirror_pixel w p))"
| "native_pixel w h Tr_Flipped270 p = rotate_pixel w (rotate_pixel h (rotate_pixel w (mirror_pixel h p)))"
| "native_pixel w h (Tr_Other _) p = p"

section \<open>Words under a bound\<close>

lemma uint_minus_le: "b \<le> a \<Longrightarrow> uint (a - b) = uint a - uint (b :: u32)"
proof -
  assume "b \<le> a"
  then have "0 \<le> uint a - uint b" "uint a - uint b < 4294967296"
    using uint32_range [of a] uint32_range(1) [of b] unfolding word_le_def by linarith+
  then show ?thesis by (simp add: uint_word_ariths mod_pos_pos_trivial)
qed

lemma minus_le_self: "b \<le> a \<Longrightarrow> a - b \<le> (a :: u32)"
  using uint32_range [of b] by (simp add: word_le_def uint_minus_le)

lemma minus_antimono: "a \<le> b \<Longrightarrow> b \<le> w \<Longrightarrow> w - b \<le> w - (a :: u32)"
  using uint_minus_le [of a w] uint_minus_le [of b w] by (simp add: word_le_def)

lemma contains_rectangle_iff: "contains_rectangle e r \<longleftrightarrow>
    uint (pr_x r) + uint (pr_width r) \<le> uint (pe_width e) \<and> uint (pr_y r) + uint (pr_height r) \<le> uint (pe_height e)"
proof -
  have "uint ((ucast a :: u64) + ucast b) = uint a + uint b" for a b :: u32
    using uint32_range [of a] uint32_range [of b] by (simp add: uint_word_ariths uint_ucast_u64)
  then show ?thesis by (simp add: contains_rectangle_def word_le_def uint_ucast_u64)
qed

text \<open>The far edge of a span inside an extent: no wrap-around, and between the near edge and the extent.\<close>

lemma far_edge:
  fixes a b w :: u32
  assumes "uint a + uint b \<le> uint w"
  shows "a \<le> a + b" "a + b \<le> w" "uint (a + b) = uint a + uint b" "a \<le> w"
proof -
  show s: "uint (a + b) = uint a + uint b"
    using assms uint32_range [of a] uint32_range [of b] uint32_range [of w] by (simp add: uint_word_ariths)
  show "a \<le> a + b" "a + b \<le> w" "a \<le> w"
    using assms s uint32_range(1) [of a] uint32_range(1) [of b] unfolding word_le_def by linarith+
qed

section \<open>Rectangles through their corners\<close>

lemma corners_straight:
  assumes "\<And>a b. a \<in> {pr_x r, pr_x r + pr_width r} \<Longrightarrow> b \<in> {pr_y r, pr_y r + pr_height r} \<Longrightarrow>
     mapper \<lparr>pp_x = a, pp_y = b\<rparr> = Some \<lparr>pp_x = f a, pp_y = g b\<rparr>"
  defines "X \<equiv> {f (pr_x r), f (pr_x r + pr_width r)}" and "Y \<equiv> {g (pr_y r), g (pr_y r + pr_height r)}"
  shows "map_rectangle_corners r mapper =
    Some \<lparr>pr_x = Min X, pr_y = Min Y, pr_width = Max X - Min X, pr_height = Max Y - Min Y\<rparr>"
  using assms(1) unfolding X_def Y_def
  by (simp add: map_rectangle_corners_def Let_def min.left_commute min.commute max.left_commute max.commute)

lemma corners_swapped:
  assumes "\<And>a b. a \<in> {pr_x r, pr_x r + pr_width r} \<Longrightarrow> b \<in> {pr_y r, pr_y r + pr_height r} \<Longrightarrow>
     mapper \<lparr>pp_x = a, pp_y = b\<rparr> = Some \<lparr>pp_x = f b, pp_y = g a\<rparr>"
  defines "X \<equiv> {f (pr_y r), f (pr_y r + pr_height r)}" and "Y \<equiv> {g (pr_x r), g (pr_x r + pr_width r)}"
  shows "map_rectangle_corners r mapper =
    Some \<lparr>pr_x = Min X, pr_y = Min Y, pr_width = Max X - Min X, pr_height = Max Y - Min Y\<rparr>"
  using assms(1) unfolding X_def Y_def
  by (simp add: map_rectangle_corners_def Let_def min.left_commute min.commute max.left_commute max.commute)

text \<open>An interval kept, and an interval reflected in an extent.\<close>

definition axis :: "bool \<Rightarrow> u32 \<Rightarrow> u32 \<Rightarrow> u32" where
  "axis reflected w a = (if reflected then w - a else a)"

lemma axis_span:
  fixes a b w :: u32 and m :: bool
  assumes "uint a + uint b \<le> uint w"
  defines "S \<equiv> {axis m w a, axis m w (a + b)}"
  shows "Min S = (if m then w - (a + b) else a)" "Max S - (if m then w - (a + b) else a) = b"
  using far_edge [OF assms(1)] minus_antimono [OF far_edge(1,2) [OF assms(1)]]
  by (auto simp: S_def axis_def min_def max_def)

lemma reflected_bound:
  fixes a b w :: u32
  assumes "uint a + uint b \<le> uint w"
  shows "uint (w - (a + b)) = uint w - (uint a + uint b)"
  using far_edge [OF assms] by (simp add: uint_minus_le)



text \<open>
  The rectangle a transform gives, in closed form: one coordinate swap and up to two reflections,
  with the size swapped the same way.
\<close>

fun native_rectangle :: "u32 \<Rightarrow> u32 \<Rightarrow> transform \<Rightarrow> physical_rectangle \<Rightarrow> physical_rectangle" where
  "native_rectangle W H Tr_Normal r = r"
| "native_rectangle W H Tr_Rotate90 r = \<lparr>pr_x = W - (pr_y r + pr_height r), pr_y = pr_x r, pr_width = pr_height r, pr_height = pr_width r\<rparr>"
| "native_rectangle W H Tr_Rotate180 r = \<lparr>pr_x = W - (pr_x r + pr_width r), pr_y = H - (pr_y r + pr_height r), pr_width = pr_width r, pr_height = pr_height r\<rparr>"
| "native_rectangle W H Tr_Rotate270 r = \<lparr>pr_x = pr_y r, pr_y = H - (pr_x r + pr_width r), pr_width = pr_height r, pr_height = pr_width r\<rparr>"
| "native_rectangle W H Tr_Flipped r = \<lparr>pr_x = W - (pr_x r + pr_width r), pr_y = pr_y r, pr_width = pr_width r, pr_height = pr_height r\<rparr>"
| "native_rectangle W H Tr_Flipped90 r = \<lparr>pr_x = W - (pr_y r + pr_height r), pr_y = H - (pr_x r + pr_width r), pr_width = pr_height r, pr_height = pr_width r\<rparr>"
| "native_rectangle W H Tr_Flipped180 r = \<lparr>pr_x = pr_x r, pr_y = H - (pr_y r + pr_height r), pr_width = pr_width r, pr_height = pr_height r\<rparr>"
| "native_rectangle W H Tr_Flipped270 r = \<lparr>pr_x = pr_y r, pr_y = pr_x r, pr_width = pr_height r, pr_height = pr_width r\<rparr>"
| "native_rectangle W H (Tr_Other _) r = r"

text \<open>The inverse of a transform is itself a transform of the exchanged extent.\<close>

fun inverse_transform :: "transform \<Rightarrow> transform" where
  "inverse_transform Tr_Rotate90 = Tr_Rotate270"
| "inverse_transform Tr_Rotate270 = Tr_Rotate90"
| "inverse_transform t = t"

fun known_transform :: "transform \<Rightarrow> bool" where
  "known_transform (Tr_Other _) = False"
| "known_transform _ = True"

lemma known_transform_cases [consumes 1, case_names Normal Rotate90 Rotate180 Rotate270 Flipped Flipped90 Flipped180 Flipped270]:
  assumes "known_transform t"
  obtains "t = Tr_Normal" | "t = Tr_Rotate90" | "t = Tr_Rotate180" | "t = Tr_Rotate270"
    | "t = Tr_Flipped" | "t = Tr_Flipped90" | "t = Tr_Flipped180" | "t = Tr_Flipped270"
  using assms by (cases t) auto

lemma valid_output_transform_known: "valid_output_transform t \<longleftrightarrow> known_transform t"
  by (cases t) (simp_all add: valid_output_transform_def)

lemmas transform_defs = valid_output_transform_def transform_swaps_axes_def transformed_physical_extent_def

lemma inverse_boundary_is_transform:
  assumes "known_transform t"
  shows "inverse_transform_boundary p e t =
     transform_boundary p (transformed_physical_extent e t) (inverse_transform t)"
  using assms by (cases rule: known_transform_cases)
    (auto simp: inverse_transform_boundary_def transform_boundary_def transform_defs contains_boundary_def)

lemma inverse_rectangle_is_transform:
  assumes "known_transform t"
  shows "inverse_transform_rectangle r e t =
     transform_rectangle r (transformed_physical_extent e t) (inverse_transform t)"
proof -
  have "valid_output_transform t" "valid_output_transform (inverse_transform t)"
    "transformed_physical_extent (transformed_physical_extent e t) (inverse_transform t) = e"
    using assms by (cases rule: known_transform_cases; simp add: transform_defs)+
  then show ?thesis
    by (simp add: inverse_transform_rectangle_def transform_rectangle_def inverse_boundary_is_transform [OF assms])
qed

lemma closed_straight:
  assumes "uint (pr_x r) + uint (pr_width r) \<le> uint W" "uint (pr_y r) + uint (pr_height r) \<le> uint H"
    and "\<And>a b. a \<le> W \<Longrightarrow> b \<le> H \<Longrightarrow> mapper \<lparr>pp_x = a, pp_y = b\<rparr> = Some \<lparr>pp_x = axis m W a, pp_y = axis n H b\<rparr>"
  shows "map_rectangle_corners r mapper = Some
    \<lparr>pr_x = if m then W - (pr_x r + pr_width r) else pr_x r, pr_y = if n then H - (pr_y r + pr_height r) else pr_y r,
     pr_width = pr_width r, pr_height = pr_height r\<rparr>"
  using far_edge [OF assms(1)] far_edge [OF assms(2)] assms(3)
  by (subst corners_straight [where f = "axis m W" and g = "axis n H"])
    (auto simp only: axis_span [OF assms(1)] axis_span [OF assms(2)] insert_iff empty_iff)

lemma closed_swapped:
  assumes "uint (pr_x r) + uint (pr_width r) \<le> uint H" "uint (pr_y r) + uint (pr_height r) \<le> uint W"
    and "\<And>a b. a \<le> H \<Longrightarrow> b \<le> W \<Longrightarrow> mapper \<lparr>pp_x = a, pp_y = b\<rparr> = Some \<lparr>pp_x = axis m W b, pp_y = axis n H a\<rparr>"
  shows "map_rectangle_corners r mapper = Some
    \<lparr>pr_x = if m then W - (pr_y r + pr_height r) else pr_y r, pr_y = if n then H - (pr_x r + pr_width r) else pr_x r,
     pr_width = pr_height r, pr_height = pr_width r\<rparr>"
  using far_edge [OF assms(1)] far_edge [OF assms(2)] assms(3)
  by (subst corners_swapped [where f = "axis m W" and g = "axis n H"])
    (auto simp only: axis_span [OF assms(1)] axis_span [OF assms(2)] insert_iff empty_iff)

lemmas transform_rectangle_defs =
  transform_rectangle_def transform_boundary_def contains_boundary_def contains_rectangle_iff transform_defs axis_def

lemma transform_rectangle_closed:
  assumes "known_transform t" "contains_rectangle (transformed_physical_extent e t) r"
  shows "transform_rectangle r e t = Some (native_rectangle (pe_width e) (pe_height e) t r)"
  using assms
proof (cases rule: known_transform_cases)
  case Normal
  then show ?thesis
    using assms(2) closed_straight [of r "pe_width e" "pe_height e" "\<lambda>p. transform_boundary p e t" False False]
    by (simp add: transform_rectangle_defs)
next
  case Rotate90
  then show ?thesis
    using assms(2) closed_swapped [of r "pe_height e" "pe_width e" "\<lambda>p. transform_boundary p e t" True False]
    by (simp add: transform_rectangle_defs)
next
  case Rotate180
  then show ?thesis
    using assms(2) closed_straight [of r "pe_width e" "pe_height e" "\<lambda>p. transform_boundary p e t" True True]
    by (simp add: transform_rectangle_defs)
next
  case Rotate270
  then show ?thesis
    using assms(2) closed_swapped [of r "pe_height e" "pe_width e" "\<lambda>p. transform_boundary p e t" False True]
    by (simp add: transform_rectangle_defs)
next
  case Flipped
  then show ?thesis
    using assms(2) closed_straight [of r "pe_width e" "pe_height e" "\<lambda>p. transform_boundary p e t" True False]
    by (simp add: transform_rectangle_defs)
next
  case Flipped90
  then show ?thesis
    using assms(2) closed_swapped [of r "pe_height e" "pe_width e" "\<lambda>p. transform_boundary p e t" True True]
    by (simp add: transform_rectangle_defs)
next
  case Flipped180
  then show ?thesis
    using assms(2) closed_straight [of r "pe_width e" "pe_height e" "\<lambda>p. transform_boundary p e t" False True]
    by (simp add: transform_rectangle_defs)
next
  case Flipped270
  then show ?thesis
    using assms(2) closed_swapped [of r "pe_height e" "pe_width e" "\<lambda>p. transform_boundary p e t" False False]
    by (simp add: transform_rectangle_defs)
qed

lemma transform_rectangle_Some:
  "transform_rectangle r e t = Some s \<longleftrightarrow>
     known_transform t \<and> contains_rectangle (transformed_physical_extent e t) r \<and>
     s = native_rectangle (pe_width e) (pe_height e) t r"
proof (cases "known_transform t")
  case True
  then have "valid_output_transform t" by (cases rule: known_transform_cases) (simp_all add: transform_defs)
  with True transform_rectangle_closed [OF True, of e r] show ?thesis
    by (cases "contains_rectangle (transformed_physical_extent e t) r") (auto simp: transform_rectangle_def Let_def)
next
  case False
  then obtain v where "t = Tr_Other v" by (cases t) auto
  then show ?thesis by (simp add: transform_rectangle_def transform_boundary_def map_rectangle_corners_def Let_def)
qed

text \<open>The closed form on the pixels, its containment and its inverse.\<close>

lemma native_rectangle_contained:
  assumes "known_transform t" "contains_rectangle (transformed_physical_extent e t) r"
  shows "contains_rectangle e (native_rectangle (pe_width e) (pe_height e) t r)"
  using assms
  by (cases rule: known_transform_cases) (auto simp: contains_rectangle_iff transform_defs reflected_bound)

lemma native_rectangle_inverse:
  assumes "known_transform t"
  shows "native_rectangle (pe_width (transformed_physical_extent e t)) (pe_height (transformed_physical_extent e t))
     (inverse_transform t) (native_rectangle (pe_width e) (pe_height e) t r) = r"
  using assms by (cases rule: known_transform_cases) (auto simp: transform_defs)

lemma native_rectangle_pixels:
  assumes "known_transform t" "contains_rectangle (transformed_physical_extent e t) r"
  shows "(native_pixel (uint (pe_width e)) (uint (pe_height e)) t (u, v)
      \<in> pr_pts (native_rectangle (pe_width e) (pe_height e) t r)) = ((u, v) \<in> pr_pts r)"
  using assms
  by (cases rule: known_transform_cases)
    (auto simp: contains_rectangle_iff transform_defs reflected_bound pr_pts_def pr_right_def pr_bottom_def
      rotate_pixel_def mirror_pixel_def)

lemma native_pixel_inverse:
  assumes "known_transform t"
  shows "\<exists>p. native_pixel w h t p = q"
proof -
  obtain x y where q: "q = (x, y)" by (cases q)
  have "native_pixel w h t (if transform_swaps_axes t then native_pixel h w (inverse_transform t) q
      else native_pixel w h (inverse_transform t) q) = q"
    using assms unfolding q
    by (cases rule: known_transform_cases) (simp_all add: rotate_pixel_def mirror_pixel_def transform_swaps_axes_def)
  then show ?thesis ..
qed

section \<open>Properties\<close>

text \<open>
  A rectangle is transformed exactly when it lies inside the transformed extent; the result lies
  inside the native extent and its pixels are the images of the pixels of the argument under the
  rotation or reflection, where a flipped transform is a horizontal reflection in the transformed
  plane followed by the rotation.
\<close>

lemma transform_rectangle_moves_pixels:
  "case transform_rectangle r e t of
     None \<Rightarrow> \<not> known_transform t \<or> \<not> contains_rectangle (transformed_physical_extent e t) r
   | Some s \<Rightarrow> contains_rectangle e s \<and>
       pr_pts s = native_pixel (uint (pe_width e)) (uint (pe_height e)) t ` pr_pts r"
proof (cases "transform_rectangle r e t")
  case None
  then show ?thesis using transform_rectangle_closed by fastforce
next
  case (Some s)
  then have k: "known_transform t" "contains_rectangle (transformed_physical_extent e t) r"
    and s: "s = native_rectangle (pe_width e) (pe_height e) t r"
    by (simp_all add: transform_rectangle_Some)
  note m = native_rectangle_pixels [OF k, folded s]
  have "pr_pts s = native_pixel (uint (pe_width e)) (uint (pe_height e)) t ` pr_pts r" (is "?L = ?f ` ?R")
  proof (intro subset_antisym subsetI)
    fix q assume "q \<in> ?L"
    moreover obtain u v where "?f (u, v) = q" using native_pixel_inverse [OF k(1)] by (metis surj_pair)
    ultimately show "q \<in> ?f ` ?R" using m by blast
  next
    fix q assume "q \<in> ?f ` ?R"
    then show "q \<in> ?L" using m by force
  qed
  with Some s native_rectangle_contained [OF k] show ?thesis by simp
qed

text \<open>
  The inverse transform of rectangles is exactly the inverse relation, with failures included:
  one direction gives \<open>s\<close> from \<open>r\<close> precisely when the other gives \<open>r\<close> from \<open>s\<close>.
\<close>

lemma transform_rectangle_roundtrip:
  "transform_rectangle r e t = Some s \<longleftrightarrow> inverse_transform_rectangle s e t = Some r"
proof (cases "known_transform t")
  case True
  let ?e = "transformed_physical_extent e t" and ?i = "inverse_transform t"
  have i: "known_transform ?i" "transformed_physical_extent ?e ?i = e" "inverse_transform ?i = t"
    using True by (cases rule: known_transform_cases; simp add: transform_defs)+
  show ?thesis
    using True i native_rectangle_inverse [OF True, of e] native_rectangle_inverse [OF i(1), of ?e]
      native_rectangle_contained [OF True, of e] native_rectangle_contained [OF i(1), of ?e]
    by (auto simp: inverse_rectangle_is_transform transform_rectangle_Some)
next
  case False
  then obtain v where "t = Tr_Other v" by (cases t) auto
  then show ?thesis
    by (simp add: transform_rectangle_def inverse_transform_rectangle_def transform_boundary_def
        inverse_transform_boundary_def map_rectangle_corners_def Let_def)
qed

text \<open>
  For boundary points too, the two directions are inverse relations.
\<close>

lemma transform_boundary_roundtrip:
  "transform_boundary p e t = Some q \<longleftrightarrow> inverse_transform_boundary q e t = Some p"
proof (cases "known_transform t")
  case True
  then show ?thesis
    by (cases rule: known_transform_cases)
      (cases p; cases q; auto simp: transform_boundary_def inverse_transform_boundary_def contains_boundary_def
        transform_defs minus_le_self)+
next
  case False
  then obtain v where "t = Tr_Other v" by (cases t) auto
  then show ?thesis by (simp add: transform_boundary_def inverse_transform_boundary_def Let_def)
qed

end
