(* ===== verification/Out_Mapping.thy ===== *)
theory Out_Mapping
  imports Out_Scale Out_Transform
begin

text \<open>
  The map between global logical coordinates and the native pixels of one output
  (\<open>output/model/mapping.hpp\<close>, \<open>output/model/mapping.cpp\<close>). 64-bit signed intermediate values are
  \<open>int\<close>: they are sums and products of 32-bit values that cannot leave the 64-bit range.
\<close>

section \<open>Data\<close>

record output_mapping =
  mp_logical_origin :: logical_point
  mp_logical_extent :: logical_extent
  mp_physical_extent :: physical_extent
  mp_scale :: rational_scale
  mp_transform :: transform

record logical_sample_point =
  sp_x_numerator :: int
  sp_y_numerator :: int
  sp_denominator :: u32

datatype damage_filter_footprint = Footprint_Point | Footprint_Bilinear | Footprint_Other u8

section \<open>Operations\<close>

text \<open>The four bounds are out-parameters of the code; the flag is its result.\<close>

definition logical_bounds :: "output_mapping \<Rightarrow> bool \<times> int \<times> int \<times> int \<times> int" where
  "logical_bounds mapping =
     (let left = sint (lp_x (mp_logical_origin mapping));
          top = sint (lp_y (mp_logical_origin mapping));
          right = left + uint (le_width (mp_logical_extent mapping));
          bottom = top + uint (le_height (mp_logical_extent mapping))
      in (left \<ge> 0 \<and> top \<ge> 0 \<and> right \<le> int32_max \<and> bottom \<le> int32_max, left, top, right, bottom))"

definition scaled_floor :: "u64 \<Rightarrow> rational_scale \<Rightarrow> u32 option" where
  "scaled_floor logical scale =
     (if sc_numerator scale = 0 \<or> sc_denominator scale = 0 \<or>
         logical > 18446744073709551615 div ucast (sc_numerator scale) then None
      else let v = logical * ucast (sc_numerator scale) div ucast (sc_denominator scale)
           in if v > 4294967295 then None else Some (ucast v))"

definition scaled_ceil :: "u64 \<Rightarrow> rational_scale \<Rightarrow> u32 option" where
  "scaled_ceil logical scale =
     (if sc_numerator scale = 0 \<or> sc_denominator scale = 0 \<or>
         logical > 18446744073709551615 div ucast (sc_numerator scale) then None
      else let product = logical * ucast (sc_numerator scale);
               v = product div ucast (sc_denominator scale) +
                     (if product mod ucast (sc_denominator scale) \<noteq> 0 then 1 else 0)
           in if v > 4294967295 then None else Some (ucast v))"

definition expand_bilinear :: "physical_rectangle \<Rightarrow> physical_extent \<Rightarrow> physical_rectangle option" where
  "expand_bilinear rectangle bounds =
     (if pr_empty rectangle \<or> pr_x rectangle > pe_width bounds \<or> pr_y rectangle > pe_height bounds \<or>
         (ucast (pr_x rectangle) :: u64) + ucast (pr_width rectangle) > ucast (pe_width bounds) \<or>
         (ucast (pr_y rectangle) :: u64) + ucast (pr_height rectangle) > ucast (pe_height bounds)
      then None
      else let left = if pr_x rectangle = 0 then 0 else pr_x rectangle - 1;
               top = if pr_y rectangle = 0 then 0 else pr_y rectangle - 1;
               right = min (ucast (pe_width bounds) :: u64)
                         (ucast (pr_x rectangle) + ucast (pr_width rectangle) + 1);
               bottom = min (ucast (pe_height bounds) :: u64)
                         (ucast (pr_y rectangle) + ucast (pr_height rectangle) + 1)
           in Some \<lparr>pr_x = left, pr_y = top,
                    pr_width = ucast (right - ucast left), pr_height = ucast (bottom - ucast top)\<rparr>)"

definition valid_output_mapping :: "output_mapping \<Rightarrow> bool" where
  "valid_output_mapping mapping =
     (if le_width (mp_logical_extent mapping) = 0 \<or> le_height (mp_logical_extent mapping) = 0 \<or>
         pe_width (mp_physical_extent mapping) = 0 \<or> pe_height (mp_physical_extent mapping) = 0 \<or>
         \<not> valid_output_scale (mp_scale mapping) kMaximumScaleDenominator \<or>
         \<not> valid_output_transform (mp_transform mapping)
      then False
      else let (bounded, left, top, right, bottom) = logical_bounds mapping
           in if \<not> bounded then False
              else let transformed = transformed_physical_extent (mp_physical_extent mapping) (mp_transform mapping)
                   in derive_logical_extent transformed (mp_scale mapping) = Some (mp_logical_extent mapping))"

definition make_output_mapping :: "output_state \<Rightarrow> output_mapping option" where
  "make_output_mapping state =
     (let mapping = \<lparr>mp_logical_origin = \<lparr>lp_x = os_logical_x state, lp_y = os_logical_y state\<rparr>,
                     mp_logical_extent = \<lparr>le_width = os_logical_width state, le_height = os_logical_height state\<rparr>,
                     mp_physical_extent = \<lparr>pe_width = os_physical_width state, pe_height = os_physical_height state\<rparr>,
                     mp_scale = os_scale state, mp_transform = os_transform state\<rparr>
      in if \<not> os_enabled state \<or> \<not> valid_output_mapping mapping then None else Some mapping)"

definition map_logical_point_to_native :: "output_mapping \<Rightarrow> logical_point \<Rightarrow> physical_point option" where
  "map_logical_point_to_native mapping point =
     (if \<not> valid_output_mapping mapping then None
      else let (bounded, left, top, right, bottom) = logical_bounds mapping;
               px = sint (lp_x point); py = sint (lp_y point)
           in if \<not> bounded \<or> px < left \<or> px > right \<or> py < top \<or> py > bottom then None
              else let transformed_extent =
                         transformed_physical_extent (mp_physical_extent mapping) (mp_transform mapping);
                       x = scaled_floor (u64_of (px - left)) (mp_scale mapping);
                       y = scaled_floor (u64_of (py - top)) (mp_scale mapping)
                   in case (x, y) of
                        (Some x', Some y') \<Rightarrow>
                          transform_boundary \<lparr>pp_x = min x' (pe_width transformed_extent),
                                              pp_y = min y' (pe_height transformed_extent)\<rparr>
                            (mp_physical_extent mapping) (mp_transform mapping)
                      | _ \<Rightarrow> None)"

definition map_logical_rectangle_to_native :: "output_mapping \<Rightarrow> logical_rectangle \<Rightarrow> physical_rectangle option" where
  "map_logical_rectangle_to_native mapping rectangle =
     (if \<not> valid_output_mapping mapping \<or> rect_empty rectangle then None
      else let (bounded, output_left, output_top, output_right, output_bottom) = logical_bounds mapping
           in if \<not> bounded then None
              else let rectangle_right = sint (rect_x rectangle) + uint (rect_width rectangle);
                       rectangle_bottom = sint (rect_y rectangle) + uint (rect_height rectangle);
                       left = max (sint (rect_x rectangle)) output_left;
                       top = max (sint (rect_y rectangle)) output_top;
                       right = min rectangle_right output_right;
                       bottom = min rectangle_bottom output_bottom
                   in if left \<ge> right \<or> top \<ge> bottom then None
                      else let transformed_extent =
                                 transformed_physical_extent (mp_physical_extent mapping) (mp_transform mapping);
                               x0 = scaled_floor (u64_of (left - output_left)) (mp_scale mapping);
                               y0 = scaled_floor (u64_of (top - output_top)) (mp_scale mapping);
                               x1 = scaled_ceil (u64_of (right - output_left)) (mp_scale mapping);
                               y1 = scaled_ceil (u64_of (bottom - output_top)) (mp_scale mapping)
                           in case (x0, y0, x1, y1) of
                                (Some x0', Some y0', Some x1', Some y1') \<Rightarrow>
                                  let clipped_x0 = min x0' (pe_width transformed_extent);
                                      clipped_y0 = min y0' (pe_height transformed_extent);
                                      clipped_x1 = min x1' (pe_width transformed_extent);
                                      clipped_y1 = min y1' (pe_height transformed_extent)
                                  in if clipped_x0 \<ge> clipped_x1 \<or> clipped_y0 \<ge> clipped_y1 then None
                                     else transform_rectangle
                                            \<lparr>pr_x = clipped_x0, pr_y = clipped_y0,
                                             pr_width = clipped_x1 - clipped_x0, pr_height = clipped_y1 - clipped_y0\<rparr>
                                            (mp_physical_extent mapping) (mp_transform mapping)
                              | _ \<Rightarrow> None)"

definition map_native_pixel_center_to_logical :: "output_mapping \<Rightarrow> physical_point \<Rightarrow> logical_sample_point option" where
  "map_native_pixel_center_to_logical mapping pixel =
     (if \<not> valid_output_mapping mapping \<or> pp_x pixel \<ge> pe_width (mp_physical_extent mapping) \<or>
         pp_y pixel \<ge> pe_height (mp_physical_extent mapping) then None
      else case inverse_transform_rectangle
                  \<lparr>pr_x = pp_x pixel, pr_y = pp_y pixel, pr_width = 1, pr_height = 1\<rparr>
                  (mp_physical_extent mapping) (mp_transform mapping) of
             None \<Rightarrow> None
           | Some transformed_pixel \<Rightarrow>
               if sc_numerator (mp_scale mapping) > 2147483647 then None
               else let denominator = sc_numerator (mp_scale mapping) * 2;
                        scale_denominator = (ucast (sc_denominator (mp_scale mapping)) :: u64);
                        transformed_x_twice = (ucast (pr_x transformed_pixel) :: u64) * 2 + 1;
                        transformed_y_twice = (ucast (pr_y transformed_pixel) :: u64) * 2 + 1
                    in if transformed_x_twice > 9223372036854775807 div scale_denominator \<or>
                          transformed_y_twice > 9223372036854775807 div scale_denominator then None
                       else let local_x = sint (transformed_x_twice * scale_denominator);
                                local_y = sint (transformed_y_twice * scale_denominator);
                                origin_x = sint (lp_x (mp_logical_origin mapping)) * uint denominator;
                                origin_y = sint (lp_y (mp_logical_origin mapping)) * uint denominator
                            in Some \<lparr>sp_x_numerator = origin_x + local_x, sp_y_numerator = origin_y + local_y,
                                     sp_denominator = denominator\<rparr>)"

definition map_logical_damage_to_native ::
    "output_mapping \<Rightarrow> logical_rectangle \<Rightarrow> damage_filter_footprint \<Rightarrow> physical_rectangle option" where
  "map_logical_damage_to_native mapping damage footprint =
     (if footprint \<noteq> Footprint_Point \<and> footprint \<noteq> Footprint_Bilinear then None
      else let mapped = map_logical_rectangle_to_native mapping damage
           in case mapped of
                None \<Rightarrow> None
              | Some r \<Rightarrow> if footprint = Footprint_Point then Some r
                          else expand_bilinear r (mp_physical_extent mapping))"

section \<open>What a valid mapping says\<close>

definition mp_transformed :: "output_mapping \<Rightarrow> physical_extent" where
  "mp_transformed m = transformed_physical_extent (mp_physical_extent m) (mp_transform m)"

definition mp_num :: "output_mapping \<Rightarrow> int" where
  "mp_num m = uint (sc_numerator (mp_scale m))"

definition mp_den :: "output_mapping \<Rightarrow> int" where
  "mp_den m = uint (sc_denominator (mp_scale m))"

definition mp_left :: "output_mapping \<Rightarrow> int" where
  "mp_left m = sint (lp_x (mp_logical_origin m))"

definition mp_top :: "output_mapping \<Rightarrow> int" where
  "mp_top m = sint (lp_y (mp_logical_origin m))"

definition mp_width :: "output_mapping \<Rightarrow> int" where
  "mp_width m = uint (le_width (mp_logical_extent m))"

definition mp_height :: "output_mapping \<Rightarrow> int" where
  "mp_height m = uint (le_height (mp_logical_extent m))"

lemmas mp_defs = mp_transformed_def mp_num_def mp_den_def mp_left_def mp_top_def mp_width_def mp_height_def

text \<open>The scanout sizes the layout accepts.\<close>

definition displayable :: "output_mapping \<Rightarrow> bool" where
  "displayable m \<longleftrightarrow> valid_output_mapping m \<and>
     pe_width (mp_physical_extent m) \<le> kMaximumPhysicalExtent \<and> pe_height (mp_physical_extent m) \<le> kMaximumPhysicalExtent"

lemma valid_output_mappingD:
  assumes "valid_output_mapping m"
  shows "valid_output_scale (mp_scale m) kMaximumScaleDenominator" "0 \<le> mp_left m" "0 \<le> mp_top m"
    "mp_left m + mp_width m \<le> int32_max" "mp_top m + mp_height m \<le> int32_max"
    "0 < mp_width m" "0 < mp_height m"
    "derive_logical_dimension (pe_width (mp_transformed m)) (mp_scale m) = Some (le_width (mp_logical_extent m))"
    "derive_logical_dimension (pe_height (mp_transformed m)) (mp_scale m) = Some (le_height (mp_logical_extent m))"
    "known_transform (mp_transform m)"
proof -
  from assms have e: "derive_logical_extent (mp_transformed m) (mp_scale m) = Some (mp_logical_extent m)"
    by (auto simp: valid_output_mapping_def logical_bounds_def Let_def mp_transformed_def split: if_splits)
  then show "derive_logical_dimension (pe_width (mp_transformed m)) (mp_scale m) = Some (le_width (mp_logical_extent m))"
    "derive_logical_dimension (pe_height (mp_transformed m)) (mp_scale m) = Some (le_height (mp_logical_extent m))"
    by (cases "mp_logical_extent m"; simp add: derive_logical_extent_def Let_def split: option.splits)+
  show "valid_output_scale (mp_scale m) kMaximumScaleDenominator" "known_transform (mp_transform m)"
    "0 \<le> mp_left m" "0 \<le> mp_top m" "mp_left m + mp_width m \<le> int32_max" "mp_top m + mp_height m \<le> int32_max"
    "0 < mp_width m" "0 < mp_height m"
    using assms
    by (auto simp: valid_output_mapping_def logical_bounds_def Let_def mp_defs uint_pos_iff32
        valid_output_transform_known split: if_splits)
qed


section \<open>One axis\<close>

lemma scaled_step:
  fixes l n d :: int
  assumes "0 < d" "0 \<le> l" "0 \<le> n"
  shows "l * n div d * d \<le> l * n" "l * n < (l * n div d + 1) * d" "0 \<le> l * n div d"
proof -
  have p: "l * n = l * n div d * d + l * n mod d" by simp
  have m: "0 \<le> l * n mod d" "l * n mod d < d" using assms by simp_all
  show "l * n div d * d \<le> l * n" using p m by linarith
  show "l * n < (l * n div d + 1) * d" using p m unfolding distrib_right by linarith
  show "0 \<le> l * n div d" using assms by (simp add: pos_imp_zdiv_nonneg_iff)
qed

lemma uint_scaled_product:
  assumes "0 \<le> l" "l < 2147483648" "n \<noteq> 0"
  shows "uint (u64_of l * ucast (n :: u32)) = l * uint n"
    "\<not> u64_of l > 18446744073709551615 div ucast (n :: u32)"
proof -
  have u: "uint (u64_of l) = l" using assms by (simp add: casts)
  have n: "0 < uint n" using assms(3) by (simp add: uint_pos_iff32)
  have "l * uint n \<le> 2147483648 * 4294967296"
    using assms uint32_range [of n] by (intro mult_mono) auto
  then have big: "l * uint n \<le> 18446744073709551615" "0 \<le> l * uint n" using assms by simp_all
  then show "uint (u64_of l * ucast n) = l * uint n" by (simp add: uint_word_ariths uint_ucast_u64 u)
  have "l \<le> 18446744073709551615 div uint n"
    using zdiv_mono1 [OF big(1) n] n by simp
  then show "\<not> u64_of l > 18446744073709551615 div ucast n"
    by (simp add: word_less_def uint_div uint_ucast_u64 u)
qed

lemma scaled_floor_value:
  assumes "0 \<le> l" "l < 2147483648" "sc_numerator s \<noteq> 0" "sc_denominator s \<noteq> 0"
    and "l * uint (sc_numerator s) div uint (sc_denominator s) < 4294967296"
  obtains a where "scaled_floor (u64_of l) s = Some a"
    "uint a = l * uint (sc_numerator s) div uint (sc_denominator s)"
proof -
  define v where "v = u64_of l * ucast (sc_numerator s) div ucast (sc_denominator s)"
  note p = uint_scaled_product [OF assms(1-3)]
  have d: "0 < uint (sc_denominator s)" using assms(4) by (simp add: uint_pos_iff32)
  have v: "uint v = l * uint (sc_numerator s) div uint (sc_denominator s)"
    by (simp add: v_def uint_div p(1) uint_ucast_u64)
  then have small: "v \<le> 4294967295" using assms(5) by (simp add: word_le_def)
  show ?thesis
  proof
    show "scaled_floor (u64_of l) s = Some (ucast v)"
      using p(2) small assms(3,4) by (simp add: scaled_floor_def Let_def v_def not_less)
    show "uint (ucast v :: u32) = l * uint (sc_numerator s) div uint (sc_denominator s)"
      using small by (simp add: v [symmetric] unsigned_ucast_eq unsigned_take_bit_eq take_bit_int_eq_self word_le_def)
  qed
qed

definition ceiling_div :: "int \<Rightarrow> int \<Rightarrow> int" where
  "ceiling_div p d = p div d + (if p mod d \<noteq> 0 then 1 else 0)"

lemma scaled_ceil_value:
  assumes "0 \<le> l" "l < 2147483648" "sc_numerator s \<noteq> 0" "sc_denominator s \<noteq> 0"
    and "ceiling_div (l * uint (sc_numerator s)) (uint (sc_denominator s)) < 4294967296"
  obtains a where "scaled_ceil (u64_of l) s = Some a"
    "uint a = ceiling_div (l * uint (sc_numerator s)) (uint (sc_denominator s))"
proof -
  let ?n = "uint (sc_numerator s)" and ?d = "uint (sc_denominator s)"
  define product where "product = u64_of l * ucast (sc_numerator s)"
  define v where "v = product div ucast (sc_denominator s) +
    (if product mod ucast (sc_denominator s) \<noteq> 0 then 1 else 0)"
  note p = uint_scaled_product [OF assms(1-3), folded product_def]
  have q: "uint (product div ucast (sc_denominator s)) = l * ?n div ?d"
    "uint (product mod ucast (sc_denominator s)) = l * ?n mod ?d"
    by (simp_all add: uint_div uint_mod p(1) uint_ucast_u64)
  have nz: "product mod ucast (sc_denominator s) \<noteq> 0 \<longleftrightarrow> l * ?n mod ?d \<noteq> 0"
    unfolding q(2) [symmetric] by (simp add: uint_0_iff)
  have d: "0 < ?d" using assms(4) by (simp add: uint_pos_iff32)
  have "0 \<le> l * ?n div ?d" using scaled_step(3) [OF d assms(1)] by simp
  with assms(5) q(1) have v: "uint v = ceiling_div (l * ?n) ?d"
    unfolding v_def nz ceiling_div_def by (auto simp: uint_word_ariths split: if_splits)
  then have small: "v \<le> 4294967295" using assms(5) by (simp add: word_le_def)
  show ?thesis
  proof
    show "scaled_ceil (u64_of l) s = Some (ucast v)"
      using p(2) small assms(3,4) by (simp add: scaled_ceil_def Let_def v_def product_def not_less)
    show "uint (ucast v :: u32) = ceiling_div (l * ?n) ?d"
      using small by (simp add: v [symmetric] unsigned_ucast_eq unsigned_take_bit_eq take_bit_int_eq_self word_le_def)
  qed
qed

text \<open>
  A span \<open>l..r\<close> of a scaled axis: its native span starts inside the axis, is not empty, and has every
  native pixel whose centre lies in the logical span.
\<close>

lemma span_native:
  fixes l r n d w lw :: int
  assumes "0 < d" "d \<le> n" "n \<le> 4 * d" "0 \<le> l" "l < r" "r \<le> lw" "(lw - 1) * n < w * d"
  shows "l * n div d < w" "l * n div d < ceiling_div (r * n) d" "ceiling_div (r * n) d < w + 5"
    "2 * l * n \<le> (2 * u + 1) * d \<Longrightarrow> l * n div d \<le> u"
    "(2 * u + 1) * d < 2 * r * n \<Longrightarrow> u < ceiling_div (r * n) d"
proof -
  have n: "0 < n" using assms by simp
  have r: "0 \<le> r * n" using assms n by simp
  note f = scaled_step [OF assms(1,4), of n] and c = ceiling_step [OF assms(1) r, folded ceiling_div_def]
  have "l * n \<le> (lw - 1) * n" using assms n by (intro mult_right_mono) auto
  then have "l * n div d * d < w * d" using f(1) n assms(7) by linarith
  then show "l * n div d < w" using assms(1) by simp
  have "(l + 1) * n \<le> r * n" using assms n by (intro mult_right_mono) auto
  then have "(l * n div d + 1) * d \<le> ceiling_div (r * n) d * d"
    using f(1) n c(1) assms(2) by (simp add: distrib_right)
  then show "l * n div d < ceiling_div (r * n) d" using assms(1) by simp
  have rl: "r * n \<le> lw * n" using assms n by (intro mult_right_mono) auto
  have "(ceiling_div (r * n) d - 1) * d < (w + 4) * d"
  proof -
    have "(ceiling_div (r * n) d - 1) * d < r * n"
      using c(2) assms n by auto
    also have "\<dots> \<le> (w + 4) * d" using rl assms(3,7) by (simp add: algebra_simps)
    finally show ?thesis .
  qed
  then show "ceiling_div (r * n) d < w + 5" using assms(1) by simp
  show "l * n div d \<le> u" if "2 * l * n \<le> (2 * u + 1) * d"
  proof -
    have "2 * (l * n div d * d) \<le> (2 * u + 1) * d" using that f(1) n by simp
    then have "(2 * (l * n div d)) * d \<le> (2 * u + 1) * d" by (simp add: algebra_simps)
    then have "2 * (l * n div d) \<le> 2 * u + 1" using assms(1) by (rule mult_right_le_imp_le)
    then show ?thesis by simp
  qed
  show "u < ceiling_div (r * n) d" if "(2 * u + 1) * d < 2 * r * n"
  proof -
    have "(2 * u + 1) * d < (2 * ceiling_div (r * n) d) * d" using that c(1) by (simp add: algebra_simps)
    then have "2 * u + 1 < 2 * ceiling_div (r * n) d" using assms(1) by (simp add: mult_less_cancel_right_disj)
    then show ?thesis by simp
  qed
qed

section \<open>Mapped rectangles\<close>

text \<open>The clipped logical span of a rectangle on the two axes of the output, relative to its origin.\<close>

definition clip_left :: "output_mapping \<Rightarrow> rectangle \<Rightarrow> int" where
  "clip_left m r = max (sint (rect_x r)) (mp_left m) - mp_left m"

definition clip_right :: "output_mapping \<Rightarrow> rectangle \<Rightarrow> int" where
  "clip_right m r = min (right_edge r) (mp_left m + mp_width m) - mp_left m"

definition clip_top :: "output_mapping \<Rightarrow> rectangle \<Rightarrow> int" where
  "clip_top m r = max (sint (rect_y r)) (mp_top m) - mp_top m"

definition clip_bottom :: "output_mapping \<Rightarrow> rectangle \<Rightarrow> int" where
  "clip_bottom m r = min (bottom_edge r) (mp_top m + mp_height m) - mp_top m"

lemmas clip_defs = clip_left_def clip_right_def clip_top_def clip_bottom_def

lemma displayableD:
  assumes "displayable m"
  shows "valid_output_mapping m" "0 < mp_den m" "mp_den m \<le> mp_num m" "mp_num m \<le> 4 * mp_den m" "mp_den m \<le> 120"
    "(mp_width m - 1) * mp_num m < uint (pe_width (mp_transformed m)) * mp_den m"
    "(mp_height m - 1) * mp_num m < uint (pe_height (mp_transformed m)) * mp_den m"
    "uint (pe_width (mp_transformed m)) * mp_den m \<le> mp_width m * mp_num m"
    "uint (pe_height (mp_transformed m)) * mp_den m \<le> mp_height m * mp_num m"
    "uint (pe_width (mp_transformed m)) \<le> 4096" "uint (pe_height (mp_transformed m)) \<le> 4096"
proof -
  show v: "valid_output_mapping m" using assms by (simp add: displayable_def)
  note d = valid_output_mappingD [OF v] and s = valid_output_scaleD [OF valid_output_mappingD(1) [OF v]]
  from s show "0 < mp_den m" "mp_den m \<le> mp_num m" "mp_num m \<le> 4 * mp_den m" "mp_den m \<le> 120"
    by (simp_all add: mp_defs)
  from derive_logical_dimension_ceiling [OF d(8)] derive_logical_dimension_ceiling [OF d(9)] d(6,7)
  show "(mp_width m - 1) * mp_num m < uint (pe_width (mp_transformed m)) * mp_den m"
    "(mp_height m - 1) * mp_num m < uint (pe_height (mp_transformed m)) * mp_den m"
    "uint (pe_width (mp_transformed m)) * mp_den m \<le> mp_width m * mp_num m"
    "uint (pe_height (mp_transformed m)) * mp_den m \<le> mp_height m * mp_num m"
    by (auto simp: mp_defs)
  from assms d(10) show "uint (pe_width (mp_transformed m)) \<le> 4096" "uint (pe_height (mp_transformed m)) \<le> 4096"
    by (auto simp: displayable_def mp_transformed_def transformed_physical_extent_def valid_output_transform_known
        kMaximumPhysicalExtent_def word_le_def)
qed

lemma clip_range:
  assumes "valid_output_mapping m"
  shows "0 \<le> clip_left m r" "clip_left m r < 2147483648" "clip_right m r \<le> mp_width m"
    "0 \<le> clip_top m r" "clip_top m r < 2147483648" "clip_bottom m r \<le> mp_height m"
  using valid_output_mappingD(2-5) [OF assms] sint32_range [of "rect_x r"] sint32_range [of "rect_y r"]
  by (auto simp: clip_defs)

text \<open>One axis of the code: both scalings succeed, and clipping leaves a non-empty span.\<close>

lemma axis_native:
  assumes "0 < uint (sc_denominator s)" "uint (sc_denominator s) \<le> uint (sc_numerator s)"
    and "uint (sc_numerator s) \<le> 4 * uint (sc_denominator s)"
    and "0 \<le> l" "l < r" "r \<le> lw" "lw < 2147483648" "(lw - 1) * uint (sc_numerator s) < uint w * uint (sc_denominator s)"
    and "uint (w :: u32) \<le> 4096"
  obtains a b where "scaled_floor (u64_of l) s = Some a" "scaled_ceil (u64_of r) s = Some b"
    "uint (min a w) = l * uint (sc_numerator s) div uint (sc_denominator s)"
    "uint (min b w) = min (ceiling_div (r * uint (sc_numerator s)) (uint (sc_denominator s))) (uint w)"
    "min a w < min b w"
proof -
  note n = span_native [OF assms(1-6,8)]
  have nz: "sc_numerator s \<noteq> 0" "sc_denominator s \<noteq> 0" using assms(1,2) by auto
  obtain a where a: "scaled_floor (u64_of l) s = Some a" "uint a = l * uint (sc_numerator s) div uint (sc_denominator s)"
    using n(1) assms(4-7,9) by (elim scaled_floor_value [OF _ _ nz, rotated -1]) auto
  obtain b where b: "scaled_ceil (u64_of r) s = Some b"
      "uint b = ceiling_div (r * uint (sc_numerator s)) (uint (sc_denominator s))"
    using n(3) assms(4-7,9) by (elim scaled_ceil_value [OF _ _ nz, rotated -1]) auto
  show ?thesis
  proof
    show "scaled_floor (u64_of l) s = Some a" "scaled_ceil (u64_of r) s = Some b" by fact+
    show ma: "uint (min a w) = l * uint (sc_numerator s) div uint (sc_denominator s)"
      using a(2) n(1) by (simp add: min_def word_le_def)
    show mb: "uint (min b w) = min (ceiling_div (r * uint (sc_numerator s)) (uint (sc_denominator s))) (uint w)"
      using b(2) by (simp add: min_def word_le_def)
    show "min a w < min b w" using n(1,2) unfolding word_less_def ma mb by simp
  qed
qed

text \<open>
  The rectangle handed to the transform, when the argument meets the output: it fits the transformed
  extent and has on each axis the floor and the clipped ceiling of the scaled span.
\<close>

lemma map_logical_rectangle_shape:
  assumes "displayable m" "clip_left m r < clip_right m r" "clip_top m r < clip_bottom m r"
  obtains q where
    "map_logical_rectangle_to_native m r = transform_rectangle q (mp_physical_extent m) (mp_transform m)"
    "contains_rectangle (mp_transformed m) q"
    "uint (pr_x q) = clip_left m r * mp_num m div mp_den m"
    "pr_right q = min (ceiling_div (clip_right m r * mp_num m) (mp_den m)) (uint (pe_width (mp_transformed m)))"
    "uint (pr_y q) = clip_top m r * mp_num m div mp_den m"
    "pr_bottom q = min (ceiling_div (clip_bottom m r * mp_num m) (mp_den m)) (uint (pe_height (mp_transformed m)))"
    "\<not> pr_empty q"
proof -
  note d = displayableD [OF assms(1)]
  note v = valid_output_mappingD [OF d(1)] and c = clip_range [OF d(1), of r]
  let ?s = "mp_scale m" and ?e = "mp_transformed m"
  have w: "mp_width m < 2147483648" "mp_height m < 2147483648" using v(2-5) by simp_all
  obtain x0 x1 where x: "scaled_floor (u64_of (clip_left m r)) ?s = Some x0"
      "scaled_ceil (u64_of (clip_right m r)) ?s = Some x1"
      "uint (min x0 (pe_width ?e)) = clip_left m r * mp_num m div mp_den m"
      "uint (min x1 (pe_width ?e)) = min (ceiling_div (clip_right m r * mp_num m) (mp_den m)) (uint (pe_width ?e))"
      "min x0 (pe_width ?e) < min x1 (pe_width ?e)"
    using axis_native [of ?s "clip_left m r" "clip_right m r" "mp_width m" "pe_width ?e"] d c w assms(2)
    unfolding mp_num_def mp_den_def by blast
  obtain y0 y1 where y: "scaled_floor (u64_of (clip_top m r)) ?s = Some y0"
      "scaled_ceil (u64_of (clip_bottom m r)) ?s = Some y1"
      "uint (min y0 (pe_height ?e)) = clip_top m r * mp_num m div mp_den m"
      "uint (min y1 (pe_height ?e)) = min (ceiling_div (clip_bottom m r * mp_num m) (mp_den m)) (uint (pe_height ?e))"
      "min y0 (pe_height ?e) < min y1 (pe_height ?e)"
    using axis_native [of ?s "clip_top m r" "clip_bottom m r" "mp_height m" "pe_height ?e"] d c w assms(3)
    unfolding mp_num_def mp_den_def by blast
  define a b a' b' where "a = min x0 (pe_width ?e)" and "b = min y0 (pe_height ?e)"
    and "a' = min x1 (pe_width ?e)" and "b' = min y1 (pe_height ?e)"
  define q where "q = \<lparr>pr_x = a, pr_y = b, pr_width = a' - a, pr_height = b' - b\<rparr>"
  have lt: "a < a'" "b < b'" "a' \<le> pe_width ?e" "b' \<le> pe_height ?e"
    using x(5) y(5) by (simp_all add: a_def b_def a'_def b'_def)
  have edge: "pr_right q = uint a'" "pr_bottom q = uint b'"
    using lt(1,2) by (simp_all add: q_def pr_right_def pr_bottom_def uint_minus_le)
  have apart: "\<not> min (right_edge r) (mp_left m + mp_width m) \<le> max (sint (rect_x r)) (mp_left m)"
    "\<not> min (bottom_edge r) (mp_top m + mp_height m) \<le> max (sint (rect_y r)) (mp_top m)"
    "\<not> min x1 (pe_width ?e) \<le> min x0 (pe_width ?e)" "\<not> min y1 (pe_height ?e) \<le> min y0 (pe_height ?e)"
    using assms(2,3) x(5) y(5) unfolding clip_defs not_le by linarith+
  have ne: "\<not> rect_empty r"
    using assms(2,3) by (auto simp: rect_empty_def clip_defs right_edge_def bottom_edge_def)
  show ?thesis
  proof
    show "map_logical_rectangle_to_native m r = transform_rectangle q (mp_physical_extent m) (mp_transform m)"
      using d(1) ne v(2-5) apart x(1,2) y(1,2)
      unfolding q_def a_def b_def a'_def b'_def
      by (simp add: map_logical_rectangle_to_native_def logical_bounds_def Let_def clip_defs mp_defs
          right_edge_def bottom_edge_def del: not_le)
    show "contains_rectangle ?e q"
      using lt(3,4) edge by (simp add: contains_rectangle_iff pr_right_def pr_bottom_def word_le_def)
    show "\<not> pr_empty q" using lt(1,2) by (auto simp: q_def pr_empty_def)
    show "uint (pr_x q) = clip_left m r * mp_num m div mp_den m" "uint (pr_y q) = clip_top m r * mp_num m div mp_den m"
      using x(3) y(3) by (simp_all add: q_def a_def b_def)
  qed (simp_all add: edge a'_def b'_def x(4) y(4))
qed

lemma map_logical_rectangle_misses:
  assumes "\<not> (clip_left m r < clip_right m r \<and> clip_top m r < clip_bottom m r)"
  shows "map_logical_rectangle_to_native m r = None"
  using assms
  by (auto simp: map_logical_rectangle_to_native_def logical_bounds_def Let_def clip_defs mp_defs
      right_edge_def bottom_edge_def)

text \<open>The pixel behind a sample: the transformed pixel \<open>(u, v)\<close> whose centre is sampled.\<close>

lemma one_pixel_back:
  assumes "known_transform t" "x < pe_width e" "y < pe_height e"
  defines "p \<equiv> \<lparr>pr_x = x, pr_y = y, pr_width = 1, pr_height = 1\<rparr>"
  obtains q where "inverse_transform_rectangle p e t = Some q"
    "native_pixel (uint (pe_width e)) (uint (pe_height e)) t (uint (pr_x q), uint (pr_y q)) = (uint x, uint y)"
    "pr_x q < pe_width (transformed_physical_extent e t)" "pr_y q < pe_height (transformed_physical_extent e t)"
proof -
  let ?e = "transformed_physical_extent e t" and ?i = "inverse_transform t"
  have i: "known_transform ?i" "transformed_physical_extent ?e ?i = e"
    using assms(1) by (cases rule: known_transform_cases; simp add: transform_defs)+
  have b: "uint x + 1 \<le> uint (pe_width e)" "uint y + 1 \<le> uint (pe_height e)"
    using assms(2,3) by (simp_all add: word_less_def)
  have r: "uint (pe_width e - (x + 1)) = uint (pe_width e) - (uint x + 1)"
    "uint (pe_height e - (y + 1)) = uint (pe_height e) - (uint y + 1)"
    using reflected_bound [of x 1 "pe_width e"] reflected_bound [of y 1 "pe_height e"] b by simp_all
  have "contains_rectangle e p" using b by (simp add: contains_rectangle_iff p_def)
  with i transform_rectangle_closed [of ?i ?e p]
  have "inverse_transform_rectangle p e t = Some (native_rectangle (pe_width ?e) (pe_height ?e) ?i p)"
    by (simp add: inverse_rectangle_is_transform [OF assms(1)])
  moreover have "native_pixel (uint (pe_width e)) (uint (pe_height e)) t
      (uint (pr_x (native_rectangle (pe_width ?e) (pe_height ?e) ?i p)),
       uint (pr_y (native_rectangle (pe_width ?e) (pe_height ?e) ?i p))) = (uint x, uint y)"
    using assms(1) by (cases rule: known_transform_cases)
      (simp_all add: p_def transform_defs r rotate_pixel_def mirror_pixel_def)
  moreover have "contains_rectangle ?e (native_rectangle (pe_width ?e) (pe_height ?e) ?i p)"
    using native_rectangle_contained [of ?i ?e p] i \<open>contains_rectangle e p\<close> by simp
  moreover have "pr_width (native_rectangle (pe_width ?e) (pe_height ?e) ?i p) = 1"
      "pr_height (native_rectangle (pe_width ?e) (pe_height ?e) ?i p) = 1"
    using assms(1) by (cases rule: known_transform_cases; simp add: p_def)+
  ultimately show thesis using that by (simp add: contains_rectangle_iff word_less_def)
qed

lemma sample_word:
  assumes "uint (u :: u32) < 4096" "0 < uint d" "uint (d :: u32) \<le> 120"
  shows "\<not> (ucast u :: u64) * 2 + 1 > 9223372036854775807 div ucast d"
    "sint (((ucast u :: u64) * 2 + 1) * ucast d) = (2 * uint u + 1) * uint d"
proof -
  have t: "uint ((ucast u :: u64) * 2 + 1) = 2 * uint u + 1"
    using assms(1) uint32_range(1) [of u] by (simp add: uint_word_ariths uint_ucast_u64)
  have "(2 * uint u + 1) * uint d \<le> 8193 * 120"
    using assms uint32_range(1) [of u] by (intro mult_mono) auto
  moreover have "0 \<le> (2 * uint u + 1) * uint d" using assms(2) uint32_range(1) [of u] by simp
  ultimately have p: "uint (((ucast u :: u64) * 2 + 1) * ucast d) = (2 * uint u + 1) * uint d"
      "(2 * uint u + 1) * uint d < 9223372036854775808" "0 \<le> (2 * uint u + 1) * uint d"
    by (simp_all add: uint_word_arith_bintrs(3) t uint_ucast_u64 take_bit_int_eq_self)
  then have "signed_take_bit 63 ((2 * uint u + 1) * uint d) = (2 * uint u + 1) * uint d"
    by (intro signed_take_bit_int_eq_self order_trans [OF _ p(3)]) simp_all
  with p(1) show "sint (((ucast u :: u64) * 2 + 1) * ucast d) = (2 * uint u + 1) * uint d"
    by (simp add: sint_uint)
  have "(9223372036854775807 :: int) div 120 \<le> 9223372036854775807 div uint d"
    using assms by (intro zdiv_mono2) auto
  then show "\<not> (ucast u :: u64) * 2 + 1 > 9223372036854775807 div ucast d"
    using assms(1) by (simp add: word_less_def t uint_div uint_ucast_u64)
qed

lemma map_native_pixel_center_value:
  assumes "displayable m" "pp_x p < pe_width (mp_physical_extent m)" "pp_y p < pe_height (mp_physical_extent m)"
  obtains s u v where "map_native_pixel_center_to_logical m p = Some s"
    "uint (sp_denominator s) = 2 * mp_num m"
    "sp_x_numerator s = mp_left m * (2 * mp_num m) + (2 * u + 1) * mp_den m"
    "sp_y_numerator s = mp_top m * (2 * mp_num m) + (2 * v + 1) * mp_den m"
    "0 \<le> u" "u < uint (pe_width (mp_transformed m))" "0 \<le> v" "v < uint (pe_height (mp_transformed m))"
    "native_pixel (uint (pe_width (mp_physical_extent m))) (uint (pe_height (mp_physical_extent m))) (mp_transform m) (u, v)
       = (uint (pp_x p), uint (pp_y p))"
proof -
  note d = displayableD [OF assms(1)]
  have k: "known_transform (mp_transform m)" using valid_output_mappingD [OF d(1)] by blast
  obtain q where q: "inverse_transform_rectangle \<lparr>pr_x = pp_x p, pr_y = pp_y p, pr_width = 1, pr_height = 1\<rparr>
        (mp_physical_extent m) (mp_transform m) = Some q"
      "native_pixel (uint (pe_width (mp_physical_extent m))) (uint (pe_height (mp_physical_extent m))) (mp_transform m)
        (uint (pr_x q), uint (pr_y q)) = (uint (pp_x p), uint (pp_y p))"
      "pr_x q < pe_width (mp_transformed m)" "pr_y q < pe_height (mp_transformed m)"
    by (rule one_pixel_back [OF k assms(2,3)]) (simp_all add: mp_transformed_def)
  have lt: "uint (pr_x q) < uint (pe_width (mp_transformed m))" "uint (pr_y q) < uint (pe_height (mp_transformed m))"
    using q(3,4) by (simp_all add: word_less_def)
  note num = d(2-5) [unfolded mp_num_def mp_den_def]
  have x: "\<not> (ucast (pr_x q) :: u64) * 2 + 1 > 9223372036854775807 div ucast (sc_denominator (mp_scale m))"
      "sint (((ucast (pr_x q) :: u64) * 2 + 1) * ucast (sc_denominator (mp_scale m))) = (2 * uint (pr_x q) + 1) * mp_den m"
    using sample_word [of "pr_x q" "sc_denominator (mp_scale m)"] lt(1) d(10) num by (simp_all add: mp_den_def)
  have y: "\<not> (ucast (pr_y q) :: u64) * 2 + 1 > 9223372036854775807 div ucast (sc_denominator (mp_scale m))"
      "sint (((ucast (pr_y q) :: u64) * 2 + 1) * ucast (sc_denominator (mp_scale m))) = (2 * uint (pr_y q) + 1) * mp_den m"
    using sample_word [of "pr_y q" "sc_denominator (mp_scale m)"] lt(2) d(11) num by (simp_all add: mp_den_def)
  have n: "\<not> sc_numerator (mp_scale m) > 2147483647" "uint (sc_numerator (mp_scale m) * 2) = 2 * mp_num m"
    using num by (simp_all add: word_less_def uint_word_ariths mp_num_def)
  show thesis
  proof
    show "map_native_pixel_center_to_logical m p = Some
      \<lparr>sp_x_numerator = mp_left m * (2 * mp_num m) + (2 * uint (pr_x q) + 1) * mp_den m,
       sp_y_numerator = mp_top m * (2 * mp_num m) + (2 * uint (pr_y q) + 1) * mp_den m,
       sp_denominator = sc_numerator (mp_scale m) * 2\<rparr>"
      using d(1) assms(2,3) [folded not_le] q(1) x y n
      by (simp add: map_native_pixel_center_to_logical_def Let_def mp_left_def mp_top_def del: not_le not_less)
  qed (use lt n q(2) in simp_all)
qed

text \<open>A sample lies in a logical rectangle when its rational coordinates do.\<close>

definition sample_inside :: "logical_sample_point \<Rightarrow> rectangle \<Rightarrow> bool" where
  "sample_inside s r \<longleftrightarrow>
     sint (rect_x r) * uint (sp_denominator s) \<le> sp_x_numerator s \<and> sp_x_numerator s < right_edge r * uint (sp_denominator s) \<and>
     sint (rect_y r) * uint (sp_denominator s) \<le> sp_y_numerator s \<and> sp_y_numerator s < bottom_edge r * uint (sp_denominator s)"

definition output_rectangle :: "output_mapping \<Rightarrow> rectangle" where
  "output_rectangle m = make_rectangle (lp_x (mp_logical_origin m)) (lp_y (mp_logical_origin m))
     (le_width (mp_logical_extent m)) (le_height (mp_logical_extent m))"

text \<open>A centre between two edges is between the clipped edges.\<close>

lemma centre_clipped:
  fixes o' lw n d a b u w :: int
  assumes "0 < n" "0 < d" "0 \<le> u" "u < w" "w * d \<le> lw * n"
    and "a * (2 * n) \<le> o' * (2 * n) + (2 * u + 1) * d" "o' * (2 * n) + (2 * u + 1) * d < b * (2 * n)"
  defines "l \<equiv> max a o' - o'" and "r \<equiv> min b (o' + lw) - o'"
  shows "2 * l * n \<le> (2 * u + 1) * d" "(2 * u + 1) * d < 2 * r * n" "l < r"
proof -
  have pos: "0 < (2 * u + 1) * d" using assms(2,3) by simp
  have "(2 * u + 1) * d < (2 * w) * d" using assms(2,4) by simp
  also have "\<dots> \<le> 2 * (lw * n)" using assms(5) by (simp add: algebra_simps)
  finally have top: "(2 * u + 1) * d < 2 * (lw * n)" .
  show l: "2 * l * n \<le> (2 * u + 1) * d"
    using pos assms(6) by (cases "a \<le> o'") (simp_all add: l_def max_def algebra_simps)
  show r: "(2 * u + 1) * d < 2 * r * n"
    using top assms(7) by (cases "b \<le> o' + lw") (simp_all add: r_def min_def algebra_simps)
  from l r have "2 * l * n < 2 * r * n" by linarith
  then show "l < r" using assms(1) by simp
qed

lemma mapped_rectangle_covers:
  assumes "displayable m" "map_native_pixel_center_to_logical m p = Some s" "sample_inside s r"
  obtains n where "map_logical_rectangle_to_native m r = Some n" "(uint (pp_x p), uint (pp_y p)) \<in> pr_pts n"
proof -
  note d = displayableD [OF assms(1)]
  have k: "known_transform (mp_transform m)" using valid_output_mappingD [OF d(1)] by blast
  have n: "0 < mp_num m" using d(2,3) by linarith
  from assms(2) have lt: "pp_x p < pe_width (mp_physical_extent m)" "pp_y p < pe_height (mp_physical_extent m)"
    by (auto simp: map_native_pixel_center_to_logical_def split: if_splits)
  obtain u v where s: "uint (sp_denominator s) = 2 * mp_num m"
      "sp_x_numerator s = mp_left m * (2 * mp_num m) + (2 * u + 1) * mp_den m"
      "sp_y_numerator s = mp_top m * (2 * mp_num m) + (2 * v + 1) * mp_den m"
      "0 \<le> u" "u < uint (pe_width (mp_transformed m))" "0 \<le> v" "v < uint (pe_height (mp_transformed m))"
    and px: "native_pixel (uint (pe_width (mp_physical_extent m))) (uint (pe_height (mp_physical_extent m)))
        (mp_transform m) (u, v) = (uint (pp_x p), uint (pp_y p))"
    using map_native_pixel_center_value [OF assms(1) lt] assms(2) by (metis option.inject)
  from assms(3) have inside:
    "sint (rect_x r) * (2 * mp_num m) \<le> mp_left m * (2 * mp_num m) + (2 * u + 1) * mp_den m"
    "mp_left m * (2 * mp_num m) + (2 * u + 1) * mp_den m < right_edge r * (2 * mp_num m)"
    "sint (rect_y r) * (2 * mp_num m) \<le> mp_top m * (2 * mp_num m) + (2 * v + 1) * mp_den m"
    "mp_top m * (2 * mp_num m) + (2 * v + 1) * mp_den m < bottom_edge r * (2 * mp_num m)"
    unfolding sample_inside_def s(1-3) by blast+
  have cx: "2 * clip_left m r * mp_num m \<le> (2 * u + 1) * mp_den m" "(2 * u + 1) * mp_den m < 2 * clip_right m r * mp_num m"
      "clip_left m r < clip_right m r"
    unfolding clip_defs by (rule centre_clipped [OF n d(2) s(4,5) d(8) inside(1,2)])+
  have cy: "2 * clip_top m r * mp_num m \<le> (2 * v + 1) * mp_den m" "(2 * v + 1) * mp_den m < 2 * clip_bottom m r * mp_num m"
      "clip_top m r < clip_bottom m r"
    unfolding clip_defs by (rule centre_clipped [OF n d(2) s(6,7) d(9) inside(3,4)])+
  note c = clip_range [OF d(1), of r]
  obtain q where q: "map_logical_rectangle_to_native m r = transform_rectangle q (mp_physical_extent m) (mp_transform m)"
    "contains_rectangle (mp_transformed m) q"
    "uint (pr_x q) = clip_left m r * mp_num m div mp_den m"
    "pr_right q = min (ceiling_div (clip_right m r * mp_num m) (mp_den m)) (uint (pe_width (mp_transformed m)))"
    "uint (pr_y q) = clip_top m r * mp_num m div mp_den m"
    "pr_bottom q = min (ceiling_div (clip_bottom m r * mp_num m) (mp_den m)) (uint (pe_height (mp_transformed m)))"
    by (rule map_logical_rectangle_shape [OF assms(1) cx(3) cy(3)])
  have "(u, v) \<in> pr_pts q"
    using span_native(4,5) [OF d(2-4) c(1) cx(3) c(3) d(6), of u] span_native(4,5) [OF d(2-4) c(4) cy(3) c(6) d(7), of v]
      cx(1,2) cy(1,2) s(5,7)
    by (simp add: pr_pts_def q(3-6))
  then have "(uint (pp_x p), uint (pp_y p))
      \<in> pr_pts (native_rectangle (pe_width (mp_physical_extent m)) (pe_height (mp_physical_extent m)) (mp_transform m) q)"
    using native_rectangle_pixels [OF k q(2) [unfolded mp_transformed_def], of u v] px by simp
  moreover have "map_logical_rectangle_to_native m r =
      Some (native_rectangle (pe_width (mp_physical_extent m)) (pe_height (mp_physical_extent m)) (mp_transform m) q)"
    unfolding q(1) by (rule transform_rectangle_closed [OF k q(2) [unfolded mp_transformed_def]])
  ultimately show thesis using that by blast
qed

text \<open>The bilinear footprint: all native pixels at distance at most one, and nothing outside the output.\<close>

definition wider_low :: "u32 \<Rightarrow> u32" where
  "wider_low a = (if a = 0 then 0 else a - 1)"

definition wider_high :: "u32 \<Rightarrow> u32 \<Rightarrow> u32 \<Rightarrow> u64" where
  "wider_high a b w = min (ucast w) (ucast a + ucast b + 1)"

lemma wider_span:
  assumes "uint a + uint b \<le> uint w"
  shows "uint (wider_low a) = max 0 (uint a - 1)"
    "uint (wider_low a) + uint (ucast (wider_high a b w - ucast (wider_low a)) :: u32) = min (uint w) (uint a + uint b + 1)"
proof -
  note range = uint32_range [of a] uint32_range [of b] uint32_range [of w]
  show low: "uint (wider_low a) = max 0 (uint a - 1)"
  proof (cases "a = 0")
    case False
    then have "1 \<le> uint a" using uint_pos_iff32 [of a] by simp
    with False uint_minus_le [of 1 a] show ?thesis by (simp add: wider_low_def word_le_def)
  qed (simp add: wider_low_def)
  have "uint ((ucast a :: u64) + ucast b + 1) = uint a + uint b + 1"
    using range by (simp add: uint_word_ariths uint_ucast_u64)
  then have high: "uint (wider_high a b w) = min (uint w) (uint a + uint b + 1)"
    by (simp add: wider_high_def min_def word_le_def uint_ucast_u64)
  have r: "0 \<le> uint (wider_high a b w) - uint (wider_low a)" "uint (wider_high a b w) - uint (wider_low a) < 4294967296"
    using assms range unfolding low high by linarith+
  then have "uint (wider_high a b w - ucast (wider_low a)) = uint (wider_high a b w) - uint (wider_low a)"
    by (simp add: uint_word_ariths uint_ucast_u64 mod_pos_pos_trivial)
  with r have "uint (ucast (wider_high a b w - ucast (wider_low a)) :: u32) = uint (wider_high a b w) - uint (wider_low a)"
    by (simp add: unsigned_ucast_eq unsigned_take_bit_eq take_bit_int_eq_self)
  with high show "uint (wider_low a) + uint (ucast (wider_high a b w - ucast (wider_low a)) :: u32) = min (uint w) (uint a + uint b + 1)"
    by simp
qed

lemma near_interval:
  fixes lo hi w x :: int
  assumes "0 \<le> lo" "lo < hi" "hi \<le> w"
  shows "max 0 (lo - 1) \<le> x \<and> x < min w (hi + 1) \<longleftrightarrow> 0 \<le> x \<and> x < w \<and> (\<exists>a. lo \<le> a \<and> a < hi \<and> \<bar>x - a\<bar> \<le> 1)"
proof
  assume h: "max 0 (lo - 1) \<le> x \<and> x < min w (hi + 1)"
  have "lo \<le> clamp x lo (hi - 1) \<and> clamp x lo (hi - 1) < hi \<and> \<bar>x - clamp x lo (hi - 1)\<bar> \<le> 1"
    using h assms by (auto simp: clamp_def)
  with h show "0 \<le> x \<and> x < w \<and> (\<exists>a. lo \<le> a \<and> a < hi \<and> \<bar>x - a\<bar> \<le> 1)" by auto
qed auto

lemma expand_bilinear_exact:
  assumes "contains_rectangle e r" "\<not> pr_empty r"
  obtains s where "expand_bilinear r e = Some s"
    "pr_pts s = {(x, y). 0 \<le> x \<and> x < uint (pe_width e) \<and> 0 \<le> y \<and> y < uint (pe_height e) \<and>
       (\<exists>(a, b) \<in> pr_pts r. \<bar>x - a\<bar> \<le> 1 \<and> \<bar>y - b\<bar> \<le> 1)}"
proof -
  have b: "uint (pr_x r) + uint (pr_width r) \<le> uint (pe_width e)" "uint (pr_y r) + uint (pr_height r) \<le> uint (pe_height e)"
    using assms(1) by (simp_all add: contains_rectangle_iff)
  have pos: "0 < uint (pr_width r)" "0 < uint (pr_height r)" using assms(2) by (simp_all add: pr_empty_def uint_pos_iff32)
  have nx: "max 0 (uint (pr_x r) - 1) \<le> x \<and> x < min (uint (pe_width e)) (pr_right r + 1) \<longleftrightarrow>
      0 \<le> x \<and> x < uint (pe_width e) \<and> (\<exists>a. uint (pr_x r) \<le> a \<and> a < pr_right r \<and> \<bar>x - a\<bar> \<le> 1)" for x
    using near_interval [of "uint (pr_x r)" "pr_right r" "uint (pe_width e)" x] b(1) pos(1) by (simp add: pr_right_def)
  have ny: "max 0 (uint (pr_y r) - 1) \<le> y \<and> y < min (uint (pe_height e)) (pr_bottom r + 1) \<longleftrightarrow>
      0 \<le> y \<and> y < uint (pe_height e) \<and> (\<exists>a. uint (pr_y r) \<le> a \<and> a < pr_bottom r \<and> \<bar>y - a\<bar> \<le> 1)" for y
    using near_interval [of "uint (pr_y r)" "pr_bottom r" "uint (pe_height e)" y] b(2) pos(2) by (simp add: pr_bottom_def)
  define s where "s = \<lparr>pr_x = wider_low (pr_x r), pr_y = wider_low (pr_y r),
    pr_width = ucast (wider_high (pr_x r) (pr_width r) (pe_width e) - ucast (wider_low (pr_x r))),
    pr_height = ucast (wider_high (pr_y r) (pr_height r) (pe_height e) - ucast (wider_low (pr_y r)))\<rparr>"
  have edges: "uint (pr_x s) = max 0 (uint (pr_x r) - 1)" "uint (pr_y s) = max 0 (uint (pr_y r) - 1)"
      "pr_right s = min (uint (pe_width e)) (pr_right r + 1)" "pr_bottom s = min (uint (pe_height e)) (pr_bottom r + 1)"
    using wider_span [OF b(1)] wider_span [OF b(2)] by (simp_all add: s_def pr_right_def pr_bottom_def)
  show thesis
  proof
    show "expand_bilinear r e = Some s"
      using assms far_edge(4) [OF b(1)] far_edge(4) [OF b(2)]
      by (simp add: expand_bilinear_def Let_def s_def wider_low_def wider_high_def contains_rectangle_def not_less)
    show "pr_pts s = {(x, y). 0 \<le> x \<and> x < uint (pe_width e) \<and> 0 \<le> y \<and> y < uint (pe_height e) \<and>
       (\<exists>(a, b) \<in> pr_pts r. \<bar>x - a\<bar> \<le> 1 \<and> \<bar>y - b\<bar> \<le> 1)}"
      unfolding pr_pts_def edges using nx ny by blast
  qed
qed

lemma native_rectangle_empty: "pr_empty (native_rectangle w h t r) = pr_empty r"
  by (cases t) (auto simp: pr_empty_def)

lemma clip_meets:
  assumes "rect_pts r \<inter> rect_pts (output_rectangle m) \<noteq> {}"
  shows "clip_left m r < clip_right m r" "clip_top m r < clip_bottom m r"
  using assms
  by (auto simp: rect_pts_def clip_defs output_rectangle_def make_rectangle_def right_edge_def bottom_edge_def mp_defs)

lemma mapped_rectangle_total:
  assumes "displayable m" "clip_left m r < clip_right m r" "clip_top m r < clip_bottom m r"
  obtains n where "map_logical_rectangle_to_native m r = Some n" "contains_rectangle (mp_physical_extent m) n" "\<not> pr_empty n"
proof -
  have k: "known_transform (mp_transform m)"
    using valid_output_mappingD [OF displayableD(1) [OF assms(1)]] by blast
  obtain q where q: "map_logical_rectangle_to_native m r = transform_rectangle q (mp_physical_extent m) (mp_transform m)"
    "contains_rectangle (mp_transformed m) q" "\<not> pr_empty q"
    by (rule map_logical_rectangle_shape [OF assms])
  note c = q(2) [unfolded mp_transformed_def]
  show thesis
    using that q(1,3) transform_rectangle_closed [OF k c] native_rectangle_contained [OF k c] native_rectangle_empty
    by simp
qed

lemma bilinear_damage_covers:
  assumes "displayable m" "map_native_pixel_center_to_logical m p = Some s" "sample_inside s damage"
    and "0 \<le> x" "x < uint (pe_width (mp_physical_extent m))" "0 \<le> y" "y < uint (pe_height (mp_physical_extent m))"
    and "\<bar>x - uint (pp_x p)\<bar> \<le> 1" "\<bar>y - uint (pp_y p)\<bar> \<le> 1"
  shows "\<exists>n. map_logical_damage_to_native m damage Footprint_Bilinear = Some n \<and> (x, y) \<in> pr_pts n"
proof -
  obtain q where q: "map_logical_rectangle_to_native m damage = Some q" "(uint (pp_x p), uint (pp_y p)) \<in> pr_pts q"
    by (rule mapped_rectangle_covers [OF assms(1-3)])
  then have "clip_left m damage < clip_right m damage \<and> clip_top m damage < clip_bottom m damage"
    using map_logical_rectangle_misses [of m damage] by auto
  then have "contains_rectangle (mp_physical_extent m) q" "\<not> pr_empty q"
    using mapped_rectangle_total [OF assms(1), of damage] q(1) by (metis option.inject)+
  then obtain n where n: "expand_bilinear q (mp_physical_extent m) = Some n"
    "pr_pts n = {(x, y). 0 \<le> x \<and> x < uint (pe_width (mp_physical_extent m)) \<and> 0 \<le> y \<and>
       y < uint (pe_height (mp_physical_extent m)) \<and> (\<exists>(a, b) \<in> pr_pts q. \<bar>x - a\<bar> \<le> 1 \<and> \<bar>y - b\<bar> \<le> 1)}"
    by (rule expand_bilinear_exact)
  have "(x, y) \<in> pr_pts n" unfolding n(2) using assms(4-9) q(2) by blast
  with q(1) n(1) show ?thesis by (simp add: map_logical_damage_to_native_def)
qed

text \<open>The native rectangle of some damage lies inside the output, whatever the footprint.\<close>

lemma damage_native_inside:
  assumes "displayable m" "map_logical_damage_to_native m damage f = Some n"
  shows "pr_pts n \<subseteq> {(x, y). 0 \<le> x \<and> x < uint (pe_width (mp_physical_extent m)) \<and>
      0 \<le> y \<and> y < uint (pe_height (mp_physical_extent m))}"
proof -
  from assms(2) obtain q where q: "map_logical_rectangle_to_native m damage = Some q"
    and n: "if f = Footprint_Point then n = q else expand_bilinear q (mp_physical_extent m) = Some n"
    by (auto simp: map_logical_damage_to_native_def split: if_splits option.splits)
  then have "clip_left m damage < clip_right m damage \<and> clip_top m damage < clip_bottom m damage"
    using map_logical_rectangle_misses [of m damage] by auto
  then have inside: "contains_rectangle (mp_physical_extent m) q" "\<not> pr_empty q"
    using mapped_rectangle_total [OF assms(1), of damage] q by (metis option.inject)+
  show ?thesis
  proof (cases "f = Footprint_Point")
    case True
    have "0 \<le> a" if "uint (pr_x q) \<le> a \<or> uint (pr_y q) \<le> a" for a
      using that uint32_range [of "pr_x q"] uint32_range [of "pr_y q"] by linarith
    with True n inside(1) show ?thesis
      by (auto simp: contains_rectangle_iff pr_pts_def pr_right_def pr_bottom_def)
  next
    case False
    obtain s where "expand_bilinear q (mp_physical_extent m) = Some s"
      "pr_pts s \<subseteq> {(x, y). 0 \<le> x \<and> x < uint (pe_width (mp_physical_extent m)) \<and>
      0 \<le> y \<and> y < uint (pe_height (mp_physical_extent m))}"
      by (rule expand_bilinear_exact [OF inside]) blast
    with False n show ?thesis by simp
  qed
qed

lemma point_damage_covers:
  assumes "displayable m" "map_native_pixel_center_to_logical m p = Some s" "sample_inside s damage"
  shows "\<exists>n. map_logical_damage_to_native m damage Footprint_Point = Some n \<and> (uint (pp_x p), uint (pp_y p)) \<in> pr_pts n"
proof -
  obtain q where "map_logical_rectangle_to_native m damage = Some q" "(uint (pp_x p), uint (pp_y p)) \<in> pr_pts q"
    by (rule mapped_rectangle_covers [OF assms])
  then show ?thesis by (simp add: map_logical_damage_to_native_def)
qed

section \<open>Properties\<close>

text \<open>An output used by the witnesses: a 1920 by 1080 panel, turned a quarter, at scale 3/2.\<close>

definition portrait_mapping :: output_mapping where
  "portrait_mapping = \<lparr>mp_logical_origin = \<lparr>lp_x = 100, lp_y = 0\<rparr>,
     mp_logical_extent = \<lparr>le_width = 720, le_height = 1280\<rparr>,
     mp_physical_extent = \<lparr>pe_width = 1920, pe_height = 1080\<rparr>,
     mp_scale = \<lparr>sc_numerator = 3, sc_denominator = 2\<rparr>, mp_transform = Tr_Rotate90\<rparr>"

lemma portrait_displayable: "displayable portrait_mapping"
  by code_simp

text \<open>
  C16. The conservative rectangle map never misses a pixel: when the centre of a native pixel samples
  a logical position inside a rectangle, the rectangle maps to a native rectangle that has the pixel,
  at every scale and transform.
\<close>

theorem mapped_rectangle_covers_samples:
  assumes "displayable m" "map_native_pixel_center_to_logical m p = Some s" "sample_inside s r"
  shows "\<exists>n. map_logical_rectangle_to_native m r = Some n \<and> (uint (pp_x p), uint (pp_y p)) \<in> pr_pts n"
  by (rule mapped_rectangle_covers [OF assms]) blast

theorem mapped_rectangle_covers_samples_witness:
  "\<exists>n. map_logical_rectangle_to_native portrait_mapping (make_rectangle 200 100 3 5) = Some n \<and> (1767, 151) \<in> pr_pts n"
proof -
  let ?s = "\<lparr>sp_x_numerator = 1206, sp_y_numerator = 610, sp_denominator = 6\<rparr>"
  have s: "map_native_pixel_center_to_logical portrait_mapping \<lparr>pp_x = 1767, pp_y = 151\<rparr> = Some ?s" by code_simp
  have i: "sample_inside ?s (make_rectangle 200 100 3 5)" by code_simp
  show ?thesis using mapped_rectangle_covers_samples [OF portrait_displayable s i] by simp
qed

text \<open>
  Damage for a bilinear filter covers every native pixel of the output at distance at most one,
  diagonals included, from a pixel that samples the damaged rectangle.
\<close>

lemma bilinear_damage_covers_neighbours:
  assumes "displayable m" "map_native_pixel_center_to_logical m p = Some s" "sample_inside s damage"
    and "0 \<le> x" "x < uint (pe_width (mp_physical_extent m))" "0 \<le> y" "y < uint (pe_height (mp_physical_extent m))"
    and "\<bar>x - uint (pp_x p)\<bar> \<le> 1" "\<bar>y - uint (pp_y p)\<bar> \<le> 1"
  shows "\<exists>n. map_logical_damage_to_native m damage Footprint_Bilinear = Some n \<and> (x, y) \<in> pr_pts n"
  using assms by (rule bilinear_damage_covers)

text \<open>
  For a displayable output a rectangle maps to nothing exactly when it shares no pixel with the
  output; otherwise the result is a non-empty rectangle inside the native extent.
\<close>

lemma mapped_rectangle_inside_output:
  assumes "displayable m"
  shows "case map_logical_rectangle_to_native m r of
      None \<Rightarrow> rect_pts r \<inter> rect_pts (output_rectangle m) = {}
    | Some n \<Rightarrow> rect_pts r \<inter> rect_pts (output_rectangle m) \<noteq> {} \<and>
        contains_rectangle (mp_physical_extent m) n \<and> \<not> pr_empty n"
proof (cases "clip_left m r < clip_right m r \<and> clip_top m r < clip_bottom m r")
  case True
  then have meets: "(max (sint (rect_x r)) (mp_left m), max (sint (rect_y r)) (mp_top m))
      \<in> rect_pts r \<inter> rect_pts (output_rectangle m)"
    by (auto simp: rect_pts_def clip_defs output_rectangle_def make_rectangle_def right_edge_def bottom_edge_def mp_defs)
  obtain n where "map_logical_rectangle_to_native m r = Some n" "contains_rectangle (mp_physical_extent m) n" "\<not> pr_empty n"
    using True by (blast intro: mapped_rectangle_total [OF assms])
  with meets show ?thesis by (auto simp only: option.case)
next
  case False
  then have "rect_pts r \<inter> rect_pts (output_rectangle m) = {}" using clip_meets by blast
  with map_logical_rectangle_misses [OF False] show ?thesis by simp
qed

text \<open>
  Every pixel of a displayable output has a sampling position, and it lies inside the output's
  logical rectangle.
\<close>

lemma native_pixel_samples_its_output:
  assumes "displayable m" "pp_x p < pe_width (mp_physical_extent m)" "pp_y p < pe_height (mp_physical_extent m)"
  shows "\<exists>s. map_native_pixel_center_to_logical m p = Some s \<and> sample_inside s (output_rectangle m)"
proof -
  note d = displayableD [OF assms(1)]
  obtain s u v where s: "map_native_pixel_center_to_logical m p = Some s" "uint (sp_denominator s) = 2 * mp_num m"
    "sp_x_numerator s = mp_left m * (2 * mp_num m) + (2 * u + 1) * mp_den m"
    "sp_y_numerator s = mp_top m * (2 * mp_num m) + (2 * v + 1) * mp_den m"
    "0 \<le> u" "u < uint (pe_width (mp_transformed m))" "0 \<le> v" "v < uint (pe_height (mp_transformed m))"
    using map_native_pixel_center_value [OF assms] by blast
  have centre: "0 < (2 * a + 1) * mp_den m \<and> (2 * a + 1) * mp_den m < 2 * (lw * mp_num m)"
    if "0 \<le> a" "a < w" "w * mp_den m \<le> lw * mp_num m" for a w lw
  proof -
    have "(2 * a + 1) * mp_den m < (2 * w) * mp_den m" using that d(2) by simp
    also have "\<dots> \<le> 2 * (lw * mp_num m)" using that(3) by (simp add: algebra_simps)
    finally show ?thesis using that(1) d(2) by simp
  qed
  have "sample_inside s (output_rectangle m)"
    using centre [OF s(5,6) d(8)] centre [OF s(7,8) d(9)]
    unfolding sample_inside_def s(2-4) output_rectangle_def make_rectangle_def right_edge_def bottom_edge_def
    by (simp add: mp_left_def mp_top_def mp_width_def mp_height_def algebra_simps)
  with s(1) show ?thesis by blast
qed

end
