(* ===== verification/Out_Layout.thy ===== *)
theory Out_Layout
  imports Out_Mapping
begin

text \<open>
  Validation of a complete output layout (\<open>output/model/layout.hpp\<close>, \<open>output/model/layout.cpp\<close>):
  inventory and geometry, then scale, mode and state, then metadata, each returning the first error.
  \<open>None\<close> is the exception of an \<open>at\<close> on a missing key. A \<open>std::set\<close> that only grows is the list of
  its elements.
\<close>

section \<open>Results\<close>

datatype layout_validation_error =
    LE_None | LE_TooManyOutputs | LE_IncompleteInventory | LE_NoEnabledOutput | LE_InvalidPrimaryOutput
  | LE_InvalidIdentity | LE_InvalidName | LE_InvalidDescriptor | LE_InvalidPosition | LE_OverlappingOutputs
  | LE_InvalidRootExtent | LE_InvalidScale | LE_UnsupportedTransform | LE_InvalidMode | LE_InvalidLogicalExtent
  | LE_InvalidDisabledState | LE_InvalidGeneration | LE_InvalidOutputOrder | LE_PhysicalLimitExceeded

record layout_validation_result =
  lr_error :: layout_validation_error
  lr_output_id :: u64

definition failure :: "layout_validation_error \<Rightarrow> u64 \<Rightarrow> layout_validation_result" where
  "failure e output_id = \<lparr>lr_error = e, lr_output_id = output_id\<rparr>"

definition layout_ok :: layout_validation_result where
  "layout_ok = \<lparr>lr_error = LE_None, lr_output_id = 0\<rparr>"

definition lr_success :: "layout_validation_result \<Rightarrow> bool" where
  "lr_success r \<longleftrightarrow> lr_error r = LE_None"

fun layout_validation_error_name :: "layout_validation_error \<Rightarrow> string" where
  "layout_validation_error_name LE_None = ''none''"
| "layout_validation_error_name LE_TooManyOutputs = ''too-many-outputs''"
| "layout_validation_error_name LE_IncompleteInventory = ''incomplete-inventory''"
| "layout_validation_error_name LE_NoEnabledOutput = ''no-enabled-output''"
| "layout_validation_error_name LE_InvalidPrimaryOutput = ''invalid-primary-output''"
| "layout_validation_error_name LE_InvalidIdentity = ''invalid-identity''"
| "layout_validation_error_name LE_InvalidName = ''invalid-name''"
| "layout_validation_error_name LE_InvalidDescriptor = ''invalid-descriptor''"
| "layout_validation_error_name LE_InvalidPosition = ''invalid-position''"
| "layout_validation_error_name LE_OverlappingOutputs = ''overlapping-outputs''"
| "layout_validation_error_name LE_InvalidRootExtent = ''invalid-root-extent''"
| "layout_validation_error_name LE_InvalidScale = ''invalid-scale''"
| "layout_validation_error_name LE_UnsupportedTransform = ''unsupported-transform''"
| "layout_validation_error_name LE_InvalidMode = ''invalid-mode''"
| "layout_validation_error_name LE_InvalidLogicalExtent = ''invalid-logical-extent''"
| "layout_validation_error_name LE_InvalidDisabledState = ''invalid-disabled-state''"
| "layout_validation_error_name LE_InvalidGeneration = ''invalid-generation''"
| "layout_validation_error_name LE_InvalidOutputOrder = ''invalid-output-order''"
| "layout_validation_error_name LE_PhysicalLimitExceeded = ''physical-limit-exceeded''"

section \<open>Checks of one output\<close>

definition physical_pixels :: "u32 \<Rightarrow> u32 \<Rightarrow> u64" where
  "physical_pixels width height = ucast width * ucast height"

definition checked_product :: "u32 \<Rightarrow> u32 \<Rightarrow> bool" where
  "checked_product width height \<longleftrightarrow>
     width = 0 \<or> physical_pixels width height div ucast width = ucast height"

definition valid_name :: "string \<Rightarrow> bool" where
  "valid_name name \<longleftrightarrow> name \<noteq> [] \<and> length name \<le> kMaximumOutputNameBytes"

definition valid_transform :: "transform \<Rightarrow> bool" where
  "valid_transform t \<longleftrightarrow> transform_value t \<le> transform_value Tr_Flipped270"

definition transform_swaps_extents :: "transform \<Rightarrow> bool" where
  "transform_swaps_extents t \<longleftrightarrow>
     t = Tr_Rotate90 \<or> t = Tr_Rotate270 \<or> t = Tr_Flipped90 \<or> t = Tr_Flipped270"

definition state_right :: "output_state \<Rightarrow> u64" where
  "state_right s = scast (os_logical_x s) + ucast (os_logical_width s)"

definition state_bottom :: "output_state \<Rightarrow> u64" where
  "state_bottom s = scast (os_logical_y s) + ucast (os_logical_height s)"

definition output_rectangles_overlap :: "output_state \<Rightarrow> output_state \<Rightarrow> bool" where
  "output_rectangles_overlap left right =
     (let left_x1 = state_right left; left_y1 = state_bottom left;
          right_x1 = state_right right; right_y1 = state_bottom right
      in (scast (os_logical_x left) :: u64) < right_x1 \<and> (scast (os_logical_x right) :: u64) < left_x1 \<and>
         (scast (os_logical_y left) :: u64) < right_y1 \<and> (scast (os_logical_y right) :: u64) < left_y1)"

definition descriptor_limits_are_valid :: "output_descriptor \<Rightarrow> bool" where
  "descriptor_limits_are_valid descriptor =
     (if od_maximum_physical_width descriptor = 0 \<or> od_maximum_physical_height descriptor = 0 \<or>
         od_maximum_physical_pixels descriptor = 0 \<or>
         od_maximum_physical_width descriptor > kMaximumPhysicalExtent \<or>
         od_maximum_physical_height descriptor > kMaximumPhysicalExtent \<or>
         od_maximum_physical_pixels descriptor > kMaximumPhysicalPixels \<or>
         od_maximum_scale_denominator descriptor = 0 \<or>
         od_maximum_scale_denominator descriptor > kMaximumScaleDenominator \<or>
         \<not> valid_output_scale (od_minimum_scale descriptor) (od_maximum_scale_denominator descriptor) \<or>
         \<not> valid_output_scale (od_maximum_scale descriptor) (od_maximum_scale_denominator descriptor) \<or>
         \<not> scale_in_range (od_minimum_scale descriptor) \<lparr>sc_numerator = 1, sc_denominator = 1\<rparr> (od_maximum_scale descriptor) \<or>
         \<not> scale_in_range (od_maximum_scale descriptor) (od_minimum_scale descriptor) \<lparr>sc_numerator = 4, sc_denominator = 1\<rparr>
      then False else True)"

definition descriptor_metadata_is_valid :: "output_descriptor \<Rightarrow> bool" where
  "descriptor_metadata_is_valid descriptor =
     (let physical_dimensions_known = od_physical_width_mm descriptor \<noteq> 0 \<and> od_physical_height_mm descriptor \<noteq> 0;
          physical_dimensions_absent = od_physical_width_mm descriptor = 0 \<and> od_physical_height_mm descriptor = 0
      in if (\<not> physical_dimensions_known \<and> \<not> physical_dimensions_absent) \<or>
            od_supported_transform_mask descriptor AND NOT kAllOutputTransformsMask \<noteq> 0 \<or>
            od_supported_transform_mask descriptor = 0 then False
         else case od_kind descriptor of
                OK_Headless \<Rightarrow> \<not> od_arbitrary_headless_mode descriptor \<or> od_mode_configurable descriptor
              | OK_Drm \<Rightarrow> \<not> od_arbitrary_headless_mode descriptor
              | OK_Other _ \<Rightarrow> False)"

fun check_modes :: "output_descriptor \<Rightarrow> output_mode list \<Rightarrow> u64 list \<Rightarrow> nat \<Rightarrow> bool" where
  "check_modes descriptor [] identifiers current_count \<longleftrightarrow> current_count \<le> 1"
| "check_modes descriptor (mode # modes) identifiers current_count =
     (if om_id mode = 0 \<or> om_output_id mode \<noteq> od_id descriptor \<or> om_name mode = [] \<or>
         length (om_name mode) > kMaximumOutputNameBytes \<or>
         om_physical_width mode = 0 \<or> om_physical_height mode = 0 \<or> om_refresh_millihertz mode = 0 \<or>
         om_physical_width mode > od_maximum_physical_width descriptor \<or>
         om_physical_height mode > od_maximum_physical_height descriptor \<or>
         \<not> checked_product (om_physical_width mode) (om_physical_height mode) \<or>
         physical_pixels (om_physical_width mode) (om_physical_height mode) > od_maximum_physical_pixels descriptor \<or>
         om_id mode \<in> set identifiers
      then False
      else check_modes descriptor modes (om_id mode # identifiers)
             (if om_current mode then current_count + 1 else current_count))"

definition valid_descriptor_modes :: "output_descriptor \<Rightarrow> bool" where
  "valid_descriptor_modes descriptor =
     (if length (od_modes descriptor) > kMaximumModesPerOutput then False
      else check_modes descriptor (od_modes descriptor) [] 0)"

definition state_matches_mode :: "output_descriptor \<Rightarrow> output_state \<Rightarrow> bool" where
  "state_matches_mode descriptor state =
     (case find (\<lambda>mode. om_id mode = os_mode_id state) (od_modes descriptor) of
        Some mode \<Rightarrow>
          om_current mode \<and> os_physical_width state = om_physical_width mode \<and>
          os_physical_height state = om_physical_height mode \<and>
          os_refresh_millihertz state = om_refresh_millihertz mode
      | None \<Rightarrow>
          od_kind descriptor = OK_Headless \<and> od_arbitrary_headless_mode descriptor \<and> os_mode_id state \<noteq> 0 \<and>
          os_physical_width state \<noteq> 0 \<and> os_physical_height state \<noteq> 0 \<and> os_refresh_millihertz state \<noteq> 0)"

text \<open>
  \<open>std::ranges::sort\<close> with the comparison that puts enabled outputs first, by position and
  identifier, and disabled outputs after them, by identifier.
\<close>

definition output_order_key :: "u64 \<times> output_state \<Rightarrow> bool \<times> int \<times> int \<times> u64" where
  "output_order_key = (\<lambda>(oid, state).
     if os_enabled state then (False, sint (os_logical_y state), sint (os_logical_x state), oid)
     else (True, 0, 0, oid))"

definition expected_output_order :: "output_layout \<Rightarrow> u64 list" where
  "expected_output_order layout = map fst (sort_key output_order_key (RBT.entries (ol_states layout)))"

section \<open>Inventory and geometry\<close>

text \<open>The first loop over the states: how many are enabled, how many primary, and the last primary.\<close>

fun count_states :: "(u64 \<times> output_state) list \<Rightarrow> nat \<times> nat \<times> u64 \<Rightarrow> nat \<times> nat \<times> u64" where
  "count_states [] counts = counts"
| "count_states ((oid, state) # rest) (enabled_count, primary_count, selected_primary) =
     (if \<not> os_enabled state then count_states rest (enabled_count, primary_count, selected_primary)
      else if os_primary state then count_states rest (enabled_count + 1, primary_count + 1, oid)
      else count_states rest (enabled_count + 1, primary_count, selected_primary))"

text \<open>The loop over the descriptors: identity, name, metadata, position; it collects the enabled states.\<close>

fun check_descriptors :: "(u64, output_state) RBT.rbt \<Rightarrow> (u64 \<times> output_descriptor) list \<Rightarrow> string list \<Rightarrow> output_state list \<Rightarrow>
    layout_validation_result + output_state list" where
  "check_descriptors states [] names enabled = Inr enabled"
| "check_descriptors states ((oid, descriptor) # rest) names enabled =
     (case RBT.lookup states oid of
        None \<Rightarrow> Inl (failure LE_InvalidIdentity oid)
      | Some state \<Rightarrow>
          if oid = 0 \<or> od_id descriptor \<noteq> oid \<or> os_output_id state \<noteq> oid then Inl (failure LE_InvalidIdentity oid)
          else if \<not> valid_name (od_name descriptor) \<or> od_name descriptor \<in> set names then Inl (failure LE_InvalidName oid)
          else if \<not> descriptor_metadata_is_valid descriptor then Inl (failure LE_InvalidDescriptor oid)
          else if os_enabled state \<and> (sint (os_logical_x state) < 0 \<or> sint (os_logical_y state) < 0)
               then Inl (failure LE_InvalidPosition oid)
          else check_descriptors states rest (od_name descriptor # names)
                 (if os_enabled state then enabled @ [state] else enabled))"

text \<open>The nested loops over pairs of enabled outputs: the later output of the first overlapping pair.\<close>

fun find_overlap :: "output_state list \<Rightarrow> u64 option" where
  "find_overlap [] = None"
| "find_overlap (left # rest) =
     (case find (output_rectangles_overlap left) rest of
        Some right \<Rightarrow> Some (os_output_id right)
      | None \<Rightarrow> find_overlap rest)"

definition primary_is_bad :: "output_layout \<Rightarrow> nat \<Rightarrow> u64 \<Rightarrow> bool option" where
  "primary_is_bad layout primary_count selected_primary =
     (if primary_count \<noteq> 1 \<or> ol_primary_output_id layout = 0 \<or> ol_primary_output_id layout \<noteq> selected_primary
      then Some True
      else case RBT.lookup (ol_descriptors layout) selected_primary of
             None \<Rightarrow> None
           | Some descriptor \<Rightarrow> Some (\<not> od_primary_eligible descriptor))"

definition check_geometry :: "output_layout \<Rightarrow> output_state list \<Rightarrow> layout_validation_result" where
  "check_geometry layout enabled =
     (case find_overlap enabled of
        Some oid \<Rightarrow> failure LE_OverlappingOutputs oid
      | None \<Rightarrow>
          let root_width = fold (\<lambda>state w. max w (state_right state)) enabled 0;
              root_height = fold (\<lambda>state h. max h (state_bottom state)) enabled 0
          in if root_width = 0 \<or> root_height = 0 \<or>
                root_width > ucast kMaximumRootLogicalWidth \<or> root_height > ucast kMaximumRootLogicalHeight \<or>
                ucast (ol_root_logical_width layout) \<noteq> root_width \<or>
                ucast (ol_root_logical_height layout) \<noteq> root_height
             then failure LE_InvalidRootExtent 0
             else layout_ok)"

definition validate_inventory_geometry :: "output_layout \<Rightarrow> (layout_validation_result \<times> nat) option" where
  "validate_inventory_geometry layout =
     (let descriptors = ol_descriptors layout; states = ol_states layout
      in if map_size descriptors > kMaximumOutputs \<or> map_size states > kMaximumOutputs
         then Some (failure LE_TooManyOutputs 0, 0)
         else if map_size descriptors \<noteq> map_size states then Some (failure LE_IncompleteInventory 0, 0)
         else case find (\<lambda>(oid, descriptor). \<not> map_contains states oid) (RBT.entries descriptors) of
                Some (oid, descriptor) \<Rightarrow> Some (failure LE_IncompleteInventory oid, 0)
              | None \<Rightarrow>
         let (enabled_count, primary_count, selected_primary) = count_states (RBT.entries states) (0, 0, 0)
         in if enabled_count = 0 then Some (failure LE_NoEnabledOutput 0, enabled_count)
            else case primary_is_bad layout primary_count selected_primary of
                   None \<Rightarrow> None
                 | Some bad \<Rightarrow>
                     if bad then Some (failure LE_InvalidPrimaryOutput (ol_primary_output_id layout), enabled_count)
                     else case check_descriptors states (RBT.entries descriptors) [] [] of
                            Inl failed \<Rightarrow> Some (failed, enabled_count)
                          | Inr enabled \<Rightarrow> Some (check_geometry layout enabled, enabled_count))"

section \<open>Scale, mode and state\<close>

text \<open>
  A loop over the states that looks up each descriptor with \<open>at\<close> and stops at the first failure.
\<close>

fun states_loop :: "(u64, output_descriptor) RBT.rbt \<Rightarrow> (output_descriptor \<Rightarrow> output_state \<Rightarrow> bool) \<Rightarrow>
    layout_validation_error \<Rightarrow> (u64 \<times> output_state) list \<Rightarrow> layout_validation_result option" where
  "states_loop descriptors bad e [] = Some layout_ok"
| "states_loop descriptors bad e ((oid, state) # rest) =
     (case RBT.lookup descriptors oid of
        None \<Rightarrow> None
      | Some descriptor \<Rightarrow>
          if bad descriptor state then Some (failure e oid) else states_loop descriptors bad e rest)"

definition scale_is_bad :: "output_descriptor \<Rightarrow> output_state \<Rightarrow> bool" where
  "scale_is_bad descriptor state \<longleftrightarrow>
     \<not> descriptor_limits_are_valid descriptor \<or>
     \<not> valid_output_scale (os_scale state) (od_maximum_scale_denominator descriptor) \<or>
     \<not> scale_in_range (os_scale state) (od_minimum_scale descriptor) (od_maximum_scale descriptor)"

definition transform_is_bad :: "output_descriptor \<Rightarrow> output_state \<Rightarrow> bool" where
  "transform_is_bad descriptor state \<longleftrightarrow>
     (let t = transform_value (os_transform state)
      in \<not> valid_transform (os_transform state) \<or> t \<ge> 32 \<or>
         od_supported_transform_mask descriptor AND push_bit t 1 = 0)"

fun insert_mode_ids :: "output_mode list \<Rightarrow> u64 list \<Rightarrow> u64 list option" where
  "insert_mode_ids [] identifiers = Some identifiers"
| "insert_mode_ids (mode # modes) identifiers =
     (if om_id mode \<in> set identifiers then None else insert_mode_ids modes (om_id mode # identifiers))"

definition mode_is_bad :: "output_descriptor \<Rightarrow> output_state \<Rightarrow> bool" where
  "mode_is_bad descriptor state \<longleftrightarrow>
     \<not> valid_descriptor_modes descriptor \<or>
     os_physical_width state > od_maximum_physical_width descriptor \<or>
     os_physical_height state > od_maximum_physical_height descriptor \<or>
     \<not> checked_product (os_physical_width state) (os_physical_height state) \<or>
     physical_pixels (os_physical_width state) (os_physical_height state) > od_maximum_physical_pixels descriptor \<or>
     (os_enabled state \<and> (\<not> od_connected descriptor \<or> \<not> state_matches_mode descriptor state))"

fun modes_loop :: "(u64, output_descriptor) RBT.rbt \<Rightarrow> (u64 \<times> output_state) list \<Rightarrow> u64 \<Rightarrow> u64 list \<Rightarrow>
    layout_validation_result option" where
  "modes_loop descriptors [] total_physical_pixels mode_identifiers = Some layout_ok"
| "modes_loop descriptors ((oid, state) # rest) total_physical_pixels mode_identifiers =
     (case RBT.lookup descriptors oid of
        None \<Rightarrow> None
      | Some descriptor \<Rightarrow>
          (case insert_mode_ids (od_modes descriptor) mode_identifiers of
             None \<Rightarrow> Some (failure LE_InvalidMode oid)
           | Some mode_identifiers' \<Rightarrow>
               let pixels = physical_pixels (os_physical_width state) (os_physical_height state)
               in if mode_is_bad descriptor state
                  then Some (failure LE_InvalidMode oid)
                  else if os_enabled state
                  then if pixels > kMaximumTotalOutputPixels - total_physical_pixels
                       then Some (failure LE_PhysicalLimitExceeded oid)
                       else modes_loop descriptors rest (total_physical_pixels + pixels) mode_identifiers'
                  else modes_loop descriptors rest total_physical_pixels mode_identifiers'))"

definition logical_extent_is_bad :: "output_state \<Rightarrow> bool" where
  "logical_extent_is_bad state =
     (if \<not> os_enabled state then False
      else let transformed =
                 (if transform_swaps_extents (os_transform state)
                  then \<lparr>pe_width = os_physical_height state, pe_height = os_physical_width state\<rparr>
                  else \<lparr>pe_width = os_physical_width state, pe_height = os_physical_height state\<rparr>)
           in case derive_logical_extent transformed (os_scale state) of
                None \<Rightarrow> True
              | Some expected \<Rightarrow> le_width expected \<noteq> os_logical_width state \<or> le_height expected \<noteq> os_logical_height state)"

definition disabled_state_is_bad :: "output_state \<Rightarrow> bool" where
  "disabled_state_is_bad state \<longleftrightarrow>
     \<not> os_enabled state \<and>
     (os_primary state \<or> os_logical_x state \<noteq> 0 \<or> os_logical_y state \<noteq> 0 \<or>
      os_logical_width state \<noteq> 0 \<or> os_logical_height state \<noteq> 0 \<or>
      os_physical_width state \<noteq> 0 \<or> os_physical_height state \<noteq> 0 \<or> os_refresh_millihertz state \<noteq> 0)"

definition validate_scale_mode_state :: "output_layout \<Rightarrow> layout_validation_result option" where
  "validate_scale_mode_state layout =
     (let states = RBT.entries (ol_states layout); descriptors = ol_descriptors layout
      in case states_loop descriptors scale_is_bad LE_InvalidScale states of
           None \<Rightarrow> None
         | Some r1 \<Rightarrow> if \<not> lr_success r1 then Some r1 else
        (case states_loop descriptors transform_is_bad LE_UnsupportedTransform states of
           None \<Rightarrow> None
         | Some r2 \<Rightarrow> if \<not> lr_success r2 then Some r2 else
        (case modes_loop descriptors states 0 [] of
           None \<Rightarrow> None
         | Some r3 \<Rightarrow> if \<not> lr_success r3 then Some r3 else
        (case find (\<lambda>(oid, state). logical_extent_is_bad state) states of
           Some (oid, state) \<Rightarrow> Some (failure LE_InvalidLogicalExtent oid)
         | None \<Rightarrow>
        (case find (\<lambda>(oid, state). disabled_state_is_bad state) states of
           Some (oid, state) \<Rightarrow> Some (failure LE_InvalidDisabledState oid)
         | None \<Rightarrow> Some layout_ok)))))"

section \<open>Metadata and the whole\<close>

definition validate_metadata :: "output_layout \<Rightarrow> nat \<Rightarrow> layout_validation_result" where
  "validate_metadata layout enabled_count =
     (if ol_generation layout = 0 then failure LE_InvalidGeneration 0
      else case find (\<lambda>(oid, state). os_generation state \<noteq> ol_generation layout) (RBT.entries (ol_states layout)) of
             Some (oid, state) \<Rightarrow> failure LE_InvalidGeneration oid
           | None \<Rightarrow>
               if ol_enabled_output_count layout \<noteq> enabled_count \<or>
                  ol_output_order layout \<noteq> expected_output_order layout
               then failure LE_InvalidOutputOrder 0 else layout_ok)"

definition validate_layout :: "output_layout \<Rightarrow> layout_validation_result option" where
  "validate_layout layout =
     (case validate_inventory_geometry layout of
        None \<Rightarrow> None
      | Some (inventory, enabled_count) \<Rightarrow>
          if \<not> lr_success inventory then Some inventory
          else case validate_scale_mode_state layout of
                 None \<Rightarrow> None
               | Some state \<Rightarrow>
                   if \<not> lr_success state then Some state
                   else Some (validate_metadata layout enabled_count))"

section \<open>The loops\<close>

lemma lr_success_simps [simp]: "lr_success layout_ok" "lr_success (failure e i) \<longleftrightarrow> e = LE_None"
  by (simp_all add: lr_success_def layout_ok_def failure_def)

lemma find_None: "find P xs = None \<longleftrightarrow> (\<forall>x \<in> set xs. \<not> P x)"
  by (auto simp: find_None_iff)

lemma inventory_keys:
  assumes "map_size d = map_size s" "\<forall>x \<in> set (RBT.entries d). \<not> (\<lambda>(oid, v). \<not> map_contains s oid) x"
  shows "dom (RBT.lookup d) = dom (RBT.lookup s)"
proof (rule card_seteq)
  show "dom (RBT.lookup d) \<subseteq> dom (RBT.lookup s)"
    using assms(2) by (fastforce simp: map_simps)
  show "card (dom (RBT.lookup s)) \<le> card (dom (RBT.lookup d))"
    using assms(1) by (simp add: map_size_card)
qed simp

lemma count_states_value:
  "count_states es (a, b, c) =
     (a + length (filter (\<lambda>(i, s). os_enabled s) es),
      b + length (filter (\<lambda>(i, s). os_enabled s \<and> os_primary s) es),
      last (c # map fst (filter (\<lambda>(i, s). os_enabled s \<and> os_primary s) es)))"
  by (induction es "(a, b, c)" arbitrary: a b c rule: count_states.induct) auto

text \<open>What the descriptor loop has checked of one output.\<close>

definition descriptor_checked :: "(u64, output_state) RBT.rbt \<Rightarrow> u64 \<times> output_descriptor \<Rightarrow> bool" where
  "descriptor_checked states = (\<lambda>(oid, d). \<exists>s. RBT.lookup states oid = Some s \<and> oid \<noteq> 0 \<and> od_id d = oid \<and>
     os_output_id s = oid \<and> valid_name (od_name d) \<and> descriptor_metadata_is_valid d \<and>
     (os_enabled s \<longrightarrow> 0 \<le> sint (os_logical_x s) \<and> 0 \<le> sint (os_logical_y s)))"

definition enabled_states :: "(u64, output_state) RBT.rbt \<Rightarrow> u64 list \<Rightarrow> output_state list" where
  "enabled_states states ids = filter os_enabled (List.map_filter (RBT.lookup states) ids)"

lemma check_descriptors_Inr:
  assumes "check_descriptors states ds names enabled = Inr result"
  shows "result = enabled @ enabled_states states (map fst ds) \<and> (\<forall>x \<in> set ds. descriptor_checked states x) \<and>
    distinct (map (od_name \<circ> snd) ds) \<and> set names \<inter> set (map (od_name \<circ> snd) ds) = {}"
  using assms
  by (induction states ds names enabled rule: check_descriptors.induct)
    (fastforce simp: enabled_states_def descriptor_checked_def List.map_filter_simps not_less split: option.splits if_splits)+

lemma check_descriptors_Inl: "check_descriptors states ds names enabled = Inl r \<Longrightarrow> \<not> lr_success r"
  by (induction states ds names enabled rule: check_descriptors.induct) (auto split: option.splits if_splits)

lemma find_overlap_None: "find_overlap ss = None \<longleftrightarrow> sorted_wrt (\<lambda>a b. \<not> output_rectangles_overlap a b) ss"
proof (induction ss)
  case (Cons s ss)
  have "find_overlap (s # ss) = None \<longleftrightarrow> find (output_rectangles_overlap s) ss = None \<and> find_overlap ss = None"
    by (simp split: option.splits)
  with Cons show ?case by (simp add: find_None)
qed simp

lemma states_loop_total:
  assumes "\<forall>(oid, s) \<in> set es. RBT.lookup ds oid \<noteq> None"
  shows "\<exists>r. states_loop ds bad e es = Some r"
  using assms by (induction ds bad e es rule: states_loop.induct) auto

lemma states_loop_success:
  assumes "states_loop ds bad e es = Some r" "lr_success r" "e \<noteq> LE_None" "(oid, s) \<in> set es" "RBT.lookup ds oid = Some d"
  shows "\<not> bad d s"
  using assms by (induction ds bad e es rule: states_loop.induct) (auto split: option.splits if_splits)

lemma modes_loop_total:
  assumes "\<forall>(oid, s) \<in> set es. RBT.lookup ds oid \<noteq> None"
  shows "\<exists>r. modes_loop ds es used ids = Some r"
  using assms
  by (induction ds es used ids rule: modes_loop.induct) (auto simp: Let_def split: option.splits)

lemma modes_loop_step:
  assumes "modes_loop ds ((oid, s) # rest) used ids = Some r" "lr_success r"
  obtains d ids' where "RBT.lookup ds oid = Some d" "\<not> mode_is_bad d s"
    "os_enabled s \<Longrightarrow> physical_pixels (os_physical_width s) (os_physical_height s) \<le> kMaximumTotalOutputPixels - used"
    "modes_loop ds rest (if os_enabled s then used + physical_pixels (os_physical_width s) (os_physical_height s) else used) ids' = Some r"
proof -
  obtain d where d: "RBT.lookup ds oid = Some d" using assms(1) by (cases "RBT.lookup ds oid") auto
  obtain ids' where i: "insert_mode_ids (od_modes d) ids = Some ids'"
    using assms d by (cases "insert_mode_ids (od_modes d) ids") auto
  have "\<not> mode_is_bad d s" using assms d i by (auto simp: Let_def)
  moreover have "os_enabled s \<Longrightarrow> physical_pixels (os_physical_width s) (os_physical_height s) \<le> kMaximumTotalOutputPixels - used"
    using assms d i by (auto simp: Let_def split: if_splits)
  moreover have "modes_loop ds rest (if os_enabled s then used + physical_pixels (os_physical_width s) (os_physical_height s) else used) ids' = Some r"
    using assms d i by (auto simp: Let_def split: if_splits)
  ultimately show thesis using that d by blast
qed

lemma modes_loop_success:
  assumes "modes_loop ds es used ids = Some r" "lr_success r" "(oid, s) \<in> set es" "RBT.lookup ds oid = Some d"
  shows "\<not> mode_is_bad d s"
  using assms
proof (induction es arbitrary: used ids)
  case (Cons e es)
  obtain i t where e: "e = (i, t)" by (cases e)
  obtain d' used' ids' where "RBT.lookup ds i = Some d'" "\<not> mode_is_bad d' t" "modes_loop ds es used' ids' = Some r"
    by (rule modes_loop_step [OF Cons.prems(1) [unfolded e] Cons.prems(2)]) blast
  with Cons.prems(2-4) Cons.IH show ?case by (auto simp: e)
qed simp

section \<open>What acceptance means\<close>

abbreviation accepted :: "output_layout \<Rightarrow> bool" where
  "accepted layout \<equiv> validate_layout layout = Some layout_ok"

lemma check_geometry_ok:
  assumes "lr_success (check_geometry l en)"
  shows "sorted_wrt (\<lambda>a b. \<not> output_rectangles_overlap a b) en"
    "ucast (ol_root_logical_width l) = fold (\<lambda>s w. max w (state_right s)) en 0"
    "ucast (ol_root_logical_height l) = fold (\<lambda>s h. max h (state_bottom s)) en 0"
    "fold (\<lambda>s w. max w (state_right s)) en 0 \<noteq> 0" "fold (\<lambda>s w. max w (state_right s)) en 0 \<le> 32767"
    "fold (\<lambda>s h. max h (state_bottom s)) en 0 \<noteq> 0" "fold (\<lambda>s h. max h (state_bottom s)) en 0 \<le> 32767"
  using assms
  by (auto simp: check_geometry_def Let_def find_overlap_None kMaximumRootLogicalWidth_def
      kMaximumRootLogicalHeight_def not_less split: option.splits if_splits)

lemma primary_is_bad_False:
  assumes "primary_is_bad l n i = Some False"
  shows "n = 1" "ol_primary_output_id l = i" "i \<noteq> 0" "\<exists>d. RBT.lookup (ol_descriptors l) i = Some d \<and> od_primary_eligible d"
  using assms by (auto simp: primary_is_bad_def split: if_splits option.splits)

lemma validate_inventory_geometry_ok:
  assumes "validate_inventory_geometry l = Some (r, n)" "lr_success r"
  defines "en \<equiv> enabled_states (ol_states l) (map fst (RBT.entries (ol_descriptors l)))"
    and "pr \<equiv> filter (\<lambda>(i, s). os_enabled s \<and> os_primary s) (RBT.entries (ol_states l))"
  shows "dom (RBT.lookup (ol_descriptors l)) = dom (RBT.lookup (ol_states l))"
    "map_size (ol_states l) \<le> kMaximumOutputs"
    "n = length (filter (\<lambda>(i, s). os_enabled s) (RBT.entries (ol_states l)))" "0 < n"
    "primary_is_bad l (length pr) (last (0 # map fst pr)) = Some False"
    "\<forall>x \<in> set (RBT.entries (ol_descriptors l)). descriptor_checked (ol_states l) x"
    "distinct (map (od_name \<circ> snd) (RBT.entries (ol_descriptors l)))"
    "lr_success (check_geometry l en)"
proof -
  let ?d = "ol_descriptors l" and ?s = "ol_states l"
  have size: "\<not> (map_size ?d > kMaximumOutputs \<or> map_size ?s > kMaximumOutputs)" "map_size ?d = map_size ?s"
    and missing: "find (\<lambda>(oid, v). \<not> map_contains ?s oid) (RBT.entries ?d) = None"
    using assms(1,2) by (auto simp: validate_inventory_geometry_def Let_def split: if_splits option.splits)
  show "dom (RBT.lookup ?d) = dom (RBT.lookup ?s)" using inventory_keys [OF size(2)] missing by (simp only: find_None)
  show "map_size ?s \<le> kMaximumOutputs" using size(1) by simp
  let ?n = "length (filter (\<lambda>(i, s). os_enabled s) (RBT.entries ?s))"
  let ?bad = "primary_is_bad l (length pr) (last (0 # map fst pr))"
  have rest: "(if ?n = 0 then Some (failure LE_NoEnabledOutput 0, ?n)
      else case ?bad of None \<Rightarrow> None
        | Some bad \<Rightarrow> if bad then Some (failure LE_InvalidPrimaryOutput (ol_primary_output_id l), ?n)
            else case check_descriptors ?s (RBT.entries ?d) [] [] of
                Inl failed \<Rightarrow> Some (failed, ?n) | Inr enabled \<Rightarrow> Some (check_geometry l enabled, ?n)) = Some (r, n)"
    using assms(1) size missing unfolding pr_def
    by (simp add: validate_inventory_geometry_def Let_def count_states_value del: last.simps length_0_conv split del: if_split)
  show n: "0 < n" "n = ?n" using rest assms(2) by (auto split: if_splits option.splits sum.splits)
  show bad: "?bad = Some False" using rest assms(2) by (auto split: if_splits option.splits)
  obtain e where e: "check_descriptors ?s (RBT.entries ?d) [] [] = Inr e"
    using rest n bad assms(2) by (auto split: sum.splits dest: check_descriptors_Inl)
  with check_descriptors_Inr [OF e] show "\<forall>x \<in> set (RBT.entries ?d). descriptor_checked ?s x"
    "distinct (map (od_name \<circ> snd) (RBT.entries ?d))" by auto
  show "lr_success (check_geometry l en)"
    using rest n bad e assms(2) check_descriptors_Inr [OF e] by (auto simp: en_def)
qed

lemma validate_scale_mode_state_ok:
  assumes "validate_scale_mode_state l = Some r" "lr_success r"
    and "RBT.lookup (ol_states l) oid = Some s" "RBT.lookup (ol_descriptors l) oid = Some d"
  shows "\<not> scale_is_bad d s" "\<not> transform_is_bad d s" "\<not> mode_is_bad d s" "\<not> logical_extent_is_bad s"
    "\<not> disabled_state_is_bad s"
proof -
  let ?es = "RBT.entries (ol_states l)" and ?ds = "ol_descriptors l"
  obtain r1 where r1: "states_loop ?ds scale_is_bad LE_InvalidScale ?es = Some r1" "lr_success r1"
    using assms(1,2) by (auto simp: validate_scale_mode_state_def Let_def split: option.splits if_splits)
  moreover obtain r2 where r2: "states_loop ?ds transform_is_bad LE_UnsupportedTransform ?es = Some r2" "lr_success r2"
    using assms(1,2) r1 by (auto simp: validate_scale_mode_state_def Let_def split: option.splits if_splits)
  moreover obtain r3 where r3: "modes_loop ?ds ?es 0 [] = Some r3" "lr_success r3"
    using assms(1,2) r1 r2 by (auto simp: validate_scale_mode_state_def Let_def split: option.splits if_splits)
  moreover have f: "find (\<lambda>(oid, state). logical_extent_is_bad state) ?es = None"
      "find (\<lambda>(oid, state). disabled_state_is_bad state) ?es = None"
    using assms(1,2) r1 r2 r3
    by (auto simp: validate_scale_mode_state_def Let_def simp del: find_None_iff split: option.splits)
  moreover have e: "(oid, s) \<in> set ?es" using assms(3) by (simp add: map_simps)
  ultimately show "\<not> scale_is_bad d s" "\<not> transform_is_bad d s" "\<not> mode_is_bad d s"
    "\<not> logical_extent_is_bad s" "\<not> disabled_state_is_bad s"
    using states_loop_success [OF r1 _ e assms(4)] states_loop_success [OF r2 _ e assms(4)]
      modes_loop_success [OF r3 e assms(4)] by (auto simp: find_None)
qed

lemma validate_inventory_geometry_total: "\<exists>r n. validate_inventory_geometry l = Some (r, n)"
proof -
  let ?d = "ol_descriptors l" and ?s = "ol_states l"
  let ?pr = "filter (\<lambda>(i, s). os_enabled s \<and> os_primary s) (RBT.entries ?s)"
  have "primary_is_bad l (length ?pr) (last (0 # map fst ?pr)) \<noteq> None"
    if "dom (RBT.lookup ?d) = dom (RBT.lookup ?s)"
  proof (cases "length ?pr = 1")
    case True
    then obtain e where "?pr = [e]" by (auto simp: length_Suc_conv)
    moreover obtain i s where "e = (i, s)" by (cases e)
    ultimately have p: "?pr = [(i, s)]" by simp
    then have "(i, s) \<in> set ?pr" by simp
    then have "(i, s) \<in> set (RBT.entries ?s)" by simp
    then have "i \<in> dom (RBT.lookup ?d)" using that by (auto simp: map_simps)
    then show ?thesis unfolding p by (auto simp: primary_is_bad_def split: option.splits)
  next
    case False
    then show ?thesis by (simp add: primary_is_bad_def)
  qed
  moreover have "dom (RBT.lookup ?d) = dom (RBT.lookup ?s)"
    if "map_size ?d = map_size ?s" "find (\<lambda>(oid, v). \<not> map_contains ?s oid) (RBT.entries ?d) = None"
    using inventory_keys [OF that(1)] that(2) by (simp only: find_None)
  ultimately show ?thesis
    by (auto simp: validate_inventory_geometry_def Let_def count_states_value simp del: last.simps find_None_iff
        split: option.splits sum.splits)
qed

lemma validate_scale_mode_state_total:
  assumes "dom (RBT.lookup (ol_descriptors l)) = dom (RBT.lookup (ol_states l))"
  shows "\<exists>r. validate_scale_mode_state l = Some r"
proof -
  have "\<forall>(oid, s) \<in> set (RBT.entries (ol_states l)). RBT.lookup (ol_descriptors l) oid \<noteq> None"
    using assms by (auto simp: map_simps)
  note t = states_loop_total [OF this] modes_loop_total [OF this]
  obtain r1 where r1: "states_loop (ol_descriptors l) scale_is_bad LE_InvalidScale (RBT.entries (ol_states l)) = Some r1"
    using t(1) by blast
  moreover obtain r2 where "states_loop (ol_descriptors l) transform_is_bad LE_UnsupportedTransform (RBT.entries (ol_states l)) = Some r2"
    using t(1) by blast
  moreover obtain r3 where "modes_loop (ol_descriptors l) (RBT.entries (ol_states l)) 0 [] = Some r3"
    using t(2) by blast
  ultimately show ?thesis
    by (auto simp: validate_scale_mode_state_def Let_def simp del: find_None_iff split: option.splits)
qed

section \<open>The geometry of an accepted layout\<close>

definition state_rectangle :: "output_state \<Rightarrow> rectangle" where
  "state_rectangle s = make_rectangle (os_logical_x s) (os_logical_y s) (os_logical_width s) (os_logical_height s)"

definition root_rectangle :: "output_layout \<Rightarrow> rectangle" where
  "root_rectangle l = make_rectangle 0 0 (ol_root_logical_width l) (ol_root_logical_height l)"

definition enabled_output :: "output_layout \<Rightarrow> u64 \<Rightarrow> output_state \<Rightarrow> bool" where
  "enabled_output l oid s \<longleftrightarrow> RBT.lookup (ol_states l) oid = Some s \<and> os_enabled s"

lemma sorted_wrt_distinct_elements:
  assumes "sorted_wrt R xs" "\<And>x y. R x y \<Longrightarrow> R y x" "x \<in> set xs" "y \<in> set xs" "x \<noteq> y"
  shows "R x y"
  using assms by (induction xs) auto

lemma sorted_wrt_partition:
  assumes "sorted_wrt (\<lambda>a b. P b \<longrightarrow> P a) xs"
  shows "xs = filter P xs @ filter (\<lambda>x. \<not> P x) xs"
  using assms
proof (induction xs)
  case (Cons x xs)
  show ?case
  proof (cases "P x")
    case True
    with Cons show ?thesis by simp
  next
    case False
    with Cons.prems have "\<forall>y \<in> set xs. \<not> P y" by auto
    with False show ?thesis by (simp add: filter_empty_conv)
  qed
qed simp

lemma fold_max:
  fixes f :: "'a \<Rightarrow> 'b::linorder"
  shows "x \<in> set xs \<Longrightarrow> f x \<le> fold (\<lambda>x m. max m (f x)) xs m"
    "fold (\<lambda>x m. max m (f x)) xs m = m \<or> (\<exists>x \<in> set xs. fold (\<lambda>x m. max m (f x)) xs m = f x)"
proof -
  have mono: "m \<le> fold (\<lambda>x m. max m (f x)) xs m" for xs m
    by (induction xs arbitrary: m) (auto intro: order_trans [OF max.cobounded1])
  show "x \<in> set xs \<Longrightarrow> f x \<le> fold (\<lambda>x m. max m (f x)) xs m"
    by (induction xs arbitrary: m) (auto intro: order_trans [OF _ mono])
  show "fold (\<lambda>x m. max m (f x)) xs m = m \<or> (\<exists>x \<in> set xs. fold (\<lambda>x m. max m (f x)) xs m = f x)"
  proof (induction xs arbitrary: m)
    case (Cons a xs)
    from Cons [of "max m (f a)"] show ?case by (auto simp: max_def split: if_splits)
  qed simp
qed

lemma uint_scast_nonneg:
  assumes "0 \<le> sint (a :: i32)"
  shows "uint (scast a :: u64) = sint a"
proof -
  have "uint (u64_of (sint a)) = sint a" using assms sint32_range(2) [of a] by (intro uint_u64_of) linarith+
  then show ?thesis unfolding scast_eq u64_of_def .
qed

lemma uint_edge:
  assumes "0 \<le> sint (a :: i32)"
  shows "uint ((scast a :: u64) + ucast (w :: u32)) = sint a + uint w"
proof -
  have "(sint a + uint w) mod 18446744073709551616 = sint a + uint w"
    using assms sint32_range [of a] uint32_range [of w] by (intro mod_pos_pos_trivial) auto
  then show ?thesis by (simp add: uint_word_ariths uint_scast_nonneg [OF assms] uint_ucast_u64)
qed

lemma state_edges:
  "0 \<le> sint (os_logical_x s) \<Longrightarrow> uint (state_right s) = right_edge (state_rectangle s)"
  "0 \<le> sint (os_logical_y s) \<Longrightarrow> uint (state_bottom s) = bottom_edge (state_rectangle s)"
  by (simp_all add: state_right_def state_bottom_def uint_edge state_rectangle_def make_rectangle_def
      right_edge_def bottom_edge_def)

lemma no_overlap_disjoint:
  assumes "\<not> output_rectangles_overlap a b"
    and "0 \<le> sint (os_logical_x a)" "0 \<le> sint (os_logical_y a)" "0 \<le> sint (os_logical_x b)" "0 \<le> sint (os_logical_y b)"
  shows "rect_pts (state_rectangle a) \<inter> rect_pts (state_rectangle b) = {}"
proof -
  let ?A = "state_rectangle a" and ?B = "state_rectangle b"
  have "\<not> (sint (rect_x ?A) < right_edge ?B \<and> sint (rect_x ?B) < right_edge ?A \<and>
      sint (rect_y ?A) < bottom_edge ?B \<and> sint (rect_y ?B) < bottom_edge ?A)"
    using assms unfolding output_rectangles_overlap_def Let_def word_less_def
    by (simp only: state_edges uint_scast_nonneg) (simp add: state_rectangle_def make_rectangle_def)
  then show ?thesis by (auto simp: rect_pts_def)
qed

lemma overlap_sym: "output_rectangles_overlap a b = output_rectangles_overlap b a"
  by (auto simp: output_rectangles_overlap_def Let_def)

lemma acceptedD:
  assumes "accepted l"
  obtains r n t where "validate_inventory_geometry l = Some (r, n)" "lr_success r"
    "validate_scale_mode_state l = Some t" "lr_success t" "validate_metadata l n = layout_ok"
proof -
  obtain r n where i: "validate_inventory_geometry l = Some (r, n)" "lr_success r"
    using assms by (auto simp: validate_layout_def split: option.splits if_splits prod.splits)
  moreover obtain t where "validate_scale_mode_state l = Some t" "lr_success t" "validate_metadata l n = layout_ok"
    using assms i by (auto simp: validate_layout_def split: option.splits if_splits)
  ultimately show thesis using that by blast
qed

text \<open>All that has been checked of one enabled output.\<close>

lemma accepted_output:
  assumes "accepted l" "enabled_output l oid s"
  obtains d where "RBT.lookup (ol_descriptors l) oid = Some d" "os_output_id s = oid" "oid \<noteq> 0"
    "0 \<le> sint (os_logical_x s)" "0 \<le> sint (os_logical_y s)"
    "\<not> scale_is_bad d s" "\<not> transform_is_bad d s" "\<not> mode_is_bad d s" "\<not> logical_extent_is_bad s"
proof -
  obtain r n t where a: "validate_inventory_geometry l = Some (r, n)" "lr_success r"
      "validate_scale_mode_state l = Some t" "lr_success t" "validate_metadata l n = layout_ok"
    by (rule acceptedD [OF assms(1)])
  note i = validate_inventory_geometry_ok [OF a(1,2)]
  have s: "RBT.lookup (ol_states l) oid = Some s" "os_enabled s" using assms(2) by (simp_all add: enabled_output_def)
  then obtain d where d: "RBT.lookup (ol_descriptors l) oid = Some d" using i(1) by (metis domD domI)
  then have "descriptor_checked (ol_states l) (oid, d)" using i(6) by (simp add: set_entries)
  then have "os_output_id s = oid \<and> oid \<noteq> 0 \<and> 0 \<le> sint (os_logical_x s) \<and> 0 \<le> sint (os_logical_y s)"
    using s by (auto simp: descriptor_checked_def)
  with d validate_scale_mode_state_ok [OF a(3,4) s(1) d] show thesis using that by blast
qed

lemma set_enabled_states:
  assumes "accepted l"
  shows "set (enabled_states (ol_states l) (map fst (RBT.entries (ol_descriptors l)))) = {s. \<exists>oid. enabled_output l oid s}"
proof -
  obtain r n t where a: "validate_inventory_geometry l = Some (r, n)" "lr_success r" by (rule acceptedD [OF assms])
  have "set (map fst (RBT.entries (ol_descriptors l))) = dom (RBT.lookup (ol_states l))"
    using validate_inventory_geometry_ok(1) [OF a] RBT.lookup_keys [of "ol_descriptors l"] by (simp add: RBT.keys_def_alt)
  then show ?thesis
    by (force simp: enabled_states_def enabled_output_def List.map_filter_def)
qed

lemma accepted_root:
  assumes "accepted l"
  defines "en \<equiv> enabled_states (ol_states l) (map fst (RBT.entries (ol_descriptors l)))"
  shows "uint (ol_root_logical_width l) = uint (fold (\<lambda>s w. max w (state_right s)) en 0)"
    "uint (ol_root_logical_height l) = uint (fold (\<lambda>s h. max h (state_bottom s)) en 0)"
    "uint (ol_root_logical_width l) \<le> 32767" "uint (ol_root_logical_height l) \<le> 32767"
    "0 < uint (ol_root_logical_width l)" "0 < uint (ol_root_logical_height l)"
proof -
  obtain r n t where a: "validate_inventory_geometry l = Some (r, n)" "lr_success r" by (rule acceptedD [OF assms(1)])
  note g = check_geometry_ok [OF validate_inventory_geometry_ok(8) [OF a], folded en_def]
  show w: "uint (ol_root_logical_width l) = uint (fold (\<lambda>s w. max w (state_right s)) en 0)"
    "uint (ol_root_logical_height l) = uint (fold (\<lambda>s h. max h (state_bottom s)) en 0)"
    using g(2,3) uint_ucast_u64 by metis+
  show "uint (ol_root_logical_width l) \<le> 32767" "uint (ol_root_logical_height l) \<le> 32767"
    unfolding w using g(5,7) by (simp_all add: word_le_def)
  have "ol_root_logical_width l \<noteq> 0" "ol_root_logical_height l \<noteq> 0" using g(2-4,6) by auto
  then show "0 < uint (ol_root_logical_width l)" "0 < uint (ol_root_logical_height l)" by (simp_all add: uint_pos_iff32)
qed

lemma accepted_edges:
  assumes "accepted l" "enabled_output l oid s"
  shows "right_edge (state_rectangle s) \<le> uint (ol_root_logical_width l)"
    "bottom_edge (state_rectangle s) \<le> uint (ol_root_logical_height l)"
proof -
  let ?en = "enabled_states (ol_states l) (map fst (RBT.entries (ol_descriptors l)))"
  have s: "s \<in> set ?en" using set_enabled_states [OF assms(1)] assms(2) by blast
  obtain d where p: "0 \<le> sint (os_logical_x s)" "0 \<le> sint (os_logical_y s)" by (rule accepted_output [OF assms])
  show "right_edge (state_rectangle s) \<le> uint (ol_root_logical_width l)"
    unfolding accepted_root(1) [OF assms(1)] state_edges(1) [OF p(1), symmetric]
    using fold_max(1) [OF s, of state_right 0] by (simp add: word_le_def)
  show "bottom_edge (state_rectangle s) \<le> uint (ol_root_logical_height l)"
    unfolding accepted_root(2) [OF assms(1)] state_edges(2) [OF p(2), symmetric]
    using fold_max(1) [OF s, of state_bottom 0] by (simp add: word_le_def)
qed

lemma check_modes_nonzero:
  assumes "check_modes d ms ids n" "m \<in> set ms"
  shows "om_physical_width m \<noteq> 0" "om_physical_height m \<noteq> 0"
  using assms by (induction d ms ids n rule: check_modes.induct) (auto split: if_splits)

lemma mode_nonzero:
  assumes "\<not> mode_is_bad d s" "os_enabled s"
  shows "os_physical_width s \<noteq> 0" "os_physical_height s \<noteq> 0"
proof -
  have m: "check_modes d (od_modes d) [] 0" "state_matches_mode d s"
    using assms by (auto simp: mode_is_bad_def valid_descriptor_modes_def split: if_splits)
  have "os_physical_width s \<noteq> 0 \<and> os_physical_height s \<noteq> 0"
  proof (cases "find (\<lambda>mode. om_id mode = os_mode_id s) (od_modes d)")
    case None
    with m(2) show ?thesis by (simp add: state_matches_mode_def)
  next
    case (Some mode)
    then have "mode \<in> set (od_modes d)" by (auto simp: find_Some_iff)
    with Some m check_modes_nonzero [OF m(1)] show ?thesis by (simp add: state_matches_mode_def)
  qed
  then show "os_physical_width s \<noteq> 0" "os_physical_height s \<noteq> 0" by blast+
qed

lemma swapped_extent:
  assumes "known_transform t"
  shows "(if transform_swaps_extents t then \<lparr>pe_width = h, pe_height = w\<rparr> else \<lparr>pe_width = w, pe_height = h\<rparr>) =
    transformed_physical_extent \<lparr>pe_width = w, pe_height = h\<rparr> t"
  using assms by (cases rule: known_transform_cases) (simp_all add: transform_swaps_extents_def transform_defs)

lemma derive_positive:
  assumes "derive_logical_dimension e scale = Some r" "e \<noteq> 0"
  shows "r \<noteq> 0"
proof -
  have "is_reduced scale" using assms(1) by (auto simp: derive_logical_dimension_def split: if_splits)
  then have "0 < uint e * uint (sc_denominator scale)"
    using assms(2) by (simp add: is_reduced_def uint_pos_iff32)
  then show ?thesis using derive_logical_dimension_ceiling(1) [OF assms(1)] by auto
qed

lemma transformed_nonzero:
  "known_transform t \<Longrightarrow> w \<noteq> 0 \<Longrightarrow> h \<noteq> 0 \<Longrightarrow>
    pe_width (transformed_physical_extent \<lparr>pe_width = w, pe_height = h\<rparr> t) \<noteq> 0 \<and>
    pe_height (transformed_physical_extent \<lparr>pe_width = w, pe_height = h\<rparr> t) \<noteq> 0"
  by (cases t) (simp_all add: transform_defs)

text \<open>The mapping the compositor builds for an output state.\<close>

definition state_mapping :: "output_state \<Rightarrow> output_mapping" where
  "state_mapping s = \<lparr>mp_logical_origin = \<lparr>lp_x = os_logical_x s, lp_y = os_logical_y s\<rparr>,
     mp_logical_extent = \<lparr>le_width = os_logical_width s, le_height = os_logical_height s\<rparr>,
     mp_physical_extent = \<lparr>pe_width = os_physical_width s, pe_height = os_physical_height s\<rparr>,
     mp_scale = os_scale s, mp_transform = os_transform s\<rparr>"

lemma accepted_displayable:
  assumes "accepted l" "enabled_output l oid s"
  shows "displayable (state_mapping s)" "make_output_mapping s = Some (state_mapping s)"
    "output_rectangle (state_mapping s) = state_rectangle s"
proof -
  obtain d where d: "RBT.lookup (ol_descriptors l) oid = Some d" "0 \<le> sint (os_logical_x s)" "0 \<le> sint (os_logical_y s)"
    "\<not> scale_is_bad d s" "\<not> transform_is_bad d s" "\<not> mode_is_bad d s" "\<not> logical_extent_is_bad s"
    by (rule accepted_output [OF assms])
  have en: "os_enabled s" using assms(2) by (simp add: enabled_output_def)
  have scale: "valid_output_scale (os_scale s) kMaximumScaleDenominator"
    using d(4) by (auto simp: scale_is_bad_def valid_output_scale_def kMaximumScaleDenominator_def)
  have k: "known_transform (os_transform s)"
    using d(5) by (cases "os_transform s") (auto simp: transform_is_bad_def valid_transform_def)
  note nz = mode_nonzero [OF d(6) en]
  have small: "os_physical_width s \<le> kMaximumPhysicalExtent" "os_physical_height s \<le> kMaximumPhysicalExtent"
    using d(4,6) by (auto simp: scale_is_bad_def descriptor_limits_are_valid_def mode_is_bad_def not_less split: if_splits
        intro: order_trans)
  let ?e = "transformed_physical_extent \<lparr>pe_width = os_physical_width s, pe_height = os_physical_height s\<rparr> (os_transform s)"
  have ext: "derive_logical_extent ?e (os_scale s) = Some \<lparr>le_width = os_logical_width s, le_height = os_logical_height s\<rparr>"
    using d(7) en unfolding logical_extent_is_bad_def Let_def swapped_extent [OF k]
    by (auto split: option.splits)
  then have dim: "derive_logical_dimension (pe_width ?e) (os_scale s) = Some (os_logical_width s)"
    "derive_logical_dimension (pe_height ?e) (os_scale s) = Some (os_logical_height s)"
    by (auto simp: derive_logical_extent_def Let_def split: option.splits)
  have lnz: "os_logical_width s \<noteq> 0" "os_logical_height s \<noteq> 0"
    using derive_positive [OF dim(1)] derive_positive [OF dim(2)] transformed_nonzero [OF k nz] by blast+
  have edges: "sint (os_logical_x s) + uint (os_logical_width s) \<le> int32_max"
      "sint (os_logical_y s) + uint (os_logical_height s) \<le> int32_max"
    using accepted_edges [OF assms] accepted_root(3,4) [OF assms(1)]
    by (simp_all add: state_rectangle_def make_rectangle_def right_edge_def bottom_edge_def)
  have v: "valid_output_mapping (state_mapping s)"
    using lnz nz scale k d(2,3) edges ext
    by (simp add: valid_output_mapping_def state_mapping_def valid_output_transform_known logical_bounds_def Let_def)
  then show "displayable (state_mapping s)" using small by (simp add: displayable_def state_mapping_def)
  show "make_output_mapping s = Some (state_mapping s)"
    using v en by (simp add: make_output_mapping_def Let_def state_mapping_def)
  show "output_rectangle (state_mapping s) = state_rectangle s"
    by (simp add: output_rectangle_def state_rectangle_def state_mapping_def)
qed

lemma accepted_metadata:
  assumes "accepted l"
  shows "ol_output_order l = expected_output_order l"
    "ol_enabled_output_count l = length (filter (\<lambda>(i, s). os_enabled s) (RBT.entries (ol_states l)))"
    "ol_generation l \<noteq> 0" "\<forall>(i, s) \<in> set (RBT.entries (ol_states l)). os_generation s = ol_generation l"
proof -
  obtain r n t where a: "validate_inventory_geometry l = Some (r, n)" "lr_success r" and m: "validate_metadata l n = layout_ok"
    by (rule acceptedD [OF assms])
  have f: "failure e i \<noteq> layout_ok" if "e \<noteq> LE_None" for e i using that by (simp add: failure_def layout_ok_def)
  have n: "n = length (filter (\<lambda>(i, s). os_enabled s) (RBT.entries (ol_states l)))"
    by (rule validate_inventory_geometry_ok(3) [OF a])
  show g: "ol_generation l \<noteq> 0" using m f by (auto simp: validate_metadata_def)
  have "find (\<lambda>(oid, state). os_generation state \<noteq> ol_generation l) (RBT.entries (ol_states l)) = None"
    using m f g by (auto simp: validate_metadata_def simp del: find_None_iff split: option.splits)
  with m f g n show "ol_output_order l = expected_output_order l"
    "ol_enabled_output_count l = length (filter (\<lambda>(i, s). os_enabled s) (RBT.entries (ol_states l)))"
    "\<forall>(i, s) \<in> set (RBT.entries (ol_states l)). os_generation s = ol_generation l"
    by (auto simp: validate_metadata_def find_None split: if_splits)
qed

lemma expected_output_order_sorted:
  "mset (expected_output_order l) = mset (RBT.keys (ol_states l))"
  "sorted (map output_order_key (sort_key output_order_key (RBT.entries (ol_states l))))"
  by (simp_all add: expected_output_order_def RBT.keys_def_alt)

section \<open>Properties\<close>

text \<open>Two outputs for the witnesses: a landscape panel and, right of it, a portrait panel at scale 3/2.\<close>

definition panel_descriptor :: "u64 \<Rightarrow> string \<Rightarrow> u32 \<Rightarrow> output_mode list \<Rightarrow> output_descriptor" where
  "panel_descriptor oid name transforms modes =
    \<lparr>od_id = oid, od_name = name, od_kind = OK_Drm, od_connected = True, od_physical_width_mm = 530, od_physical_height_mm = 300,
     od_supported_transform_mask = transforms, od_minimum_scale = \<lparr>sc_numerator = 1, sc_denominator = 1\<rparr>,
     od_maximum_scale = \<lparr>sc_numerator = 3, sc_denominator = 1\<rparr>, od_maximum_scale_denominator = 120, od_mode_configurable = False,
     od_scale_configurable = True, od_transform_configurable = True, od_primary_eligible = True, od_arbitrary_headless_mode = False,
     od_maximum_physical_width = 4096, od_maximum_physical_height = 4096, od_maximum_physical_pixels = 16777216, od_modes = modes\<rparr>"

definition panel_mode :: "u64 \<Rightarrow> u64 \<Rightarrow> output_mode" where
  "panel_mode mid oid = \<lparr>om_id = mid, om_output_id = oid, om_physical_width = 1920, om_physical_height = 1080,
     om_refresh_millihertz = 60000, om_flags = 0, om_name = ''1080p'', om_preferred = True, om_current = True\<rparr>"

definition panel_state :: "u64 \<Rightarrow> u64 \<Rightarrow> i32 \<Rightarrow> u32 \<Rightarrow> u32 \<Rightarrow> rational_scale \<Rightarrow> transform \<Rightarrow> bool \<Rightarrow> output_state" where
  "panel_state oid mid x w h scale t primary = \<lparr>os_output_id = oid, os_enabled = True, os_mode_id = mid, os_logical_x = x, os_logical_y = 0,
     os_logical_width = w, os_logical_height = h, os_physical_width = 1920, os_physical_height = 1080, os_refresh_millihertz = 60000,
     os_scale = scale, os_transform = t,
     os_color = \<lparr>sdr_color_space = Sdr_Srgb, sdr_transfer_function = Transfer_Srgb, sdr_primaries = Primaries_Srgb, sdr_luminance_available = False,
       sdr_minimum_luminance_millinit = 0, sdr_maximum_luminance_millinit = 0, sdr_max_frame_average_luminance_millinit = 0\<rparr>,
     os_primary = primary, os_generation = 5\<rparr>"

definition left_panel :: output_state where
  "left_panel = panel_state 7 71 0 1920 1080 \<lparr>sc_numerator = 1, sc_denominator = 1\<rparr> Tr_Normal True"

definition right_panel :: output_state where
  "right_panel = panel_state 3 31 1920 720 1280 \<lparr>sc_numerator = 3, sc_denominator = 2\<rparr> Tr_Rotate90 False"

definition two_panels :: output_layout where
  "two_panels = \<lparr>ol_descriptors = RBT.insert 7 (panel_descriptor 7 ''eDP-1'' 1 [panel_mode 71 7])
       (RBT.insert 3 (panel_descriptor 3 ''DP-1'' 255 [panel_mode 31 3]) RBT.empty),
     ol_states = RBT.insert 7 left_panel (RBT.insert 3 right_panel RBT.empty),
     ol_primary_output_id = 7, ol_root_logical_width = 2640, ol_root_logical_height = 1280, ol_generation = 5,
     ol_enabled_output_count = 2, ol_output_order = [7, 3]\<rparr>"

lemma two_panels_accepted: "accepted two_panels"
  by code_simp

text \<open>
  Validating a layout never throws: every \<open>at\<close> in it has its key, for arbitrary descriptors and
  states.
\<close>

lemma validate_layout_total: "\<exists>r. validate_layout l = Some r"
proof -
  obtain r n where i: "validate_inventory_geometry l = Some (r, n)" using validate_inventory_geometry_total by blast
  show ?thesis
  proof (cases "lr_success r")
    case True
    obtain t where "validate_scale_mode_state l = Some t"
      using validate_scale_mode_state_total [OF validate_inventory_geometry_ok(1) [OF i True]] by blast
    with i True show ?thesis by (simp add: validate_layout_def)
  next
    case False
    with i show ?thesis by (simp add: validate_layout_def)
  qed
qed

text \<open>
  In an accepted layout two different enabled outputs share no logical pixel, every enabled output
  lies in the root rectangle, and the root is tight: some output reaches its right edge and some output
  its bottom edge.
\<close>

lemma accepted_layout_geometry:
  assumes "accepted l"
  shows "(\<forall>i j s t. enabled_output l i s \<and> enabled_output l j t \<and> i \<noteq> j \<longrightarrow>
      rect_pts (state_rectangle s) \<inter> rect_pts (state_rectangle t) = {}) \<and>
    (\<forall>i s. enabled_output l i s \<longrightarrow> rect_pts (state_rectangle s) \<subseteq> rect_pts (root_rectangle l)) \<and>
    (\<exists>i s. enabled_output l i s \<and> right_edge (state_rectangle s) = right_edge (root_rectangle l)) \<and>
    (\<exists>i s. enabled_output l i s \<and> bottom_edge (state_rectangle s) = bottom_edge (root_rectangle l))"
proof -
  let ?en = "enabled_states (ol_states l) (map fst (RBT.entries (ol_descriptors l)))"
  obtain r n t where a: "validate_inventory_geometry l = Some (r, n)" "lr_success r" by (rule acceptedD [OF assms])
  note sep = check_geometry_ok(1) [OF validate_inventory_geometry_ok(8) [OF a]]
  note members = set_enabled_states [OF assms] and root = accepted_root [OF assms]
  have pos: "0 \<le> sint (os_logical_x s) \<and> 0 \<le> sint (os_logical_y s) \<and> os_output_id s = i" if "enabled_output l i s" for i s
    by (rule accepted_output [OF assms that]) blast
  have "rect_pts (state_rectangle s) \<inter> rect_pts (state_rectangle t) = {}"
    if "enabled_output l i s" "enabled_output l j t" "i \<noteq> j" for i j s t
  proof -
    have "\<not> output_rectangles_overlap s t"
      using sorted_wrt_distinct_elements [OF sep, of s t] overlap_sym members that pos by blast
    then show ?thesis using no_overlap_disjoint pos that by blast
  qed
  moreover have "rect_pts (state_rectangle s) \<subseteq> rect_pts (root_rectangle l)" if "enabled_output l i s" for i s
    using accepted_edges [OF assms that] pos [OF that]
    by (auto simp: rect_pts_def root_rectangle_def state_rectangle_def make_rectangle_def right_edge_def bottom_edge_def)
  moreover have "\<exists>i s. enabled_output l i s \<and> right_edge (state_rectangle s) = right_edge (root_rectangle l)"
  proof -
    obtain s where s: "s \<in> set ?en" "uint (state_right s) = uint (ol_root_logical_width l)"
      using fold_max(2) [of state_right ?en 0] root(1,5) by fastforce
    then obtain i where "enabled_output l i s" using members by blast
    with s(2) pos state_edges(1) [of s] show ?thesis by (auto simp: root_rectangle_def make_rectangle_def right_edge_def)
  qed
  moreover have "\<exists>i s. enabled_output l i s \<and> bottom_edge (state_rectangle s) = bottom_edge (root_rectangle l)"
  proof -
    obtain s where s: "s \<in> set ?en" "uint (state_bottom s) = uint (ol_root_logical_height l)"
      using fold_max(2) [of state_bottom ?en 0] root(2,6) by fastforce
    then obtain i where "enabled_output l i s" using members by blast
    with s(2) pos state_edges(2) [of s] show ?thesis by (auto simp: root_rectangle_def make_rectangle_def bottom_edge_def)
  qed
  ultimately show ?thesis by blast
qed

text \<open>
  C15. Every enabled output of an accepted layout has a mapping, the mapping is displayable, and its
  logical rectangle is the rectangle of the layout: the rendering side never meets an output it cannot
  map.
\<close>

theorem accepted_outputs_are_displayable:
  assumes "accepted l" "enabled_output l i s"
  shows "\<exists>m. make_output_mapping s = Some m \<and> displayable m \<and> output_rectangle m = state_rectangle s"
  using accepted_displayable [OF assms] by blast

theorem accepted_outputs_are_displayable_witness:
  "\<exists>m. make_output_mapping right_panel = Some m \<and> displayable m \<and> output_rectangle m = state_rectangle right_panel"
proof -
  have "enabled_output two_panels 3 right_panel"
    by (simp add: enabled_output_def two_panels_def left_panel_def right_panel_def panel_state_def)
  then show ?thesis by (rule accepted_outputs_are_displayable [OF two_panels_accepted])
qed

text \<open>
  In an accepted layout exactly one enabled output is primary and it is the recorded one; the
  output order lists every output once, the enabled ones first; and the enabled count is right.
\<close>

lemma accepted_layout_order:
  assumes "accepted l"
  shows "(\<exists>!i. \<exists>s. enabled_output l i s \<and> os_primary s) \<and>
    (\<exists>s. enabled_output l (ol_primary_output_id l) s \<and> os_primary s) \<and>
    distinct (ol_output_order l) \<and> set (ol_output_order l) = dom (RBT.lookup (ol_states l)) \<and>
    (\<exists>as bs. ol_output_order l = as @ bs \<and> length as = ol_enabled_output_count l \<and>
       (\<forall>i \<in> set as. \<exists>s. enabled_output l i s) \<and> (\<forall>i \<in> set bs. \<nexists>s. enabled_output l i s))"
proof -
  let ?es = "RBT.entries (ol_states l)"
  let ?pr = "filter (\<lambda>(i, s). os_enabled s \<and> os_primary s) ?es"
  let ?sorted = "sort_key output_order_key ?es"
  note m = accepted_metadata [OF assms]
  obtain r n t where a: "validate_inventory_geometry l = Some (r, n)" "lr_success r" by (rule acceptedD [OF assms])
  note p = primary_is_bad_False [OF validate_inventory_geometry_ok(5) [OF a]]
  obtain i s where pr: "?pr = [(i, s)]" using p(1) by (auto simp: length_Suc_conv)
  have prim: "enabled_output l j u \<and> os_primary u \<longleftrightarrow> (j, u) \<in> set ?pr" for j u
    by (auto simp: enabled_output_def map_simps)
  have primary: "(\<exists>!i. \<exists>s. enabled_output l i s \<and> os_primary s) \<and>
      (\<exists>s. enabled_output l (ol_primary_output_id l) s \<and> os_primary s)"
    unfolding prim pr p(2) by auto
  have perm: "distinct (ol_output_order l)" "set (ol_output_order l) = dom (RBT.lookup (ol_states l))"
    using mset_eq_imp_distinct_iff [OF expected_output_order_sorted(1), of l] mset_eq_setD [OF expected_output_order_sorted(1), of l]
    by (simp_all add: m(1) RBT.lookup_keys)
  let ?on = "\<lambda>(i, s). os_enabled s"
  have split: "?sorted = filter ?on ?sorted @ filter (\<lambda>e. \<not> ?on e) ?sorted"
  proof (rule sorted_wrt_partition)
    show "sorted_wrt (\<lambda>a b. ?on b \<longrightarrow> ?on a) ?sorted"
      using expected_output_order_sorted(2) [of l] unfolding sorted_map
      by (rule sorted_wrt_mono_rel [rotated]) (auto simp: output_order_key_def split: if_splits)
  qed
  have "ol_output_order l = map fst (filter ?on ?sorted) @ map fst (filter (\<lambda>e. \<not> ?on e) ?sorted)"
    unfolding m(1) expected_output_order_def map_append [symmetric] using split by simp
  moreover have "length (map fst (filter ?on ?sorted)) = ol_enabled_output_count l"
    unfolding m(2) length_map by (metis mset_filter mset_sort size_mset)
  moreover have "\<forall>i \<in> set (map fst (filter ?on ?sorted)). \<exists>s. enabled_output l i s"
      "\<forall>i \<in> set (map fst (filter (\<lambda>e. \<not> ?on e) ?sorted)). \<nexists>s. enabled_output l i s"
    by (auto simp: enabled_output_def map_simps)
  ultimately show ?thesis using primary perm by blast
qed

end
