(* ===== verification/Out_Identity.thy ===== *)
theory Out_Identity
  imports Out_Types Bytes
begin

text \<open>
  Stable identifiers of outputs and modes (\<open>output/model/identity.hpp\<close>, \<open>output/model/identity.cpp\<close>)
  and the rules of a single fixed DRM output (\<open>output/model/drm_configuration.hpp\<close>,
  \<open>output/model/drm_configuration.cpp\<close>). A \<open>std::string_view\<close> is a \<open>string\<close>, whose characters are bytes.
\<close>

section \<open>The stable hash\<close>

definition string_bytes :: "string \<Rightarrow> u8 list" where
  "string_bytes s = map of_char s"

definition hash_append :: "u64 \<Rightarrow> u8 list \<Rightarrow> u64" where
  "hash_append value bytes = fold (\<lambda>byte v. (v XOR ucast byte) * 1099511628211) bytes value"

definition big_bytes32 :: "u32 \<Rightarrow> u8 list" where
  "big_bytes32 v = [ucast (drop_bit 24 v), ucast (drop_bit 16 v), ucast (drop_bit 8 v), ucast v]"

definition append_u32 :: "u64 \<Rightarrow> u32 \<Rightarrow> u64" where
  "append_u32 hash v = hash_append hash (big_bytes32 v)"

definition append_u64 :: "u64 \<Rightarrow> u64 \<Rightarrow> u64" where
  "append_u64 hash v = append_u32 (append_u32 hash (ucast (drop_bit 32 v))) (ucast v)"

definition append_sized :: "u64 \<Rightarrow> string \<Rightarrow> u64 option" where
  "append_sized hash s =
     (if length s > 4294967295 then None
      else Some (hash_append (append_u32 hash (word_of_nat (length s))) (string_bytes s)))"

definition kOutputIdentityNamespace :: u64 where
  "kOutputIdentityNamespace = push_bit 63 1"

definition kModeIdentityNamespace :: u64 where
  "kModeIdentityNamespace = push_bit 62 1"

definition output_identity :: "u64 \<Rightarrow> u64" where
  "output_identity hash = hash OR kOutputIdentityNamespace"

definition mode_identity :: "u64 \<Rightarrow> u64" where
  "mode_identity hash = (hash AND NOT kOutputIdentityNamespace) OR kModeIdentityNamespace"

section \<open>Identifiers\<close>

definition derive_headless_output_id :: "string \<Rightarrow> u64 option" where
  "derive_headless_output_id name =
     (if name = [] \<or> length name > 63 then None
      else let hash = hash_append hash_basis (string_bytes ''glasswyrm:headless:'');
               hash' = hash_append hash (string_bytes name)
           in Some (output_identity hash'))"

record drm_identity_input =
  di_device_identity :: string
  di_connector_identity :: string
  di_edid_digest :: "u8 list"

record derived_output_identity =
  doi_id :: u64
  doi_edid_participated :: bool

definition derive_drm_output_id :: "drm_identity_input \<Rightarrow> derived_output_identity option" where
  "derive_drm_output_id input =
     (if di_device_identity input = [] \<or> di_connector_identity input = [] \<or>
         length (di_device_identity input) > 4294967295 \<or> length (di_connector_identity input) > 4294967295 \<or>
         length (di_edid_digest input) > 4294967295 then None
      else let hash = hash_append hash_basis (string_bytes ''glasswyrm:drm:'')
           in case append_sized hash (di_device_identity input) of
                None \<Rightarrow> None
              | Some hash1 \<Rightarrow>
                  (case append_sized hash1 (di_connector_identity input) of
                     None \<Rightarrow> None
                   | Some hash2 \<Rightarrow>
                       let hash3 = append_u32 hash2 (word_of_nat (length (di_edid_digest input)));
                           hash4 = hash_append hash3 (di_edid_digest input)
                       in Some \<lparr>doi_id = output_identity hash4, doi_edid_participated = di_edid_digest input \<noteq> []\<rparr>))"

definition derive_output_mode_id :: "u64 \<Rightarrow> u32 \<Rightarrow> u32 \<Rightarrow> u32 \<Rightarrow> u32 \<Rightarrow> string \<Rightarrow> u64 option" where
  "derive_output_mode_id output_id physical_width physical_height refresh_millihertz flags name =
     (if output_id = 0 \<or> physical_width = 0 \<or> physical_height = 0 \<or> refresh_millihertz = 0 \<or>
         name = [] \<or> length name > 63 then None
      else let hash = hash_append hash_basis (string_bytes ''glasswyrm:mode:'');
               hash1 = append_u64 hash output_id;
               hash2 = append_u32 hash1 physical_width;
               hash3 = append_u32 hash2 physical_height;
               hash4 = append_u32 hash3 refresh_millihertz;
               hash5 = append_u32 hash4 flags
           in case append_sized hash5 name of
                None \<Rightarrow> None
              | Some hash6 \<Rightarrow> Some (mode_identity hash6))"

text \<open>The double loop: no zero identifier, and no identifier equal to an earlier one.\<close>

fun identities_unique_from :: "u64 list \<Rightarrow> u64 list \<Rightarrow> bool" where
  "identities_unique_from prior [] = True"
| "identities_unique_from prior (identity # rest) =
     (if identity = 0 then False
      else if identity \<in> set prior then False
      else identities_unique_from (prior @ [identity]) rest)"

definition output_identities_are_unique :: "u64 list \<Rightarrow> bool" where
  "output_identities_are_unique identities = identities_unique_from [] identities"

definition mode_identities_are_unique :: "u64 list \<Rightarrow> bool" where
  "mode_identities_are_unique identities = identities_unique_from [] identities"

section \<open>A single fixed DRM output\<close>

datatype drm_configuration_error =
    DCE_None | DCE_NotSingleFixedOutput | DCE_OutputIdentityChanged | DCE_PhysicalModeChanged
  | DCE_LogicalPositionChanged | DCE_PrimaryStateChanged | DCE_EnabledStateChanged

definition is_single_fixed_drm_output_profile :: "output_layout \<Rightarrow> bool" where
  "is_single_fixed_drm_output_profile layout =
     (if map_size (ol_descriptors layout) \<noteq> 1 \<or> map_size (ol_states layout) \<noteq> 1 \<or> length (ol_output_order layout) \<noteq> 1
      then False
      else let oid = hd (ol_output_order layout)
           in case (RBT.lookup (ol_descriptors layout) oid, RBT.lookup (ol_states layout) oid) of
                (Some descriptor, Some state) \<Rightarrow>
                  od_id descriptor = oid \<and> os_output_id state = oid \<and> od_kind descriptor = OK_Drm \<and>
                  \<not> od_mode_configurable descriptor \<and> od_scale_configurable descriptor \<and> od_transform_configurable descriptor
              | _ \<Rightarrow> False)"

text \<open>\<open>None\<close> is an \<open>at\<close> on a missing key.\<close>

definition validate_single_fixed_drm_configuration ::
    "output_layout \<Rightarrow> output_layout \<Rightarrow> drm_configuration_error option" where
  "validate_single_fixed_drm_configuration committed candidate =
     (if \<not> is_single_fixed_drm_output_profile committed \<or> \<not> is_single_fixed_drm_output_profile candidate
      then Some DCE_NotSingleFixedOutput
      else let committed_id = hd (ol_output_order committed); candidate_id = hd (ol_output_order candidate)
           in if committed_id \<noteq> candidate_id then Some DCE_OutputIdentityChanged
              else case (RBT.lookup (ol_states committed) committed_id, RBT.lookup (ol_states candidate) candidate_id) of
                     (Some before, Some after) \<Rightarrow>
                       if os_mode_id before \<noteq> os_mode_id after \<or> os_physical_width before \<noteq> os_physical_width after \<or>
                          os_physical_height before \<noteq> os_physical_height after \<or>
                          os_refresh_millihertz before \<noteq> os_refresh_millihertz after
                       then Some DCE_PhysicalModeChanged
                       else if os_logical_x before \<noteq> os_logical_x after \<or> os_logical_y before \<noteq> os_logical_y after
                       then Some DCE_LogicalPositionChanged
                       else if os_primary before \<noteq> os_primary after \<or>
                               ol_primary_output_id committed \<noteq> ol_primary_output_id candidate
                       then Some DCE_PrimaryStateChanged
                       else if os_enabled before \<noteq> os_enabled after then Some DCE_EnabledStateChanged
                       else Some DCE_None
                   | _ \<Rightarrow> None)"

fun drm_configuration_error_name :: "drm_configuration_error \<Rightarrow> string" where
  "drm_configuration_error_name DCE_None = ''none''"
| "drm_configuration_error_name DCE_NotSingleFixedOutput = ''not-single-fixed-output''"
| "drm_configuration_error_name DCE_OutputIdentityChanged = ''output-identity-changed''"
| "drm_configuration_error_name DCE_PhysicalModeChanged = ''physical-mode-changed''"
| "drm_configuration_error_name DCE_LogicalPositionChanged = ''logical-position-changed''"
| "drm_configuration_error_name DCE_PrimaryStateChanged = ''primary-state-changed''"
| "drm_configuration_error_name DCE_EnabledStateChanged = ''enabled-state-changed''"

section \<open>The hashed streams\<close>

lemma hash_append_bytes: "hash_append h bs = hash_bytes h bs"
  by (simp add: hash_append_def hash_bytes_def hash_byte_def)

definition sized_stream :: "string \<Rightarrow> u8 list" where
  "sized_stream s = big_bytes32 (word_of_nat (length s)) @ string_bytes s"

text \<open>The bytes hashed for a DRM output and for a mode.\<close>

definition drm_stream :: "drm_identity_input \<Rightarrow> u8 list" where
  "drm_stream i = string_bytes ''glasswyrm:drm:'' @ sized_stream (di_device_identity i) @
     sized_stream (di_connector_identity i) @ big_bytes32 (word_of_nat (length (di_edid_digest i))) @ di_edid_digest i"

definition mode_stream :: "u64 \<Rightarrow> u32 \<Rightarrow> u32 \<Rightarrow> u32 \<Rightarrow> u32 \<Rightarrow> string \<Rightarrow> u8 list" where
  "mode_stream oid w h r f name = string_bytes ''glasswyrm:mode:'' @ big_bytes32 (ucast (drop_bit 32 oid)) @ big_bytes32 (ucast oid) @
     big_bytes32 w @ big_bytes32 h @ big_bytes32 r @ big_bytes32 f @ sized_stream name"

lemma derive_drm_stream:
  assumes "derive_drm_output_id i = Some r"
  shows "doi_id r = output_identity (hash_bytes hash_basis (drm_stream i))"
  using assms
  by (auto simp: derive_drm_output_id_def append_sized_def append_u32_def hash_append_bytes drm_stream_def
      sized_stream_def Let_def simp del: hash_bytes_simps(2) split: if_splits)

lemma big_bytes32_inject: "big_bytes32 v = big_bytes32 w \<longleftrightarrow> v = w"
proof
  assume b: "big_bytes32 v = big_bytes32 w"
  have "little_bytes 4 u = rev (big_bytes32 u)" for u :: u32
    by (simp add: big_bytes32_def numeral_eq_Suc drop_bit_drop_bit)
  with b have "little_bytes 4 v = little_bytes 4 w" by simp
  then show "v = w" by (subst (asm) little_bytes_inject) simp_all
qed simp

lemma string_bytes_inject: "string_bytes s = string_bytes t \<longleftrightarrow> s = t"
proof -
  have "inj (of_char :: char \<Rightarrow> u8)"
  proof (rule injI)
    fix c d :: char
    assume "(of_char c :: u8) = of_char d"
    then have "unat (of_char c :: u8) = unat (of_char d :: u8)" by simp
    moreover have "unat (of_char e :: u8) = of_char e" for e :: char
    proof -
      have "(of_char e :: nat) < 256" by (rule char_of_char [THEN subst]) simp
      moreover have "(of_char e :: u8) = word_of_nat (of_char e)" by (simp add: of_nat_of_char)
      ultimately show ?thesis by (simp add: unsigned_of_nat take_bit_nat_eq_self)
    qed
    ultimately show "c = d" by (metis char_of_char)
  qed
  then show ?thesis by (simp add: string_bytes_def inj_map_eq_map)
qed

lemma length_big_bytes32 [simp]: "length (big_bytes32 v) = 4"
  by (simp add: big_bytes32_def)

lemma word_of_length_inject:
  "m \<le> 4294967295 \<Longrightarrow> n \<le> 4294967295 \<Longrightarrow> (word_of_nat m :: u32) = word_of_nat n \<longleftrightarrow> m = n"
  by (simp add: word_of_nat_eq_iff take_bit_nat_eq_self)

text \<open>A sized string followed by more bytes determines the string and the rest.\<close>

lemma sized_stream_inject:
  assumes "length s \<le> 4294967295" "length t \<le> 4294967295"
  shows "sized_stream s @ xs = sized_stream t @ ys \<longleftrightarrow> s = t \<and> xs = ys"
proof
  assume "sized_stream s @ xs = sized_stream t @ ys"
  then have "big_bytes32 (word_of_nat (length s)) = big_bytes32 (word_of_nat (length t))"
    and r: "string_bytes s @ xs = string_bytes t @ ys"
    by (simp_all add: sized_stream_def append_eq_append_conv)
  then have "length s = length t" using assms by (simp add: big_bytes32_inject word_of_length_inject)
  with r show "s = t \<and> xs = ys" by (simp add: string_bytes_def append_eq_append_conv flip: string_bytes_inject)
qed simp

lemma output_identity_bit: "bit (output_identity x) 63"
  by (simp add: output_identity_def kOutputIdentityNamespace_def bit_simps)

lemma output_identity_nonzero: "output_identity x \<noteq> 0"
  using output_identity_bit [of x] by (metis bit_0_eq bot_apply bot_bool_def)

section \<open>Properties\<close>

text \<open>
  The identifiers of outputs and of modes live in disjoint non-zero spaces: an output identifier
  has bit 63, a mode identifier has bit 62 and not bit 63.
\<close>

lemma identity_namespaces_disjoint:
  assumes "derive_headless_output_id name = Some a \<or> (\<exists>r. derive_drm_output_id input = Some r \<and> a = doi_id r)"
    and "derive_output_mode_id oid w h refresh flags mode_name = Some b"
  shows "a \<noteq> b \<and> a \<noteq> 0 \<and> b \<noteq> 0 \<and> bit a 63 \<and> \<not> bit b 63 \<and> bit b 62"
proof -
  have m: "\<not> bit (mode_identity x) 63" "bit (mode_identity x) 62" for x
    by (simp_all add: mode_identity_def kOutputIdentityNamespace_def kModeIdentityNamespace_def bit_simps)
  have "bit a 63"
    using assms(1) derive_drm_stream output_identity_bit by (auto simp: derive_headless_output_id_def Let_def split: if_splits)
  moreover have "\<not> bit b 63" "bit b 62"
    using assms(2) m by (auto simp: derive_output_mode_id_def Let_def split: if_splits option.splits)
  ultimately show ?thesis by auto
qed

text \<open>
  The identifier of a DRM output is the namespaced hash of a byte stream that determines the
  device, the connector and the EDID digest: two different connectors never hash the same bytes.
\<close>

lemma drm_identity_framing:
  assumes "derive_drm_output_id i = Some r" "derive_drm_output_id j = Some t"
  shows "doi_id r = output_identity (hash_bytes hash_basis (drm_stream i)) \<and> (drm_stream i = drm_stream j \<longleftrightarrow> i = j)"
proof -
  have b: "length (di_device_identity i) \<le> 4294967295" "length (di_connector_identity i) \<le> 4294967295"
    "length (di_edid_digest i) \<le> 4294967295" "length (di_device_identity j) \<le> 4294967295"
    "length (di_connector_identity j) \<le> 4294967295" "length (di_edid_digest j) \<le> 4294967295"
    using assms by (auto simp: derive_drm_output_id_def split: if_splits)
  have "i = j" if "drm_stream i = drm_stream j"
    using that unfolding drm_stream_def
    by (cases i; cases j) (use b in \<open>simp add: sized_stream_inject big_bytes32_inject append_eq_append_conv\<close>)
  with derive_drm_stream [OF assms(1)] show ?thesis by blast
qed

text \<open>
  A reconfiguration of a single fixed DRM output is checked without an exception, and when it is
  accepted the output, its mode, position, primary and enabled state are those already committed: only
  scale, transform and the derived logical size can differ.
\<close>

lemma drm_reconfiguration_fixed:
  "\<exists>e. validate_single_fixed_drm_configuration a b = Some e \<and>
     (e = DCE_None \<longleftrightarrow>
       is_single_fixed_drm_output_profile a \<and> is_single_fixed_drm_output_profile b \<and>
       ol_output_order a = ol_output_order b \<and> ol_primary_output_id a = ol_primary_output_id b \<and>
       (\<exists>oid s t. ol_output_order a = [oid] \<and> RBT.lookup (ol_states a) oid = Some s \<and> RBT.lookup (ol_states b) oid = Some t \<and>
         os_mode_id s = os_mode_id t \<and> os_physical_width s = os_physical_width t \<and>
         os_physical_height s = os_physical_height t \<and> os_refresh_millihertz s = os_refresh_millihertz t \<and>
         os_logical_x s = os_logical_x t \<and> os_logical_y s = os_logical_y t \<and>
         os_primary s = os_primary t \<and> os_enabled s = os_enabled t))"
proof -
  have profile: "\<exists>oid s. ol_output_order l = [oid] \<and> RBT.lookup (ol_states l) oid = Some s"
    if "is_single_fixed_drm_output_profile l" for l
    using that by (auto simp: is_single_fixed_drm_output_profile_def Let_def length_Suc_conv split: if_splits option.splits)
  show ?thesis
  proof (cases "is_single_fixed_drm_output_profile a \<and> is_single_fixed_drm_output_profile b")
    case True
    then obtain i s j t where "ol_output_order a = [i]" "RBT.lookup (ol_states a) i = Some s"
        "ol_output_order b = [j]" "RBT.lookup (ol_states b) j = Some t"
      using profile by meson
    with True show ?thesis by (auto simp: validate_single_fixed_drm_configuration_def)
  next
    case False
    then show ?thesis by (auto simp: validate_single_fixed_drm_configuration_def)
  qed
qed

end
