(* ===== verification/Damage.thy ===== *)
theory Damage
  imports Geometry
begin

text \<open>
  The compositor's rectangle algebra (\<open>compositor/rectangle\<close>) and the damage region that
  collects what must be repainted (\<open>compositor/damage_region\<close>). Unlike the core library, every
  operation here first checks that the right and bottom edges are 32-bit coordinates. The
  damage lemmas say that collected damage is conservative (no requested pixel is lost), stays
  inside the output, and is a bounded list of pairwise non-mergeable rectangles.
\<close>

section \<open>The compositor's rectangles\<close>

type_synonym comp_rectangle = rectangle

definition coordinate_fits :: "int \<Rightarrow> bool" where
  "coordinate_fits v \<longleftrightarrow> int32_min \<le> v \<and> v \<le> int32_max"

definition has_valid_extents :: "comp_rectangle \<Rightarrow> bool" where
  "has_valid_extents r \<longleftrightarrow> coordinate_fits (right_edge r) \<and> coordinate_fits (bottom_edge r)"

definition intersection :: "comp_rectangle \<Rightarrow> comp_rectangle \<Rightarrow> comp_rectangle option" where
  "intersection left right =
     (if rect_empty left \<or> rect_empty right \<or> \<not> has_valid_extents left \<or> \<not> has_valid_extents right
      then None
      else let x1 = max (sint (rect_x left)) (sint (rect_x right));
               y1 = max (sint (rect_y left)) (sint (rect_y right));
               x2 = min (right_edge left) (right_edge right);
               y2 = min (bottom_edge left) (bottom_edge right)
           in if x1 \<ge> x2 \<or> y1 \<ge> y2 then None
              else Some (make_rectangle (i32_of x1) (i32_of y1) (u32_of (x2 - x1)) (u32_of (y2 - y1))))"

definition translate :: "comp_rectangle \<Rightarrow> i32 \<Rightarrow> i32 \<Rightarrow> comp_rectangle option" where
  "translate r dx dy =
     (if \<not> has_valid_extents r then None
      else let new_x = sint (rect_x r) + sint dx;
               new_y = sint (rect_y r) + sint dy;
               new_right = right_edge r + sint dx;
               new_bottom = bottom_edge r + sint dy
           in if \<not> coordinate_fits new_x \<or> \<not> coordinate_fits new_y \<or>
                 \<not> coordinate_fits new_right \<or> \<not> coordinate_fits new_bottom then None
              else Some (make_rectangle (i32_of new_x) (i32_of new_y) (rect_width r) (rect_height r)))"

definition overlaps_or_is_compatibly_adjacent :: "comp_rectangle \<Rightarrow> comp_rectangle \<Rightarrow> bool" where
  "overlaps_or_is_compatibly_adjacent left other =
     (if rect_empty left \<or> rect_empty other \<or> \<not> has_valid_extents left \<or> \<not> has_valid_extents other
      then False
      else let overlaps = sint (rect_x left) < right_edge other \<and> sint (rect_x other) < right_edge left \<and>
                          sint (rect_y left) < bottom_edge other \<and> sint (rect_y other) < bottom_edge left;
               horizontal = rect_y left = rect_y other \<and> rect_height left = rect_height other \<and>
                            right_edge left \<ge> sint (rect_x other) \<and> right_edge other \<ge> sint (rect_x left);
               vertical = rect_x left = rect_x other \<and> rect_width left = rect_width other \<and>
                          bottom_edge left \<ge> sint (rect_y other) \<and> bottom_edge other \<ge> sint (rect_y left)
           in overlaps \<or> horizontal \<or> vertical)"

definition bounding_union :: "comp_rectangle \<Rightarrow> comp_rectangle \<Rightarrow> comp_rectangle option" where
  "bounding_union left other =
     (if \<not> has_valid_extents left \<or> \<not> has_valid_extents other then None
      else if rect_empty left then Some other
      else if rect_empty other then Some left
      else let x1 = min (sint (rect_x left)) (sint (rect_x other));
               y1 = min (sint (rect_y left)) (sint (rect_y other));
               x2 = max (right_edge left) (right_edge other);
               y2 = max (bottom_edge left) (bottom_edge other)
           in if \<not> coordinate_fits x1 \<or> \<not> coordinate_fits y1 \<or>
                 \<not> coordinate_fits x2 \<or> \<not> coordinate_fits y2 then None
              else Some (make_rectangle (i32_of x1) (i32_of y1) (u32_of (x2 - x1)) (u32_of (y2 - y1))))"

section \<open>The damage region\<close>

record damage_region =
  output_bounds :: comp_rectangle
  damage_rectangles :: "comp_rectangle list"
  full_output :: bool

definition maximum_rectangles :: nat where
  "maximum_rectangles = 4096"

definition make_damage_region :: "comp_rectangle \<Rightarrow> damage_region" where
  "make_damage_region b = \<lparr>output_bounds = b, damage_rectangles = [], full_output = False\<rparr>"

definition add_full_output :: "damage_region \<Rightarrow> damage_region" where
  "add_full_output d =
     d\<lparr>damage_rectangles :=
         (if \<not> rect_empty (output_bounds d) \<and> has_valid_extents (output_bounds d)
          then [output_bounds d] else []),
       full_output := True\<rparr>"

text \<open>
  The scan of \<open>DamageRegion::add\<close>. A rectangle that can be coalesced with the candidate is
  joined and erased and the scan restarts; \<open>None\<close> is the exit through \<open>add_full_output\<close>.
\<close>

function damage_merge ::
  "comp_rectangle \<Rightarrow> comp_rectangle list \<Rightarrow> nat \<Rightarrow> (comp_rectangle \<times> comp_rectangle list) option" where
  "damage_merge candidate rs index =
     (if index < length rs then
        (if \<not> overlaps_or_is_compatibly_adjacent candidate (rs ! index)
         then damage_merge candidate rs (Suc index)
         else (case bounding_union candidate (rs ! index) of
                 None \<Rightarrow> None
               | Some united \<Rightarrow> damage_merge united (take index rs @ drop (Suc index) rs) 0))
      else Some (candidate, rs))"
  by pat_completeness auto
termination
  by (relation "measures [\<lambda>(c, rs, i). length rs, \<lambda>(c, rs, i). length rs - i]") auto

declare damage_merge.simps [simp del]

definition normalize :: "damage_region \<Rightarrow> damage_region" where
  "normalize d = d\<lparr>damage_rectangles := sort_key rect_key (damage_rectangles d)\<rparr>"

definition damage_add :: "damage_region \<Rightarrow> comp_rectangle \<Rightarrow> damage_region" where
  "damage_add d r =
     (if full_output d then d
      else (case intersection r (output_bounds d) of
              None \<Rightarrow> d
            | Some clipped \<Rightarrow>
                (case damage_merge clipped (damage_rectangles d) 0 of
                   None \<Rightarrow> add_full_output d
                 | Some (candidate, rs) \<Rightarrow>
                     (if length (rs @ [candidate]) > maximum_rectangles then add_full_output d
                      else normalize (d\<lparr>damage_rectangles := rs @ [candidate]\<rparr>)))))"

section \<open>The operations on pixels\<close>

text \<open>With valid extents the compositor's intersection is the one of the core library.\<close>

lemma intersection_intersect:
  "intersection a b =
     (if has_valid_extents a \<and> has_valid_extents b then intersect a b else None)"
proof (cases "rect_empty a \<or> rect_empty b")
  case True
  then have "intersect a b = None"
    by (auto simp: intersect_None_iff rect_pts_def rect_empty_def right_edge_def bottom_edge_def)
  with True show ?thesis by (auto simp: intersection_def)
next
  case False
  then show ?thesis by (auto simp: intersection_def intersect_def Let_def)
qed

lemma intersection_pts:
  assumes "has_valid_extents a" "has_valid_extents b"
  shows "(case intersection a b of None \<Rightarrow> {} | Some c \<Rightarrow> rect_pts c) = rect_pts a \<inter> rect_pts b"
  using assms intersect_None_iff [of a b] intersect_pts(1) [of a b]
  by (auto simp: intersection_intersect split: option.splits)

lemma translate_pts:
  assumes "translate r dx dy = Some t"
  shows "rect_pts t = (\<lambda>(px, py). (px + sint dx, py + sint dy)) ` rect_pts r"
    and "has_valid_extents t"
proof -
  from assms have t: "t = make_rectangle (i32_of (sint (rect_x r) + sint dx))
      (i32_of (sint (rect_y r) + sint dy)) (rect_width r) (rect_height r)"
    and f: "coordinate_fits (sint (rect_x r) + sint dx)" "coordinate_fits (sint (rect_y r) + sint dy)"
      "coordinate_fits (right_edge r + sint dx)" "coordinate_fits (bottom_edge r + sint dy)"
    by (auto simp: translate_def Let_def split: if_splits)
  have s: "sint (rect_x t) = sint (rect_x r) + sint dx" "sint (rect_y t) = sint (rect_y r) + sint dy"
    using f by (auto simp: t make_rectangle_def coordinate_fits_def intro!: sint_i32_of)
  then have e: "right_edge t = right_edge r + sint dx" "bottom_edge t = bottom_edge r + sint dy"
    by (simp_all add: right_edge_def bottom_edge_def) (simp_all add: t make_rectangle_def)
  show "has_valid_extents t" using f by (simp add: has_valid_extents_def e)
  have "p \<in> (\<lambda>(px, py). (px + sint dx, py + sint dy)) ` rect_pts r" if "p \<in> rect_pts t" for p
    using that by (intro image_eqI [of _ _ "(fst p - sint dx, snd p - sint dy)"])
      (auto simp: rect_pts_def s e)
  then show "rect_pts t = (\<lambda>(px, py). (px + sint dx, py + sint dy)) ` rect_pts r"
    by (auto simp: rect_pts_def s e)
qed

text \<open>A rectangle the damage region may hold: inside the output, whose edges are coordinates.\<close>

definition damage_ok_in :: "comp_rectangle \<Rightarrow> comp_rectangle \<Rightarrow> bool" where
  "damage_ok_in b r \<longleftrightarrow> has_valid_extents b \<and> rect_within b r"

lemma within_valid: "has_valid_extents b \<Longrightarrow> rect_within b r \<Longrightarrow> has_valid_extents r"
  using nonempty_edges [of r] sint32_range [of "rect_x r"] sint32_range [of "rect_y r"]
  by (auto simp: has_valid_extents_def coordinate_fits_def rect_within_def)

lemma bounding_union_bounds:
  assumes "damage_ok_in b l" "damage_ok_in b r"
  shows "bounding_union l r = Some (rect_bounds l r)"
proof -
  have v: "has_valid_extents l" "has_valid_extents r" "\<not> rect_empty l" "\<not> rect_empty r"
    using assms within_valid by (auto simp: damage_ok_in_def rect_within_def)
  then show ?thesis
    using sint32_range [of "rect_x l"] sint32_range [of "rect_x r"]
      sint32_range [of "rect_y l"] sint32_range [of "rect_y r"]
    by (auto simp: bounding_union_def rect_bounds_def Let_def has_valid_extents_def coordinate_fits_def)
qed

interpretation dmg: rect_join rect_pts bounding_union "damage_ok_in b" for b
  by unfold_locales
     (auto simp: bounding_union_bounds damage_ok_in_def dest: rect_bounds_within)

section \<open>Collected damage is conservative\<close>

abbreviation mergeable :: "comp_rectangle \<Rightarrow> comp_rectangle \<Rightarrow> bool" where
  "mergeable \<equiv> overlaps_or_is_compatibly_adjacent"

lemma mergeable_sym: "mergeable a b \<Longrightarrow> mergeable b a"
  by (auto simp: overlaps_or_is_compatibly_adjacent_def Let_def split: if_splits)

lemma erase_index:
  assumes "i < length rs"
  defines "rs' \<equiv> take i rs @ drop (Suc i) rs"
  shows "mset rs = add_mset (rs ! i) (mset rs')"
    and "sorted_wrt R rs \<Longrightarrow> sorted_wrt R rs'"
proof -
  have rs: "rs = take i rs @ rs ! i # drop (Suc i) rs" using assms(1) by (rule id_take_nth_drop)
  show "mset rs = add_mset (rs ! i) (mset rs')" by (subst rs) (simp add: rs'_def)
  show "sorted_wrt R rs'" if "sorted_wrt R rs"
    using that unfolding rs'_def by (subst (asm) rs) (simp add: sorted_wrt_append)
qed

text \<open>
  The scan always finishes with a candidate: the join of rectangles inside the output cannot
  fail. The result covers what went in, and the candidate meets none of what is left.
\<close>

lemma damage_merge_covers:
  assumes "damage_ok_in b c" "\<forall>r \<in> set rs. damage_ok_in b r" "sorted_wrt R rs"
    and "\<forall>i < index. i < length rs \<longrightarrow> \<not> mergeable c (rs ! i)"
  shows "\<exists>c' rs'. damage_merge c rs index = Some (c', rs') \<and>
           (\<forall>r \<in> set (c' # rs'). damage_ok_in b r) \<and> sorted_wrt R rs' \<and>
           region_pts (c # rs) \<subseteq> region_pts (c' # rs') \<and>
           (\<forall>r \<in> set rs'. \<not> mergeable c' r)"
  using assms
proof (induction c rs index rule: damage_merge.induct)
  case (1 c rs index)
  show ?case
  proof (cases "index < length rs")
    case False
    with "1.prems" show ?thesis
      by (auto simp: damage_merge.simps [of c rs index] in_set_conv_nth)
  next
    case in_range: True
    show ?thesis
    proof (cases "mergeable c (rs ! index)")
      case False
      have "\<forall>i < Suc index. i < length rs \<longrightarrow> \<not> mergeable c (rs ! i)"
        using "1.prems"(4) False by (auto simp: less_Suc_eq)
      with "1.IH"(1) [OF in_range False "1.prems"(1,2,3)] in_range False show ?thesis
        by (simp add: damage_merge.simps [of c rs index])
    next
      case True
      let ?rs = "take index rs @ drop (Suc index) rs"
      have "damage_ok_in b (rs ! index)" using "1.prems"(2) in_range by simp
      with "1.prems"(1) have u: "bounding_union c (rs ! index) = Some (rect_bounds c (rs ! index))"
        by (rule bounding_union_bounds)
      note e = erase_index [OF in_range]
      have ok: "\<forall>r \<in> set (rect_bounds c (rs ! index) # ?rs). damage_ok_in b r"
        and sub: "region_pts (c # rs) \<subseteq> region_pts (rect_bounds c (rs ! index) # ?rs)"
        using dmg.replace_pair [OF _ _ _ u, of "c # rs" "mset ?rs" "rect_bounds c (rs ! index) # ?rs" b]
          e(1) "1.prems"(1,2) by simp_all
      from "1.IH"(2) [OF in_range _ u] True ok e(2) [OF "1.prems"(3)] obtain c' rs' where
        "damage_merge (rect_bounds c (rs ! index)) ?rs 0 = Some (c', rs')"
        "\<forall>r \<in> set (c' # rs'). damage_ok_in b r" "sorted_wrt R rs'"
        "region_pts (rect_bounds c (rs ! index) # ?rs) \<subseteq> region_pts (c' # rs')"
        "\<forall>r \<in> set rs'. \<not> mergeable c' r" by auto
      moreover have "damage_merge c rs index = damage_merge (rect_bounds c (rs ! index)) ?rs 0"
        using in_range True u by (simp add: damage_merge.simps [of c rs index])
      ultimately show ?thesis using subset_trans [OF sub] by (intro exI [of _ c'] exI [of _ rs']) simp
    qed
  qed
qed

definition damage_ok :: "damage_region \<Rightarrow> bool" where
  "damage_ok d \<longleftrightarrow>
     (if full_output d
      then region_pts (damage_rectangles d) =
             (if has_valid_extents (output_bounds d) then rect_pts (output_bounds d) else {})
      else sorted (map rect_key (damage_rectangles d))) \<and>
     (\<forall>r \<in> set (damage_rectangles d). damage_ok_in (output_bounds d) r) \<and>
     sorted_wrt (\<lambda>r s. \<not> mergeable r s) (damage_rectangles d) \<and>
     length (damage_rectangles d) \<le> maximum_rectangles"

lemma damage_ok_make: "damage_ok (make_damage_region b)"
  by (simp add: damage_ok_def make_damage_region_def)

lemma rect_empty_pts: "rect_empty r \<Longrightarrow> rect_pts r = {}"
  by (auto simp: rect_empty_def rect_pts_def right_edge_def bottom_edge_def)

lemma add_full_output_ok: "damage_ok (add_full_output d)"
  by (auto simp: damage_ok_def add_full_output_def damage_ok_in_def rect_within_def
      maximum_rectangles_def rect_empty_pts)

lemma damage_add_cases:
  assumes "damage_ok d"
  obtains (ignored) "damage_add d r = d"
      "full_output d \<or> intersection r (output_bounds d) = None"
  | (overflow) "damage_add d r = add_full_output d" "has_valid_extents (output_bounds d)"
  | (merged) c c' rs' where "intersection r (output_bounds d) = Some c"
      "damage_add d r = normalize (d\<lparr>damage_rectangles := rs' @ [c']\<rparr>)"
      "\<not> full_output d" "length rs' < maximum_rectangles"
      "\<forall>r \<in> set (c' # rs'). damage_ok_in (output_bounds d) r"
      "sorted_wrt (\<lambda>r s. \<not> mergeable r s) (c' # rs')"
      "region_pts (c # damage_rectangles d) \<subseteq> region_pts (c' # rs')"
proof (cases "full_output d \<or> intersection r (output_bounds d) = None")
  case True
  then show ?thesis by (intro ignored) (auto simp: damage_add_def)
next
  case False
  then obtain c where c: "intersection r (output_bounds d) = Some c" by blast
  then have valid: "has_valid_extents (output_bounds d)" and
      i: "intersect r (output_bounds d) = Some c"
    by (auto simp: intersection_intersect split: if_splits)
  have "intersect (output_bounds d) r = Some c"
    using i by (simp add: intersect_def Let_def max.commute min.commute split: if_splits)
  then have "damage_ok_in (output_bounds d) c"
    using valid by (simp add: damage_ok_in_def intersect_within)
  moreover have "\<forall>r \<in> set (damage_rectangles d). damage_ok_in (output_bounds d) r"
    "sorted_wrt (\<lambda>r s. \<not> mergeable r s) (damage_rectangles d)"
    using assms by (simp_all add: damage_ok_def)
  ultimately obtain c' rs' where m: "damage_merge c (damage_rectangles d) 0 = Some (c', rs')"
    "\<forall>r \<in> set (c' # rs'). damage_ok_in (output_bounds d) r"
    "sorted_wrt (\<lambda>r s. \<not> mergeable r s) rs'" "\<forall>r \<in> set rs'. \<not> mergeable c' r"
    "region_pts (c # damage_rectangles d) \<subseteq> region_pts (c' # rs')"
    using damage_merge_covers [of "output_bounds d" c "damage_rectangles d"
        "\<lambda>r s. \<not> mergeable r s" 0] by auto
  show ?thesis
  proof (cases "length (rs' @ [c']) > maximum_rectangles")
    case True
    with False c m(1) valid show ?thesis by (intro overflow) (simp_all add: damage_add_def)
  next
    case small: False
    with False c m show ?thesis by (intro merged [of c rs' c']) (auto simp: damage_add_def)
  qed
qed

lemma damage_add_ok:
  assumes "damage_ok d"
  shows "damage_ok (damage_add d r)"
  using assms
proof (cases rule: damage_add_cases [of d r])
  case (merged c c' rs')
  have "sorted_wrt (\<lambda>r s. \<not> mergeable r s) (sort_key rect_key (rs' @ [c']))"
    by (rule sorted_wrt_perm [OF _ _ merged(6)]) (auto dest: mergeable_sym)
  then show ?thesis
    using merged by (auto simp: damage_ok_def normalize_def)
qed (use assms add_full_output_ok in auto)

text \<open>
  What an addition does to the pixels: everything recorded before and every requested pixel of
  the output is still recorded, and nothing outside the output ever is. The two hypotheses are
  the extents check that \<open>intersection\<close> makes before it looks at a rectangle.
\<close>

lemma damage_add_pts:
  assumes "damage_ok d" "has_valid_extents (output_bounds d)" "has_valid_extents r"
  shows "region_pts (damage_rectangles d) \<union> (rect_pts r \<inter> rect_pts (output_bounds d))
           \<subseteq> region_pts (damage_rectangles (damage_add d r))"
    and "region_pts (damage_rectangles (damage_add d r)) \<subseteq> rect_pts (output_bounds d)"
proof -
  let ?b = "output_bounds d"
  have b: "output_bounds (damage_add d r) = ?b"
    by (simp add: damage_add_def add_full_output_def normalize_def Let_def split: option.splits)
  show "region_pts (damage_rectangles (damage_add d r)) \<subseteq> rect_pts ?b"
    using damage_add_ok [OF assms(1), of r] rect_within_pts [of ?b]
    unfolding damage_ok_def damage_ok_in_def b by blast
  have old: "region_pts (damage_rectangles d) \<subseteq> rect_pts ?b"
    using assms(1) rect_within_pts [of ?b] unfolding damage_ok_def damage_ok_in_def by blast
  have clip: "(case intersection r ?b of None \<Rightarrow> {} | Some c \<Rightarrow> rect_pts c) = rect_pts r \<inter> rect_pts ?b"
    using assms(2,3) by (intro intersection_pts)
  show "region_pts (damage_rectangles d) \<union> (rect_pts r \<inter> rect_pts ?b)
          \<subseteq> region_pts (damage_rectangles (damage_add d r))"
    using assms(1)
  proof (cases rule: damage_add_cases [of d r])
    case ignored
    then show ?thesis
      using assms(1,2) clip by (auto simp: damage_ok_def split: if_splits)
  next
    case overflow
    have "region_pts (damage_rectangles (damage_add d r)) = rect_pts ?b"
      using overflow assms(2) by (auto simp: add_full_output_def rect_empty_pts)
    with old show ?thesis by auto
  next
    case (merged c c' rs')
    then have "rect_pts c = rect_pts r \<inter> rect_pts ?b" using clip by simp
    moreover have "region_pts (damage_rectangles (damage_add d r)) = region_pts (c' # rs')"
      using merged(2) by (simp add: normalize_def)
    ultimately show ?thesis using merged(7) by simp
  qed
qed

section \<open>Properties\<close>

text \<open>
  C14. Damage collection is conservative: adding a rectangle keeps all recorded damage and records
  every requested pixel of the output, records nothing outside the output, and leaves a list of
  at most 4096 rectangles none of which can still be coalesced with another.
\<close>

theorem damage_add_conservative:
  assumes "damage_ok d" "has_valid_extents (output_bounds d)" "has_valid_extents r"
  shows "damage_ok (damage_add d r) \<and>
     region_pts (damage_rectangles d) \<union> (rect_pts r \<inter> rect_pts (output_bounds d))
       \<subseteq> region_pts (damage_rectangles (damage_add d r)) \<and>
     region_pts (damage_rectangles (damage_add d r)) \<subseteq> rect_pts (output_bounds d)"
  using damage_add_ok [OF assms(1)] damage_add_pts [OF assms] by blast

theorem damage_add_conservative_witness:
  "let d = make_damage_region (make_rectangle 0 0 640 480); r = make_rectangle (-5) 10 20 20
   in damage_ok (damage_add d r) \<and> rect_pts r \<inter> rect_pts (output_bounds d)
        \<subseteq> region_pts (damage_rectangles (damage_add d r))"
proof -
  have "has_valid_extents (output_bounds (make_damage_region (make_rectangle 0 0 640 480)))"
    "has_valid_extents (make_rectangle (-5) 10 20 20)" by code_simp+
  from damage_add_conservative [OF damage_ok_make this] show ?thesis by (simp add: Let_def)
qed

end
