(* ===== verification/Scene_Types.thy ===== *)
theory Scene_Types
  imports Damage Out_Mapping Wm_Types
begin

text \<open>
  The records the compositor's scene is built from (\<open>glasswyrm/ipc/contracts.h\<close>,
  \<open>glasswyrm/ipc/lifecycle.h\<close>, \<open>glasswyrm/ipc/output.h\<close>, \<open>compositor/scene.hpp\<close>) and the validation of a scene
  (\<open>compositor/scene_validation.cpp\<close>). The \<open>struct_size\<close> and \<open>reserved\<close> members of the C structures are
  left out, a flag byte is a \<open>u8\<close> tested against zero, a pointer with a count is an optional list with
  the count.
\<close>

section \<open>Records\<close>

definition GWIPC_MAXIMUM_DAMAGE_RECTANGLES :: nat where
  "GWIPC_MAXIMUM_DAMAGE_RECTANGLES = 1024"

definition GWIPC_OPACITY_ONE :: u32 where
  "GWIPC_OPACITY_ONE = 65536"

definition GWIPC_SURFACE_PRESENTATION_METADATA_ONLY :: u32 where
  "GWIPC_SURFACE_PRESENTATION_METADATA_ONLY = 1"

definition GWIPC_SURFACE_PRESENTATION_CURSOR :: u32 where
  "GWIPC_SURFACE_PRESENTATION_CURSOR = 2"

definition GWIPC_MAXIMUM_OUTPUTS :: nat where
  "GWIPC_MAXIMUM_OUTPUTS = 8"

definition kMaximumSurfaces :: nat where
  "kMaximumSurfaces = 4096"

definition kMaximumCursorExtent :: u32 where
  "kMaximumCursorExtent = 64"

record output_upsert =
  ou_output_id :: u64
  ou_enabled :: u8
  ou_logical_x :: i32
  ou_logical_y :: i32
  ou_logical_width :: u32
  ou_logical_height :: u32
  ou_physical_pixel_width :: u32
  ou_physical_pixel_height :: u32
  ou_refresh_millihertz :: u32
  ou_scale_numerator :: u32
  ou_scale_denominator :: u32
  ou_transform :: transform
  ou_color :: sdr_metadata

record surface_upsert =
  su_surface_id :: u64
  su_x11_window_id :: u32
  su_parent_surface_id :: u64
  su_output_id :: u64
  su_logical_x :: i32
  su_logical_y :: i32
  su_logical_width :: u32
  su_logical_height :: u32
  su_stacking :: i32
  su_visible :: u8
  su_clipping :: u8
  su_clip_x :: i32
  su_clip_y :: i32
  su_clip_width :: u32
  su_clip_height :: u32
  su_transform :: transform
  su_opacity :: u32
  su_scale_numerator :: u32
  su_scale_denominator :: u32
  su_color :: sdr_metadata
  su_presentation_flags :: u32
  su_fullscreen_eligible :: tri_state
  su_direct_scanout_eligible :: tri_state

record surface_policy_upsert =
  sy_surface_id :: u64
  sy_x11_window_id :: u32
  sy_workspace_id :: u32
  sy_window_type :: window_type
  sy_applied_state :: applied_state
  sy_focused :: u8
  sy_managed :: u8
  sy_decoration_eligible :: u8
  sy_override_redirect :: u8
  sy_attention_requested :: u8
  sy_fullscreen_eligible :: tri_state
  sy_direct_scanout_eligible :: tri_state
  sy_flags :: u32

record surface_damage =
  sd_surface_id :: u64
  sd_rectangles :: "rectangle list option"
  sd_rectangle_count :: nat

datatype surface_scale_mode = Scale_Legacy | Scale_Scaled_Pixmap | Scale_Mode_Other u8

record surface_output_state =
  sos_surface_id :: u64
  sos_primary_output_id :: u64
  sos_output_ids :: "u64 list option"
  sos_output_count :: nat
  sos_preferred_scale_numerator :: u32
  sos_preferred_scale_denominator :: u32
  sos_client_buffer_scale :: u32
  sos_scale_mode :: surface_scale_mode
  sos_layout_generation :: u64
  sos_flags :: u32

record frame_commit =
  fc_commit_id :: u64
  fc_output_id :: u64
  fc_producer_generation :: u64
  fc_flags :: u32

datatype frame_result =
    FR_Accepted | FR_Rejected_Incomplete_Metadata | FR_Rejected_Invalid_Buffer
  | FR_Rejected_Unknown_Surface | FR_Dropped

text \<open>The elements a pointer and a count denote; a null pointer comes with count zero.\<close>

definition pointed :: "'a list option \<Rightarrow> nat \<Rightarrow> 'a list" where
  "pointed p n = (case p of None \<Rightarrow> [] | Some xs \<Rightarrow> take n xs)"

datatype scene_profile = Historical | OutputModel

record surface_output_membership =
  sm_primary_output_id :: u64
  sm_output_ids :: "u64 list"
  sm_preferred_scale_numerator :: u32
  sm_preferred_scale_denominator :: u32
  sm_client_buffer_scale :: u32
  sm_scale_mode :: surface_scale_mode
  sm_layout_generation :: u64
  sm_flags :: u32

record scene =
  scn_output :: "output_upsert option"
  scn_outputs :: "(u64, output_upsert) RBT.rbt"
  scn_surfaces :: "(u64, surface_upsert) RBT.rbt"
  scn_surface_policies :: "(u64, surface_policy_upsert) RBT.rbt"
  scn_surface_outputs :: "(u64, surface_output_membership) RBT.rbt"
  scn_primary_output_id :: u64
  scn_configuration_generation :: u64

definition empty_scene :: scene where
  "empty_scene = \<lparr>scn_output = None, scn_outputs = RBT.empty, scn_surfaces = RBT.empty, scn_surface_policies = RBT.empty,
     scn_surface_outputs = RBT.empty, scn_primary_output_id = 0, scn_configuration_generation = 0\<rparr>"

section \<open>Validation of one message\<close>

definition cursor_surface :: "surface_upsert \<Rightarrow> bool" where
  "cursor_surface surface \<longleftrightarrow> su_presentation_flags surface = GWIPC_SURFACE_PRESENTATION_CURSOR"

definition metadata_surface :: "surface_upsert \<Rightarrow> bool" where
  "metadata_surface surface \<longleftrightarrow> su_presentation_flags surface = GWIPC_SURFACE_PRESENTATION_METADATA_ONLY"

definition srgb :: "sdr_metadata \<Rightarrow> bool" where
  "srgb color \<longleftrightarrow> sdr_color_space color = Sdr_Srgb \<and> sdr_transfer_function color = Transfer_Srgb \<and>
     sdr_primaries color = Primaries_Srgb"

definition checked_extent :: "i32 \<Rightarrow> u32 \<Rightarrow> bool" where
  "checked_extent origin extent =
     (if extent = 0 then False
      else let end' = sint origin + uint extent in end' \<le> int32_max \<and> end' \<ge> int32_min)"

definition scene_valid_transform :: "transform \<Rightarrow> bool" where
  "scene_valid_transform t \<longleftrightarrow>
     transform_value t \<ge> transform_value Tr_Normal \<and> transform_value t \<le> transform_value Tr_Flipped270"

definition scene_transform_swaps_extents :: "transform \<Rightarrow> bool" where
  "scene_transform_swaps_extents t \<longleftrightarrow>
     t = Tr_Rotate90 \<or> t = Tr_Rotate270 \<or> t = Tr_Flipped90 \<or> t = Tr_Flipped270"

definition scene_valid_scale :: "u32 \<Rightarrow> u32 \<Rightarrow> bool" where
  "scene_valid_scale numerator denominator \<longleftrightarrow>
     denominator \<noteq> 0 \<and> denominator \<le> 120 \<and> gcd_u32 numerator denominator = 1 \<and> numerator \<ge> denominator \<and>
     (ucast numerator :: u64) \<le> 4 * ucast denominator"

text \<open>A zero numerator would divide by zero; it is excluded by \<open>scene_valid_scale\<close> before every call.\<close>

definition logical_dimension :: "u32 \<Rightarrow> u32 \<Rightarrow> u32 \<Rightarrow> u32" where
  "logical_dimension physical numerator denominator =
     (let scaled = (ucast physical :: u64) * ucast denominator
      in ucast (scaled div ucast numerator + (if scaled mod ucast numerator \<noteq> 0 then 1 else 0)))"

definition upsert_rectangle :: "output_upsert \<Rightarrow> rectangle" where
  "upsert_rectangle output =
     make_rectangle (ou_logical_x output) (ou_logical_y output) (ou_logical_width output) (ou_logical_height output)"

definition valid_scene_output :: "output_upsert \<Rightarrow> scene_profile \<Rightarrow> bool" where
  "valid_scene_output output profile =
     (if ou_output_id output = 0 \<or> \<not> srgb (ou_color output) then False
      else if profile = Historical then
        (if ou_logical_x output \<noteq> 0 \<or> ou_logical_y output \<noteq> 0 \<or> ou_scale_numerator output \<noteq> 1 \<or>
            ou_scale_denominator output \<noteq> 1 \<or> ou_transform output \<noteq> Tr_Normal then False
         else if ou_enabled output = 0 then
           ou_logical_width output = 0 \<and> ou_logical_height output = 0 \<and>
           ou_physical_pixel_width output = 0 \<and> ou_physical_pixel_height output = 0
         else
           ou_logical_width output \<noteq> 0 \<and> ou_logical_height output \<noteq> 0 \<and>
           ou_logical_width output \<le> 4096 \<and> ou_logical_height output \<le> 4096 \<and>
           ou_logical_width output = ou_physical_pixel_width output \<and>
           ou_logical_height output = ou_physical_pixel_height output \<and>
           (ucast (ou_logical_width output) :: u64) * ucast (ou_logical_height output) \<le> 16777216)
      else if \<not> scene_valid_scale (ou_scale_numerator output) (ou_scale_denominator output) \<or>
              \<not> scene_valid_transform (ou_transform output) then False
      else if ou_enabled output = 0 then
        ou_logical_x output = 0 \<and> ou_logical_y output = 0 \<and> ou_logical_width output = 0 \<and>
        ou_logical_height output = 0 \<and> ou_physical_pixel_width output = 0 \<and>
        ou_physical_pixel_height output = 0 \<and> ou_refresh_millihertz output = 0
      else if sint (ou_logical_x output) < 0 \<or> sint (ou_logical_y output) < 0 \<or>
              ou_logical_width output = 0 \<or> ou_logical_height output = 0 \<or>
              ou_physical_pixel_width output = 0 \<or> ou_physical_pixel_height output = 0 \<or>
              ou_refresh_millihertz output = 0 \<or>
              ou_physical_pixel_width output > 4096 \<or> ou_physical_pixel_height output > 4096 \<or>
              (ucast (ou_physical_pixel_width output) :: u64) * ucast (ou_physical_pixel_height output) > 16777216 \<or>
              \<not> checked_extent (ou_logical_x output) (ou_logical_width output) \<or>
              \<not> checked_extent (ou_logical_y output) (ou_logical_height output) \<or>
              (scast (ou_logical_x output) :: u64) + ucast (ou_logical_width output) > 32767 \<or>
              (scast (ou_logical_y output) :: u64) + ucast (ou_logical_height output) > 32767 then False
      else let physical_width = (if scene_transform_swaps_extents (ou_transform output)
                 then ou_physical_pixel_height output else ou_physical_pixel_width output);
               physical_height = (if scene_transform_swaps_extents (ou_transform output)
                 then ou_physical_pixel_width output else ou_physical_pixel_height output)
           in ou_logical_width output =
                logical_dimension physical_width (ou_scale_numerator output) (ou_scale_denominator output) \<and>
              ou_logical_height output =
                logical_dimension physical_height (ou_scale_numerator output) (ou_scale_denominator output))"

definition valid_scene_surface :: "surface_upsert \<Rightarrow> scene_profile \<Rightarrow> bool" where
  "valid_scene_surface surface profile =
     (let metadata_only = metadata_surface surface; cursor = cursor_surface surface;
          valid_client_scale =
            (if profile = Historical then su_scale_numerator surface = 1 \<and> su_scale_denominator surface = 1
             else su_scale_numerator surface \<ge> 1 \<and> su_scale_numerator surface \<le> 4 \<and> su_scale_denominator surface = 1)
      in if su_surface_id surface = 0 \<or> (metadata_only \<and> su_x11_window_id surface = 0) \<or>
            su_parent_surface_id surface \<noteq> 0 \<or> su_output_id surface = 0 \<or> su_transform surface \<noteq> Tr_Normal \<or>
            \<not> valid_client_scale \<or> \<not> srgb (su_color surface) \<or>
            (su_presentation_flags surface \<noteq> 0 \<and> \<not> metadata_only \<and> \<not> cursor) \<or>
            su_opacity surface > GWIPC_OPACITY_ONE \<or>
            \<not> checked_extent (su_logical_x surface) (su_logical_width surface) \<or>
            \<not> checked_extent (su_logical_y surface) (su_logical_height surface) then False
         else if cursor \<and>
            (su_x11_window_id surface \<noteq> 0 \<or> su_logical_width surface > kMaximumCursorExtent \<or>
             su_logical_height surface > kMaximumCursorExtent \<or> su_clipping surface \<noteq> 0 \<or>
             su_opacity surface \<noteq> GWIPC_OPACITY_ONE \<or> su_fullscreen_eligible surface \<noteq> TS_Unknown \<or>
             su_direct_scanout_eligible surface \<noteq> TS_Unknown) then False
         else if su_clipping surface = 0 then
            su_clip_x surface = 0 \<and> su_clip_y surface = 0 \<and> su_clip_width surface = 0 \<and> su_clip_height surface = 0
         else checked_extent (su_clip_x surface) (su_clip_width surface) \<and>
              checked_extent (su_clip_y surface) (su_clip_height surface))"

fun ids_valid :: "u64 list \<Rightarrow> u64 list \<Rightarrow> bool" where
  "ids_valid identifiers [] = True"
| "ids_valid identifiers (x # xs) = (if x = 0 \<or> x \<in> set identifiers then False else ids_valid (x # identifiers) xs)"

definition valid_surface_output_state :: "surface_output_state \<Rightarrow> bool" where
  "valid_surface_output_state state =
     (if sos_surface_id state = 0 \<or> sos_primary_output_id state = 0 \<or>
         sos_output_count state > GWIPC_MAXIMUM_OUTPUTS \<or>
         (sos_output_count state \<noteq> 0 \<and> sos_output_ids state = None) \<or>
         sos_preferred_scale_numerator state = 0 \<or> sos_preferred_scale_denominator state = 0 \<or>
         sos_client_buffer_scale state = 0 \<or> sos_client_buffer_scale state > 4 \<or>
         (sos_scale_mode state \<noteq> Scale_Legacy \<and> sos_scale_mode state \<noteq> Scale_Scaled_Pixmap) \<or>
         sos_layout_generation state = 0 \<or> sos_flags state \<noteq> 0 then False
      else if sos_scale_mode state = Scale_Legacy \<and> sos_client_buffer_scale state \<noteq> 1 then False
      else ids_valid [] (pointed (sos_output_ids state) (sos_output_count state)))"

end
