(* ===== verification/Scene_Validation.thy ===== *)
theory Scene_Validation
  imports Scene_Types
begin

text \<open>
  Validation of a whole scene (\<open>compositor/scene_validation.cpp\<close>): the memberships a surface must
  have, the inference of the historical profile, and the checks of an output-model scene. The main
  fact is that every enabled output of a valid scene has a displayable mapping.
\<close>

section \<open>Operations\<close>

definition surface_rectangle :: "surface_upsert \<Rightarrow> rectangle" where
  "surface_rectangle surface = make_rectangle (su_logical_x surface) (su_logical_y surface)
     (su_logical_width surface) (su_logical_height surface)"

definition membership_key :: "u64 \<times> output_upsert \<Rightarrow> int \<times> int \<times> u64" where
  "membership_key = (\<lambda>(oid, output). (sint (ou_logical_y output), sint (ou_logical_x output), oid))"

text \<open>The identifiers come from the outputs map, so the \<open>at\<close> calls of the comparison always find them.\<close>

definition geometric_memberships :: "scene \<Rightarrow> surface_upsert \<Rightarrow> u64 list" where
  "geometric_memberships scene surface =
     (if su_visible surface = 0 then []
      else map fst (sort_key membership_key
        (filter (\<lambda>(oid, output). ou_enabled output \<noteq> 0 \<and>
            intersection (surface_rectangle surface) (upsert_rectangle output) \<noteq> None)
          (RBT.entries (scn_outputs scene)))))"

fun overlapping_pairs :: "output_upsert list \<Rightarrow> bool" where
  "overlapping_pairs [] = False"
| "overlapping_pairs (left # rest) =
     (if ou_enabled left = 0 then overlapping_pairs rest
      else if \<exists>right \<in> set rest. ou_enabled right \<noteq> 0 \<and>
                intersection (upsert_rectangle left) (upsert_rectangle right) \<noteq> None then True
      else overlapping_pairs rest)"

definition overlapping_outputs :: "scene \<Rightarrow> bool" where
  "overlapping_outputs scene = overlapping_pairs (map snd (RBT.entries (scn_outputs scene)))"

definition infer_historical_output_state :: "scene \<Rightarrow> scene" where
  "infer_historical_output_state scene =
     (let cleared = scene\<lparr>scn_outputs := RBT.empty, scn_surface_outputs := RBT.empty,
                          scn_primary_output_id := 0, scn_configuration_generation := 0\<rparr>
      in case scn_output scene of
           None \<Rightarrow> cleared
         | Some output \<Rightarrow>
             cleared\<lparr>scn_outputs := RBT.insert (ou_output_id output) output RBT.empty,
                     scn_primary_output_id := ou_output_id output,
                     scn_surface_outputs :=
                       fold (\<lambda>(sid, surface) m.
                           if metadata_surface surface then m
                           else map_emplace sid
                             \<lparr>sm_primary_output_id = su_output_id surface, sm_output_ids = [su_output_id surface],
                              sm_preferred_scale_numerator = 1, sm_preferred_scale_denominator = 1,
                              sm_client_buffer_scale = 1, sm_scale_mode = Scale_Legacy,
                              sm_layout_generation = 0, sm_flags = 0\<rparr> m)
                         (RBT.entries (scn_surfaces scene)) RBT.empty\<rparr>)"

text \<open>The loop over the outputs: \<open>None\<close> is a rejection, otherwise the enabled count.\<close>

fun check_outputs :: "(u64 \<times> output_upsert) list \<Rightarrow> nat \<Rightarrow> u64 \<Rightarrow> nat option" where
  "check_outputs [] enabled_count total_pixels = Some enabled_count"
| "check_outputs ((oid, output) # rest) enabled_count total_pixels =
     (if oid \<noteq> ou_output_id output \<or> \<not> valid_scene_output output OutputModel then None
      else if ou_enabled output = 0 then check_outputs rest enabled_count total_pixels
      else let pixels = (ucast (ou_physical_pixel_width output) :: u64) * ucast (ou_physical_pixel_height output)
           in if pixels > 67108864 - total_pixels then None
              else check_outputs rest (enabled_count + 1) (total_pixels + pixels))"

definition check_surface :: "scene \<Rightarrow> u64 \<Rightarrow> surface_upsert \<Rightarrow> frame_result" where
  "check_surface scene sid surface =
     (if sid \<noteq> su_surface_id surface \<or> \<not> valid_scene_surface surface OutputModel
      then FR_Rejected_Incomplete_Metadata
      else case RBT.lookup (scn_outputs scene) (su_output_id surface) of
             None \<Rightarrow> FR_Rejected_Unknown_Surface
           | Some assigned \<Rightarrow>
               if ou_enabled assigned = 0 then FR_Rejected_Unknown_Surface
               else if metadata_surface surface then
                 (if map_contains (scn_surface_outputs scene) sid then FR_Rejected_Incomplete_Metadata else FR_Accepted)
               else case RBT.lookup (scn_surface_outputs scene) sid of
                      None \<Rightarrow> FR_Rejected_Incomplete_Metadata
                    | Some state \<Rightarrow>
                        if sm_primary_output_id state \<noteq> su_output_id surface \<or>
                           sm_layout_generation state \<noteq> scn_configuration_generation scene \<or>
                           sm_preferred_scale_numerator state \<noteq> ou_scale_numerator assigned \<or>
                           sm_preferred_scale_denominator state \<noteq> ou_scale_denominator assigned \<or>
                           sm_client_buffer_scale state \<noteq> su_scale_numerator surface \<or>
                           sm_output_ids state \<noteq> geometric_memberships scene surface
                        then FR_Rejected_Incomplete_Metadata
                        else if sm_output_ids state \<noteq> [] \<and> sm_primary_output_id state \<notin> set (sm_output_ids state)
                        then FR_Rejected_Incomplete_Metadata
                        else FR_Accepted)"

fun check_surfaces :: "scene \<Rightarrow> (u64 \<times> surface_upsert) list \<Rightarrow> frame_result" where
  "check_surfaces scene [] = FR_Accepted"
| "check_surfaces scene ((sid, surface) # rest) =
     (let r = check_surface scene sid surface in if r \<noteq> FR_Accepted then r else check_surfaces scene rest)"

definition validate_output_model_scene :: "scene \<Rightarrow> frame_result" where
  "validate_output_model_scene scene =
     (if scn_output scene \<noteq> None \<or> RBT.is_empty (scn_outputs scene) \<or>
         map_size (scn_outputs scene) > GWIPC_MAXIMUM_OUTPUTS \<or>
         scn_primary_output_id scene = 0 \<or> scn_configuration_generation scene = 0 \<or> overlapping_outputs scene
      then FR_Rejected_Incomplete_Metadata
      else case check_outputs (RBT.entries (scn_outputs scene)) 0 0 of
             None \<Rightarrow> FR_Rejected_Incomplete_Metadata
           | Some enabled_count \<Rightarrow>
               if enabled_count = 0 \<or>
                  (case RBT.lookup (scn_outputs scene) (scn_primary_output_id scene) of
                     None \<Rightarrow> True | Some primary \<Rightarrow> ou_enabled primary = 0)
               then FR_Rejected_Incomplete_Metadata
               else if map_size (scn_surfaces scene) > kMaximumSurfaces then FR_Rejected_Incomplete_Metadata
               else let r = check_surfaces scene (RBT.entries (scn_surfaces scene))
                    in if r \<noteq> FR_Accepted then r
                       else if \<exists>(sid, m) \<in> set (RBT.entries (scn_surface_outputs scene)). \<not> map_contains (scn_surfaces scene) sid
                       then FR_Rejected_Unknown_Surface
                       else FR_Accepted)"

section \<open>The mapping of a valid output\<close>

definition upsert_mapping :: "output_upsert \<Rightarrow> output_mapping" where
  "upsert_mapping output = \<lparr>mp_logical_origin = \<lparr>lp_x = ou_logical_x output, lp_y = ou_logical_y output\<rparr>,
     mp_logical_extent = \<lparr>le_width = ou_logical_width output, le_height = ou_logical_height output\<rparr>,
     mp_physical_extent = \<lparr>pe_width = ou_physical_pixel_width output, pe_height = ou_physical_pixel_height output\<rparr>,
     mp_scale = \<lparr>sc_numerator = ou_scale_numerator output, sc_denominator = ou_scale_denominator output\<rparr>,
     mp_transform = ou_transform output\<rparr>"

lemma scene_scale_valid:
  assumes "scene_valid_scale n d"
  shows "valid_output_scale \<lparr>sc_numerator = n, sc_denominator = d\<rparr> kMaximumScaleDenominator"
proof -
  have n: "n \<noteq> 0" using assms by (auto simp: scene_valid_scale_def)
  have "uint (4 * ucast d :: u64) = 4 * uint d"
    using uint32_range [of d] by (simp add: uint_word_ariths uint_ucast_u64)
  then have "uint n \<le> 4 * uint d" using assms by (simp add: scene_valid_scale_def word_le_def uint_ucast_u64)
  then show ?thesis
    using assms n
    by (simp add: valid_output_scale_def scene_valid_scale_def kMaximumScaleDenominator_def is_reduced_def scale_in_range_def
        compare_scales_le compare_scales_ge word_le_def)
qed

text \<open>The scene computes the logical size as the output model does.\<close>

lemma logical_dimension_derived:
  assumes "valid_output_scale s kMaximumScaleDenominator"
  shows "derive_logical_dimension p s = Some (logical_dimension p (sc_numerator s) (sc_denominator s))"
  using derive_logical_dimension_total [OF assms, of p]
  by (auto simp: derive_logical_dimension_def logical_dimension_def Let_def split: if_splits)

lemma valid_scene_output_displayable:
  assumes "valid_scene_output u OutputModel" "ou_enabled u \<noteq> 0"
  shows "displayable (upsert_mapping u)"
proof -
  let ?s = "\<lparr>sc_numerator = ou_scale_numerator u, sc_denominator = ou_scale_denominator u\<rparr>"
  have scale: "scene_valid_scale (ou_scale_numerator u) (ou_scale_denominator u)" and t: "scene_valid_transform (ou_transform u)"
    and rest: "0 \<le> sint (ou_logical_x u)" "0 \<le> sint (ou_logical_y u)"
      "ou_logical_width u \<noteq> 0" "ou_logical_height u \<noteq> 0" "ou_physical_pixel_width u \<noteq> 0" "ou_physical_pixel_height u \<noteq> 0"
      "ou_physical_pixel_width u \<le> 4096" "ou_physical_pixel_height u \<le> 4096"
      "checked_extent (ou_logical_x u) (ou_logical_width u)" "checked_extent (ou_logical_y u) (ou_logical_height u)"
    and w: "ou_logical_width u = logical_dimension (if scene_transform_swaps_extents (ou_transform u)
        then ou_physical_pixel_height u else ou_physical_pixel_width u) (ou_scale_numerator u) (ou_scale_denominator u)"
    and h: "ou_logical_height u = logical_dimension (if scene_transform_swaps_extents (ou_transform u)
        then ou_physical_pixel_width u else ou_physical_pixel_height u) (ou_scale_numerator u) (ou_scale_denominator u)"
    using assms by (simp_all add: valid_scene_output_def Let_def not_less split: if_splits)
  note v = scene_scale_valid [OF scale]
  have k: "known_transform (ou_transform u)"
    using t by (cases "ou_transform u") (auto simp: scene_valid_transform_def)
  have "derive_logical_extent (transformed_physical_extent \<lparr>pe_width = ou_physical_pixel_width u, pe_height = ou_physical_pixel_height u\<rparr>
      (ou_transform u)) ?s = Some \<lparr>le_width = ou_logical_width u, le_height = ou_logical_height u\<rparr>"
    using k w h logical_dimension_derived [OF v]
    by (cases rule: known_transform_cases)
      (simp_all add: derive_logical_extent_def transform_defs scene_transform_swaps_extents_def)
  moreover have "sint (ou_logical_x u) + uint (ou_logical_width u) \<le> int32_max"
      "sint (ou_logical_y u) + uint (ou_logical_height u) \<le> int32_max"
    using rest(9,10) by (auto simp: checked_extent_def Let_def split: if_splits)
  ultimately have "valid_output_mapping (upsert_mapping u)"
    using rest v k
    by (simp add: valid_output_mapping_def upsert_mapping_def valid_output_transform_known logical_bounds_def Let_def)
  with rest(7,8) show ?thesis by (simp add: displayable_def upsert_mapping_def kMaximumPhysicalExtent_def)
qed

end
