(* ===== verification/Scene_Model.thy ===== *)
theory Scene_Model
  imports Scene_Validation
begin

text \<open>
  The compositor's scene model (\<open>compositor/scene.hpp\<close>, \<open>compositor/scene.cpp\<close>): a pending scene that
  messages edit, complete snapshots that replace it, and commits that make it the presented scene
  and compute what to repaint. A method that returns \<open>bool\<close> is a function to the flag and the model;
  \<open>None\<close> is a dereference of an empty optional.
\<close>

section \<open>State\<close>

record pending_damage =
  pd_surface_id :: u64
  pd_rectangles :: "rectangle list"

record scene_model =
  md_committed :: scene
  md_pending :: scene
  md_pre_snapshot_pending :: "scene option"
  md_explicit_damage :: "pending_damage list"
  md_pre_snapshot_damage :: "pending_damage list"
  md_presented_generation :: u64
  md_profile :: scene_profile
  md_snapshot_active :: bool
  md_initial_snapshot_received :: bool

record commit_result =
  cr_result :: frame_result
  cr_presented_generation :: u64
  cr_damage :: "rectangle list"

definition cr_accepted :: "commit_result \<Rightarrow> bool" where
  "cr_accepted r \<longleftrightarrow> cr_result r = FR_Accepted \<or> cr_result r = FR_Dropped"

definition new_scene_model :: "scene_profile \<Rightarrow> scene_model" where
  "new_scene_model profile = \<lparr>md_committed = empty_scene, md_pending = empty_scene, md_pre_snapshot_pending = None,
     md_explicit_damage = [], md_pre_snapshot_damage = [], md_presented_generation = 0, md_profile = profile,
     md_snapshot_active = False, md_initial_snapshot_received = False\<rparr>"

section \<open>Snapshots\<close>

definition mutations_allowed :: "scene_model \<Rightarrow> bool" where
  "mutations_allowed m \<longleftrightarrow> md_initial_snapshot_received m \<or> md_snapshot_active m"

definition begin_complete_snapshot :: "scene_model \<Rightarrow> bool \<times> scene_model" where
  "begin_complete_snapshot m =
     (if md_profile m \<noteq> Historical \<or> md_snapshot_active m then (False, m)
      else (True, m\<lparr>md_pre_snapshot_pending := Some (md_pending m), md_pre_snapshot_damage := md_explicit_damage m,
                    md_pending := empty_scene, md_explicit_damage := [], md_snapshot_active := True\<rparr>))"

definition begin_complete_snapshot_outputs :: "u64 \<Rightarrow> u64 \<Rightarrow> scene_model \<Rightarrow> bool \<times> scene_model" where
  "begin_complete_snapshot_outputs primary_output_id configuration_generation m =
     (if md_profile m \<noteq> OutputModel \<or> md_snapshot_active m \<or> primary_output_id = 0 \<or> configuration_generation = 0
      then (False, m)
      else (True, m\<lparr>md_pre_snapshot_pending := Some (md_pending m), md_pre_snapshot_damage := md_explicit_damage m,
                    md_pending := empty_scene\<lparr>scn_primary_output_id := primary_output_id,
                                              scn_configuration_generation := configuration_generation\<rparr>,
                    md_explicit_damage := [], md_snapshot_active := True\<rparr>))"

definition end_complete_snapshot :: "scene_model \<Rightarrow> bool \<times> scene_model" where
  "end_complete_snapshot m =
     (if \<not> md_snapshot_active m then (False, m)
      else if md_profile m = OutputModel \<and> validate_output_model_scene (md_pending m) \<noteq> FR_Accepted then (False, m)
      else let m' = (if md_profile m = Historical
                     then m\<lparr>md_pending := infer_historical_output_state (md_pending m)\<rparr> else m)
           in (True, m'\<lparr>md_snapshot_active := False, md_initial_snapshot_received := True,
                        md_pre_snapshot_pending := None, md_pre_snapshot_damage := []\<rparr>))"

definition set_snapshot_output_configuration :: "u64 \<Rightarrow> u64 \<Rightarrow> scene_model \<Rightarrow> bool \<times> scene_model" where
  "set_snapshot_output_configuration primary_output_id configuration_generation m =
     (if md_profile m \<noteq> OutputModel \<or> \<not> md_snapshot_active m \<or> primary_output_id = 0 \<or> configuration_generation = 0
      then (False, m)
      else (True, m\<lparr>md_pending := (md_pending m)\<lparr>scn_primary_output_id := primary_output_id,
                      scn_configuration_generation := configuration_generation\<rparr>\<rparr>))"

definition abort_complete_snapshot :: "scene_model \<Rightarrow> scene_model option" where
  "abort_complete_snapshot m =
     (if \<not> md_snapshot_active m then Some m
      else case md_pre_snapshot_pending m of
             None \<Rightarrow> None
           | Some before \<Rightarrow>
               Some (m\<lparr>md_pending := before, md_explicit_damage := md_pre_snapshot_damage m,
                       md_pre_snapshot_damage := [], md_pre_snapshot_pending := None, md_snapshot_active := False\<rparr>))"

section \<open>Messages\<close>

definition apply_output :: "output_upsert \<Rightarrow> scene_model \<Rightarrow> bool \<times> scene_model" where
  "apply_output output m =
     (if \<not> mutations_allowed m \<or> \<not> valid_scene_output output (md_profile m) then (False, m)
      else let p = md_pending m
           in if md_profile m = Historical
              then (True, m\<lparr>md_pending := infer_historical_output_state (p\<lparr>scn_output := Some output\<rparr>)\<rparr>)
              else if \<not> map_contains (scn_outputs p) (ou_output_id output) \<and> map_size (scn_outputs p) = GWIPC_MAXIMUM_OUTPUTS
              then (False, m)
              else (True, m\<lparr>md_pending := p\<lparr>scn_outputs := RBT.insert (ou_output_id output) output (scn_outputs p)\<rparr>\<rparr>))"

definition apply_output_remove :: "u64 \<Rightarrow> scene_model \<Rightarrow> bool \<times> scene_model" where
  "apply_output_remove output_id m =
     (if \<not> mutations_allowed m \<or> output_id = 0 then (False, m)
      else let p = md_pending m
           in if md_profile m = OutputModel
              then (map_contains (scn_outputs p) output_id,
                    m\<lparr>md_pending := p\<lparr>scn_outputs := RBT.delete output_id (scn_outputs p)\<rparr>\<rparr>)
              else case scn_output p of
                     None \<Rightarrow> (False, m)
                   | Some output \<Rightarrow>
                       if ou_output_id output \<noteq> output_id then (False, m)
                       else (True, m\<lparr>md_pending := infer_historical_output_state (p\<lparr>scn_output := None\<rparr>)\<rparr>))"

definition apply_surface :: "surface_upsert \<Rightarrow> scene_model \<Rightarrow> bool \<times> scene_model" where
  "apply_surface surface m =
     (if \<not> mutations_allowed m \<or> \<not> valid_scene_surface surface (md_profile m) then (False, m)
      else let p = md_pending m
           in if cursor_surface surface \<and>
                 (\<exists>(sid, current) \<in> set (RBT.entries (scn_surfaces p)). sid \<noteq> su_surface_id surface \<and>
                    cursor_surface current \<and> su_output_id current = su_output_id surface) then (False, m)
              else if \<not> map_contains (scn_surfaces p) (su_surface_id surface) \<and> map_size (scn_surfaces p) = kMaximumSurfaces
              then (False, m)
              else let p' = p\<lparr>scn_surfaces := RBT.insert (su_surface_id surface) surface (scn_surfaces p)\<rparr>
                   in (True, m\<lparr>md_pending := (if md_profile m = Historical then infer_historical_output_state p' else p')\<rparr>))"

definition apply_surface_output_state :: "surface_output_state \<Rightarrow> scene_model \<Rightarrow> bool \<times> scene_model" where
  "apply_surface_output_state state m =
     (if \<not> mutations_allowed m \<or> md_profile m \<noteq> OutputModel \<or> \<not> valid_surface_output_state state then (False, m)
      else let p = md_pending m
           in if md_snapshot_active m \<and> map_contains (scn_surface_outputs p) (sos_surface_id state) then (False, m)
              else (True, m\<lparr>md_pending := p\<lparr>scn_surface_outputs := RBT.insert (sos_surface_id state)
                     \<lparr>sm_primary_output_id = sos_primary_output_id state,
                      sm_output_ids = pointed (sos_output_ids state) (sos_output_count state),
                      sm_preferred_scale_numerator = sos_preferred_scale_numerator state,
                      sm_preferred_scale_denominator = sos_preferred_scale_denominator state,
                      sm_client_buffer_scale = sos_client_buffer_scale state, sm_scale_mode = sos_scale_mode state,
                      sm_layout_generation = sos_layout_generation state, sm_flags = sos_flags state\<rparr>
                     (scn_surface_outputs p)\<rparr>\<rparr>))"

definition apply_surface_policy :: "surface_policy_upsert \<Rightarrow> scene_model \<Rightarrow> bool \<times> scene_model" where
  "apply_surface_policy policy m =
     (if \<not> mutations_allowed m \<or> sy_surface_id policy = 0 then (False, m)
      else let p = md_pending m
           in if (case RBT.lookup (scn_surfaces p) (sy_surface_id policy) of
                    None \<Rightarrow> False | Some surface \<Rightarrow> cursor_surface surface) then (False, m)
              else (True, m\<lparr>md_pending := p\<lparr>scn_surface_policies :=
                     RBT.insert (sy_surface_id policy) policy (scn_surface_policies p)\<rparr>\<rparr>))"

definition apply_surface_remove :: "u64 \<Rightarrow> scene_model \<Rightarrow> bool \<times> scene_model" where
  "apply_surface_remove surface_id m =
     (let p = md_pending m
      in if \<not> mutations_allowed m \<or> surface_id = 0 \<or> \<not> map_contains (scn_surfaces p) surface_id then (False, m)
         else (True, m\<lparr>md_pending := p\<lparr>scn_surfaces := RBT.delete surface_id (scn_surfaces p),
                scn_surface_policies := RBT.delete surface_id (scn_surface_policies p),
                scn_surface_outputs := RBT.delete surface_id (scn_surface_outputs p)\<rparr>\<rparr>))"

definition apply_surface_damage :: "surface_damage \<Rightarrow> scene_model \<Rightarrow> bool \<times> scene_model" where
  "apply_surface_damage damage m =
     (if \<not> mutations_allowed m \<or> \<not> map_contains (scn_surfaces (md_pending m)) (sd_surface_id damage) \<or>
         sd_rectangle_count damage > GWIPC_MAXIMUM_DAMAGE_RECTANGLES \<or>
         (sd_rectangle_count damage \<noteq> 0 \<and> sd_rectangles damage = None) then (False, m)
      else let rectangles = pointed (sd_rectangles damage) (sd_rectangle_count damage)
           in if \<exists>r \<in> set rectangles. \<not> checked_extent (rect_x r) (rect_width r) \<or> \<not> checked_extent (rect_y r) (rect_height r)
              then (False, m)
              else (True, m\<lparr>md_explicit_damage := md_explicit_damage m @
                     [\<lparr>pd_surface_id = sd_surface_id damage, pd_rectangles = rectangles\<rparr>]\<rparr>))"

section \<open>Commit\<close>

definition clip_local :: "surface_upsert \<Rightarrow> rectangle \<Rightarrow> rectangle option" where
  "clip_local surface r =
     (if su_clipping surface \<noteq> 0
      then intersection r (make_rectangle (su_clip_x surface) (su_clip_y surface) (su_clip_width surface) (su_clip_height surface))
      else Some r)"

definition surface_local :: "surface_upsert \<Rightarrow> rectangle" where
  "surface_local surface = make_rectangle 0 0 (su_logical_width surface) (su_logical_height surface)"

definition output_local :: "output_upsert \<Rightarrow> rectangle" where
  "output_local output = make_rectangle 0 0 (ou_logical_width output) (ou_logical_height output)"

definition effective_bounds :: "surface_upsert \<Rightarrow> output_upsert \<Rightarrow> rectangle option" where
  "effective_bounds surface output =
     (if su_visible surface = 0 \<or> ou_enabled output = 0 \<or> su_opacity surface = 0 \<or>
         su_presentation_flags surface = GWIPC_SURFACE_PRESENTATION_METADATA_ONLY then None
      else case clip_local surface (surface_local surface) of
             None \<Rightarrow> None
           | Some local \<Rightarrow>
               (case translate local (su_logical_x surface) (su_logical_y surface) of
                  None \<Rightarrow> None
                | Some placed \<Rightarrow> intersection placed (output_local output)))"

definition same_output_shape :: "output_upsert option \<Rightarrow> output_upsert option \<Rightarrow> bool" where
  "same_output_shape a b =
     (case (a, b) of
        (Some a', Some b') \<Rightarrow> ou_enabled a' = ou_enabled b' \<and> ou_logical_width a' = ou_logical_width b' \<and>
          ou_logical_height a' = ou_logical_height b'
      | _ \<Rightarrow> a = None \<and> b = None)"

text \<open>The loop over the surfaces and their policies, the same in both profiles.\<close>

definition policies_incomplete :: "scene \<Rightarrow> bool" where
  "policies_incomplete s \<longleftrightarrow>
     (\<exists>(sid, surface) \<in> set (RBT.entries (scn_surfaces s)).
        if cursor_surface surface then map_contains (scn_surface_policies s) sid
        else metadata_surface surface \<and>
          (case RBT.lookup (scn_surface_policies s) sid of
             None \<Rightarrow> True | Some policy \<Rightarrow> sy_x11_window_id policy \<noteq> su_x11_window_id surface))"

definition orphan_policy :: "scene \<Rightarrow> bool" where
  "orphan_policy s \<longleftrightarrow> (\<exists>(sid, policy) \<in> set (RBT.entries (scn_surface_policies s)). \<not> map_contains (scn_surfaces s) sid)"

definition install :: "u64 \<Rightarrow> scene_model \<Rightarrow> scene_model" where
  "install generation m = m\<lparr>md_committed := md_pending m, md_explicit_damage := [], md_presented_generation := generation\<rparr>"

definition surface_changed :: "surface_upsert option \<Rightarrow> surface_upsert option \<Rightarrow> bool" where
  "surface_changed old now =
     (case (old, now) of
        (Some a, Some b) \<Rightarrow>
          su_logical_x a \<noteq> su_logical_x b \<or> su_logical_y a \<noteq> su_logical_y b \<or>
          su_logical_width a \<noteq> su_logical_width b \<or> su_logical_height a \<noteq> su_logical_height b \<or>
          su_stacking a \<noteq> su_stacking b \<or> su_visible a \<noteq> su_visible b \<or> su_clipping a \<noteq> su_clipping b \<or>
          su_clip_x a \<noteq> su_clip_x b \<or> su_clip_y a \<noteq> su_clip_y b \<or> su_clip_width a \<noteq> su_clip_width b \<or>
          su_clip_height a \<noteq> su_clip_height b \<or> su_opacity a \<noteq> su_opacity b
      | _ \<Rightarrow> True)"

definition add_bounds :: "rectangle option \<Rightarrow> damage_region \<Rightarrow> damage_region" where
  "add_bounds r d = (case r of None \<Rightarrow> d | Some r' \<Rightarrow> damage_add d r')"

definition damage_surface :: "scene \<Rightarrow> scene \<Rightarrow> output_upsert \<Rightarrow> u64 \<Rightarrow> damage_region \<Rightarrow> damage_region" where
  "damage_surface committed pending output sid d =
     (let old = RBT.lookup (scn_surfaces committed) sid; now = RBT.lookup (scn_surfaces pending) sid
      in if \<not> surface_changed old now then d
         else let d1 = (case (old, scn_output committed) of
                          (Some s, Some o') \<Rightarrow> add_bounds (effective_bounds s o') d | _ \<Rightarrow> d)
              in case now of None \<Rightarrow> d1 | Some s \<Rightarrow> add_bounds (effective_bounds s output) d1)"

definition damage_item :: "surface_upsert \<Rightarrow> rectangle \<Rightarrow> rectangle option" where
  "damage_item surface r =
     (case intersection r (surface_local surface) of
        None \<Rightarrow> None
      | Some clipped \<Rightarrow>
          (case clip_local surface clipped of
             None \<Rightarrow> None
           | Some clipped' \<Rightarrow> translate clipped' (su_logical_x surface) (su_logical_y surface)))"

definition damage_explicit :: "scene \<Rightarrow> pending_damage \<Rightarrow> damage_region \<Rightarrow> damage_region" where
  "damage_explicit pending item d =
     (case RBT.lookup (scn_surfaces pending) (pd_surface_id item) of
        None \<Rightarrow> d
      | Some surface \<Rightarrow> fold (\<lambda>r. add_bounds (damage_item surface r)) (pd_rectangles item) d)"

definition surface_ids :: "scene \<Rightarrow> scene \<Rightarrow> u64 list" where
  "surface_ids a b = sort (remdups (RBT.keys (scn_surfaces a) @ RBT.keys (scn_surfaces b)))"

definition historical_damage :: "scene_model \<Rightarrow> output_upsert \<Rightarrow> damage_region" where
  "historical_damage m output =
     (let d = make_damage_region (output_local output);
          d1 = (if same_output_shape (scn_output (md_committed m)) (scn_output (md_pending m)) then d else add_full_output d);
          d2 = fold (damage_surface (md_committed m) (md_pending m) output) (surface_ids (md_committed m) (md_pending m)) d1
      in fold (damage_explicit (md_pending m)) (md_explicit_damage m) d2)"

definition commit_outputs :: "frame_commit \<Rightarrow> commit_result \<Rightarrow> scene_model \<Rightarrow> commit_result \<times> scene_model" where
  "commit_outputs frame result m =
     (let p = md_pending m; validation = validate_output_model_scene p
      in if validation \<noteq> FR_Accepted then (result\<lparr>cr_result := validation\<rparr>, m)
         else let enabled_outputs = length (filter (\<lambda>(oid, output). ou_enabled output \<noteq> 0) (RBT.entries (scn_outputs p)))
              in if (enabled_outputs > 1 \<and> fc_output_id frame \<noteq> 0) \<or>
                    (enabled_outputs = 1 \<and> fc_output_id frame \<noteq> 0 \<and>
                     (case RBT.lookup (scn_outputs p) (fc_output_id frame) of
                        None \<Rightarrow> True | Some output \<Rightarrow> ou_enabled output = 0)) then (result, m)
                 else if policies_incomplete p then (result, m)
                 else if orphan_policy p then (result\<lparr>cr_result := FR_Rejected_Unknown_Surface\<rparr>, m)
                 else (result\<lparr>cr_result := FR_Accepted, cr_presented_generation := fc_producer_generation frame\<rparr>,
                       install (fc_producer_generation frame) m))"

definition commit_historical :: "frame_commit \<Rightarrow> commit_result \<Rightarrow> scene_model \<Rightarrow> commit_result \<times> scene_model" where
  "commit_historical frame result m =
     (let p = md_pending m; generation = fc_producer_generation frame;
          dropped = (result\<lparr>cr_result := FR_Dropped, cr_presented_generation := generation\<rparr>, install generation m)
      in case scn_output p of
           None \<Rightarrow> if \<not> RBT.is_empty (scn_surfaces p) then (result, m) else dropped
         | Some output \<Rightarrow>
             if fc_output_id frame \<noteq> 0 \<and> ou_output_id output \<noteq> fc_output_id frame then (result, m)
             else if \<exists>(sid, surface) \<in> set (RBT.entries (scn_surfaces p)). su_output_id surface \<noteq> ou_output_id output
             then (result\<lparr>cr_result := FR_Rejected_Unknown_Surface\<rparr>, m)
             else if policies_incomplete p then (result\<lparr>cr_result := FR_Rejected_Incomplete_Metadata\<rparr>, m)
             else if orphan_policy p then (result\<lparr>cr_result := FR_Rejected_Unknown_Surface\<rparr>, m)
             else if ou_enabled output = 0 then dropped
             else (result\<lparr>cr_result := FR_Accepted, cr_presented_generation := generation,
                          cr_damage := damage_rectangles (historical_damage m output)\<rparr>, install generation m))"

definition scene_commit :: "frame_commit \<Rightarrow> scene_model \<Rightarrow> commit_result \<times> scene_model" where
  "scene_commit frame m =
     (let result = \<lparr>cr_result = FR_Rejected_Incomplete_Metadata, cr_presented_generation = md_presented_generation m,
                    cr_damage = []\<rparr>
      in if md_snapshot_active m \<or> \<not> md_initial_snapshot_received m \<or> fc_commit_id frame = 0 \<or>
            fc_producer_generation frame = 0 \<or> fc_flags frame \<noteq> 0 then (result, m)
         else if md_profile m = OutputModel then commit_outputs frame result m
         else commit_historical frame result m)"

definition scene_disconnect :: "scene_model \<Rightarrow> scene_model" where
  "scene_disconnect m = new_scene_model (md_profile m)"

section \<open>Queries\<close>

definition pending_damage_surface_ids :: "scene_model \<Rightarrow> u64 list" where
  "pending_damage_surface_ids m = remdups (sort (map pd_surface_id (md_explicit_damage m)))"

definition stacking_key :: "surface_upsert \<Rightarrow> bool \<times> int \<times> u64" where
  "stacking_key s = (cursor_surface s, sint (su_stacking s), su_surface_id s)"

definition stacking_order :: "scene_model \<Rightarrow> u64 list" where
  "stacking_order m = map su_surface_id (sort_key stacking_key (map snd (RBT.entries (scn_surfaces (md_committed m)))))"

end
