(* ===== verification/Snapshot.thy ===== *)
theory Snapshot
  imports Prelude
begin

text \<open>
  The contract of a complete snapshot, which the policy transaction and the compositor's scene both
  promise: opening one saves the view that messages edit, edits leave the saved view alone, and
  aborting puts it back. The client fact is that a snapshot that is aborted has no effect on the view,
  whatever was sent in between.
\<close>

locale snapshot =
  fixes active :: "'s \<Rightarrow> bool"
    and view :: "'s \<Rightarrow> 'v"
    and saved :: "'s \<Rightarrow> 'v option"
    and opens :: "'s \<Rightarrow> 's \<Rightarrow> bool"
    and edits :: "'s \<Rightarrow> 's \<Rightarrow> bool"
    and aborts :: "'s \<Rightarrow> 's option"
  assumes open_saves: "opens s s' \<Longrightarrow> active s' \<and> saved s' = Some (view s)"
    and edit_keeps: "edits s s' \<Longrightarrow> active s \<Longrightarrow> active s' \<and> saved s' = saved s"
    and abort_restores: "active s \<Longrightarrow> saved s = Some v \<Longrightarrow> \<exists>s'. aborts s = Some s' \<and> view s' = v \<and> \<not> active s'"
begin

lemma edits_keep:
  assumes "edits\<^sup>*\<^sup>* s s'" "active s" "saved s = Some v"
  shows "active s' \<and> saved s' = Some v"
  using assms by (induction rule: rtranclp_induct) (auto dest: edit_keeps)

lemma aborted_snapshot_no_effect:
  assumes "opens s s1" "edits\<^sup>*\<^sup>* s1 s2"
  shows "\<exists>s3. aborts s2 = Some s3 \<and> view s3 = view s \<and> \<not> active s3"
  using open_saves [OF assms(1)] edits_keep [OF assms(2)] abort_restores by blast

end

end
