(* ===== verification/Scene_Safety.thy ===== *)
theory Scene_Safety
  imports Scene_Model Snapshot
begin

text \<open>
  The scene model as a state machine: every operation as a step, the invariant of reachable models,
  atomic commits and snapshots that can be aborted.
\<close>

section \<open>Operations as steps\<close>

datatype scene_operation =
    Sc_Begin | Sc_Begin_Outputs u64 u64 | Sc_End | Sc_Configure u64 u64 | Sc_Abort
  | Sc_Output output_upsert | Sc_Output_Remove u64 | Sc_Surface surface_upsert
  | Sc_Surface_Output surface_output_state | Sc_Policy surface_policy_upsert | Sc_Surface_Remove u64
  | Sc_Damage surface_damage | Sc_Commit frame_commit | Sc_Disconnect

fun scene_apply :: "scene_operation \<Rightarrow> scene_model \<Rightarrow> (bool \<times> scene_model) option" where
  "scene_apply Sc_Begin m = Some (begin_complete_snapshot m)"
| "scene_apply (Sc_Begin_Outputs p g) m = Some (begin_complete_snapshot_outputs p g m)"
| "scene_apply Sc_End m = Some (end_complete_snapshot m)"
| "scene_apply (Sc_Configure p g) m = Some (set_snapshot_output_configuration p g m)"
| "scene_apply Sc_Abort m = map_option (Pair True) (abort_complete_snapshot m)"
| "scene_apply (Sc_Output u) m = Some (apply_output u m)"
| "scene_apply (Sc_Output_Remove i) m = Some (apply_output_remove i m)"
| "scene_apply (Sc_Surface s) m = Some (apply_surface s m)"
| "scene_apply (Sc_Surface_Output s) m = Some (apply_surface_output_state s m)"
| "scene_apply (Sc_Policy p) m = Some (apply_surface_policy p m)"
| "scene_apply (Sc_Surface_Remove i) m = Some (apply_surface_remove i m)"
| "scene_apply (Sc_Damage d) m = Some (apply_surface_damage d m)"
| "scene_apply (Sc_Commit f) m = (case scene_commit f m of (r, m') \<Rightarrow> Some (cr_accepted r, m'))"
| "scene_apply Sc_Disconnect m = Some (True, scene_disconnect m)"

inductive scene_step :: "scene_model \<Rightarrow> scene_operation \<Rightarrow> bool \<Rightarrow> scene_model \<Rightarrow> bool" where
  "scene_apply operation m = Some (accepted, m') \<Longrightarrow> scene_step m operation accepted m'"

inductive_simps scene_step_iff: "scene_step m operation accepted m'"

inductive scene_reachable :: "scene_profile \<Rightarrow> scene_model \<Rightarrow> bool" for profile where
  start: "scene_reachable profile (new_scene_model profile)"
| step: "scene_reachable profile m \<Longrightarrow> scene_step m operation accepted m' \<Longrightarrow> scene_reachable profile m'"

section \<open>Commit\<close>

lemma check_surfaces_not_dropped: "check_surfaces scene es \<noteq> FR_Dropped"
proof (induction es)
  case (Cons e es)
  obtain sid surface where e: "e = (sid, surface)" by (cases e)
  have "check_surface scene sid surface \<noteq> FR_Dropped"
    by (simp add: check_surface_def split: option.splits)
  with Cons show ?case by (simp add: e Let_def)
qed simp

lemma validate_not_dropped: "validate_output_model_scene s \<noteq> FR_Dropped"
  using check_surfaces_not_dropped [of s]
  by (auto simp: validate_output_model_scene_def Let_def split: option.splits)

definition committable :: "scene_profile \<Rightarrow> scene \<Rightarrow> bool" where
  "committable profile s \<longleftrightarrow>
     (if profile = OutputModel
      then validate_output_model_scene s = FR_Accepted \<and> \<not> policies_incomplete s \<and> \<not> orphan_policy s
      else case scn_output s of
             None \<Rightarrow> RBT.is_empty (scn_surfaces s)
           | Some output \<Rightarrow> (\<forall>sid surface. RBT.lookup (scn_surfaces s) sid = Some surface \<longrightarrow> su_output_id surface = ou_output_id output) \<and>
               \<not> policies_incomplete s \<and> \<not> orphan_policy s)"

definition commit_outcome :: "frame_commit \<Rightarrow> scene_model \<Rightarrow> commit_result \<Rightarrow> scene_model \<Rightarrow> bool" where
  "commit_outcome frame m r m' \<longleftrightarrow>
     (if cr_accepted r
      then m' = install (fc_producer_generation frame) m \<and> cr_presented_generation r = fc_producer_generation frame \<and>
        committable (md_profile m) (md_pending m)
      else m' = m \<and> cr_presented_generation r = md_presented_generation m \<and> cr_damage r = [])"

lemma commit_outputs_outcome:
  assumes "commit_outputs frame result m = (r, m')" "\<not> cr_accepted result" "cr_damage result = []"
    "cr_presented_generation result = md_presented_generation m" "md_profile m = OutputModel"
  shows "commit_outcome frame m r m'"
proof (cases "validate_output_model_scene (md_pending m) = FR_Accepted")
  case False
  then show ?thesis
    using assms validate_not_dropped [of "md_pending m"]
    by (auto simp: commit_outputs_def Let_def commit_outcome_def cr_accepted_def)
next
  case True
  then show ?thesis
    using assms
    by (auto simp: commit_outputs_def Let_def commit_outcome_def committable_def cr_accepted_def split: if_splits)
qed

lemma commit_historical_outcome:
  assumes "commit_historical frame result m = (r, m')" "\<not> cr_accepted result" "cr_damage result = []"
    "cr_presented_generation result = md_presented_generation m" "md_profile m = Historical"
  shows "commit_outcome frame m r m'"
  using assms
  by (auto simp: commit_historical_def Let_def commit_outcome_def committable_def cr_accepted_def map_simps
      split: if_splits option.splits)

lemma scene_commit_outcome:
  assumes "scene_commit frame m = (r, m')"
  shows "commit_outcome frame m r m'"
proof (cases "md_snapshot_active m \<or> \<not> md_initial_snapshot_received m \<or> fc_commit_id frame = 0 \<or>
    fc_producer_generation frame = 0 \<or> fc_flags frame \<noteq> 0")
  case True
  then show ?thesis using assms by (auto simp: scene_commit_def commit_outcome_def cr_accepted_def Let_def)
next
  case False
  let ?r = "\<lparr>cr_result = FR_Rejected_Incomplete_Metadata, cr_presented_generation = md_presented_generation m, cr_damage = []\<rparr>"
  have r: "\<not> cr_accepted ?r" by (simp add: cr_accepted_def)
  show ?thesis
  proof (cases "md_profile m")
    case Historical
    with False assms have "commit_historical frame ?r m = (r, m')" by (simp add: scene_commit_def Let_def)
    from commit_historical_outcome [OF this r _ _ Historical] show ?thesis by simp
  next
    case OutputModel
    with False assms have "commit_outputs frame ?r m = (r, m')" by (simp add: scene_commit_def Let_def)
    from commit_outputs_outcome [OF this r _ _ OutputModel] show ?thesis by simp
  qed
qed

lemma scene_commit_guards:
  assumes "scene_commit frame m = (r, m')" "cr_accepted r"
  shows "\<not> md_snapshot_active m" "md_initial_snapshot_received m" "fc_producer_generation frame \<noteq> 0"
  using assms by (auto simp: scene_commit_def Let_def cr_accepted_def split: if_splits)

section \<open>The invariant\<close>

text \<open>
  Every map is keyed by the identifier of its values, every value was validated for the profile, the
  limits hold and an output has at most one cursor.
\<close>

definition outputs_wf :: "scene_profile \<Rightarrow> (u64, output_upsert) RBT.rbt \<Rightarrow> bool" where
  "outputs_wf profile m \<longleftrightarrow> map_size m \<le> GWIPC_MAXIMUM_OUTPUTS \<and>
     (\<forall>oid u. RBT.lookup m oid = Some u \<longrightarrow> ou_output_id u = oid \<and> valid_scene_output u profile)"

definition surfaces_wf :: "scene_profile \<Rightarrow> (u64, surface_upsert) RBT.rbt \<Rightarrow> bool" where
  "surfaces_wf profile m \<longleftrightarrow> map_size m \<le> kMaximumSurfaces \<and>
     (\<forall>sid f. RBT.lookup m sid = Some f \<longrightarrow> su_surface_id f = sid \<and> valid_scene_surface f profile) \<and>
     (\<forall>i j f g. RBT.lookup m i = Some f \<and> RBT.lookup m j = Some g \<and>
        cursor_surface f \<and> cursor_surface g \<and> su_output_id f = su_output_id g \<longrightarrow> i = j)"

definition scene_wf :: "scene_profile \<Rightarrow> scene \<Rightarrow> bool" where
  "scene_wf profile s \<longleftrightarrow> outputs_wf profile (scn_outputs s) \<and> surfaces_wf profile (scn_surfaces s) \<and>
     (case scn_output s of None \<Rightarrow> True | Some u \<Rightarrow> profile = Historical \<and> valid_scene_output u Historical)"

lemma outputs_wf_empty: "outputs_wf profile RBT.empty"
  by (simp add: outputs_wf_def)

lemma outputs_wf_insert:
  assumes "outputs_wf profile m" "valid_scene_output u profile"
    and "map_contains m (ou_output_id u) \<or> map_size m \<noteq> GWIPC_MAXIMUM_OUTPUTS"
  shows "outputs_wf profile (RBT.insert (ou_output_id u) u m)"
  using assms by (auto simp: outputs_wf_def map_size_insert)

lemma outputs_wf_delete: "outputs_wf profile m \<Longrightarrow> outputs_wf profile (RBT.delete i m)"
  using map_size_delete_le [of i m] by (auto simp: outputs_wf_def restrict_map_def split: if_splits)

lemma surfaces_wf_empty: "surfaces_wf profile RBT.empty"
  by (simp add: surfaces_wf_def)

lemma surfaces_wf_delete: "surfaces_wf profile m \<Longrightarrow> surfaces_wf profile (RBT.delete i m)"
  using map_size_delete_le [of i m] by (auto simp: surfaces_wf_def restrict_map_def split: if_splits)

lemma surfaces_wf_insert:
  assumes "surfaces_wf profile m" "valid_scene_surface f profile"
    and "\<not> (cursor_surface f \<and> (\<exists>(sid, g) \<in> set (RBT.entries m). sid \<noteq> su_surface_id f \<and>
                    cursor_surface g \<and> su_output_id g = su_output_id f))"
    and "map_contains m (su_surface_id f) \<or> map_size m \<noteq> kMaximumSurfaces"
  shows "surfaces_wf profile (RBT.insert (su_surface_id f) f m)"
proof -
  have lone: "i = su_surface_id f" if "RBT.lookup m i = Some g" "cursor_surface f" "cursor_surface g"
      "su_output_id g = su_output_id f" for i g
    using assms(3) that by (auto simp: map_simps)
  have "map_size (RBT.insert (su_surface_id f) f m) \<le> kMaximumSurfaces"
    using assms(1,4) by (auto simp: surfaces_wf_def map_size_insert)
  moreover have "i = j" if "RBT.lookup (RBT.insert (su_surface_id f) f m) i = Some a"
      "RBT.lookup (RBT.insert (su_surface_id f) f m) j = Some b"
      "cursor_surface a" "cursor_surface b" "su_output_id a = su_output_id b" for i j a b
  proof -
    have old: "i = j" if "RBT.lookup m i = Some a" "RBT.lookup m j = Some b"
      using assms(1) that \<open>cursor_surface a\<close> \<open>cursor_surface b\<close> \<open>su_output_id a = su_output_id b\<close>
      unfolding surfaces_wf_def by blast
    show ?thesis
    proof (cases "i = su_surface_id f")
      case True
      then show ?thesis using that lone [of j b] by (cases "j = su_surface_id f") simp_all
    next
      case False
      then show ?thesis using that lone [of i a] old by (cases "j = su_surface_id f") simp_all
    qed
  qed
  moreover have "\<forall>i a. RBT.lookup (RBT.insert (su_surface_id f) f m) i = Some a \<longrightarrow>
      su_surface_id a = i \<and> valid_scene_surface a profile"
    using assms(1,2) by (simp add: surfaces_wf_def)
  ultimately show ?thesis unfolding surfaces_wf_def by blast
qed

lemma scene_wf_empty: "scene_wf profile empty_scene"
  by (simp add: scene_wf_def empty_scene_def outputs_wf_empty surfaces_wf_empty)

lemma scene_wf_irrelevant [simp]:
  "scene_wf profile (s\<lparr>scn_primary_output_id := p\<rparr>) = scene_wf profile s"
  "scene_wf profile (s\<lparr>scn_configuration_generation := g\<rparr>) = scene_wf profile s"
  "scene_wf profile (s\<lparr>scn_surface_policies := y\<rparr>) = scene_wf profile s"
  "scene_wf profile (s\<lparr>scn_surface_outputs := x\<rparr>) = scene_wf profile s"
  by (simp_all add: scene_wf_def)

lemma scene_wf_infer:
  assumes "scene_wf Historical s"
  shows "scene_wf Historical (infer_historical_output_state s)"
proof (cases "scn_output s")
  case None
  with assms show ?thesis by (simp add: scene_wf_def infer_historical_output_state_def Let_def outputs_wf_empty)
next
  case (Some u)
  with assms have "outputs_wf Historical (RBT.insert (ou_output_id u) u RBT.empty)"
    by (intro outputs_wf_insert outputs_wf_empty) (simp_all add: scene_wf_def GWIPC_MAXIMUM_OUTPUTS_def)
  with Some assms show ?thesis by (simp add: scene_wf_def infer_historical_output_state_def Let_def)
qed

definition scene_model_ok :: "scene_profile \<Rightarrow> scene_model \<Rightarrow> bool" where
  "scene_model_ok profile m \<longleftrightarrow>
     md_profile m = profile \<and> scene_wf profile (md_pending m) \<and> scene_wf profile (md_committed m) \<and>
     (\<forall>s. md_pre_snapshot_pending m = Some s \<longrightarrow> scene_wf profile s) \<and>
     (md_snapshot_active m \<longleftrightarrow> md_pre_snapshot_pending m \<noteq> None) \<and>
     (if md_presented_generation m = 0 then md_committed m = empty_scene else committable profile (md_committed m))"

text \<open>Operations that only edit the pending scene or its damage.\<close>

definition pending_edit :: "scene_model \<Rightarrow> scene_model \<Rightarrow> bool" where
  "pending_edit m m' \<longleftrightarrow> (\<exists>p d. m' = m\<lparr>md_pending := p, md_explicit_damage := d\<rparr> \<and>
     (scene_wf (md_profile m) (md_pending m) \<longrightarrow> scene_wf (md_profile m) p))"

lemma pending_edit_refl: "pending_edit m m"
  by (cases m) (auto simp: pending_edit_def)

lemma pending_editI:
  assumes "scene_wf (md_profile m) (md_pending m) \<Longrightarrow> scene_wf (md_profile m) p"
  shows "pending_edit m (m\<lparr>md_pending := p\<rparr>)"
  using assms by (cases m) (auto simp: pending_edit_def)

lemma pending_edit_damageI: "pending_edit m (m\<lparr>md_explicit_damage := d\<rparr>)"
  by (cases m) (auto simp: pending_edit_def)

fun edit_operation :: "scene_operation \<Rightarrow> bool" where
  "edit_operation (Sc_Configure p g) = True"
| "edit_operation (Sc_Output u) = True"
| "edit_operation (Sc_Output_Remove i) = True"
| "edit_operation (Sc_Surface s) = True"
| "edit_operation (Sc_Surface_Output s) = True"
| "edit_operation (Sc_Policy p) = True"
| "edit_operation (Sc_Surface_Remove i) = True"
| "edit_operation (Sc_Damage d) = True"
| "edit_operation _ = False"

lemma scene_wf_edits:
  "scene_wf Historical s \<Longrightarrow> valid_scene_output u Historical \<Longrightarrow> scene_wf Historical (s\<lparr>scn_output := Some u\<rparr>)"
  "scene_wf profile s \<Longrightarrow> scene_wf profile (s\<lparr>scn_output := None\<rparr>)"
  "scene_wf profile s \<Longrightarrow> valid_scene_output u profile \<Longrightarrow>
     map_contains (scn_outputs s) (ou_output_id u) \<or> map_size (scn_outputs s) \<noteq> GWIPC_MAXIMUM_OUTPUTS \<Longrightarrow>
     scene_wf profile (s\<lparr>scn_outputs := RBT.insert (ou_output_id u) u (scn_outputs s)\<rparr>)"
  "scene_wf profile s \<Longrightarrow> scene_wf profile (s\<lparr>scn_outputs := RBT.delete i (scn_outputs s)\<rparr>)"
  by (simp_all add: scene_wf_def outputs_wf_insert outputs_wf_delete)

lemma apply_output_edit: "pending_edit m (snd (apply_output u m))"
  by (cases "md_profile m")
    (auto simp: apply_output_def Let_def intro!: pending_edit_refl pending_editI scene_wf_infer scene_wf_edits)

lemma apply_output_remove_edit: "pending_edit m (snd (apply_output_remove i m))"
  by (cases "md_profile m")
    (auto simp: apply_output_remove_def Let_def intro!: pending_edit_refl pending_editI scene_wf_infer scene_wf_edits
      split: option.splits)

lemma apply_surface_edit: "pending_edit m (snd (apply_surface f m))"
proof -
  let ?p = "(md_pending m)\<lparr>scn_surfaces := RBT.insert (su_surface_id f) f (scn_surfaces (md_pending m))\<rparr>"
  have "scene_wf (md_profile m) (if md_profile m = Historical then infer_historical_output_state ?p else ?p)"
    if "scene_wf (md_profile m) (md_pending m)" "fst (apply_surface f m)"
  proof -
    have "scene_wf (md_profile m) ?p"
      using that surfaces_wf_insert [of "md_profile m" "scn_surfaces (md_pending m)" f]
      by (simp add: apply_surface_def Let_def scene_wf_def split: if_splits)
    then show ?thesis using scene_wf_infer by auto
  qed
  then show ?thesis
    by (cases "fst (apply_surface f m)")
      (auto simp: apply_surface_def Let_def intro!: pending_edit_refl pending_editI split: if_splits)
qed

lemma apply_surface_remove_edit: "pending_edit m (snd (apply_surface_remove i m))"
proof -
  have "scene_wf (md_profile m) ((md_pending m)\<lparr>scn_surfaces := RBT.delete i (scn_surfaces (md_pending m)),
      scn_surface_policies := p, scn_surface_outputs := q\<rparr>)" if "scene_wf (md_profile m) (md_pending m)" for p q
    using that by (simp add: scene_wf_def surfaces_wf_delete)
  then show ?thesis unfolding apply_surface_remove_def Let_def using pending_edit_refl pending_editI by simp
qed

lemma set_snapshot_output_configuration_edit: "pending_edit m (snd (set_snapshot_output_configuration p g m))"
  by (auto simp: set_snapshot_output_configuration_def Let_def intro!: pending_edit_refl pending_editI)

lemma apply_surface_output_state_edit: "pending_edit m (snd (apply_surface_output_state s m))"
  by (auto simp: apply_surface_output_state_def Let_def intro!: pending_edit_refl pending_editI)

lemma apply_surface_policy_edit: "pending_edit m (snd (apply_surface_policy y m))"
  by (auto simp: apply_surface_policy_def Let_def intro!: pending_edit_refl pending_editI)

lemma apply_surface_damage_edit: "pending_edit m (snd (apply_surface_damage d m))"
  by (simp add: apply_surface_damage_def Let_def pending_edit_refl pending_edit_damageI)

lemmas edits_pending = apply_output_edit apply_output_remove_edit apply_surface_edit apply_surface_remove_edit
  set_snapshot_output_configuration_edit apply_surface_output_state_edit apply_surface_policy_edit apply_surface_damage_edit

lemma edit_operation_edits:
  assumes "scene_step m operation accepted m'" "edit_operation operation"
  shows "pending_edit m m'"
proof -
  from assms(1) have "scene_apply operation m = Some (accepted, m')" by (simp add: scene_step_iff)
  with assms(2) show ?thesis
    by (cases operation) (auto dest!: arg_cong [of _ _ snd] intro: edits_pending simp del: prod.inject)
qed

lemma pending_edit_ok: "scene_model_ok profile m \<Longrightarrow> pending_edit m m' \<Longrightarrow> scene_model_ok profile m'"
  by (auto simp: scene_model_ok_def pending_edit_def)

lemma scene_model_ok_step:
  assumes "scene_model_ok profile m" "scene_step m operation accepted m'"
  shows "scene_model_ok profile m'"
proof (cases "edit_operation operation")
  case True
  with edit_operation_edits [OF assms(2)] assms(1) show ?thesis using pending_edit_ok by blast
next
  case False
  then show ?thesis
  proof (cases operation)
    case (Sc_Commit frame)
    with assms(2) obtain r where c: "scene_commit frame m = (r, m')" by (auto simp: scene_step_iff split: prod.splits)
    note o = scene_commit_outcome [OF c, unfolded commit_outcome_def]
    show ?thesis
    proof (cases "cr_accepted r")
      case True
      with scene_commit_guards(3) [OF c] o assms(1) show ?thesis by (simp add: scene_model_ok_def install_def)
    qed (use o assms(1) in simp)
  next
    case Sc_End
    with assms show ?thesis
      by (auto simp: scene_step_iff end_complete_snapshot_def Let_def scene_model_ok_def scene_wf_infer split: if_splits)
  qed (use assms in \<open>auto simp: scene_step_iff begin_complete_snapshot_def begin_complete_snapshot_outputs_def
      abort_complete_snapshot_def scene_disconnect_def new_scene_model_def Let_def scene_model_ok_def scene_wf_empty
      split: if_splits option.splits\<close>)
qed

lemma scene_reachable_ok: "scene_reachable profile m \<Longrightarrow> scene_model_ok profile m"
proof (induction rule: scene_reachable.induct)
  case start
  show ?case by (simp add: scene_model_ok_def new_scene_model_def scene_wf_empty)
next
  case (step m operation accepted m')
  then show ?case using scene_model_ok_step by blast
qed

section \<open>Snapshots\<close>

text \<open>The view a snapshot protects: the pending scene and its recorded damage.\<close>

definition scene_view :: "scene_model \<Rightarrow> scene \<times> pending_damage list" where
  "scene_view m = (md_pending m, md_explicit_damage m)"

definition scene_saved :: "scene_model \<Rightarrow> (scene \<times> pending_damage list) option" where
  "scene_saved m = map_option (\<lambda>s. (s, md_pre_snapshot_damage m)) (md_pre_snapshot_pending m)"

definition scene_opens :: "scene_model \<Rightarrow> scene_model \<Rightarrow> bool" where
  "scene_opens m m' \<longleftrightarrow> begin_complete_snapshot m = (True, m') \<or>
     (\<exists>p g. begin_complete_snapshot_outputs p g m = (True, m'))"

text \<open>Inside a snapshot every operation but ending it, aborting it and disconnecting.\<close>

definition scene_edits :: "scene_model \<Rightarrow> scene_model \<Rightarrow> bool" where
  "scene_edits m m' \<longleftrightarrow> md_snapshot_active m \<and> (\<exists>operation accepted. scene_step m operation accepted m' \<and>
     operation \<noteq> Sc_End \<and> operation \<noteq> Sc_Abort \<and> operation \<noteq> Sc_Disconnect)"

lemma scene_edit_keeps:
  assumes "scene_edits m m'"
  shows "md_snapshot_active m' \<and> scene_saved m' = scene_saved m"
proof -
  obtain operation accepted where s: "scene_step m operation accepted m'" "operation \<noteq> Sc_End" "operation \<noteq> Sc_Abort"
    "operation \<noteq> Sc_Disconnect" and a: "md_snapshot_active m" using assms by (auto simp: scene_edits_def)
  show ?thesis
  proof (cases "edit_operation operation")
    case True
    with edit_operation_edits [OF s(1)] a show ?thesis by (auto simp: pending_edit_def scene_saved_def)
  next
    case False
    with s a show ?thesis
      by (cases operation) (auto simp: scene_step_iff begin_complete_snapshot_def begin_complete_snapshot_outputs_def
          scene_commit_def Let_def)
  qed
qed

interpretation scene_snap: snapshot md_snapshot_active scene_view scene_saved scene_opens scene_edits abort_complete_snapshot
proof
  fix s s' :: scene_model
  assume "scene_opens s s'"
  then show "md_snapshot_active s' \<and> scene_saved s' = Some (scene_view s)"
    by (auto simp: scene_opens_def begin_complete_snapshot_def begin_complete_snapshot_outputs_def scene_saved_def
        scene_view_def split: if_splits)
next
  fix s s' :: scene_model
  assume "scene_edits s s'"
  then show "md_snapshot_active s' \<and> scene_saved s' = scene_saved s" by (rule scene_edit_keeps)
next
  fix s :: scene_model and v
  assume "md_snapshot_active s" "scene_saved s = Some v"
  then show "\<exists>s'. abort_complete_snapshot s = Some s' \<and> scene_view s' = v \<and> \<not> md_snapshot_active s'"
    by (auto simp: abort_complete_snapshot_def scene_saved_def scene_view_def)
qed

end
