(* ===== verification/Scene_Damage.thy ===== *)
theory Scene_Damage
  imports Scene_Safety
begin

text \<open>
  What has to be repainted: the native damage of every output for a scene transition
  (\<open>compositor/output_damage.cpp\<close>, with the filter choice of
  \<open>render/software/multi_output_scene_renderer.cpp\<close>), and the damage of a historical commit.
\<close>

section \<open>Model\<close>

datatype sampling_filter = Filter_Direct | Filter_Nearest | Filter_Bilinear

definition select_sampling_filter :: "rational_scale \<Rightarrow> u32 \<Rightarrow> sampling_filter" where
  "select_sampling_filter output_scale client_buffer_scale =
     (if client_buffer_scale = 0 \<or> sc_numerator output_scale = 0 \<or> sc_denominator output_scale = 0 then Filter_Bilinear
      else let client_denominator = (ucast (sc_denominator output_scale) :: u64) * ucast client_buffer_scale
           in if ucast (sc_numerator output_scale) = client_denominator then Filter_Direct
              else if ucast (sc_numerator output_scale) > client_denominator \<and>
                      ucast (sc_numerator output_scale) mod client_denominator = 0 then Filter_Nearest
              else Filter_Bilinear)"

definition same_shape :: "output_upsert \<Rightarrow> output_upsert \<Rightarrow> bool" where
  "same_shape left right \<longleftrightarrow>
     ou_enabled left = ou_enabled right \<and> ou_logical_x left = ou_logical_x right \<and>
     ou_logical_y left = ou_logical_y right \<and> ou_logical_width left = ou_logical_width right \<and>
     ou_logical_height left = ou_logical_height right \<and>
     ou_physical_pixel_width left = ou_physical_pixel_width right \<and>
     ou_physical_pixel_height left = ou_physical_pixel_height right \<and>
     ou_scale_numerator left = ou_scale_numerator right \<and>
     ou_scale_denominator left = ou_scale_denominator right \<and> ou_transform left = ou_transform right"

definition same_surface :: "surface_upsert \<Rightarrow> surface_upsert \<Rightarrow> bool" where
  "same_surface left right \<longleftrightarrow>
     su_logical_x left = su_logical_x right \<and> su_logical_y left = su_logical_y right \<and>
     su_logical_width left = su_logical_width right \<and> su_logical_height left = su_logical_height right \<and>
     su_stacking left = su_stacking right \<and> su_visible left = su_visible right \<and>
     su_clipping left = su_clipping right \<and> su_clip_x left = su_clip_x right \<and>
     su_clip_y left = su_clip_y right \<and> su_clip_width left = su_clip_width right \<and>
     su_clip_height left = su_clip_height right \<and> su_opacity left = su_opacity right \<and>
     su_scale_numerator left = su_scale_numerator right \<and>
     su_scale_denominator left = su_scale_denominator right \<and>
     su_presentation_flags left = su_presentation_flags right"

definition surface_bounds :: "surface_upsert \<Rightarrow> logical_rectangle option" where
  "surface_bounds surface =
     (let local = make_rectangle 0 0 (su_logical_width surface) (su_logical_height surface)
      in case (if su_clipping surface \<noteq> 0
               then intersection local (make_rectangle (su_clip_x surface) (su_clip_y surface)
                      (su_clip_width surface) (su_clip_height surface))
               else Some local) of
           None \<Rightarrow> None
         | Some local' \<Rightarrow>
             (case translate local' (su_logical_x surface) (su_logical_y surface) of
                None \<Rightarrow> None
              | Some placed \<Rightarrow> Some (make_rectangle (rect_x placed) (rect_y placed) (rect_width placed) (rect_height placed))))"

definition member_of :: "scene \<Rightarrow> u64 \<Rightarrow> u64 \<Rightarrow> bool" where
  "member_of scene surface_id output_id =
     (case RBT.lookup (scn_surface_outputs scene) surface_id of
        None \<Rightarrow> False | Some membership \<Rightarrow> output_id \<in> set (sm_output_ids membership))"

definition footprint :: "output_upsert \<Rightarrow> surface_upsert \<Rightarrow> damage_filter_footprint" where
  "footprint output surface =
     (let filter' = select_sampling_filter
            \<lparr>sc_numerator = ou_scale_numerator output, sc_denominator = ou_scale_denominator output\<rparr>
            (su_scale_numerator surface)
      in if filter' = Filter_Bilinear then Footprint_Bilinear else Footprint_Point)"

definition native_rectangle_of :: "physical_rectangle \<Rightarrow> rectangle" where
  "native_rectangle_of native = make_rectangle (ucast (pr_x native)) (ucast (pr_y native)) (pr_width native) (pr_height native)"

definition add_surface :: "scene \<Rightarrow> u64 \<Rightarrow> output_upsert \<Rightarrow> damage_region \<Rightarrow> damage_region" where
  "add_surface scene surface_id output damage =
     (case RBT.lookup (scn_surfaces scene) surface_id of
        None \<Rightarrow> damage
      | Some surface \<Rightarrow>
          if su_visible surface = 0 \<or> \<not> member_of scene surface_id (ou_output_id output) then damage
          else case surface_bounds surface of
                 None \<Rightarrow> damage
               | Some bounds \<Rightarrow>
                   (case map_logical_damage_to_native (upsert_mapping output) bounds (footprint output surface) of
                      None \<Rightarrow> damage
                    | Some native \<Rightarrow> damage_add damage (native_rectangle_of native)))"

definition changed_surface :: "scene \<Rightarrow> scene \<Rightarrow> u64 list \<Rightarrow> u64 \<Rightarrow> bool" where
  "changed_surface before after content_changed surface_id \<longleftrightarrow>
     surface_id \<in> set content_changed \<or>
     (case (RBT.lookup (scn_surfaces before) surface_id, RBT.lookup (scn_surfaces after) surface_id) of
        (Some old, Some now) \<Rightarrow> \<not> same_surface old now | _ \<Rightarrow> True) \<or>
     (case (RBT.lookup (scn_surface_outputs before) surface_id, RBT.lookup (scn_surface_outputs after) surface_id) of
        (Some old, Some now) \<Rightarrow> old \<noteq> now | _ \<Rightarrow> True)"

definition damage_changed ::
    "scene \<Rightarrow> scene \<Rightarrow> u64 list \<Rightarrow> output_upsert \<Rightarrow> output_upsert \<Rightarrow> u64 \<Rightarrow> damage_region \<Rightarrow> damage_region" where
  "damage_changed before after content_changed previous output surface_id damage =
     (if \<not> changed_surface before after content_changed surface_id then damage
      else add_surface after surface_id output (add_surface before surface_id previous damage))"

definition transition_ids :: "scene \<Rightarrow> scene \<Rightarrow> u64 list \<Rightarrow> u64 list" where
  "transition_ids before after content_changed =
     sort (remdups (RBT.keys (scn_surfaces before) @ RBT.keys (scn_surfaces after) @ content_changed))"

text \<open>The body of the loop over the outputs: the entry it puts into the result, if any.\<close>

definition output_entry :: "scene \<Rightarrow> scene \<Rightarrow> u64 list \<Rightarrow> u64 \<Rightarrow> output_upsert \<Rightarrow> rectangle list option" where
  "output_entry before after content_changed output_id output =
     (if ou_enabled output = 0 then None
      else let damage = make_damage_region
                 (make_rectangle 0 0 (ou_physical_pixel_width output) (ou_physical_pixel_height output));
               full = Some (damage_rectangles (add_full_output damage))
           in case RBT.lookup (scn_outputs before) output_id of
                None \<Rightarrow> full
              | Some previous \<Rightarrow>
                  if \<not> same_shape previous output then full
                  else let damage' = fold (damage_changed before after content_changed previous output)
                             (transition_ids before after content_changed) damage
                       in if damage_rectangles damage' = [] then None else Some (damage_rectangles damage'))"

definition calculate_output_damage :: "scene \<Rightarrow> scene \<Rightarrow> u64 list \<Rightarrow> (u64, rectangle list) RBT.rbt" where
  "calculate_output_damage before after content_changed =
     fold (\<lambda>(output_id, output) result.
             case output_entry before after content_changed output_id output of
               None \<Rightarrow> result | Some rectangles \<Rightarrow> map_emplace output_id rectangles result)
       (RBT.entries (scn_outputs after)) RBT.empty"

section \<open>Accumulating damage\<close>

text \<open>
  A fold of operations that keep an invariant and only ever add pixels holds what each of its steps
  puts in.
\<close>

locale accumulator =
  fixes inv :: "'d \<Rightarrow> bool" and pts :: "'d \<Rightarrow> 'p set" and f :: "'a \<Rightarrow> 'd \<Rightarrow> 'd"
  assumes keeps: "inv d \<Longrightarrow> inv (f a d)"
    and grows: "inv d \<Longrightarrow> pts d \<subseteq> pts (f a d)"
begin

lemma fold_keeps: "inv d \<Longrightarrow> inv (fold f xs d)"
  by (induction xs arbitrary: d) (simp_all add: keeps)

lemma fold_grows: "inv d \<Longrightarrow> pts d \<subseteq> pts (fold f xs d)"
proof (induction xs arbitrary: d)
  case (Cons x xs)
  then show ?case using grows [of d x] keeps [of d x] by fastforce
qed simp

lemma fold_contains:
  assumes "inv d" "x \<in> set xs" "\<And>e. inv e \<Longrightarrow> P \<subseteq> pts (f x e)"
  shows "P \<subseteq> pts (fold f xs d)"
proof -
  obtain ys zs where xs: "xs = ys @ x # zs" using assms(2) by (auto simp: in_set_conv_decomp)
  let ?d = "fold f ys d"
  have "inv ?d" by (rule fold_keeps [OF assms(1)])
  then show ?thesis using fold_grows [of "f x ?d" zs] keeps [of ?d x] assms(3) [of ?d] by (auto simp: xs)
qed

end

text \<open>The damage regions of one output and the pixels they hold.\<close>

definition damage_in :: "rectangle \<Rightarrow> damage_region \<Rightarrow> bool" where
  "damage_in b d \<longleftrightarrow> damage_ok d \<and> output_bounds d = b"

abbreviation damage_pts :: "damage_region \<Rightarrow> (int \<times> int) set" where
  "damage_pts d \<equiv> region_pts (damage_rectangles d)"

lemma damage_add_bounds [simp]: "output_bounds (damage_add d r) = output_bounds d"
  by (simp add: damage_add_def add_full_output_def normalize_def Let_def split: option.splits)

lemma damage_in_add: "damage_in b d \<Longrightarrow> damage_in b (damage_add d r)"
  by (simp add: damage_in_def damage_add_ok)

lemma damage_in_start: "damage_in b (make_damage_region b)" "damage_in b (add_full_output (make_damage_region b))"
  by (simp_all add: damage_in_def damage_ok_make add_full_output_ok)
     (simp_all add: make_damage_region_def add_full_output_def)

lemma full_output_pts: "has_valid_extents b \<Longrightarrow> damage_pts (add_full_output (make_damage_region b)) = rect_pts b"
  by (cases "rect_empty b") (simp_all add: add_full_output_def make_damage_region_def rect_empty_pts)

lemma damage_in_pts: "damage_in b d \<Longrightarrow> damage_pts d \<subseteq> rect_pts b"
  using rect_within_pts [of b] unfolding damage_in_def damage_ok_def damage_ok_in_def by blast

lemma damage_add_contains:
  assumes "damage_in b d" "has_valid_extents b" "has_valid_extents r"
  shows "rect_pts r \<inter> rect_pts b \<subseteq> damage_pts (damage_add d r)"
  using damage_add_pts(1) [of d r] assms by (auto simp: damage_in_def)

lemma damage_add_grows:
  assumes "damage_in b d"
  shows "damage_pts d \<subseteq> damage_pts (damage_add d r)"
proof (cases "has_valid_extents b \<and> has_valid_extents r")
  case True
  with assms damage_add_pts(1) [of d r] show ?thesis by (auto simp: damage_in_def)
next
  case False
  with assms have "damage_add d r = d"
    by (auto simp: damage_add_def damage_in_def intersection_def)
  then show ?thesis by simp
qed

lemma add_surface_keeps: "damage_in b d \<Longrightarrow> damage_in b (add_surface s i u d)"
  by (simp add: add_surface_def damage_in_add split: option.splits)

lemma add_surface_grows: "damage_in b d \<Longrightarrow> damage_pts d \<subseteq> damage_pts (add_surface s i u d)"
  using damage_add_grows by (simp add: add_surface_def split: option.splits)

interpretation changes: accumulator "damage_in b" damage_pts "damage_changed before after content_changed previous current"
  for b before after content_changed previous current
proof
  fix d a
  assume d: "damage_in b d"
  then show "damage_in b (damage_changed before after content_changed previous current a d)"
    by (simp add: damage_changed_def add_surface_keeps)
  show "damage_pts d \<subseteq> damage_pts (damage_changed before after content_changed previous current a d)"
    using add_surface_grows [OF d, of before a previous]
      add_surface_grows [OF add_surface_keeps [OF d, of before a previous], of after a current]
    by (simp add: damage_changed_def) blast
qed

lemma add_bounds_keeps: "damage_in b d \<Longrightarrow> damage_in b (add_bounds r d)"
  by (simp add: add_bounds_def damage_in_add split: option.splits)

lemma add_bounds_grows: "damage_in b d \<Longrightarrow> damage_pts d \<subseteq> damage_pts (add_bounds r d)"
  using damage_add_grows by (simp add: add_bounds_def split: option.splits)

interpretation items: accumulator "damage_in b" damage_pts "\<lambda>r. add_bounds (damage_item s r)" for b s
  using add_bounds_keeps add_bounds_grows by unfold_locales

interpretation explicit: accumulator "damage_in b" damage_pts "damage_explicit pending" for b pending
proof
  fix d a
  assume d: "damage_in b d"
  show "damage_in b (damage_explicit pending a d)"
    using items.fold_keeps [OF d] by (simp add: damage_explicit_def d split: option.splits)
  show "damage_pts d \<subseteq> damage_pts (damage_explicit pending a d)"
    using items.fold_grows [OF d] by (simp add: damage_explicit_def split: option.splits)
qed

interpretation moves: accumulator "damage_in b" damage_pts "damage_surface committed pending current"
  for b committed pending current
proof
  fix d a
  assume d: "damage_in b d"
  then show "damage_in b (damage_surface committed pending current a d)"
    by (auto simp: damage_surface_def Let_def add_bounds_keeps split: option.splits)
  show "damage_pts d \<subseteq> damage_pts (damage_surface committed pending current a d)"
  proof (cases "RBT.lookup (scn_surfaces committed) a")
    case None
    with d show ?thesis
      using add_bounds_grows by (auto simp: damage_surface_def Let_def split: option.splits)
  next
    case (Some s)
    let ?d = "case scn_output committed of None \<Rightarrow> d | Some u \<Rightarrow> add_bounds (effective_bounds s u) d"
    have "damage_in b ?d" "damage_pts d \<subseteq> damage_pts ?d"
      using d add_bounds_keeps add_bounds_grows by (auto split: option.splits)
    then have "damage_pts d \<subseteq> damage_pts (case RBT.lookup (scn_surfaces pending) a of None \<Rightarrow> ?d
        | Some s \<Rightarrow> add_bounds (effective_bounds s current) ?d)"
      using add_bounds_grows [of b ?d] by (simp split: option.splits) blast
    with Some d show ?thesis
      by (simp add: damage_surface_def Let_def cong: option.case_cong split: option.splits)
  qed
qed

section \<open>Native damage covers what a surface reaches\<close>

text \<open>
  A surface reaches a native pixel of an output when it is visible, a member of the output, and the
  centre of the pixel, or for a bilinear filter of one of its neighbours, samples its bounds.
\<close>

definition surface_reaches :: "scene \<Rightarrow> output_upsert \<Rightarrow> u64 \<Rightarrow> int \<times> int \<Rightarrow> bool" where
  "surface_reaches scene output surface_id = (\<lambda>(x, y).
     \<exists>surface bounds p sample.
       RBT.lookup (scn_surfaces scene) surface_id = Some surface \<and> su_visible surface \<noteq> 0 \<and>
       member_of scene surface_id (ou_output_id output) \<and> surface_bounds surface = Some bounds \<and>
       map_native_pixel_center_to_logical (upsert_mapping output) p = Some sample \<and> sample_inside sample bounds \<and>
       (if footprint output surface = Footprint_Bilinear
        then \<bar>x - uint (pp_x p)\<bar> \<le> 1 \<and> \<bar>y - uint (pp_y p)\<bar> \<le> 1
        else x = uint (pp_x p) \<and> y = uint (pp_y p)))"

definition native_bounds :: "output_upsert \<Rightarrow> rectangle" where
  "native_bounds output = make_rectangle 0 0 (ou_physical_pixel_width output) (ou_physical_pixel_height output)"

lemma native_bounds_pts:
  "rect_pts (native_bounds u) = {(x, y). 0 \<le> x \<and> x < uint (ou_physical_pixel_width u) \<and>
     0 \<le> y \<and> y < uint (ou_physical_pixel_height u)}"
  by (simp add: native_bounds_def rect_pts_def make_rectangle_def right_edge_def bottom_edge_def)

lemma uint_above_min: "int32_min \<le> uint (a :: u32)" "int32_min \<le> uint (a :: u32) + uint (b :: u32)"
  using uint32_range [of a] uint32_range [of b] by linarith+

lemma sint_small: "uint (a :: u32) \<le> int32_max \<Longrightarrow> sint a = uint a"
  using uint_above_min(1) [of a] by (simp add: sint_uint signed_take_bit_int_eq_self_iff)

lemma native_rectangle_of_pts:
  assumes "q \<in> pr_pts n" "pr_pts n \<subseteq> {(x, y). 0 \<le> x \<and> x < w \<and> 0 \<le> y \<and> y < h}" "w \<le> 4096" "h \<le> 4096"
  shows "rect_pts (native_rectangle_of n) = pr_pts n" "has_valid_extents (native_rectangle_of n)"
proof -
  have "(uint (pr_x n), uint (pr_y n)) \<in> pr_pts n" "(pr_right n - 1, pr_bottom n - 1) \<in> pr_pts n"
    using assms(1) by (auto simp: pr_pts_def)
  with assms(2) have "uint (pr_x n) < w" "uint (pr_y n) < h" "pr_right n \<le> w" "pr_bottom n \<le> h" by auto
  moreover from this have "sint (pr_x n) = uint (pr_x n)" "sint (pr_y n) = uint (pr_y n)"
    using assms(3,4) by (auto intro!: sint_small)
  ultimately show "rect_pts (native_rectangle_of n) = pr_pts n" "has_valid_extents (native_rectangle_of n)"
    using assms(3,4) uint_above_min(2) [of "pr_x n" "pr_width n"] uint_above_min(2) [of "pr_y n" "pr_height n"]
    by (auto simp: native_rectangle_of_def make_rectangle_def rect_pts_def pr_pts_def right_edge_def bottom_edge_def
        pr_right_def pr_bottom_def has_valid_extents_def coordinate_fits_def)
qed

lemma valid_scene_output_extent:
  assumes "valid_scene_output u OutputModel" "ou_enabled u \<noteq> 0"
  shows "uint (ou_physical_pixel_width u) \<le> 4096" "uint (ou_physical_pixel_height u) \<le> 4096"
  using assms by (auto simp: valid_scene_output_def word_le_def not_less word_less_def split: if_splits)

lemma native_bounds_valid:
  assumes "valid_scene_output u OutputModel" "ou_enabled u \<noteq> 0"
  shows "has_valid_extents (native_bounds u)"
  using valid_scene_output_extent [OF assms] uint_above_min(1)
  by (simp add: has_valid_extents_def native_bounds_def make_rectangle_def coordinate_fits_def right_edge_def bottom_edge_def)

lemma upsert_mapping_extent [simp]:
  "mp_physical_extent (upsert_mapping u) = \<lparr>pe_width = ou_physical_pixel_width u, pe_height = ou_physical_pixel_height u\<rparr>"
  by (simp add: upsert_mapping_def)

lemma add_surface_contains:
  assumes u: "valid_scene_output u OutputModel" "ou_enabled u \<noteq> 0" and d: "damage_in (native_bounds u) d"
    and q: "q \<in> rect_pts (native_bounds u)" "surface_reaches s u i q"
  shows "q \<in> damage_pts (add_surface s i u d)"
proof -
  note disp = valid_scene_output_displayable [OF u]
  obtain x y where xy: "q = (x, y)" by (cases q)
  obtain f b p sm where f: "RBT.lookup (scn_surfaces s) i = Some f" "su_visible f \<noteq> 0" "member_of s i (ou_output_id u)"
    "surface_bounds f = Some b" and p: "map_native_pixel_center_to_logical (upsert_mapping u) p = Some sm" "sample_inside sm b"
    and near: "if footprint u f = Footprint_Bilinear then \<bar>x - uint (pp_x p)\<bar> \<le> 1 \<and> \<bar>y - uint (pp_y p)\<bar> \<le> 1
        else x = uint (pp_x p) \<and> y = uint (pp_y p)"
    using q(2) by (auto simp: surface_reaches_def xy)
  obtain n where n: "map_logical_damage_to_native (upsert_mapping u) b (footprint u f) = Some n" "q \<in> pr_pts n"
  proof (cases "footprint u f = Footprint_Bilinear")
    case True
    have "\<exists>n. map_logical_damage_to_native (upsert_mapping u) b Footprint_Bilinear = Some n \<and> (x, y) \<in> pr_pts n"
      using q(1) near True by (intro bilinear_damage_covers [OF disp p]) (simp_all add: native_bounds_pts xy)
    with True that show thesis by (auto simp: xy)
  next
    case False
    then have "footprint u f = Footprint_Point" by (simp add: footprint_def Let_def split: if_splits)
    with point_damage_covers [OF disp p] near that show thesis by (auto simp: xy)
  qed
  have inside: "pr_pts n \<subseteq> {(x, y). 0 \<le> x \<and> x < uint (ou_physical_pixel_width u) \<and> 0 \<le> y \<and> y < uint (ou_physical_pixel_height u)}"
    using damage_native_inside [OF disp n(1)] by simp
  note r = native_rectangle_of_pts [OF n(2) inside valid_scene_output_extent [OF u]]
  have "q \<in> damage_pts (damage_add d (native_rectangle_of n))"
    using damage_add_contains [OF d native_bounds_valid [OF u] r(2)] n(2) q(1) by (auto simp: r(1))
  then show ?thesis by (simp add: add_surface_def f n(1))
qed

section \<open>The result per output\<close>

lemma lookup_fold_entry:
  assumes "distinct (map fst es)" "\<forall>k \<in> set (map fst es). RBT.lookup m k = None"
  shows "RBT.lookup (fold (\<lambda>(k, v) r. case f k v of None \<Rightarrow> r | Some w \<Rightarrow> map_emplace k w r) es m) k =
           (case map_of es k of None \<Rightarrow> RBT.lookup m k | Some v \<Rightarrow> f k v)"
  using assms
proof (induction es arbitrary: m)
  case (Cons e es)
  obtain k' v' where e: "e = (k', v')" by (cases e)
  let ?m = "case f k' v' of None \<Rightarrow> m | Some w \<Rightarrow> map_emplace k' w m"
  have m: "RBT.lookup ?m j = (if j = k' then f k' v' else RBT.lookup m j)" for j
    using Cons.prems(2) by (auto simp: e lookup_emplace split: option.splits)
  have "k' \<notin> set (map fst es)" using Cons.prems(1) by (simp add: e)
  with Cons.prems(2) have "\<forall>k \<in> set (map fst es). RBT.lookup ?m k = None" by (auto simp: e m)
  with Cons.IH [of ?m] Cons.prems(1) have "RBT.lookup (fold (\<lambda>(k, v) r. case f k v of None \<Rightarrow> r
      | Some w \<Rightarrow> map_emplace k w r) es ?m) k = (case map_of es k of None \<Rightarrow> RBT.lookup ?m k | Some v \<Rightarrow> f k v)"
    by (simp add: e)
  moreover have "map_of es k' = None" using \<open>k' \<notin> set (map fst es)\<close> by (simp add: map_of_eq_None_iff)
  ultimately show ?case by (auto simp: e m split: option.splits)
qed simp

lemma lookup_calculate_output_damage:
  "RBT.lookup (calculate_output_damage before after cs) i =
     (case RBT.lookup (scn_outputs after) i of None \<Rightarrow> None | Some u \<Rightarrow> output_entry before after cs i u)"
  unfolding calculate_output_damage_def
  by (subst lookup_fold_entry) (auto simp: keys_distinct_entries split: option.splits)

text \<open>The pixels of an output that a transition reports as damaged.\<close>

definition reported_pts :: "scene \<Rightarrow> scene \<Rightarrow> u64 list \<Rightarrow> u64 \<Rightarrow> (int \<times> int) set" where
  "reported_pts before after content_changed output_id =
     (case RBT.lookup (calculate_output_damage before after content_changed) output_id of
        None \<Rightarrow> {} | Some rectangles \<Rightarrow> region_pts rectangles)"

lemma reported_pts_eq:
  assumes "RBT.lookup (scn_outputs after) i = Some u" "valid_scene_output u OutputModel" "ou_enabled u \<noteq> 0"
  shows "reported_pts before after cs i =
    (case RBT.lookup (scn_outputs before) i of
       None \<Rightarrow> rect_pts (native_bounds u)
     | Some previous \<Rightarrow>
         if same_shape previous u
         then damage_pts (fold (damage_changed before after cs previous u) (transition_ids before after cs)
                (make_damage_region (native_bounds u)))
         else rect_pts (native_bounds u))"
proof -
  note full_output_pts [OF native_bounds_valid [OF assms(2,3)]]
  then show ?thesis
    using assms(1,3)
    by (auto simp: reported_pts_def lookup_calculate_output_damage output_entry_def Let_def
        native_bounds_def [symmetric] split: option.splits)
qed

lemma same_shape_reaches:
  assumes "same_shape a b"
  shows "native_bounds a = native_bounds b" "ou_enabled a = ou_enabled b"
  using assms by (simp_all add: same_shape_def native_bounds_def)

lemma reported_contains:
  assumes a: "RBT.lookup (scn_outputs after) i = Some u" "valid_scene_output u OutputModel" "ou_enabled u \<noteq> 0"
    and b: "RBT.lookup (scn_outputs before) i = Some v" "valid_scene_output v OutputModel" "same_shape v u"
    and q: "q \<in> rect_pts (native_bounds u)" "surface_reaches before v sid q \<or> surface_reaches after u sid q"
    and c: "changed_surface before after cs sid"
  shows "q \<in> reported_pts before after cs i"
proof -
  let ?b = "native_bounds u"
  have v: "native_bounds v = ?b" "ou_enabled v \<noteq> 0" using same_shape_reaches [OF b(3)] a(3) by simp_all
  have here: "sid \<in> set (transition_ids before after cs)"
    using q(2) by (auto simp: transition_ids_def map_simps surface_reaches_def split: prod.splits)
  have "{q} \<subseteq> damage_pts (damage_changed before after cs v u sid e)" if e: "damage_in ?b e" for e
  proof -
    note e' = add_surface_keeps [OF e, of before sid v]
    have "q \<in> damage_pts (add_surface before sid v e)" if "surface_reaches before v sid q"
      using add_surface_contains [OF b(2) v(2), of e q before sid] that e q(1) v(1) by simp
    moreover have "q \<in> damage_pts (add_surface after sid u (add_surface before sid v e))" if "surface_reaches after u sid q"
      using add_surface_contains [OF a(2,3) e' q(1) that] .
    ultimately show ?thesis
      using q(2) add_surface_grows [OF e', of after sid u] by (auto simp: damage_changed_def c)
  qed
  then have "{q} \<subseteq> damage_pts (fold (damage_changed before after cs v u) (transition_ids before after cs) (make_damage_region ?b))"
    by (intro changes.fold_contains [OF damage_in_start(1) here]) simp
  then show ?thesis by (simp add: reported_pts_eq [OF a] b(1,3))
qed

section \<open>The damage of a historical commit\<close>

text \<open>The pixels of an output that a surface covers, as the compositor clips it.\<close>

definition covered_pts :: "scene \<Rightarrow> output_upsert option \<Rightarrow> u64 \<Rightarrow> (int \<times> int) set" where
  "covered_pts scene output surface_id =
     (case (RBT.lookup (scn_surfaces scene) surface_id, output) of
        (Some surface, Some u) \<Rightarrow> (case effective_bounds surface u of None \<Rightarrow> {} | Some r \<Rightarrow> rect_pts r)
      | _ \<Rightarrow> {})"

lemma effective_bounds_within:
  assumes "effective_bounds s u = Some r"
  shows "rect_pts r \<subseteq> rect_pts (output_local u)" "has_valid_extents r"
proof -
  obtain t where t: "intersection t (output_local u) = Some r"
    using assms by (auto simp: effective_bounds_def split: if_splits option.splits)
  then have v: "has_valid_extents t" "has_valid_extents (output_local u)"
    by (auto simp: intersection_def split: if_splits)
  show "rect_pts r \<subseteq> rect_pts (output_local u)" using intersection_pts [OF v] t by auto
  have "intersect t (output_local u) = Some r" using t v by (simp add: intersection_intersect split: if_splits)
  then have "intersect (output_local u) t = Some r"
    by (simp add: intersect_def Let_def max.commute min.commute split: if_splits)
  then show "has_valid_extents r" using within_valid [OF v(2)] intersect_within by blast
qed

lemma add_bounds_contains:
  assumes "damage_in b d" "has_valid_extents b" "\<And>r. e = Some r \<Longrightarrow> has_valid_extents r"
    and "e = Some r" "q \<in> rect_pts r" "q \<in> rect_pts b"
  shows "q \<in> damage_pts (add_bounds e d)"
  using damage_add_contains [OF assms(1,2), of r] assms(3-6) by (auto simp: add_bounds_def)

lemma historical_output_valid:
  assumes "valid_scene_output u Historical"
  shows "has_valid_extents (output_local u)"
proof -
  have "uint (ou_logical_width u) \<le> 4096" "uint (ou_logical_height u) \<le> 4096"
    using assms by (auto simp: valid_scene_output_def word_le_def split: if_splits)
  then show ?thesis
    using uint_above_min(1)
    by (simp add: has_valid_extents_def output_local_def make_rectangle_def coordinate_fits_def right_edge_def bottom_edge_def)
qed

lemma same_output_shape_local:
  assumes "same_output_shape (Some v) (Some u)"
  shows "output_local v = output_local u"
  using assms by (simp add: same_output_shape_def output_local_def)

lemma damage_surface_contains:
  assumes d: "damage_in (output_local u) d" and u: "has_valid_extents (output_local u)"
    and shape: "same_output_shape (scn_output before) (Some u)"
    and c: "surface_changed (RBT.lookup (scn_surfaces before) i) (RBT.lookup (scn_surfaces after) i)"
    and q: "q \<in> covered_pts before (scn_output before) i \<or> q \<in> covered_pts after (Some u) i"
  shows "q \<in> damage_pts (damage_surface before after u i d)"
proof -
  let ?d = "case RBT.lookup (scn_surfaces before) i of None \<Rightarrow> d
      | Some s \<Rightarrow> (case scn_output before of None \<Rightarrow> d | Some o' \<Rightarrow> add_bounds (effective_bounds s o') d)"
  have d': "damage_in (output_local u) ?d" using d by (simp add: add_bounds_keeps split: option.splits)
  have eq: "damage_surface before after u i d =
      (case RBT.lookup (scn_surfaces after) i of None \<Rightarrow> ?d | Some s \<Rightarrow> add_bounds (effective_bounds s u) ?d)"
    using c by (simp add: damage_surface_def Let_def)
  have old: "q \<in> damage_pts ?d" if "q \<in> covered_pts before (scn_output before) i"
  proof -
    from that obtain s v r where s: "RBT.lookup (scn_surfaces before) i = Some s" "scn_output before = Some v"
        "effective_bounds s v = Some r" "q \<in> rect_pts r"
      by (auto simp: covered_pts_def split: option.splits)
    with shape have "output_local v = output_local u" using same_output_shape_local by simp
    then have "q \<in> rect_pts (output_local u)" using effective_bounds_within(1) [OF s(3)] s(4) by auto
    from add_bounds_contains [OF d u _ s(3,4) this] s effective_bounds_within(2) show ?thesis by simp
  qed
  show ?thesis
  proof (cases "q \<in> covered_pts after (Some u) i")
    case True
    then obtain s r where s: "RBT.lookup (scn_surfaces after) i = Some s" "effective_bounds s u = Some r" "q \<in> rect_pts r"
      by (auto simp: covered_pts_def split: option.splits)
    then have "q \<in> rect_pts (output_local u)" using effective_bounds_within(1) by blast
    from add_bounds_contains [OF d' u _ s(2,3) this] effective_bounds_within(2) show ?thesis by (simp add: eq s(1))
  next
    case False
    with q old have "q \<in> damage_pts ?d" by blast
    with add_bounds_grows [OF d'] show ?thesis by (auto simp: eq split: option.splits)
  qed
qed

lemma historical_damage_contains:
  assumes u: "has_valid_extents (output_local u)" "scn_output (md_pending m) = Some u"
    and q: "q \<in> rect_pts (output_local u)"
    and c: "\<not> same_output_shape (scn_output (md_committed m)) (Some u) \<or>
      surface_changed (RBT.lookup (scn_surfaces (md_committed m)) i) (RBT.lookup (scn_surfaces (md_pending m)) i) \<and>
      (q \<in> covered_pts (md_committed m) (scn_output (md_committed m)) i \<or> q \<in> covered_pts (md_pending m) (Some u) i)"
  shows "q \<in> damage_pts (historical_damage m u)"
proof -
  let ?b = "output_local u"
  let ?d = "if same_output_shape (scn_output (md_committed m)) (Some u) then make_damage_region ?b
      else add_full_output (make_damage_region ?b)"
  let ?e = "fold (damage_surface (md_committed m) (md_pending m) u) (surface_ids (md_committed m) (md_pending m)) ?d"
  have d: "damage_in ?b ?d" using damage_in_start by simp
  have e: "damage_in ?b ?e" by (rule moves.fold_keeps [OF d])
  have "q \<in> damage_pts ?e"
  proof (cases "same_output_shape (scn_output (md_committed m)) (Some u)")
    case False
    then have "q \<in> damage_pts ?d" using full_output_pts [OF u(1)] q by simp
    then show ?thesis by (rule subsetD [OF moves.fold_grows [OF d]])
  next
    case True
    with c have c: "surface_changed (RBT.lookup (scn_surfaces (md_committed m)) i) (RBT.lookup (scn_surfaces (md_pending m)) i)"
      "q \<in> covered_pts (md_committed m) (scn_output (md_committed m)) i \<or> q \<in> covered_pts (md_pending m) (Some u) i" by blast+
    from c(2) have "i \<in> set (surface_ids (md_committed m) (md_pending m))"
      by (auto simp: covered_pts_def surface_ids_def map_simps split: option.splits)
    moreover have "{q} \<subseteq> damage_pts (damage_surface (md_committed m) (md_pending m) u i x)" if "damage_in ?b x" for x
      using damage_surface_contains [OF that u(1) True c] by simp
    ultimately have "{q} \<subseteq> damage_pts ?e" by (intro moves.fold_contains [OF d])
    then show ?thesis by simp
  qed
  then have "q \<in> damage_pts (fold (damage_explicit (md_pending m)) (md_explicit_damage m) ?e)"
    by (rule subsetD [OF explicit.fold_grows [OF e]])
  then show ?thesis by (simp only: historical_damage_def Let_def u(2))
qed

lemma historical_damage_in: "damage_in (output_local u) (historical_damage m u)"
  unfolding historical_damage_def Let_def
  by (intro explicit.fold_keeps moves.fold_keeps) (simp add: damage_in_start)

end
