(* ===== verification/Scene_Properties.thy ===== *)
theory Scene_Properties
  imports Scene_Damage
begin

text \<open>
  What the compositor can rely on: the properties of the scene model and of the damage it reports.
\<close>

section \<open>Runs\<close>

fun scene_run :: "scene_operation list \<Rightarrow> scene_model \<Rightarrow> scene_model option" where
  "scene_run [] m = Some m"
| "scene_run (x # xs) m = (case scene_apply x m of None \<Rightarrow> None | Some (_, m') \<Rightarrow> scene_run xs m')"

lemma scene_run_reachable:
  assumes "scene_reachable profile m" "scene_run xs m = Some m'"
  shows "scene_reachable profile m'"
  using assms
proof (induction xs arbitrary: m)
  case (Cons x xs)
  then obtain accepted m1 where a: "scene_apply x m = Some (accepted, m1)" "scene_run xs m1 = Some m'"
    by (auto split: option.splits)
  then have "scene_step m x accepted m1" by (simp add: scene_step_iff)
  with Cons a show ?case using scene_reachable.step by blast
qed simp

lemma sorted_key_distinct: "distinct (map f xs) \<Longrightarrow> distinct (map f (sort_key g xs))"
  by (metis distinct_map distinct_sort set_sort)

text \<open>
  Example messages: an output, a window at a horizontal position with its membership, and a frame. The
  panel of the output profile has scale 3/2.
\<close>

definition example_color :: sdr_metadata where
  "example_color = \<lparr>sdr_color_space = Sdr_Srgb, sdr_transfer_function = Transfer_Srgb, sdr_primaries = Primaries_Srgb,
     sdr_luminance_available = False, sdr_minimum_luminance_millinit = 0, sdr_maximum_luminance_millinit = 0,
     sdr_max_frame_average_luminance_millinit = 0\<rparr>"

definition example_output :: "u32 \<Rightarrow> u32 \<Rightarrow> output_upsert" where
  "example_output numerator denominator = \<lparr>ou_output_id = 1, ou_enabled = 1, ou_logical_x = 0, ou_logical_y = 0,
     ou_logical_width = 1280, ou_logical_height = 720,
     ou_physical_pixel_width = 1280 * numerator div denominator, ou_physical_pixel_height = 720 * numerator div denominator,
     ou_refresh_millihertz = 60000, ou_scale_numerator = numerator, ou_scale_denominator = denominator,
     ou_transform = Tr_Normal, ou_color = example_color\<rparr>"

definition example_surface :: "i32 \<Rightarrow> surface_upsert" where
  "example_surface x = \<lparr>su_surface_id = 5, su_x11_window_id = 77, su_parent_surface_id = 0, su_output_id = 1,
     su_logical_x = x, su_logical_y = 20, su_logical_width = 100, su_logical_height = 50, su_stacking = 0,
     su_visible = 1, su_clipping = 0, su_clip_x = 0, su_clip_y = 0, su_clip_width = 0, su_clip_height = 0,
     su_transform = Tr_Normal, su_opacity = GWIPC_OPACITY_ONE, su_scale_numerator = 1, su_scale_denominator = 1,
     su_color = example_color, su_presentation_flags = 0, su_fullscreen_eligible = TS_Unknown,
     su_direct_scanout_eligible = TS_Unknown\<rparr>"

definition example_membership :: surface_output_state where
  "example_membership = \<lparr>sos_surface_id = 5, sos_primary_output_id = 1, sos_output_ids = Some [1], sos_output_count = 1,
     sos_preferred_scale_numerator = 3, sos_preferred_scale_denominator = 2, sos_client_buffer_scale = 1,
     sos_scale_mode = Scale_Legacy, sos_layout_generation = 9, sos_flags = 0\<rparr>"

definition example_frame :: "u64 \<Rightarrow> frame_commit" where
  "example_frame n = \<lparr>fc_commit_id = n, fc_output_id = 0, fc_producer_generation = n, fc_flags = 0\<rparr>"

text \<open>The window is presented at 10 and then moved to 30, not yet committed.\<close>

definition example_outputs_run :: "scene_operation list" where
  "example_outputs_run = [Sc_Begin_Outputs 1 9, Sc_Output (example_output 3 2), Sc_Surface (example_surface 10),
     Sc_Surface_Output example_membership, Sc_End, Sc_Commit (example_frame 1), Sc_Surface (example_surface 30)]"

definition example_historical_run :: "scene_operation list" where
  "example_historical_run = [Sc_Begin, Sc_Output (example_output 1 1), Sc_Surface (example_surface 10), Sc_End,
     Sc_Commit (example_frame 1), Sc_Surface (example_surface 30)]"

definition example_model :: "scene_profile \<Rightarrow> scene_model" where
  "example_model profile = the (scene_run (if profile = OutputModel then example_outputs_run else example_historical_run)
     (new_scene_model profile))"

lemma example_model_reachable: "scene_reachable profile (example_model profile)"
proof -
  have "scene_run (if profile = OutputModel then example_outputs_run else example_historical_run)
     (new_scene_model profile) \<noteq> None"
  proof (cases profile)
    case Historical
    have "scene_run example_historical_run (new_scene_model Historical) \<noteq> None" by code_simp
    with Historical show ?thesis by simp
  next
    case OutputModel
    have "scene_run example_outputs_run (new_scene_model OutputModel) \<noteq> None" by code_simp
    with OutputModel show ?thesis by simp
  qed
  then show ?thesis
    unfolding example_model_def by (auto intro: scene_run_reachable [OF scene_reachable.start])
qed

section \<open>Properties\<close>

text \<open>
  A commit is atomic. When it is accepted the pending scene becomes the committed one under the
  frame's generation and it was fit to be shown: in the output profile it passed the validation of the
  whole scene, in the historical profile every surface is on the one output, and in both the surfaces
  and their policies agree. When it is rejected the model is unchanged and no damage is reported.
\<close>

lemma scene_commit_atomic:
  "case scene_commit frame m of (r, m') \<Rightarrow>
     if cr_accepted r
     then m' = install (fc_producer_generation frame) m \<and> cr_presented_generation r = fc_producer_generation frame \<and>
       committable (md_profile m) (md_pending m)
     else m' = m \<and> cr_presented_generation r = md_presented_generation m \<and> cr_damage r = []"
  using scene_commit_outcome [of frame m] by (simp add: commit_outcome_def split: prod.splits)

text \<open>
  C18. In every reachable model the pending scene, the committed scene and the scene saved by a snapshot
  hold only validated outputs and surfaces under their own identifiers, within the limits and with one
  cursor per output, a snapshot is active exactly when a scene is saved, and the committed scene is
  empty before the first commit and was fit to be shown after it.
\<close>

theorem scene_model_invariant:
  assumes "scene_reachable profile m"
  shows "scene_model_ok profile m"
  using assms by (rule scene_reachable_ok)

theorem scene_model_invariant_witness:
  "scene_model_ok OutputModel (example_model OutputModel) \<and> md_presented_generation (example_model OutputModel) = 1"
proof -
  have "md_presented_generation (example_model OutputModel) = 1" by code_simp
  with scene_model_invariant [OF example_model_reachable] show ?thesis by blast
qed

text \<open>
  A complete snapshot that is aborted, whatever was sent while it was open, puts the pending scene
  and the pending damage back exactly as they were when it began.
\<close>

lemma aborted_snapshot_restores:
  assumes "scene_opens m m1" "scene_edits\<^sup>*\<^sup>* m1 m2"
  shows "\<exists>m3. abort_complete_snapshot m2 = Some m3 \<and> md_pending m3 = md_pending m \<and>
     md_explicit_damage m3 = md_explicit_damage m \<and> \<not> md_snapshot_active m3"
  using scene_snap.aborted_snapshot_no_effect [OF assms] by (simp add: scene_view_def)

text \<open>
  C17. Native damage is complete. When a reachable model of the output profile accepts a commit, take an
  enabled output and one of its native pixels that is not in the damage computed for the transition.
  Then the output was there before with the same shape, and no surface that reaches the pixel before
  or after, through the filter it is sampled with, appeared, disappeared, changed its geometry,
  stacking, visibility or scale, changed its membership or has new content.
\<close>

theorem output_damage_complete:
  assumes "scene_reachable OutputModel m" "scene_commit frame m = (r, m')" "cr_accepted r"
    and "RBT.lookup (scn_outputs (md_committed m')) i = Some u" "ou_enabled u \<noteq> 0"
    and "q \<in> rect_pts (native_bounds u)" "q \<notin> reported_pts (md_committed m) (md_committed m') content_changed i"
  shows "\<exists>v. RBT.lookup (scn_outputs (md_committed m)) i = Some v \<and> same_shape v u \<and>
     (\<forall>sid. surface_reaches (md_committed m) v sid q \<or> surface_reaches (md_committed m') u sid q \<longrightarrow>
        \<not> changed_surface (md_committed m) (md_committed m') content_changed sid)"
proof -
  have "scene_step m (Sc_Commit frame) True m'" using assms(2,3) by (simp add: scene_step_iff)
  then have "scene_model_ok OutputModel m'" "scene_model_ok OutputModel m"
    using scene_reachable_ok scene_model_ok_step assms(1) by blast+
  then have wf: "outputs_wf OutputModel (scn_outputs (md_committed m))" "outputs_wf OutputModel (scn_outputs (md_committed m'))"
    by (simp_all add: scene_model_ok_def scene_wf_def)
  have u: "valid_scene_output u OutputModel" using wf(2) assms(4) by (simp add: outputs_wf_def)
  note eq = reported_pts_eq [OF assms(4) u assms(5), of "md_committed m" content_changed]
  obtain v where v: "RBT.lookup (scn_outputs (md_committed m)) i = Some v" "same_shape v u"
    using assms(6,7) eq by (auto split: option.splits if_splits)
  have "valid_scene_output v OutputModel" using wf(1) v(1) by (simp add: outputs_wf_def)
  from reported_contains [OF assms(4) u assms(5) v(1) this v(2) assms(6)] assms(7) v show ?thesis by blast
qed

theorem output_damage_complete_witness:
  "let before = md_committed (example_model OutputModel);
       after = md_committed (snd (scene_commit (example_frame 2) (example_model OutputModel)))
   in \<exists>v. RBT.lookup (scn_outputs before) 1 = Some v \<and> same_shape v (example_output 3 2) \<and>
     (\<forall>sid. surface_reaches before v sid (500, 600) \<or> surface_reaches after (example_output 3 2) sid (500, 600) \<longrightarrow>
        \<not> changed_surface before after [] sid)"
proof -
  let ?m = "example_model OutputModel" let ?m' = "snd (scene_commit (example_frame 2) ?m)"
  have a: "cr_accepted (fst (scene_commit (example_frame 2) ?m))" by code_simp
  have l: "RBT.lookup (scn_outputs (md_committed ?m')) 1 = Some (example_output 3 2)" by code_simp
  have e: "ou_enabled (example_output 3 2) \<noteq> 0" by code_simp
  have q: "(500, 600) \<in> rect_pts (native_bounds (example_output 3 2))" by (simp add: native_bounds_pts example_output_def)
  have "case RBT.lookup (calculate_output_damage (md_committed ?m) (md_committed ?m') []) 1 of None \<Rightarrow> True
      | Some rs \<Rightarrow> list_all (\<lambda>r. \<not> (sint (rect_x r) \<le> 500 \<and> 500 < right_edge r \<and> sint (rect_y r) \<le> 600 \<and> 600 < bottom_edge r)) rs"
    by code_simp
  then have n: "(500, 600) \<notin> reported_pts (md_committed ?m) (md_committed ?m') [] 1"
    by (auto simp: reported_pts_def rect_pts_def list_all_iff split: option.splits)
  show ?thesis unfolding Let_def
    by (rule output_damage_complete [OF example_model_reachable prod.collapse [symmetric] a l e q n])
qed

lemma accepted_historical:
  assumes "cr_result (fst (scene_commit frame m)) = FR_Accepted" "md_profile m = Historical"
  shows "\<exists>u. scn_output (md_pending m) = Some u \<and>
     cr_damage (fst (scene_commit frame m)) = damage_rectangles (historical_damage m u) \<and>
     snd (scene_commit frame m) = install (fc_producer_generation frame) m \<and> ou_enabled u \<noteq> 0"
  using assms
  by (cases "scn_output (md_pending m)")
     (auto simp: scene_commit_def commit_historical_def Let_def split: if_splits)

text \<open>
  The damage of an accepted historical commit is complete and lies inside the output: at a pixel of
  the output that is not in it the output kept its shape, and every surface that covers the pixel before
  or after kept its geometry, stacking, visibility, clipping and opacity.
\<close>

lemma historical_damage_complete:
  assumes "scene_reachable Historical m" "scene_commit frame m = (r, m')" "cr_result r = FR_Accepted"
  shows "\<exists>u. scn_output (md_committed m') = Some u \<and> region_pts (cr_damage r) \<subseteq> rect_pts (output_local u) \<and>
     (\<forall>q \<in> rect_pts (output_local u) - region_pts (cr_damage r).
        same_output_shape (scn_output (md_committed m)) (Some u) \<and>
        (\<forall>sid. q \<in> covered_pts (md_committed m) (scn_output (md_committed m)) sid \<or> q \<in> covered_pts (md_committed m') (Some u) sid \<longrightarrow>
           \<not> surface_changed (RBT.lookup (scn_surfaces (md_committed m)) sid) (RBT.lookup (scn_surfaces (md_committed m')) sid)))"
proof -
  have ok: "scene_model_ok Historical m" using assms(1) by (rule scene_reachable_ok)
  then have p: "md_profile m = Historical" by (simp add: scene_model_ok_def)
  obtain u where u: "scn_output (md_pending m) = Some u" "cr_damage r = damage_rectangles (historical_damage m u)"
      "m' = install (fc_producer_generation frame) m"
    using accepted_historical [of frame m] assms(2,3) p by auto
  have m': "md_committed m' = md_pending m" by (simp add: u(3) install_def)
  have "valid_scene_output u Historical" using ok u(1) by (simp add: scene_model_ok_def scene_wf_def)
  note contains = historical_damage_contains [OF historical_output_valid [OF this] u(1)]
  have "region_pts (cr_damage r) \<subseteq> rect_pts (output_local u)" using damage_in_pts [OF historical_damage_in] by (simp add: u(2))
  moreover have "same_output_shape (scn_output (md_committed m)) (Some u) \<and>
        (\<forall>sid. q \<in> covered_pts (md_committed m) (scn_output (md_committed m)) sid \<or> q \<in> covered_pts (md_committed m') (Some u) sid \<longrightarrow>
           \<not> surface_changed (RBT.lookup (scn_surfaces (md_committed m)) sid) (RBT.lookup (scn_surfaces (md_committed m')) sid))"
    if "q \<in> rect_pts (output_local u) - region_pts (cr_damage r)" for q
  proof -
    from that have q: "q \<in> rect_pts (output_local u)" "q \<notin> region_pts (damage_rectangles (historical_damage m u))"
      by (simp_all add: u(2))
    note c = contains [OF q(1)]
    have "same_output_shape (scn_output (md_committed m)) (Some u)" using c q(2) by blast
    moreover have "\<not> surface_changed (RBT.lookup (scn_surfaces (md_committed m)) sid) (RBT.lookup (scn_surfaces (md_pending m)) sid)"
      if "q \<in> covered_pts (md_committed m) (scn_output (md_committed m)) sid \<or> q \<in> covered_pts (md_pending m) (Some u) sid" for sid
      using c [of sid] q(2) that by blast
    ultimately show ?thesis unfolding m' by blast
  qed
  ultimately show ?thesis by (intro exI [of _ u]) (simp add: m' u(1))
qed

text \<open>
  The painting order of a reachable model lists every committed surface once, and each is painted
  before the next: cursors after all other surfaces, then by stacking, then by identifier.
\<close>

lemma stacking_order_correct:
  assumes "scene_reachable profile m"
  shows "distinct (stacking_order m) \<and>
     set (stacking_order m) = dom (RBT.lookup (scn_surfaces (md_committed m))) \<and>
     sorted_wrt (\<lambda>i j. \<forall>f g. RBT.lookup (scn_surfaces (md_committed m)) i = Some f \<and>
         RBT.lookup (scn_surfaces (md_committed m)) j = Some g \<longrightarrow> stacking_key f < stacking_key g) (stacking_order m)"
proof -
  let ?fs = "RBT.lookup (scn_surfaces (md_committed m))"
  let ?vs = "map snd (RBT.entries (scn_surfaces (md_committed m)))"
  have wf: "surfaces_wf profile (scn_surfaces (md_committed m))"
    using scene_reachable_ok [OF assms] by (simp add: scene_model_ok_def scene_wf_def)
  have key: "su_surface_id f = i" if "?fs i = Some f" for i f using wf that by (simp add: surfaces_wf_def)
  have ids: "map su_surface_id ?vs = map fst (RBT.entries (scn_surfaces (md_committed m)))"
    by (auto simp: map_simps key)
  let ?xs = "sort_key stacking_key ?vs"
  have id: "su_surface_id = (\<lambda>f. snd (snd (stacking_key f)))" by (simp add: stacking_key_def fun_eq_iff)
  have d: "distinct (map su_surface_id ?xs)"
    by (rule sorted_key_distinct) (simp only: ids keys_distinct_entries)
  then have "distinct (map (\<lambda>k. snd (snd k)) (map stacking_key ?xs))" by (simp add: id comp_def)
  then have "sorted_wrt (<) (map stacking_key ?xs)"
    unfolding strict_sorted_iff using sorted_sort_key by (metis distinct_map)
  then have s: "sorted_wrt (\<lambda>f g. stacking_key f < stacking_key g) ?xs" by (simp add: sorted_wrt_map)
  have mem: "?fs (su_surface_id f) = Some f" if "f \<in> set ?xs" for f
    using that key by (auto simp: map_simps)
  have "sorted_wrt (\<lambda>a b. \<forall>f g. ?fs (su_surface_id a) = Some f \<and> ?fs (su_surface_id b) = Some g \<longrightarrow>
      stacking_key f < stacking_key g) ?xs"
    by (rule sorted_wrt_mono_rel [OF _ s]) (simp add: mem del: set_sort)
  moreover have "set (stacking_order m) = dom ?fs"
  proof -
    have "set (stacking_order m) = set (map su_surface_id ?vs)" by (simp add: stacking_order_def image_image)
    then show ?thesis unfolding ids by (force simp: dom_def set_entries [symmetric])
  qed
  ultimately show ?thesis using d by (simp add: stacking_order_def sorted_wrt_map)
qed

definition example_policy :: surface_policy_upsert where
  "example_policy = \<lparr>sy_surface_id = 5, sy_x11_window_id = 77, sy_workspace_id = 1, sy_window_type = WT_Normal,
     sy_applied_state = AS_Normal, sy_focused = 0, sy_managed = 1, sy_decoration_eligible = 0, sy_override_redirect = 0,
     sy_attention_requested = 0, sy_fullscreen_eligible = TS_Unknown, sy_direct_scanout_eligible = TS_Unknown, sy_flags = 0\<rparr>"

section \<open>Commits without damage\<close>

text \<open>The pixels that the damage messages since the last commit ask for.\<close>

definition explicit_pts :: "scene \<Rightarrow> pending_damage list \<Rightarrow> (int \<times> int) set" where
  "explicit_pts scene items =
     (\<Union>item \<in> set items. case RBT.lookup (scn_surfaces scene) (pd_surface_id item) of
        None \<Rightarrow> {}
      | Some surface \<Rightarrow> (\<Union>r \<in> set (pd_rectangles item). case damage_item surface r of None \<Rightarrow> {} | Some r' \<Rightarrow> rect_pts r'))"

text \<open>The fields that count as a change of a surface: its place, its stacking, whether it is visible, its clip and its opacity.\<close>

definition compared_fields :: "surface_upsert \<Rightarrow> (i32 \<times> i32 \<times> u32 \<times> u32) \<times> i32 \<times> u8 \<times> (u8 \<times> i32 \<times> i32 \<times> u32 \<times> u32) \<times> u32" where
  "compared_fields s = ((su_logical_x s, su_logical_y s, su_logical_width s, su_logical_height s), su_stacking s, su_visible s,
     (su_clipping s, su_clip_x s, su_clip_y s, su_clip_width s, su_clip_height s), su_opacity s)"

lemma surface_changed_compared:
  "surface_changed a b \<longleftrightarrow> map_option compared_fields a \<noteq> map_option compared_fields b \<or> a = None \<and> b = None"
  by (cases a; cases b) (auto simp: surface_changed_def compared_fields_def)

text \<open>Two scenes whose surfaces are the same but for their presentation flags.\<close>

definition forget_flags :: "surface_upsert \<Rightarrow> surface_upsert" where
  "forget_flags surface = surface\<lparr>su_presentation_flags := 0\<rparr>"

definition flags_only :: "scene \<Rightarrow> scene \<Rightarrow> bool" where
  "flags_only before after \<longleftrightarrow>
     map (map_prod (\<lambda>i. i) forget_flags) (RBT.entries (scn_surfaces before)) =
     map (map_prod (\<lambda>i. i) forget_flags) (RBT.entries (scn_surfaces after))"

lemma flags_only_unchanged:
  assumes "flags_only before after" "surface_changed (RBT.lookup (scn_surfaces before) i) (RBT.lookup (scn_surfaces after) i)"
  shows "RBT.lookup (scn_surfaces before) i = None" "RBT.lookup (scn_surfaces after) i = None"
proof -
  have "map_option forget_flags (RBT.lookup t i) = map_of (map (map_prod (\<lambda>i. i) forget_flags) (RBT.entries t)) i" for t
    by (simp add: map_prod_def map_of_map)
  then have "map_option forget_flags (RBT.lookup (scn_surfaces before) i) = map_option forget_flags (RBT.lookup (scn_surfaces after) i)"
    using assms(1) by (simp add: flags_only_def)
  then show "RBT.lookup (scn_surfaces before) i = None" "RBT.lookup (scn_surfaces after) i = None"
    using assms(2) by (auto simp: surface_changed_def forget_flags_def surface_upsert.splits split: option.splits elim!: surface_upsert.cases)
qed

lemma intersection_nonempty:
  assumes "intersection a b = Some c"
  shows "rect_pts c \<noteq> {}" "has_valid_extents a" "has_valid_extents b"
proof -
  from assms show v: "has_valid_extents a" "has_valid_extents b" by (auto simp: intersection_def split: if_splits)
  with assms have i: "intersect a b = Some c" by (simp add: intersection_intersect)
  then have "intersect a b \<noteq> None" by simp
  then show "rect_pts c \<noteq> {}" using intersect_pts(1) [OF i] by (simp add: intersect_None_iff)
qed

lemma uncovered_missing: "RBT.lookup (scn_surfaces scene) i = None \<Longrightarrow> covered_pts scene output i = {}"
  by (simp add: covered_pts_def)

lemma uncovered_bounds:
  assumes "covered_pts scene (Some u) i = {}" "RBT.lookup (scn_surfaces scene) i = Some surface"
  shows "effective_bounds surface u = None"
  using assms intersection_nonempty(1)
  by (fastforce simp: covered_pts_def effective_bounds_def split: if_splits option.splits)

lemma damage_item_valid: "damage_item surface r = Some r' \<Longrightarrow> has_valid_extents r'"
  by (auto simp: damage_item_def dest: translate_pts(2) split: option.splits)

lemma explicit_contains:
  assumes d: "damage_in (output_local u) d" and u: "has_valid_extents (output_local u)"
    and q: "q \<in> explicit_pts scene items" "q \<in> rect_pts (output_local u)"
  shows "q \<in> damage_pts (fold (damage_explicit scene) items d)"
proof -
  obtain item surface r r' where i: "item \<in> set items" "RBT.lookup (scn_surfaces scene) (pd_surface_id item) = Some surface"
      "r \<in> set (pd_rectangles item)" "damage_item surface r = Some r'" "q \<in> rect_pts r'"
    using q(1) by (fastforce simp: explicit_pts_def split: option.splits)
  have "{q} \<subseteq> damage_pts (add_bounds (damage_item surface r) x)" if "damage_in (output_local u) x" for x
    using add_bounds_contains [OF that u _ i(4,5) q(2)] damage_item_valid i(4) by simp
  then have "{q} \<subseteq> damage_pts (damage_explicit scene item x)" if "damage_in (output_local u) x" for x
    using items.fold_contains [OF that i(3), of "{q}" surface] by (simp add: damage_explicit_def i(2))
  then have "{q} \<subseteq> damage_pts (fold (damage_explicit scene) items d)" by (intro explicit.fold_contains [OF d i(1)])
  then show ?thesis by simp
qed

lemma fold_same: "(\<And>x. x \<in> set xs \<Longrightarrow> f x s = s) \<Longrightarrow> fold f xs s = s"
  by (induction xs) simp_all

lemma explicit_outside:
  assumes "explicit_pts scene items \<inter> rect_pts (output_bounds d) = {}"
  shows "fold (damage_explicit scene) items d = d"
proof (rule fold_same)
  fix item
  assume item: "item \<in> set items"
  show "damage_explicit scene item d = d"
  proof (cases "RBT.lookup (scn_surfaces scene) (pd_surface_id item)")
    case (Some surface)
    have "add_bounds (damage_item surface r) d = d" if "r \<in> set (pd_rectangles item)" for r
    proof (cases "damage_item surface r")
      case (Some r')
      then have "rect_pts r' \<inter> rect_pts (output_bounds d) = {}"
        using assms item that \<open>RBT.lookup _ _ = Some surface\<close> by (fastforce simp: explicit_pts_def split: option.splits)
      then have "intersection r' (output_bounds d) = None"
        by (simp add: intersection_intersect intersect_None_iff)
      then show ?thesis by (simp add: add_bounds_def Some damage_add_def)
    qed (simp add: add_bounds_def)
    then have "fold (\<lambda>r. add_bounds (damage_item surface r)) (pd_rectangles item) d = d" by (rule fold_same)
    then show ?thesis by (simp add: damage_explicit_def Some)
  qed (simp add: damage_explicit_def)
qed

lemma output_local_nonempty:
  assumes "valid_scene_output u Historical" "ou_enabled u \<noteq> 0"
  shows "rect_pts (output_local u) \<noteq> {}"
proof -
  have "ou_logical_width u \<noteq> 0" "ou_logical_height u \<noteq> 0" using assms by (auto simp: valid_scene_output_def split: if_splits)
  then have "0 < uint (ou_logical_width u)" "0 < uint (ou_logical_height u)" using uint_nonnegative uint_0_iff by (metis order_le_less)+
  then have "(0, 0) \<in> rect_pts (output_local u)"
    by (simp add: rect_pts_def output_local_def make_rectangle_def right_edge_def bottom_edge_def)
  then show ?thesis by blast
qed

lemma unmoved:
  assumes "surface_changed (RBT.lookup (scn_surfaces before) i) (RBT.lookup (scn_surfaces after) i) \<longrightarrow>
      covered_pts before (scn_output before) i = {} \<and> covered_pts after (Some u) i = {}"
  shows "damage_surface before after u i d = d"
  using assms uncovered_bounds [of before] uncovered_bounds [of after u i]
  by (auto simp: damage_surface_def Let_def add_bounds_def split: option.splits)

text \<open>
  C19. An accepted historical commit reports no damage exactly when the output kept its size and state, every surface that
  changed its place, stacking, visibility, clip or opacity covers no pixel before and after, and the damage messages reach no pixel of the output. The presentation flags are
  not among the fields that count as a change although the pixels a surface covers depend on them: a commit that changes
  nothing but flags reports no damage, also where a surface becomes metadata-only and so loses every pixel it covered.
\<close>

theorem historical_damage_empty:
  assumes "scene_reachable Historical m" "scene_commit frame m = (r, m')" "cr_result r = FR_Accepted"
  shows "\<exists>u. scn_output (md_committed m') = Some u \<and>
     (cr_damage r = [] \<longleftrightarrow>
        same_output_shape (scn_output (md_committed m)) (Some u) \<and>
        (\<forall>sid. map_option compared_fields (RBT.lookup (scn_surfaces (md_committed m)) sid) \<noteq>
             map_option compared_fields (RBT.lookup (scn_surfaces (md_committed m')) sid) \<longrightarrow>
           covered_pts (md_committed m) (scn_output (md_committed m)) sid = {} \<and> covered_pts (md_committed m') (Some u) sid = {}) \<and>
        explicit_pts (md_committed m') (md_explicit_damage m) \<inter> rect_pts (output_local u) = {}) \<and>
     (flags_only (md_committed m) (md_committed m') \<and> same_output_shape (scn_output (md_committed m)) (Some u) \<and>
        md_explicit_damage m = [] \<longrightarrow>
        cr_damage r = [] \<and>
        (\<forall>sid surface. RBT.lookup (scn_surfaces (md_committed m')) sid = Some surface \<and> metadata_surface surface \<longrightarrow>
           covered_pts (md_committed m') (Some u) sid = {}))"
proof -
  have ok: "scene_model_ok Historical m" using assms(1) by (rule scene_reachable_ok)
  then have p: "md_profile m = Historical" by (simp add: scene_model_ok_def)
  obtain u where u: "scn_output (md_pending m) = Some u" "cr_damage r = damage_rectangles (historical_damage m u)"
      "m' = install (fc_producer_generation frame) m" "ou_enabled u \<noteq> 0"
    using accepted_historical [of frame m] assms(2,3) p by auto
  have m': "md_committed m' = md_pending m" by (simp add: u(3) install_def)
  have valid: "valid_scene_output u Historical" using ok u(1) by (simp add: scene_model_ok_def scene_wf_def)
  note v = historical_output_valid [OF valid]
  note contains = historical_damage_contains [OF v u(1)]
  let ?before = "md_committed m" and ?after = "md_pending m"
  let ?shape = "same_output_shape (scn_output ?before) (Some u)"
  let ?still = "\<forall>sid. surface_changed (RBT.lookup (scn_surfaces ?before) sid) (RBT.lookup (scn_surfaces ?after) sid) \<longrightarrow>
      covered_pts ?before (scn_output ?before) sid = {} \<and> covered_pts ?after (Some u) sid = {}"
  let ?quiet = "explicit_pts ?after (md_explicit_damage m) \<inter> rect_pts (output_local u) = {}"
  have start: "damage_rectangles (make_damage_region (output_local u)) = []" "output_bounds (make_damage_region (output_local u)) = output_local u"
    by (simp_all add: make_damage_region_def)
  have none: "cr_damage r = []" if "?shape" "?still" "?quiet"
  proof -
    have "fold (damage_surface ?before ?after u) ids (make_damage_region (output_local u)) = make_damage_region (output_local u)" for ids
      using that(2) unmoved [of ?before _ ?after u] by (intro fold_same) blast
    moreover have "fold (damage_explicit ?after) (md_explicit_damage m) (make_damage_region (output_local u)) = make_damage_region (output_local u)"
      by (rule explicit_outside) (simp add: start(2) that(3))
    ultimately show ?thesis using that(1) by (simp add: u(1,2) historical_damage_def start(1))
  qed
  have some: "?shape \<and> ?still \<and> ?quiet" if "cr_damage r = []"
  proof -
    have out: "q \<notin> damage_pts (historical_damage m u)" for q using that by (simp add: u(2))
    have "rect_pts (output_local u) \<noteq> {}"
      using valid u(4) by (simp add: output_local_nonempty)
    then have shape: "?shape" using contains out by blast
    have within: "covered_pts ?after (Some u) sid \<subseteq> rect_pts (output_local u)" "covered_pts ?before (scn_output ?before) sid \<subseteq> rect_pts (output_local u)" for sid
      using effective_bounds_within(1) same_output_shape_local [of _ u] shape
      by (fastforce simp: covered_pts_def split: option.splits)+
    have "?still" using contains out within by blast
    moreover have "q \<notin> explicit_pts ?after (md_explicit_damage m) \<inter> rect_pts (output_local u)" for q
    proof
      assume "q \<in> explicit_pts ?after (md_explicit_damage m) \<inter> rect_pts (output_local u)"
      then have "q \<in> damage_pts (historical_damage m u)" unfolding historical_damage_def Let_def
        by (intro explicit_contains [OF _ v] moves.fold_keeps) (simp_all add: damage_in_start)
      with out show False by blast
    qed
    then have "?quiet" by blast
    ultimately show ?thesis using shape by blast
  qed
  have "?still" if "flags_only ?before ?after"
    using flags_only_unchanged [OF that] uncovered_missing by blast
  moreover have "?still \<longleftrightarrow> (\<forall>sid. map_option compared_fields (RBT.lookup (scn_surfaces ?before) sid) \<noteq>
      map_option compared_fields (RBT.lookup (scn_surfaces ?after) sid) \<longrightarrow>
      covered_pts ?before (scn_output ?before) sid = {} \<and> covered_pts ?after (Some u) sid = {})"
    unfolding surface_changed_compared using uncovered_missing by blast
  moreover have "covered_pts ?after (Some u) sid = {}"
    if "RBT.lookup (scn_surfaces ?after) sid = Some surface" "metadata_surface surface" for sid surface
    using that by (simp add: covered_pts_def effective_bounds_def metadata_surface_def)
  moreover have "?quiet" if "md_explicit_damage m = []" using that by (simp add: explicit_pts_def)
  ultimately show ?thesis unfolding m' using none some by (intro exI [of _ u] conjI) (use u(1) in blast)+
qed

text \<open>The example window becomes metadata-only: it is no longer painted, and nothing is repainted where it was.\<close>

definition example_hidden_run :: "scene_operation list" where
  "example_hidden_run = [Sc_Begin, Sc_Output (example_output 1 1), Sc_Surface (example_surface 10), Sc_End, Sc_Commit (example_frame 1),
     Sc_Surface ((example_surface 10)\<lparr>su_presentation_flags := GWIPC_SURFACE_PRESENTATION_METADATA_ONLY\<rparr>), Sc_Policy example_policy]"

theorem historical_damage_empty_witness:
  "\<exists>m frame. scene_reachable Historical m \<and> cr_result (fst (scene_commit frame m)) = FR_Accepted \<and>
     cr_damage (fst (scene_commit frame m)) = [] \<and>
     map_option (\<lambda>s. effective_bounds s (example_output 1 1)) (RBT.lookup (scn_surfaces (md_committed m)) 5) =
       Some (Some (make_rectangle 10 20 100 50)) \<and>
     map_option (\<lambda>s. effective_bounds s (example_output 1 1)) (RBT.lookup (scn_surfaces (md_committed (snd (scene_commit frame m)))) 5) = Some None"
proof -
  define m where "m = the (scene_run example_hidden_run (new_scene_model Historical))"
  have "scene_run example_hidden_run (new_scene_model Historical) \<noteq> None" by code_simp
  then have reach: "scene_reachable Historical m"
    unfolding m_def by (auto intro: scene_run_reachable scene_reachable.start)
  have accepted: "cr_result (fst (scene_commit (example_frame 2) m)) = FR_Accepted" unfolding m_def by code_simp
  have flags: "flags_only (md_committed m) (md_committed (snd (scene_commit (example_frame 2) m)))" unfolding m_def by code_simp
  have shape: "same_output_shape (scn_output (md_committed m)) (scn_output (md_committed (snd (scene_commit (example_frame 2) m))))"
    "md_explicit_damage m = []" unfolding m_def by code_simp+
  have "cr_damage (fst (scene_commit (example_frame 2) m)) = []"
    using historical_damage_empty [OF reach prod.collapse [symmetric] accepted] flags shape by fastforce
  moreover have "map_option (\<lambda>s. effective_bounds s (example_output 1 1)) (RBT.lookup (scn_surfaces (md_committed m)) 5) =
       Some (Some (make_rectangle 10 20 100 50))"
    "map_option (\<lambda>s. effective_bounds s (example_output 1 1))
       (RBT.lookup (scn_surfaces (md_committed (snd (scene_commit (example_frame 2) m)))) 5) = Some None"
    unfolding m_def by code_simp+
  ultimately show ?thesis using reach accepted by blast
qed

end
