(* ===== verification/Wire_Policy.thy ===== *)
theory Wire_Policy
  imports Wire_Bytes
begin

text \<open>
  The messages between the display server and the window manager (\<open>ipc/wire/policy_contract.cpp\<close>,
  \<open>ipc/wire/lifecycle_contract.cpp\<close>): their wire form and the checks of their decoders.
\<close>

definition extent :: "i32 \<Rightarrow> u32 \<Rightarrow> bool" where
  [wire]: "extent p n \<longleftrightarrow> n \<noteq> 0 \<and> sint p + uint n - 1 \<le> int32_max"

definition kKnownPolicyWindowFlags :: u32 where
  "kKnownPolicyWindowFlags = 0x7"

section \<open>Context\<close>

record policy_context_upsert =
  pcx_root_window_id :: u32
  pcx_workspace_id :: u32
  pcx_output_id :: u64
  pcx_work_x :: i32
  pcx_work_y :: i32
  pcx_work_width :: u32
  pcx_work_height :: u32
  pcx_flags :: u32

definition encode_policy_context_upsert :: "policy_context_upsert \<Rightarrow> u8 list" where
  [wire]: "encode_policy_context_upsert v =
     write_u32 (pcx_root_window_id v) @ write_u32 (pcx_workspace_id v) @
     write_u64 (pcx_output_id v) @ write_i32 (pcx_work_x v) @ write_i32 (pcx_work_y v) @
     write_u32 (pcx_work_width v) @ write_u32 (pcx_work_height v) @ write_u32 (pcx_flags v) @
     write_u32 0"

definition read_policy_context_upsert :: "u8 list \<Rightarrow> ((policy_context_upsert \<times> u32) \<times> u8 list) option" where
  [wire]: "read_policy_context_upsert b = do {
     (root_window_id, b) \<leftarrow> read_u32 b; (workspace_id, b) \<leftarrow> read_u32 b;
     (output_id, b) \<leftarrow> read_u64 b; (work_x, b) \<leftarrow> read_i32 b;
     (work_y, b) \<leftarrow> read_i32 b; (work_width, b) \<leftarrow> read_u32 b;
     (work_height, b) \<leftarrow> read_u32 b; (flags, b) \<leftarrow> read_u32 b;
     (z, b) \<leftarrow> read_u32 b;
     Some ((\<lparr>pcx_root_window_id = root_window_id, pcx_workspace_id = workspace_id,
         pcx_output_id = output_id, pcx_work_x = work_x, pcx_work_y = work_y,
         pcx_work_width = work_width, pcx_work_height = work_height, pcx_flags = flags\<rparr>, z), b) }"

definition invalid_policy_context_upsert :: "policy_context_upsert \<Rightarrow> u32 \<Rightarrow> bool" where
  [wire]: "invalid_policy_context_upsert = (\<lambda>x z.
     pcx_root_window_id x = 0 \<or> pcx_workspace_id x = 0 \<or> pcx_output_id x = 0 \<or> \<not> extent (pcx_work_x x) (pcx_work_width x) \<or>
     \<not> extent (pcx_work_y x) (pcx_work_height x) \<or> pcx_flags x \<noteq> 0 \<or> z \<noteq> 0)"

definition decode_policy_context_upsert :: "u8 list \<Rightarrow> codec_error + policy_context_upsert" where
  "decode_policy_context_upsert b = checked (read_policy_context_upsert b) invalid_policy_context_upsert"

definition valid_policy_context_upsert :: "policy_context_upsert \<Rightarrow> bool" where
  [wire]: "valid_policy_context_upsert v \<longleftrightarrow> pcx_root_window_id v \<noteq> 0 \<and> pcx_workspace_id v \<noteq> 0 \<and> pcx_output_id v \<noteq> 0 \<and>
     extent (pcx_work_x v) (pcx_work_width v) \<and> extent (pcx_work_y v) (pcx_work_height v) \<and> pcx_flags v = 0"

interpretation pcx: message 40 encode_policy_context_upsert valid_policy_context_upsert decode_policy_context_upsert
  unfolding decode_policy_context_upsert_def [abs_def]
  by (rule messageI, unfold read_policy_context_upsert_def, rule consumes_eq, (rule consumes_sequence)+, simp,
      (auto simp: wire canonical)[], auto simp: wire complete)

section \<open>Windows\<close>

record policy_window_upsert =
  pwu_window_id :: u32
  pwu_parent_window_id :: u32
  pwu_transient_for :: u32
  pwu_workspace_id :: u32
  pwu_requested_x :: i32
  pwu_requested_y :: i32
  pwu_requested_width :: u32
  pwu_requested_height :: u32
  pwu_border_width :: u32
  pwu_window_type :: u16
  pwu_map_intent :: u16
  pwu_override_redirect :: bool
  pwu_decoration_preference :: u16
  pwu_fullscreen_requested :: bool
  pwu_maximized_requested :: bool
  pwu_minimized_requested :: bool
  pwu_attention_requested :: bool
  pwu_creation_serial :: u64
  pwu_map_serial :: u64
  pwu_focus_serial :: u64
  pwu_flags :: u32

definition encode_policy_window_upsert :: "policy_window_upsert \<Rightarrow> u8 list" where
  [wire]: "encode_policy_window_upsert v =
     write_u32 (pwu_window_id v) @ write_u32 (pwu_parent_window_id v) @
     write_u32 (pwu_transient_for v) @ write_u32 (pwu_workspace_id v) @
     write_i32 (pwu_requested_x v) @ write_i32 (pwu_requested_y v) @
     write_u32 (pwu_requested_width v) @ write_u32 (pwu_requested_height v) @
     write_u32 (pwu_border_width v) @ write_u16 (pwu_window_type v) @
     write_u16 (pwu_map_intent v) @ write_bool (pwu_override_redirect v) @
     write_u8 (ucast (pwu_decoration_preference v)) @ write_bool (pwu_fullscreen_requested v) @
     write_bool (pwu_maximized_requested v) @ write_bool (pwu_minimized_requested v) @
     write_bool (pwu_attention_requested v) @ write_u16 0 @ write_u64 (pwu_creation_serial v) @
     write_u64 (pwu_map_serial v) @ write_u64 (pwu_focus_serial v) @ write_u32 (pwu_flags v) @
     write_u32 0"

definition read_policy_window_upsert :: "u8 list \<Rightarrow> ((policy_window_upsert \<times> u8 \<times> u8 \<times> u8 \<times> u8 \<times> u8 \<times> u8 \<times> u16 \<times> u32) \<times> u8 list) option" where
  [wire]: "read_policy_window_upsert b = do {
     (window_id, b) \<leftarrow> read_u32 b; (parent_window_id, b) \<leftarrow> read_u32 b;
     (transient_for, b) \<leftarrow> read_u32 b; (workspace_id, b) \<leftarrow> read_u32 b;
     (requested_x, b) \<leftarrow> read_i32 b; (requested_y, b) \<leftarrow> read_i32 b;
     (requested_width, b) \<leftarrow> read_u32 b; (requested_height, b) \<leftarrow> read_u32 b;
     (border_width, b) \<leftarrow> read_u32 b; (window_type, b) \<leftarrow> read_u16 b;
     (map_intent, b) \<leftarrow> read_u16 b; (override_redirect, b) \<leftarrow> read_u8 b;
     (decoration_preference, b) \<leftarrow> read_u8 b; (fullscreen_requested, b) \<leftarrow> read_u8 b;
     (maximized_requested, b) \<leftarrow> read_u8 b; (minimized_requested, b) \<leftarrow> read_u8 b;
     (attention_requested, b) \<leftarrow> read_u8 b; (z16, b) \<leftarrow> read_u16 b;
     (creation_serial, b) \<leftarrow> read_u64 b; (map_serial, b) \<leftarrow> read_u64 b;
     (focus_serial, b) \<leftarrow> read_u64 b; (flags, b) \<leftarrow> read_u32 b;
     (z, b) \<leftarrow> read_u32 b;
     Some ((\<lparr>pwu_window_id = window_id, pwu_parent_window_id = parent_window_id,
         pwu_transient_for = transient_for, pwu_workspace_id = workspace_id,
         pwu_requested_x = requested_x, pwu_requested_y = requested_y,
         pwu_requested_width = requested_width, pwu_requested_height = requested_height,
         pwu_border_width = border_width, pwu_window_type = window_type, pwu_map_intent = map_intent,
         pwu_override_redirect = (override_redirect \<noteq> 0),
         pwu_decoration_preference = ucast decoration_preference,
         pwu_fullscreen_requested = (fullscreen_requested \<noteq> 0),
         pwu_maximized_requested = (maximized_requested \<noteq> 0),
         pwu_minimized_requested = (minimized_requested \<noteq> 0),
         pwu_attention_requested = (attention_requested \<noteq> 0),
         pwu_creation_serial = creation_serial, pwu_map_serial = map_serial,
         pwu_focus_serial = focus_serial, pwu_flags = flags\<rparr>, (override_redirect, decoration_preference, fullscreen_requested, maximized_requested, minimized_requested, attention_requested, z16, z)), b) }"

definition invalid_policy_window_upsert :: "policy_window_upsert \<Rightarrow> u8 \<times> u8 \<times> u8 \<times> u8 \<times> u8 \<times> u8 \<times> u16 \<times> u32 \<Rightarrow> bool" where
  [wire]: "invalid_policy_window_upsert = (\<lambda>x (override_redirect, decoration_preference, fullscreen_requested, maximized_requested, minimized_requested, attention_requested, z16, z).
     pwu_window_id x = 0 \<or> pwu_requested_width x = 0 \<or> pwu_requested_height x = 0 \<or> pwu_window_type x > 3 \<or>
     pwu_map_intent x > 1 \<or> override_redirect > 1 \<or> decoration_preference > 2 \<or> fullscreen_requested > 1 \<or>
     maximized_requested > 1 \<or> minimized_requested > 1 \<or> attention_requested > 1 \<or> pwu_creation_serial x = 0 \<or>
     (pwu_map_intent x \<noteq> 0 \<and> pwu_map_serial x = 0) \<or> pwu_flags x AND NOT kKnownPolicyWindowFlags \<noteq> 0 \<or>
     z16 \<noteq> 0 \<or> z \<noteq> 0)"

definition decode_policy_window_upsert :: "u8 list \<Rightarrow> codec_error + policy_window_upsert" where
  "decode_policy_window_upsert b = checked (read_policy_window_upsert b) invalid_policy_window_upsert"

definition valid_policy_window_upsert :: "policy_window_upsert \<Rightarrow> bool" where
  [wire]: "valid_policy_window_upsert v \<longleftrightarrow> pwu_window_id v \<noteq> 0 \<and> pwu_requested_width v \<noteq> 0 \<and> pwu_requested_height v \<noteq> 0 \<and> pwu_window_type v \<le> 3 \<and>
     pwu_map_intent v \<le> 1 \<and> pwu_decoration_preference v \<le> 2 \<and> pwu_creation_serial v \<noteq> 0 \<and>
     (pwu_map_intent v = 0 \<or> pwu_map_serial v \<noteq> 0) \<and> pwu_flags v AND NOT kKnownPolicyWindowFlags = 0"

interpretation pwu: message 80 encode_policy_window_upsert valid_policy_window_upsert decode_policy_window_upsert
  unfolding decode_policy_window_upsert_def [abs_def]
  by (rule messageI, unfold read_policy_window_upsert_def, rule consumes_eq, (rule consumes_sequence)+, simp,
      (auto simp: wire canonical)[], auto simp: wire complete)

record policy_window_remove =
  pwr_window_id :: u32

definition encode_policy_window_remove :: "policy_window_remove \<Rightarrow> u8 list" where
  [wire]: "encode_policy_window_remove v =
     write_u32 (pwr_window_id v) @ write_u32 0"

definition read_policy_window_remove :: "u8 list \<Rightarrow> ((policy_window_remove \<times> u32) \<times> u8 list) option" where
  [wire]: "read_policy_window_remove b = do {
     (window_id, b) \<leftarrow> read_u32 b; (z, b) \<leftarrow> read_u32 b;
     Some ((\<lparr>pwr_window_id = window_id\<rparr>, z), b) }"

definition invalid_policy_window_remove :: "policy_window_remove \<Rightarrow> u32 \<Rightarrow> bool" where
  [wire]: "invalid_policy_window_remove = (\<lambda>x z.
     pwr_window_id x = 0 \<or> z \<noteq> 0)"

definition decode_policy_window_remove :: "u8 list \<Rightarrow> codec_error + policy_window_remove" where
  "decode_policy_window_remove b = checked (read_policy_window_remove b) invalid_policy_window_remove"

definition valid_policy_window_remove :: "policy_window_remove \<Rightarrow> bool" where
  [wire]: "valid_policy_window_remove v \<longleftrightarrow> pwr_window_id v \<noteq> 0"

interpretation pwr: message 8 encode_policy_window_remove valid_policy_window_remove decode_policy_window_remove
  unfolding decode_policy_window_remove_def [abs_def]
  by (rule messageI, unfold read_policy_window_remove_def, rule consumes_eq, (rule consumes_sequence)+, simp,
      (auto simp: wire canonical)[], auto simp: wire complete)

section \<open>Commits\<close>

record policy_commit =
  pco_commit_id :: u64
  pco_producer_generation :: u64
  pco_flags :: u32

definition encode_policy_commit :: "policy_commit \<Rightarrow> u8 list" where
  [wire]: "encode_policy_commit v =
     write_u64 (pco_commit_id v) @ write_u64 (pco_producer_generation v) @
     write_u32 (pco_flags v) @ write_u32 0"

definition read_policy_commit :: "u8 list \<Rightarrow> ((policy_commit \<times> u32) \<times> u8 list) option" where
  [wire]: "read_policy_commit b = do {
     (commit_id, b) \<leftarrow> read_u64 b; (producer_generation, b) \<leftarrow> read_u64 b;
     (flags, b) \<leftarrow> read_u32 b; (z, b) \<leftarrow> read_u32 b;
     Some ((\<lparr>pco_commit_id = commit_id, pco_producer_generation = producer_generation, pco_flags = flags\<rparr>, z), b) }"

definition invalid_policy_commit :: "policy_commit \<Rightarrow> u32 \<Rightarrow> bool" where
  [wire]: "invalid_policy_commit = (\<lambda>x z.
     pco_commit_id x = 0 \<or> pco_producer_generation x = 0 \<or> pco_flags x \<noteq> 0 \<or> z \<noteq> 0)"

definition decode_policy_commit :: "u8 list \<Rightarrow> codec_error + policy_commit" where
  "decode_policy_commit b = checked (read_policy_commit b) invalid_policy_commit"

definition valid_policy_commit :: "policy_commit \<Rightarrow> bool" where
  [wire]: "valid_policy_commit v \<longleftrightarrow> pco_commit_id v \<noteq> 0 \<and> pco_producer_generation v \<noteq> 0 \<and> pco_flags v = 0"

interpretation pco: message 24 encode_policy_commit valid_policy_commit decode_policy_commit
  unfolding decode_policy_commit_def [abs_def]
  by (rule messageI, unfold read_policy_commit_def, rule consumes_eq, (rule consumes_sequence)+, simp,
      (auto simp: wire canonical)[], auto simp: wire complete)

section \<open>Results\<close>

record wire_window_state =
  pws_window_id :: u32
  pws_transient_for :: u32
  pws_workspace_id :: u32
  pws_output_id :: u64
  pws_final_x :: i32
  pws_final_y :: i32
  pws_final_width :: u32
  pws_final_height :: u32
  pws_stacking :: i32
  pws_window_type :: u16
  pws_applied_state :: u16
  pws_visible :: bool
  pws_focused :: bool
  pws_managed :: bool
  pws_decoration_eligible :: bool
  pws_override_redirect :: bool
  pws_attention_requested :: bool
  pws_fullscreen_eligible :: u16
  pws_direct_scanout_eligible :: u16
  pws_flags :: u32

definition encode_wire_window_state :: "wire_window_state \<Rightarrow> u8 list" where
  [wire]: "encode_wire_window_state v =
     write_u32 (pws_window_id v) @ write_u32 (pws_transient_for v) @
     write_u32 (pws_workspace_id v) @ write_u32 0 @ write_u64 (pws_output_id v) @
     write_i32 (pws_final_x v) @ write_i32 (pws_final_y v) @ write_u32 (pws_final_width v) @
     write_u32 (pws_final_height v) @ write_i32 (pws_stacking v) @ write_u16 (pws_window_type v) @
     write_u16 (pws_applied_state v) @ write_bool (pws_visible v) @ write_bool (pws_focused v) @
     write_bool (pws_managed v) @ write_bool (pws_decoration_eligible v) @
     write_bool (pws_override_redirect v) @ write_bool (pws_attention_requested v) @
     write_u8 (ucast (pws_fullscreen_eligible v)) @
     write_u8 (ucast (pws_direct_scanout_eligible v)) @ write_u32 (pws_flags v) @ write_u32 0"

definition read_wire_window_state :: "u8 list \<Rightarrow> ((wire_window_state \<times> u32 \<times> u8 \<times> u8 \<times> u8 \<times> u8 \<times> u8 \<times> u8 \<times> u8 \<times> u8 \<times> u32) \<times> u8 list) option" where
  [wire]: "read_wire_window_state b = do {
     (window_id, b) \<leftarrow> read_u32 b; (transient_for, b) \<leftarrow> read_u32 b;
     (workspace_id, b) \<leftarrow> read_u32 b; (z1, b) \<leftarrow> read_u32 b;
     (output_id, b) \<leftarrow> read_u64 b; (final_x, b) \<leftarrow> read_i32 b;
     (final_y, b) \<leftarrow> read_i32 b; (final_width, b) \<leftarrow> read_u32 b;
     (final_height, b) \<leftarrow> read_u32 b; (stacking, b) \<leftarrow> read_i32 b;
     (window_type, b) \<leftarrow> read_u16 b; (applied_state, b) \<leftarrow> read_u16 b;
     (visible, b) \<leftarrow> read_u8 b; (focused, b) \<leftarrow> read_u8 b;
     (managed, b) \<leftarrow> read_u8 b; (decoration_eligible, b) \<leftarrow> read_u8 b;
     (override_redirect, b) \<leftarrow> read_u8 b; (attention_requested, b) \<leftarrow> read_u8 b;
     (fullscreen_eligible, b) \<leftarrow> read_u8 b;
     (direct_scanout_eligible, b) \<leftarrow> read_u8 b; (flags, b) \<leftarrow> read_u32 b;
     (z2, b) \<leftarrow> read_u32 b;
     Some ((\<lparr>pws_window_id = window_id, pws_transient_for = transient_for, pws_workspace_id = workspace_id,
         pws_output_id = output_id, pws_final_x = final_x, pws_final_y = final_y,
         pws_final_width = final_width, pws_final_height = final_height, pws_stacking = stacking,
         pws_window_type = window_type, pws_applied_state = applied_state,
         pws_visible = (visible \<noteq> 0), pws_focused = (focused \<noteq> 0),
         pws_managed = (managed \<noteq> 0),
         pws_decoration_eligible = (decoration_eligible \<noteq> 0),
         pws_override_redirect = (override_redirect \<noteq> 0),
         pws_attention_requested = (attention_requested \<noteq> 0),
         pws_fullscreen_eligible = ucast fullscreen_eligible,
         pws_direct_scanout_eligible = ucast direct_scanout_eligible, pws_flags = flags\<rparr>, (z1, visible, focused, managed, decoration_eligible, override_redirect, attention_requested, fullscreen_eligible, direct_scanout_eligible, z2)), b) }"

definition invalid_wire_window_state :: "wire_window_state \<Rightarrow> u32 \<times> u8 \<times> u8 \<times> u8 \<times> u8 \<times> u8 \<times> u8 \<times> u8 \<times> u8 \<times> u32 \<Rightarrow> bool" where
  [wire]: "invalid_wire_window_state = (\<lambda>x (z1, visible, focused, managed, decoration_eligible, override_redirect, attention_requested, fullscreen_eligible, direct_scanout_eligible, z2).
     pws_window_id x = 0 \<or> pws_workspace_id x = 0 \<or> pws_output_id x = 0 \<or> pws_final_width x = 0 \<or> pws_final_height x = 0 \<or>
     pws_window_type x > 3 \<or> pws_applied_state x < 1 \<or> pws_applied_state x > 4 \<or> visible > 1 \<or> focused > 1 \<or> managed > 1 \<or>
     decoration_eligible > 1 \<or> override_redirect > 1 \<or> attention_requested > 1 \<or> fullscreen_eligible > 2 \<or>
     direct_scanout_eligible > 2 \<or> pws_flags x \<noteq> 0 \<or> z1 \<noteq> 0 \<or> z2 \<noteq> 0)"

definition decode_wire_window_state :: "u8 list \<Rightarrow> codec_error + wire_window_state" where
  "decode_wire_window_state b = checked (read_wire_window_state b) invalid_wire_window_state"

definition valid_wire_window_state :: "wire_window_state \<Rightarrow> bool" where
  [wire]: "valid_wire_window_state v \<longleftrightarrow> pws_window_id v \<noteq> 0 \<and> pws_workspace_id v \<noteq> 0 \<and> pws_output_id v \<noteq> 0 \<and> pws_final_width v \<noteq> 0 \<and> pws_final_height v \<noteq> 0 \<and>
     pws_window_type v \<le> 3 \<and> 1 \<le> pws_applied_state v \<and> pws_applied_state v \<le> 4 \<and>
     pws_fullscreen_eligible v \<le> 2 \<and> pws_direct_scanout_eligible v \<le> 2 \<and> pws_flags v = 0"

interpretation pws: message 64 encode_wire_window_state valid_wire_window_state decode_wire_window_state
  unfolding decode_wire_window_state_def [abs_def]
  by (rule messageI, unfold read_wire_window_state_def, rule consumes_eq, (rule consumes_sequence)+, simp,
      (auto simp: wire canonical)[], auto simp: wire complete)

record policy_acknowledged =
  pak_commit_id :: u64
  pak_producer_generation :: u64
  pak_applied_generation :: u64
  pak_policy_hash :: u64
  pak_window_count :: u32
  pak_result :: u16

definition encode_policy_acknowledged :: "policy_acknowledged \<Rightarrow> u8 list" where
  [wire]: "encode_policy_acknowledged v =
     write_u64 (pak_commit_id v) @ write_u64 (pak_producer_generation v) @
     write_u64 (pak_applied_generation v) @ write_u64 (pak_policy_hash v) @
     write_u32 (pak_window_count v) @ write_u16 (pak_result v) @ write_u16 0"

definition read_policy_acknowledged :: "u8 list \<Rightarrow> ((policy_acknowledged \<times> u16) \<times> u8 list) option" where
  [wire]: "read_policy_acknowledged b = do {
     (commit_id, b) \<leftarrow> read_u64 b; (producer_generation, b) \<leftarrow> read_u64 b;
     (applied_generation, b) \<leftarrow> read_u64 b; (policy_hash, b) \<leftarrow> read_u64 b;
     (window_count, b) \<leftarrow> read_u32 b; (result, b) \<leftarrow> read_u16 b;
     (z, b) \<leftarrow> read_u16 b;
     Some ((\<lparr>pak_commit_id = commit_id, pak_producer_generation = producer_generation,
         pak_applied_generation = applied_generation, pak_policy_hash = policy_hash,
         pak_window_count = window_count, pak_result = result\<rparr>, z), b) }"

definition invalid_policy_acknowledged :: "policy_acknowledged \<Rightarrow> u16 \<Rightarrow> bool" where
  [wire]: "invalid_policy_acknowledged = (\<lambda>x z.
     pak_commit_id x = 0 \<or> pak_producer_generation x = 0 \<or> pak_result x < 1 \<or> pak_result x > 7 \<or> z \<noteq> 0)"

definition decode_policy_acknowledged :: "u8 list \<Rightarrow> codec_error + policy_acknowledged" where
  "decode_policy_acknowledged b = checked (read_policy_acknowledged b) invalid_policy_acknowledged"

definition valid_policy_acknowledged :: "policy_acknowledged \<Rightarrow> bool" where
  [wire]: "valid_policy_acknowledged v \<longleftrightarrow> pak_commit_id v \<noteq> 0 \<and> pak_producer_generation v \<noteq> 0 \<and> 1 \<le> pak_result v \<and> pak_result v \<le> 7"

interpretation pak: message 40 encode_policy_acknowledged valid_policy_acknowledged decode_policy_acknowledged
  unfolding decode_policy_acknowledged_def [abs_def]
  by (rule messageI, unfold read_policy_acknowledged_def, rule consumes_eq, (rule consumes_sequence)+, simp,
      (auto simp: wire canonical)[], auto simp: wire complete)

section \<open>Bindings\<close>

record policy_bindings_upsert =
  pbu_move_modifiers :: u16
  pbu_resize_modifiers :: u16
  pbu_close_modifiers :: u16
  pbu_move_button :: u8
  pbu_resize_button :: u8
  pbu_close_keysym :: u32
  pbu_minimum_width :: u32
  pbu_minimum_height :: u32
  pbu_raise_on_focus :: bool
  pbu_consume_wm_bindings :: bool

definition encode_policy_bindings_upsert :: "policy_bindings_upsert \<Rightarrow> u8 list" where
  [wire]: "encode_policy_bindings_upsert v =
     write_u16 (pbu_move_modifiers v) @ write_u16 (pbu_resize_modifiers v) @
     write_u16 (pbu_close_modifiers v) @ write_u16 0 @ write_u8 (pbu_move_button v) @
     write_u8 (pbu_resize_button v) @ write_u16 0 @ write_u32 (pbu_close_keysym v) @
     write_u32 (pbu_minimum_width v) @ write_u32 (pbu_minimum_height v) @
     write_bool (pbu_raise_on_focus v) @ write_bool (pbu_consume_wm_bindings v) @ write_u16 0 @
     write_u32 0"

definition read_policy_bindings_upsert :: "u8 list \<Rightarrow> ((policy_bindings_upsert \<times> u16 \<times> u16 \<times> u8 \<times> u8 \<times> u16 \<times> u32) \<times> u8 list) option" where
  [wire]: "read_policy_bindings_upsert b = do {
     (move_modifiers, b) \<leftarrow> read_u16 b; (resize_modifiers, b) \<leftarrow> read_u16 b;
     (close_modifiers, b) \<leftarrow> read_u16 b; (z16a, b) \<leftarrow> read_u16 b;
     (move_button, b) \<leftarrow> read_u8 b; (resize_button, b) \<leftarrow> read_u8 b;
     (z16b, b) \<leftarrow> read_u16 b; (close_keysym, b) \<leftarrow> read_u32 b;
     (minimum_width, b) \<leftarrow> read_u32 b; (minimum_height, b) \<leftarrow> read_u32 b;
     (raise_on_focus, b) \<leftarrow> read_u8 b; (consume_wm_bindings, b) \<leftarrow> read_u8 b;
     (z16c, b) \<leftarrow> read_u16 b; (z32, b) \<leftarrow> read_u32 b;
     Some ((\<lparr>pbu_move_modifiers = move_modifiers, pbu_resize_modifiers = resize_modifiers,
         pbu_close_modifiers = close_modifiers, pbu_move_button = move_button,
         pbu_resize_button = resize_button, pbu_close_keysym = close_keysym,
         pbu_minimum_width = minimum_width, pbu_minimum_height = minimum_height,
         pbu_raise_on_focus = (raise_on_focus \<noteq> 0),
         pbu_consume_wm_bindings = (consume_wm_bindings \<noteq> 0)\<rparr>, (z16a, z16b, raise_on_focus, consume_wm_bindings, z16c, z32)), b) }"

definition invalid_policy_bindings_upsert :: "policy_bindings_upsert \<Rightarrow> u16 \<times> u16 \<times> u8 \<times> u8 \<times> u16 \<times> u32 \<Rightarrow> bool" where
  [wire]: "invalid_policy_bindings_upsert = (\<lambda>x (z16a, z16b, raise_on_focus, consume_wm_bindings, z16c, z32).
     (pbu_move_modifiers x OR pbu_resize_modifiers x OR pbu_close_modifiers x) AND NOT 0x00FF \<noteq> 0 \<or>
     pbu_move_button x < 1 \<or> pbu_move_button x > 9 \<or> pbu_resize_button x < 1 \<or> pbu_resize_button x > 9 \<or>
     pbu_close_keysym x = 0 \<or> pbu_minimum_width x = 0 \<or> pbu_minimum_height x = 0 \<or> pbu_minimum_width x > 16384 \<or>
     pbu_minimum_height x > 16384 \<or> raise_on_focus > 1 \<or> consume_wm_bindings > 1 \<or>
     z16a \<noteq> 0 \<or> z16b \<noteq> 0 \<or> z16c \<noteq> 0 \<or> z32 \<noteq> 0)"

definition decode_policy_bindings_upsert :: "u8 list \<Rightarrow> codec_error + policy_bindings_upsert" where
  "decode_policy_bindings_upsert b = checked (read_policy_bindings_upsert b) invalid_policy_bindings_upsert"

definition valid_policy_bindings_upsert :: "policy_bindings_upsert \<Rightarrow> bool" where
  [wire]: "valid_policy_bindings_upsert v \<longleftrightarrow> (pbu_move_modifiers v OR pbu_resize_modifiers v OR pbu_close_modifiers v) AND NOT 0x00FF = 0 \<and>
     1 \<le> pbu_move_button v \<and> pbu_move_button v \<le> 9 \<and> 1 \<le> pbu_resize_button v \<and> pbu_resize_button v \<le> 9 \<and>
     pbu_close_keysym v \<noteq> 0 \<and> pbu_minimum_width v \<noteq> 0 \<and> pbu_minimum_height v \<noteq> 0 \<and>
     pbu_minimum_width v \<le> 16384 \<and> pbu_minimum_height v \<le> 16384"

interpretation pbu: message 32 encode_policy_bindings_upsert valid_policy_bindings_upsert decode_policy_bindings_upsert
  unfolding decode_policy_bindings_upsert_def [abs_def]
  by (rule messageI, unfold read_policy_bindings_upsert_def, rule consumes_eq, (rule consumes_sequence)+, simp,
      (auto simp: wire canonical)[], auto simp: wire complete)

section \<open>Policy of surfaces\<close>

record surface_policy =
  sfp_surface_id :: u64
  sfp_x11_window_id :: u32
  sfp_workspace_id :: u32
  sfp_window_type :: u16
  sfp_applied_state :: u16
  sfp_focused :: bool
  sfp_managed :: bool
  sfp_decoration_eligible :: bool
  sfp_override_redirect :: bool
  sfp_attention_requested :: bool
  sfp_fullscreen_eligible :: u16
  sfp_direct_scanout_eligible :: u16
  sfp_flags :: u32

definition encode_surface_policy :: "surface_policy \<Rightarrow> u8 list" where
  [wire]: "encode_surface_policy v =
     write_u64 (sfp_surface_id v) @ write_u32 (sfp_x11_window_id v) @
     write_u32 (sfp_workspace_id v) @ write_u16 (sfp_window_type v) @
     write_u16 (sfp_applied_state v) @ write_bool (sfp_focused v) @ write_bool (sfp_managed v) @
     write_bool (sfp_decoration_eligible v) @ write_bool (sfp_override_redirect v) @
     write_bool (sfp_attention_requested v) @ write_u8 (ucast (sfp_fullscreen_eligible v)) @
     write_u8 (ucast (sfp_direct_scanout_eligible v)) @ write_u8 0 @ write_u32 (sfp_flags v) @
     write_u32 0"

definition read_surface_policy :: "u8 list \<Rightarrow> ((surface_policy \<times> u8 \<times> u8 \<times> u8 \<times> u8 \<times> u8 \<times> u8 \<times> u8 \<times> u8 \<times> u32) \<times> u8 list) option" where
  [wire]: "read_surface_policy b = do {
     (surface_id, b) \<leftarrow> read_u64 b; (x11_window_id, b) \<leftarrow> read_u32 b;
     (workspace_id, b) \<leftarrow> read_u32 b; (window_type, b) \<leftarrow> read_u16 b;
     (applied_state, b) \<leftarrow> read_u16 b; (focused, b) \<leftarrow> read_u8 b;
     (managed, b) \<leftarrow> read_u8 b; (decoration_eligible, b) \<leftarrow> read_u8 b;
     (override_redirect, b) \<leftarrow> read_u8 b; (attention_requested, b) \<leftarrow> read_u8 b;
     (fullscreen_eligible, b) \<leftarrow> read_u8 b;
     (direct_scanout_eligible, b) \<leftarrow> read_u8 b; (reserved1, b) \<leftarrow> read_u8 b;
     (flags, b) \<leftarrow> read_u32 b; (reserved2, b) \<leftarrow> read_u32 b;
     Some ((\<lparr>sfp_surface_id = surface_id, sfp_x11_window_id = x11_window_id,
         sfp_workspace_id = workspace_id, sfp_window_type = window_type,
         sfp_applied_state = applied_state, sfp_focused = (focused \<noteq> 0),
         sfp_managed = (managed \<noteq> 0),
         sfp_decoration_eligible = (decoration_eligible \<noteq> 0),
         sfp_override_redirect = (override_redirect \<noteq> 0),
         sfp_attention_requested = (attention_requested \<noteq> 0),
         sfp_fullscreen_eligible = ucast fullscreen_eligible,
         sfp_direct_scanout_eligible = ucast direct_scanout_eligible, sfp_flags = flags\<rparr>, (focused, managed, decoration_eligible, override_redirect, attention_requested, fullscreen_eligible, direct_scanout_eligible, reserved1, reserved2)), b) }"

definition invalid_surface_policy :: "surface_policy \<Rightarrow> u8 \<times> u8 \<times> u8 \<times> u8 \<times> u8 \<times> u8 \<times> u8 \<times> u8 \<times> u32 \<Rightarrow> bool" where
  [wire]: "invalid_surface_policy = (\<lambda>x (focused, managed, decoration_eligible, override_redirect, attention_requested, fullscreen_eligible, direct_scanout_eligible, reserved1, reserved2).
     sfp_surface_id x = 0 \<or> sfp_x11_window_id x = 0 \<or> sfp_workspace_id x = 0 \<or> sfp_window_type x > 3 \<or> sfp_applied_state x < 1 \<or>
     sfp_applied_state x > 4 \<or> focused > 1 \<or> managed > 1 \<or> decoration_eligible > 1 \<or> override_redirect > 1 \<or>
     attention_requested > 1 \<or> fullscreen_eligible > 2 \<or> direct_scanout_eligible > 2 \<or> reserved1 \<noteq> 0 \<or>
     sfp_flags x \<noteq> 0 \<or> reserved2 \<noteq> 0)"

definition decode_surface_policy :: "u8 list \<Rightarrow> codec_error + surface_policy" where
  "decode_surface_policy b = checked (read_surface_policy b) invalid_surface_policy"

definition valid_surface_policy :: "surface_policy \<Rightarrow> bool" where
  [wire]: "valid_surface_policy v \<longleftrightarrow> sfp_surface_id v \<noteq> 0 \<and> sfp_x11_window_id v \<noteq> 0 \<and> sfp_workspace_id v \<noteq> 0 \<and> sfp_window_type v \<le> 3 \<and>
     1 \<le> sfp_applied_state v \<and> sfp_applied_state v \<le> 4 \<and> sfp_fullscreen_eligible v \<le> 2 \<and>
     sfp_direct_scanout_eligible v \<le> 2 \<and> sfp_flags v = 0"

interpretation sfp: message 36 encode_surface_policy valid_surface_policy decode_surface_policy
  unfolding decode_surface_policy_def [abs_def]
  by (rule messageI, unfold read_surface_policy_def, rule consumes_eq, (rule consumes_sequence)+, simp,
      (auto simp: wire canonical)[], auto simp: wire complete)

section \<open>Windows with their lifecycle\<close>

record policy_lifecycle_window_upsert =
  plw_window :: policy_window_upsert
  plw_geometry_serial :: u64
  plw_stack_serial :: u64
  plw_stack_sibling :: u32
  plw_stack_mode :: u16
  plw_flags :: u32

definition encode_policy_lifecycle_window_upsert :: "policy_lifecycle_window_upsert \<Rightarrow> u8 list" where
  "encode_policy_lifecycle_window_upsert v =
     encode_policy_window_upsert (plw_window v) @ write_u64 (plw_geometry_serial v) @ write_u64 (plw_stack_serial v) @
     write_u32 (plw_stack_sibling v) @ write_u16 (plw_stack_mode v) @ write_u16 0 @ write_u32 (plw_flags v) @ write_u32 0"

definition read_lifecycle ::
    "policy_window_upsert \<Rightarrow> u8 list \<Rightarrow> ((policy_lifecycle_window_upsert \<times> u16 \<times> u32) \<times> u8 list) option" where
  "read_lifecycle window b = do {
     (geometry_serial, b) \<leftarrow> read_u64 b; (stack_serial, b) \<leftarrow> read_u64 b; (stack_sibling, b) \<leftarrow> read_u32 b;
     (mode, b) \<leftarrow> read_u16 b; (reserved1, b) \<leftarrow> read_u16 b; (flags, b) \<leftarrow> read_u32 b; (reserved2, b) \<leftarrow> read_u32 b;
     Some ((\<lparr>plw_window = window, plw_geometry_serial = geometry_serial, plw_stack_serial = stack_serial,
         plw_stack_sibling = stack_sibling, plw_stack_mode = mode, plw_flags = flags\<rparr>, (reserved1, reserved2)), b) }"

definition decode_policy_lifecycle_window_upsert :: "u8 list \<Rightarrow> codec_error + policy_lifecycle_window_upsert" where
  "decode_policy_lifecycle_window_upsert b =
     (if length b < 80 then Inl Truncated
      else case decode_policy_window_upsert (take 80 b) of
             Inl e \<Rightarrow> Inl e
           | Inr window \<Rightarrow> checked (read_lifecycle window (drop 80 b)) (\<lambda>x (reserved1, reserved2).
               let no_stack = plw_stack_serial x = 0
               in reserved1 \<noteq> 0 \<or> reserved2 \<noteq> 0 \<or> plw_flags x \<noteq> 0 \<or>
                  (no_stack \<and> (plw_stack_sibling x \<noteq> 0 \<or> plw_stack_mode x \<noteq> 0)) \<or>
                  (\<not> no_stack \<and> (plw_stack_mode x < 1 \<or> plw_stack_mode x > 2)) \<or>
                  plw_stack_sibling x = pwu_window_id (plw_window x)))"

definition valid_policy_lifecycle_window_upsert :: "policy_lifecycle_window_upsert \<Rightarrow> bool" where
  "valid_policy_lifecycle_window_upsert v \<longleftrightarrow>
     valid_policy_window_upsert (plw_window v) \<and> plw_flags v = 0 \<and>
     (if plw_stack_serial v = 0 then plw_stack_sibling v = 0 \<and> plw_stack_mode v = 0
      else 1 \<le> plw_stack_mode v \<and> plw_stack_mode v \<le> 2) \<and>
     plw_stack_sibling v \<noteq> pwu_window_id (plw_window v)"

lemma read_lifecycle_iff:
  "read_lifecycle window b = Some ((x, z), rest) \<longleftrightarrow> plw_window x = window \<and>
     b = write_u64 (plw_geometry_serial x) @ write_u64 (plw_stack_serial x) @ write_u32 (plw_stack_sibling x) @
       write_u16 (plw_stack_mode x) @ write_u16 (fst z) @ write_u32 (plw_flags x) @ write_u32 (snd z) @ rest"
  (is "?l \<longleftrightarrow> ?r")
proof
  assume ?l
  then show ?r by (auto simp: read_lifecycle_def bind_eq_Some_conv read_iffs)
next
  assume ?r
  then show ?l by (cases x, cases z) (simp add: read_lifecycle_def fields)
qed

interpretation plw: codec encode_policy_lifecycle_window_upsert valid_policy_lifecycle_window_upsert
  decode_policy_lifecycle_window_upsert
proof
  fix b v
  show "decode_policy_lifecycle_window_upsert b = Inr v \<longleftrightarrow>
      valid_policy_lifecycle_window_upsert v \<and> b = encode_policy_lifecycle_window_upsert v" (is "?l \<longleftrightarrow> ?r")
  proof
    assume ?l
    then obtain w z where w: "decode_policy_window_upsert (take 80 b) = Inr w" "read_lifecycle w (drop 80 b) = Some ((v, z), [])"
      and c: "fst z = 0" "snd z = 0" "plw_flags v = 0" "if plw_stack_serial v = 0 then plw_stack_sibling v = 0 \<and> plw_stack_mode v = 0
        else 1 \<le> plw_stack_mode v \<and> plw_stack_mode v \<le> 2" "plw_stack_sibling v \<noteq> pwu_window_id (plw_window v)"
      by (auto simp: decode_policy_lifecycle_window_upsert_def checked_def Let_def not_less word_one_le split: if_splits sum.splits option.splits)
    from w(1) have p: "valid_policy_window_upsert w" "take 80 b = encode_policy_window_upsert w" by (simp_all add: pwu.decode_iff)
    have "b = take 80 b @ drop 80 b" by simp
    with p c w(2) show ?r
      by (simp add: read_lifecycle_iff encode_policy_lifecycle_window_upsert_def valid_policy_lifecycle_window_upsert_def)
  next
    assume r: ?r
    then have p: "valid_policy_window_upsert (plw_window v)" by (simp add: valid_policy_lifecycle_window_upsert_def)
    note l = pwu.encode_octets [OF p]
    have "decode_policy_window_upsert (take 80 b) = Inr (plw_window v)"
      using r l p by (simp add: encode_policy_lifecycle_window_upsert_def pwu.decode_encode)
    moreover have "read_lifecycle (plw_window v) (drop 80 b) = Some ((v, (0, 0)), [])"
      using r l by (simp add: read_lifecycle_iff encode_policy_lifecycle_window_upsert_def)
    moreover have "\<not> length b < 80" using r l by (simp add: encode_policy_lifecycle_window_upsert_def)
    ultimately show ?l
      using r by (auto simp: decode_policy_lifecycle_window_upsert_def checked_def Let_def valid_policy_lifecycle_window_upsert_def
          not_less word_one_le split: if_splits)
  qed
qed

end
