(* ===== verification/Wire_Utf8.thy ===== *)
theory Wire_Utf8
  imports Wire_Bytes
begin

text \<open>
  The UTF-8 check of the text fields (\<open>valid_utf8\<close> in \<open>ipc/wire/control.cpp\<close>), and that it accepts
  exactly the encodings of Unicode scalar values.
\<close>

section \<open>Model\<close>

text \<open>The length of a sequence and the bits of its first byte; \<open>None\<close> is a byte that starts none.\<close>

definition utf8_first :: "u8 \<Rightarrow> (nat \<times> u32) option" where
  "utf8_first first =
     (if first \<le> 0x7F then Some (1, ucast first)
      else if first \<ge> 0xC2 \<and> first \<le> 0xDF then Some (2, ucast (first AND 0x1F))
      else if first \<ge> 0xE0 \<and> first \<le> 0xEF then Some (3, ucast (first AND 0x0F))
      else if first \<ge> 0xF0 \<and> first \<le> 0xF4 then Some (4, ucast (first AND 0x07))
      else None)"

fun utf8_continue :: "u8 list \<Rightarrow> u32 \<Rightarrow> u32 option" where
  "utf8_continue [] codepoint = Some codepoint"
| "utf8_continue (byte # bytes) codepoint =
     (if byte AND 0xC0 \<noteq> 0x80 then None
      else utf8_continue bytes (push_bit 6 codepoint OR ucast (byte AND 0x3F)))"

definition utf8_bad :: "nat \<Rightarrow> u32 \<Rightarrow> bool" where
  "utf8_bad n codepoint \<longleftrightarrow>
     (n = 2 \<and> codepoint < 0x80) \<or> (n = 3 \<and> codepoint < 0x800) \<or> (n = 4 \<and> codepoint < 0x10000) \<or>
     (codepoint \<ge> 0xD800 \<and> codepoint \<le> 0xDFFF) \<or> codepoint > 0x10FFFF"

text \<open>The loop over the sequences; the list is what the index has not passed.\<close>

function valid_utf8 :: "u8 list \<Rightarrow> bool" where
  "valid_utf8 [] = True"
| "valid_utf8 (first # rest) =
     (case utf8_first first of
        None \<Rightarrow> False
      | Some (n, codepoint) \<Rightarrow>
          if length (first # rest) < n then False
          else case utf8_continue (take (n - 1) rest) codepoint of
                 None \<Rightarrow> False
               | Some codepoint' \<Rightarrow> if utf8_bad n codepoint' then False else valid_utf8 (drop (n - 1) rest))"
  by pat_completeness auto
termination
  by (relation "measure length") auto

declare valid_utf8.simps(2) [simp del]

section \<open>The encoding of a scalar value\<close>

text \<open>The code points that text may contain, and their encoding.\<close>

definition scalar_value :: "nat \<Rightarrow> bool" where
  "scalar_value c \<longleftrightarrow> c < 0xD800 \<or> 0xE000 \<le> c \<and> c \<le> 0x10FFFF"

definition utf8_encode :: "nat \<Rightarrow> u8 list" where
  "utf8_encode c = map word_of_nat
     (if c < 0x80 then [c]
      else if c < 0x800 then [0xC0 + c div 64, 0x80 + c mod 64]
      else if c < 0x10000 then [0xE0 + c div 4096, 0x80 + c div 64 mod 64, 0x80 + c mod 64]
      else [0xF0 + c div 262144, 0x80 + c div 4096 mod 64, 0x80 + c div 64 mod 64, 0x80 + c mod 64])"

section \<open>The check over numbers\<close>

text \<open>The numbers that the machine words hold; every byte is looked at once.\<close>

definition first_number :: "nat \<Rightarrow> (nat \<times> nat) option" where
  "first_number b =
     (if b \<le> 127 then Some (1, b) else if 194 \<le> b \<and> b \<le> 223 then Some (2, b mod 32)
      else if 224 \<le> b \<and> b \<le> 239 then Some (3, b mod 16) else if 240 \<le> b \<and> b \<le> 244 then Some (4, b mod 8) else None)"

fun continue_number :: "nat list \<Rightarrow> nat \<Rightarrow> nat option" where
  "continue_number [] c = Some c"
| "continue_number (b # bs) c = (if 128 \<le> b \<and> b < 192 then continue_number bs (64 * c + b mod 64) else None)"

lemma byte_facts:
  "list_all (\<lambda>n. ((word_of_nat n :: u8) AND 0xC0 = 0x80) = (128 \<le> n \<and> n < 192) \<and>
     unat ((word_of_nat n :: u8) AND 0x3F) = n mod 64 \<and>
     map_option (\<lambda>(k, c). (k, unat c)) (utf8_first (word_of_nat n)) = first_number n) [0..<256]"
  by code_simp

lemma byte_facts':
  "(b AND 0xC0 = 0x80) = (128 \<le> unat b \<and> unat b < 192)" "unat (b AND 0x3F) = unat b mod 64"
  "map_option (\<lambda>(k, c). (k, unat c)) (utf8_first b) = first_number (unat b)" for b :: u8
  using byte_facts unsigned_less [of b, where ?'a = nat] by (auto simp: list_all_iff dest!: bspec [of _ _ "unat b"])

lemma continue_value:
  fixes b :: u8
  assumes "unat c < 2 ^ 20"
  shows "unat (push_bit 6 c OR ucast (b AND 0x3F) :: u32) = 64 * unat c + unat b mod 64"
proof -
  have m: "(0x3F :: u8) = mask 6" by code_simp
  have "push_bit 6 c AND ucast (b AND 0x3F) = (0 :: u32)"
    unfolding m by (rule bit_word_eqI) (auto simp: bit_simps)
  then have "push_bit 6 c OR ucast (b AND 0x3F) = push_bit 6 c + (ucast (b AND 0x3F) :: u32)"
    by (simp add: disjunctive_add_eq_or)
  moreover have "unat (ucast (b AND 0x3F) :: u32) = unat b mod 64"
    using byte_facts'(2) [of b] by (simp add: unsigned_ucast_eq take_bit_nat_eq_self)
  moreover have "unat (push_bit 6 c) = 64 * unat c"
    using assms by (simp add: push_bit_eq_mult unat_word_ariths)
  ultimately show ?thesis using assms by (simp add: unat_word_ariths)
qed

lemma continue_number_value:
  "(unat c + 1) * 64 ^ length bs \<le> 2 ^ 26 \<Longrightarrow> map_option unat (utf8_continue bs c) = continue_number (map unat bs) (unat c)"
proof (induction bs arbitrary: c)
  case (Cons b bs)
  show ?case
  proof (cases "b AND 0xC0 = 0x80")
    case True
    have "(unat c + 1) * 64 \<le> (unat c + 1) * 64 ^ length (b # bs)" by (rule mult_le_mono2) simp
    from le_trans [OF this Cons.prems] have c: "unat c < 2 ^ 20" by simp
    have "(64 * unat c + unat b mod 64 + 1) * 64 ^ length bs \<le> (unat c + 1) * 64 * 64 ^ length bs"
      by (rule mult_le_mono1) simp
    also have "\<dots> = (unat c + 1) * 64 ^ length (b # bs)" by (simp only: length_Cons power_Suc mult.assoc)
    also have "\<dots> \<le> 2 ^ 26" by (rule Cons.prems)
    finally have "(64 * unat c + unat b mod 64 + 1) * 64 ^ length bs \<le> 2 ^ 26" .
    with Cons.IH [of "push_bit 6 c OR ucast (b AND 0x3F)"] True show ?thesis
      by (simp add: byte_facts' continue_value [OF c])
  next
    case False
    then have "\<not> (128 \<le> unat b \<and> unat b < 192)" by (simp add: byte_facts')
    with False show ?thesis by auto
  qed
qed simp

text \<open>One sequence, over numbers: its length and its code point.\<close>

definition sequence_number :: "nat list \<Rightarrow> (nat \<times> nat) option" where
  "sequence_number bs =
     (case bs of [] \<Rightarrow> None
      | b # rest \<Rightarrow>
          (case first_number b of None \<Rightarrow> None
           | Some (n, c) \<Rightarrow> if length bs < n then None
               else map_option (Pair n) (continue_number (take (n - 1) rest) c)))"

lemma first_number_small: "first_number b = Some (n, c) \<Longrightarrow> 0 < n \<and> (c + 1) * 64 ^ (n - 1) \<le> 2 ^ 26"
  by (auto simp: first_number_def split: if_splits)

lemma valid_utf8_sequence:
  "valid_utf8 (first # rest) \<longleftrightarrow>
     (\<exists>n c. sequence_number (map unat (first # rest)) = Some (n, c) \<and> 0 < n \<and>
        \<not> (n = 2 \<and> c < 128 \<or> n = 3 \<and> c < 2048 \<or> n = 4 \<and> c < 65536 \<or> 55296 \<le> c \<and> c \<le> 57343 \<or> c > 1114111) \<and>
        valid_utf8 (drop n (first # rest)))"
proof (cases "utf8_first first")
  case None
  then have "first_number (unat first) = None" using byte_facts'(3) [of first] by simp
  with None show ?thesis by (simp add: valid_utf8.simps(2) sequence_number_def)
next
  case (Some p)
  obtain n w where p: "p = (n, w)" by (cases p)
  with Some have f: "first_number (unat first) = Some (n, unat w)" using byte_facts'(3) [of first] by simp
  note small = first_number_small [OF f]
  have "(unat w + 1) * 64 ^ length (take (n - 1) rest) \<le> (unat w + 1) * 64 ^ (n - 1)"
    by (intro mult_le_mono2 power_increasing) simp_all
  with small have b: "(unat w + 1) * 64 ^ length (take (n - 1) rest) \<le> 2 ^ 26" by linarith
  note v = continue_number_value [OF b]
  obtain k where k: "n = Suc k" using small by (cases n) auto
  show ?thesis
  proof (cases "utf8_continue (take (n - 1) rest) w")
    case None
    with v have "continue_number (map unat (take (n - 1) rest)) (unat w) = None" by simp
    with Some p None f show ?thesis by (simp add: valid_utf8.simps(2) sequence_number_def take_map)
  next
    case c: (Some w')
    with v have "continue_number (map unat (take (n - 1) rest)) (unat w) = Some (unat w')" by simp
    with Some p c f k show ?thesis
      by (simp add: valid_utf8.simps(2) sequence_number_def take_map utf8_bad_def word_le_nat_alt word_less_nat_alt)
  qed
qed

section \<open>Sequences are encodings\<close>

definition encode_numbers :: "nat \<Rightarrow> nat list" where
  "encode_numbers c =
     (if c < 0x80 then [c]
      else if c < 0x800 then [0xC0 + c div 64, 0x80 + c mod 64]
      else if c < 0x10000 then [0xE0 + c div 4096, 0x80 + c div 64 mod 64, 0x80 + c mod 64]
      else [0xF0 + c div 262144, 0x80 + c div 4096 mod 64, 0x80 + c div 64 mod 64, 0x80 + c mod 64])"

lemma utf8_encode_numbers: "utf8_encode c = map word_of_nat (encode_numbers c)"
  by (simp add: utf8_encode_def encode_numbers_def)

text \<open>What the digits to base 64 are.\<close>

lemma digits:
  fixes p q r s :: nat
  assumes "q < 64" "r < 64" "s < 64"
  shows "(64 * p + q) div 64 = p" "(64 * p + q) mod 64 = q"
    and "(64 * (64 * p + q) + r) div 4096 = p" "(64 * (64 * (64 * p + q) + r) + s) div 262144 = p"
    and "(64 * (64 * (64 * p + q) + r) + s) div 4096 = 64 * p + q"
  using assms by (auto intro!: div_nat_eqI)

lemma base_mods:
  fixes d :: nat
  shows "(192 + d) mod 32 = d mod 32" "(128 + d) mod 64 = d mod 64" "(224 + d) mod 16 = d mod 16" "(240 + d) mod 8 = d mod 8"
  using mod_mult_self3 [of 6 32 d] mod_mult_self3 [of 2 64 d] mod_mult_self3 [of 14 16 d] mod_mult_self3 [of 30 8 d]
  by simp_all

lemma sequence_encode:
  assumes "scalar_value c"
  shows "\<exists>n. sequence_number (encode_numbers c @ bs) = Some (n, c) \<and> n = length (encode_numbers c) \<and>
     \<not> (n = 2 \<and> c < 128 \<or> n = 3 \<and> c < 2048 \<or> n = 4 \<and> c < 65536 \<or> 55296 \<le> c \<and> c \<le> 57343 \<or> c > 1114111)"
proof -
  have c: "c < 55296 \<or> 57344 \<le> c" "c < 1114112" using assms by (auto simp: scalar_value_def)
  have two: "c div 64 < 32" if "c < 2048" using that by (simp add: div_less_iff_less_mult)
  have three: "c div 4096 < 16" if "c < 65536" using that by (simp add: div_less_iff_less_mult)
  have four: "c div 262144 < 5" using c(2) by (simp add: div_less_iff_less_mult)
  have r: "64 * (c div 64) + c mod 64 = c" by simp
  have r3: "64 * (64 * (c div 4096) + c div 64 mod 64) + c mod 64 = c"
    using div_mult2_eq [of c 64 64] by (simp add: algebra_simps)
  have r4: "64 * (64 * (64 * (c div 262144) + c div 4096 mod 64) + c div 64 mod 64) + c mod 64 = c"
    using div_mult2_eq [of c 64 64] div_mult2_eq [of c 4096 64] by (simp add: algebra_simps)
  consider "c < 128" | "128 \<le> c" "c < 2048" | "2048 \<le> c" "c < 65536" | "65536 \<le> c" by linarith
  then show ?thesis
  proof cases
    case 1
    then show ?thesis by (simp add: encode_numbers_def sequence_number_def first_number_def)
  next
    case 2
    then have "2 \<le> c div 64" by (simp add: less_eq_div_iff_mult_less_eq)
    with 2 two [OF 2(2)] show ?thesis
      by (simp add: encode_numbers_def sequence_number_def first_number_def base_mods)
  next
    case 3
    with c three r3 show ?thesis
      by (auto simp: encode_numbers_def sequence_number_def first_number_def base_mods)
  next
    case 4
    with c four r4 show ?thesis
      by (auto simp: encode_numbers_def sequence_number_def first_number_def base_mods)
  qed
qed

lemma continuation_digit: "128 \<le> b \<Longrightarrow> b < 192 \<Longrightarrow> \<exists>q < 64. b = 128 + q" for b :: nat
  by (rule exI [of _ "b - 128"]) simp

lemma sequence_decode:
  assumes "sequence_number bs = Some (n, c)"
    and "\<not> (n = 2 \<and> c < 128 \<or> n = 3 \<and> c < 2048 \<or> n = 4 \<and> c < 65536 \<or> 55296 \<le> c \<and> c \<le> 57343 \<or> c > 1114111)"
  shows "scalar_value c \<and> bs = encode_numbers c @ drop n bs"
proof -
  obtain b rest d where bs: "bs = b # rest" "first_number b = Some (n, d)" "n \<le> length bs"
      "continue_number (take (n - 1) rest) d = Some c"
    using assms(1) by (auto simp: sequence_number_def split: list.splits option.splits if_splits)
  have sv: "scalar_value c" using assms(2) by (auto simp: scalar_value_def)
  consider "b \<le> 127" "n = 1" "d = b" | "194 \<le> b" "b \<le> 223" "n = 2" "d = b mod 32"
    | "224 \<le> b" "b \<le> 239" "n = 3" "d = b mod 16" | "240 \<le> b" "b \<le> 244" "n = 4" "d = b mod 8"
    using bs(2) by (auto simp: first_number_def split: if_splits)
  then show ?thesis
  proof cases
    case 1
    with bs sv show ?thesis by (simp add: encode_numbers_def)
  next
    case 2
    define p where "p = b - 192"
    have p: "b = 192 + p" "p < 32" using 2 by (simp_all add: p_def)
    obtain b1 r where r: "rest = b1 # r" using bs(1,3) 2 by (cases rest) auto
    then obtain q where q: "q < 64" "b1 = 128 + q" using bs(4) 2 continuation_digit by (auto split: if_splits)
    have c: "c = 64 * p + q" using bs(4) 2 r p q by (simp add: base_mods)
    then have "128 \<le> c" "c < 2048" using assms(2) 2 p q by auto
    then show ?thesis using sv q p digits(1,2) [of q 0 0 p] by (simp add: bs(1) r 2 encode_numbers_def c)
  next
    case 3
    define p where "p = b - 224"
    have p: "b = 224 + p" "p < 16" using 3 by (simp_all add: p_def)
    obtain b1 b2 r where r: "rest = b1 # b2 # r" using bs(1,3) 3 by (cases rest; cases "tl rest") auto
    then obtain q t where q: "q < 64" "b1 = 128 + q" "t < 64" "b2 = 128 + t"
      using bs(4) 3 continuation_digit [of b1] continuation_digit [of b2] by (auto split: if_splits)
    have c: "c = 64 * (64 * p + q) + t" using bs(4) 3 r p q by (simp add: base_mods)
    then have "2048 \<le> c" "c < 65536" using assms(2) 3 p q by auto
    then show ?thesis
      using sv q p digits(1,2) [of t 0 0 "64 * p + q"] digits(1,2) [of q 0 0 p] digits(3) [of q t 0 p]
      by (simp add: bs(1) r 3 encode_numbers_def c)
  next
    case 4
    define p where "p = b - 240"
    have p: "b = 240 + p" "p < 8" using 4 by (simp_all add: p_def)
    obtain b1 b2 b3 r where r: "rest = b1 # b2 # b3 # r" using bs(1,3) 4 by (cases rest; cases "tl rest"; cases "tl (tl rest)") auto
    then obtain q t s where q: "q < 64" "b1 = 128 + q" "t < 64" "b2 = 128 + t" "s < 64" "b3 = 128 + s"
      using bs(4) 4 continuation_digit [of b1] continuation_digit [of b2] continuation_digit [of b3] by (auto split: if_splits)
    have c: "c = 64 * (64 * (64 * p + q) + t) + s" using bs(4) 4 r p q by (simp add: base_mods)
    then have "65536 \<le> c" using assms(2) 4 by auto
    then show ?thesis
      using sv q p digits(1,2) [of s 0 0 "64 * (64 * p + q) + t"] digits(1,2) [of t 0 0 "64 * p + q"]
        digits(1,2) [of q 0 0 p] digits(4,5) [of q t s p]
      by (simp add: bs(1) r 4 encode_numbers_def c)
  qed
qed

lemma encode_numbers_bytes: "scalar_value c \<Longrightarrow> \<forall>b \<in> set (encode_numbers c). b < 256"
proof -
  assume "scalar_value c"
  then have "c div 262144 < 5" by (auto simp: scalar_value_def div_less_iff_less_mult)
  then show ?thesis by (auto simp: encode_numbers_def div_less_iff_less_mult intro: less_trans [of _ "128 + 64"])
qed

lemma utf8_encode_unat: "scalar_value c \<Longrightarrow> map unat (utf8_encode c) = encode_numbers c"
  using encode_numbers_bytes [of c] unfolding utf8_encode_numbers
  by (auto simp: comp_def unat_of_nat take_bit_nat_eq_self intro!: map_idI)

lemma valid_utf8_encode: "scalar_value c \<Longrightarrow> valid_utf8 (utf8_encode c @ rest) = valid_utf8 rest"
proof -
  assume c: "scalar_value c"
  have n: "utf8_encode c \<noteq> []" by (simp add: utf8_encode_def)
  then obtain b bs where b: "utf8_encode c @ rest = b # bs" by (cases "utf8_encode c") auto
  have l: "length (utf8_encode c) = length (encode_numbers c)" by (simp add: utf8_encode_numbers)
  have "map unat (b # bs) = encode_numbers c @ map unat rest"
    unfolding b [symmetric] by (simp add: utf8_encode_unat [OF c])
  with sequence_encode [OF c, of "map unat rest"] obtain k where k: "sequence_number (map unat (b # bs)) = Some (k, c)"
      "k = length (utf8_encode c)"
      "\<not> (k = 2 \<and> c < 128 \<or> k = 3 \<and> c < 2048 \<or> k = 4 \<and> c < 65536 \<or> 55296 \<le> c \<and> c \<le> 57343 \<or> c > 1114111)"
    using l by auto
  have "drop k (b # bs) = rest" "0 < k" unfolding b [symmetric] using k(2) n by simp_all
  with k show ?thesis unfolding b by (subst valid_utf8_sequence) auto
qed

lemma valid_utf8_decode:
  assumes "valid_utf8 (b # bs)"
  shows "\<exists>c rest. scalar_value c \<and> b # bs = utf8_encode c @ rest \<and> valid_utf8 rest \<and> length rest < length (b # bs)"
proof -
  obtain n c where n: "sequence_number (map unat (b # bs)) = Some (n, c)" "0 < n" "valid_utf8 (drop n (b # bs))"
    "\<not> (n = 2 \<and> c < 128 \<or> n = 3 \<and> c < 2048 \<or> n = 4 \<and> c < 65536 \<or> 55296 \<le> c \<and> c \<le> 57343 \<or> c > 1114111)"
    using assms unfolding valid_utf8_sequence by blast
  from sequence_decode [OF n(1,4)] have c: "scalar_value c" "map unat (b # bs) = encode_numbers c @ drop n (map unat (b # bs))"
    by blast+
  have "map word_of_nat (map unat (b # bs)) = utf8_encode c @ map word_of_nat (map unat (drop n (b # bs)))"
    unfolding utf8_encode_numbers using arg_cong [OF c(2), of "map word_of_nat"] by (simp add: drop_map del: list.map)
  then have "b # bs = utf8_encode c @ drop n (b # bs)" by (simp add: comp_def)
  with c(1) n(2,3) show ?thesis by (intro exI [of _ c] exI [of _ "drop n (b # bs)"]) simp
qed

section \<open>Property\<close>

text \<open>
  C23. The UTF-8 check accepts exactly the byte strings that are the encodings of sequences of Unicode
  scalar values: no overlong form, no surrogate, nothing above the last code point, no stray or missing
  continuation byte.
\<close>

theorem valid_utf8_exact: "valid_utf8 bytes \<longleftrightarrow> (\<exists>cs. list_all scalar_value cs \<and> bytes = concat (map utf8_encode cs))"
proof
  assume "valid_utf8 bytes"
  then show "\<exists>cs. list_all scalar_value cs \<and> bytes = concat (map utf8_encode cs)"
  proof (induction bytes rule: length_induct)
    case (1 bytes)
    show ?case
    proof (cases bytes)
      case Nil
      then show ?thesis by (intro exI [of _ "[]"]) simp
    next
      case (Cons b bs)
      with 1 obtain c rest where c: "scalar_value c" "bytes = utf8_encode c @ rest" "valid_utf8 rest" "length rest < length bytes"
        using valid_utf8_decode by blast
      with 1 obtain cs where "list_all scalar_value cs" "rest = concat (map utf8_encode cs)" by blast
      with c show ?thesis by (intro exI [of _ "c # cs"]) simp
    qed
  qed
next
  assume "\<exists>cs. list_all scalar_value cs \<and> bytes = concat (map utf8_encode cs)"
  then obtain cs where "list_all scalar_value cs" "bytes = concat (map utf8_encode cs)" by blast
  then show "valid_utf8 bytes" by (induction cs arbitrary: bytes) (simp_all add: valid_utf8_encode)
qed

end
