(* ===== verification/Wire_Control.thy ===== *)
theory Wire_Control
  imports Wire_Utf8
begin

text \<open>
  The envelope of every message and the messages that establish and steer a connection
  (\<open>ipc/wire/envelope.cpp\<close>, \<open>ipc/wire/control.cpp\<close>, \<open>ipc/wire/session_contract.cpp\<close>,
  \<open>ipc/wire/input_contract.cpp\<close>).
\<close>

definition kKnownCapabilities :: u64 where
  "kKnownCapabilities = 0x3FFFFF"

definition kHardMaximumPayload :: u32 where
  "kHardMaximumPayload = 1024 * 1024"

definition kHardMaximumFds :: u16 where
  "kHardMaximumFds = 16"

definition kMaximumInstanceLabel :: nat where
  "kMaximumInstanceLabel = 64"

definition kMaximumDiagnosticString :: nat where
  "kMaximumDiagnosticString = 256"

definition nonzero :: "u8 list \<Rightarrow> bool" where
  "nonzero bytes \<longleftrightarrow> (\<exists>byte \<in> set bytes. byte \<noteq> 0)"

definition valid_version_range :: "u16 \<Rightarrow> u16 \<Rightarrow> u16 \<Rightarrow> u16 \<Rightarrow> bool" where
  "valid_version_range minimum_major minimum_minor maximum_major maximum_minor \<longleftrightarrow>
     minimum_major < maximum_major \<or> (minimum_major = maximum_major \<and> minimum_minor \<le> maximum_minor)"

section \<open>Handshake\<close>

record welcome_message =
  we_selected_major :: u16
  we_selected_minor :: u16
  we_sender_role :: u16
  we_negotiated_capabilities :: u64
  we_negotiated_maximum_payload :: u32
  we_negotiated_maximum_fd_count :: u16
  we_connection_id :: u64
  we_sender_instance_id :: "u8 list"

definition encode_welcome_message :: "welcome_message \<Rightarrow> u8 list" where
  [wire]: "encode_welcome_message v =
     write_u16 (we_selected_major v) @ write_u16 (we_selected_minor v) @
     write_u16 (we_sender_role v) @ write_u16 0 @ write_u64 (we_negotiated_capabilities v) @
     write_u32 (we_negotiated_maximum_payload v) @ write_u16 (we_negotiated_maximum_fd_count v) @
     write_u16 0 @ write_u64 (we_connection_id v) @ we_sender_instance_id v"

definition read_welcome_message :: "u8 list \<Rightarrow> ((welcome_message \<times> u16 \<times> u16) \<times> u8 list) option" where
  [wire]: "read_welcome_message b = do {
     (selected_major, b) \<leftarrow> read_u16 b; (selected_minor, b) \<leftarrow> read_u16 b;
     (sender_role, b) \<leftarrow> read_u16 b; (reserved1, b) \<leftarrow> read_u16 b;
     (negotiated_capabilities, b) \<leftarrow> read_u64 b;
     (negotiated_maximum_payload, b) \<leftarrow> read_u32 b;
     (negotiated_maximum_fd_count, b) \<leftarrow> read_u16 b; (reserved2, b) \<leftarrow> read_u16 b;
     (connection_id, b) \<leftarrow> read_u64 b; (sender_instance_id, b) \<leftarrow> read_bytes 16 b;
     Some ((\<lparr>we_selected_major = selected_major, we_selected_minor = selected_minor,
         we_sender_role = sender_role, we_negotiated_capabilities = negotiated_capabilities,
         we_negotiated_maximum_payload = negotiated_maximum_payload,
         we_negotiated_maximum_fd_count = negotiated_maximum_fd_count,
         we_connection_id = connection_id, we_sender_instance_id = sender_instance_id\<rparr>, (reserved1, reserved2)), b) }"

definition invalid_welcome_message :: "welcome_message \<Rightarrow> u16 \<times> u16 \<Rightarrow> bool" where
  [wire]: "invalid_welcome_message = (\<lambda>x (reserved1, reserved2).
     reserved1 \<noteq> 0 \<or> reserved2 \<noteq> 0 \<or> we_selected_major x \<noteq> 1 \<or> we_selected_minor x \<noteq> 0 \<or>
     we_sender_role x < 1 \<or> we_sender_role x > 6 \<or> we_negotiated_capabilities x AND NOT kKnownCapabilities \<noteq> 0 \<or>
     we_negotiated_maximum_payload x = 0 \<or> we_negotiated_maximum_payload x > kHardMaximumPayload \<or>
     we_negotiated_maximum_fd_count x > kHardMaximumFds \<or> we_connection_id x = 0 \<or> \<not> nonzero (we_sender_instance_id x))"

definition decode_welcome_message :: "u8 list \<Rightarrow> codec_error + welcome_message" where
  "decode_welcome_message b = checked (read_welcome_message b) invalid_welcome_message"

definition valid_welcome_message :: "welcome_message \<Rightarrow> bool" where
  [wire]: "valid_welcome_message v \<longleftrightarrow> we_selected_major v = 1 \<and> we_selected_minor v = 0 \<and> 1 \<le> we_sender_role v \<and> we_sender_role v \<le> 6 \<and>
     we_negotiated_capabilities v AND NOT kKnownCapabilities = 0 \<and> we_negotiated_maximum_payload v \<noteq> 0 \<and>
     we_negotiated_maximum_payload v \<le> kHardMaximumPayload \<and> we_negotiated_maximum_fd_count v \<le> kHardMaximumFds \<and>
     we_connection_id v \<noteq> 0 \<and> nonzero (we_sender_instance_id v) \<and> length (we_sender_instance_id v) = 16"

interpretation we: message 48 encode_welcome_message valid_welcome_message decode_welcome_message
  unfolding decode_welcome_message_def [abs_def]
  by (rule messageI, unfold read_welcome_message_def, rule consumes_eq, (rule consumes_sequence)+, simp,
      (auto simp: wire canonical)[], auto simp: wire complete)

record ping =
  pi_nonce :: u64

definition encode_ping :: "ping \<Rightarrow> u8 list" where
  [wire]: "encode_ping v =
     write_u64 (pi_nonce v)"

definition read_ping :: "u8 list \<Rightarrow> ((ping \<times> unit) \<times> u8 list) option" where
  [wire]: "read_ping b = do {
     (nonce, b) \<leftarrow> read_u64 b;
     Some ((\<lparr>pi_nonce = nonce\<rparr>, ()), b) }"

definition invalid_ping :: "ping \<Rightarrow> unit \<Rightarrow> bool" where
  [wire]: "invalid_ping = (\<lambda>x u.
     False)"

definition decode_ping :: "u8 list \<Rightarrow> codec_error + ping" where
  "decode_ping b = checked (read_ping b) invalid_ping"

definition valid_ping :: "ping \<Rightarrow> bool" where
  [wire]: "valid_ping v \<longleftrightarrow> True"

interpretation pi: message 8 encode_ping valid_ping decode_ping
  unfolding decode_ping_def [abs_def]
  by (rule messageI, unfold read_ping_def, rule consumes_eq, (rule consumes_sequence)+, simp,
      (auto simp: wire canonical)[], auto simp: wire complete)

section \<open>Snapshots\<close>

record snapshot_begin =
  sb_snapshot_id :: u64
  sb_domain :: u16
  sb_flags :: u16
  sb_generation :: u64
  sb_expected_item_count :: u32

definition encode_snapshot_begin :: "snapshot_begin \<Rightarrow> u8 list" where
  [wire]: "encode_snapshot_begin v =
     write_u64 (sb_snapshot_id v) @ write_u16 (sb_domain v) @ write_u16 (sb_flags v) @
     write_u64 (sb_generation v) @ write_u32 (sb_expected_item_count v) @ write_u32 0"

definition read_snapshot_begin :: "u8 list \<Rightarrow> ((snapshot_begin \<times> u32) \<times> u8 list) option" where
  [wire]: "read_snapshot_begin b = do {
     (snapshot_id, b) \<leftarrow> read_u64 b; (domain, b) \<leftarrow> read_u16 b;
     (flags, b) \<leftarrow> read_u16 b; (generation, b) \<leftarrow> read_u64 b;
     (expected_item_count, b) \<leftarrow> read_u32 b; (reserved, b) \<leftarrow> read_u32 b;
     Some ((\<lparr>sb_snapshot_id = snapshot_id, sb_domain = domain, sb_flags = flags,
         sb_generation = generation, sb_expected_item_count = expected_item_count\<rparr>, reserved), b) }"

definition invalid_snapshot_begin :: "snapshot_begin \<Rightarrow> u32 \<Rightarrow> bool" where
  [wire]: "invalid_snapshot_begin = (\<lambda>x reserved.
     sb_snapshot_id x = 0 \<or> sb_flags x \<noteq> 0 \<or> reserved \<noteq> 0 \<or> sb_domain x < 1 \<or> sb_domain x > 5)"

definition decode_snapshot_begin :: "u8 list \<Rightarrow> codec_error + snapshot_begin" where
  "decode_snapshot_begin b = checked (read_snapshot_begin b) invalid_snapshot_begin"

definition valid_snapshot_begin :: "snapshot_begin \<Rightarrow> bool" where
  [wire]: "valid_snapshot_begin v \<longleftrightarrow> sb_snapshot_id v \<noteq> 0 \<and> sb_flags v = 0 \<and> 1 \<le> sb_domain v \<and> sb_domain v \<le> 5"

interpretation sb: message 28 encode_snapshot_begin valid_snapshot_begin decode_snapshot_begin
  unfolding decode_snapshot_begin_def [abs_def]
  by (rule messageI, unfold read_snapshot_begin_def, rule consumes_eq, (rule consumes_sequence)+, simp,
      (auto simp: wire canonical)[], auto simp: wire complete)

record snapshot_end =
  se_snapshot_id :: u64
  se_generation :: u64
  se_actual_item_count :: u32

definition encode_snapshot_end :: "snapshot_end \<Rightarrow> u8 list" where
  [wire]: "encode_snapshot_end v =
     write_u64 (se_snapshot_id v) @ write_u64 (se_generation v) @
     write_u32 (se_actual_item_count v) @ write_u32 0"

definition read_snapshot_end :: "u8 list \<Rightarrow> ((snapshot_end \<times> u32) \<times> u8 list) option" where
  [wire]: "read_snapshot_end b = do {
     (snapshot_id, b) \<leftarrow> read_u64 b; (generation, b) \<leftarrow> read_u64 b;
     (actual_item_count, b) \<leftarrow> read_u32 b; (reserved, b) \<leftarrow> read_u32 b;
     Some ((\<lparr>se_snapshot_id = snapshot_id, se_generation = generation,
         se_actual_item_count = actual_item_count\<rparr>, reserved), b) }"

definition invalid_snapshot_end :: "snapshot_end \<Rightarrow> u32 \<Rightarrow> bool" where
  [wire]: "invalid_snapshot_end = (\<lambda>x reserved.
     se_snapshot_id x = 0 \<or> reserved \<noteq> 0)"

definition decode_snapshot_end :: "u8 list \<Rightarrow> codec_error + snapshot_end" where
  "decode_snapshot_end b = checked (read_snapshot_end b) invalid_snapshot_end"

definition valid_snapshot_end :: "snapshot_end \<Rightarrow> bool" where
  [wire]: "valid_snapshot_end v \<longleftrightarrow> se_snapshot_id v \<noteq> 0"

interpretation se: message 24 encode_snapshot_end valid_snapshot_end decode_snapshot_end
  unfolding decode_snapshot_end_def [abs_def]
  by (rule messageI, unfold read_snapshot_end_def, rule consumes_eq, (rule consumes_sequence)+, simp,
      (auto simp: wire canonical)[], auto simp: wire complete)

section \<open>Session\<close>

record session_state_change =
  sc_generation :: u64
  sc_state :: u16
  sc_flags :: u32

definition encode_session_state_change :: "session_state_change \<Rightarrow> u8 list" where
  [wire]: "encode_session_state_change v =
     write_u64 (sc_generation v) @ write_u16 (sc_state v) @ write_u16 0 @ write_u32 (sc_flags v)"

definition read_session_state_change :: "u8 list \<Rightarrow> ((session_state_change \<times> u16) \<times> u8 list) option" where
  [wire]: "read_session_state_change b = do {
     (generation, b) \<leftarrow> read_u64 b; (state, b) \<leftarrow> read_u16 b;
     (reserved, b) \<leftarrow> read_u16 b; (flags, b) \<leftarrow> read_u32 b;
     Some ((\<lparr>sc_generation = generation, sc_state = state, sc_flags = flags\<rparr>, reserved), b) }"

definition invalid_session_state_change :: "session_state_change \<Rightarrow> u16 \<Rightarrow> bool" where
  [wire]: "invalid_session_state_change = (\<lambda>x reserved.
     sc_generation x = 0 \<or> sc_state x < 1 \<or> sc_state x > 2 \<or> sc_flags x \<noteq> 0 \<or> reserved \<noteq> 0)"

definition decode_session_state_change :: "u8 list \<Rightarrow> codec_error + session_state_change" where
  "decode_session_state_change b = checked (read_session_state_change b) invalid_session_state_change"

definition valid_session_state_change :: "session_state_change \<Rightarrow> bool" where
  [wire]: "valid_session_state_change v \<longleftrightarrow> sc_generation v \<noteq> 0 \<and> 1 \<le> sc_state v \<and> sc_state v \<le> 2 \<and> sc_flags v = 0"

interpretation sc: message 16 encode_session_state_change valid_session_state_change decode_session_state_change
  unfolding decode_session_state_change_def [abs_def]
  by (rule messageI, unfold read_session_state_change_def, rule consumes_eq, (rule consumes_sequence)+, simp,
      (auto simp: wire canonical)[], auto simp: wire complete)

record session_state_acknowledged =
  sa_generation :: u64
  sa_state :: u16
  sa_result :: u16
  sa_flags :: u32

definition encode_session_state_acknowledged :: "session_state_acknowledged \<Rightarrow> u8 list" where
  [wire]: "encode_session_state_acknowledged v =
     write_u64 (sa_generation v) @ write_u16 (sa_state v) @ write_u16 (sa_result v) @
     write_u32 (sa_flags v)"

definition read_session_state_acknowledged :: "u8 list \<Rightarrow> ((session_state_acknowledged \<times> unit) \<times> u8 list) option" where
  [wire]: "read_session_state_acknowledged b = do {
     (generation, b) \<leftarrow> read_u64 b; (state, b) \<leftarrow> read_u16 b;
     (result, b) \<leftarrow> read_u16 b; (flags, b) \<leftarrow> read_u32 b;
     Some ((\<lparr>sa_generation = generation, sa_state = state, sa_result = result, sa_flags = flags\<rparr>, ()), b) }"

definition invalid_session_state_acknowledged :: "session_state_acknowledged \<Rightarrow> unit \<Rightarrow> bool" where
  [wire]: "invalid_session_state_acknowledged = (\<lambda>x u.
     sa_generation x = 0 \<or> sa_state x < 1 \<or> sa_state x > 2 \<or> sa_result x < 1 \<or> sa_result x > 4 \<or> sa_flags x \<noteq> 0)"

definition decode_session_state_acknowledged :: "u8 list \<Rightarrow> codec_error + session_state_acknowledged" where
  "decode_session_state_acknowledged b = checked (read_session_state_acknowledged b) invalid_session_state_acknowledged"

definition valid_session_state_acknowledged :: "session_state_acknowledged \<Rightarrow> bool" where
  [wire]: "valid_session_state_acknowledged v \<longleftrightarrow> sa_generation v \<noteq> 0 \<and> 1 \<le> sa_state v \<and> sa_state v \<le> 2 \<and> 1 \<le> sa_result v \<and> sa_result v \<le> 4 \<and> sa_flags v = 0"

interpretation sa: message 16 encode_session_state_acknowledged valid_session_state_acknowledged decode_session_state_acknowledged
  unfolding decode_session_state_acknowledged_def [abs_def]
  by (rule messageI, unfold read_session_state_acknowledged_def, rule consumes_eq, (rule consumes_sequence)+, simp,
      (auto simp: wire canonical)[], auto simp: wire complete)

section \<open>Synthetic input\<close>

record synthetic_motion =
  smo_input_id :: u64
  smo_time_ms :: u32
  smo_root_x :: i32
  smo_root_y :: i32
  smo_flags :: u32

definition encode_synthetic_motion :: "synthetic_motion \<Rightarrow> u8 list" where
  [wire]: "encode_synthetic_motion v =
     write_u64 (smo_input_id v) @ write_u32 (smo_time_ms v) @ write_i32 (smo_root_x v) @
     write_i32 (smo_root_y v) @ write_u32 (smo_flags v)"

definition read_synthetic_motion :: "u8 list \<Rightarrow> ((synthetic_motion \<times> unit) \<times> u8 list) option" where
  [wire]: "read_synthetic_motion b = do {
     (input_id, b) \<leftarrow> read_u64 b; (time_ms, b) \<leftarrow> read_u32 b;
     (root_x, b) \<leftarrow> read_i32 b; (root_y, b) \<leftarrow> read_i32 b;
     (flags, b) \<leftarrow> read_u32 b;
     Some ((\<lparr>smo_input_id = input_id, smo_time_ms = time_ms, smo_root_x = root_x, smo_root_y = root_y,
         smo_flags = flags\<rparr>, ()), b) }"

definition invalid_synthetic_motion :: "synthetic_motion \<Rightarrow> unit \<Rightarrow> bool" where
  [wire]: "invalid_synthetic_motion = (\<lambda>x u.
     smo_input_id x = 0 \<or> smo_time_ms x = 0 \<or> smo_flags x \<noteq> 0)"

definition decode_synthetic_motion :: "u8 list \<Rightarrow> codec_error + synthetic_motion" where
  "decode_synthetic_motion b = checked (read_synthetic_motion b) invalid_synthetic_motion"

definition valid_synthetic_motion :: "synthetic_motion \<Rightarrow> bool" where
  [wire]: "valid_synthetic_motion v \<longleftrightarrow> smo_input_id v \<noteq> 0 \<and> smo_time_ms v \<noteq> 0 \<and> smo_flags v = 0"

interpretation syn_motion: message 24 encode_synthetic_motion valid_synthetic_motion decode_synthetic_motion
  unfolding decode_synthetic_motion_def [abs_def]
  by (rule messageI, unfold read_synthetic_motion_def, rule consumes_eq, (rule consumes_sequence)+, simp,
      (auto simp: wire canonical)[], auto simp: wire complete)

record synthetic_button =
  sbt_input_id :: u64
  sbt_time_ms :: u32
  sbt_button :: u8
  sbt_pressed :: u8
  sbt_reserved16 :: u16
  sbt_flags :: u32

definition encode_synthetic_button :: "synthetic_button \<Rightarrow> u8 list" where
  [wire]: "encode_synthetic_button v =
     write_u64 (sbt_input_id v) @ write_u32 (sbt_time_ms v) @ write_u8 (sbt_button v) @
     write_u8 (sbt_pressed v) @ write_u16 (sbt_reserved16 v) @ write_u32 (sbt_flags v)"

definition read_synthetic_button :: "u8 list \<Rightarrow> ((synthetic_button \<times> unit) \<times> u8 list) option" where
  [wire]: "read_synthetic_button b = do {
     (input_id, b) \<leftarrow> read_u64 b; (time_ms, b) \<leftarrow> read_u32 b;
     (button, b) \<leftarrow> read_u8 b; (pressed, b) \<leftarrow> read_u8 b;
     (reserved16, b) \<leftarrow> read_u16 b; (flags, b) \<leftarrow> read_u32 b;
     Some ((\<lparr>sbt_input_id = input_id, sbt_time_ms = time_ms, sbt_button = button, sbt_pressed = pressed,
         sbt_reserved16 = reserved16, sbt_flags = flags\<rparr>, ()), b) }"

definition invalid_synthetic_button :: "synthetic_button \<Rightarrow> unit \<Rightarrow> bool" where
  [wire]: "invalid_synthetic_button = (\<lambda>x u.
     sbt_input_id x = 0 \<or> sbt_time_ms x = 0 \<or> sbt_button x < 1 \<or> sbt_button x > 5 \<or> sbt_pressed x > 1 \<or> sbt_reserved16 x \<noteq> 0 \<or> sbt_flags x \<noteq> 0)"

definition decode_synthetic_button :: "u8 list \<Rightarrow> codec_error + synthetic_button" where
  "decode_synthetic_button b = checked (read_synthetic_button b) invalid_synthetic_button"

definition valid_synthetic_button :: "synthetic_button \<Rightarrow> bool" where
  [wire]: "valid_synthetic_button v \<longleftrightarrow> sbt_input_id v \<noteq> 0 \<and> sbt_time_ms v \<noteq> 0 \<and> 1 \<le> sbt_button v \<and> sbt_button v \<le> 5 \<and> sbt_pressed v \<le> 1 \<and>
     sbt_reserved16 v = 0 \<and> sbt_flags v = 0"

interpretation syn_button: message 20 encode_synthetic_button valid_synthetic_button decode_synthetic_button
  unfolding decode_synthetic_button_def [abs_def]
  by (rule messageI, unfold read_synthetic_button_def, rule consumes_eq, (rule consumes_sequence)+, simp,
      (auto simp: wire canonical)[], auto simp: wire complete)

record synthetic_key =
  sk_input_id :: u64
  sk_time_ms :: u32
  sk_keycode :: u8
  sk_pressed :: u8
  sk_reserved16 :: u16
  sk_flags :: u32

definition encode_synthetic_key :: "synthetic_key \<Rightarrow> u8 list" where
  [wire]: "encode_synthetic_key v =
     write_u64 (sk_input_id v) @ write_u32 (sk_time_ms v) @ write_u8 (sk_keycode v) @
     write_u8 (sk_pressed v) @ write_u16 (sk_reserved16 v) @ write_u32 (sk_flags v)"

definition read_synthetic_key :: "u8 list \<Rightarrow> ((synthetic_key \<times> unit) \<times> u8 list) option" where
  [wire]: "read_synthetic_key b = do {
     (input_id, b) \<leftarrow> read_u64 b; (time_ms, b) \<leftarrow> read_u32 b;
     (keycode, b) \<leftarrow> read_u8 b; (pressed, b) \<leftarrow> read_u8 b;
     (reserved16, b) \<leftarrow> read_u16 b; (flags, b) \<leftarrow> read_u32 b;
     Some ((\<lparr>sk_input_id = input_id, sk_time_ms = time_ms, sk_keycode = keycode, sk_pressed = pressed,
         sk_reserved16 = reserved16, sk_flags = flags\<rparr>, ()), b) }"

definition invalid_synthetic_key :: "synthetic_key \<Rightarrow> unit \<Rightarrow> bool" where
  [wire]: "invalid_synthetic_key = (\<lambda>x u.
     sk_input_id x = 0 \<or> sk_time_ms x = 0 \<or> sk_keycode x < 8 \<or> sk_pressed x > 1 \<or> sk_reserved16 x \<noteq> 0 \<or> sk_flags x \<noteq> 0)"

definition decode_synthetic_key :: "u8 list \<Rightarrow> codec_error + synthetic_key" where
  "decode_synthetic_key b = checked (read_synthetic_key b) invalid_synthetic_key"

definition valid_synthetic_key :: "synthetic_key \<Rightarrow> bool" where
  [wire]: "valid_synthetic_key v \<longleftrightarrow> sk_input_id v \<noteq> 0 \<and> sk_time_ms v \<noteq> 0 \<and> 8 \<le> sk_keycode v \<and> sk_pressed v \<le> 1 \<and> sk_reserved16 v = 0 \<and> sk_flags v = 0"

interpretation syn_key: message 20 encode_synthetic_key valid_synthetic_key decode_synthetic_key
  unfolding decode_synthetic_key_def [abs_def]
  by (rule messageI, unfold read_synthetic_key_def, rule consumes_eq, (rule consumes_sequence)+, simp,
      (auto simp: wire canonical)[], auto simp: wire complete)

record synthetic_barrier =
  sba_input_id :: u64
  sba_flags :: u32

definition encode_synthetic_barrier :: "synthetic_barrier \<Rightarrow> u8 list" where
  [wire]: "encode_synthetic_barrier v =
     write_u64 (sba_input_id v) @ write_u32 (sba_flags v)"

definition read_synthetic_barrier :: "u8 list \<Rightarrow> ((synthetic_barrier \<times> unit) \<times> u8 list) option" where
  [wire]: "read_synthetic_barrier b = do {
     (input_id, b) \<leftarrow> read_u64 b; (flags, b) \<leftarrow> read_u32 b;
     Some ((\<lparr>sba_input_id = input_id, sba_flags = flags\<rparr>, ()), b) }"

definition invalid_synthetic_barrier :: "synthetic_barrier \<Rightarrow> unit \<Rightarrow> bool" where
  [wire]: "invalid_synthetic_barrier = (\<lambda>x u.
     sba_input_id x = 0 \<or> sba_flags x \<noteq> 0)"

definition decode_synthetic_barrier :: "u8 list \<Rightarrow> codec_error + synthetic_barrier" where
  "decode_synthetic_barrier b = checked (read_synthetic_barrier b) invalid_synthetic_barrier"

definition valid_synthetic_barrier :: "synthetic_barrier \<Rightarrow> bool" where
  [wire]: "valid_synthetic_barrier v \<longleftrightarrow> sba_input_id v \<noteq> 0 \<and> sba_flags v = 0"

interpretation syn_barrier: message 12 encode_synthetic_barrier valid_synthetic_barrier decode_synthetic_barrier
  unfolding decode_synthetic_barrier_def [abs_def]
  by (rule messageI, unfold read_synthetic_barrier_def, rule consumes_eq, (rule consumes_sequence)+, simp,
      (auto simp: wire canonical)[], auto simp: wire complete)

record synthetic_input_acknowledged =
  sia_input_id :: u64
  sia_time_ms :: u32
  sia_result :: u16
  sia_root_x :: i32
  sia_root_y :: i32
  sia_pointer_window :: u32
  sia_focus_window :: u32
  sia_state :: u16
  sia_reserved16 :: u16
  sia_delivered_event_count :: u32
  sia_flags :: u32

definition encode_synthetic_input_acknowledged :: "synthetic_input_acknowledged \<Rightarrow> u8 list" where
  [wire]: "encode_synthetic_input_acknowledged v =
     write_u64 (sia_input_id v) @ write_u32 (sia_time_ms v) @ write_u16 (sia_result v) @
     write_i32 (sia_root_x v) @ write_i32 (sia_root_y v) @ write_u32 (sia_pointer_window v) @
     write_u32 (sia_focus_window v) @ write_u16 (sia_state v) @ write_u16 (sia_reserved16 v) @
     write_u32 (sia_delivered_event_count v) @ write_u32 (sia_flags v)"

definition read_synthetic_input_acknowledged :: "u8 list \<Rightarrow> ((synthetic_input_acknowledged \<times> unit) \<times> u8 list) option" where
  [wire]: "read_synthetic_input_acknowledged b = do {
     (input_id, b) \<leftarrow> read_u64 b; (time_ms, b) \<leftarrow> read_u32 b;
     (result, b) \<leftarrow> read_u16 b; (root_x, b) \<leftarrow> read_i32 b;
     (root_y, b) \<leftarrow> read_i32 b; (pointer_window, b) \<leftarrow> read_u32 b;
     (focus_window, b) \<leftarrow> read_u32 b; (state, b) \<leftarrow> read_u16 b;
     (reserved16, b) \<leftarrow> read_u16 b; (delivered_event_count, b) \<leftarrow> read_u32 b;
     (flags, b) \<leftarrow> read_u32 b;
     Some ((\<lparr>sia_input_id = input_id, sia_time_ms = time_ms, sia_result = result, sia_root_x = root_x,
         sia_root_y = root_y, sia_pointer_window = pointer_window, sia_focus_window = focus_window,
         sia_state = state, sia_reserved16 = reserved16,
         sia_delivered_event_count = delivered_event_count, sia_flags = flags\<rparr>, ()), b) }"

definition invalid_synthetic_input_acknowledged :: "synthetic_input_acknowledged \<Rightarrow> unit \<Rightarrow> bool" where
  [wire]: "invalid_synthetic_input_acknowledged = (\<lambda>x u.
     sia_input_id x = 0 \<or> sia_time_ms x = 0 \<or> sia_result x < 1 \<or> sia_result x > 6 \<or> sia_reserved16 x \<noteq> 0 \<or> sia_flags x \<noteq> 0)"

definition decode_synthetic_input_acknowledged :: "u8 list \<Rightarrow> codec_error + synthetic_input_acknowledged" where
  "decode_synthetic_input_acknowledged b = checked (read_synthetic_input_acknowledged b) invalid_synthetic_input_acknowledged"

definition valid_synthetic_input_acknowledged :: "synthetic_input_acknowledged \<Rightarrow> bool" where
  [wire]: "valid_synthetic_input_acknowledged v \<longleftrightarrow> sia_input_id v \<noteq> 0 \<and> sia_time_ms v \<noteq> 0 \<and> 1 \<le> sia_result v \<and> sia_result v \<le> 6 \<and> sia_reserved16 v = 0 \<and> sia_flags v = 0"

interpretation syn_ack: message 42 encode_synthetic_input_acknowledged valid_synthetic_input_acknowledged decode_synthetic_input_acknowledged
  unfolding decode_synthetic_input_acknowledged_def [abs_def]
  by (rule messageI, unfold read_synthetic_input_acknowledged_def, rule consumes_eq, (rule consumes_sequence)+, simp,
      (auto simp: wire canonical)[], auto simp: wire complete)

section \<open>Pong\<close>

record pong =
  po_nonce :: u64

definition encode_pong :: "pong \<Rightarrow> u8 list" where
  "encode_pong v = encode_ping \<lparr>pi_nonce = po_nonce v\<rparr>"

definition decode_pong :: "u8 list \<Rightarrow> codec_error + pong" where
  "decode_pong b =
     (case decode_ping b of Inl e \<Rightarrow> Inl e | Inr ping \<Rightarrow> Inr \<lparr>po_nonce = pi_nonce ping\<rparr>)"

interpretation po: codec encode_pong "\<lambda>v. True" decode_pong
proof
  fix b and v :: pong
  have "decode_pong b = Inr v \<longleftrightarrow> decode_ping b = Inr \<lparr>pi_nonce = po_nonce v\<rparr>"
    by (cases v) (auto simp: decode_pong_def split: sum.splits)
  then show "decode_pong b = Inr v \<longleftrightarrow> True \<and> b = encode_pong v"
    by (simp add: pi.decode_iff encode_pong_def valid_ping_def)
qed

section \<open>Messages with text\<close>

text \<open>
  The end of a decoder of a message that closes with a text of a given length: the fields were read, the
  length is within the limit, the text is there, nothing remains, and the values are checked.
\<close>

definition with_text ::
    "nat \<Rightarrow> (('v \<times> 'z \<times> u16) \<times> u8 list) option \<Rightarrow> ('v \<Rightarrow> u8 list \<Rightarrow> 'v) \<Rightarrow> ('v \<Rightarrow> 'z \<Rightarrow> bool) \<Rightarrow> codec_error + 'v" where
  "with_text limit r set_text invalid =
     (case r of
        None \<Rightarrow> Inl Truncated
      | Some ((x, z, text_size), b) \<Rightarrow>
          if unat text_size > limit then Inl LimitExceeded
          else case read_bytes (unat text_size) b of
                 None \<Rightarrow> Inl Truncated
               | Some (content, rest) \<Rightarrow>
                   if rest \<noteq> [] then Inl TrailingData
                   else if invalid (set_text x content) z then Inl InvalidValue else Inr (set_text x content))"

lemma with_text_iff:
  "with_text limit r set_text invalid = Inr v \<longleftrightarrow>
     (\<exists>x z n content. r = Some ((x, z, n), content) \<and> unat n \<le> limit \<and> length content = unat n \<and>
        v = set_text x content \<and> \<not> invalid v z)"
  by (auto simp: with_text_def read_bytes_def split: option.splits prod.splits if_splits)

text \<open>A length of at most 65535 is its own sixteen-bit value.\<close>

lemma unat_length16: "length xs \<le> 256 \<Longrightarrow> unat (word_of_nat (length xs) :: u16) = length xs"
  by (simp add: unat_of_nat take_bit_nat_eq_self)

lemma codec_textI:
  assumes canonical: "\<And>b x z n content. r b = Some ((x, z, n), content) \<Longrightarrow> length content = unat n \<Longrightarrow>
      unat n \<le> limit \<Longrightarrow> \<not> invalid (set_text x content) z \<Longrightarrow> valid (set_text x content) \<and> b = encode (set_text x content)"
    and complete: "\<And>v. valid v \<Longrightarrow> \<exists>x z. r (encode v) = Some ((x, z, word_of_nat (length (get_text v))), get_text v) \<and>
      set_text x (get_text v) = v \<and> length (get_text v) \<le> limit \<and> \<not> invalid v z"
    and limit: "limit \<le> 256"
  shows "codec encode valid (\<lambda>b. with_text limit (r b) set_text invalid)"
proof
  fix b v
  show "with_text limit (r b) set_text invalid = Inr v \<longleftrightarrow> valid v \<and> b = encode v"
  proof
    assume "with_text limit (r b) set_text invalid = Inr v"
    then show "valid v \<and> b = encode v" unfolding with_text_iff using canonical by blast
  next
    assume v: "valid v \<and> b = encode v"
    then obtain x z where x: "r b = Some ((x, z, word_of_nat (length (get_text v))), get_text v)"
      "set_text x (get_text v) = v" "length (get_text v) \<le> limit" "\<not> invalid v z" using complete by blast
    moreover have "unat (word_of_nat (length (get_text v)) :: u16) = length (get_text v)"
      using x(3) limit by (intro unat_length16) simp
    ultimately show "with_text limit (r b) set_text invalid = Inr v" unfolding with_text_iff by metis
  qed
qed

lemmas text_canonical = bind_eq_Some_conv read_iffs read_bytes_iff

lemmas limits [wire] = kMaximumInstanceLabel_def kMaximumDiagnosticString_def

record hello =
  he_minimum_major :: u16
  he_minimum_minor :: u16
  he_maximum_major :: u16
  he_maximum_minor :: u16
  he_sender_role :: u16
  he_offered_capabilities :: u64
  he_required_capabilities :: u64
  he_maximum_payload :: u32
  he_maximum_fd_count :: u16
  he_sender_instance_id :: "u8 list"
  he_name :: "u8 list"

definition encode_hello :: "hello \<Rightarrow> u8 list" where
  [wire]: "encode_hello v =
     (if length (he_name v) > kMaximumInstanceLabel then []
      else write_u16 (he_minimum_major v) @ write_u16 (he_minimum_minor v) @ write_u16 (he_maximum_major v) @
        write_u16 (he_maximum_minor v) @ write_u16 (he_sender_role v) @ write_u16 0 @ write_u64 (he_offered_capabilities v) @
        write_u64 (he_required_capabilities v) @ write_u32 (he_maximum_payload v) @ write_u16 (he_maximum_fd_count v) @
        write_u16 (word_of_nat (length (he_name v))) @ he_sender_instance_id v @ he_name v)"

definition read_hello :: "u8 list \<Rightarrow> ((hello \<times> u16 \<times> u16) \<times> u8 list) option" where
  [wire]: "read_hello b = do {
     (minimum_major, b) \<leftarrow> read_u16 b; (minimum_minor, b) \<leftarrow> read_u16 b; (maximum_major, b) \<leftarrow> read_u16 b;
     (maximum_minor, b) \<leftarrow> read_u16 b; (role, b) \<leftarrow> read_u16 b; (reserved, b) \<leftarrow> read_u16 b;
     (offered_capabilities, b) \<leftarrow> read_u64 b; (required_capabilities, b) \<leftarrow> read_u64 b; (maximum_payload, b) \<leftarrow> read_u32 b;
     (maximum_fd_count, b) \<leftarrow> read_u16 b; (name_size, b) \<leftarrow> read_u16 b; (instance_id, b) \<leftarrow> read_bytes 16 b;
     Some ((\<lparr>he_minimum_major = minimum_major, he_minimum_minor = minimum_minor, he_maximum_major = maximum_major,
         he_maximum_minor = maximum_minor, he_sender_role = role, he_offered_capabilities = offered_capabilities,
         he_required_capabilities = required_capabilities, he_maximum_payload = maximum_payload,
         he_maximum_fd_count = maximum_fd_count, he_sender_instance_id = instance_id, he_name = []\<rparr>, reserved, name_size), b) }"

definition invalid_hello :: "hello \<Rightarrow> bool" where
  [wire]: "invalid_hello x \<longleftrightarrow>
     he_sender_role x < 1 \<or> he_sender_role x > 6 \<or>
     \<not> valid_version_range (he_minimum_major x) (he_minimum_minor x) (he_maximum_major x) (he_maximum_minor x) \<or>
     \<not> nonzero (he_sender_instance_id x) \<or> he_required_capabilities x AND NOT kKnownCapabilities \<noteq> 0 \<or>
     he_maximum_payload x = 0 \<or> he_maximum_payload x > kHardMaximumPayload \<or> he_maximum_fd_count x > kHardMaximumFds \<or>
     length (he_name x) > kMaximumInstanceLabel \<or> \<not> valid_utf8 (he_name x)"

definition decode_hello :: "u8 list \<Rightarrow> codec_error + hello" where
  "decode_hello b = with_text kMaximumInstanceLabel (read_hello b) (\<lambda>x name. x\<lparr>he_name := name\<rparr>)
     (\<lambda>x reserved. reserved \<noteq> 0 \<or> invalid_hello x)"

definition valid_hello :: "hello \<Rightarrow> bool" where
  [wire]: "valid_hello v \<longleftrightarrow> \<not> invalid_hello v \<and> length (he_sender_instance_id v) = 16"

interpretation he: codec encode_hello valid_hello decode_hello
  unfolding decode_hello_def [abs_def]
  by (rule codec_textI [where get_text = he_name], (auto simp: wire text_canonical)[], auto simp: wire fields)

record reject =
  re_reason :: u16
  re_supported_minimum_major :: u16
  re_supported_minimum_minor :: u16
  re_supported_maximum_major :: u16
  re_supported_maximum_minor :: u16
  re_detail :: "u8 list"

definition encode_reject :: "reject \<Rightarrow> u8 list" where
  [wire]: "encode_reject v =
     (if length (re_detail v) > kMaximumDiagnosticString then []
      else write_u16 (re_reason v) @ write_u16 (word_of_nat (length (re_detail v))) @ write_u16 (re_supported_minimum_major v) @
        write_u16 (re_supported_minimum_minor v) @ write_u16 (re_supported_maximum_major v) @
        write_u16 (re_supported_maximum_minor v) @ write_u32 0 @ re_detail v)"

definition read_reject :: "u8 list \<Rightarrow> ((reject \<times> u32 \<times> u16) \<times> u8 list) option" where
  [wire]: "read_reject b = do {
     (reason, b) \<leftarrow> read_u16 b; (detail_size, b) \<leftarrow> read_u16 b; (minimum_major, b) \<leftarrow> read_u16 b;
     (minimum_minor, b) \<leftarrow> read_u16 b; (maximum_major, b) \<leftarrow> read_u16 b; (maximum_minor, b) \<leftarrow> read_u16 b;
     (reserved, b) \<leftarrow> read_u32 b;
     Some ((\<lparr>re_reason = reason, re_supported_minimum_major = minimum_major, re_supported_minimum_minor = minimum_minor,
         re_supported_maximum_major = maximum_major, re_supported_maximum_minor = maximum_minor, re_detail = []\<rparr>,
       reserved, detail_size), b) }"

definition invalid_reject :: "reject \<Rightarrow> bool" where
  [wire]: "invalid_reject x \<longleftrightarrow>
     re_reason x < 1 \<or> re_reason x > 7 \<or>
     \<not> valid_version_range (re_supported_minimum_major x) (re_supported_minimum_minor x) (re_supported_maximum_major x)
         (re_supported_maximum_minor x) \<or>
     length (re_detail x) > kMaximumDiagnosticString \<or> \<not> valid_utf8 (re_detail x)"

definition decode_reject :: "u8 list \<Rightarrow> codec_error + reject" where
  "decode_reject b = with_text kMaximumDiagnosticString (read_reject b) (\<lambda>x detail. x\<lparr>re_detail := detail\<rparr>)
     (\<lambda>x reserved. reserved \<noteq> 0 \<or> invalid_reject x)"

interpretation re: codec encode_reject "\<lambda>v. \<not> invalid_reject v" decode_reject
  unfolding decode_reject_def [abs_def]
  by (rule codec_textI [where get_text = re_detail], (auto simp: wire text_canonical)[], auto simp: wire fields)

record protocol_error =
  pe_code :: u16
  pe_offending_type :: u16
  pe_offending_sequence :: u64
  pe_detail :: "u8 list"

definition encode_protocol_error :: "protocol_error \<Rightarrow> u8 list" where
  [wire]: "encode_protocol_error v =
     (if length (pe_detail v) > kMaximumDiagnosticString then []
      else write_u16 (pe_code v) @ write_u16 (pe_offending_type v) @ write_u32 0 @ write_u64 (pe_offending_sequence v) @
        write_u16 (word_of_nat (length (pe_detail v))) @ write_u16 0 @ pe_detail v)"

definition read_protocol_error :: "u8 list \<Rightarrow> ((protocol_error \<times> (u32 \<times> u16) \<times> u16) \<times> u8 list) option" where
  [wire]: "read_protocol_error b = do {
     (code, b) \<leftarrow> read_u16 b; (offending_type, b) \<leftarrow> read_u16 b; (reserved1, b) \<leftarrow> read_u32 b; (offending_sequence, b) \<leftarrow> read_u64 b;
     (detail_size, b) \<leftarrow> read_u16 b; (reserved2, b) \<leftarrow> read_u16 b;
     Some ((\<lparr>pe_code = code, pe_offending_type = offending_type, pe_offending_sequence = offending_sequence, pe_detail = []\<rparr>,
       (reserved1, reserved2), detail_size), b) }"

definition invalid_protocol_error :: "protocol_error \<Rightarrow> bool" where
  [wire]: "invalid_protocol_error x \<longleftrightarrow>
     pe_code x < 1 \<or> pe_code x > 11 \<or> pe_offending_sequence x = 0 \<or> length (pe_detail x) > kMaximumDiagnosticString \<or>
     \<not> valid_utf8 (pe_detail x)"

definition decode_protocol_error :: "u8 list \<Rightarrow> codec_error + protocol_error" where
  "decode_protocol_error b = with_text kMaximumDiagnosticString (read_protocol_error b) (\<lambda>x detail. x\<lparr>pe_detail := detail\<rparr>)
     (\<lambda>x (reserved1, reserved2). reserved1 \<noteq> 0 \<or> reserved2 \<noteq> 0 \<or> invalid_protocol_error x)"

interpretation pe: codec encode_protocol_error "\<lambda>v. \<not> invalid_protocol_error v" decode_protocol_error
  unfolding decode_protocol_error_def [abs_def]
  by (rule codec_textI [where get_text = pe_detail], (auto simp: wire text_canonical)[], auto simp: wire fields)

record snapshot_abort =
  sab_snapshot_id :: u64
  sab_reason :: u16
  sab_detail :: "u8 list"

definition encode_snapshot_abort :: "snapshot_abort \<Rightarrow> u8 list" where
  [wire]: "encode_snapshot_abort v =
     (if length (sab_detail v) > kMaximumDiagnosticString then []
      else write_u64 (sab_snapshot_id v) @ write_u16 (sab_reason v) @ write_u16 (word_of_nat (length (sab_detail v))) @
        write_u32 0 @ sab_detail v)"

definition read_snapshot_abort :: "u8 list \<Rightarrow> ((snapshot_abort \<times> u32 \<times> u16) \<times> u8 list) option" where
  [wire]: "read_snapshot_abort b = do {
     (snapshot_id, b) \<leftarrow> read_u64 b; (reason, b) \<leftarrow> read_u16 b; (detail_size, b) \<leftarrow> read_u16 b; (reserved, b) \<leftarrow> read_u32 b;
     Some ((\<lparr>sab_snapshot_id = snapshot_id, sab_reason = reason, sab_detail = []\<rparr>, reserved, detail_size), b) }"

definition invalid_snapshot_abort :: "snapshot_abort \<Rightarrow> bool" where
  [wire]: "invalid_snapshot_abort x \<longleftrightarrow>
     sab_snapshot_id x = 0 \<or> sab_reason x = 0 \<or> length (sab_detail x) > kMaximumDiagnosticString \<or> \<not> valid_utf8 (sab_detail x)"

definition decode_snapshot_abort :: "u8 list \<Rightarrow> codec_error + snapshot_abort" where
  "decode_snapshot_abort b = with_text kMaximumDiagnosticString (read_snapshot_abort b) (\<lambda>x detail. x\<lparr>sab_detail := detail\<rparr>)
     (\<lambda>x reserved. reserved \<noteq> 0 \<or> invalid_snapshot_abort x)"

interpretation sab: codec encode_snapshot_abort "\<lambda>v. \<not> invalid_snapshot_abort v" decode_snapshot_abort
  unfolding decode_snapshot_abort_def [abs_def]
  by (rule codec_textI [where get_text = sab_detail], (auto simp: wire text_canonical)[], auto simp: wire fields)

section \<open>Envelope\<close>

definition kEnvelopeSize :: nat where
  "kEnvelopeSize = 40"

definition kKnownMessageFlags :: u32 where
  "kKnownMessageFlags = 0x1F"

definition has_flag :: "u32 \<Rightarrow> u32 \<Rightarrow> bool" where
  "has_flag flags flag \<longleftrightarrow> flags AND flag \<noteq> 0"

text \<open>The flags of a reply and of an error, and \<open>GWIP\<close>.\<close>

definition flag_reply :: u32 where
  "flag_reply = 1"

definition flag_error :: u32 where
  "flag_error = 2"

definition magic :: "u8 list" where
  "magic = [71, 87, 73, 80]"

record envelope =
  en_major :: u16
  en_minor :: u16
  en_type :: u16
  en_flags :: u32
  en_payload_size :: u32
  en_fd_count :: u16
  en_sequence :: u64
  en_reply_to :: u64

definition encode_envelope :: "envelope \<Rightarrow> u8 list" where
  "encode_envelope v =
     magic @ write_u16 (word_of_nat kEnvelopeSize) @ write_u16 (en_major v) @ write_u16 (en_minor v) @ write_u16 (en_type v) @
     write_u32 (en_flags v) @ write_u32 (en_payload_size v) @ write_u16 (en_fd_count v) @ write_u16 0 @
     write_u64 (en_sequence v) @ write_u64 (en_reply_to v)"

definition read_envelope :: "u8 list \<Rightarrow> ((envelope \<times> u8 list \<times> u16 \<times> u16) \<times> u8 list) option" where
  "read_envelope b = do {
     (magic', b) \<leftarrow> read_bytes 4 b; (header_size, b) \<leftarrow> read_u16 b; (major, b) \<leftarrow> read_u16 b; (minor, b) \<leftarrow> read_u16 b;
     (typ, b) \<leftarrow> read_u16 b; (flags, b) \<leftarrow> read_u32 b; (payload_size, b) \<leftarrow> read_u32 b; (fd_count, b) \<leftarrow> read_u16 b;
     (reserved, b) \<leftarrow> read_u16 b; (sequence, b) \<leftarrow> read_u64 b; (reply_to, b) \<leftarrow> read_u64 b;
     Some ((\<lparr>en_major = major, en_minor = minor, en_type = typ, en_flags = flags, en_payload_size = payload_size,
         en_fd_count = fd_count, en_sequence = sequence, en_reply_to = reply_to\<rparr>, magic', header_size, reserved), b) }"

definition decode_envelope :: "u8 list \<Rightarrow> nat \<Rightarrow> u32 \<Rightarrow> codec_error + envelope" where
  "decode_envelope record actual_fd_count maximum_payload =
     (if length record < kEnvelopeSize then Inl Truncated
      else case read_envelope (take kEnvelopeSize record) of
             None \<Rightarrow> Inl Truncated
           | Some ((x, magic', header_size, reserved), rest) \<Rightarrow>
               if magic' \<noteq> magic \<or> header_size \<noteq> word_of_nat kEnvelopeSize \<or> reserved \<noteq> 0 \<or> en_sequence x = 0 \<or>
                  en_flags x AND NOT kKnownMessageFlags \<noteq> 0 then Inl InvalidValue
               else if en_payload_size x > maximum_payload \<or> actual_fd_count > 65535 then Inl LimitExceeded
               else if unat (en_fd_count x) \<noteq> actual_fd_count \<or>
                       length record - kEnvelopeSize \<noteq> unat (en_payload_size x) then Inl SizeMismatch
               else let reply = has_flag (en_flags x) flag_reply; error = has_flag (en_flags x) flag_error
                    in if (reply \<and> en_reply_to x = 0) \<or> (\<not> reply \<and> en_reply_to x \<noteq> 0) \<or> (error \<and> \<not> reply)
                       then Inl InvalidValue
                       else Inr x)"

text \<open>The envelopes a peer may send with a payload and a number of descriptors.\<close>

definition valid_envelope :: "u8 list \<Rightarrow> nat \<Rightarrow> u32 \<Rightarrow> envelope \<Rightarrow> bool" where
  "valid_envelope payload fds maximum_payload v \<longleftrightarrow>
     en_sequence v \<noteq> 0 \<and> en_flags v AND NOT kKnownMessageFlags = 0 \<and>
     unat (en_payload_size v) = length payload \<and> en_payload_size v \<le> maximum_payload \<and> unat (en_fd_count v) = fds \<and>
     (has_flag (en_flags v) flag_reply \<longleftrightarrow> en_reply_to v \<noteq> 0) \<and>
     (has_flag (en_flags v) flag_error \<longrightarrow> has_flag (en_flags v) flag_reply)"

lemma read_envelope_iff:
  "read_envelope b = Some ((x, m, h, z), rest) \<longleftrightarrow> length m = 4 \<and>
     b = m @ write_u16 h @ write_u16 (en_major x) @ write_u16 (en_minor x) @ write_u16 (en_type x) @
     write_u32 (en_flags x) @ write_u32 (en_payload_size x) @ write_u16 (en_fd_count x) @ write_u16 z @
     write_u64 (en_sequence x) @ write_u64 (en_reply_to x) @ rest" (is "?l \<longleftrightarrow> ?r")
proof
  assume ?l
  then show ?r by (auto simp: read_envelope_def text_canonical)
next
  assume ?r
  then show ?l by (cases x) (simp add: read_envelope_def fields)
qed

lemma encode_envelope_length: "length (encode_envelope v) = kEnvelopeSize"
  by (simp add: encode_envelope_def magic_def kEnvelopeSize_def fields)

lemma fd_count_small: "unat (n :: u16) \<le> 65535"
  using unsigned_less [of n, where ?'a = nat] by simp

lemma decode_envelope_iff:
  "decode_envelope record fds maximum_payload = Inr v \<longleftrightarrow>
     (\<exists>payload. record = encode_envelope v @ payload \<and> valid_envelope payload fds maximum_payload v)" (is "?l \<longleftrightarrow> ?r")
proof
  assume l: ?l
  then obtain x m h z rest where r: "read_envelope (take kEnvelopeSize record) = Some ((x, m, h, z), rest)"
    "\<not> length record < kEnvelopeSize"
    by (auto simp: decode_envelope_def split: if_splits option.splits)
  with l have c: "m = magic" "h = word_of_nat kEnvelopeSize" "z = 0" "x = v"
    "unat (en_payload_size v) = length (drop kEnvelopeSize record)"
    and v: "valid_envelope (drop kEnvelopeSize record) fds maximum_payload v"
    by (auto simp: decode_envelope_def valid_envelope_def Let_def not_less split: if_splits)
  from r(1) c have "take kEnvelopeSize record = encode_envelope v @ rest" by (simp add: read_envelope_iff encode_envelope_def)
  moreover have "rest = []"
  proof -
    have "length (take kEnvelopeSize record) = length (encode_envelope v @ rest)" by (simp only: calculation)
    with r(2) show ?thesis by (simp add: encode_envelope_length)
  qed
  ultimately have "record = encode_envelope v @ drop kEnvelopeSize record" by (metis append_Nil2 append_take_drop_id)
  with v show ?r by blast
next
  assume ?r
  then obtain payload where r: "record = encode_envelope v @ payload" "valid_envelope payload fds maximum_payload v" by blast
  have t: "take kEnvelopeSize record = encode_envelope v" "length record - kEnvelopeSize = length payload"
    "\<not> length record < kEnvelopeSize"
    using encode_envelope_length [of v] by (simp_all add: r(1))
  have "read_envelope (encode_envelope v) = Some ((v, magic, word_of_nat kEnvelopeSize, 0), [])"
    by (simp add: read_envelope_iff encode_envelope_def magic_def)
  with r(2) t fd_count_small [of "en_fd_count v"] show ?l
    by (auto simp: decode_envelope_def valid_envelope_def Let_def)
qed

end
