(* ===== verification/Wire_Output.thy ===== *)
theory Wire_Output
  imports Wire_Control
begin

text \<open>
  The messages about outputs (\<open>ipc/wire/output_contract.cpp\<close>): descriptions and modes of outputs, the
  outputs a surface is on, the outputs and output hints of the window policy, and the configuration
  requests of a control client. An encoder returns no bytes for a value that is too long.
\<close>

definition kMaximumOutputNameBytes_wire :: nat where
  [wire]: "kMaximumOutputNameBytes_wire = 63"

definition kMaximumManagedOutputs :: nat where
  [wire]: "kMaximumManagedOutputs = 8"

definition kMaximumPhysicalExtent_wire :: u32 where
  "kMaximumPhysicalExtent_wire = 4096"

definition kMaximumPhysicalPixels_wire :: u64 where
  "kMaximumPhysicalPixels_wire = 16777216"

definition kMaximumScaleDenominator_wire :: u32 where
  "kMaximumScaleDenominator_wire = 120"

definition kKnownTransformMask :: u32 where
  "kKnownTransformMask = 0xFF"

definition kOutputArbitraryHeadlessMode :: u32 where
  "kOutputArbitraryHeadlessMode = 0x2"

definition kOutputModeFixed :: u32 where
  "kOutputModeFixed = 0x4"

definition kOutputPhysicalDimensionsKnown :: u32 where
  "kOutputPhysicalDimensionsKnown = 0x40"

definition kKnownOutputCapabilityFlags :: u32 where
  "kKnownOutputCapabilityFlags = 0x7F"

definition kKnownOutputQueryFlags :: u32 where
  "kKnownOutputQueryFlags = 0x0F"

section \<open>Checks\<close>

definition reduced_scale :: "u32 \<Rightarrow> u32 \<Rightarrow> bool" where
  "reduced_scale numerator denominator \<longleftrightarrow>
     numerator \<noteq> 0 \<and> denominator \<noteq> 0 \<and> gcd (unat numerator) (unat denominator) = 1"

definition compare_scale :: "u32 \<Rightarrow> u32 \<Rightarrow> u32 \<Rightarrow> u32 \<Rightarrow> int" where
  "compare_scale left_numerator left_denominator right_numerator right_denominator =
     (let left = (ucast left_numerator :: u64) * ucast right_denominator;
          right = (ucast right_numerator :: u64) * ucast left_denominator
      in if left < right then - 1 else if left > right then 1 else 0)"

definition valid_scale_wire :: "u32 \<Rightarrow> u32 \<Rightarrow> u32 \<Rightarrow> bool" where
  "valid_scale_wire numerator denominator denominator_limit \<longleftrightarrow>
     denominator \<le> denominator_limit \<and> reduced_scale numerator denominator \<and>
     compare_scale numerator denominator 1 1 \<ge> 0 \<and> compare_scale numerator denominator 4 1 \<le> 0"

definition valid_extent :: "i32 \<Rightarrow> u32 \<Rightarrow> bool" where
  "valid_extent origin n \<longleftrightarrow> n \<noteq> 0 \<and> 0 \<le> sint origin \<and> sint origin + uint n \<le> int32_max + 1"

fun unique_ids :: "u64 list \<Rightarrow> bool" where
  "unique_ids [] \<longleftrightarrow> True"
| "unique_ids (i # ids) \<longleftrightarrow> i \<noteq> 0 \<and> i \<notin> set ids \<and> unique_ids ids"

text \<open>A byte that is at most one is the byte of the flag it stands for.\<close>

lemma write_flag: "f \<le> 1 \<Longrightarrow> write_bool (f = 1) = write_u8 f"
proof -
  assume "f \<le> 1"
  then have "f = 0 \<or> f = 1" by (metis bot_nat_0.extremum le_zero_eq linorder_not_less nat_less_le unsigned_0 unsigned_1 word_le_nat_alt word_less_nat_alt word_less_1 antisym_conv2)
  then show ?thesis by (auto simp: write_bool_def bool_byte_def)
qed

lemma bool_byte_flag [simp]: "bool_byte v = 1 \<longleftrightarrow> v" "bool_byte v \<le> 1"
  by (simp_all add: bool_byte_def)

lemmas flag_bytes = write_flag

section \<open>Modes\<close>

record wire_output_mode =
  wom_output_id :: u64
  wom_mode_id :: u64
  wom_physical_width :: u32
  wom_physical_height :: u32
  wom_refresh_millihertz :: u32
  wom_preferred :: bool
  wom_current :: bool
  wom_flags :: u32

definition encode_wire_output_mode :: "wire_output_mode \<Rightarrow> u8 list" where
  [wire]: "encode_wire_output_mode v =
     write_u64 (wom_output_id v) @ write_u64 (wom_mode_id v) @ write_u32 (wom_physical_width v) @
     write_u32 (wom_physical_height v) @ write_u32 (wom_refresh_millihertz v) @
     write_bool (wom_preferred v) @ write_bool (wom_current v) @ write_u16 0 @
     write_u32 (wom_flags v) @ write_u32 0"

definition read_wire_output_mode :: "u8 list \<Rightarrow> ((wire_output_mode \<times> u8 \<times> u8 \<times> u16 \<times> u32) \<times> u8 list) option" where
  [wire]: "read_wire_output_mode b = do {
     (output_id, b) \<leftarrow> read_u64 b; (mode_id, b) \<leftarrow> read_u64 b;
     (physical_width, b) \<leftarrow> read_u32 b; (physical_height, b) \<leftarrow> read_u32 b;
     (refresh_millihertz, b) \<leftarrow> read_u32 b; (preferred, b) \<leftarrow> read_u8 b;
     (current, b) \<leftarrow> read_u8 b; (reserved, b) \<leftarrow> read_u16 b;
     (flags, b) \<leftarrow> read_u32 b; (reserved32, b) \<leftarrow> read_u32 b;
     Some ((\<lparr>wom_output_id = output_id, wom_mode_id = mode_id, wom_physical_width = physical_width,
         wom_physical_height = physical_height, wom_refresh_millihertz = refresh_millihertz,
         wom_preferred = (preferred = 1), wom_current = (current = 1), wom_flags = flags\<rparr>, (preferred, current, reserved, reserved32)), b) }"

definition valid_wire_output_mode :: "wire_output_mode \<Rightarrow> bool" where
  "valid_wire_output_mode v \<longleftrightarrow>
     wom_output_id v \<noteq> 0 \<and> wom_mode_id v \<noteq> 0 \<and> wom_physical_width v \<noteq> 0 \<and>
     wom_physical_width v \<le> kMaximumPhysicalExtent_wire \<and> wom_physical_height v \<noteq> 0 \<and>
     wom_physical_height v \<le> kMaximumPhysicalExtent_wire \<and>
     (ucast (wom_physical_width v) :: u64) * ucast (wom_physical_height v) \<le> kMaximumPhysicalPixels_wire \<and>
     wom_refresh_millihertz v \<noteq> 0 \<and> wom_flags v = 0"

definition decode_wire_output_mode :: "u8 list \<Rightarrow> codec_error + wire_output_mode" where
  "decode_wire_output_mode b = checked (read_wire_output_mode b) (\<lambda>x (preferred, current, reserved, reserved32). \<not> (preferred \<le> 1 \<and> current \<le> 1 \<and> reserved = 0 \<and> reserved32 = 0 \<and> valid_wire_output_mode x))"

interpretation wom: message 40 encode_wire_output_mode valid_wire_output_mode decode_wire_output_mode
  unfolding decode_wire_output_mode_def [abs_def]
  by (rule messageI, unfold read_wire_output_mode_def, rule consumes_eq, (rule consumes_sequence)+, simp,
      (auto simp: wire canonical flag_bytes)[], auto simp: wire complete flag_bytes)

section \<open>Outputs of the window policy\<close>

record policy_output =
  wpo_output_id :: u64
  wpo_logical_x :: i32
  wpo_logical_y :: i32
  wpo_logical_width :: u32
  wpo_logical_height :: u32
  wpo_work_x :: i32
  wpo_work_y :: i32
  wpo_work_width :: u32
  wpo_work_height :: u32
  wpo_scale_numerator :: u32
  wpo_scale_denominator :: u32
  wpo_transform :: u16
  wpo_enabled :: bool
  wpo_primary :: bool
  wpo_flags :: u32

definition encode_policy_output :: "policy_output \<Rightarrow> u8 list" where
  [wire]: "encode_policy_output v =
     write_u64 (wpo_output_id v) @ write_i32 (wpo_logical_x v) @ write_i32 (wpo_logical_y v) @
     write_u32 (wpo_logical_width v) @ write_u32 (wpo_logical_height v) @
     write_i32 (wpo_work_x v) @ write_i32 (wpo_work_y v) @ write_u32 (wpo_work_width v) @
     write_u32 (wpo_work_height v) @ write_u32 (wpo_scale_numerator v) @
     write_u32 (wpo_scale_denominator v) @ write_u16 (wpo_transform v) @
     write_bool (wpo_enabled v) @ write_bool (wpo_primary v) @ write_u32 (wpo_flags v)"

definition read_policy_output :: "u8 list \<Rightarrow> ((policy_output \<times> u8 \<times> u8) \<times> u8 list) option" where
  [wire]: "read_policy_output b = do {
     (output_id, b) \<leftarrow> read_u64 b; (logical_x, b) \<leftarrow> read_i32 b;
     (logical_y, b) \<leftarrow> read_i32 b; (logical_width, b) \<leftarrow> read_u32 b;
     (logical_height, b) \<leftarrow> read_u32 b; (work_x, b) \<leftarrow> read_i32 b;
     (work_y, b) \<leftarrow> read_i32 b; (work_width, b) \<leftarrow> read_u32 b;
     (work_height, b) \<leftarrow> read_u32 b; (scale_numerator, b) \<leftarrow> read_u32 b;
     (scale_denominator, b) \<leftarrow> read_u32 b; (transform, b) \<leftarrow> read_u16 b;
     (enabled, b) \<leftarrow> read_u8 b; (primary, b) \<leftarrow> read_u8 b;
     (flags, b) \<leftarrow> read_u32 b;
     Some ((\<lparr>wpo_output_id = output_id, wpo_logical_x = logical_x, wpo_logical_y = logical_y,
         wpo_logical_width = logical_width, wpo_logical_height = logical_height, wpo_work_x = work_x,
         wpo_work_y = work_y, wpo_work_width = work_width, wpo_work_height = work_height,
         wpo_scale_numerator = scale_numerator, wpo_scale_denominator = scale_denominator,
         wpo_transform = transform, wpo_enabled = (enabled = 1), wpo_primary = (primary = 1),
         wpo_flags = flags\<rparr>, (enabled, primary)), b) }"

definition valid_policy_output :: "policy_output \<Rightarrow> bool" where
  "valid_policy_output v \<longleftrightarrow>
     (if wpo_output_id v = 0 \<or> wpo_transform v > 7 \<or> wpo_flags v \<noteq> 0 \<or>
         \<not> valid_scale_wire (wpo_scale_numerator v) (wpo_scale_denominator v) kMaximumScaleDenominator_wire \<or>
         (wpo_primary v \<and> \<not> wpo_enabled v) then False
      else if \<not> wpo_enabled v then
        \<not> wpo_primary v \<and> wpo_logical_x v = 0 \<and> wpo_logical_y v = 0 \<and> wpo_logical_width v = 0 \<and> wpo_logical_height v = 0 \<and>
        wpo_work_x v = 0 \<and> wpo_work_y v = 0 \<and> wpo_work_width v = 0 \<and> wpo_work_height v = 0
      else if \<not> valid_extent (wpo_logical_x v) (wpo_logical_width v) \<or> \<not> valid_extent (wpo_logical_y v) (wpo_logical_height v) \<or>
              \<not> valid_extent (wpo_work_x v) (wpo_work_width v) \<or> \<not> valid_extent (wpo_work_y v) (wpo_work_height v) then False
      else sint (wpo_work_x v) \<ge> sint (wpo_logical_x v) \<and> sint (wpo_work_y v) \<ge> sint (wpo_logical_y v) \<and>
           sint (wpo_work_x v) + uint (wpo_work_width v) \<le> sint (wpo_logical_x v) + uint (wpo_logical_width v) \<and>
           sint (wpo_work_y v) + uint (wpo_work_height v) \<le> sint (wpo_logical_y v) + uint (wpo_logical_height v))"

definition decode_policy_output :: "u8 list \<Rightarrow> codec_error + policy_output" where
  "decode_policy_output b = checked (read_policy_output b) (\<lambda>x (enabled, primary). \<not> (enabled \<le> 1 \<and> primary \<le> 1 \<and> valid_policy_output x))"

interpretation wpo: message 56 encode_policy_output valid_policy_output decode_policy_output
  unfolding decode_policy_output_def [abs_def]
  by (rule messageI, unfold read_policy_output_def, rule consumes_eq, (rule consumes_sequence)+, simp,
      (auto simp: wire canonical flag_bytes)[], auto simp: wire complete flag_bytes)

record policy_output_hint =
  wph_window_id :: u32
  wph_flags :: u32
  wph_previous_output_id :: u64
  wph_preferred_output_id :: u64

definition encode_policy_output_hint :: "policy_output_hint \<Rightarrow> u8 list" where
  [wire]: "encode_policy_output_hint v =
     write_u32 (wph_window_id v) @ write_u32 (wph_flags v) @ write_u64 (wph_previous_output_id v) @
     write_u64 (wph_preferred_output_id v)"

definition read_policy_output_hint :: "u8 list \<Rightarrow> ((policy_output_hint \<times> unit) \<times> u8 list) option" where
  [wire]: "read_policy_output_hint b = do {
     (window_id, b) \<leftarrow> read_u32 b; (flags, b) \<leftarrow> read_u32 b;
     (previous_output_id, b) \<leftarrow> read_u64 b; (preferred_output_id, b) \<leftarrow> read_u64 b;
     Some ((\<lparr>wph_window_id = window_id, wph_flags = flags, wph_previous_output_id = previous_output_id,
         wph_preferred_output_id = preferred_output_id\<rparr>, ()), b) }"

definition valid_policy_output_hint :: "policy_output_hint \<Rightarrow> bool" where
  "valid_policy_output_hint v \<longleftrightarrow>
     wph_window_id v \<noteq> 0 \<and> wph_flags v = 0"

definition decode_policy_output_hint :: "u8 list \<Rightarrow> codec_error + policy_output_hint" where
  "decode_policy_output_hint b = checked (read_policy_output_hint b) (\<lambda>x u. \<not> (valid_policy_output_hint x))"

interpretation wph: message 24 encode_policy_output_hint valid_policy_output_hint decode_policy_output_hint
  unfolding decode_policy_output_hint_def [abs_def]
  by (rule messageI, unfold read_policy_output_hint_def, rule consumes_eq, (rule consumes_sequence)+, simp,
      (auto simp: wire canonical flag_bytes)[], auto simp: wire complete flag_bytes)

section \<open>Configuration\<close>

record output_state_query =
  woq_query_id :: u64
  woq_flags :: u32

definition encode_output_state_query :: "output_state_query \<Rightarrow> u8 list" where
  [wire]: "encode_output_state_query v =
     write_u64 (woq_query_id v) @ write_u32 (woq_flags v) @ write_u32 0"

definition read_output_state_query :: "u8 list \<Rightarrow> ((output_state_query \<times> u32) \<times> u8 list) option" where
  [wire]: "read_output_state_query b = do {
     (query_id, b) \<leftarrow> read_u64 b; (flags, b) \<leftarrow> read_u32 b;
     (reserved, b) \<leftarrow> read_u32 b;
     Some ((\<lparr>woq_query_id = query_id, woq_flags = flags\<rparr>, reserved), b) }"

definition valid_output_state_query :: "output_state_query \<Rightarrow> bool" where
  "valid_output_state_query v \<longleftrightarrow>
     woq_query_id v \<noteq> 0 \<and> woq_flags v \<noteq> 0 \<and> woq_flags v AND NOT kKnownOutputQueryFlags = 0"

definition decode_output_state_query :: "u8 list \<Rightarrow> codec_error + output_state_query" where
  "decode_output_state_query b = checked (read_output_state_query b) (\<lambda>x reserved. \<not> (reserved = 0 \<and> valid_output_state_query x))"

interpretation woq: message 16 encode_output_state_query valid_output_state_query decode_output_state_query
  unfolding decode_output_state_query_def [abs_def]
  by (rule messageI, unfold read_output_state_query_def, rule consumes_eq, (rule consumes_sequence)+, simp,
      (auto simp: wire canonical flag_bytes)[], auto simp: wire complete flag_bytes)

record output_configuration_commit =
  wcc_configuration_id :: u64
  wcc_base_generation :: u64
  wcc_primary_output_id :: u64
  wcc_flags :: u32

definition encode_output_configuration_commit :: "output_configuration_commit \<Rightarrow> u8 list" where
  [wire]: "encode_output_configuration_commit v =
     write_u64 (wcc_configuration_id v) @ write_u64 (wcc_base_generation v) @
     write_u64 (wcc_primary_output_id v) @ write_u32 (wcc_flags v) @ write_u32 0"

definition read_output_configuration_commit :: "u8 list \<Rightarrow> ((output_configuration_commit \<times> u32) \<times> u8 list) option" where
  [wire]: "read_output_configuration_commit b = do {
     (configuration_id, b) \<leftarrow> read_u64 b; (base_generation, b) \<leftarrow> read_u64 b;
     (primary_output_id, b) \<leftarrow> read_u64 b; (flags, b) \<leftarrow> read_u32 b;
     (reserved, b) \<leftarrow> read_u32 b;
     Some ((\<lparr>wcc_configuration_id = configuration_id, wcc_base_generation = base_generation,
         wcc_primary_output_id = primary_output_id, wcc_flags = flags\<rparr>, reserved), b) }"

definition valid_output_configuration_commit :: "output_configuration_commit \<Rightarrow> bool" where
  "valid_output_configuration_commit v \<longleftrightarrow>
     wcc_configuration_id v \<noteq> 0 \<and> wcc_base_generation v \<noteq> 0 \<and> wcc_primary_output_id v \<noteq> 0 \<and> wcc_flags v = 0"

definition decode_output_configuration_commit :: "u8 list \<Rightarrow> codec_error + output_configuration_commit" where
  "decode_output_configuration_commit b = checked (read_output_configuration_commit b) (\<lambda>x reserved. \<not> (reserved = 0 \<and> valid_output_configuration_commit x))"

interpretation wcc: message 32 encode_output_configuration_commit valid_output_configuration_commit decode_output_configuration_commit
  unfolding decode_output_configuration_commit_def [abs_def]
  by (rule messageI, unfold read_output_configuration_commit_def, rule consumes_eq, (rule consumes_sequence)+, simp,
      (auto simp: wire canonical flag_bytes)[], auto simp: wire complete flag_bytes)

record output_configuration_acknowledged =
  wca_request_id :: u64
  wca_applied_generation :: u64
  wca_result :: u16
  wca_flags :: u32
  wca_primary_output_id :: u64
  wca_root_logical_width :: u32
  wca_root_logical_height :: u32
  wca_enabled_output_count :: u32

definition encode_output_configuration_acknowledged :: "output_configuration_acknowledged \<Rightarrow> u8 list" where
  [wire]: "encode_output_configuration_acknowledged v =
     write_u64 (wca_request_id v) @ write_u64 (wca_applied_generation v) @
     write_u16 (wca_result v) @ write_u16 0 @ write_u32 (wca_flags v) @
     write_u64 (wca_primary_output_id v) @ write_u32 (wca_root_logical_width v) @
     write_u32 (wca_root_logical_height v) @ write_u32 (wca_enabled_output_count v) @ write_u32 0"

definition read_output_configuration_acknowledged :: "u8 list \<Rightarrow> ((output_configuration_acknowledged \<times> u16 \<times> u32) \<times> u8 list) option" where
  [wire]: "read_output_configuration_acknowledged b = do {
     (request_id, b) \<leftarrow> read_u64 b; (applied_generation, b) \<leftarrow> read_u64 b;
     (result, b) \<leftarrow> read_u16 b; (reserved16, b) \<leftarrow> read_u16 b;
     (flags, b) \<leftarrow> read_u32 b; (primary_output_id, b) \<leftarrow> read_u64 b;
     (root_logical_width, b) \<leftarrow> read_u32 b; (root_logical_height, b) \<leftarrow> read_u32 b;
     (enabled_output_count, b) \<leftarrow> read_u32 b; (reserved32, b) \<leftarrow> read_u32 b;
     Some ((\<lparr>wca_request_id = request_id, wca_applied_generation = applied_generation, wca_result = result,
         wca_flags = flags, wca_primary_output_id = primary_output_id,
         wca_root_logical_width = root_logical_width, wca_root_logical_height = root_logical_height,
         wca_enabled_output_count = enabled_output_count\<rparr>, (reserved16, reserved32)), b) }"

definition valid_output_configuration_acknowledged :: "output_configuration_acknowledged \<Rightarrow> bool" where
  "valid_output_configuration_acknowledged v \<longleftrightarrow>
     wca_request_id v \<noteq> 0 \<and> wca_applied_generation v \<noteq> 0 \<and> wca_result v \<ge> 1 \<and> wca_result v \<le> 12 \<and> wca_flags v = 0 \<and>
     wca_primary_output_id v \<noteq> 0 \<and> wca_root_logical_width v \<noteq> 0 \<and> wca_root_logical_width v \<le> 32767 \<and>
     wca_root_logical_height v \<noteq> 0 \<and> wca_root_logical_height v \<le> 32767 \<and> wca_enabled_output_count v \<ge> 1 \<and>
     unat (wca_enabled_output_count v) \<le> kMaximumManagedOutputs"

definition decode_output_configuration_acknowledged :: "u8 list \<Rightarrow> codec_error + output_configuration_acknowledged" where
  "decode_output_configuration_acknowledged b = checked (read_output_configuration_acknowledged b) (\<lambda>x (reserved16, reserved32). \<not> (reserved16 = 0 \<and> reserved32 = 0 \<and> valid_output_configuration_acknowledged x))"

interpretation wca: message 48 encode_output_configuration_acknowledged valid_output_configuration_acknowledged decode_output_configuration_acknowledged
  unfolding decode_output_configuration_acknowledged_def [abs_def]
  by (rule messageI, unfold read_output_configuration_acknowledged_def, rule consumes_eq, (rule consumes_sequence)+, simp,
      (auto simp: wire canonical flag_bytes)[], auto simp: wire complete flag_bytes)

section \<open>Lists of fields\<close>

fun read_many :: "nat \<Rightarrow> (u8 list \<Rightarrow> ('a \<times> u8 list) option) \<Rightarrow> u8 list \<Rightarrow> ('a list \<times> u8 list) option" where
  "read_many 0 get b = Some ([], b)"
| "read_many (Suc n) get b = do {
     (x, b) \<leftarrow> get b;
     (xs, b) \<leftarrow> read_many n get b;
     Some (x # xs, b) }"

context field
begin

lemma read_many_iff: "read_many n get b = Some (xs, rest) \<longleftrightarrow> length xs = n \<and> b = concat (map put xs) @ rest"
  by (induction n arbitrary: b xs) (auto simp: bind_eq_Some_conv read_iff length_Suc_conv)

lemma concat_length: "length (concat (map put xs)) = octets * length xs"
  by (induction xs) (simp_all add: write_length)

end

text \<open>The end of a decoder of a message that closes with a list of a given number of items.\<close>

definition with_list ::
    "nat \<Rightarrow> (('v \<times> 'z \<times> u32) \<times> u8 list) option \<Rightarrow> (u8 list \<Rightarrow> ('a \<times> u8 list) option) \<Rightarrow>
     ('v \<Rightarrow> 'a list \<Rightarrow> 'v) \<Rightarrow> ('v \<Rightarrow> 'z \<Rightarrow> bool) \<Rightarrow> codec_error + 'v" where
  "with_list limit r get set_list invalid =
     (case r of
        None \<Rightarrow> Inl Truncated
      | Some ((x, z, n), b) \<Rightarrow>
          if unat n > limit then Inl LimitExceeded
          else case read_many (unat n) get b of
                 None \<Rightarrow> Inl Truncated
               | Some (xs, rest) \<Rightarrow>
                   if rest \<noteq> [] then Inl TrailingData
                   else if invalid (set_list x xs) z then Inl InvalidValue else Inr (set_list x xs))"

lemma with_list_iff:
  "with_list limit r get set_list invalid = Inr v \<longleftrightarrow>
     (\<exists>x z n b xs. r = Some ((x, z, n), b) \<and> unat n \<le> limit \<and> read_many (unat n) get b = Some (xs, []) \<and>
        v = set_list x xs \<and> \<not> invalid v z)"
  by (auto simp: with_list_def split: option.splits prod.splits if_splits)

section \<open>Outputs of a surface\<close>

record wire_surface_output_state =
  wso_surface_id :: u64
  wso_primary_output_id :: u64
  wso_output_ids :: "u64 list"
  wso_preferred_scale_numerator :: u32
  wso_preferred_scale_denominator :: u32
  wso_client_buffer_scale :: u32
  wso_scale_mode :: u16
  wso_layout_generation :: u64
  wso_flags :: u32

definition encode_wire_surface_output_state :: "wire_surface_output_state \<Rightarrow> u8 list" where
  [wire]: "encode_wire_surface_output_state v =
     (if length (wso_output_ids v) > kMaximumManagedOutputs then []
      else write_u64 (wso_surface_id v) @ write_u64 (wso_primary_output_id v) @ write_u64 (wso_layout_generation v) @
        write_u32 (wso_preferred_scale_numerator v) @ write_u32 (wso_preferred_scale_denominator v) @
        write_u32 (wso_client_buffer_scale v) @ write_u16 (wso_scale_mode v) @ write_u16 0 @ write_u32 (wso_flags v) @
        write_u32 (word_of_nat (length (wso_output_ids v))) @ concat (map write_u64 (wso_output_ids v)))"

definition read_wire_surface_output_state :: "u8 list \<Rightarrow> ((wire_surface_output_state \<times> u16 \<times> u32) \<times> u8 list) option" where
  [wire]: "read_wire_surface_output_state b = do {
     (surface_id, b) \<leftarrow> read_u64 b; (primary_output_id, b) \<leftarrow> read_u64 b; (layout_generation, b) \<leftarrow> read_u64 b;
     (numerator, b) \<leftarrow> read_u32 b; (denominator, b) \<leftarrow> read_u32 b; (client_buffer_scale, b) \<leftarrow> read_u32 b;
     (mode, b) \<leftarrow> read_u16 b; (reserved16, b) \<leftarrow> read_u16 b; (flags, b) \<leftarrow> read_u32 b; (n, b) \<leftarrow> read_u32 b;
     Some ((\<lparr>wso_surface_id = surface_id, wso_primary_output_id = primary_output_id, wso_output_ids = [],
         wso_preferred_scale_numerator = numerator, wso_preferred_scale_denominator = denominator,
         wso_client_buffer_scale = client_buffer_scale, wso_scale_mode = mode,
         wso_layout_generation = layout_generation, wso_flags = flags\<rparr>, reserved16, n), b) }"

definition valid_surface_state :: "wire_surface_output_state \<Rightarrow> bool" where
  "valid_surface_state v \<longleftrightarrow>
     wso_surface_id v \<noteq> 0 \<and> wso_primary_output_id v \<noteq> 0 \<and>
     length (wso_output_ids v) \<le> kMaximumManagedOutputs \<and> unique_ids (wso_output_ids v) \<and>
     (wso_output_ids v = [] \<or> wso_primary_output_id v \<in> set (wso_output_ids v)) \<and>
     valid_scale_wire (wso_preferred_scale_numerator v) (wso_preferred_scale_denominator v) kMaximumScaleDenominator_wire \<and>
     wso_client_buffer_scale v \<ge> 1 \<and> wso_client_buffer_scale v \<le> 4 \<and>
     wso_scale_mode v \<ge> 1 \<and> wso_scale_mode v \<le> 2 \<and>
     (wso_scale_mode v \<noteq> 1 \<or> wso_client_buffer_scale v = 1) \<and> wso_layout_generation v \<noteq> 0 \<and> wso_flags v = 0"

definition decode_wire_surface_output_state :: "u8 list \<Rightarrow> codec_error + wire_surface_output_state" where
  "decode_wire_surface_output_state b =
     with_list kMaximumManagedOutputs (read_wire_surface_output_state b) read_u64 (\<lambda>x ids. x\<lparr>wso_output_ids := ids\<rparr>)
       (\<lambda>x reserved16. \<not> (reserved16 = 0 \<and> valid_surface_state x))"

lemma unat_length32: "length xs \<le> 1024 \<Longrightarrow> unat (word_of_nat (length xs) :: u32) = length xs"
  by (simp add: unat_of_nat take_bit_nat_eq_self)

lemma read_surface_output_state_iff:
  "read_wire_surface_output_state b = Some ((x, z, n), rest) \<longleftrightarrow>
     wso_output_ids x = [] \<and>
     b = write_u64 (wso_surface_id x) @ write_u64 (wso_primary_output_id x) @ write_u64 (wso_layout_generation x) @
        write_u32 (wso_preferred_scale_numerator x) @ write_u32 (wso_preferred_scale_denominator x) @
        write_u32 (wso_client_buffer_scale x) @ write_u16 (wso_scale_mode x) @ write_u16 z @ write_u32 (wso_flags x) @
        write_u32 n @ rest"
  by (cases x) (auto simp: read_wire_surface_output_state_def text_canonical fields)

interpretation wso: codec encode_wire_surface_output_state valid_surface_state decode_wire_surface_output_state
proof
  fix b v
  show "decode_wire_surface_output_state b = Inr v \<longleftrightarrow> valid_surface_state v \<and> b = encode_wire_surface_output_state v"
  proof
    assume "decode_wire_surface_output_state b = Inr v"
    then obtain x n b' ids where d: "read_wire_surface_output_state b = Some ((x, 0, n), b')"
      "unat n \<le> kMaximumManagedOutputs" "read_many (unat n) read_u64 b' = Some (ids, [])"
      "v = x\<lparr>wso_output_ids := ids\<rparr>" "valid_surface_state v"
      unfolding decode_wire_surface_output_state_def with_list_iff by blast
    have ids: "length ids = unat n" "b' = concat (map write_u64 ids)" using d(3) by (simp_all add: fu64.read_many_iff)
    have n: "word_of_nat (length ids) = n" unfolding ids(1) by simp
    from d(1,2,4,5) ids(2) show "valid_surface_state v \<and> b = encode_wire_surface_output_state v"
      by (simp add: read_surface_output_state_iff encode_wire_surface_output_state_def n ids(1))
  next
    assume v: "valid_surface_state v \<and> b = encode_wire_surface_output_state v"
    then have l: "length (wso_output_ids v) \<le> kMaximumManagedOutputs" by (simp add: valid_surface_state_def)
    then have n: "unat (word_of_nat (length (wso_output_ids v)) :: u32) = length (wso_output_ids v)"
      by (intro unat_length32) (simp add: kMaximumManagedOutputs_def)
    have m: "read_many (length (wso_output_ids v)) read_u64 (concat (map write_u64 (wso_output_ids v))) = Some (wso_output_ids v, [])"
      by (simp add: fu64.read_many_iff)
    from v l have b: "read_wire_surface_output_state b =
        Some ((v\<lparr>wso_output_ids := []\<rparr>, 0, word_of_nat (length (wso_output_ids v))), concat (map write_u64 (wso_output_ids v)))"
      by (simp add: read_surface_output_state_iff encode_wire_surface_output_state_def)
    show "decode_wire_surface_output_state b = Inr v"
      unfolding decode_wire_surface_output_state_def with_list_def b using l n m v by simp
  qed
qed

section \<open>Descriptions\<close>

record wire_output_descriptor =
  wod_output_id :: u64
  wod_kind :: u16
  wod_capability_flags :: u32
  wod_name :: "u8 list"
  wod_physical_width_millimeters :: u32
  wod_physical_height_millimeters :: u32
  wod_supported_transform_mask :: u32
  wod_minimum_scale_numerator :: u32
  wod_minimum_scale_denominator :: u32
  wod_maximum_scale_numerator :: u32
  wod_maximum_scale_denominator :: u32
  wod_maximum_scale_denominator_value :: u32
  wod_maximum_physical_width :: u32
  wod_maximum_physical_height :: u32

definition valid_output_descriptor :: "wire_output_descriptor \<Rightarrow> bool" where
  "valid_output_descriptor v \<longleftrightarrow>
     (let dimensions_known = wod_capability_flags v AND kOutputPhysicalDimensionsKnown \<noteq> 0;
          conflicting_modes = wod_capability_flags v AND kOutputArbitraryHeadlessMode \<noteq> 0 \<and>
            wod_capability_flags v AND kOutputModeFixed \<noteq> 0;
          arbitrary_drm = wod_kind v = 2 \<and> wod_capability_flags v AND kOutputArbitraryHeadlessMode \<noteq> 0
      in wod_output_id v \<noteq> 0 \<and> wod_kind v \<ge> 1 \<and> wod_kind v \<le> 2 \<and>
         wod_name v \<noteq> [] \<and> length (wod_name v) \<le> kMaximumOutputNameBytes_wire \<and> valid_utf8 (wod_name v) \<and>
         wod_capability_flags v AND NOT kKnownOutputCapabilityFlags = 0 \<and> \<not> conflicting_modes \<and> \<not> arbitrary_drm \<and>
         (if dimensions_known then wod_physical_width_millimeters v \<noteq> 0 \<and> wod_physical_height_millimeters v \<noteq> 0
          else wod_physical_width_millimeters v = 0 \<and> wod_physical_height_millimeters v = 0) \<and>
         wod_supported_transform_mask v \<noteq> 0 \<and> wod_supported_transform_mask v AND NOT kKnownTransformMask = 0 \<and>
         wod_maximum_scale_denominator_value v \<noteq> 0 \<and>
         wod_maximum_scale_denominator_value v \<le> kMaximumScaleDenominator_wire \<and>
         valid_scale_wire (wod_minimum_scale_numerator v) (wod_minimum_scale_denominator v)
           (wod_maximum_scale_denominator_value v) \<and>
         valid_scale_wire (wod_maximum_scale_numerator v) (wod_maximum_scale_denominator v)
           (wod_maximum_scale_denominator_value v) \<and>
         compare_scale (wod_minimum_scale_numerator v) (wod_minimum_scale_denominator v)
           (wod_maximum_scale_numerator v) (wod_maximum_scale_denominator v) \<le> 0 \<and>
         wod_maximum_physical_width v \<noteq> 0 \<and> wod_maximum_physical_width v \<le> kMaximumPhysicalExtent_wire \<and>
         wod_maximum_physical_height v \<noteq> 0 \<and> wod_maximum_physical_height v \<le> kMaximumPhysicalExtent_wire)"

definition encode_wire_output_descriptor :: "wire_output_descriptor \<Rightarrow> u8 list" where
  [wire]: "encode_wire_output_descriptor v =
     (if length (wod_name v) > kMaximumOutputNameBytes_wire then []
      else write_u64 (wod_output_id v) @ write_u16 (wod_kind v) @ write_u16 (word_of_nat (length (wod_name v))) @
        write_u32 (wod_capability_flags v) @ write_u32 (wod_physical_width_millimeters v) @
        write_u32 (wod_physical_height_millimeters v) @ write_u32 (wod_supported_transform_mask v) @
        write_u32 (wod_minimum_scale_numerator v) @ write_u32 (wod_minimum_scale_denominator v) @
        write_u32 (wod_maximum_scale_numerator v) @ write_u32 (wod_maximum_scale_denominator v) @
        write_u32 (wod_maximum_scale_denominator_value v) @ write_u32 (wod_maximum_physical_width v) @
        write_u32 (wod_maximum_physical_height v) @ wod_name v)"

definition read_wire_output_descriptor :: "u8 list \<Rightarrow> ((wire_output_descriptor \<times> unit \<times> u16) \<times> u8 list) option" where
  [wire]: "read_wire_output_descriptor b = do {
     (output_id, b) \<leftarrow> read_u64 b; (kind, b) \<leftarrow> read_u16 b; (name_size, b) \<leftarrow> read_u16 b;
     (capability_flags, b) \<leftarrow> read_u32 b; (width_millimeters, b) \<leftarrow> read_u32 b; (height_millimeters, b) \<leftarrow> read_u32 b;
     (transform_mask, b) \<leftarrow> read_u32 b; (minimum_numerator, b) \<leftarrow> read_u32 b; (minimum_denominator, b) \<leftarrow> read_u32 b;
     (maximum_numerator, b) \<leftarrow> read_u32 b; (maximum_denominator, b) \<leftarrow> read_u32 b; (denominator_value, b) \<leftarrow> read_u32 b;
     (physical_width, b) \<leftarrow> read_u32 b; (physical_height, b) \<leftarrow> read_u32 b;
     Some ((\<lparr>wod_output_id = output_id, wod_kind = kind, wod_capability_flags = capability_flags, wod_name = [],
         wod_physical_width_millimeters = width_millimeters, wod_physical_height_millimeters = height_millimeters,
         wod_supported_transform_mask = transform_mask, wod_minimum_scale_numerator = minimum_numerator,
         wod_minimum_scale_denominator = minimum_denominator, wod_maximum_scale_numerator = maximum_numerator,
         wod_maximum_scale_denominator = maximum_denominator, wod_maximum_scale_denominator_value = denominator_value,
         wod_maximum_physical_width = physical_width, wod_maximum_physical_height = physical_height\<rparr>, (), name_size), b) }"

definition decode_wire_output_descriptor :: "u8 list \<Rightarrow> codec_error + wire_output_descriptor" where
  "decode_wire_output_descriptor b =
     with_text kMaximumOutputNameBytes_wire (read_wire_output_descriptor b) (\<lambda>x name. x\<lparr>wod_name := name\<rparr>)
       (\<lambda>x u. \<not> valid_output_descriptor x)"

interpretation wod: codec encode_wire_output_descriptor valid_output_descriptor decode_wire_output_descriptor
  unfolding decode_wire_output_descriptor_def [abs_def]
proof (rule codec_textI [where get_text = wod_name])
  fix b x z n content
  assume "read_wire_output_descriptor b = Some ((x, z, n), content)" "length content = unat n"
    "unat n \<le> kMaximumOutputNameBytes_wire" "\<not> \<not> valid_output_descriptor (x\<lparr>wod_name := content\<rparr>)"
  then show "valid_output_descriptor (x\<lparr>wod_name := content\<rparr>) \<and> b = encode_wire_output_descriptor (x\<lparr>wod_name := content\<rparr>)"
    by (auto simp: read_wire_output_descriptor_def encode_wire_output_descriptor_def text_canonical)
next
  fix v assume "valid_output_descriptor v"
  then have "length (wod_name v) \<le> kMaximumOutputNameBytes_wire" "valid_output_descriptor v" by (simp_all add: valid_output_descriptor_def Let_def)
  then show "\<exists>x z. read_wire_output_descriptor (encode_wire_output_descriptor v) = Some ((x, z, word_of_nat (length (wod_name v))), wod_name v) \<and>
      x\<lparr>wod_name := wod_name v\<rparr> = v \<and> length (wod_name v) \<le> kMaximumOutputNameBytes_wire \<and> \<not> \<not> valid_output_descriptor v"
    by (simp add: read_wire_output_descriptor_def encode_wire_output_descriptor_def fields)
qed (simp add: kMaximumOutputNameBytes_wire_def)

end
