(* ===== verification/Wire_Compositor.thy ===== *)
theory Wire_Compositor
  imports Wire_Output
begin

text \<open>
  The messages between the display server and the compositor (\<open>ipc/wire/compositor_contract.cpp\<close>):
  outputs, surfaces, buffers, damage and frames. Three of them carry a block of colour metadata in the
  middle; an invalid block is reported before the rest of the message is looked at.
\<close>

definition kMaximumDamageRectangles :: nat where
  [wire]: "kMaximumDamageRectangles = 1024"

definition kOpacityOne :: u32 where
  "kOpacityOne = 0x00010000"

section \<open>Colour\<close>

record wire_color =
  wcl_color_space :: u16
  wcl_transfer_function :: u16
  wcl_primaries :: u16
  wcl_luminance_available :: bool
  wcl_minimum_luminance_millinit :: u32
  wcl_maximum_luminance_millinit :: u32
  wcl_max_frame_average_luminance_millinit :: u32

definition write_color :: "wire_color \<Rightarrow> u8 list" where
  [wire]: "write_color v =
     write_u16 (wcl_color_space v) @ write_u16 (wcl_transfer_function v) @
     write_u16 (wcl_primaries v) @ write_bool (wcl_luminance_available v) @ write_u8 0 @
     write_u32 (wcl_minimum_luminance_millinit v) @ write_u32 (wcl_maximum_luminance_millinit v) @
     write_u32 (wcl_max_frame_average_luminance_millinit v)"

definition read_color_fields :: "u8 list \<Rightarrow> ((wire_color \<times> u8 \<times> u8) \<times> u8 list) option" where
  "read_color_fields b = do {
     (color_space, b) \<leftarrow> read_u16 b; (transfer_function, b) \<leftarrow> read_u16 b;
     (primaries, b) \<leftarrow> read_u16 b; (luminance_available, b) \<leftarrow> read_u8 b;
     (reserved, b) \<leftarrow> read_u8 b; (minimum_luminance_millinit, b) \<leftarrow> read_u32 b;
     (maximum_luminance_millinit, b) \<leftarrow> read_u32 b;
     (max_frame_average_luminance_millinit, b) \<leftarrow> read_u32 b;
     Some ((\<lparr>wcl_color_space = color_space, wcl_transfer_function = transfer_function,
         wcl_primaries = primaries, wcl_luminance_available = (luminance_available = 1),
         wcl_minimum_luminance_millinit = minimum_luminance_millinit,
         wcl_maximum_luminance_millinit = maximum_luminance_millinit,
         wcl_max_frame_average_luminance_millinit = max_frame_average_luminance_millinit\<rparr>, (luminance_available, reserved)), b) }"

definition valid_color :: "wire_color \<Rightarrow> bool" where
  "valid_color c \<longleftrightarrow>
     wcl_color_space c \<ge> 1 \<and> wcl_color_space c \<le> 2 \<and> wcl_transfer_function c \<ge> 1 \<and> wcl_transfer_function c \<le> 2 \<and>
     wcl_primaries c \<ge> 1 \<and> wcl_primaries c \<le> 2 \<and>
     (if wcl_luminance_available c
      then wcl_maximum_luminance_millinit c \<noteq> 0 \<and>
           wcl_minimum_luminance_millinit c \<le> wcl_maximum_luminance_millinit c \<and>
           wcl_max_frame_average_luminance_millinit c \<le> wcl_maximum_luminance_millinit c
      else wcl_minimum_luminance_millinit c = 0 \<and> wcl_maximum_luminance_millinit c = 0 \<and>
           wcl_max_frame_average_luminance_millinit c = 0)"

definition read_color :: "u8 list \<Rightarrow> codec_error + wire_color \<times> u8 list" where
  "read_color b =
     (case read_color_fields b of
        None \<Rightarrow> Inl Truncated
      | Some ((c, available, reserved), b) \<Rightarrow>
          if reserved = 0 \<and> available \<le> 1 \<and> valid_color c then Inr (c, b) else Inl InvalidValue)"

definition no_color :: wire_color where
  "no_color = \<lparr>wcl_color_space = 1, wcl_transfer_function = 1, wcl_primaries = 1, wcl_luminance_available = False,
     wcl_minimum_luminance_millinit = 0, wcl_maximum_luminance_millinit = 0, wcl_max_frame_average_luminance_millinit = 0\<rparr>"

lemma read_color_iff: "read_color b = Inr (c, rest) \<longleftrightarrow> valid_color c \<and> b = write_color c @ rest"
proof
  assume "read_color b = Inr (c, rest)"
  then obtain available where r: "read_color_fields b = Some ((c, available, 0), rest)" "available \<le> 1" "valid_color c"
    by (auto simp: read_color_def split: option.splits if_splits)
  from r(1,2) have "b = write_color c @ rest"
    by (auto simp: read_color_fields_def write_color_def text_canonical flag_bytes)
  with r(3) show "valid_color c \<and> b = write_color c @ rest" by simp
next
  assume v: "valid_color c \<and> b = write_color c @ rest"
  then have "read_color_fields b = Some ((c, bool_byte (wcl_luminance_available c), 0), rest)"
    by (simp add: read_color_fields_def write_color_def fields)
  with v show "read_color b = Inr (c, rest)" by (simp add: read_color_def)
qed

text \<open>A decoder with colour metadata between two groups of fields.\<close>

definition with_color ::
    "('x \<times> u8 list) option \<Rightarrow> ('x \<Rightarrow> wire_color \<Rightarrow> u8 list \<Rightarrow> (('v \<times> 'z) \<times> u8 list) option) \<Rightarrow> ('v \<Rightarrow> 'z \<Rightarrow> bool) \<Rightarrow>
     codec_error + 'v" where
  "with_color r after_color invalid =
     (case r of
        None \<Rightarrow> Inl Truncated
      | Some (x, b) \<Rightarrow>
          case read_color b of
            Inl e \<Rightarrow> Inl e
          | Inr (c, b) \<Rightarrow> checked (after_color x c b) invalid)"

lemma codec_colorI:
  assumes canonical: "\<And>b x c v z rest. before b = Some (x, write_color c @ rest) \<Longrightarrow> valid_color c \<Longrightarrow>
      after_color x c rest = Some ((v, z), []) \<Longrightarrow> \<not> invalid v z \<Longrightarrow> valid v \<and> b = encode v"
    and complete: "\<And>v. valid v \<Longrightarrow> \<exists>x c rest z. before (encode v) = Some (x, write_color c @ rest) \<and> valid_color c \<and>
      after_color x c rest = Some ((v, z), []) \<and> \<not> invalid v z"
  shows "codec encode valid (\<lambda>b. with_color (before b) after_color invalid)"
proof
  fix b v
  show "with_color (before b) after_color invalid = Inr v \<longleftrightarrow> valid v \<and> b = encode v"
  proof
    assume "with_color (before b) after_color invalid = Inr v"
    then obtain x b' c rest z where d: "before b = Some (x, b')" "read_color b' = Inr (c, rest)"
      "after_color x c rest = Some ((v, z), [])" "\<not> invalid v z"
      by (auto simp: with_color_def checked_def split: option.splits sum.splits prod.splits if_splits)
    with canonical [of b x c rest v z] show "valid v \<and> b = encode v" by (simp add: read_color_iff)
  next
    assume "valid v \<and> b = encode v"
    with complete [of v] obtain x c rest z where d: "before b = Some (x, write_color c @ rest)" "valid_color c"
      "after_color x c rest = Some ((v, z), [])" "\<not> invalid v z" by auto
    have "read_color (write_color c @ rest) = Inr (c, rest)" using d(2) by (simp add: read_color_iff)
    with d show "with_color (before b) after_color invalid = Inr v" by (simp add: with_color_def checked_def)
  qed
qed

section \<open>Outputs and surfaces\<close>

record wire_output_upsert =
  wou_output_id :: u64
  wou_enabled :: bool
  wou_transform :: u16
  wou_logical_x :: i32
  wou_logical_y :: i32
  wou_logical_width :: u32
  wou_logical_height :: u32
  wou_physical_pixel_width :: u32
  wou_physical_pixel_height :: u32
  wou_refresh_millihertz :: u32
  wou_scale_numerator :: u32
  wou_scale_denominator :: u32
  wou_color :: wire_color

definition encode_wire_output_upsert :: "wire_output_upsert \<Rightarrow> u8 list" where
  [wire]: "encode_wire_output_upsert v =
     write_u64 (wou_output_id v) @ write_bool (wou_enabled v) @ write_u8 0 @
     write_u16 (wou_transform v) @ write_i32 (wou_logical_x v) @ write_i32 (wou_logical_y v) @
     write_u32 (wou_logical_width v) @ write_u32 (wou_logical_height v) @
     write_u32 (wou_physical_pixel_width v) @ write_u32 (wou_physical_pixel_height v) @
     write_u32 (wou_refresh_millihertz v) @ write_u32 (wou_scale_numerator v) @
     write_u32 (wou_scale_denominator v) @ write_color (wou_color v)"

definition read_wire_output_upsert :: "u8 list \<Rightarrow> ((wire_output_upsert \<times> u8 \<times> u8) \<times> u8 list) option" where
  [wire]: "read_wire_output_upsert b = do {
     (output_id, b) \<leftarrow> read_u64 b; (enabled, b) \<leftarrow> read_u8 b;
     (reserved, b) \<leftarrow> read_u8 b; (transform, b) \<leftarrow> read_u16 b;
     (logical_x, b) \<leftarrow> read_i32 b; (logical_y, b) \<leftarrow> read_i32 b;
     (logical_width, b) \<leftarrow> read_u32 b; (logical_height, b) \<leftarrow> read_u32 b;
     (physical_pixel_width, b) \<leftarrow> read_u32 b; (physical_pixel_height, b) \<leftarrow> read_u32 b;
     (refresh_millihertz, b) \<leftarrow> read_u32 b; (scale_numerator, b) \<leftarrow> read_u32 b;
     (scale_denominator, b) \<leftarrow> read_u32 b;
     Some ((\<lparr>wou_output_id = output_id, wou_enabled = (enabled = 1), wou_transform = transform,
         wou_logical_x = logical_x, wou_logical_y = logical_y, wou_logical_width = logical_width,
         wou_logical_height = logical_height, wou_physical_pixel_width = physical_pixel_width,
         wou_physical_pixel_height = physical_pixel_height,
         wou_refresh_millihertz = refresh_millihertz, wou_scale_numerator = scale_numerator,
         wou_scale_denominator = scale_denominator, wou_color = no_color\<rparr>, (enabled, reserved)), b) }"

definition finish_wire_output_upsert :: "wire_output_upsert \<times> u8 \<times> u8 \<Rightarrow> wire_color \<Rightarrow> u8 list \<Rightarrow> ((wire_output_upsert \<times> u8 \<times> u8) \<times> u8 list) option" where
  [wire]: "finish_wire_output_upsert = (\<lambda>(x, enabled, reserved) c b. Some ((x\<lparr>wou_color := c\<rparr>, (enabled, reserved)), b))"

definition valid_wire_output_upsert :: "wire_output_upsert \<Rightarrow> bool" where
  "valid_wire_output_upsert v \<longleftrightarrow>
     wou_output_id v \<noteq> 0 \<and> wou_scale_numerator v \<noteq> 0 \<and> wou_scale_denominator v \<noteq> 0 \<and> wou_transform v \<le> 7 \<and>
     (\<not> wou_enabled v \<or>
      wou_logical_width v \<noteq> 0 \<and> wou_logical_height v \<noteq> 0 \<and> wou_physical_pixel_width v \<noteq> 0 \<and>
      wou_physical_pixel_height v \<noteq> 0 \<and> wou_refresh_millihertz v \<noteq> 0)"

definition decode_wire_output_upsert :: "u8 list \<Rightarrow> codec_error + wire_output_upsert" where
  "decode_wire_output_upsert b =
     with_color (read_wire_output_upsert b) finish_wire_output_upsert (\<lambda>x (enabled, reserved). \<not> (enabled \<le> 1 \<and> reserved = 0 \<and> valid_wire_output_upsert x))"

interpretation wou: codec encode_wire_output_upsert "\<lambda>v. valid_wire_output_upsert v \<and> valid_color (wou_color v)" decode_wire_output_upsert
  unfolding decode_wire_output_upsert_def [abs_def]
  by (rule codec_colorI, (auto simp: wire text_canonical flag_bytes)[], auto simp: wire fields)

record wire_output_remove =
  wor_output_id :: u64

definition encode_wire_output_remove :: "wire_output_remove \<Rightarrow> u8 list" where
  [wire]: "encode_wire_output_remove v =
     write_u64 (wor_output_id v)"

definition read_wire_output_remove :: "u8 list \<Rightarrow> ((wire_output_remove \<times> unit) \<times> u8 list) option" where
  [wire]: "read_wire_output_remove b = do {
     (output_id, b) \<leftarrow> read_u64 b;
     Some ((\<lparr>wor_output_id = output_id\<rparr>, ()), b) }"

definition valid_wire_output_remove :: "wire_output_remove \<Rightarrow> bool" where
  "valid_wire_output_remove v \<longleftrightarrow>
     wor_output_id v \<noteq> 0"

definition decode_wire_output_remove :: "u8 list \<Rightarrow> codec_error + wire_output_remove" where
  "decode_wire_output_remove b = checked (read_wire_output_remove b) (\<lambda>x u. \<not> (valid_wire_output_remove x))"

interpretation wor: message 8 encode_wire_output_remove valid_wire_output_remove decode_wire_output_remove
  unfolding decode_wire_output_remove_def [abs_def]
  by (rule messageI, unfold read_wire_output_remove_def, rule consumes_eq, (rule consumes_sequence)+, simp,
      (auto simp: wire canonical flag_bytes)[], auto simp: wire complete flag_bytes)

record damage_rectangle =
  wdr_x :: i32
  wdr_y :: i32
  wdr_width :: u32
  wdr_height :: u32

text \<open>The difference is taken in 64 bits, in which a negative coordinate wraps around to the right value.\<close>

definition valid_rectangle_wire :: "damage_rectangle \<Rightarrow> bool" where
  "valid_rectangle_wire r \<longleftrightarrow>
     wdr_width r \<noteq> 0 \<and> wdr_height r \<noteq> 0 \<and>
     (ucast (wdr_width r - 1) :: u64) \<le> 0x7FFFFFFF - scast (wdr_x r) \<and>
     (ucast (wdr_height r - 1) :: u64) \<le> 0x7FFFFFFF - scast (wdr_y r)"

record wire_surface_upsert =
  wsu_surface_id :: u64
  wsu_x11_window_id :: u32
  wsu_parent_surface_id :: u64
  wsu_output_id :: u64
  wsu_logical_x :: i32
  wsu_logical_y :: i32
  wsu_logical_width :: u32
  wsu_logical_height :: u32
  wsu_stacking :: i32
  wsu_visible :: bool
  wsu_clipping :: bool
  wsu_transform :: u16
  wsu_clip_x :: i32
  wsu_clip_y :: i32
  wsu_clip_width :: u32
  wsu_clip_height :: u32
  wsu_opacity :: u32
  wsu_scale_numerator :: u32
  wsu_scale_denominator :: u32
  wsu_color :: wire_color
  wsu_presentation_flags :: u32
  wsu_fullscreen_eligible :: u8
  wsu_direct_scanout_eligible :: u8

definition encode_wire_surface_upsert :: "wire_surface_upsert \<Rightarrow> u8 list" where
  [wire]: "encode_wire_surface_upsert v =
     write_u64 (wsu_surface_id v) @ write_u32 (wsu_x11_window_id v) @ write_u32 0 @
     write_u64 (wsu_parent_surface_id v) @ write_u64 (wsu_output_id v) @
     write_i32 (wsu_logical_x v) @ write_i32 (wsu_logical_y v) @ write_u32 (wsu_logical_width v) @
     write_u32 (wsu_logical_height v) @ write_i32 (wsu_stacking v) @ write_bool (wsu_visible v) @
     write_bool (wsu_clipping v) @ write_u16 (wsu_transform v) @ write_i32 (wsu_clip_x v) @
     write_i32 (wsu_clip_y v) @ write_u32 (wsu_clip_width v) @ write_u32 (wsu_clip_height v) @
     write_u32 (wsu_opacity v) @ write_u32 (wsu_scale_numerator v) @
     write_u32 (wsu_scale_denominator v) @ write_color (wsu_color v) @
     write_u32 (wsu_presentation_flags v) @ write_u8 (wsu_fullscreen_eligible v) @
     write_u8 (wsu_direct_scanout_eligible v) @ write_u16 0"

definition read_wire_surface_upsert :: "u8 list \<Rightarrow> ((wire_surface_upsert \<times> u32 \<times> u8 \<times> u8) \<times> u8 list) option" where
  [wire]: "read_wire_surface_upsert b = do {
     (surface_id, b) \<leftarrow> read_u64 b; (x11_window_id, b) \<leftarrow> read_u32 b;
     (reserved1, b) \<leftarrow> read_u32 b; (parent_surface_id, b) \<leftarrow> read_u64 b;
     (output_id, b) \<leftarrow> read_u64 b; (logical_x, b) \<leftarrow> read_i32 b;
     (logical_y, b) \<leftarrow> read_i32 b; (logical_width, b) \<leftarrow> read_u32 b;
     (logical_height, b) \<leftarrow> read_u32 b; (stacking, b) \<leftarrow> read_i32 b;
     (visible, b) \<leftarrow> read_u8 b; (clipping, b) \<leftarrow> read_u8 b;
     (transform, b) \<leftarrow> read_u16 b; (clip_x, b) \<leftarrow> read_i32 b;
     (clip_y, b) \<leftarrow> read_i32 b; (clip_width, b) \<leftarrow> read_u32 b;
     (clip_height, b) \<leftarrow> read_u32 b; (opacity, b) \<leftarrow> read_u32 b;
     (scale_numerator, b) \<leftarrow> read_u32 b; (scale_denominator, b) \<leftarrow> read_u32 b;
     Some ((\<lparr>wsu_surface_id = surface_id, wsu_x11_window_id = x11_window_id,
         wsu_parent_surface_id = parent_surface_id, wsu_output_id = output_id,
         wsu_logical_x = logical_x, wsu_logical_y = logical_y, wsu_logical_width = logical_width,
         wsu_logical_height = logical_height, wsu_stacking = stacking, wsu_visible = (visible = 1),
         wsu_clipping = (clipping = 1), wsu_transform = transform, wsu_clip_x = clip_x,
         wsu_clip_y = clip_y, wsu_clip_width = clip_width, wsu_clip_height = clip_height,
         wsu_opacity = opacity, wsu_scale_numerator = scale_numerator,
         wsu_scale_denominator = scale_denominator, wsu_color = no_color, wsu_presentation_flags = 0,
         wsu_fullscreen_eligible = 0, wsu_direct_scanout_eligible = 0\<rparr>, (reserved1, visible, clipping)), b) }"

definition finish_wire_surface_upsert :: "wire_surface_upsert \<times> u32 \<times> u8 \<times> u8 \<Rightarrow> wire_color \<Rightarrow> u8 list \<Rightarrow> ((wire_surface_upsert \<times> u32 \<times> u8 \<times> u8 \<times> u16) \<times> u8 list) option" where
  [wire]: "finish_wire_surface_upsert = (\<lambda>(x, reserved1, visible, clipping) c b. do {
     (presentation_flags, b) \<leftarrow> read_u32 b; (fullscreen_eligible, b) \<leftarrow> read_u8 b;
     (direct_scanout_eligible, b) \<leftarrow> read_u8 b; (reserved2, b) \<leftarrow> read_u16 b;
     Some ((x\<lparr>wsu_color := c, wsu_presentation_flags := presentation_flags, wsu_fullscreen_eligible := fullscreen_eligible, wsu_direct_scanout_eligible := direct_scanout_eligible\<rparr>, (reserved1, visible, clipping, reserved2)), b) })"

definition valid_wire_surface_upsert :: "wire_surface_upsert \<Rightarrow> bool" where
  "valid_wire_surface_upsert v \<longleftrightarrow>
     wsu_surface_id v \<noteq> 0 \<and> wsu_logical_width v \<noteq> 0 \<and> wsu_logical_height v \<noteq> 0 \<and> wsu_opacity v \<le> kOpacityOne \<and>
     wsu_scale_numerator v \<noteq> 0 \<and> wsu_scale_denominator v \<noteq> 0 \<and> wsu_transform v \<le> 7 \<and>
     wsu_fullscreen_eligible v \<le> 2 \<and> wsu_direct_scanout_eligible v \<le> 2 \<and>
     wsu_presentation_flags v AND NOT 3 = 0 \<and> wsu_presentation_flags v \<noteq> 3 \<and>
     (\<not> wsu_clipping v \<or>
      valid_rectangle_wire \<lparr>wdr_x = wsu_clip_x v, wdr_y = wsu_clip_y v, wdr_width = wsu_clip_width v, wdr_height = wsu_clip_height v\<rparr>)"

definition decode_wire_surface_upsert :: "u8 list \<Rightarrow> codec_error + wire_surface_upsert" where
  "decode_wire_surface_upsert b =
     with_color (read_wire_surface_upsert b) finish_wire_surface_upsert (\<lambda>x (reserved1, visible, clipping, reserved2). \<not> (visible \<le> 1 \<and> clipping \<le> 1 \<and> reserved1 = 0 \<and> reserved2 = 0 \<and> valid_wire_surface_upsert x))"

interpretation wsu: codec encode_wire_surface_upsert "\<lambda>v. valid_wire_surface_upsert v \<and> valid_color (wsu_color v)" decode_wire_surface_upsert
  unfolding decode_wire_surface_upsert_def [abs_def]
  by (rule codec_colorI, (auto simp: wire text_canonical flag_bytes)[], auto simp: wire fields)

record wire_surface_remove =
  wsr_surface_id :: u64

definition encode_wire_surface_remove :: "wire_surface_remove \<Rightarrow> u8 list" where
  [wire]: "encode_wire_surface_remove v =
     write_u64 (wsr_surface_id v)"

definition read_wire_surface_remove :: "u8 list \<Rightarrow> ((wire_surface_remove \<times> unit) \<times> u8 list) option" where
  [wire]: "read_wire_surface_remove b = do {
     (surface_id, b) \<leftarrow> read_u64 b;
     Some ((\<lparr>wsr_surface_id = surface_id\<rparr>, ()), b) }"

definition valid_wire_surface_remove :: "wire_surface_remove \<Rightarrow> bool" where
  "valid_wire_surface_remove v \<longleftrightarrow>
     wsr_surface_id v \<noteq> 0"

definition decode_wire_surface_remove :: "u8 list \<Rightarrow> codec_error + wire_surface_remove" where
  "decode_wire_surface_remove b = checked (read_wire_surface_remove b) (\<lambda>x u. \<not> (valid_wire_surface_remove x))"

interpretation wsr: message 8 encode_wire_surface_remove valid_wire_surface_remove decode_wire_surface_remove
  unfolding decode_wire_surface_remove_def [abs_def]
  by (rule messageI, unfold read_wire_surface_remove_def, rule consumes_eq, (rule consumes_sequence)+, simp,
      (auto simp: wire canonical flag_bytes)[], auto simp: wire complete flag_bytes)

section \<open>Buffers\<close>

record buffer_attach =
  wba_buffer_id :: u64
  wba_surface_id :: u64
  wba_width :: u32
  wba_height :: u32
  wba_stride :: u32
  wba_byte_offset :: u64
  wba_storage_size :: u64
  wba_pixel_format :: u16
  wba_alpha_semantics :: u16
  wba_modifier :: u64
  wba_color :: wire_color
  wba_synchronization :: u16
  wba_flags :: u32

definition encode_buffer_attach :: "buffer_attach \<Rightarrow> u8 list" where
  [wire]: "encode_buffer_attach v =
     write_u64 (wba_buffer_id v) @ write_u64 (wba_surface_id v) @ write_u32 (wba_width v) @
     write_u32 (wba_height v) @ write_u32 (wba_stride v) @ write_u32 0 @
     write_u64 (wba_byte_offset v) @ write_u64 (wba_storage_size v) @
     write_u16 (wba_pixel_format v) @ write_u16 (wba_alpha_semantics v) @
     write_u64 (wba_modifier v) @ write_color (wba_color v) @ write_u16 (wba_synchronization v) @
     write_u16 0 @ write_u32 (wba_flags v)"

definition read_buffer_attach :: "u8 list \<Rightarrow> ((buffer_attach \<times> u32) \<times> u8 list) option" where
  [wire]: "read_buffer_attach b = do {
     (buffer_id, b) \<leftarrow> read_u64 b; (surface_id, b) \<leftarrow> read_u64 b;
     (width, b) \<leftarrow> read_u32 b; (height, b) \<leftarrow> read_u32 b;
     (stride, b) \<leftarrow> read_u32 b; (reserved1, b) \<leftarrow> read_u32 b;
     (byte_offset, b) \<leftarrow> read_u64 b; (storage_size, b) \<leftarrow> read_u64 b;
     (pixel_format, b) \<leftarrow> read_u16 b; (alpha_semantics, b) \<leftarrow> read_u16 b;
     (modifier, b) \<leftarrow> read_u64 b;
     Some ((\<lparr>wba_buffer_id = buffer_id, wba_surface_id = surface_id, wba_width = width,
         wba_height = height, wba_stride = stride, wba_byte_offset = byte_offset,
         wba_storage_size = storage_size, wba_pixel_format = pixel_format,
         wba_alpha_semantics = alpha_semantics, wba_modifier = modifier, wba_color = no_color,
         wba_synchronization = 0, wba_flags = 0\<rparr>, reserved1), b) }"

definition finish_buffer_attach :: "buffer_attach \<times> u32 \<Rightarrow> wire_color \<Rightarrow> u8 list \<Rightarrow> ((buffer_attach \<times> u32 \<times> u16) \<times> u8 list) option" where
  [wire]: "finish_buffer_attach = (\<lambda>(x, reserved1) c b. do {
     (synchronization, b) \<leftarrow> read_u16 b; (reserved2, b) \<leftarrow> read_u16 b;
     (flags, b) \<leftarrow> read_u32 b;
     Some ((x\<lparr>wba_color := c, wba_synchronization := synchronization, wba_flags := flags\<rparr>, (reserved1, reserved2)), b) })"

definition geometry_valid :: "buffer_attach \<Rightarrow> bool" where
  "geometry_valid v \<longleftrightarrow>
     wba_width v \<noteq> 0 \<and> wba_height v \<noteq> 0 \<and> wba_width v \<le> (- 1) div 4 \<and>
     (let row_bytes = (ucast (wba_width v) :: u64) * 4; stride = (ucast (wba_stride v) :: u64)
      in row_bytes \<le> stride \<and>
         (let rows = (ucast (wba_height v - 1) :: u64)
          in (rows = 0 \<or> stride \<le> (- 1 - row_bytes) div rows) \<and>
             (let required = rows * stride + row_bytes
              in wba_byte_offset v \<le> wba_storage_size v \<and>
                 required \<le> wba_storage_size v - wba_byte_offset v)))"

definition format_valid :: "buffer_attach \<Rightarrow> bool" where
  "format_valid v \<longleftrightarrow>
     wba_pixel_format v = 1 \<and> wba_alpha_semantics v = 1 \<or> wba_pixel_format v = 2 \<and> wba_alpha_semantics v = 2"

definition valid_buffer_attach :: "buffer_attach \<Rightarrow> bool" where
  "valid_buffer_attach v \<longleftrightarrow>
     wba_buffer_id v \<noteq> 0 \<and> wba_surface_id v \<noteq> 0 \<and> geometry_valid v \<and> format_valid v \<and> wba_modifier v = 0 \<and>
     (wba_synchronization v = 0 \<or> wba_synchronization v = 1) \<and> wba_flags v = 0"

definition decode_buffer_attach :: "u8 list \<Rightarrow> codec_error + buffer_attach" where
  "decode_buffer_attach b =
     with_color (read_buffer_attach b) finish_buffer_attach (\<lambda>x (reserved1, reserved2). \<not> (reserved1 = 0 \<and> reserved2 = 0 \<and> valid_buffer_attach x))"

interpretation wba: codec encode_buffer_attach "\<lambda>v. valid_buffer_attach v \<and> valid_color (wba_color v)" decode_buffer_attach
  unfolding decode_buffer_attach_def [abs_def]
  by (rule codec_colorI, (auto simp: wire text_canonical flag_bytes)[], auto simp: wire fields)

record buffer_detach =
  wbd_surface_id :: u64
  wbd_buffer_id :: u64

definition encode_buffer_detach :: "buffer_detach \<Rightarrow> u8 list" where
  [wire]: "encode_buffer_detach v =
     write_u64 (wbd_surface_id v) @ write_u64 (wbd_buffer_id v)"

definition read_buffer_detach :: "u8 list \<Rightarrow> ((buffer_detach \<times> unit) \<times> u8 list) option" where
  [wire]: "read_buffer_detach b = do {
     (surface_id, b) \<leftarrow> read_u64 b; (buffer_id, b) \<leftarrow> read_u64 b;
     Some ((\<lparr>wbd_surface_id = surface_id, wbd_buffer_id = buffer_id\<rparr>, ()), b) }"

definition valid_buffer_detach :: "buffer_detach \<Rightarrow> bool" where
  "valid_buffer_detach v \<longleftrightarrow>
     wbd_surface_id v \<noteq> 0 \<and> wbd_buffer_id v \<noteq> 0"

definition decode_buffer_detach :: "u8 list \<Rightarrow> codec_error + buffer_detach" where
  "decode_buffer_detach b = checked (read_buffer_detach b) (\<lambda>x u. \<not> (valid_buffer_detach x))"

interpretation wbd: message 16 encode_buffer_detach valid_buffer_detach decode_buffer_detach
  unfolding decode_buffer_detach_def [abs_def]
  by (rule messageI, unfold read_buffer_detach_def, rule consumes_eq, (rule consumes_sequence)+, simp,
      (auto simp: wire canonical flag_bytes)[], auto simp: wire complete flag_bytes)

record buffer_release =
  wbr_buffer_id :: u64
  wbr_reason :: u16

definition encode_buffer_release :: "buffer_release \<Rightarrow> u8 list" where
  [wire]: "encode_buffer_release v =
     write_u64 (wbr_buffer_id v) @ write_u16 (wbr_reason v) @ write_u16 0 @ write_u32 0"

definition read_buffer_release :: "u8 list \<Rightarrow> ((buffer_release \<times> u16 \<times> u32) \<times> u8 list) option" where
  [wire]: "read_buffer_release b = do {
     (buffer_id, b) \<leftarrow> read_u64 b; (reason, b) \<leftarrow> read_u16 b;
     (reserved1, b) \<leftarrow> read_u16 b; (reserved2, b) \<leftarrow> read_u32 b;
     Some ((\<lparr>wbr_buffer_id = buffer_id, wbr_reason = reason\<rparr>, (reserved1, reserved2)), b) }"

definition valid_buffer_release :: "buffer_release \<Rightarrow> bool" where
  "valid_buffer_release v \<longleftrightarrow>
     wbr_buffer_id v \<noteq> 0 \<and> wbr_reason v \<ge> 1 \<and> wbr_reason v \<le> 4"

definition decode_buffer_release :: "u8 list \<Rightarrow> codec_error + buffer_release" where
  "decode_buffer_release b = checked (read_buffer_release b) (\<lambda>x (reserved1, reserved2). \<not> (reserved1 = 0 \<and> reserved2 = 0 \<and> valid_buffer_release x))"

interpretation wbr: message 16 encode_buffer_release valid_buffer_release decode_buffer_release
  unfolding decode_buffer_release_def [abs_def]
  by (rule messageI, unfold read_buffer_release_def, rule consumes_eq, (rule consumes_sequence)+, simp,
      (auto simp: wire canonical flag_bytes)[], auto simp: wire complete flag_bytes)

section \<open>Damage\<close>

record wire_surface_damage =
  wsd_surface_id :: u64
  wsd_rectangles :: "damage_rectangle list"

definition write_rectangle :: "damage_rectangle \<Rightarrow> u8 list" where
  [wire]: "write_rectangle r = write_i32 (wdr_x r) @ write_i32 (wdr_y r) @ write_u32 (wdr_width r) @ write_u32 (wdr_height r)"

definition read_rectangle :: "u8 list \<Rightarrow> (damage_rectangle \<times> u8 list) option" where
  [wire]: "read_rectangle b = do {
     (x, b) \<leftarrow> read_i32 b; (y, b) \<leftarrow> read_i32 b; (width, b) \<leftarrow> read_u32 b; (height, b) \<leftarrow> read_u32 b;
     Some (\<lparr>wdr_x = x, wdr_y = y, wdr_width = width, wdr_height = height\<rparr>, b) }"

interpretation rectangle: field write_rectangle read_rectangle 16
proof
  have c: "consumes 16 read_rectangle"
    unfolding read_rectangle_def by (rule consumes_eq, (rule consumes_sequence)+, simp)
  show "read_rectangle b = Some (v, rest) \<longleftrightarrow> b = write_rectangle v @ rest" for b v rest
    by (cases v) (auto simp: wire text_canonical)
  show "length (write_rectangle v) = 16" for v by (simp add: wire fields)
  show "16 \<le> length b \<Longrightarrow> \<exists>v rest. read_rectangle b = Some (v, rest)" for b
    using c unfolding consumes_def by (metis not_less)
qed

definition encode_wire_surface_damage :: "wire_surface_damage \<Rightarrow> u8 list" where
  "encode_wire_surface_damage v =
     (if length (wsd_rectangles v) > kMaximumDamageRectangles then []
      else write_u64 (wsd_surface_id v) @ write_u32 (word_of_nat (length (wsd_rectangles v))) @ write_u32 0 @
        concat (map write_rectangle (wsd_rectangles v)))"

definition read_wire_surface_damage :: "u8 list \<Rightarrow> ((u64 \<times> u32 \<times> u32) \<times> u8 list) option" where
  "read_wire_surface_damage b = do {
     (surface_id, b) \<leftarrow> read_u64 b; (n, b) \<leftarrow> read_u32 b; (reserved, b) \<leftarrow> read_u32 b;
     Some ((surface_id, n, reserved), b) }"

definition decode_wire_surface_damage :: "u8 list \<Rightarrow> codec_error + wire_surface_damage" where
  "decode_wire_surface_damage b =
     (case read_wire_surface_damage b of
        None \<Rightarrow> Inl Truncated
      | Some ((surface_id, n, reserved), b) \<Rightarrow>
          if unat n > kMaximumDamageRectangles then Inl LimitExceeded
          else if length b \<noteq> unat n * 16 then Inl (if length b < unat n * 16 then Truncated else TrailingData)
          else case read_many (unat n) read_rectangle b of
                 None \<Rightarrow> Inl Truncated
               | Some (rs, rest) \<Rightarrow>
                   if rest \<noteq> [] then Inl TrailingData
                   else if \<not> (surface_id \<noteq> 0 \<and> reserved = 0 \<and> list_all valid_rectangle_wire rs) then Inl InvalidValue
                   else Inr \<lparr>wsd_surface_id = surface_id, wsd_rectangles = rs\<rparr>)"

definition valid_wire_surface_damage :: "wire_surface_damage \<Rightarrow> bool" where
  "valid_wire_surface_damage v \<longleftrightarrow>
     wsd_surface_id v \<noteq> 0 \<and> length (wsd_rectangles v) \<le> kMaximumDamageRectangles \<and> list_all valid_rectangle_wire (wsd_rectangles v)"

lemma read_wire_surface_damage_iff:
  "read_wire_surface_damage b = Some ((i, n, z), rest) \<longleftrightarrow> b = write_u64 i @ write_u32 n @ write_u32 z @ rest"
  by (auto simp: read_wire_surface_damage_def text_canonical fields)

lemma decode_wire_surface_damage_iff:
  "decode_wire_surface_damage b = Inr v \<longleftrightarrow>
     (\<exists>n rest. read_wire_surface_damage b = Some ((wsd_surface_id v, n, 0), rest) \<and> unat n \<le> kMaximumDamageRectangles \<and>
        length rest = unat n * 16 \<and> read_many (unat n) read_rectangle rest = Some (wsd_rectangles v, []) \<and>
        wsd_surface_id v \<noteq> 0 \<and> list_all valid_rectangle_wire (wsd_rectangles v))"
  by (cases v) (auto simp: decode_wire_surface_damage_def split: option.splits if_splits)

interpretation wsd: codec encode_wire_surface_damage valid_wire_surface_damage decode_wire_surface_damage
proof
  fix b v
  show "decode_wire_surface_damage b = Inr v \<longleftrightarrow> valid_wire_surface_damage v \<and> b = encode_wire_surface_damage v"
  proof
    assume "decode_wire_surface_damage b = Inr v"
    then obtain n rest where d: "b = write_u64 (wsd_surface_id v) @ write_u32 n @ write_u32 0 @ rest"
      "unat n \<le> kMaximumDamageRectangles" "length (wsd_rectangles v) = unat n" "rest = concat (map write_rectangle (wsd_rectangles v))"
      "wsd_surface_id v \<noteq> 0" "list_all valid_rectangle_wire (wsd_rectangles v)"
      unfolding decode_wire_surface_damage_iff read_wire_surface_damage_iff rectangle.read_many_iff by auto
    have n: "word_of_nat (length (wsd_rectangles v)) = n" unfolding d(3) by simp
    from d show "valid_wire_surface_damage v \<and> b = encode_wire_surface_damage v"
      by (simp add: valid_wire_surface_damage_def encode_wire_surface_damage_def n)
  next
    assume v: "valid_wire_surface_damage v \<and> b = encode_wire_surface_damage v"
    then have n: "unat (word_of_nat (length (wsd_rectangles v)) :: u32) = length (wsd_rectangles v)"
      by (intro unat_length32) (simp add: valid_wire_surface_damage_def kMaximumDamageRectangles_def)
    from v n show "decode_wire_surface_damage b = Inr v"
      unfolding decode_wire_surface_damage_iff read_wire_surface_damage_iff rectangle.read_many_iff
      by (intro exI [of _ "word_of_nat (length (wsd_rectangles v))"] exI [of _ "concat (map write_rectangle (wsd_rectangles v))"])
        (simp add: valid_wire_surface_damage_def encode_wire_surface_damage_def rectangle.concat_length)
  qed
qed

section \<open>Frames\<close>

record wire_frame_commit =
  wfc_commit_id :: u64
  wfc_output_id :: u64
  wfc_producer_generation :: u64
  wfc_flags :: u32

definition encode_wire_frame_commit :: "wire_frame_commit \<Rightarrow> u8 list" where
  [wire]: "encode_wire_frame_commit v =
     write_u64 (wfc_commit_id v) @ write_u64 (wfc_output_id v) @
     write_u64 (wfc_producer_generation v) @ write_u32 (wfc_flags v) @ write_u32 0"

definition read_wire_frame_commit :: "u8 list \<Rightarrow> ((wire_frame_commit \<times> u32) \<times> u8 list) option" where
  [wire]: "read_wire_frame_commit b = do {
     (commit_id, b) \<leftarrow> read_u64 b; (output_id, b) \<leftarrow> read_u64 b;
     (producer_generation, b) \<leftarrow> read_u64 b; (flags, b) \<leftarrow> read_u32 b;
     (reserved, b) \<leftarrow> read_u32 b;
     Some ((\<lparr>wfc_commit_id = commit_id, wfc_output_id = output_id,
         wfc_producer_generation = producer_generation, wfc_flags = flags\<rparr>, reserved), b) }"

definition valid_wire_frame_commit :: "wire_frame_commit \<Rightarrow> bool" where
  "valid_wire_frame_commit v \<longleftrightarrow>
     wfc_commit_id v \<noteq> 0 \<and> wfc_flags v = 0"

definition decode_wire_frame_commit :: "u8 list \<Rightarrow> codec_error + wire_frame_commit" where
  "decode_wire_frame_commit b = checked (read_wire_frame_commit b) (\<lambda>x reserved. \<not> (reserved = 0 \<and> valid_wire_frame_commit x))"

interpretation wfc: message 32 encode_wire_frame_commit valid_wire_frame_commit decode_wire_frame_commit
  unfolding decode_wire_frame_commit_def [abs_def]
  by (rule messageI, unfold read_wire_frame_commit_def, rule consumes_eq, (rule consumes_sequence)+, simp,
      (auto simp: wire canonical flag_bytes)[], auto simp: wire complete flag_bytes)

record wire_frame_acknowledged =
  wfa_commit_id :: u64
  wfa_output_id :: u64
  wfa_presented_generation :: u64
  wfa_result :: u16

definition encode_wire_frame_acknowledged :: "wire_frame_acknowledged \<Rightarrow> u8 list" where
  [wire]: "encode_wire_frame_acknowledged v =
     write_u64 (wfa_commit_id v) @ write_u64 (wfa_output_id v) @
     write_u64 (wfa_presented_generation v) @ write_u16 (wfa_result v) @ write_u16 0 @ write_u32 0"

definition read_wire_frame_acknowledged :: "u8 list \<Rightarrow> ((wire_frame_acknowledged \<times> u16 \<times> u32) \<times> u8 list) option" where
  [wire]: "read_wire_frame_acknowledged b = do {
     (commit_id, b) \<leftarrow> read_u64 b; (output_id, b) \<leftarrow> read_u64 b;
     (presented_generation, b) \<leftarrow> read_u64 b; (result, b) \<leftarrow> read_u16 b;
     (reserved1, b) \<leftarrow> read_u16 b; (reserved2, b) \<leftarrow> read_u32 b;
     Some ((\<lparr>wfa_commit_id = commit_id, wfa_output_id = output_id,
         wfa_presented_generation = presented_generation, wfa_result = result\<rparr>, (reserved1, reserved2)), b) }"

definition valid_wire_frame_acknowledged :: "wire_frame_acknowledged \<Rightarrow> bool" where
  "valid_wire_frame_acknowledged v \<longleftrightarrow>
     wfa_commit_id v \<noteq> 0 \<and> wfa_result v \<ge> 1 \<and> wfa_result v \<le> 5"

definition decode_wire_frame_acknowledged :: "u8 list \<Rightarrow> codec_error + wire_frame_acknowledged" where
  "decode_wire_frame_acknowledged b = checked (read_wire_frame_acknowledged b) (\<lambda>x (reserved1, reserved2). \<not> (reserved1 = 0 \<and> reserved2 = 0 \<and> valid_wire_frame_acknowledged x))"

interpretation wfa: message 32 encode_wire_frame_acknowledged valid_wire_frame_acknowledged decode_wire_frame_acknowledged
  unfolding decode_wire_frame_acknowledged_def [abs_def]
  by (rule messageI, unfold read_wire_frame_acknowledged_def, rule consumes_eq, (rule consumes_sequence)+, simp,
      (auto simp: wire canonical flag_bytes)[], auto simp: wire complete flag_bytes)

section \<open>What the checks mean\<close>

lemma uint_lt: "uint w < 2 ^ LENGTH('a)" for w :: "'a::len word"
  by (fact unsigned_less)

lemma uint_widen: "uint (ucast w :: u64) = uint w" for w :: u32
  using uint_lt [of w] by (simp add: unsigned_ucast_eq take_bit_int_eq_self_iff)

lemma uint_pred: "w \<noteq> 0 \<Longrightarrow> uint (w - 1) = uint w - 1" for w :: "'a::len word"
  by (metis uint_minus_simple_alt unsigned_1 word_le_def word_one_le)

lemma offset_within:
  fixes w :: u32 and x :: i32
  assumes "w \<noteq> 0"
  shows "(ucast (w - 1) :: u64) \<le> 0x7FFFFFFF - scast x \<longleftrightarrow> sint x + uint w - 1 \<le> int32_max"
proof -
  have w: "uint (ucast (w - 1) :: u64) = uint w - 1" using assms by (simp add: uint_widen uint_pred)
  have s: "- 2147483648 \<le> sint x" "sint x \<le> 2147483647" using sint_ge [of x] sint_lt [of x] by simp_all
  have "(0x7FFFFFFF - scast x :: u64) = word_of_int (0x7FFFFFFF - sint x)"
    unfolding scast_eq by simp
  moreover have "uint (word_of_int (0x7FFFFFFF - sint x) :: u64) = 0x7FFFFFFF - sint x"
    using s by (simp only: unsigned_of_int) (simp add: take_bit_int_eq_self_iff)
  ultimately have "uint (0x7FFFFFFF - scast x :: u64) = 0x7FFFFFFF - sint x" by (simp only:)
  then show ?thesis unfolding word_le_def w by auto
qed

lemma valid_rectangle_wire_iff:
  "valid_rectangle_wire r \<longleftrightarrow>
     wdr_width r \<noteq> 0 \<and> wdr_height r \<noteq> 0 \<and> sint (wdr_x r) + uint (wdr_width r) - 1 \<le> int32_max \<and>
     sint (wdr_y r) + uint (wdr_height r) - 1 \<le> int32_max"
  by (cases "wdr_width r = 0"; cases "wdr_height r = 0") (simp_all add: valid_rectangle_wire_def offset_within)

lemma uint_product: "uint (ucast a * ucast b :: u64) = uint a * uint b" for a b :: u32
proof -
  have "uint a * uint b \<le> 4294967295 * 4294967295" using uint_lt [of a] uint_lt [of b] by (intro mult_mono) simp_all
  then show ?thesis by (simp add: uint_word_ariths uint_widen mod_pos_pos_trivial)
qed

text \<open>The last byte of the last row of pixels is in the storage, without any wrap-around.\<close>

lemma geometry_valid_iff:
  "geometry_valid v \<longleftrightarrow>
     wba_width v \<noteq> 0 \<and> wba_height v \<noteq> 0 \<and> uint (wba_width v) * 4 \<le> uint (wba_stride v) \<and>
     uint (wba_byte_offset v) + (uint (wba_height v) - 1) * uint (wba_stride v) + uint (wba_width v) * 4
       \<le> uint (wba_storage_size v)"
proof (cases "wba_width v = 0 \<or> wba_height v = 0")
  case True
  then show ?thesis by (auto simp: geometry_valid_def)
next
  case False
  define w h s where "w = uint (wba_width v)" and "h = uint (wba_height v)" and "s = uint (wba_stride v)"
  have small: "0 < w" "w \<le> 4294967295" "0 < h" "h \<le> 4294967295" "0 \<le> s" "s \<le> 4294967295"
    using False uint_lt [of "wba_width v"] uint_lt [of "wba_height v"] uint_lt [of "wba_stride v"]
    by (auto simp: w_def h_def s_def word_neq_0_conv word_less_def)
  have row: "uint ((ucast (wba_width v) :: u64) * 4) = w * 4"
    using small by (simp add: uint_word_ariths uint_widen w_def [symmetric])
  have rows: "uint (ucast (wba_height v - 1) :: u64) = h - 1"
    using False by (simp add: uint_widen uint_pred h_def)
  have stride: "uint (ucast (wba_stride v) :: u64) = s" by (simp add: uint_widen s_def)
  have prod: "uint ((ucast (wba_height v - 1) :: u64) * ucast (wba_stride v)) = (h - 1) * s"
    using False by (simp add: uint_product uint_pred h_def s_def)
  have p: "0 \<le> (h - 1) * s" "(h - 1) * s \<le> 18446744060824649730"
    using small mult_mono [of "h - 1" 4294967294 s 4294967295] by simp_all
  have quarter: "wba_width v \<le> (- 1) div 4 \<longleftrightarrow> w \<le> 1073741823"
    by (simp add: word_le_def w_def uint_div unsigned_minus_1_eq_mask mask_eq_exp_minus_1)
  have diff: "uint (- 1 - (ucast (wba_width v) :: u64) * 4) = 18446744073709551615 - w * 4"
    using row small by (simp add: uint_minus_simple_alt [THEN iffD1] word_le_def unsigned_minus_1_eq_mask mask_eq_exp_minus_1)
  have required: "uint ((ucast (wba_height v - 1) :: u64) * ucast (wba_stride v) + ucast (wba_width v) * 4) = (h - 1) * s + w * 4"
    if "w * 4 \<le> s"
  proof -
    have "0 \<le> (h - 1) * s + w * 4" "(h - 1) * s + w * 4 < 2 ^ 64" using p small that by simp_all
    then show ?thesis by (simp add: uint_word_ariths(1) prod row mod_pos_pos_trivial)
  qed
  have fits: "(ucast (wba_height v - 1) :: u64) = 0 \<or>
      (ucast (wba_stride v) :: u64) \<le> (- 1 - ucast (wba_width v) * 4) div ucast (wba_height v - 1)" if "w * 4 \<le> s"
  proof (cases "h = 1")
    case True
    then show ?thesis using rows by (metis cancel_comm_monoid_add_class.diff_cancel uint_0_iff)
  next
    case False
    have "s = (h - 1) * s div (h - 1)" using False by simp
    also have "\<dots> \<le> (18446744073709551615 - w * 4) div (h - 1)"
      using small p that False by (intro zdiv_mono1) simp_all
    finally have "s \<le> (18446744073709551615 - w * 4) div (h - 1)" .
    then show ?thesis by (simp add: word_le_def uint_div rows stride diff)
  qed
  have "geometry_valid v \<longleftrightarrow> w \<le> 1073741823 \<and> w * 4 \<le> s \<and> wba_byte_offset v \<le> wba_storage_size v \<and>
      (h - 1) * s + w * 4 \<le> uint (wba_storage_size v - wba_byte_offset v)"
    using False fits required
    by (cases "w * 4 \<le> s") (simp_all add: geometry_valid_def Let_def quarter word_le_def row stride w_def [symmetric])
  also have "\<dots> \<longleftrightarrow> w * 4 \<le> s \<and> uint (wba_byte_offset v) + (h - 1) * s + w * 4 \<le> uint (wba_storage_size v)"
  proof (cases "wba_byte_offset v \<le> wba_storage_size v")
    case True
    then have "uint (wba_storage_size v - wba_byte_offset v) = uint (wba_storage_size v) - uint (wba_byte_offset v)"
      by (simp add: uint_minus_simple_alt [THEN iffD1] word_le_def)
    with True small show ?thesis by auto
  next
    case False
    then have "uint (wba_storage_size v) < uint (wba_byte_offset v)" by (simp add: word_le_def not_le)
    with p(1) small False show ?thesis by linarith
  qed
  finally show ?thesis using False by (simp add: w_def h_def s_def)
qed

end
