(* ===== verification/Wire_Properties.thy ===== *)
theory Wire_Properties
  imports Wire_Policy Wire_Compositor Out_Scale
begin

text \<open>
  What the wire format promises, over all messages: a decoder succeeds exactly on the encodings of the
  valid values, so every valid value survives the wire and has one form only. Beyond the form, an
  accepted buffer lies in its storage, and the wire and the output library agree on scales.
\<close>

text \<open>
  C20. Each message between the display server and the window manager is decoded exactly from the bytes
  its encoder writes for a valid value: contexts, windows with and without their lifecycle, removals,
  commits, window states, acknowledgements, key bindings and policies of surfaces.
\<close>

theorem policy_messages_canonical:
  "(decode_policy_context_upsert b = Inr context \<longleftrightarrow>
      valid_policy_context_upsert context \<and> b = encode_policy_context_upsert context) \<and>
   (decode_policy_window_upsert b = Inr window \<longleftrightarrow>
      valid_policy_window_upsert window \<and> b = encode_policy_window_upsert window) \<and>
   (decode_policy_lifecycle_window_upsert b = Inr lifecycle \<longleftrightarrow>
      valid_policy_lifecycle_window_upsert lifecycle \<and> b = encode_policy_lifecycle_window_upsert lifecycle) \<and>
   (decode_policy_window_remove b = Inr removed \<longleftrightarrow>
      valid_policy_window_remove removed \<and> b = encode_policy_window_remove removed) \<and>
   (decode_policy_commit b = Inr committed \<longleftrightarrow> valid_policy_commit committed \<and> b = encode_policy_commit committed) \<and>
   (decode_wire_window_state b = Inr state \<longleftrightarrow>
      valid_wire_window_state state \<and> b = encode_wire_window_state state) \<and>
   (decode_policy_acknowledged b = Inr acknowledged \<longleftrightarrow>
      valid_policy_acknowledged acknowledged \<and> b = encode_policy_acknowledged acknowledged) \<and>
   (decode_policy_bindings_upsert b = Inr bindings \<longleftrightarrow>
      valid_policy_bindings_upsert bindings \<and> b = encode_policy_bindings_upsert bindings) \<and>
   (decode_surface_policy b = Inr policy \<longleftrightarrow> valid_surface_policy policy \<and> b = encode_surface_policy policy)"
  by (intro conjI pcx.decode_iff pwu.decode_iff plw.decode_iff pwr.decode_iff pco.decode_iff pws.decode_iff
      pak.decode_iff pbu.decode_iff sfp.decode_iff)

text \<open>
  C21. Each message between the display server and the compositor is decoded exactly from the bytes its
  encoder writes for a value that passes the checks, the colour metadata included: outputs, surfaces,
  buffers, damage and frames.
\<close>

theorem compositor_messages_canonical:
  "(decode_wire_output_upsert b = Inr upsert \<longleftrightarrow>
      (valid_wire_output_upsert upsert \<and> valid_color (wou_color upsert)) \<and> b = encode_wire_output_upsert upsert) \<and>
   (decode_wire_output_remove b = Inr gone \<longleftrightarrow> valid_wire_output_remove gone \<and> b = encode_wire_output_remove gone) \<and>
   (decode_wire_surface_upsert b = Inr surface \<longleftrightarrow>
      (valid_wire_surface_upsert surface \<and> valid_color (wsu_color surface)) \<and> b = encode_wire_surface_upsert surface) \<and>
   (decode_wire_surface_remove b = Inr removed \<longleftrightarrow>
      valid_wire_surface_remove removed \<and> b = encode_wire_surface_remove removed) \<and>
   (decode_buffer_attach b = Inr buffer \<longleftrightarrow>
      (valid_buffer_attach buffer \<and> valid_color (wba_color buffer)) \<and> b = encode_buffer_attach buffer) \<and>
   (decode_buffer_detach b = Inr detached \<longleftrightarrow> valid_buffer_detach detached \<and> b = encode_buffer_detach detached) \<and>
   (decode_buffer_release b = Inr released \<longleftrightarrow> valid_buffer_release released \<and> b = encode_buffer_release released) \<and>
   (decode_wire_surface_damage b = Inr damage \<longleftrightarrow>
      valid_wire_surface_damage damage \<and> b = encode_wire_surface_damage damage) \<and>
   (decode_wire_frame_commit b = Inr frame \<longleftrightarrow> valid_wire_frame_commit frame \<and> b = encode_wire_frame_commit frame) \<and>
   (decode_wire_frame_acknowledged b = Inr shown \<longleftrightarrow>
      valid_wire_frame_acknowledged shown \<and> b = encode_wire_frame_acknowledged shown)"
  by (intro conjI wou.decode_iff wor.decode_iff wsu.decode_iff wsr.decode_iff wba.decode_iff wbd.decode_iff
      wbr.decode_iff wsd.decode_iff wfc.decode_iff wfa.decode_iff)

text \<open>
  Each message about outputs is decoded exactly from the bytes its encoder writes for a valid value:
  modes, descriptions with their names, the outputs of a surface, the outputs and hints of the window
  policy, queries, configuration requests and their acknowledgements.
\<close>

lemma output_messages_canonical:
  "(decode_wire_output_mode b = Inr mode \<longleftrightarrow> valid_wire_output_mode mode \<and> b = encode_wire_output_mode mode) \<and>
   (decode_wire_output_descriptor b = Inr descriptor \<longleftrightarrow>
      valid_output_descriptor descriptor \<and> b = encode_wire_output_descriptor descriptor) \<and>
   (decode_wire_surface_output_state b = Inr surface \<longleftrightarrow>
      valid_surface_state surface \<and> b = encode_wire_surface_output_state surface) \<and>
   (decode_policy_output b = Inr policy \<longleftrightarrow> valid_policy_output policy \<and> b = encode_policy_output policy) \<and>
   (decode_policy_output_hint b = Inr hint \<longleftrightarrow> valid_policy_output_hint hint \<and> b = encode_policy_output_hint hint) \<and>
   (decode_output_state_query b = Inr query \<longleftrightarrow> valid_output_state_query query \<and> b = encode_output_state_query query) \<and>
   (decode_output_configuration_commit b = Inr configuration \<longleftrightarrow>
      valid_output_configuration_commit configuration \<and> b = encode_output_configuration_commit configuration) \<and>
   (decode_output_configuration_acknowledged b = Inr acknowledged \<longleftrightarrow>
      valid_output_configuration_acknowledged acknowledged \<and> b = encode_output_configuration_acknowledged acknowledged)"
  by (intro conjI wom.decode_iff wod.decode_iff wso.decode_iff wpo.decode_iff wph.decode_iff woq.decode_iff
      wcc.decode_iff wca.decode_iff)

text \<open>
  Each message that establishes and steers a connection is decoded exactly from the bytes its encoder
  writes for a value that passes the checks: the handshake, pings, snapshot brackets, protocol errors,
  session states and synthetic input.
\<close>

lemma control_messages_canonical:
  "(decode_hello b = Inr hello \<longleftrightarrow> valid_hello hello \<and> b = encode_hello hello) \<and>
   (decode_welcome_message b = Inr reply \<longleftrightarrow> valid_welcome_message reply \<and> b = encode_welcome_message reply) \<and>
   (decode_reject b = Inr refusal \<longleftrightarrow> \<not> invalid_reject refusal \<and> b = encode_reject refusal) \<and>
   (decode_ping b = Inr ping \<longleftrightarrow> valid_ping ping \<and> b = encode_ping ping) \<and>
   (decode_protocol_error b = Inr failure \<longleftrightarrow> \<not> invalid_protocol_error failure \<and> b = encode_protocol_error failure) \<and>
   (decode_snapshot_begin b = Inr first \<longleftrightarrow> valid_snapshot_begin first \<and> b = encode_snapshot_begin first) \<and>
   (decode_snapshot_end b = Inr ending \<longleftrightarrow> valid_snapshot_end ending \<and> b = encode_snapshot_end ending) \<and>
   (decode_snapshot_abort b = Inr aborted \<longleftrightarrow> \<not> invalid_snapshot_abort aborted \<and> b = encode_snapshot_abort aborted) \<and>
   (decode_session_state_change b = Inr change \<longleftrightarrow>
      valid_session_state_change change \<and> b = encode_session_state_change change) \<and>
   (decode_session_state_acknowledged b = Inr changed \<longleftrightarrow>
      valid_session_state_acknowledged changed \<and> b = encode_session_state_acknowledged changed) \<and>
   (decode_synthetic_motion b = Inr motion \<longleftrightarrow> valid_synthetic_motion motion \<and> b = encode_synthetic_motion motion) \<and>
   (decode_synthetic_button b = Inr button \<longleftrightarrow> valid_synthetic_button button \<and> b = encode_synthetic_button button) \<and>
   (decode_synthetic_key b = Inr key \<longleftrightarrow> valid_synthetic_key key \<and> b = encode_synthetic_key key) \<and>
   (decode_synthetic_barrier b = Inr barrier \<longleftrightarrow> valid_synthetic_barrier barrier \<and> b = encode_synthetic_barrier barrier) \<and>
   (decode_synthetic_input_acknowledged b = Inr acknowledged \<longleftrightarrow>
      valid_synthetic_input_acknowledged acknowledged \<and> b = encode_synthetic_input_acknowledged acknowledged)"
  by (intro conjI he.decode_iff we.decode_iff re.decode_iff pi.decode_iff pe.decode_iff sb.decode_iff se.decode_iff
      sab.decode_iff sc.decode_iff sa.decode_iff syn_motion.decode_iff syn_button.decode_iff syn_key.decode_iff
      syn_barrier.decode_iff syn_ack.decode_iff)

text \<open>
  A record is accepted exactly when it is the encoding of its envelope followed by a payload that the
  envelope describes: the announced payload and descriptor counts are the actual ones and within the
  limits of the receiver, the sequence is not zero and the flags are consistent.
\<close>

lemma envelope_exact:
  "decode_envelope record fds maximum_payload = Inr v \<longleftrightarrow>
     (\<exists>payload. record = encode_envelope v @ payload \<and> valid_envelope payload fds maximum_payload v)"
  by (rule decode_envelope_iff)

text \<open>
  C22. Every byte of every pixel of an accepted buffer is inside its storage: the byte at a row below the
  height and a column below four times the width is at an offset below the storage size, in unbounded
  arithmetic, although the check computes in 64 bits.
\<close>

theorem buffer_pixels_in_storage:
  assumes "decode_buffer_attach b = Inr v" "0 \<le> row" "row < uint (wba_height v)" "column < 4 * uint (wba_width v)"
  shows "uint (wba_byte_offset v) + row * uint (wba_stride v) + column < uint (wba_storage_size v)"
proof -
  have g: "uint (wba_byte_offset v) + (uint (wba_height v) - 1) * uint (wba_stride v) + uint (wba_width v) * 4
      \<le> uint (wba_storage_size v)"
    using assms(1) unfolding wba.decode_iff valid_buffer_attach_def geometry_valid_iff by blast
  have "row * uint (wba_stride v) \<le> (uint (wba_height v) - 1) * uint (wba_stride v)"
    using assms(3) by (intro mult_right_mono) simp_all
  with g assms(4) show ?thesis by linarith
qed

definition example_buffer :: buffer_attach where
  "example_buffer = \<lparr>wba_buffer_id = 1, wba_surface_id = 2, wba_width = 2, wba_height = 3, wba_stride = 8,
     wba_byte_offset = 4, wba_storage_size = 28, wba_pixel_format = 1, wba_alpha_semantics = 1, wba_modifier = 0,
     wba_color = no_color, wba_synchronization = 0, wba_flags = 0\<rparr>"

lemma example_buffer_accepted: "decode_buffer_attach (encode_buffer_attach example_buffer) = Inr example_buffer"
  unfolding wba.decode_iff
  by (simp add: example_buffer_def valid_buffer_attach_def geometry_valid_def format_valid_def valid_color_def no_color_def)

theorem buffer_pixels_in_storage_witness: "uint (wba_byte_offset example_buffer) + 2 * uint (wba_stride example_buffer) + 7 < 28"
  using buffer_pixels_in_storage [OF example_buffer_accepted, of 2 7] by (simp add: example_buffer_def)

text \<open>
  The wire format and the output library accept the same scales, although each has a check of its own:
  a reduced fraction between one and four whose denominator is at most the limit.
\<close>

lemma wire_scale_agrees:
  "valid_scale_wire numerator denominator kMaximumScaleDenominator_wire \<longleftrightarrow>
   valid_output_scale \<lparr>sc_numerator = numerator, sc_denominator = denominator\<rparr> kMaximumScaleDenominator_wire"
proof (cases "numerator = 0 \<or> denominator = 0")
  case True
  then show ?thesis by (auto simp: valid_scale_wire_def reduced_scale_def valid_output_scale_def is_reduced_def)
next
  case False
  have "gcd_u32 numerator denominator = 1 \<longleftrightarrow> unat (gcd_u32 numerator denominator) = unat (1 :: u32)"
    by (rule word_unat_eq_iff)
  then have "gcd_u32 numerator denominator = 1 \<longleftrightarrow> gcd (unat numerator) (unat denominator) = 1"
    using False by (simp add: gcd_u32_value)
  with False show ?thesis
    by (auto simp: valid_scale_wire_def reduced_scale_def valid_output_scale_def is_reduced_def scale_in_range_def
        compare_scale_def compare_scales_def kMaximumScaleDenominator_wire_def Out_Types.kMaximumScaleDenominator_def)
qed

end
