(* ===== verification/Ipc_Types.thy ===== *)
theory Ipc_Types
  imports Wire_Policy Wire_Output Wire_Compositor "HOL-Library.Finite_Map"
begin

text \<open>
  The data of the connection library: message types, flags, capabilities and roles
  (\<open>include/glasswyrm/ipc/types.h\<close>), configurations, snapshots and the connection itself
  (\<open>ipc/internal.hpp\<close>).

  \<^item> An enumeration of the C interface whose values cross the wire is the word it is sent as; the status and
    the state of a connection, which do not, are datatypes.
  \<^item> \<open>std::unordered_map\<close> and \<open>std::unordered_set\<close> are finite maps and sets: the code never iterates over them.
  \<^item> Sizes of objects in memory (\<open>size_t\<close>) are natural numbers, a descriptor is its number.
  \<^item> What the kernel answers about a descriptor is a parameter: the record \<open>kernel\<close>.
  \<^item> Running out of memory is not modelled.
\<close>

section \<open>Constants of the interface\<close>

named_theorems ipc \<open>constants of the connection library\<close>

definition GWIPC_CAP_FD_PASSING :: u64 where
  [ipc]: "GWIPC_CAP_FD_PASSING = 0x1"

definition GWIPC_CAP_SNAPSHOTS :: u64 where
  [ipc]: "GWIPC_CAP_SNAPSHOTS = 0x2"

definition GWIPC_CAP_OUTPUT_STATE :: u64 where
  [ipc]: "GWIPC_CAP_OUTPUT_STATE = 0x4"

definition GWIPC_CAP_SURFACE_STATE :: u64 where
  [ipc]: "GWIPC_CAP_SURFACE_STATE = 0x8"

definition GWIPC_CAP_MEMFD_BUFFERS :: u64 where
  [ipc]: "GWIPC_CAP_MEMFD_BUFFERS = 0x10"

definition GWIPC_CAP_DAMAGE_REGIONS :: u64 where
  [ipc]: "GWIPC_CAP_DAMAGE_REGIONS = 0x20"

definition GWIPC_CAP_SCALE_METADATA :: u64 where
  [ipc]: "GWIPC_CAP_SCALE_METADATA = 0x40"

definition GWIPC_CAP_SDR_COLOR_METADATA :: u64 where
  [ipc]: "GWIPC_CAP_SDR_COLOR_METADATA = 0x80"

definition GWIPC_CAP_FRAME_ACKNOWLEDGEMENT :: u64 where
  [ipc]: "GWIPC_CAP_FRAME_ACKNOWLEDGEMENT = 0x100"

definition GWIPC_CAP_TRACE_METADATA :: u64 where
  [ipc]: "GWIPC_CAP_TRACE_METADATA = 0x200"

definition GWIPC_CAP_WINDOW_POLICY :: u64 where
  [ipc]: "GWIPC_CAP_WINDOW_POLICY = 0x400"

definition GWIPC_CAP_WINDOW_LIFECYCLE :: u64 where
  [ipc]: "GWIPC_CAP_WINDOW_LIFECYCLE = 0x800"

definition GWIPC_CAP_SYNTHETIC_INPUT :: u64 where
  [ipc]: "GWIPC_CAP_SYNTHETIC_INPUT = 0x1000"

definition GWIPC_CAP_SESSION_STATE :: u64 where
  [ipc]: "GWIPC_CAP_SESSION_STATE = 0x2000"

definition GWIPC_CAP_INTERACTIVE_POLICY :: u64 where
  [ipc]: "GWIPC_CAP_INTERACTIVE_POLICY = 0x4000"

definition GWIPC_CAP_CURSOR_SURFACE :: u64 where
  [ipc]: "GWIPC_CAP_CURSOR_SURFACE = 0x8000"

definition GWIPC_CAP_CPU_BUFFER_SYNCHRONIZATION :: u64 where
  [ipc]: "GWIPC_CAP_CPU_BUFFER_SYNCHRONIZATION = 0x10000"

definition GWIPC_CAP_OUTPUT_MANAGEMENT :: u64 where
  [ipc]: "GWIPC_CAP_OUTPUT_MANAGEMENT = 0x20000"

definition GWIPC_CAP_MULTI_OUTPUT_POLICY :: u64 where
  [ipc]: "GWIPC_CAP_MULTI_OUTPUT_POLICY = 0x40000"

definition GWIPC_CAP_SURFACE_OUTPUT_MEMBERSHIP :: u64 where
  [ipc]: "GWIPC_CAP_SURFACE_OUTPUT_MEMBERSHIP = 0x80000"

definition GWIPC_CAP_SCALE_AWARE_SURFACES :: u64 where
  [ipc]: "GWIPC_CAP_SCALE_AWARE_SURFACES = 0x100000"

definition GWIPC_CAP_OUTPUT_CONTROL :: u64 where
  [ipc]: "GWIPC_CAP_OUTPUT_CONTROL = 0x200000"

definition GWIPC_MESSAGE_HELLO :: u16 where
  [ipc]: "GWIPC_MESSAGE_HELLO = 0x0001"

definition GWIPC_MESSAGE_WELCOME :: u16 where
  [ipc]: "GWIPC_MESSAGE_WELCOME = 0x0002"

definition GWIPC_MESSAGE_REJECT :: u16 where
  [ipc]: "GWIPC_MESSAGE_REJECT = 0x0003"

definition GWIPC_MESSAGE_PING :: u16 where
  [ipc]: "GWIPC_MESSAGE_PING = 0x0004"

definition GWIPC_MESSAGE_PONG :: u16 where
  [ipc]: "GWIPC_MESSAGE_PONG = 0x0005"

definition GWIPC_MESSAGE_PROTOCOL_ERROR :: u16 where
  [ipc]: "GWIPC_MESSAGE_PROTOCOL_ERROR = 0x0006"

definition GWIPC_MESSAGE_SNAPSHOT_BEGIN :: u16 where
  [ipc]: "GWIPC_MESSAGE_SNAPSHOT_BEGIN = 0x0010"

definition GWIPC_MESSAGE_SNAPSHOT_END :: u16 where
  [ipc]: "GWIPC_MESSAGE_SNAPSHOT_END = 0x0011"

definition GWIPC_MESSAGE_SNAPSHOT_ABORT :: u16 where
  [ipc]: "GWIPC_MESSAGE_SNAPSHOT_ABORT = 0x0012"

definition GWIPC_MESSAGE_OUTPUT_UPSERT :: u16 where
  [ipc]: "GWIPC_MESSAGE_OUTPUT_UPSERT = 0x0100"

definition GWIPC_MESSAGE_OUTPUT_REMOVE :: u16 where
  [ipc]: "GWIPC_MESSAGE_OUTPUT_REMOVE = 0x0101"

definition GWIPC_MESSAGE_OUTPUT_DESCRIPTOR_UPSERT :: u16 where
  [ipc]: "GWIPC_MESSAGE_OUTPUT_DESCRIPTOR_UPSERT = 0x0102"

definition GWIPC_MESSAGE_OUTPUT_MODE_UPSERT :: u16 where
  [ipc]: "GWIPC_MESSAGE_OUTPUT_MODE_UPSERT = 0x0103"

definition GWIPC_MESSAGE_SURFACE_UPSERT :: u16 where
  [ipc]: "GWIPC_MESSAGE_SURFACE_UPSERT = 0x0110"

definition GWIPC_MESSAGE_SURFACE_REMOVE :: u16 where
  [ipc]: "GWIPC_MESSAGE_SURFACE_REMOVE = 0x0111"

definition GWIPC_MESSAGE_SURFACE_POLICY_UPSERT :: u16 where
  [ipc]: "GWIPC_MESSAGE_SURFACE_POLICY_UPSERT = 0x0112"

definition GWIPC_MESSAGE_SURFACE_OUTPUT_STATE :: u16 where
  [ipc]: "GWIPC_MESSAGE_SURFACE_OUTPUT_STATE = 0x0113"

definition GWIPC_MESSAGE_BUFFER_ATTACH :: u16 where
  [ipc]: "GWIPC_MESSAGE_BUFFER_ATTACH = 0x0120"

definition GWIPC_MESSAGE_BUFFER_DETACH :: u16 where
  [ipc]: "GWIPC_MESSAGE_BUFFER_DETACH = 0x0121"

definition GWIPC_MESSAGE_BUFFER_RELEASE :: u16 where
  [ipc]: "GWIPC_MESSAGE_BUFFER_RELEASE = 0x0122"

definition GWIPC_MESSAGE_SURFACE_DAMAGE :: u16 where
  [ipc]: "GWIPC_MESSAGE_SURFACE_DAMAGE = 0x0130"

definition GWIPC_MESSAGE_FRAME_COMMIT :: u16 where
  [ipc]: "GWIPC_MESSAGE_FRAME_COMMIT = 0x0140"

definition GWIPC_MESSAGE_FRAME_ACKNOWLEDGED :: u16 where
  [ipc]: "GWIPC_MESSAGE_FRAME_ACKNOWLEDGED = 0x0141"

definition GWIPC_MESSAGE_POLICY_CONTEXT_UPSERT :: u16 where
  [ipc]: "GWIPC_MESSAGE_POLICY_CONTEXT_UPSERT = 0x0200"

definition GWIPC_MESSAGE_POLICY_WINDOW_UPSERT :: u16 where
  [ipc]: "GWIPC_MESSAGE_POLICY_WINDOW_UPSERT = 0x0201"

definition GWIPC_MESSAGE_POLICY_WINDOW_REMOVE :: u16 where
  [ipc]: "GWIPC_MESSAGE_POLICY_WINDOW_REMOVE = 0x0202"

definition GWIPC_MESSAGE_POLICY_LIFECYCLE_WINDOW_UPSERT :: u16 where
  [ipc]: "GWIPC_MESSAGE_POLICY_LIFECYCLE_WINDOW_UPSERT = 0x0203"

definition GWIPC_MESSAGE_POLICY_OUTPUT_UPSERT :: u16 where
  [ipc]: "GWIPC_MESSAGE_POLICY_OUTPUT_UPSERT = 0x0204"

definition GWIPC_MESSAGE_POLICY_WINDOW_OUTPUT_HINT :: u16 where
  [ipc]: "GWIPC_MESSAGE_POLICY_WINDOW_OUTPUT_HINT = 0x0205"

definition GWIPC_MESSAGE_POLICY_COMMIT :: u16 where
  [ipc]: "GWIPC_MESSAGE_POLICY_COMMIT = 0x0210"

definition GWIPC_MESSAGE_POLICY_WINDOW_STATE :: u16 where
  [ipc]: "GWIPC_MESSAGE_POLICY_WINDOW_STATE = 0x0211"

definition GWIPC_MESSAGE_POLICY_ACKNOWLEDGED :: u16 where
  [ipc]: "GWIPC_MESSAGE_POLICY_ACKNOWLEDGED = 0x0212"

definition GWIPC_MESSAGE_POLICY_BINDINGS_UPSERT :: u16 where
  [ipc]: "GWIPC_MESSAGE_POLICY_BINDINGS_UPSERT = 0x0213"

definition GWIPC_MESSAGE_SYNTHETIC_MOTION :: u16 where
  [ipc]: "GWIPC_MESSAGE_SYNTHETIC_MOTION = 0x0300"

definition GWIPC_MESSAGE_SYNTHETIC_BUTTON :: u16 where
  [ipc]: "GWIPC_MESSAGE_SYNTHETIC_BUTTON = 0x0301"

definition GWIPC_MESSAGE_SYNTHETIC_KEY :: u16 where
  [ipc]: "GWIPC_MESSAGE_SYNTHETIC_KEY = 0x0302"

definition GWIPC_MESSAGE_SYNTHETIC_BARRIER :: u16 where
  [ipc]: "GWIPC_MESSAGE_SYNTHETIC_BARRIER = 0x0303"

definition GWIPC_MESSAGE_SYNTHETIC_INPUT_ACKNOWLEDGED :: u16 where
  [ipc]: "GWIPC_MESSAGE_SYNTHETIC_INPUT_ACKNOWLEDGED = 0x0310"

definition GWIPC_MESSAGE_SESSION_STATE_CHANGE :: u16 where
  [ipc]: "GWIPC_MESSAGE_SESSION_STATE_CHANGE = 0x0400"

definition GWIPC_MESSAGE_SESSION_STATE_ACKNOWLEDGED :: u16 where
  [ipc]: "GWIPC_MESSAGE_SESSION_STATE_ACKNOWLEDGED = 0x0401"

definition GWIPC_MESSAGE_OUTPUT_STATE_QUERY :: u16 where
  [ipc]: "GWIPC_MESSAGE_OUTPUT_STATE_QUERY = 0x0500"

definition GWIPC_MESSAGE_OUTPUT_CONFIGURATION_COMMIT :: u16 where
  [ipc]: "GWIPC_MESSAGE_OUTPUT_CONFIGURATION_COMMIT = 0x0501"

definition GWIPC_MESSAGE_OUTPUT_CONFIGURATION_ACKNOWLEDGED :: u16 where
  [ipc]: "GWIPC_MESSAGE_OUTPUT_CONFIGURATION_ACKNOWLEDGED = 0x0502"

definition GWIPC_FLAG_REPLY :: u32 where
  [ipc]: "GWIPC_FLAG_REPLY = 0x1"

definition GWIPC_FLAG_ERROR :: u32 where
  [ipc]: "GWIPC_FLAG_ERROR = 0x2"

definition GWIPC_FLAG_ACK_REQUIRED :: u32 where
  [ipc]: "GWIPC_FLAG_ACK_REQUIRED = 0x4"

definition GWIPC_FLAG_SNAPSHOT_ITEM :: u32 where
  [ipc]: "GWIPC_FLAG_SNAPSHOT_ITEM = 0x8"

definition GWIPC_FLAG_CRITICAL :: u32 where
  [ipc]: "GWIPC_FLAG_CRITICAL = 0x10"

definition GWIPC_ROLE_UNKNOWN :: u32 where
  [ipc]: "GWIPC_ROLE_UNKNOWN = 0"

definition GWIPC_ROLE_PROTOCOL_SERVER :: u32 where
  [ipc]: "GWIPC_ROLE_PROTOCOL_SERVER = 1"

definition GWIPC_ROLE_WINDOW_MANAGER :: u32 where
  [ipc]: "GWIPC_ROLE_WINDOW_MANAGER = 2"

definition GWIPC_ROLE_COMPOSITOR :: u32 where
  [ipc]: "GWIPC_ROLE_COMPOSITOR = 3"

definition GWIPC_ROLE_TEST_PRODUCER :: u32 where
  [ipc]: "GWIPC_ROLE_TEST_PRODUCER = 4"

definition GWIPC_ROLE_TEST_CONSUMER :: u32 where
  [ipc]: "GWIPC_ROLE_TEST_CONSUMER = 5"

definition GWIPC_ROLE_DIAGNOSTIC_TOOL :: u32 where
  [ipc]: "GWIPC_ROLE_DIAGNOSTIC_TOOL = 6"

definition GWIPC_DEFAULT_MAXIMUM_PAYLOAD :: u32 where
  [ipc]: "GWIPC_DEFAULT_MAXIMUM_PAYLOAD = 65536"

definition GWIPC_DEFAULT_MAXIMUM_QUEUED_BYTES :: u32 where
  [ipc]: "GWIPC_DEFAULT_MAXIMUM_QUEUED_BYTES = 1048576"

definition GWIPC_HARD_MAXIMUM_PAYLOAD :: u32 where
  [ipc]: "GWIPC_HARD_MAXIMUM_PAYLOAD = 1048576"

definition GWIPC_HARD_MAXIMUM_QUEUED_BYTES :: u32 where
  [ipc]: "GWIPC_HARD_MAXIMUM_QUEUED_BYTES = 16777216"

definition GWIPC_SURFACE_PRESENTATION_METADATA_ONLY :: u32 where
  [ipc]: "GWIPC_SURFACE_PRESENTATION_METADATA_ONLY = 1"

definition GWIPC_SURFACE_PRESENTATION_CURSOR :: u32 where
  [ipc]: "GWIPC_SURFACE_PRESENTATION_CURSOR = 2"

definition GWIPC_DEFAULT_MAXIMUM_FDS :: u16 where
  [ipc]: "GWIPC_DEFAULT_MAXIMUM_FDS = 4"

definition GWIPC_DEFAULT_MAXIMUM_QUEUED_MESSAGES :: u16 where
  [ipc]: "GWIPC_DEFAULT_MAXIMUM_QUEUED_MESSAGES = 256"

definition GWIPC_HARD_MAXIMUM_FDS :: u16 where
  [ipc]: "GWIPC_HARD_MAXIMUM_FDS = 16"

text \<open>The domains of a snapshot, the synchronization of a buffer, the codes of a protocol error and the reasons of a rejection.\<close>

definition domain_outputs :: u16 where
  [ipc]: "domain_outputs = 1"

definition domain_window_policy :: u16 where
  [ipc]: "domain_window_policy = 3"

definition domain_complete_session :: u16 where
  [ipc]: "domain_complete_session = 4"

definition synchronization_event_fd :: u16 where
  [ipc]: "synchronization_event_fd = 1"

definition PE_MalformedEnvelope :: u16 where
  [ipc]: "PE_MalformedEnvelope = 1"

definition PE_MalformedPayload :: u16 where
  [ipc]: "PE_MalformedPayload = 2"

definition PE_UnsupportedMessage :: u16 where
  [ipc]: "PE_UnsupportedMessage = 3"

definition PE_MissingCapability :: u16 where
  [ipc]: "PE_MissingCapability = 4"

definition PE_InvalidDescriptorCount :: u16 where
  [ipc]: "PE_InvalidDescriptorCount = 5"

definition PE_InvalidDescriptor :: u16 where
  [ipc]: "PE_InvalidDescriptor = 6"

definition PE_OutOfOrderSequence :: u16 where
  [ipc]: "PE_OutOfOrderSequence = 7"

definition PE_UnexpectedReply :: u16 where
  [ipc]: "PE_UnexpectedReply = 8"

definition PE_SnapshotViolation :: u16 where
  [ipc]: "PE_SnapshotViolation = 9"

definition PE_LimitExceeded :: u16 where
  [ipc]: "PE_LimitExceeded = 10"

definition PE_InternalError :: u16 where
  [ipc]: "PE_InternalError = 11"

definition RR_IncompatibleVersion :: u16 where
  [ipc]: "RR_IncompatibleVersion = 1"

definition RR_RoleNotAllowed :: u16 where
  [ipc]: "RR_RoleNotAllowed = 2"

definition RR_CapabilityMismatch :: u16 where
  [ipc]: "RR_CapabilityMismatch = 3"

definition RR_CredentialRejected :: u16 where
  [ipc]: "RR_CredentialRejected = 4"

definition RR_InvalidHello :: u16 where
  [ipc]: "RR_InvalidHello = 5"

definition RR_ServerBusy :: u16 where
  [ipc]: "RR_ServerBusy = 6"

definition RR_InternalError :: u16 where
  [ipc]: "RR_InternalError = 7"

definition kWireMajor :: u16 where
  [ipc]: "kWireMajor = 1"

definition kWireMinor :: u16 where
  [ipc]: "kWireMinor = 0"

text \<open>The set of peer roles a configuration accepts is a word of role bits.\<close>

definition GWIPC_ROLE_BIT :: "u32 \<Rightarrow> u64" where
  "GWIPC_ROLE_BIT role = push_bit (unat role) 1"

section \<open>Connections\<close>

datatype gwipc_status =
  ST_OK | ST_WOULD_BLOCK | ST_IN_PROGRESS | ST_DISCONNECTED | ST_INVALID_ARGUMENT | ST_INVALID_STATE |
  ST_OUT_OF_MEMORY | ST_LIMIT_EXCEEDED | ST_PROTOCOL_ERROR | ST_CREDENTIAL_REJECTED | ST_VERSION_MISMATCH |
  ST_ROLE_REJECTED | ST_CAPABILITY_MISMATCH | ST_SYSTEM_ERROR

datatype connection_state =
  CS_CONNECTING | CS_AWAITING_HELLO | CS_AWAITING_WELCOME | CS_ESTABLISHED | CS_REJECTING | CS_CLOSING | CS_CLOSED

datatype direction = Incoming | Outgoing

record config =
  cf_path :: "u8 list"
  cf_local_role :: u32
  cf_peer_roles :: u64
  cf_offered_capabilities :: u64
  cf_required_peer_capabilities :: u64
  cf_maximum_payload :: u32
  cf_maximum_fd_count :: u16
  cf_maximum_queued_bytes :: u32
  cf_maximum_queued_messages :: u16
  cf_label :: "u8 list"
  cf_instance_id :: "u8 list"
  cf_require_same_uid :: bool

record peer_info =
  peer_pid :: i32
  peer_uid :: u32
  peer_gid :: u32
  peer_role :: u32
  peer_wire_version :: "u16 \<times> u16"
  peer_capabilities :: u64
  peer_maximum_payload :: u32
  peer_maximum_fd_count :: u16
  peer_connection_id :: u64

record snapshot_state =
  ss_active :: bool
  ss_snapshot_id :: u64
  ss_generation :: u64
  ss_expected_count :: u32
  ss_item_count :: u32
  ss_domain :: u16
  ss_policy_bindings_count :: u16

definition no_snapshot :: snapshot_state where
  "no_snapshot = \<lparr>ss_active = False, ss_snapshot_id = 0, ss_generation = 0, ss_expected_count = 0,
     ss_item_count = 0, ss_domain = 0, ss_policy_bindings_count = 0\<rparr>"

record session_correlation =
  sco_generation :: u64
  sco_state :: u16

record output_correlation =
  oco_request_id :: u64
  oco_request_type :: u16

record queued_record =
  qr_bytes :: "u8 list"
  qr_fds :: "int list"
  qr_sequence :: u64

record ipc_message =
  me_type :: u16
  me_flags :: u32
  me_sequence :: u64
  me_reply_to :: u64
  me_payload :: "u8 list"
  me_fds :: "int list"

record connection =
  c_fd :: int
  c_system_errno :: int
  c_state :: connection_state
  c_server_side :: bool
  c_peer_credentials_read :: bool
  c_close_after_flush :: bool
  c_snapshot_aborted :: bool
  c_config :: config
  c_peer :: peer_info
  c_assigned_connection_id :: u64
  c_next_send_sequence :: u64
  c_next_receive_sequence :: u64
  c_queued_bytes :: nat
  c_outgoing :: "queued_record list"
  c_incoming :: "ipc_message list"
  c_pending_replies :: "u64 fset"
  c_pending_ping_nonces :: "(u64, u64) fmap"
  c_pending_frame_commits :: "(u64, u64) fmap"
  c_incoming_frame_commits :: "(u64, u64) fmap"
  c_pending_policy_commits :: "(u64, u64) fmap"
  c_incoming_policy_commits :: "(u64, u64) fmap"
  c_pending_synthetic_inputs :: "(u64, u64) fmap"
  c_incoming_synthetic_inputs :: "(u64, u64) fmap"
  c_pending_session_states :: "(u64, session_correlation) fmap"
  c_incoming_session_states :: "(u64, session_correlation) fmap"
  c_pending_output_requests :: "(u64, output_correlation) fmap"
  c_incoming_output_requests :: "(u64, output_correlation) fmap"
  c_last_outgoing_session_generation :: u64
  c_last_incoming_session_generation :: u64
  c_outgoing_snapshot :: snapshot_state
  c_incoming_snapshot :: snapshot_state

definition no_peer :: peer_info where
  "no_peer = \<lparr>peer_pid = 0, peer_uid = 0, peer_gid = 0, peer_role = GWIPC_ROLE_UNKNOWN, peer_wire_version = (0, 0),
     peer_capabilities = 0, peer_maximum_payload = 0, peer_maximum_fd_count = 0, peer_connection_id = 0\<rparr>"

text \<open>A connection as the constructor leaves it, with its configuration.\<close>

definition new_connection :: "config \<Rightarrow> connection" where
  "new_connection cfg = \<lparr>c_fd = -1, c_system_errno = 0, c_state = CS_CLOSED, c_server_side = False,
     c_peer_credentials_read = False, c_close_after_flush = False, c_snapshot_aborted = False, c_config = cfg,
     c_peer = no_peer, c_assigned_connection_id = 0, c_next_send_sequence = 1, c_next_receive_sequence = 1,
     c_queued_bytes = 0, c_outgoing = [], c_incoming = [], c_pending_replies = {||},
     c_pending_ping_nonces = fmempty, c_pending_frame_commits = fmempty, c_incoming_frame_commits = fmempty,
     c_pending_policy_commits = fmempty, c_incoming_policy_commits = fmempty,
     c_pending_synthetic_inputs = fmempty, c_incoming_synthetic_inputs = fmempty,
     c_pending_session_states = fmempty, c_incoming_session_states = fmempty,
     c_pending_output_requests = fmempty, c_incoming_output_requests = fmempty,
     c_last_outgoing_session_generation = 0, c_last_incoming_session_generation = 0,
     c_outgoing_snapshot = no_snapshot, c_incoming_snapshot = no_snapshot\<rparr>"

text \<open>
  The answers of the kernel: the status and descriptor flags of a descriptor (\<open>fcntl\<close>), whether it is a
  regular file and its size (\<open>fstat\<close>), the target of its link in \<open>/proc/self/fd\<close> and the duplicate of a
  descriptor after others were duplicated, or the error number.
\<close>

record kernel =
  k_status_flags :: "int \<Rightarrow> i32"
  k_descriptor_flags :: "int \<Rightarrow> i32"
  k_stat :: "int \<Rightarrow> (bool \<times> int) option"
  k_link :: "int \<Rightarrow> u8 list option"
  k_duplicate :: "int list \<Rightarrow> int \<Rightarrow> int + int"

text \<open>A string literal as the bytes it is sent as.\<close>

definition ascii :: "string \<Rightarrow> u8 list" where
  "ascii s = map of_char s"

text \<open>The number of entries of an unordered map.\<close>

definition fm_size :: "('k, 'v) fmap \<Rightarrow> nat" where
  "fm_size m = fcard (fmdom m)"

text \<open>\<open>std::unordered_map::emplace\<close>: an existing entry is kept.\<close>

definition fm_emplace :: "'k \<Rightarrow> 'v \<Rightarrow> ('k, 'v) fmap \<Rightarrow> ('k, 'v) fmap" where
  "fm_emplace k v m = (if k |\<in>| fmdom m then m else fmupd k v m)"

text \<open>Whether a decoder accepted.\<close>

fun decoded :: "codec_error + 'a \<Rightarrow> bool" where
  "decoded (Inl _) = False"
| "decoded (Inr _) = True"

lemma decoded_iff: "decoded r \<longleftrightarrow> (\<exists>v. r = Inr v)"
  by (cases r) auto

lemma fm_emplace_drop: "k |\<notin>| fmdom m \<Longrightarrow> fmdrop k (fm_emplace k v m) = m"
  by (intro fmap_ext) (simp add: fm_emplace_def fmdom_notD)

lemma fm_size_empty [simp]: "fm_size fmempty = 0"
  by (simp add: fm_size_def)

lemma fm_size_emplace: "fm_size (fm_emplace k v m) = (if k |\<in>| fmdom m then fm_size m else Suc (fm_size m))"
  by (simp add: fm_size_def fm_emplace_def fcard_finsert_if)

lemma fm_size_drop: "fm_size (fmdrop k m) \<le> fm_size m"
  unfolding fm_size_def by (intro fcard_mono) auto

end
