(* ===== verification/Ipc_Validation.thy ===== *)
theory Ipc_Validation
  imports Ipc_Types
begin

text \<open>
  The validation of an application message on an established connection, in both directions
  (\<open>ipc/connection_validation.cpp\<close>, \<open>ipc/connection_output_validation.cpp\<close>): capability, direction, flags,
  payload, descriptors and the snapshot it belongs to.

  A function of the code that returns a status and sets the status of the decoder by reference
  returns the pair of the two here, the second being whether the decoder accepted. The state of the snapshot
  is an argument and a result, returned also when the message is refused.
\<close>

section \<open>Snapshots\<close>

definition required_capability :: "u16 \<Rightarrow> u64" where
  "required_capability typ =
     (if typ \<in> {GWIPC_MESSAGE_SNAPSHOT_BEGIN, GWIPC_MESSAGE_SNAPSHOT_END, GWIPC_MESSAGE_SNAPSHOT_ABORT}
      then GWIPC_CAP_SNAPSHOTS
      else if typ \<in> {GWIPC_MESSAGE_OUTPUT_UPSERT, GWIPC_MESSAGE_OUTPUT_REMOVE} then GWIPC_CAP_OUTPUT_STATE
      else if typ \<in> {GWIPC_MESSAGE_SURFACE_UPSERT, GWIPC_MESSAGE_SURFACE_REMOVE} then GWIPC_CAP_SURFACE_STATE
      else if typ = GWIPC_MESSAGE_SURFACE_POLICY_UPSERT then GWIPC_CAP_SURFACE_STATE OR GWIPC_CAP_WINDOW_LIFECYCLE
      else if typ = GWIPC_MESSAGE_BUFFER_ATTACH then GWIPC_CAP_FD_PASSING OR GWIPC_CAP_MEMFD_BUFFERS
      else if typ = GWIPC_MESSAGE_SURFACE_DAMAGE then GWIPC_CAP_DAMAGE_REGIONS
      else if typ = GWIPC_MESSAGE_FRAME_ACKNOWLEDGED then GWIPC_CAP_FRAME_ACKNOWLEDGEMENT
      else if typ \<in> {GWIPC_MESSAGE_POLICY_CONTEXT_UPSERT, GWIPC_MESSAGE_POLICY_WINDOW_UPSERT,
                      GWIPC_MESSAGE_POLICY_WINDOW_REMOVE, GWIPC_MESSAGE_POLICY_COMMIT,
                      GWIPC_MESSAGE_POLICY_WINDOW_STATE, GWIPC_MESSAGE_POLICY_ACKNOWLEDGED}
      then GWIPC_CAP_WINDOW_POLICY
      else if typ = GWIPC_MESSAGE_POLICY_LIFECYCLE_WINDOW_UPSERT
      then GWIPC_CAP_WINDOW_POLICY OR GWIPC_CAP_WINDOW_LIFECYCLE
      else if typ \<in> {GWIPC_MESSAGE_SYNTHETIC_MOTION, GWIPC_MESSAGE_SYNTHETIC_BUTTON, GWIPC_MESSAGE_SYNTHETIC_KEY,
                      GWIPC_MESSAGE_SYNTHETIC_BARRIER, GWIPC_MESSAGE_SYNTHETIC_INPUT_ACKNOWLEDGED}
      then GWIPC_CAP_SYNTHETIC_INPUT
      else if typ = GWIPC_MESSAGE_POLICY_BINDINGS_UPSERT then GWIPC_CAP_WINDOW_POLICY OR GWIPC_CAP_INTERACTIVE_POLICY
      else if typ \<in> {GWIPC_MESSAGE_SESSION_STATE_CHANGE, GWIPC_MESSAGE_SESSION_STATE_ACKNOWLEDGED}
      then GWIPC_CAP_SESSION_STATE
      else 0)"

definition snapshot_control :: "u16 \<Rightarrow> bool" where
  "snapshot_control typ \<longleftrightarrow> typ \<ge> GWIPC_MESSAGE_SNAPSHOT_BEGIN \<and> typ \<le> GWIPC_MESSAGE_SNAPSHOT_ABORT"

text \<open>The cases of \<open>validate_snapshot\<close>: the begin, the end and the abort of a snapshot, and an item of it.\<close>

definition snapshot_begins :: "snapshot_state \<Rightarrow> u8 list \<Rightarrow> gwipc_status \<times> snapshot_state" where
  "snapshot_begins s payload =
     (case decode_snapshot_begin payload of
        Inr b \<Rightarrow>
          if ss_active s then (ST_PROTOCOL_ERROR, s)
          else (ST_OK, \<lparr>ss_active = True, ss_snapshot_id = sb_snapshot_id b, ss_generation = sb_generation b,
            ss_expected_count = sb_expected_item_count b, ss_item_count = 0, ss_domain = sb_domain b,
            ss_policy_bindings_count = 0\<rparr>)
      | Inl _ \<Rightarrow> (ST_PROTOCOL_ERROR, s))"

definition snapshot_ends :: "snapshot_state \<Rightarrow> u8 list \<Rightarrow> bool \<Rightarrow> gwipc_status \<times> snapshot_state" where
  "snapshot_ends s payload require_policy_bindings =
     (case decode_snapshot_end payload of
        Inr e \<Rightarrow>
          if \<not> ss_active s \<or> se_snapshot_id e \<noteq> ss_snapshot_id s \<or> se_generation e \<noteq> ss_generation s \<or>
             se_actual_item_count e \<noteq> ss_item_count s \<or>
             (ss_expected_count s \<noteq> 0xFFFFFFFF \<and> ss_expected_count s \<noteq> ss_item_count s) \<or>
             (require_policy_bindings \<and> ss_domain s = domain_window_policy \<and> ss_policy_bindings_count s \<noteq> 1)
          then (ST_PROTOCOL_ERROR, s) else (ST_OK, no_snapshot)
      | Inl _ \<Rightarrow> (ST_PROTOCOL_ERROR, s))"

definition snapshot_aborts :: "snapshot_state \<Rightarrow> u8 list \<Rightarrow> gwipc_status \<times> snapshot_state" where
  "snapshot_aborts s payload =
     (case decode_snapshot_abort payload of
        Inr a \<Rightarrow>
          if \<not> ss_active s \<or> sab_snapshot_id a \<noteq> ss_snapshot_id s then (ST_PROTOCOL_ERROR, s) else (ST_OK, no_snapshot)
      | Inl _ \<Rightarrow> (ST_PROTOCOL_ERROR, s))"

definition snapshot_takes_item :: "snapshot_state \<Rightarrow> bool \<Rightarrow> gwipc_status \<times> snapshot_state" where
  "snapshot_takes_item s item =
     (if \<not> item then (ST_OK, s)
      else if \<not> ss_active s \<or> ss_item_count s = 0xFFFFFFFF then (ST_PROTOCOL_ERROR, s)
      else (ST_OK, s\<lparr>ss_item_count := ss_item_count s + 1\<rparr>))"

definition validate_snapshot :: "snapshot_state \<Rightarrow> u16 \<Rightarrow> u32 \<Rightarrow> u8 list \<Rightarrow> bool \<Rightarrow> gwipc_status \<times> snapshot_state" where
  "validate_snapshot s typ flags payload require_policy_bindings =
     (let item = flags AND GWIPC_FLAG_SNAPSHOT_ITEM \<noteq> 0
      in if snapshot_control typ \<and> item then (ST_PROTOCOL_ERROR, s)
         else if typ = GWIPC_MESSAGE_SNAPSHOT_BEGIN then snapshot_begins s payload
         else if typ = GWIPC_MESSAGE_SNAPSHOT_END then snapshot_ends s payload require_policy_bindings
         else if typ = GWIPC_MESSAGE_POLICY_BINDINGS_UPSERT then
           (if \<not> ss_active s \<or> ss_domain s \<noteq> domain_window_policy \<or> ss_policy_bindings_count s \<noteq> 0
            then (ST_PROTOCOL_ERROR, s)
            else snapshot_takes_item (s\<lparr>ss_policy_bindings_count := ss_policy_bindings_count s + 1\<rparr>) item)
         else if typ = GWIPC_MESSAGE_SNAPSHOT_ABORT then snapshot_aborts s payload
         else snapshot_takes_item s item)"

section \<open>Descriptors of a buffer\<close>

definition eventfd_link :: "u8 list" where
  "eventfd_link = ascii ''anon_inode:[eventfd]''"

definition is_eventfd :: "kernel \<Rightarrow> int \<Rightarrow> bool" where
  "is_eventfd k fd \<longleftrightarrow> k_link k fd = Some eventfd_link"

text \<open>\<open>O_PATH\<close>, \<open>O_ACCMODE\<close>, \<open>O_WRONLY\<close>, \<open>O_NONBLOCK\<close> and \<open>FD_CLOEXEC\<close> of the system headers.\<close>

definition readable_storage :: "kernel \<Rightarrow> int \<Rightarrow> u64 \<Rightarrow> bool" where
  "readable_storage k fd storage_size \<longleftrightarrow>
     \<not> (sint (k_status_flags k fd) < 0 \<or> k_status_flags k fd AND 0x200000 \<noteq> 0 \<or> k_status_flags k fd AND 3 = 1 \<or>
        (case k_stat k fd of
           None \<Rightarrow> True
         | Some (regular, st_size) \<Rightarrow> \<not> regular \<or> st_size < 0 \<or> u64_of st_size < storage_size))"

definition usable_eventfd :: "kernel \<Rightarrow> int \<Rightarrow> bool" where
  "usable_eventfd k fd \<longleftrightarrow>
     \<not> (sint (k_status_flags k fd) < 0 \<or> k_status_flags k fd AND 0x800 = 0 \<or>
        sint (k_descriptor_flags k fd) < 0 \<or> k_descriptor_flags k fd AND 1 = 0 \<or> \<not> is_eventfd k fd)"

definition attachment_fds :: "buffer_attach \<Rightarrow> nat" where
  "attachment_fds v = (if wba_synchronization v = synchronization_event_fd then 2 else 1)"

definition validate_buffer_attach :: "kernel \<Rightarrow> u64 \<Rightarrow> u8 list \<Rightarrow> int list \<Rightarrow> gwipc_status \<times> bool" where
  "validate_buffer_attach k capabilities payload fds =
     (case decode_buffer_attach payload of
        Inl _ \<Rightarrow> (ST_OK, False)
      | Inr v \<Rightarrow>
          let synchronized = wba_synchronization v = synchronization_event_fd
          in if synchronized \<and> capabilities AND GWIPC_CAP_CPU_BUFFER_SYNCHRONIZATION = 0
             then (ST_CAPABILITY_MISMATCH, True)
             else if length fds \<noteq> attachment_fds v then (ST_OK, True)
             else if \<not> readable_storage k (fds ! 0) (wba_storage_size v) then (ST_PROTOCOL_ERROR, True)
             else if synchronized \<and> \<not> usable_eventfd k (fds ! 1) then (ST_PROTOCOL_ERROR, True)
             else (ST_OK, True))"

section \<open>Payloads and flags by message type\<close>

definition flag_status :: "bool \<Rightarrow> gwipc_status" where
  "flag_status good = (if good then ST_OK else ST_PROTOCOL_ERROR)"

definition validate_control :: "u16 \<Rightarrow> u32 \<Rightarrow> u8 list \<Rightarrow> gwipc_status \<times> bool" where
  "validate_control typ flags payload =
     (if typ = GWIPC_MESSAGE_PING then (flag_status (flags = GWIPC_FLAG_ACK_REQUIRED), decoded (decode_ping payload))
      else if typ = GWIPC_MESSAGE_PONG then (flag_status (flags = GWIPC_FLAG_REPLY), decoded (decode_pong payload))
      else if typ = GWIPC_MESSAGE_PROTOCOL_ERROR
      then (flag_status (flags = (GWIPC_FLAG_REPLY OR GWIPC_FLAG_ERROR)), decoded (decode_protocol_error payload))
      else if typ = GWIPC_MESSAGE_SNAPSHOT_BEGIN then (ST_OK, decoded (decode_snapshot_begin payload))
      else if typ = GWIPC_MESSAGE_SNAPSHOT_END then (ST_OK, decoded (decode_snapshot_end payload))
      else (ST_OK, decoded (decode_snapshot_abort payload)))"

definition validate_surface_upsert :: "u64 \<Rightarrow> u8 list \<Rightarrow> gwipc_status \<times> bool" where
  "validate_surface_upsert capabilities payload =
     (case decode_wire_surface_upsert payload of
        Inl _ \<Rightarrow> (ST_OK, False)
      | Inr v \<Rightarrow>
          let required = GWIPC_CAP_CURSOR_SURFACE OR GWIPC_CAP_FD_PASSING OR GWIPC_CAP_MEMFD_BUFFERS OR
                GWIPC_CAP_DAMAGE_REGIONS OR GWIPC_CAP_WINDOW_LIFECYCLE
          in if wsu_presentation_flags v AND GWIPC_SURFACE_PRESENTATION_METADATA_ONLY \<noteq> 0 \<and>
                capabilities AND GWIPC_CAP_WINDOW_LIFECYCLE = 0 then (ST_CAPABILITY_MISMATCH, True)
             else if wsu_presentation_flags v AND GWIPC_SURFACE_PRESENTATION_CURSOR \<noteq> 0 \<and>
                capabilities AND required \<noteq> required then (ST_CAPABILITY_MISMATCH, True)
             else (ST_OK, True))"

definition validate_compositor :: "kernel \<Rightarrow> u64 \<Rightarrow> u16 \<Rightarrow> u32 \<Rightarrow> u8 list \<Rightarrow> int list \<Rightarrow> gwipc_status \<times> bool" where
  "validate_compositor k capabilities typ flags payload fds =
     (if typ = GWIPC_MESSAGE_OUTPUT_UPSERT then (ST_OK, decoded (decode_wire_output_upsert payload))
      else if typ = GWIPC_MESSAGE_OUTPUT_REMOVE then (ST_OK, decoded (decode_wire_output_remove payload))
      else if typ = GWIPC_MESSAGE_SURFACE_UPSERT then validate_surface_upsert capabilities payload
      else if typ = GWIPC_MESSAGE_SURFACE_REMOVE then (ST_OK, decoded (decode_wire_surface_remove payload))
      else if typ = GWIPC_MESSAGE_BUFFER_ATTACH then validate_buffer_attach k capabilities payload fds
      else if typ = GWIPC_MESSAGE_BUFFER_DETACH then (ST_OK, decoded (decode_buffer_detach payload))
      else if typ = GWIPC_MESSAGE_BUFFER_RELEASE then (ST_OK, decoded (decode_buffer_release payload))
      else if typ = GWIPC_MESSAGE_SURFACE_DAMAGE then (ST_OK, decoded (decode_wire_surface_damage payload))
      else if typ = GWIPC_MESSAGE_FRAME_COMMIT
      then (flag_status (flags = GWIPC_FLAG_ACK_REQUIRED), decoded (decode_wire_frame_commit payload))
      else (flag_status (flags = GWIPC_FLAG_REPLY), decoded (decode_wire_frame_acknowledged payload)))"

definition validate_policy :: "u16 \<Rightarrow> u32 \<Rightarrow> u8 list \<Rightarrow> snapshot_state \<Rightarrow> gwipc_status \<times> bool" where
  "validate_policy typ flags payload s =
     (let upsert_flags = flags = 0 \<or> flags = GWIPC_FLAG_SNAPSHOT_ITEM; item_flags = flags = GWIPC_FLAG_SNAPSHOT_ITEM
      in if typ = GWIPC_MESSAGE_POLICY_CONTEXT_UPSERT
         then (flag_status upsert_flags, decoded (decode_policy_context_upsert payload))
         else if typ = GWIPC_MESSAGE_POLICY_WINDOW_UPSERT
         then (flag_status upsert_flags, decoded (decode_policy_window_upsert payload))
         else if typ = GWIPC_MESSAGE_POLICY_WINDOW_REMOVE
         then (flag_status (flags = 0), decoded (decode_policy_window_remove payload))
         else if typ = GWIPC_MESSAGE_POLICY_COMMIT
         then (flag_status (flags = GWIPC_FLAG_ACK_REQUIRED \<and> \<not> ss_active s), decoded (decode_policy_commit payload))
         else if typ = GWIPC_MESSAGE_POLICY_WINDOW_STATE
         then (flag_status item_flags, decoded (decode_wire_window_state payload))
         else if typ = GWIPC_MESSAGE_POLICY_ACKNOWLEDGED
         then (flag_status (flags = GWIPC_FLAG_REPLY), decoded (decode_policy_acknowledged payload))
         else if typ = GWIPC_MESSAGE_POLICY_LIFECYCLE_WINDOW_UPSERT
         then (flag_status upsert_flags, decoded (decode_policy_lifecycle_window_upsert payload))
         else if typ = GWIPC_MESSAGE_POLICY_BINDINGS_UPSERT
         then (flag_status item_flags, decoded (decode_policy_bindings_upsert payload))
         else (flag_status item_flags, decoded (decode_surface_policy payload)))"

definition validate_session :: "u16 \<Rightarrow> u32 \<Rightarrow> u8 list \<Rightarrow> gwipc_status \<times> bool" where
  "validate_session typ flags payload =
     (if typ = GWIPC_MESSAGE_SESSION_STATE_CHANGE
      then (flag_status (flags = GWIPC_FLAG_ACK_REQUIRED), decoded (decode_session_state_change payload))
      else (flag_status (flags = GWIPC_FLAG_REPLY), decoded (decode_session_state_acknowledged payload)))"

definition validate_input :: "u16 \<Rightarrow> u32 \<Rightarrow> u8 list \<Rightarrow> gwipc_status \<times> bool" where
  "validate_input typ flags payload =
     (let request = flag_status (flags = GWIPC_FLAG_ACK_REQUIRED)
      in if typ = GWIPC_MESSAGE_SYNTHETIC_MOTION then (request, decoded (decode_synthetic_motion payload))
         else if typ = GWIPC_MESSAGE_SYNTHETIC_BUTTON then (request, decoded (decode_synthetic_button payload))
         else if typ = GWIPC_MESSAGE_SYNTHETIC_KEY then (request, decoded (decode_synthetic_key payload))
         else if typ = GWIPC_MESSAGE_SYNTHETIC_BARRIER then (request, decoded (decode_synthetic_barrier payload))
         else (flag_status (flags = GWIPC_FLAG_REPLY), decoded (decode_synthetic_input_acknowledged payload)))"

section \<open>Directions\<close>

definition message_roles :: "connection \<Rightarrow> direction \<Rightarrow> u32 \<times> u32" where
  "message_roles c d =
     (case d of
        Outgoing \<Rightarrow> (cf_local_role (c_config c), peer_role (c_peer c))
      | Incoming \<Rightarrow> (peer_role (c_peer c), cf_local_role (c_config c)))"

definition valid_direction :: "u32 \<times> u32 \<Rightarrow> u16 \<Rightarrow> bool" where
  "valid_direction roles typ \<longleftrightarrow>
     (if typ = GWIPC_MESSAGE_SESSION_STATE_CHANGE then roles = (GWIPC_ROLE_COMPOSITOR, GWIPC_ROLE_PROTOCOL_SERVER)
      else if typ = GWIPC_MESSAGE_SESSION_STATE_ACKNOWLEDGED
      then roles = (GWIPC_ROLE_PROTOCOL_SERVER, GWIPC_ROLE_COMPOSITOR)
      else if typ = GWIPC_MESSAGE_POLICY_BINDINGS_UPSERT
      then roles = (GWIPC_ROLE_WINDOW_MANAGER, GWIPC_ROLE_PROTOCOL_SERVER)
      else True)"

definition policy_output_direction :: "u32 \<times> u32 \<Rightarrow> bool" where
  "policy_output_direction roles \<longleftrightarrow> roles = (GWIPC_ROLE_WINDOW_MANAGER, GWIPC_ROLE_PROTOCOL_SERVER)"

definition valid_snapshot_begin_domain :: "u32 \<times> u32 \<Rightarrow> u8 list \<Rightarrow> bool" where
  "valid_snapshot_begin_domain roles payload =
     (case decode_snapshot_begin payload of
        Inl _ \<Rightarrow> False
      | Inr b \<Rightarrow>
          if roles = (GWIPC_ROLE_PROTOCOL_SERVER, GWIPC_ROLE_COMPOSITOR) then sb_domain b = domain_complete_session
          else if roles = (GWIPC_ROLE_COMPOSITOR, GWIPC_ROLE_PROTOCOL_SERVER) then sb_domain b = domain_outputs
          else True)"

section \<open>Output messages\<close>

definition output_extension_message :: "u16 \<Rightarrow> bool" where
  "output_extension_message typ \<longleftrightarrow>
     typ \<in> {GWIPC_MESSAGE_OUTPUT_DESCRIPTOR_UPSERT, GWIPC_MESSAGE_OUTPUT_MODE_UPSERT, GWIPC_MESSAGE_SURFACE_OUTPUT_STATE,
       GWIPC_MESSAGE_POLICY_OUTPUT_UPSERT, GWIPC_MESSAGE_POLICY_WINDOW_OUTPUT_HINT, GWIPC_MESSAGE_OUTPUT_STATE_QUERY,
       GWIPC_MESSAGE_OUTPUT_CONFIGURATION_COMMIT, GWIPC_MESSAGE_OUTPUT_CONFIGURATION_ACKNOWLEDGED}"

text \<open>The capabilities a message needs between two roles, if it may be sent there at all.\<close>

definition output_requirement :: "u32 \<times> u32 \<Rightarrow> u16 \<Rightarrow> u64 option" where
  "output_requirement roles typ =
     (let control = GWIPC_CAP_OUTPUT_CONTROL; management = GWIPC_CAP_OUTPUT_MANAGEMENT;
          server_to_tool = roles = (GWIPC_ROLE_PROTOCOL_SERVER, GWIPC_ROLE_DIAGNOSTIC_TOOL);
          tool_to_server = roles = (GWIPC_ROLE_DIAGNOSTIC_TOOL, GWIPC_ROLE_PROTOCOL_SERVER);
          server_to_compositor = roles = (GWIPC_ROLE_PROTOCOL_SERVER, GWIPC_ROLE_COMPOSITOR);
          compositor_to_server = roles = (GWIPC_ROLE_COMPOSITOR, GWIPC_ROLE_PROTOCOL_SERVER)
      in if typ \<in> {GWIPC_MESSAGE_OUTPUT_DESCRIPTOR_UPSERT, GWIPC_MESSAGE_OUTPUT_MODE_UPSERT} then
           (if compositor_to_server then Some management else if server_to_tool then Some control else None)
         else if typ = GWIPC_MESSAGE_SURFACE_OUTPUT_STATE then
           (if server_to_compositor then Some (GWIPC_CAP_SURFACE_OUTPUT_MEMBERSHIP OR GWIPC_CAP_SCALE_METADATA)
            else if server_to_tool
            then Some (control OR GWIPC_CAP_SURFACE_OUTPUT_MEMBERSHIP OR GWIPC_CAP_SCALE_METADATA)
            else None)
         else if typ \<in> {GWIPC_MESSAGE_POLICY_OUTPUT_UPSERT, GWIPC_MESSAGE_POLICY_WINDOW_OUTPUT_HINT} then
           (if roles = (GWIPC_ROLE_PROTOCOL_SERVER, GWIPC_ROLE_WINDOW_MANAGER)
            then Some (GWIPC_CAP_WINDOW_POLICY OR GWIPC_CAP_MULTI_OUTPUT_POLICY OR GWIPC_CAP_SCALE_METADATA) else None)
         else if typ = GWIPC_MESSAGE_OUTPUT_STATE_QUERY then
           (if server_to_compositor then Some management else if tool_to_server then Some control else None)
         else if typ = GWIPC_MESSAGE_OUTPUT_CONFIGURATION_COMMIT then (if tool_to_server then Some control else None)
         else (if compositor_to_server then Some management else if server_to_tool then Some control else None))"

definition validate_roles_and_capabilities :: "u32 \<times> u32 \<Rightarrow> u64 \<Rightarrow> u16 \<Rightarrow> gwipc_status" where
  "validate_roles_and_capabilities roles capabilities typ =
     (if \<not> output_extension_message typ then ST_INVALID_ARGUMENT
      else case output_requirement roles typ of
             None \<Rightarrow> ST_PROTOCOL_ERROR
           | Some required \<Rightarrow> if capabilities AND required = required then ST_OK else ST_CAPABILITY_MISMATCH)"

definition validate_flags_and_snapshot :: "u32 \<times> u32 \<Rightarrow> u16 \<Rightarrow> u32 \<Rightarrow> snapshot_state \<Rightarrow> gwipc_status" where
  "validate_flags_and_snapshot roles typ flags s =
     (let item = flags = GWIPC_FLAG_SNAPSHOT_ITEM \<and> ss_active s
      in if typ \<in> {GWIPC_MESSAGE_OUTPUT_DESCRIPTOR_UPSERT, GWIPC_MESSAGE_OUTPUT_MODE_UPSERT}
         then flag_status (item \<and> ss_domain s = domain_outputs)
         else if typ = GWIPC_MESSAGE_SURFACE_OUTPUT_STATE
         then flag_status (item \<and> (ss_domain s = domain_complete_session \<or>
                (ss_domain s = domain_outputs \<and> roles = (GWIPC_ROLE_PROTOCOL_SERVER, GWIPC_ROLE_DIAGNOSTIC_TOOL))))
         else if typ \<in> {GWIPC_MESSAGE_POLICY_OUTPUT_UPSERT, GWIPC_MESSAGE_POLICY_WINDOW_OUTPUT_HINT}
         then flag_status (item \<and> ss_domain s = domain_window_policy)
         else if typ \<in> {GWIPC_MESSAGE_OUTPUT_STATE_QUERY, GWIPC_MESSAGE_OUTPUT_CONFIGURATION_COMMIT}
         then flag_status (flags = GWIPC_FLAG_ACK_REQUIRED \<and> \<not> ss_active s)
         else if typ = GWIPC_MESSAGE_OUTPUT_CONFIGURATION_ACKNOWLEDGED
         then flag_status (flags = GWIPC_FLAG_REPLY \<and> \<not> ss_active s)
         else ST_INVALID_ARGUMENT)"

definition valid_output_payload :: "u16 \<Rightarrow> u8 list \<Rightarrow> bool" where
  "valid_output_payload typ payload \<longleftrightarrow>
     (if typ = GWIPC_MESSAGE_OUTPUT_DESCRIPTOR_UPSERT then decoded (decode_wire_output_descriptor payload)
      else if typ = GWIPC_MESSAGE_OUTPUT_MODE_UPSERT then decoded (decode_wire_output_mode payload)
      else if typ = GWIPC_MESSAGE_SURFACE_OUTPUT_STATE then decoded (decode_wire_surface_output_state payload)
      else if typ = GWIPC_MESSAGE_POLICY_OUTPUT_UPSERT then decoded (decode_policy_output payload)
      else if typ = GWIPC_MESSAGE_POLICY_WINDOW_OUTPUT_HINT then decoded (decode_policy_output_hint payload)
      else if typ = GWIPC_MESSAGE_OUTPUT_STATE_QUERY then decoded (decode_output_state_query payload)
      else if typ = GWIPC_MESSAGE_OUTPUT_CONFIGURATION_COMMIT
      then decoded (decode_output_configuration_commit payload)
      else if typ = GWIPC_MESSAGE_OUTPUT_CONFIGURATION_ACKNOWLEDGED
      then decoded (decode_output_configuration_acknowledged payload)
      else False)"

definition validate_output_extension ::
    "u32 \<times> u32 \<Rightarrow> u64 \<Rightarrow> u16 \<Rightarrow> u32 \<Rightarrow> u8 list \<Rightarrow> int list \<Rightarrow> snapshot_state \<Rightarrow> gwipc_status" where
  "validate_output_extension roles capabilities typ flags payload fds s =
     (if \<not> output_extension_message typ then ST_INVALID_ARGUMENT
      else if fds \<noteq> [] then ST_PROTOCOL_ERROR
      else let status = validate_roles_and_capabilities roles capabilities typ
           in if status \<noteq> ST_OK then status
              else let status = validate_flags_and_snapshot roles typ flags s
                   in if status \<noteq> ST_OK then status else flag_status (valid_output_payload typ payload))"

section \<open>Application messages\<close>

text \<open>The group of a message type decides who checks it; a type in no group is refused.\<close>

definition validate_group :: "kernel \<Rightarrow> u64 \<Rightarrow> u16 \<Rightarrow> u32 \<Rightarrow> u8 list \<Rightarrow> int list \<Rightarrow> snapshot_state \<Rightarrow> gwipc_status \<times> bool" where
  "validate_group k capabilities typ flags payload fds s =
     (if (typ \<ge> GWIPC_MESSAGE_PING \<and> typ \<le> GWIPC_MESSAGE_PROTOCOL_ERROR) \<or> snapshot_control typ
      then validate_control typ flags payload
      else if typ = GWIPC_MESSAGE_SURFACE_POLICY_UPSERT \<or>
              (typ \<ge> GWIPC_MESSAGE_POLICY_CONTEXT_UPSERT \<and> typ \<le> GWIPC_MESSAGE_POLICY_BINDINGS_UPSERT)
      then validate_policy typ flags payload s
      else if typ \<ge> GWIPC_MESSAGE_OUTPUT_UPSERT \<and> typ \<le> GWIPC_MESSAGE_FRAME_ACKNOWLEDGED
      then validate_compositor k capabilities typ flags payload fds
      else if typ \<ge> GWIPC_MESSAGE_SYNTHETIC_MOTION \<and> typ \<le> GWIPC_MESSAGE_SYNTHETIC_INPUT_ACKNOWLEDGED
      then validate_input typ flags payload
      else if typ \<ge> GWIPC_MESSAGE_SESSION_STATE_CHANGE \<and> typ \<le> GWIPC_MESSAGE_SESSION_STATE_ACKNOWLEDGED
      then validate_session typ flags payload
      else (ST_PROTOCOL_ERROR, False))"

definition valid_descriptor_count :: "u16 \<Rightarrow> u8 list \<Rightarrow> int list \<Rightarrow> bool" where
  "valid_descriptor_count typ payload fds \<longleftrightarrow>
     (if typ = GWIPC_MESSAGE_BUFFER_ATTACH
      then (case decode_buffer_attach payload of Inl _ \<Rightarrow> False | Inr v \<Rightarrow> length fds = attachment_fds v)
      else fds = [])"

definition validate_message ::
    "kernel \<Rightarrow> u32 \<times> u32 \<Rightarrow> u64 \<Rightarrow> u16 \<Rightarrow> u32 \<Rightarrow> u8 list \<Rightarrow> int list \<Rightarrow> snapshot_state \<Rightarrow> gwipc_status \<times> snapshot_state" where
  "validate_message k roles capabilities typ flags payload fds s =
     (let bindings = capabilities AND GWIPC_CAP_INTERACTIVE_POLICY \<noteq> 0 \<and> policy_output_direction roles;
          required = required_capability typ
      in if typ = GWIPC_MESSAGE_SNAPSHOT_BEGIN \<and> \<not> valid_snapshot_begin_domain roles payload
         then (ST_PROTOCOL_ERROR, s)
         else if output_extension_message typ then
           (let status = validate_output_extension roles capabilities typ flags payload fds s
            in if status \<noteq> ST_OK then (status, s) else validate_snapshot s typ flags payload bindings)
         else if required AND capabilities \<noteq> required then (ST_CAPABILITY_MISMATCH, s)
         else if \<not> valid_direction roles typ then (ST_PROTOCOL_ERROR, s)
         else case validate_group k capabilities typ flags payload fds s of (status, accepted) \<Rightarrow>
           if status \<noteq> ST_OK then (status, s)
           else if \<not> accepted then (ST_PROTOCOL_ERROR, s)
           else if \<not> valid_descriptor_count typ payload fds then (ST_PROTOCOL_ERROR, s)
           else validate_snapshot s typ flags payload bindings)"

definition validate_application ::
    "kernel \<Rightarrow> connection \<Rightarrow> u16 \<Rightarrow> u32 \<Rightarrow> u8 list \<Rightarrow> int list \<Rightarrow> snapshot_state \<Rightarrow> direction \<Rightarrow> gwipc_status \<times> snapshot_state" where
  "validate_application k c typ flags payload fds s d =
     validate_message k (message_roles c d) (peer_capabilities (c_peer c)) typ flags payload fds s"

end
