(* ===== verification/Ipc_Queue.thy ===== *)
theory Ipc_Queue
  imports Ipc_Validation
begin

text \<open>
  Sending on a connection: closing it, the outgoing queue and its limits
  (\<open>ipc/connection_queue.cpp\<close>, \<open>set_closed\<close> and \<open>protocol_failure\<close> of \<open>ipc/connection_transport.cpp\<close>) and the
  correlation of requests and replies of the sender (\<open>ipc/connection_correlation.cpp\<close>,
  \<open>ipc/connection_output_correlation.cpp\<close>).

  An operation returns its status and the connection afterwards; \<open>and_then\<close> goes on unless the status is
  an error.
\<close>

definition and_then :: "gwipc_status \<times> 's \<Rightarrow> ('s \<Rightarrow> gwipc_status \<times> 's) \<Rightarrow> gwipc_status \<times> 's" where
  "and_then r f = (if fst r = ST_OK then f (snd r) else r)"

section \<open>Closing\<close>

definition set_closed :: "connection \<Rightarrow> connection" where
  "set_closed c = c\<lparr>
     c_snapshot_aborted := ss_active (c_incoming_snapshot c) \<or> ss_active (c_outgoing_snapshot c) \<or> c_snapshot_aborted c,
     c_fd := (if c_fd c \<ge> 0 then -1 else c_fd c), c_state := CS_CLOSED, c_outgoing := [], c_queued_bytes := 0\<rparr>"

section \<open>The outgoing queue\<close>

text \<open>The duplicates of the descriptors, or the status and the error number of the failure.\<close>

fun duplicate_fds :: "kernel \<Rightarrow> int list \<Rightarrow> int list \<Rightarrow> (gwipc_status \<times> int) + int list" where
  "duplicate_fds k [] result = Inr result"
| "duplicate_fds k (fd # source) result =
     (if fd < 0 then Inl (ST_INVALID_ARGUMENT, 0)
      else case k_duplicate k result fd of
             Inl errno \<Rightarrow> Inl (ST_SYSTEM_ERROR, errno)
           | Inr duplicate \<Rightarrow> duplicate_fds k source (result @ [duplicate]))"

definition queue_limit_exceeded :: "connection \<Rightarrow> nat \<Rightarrow> bool" where
  "queue_limit_exceeded c record_size \<longleftrightarrow>
     length (c_outgoing c) \<ge> unat (cf_maximum_queued_messages (c_config c)) \<or>
     record_size > unat (cf_maximum_queued_bytes (c_config c)) -
       min (c_queued_bytes c) (unat (cf_maximum_queued_bytes (c_config c)))"

text \<open>The limits of a record: those negotiated once the connection is established.\<close>

definition maximum_payload_of :: "connection \<Rightarrow> u32" where
  "maximum_payload_of c =
     (if c_state c = CS_ESTABLISHED then peer_maximum_payload (c_peer c) else cf_maximum_payload (c_config c))"

definition maximum_fds_of :: "connection \<Rightarrow> u16" where
  "maximum_fds_of c =
     (if c_state c = CS_ESTABLISHED then peer_maximum_fd_count (c_peer c) else cf_maximum_fd_count (c_config c))"

definition outgoing_envelope :: "connection \<Rightarrow> u16 \<Rightarrow> u32 \<Rightarrow> u64 \<Rightarrow> u8 list \<Rightarrow> int list \<Rightarrow> envelope" where
  "outgoing_envelope c typ flags reply_to payload fds =
     \<lparr>en_major = kWireMajor, en_minor = kWireMinor, en_type = typ, en_flags = flags,
      en_payload_size = word_of_nat (length payload), en_fd_count = word_of_nat (length fds),
      en_sequence = c_next_send_sequence c, en_reply_to = reply_to\<rparr>"

definition push_record :: "connection \<Rightarrow> u32 \<Rightarrow> queued_record \<Rightarrow> gwipc_status \<times> connection" where
  "push_record c flags r =
     (let expects_reply = flags AND GWIPC_FLAG_ACK_REQUIRED \<noteq> 0
      in if expects_reply \<and> fcard (c_pending_replies c) \<ge> unat (cf_maximum_queued_messages (c_config c))
         then (ST_LIMIT_EXCEEDED, set_closed c)
         else (ST_OK, c\<lparr>
           c_pending_replies := (if expects_reply then finsert (qr_sequence r) (c_pending_replies c) else c_pending_replies c),
           c_outgoing := c_outgoing c @ [r],
           c_next_send_sequence := c_next_send_sequence c + 1,
           c_queued_bytes := c_queued_bytes c + length (qr_bytes r)\<rparr>))"

definition queue_internal ::
    "kernel \<Rightarrow> connection \<Rightarrow> u16 \<Rightarrow> u32 \<Rightarrow> u64 \<Rightarrow> u8 list \<Rightarrow> int list \<Rightarrow> gwipc_status \<times> connection" where
  "queue_internal k c typ flags reply_to payload fds =
     (if c_next_send_sequence c = 0 \<or> c_next_send_sequence c = -1 then (ST_LIMIT_EXCEEDED, set_closed c)
      else if length payload > unat (maximum_payload_of c) \<or> length fds > unat (maximum_fds_of c)
      then (ST_LIMIT_EXCEEDED, c)
      else if queue_limit_exceeded c (length payload + kEnvelopeSize) then (ST_LIMIT_EXCEEDED, set_closed c)
      else case duplicate_fds k fds [] of
             Inl (status, errno) \<Rightarrow>
               (status, if status = ST_SYSTEM_ERROR then c\<lparr>c_system_errno := errno\<rparr> else c)
           | Inr duplicates \<Rightarrow>
               push_record c flags
                 \<lparr>qr_bytes = encode_envelope (outgoing_envelope c typ flags reply_to payload fds) @ payload,
                  qr_fds = duplicates, qr_sequence = c_next_send_sequence c\<rparr>)"

text \<open>A violation by the peer is reported to it, once, and ends the connection.\<close>

definition protocol_failure ::
    "kernel \<Rightarrow> connection \<Rightarrow> u16 \<Rightarrow> envelope \<Rightarrow> string \<Rightarrow> gwipc_status \<Rightarrow> gwipc_status \<times> connection" where
  "protocol_failure k c code offending detail result =
     (if c_state c \<noteq> CS_ESTABLISHED then (result, set_closed c)
      else let payload = encode_protocol_error
                 \<lparr>pe_code = code, pe_offending_type = en_type offending,
                  pe_offending_sequence = en_sequence offending, pe_detail = ascii detail\<rparr>
           in case queue_internal k c GWIPC_MESSAGE_PROTOCOL_ERROR (GWIPC_FLAG_REPLY OR GWIPC_FLAG_ERROR)
                     (en_sequence offending) payload [] of (queued, c) \<Rightarrow>
                if queued \<noteq> ST_OK then (result, set_closed c)
                else (result, c\<lparr>c_state := CS_CLOSING, c_close_after_flush := True\<rparr>))"

section \<open>Messages of the client\<close>

text \<open>A pointer and a count: an array, or a null pointer with the count that was given.\<close>

datatype 'a argument = Array "'a list" | Null nat

fun elements :: "'a argument \<Rightarrow> 'a list" where
  "elements (Array xs) = xs"
| "elements (Null _) = []"

fun valid_argument :: "'a argument \<Rightarrow> bool" where
  "valid_argument (Array _) = True"
| "valid_argument (Null n) = (n = 0)"

record outgoing_message =
  om_struct_size :: nat
  om_type :: u16
  om_flags :: u32
  om_reply_to :: u64
  om_payload :: "u8 argument"
  om_fds :: "int argument"
  om_reserved :: "u64 list"

definition sizeof_outgoing_message :: nat where
  "sizeof_outgoing_message = 88"

definition valid_outgoing_message :: "outgoing_message \<Rightarrow> bool" where
  "valid_outgoing_message m \<longleftrightarrow>
     om_struct_size m \<ge> sizeof_outgoing_message \<and> \<not> (\<exists>r \<in> set (om_reserved m). r \<noteq> 0) \<and>
     valid_argument (om_payload m) \<and> valid_argument (om_fds m)"

definition valid_outgoing_flags :: "outgoing_message \<Rightarrow> bool" where
  "valid_outgoing_flags m \<longleftrightarrow>
     om_flags m AND NOT kKnownMessageFlags = 0 \<and>
     (om_flags m AND GWIPC_FLAG_ERROR = 0 \<or> om_flags m AND GWIPC_FLAG_REPLY \<noteq> 0) \<and>
     (om_flags m AND GWIPC_FLAG_REPLY \<noteq> 0 \<longleftrightarrow> om_reply_to m \<noteq> 0)"

section \<open>Correlation of what is sent\<close>

record correlation_changes =
  cc_sequence :: u64
  cc_reply_to :: u64
  cc_ping_inserted :: bool
  cc_frame_commit_inserted :: bool
  cc_policy_commit_inserted :: bool
  cc_synthetic_input_inserted :: bool
  cc_session_state_inserted :: bool
  cc_frame_acknowledged :: bool
  cc_policy_acknowledged :: bool
  cc_synthetic_input_acknowledged :: bool
  cc_session_state_acknowledged :: bool
  cc_session_generation :: u64
  cc_output_request_inserted :: bool
  cc_output_acknowledgement :: bool

definition no_changes :: "u64 \<Rightarrow> u64 \<Rightarrow> correlation_changes" where
  "no_changes sequence reply_to = \<lparr>cc_sequence = sequence, cc_reply_to = reply_to, cc_ping_inserted = False,
     cc_frame_commit_inserted = False, cc_policy_commit_inserted = False, cc_synthetic_input_inserted = False,
     cc_session_state_inserted = False, cc_frame_acknowledged = False, cc_policy_acknowledged = False,
     cc_synthetic_input_acknowledged = False, cc_session_state_acknowledged = False, cc_session_generation = 0,
     cc_output_request_inserted = False, cc_output_acknowledgement = False\<rparr>"

text \<open>A map of pending entries is full.\<close>

definition tracking_full :: "connection \<Rightarrow> (u64, 'v) fmap \<Rightarrow> bool" where
  "tracking_full c m \<longleftrightarrow> fm_size m \<ge> unat (cf_maximum_queued_messages (c_config c))"

text \<open>The value of a decoded payload.\<close>

definition decoded_value :: "codec_error + 'a \<Rightarrow> 'a option" where
  "decoded_value r = (case r of Inl _ \<Rightarrow> None | Inr v \<Rightarrow> Some v)"

definition synthetic_input_id :: "u16 \<Rightarrow> u8 list \<Rightarrow> u64 option" where
  "synthetic_input_id typ payload =
     (if typ = GWIPC_MESSAGE_SYNTHETIC_MOTION
      then map_option smo_input_id (decoded_value (decode_synthetic_motion payload))
      else if typ = GWIPC_MESSAGE_SYNTHETIC_BUTTON
      then map_option sbt_input_id (decoded_value (decode_synthetic_button payload))
      else if typ = GWIPC_MESSAGE_SYNTHETIC_KEY
      then map_option sk_input_id (decoded_value (decode_synthetic_key payload))
      else if typ = GWIPC_MESSAGE_SYNTHETIC_BARRIER
      then map_option sba_input_id (decoded_value (decode_synthetic_barrier payload))
      else None)"

definition output_request :: "u16 \<Rightarrow> bool" where
  "output_request typ \<longleftrightarrow> typ = GWIPC_MESSAGE_OUTPUT_STATE_QUERY \<or> typ = GWIPC_MESSAGE_OUTPUT_CONFIGURATION_COMMIT"

definition output_request_identity :: "u16 \<Rightarrow> u8 list \<Rightarrow> u64 option" where
  "output_request_identity typ payload =
     (if typ = GWIPC_MESSAGE_OUTPUT_STATE_QUERY
      then map_option woq_query_id (decoded_value (decode_output_state_query payload))
      else if typ = GWIPC_MESSAGE_OUTPUT_CONFIGURATION_COMMIT
      then map_option wcc_configuration_id (decoded_value (decode_output_configuration_commit payload))
      else None)"

definition acknowledgement_identity :: "u8 list \<Rightarrow> u64 option" where
  "acknowledgement_identity payload =
     map_option wca_request_id (decoded_value (decode_output_configuration_acknowledged payload))"

text \<open>
  What a request registers before it is queued. Each step does nothing for a message of another type; the
  state is the connection and the list of what was changed, which is needed to take the changes back.
\<close>

definition prepare_output_request ::
    "u16 \<Rightarrow> u8 list \<Rightarrow> connection \<times> correlation_changes \<Rightarrow> gwipc_status \<times> connection \<times> correlation_changes" where
  "prepare_output_request typ payload = (\<lambda>(c, ch).
     if \<not> output_request typ then (ST_OK, c, ch)
     else case output_request_identity typ payload of
            None \<Rightarrow> (ST_PROTOCOL_ERROR, c, ch)
          | Some request_id \<Rightarrow>
              if tracking_full c (c_pending_output_requests c) then (ST_LIMIT_EXCEEDED, c, ch)
              else if cc_sequence ch |\<in>| fmdom (c_pending_output_requests c) then (ST_INVALID_STATE, c, ch)
              else (ST_OK,
                c\<lparr>c_pending_output_requests := fm_emplace (cc_sequence ch)
                    \<lparr>oco_request_id = request_id, oco_request_type = typ\<rparr> (c_pending_output_requests c)\<rparr>,
                ch\<lparr>cc_output_request_inserted := True\<rparr>))"

definition prepare_ping ::
    "u16 \<Rightarrow> u8 list \<Rightarrow> connection \<times> correlation_changes \<Rightarrow> gwipc_status \<times> connection \<times> correlation_changes" where
  "prepare_ping typ payload = (\<lambda>(c, ch).
     if typ \<noteq> GWIPC_MESSAGE_PING then (ST_OK, c, ch)
     else case decode_ping payload of
            Inl _ \<Rightarrow> (ST_PROTOCOL_ERROR, c, ch)
          | Inr v \<Rightarrow> (ST_OK,
              c\<lparr>c_pending_ping_nonces := fm_emplace (cc_sequence ch) (pi_nonce v) (c_pending_ping_nonces c)\<rparr>,
              ch\<lparr>cc_ping_inserted := True\<rparr>))"

definition prepare_frame_commit ::
    "u16 \<Rightarrow> u8 list \<Rightarrow> connection \<times> correlation_changes \<Rightarrow> gwipc_status \<times> connection \<times> correlation_changes" where
  "prepare_frame_commit typ payload = (\<lambda>(c, ch).
     if typ \<noteq> GWIPC_MESSAGE_FRAME_COMMIT then (ST_OK, c, ch)
     else case decode_wire_frame_commit payload of
            Inl _ \<Rightarrow> (ST_PROTOCOL_ERROR, c, ch)
          | Inr v \<Rightarrow>
              if tracking_full c (c_pending_frame_commits c) then (ST_LIMIT_EXCEEDED, c, ch)
              else (ST_OK,
                c\<lparr>c_pending_frame_commits := fm_emplace (cc_sequence ch) (wfc_commit_id v) (c_pending_frame_commits c)\<rparr>,
                ch\<lparr>cc_frame_commit_inserted := True\<rparr>))"

definition prepare_policy_commit ::
    "u16 \<Rightarrow> u8 list \<Rightarrow> connection \<times> correlation_changes \<Rightarrow> gwipc_status \<times> connection \<times> correlation_changes" where
  "prepare_policy_commit typ payload = (\<lambda>(c, ch).
     if typ \<noteq> GWIPC_MESSAGE_POLICY_COMMIT then (ST_OK, c, ch)
     else case decode_policy_commit payload of
            Inl _ \<Rightarrow> (ST_PROTOCOL_ERROR, c, ch)
          | Inr v \<Rightarrow>
              if tracking_full c (c_pending_policy_commits c) then (ST_LIMIT_EXCEEDED, c, ch)
              else (ST_OK,
                c\<lparr>c_pending_policy_commits := fm_emplace (cc_sequence ch) (pco_commit_id v) (c_pending_policy_commits c)\<rparr>,
                ch\<lparr>cc_policy_commit_inserted := True\<rparr>))"

definition prepare_synthetic_input ::
    "u16 \<Rightarrow> u8 list \<Rightarrow> connection \<times> correlation_changes \<Rightarrow> gwipc_status \<times> connection \<times> correlation_changes" where
  "prepare_synthetic_input typ payload = (\<lambda>(c, ch).
     case synthetic_input_id typ payload of
       None \<Rightarrow> (ST_OK, c, ch)
     | Some input_id \<Rightarrow>
         if tracking_full c (c_pending_synthetic_inputs c) then (ST_LIMIT_EXCEEDED, c, ch)
         else (ST_OK,
           c\<lparr>c_pending_synthetic_inputs := fm_emplace (cc_sequence ch) input_id (c_pending_synthetic_inputs c)\<rparr>,
           ch\<lparr>cc_synthetic_input_inserted := True\<rparr>))"

definition prepare_session_state ::
    "u16 \<Rightarrow> u8 list \<Rightarrow> connection \<times> correlation_changes \<Rightarrow> gwipc_status \<times> connection \<times> correlation_changes" where
  "prepare_session_state typ payload = (\<lambda>(c, ch).
     if typ \<noteq> GWIPC_MESSAGE_SESSION_STATE_CHANGE then (ST_OK, c, ch)
     else case decode_session_state_change payload of
            Inl _ \<Rightarrow> (ST_PROTOCOL_ERROR, c, ch)
          | Inr v \<Rightarrow>
              if sc_generation v \<le> c_last_outgoing_session_generation c then (ST_INVALID_STATE, c, ch)
              else if tracking_full c (c_pending_session_states c) then (ST_LIMIT_EXCEEDED, c, ch)
              else (ST_OK,
                c\<lparr>c_pending_session_states := fm_emplace (cc_sequence ch)
                    \<lparr>sco_generation = sc_generation v, sco_state = sc_state v\<rparr> (c_pending_session_states c)\<rparr>,
                ch\<lparr>cc_session_state_inserted := True, cc_session_generation := sc_generation v\<rparr>))"

definition prepare_request ::
    "u16 \<Rightarrow> u8 list \<Rightarrow> connection \<times> correlation_changes \<Rightarrow> gwipc_status \<times> connection \<times> correlation_changes" where
  "prepare_request typ payload st =
     and_then (and_then (and_then (and_then (and_then
       (prepare_output_request typ payload st)
       (prepare_ping typ payload)) (prepare_frame_commit typ payload)) (prepare_policy_commit typ payload))
       (prepare_synthetic_input typ payload)) (prepare_session_state typ payload)"

text \<open>A reply must answer a request that was received: the entry of the request and the identity in the payload agree.\<close>

definition answers :: "'v option \<Rightarrow> 'r option \<Rightarrow> ('v \<Rightarrow> 'r \<Rightarrow> bool) \<Rightarrow> bool" where
  "answers expected value agree = (case (expected, value) of (Some e, Some v) \<Rightarrow> agree e v | _ \<Rightarrow> False)"

definition prepare_reply ::
    "u16 \<Rightarrow> u64 \<Rightarrow> u8 list \<Rightarrow> connection \<times> correlation_changes \<Rightarrow> gwipc_status \<times> connection \<times> correlation_changes" where
  "prepare_reply typ reply_to payload = (\<lambda>(c, ch).
     if typ = GWIPC_MESSAGE_OUTPUT_CONFIGURATION_ACKNOWLEDGED then
       (if answers (fmlookup (c_incoming_output_requests c) reply_to) (acknowledgement_identity payload)
             (\<lambda>e request_id. oco_request_id e = request_id)
        then (ST_OK, c, ch\<lparr>cc_output_acknowledgement := True\<rparr>) else (ST_INVALID_STATE, c, ch))
     else if typ = GWIPC_MESSAGE_FRAME_ACKNOWLEDGED then
       (if answers (fmlookup (c_incoming_frame_commits c) reply_to) (decoded_value (decode_wire_frame_acknowledged payload))
             (\<lambda>e v. e = wfa_commit_id v)
        then (ST_OK, c, ch\<lparr>cc_frame_acknowledged := True\<rparr>) else (ST_INVALID_STATE, c, ch))
     else if typ = GWIPC_MESSAGE_POLICY_ACKNOWLEDGED then
       (if answers (fmlookup (c_incoming_policy_commits c) reply_to) (decoded_value (decode_policy_acknowledged payload))
             (\<lambda>e v. e = pak_commit_id v)
        then (ST_OK, c, ch\<lparr>cc_policy_acknowledged := True\<rparr>) else (ST_INVALID_STATE, c, ch))
     else if typ = GWIPC_MESSAGE_SYNTHETIC_INPUT_ACKNOWLEDGED then
       (if answers (fmlookup (c_incoming_synthetic_inputs c) reply_to)
             (decoded_value (decode_synthetic_input_acknowledged payload)) (\<lambda>e v. e = sia_input_id v)
        then (ST_OK, c, ch\<lparr>cc_synthetic_input_acknowledged := True\<rparr>) else (ST_INVALID_STATE, c, ch))
     else if typ = GWIPC_MESSAGE_SESSION_STATE_ACKNOWLEDGED then
       (if answers (fmlookup (c_incoming_session_states c) reply_to)
             (decoded_value (decode_session_state_acknowledged payload))
             (\<lambda>e v. sco_generation e = sa_generation v \<and> sco_state e = sa_state v)
        then (ST_OK, c, ch\<lparr>cc_session_state_acknowledged := True\<rparr>) else (ST_INVALID_STATE, c, ch))
     else (ST_OK, c, ch))"

text \<open>Taking back what a request registered, and forgetting the requests a reply answered.\<close>

definition drop_if :: "bool \<Rightarrow> 'k \<Rightarrow> ('k, 'v) fmap \<Rightarrow> ('k, 'v) fmap" where
  "drop_if b k m = (if b then fmdrop k m else m)"

definition rollback_requests :: "connection \<times> correlation_changes \<Rightarrow> connection" where
  "rollback_requests = (\<lambda>(c, ch). let s = cc_sequence ch in c\<lparr>
     c_pending_output_requests := drop_if (cc_output_request_inserted ch) s (c_pending_output_requests c),
     c_pending_ping_nonces := drop_if (cc_ping_inserted ch) s (c_pending_ping_nonces c),
     c_pending_frame_commits := drop_if (cc_frame_commit_inserted ch) s (c_pending_frame_commits c),
     c_pending_policy_commits := drop_if (cc_policy_commit_inserted ch) s (c_pending_policy_commits c),
     c_pending_synthetic_inputs := drop_if (cc_synthetic_input_inserted ch) s (c_pending_synthetic_inputs c),
     c_pending_session_states := drop_if (cc_session_state_inserted ch) s (c_pending_session_states c)\<rparr>)"

definition commit_replies :: "connection \<times> correlation_changes \<Rightarrow> connection" where
  "commit_replies = (\<lambda>(c, ch). let r = cc_reply_to ch in c\<lparr>
     c_incoming_output_requests := drop_if (cc_output_acknowledgement ch) r (c_incoming_output_requests c),
     c_incoming_frame_commits := drop_if (cc_frame_acknowledged ch) r (c_incoming_frame_commits c),
     c_incoming_policy_commits := drop_if (cc_policy_acknowledged ch) r (c_incoming_policy_commits c),
     c_incoming_synthetic_inputs := drop_if (cc_synthetic_input_acknowledged ch) r (c_incoming_synthetic_inputs c),
     c_incoming_session_states := drop_if (cc_session_state_acknowledged ch) r (c_incoming_session_states c)\<rparr>)"

section \<open>Enqueueing\<close>

text \<open>The message is validated; then its correlation is prepared; then it is queued and the changes take effect.\<close>

definition queue_prepared ::
    "kernel \<Rightarrow> outgoing_message \<Rightarrow> snapshot_state \<Rightarrow> connection \<times> correlation_changes \<Rightarrow> gwipc_status \<times> connection" where
  "queue_prepared k m s = (\<lambda>(c, ch).
     case queue_internal k c (om_type m) (om_flags m) (om_reply_to m) (elements (om_payload m)) (elements (om_fds m)) of
       (status, c) \<Rightarrow>
         if status \<noteq> ST_OK then (status, rollback_requests (c, ch))
         else (ST_OK, commit_replies (c\<lparr>c_outgoing_snapshot := s,
           c_last_outgoing_session_generation :=
             (if cc_session_state_inserted ch then cc_session_generation ch else c_last_outgoing_session_generation c)\<rparr>, ch)))"

definition enqueue_with_sequence :: "kernel \<Rightarrow> connection \<Rightarrow> outgoing_message \<Rightarrow> gwipc_status \<times> connection" where
  "enqueue_with_sequence k c m =
     (if \<not> valid_outgoing_message m then (ST_INVALID_ARGUMENT, c)
      else if c_state c \<noteq> CS_ESTABLISHED then (ST_INVALID_STATE, c)
      else if \<not> valid_outgoing_flags m then (ST_INVALID_ARGUMENT, c)
      else case validate_application k c (om_type m) (om_flags m) (elements (om_payload m)) (elements (om_fds m))
                  (c_outgoing_snapshot c) Outgoing of (validation, s) \<Rightarrow>
        if validation \<noteq> ST_OK then (validation, c)
        else case and_then (prepare_request (om_type m) (elements (om_payload m))
                              (c, no_changes (c_next_send_sequence c) (om_reply_to m)))
                    (prepare_reply (om_type m) (om_reply_to m) (elements (om_payload m))) of (status, prepared) \<Rightarrow>
          if status \<noteq> ST_OK then (status, rollback_requests prepared)
          else queue_prepared k m s prepared)"

end
