(* ===== verification/Ipc_Receive.thy ===== *)
theory Ipc_Receive
  imports Ipc_Queue
begin

text \<open>
  Receiving on a connection: the record that arrives on the socket (\<open>ipc/connection_transport.cpp\<close>), the
  handshake (\<open>ipc/connection_handshake.cpp\<close>) and the correlation of requests and replies of the receiver
  (\<open>ipc/connection_correlation.cpp\<close>, \<open>ipc/connection_output_correlation.cpp\<close>).

  What \<open>recvmsg\<close> returns is the input: an error, or the data of one record of the sequenced-packet socket
  with its control messages. Data longer than the buffer are truncated by the kernel, which reports the
  whole length; no data at all are the end of the stream.
\<close>

section \<open>Records\<close>

datatype control_message = Rights "int list" | Other_Control

record packet =
  pk_data :: "u8 list"
  pk_control :: "control_message list"
  pk_control_truncated :: bool

datatype recv_result = Recv_Interrupted | Recv_Again | Recv_Error int | Received packet

text \<open>The descriptors that were passed, at most the hard limit of them, and whether something was wrong with them.\<close>

fun collect_control :: "control_message list \<Rightarrow> int list \<Rightarrow> bool \<Rightarrow> int list \<times> bool" where
  "collect_control [] fds invalid = (fds, invalid)"
| "collect_control (Other_Control # rest) fds invalid = collect_control rest fds True"
| "collect_control (Rights descriptors # rest) fds invalid =
     (let room = unat GWIPC_HARD_MAXIMUM_FDS - length fds
      in collect_control rest (fds @ take room descriptors) (invalid \<or> length descriptors > room))"

definition collect_descriptors :: "packet \<Rightarrow> int list \<times> bool" where
  "collect_descriptors p = collect_control (pk_control p) [] (pk_control_truncated p)"

definition word16_at :: "u8 list \<Rightarrow> nat \<Rightarrow> u16" where
  "word16_at b i = ucast (b ! i) OR push_bit 8 (ucast (b ! (i + 1)))"

definition word32_at :: "u8 list \<Rightarrow> nat \<Rightarrow> u32" where
  "word32_at b i = ucast (word16_at b i) OR push_bit 16 (ucast (word16_at b (i + 2)))"

definition word64_at :: "u8 list \<Rightarrow> nat \<Rightarrow> u64" where
  "word64_at b i = ucast (word32_at b i) OR push_bit 32 (ucast (word32_at b (i + 4)))"

text \<open>The envelope of a record that is refused, as far as it can be named in the error.\<close>

definition parse_error_context :: "u8 list \<Rightarrow> envelope option" where
  "parse_error_context b =
     (if length b < kEnvelopeSize \<or> take 4 b \<noteq> magic \<or> word16_at b 4 \<noteq> word_of_nat kEnvelopeSize \<or> word16_at b 22 \<noteq> 0 \<or>
         word64_at b 24 = 0 then None
      else Some \<lparr>en_major = word16_at b 6, en_minor = word16_at b 8, en_type = word16_at b 10,
        en_flags = word32_at b 12, en_payload_size = word32_at b 16, en_fd_count = word16_at b 20,
        en_sequence = word64_at b 24, en_reply_to = word64_at b 32\<rparr>)"

definition supported_established_type :: "u16 \<Rightarrow> bool" where
  "supported_established_type typ \<longleftrightarrow> typ \<in> {
     GWIPC_MESSAGE_PING, GWIPC_MESSAGE_PONG, GWIPC_MESSAGE_PROTOCOL_ERROR, GWIPC_MESSAGE_SNAPSHOT_BEGIN,
     GWIPC_MESSAGE_SNAPSHOT_END, GWIPC_MESSAGE_SNAPSHOT_ABORT, GWIPC_MESSAGE_OUTPUT_UPSERT, GWIPC_MESSAGE_OUTPUT_REMOVE,
     GWIPC_MESSAGE_OUTPUT_DESCRIPTOR_UPSERT, GWIPC_MESSAGE_OUTPUT_MODE_UPSERT, GWIPC_MESSAGE_SURFACE_UPSERT,
     GWIPC_MESSAGE_SURFACE_REMOVE, GWIPC_MESSAGE_SURFACE_POLICY_UPSERT, GWIPC_MESSAGE_SURFACE_OUTPUT_STATE,
     GWIPC_MESSAGE_BUFFER_ATTACH, GWIPC_MESSAGE_BUFFER_DETACH, GWIPC_MESSAGE_BUFFER_RELEASE,
     GWIPC_MESSAGE_SURFACE_DAMAGE, GWIPC_MESSAGE_FRAME_COMMIT, GWIPC_MESSAGE_FRAME_ACKNOWLEDGED,
     GWIPC_MESSAGE_POLICY_CONTEXT_UPSERT, GWIPC_MESSAGE_POLICY_WINDOW_UPSERT, GWIPC_MESSAGE_POLICY_WINDOW_REMOVE,
     GWIPC_MESSAGE_POLICY_LIFECYCLE_WINDOW_UPSERT, GWIPC_MESSAGE_POLICY_OUTPUT_UPSERT,
     GWIPC_MESSAGE_POLICY_WINDOW_OUTPUT_HINT, GWIPC_MESSAGE_POLICY_COMMIT, GWIPC_MESSAGE_POLICY_WINDOW_STATE,
     GWIPC_MESSAGE_POLICY_ACKNOWLEDGED, GWIPC_MESSAGE_POLICY_BINDINGS_UPSERT, GWIPC_MESSAGE_SYNTHETIC_MOTION,
     GWIPC_MESSAGE_SYNTHETIC_BUTTON, GWIPC_MESSAGE_SYNTHETIC_KEY, GWIPC_MESSAGE_SYNTHETIC_BARRIER,
     GWIPC_MESSAGE_SYNTHETIC_INPUT_ACKNOWLEDGED, GWIPC_MESSAGE_SESSION_STATE_CHANGE,
     GWIPC_MESSAGE_SESSION_STATE_ACKNOWLEDGED, GWIPC_MESSAGE_OUTPUT_STATE_QUERY,
     GWIPC_MESSAGE_OUTPUT_CONFIGURATION_COMMIT, GWIPC_MESSAGE_OUTPUT_CONFIGURATION_ACKNOWLEDGED}"

text \<open>A refused record closes the connection, with an error to the peer when its envelope can be named.\<close>

definition refuse_record :: "kernel \<Rightarrow> connection \<Rightarrow> envelope option \<Rightarrow> u16 \<Rightarrow> string \<Rightarrow> gwipc_status \<times> connection" where
  "refuse_record k c context code detail =
     (case context of
        Some offending \<Rightarrow> protocol_failure k c code offending detail ST_PROTOCOL_ERROR
      | None \<Rightarrow> (ST_PROTOCOL_ERROR, set_closed c))"

definition decode_record ::
    "kernel \<Rightarrow> connection \<Rightarrow> u8 list \<Rightarrow> int list \<Rightarrow> bool \<Rightarrow> (gwipc_status + envelope) \<times> connection" where
  "decode_record k c data fds ancillary_invalid =
     (let room = kEnvelopeSize + unat (maximum_payload_of c); context = parse_error_context (take room data);
          too_many = length fds > unat (maximum_fds_of c)
      in if ancillary_invalid \<or> length data > room \<or> too_many then
           apfst Inl (refuse_record k c context
             (if ancillary_invalid \<or> too_many then PE_InvalidDescriptorCount else PE_LimitExceeded)
             ''record or descriptor limit exceeded'')
         else case decode_envelope data (length fds) (maximum_payload_of c) of
                Inl status \<Rightarrow>
                  apfst Inl (refuse_record k c context
                    (if map_option (\<lambda>e. unat (en_fd_count e)) context \<noteq> Some (length fds) then PE_InvalidDescriptorCount
                     else if status = LimitExceeded then PE_LimitExceeded else PE_MalformedEnvelope)
                    ''malformed message envelope'')
              | Inr envelope \<Rightarrow>
                  if en_sequence envelope \<noteq> c_next_receive_sequence c then
                    apfst Inl (protocol_failure k c PE_OutOfOrderSequence envelope ''out-of-order sequence'' ST_PROTOCOL_ERROR)
                  else if c_next_receive_sequence c = -1 then (Inl ST_LIMIT_EXCEEDED, set_closed c)
                  else (Inr envelope, c\<lparr>c_next_receive_sequence := c_next_receive_sequence c + 1\<rparr>))"

definition receive_record ::
    "kernel \<Rightarrow> connection \<Rightarrow> recv_result \<Rightarrow> (gwipc_status + envelope \<times> u8 list \<times> int list) \<times> connection" where
  "receive_record k c result =
     (case result of
        Recv_Interrupted \<Rightarrow> (Inl ST_OK, c)
      | Recv_Again \<Rightarrow> (Inl ST_WOULD_BLOCK, c)
      | Recv_Error errno \<Rightarrow> (Inl ST_SYSTEM_ERROR, set_closed (c\<lparr>c_system_errno := errno\<rparr>))
      | Received p \<Rightarrow>
          if pk_data p = [] then (Inl ST_DISCONNECTED, set_closed c)
          else case collect_descriptors p of (fds, invalid) \<Rightarrow>
            apfst (map_sum (\<lambda>s. s) (\<lambda>e. (e, drop kEnvelopeSize (pk_data p), fds)))
              (decode_record k c (pk_data p) fds invalid))"

section \<open>Handshake\<close>

definition reject_peer :: "kernel \<Rightarrow> connection \<Rightarrow> u16 \<Rightarrow> string \<Rightarrow> gwipc_status \<Rightarrow> gwipc_status \<times> connection" where
  "reject_peer k c reason detail result =
     (case queue_internal k c GWIPC_MESSAGE_REJECT GWIPC_FLAG_REPLY 1
             (encode_reject \<lparr>re_reason = reason, re_supported_minimum_major = kWireMajor,
                re_supported_minimum_minor = kWireMinor, re_supported_maximum_major = kWireMajor,
                re_supported_maximum_minor = kWireMinor, re_detail = ascii detail\<rparr>) [] of (queued, c) \<Rightarrow>
        if queued \<noteq> ST_OK then (result, set_closed c)
        else (result, c\<lparr>c_state := CS_REJECTING, c_close_after_flush := True\<rparr>))"

definition rejection_status :: "u16 \<Rightarrow> gwipc_status" where
  "rejection_status reason =
     (if reason = RR_IncompatibleVersion then ST_VERSION_MISMATCH
      else if reason = RR_RoleNotAllowed then ST_ROLE_REJECTED
      else if reason = RR_CapabilityMismatch then ST_CAPABILITY_MISMATCH
      else if reason = RR_CredentialRejected then ST_CREDENTIAL_REJECTED
      else ST_PROTOCOL_ERROR)"

definition role_allowed :: "config \<Rightarrow> u16 \<Rightarrow> bool" where
  "role_allowed cfg role \<longleftrightarrow>
     role \<noteq> 0 \<and> ucast role \<le> GWIPC_ROLE_DIAGNOSTIC_TOOL \<and> cf_peer_roles cfg AND GWIPC_ROLE_BIT (ucast role) \<noteq> 0"

definition hello_of :: "config \<Rightarrow> hello" where
  "hello_of cfg = \<lparr>he_minimum_major = kWireMajor, he_minimum_minor = kWireMinor, he_maximum_major = kWireMajor,
     he_maximum_minor = kWireMinor, he_sender_role = ucast (cf_local_role cfg),
     he_offered_capabilities = cf_offered_capabilities cfg, he_required_capabilities = cf_required_peer_capabilities cfg,
     he_maximum_payload = cf_maximum_payload cfg, he_maximum_fd_count = cf_maximum_fd_count cfg,
     he_sender_instance_id = cf_instance_id cfg, he_name = cf_label cfg\<rparr>"

definition queue_hello :: "kernel \<Rightarrow> connection \<Rightarrow> gwipc_status \<times> connection" where
  "queue_hello k c = queue_internal k c GWIPC_MESSAGE_HELLO 0 0 (encode_hello (hello_of (c_config c))) []"

text \<open>The connection as the server negotiates it and the answer it sends.\<close>

definition negotiated_capabilities :: "config \<Rightarrow> hello \<Rightarrow> u64" where
  "negotiated_capabilities cfg hello = he_offered_capabilities hello AND cf_offered_capabilities cfg AND kKnownCapabilities"

definition negotiate :: "connection \<Rightarrow> hello \<Rightarrow> connection" where
  "negotiate c hello = c\<lparr>c_peer := (c_peer c)\<lparr>peer_role := ucast (he_sender_role hello),
     peer_wire_version := (kWireMajor, kWireMinor), peer_capabilities := negotiated_capabilities (c_config c) hello,
     peer_maximum_payload := min (cf_maximum_payload (c_config c)) (he_maximum_payload hello),
     peer_maximum_fd_count := min (cf_maximum_fd_count (c_config c)) (he_maximum_fd_count hello),
     peer_connection_id := c_assigned_connection_id c\<rparr>\<rparr>"

definition welcome_of :: "connection \<Rightarrow> welcome_message" where
  "welcome_of c = \<lparr>we_selected_major = kWireMajor, we_selected_minor = kWireMinor,
     we_sender_role = ucast (cf_local_role (c_config c)), we_negotiated_capabilities = peer_capabilities (c_peer c),
     we_negotiated_maximum_payload = peer_maximum_payload (c_peer c),
     we_negotiated_maximum_fd_count = peer_maximum_fd_count (c_peer c), we_connection_id = c_assigned_connection_id c,
     we_sender_instance_id = cf_instance_id (c_config c)\<rparr>"

definition accept_hello :: "kernel \<Rightarrow> connection \<Rightarrow> envelope \<Rightarrow> hello \<Rightarrow> gwipc_status \<times> connection" where
  "accept_hello k c envelope hello =
     (let c = negotiate c hello
      in case queue_internal k c GWIPC_MESSAGE_WELCOME GWIPC_FLAG_REPLY (en_sequence envelope)
                (encode_welcome_message (welcome_of c)) [] of (status, c) \<Rightarrow>
           (status, if status = ST_OK then c\<lparr>c_state := CS_ESTABLISHED\<rparr> else c))"

definition handle_hello :: "kernel \<Rightarrow> connection \<Rightarrow> envelope \<Rightarrow> u8 list \<Rightarrow> gwipc_status \<times> connection" where
  "handle_hello k c envelope payload =
     (case decode_hello payload of
        Inl _ \<Rightarrow> reject_peer k c RR_InvalidHello ''invalid hello'' ST_PROTOCOL_ERROR
      | Inr hello \<Rightarrow>
          let cfg = c_config c; negotiated = negotiated_capabilities cfg hello
          in if en_type envelope \<noteq> GWIPC_MESSAGE_HELLO \<or> en_flags envelope \<noteq> 0 \<or> en_fd_count envelope \<noteq> 0
             then reject_peer k c RR_InvalidHello ''invalid hello'' ST_PROTOCOL_ERROR
             else if he_minimum_major hello > kWireMajor \<or> he_maximum_major hello < kWireMajor \<or>
                he_minimum_minor hello > 0 \<or> he_maximum_minor hello < kWireMinor
             then reject_peer k c RR_IncompatibleVersion ''wire version mismatch'' ST_VERSION_MISMATCH
             else if \<not> role_allowed cfg (he_sender_role hello)
             then reject_peer k c RR_RoleNotAllowed ''peer role is not allowed'' ST_ROLE_REJECTED
             else if he_maximum_payload hello = 0 \<or> he_maximum_payload hello > GWIPC_HARD_MAXIMUM_PAYLOAD \<or>
                he_maximum_fd_count hello > GWIPC_HARD_MAXIMUM_FDS \<or>
                he_required_capabilities hello AND NOT kKnownCapabilities \<noteq> 0
             then reject_peer k c RR_InvalidHello ''invalid offered limits'' ST_PROTOCOL_ERROR
             else if he_required_capabilities hello AND negotiated \<noteq> he_required_capabilities hello \<or>
                cf_required_peer_capabilities cfg AND negotiated \<noteq> cf_required_peer_capabilities cfg
             then reject_peer k c RR_CapabilityMismatch ''required capability is unavailable'' ST_CAPABILITY_MISMATCH
             else accept_hello k c envelope hello)"

definition accept_welcome :: "connection \<Rightarrow> welcome_message \<Rightarrow> connection" where
  "accept_welcome c w = c\<lparr>c_peer := (c_peer c)\<lparr>peer_role := ucast (we_sender_role w),
       peer_wire_version := (we_selected_major w, we_selected_minor w), peer_capabilities := we_negotiated_capabilities w,
       peer_maximum_payload := we_negotiated_maximum_payload w, peer_maximum_fd_count := we_negotiated_maximum_fd_count w,
       peer_connection_id := we_connection_id w\<rparr>,
     c_pending_replies := c_pending_replies c |-| {|1|}, c_state := CS_ESTABLISHED\<rparr>"

definition handle_rejection :: "connection \<Rightarrow> envelope \<Rightarrow> u8 list \<Rightarrow> gwipc_status \<times> connection" where
  "handle_rejection c envelope payload =
     (case decode_reject payload of
        Inl _ \<Rightarrow> (ST_PROTOCOL_ERROR, set_closed c)
      | Inr r \<Rightarrow>
          if en_flags envelope \<noteq> GWIPC_FLAG_REPLY \<or> en_reply_to envelope \<noteq> 1 \<or> en_fd_count envelope \<noteq> 0
          then (ST_PROTOCOL_ERROR, set_closed c) else (rejection_status (re_reason r), set_closed c))"

definition handle_welcome :: "connection \<Rightarrow> envelope \<Rightarrow> u8 list \<Rightarrow> gwipc_status \<times> connection" where
  "handle_welcome c envelope payload =
     (if en_type envelope = GWIPC_MESSAGE_REJECT then handle_rejection c envelope payload
      else case decode_welcome_message payload of
             Inl _ \<Rightarrow> (ST_PROTOCOL_ERROR, set_closed c)
           | Inr w \<Rightarrow>
               let cfg = c_config c; capabilities = we_negotiated_capabilities w
               in if en_type envelope \<noteq> GWIPC_MESSAGE_WELCOME \<or> en_flags envelope \<noteq> GWIPC_FLAG_REPLY \<or>
                     en_reply_to envelope \<noteq> 1 \<or> en_fd_count envelope \<noteq> 0
                  then (ST_PROTOCOL_ERROR, set_closed c)
                  else if \<not> role_allowed cfg (we_sender_role w) then (ST_ROLE_REJECTED, set_closed c)
                  else if we_selected_major w \<noteq> kWireMajor \<or> we_selected_minor w \<noteq> kWireMinor
                  then (ST_VERSION_MISMATCH, set_closed c)
                  else if capabilities AND NOT (cf_offered_capabilities cfg) \<noteq> 0 \<or>
                     cf_required_peer_capabilities cfg AND capabilities \<noteq> cf_required_peer_capabilities cfg \<or>
                     we_negotiated_maximum_payload w = 0 \<or> we_negotiated_maximum_payload w > cf_maximum_payload cfg \<or>
                     we_negotiated_maximum_fd_count w > cf_maximum_fd_count cfg \<or> we_connection_id w = 0
                  then (ST_PROTOCOL_ERROR, set_closed c)
                  else (ST_OK, accept_welcome c w))"

section \<open>Correlation of what is received\<close>

text \<open>
  The entry a reply of some kind refers to is removed when the reply agrees with it; otherwise the peer has
  violated the protocol. The map is given by its selector and its update.
\<close>

definition take_pending ::
    "kernel \<Rightarrow> envelope \<Rightarrow> string \<Rightarrow> (connection \<Rightarrow> (u64, 'v) fmap) \<Rightarrow>
     (((u64, 'v) fmap \<Rightarrow> (u64, 'v) fmap) \<Rightarrow> connection \<Rightarrow> connection) \<Rightarrow> 'r option \<Rightarrow> ('v \<Rightarrow> 'r \<Rightarrow> bool) \<Rightarrow>
     connection \<Rightarrow> gwipc_status \<times> connection" where
  "take_pending k envelope detail entries update value agree c =
     (if answers (fmlookup (entries c) (en_reply_to envelope)) value agree
      then (ST_OK, update (fmdrop (en_reply_to envelope)) c)
      else protocol_failure k c PE_UnexpectedReply envelope detail ST_PROTOCOL_ERROR)"

definition take_expected :: "kernel \<Rightarrow> envelope \<Rightarrow> u8 list \<Rightarrow> connection \<Rightarrow> gwipc_status \<times> connection" where
  "take_expected k envelope payload c =
     (let typ = en_type envelope
      in if typ = GWIPC_MESSAGE_OUTPUT_CONFIGURATION_ACKNOWLEDGED
         then take_pending k envelope ''output acknowledgement does not match query or configuration''
           c_pending_output_requests c_pending_output_requests_update (acknowledgement_identity payload)
           (\<lambda>e request_id. oco_request_id e = request_id) c
         else if typ = GWIPC_MESSAGE_PONG
         then take_pending k envelope ''unexpected pong reply'' c_pending_ping_nonces c_pending_ping_nonces_update
           (decoded_value (decode_pong payload)) (\<lambda>e v. po_nonce v = e) c
         else if typ = GWIPC_MESSAGE_FRAME_ACKNOWLEDGED
         then take_pending k envelope ''frame acknowledgement does not match commit'' c_pending_frame_commits
           c_pending_frame_commits_update (decoded_value (decode_wire_frame_acknowledged payload))
           (\<lambda>e v. wfa_commit_id v = e) c
         else if typ = GWIPC_MESSAGE_POLICY_ACKNOWLEDGED
         then take_pending k envelope ''policy acknowledgement does not match commit'' c_pending_policy_commits
           c_pending_policy_commits_update (decoded_value (decode_policy_acknowledged payload))
           (\<lambda>e v. pak_commit_id v = e) c
         else if typ = GWIPC_MESSAGE_SYNTHETIC_INPUT_ACKNOWLEDGED
         then take_pending k envelope ''synthetic input acknowledgement does not match input'' c_pending_synthetic_inputs
           c_pending_synthetic_inputs_update (decoded_value (decode_synthetic_input_acknowledged payload))
           (\<lambda>e v. sia_input_id v = e) c
         else if typ = GWIPC_MESSAGE_SESSION_STATE_ACKNOWLEDGED
         then take_pending k envelope ''session state acknowledgement does not match request'' c_pending_session_states
           c_pending_session_states_update (decoded_value (decode_session_state_acknowledged payload))
           (\<lambda>e v. sco_generation e = sa_generation v \<and> sco_state e = sa_state v) c
         else (ST_OK, c))"

definition take_reply :: "kernel \<Rightarrow> envelope \<Rightarrow> connection \<Rightarrow> gwipc_status \<times> connection" where
  "take_reply k envelope c =
     (if en_reply_to envelope |\<in>| c_pending_replies c
      then (ST_OK, c\<lparr>c_pending_replies := c_pending_replies c |-| {|en_reply_to envelope|}\<rparr>)
      else if en_type envelope = GWIPC_MESSAGE_PROTOCOL_ERROR \<and> en_reply_to envelope > 0 \<and>
              en_reply_to envelope < c_next_send_sequence c then (ST_OK, c)
      else protocol_failure k c PE_UnexpectedReply envelope ''unexpected reply correlation'' ST_PROTOCOL_ERROR)"

definition validate_incoming_reply :: "kernel \<Rightarrow> connection \<Rightarrow> envelope \<Rightarrow> u8 list \<Rightarrow> gwipc_status \<times> connection" where
  "validate_incoming_reply k c envelope payload =
     and_then (take_expected k envelope payload c) (take_reply k envelope)"

text \<open>A request that must be acknowledged is remembered, up to the limit.\<close>

definition track_pending ::
    "kernel \<Rightarrow> envelope \<Rightarrow> string \<Rightarrow> (connection \<Rightarrow> (u64, 'v) fmap) \<Rightarrow>
     (((u64, 'v) fmap \<Rightarrow> (u64, 'v) fmap) \<Rightarrow> connection \<Rightarrow> connection) \<Rightarrow> 'v option \<Rightarrow>
     connection \<Rightarrow> gwipc_status \<times> connection" where
  "track_pending k envelope detail entries update value c =
     (case value of
        None \<Rightarrow> protocol_failure k c PE_LimitExceeded envelope detail ST_LIMIT_EXCEEDED
      | Some v \<Rightarrow>
          if tracking_full c (entries c) then protocol_failure k c PE_LimitExceeded envelope detail ST_LIMIT_EXCEEDED
          else (ST_OK, update (fm_emplace (en_sequence envelope) v) c))"

definition track_incoming_output_request ::
    "kernel \<Rightarrow> connection \<Rightarrow> envelope \<Rightarrow> u8 list \<Rightarrow> gwipc_status \<times> connection" where
  "track_incoming_output_request k c envelope payload =
     (case output_request_identity (en_type envelope) payload of
        None \<Rightarrow> protocol_failure k c PE_MalformedPayload envelope ''invalid output request correlation'' ST_PROTOCOL_ERROR
      | Some request_id \<Rightarrow>
          if tracking_full c (c_incoming_output_requests c)
          then protocol_failure k c PE_LimitExceeded envelope ''output request tracking limit exceeded'' ST_LIMIT_EXCEEDED
          else if en_sequence envelope |\<in>| fmdom (c_incoming_output_requests c)
          then protocol_failure k c PE_UnexpectedReply envelope ''duplicate output request sequence'' ST_PROTOCOL_ERROR
          else (ST_OK, c\<lparr>c_incoming_output_requests := fm_emplace (en_sequence envelope)
                  \<lparr>oco_request_id = request_id, oco_request_type = en_type envelope\<rparr> (c_incoming_output_requests c)\<rparr>))"

definition track_session_state :: "kernel \<Rightarrow> connection \<Rightarrow> envelope \<Rightarrow> u8 list \<Rightarrow> gwipc_status \<times> connection" where
  "track_session_state k c envelope payload =
     (case decoded_value (decode_session_state_change payload) of
        None \<Rightarrow> protocol_failure k c PE_MalformedPayload envelope ''session generation is not strictly increasing'' ST_PROTOCOL_ERROR
      | Some v \<Rightarrow>
          if sc_generation v \<le> c_last_incoming_session_generation c
          then protocol_failure k c PE_MalformedPayload envelope ''session generation is not strictly increasing'' ST_PROTOCOL_ERROR
          else track_pending k envelope ''session acknowledgement tracking limit exceeded'' c_incoming_session_states
            c_incoming_session_states_update (Some \<lparr>sco_generation = sc_generation v, sco_state = sc_state v\<rparr>) c)"

definition synthetic_input :: "u16 \<Rightarrow> bool" where
  "synthetic_input typ \<longleftrightarrow> typ \<in> {GWIPC_MESSAGE_SYNTHETIC_MOTION, GWIPC_MESSAGE_SYNTHETIC_BUTTON,
     GWIPC_MESSAGE_SYNTHETIC_KEY, GWIPC_MESSAGE_SYNTHETIC_BARRIER}"

definition track_incoming_request :: "kernel \<Rightarrow> connection \<Rightarrow> envelope \<Rightarrow> u8 list \<Rightarrow> gwipc_status \<times> connection" where
  "track_incoming_request k c envelope payload =
     (let typ = en_type envelope
      in if output_request typ then track_incoming_output_request k c envelope payload
         else if typ = GWIPC_MESSAGE_FRAME_COMMIT
         then track_pending k envelope ''frame acknowledgement tracking limit exceeded'' c_incoming_frame_commits
           c_incoming_frame_commits_update (map_option wfc_commit_id (decoded_value (decode_wire_frame_commit payload))) c
         else if typ = GWIPC_MESSAGE_POLICY_COMMIT
         then track_pending k envelope ''policy acknowledgement tracking limit exceeded'' c_incoming_policy_commits
           c_incoming_policy_commits_update (map_option pco_commit_id (decoded_value (decode_policy_commit payload))) c
         else if synthetic_input_id typ payload \<noteq> None
         then track_pending k envelope ''synthetic input acknowledgement tracking limit exceeded'' c_incoming_synthetic_inputs
           c_incoming_synthetic_inputs_update (synthetic_input_id typ payload) c
         else if typ = GWIPC_MESSAGE_SESSION_STATE_CHANGE then track_session_state k c envelope payload
         else (ST_OK, c))"

definition rollback_incoming_request :: "connection \<Rightarrow> envelope \<Rightarrow> connection" where
  "rollback_incoming_request c envelope =
     (let typ = en_type envelope; s = en_sequence envelope
      in c\<lparr>c_incoming_output_requests := drop_if (output_request typ) s (c_incoming_output_requests c),
        c_incoming_frame_commits := drop_if (typ = GWIPC_MESSAGE_FRAME_COMMIT) s (c_incoming_frame_commits c),
        c_incoming_policy_commits := drop_if (typ = GWIPC_MESSAGE_POLICY_COMMIT) s (c_incoming_policy_commits c),
        c_incoming_synthetic_inputs := drop_if (synthetic_input typ) s (c_incoming_synthetic_inputs c),
        c_incoming_session_states := drop_if (typ = GWIPC_MESSAGE_SESSION_STATE_CHANGE) s (c_incoming_session_states c)\<rparr>)"

definition commit_incoming_request :: "connection \<Rightarrow> envelope \<Rightarrow> u8 list \<Rightarrow> connection" where
  "commit_incoming_request c envelope payload =
     (if en_type envelope \<noteq> GWIPC_MESSAGE_SESSION_STATE_CHANGE then c
      else case decode_session_state_change payload of
             Inl _ \<Rightarrow> c
           | Inr v \<Rightarrow> c\<lparr>c_last_incoming_session_generation := sc_generation v\<rparr>)"

section \<open>Established connections\<close>

definition unsupported_message :: "kernel \<Rightarrow> connection \<Rightarrow> envelope \<Rightarrow> gwipc_status \<times> connection" where
  "unsupported_message k c envelope =
     (case queue_internal k c GWIPC_MESSAGE_PROTOCOL_ERROR (GWIPC_FLAG_REPLY OR GWIPC_FLAG_ERROR) (en_sequence envelope)
             (encode_protocol_error \<lparr>pe_code = PE_UnsupportedMessage, pe_offending_type = en_type envelope,
                pe_offending_sequence = en_sequence envelope, pe_detail = ascii ''unsupported message type''\<rparr>) [] of
        (queued, c) \<Rightarrow>
          if queued \<noteq> ST_OK then (queued, set_closed c)
          else if en_flags envelope AND GWIPC_FLAG_CRITICAL \<noteq> 0
          then (ST_PROTOCOL_ERROR, c\<lparr>c_state := CS_CLOSING, c_close_after_flush := True\<rparr>)
          else (ST_OK, c))"

text \<open>The code of the error with which a message that was not validated is answered.\<close>

definition violation_code :: "gwipc_status \<Rightarrow> envelope \<Rightarrow> u8 list \<Rightarrow> int list \<Rightarrow> u16" where
  "violation_code status envelope payload fds =
     (if status = ST_CAPABILITY_MISMATCH then PE_MissingCapability
      else if output_extension_message (en_type envelope) \<and> fds \<noteq> [] then PE_InvalidDescriptorCount
      else if snapshot_control (en_type envelope) \<or> en_flags envelope AND GWIPC_FLAG_SNAPSHOT_ITEM \<noteq> 0
      then PE_SnapshotViolation
      else if en_type envelope = GWIPC_MESSAGE_BUFFER_ATTACH
      then (if length fds = (case decode_buffer_attach payload of Inl _ \<Rightarrow> 1 | Inr v \<Rightarrow> attachment_fds v)
            then PE_InvalidDescriptor else PE_InvalidDescriptorCount)
      else PE_MalformedPayload)"

definition answer_ping :: "kernel \<Rightarrow> connection \<Rightarrow> envelope \<Rightarrow> u8 list \<Rightarrow> int list \<Rightarrow> gwipc_status \<times> connection" where
  "answer_ping k c envelope payload fds =
     (let refuse = protocol_failure k c (if fds \<noteq> [] then PE_InvalidDescriptorCount else PE_MalformedPayload) envelope
            ''invalid ping message'' ST_PROTOCOL_ERROR
      in if en_flags envelope \<noteq> GWIPC_FLAG_ACK_REQUIRED \<or> en_reply_to envelope \<noteq> 0 \<or> fds \<noteq> [] then refuse
         else case decode_ping payload of
                Inl _ \<Rightarrow> refuse
              | Inr v \<Rightarrow> queue_internal k c GWIPC_MESSAGE_PONG GWIPC_FLAG_REPLY (en_sequence envelope)
                  (encode_pong \<lparr>po_nonce = pi_nonce v\<rparr>) [])"

text \<open>A message that is neither a ping nor of an unknown type.\<close>

definition validate_supported :: "kernel \<Rightarrow> connection \<Rightarrow> envelope \<Rightarrow> u8 list \<Rightarrow> int list \<Rightarrow> gwipc_status \<times> connection" where
  "validate_supported k c envelope payload fds =
     (case validate_application k c (en_type envelope) (en_flags envelope) payload fds (c_incoming_snapshot c) Incoming of
        (status, s) \<Rightarrow>
          let c = c\<lparr>c_incoming_snapshot := s\<rparr>
          in if status = ST_OK then (ST_OK, c)
             else protocol_failure k c (violation_code status envelope payload fds) envelope
               ''invalid application message'' status)"

definition validate_established :: "kernel \<Rightarrow> connection \<Rightarrow> envelope \<Rightarrow> u8 list \<Rightarrow> int list \<Rightarrow> gwipc_status \<times> connection" where
  "validate_established k c envelope payload fds =
     (if (en_major envelope, en_minor envelope) \<noteq> peer_wire_version (c_peer c) \<or>
         en_type envelope \<in> {GWIPC_MESSAGE_HELLO, GWIPC_MESSAGE_WELCOME, GWIPC_MESSAGE_REJECT}
      then protocol_failure k c PE_MalformedEnvelope envelope ''invalid established message envelope'' ST_PROTOCOL_ERROR
      else and_then
        (if en_flags envelope AND GWIPC_FLAG_REPLY \<noteq> 0 then validate_incoming_reply k c envelope payload else (ST_OK, c))
        (\<lambda>c. if en_type envelope = GWIPC_MESSAGE_PING then answer_ping k c envelope payload fds
             else if \<not> supported_established_type (en_type envelope) then unsupported_message k c envelope
             else validate_supported k c envelope payload fds))"

definition queue_received :: "kernel \<Rightarrow> connection \<Rightarrow> envelope \<Rightarrow> u8 list \<Rightarrow> int list \<Rightarrow> gwipc_status \<times> connection" where
  "queue_received k c envelope payload fds =
     and_then (track_incoming_request k c envelope payload)
       (\<lambda>c. if length (c_incoming c) \<ge> unat (cf_maximum_queued_messages (c_config c))
            then protocol_failure k (rollback_incoming_request c envelope) PE_LimitExceeded envelope
              ''incoming queue limit exceeded'' ST_LIMIT_EXCEEDED
            else (ST_OK, commit_incoming_request (c\<lparr>c_incoming := c_incoming c @
              [\<lparr>me_type = en_type envelope, me_flags = en_flags envelope, me_sequence = en_sequence envelope,
                me_reply_to = en_reply_to envelope, me_payload = payload, me_fds = fds\<rparr>]\<rparr>) envelope payload))"

definition dispatch_record :: "kernel \<Rightarrow> connection \<Rightarrow> envelope \<Rightarrow> u8 list \<Rightarrow> int list \<Rightarrow> gwipc_status \<times> connection" where
  "dispatch_record k c envelope payload fds =
     (if c_state c = CS_AWAITING_HELLO then handle_hello k c envelope payload
      else if c_state c = CS_AWAITING_WELCOME then handle_welcome c envelope payload
      else if c_state c \<noteq> CS_ESTABLISHED then (ST_INVALID_STATE, c)
      else case validate_established k c envelope payload fds of (validated, c) \<Rightarrow>
        if validated \<noteq> ST_OK \<or> en_type envelope = GWIPC_MESSAGE_PING \<or> \<not> supported_established_type (en_type envelope)
        then (validated, c)
        else queue_received k c envelope payload fds)"

definition receive_one :: "kernel \<Rightarrow> connection \<Rightarrow> recv_result \<Rightarrow> gwipc_status \<times> connection" where
  "receive_one k c result =
     (case receive_record k c result of
        (Inl status, c) \<Rightarrow> (status, c)
      | (Inr (envelope, payload, fds), c) \<Rightarrow> dispatch_record k c envelope payload fds)"

end
