(* ===== verification/Ipc_Endpoint.thy ===== *)
theory Ipc_Endpoint
  imports Ipc_Receive
begin

text \<open>
  The life of a connection: configurations, accepting and connecting, the poll loop that receives and sends,
  and the functions of the C interface (\<open>ipc/public_api.cpp\<close>, \<open>ipc/connection.cpp\<close>,
  \<open>ipc/connection_poll.cpp\<close>, \<open>ipc/message.cpp\<close>).

  The results of the system calls are inputs: the lists of what \<open>recvmsg\<close> and \<open>sendmsg\<close> return (an exhausted
  list is a socket that would block), the pending error of the socket, the credentials of the peer and the
  effective user.
\<close>

section \<open>Configurations\<close>

definition valid_role :: "u32 \<Rightarrow> bool" where
  "valid_role role \<longleftrightarrow> role \<ge> GWIPC_ROLE_PROTOCOL_SERVER \<and> role \<le> GWIPC_ROLE_DIAGNOSTIC_TOOL"

definition validate_config :: "config \<Rightarrow> gwipc_status" where
  "validate_config cfg =
     (if \<not> valid_role (cf_local_role cfg) \<or> cf_peer_roles cfg = 0 \<or> cf_path cfg = [] \<or> length (cf_label cfg) > 64 \<or>
         cf_maximum_payload cfg > GWIPC_HARD_MAXIMUM_PAYLOAD \<or> cf_maximum_fd_count cfg > GWIPC_HARD_MAXIMUM_FDS \<or>
         cf_maximum_queued_bytes cfg > GWIPC_HARD_MAXIMUM_QUEUED_BYTES \<or> cf_maximum_queued_messages cfg = 0 \<or>
         cf_required_peer_capabilities cfg AND NOT kKnownCapabilities \<noteq> 0
      then ST_INVALID_ARGUMENT else ST_OK)"

definition defaulted :: "'a::len word \<Rightarrow> 'a word \<Rightarrow> 'a word" where
  "defaulted value fallback = (if value = 0 then fallback else value)"

record connection_options =
  co_struct_size :: nat
  co_path :: "u8 list option"
  co_local_role :: u32
  co_peer_roles :: u64
  co_offered_capabilities :: u64
  co_required_peer_capabilities :: u64
  co_maximum_payload :: u32
  co_maximum_fd_count :: u16
  co_allow_any_uid_for_tests :: u8
  co_maximum_queued_bytes :: u32
  co_maximum_queued_messages :: u16
  co_instance_label :: "u8 list option"
  co_reserved :: "u64 list"

definition sizeof_connection_options :: nat where
  "sizeof_connection_options = 104"

definition sizeof_listener_options :: nat where
  "sizeof_listener_options = 104"

text \<open>A fresh instance identifier: the random bytes, never all zero.\<close>

definition fill_instance_id :: "u8 list option \<Rightarrow> u8 list option" where
  "fill_instance_id random =
     (case random of
        None \<Rightarrow> None
      | Some bytes \<Rightarrow> Some (if \<forall>byte \<in> set bytes. byte = 0 then bytes[0 := 1] else bytes))"

definition options_config :: "connection_options \<Rightarrow> u8 list \<Rightarrow> bool \<Rightarrow> config" where
  "options_config options path require_same_uid = \<lparr>cf_path = path, cf_local_role = co_local_role options, cf_peer_roles = co_peer_roles options,
     cf_offered_capabilities = co_offered_capabilities options,
     cf_required_peer_capabilities = co_required_peer_capabilities options,
     cf_maximum_payload = defaulted (co_maximum_payload options) GWIPC_DEFAULT_MAXIMUM_PAYLOAD,
     cf_maximum_fd_count = defaulted (co_maximum_fd_count options) GWIPC_DEFAULT_MAXIMUM_FDS,
     cf_maximum_queued_bytes = defaulted (co_maximum_queued_bytes options) GWIPC_DEFAULT_MAXIMUM_QUEUED_BYTES,
     cf_maximum_queued_messages = defaulted (co_maximum_queued_messages options) GWIPC_DEFAULT_MAXIMUM_QUEUED_MESSAGES,
     cf_label = (case co_instance_label options of None \<Rightarrow> [] | Some l \<Rightarrow> l), cf_instance_id = replicate 16 0,
     cf_require_same_uid = require_same_uid\<rparr>"

definition checked_config :: "nat \<Rightarrow> connection_options \<Rightarrow> bool \<Rightarrow> u8 list option \<Rightarrow> gwipc_status + config" where
  "checked_config minimum_size options require_same_uid random =
     (case co_path options of
        None \<Rightarrow> Inl ST_INVALID_ARGUMENT
      | Some path \<Rightarrow>
          if co_struct_size options < minimum_size \<or> (\<exists>r \<in> set (co_reserved options). r \<noteq> 0) then Inl ST_INVALID_ARGUMENT
          else case fill_instance_id random of
                 None \<Rightarrow> Inl ST_SYSTEM_ERROR
               | Some instance_id \<Rightarrow>
                   let cfg = (options_config options path require_same_uid)\<lparr>cf_instance_id := instance_id\<rparr>
                   in if validate_config cfg = ST_OK then Inr cfg else Inl (validate_config cfg))"

definition listener_config :: "connection_options \<Rightarrow> u8 list option \<Rightarrow> gwipc_status + config" where
  "listener_config options random = checked_config sizeof_listener_options options (co_allow_any_uid_for_tests options = 0) random"

definition client_config :: "connection_options \<Rightarrow> u8 list option \<Rightarrow> gwipc_status + config" where
  "client_config options random = checked_config sizeof_connection_options options True random"

section \<open>Accepting and connecting\<close>

text \<open>The credentials of the peer or the error number, and the effective user.\<close>

type_synonym credentials = "int + i32 \<times> u32 \<times> u32"

definition read_peer_credentials :: "credentials \<Rightarrow> connection \<Rightarrow> bool \<times> connection" where
  "read_peer_credentials credentials c =
     (case credentials of
        Inl errno \<Rightarrow> (False, c\<lparr>c_system_errno := errno\<rparr>)
      | Inr (pid, uid, gid) \<Rightarrow> (True, c\<lparr>c_peer := (c_peer c)\<lparr>peer_pid := pid, peer_uid := uid, peer_gid := gid\<rparr>\<rparr>))"

definition check_credentials :: "credentials \<Rightarrow> u32 \<Rightarrow> connection \<Rightarrow> gwipc_status \<times> connection" where
  "check_credentials credentials euid c =
     (case read_peer_credentials credentials c of (good, c) \<Rightarrow>
        if \<not> good then (ST_SYSTEM_ERROR, c)
        else let c = c\<lparr>c_peer_credentials_read := True\<rparr>
             in if cf_require_same_uid (c_config c) \<and> peer_uid (c_peer c) \<noteq> euid then (ST_CREDENTIAL_REJECTED, c)
                else (ST_OK, c))"

record listener =
  li_config :: config
  li_next_connection_id :: u64

text \<open>The connection of an accepted descriptor, or the status with which it is dropped.\<close>

definition listener_accept :: "listener \<Rightarrow> int \<Rightarrow> credentials \<Rightarrow> u32 \<Rightarrow> (gwipc_status + connection) \<times> listener" where
  "listener_accept l fd credentials euid =
     (let c = (new_connection (li_config l))\<lparr>c_fd := fd, c_server_side := True, c_state := CS_AWAITING_HELLO,
                c_assigned_connection_id := li_next_connection_id l\<rparr>;
          l' = l\<lparr>li_next_connection_id := li_next_connection_id l + 1\<rparr>
      in if c_assigned_connection_id c = 0 then (Inl ST_LIMIT_EXCEEDED, l\<lparr>li_next_connection_id := 0\<rparr>)
         else case check_credentials credentials euid c of (status, c) \<Rightarrow>
           if status = ST_OK then (Inr c, l') else (Inl status, l'))"

definition connection_connect :: "config \<Rightarrow> int \<Rightarrow> bool \<Rightarrow> credentials \<Rightarrow> u32 \<Rightarrow> gwipc_status + gwipc_status \<times> connection" where
  "connection_connect cfg fd in_progress credentials euid =
     (let c = (new_connection cfg)\<lparr>c_fd := fd, c_state := (if in_progress then CS_CONNECTING else CS_AWAITING_WELCOME)\<rparr>
      in if in_progress then Inr (ST_IN_PROGRESS, c)
         else case check_credentials credentials euid c of (status, c) \<Rightarrow>
           if status = ST_OK then Inr (ST_OK, c) else Inl status)"

text \<open>The error the socket had pending: the error number when it cannot be read, or the error, zero for none.\<close>

definition finish_connect :: "int + int \<Rightarrow> credentials \<Rightarrow> u32 \<Rightarrow> connection \<Rightarrow> gwipc_status \<times> connection" where
  "finish_connect socket_error credentials euid c =
     (if socket_error \<noteq> Inr 0
      then (ST_SYSTEM_ERROR, set_closed (c\<lparr>c_system_errno := (case socket_error of Inl errno \<Rightarrow> errno | Inr error \<Rightarrow> error)\<rparr>))
      else case check_credentials credentials euid (c\<lparr>c_state := CS_AWAITING_WELCOME\<rparr>) of (status, c) \<Rightarrow>
        if status \<noteq> ST_OK then (status, set_closed c) else (ST_OK, c))"

section \<open>The poll loop\<close>

datatype send_result = Sent nat | Send_Interrupted | Send_Again | Send_Error int

fun flush :: "send_result list \<Rightarrow> connection \<Rightarrow> gwipc_status \<times> connection" where
  "flush sends c =
     (case c_outgoing c of
        [] \<Rightarrow> (ST_OK, if c_close_after_flush c then set_closed c else c)
      | r # rest \<Rightarrow>
          (case sends of
             [] \<Rightarrow> (ST_WOULD_BLOCK, c)
           | Send_Again # _ \<Rightarrow> (ST_WOULD_BLOCK, c)
           | Send_Interrupted # sends \<Rightarrow> flush sends c
           | Send_Error errno # _ \<Rightarrow> (ST_SYSTEM_ERROR, set_closed (c\<lparr>c_system_errno := errno\<rparr>))
           | Sent n # sends \<Rightarrow>
               if n \<noteq> length (qr_bytes r) then (ST_SYSTEM_ERROR, set_closed c)
               else flush sends (c\<lparr>c_queued_bytes := c_queued_bytes c - length (qr_bytes r), c_outgoing := rest\<rparr>)))"

declare flush.simps [simp del]

fun drain_incoming :: "kernel \<Rightarrow> recv_result list \<Rightarrow> gwipc_status \<Rightarrow> connection \<Rightarrow> gwipc_status \<times> connection" where
  "drain_incoming k [] result c = (result, c)"
| "drain_incoming k (r # rs) result c =
     (case receive_one k c r of (status, c) \<Rightarrow>
        if status = ST_WOULD_BLOCK then (result, c)
        else let result = (if status \<noteq> ST_OK then status else result)
             in if c_state c = CS_CLOSED \<or> status \<in> {ST_DISCONNECTED, ST_SYSTEM_ERROR, ST_PROTOCOL_ERROR} then (result, c)
                else drain_incoming k rs result c)"

record poll_input =
  pl_in :: bool
  pl_out :: bool
  pl_error :: bool
  pl_hangup :: bool
  pl_socket_error :: "int + int"
  pl_credentials :: credentials
  pl_euid :: u32
  pl_received :: "recv_result list"
  pl_sent :: "send_result list"

text \<open>The last steps of the loop body, after records were received.\<close>

definition poll_outgoing :: "poll_input \<Rightarrow> gwipc_status \<Rightarrow> connection \<Rightarrow> gwipc_status \<times> connection" where
  "poll_outgoing p result c =
     (let (status, c) = (if c_outgoing c \<noteq> [] \<and> (pl_out p \<or> c_state c = CS_REJECTING) then flush (pl_sent p) c else (ST_OK, c))
      in if status \<noteq> ST_OK \<and> status \<noteq> ST_WOULD_BLOCK then (status, c)
         else if pl_hangup p \<and> c_outgoing c = [] then (if result = ST_OK then ST_DISCONNECTED else result, set_closed c)
         else (result, c))"

definition process_poll_events :: "kernel \<Rightarrow> poll_input \<Rightarrow> connection \<Rightarrow> gwipc_status \<times> connection" where
  "process_poll_events k p c =
     (if c_state c = CS_CLOSED then (ST_DISCONNECTED, c)
      else and_then (and_then
        (if c_state c = CS_CONNECTING \<and> pl_out p then finish_connect (pl_socket_error p) (pl_credentials p) (pl_euid p) c
         else (ST_OK, c))
        (\<lambda>c. if \<not> c_server_side c \<and> c_state c = CS_AWAITING_WELCOME \<and> c_next_send_sequence c = 1 then queue_hello k c
             else (ST_OK, c)))
        (\<lambda>c. let (result, c) = (if pl_in p then drain_incoming k (pl_received p) ST_OK c else (ST_OK, c))
             in if pl_error p then (ST_DISCONNECTED, set_closed c) else poll_outgoing p result c))"

section \<open>The C interface\<close>

definition wanted_poll_events :: "connection \<Rightarrow> bool \<times> bool" where
  "wanted_poll_events c =
     (if c_state c = CS_CLOSED then (False, False)
      else (True, c_state c = CS_CONNECTING \<or>
        (\<not> c_server_side c \<and> c_state c = CS_AWAITING_WELCOME \<and> c_next_send_sequence c = 1) \<or> c_outgoing c \<noteq> []))"

definition connection_receive :: "connection \<Rightarrow> (gwipc_status + ipc_message) \<times> connection" where
  "connection_receive c =
     (case c_incoming c of
        [] \<Rightarrow> (Inl (if c_state c = CS_CLOSED then ST_DISCONNECTED else ST_WOULD_BLOCK), c)
      | m # rest \<Rightarrow> (Inr m, c\<lparr>c_incoming := rest\<rparr>))"

definition message_fd_count :: "ipc_message \<Rightarrow> nat" where
  "message_fd_count m = length (filter (\<lambda>fd. fd \<ge> 0) (me_fds m))"

definition message_take_fd :: "ipc_message \<Rightarrow> nat \<Rightarrow> (gwipc_status + int) \<times> ipc_message" where
  "message_take_fd m index =
     (if index \<ge> length (me_fds m) then (Inl ST_INVALID_ARGUMENT, m)
      else if me_fds m ! index < 0 then (Inl ST_INVALID_STATE, m)
      else (Inr (me_fds m ! index), m\<lparr>me_fds := (me_fds m)[index := -1]\<rparr>))"

text \<open>What arrives when a queued record is sent: its data and its descriptors, under the numbers the receiver sees.\<close>

definition packet_of :: "queued_record \<Rightarrow> int list \<Rightarrow> packet" where
  "packet_of r fds = \<lparr>pk_data = qr_bytes r, pk_control = (if fds = [] then [] else [Rights fds]), pk_control_truncated = False\<rparr>"

end
