(* ===== verification/Ipc_Safety.thy ===== *)
theory Ipc_Safety
  imports Ipc_Endpoint
begin

text \<open>
  What every connection keeps: the outgoing queue stays within its limits, accounts for its bytes and holds
  well-formed records with consecutive sequence numbers, the entries of pending requests belong to
  sequence numbers already used, and a message that is refused leaves no trace.
\<close>

section \<open>Effects of the queue\<close>

lemma set_closed_simps [simp]:
  "c_state (set_closed c) = CS_CLOSED" "c_outgoing (set_closed c) = []" "c_queued_bytes (set_closed c) = 0"
  "c_config (set_closed c) = c_config c" "c_peer (set_closed c) = c_peer c"
  "c_next_send_sequence (set_closed c) = c_next_send_sequence c"
  "c_next_receive_sequence (set_closed c) = c_next_receive_sequence c"
  "c_incoming (set_closed c) = c_incoming c"
  by (simp_all add: set_closed_def)

lemma duplicate_fds_length: "duplicate_fds k fds done = Inr ds \<Longrightarrow> length ds = length done + length fds"
  by (induction k fds "done" rule: duplicate_fds.induct) (auto split: if_splits sum.splits)

text \<open>A record as the peer reads it.\<close>

definition record_ok :: "queued_record \<Rightarrow> bool" where
  "record_ok r \<longleftrightarrow> (\<exists>e payload. qr_bytes r = encode_envelope e @ payload \<and>
     valid_envelope payload (length (qr_fds r)) GWIPC_HARD_MAXIMUM_PAYLOAD e \<and> en_sequence e = qr_sequence r)"

definition limits_ok :: "connection \<Rightarrow> bool" where
  "limits_ok c \<longleftrightarrow>
     cf_maximum_payload (c_config c) \<le> GWIPC_HARD_MAXIMUM_PAYLOAD \<and>
     cf_maximum_fd_count (c_config c) \<le> GWIPC_HARD_MAXIMUM_FDS \<and>
     peer_maximum_payload (c_peer c) \<le> cf_maximum_payload (c_config c) \<and>
     peer_maximum_fd_count (c_peer c) \<le> cf_maximum_fd_count (c_config c)"

definition queue_ok :: "connection \<Rightarrow> bool" where
  "queue_ok c \<longleftrightarrow> limits_ok c \<and> c_next_send_sequence c \<noteq> 0 \<and>
     length (c_outgoing c) \<le> unat (cf_maximum_queued_messages (c_config c)) \<and>
     c_queued_bytes c = sum_list (map (\<lambda>r. length (qr_bytes r)) (c_outgoing c)) \<and>
     c_queued_bytes c \<le> unat (cf_maximum_queued_bytes (c_config c)) \<and>
     (\<forall>r \<in> set (c_outgoing c). record_ok r) \<and>
     length (c_outgoing c) < unat (c_next_send_sequence c) \<and>
     map (\<lambda>r. unat (qr_sequence r)) (c_outgoing c) =
       [unat (c_next_send_sequence c) - length (c_outgoing c) ..< unat (c_next_send_sequence c)] \<and>
     (c_state c = CS_CLOSED \<longrightarrow> c_outgoing c = [])"

text \<open>The flags of a message are known and say whether it is a reply.\<close>

definition flags_ok :: "u32 \<Rightarrow> u64 \<Rightarrow> bool" where
  "flags_ok flags reply_to \<longleftrightarrow> flags AND NOT kKnownMessageFlags = 0 \<and>
     (flags AND GWIPC_FLAG_ERROR = 0 \<or> flags AND GWIPC_FLAG_REPLY \<noteq> 0) \<and>
     (flags AND GWIPC_FLAG_REPLY \<noteq> 0 \<longleftrightarrow> reply_to \<noteq> 0)"

lemma valid_outgoing_flags_iff: "valid_outgoing_flags m \<longleftrightarrow> flags_ok (om_flags m) (om_reply_to m)"
  by (auto simp: valid_outgoing_flags_def flags_ok_def)

lemma limits_of:
  assumes "limits_ok c"
  shows "maximum_payload_of c \<le> GWIPC_HARD_MAXIMUM_PAYLOAD" "unat (maximum_fds_of c) \<le> 16"
proof -
  show "maximum_payload_of c \<le> GWIPC_HARD_MAXIMUM_PAYLOAD"
    using assms by (auto simp: limits_ok_def maximum_payload_of_def intro: order_trans)
  have "maximum_fds_of c \<le> 16"
    using assms by (auto simp: limits_ok_def maximum_fds_of_def ipc intro: order_trans)
  then show "unat (maximum_fds_of c) \<le> 16" by (simp add: word_le_nat_alt)
qed

lemma outgoing_envelope_valid:
  assumes c: "limits_ok c" "c_next_send_sequence c \<noteq> 0" and f: "flags_ok flags reply_to"
    and p: "length payload \<le> unat (maximum_payload_of c)" "length fds \<le> unat (maximum_fds_of c)"
  shows "valid_envelope payload (length fds) (maximum_payload_of c) (outgoing_envelope c typ flags reply_to payload fds)"
proof -
  have payload: "unat (word_of_nat (length payload) :: u32) = length payload"
    using p(1) unsigned_less [of "maximum_payload_of c", where ?'a = nat]
    by (simp add: unat_of_nat take_bit_nat_eq_self)
  have fds: "unat (word_of_nat (length fds) :: u16) = length fds"
    using p(2) limits_of(2) [OF c(1)] by (simp add: unat_of_nat take_bit_nat_eq_self)
  have "word_of_nat (length payload) \<le> maximum_payload_of c"
    using p(1) by (simp add: word_le_nat_alt payload)
  then show ?thesis
    using c(2) f payload fds
    by (auto simp: valid_envelope_def outgoing_envelope_def flags_ok_def has_flag_def flag_reply_def flag_error_def ipc)
qed

lemma valid_envelope_mono: "valid_envelope payload n small e \<Longrightarrow> small \<le> large \<Longrightarrow> valid_envelope payload n large e"
  by (auto simp: valid_envelope_def)

text \<open>The outcomes of queueing: refused with the connection as it was, closed, or queued.\<close>

definition with_record :: "connection \<Rightarrow> u32 \<Rightarrow> queued_record \<Rightarrow> connection" where
  "with_record c flags r = c\<lparr>
     c_pending_replies := (if flags AND GWIPC_FLAG_ACK_REQUIRED \<noteq> 0 then finsert (qr_sequence r) (c_pending_replies c)
       else c_pending_replies c),
     c_outgoing := c_outgoing c @ [r], c_next_send_sequence := c_next_send_sequence c + 1,
     c_queued_bytes := c_queued_bytes c + length (qr_bytes r)\<rparr>"

definition sent_record :: "connection \<Rightarrow> u16 \<Rightarrow> u32 \<Rightarrow> u64 \<Rightarrow> u8 list \<Rightarrow> int list \<Rightarrow> int list \<Rightarrow> queued_record" where
  "sent_record c typ flags reply_to payload fds duplicates =
     \<lparr>qr_bytes = encode_envelope (outgoing_envelope c typ flags reply_to payload fds) @ payload,
      qr_fds = duplicates, qr_sequence = c_next_send_sequence c\<rparr>"

lemma duplicate_fds_error: "duplicate_fds k fds done = Inl (status, errno) \<Longrightarrow> status \<noteq> ST_OK"
  by (induction k fds "done" rule: duplicate_fds.induct) (auto split: if_splits sum.splits)

lemma queue_internal_ok_iff:
  "queue_internal k c typ flags reply_to payload fds = (ST_OK, c') \<longleftrightarrow>
     (\<exists>ds. c_next_send_sequence c \<noteq> 0 \<and> c_next_send_sequence c \<noteq> -1 \<and>
        length payload \<le> unat (maximum_payload_of c) \<and> length fds \<le> unat (maximum_fds_of c) \<and>
        \<not> queue_limit_exceeded c (length payload + kEnvelopeSize) \<and> duplicate_fds k fds [] = Inr ds \<and>
        \<not> (flags AND GWIPC_FLAG_ACK_REQUIRED \<noteq> 0 \<and>
          fcard (c_pending_replies c) \<ge> unat (cf_maximum_queued_messages (c_config c))) \<and>
        c' = with_record c flags (sent_record c typ flags reply_to payload fds ds))"
  by (auto simp: queue_internal_def push_record_def with_record_def sent_record_def Let_def not_le dest: duplicate_fds_error split: sum.splits if_splits)

lemma queue_internal_refused:
  assumes "queue_internal k c typ flags reply_to payload fds = (status, c')" "status \<noteq> ST_OK"
  shows "c' = c \<or> c' = set_closed c \<or> (\<exists>errno. c' = c\<lparr>c_system_errno := errno\<rparr>)"
  using assms by (auto simp: queue_internal_def push_record_def Let_def split: sum.splits if_splits)

lemma unat_next: "(n :: u64) \<noteq> -1 \<Longrightarrow> unat (n + 1) = Suc (unat n)"
  using unatSuc [of n] by (metis add.commute add_eq_0_iff)

lemma next_nonzero: "(n :: u64) \<noteq> -1 \<Longrightarrow> n + 1 \<noteq> 0"
  by (metis add.commute add_eq_0_iff)

lemma set_closed_queue_ok: "limits_ok c \<Longrightarrow> c_next_send_sequence c \<noteq> 0 \<Longrightarrow> queue_ok (set_closed c)"
  by (simp add: queue_ok_def limits_ok_def unat_gt_0)

lemma record_ok_sent:
  assumes "limits_ok c" "c_next_send_sequence c \<noteq> 0" "flags_ok flags reply_to"
    "length payload \<le> unat (maximum_payload_of c)" "length fds \<le> unat (maximum_fds_of c)" "length ds = length fds"
  shows "record_ok (sent_record c typ flags reply_to payload fds ds)"
  using valid_envelope_mono [OF outgoing_envelope_valid [OF assms(1-5)] limits_of(1) [OF assms(1)]] assms(6)
  unfolding record_ok_def sent_record_def
  by (intro exI [of _ "outgoing_envelope c typ flags reply_to payload fds"] exI [of _ payload])
    (simp add: outgoing_envelope_def)

lemma with_record_queue_ok:
  assumes c: "queue_ok c" "c_state c \<noteq> CS_CLOSED" "c_next_send_sequence c \<noteq> -1"
    and r: "record_ok r" "qr_sequence r = c_next_send_sequence c" "\<not> queue_limit_exceeded c (length (qr_bytes r))"
  shows "queue_ok (with_record c flags r)"
proof -
  note unat_next [OF c(3), simp] next_nonzero [OF c(3), simp]
  have room: "length (c_outgoing c) < unat (cf_maximum_queued_messages (c_config c))"
    "c_queued_bytes c + length (qr_bytes r) \<le> unat (cf_maximum_queued_bytes (c_config c))"
    using r(3) c(1) by (auto simp: queue_limit_exceeded_def queue_ok_def not_le not_less)
  have "map (\<lambda>r. unat (qr_sequence r)) (c_outgoing c @ [r]) =
    [unat (c_next_send_sequence c) - length (c_outgoing c) ..< Suc (unat (c_next_send_sequence c))]"
    using c(1) r(2) by (simp add: queue_ok_def)
  then show ?thesis
    using c(1,2) r(1) room by (simp add: queue_ok_def with_record_def limits_ok_def ball_Un)
qed

lemma queue_internal_queue_ok:
  assumes c: "queue_ok c" "c_state c \<noteq> CS_CLOSED" and f: "flags_ok flags reply_to"
    and q: "queue_internal k c typ flags reply_to payload fds = (status, c')"
  shows "queue_ok c'"
proof (cases "status = ST_OK")
  case True
  with q obtain ds where ds: "c_next_send_sequence c \<noteq> 0" "c_next_send_sequence c \<noteq> -1"
    "length payload \<le> unat (maximum_payload_of c)" "length fds \<le> unat (maximum_fds_of c)"
    "\<not> queue_limit_exceeded c (length payload + kEnvelopeSize)" "duplicate_fds k fds [] = Inr ds"
    "c' = with_record c flags (sent_record c typ flags reply_to payload fds ds)"
    by (auto simp: queue_internal_ok_iff)
  show ?thesis unfolding ds(7)
  proof (rule with_record_queue_ok [OF c ds(2)])
    show "record_ok (sent_record c typ flags reply_to payload fds ds)"
      using record_ok_sent [OF _ ds(1) f ds(3,4)] c(1) duplicate_fds_length [OF ds(6)] by (simp add: queue_ok_def)
  qed (use ds(5) in \<open>simp_all add: sent_record_def encode_envelope_length add.commute\<close>)
next
  case False
  have "queue_ok (c\<lparr>c_system_errno := errno\<rparr>)" for errno
    using c(1) by (simp add: queue_ok_def limits_ok_def)
  moreover have "queue_ok (set_closed c)"
    using c(1) by (intro set_closed_queue_ok) (simp_all add: queue_ok_def)
  ultimately show ?thesis using queue_internal_refused [OF q False] c(1) by auto
qed


section \<open>The queue under every operation\<close>

text \<open>The part of a connection the invariant of the queue speaks of.\<close>

definition queue_view :: "connection \<Rightarrow> config \<times> peer_info \<times> queued_record list \<times> nat \<times> u64 \<times> connection_state" where
  "queue_view c = (c_config c, c_peer c, c_outgoing c, c_queued_bytes c, c_next_send_sequence c, c_state c)"

lemma queue_view_iff: "queue_view c' = queue_view c \<Longrightarrow> queue_ok c' \<longleftrightarrow> queue_ok c"
  by (simp only: queue_view_def queue_ok_def limits_ok_def prod.inject)

lemma queue_view_ok: "queue_view c' = queue_view c \<Longrightarrow> queue_ok c \<Longrightarrow> queue_ok c'"
  using queue_view_iff by blast

lemma queue_view_state: "queue_view c' = queue_view c \<Longrightarrow> c_state c' = c_state c"
  by (simp add: queue_view_def)

text \<open>An operation keeps the invariant, and the state of the connection when it succeeds.\<close>

definition keeps :: "connection \<Rightarrow> gwipc_status \<times> connection \<Rightarrow> bool" where
  "keeps c r \<longleftrightarrow> queue_ok (snd r) \<and> (fst r = ST_OK \<longrightarrow> c_state (snd r) = c_state c)"

lemma keeps_view: "queue_view c' = queue_view c \<Longrightarrow> queue_ok c \<Longrightarrow> keeps c (status, c')"
  by (auto simp: keeps_def intro: queue_view_ok dest: queue_view_state)

lemma keeps_error: "status \<noteq> ST_OK \<Longrightarrow> queue_ok c' \<Longrightarrow> keeps c (status, c')"
  by (simp add: keeps_def)

lemma keeps_and_then:
  "keeps c r \<Longrightarrow> (\<And>c'. queue_ok c' \<Longrightarrow> c_state c' = c_state c \<Longrightarrow> keeps c (f c')) \<Longrightarrow> keeps c (and_then r f)"
  by (auto simp: keeps_def and_then_def)

lemma keeps_trans: "keeps c' r \<Longrightarrow> c_state c' = c_state c \<Longrightarrow> keeps c r"
  by (simp add: keeps_def)

lemma keeps_cong: "c_state c' = c_state c \<Longrightarrow> keeps c = keeps c'"
  by (simp add: keeps_def fun_eq_iff)

lemma queue_ok_sequence: "queue_ok c \<Longrightarrow> c_next_send_sequence c \<noteq> 0"
  by (simp add: queue_ok_def)

lemma set_closed_keeps_ok: "queue_ok c \<Longrightarrow> queue_ok (set_closed c)"
  by (rule set_closed_queue_ok) (simp_all add: queue_ok_def)

lemma queue_internal_keeps:
  assumes "queue_ok c" "c_state c \<noteq> CS_CLOSED" "flags_ok flags reply_to"
  shows "keeps c (queue_internal k c typ flags reply_to payload fds)"
proof (cases "queue_internal k c typ flags reply_to payload fds")
  case (Pair status c')
  then show ?thesis
    using queue_internal_queue_ok [OF assms Pair] by (auto simp: keeps_def queue_internal_ok_iff with_record_def)
qed

lemma reply_flags_ok:
  "n \<noteq> 0 \<Longrightarrow> flags_ok (GWIPC_FLAG_REPLY OR GWIPC_FLAG_ERROR) n" "n \<noteq> 0 \<Longrightarrow> flags_ok GWIPC_FLAG_REPLY n" "flags_ok 0 0"
  by (simp_all add: flags_ok_def ipc kKnownMessageFlags_def)

lemma closing_ok: "queue_ok c \<Longrightarrow> s \<noteq> CS_CLOSED \<Longrightarrow> queue_ok (c\<lparr>c_state := s, c_close_after_flush := True\<rparr>)"
  by (simp add: queue_ok_def limits_ok_def)

text \<open>A message is queued and the connection winds down, or it is closed at once.\<close>

lemma farewell_keeps:
  assumes c: "queue_ok c" "c_state c \<noteq> CS_CLOSED" and f: "flags_ok flags reply_to" and n: "s \<noteq> CS_CLOSED" "result \<noteq> ST_OK"
    and r: "r = (case queue_internal k c typ flags reply_to payload fds of (queued, c) \<Rightarrow>
       if queued \<noteq> ST_OK then (result, set_closed c) else (result, c\<lparr>c_state := s, c_close_after_flush := True\<rparr>))"
  shows "keeps c r"
proof (cases "queue_internal k c typ flags reply_to payload fds")
  case (Pair status c')
  have "queue_ok c'" using queue_internal_queue_ok [OF c f Pair] .
  then show ?thesis using n by (simp add: r Pair keeps_error set_closed_keeps_ok closing_ok)
qed

lemma protocol_failure_keeps:
  assumes "queue_ok c" "c_state c \<noteq> CS_CLOSED" "en_sequence offending \<noteq> 0" "result \<noteq> ST_OK"
  shows "keeps c (protocol_failure k c code offending detail result)"
proof (cases "c_state c = CS_ESTABLISHED")
  case True
  show ?thesis
    by (rule farewell_keeps [OF assms(1,2) reply_flags_ok(1) [OF assms(3)] _ assms(4)])
      (simp_all add: protocol_failure_def True)
qed (use assms in \<open>simp add: protocol_failure_def keeps_error set_closed_keeps_ok\<close>)

lemma reject_peer_keeps:
  assumes "queue_ok c" "c_state c \<noteq> CS_CLOSED" "result \<noteq> ST_OK"
  shows "keeps c (reject_peer k c reason detail result)"
  by (rule farewell_keeps [OF assms(1,2) reply_flags_ok(2) [of 1] _ assms(3)]) (simp_all add: reject_peer_def)


lemma take_pending_keeps:
  assumes "queue_ok c" "c_state c \<noteq> CS_CLOSED" "en_sequence envelope \<noteq> 0" "\<And>f. queue_view (update f c) = queue_view c"
  shows "keeps c (take_pending k envelope detail entries update value agree c)"
  using assms by (auto simp: take_pending_def intro: keeps_view protocol_failure_keeps)

lemma track_pending_keeps:
  assumes "queue_ok c" "c_state c \<noteq> CS_CLOSED" "en_sequence envelope \<noteq> 0" "\<And>f. queue_view (update f c) = queue_view c"
  shows "keeps c (track_pending k envelope detail entries update value c)"
  using assms by (auto simp: track_pending_def intro: keeps_view protocol_failure_keeps split: option.splits)

lemma take_expected_keeps:
  assumes "queue_ok c" "c_state c \<noteq> CS_CLOSED" "en_sequence envelope \<noteq> 0"
  shows "keeps c (take_expected k envelope payload c)"
  using assms unfolding take_expected_def Let_def
  by (simp add: take_pending_keeps keeps_view queue_view_def)

lemma take_reply_keeps:
  assumes "queue_ok c" "c_state c \<noteq> CS_CLOSED" "en_sequence envelope \<noteq> 0"
  shows "keeps c (take_reply k envelope c)"
  using assms unfolding take_reply_def by (simp add: keeps_view queue_view_def protocol_failure_keeps)

lemma validate_incoming_reply_keeps:
  assumes "queue_ok c" "c_state c \<noteq> CS_CLOSED" "en_sequence envelope \<noteq> 0"
  shows "keeps c (validate_incoming_reply k c envelope payload)"
  unfolding validate_incoming_reply_def
  by (rule keeps_and_then [OF take_expected_keeps [OF assms]]) (metis take_reply_keeps keeps_trans assms(2,3))

lemma track_incoming_request_keeps:
  assumes "queue_ok c" "c_state c \<noteq> CS_CLOSED" "en_sequence envelope \<noteq> 0"
  shows "keeps c (track_incoming_request k c envelope payload)"
  using assms unfolding track_incoming_request_def Let_def track_incoming_output_request_def track_session_state_def
  by (simp add: track_pending_keeps keeps_view queue_view_def protocol_failure_keeps split: option.split)

lemma unsupported_message_keeps:
  assumes "queue_ok c" "c_state c \<noteq> CS_CLOSED" "en_sequence envelope \<noteq> 0"
  shows "keeps c (unsupported_message k c envelope)"
proof -
  let ?r = "queue_internal k c GWIPC_MESSAGE_PROTOCOL_ERROR (GWIPC_FLAG_REPLY OR GWIPC_FLAG_ERROR) (en_sequence envelope)
    (encode_protocol_error \<lparr>pe_code = PE_UnsupportedMessage, pe_offending_type = en_type envelope,
      pe_offending_sequence = en_sequence envelope, pe_detail = ascii ''unsupported message type''\<rparr>) []"
  have "keeps c ?r" by (rule queue_internal_keeps [OF assms(1,2) reply_flags_ok(1) [OF assms(3)]])
  then show ?thesis
    by (cases ?r) (auto simp: unsupported_message_def keeps_def intro: set_closed_keeps_ok closing_ok)
qed

lemma answer_ping_keeps:
  assumes "queue_ok c" "c_state c \<noteq> CS_CLOSED" "en_sequence envelope \<noteq> 0"
  shows "keeps c (answer_ping k c envelope payload fds)"
  unfolding answer_ping_def Let_def
  by (auto intro: protocol_failure_keeps [OF assms] queue_internal_keeps [OF assms(1,2) reply_flags_ok(2) [OF assms(3)]]
      split: sum.split)

lemma validate_supported_keeps:
  assumes "queue_ok c" "c_state c \<noteq> CS_CLOSED" "en_sequence envelope \<noteq> 0"
  shows "keeps c (validate_supported k c envelope payload fds)"
proof -
  obtain status s where v: "validate_application k c (en_type envelope) (en_flags envelope) payload fds
    (c_incoming_snapshot c) Incoming = (status, s)" by fastforce
  have view: "queue_view (c\<lparr>c_incoming_snapshot := s\<rparr>) = queue_view c" by (simp add: queue_view_def)
  show ?thesis
    using protocol_failure_keeps [OF queue_view_ok [OF view assms(1)], where result = status] assms(2,3)
    by (simp add: validate_supported_def v Let_def keeps_view [OF view assms(1)] queue_view_state [OF view]
        keeps_cong [OF queue_view_state [OF view], symmetric])
qed

lemma validate_established_keeps:
  assumes "queue_ok c" "c_state c \<noteq> CS_CLOSED" "en_sequence envelope \<noteq> 0"
  shows "keeps c (validate_established k c envelope payload fds)"
proof -
  have "keeps c (if en_flags envelope AND GWIPC_FLAG_REPLY \<noteq> 0 then validate_incoming_reply k c envelope payload else (ST_OK, c))"
    using validate_incoming_reply_keeps [OF assms] keeps_view [OF refl assms(1)] by simp
  moreover have "keeps c (if en_type envelope = GWIPC_MESSAGE_PING then answer_ping k c' envelope payload fds
      else if \<not> supported_established_type (en_type envelope) then unsupported_message k c' envelope
      else validate_supported k c' envelope payload fds)" if "queue_ok c'" "c_state c' = c_state c" for c'
    using that assms(2,3)
    by (simp add: keeps_cong [OF that(2)] answer_ping_keeps unsupported_message_keeps validate_supported_keeps)
  ultimately show ?thesis
    unfolding validate_established_def by (simp add: protocol_failure_keeps [OF assms] keeps_and_then)
qed

lemma queue_received_keeps:
  assumes "queue_ok c" "c_state c \<noteq> CS_CLOSED" "en_sequence envelope \<noteq> 0"
  shows "keeps c (queue_received k c envelope payload fds)"
  unfolding queue_received_def
proof (rule keeps_and_then [OF track_incoming_request_keeps [OF assms]], goal_cases)
  case (1 c')
  have view: "queue_view (rollback_incoming_request c' envelope) = queue_view c'"
    "queue_view (commit_incoming_request (c'\<lparr>c_incoming := q\<rparr>) envelope payload) = queue_view c'" for q
    by (simp_all add: queue_view_def rollback_incoming_request_def Let_def commit_incoming_request_def split: sum.split)
  show ?case
    using protocol_failure_keeps [OF queue_view_ok [OF view(1) 1(1)]] 1(2) assms(2,3)
    by (simp add: keeps_cong [OF 1(2)] keeps_view [OF view(2) 1(1)] queue_view_state [OF view(1)]
        keeps_cong [OF queue_view_state [OF view(1)], symmetric])
qed


section \<open>The handshake\<close>

lemma limits_ok_negotiate: "limits_ok c \<Longrightarrow> limits_ok (negotiate c hello)"
  by (simp add: limits_ok_def negotiate_def)

lemma negotiate_queue_ok: "queue_ok c \<Longrightarrow> queue_ok (negotiate c hello)"
  using limits_ok_negotiate [of c hello] by (simp add: queue_ok_def negotiate_def)

lemma handle_hello_queue_ok:
  assumes c: "queue_ok c" "c_state c \<noteq> CS_CLOSED" and e: "en_sequence envelope \<noteq> 0"
  shows "queue_ok (snd (handle_hello k c envelope payload))"
proof -
  have rejected: "queue_ok (snd (reject_peer k c reason detail result))" if "result \<noteq> ST_OK" for reason detail result
    using reject_peer_keeps [OF c that] by (simp add: keeps_def)
  have "queue_ok (snd (accept_hello k c envelope hello))" for hello
  proof -
    let ?r = "queue_internal k (negotiate c hello) GWIPC_MESSAGE_WELCOME GWIPC_FLAG_REPLY (en_sequence envelope)
      (encode_welcome_message (welcome_of (negotiate c hello))) []"
    have alive: "c_state (negotiate c hello) \<noteq> CS_CLOSED" using c(2) by (simp add: negotiate_def)
    obtain status c' where q: "?r = (status, c')" by fastforce
    have "queue_ok c'" by (rule queue_internal_queue_ok [OF negotiate_queue_ok [OF c(1)] alive reply_flags_ok(2) [OF e] q])
    then show ?thesis
      by (simp add: accept_hello_def q queue_ok_def limits_ok_def)
  qed
  with rejected show ?thesis by (auto simp: handle_hello_def Let_def split: sum.split)
qed

lemma handle_welcome_queue_ok:
  assumes "queue_ok c" "c_state c \<noteq> CS_CLOSED"
  shows "queue_ok (snd (handle_welcome c envelope payload))"
proof -
  have "queue_ok (accept_welcome c w)"
    if "we_negotiated_maximum_payload w \<le> cf_maximum_payload (c_config c)"
      "we_negotiated_maximum_fd_count w \<le> cf_maximum_fd_count (c_config c)" for w
    using assms that by (simp add: accept_welcome_def queue_ok_def limits_ok_def)
  then show ?thesis
    using set_closed_keeps_ok [OF assms(1)]
    by (auto simp: handle_welcome_def handle_rejection_def Let_def not_less split: sum.split)
qed

section \<open>Received records\<close>

lemma error_context_sequence: "parse_error_context b = Some e \<Longrightarrow> en_sequence e \<noteq> 0"
  by (auto simp: parse_error_context_def split: if_splits)

lemma refuse_record_queue_ok:
  assumes "queue_ok c" "c_state c \<noteq> CS_CLOSED"
  shows "queue_ok (snd (refuse_record k c (parse_error_context b) code detail))"
  using assms protocol_failure_keeps [OF assms error_context_sequence]
  by (auto simp: refuse_record_def keeps_def set_closed_keeps_ok split: option.split)

lemma decode_record_queue_ok:
  assumes "queue_ok c" "c_state c \<noteq> CS_CLOSED"
  shows "queue_ok (snd (decode_record k c data fds invalid))"
    "decode_record k c data fds invalid = (Inr e, c') \<Longrightarrow>
       en_sequence e \<noteq> 0 \<and> c' = c\<lparr>c_next_receive_sequence := c_next_receive_sequence c + 1\<rparr>"
proof -
  have sequence: "en_sequence e \<noteq> 0" if "decode_envelope data n m = Inr e" for e n m
    using that by (auto simp: decode_envelope_iff valid_envelope_def)
  have view: "queue_ok (c\<lparr>c_next_receive_sequence := n\<rparr>)" for n
    using assms(1) by (rule queue_view_ok [rotated]) (simp add: queue_view_def)
  show "queue_ok (snd (decode_record k c data fds invalid))"
    using refuse_record_queue_ok [OF assms] protocol_failure_keeps [OF assms sequence]
    by (auto simp: decode_record_def Let_def keeps_def view set_closed_keeps_ok [OF assms(1)] split: sum.split)
  show "en_sequence e \<noteq> 0 \<and> c' = c\<lparr>c_next_receive_sequence := c_next_receive_sequence c + 1\<rparr>"
    if "decode_record k c data fds invalid = (Inr e, c')"
    using that sequence by (auto simp: decode_record_def Let_def apfst_def map_prod_def split: sum.splits if_splits prod.splits)
qed

lemma dispatch_record_queue_ok:
  assumes "queue_ok c" "c_state c \<noteq> CS_CLOSED" "en_sequence envelope \<noteq> 0"
  shows "queue_ok (snd (dispatch_record k c envelope payload fds))"
proof -
  obtain status c' where v: "validate_established k c envelope payload fds = (status, c')" by fastforce
  have c': "queue_ok c'" "status = ST_OK \<Longrightarrow> c_state c' \<noteq> CS_CLOSED"
    using validate_established_keeps [OF assms, where k = k and payload = payload and fds = fds] assms(2)
    by (auto simp: v keeps_def)
  show ?thesis
    using handle_hello_queue_ok [OF assms] handle_welcome_queue_ok [OF assms(1,2)] assms(1) c'(1)
      queue_received_keeps [OF c'(1) c'(2) assms(3)]
    by (auto simp: dispatch_record_def v keeps_def)
qed

lemma receive_one_queue_ok:
  assumes "queue_ok c" "c_state c \<noteq> CS_CLOSED"
  shows "queue_ok (snd (receive_one k c result))"
proof (cases result)
  case (Received p)
  obtain fds invalid where d: "collect_descriptors p = (fds, invalid)" by fastforce
  obtain r c' where r: "decode_record k c (pk_data p) fds invalid = (r, c')" by fastforce
  have ok: "queue_ok c'" using decode_record_queue_ok(1) [OF assms, of k "pk_data p" fds invalid] by (simp add: r)
  show ?thesis
  proof (cases r)
    case (Inr e)
    then have "en_sequence e \<noteq> 0" "c_state c' \<noteq> CS_CLOSED"
      using decode_record_queue_ok(2) [OF assms, of k "pk_data p" fds invalid e c'] r assms(2) by auto
    then show ?thesis
      using dispatch_record_queue_ok [OF ok] set_closed_keeps_ok [OF assms(1)]
      by (simp add: receive_one_def receive_record_def Received d r Inr)
  qed (simp add: receive_one_def receive_record_def Received d r ok set_closed_keeps_ok assms(1))
qed (use assms set_closed_keeps_ok in \<open>auto simp: receive_one_def receive_record_def queue_ok_def limits_ok_def unat_gt_0\<close>)


section \<open>Sending\<close>

lemma and_then_ok [simp]: "and_then (ST_OK, s) f = f s"
  by (simp add: and_then_def)

lemma and_then_id: "and_then r (\<lambda>s. (ST_OK, s)) = r"
  by (cases r) (simp add: and_then_def)

lemma synthetic_input_id_other: "\<not> synthetic_input typ \<Longrightarrow> synthetic_input_id typ payload = None"
  by (auto simp: synthetic_input_id_def synthetic_input_def)

lemma prepare_others:
  "\<not> output_request typ \<Longrightarrow> prepare_output_request typ payload = (\<lambda>st. (ST_OK, st))"
  "typ \<noteq> GWIPC_MESSAGE_PING \<Longrightarrow> prepare_ping typ payload = (\<lambda>st. (ST_OK, st))"
  "typ \<noteq> GWIPC_MESSAGE_FRAME_COMMIT \<Longrightarrow> prepare_frame_commit typ payload = (\<lambda>st. (ST_OK, st))"
  "typ \<noteq> GWIPC_MESSAGE_POLICY_COMMIT \<Longrightarrow> prepare_policy_commit typ payload = (\<lambda>st. (ST_OK, st))"
  "\<not> synthetic_input typ \<Longrightarrow> prepare_synthetic_input typ payload = (\<lambda>st. (ST_OK, st))"
  "typ \<noteq> GWIPC_MESSAGE_SESSION_STATE_CHANGE \<Longrightarrow> prepare_session_state typ payload = (\<lambda>st. (ST_OK, st))"
  by (auto simp: fun_eq_iff prepare_output_request_def prepare_ping_def prepare_frame_commit_def
      prepare_policy_commit_def prepare_synthetic_input_def prepare_session_state_def synthetic_input_id_other)

text \<open>At most one kind of request is registered.\<close>

lemma prepare_request_cases:
  "prepare_request typ payload st =
     (if output_request typ then prepare_output_request typ payload st
      else if typ = GWIPC_MESSAGE_PING then prepare_ping typ payload st
      else if typ = GWIPC_MESSAGE_FRAME_COMMIT then prepare_frame_commit typ payload st
      else if typ = GWIPC_MESSAGE_POLICY_COMMIT then prepare_policy_commit typ payload st
      else if synthetic_input typ then prepare_synthetic_input typ payload st
      else if typ = GWIPC_MESSAGE_SESSION_STATE_CHANGE then prepare_session_state typ payload st
      else (ST_OK, st))"
proof -
  consider "output_request typ" | "typ = GWIPC_MESSAGE_PING" | "typ = GWIPC_MESSAGE_FRAME_COMMIT"
    | "typ = GWIPC_MESSAGE_POLICY_COMMIT" | "synthetic_input typ" | "typ = GWIPC_MESSAGE_SESSION_STATE_CHANGE"
    | "\<not> output_request typ" "typ \<noteq> GWIPC_MESSAGE_PING" "typ \<noteq> GWIPC_MESSAGE_FRAME_COMMIT"
      "typ \<noteq> GWIPC_MESSAGE_POLICY_COMMIT" "\<not> synthetic_input typ" "typ \<noteq> GWIPC_MESSAGE_SESSION_STATE_CHANGE"
    by blast
  then show ?thesis
    by cases (auto simp: prepare_request_def prepare_others and_then_id output_request_def synthetic_input_def ipc)
qed

text \<open>
  Preparing a reply checks it against the entry of its request and changes nothing; preparing a request adds an
  entry under the number it will be sent with, so that the roll-back restores the connection.
\<close>

lemma prepare_reply_state: "prepare_reply typ reply_to payload (c, ch) = (status, c', ch') \<Longrightarrow> c' = c"
  by (auto simp: prepare_reply_def split: if_splits)

definition fresh_sequence :: "connection \<Rightarrow> bool" where
  "fresh_sequence c \<longleftrightarrow>
     (let s = c_next_send_sequence c
      in s |\<notin>| fmdom (c_pending_output_requests c) \<and> s |\<notin>| fmdom (c_pending_ping_nonces c) \<and>
        s |\<notin>| fmdom (c_pending_frame_commits c) \<and> s |\<notin>| fmdom (c_pending_policy_commits c) \<and>
        s |\<notin>| fmdom (c_pending_synthetic_inputs c) \<and> s |\<notin>| fmdom (c_pending_session_states c))"

definition prepared :: "outgoing_message \<Rightarrow> connection \<Rightarrow> gwipc_status \<times> connection \<times> correlation_changes" where
  "prepared m c =
     and_then (prepare_request (om_type m) (elements (om_payload m)) (c, no_changes (c_next_send_sequence c) (om_reply_to m)))
       (prepare_reply (om_type m) (om_reply_to m) (elements (om_payload m)))"


lemma prepare_reply_rollback:
  "prepare_reply typ reply_to payload (c, ch) = (status, st) \<Longrightarrow> rollback_requests st = rollback_requests (c, ch)"
  by (auto simp: prepare_reply_def rollback_requests_def Let_def split: if_splits)

lemmas prepare_defs = prepare_output_request_def prepare_ping_def prepare_frame_commit_def prepare_policy_commit_def
  prepare_synthetic_input_def prepare_session_state_def

text \<open>The state after a step of the preparation: what was changed can be taken back, the queue is as before.\<close>

definition undoes :: "connection \<Rightarrow> connection \<times> correlation_changes \<Rightarrow> bool" where
  "undoes c st \<longleftrightarrow> rollback_requests st = c \<and> queue_view (fst st) = queue_view c"

lemma undoes_no_changes: "undoes c (c, no_changes s r)"
  by (simp add: undoes_def rollback_requests_def no_changes_def drop_if_def)

lemma undoes_if: "undoes c (snd a) \<Longrightarrow> undoes c (snd b) \<Longrightarrow> undoes c (snd (if p then a else b))"
  by simp

lemma prepare_request_undoes:
  assumes "fresh_sequence c" "prepare_request typ payload (c, no_changes (c_next_send_sequence c) r) = (status, st)"
  shows "undoes c st"
proof -
  note * = assms(1) [unfolded fresh_sequence_def Let_def]
  have fresh: "undoes c (snd (f typ payload (c, no_changes (c_next_send_sequence c) r)))"
    if "f \<in> {prepare_output_request, prepare_ping, prepare_frame_commit, prepare_policy_commit,
      prepare_synthetic_input, prepare_session_state}" for f
    using that * undoes_no_changes
    by (elim insertE emptyE; cases c)
      (auto simp: prepare_defs undoes_def rollback_requests_def no_changes_def drop_if_def fm_emplace_drop Let_def
        queue_view_def split: option.split sum.split)
  have "undoes c (snd (prepare_request typ payload (c, no_changes (c_next_send_sequence c) r)))"
    unfolding prepare_request_cases
    by (intro undoes_if fresh [of prepare_output_request] fresh [of prepare_ping] fresh [of prepare_frame_commit]
        fresh [of prepare_policy_commit] fresh [of prepare_synthetic_input] fresh [of prepare_session_state])
      (simp_all add: undoes_no_changes)
  then show ?thesis by (simp add: assms(2))
qed

lemma prepared_undoes:
  assumes "fresh_sequence c" "prepared m c = (status, st)"
  shows "undoes c st"
proof -
  obtain s c' ch where r: "prepare_request (om_type m) (elements (om_payload m))
      (c, no_changes (c_next_send_sequence c) (om_reply_to m)) = (s, c', ch)" by (metis prod_cases3)
  have u: "undoes c (c', ch)" by (rule prepare_request_undoes [OF assms(1) r])
  show ?thesis
  proof (cases "s = ST_OK")
    case True
    then have *: "prepare_reply (om_type m) (om_reply_to m) (elements (om_payload m)) (c', ch) = (status, st)"
      using assms(2) by (simp add: prepared_def r)
    show ?thesis
      using u prepare_reply_rollback [OF *] prepare_reply_state [of _ _ _ c' ch status "fst st" "snd st"] *
      by (simp add: undoes_def)
  next
    case False
    then show ?thesis using assms(2) u by (auto simp: prepared_def r and_then_def)
  qed
qed

text \<open>A refused message leaves the connection as it was, but for an error number, or closed.\<close>

lemma enqueue_prepared:
  "enqueue_with_sequence k c m =
     (if \<not> valid_outgoing_message m then (ST_INVALID_ARGUMENT, c)
      else if c_state c \<noteq> CS_ESTABLISHED then (ST_INVALID_STATE, c)
      else if \<not> valid_outgoing_flags m then (ST_INVALID_ARGUMENT, c)
      else case validate_application k c (om_type m) (om_flags m) (elements (om_payload m)) (elements (om_fds m))
                  (c_outgoing_snapshot c) Outgoing of (validation, s) \<Rightarrow>
        if validation \<noteq> ST_OK then (validation, c)
        else case prepared m c of (status, st) \<Rightarrow>
          if status \<noteq> ST_OK then (status, rollback_requests st) else queue_prepared k m s st)"
  unfolding enqueue_with_sequence_def prepared_def ..

lemma rollback_commutes:
  "rollback_requests (set_closed c, ch) = set_closed (rollback_requests (c, ch))"
  "rollback_requests (c\<lparr>c_system_errno := errno\<rparr>, ch) = (rollback_requests (c, ch))\<lparr>c_system_errno := errno\<rparr>"
  by (simp_all add: rollback_requests_def set_closed_def Let_def)

lemma enqueue_refused:
  assumes "fresh_sequence c" "enqueue_with_sequence k c m = (status, c')" "status \<noteq> ST_OK"
  shows "c' = c \<or> c' = set_closed c \<or> (\<exists>errno. c' = c\<lparr>c_system_errno := errno\<rparr>)"
proof (cases "c' = c")
  case False
  then obtain s st where st: "prepared m c = (s, st)" "s \<noteq> ST_OK \<Longrightarrow> c' = rollback_requests st"
    and q: "s = ST_OK \<Longrightarrow> \<exists>snap. queue_prepared k m snap st = (status, c')"
    using assms(2) by (auto simp: enqueue_prepared split: if_splits prod.splits)
  obtain d ch where d: "st = (d, ch)" by fastforce
  have u: "rollback_requests (d, ch) = c" using prepared_undoes [OF assms(1) st(1)] by (simp add: undoes_def d)
  then have "s = ST_OK" using False st(2) by (auto simp: d)
  then obtain snap where q: "queue_prepared k m snap (d, ch) = (status, c')" using q by (auto simp: d)
  then obtain d' where d': "queue_internal k d (om_type m) (om_flags m) (om_reply_to m) (elements (om_payload m))
      (elements (om_fds m)) = (status, d')" "c' = rollback_requests (d', ch)"
    using assms(3) by (auto simp: queue_prepared_def split: prod.splits if_splits)
  from queue_internal_refused [OF d'(1) assms(3)] show ?thesis
    unfolding d'(2) by (elim disjE exE) (simp_all add: rollback_commutes u, blast)
qed simp


section \<open>Numbers of pending requests\<close>

definition pending_keys :: "connection \<Rightarrow> u64 set" where
  "pending_keys c = fset (c_pending_replies c) \<union> fmdom' (c_pending_ping_nonces c) \<union> fmdom' (c_pending_frame_commits c) \<union>
     fmdom' (c_pending_policy_commits c) \<union> fmdom' (c_pending_synthetic_inputs c) \<union>
     fmdom' (c_pending_session_states c) \<union> fmdom' (c_pending_output_requests c)"

text \<open>Every pending request carries a sequence number that was used.\<close>

definition used :: "connection \<Rightarrow> bool" where
  "used c \<longleftrightarrow> (\<forall>n \<in> pending_keys c. n < c_next_send_sequence c)"

text \<open>A step only adds pending requests with the sequence numbers it uses.\<close>

definition grows :: "connection \<Rightarrow> connection \<Rightarrow> bool" where
  "grows c c' \<longleftrightarrow> c_next_send_sequence c \<le> c_next_send_sequence c' \<and>
     pending_keys c' \<subseteq> pending_keys c \<union> {n. n < c_next_send_sequence c'}"

lemma grows_used: "grows c c' \<Longrightarrow> used c \<Longrightarrow> used c'"
  by (fastforce simp: grows_def used_def)

lemma grows_same: "pending_keys c' \<subseteq> pending_keys c \<Longrightarrow> c_next_send_sequence c' = c_next_send_sequence c \<Longrightarrow> grows c c'"
  by (auto simp: grows_def)

lemma grows_refl [simp]: "grows c c"
  by (simp add: grows_same)

lemma grows_trans: "grows c d \<Longrightarrow> grows d e \<Longrightarrow> grows c e"
  by (fastforce simp: grows_def)

lemma grows_and_then: "grows c (snd r) \<Longrightarrow> (\<And>d. grows d (snd (f d))) \<Longrightarrow> grows c (snd (and_then r f))"
  by (auto simp: and_then_def intro: grows_trans)

lemma grows_closed: "grows c (set_closed c)"
  by (rule grows_same) (simp_all add: set_closed_def pending_keys_def)

lemma grows_queue_internal: "grows c (snd (queue_internal k c typ flags reply_to payload fds))"
proof (cases "queue_internal k c typ flags reply_to payload fds")
  case (Pair status c')
  show ?thesis
  proof (cases "status = ST_OK")
    case True
    with Pair obtain r where "c_next_send_sequence c \<noteq> -1" "c' = with_record c flags r" "qr_sequence r = c_next_send_sequence c"
      by (auto simp: queue_internal_ok_iff sent_record_def)
    moreover have "c_next_send_sequence c < c_next_send_sequence c + 1"
      using unat_next [OF calculation(1)] by (simp add: word_less_nat_alt)
    ultimately show ?thesis
      by (auto simp: Pair grows_def with_record_def pending_keys_def split: if_splits)
  next
    case False
    have "grows c (c\<lparr>c_system_errno := n\<rparr>)" for n by (rule grows_same) (simp_all add: pending_keys_def)
    then show ?thesis using queue_internal_refused [OF Pair False] grows_closed by (auto simp: Pair)
  qed
qed

lemma grows_state: "grows c (c\<lparr>c_state := s, c_close_after_flush := b\<rparr>)" "grows c (c\<lparr>c_state := s\<rparr>)"
  by (rule grows_same; simp add: pending_keys_def)+

lemma grows_farewell:
  "grows c (snd (case queue_internal k c typ flags reply_to payload fds of (queued, c) \<Rightarrow>
     if queued \<noteq> ST_OK then (result, set_closed c) else (result, c\<lparr>c_state := s, c_close_after_flush := True\<rparr>)))"
proof (cases "queue_internal k c typ flags reply_to payload fds")
  case (Pair status d)
  have "grows c d" using grows_queue_internal [of c k "typ" flags reply_to payload fds] by (simp add: Pair)
  then show ?thesis by (simp add: Pair grows_trans [OF _ grows_closed] grows_trans [OF _ grows_state(1)])
qed

lemma grows_protocol_failure: "grows c (snd (protocol_failure k c code offending detail result))"
  by (simp add: protocol_failure_def Let_def grows_farewell grows_closed)

lemma grows_reject_peer: "grows c (snd (reject_peer k c reason detail result))"
  unfolding reject_peer_def by (rule grows_farewell)

lemma grows_take_pending:
  assumes "\<And>x. grows c (update (fmdrop x) c)"
  shows "grows c (snd (take_pending k envelope detail entries update value agree c))"
  using assms by (simp add: take_pending_def grows_protocol_failure)

lemma grows_track_pending:
  assumes "\<And>f. grows c (update f c)"
  shows "grows c (snd (track_pending k envelope detail entries update value c))"
  using assms by (simp add: track_pending_def grows_protocol_failure split: option.split)

lemma grows_drops:
  "grows c (c_pending_ping_nonces_update (fmdrop x) c)" "grows c (c_pending_frame_commits_update (fmdrop x) c)"
  "grows c (c_pending_policy_commits_update (fmdrop x) c)" "grows c (c_pending_synthetic_inputs_update (fmdrop x) c)"
  "grows c (c_pending_session_states_update (fmdrop x) c)" "grows c (c_pending_output_requests_update (fmdrop x) c)"
  by (rule grows_same; auto simp: pending_keys_def)+

lemma grows_tracks:
  "grows c (c_incoming_frame_commits_update f1 c)" "grows c (c_incoming_policy_commits_update f1 c)"
  "grows c (c_incoming_synthetic_inputs_update f1 c)" "grows c (c_incoming_session_states_update f2 c)"
  "grows c (c_incoming_output_requests_update f3 c)"
  by (rule grows_same; simp add: pending_keys_def)+

lemma grows_validate_incoming_reply: "grows c (snd (validate_incoming_reply k c envelope payload))"
  unfolding validate_incoming_reply_def
proof (rule grows_and_then)
  show "grows c (snd (take_expected k envelope payload c))"
    by (simp add: take_expected_def Let_def grows_take_pending grows_drops)
  show "grows d (snd (take_reply k envelope d))" for d
    unfolding take_reply_def by (simp add: grows_protocol_failure) (simp add: grows_def pending_keys_def, blast)
qed

lemma grows_track_incoming_request: "grows c (snd (track_incoming_request k c envelope payload))"
  by (simp add: track_incoming_request_def Let_def track_incoming_output_request_def track_session_state_def
      grows_track_pending grows_tracks grows_protocol_failure split: option.split)

lemma grows_validate_established: "grows c (snd (validate_established k c envelope payload fds))"
proof -
  have unsupported: "grows d (snd (unsupported_message k d envelope))" for d
    using grows_queue_internal
    by (auto simp: unsupported_message_def split: prod.split
        intro!: grows_trans [OF _ grows_closed] grows_trans [OF _ grows_state(1)]) (metis snd_conv)+
  have supported: "grows d (snd (validate_supported k d envelope payload fds))" for d
  proof -
    have "grows d (d\<lparr>c_incoming_snapshot := s\<rparr>)" for s by (rule grows_same) (simp_all add: pending_keys_def)
    then show ?thesis
      by (auto simp: validate_supported_def Let_def split: prod.split intro: grows_trans [OF _ grows_protocol_failure])
  qed
  have ping: "grows d (snd (answer_ping k d envelope payload fds))" for d
    by (simp add: answer_ping_def Let_def grows_protocol_failure grows_queue_internal split: sum.split)
  show ?thesis
    unfolding validate_established_def
    by (auto intro!: grows_and_then simp: grows_protocol_failure grows_validate_incoming_reply ping unsupported supported)
qed

lemma grows_queue_received: "grows c (snd (queue_received k c envelope payload fds))"
  unfolding queue_received_def
proof (rule grows_and_then [OF grows_track_incoming_request])
  fix d
  have "grows d (rollback_incoming_request d envelope)"
    by (rule grows_same) (simp_all add: rollback_incoming_request_def Let_def pending_keys_def)
  moreover have "grows d (commit_incoming_request (d\<lparr>c_incoming := q\<rparr>) envelope payload)" for q
  proof -
    have "grows d (d\<lparr>c_incoming := q\<rparr>)" "grows d (d\<lparr>c_incoming := q, c_last_incoming_session_generation := g\<rparr>)" for g
      by (rule grows_same; simp add: pending_keys_def)+
    then show ?thesis by (simp add: commit_incoming_request_def split: sum.split)
  qed
  ultimately show "grows d (snd (if length (c_incoming d) \<ge> unat (cf_maximum_queued_messages (c_config d))
      then protocol_failure k (rollback_incoming_request d envelope) PE_LimitExceeded envelope
        ''incoming queue limit exceeded'' ST_LIMIT_EXCEEDED
      else (ST_OK, commit_incoming_request (d\<lparr>c_incoming := c_incoming d @
        [\<lparr>me_type = en_type envelope, me_flags = en_flags envelope, me_sequence = en_sequence envelope,
          me_reply_to = en_reply_to envelope, me_payload = payload, me_fds = fds\<rparr>]\<rparr>) envelope payload)))"
    by (auto intro: grows_trans [OF _ grows_protocol_failure])
qed

lemma grows_dispatch_record: "grows c (snd (dispatch_record k c envelope payload fds))"
proof -
  have "grows c (negotiate c hello)" for hello by (rule grows_same) (simp_all add: negotiate_def pending_keys_def)
  then have accepted: "grows c (snd (accept_hello k c envelope hello))" for hello
    using grows_queue_internal
    by (auto simp: accept_hello_def Let_def split: prod.split intro!: grows_trans [OF _ grows_state(2)])
      (metis snd_conv grows_trans)+
  have hello: "grows c (snd (handle_hello k c envelope payload))"
    by (simp add: handle_hello_def Let_def grows_reject_peer accepted split: sum.split)
  have "grows c (accept_welcome c w)" for w by (rule grows_same) (auto simp: accept_welcome_def pending_keys_def)
  then have welcomed: "grows c (snd (handle_welcome c envelope payload))"
    by (simp add: handle_welcome_def handle_rejection_def Let_def grows_closed split: sum.split)
  obtain status d where v: "validate_established k c envelope payload fds = (status, d)" by fastforce
  have "grows c d" using grows_validate_established [of c k envelope payload fds] by (simp add: v)
  then show ?thesis
    using hello welcomed by (auto simp: dispatch_record_def v intro: grows_trans [OF _ grows_queue_received])
qed

lemma grows_receive_one: "grows c (snd (receive_one k c result))"
proof -
  have refuse: "grows c (snd (refuse_record k c offender code detail))" for offender code detail
    by (simp add: refuse_record_def grows_protocol_failure grows_closed split: option.split)
  have errno: "grows c (c\<lparr>c_system_errno := n\<rparr>)" "grows c (c\<lparr>c_next_receive_sequence := m\<rparr>)" for n m
    by (rule grows_same; simp add: pending_keys_def)+
  have decode: "grows c (snd (decode_record k c data fds invalid))" for data fds invalid
    by (simp add: decode_record_def Let_def refuse grows_protocol_failure grows_closed errno(2) split: sum.split)
  have "grows c (snd (receive_record k c result))"
    using decode grows_trans [OF errno(1) grows_closed]
    by (auto simp: receive_record_def grows_closed split: recv_result.split prod.split)
  then show ?thesis
    by (cases "receive_record k c result")
      (auto simp: receive_one_def split: sum.split intro: grows_trans [OF _ grows_dispatch_record])
qed


section \<open>Polling and enqueueing\<close>

text \<open>The two invariants, and what a step must do for them.\<close>

definition connection_ok :: "connection \<Rightarrow> bool" where
  "connection_ok c \<longleftrightarrow> queue_ok c \<and> used c"

lemma connection_ok_queue: "connection_ok c \<Longrightarrow> queue_ok c"
  by (simp add: connection_ok_def)

lemma connection_okI: "queue_ok d \<Longrightarrow> grows c d \<Longrightarrow> connection_ok c \<Longrightarrow> connection_ok d"
  using grows_used by (auto simp: connection_ok_def)

lemma set_closed_ok: "connection_ok c \<Longrightarrow> connection_ok (set_closed c)"
  by (blast intro: connection_okI set_closed_keeps_ok grows_closed connection_ok_queue)

lemma receive_one_ok: "connection_ok c \<Longrightarrow> c_state c \<noteq> CS_CLOSED \<Longrightarrow> connection_ok (snd (receive_one k c r))"
  by (blast intro: connection_okI receive_one_queue_ok grows_receive_one connection_ok_queue)

lemma queue_internal_ok:
  "connection_ok c \<Longrightarrow> c_state c \<noteq> CS_CLOSED \<Longrightarrow> flags_ok flags reply_to \<Longrightarrow>
     connection_ok (snd (queue_internal k c typ flags reply_to payload fds))"
  using queue_internal_keeps connection_ok_queue unfolding keeps_def by (blast intro: connection_okI grows_queue_internal)

lemma errno_ok: "connection_ok c \<Longrightarrow> connection_ok (c\<lparr>c_system_errno := n\<rparr>)"
  by (simp add: connection_ok_def queue_ok_def limits_ok_def used_def pending_keys_def)

text \<open>Sending a record removes it with its bytes.\<close>

lemma upt_tail: "a # xs = [i ..< j] \<Longrightarrow> xs = [Suc i ..< j]"
  by (cases "i < j") (auto simp: upt_rec)

lemma sent_ok:
  assumes "connection_ok c" "c_outgoing c = r # rest"
  shows "connection_ok (c\<lparr>c_queued_bytes := c_queued_bytes c - length (qr_bytes r), c_outgoing := rest\<rparr>)"
proof -
  let ?n = "unat (c_next_send_sequence c)"
  have q: "map (\<lambda>r. unat (qr_sequence r)) (r # rest) = [?n - length (r # rest) ..< ?n]" "length (r # rest) < ?n"
    using assms by (simp_all add: connection_ok_def queue_ok_def)
  have "map (\<lambda>r. unat (qr_sequence r)) rest = [Suc (?n - length (r # rest)) ..< ?n]"
    using q(1) upt_tail by (simp only: list.map)
  also have "Suc (?n - length (r # rest)) = ?n - length rest" using q(2) by simp
  finally show ?thesis
    using assms q(2) by (auto simp: connection_ok_def queue_ok_def limits_ok_def used_def pending_keys_def)
qed

lemma flush_ok: "connection_ok c \<Longrightarrow> connection_ok (snd (flush sends c))"
proof (induction sends c rule: flush.induct)
  case (1 sends c)
  show ?case
  proof (cases "c_outgoing c")
    case Nil
    then show ?thesis using "1.prems" by (subst flush.simps) (simp add: set_closed_ok)
  next
    case (Cons r rest)
    show ?thesis
    proof (cases sends)
      case Nil
      then show ?thesis using "1.prems" by (subst flush.simps) (simp add: Cons)
    next
      case (Cons s more)
      note * = \<open>c_outgoing c = r # rest\<close> Cons
      show ?thesis
      proof (cases s)
        case (Sent n)
        show ?thesis
        proof (cases "n = length (qr_bytes r)")
          case True
          have "connection_ok (snd (flush more (c\<lparr>c_queued_bytes := c_queued_bytes c - length (qr_bytes r), c_outgoing := rest\<rparr>)))"
            using "1.IH"(1) [OF *(1) *(2) Sent] True sent_ok [OF "1.prems" *(1)] by simp
          then show ?thesis by (subst flush.simps) (simp add: * Sent True)
        qed (use "1.prems" * Sent in \<open>subst flush.simps; simp add: set_closed_ok\<close>)
      qed (use "1.prems" "1.IH"(2) [OF *(1) *(2)] * in \<open>subst flush.simps; simp add: set_closed_ok errno_ok\<close>)+
    qed
  qed
qed

lemma drain_incoming_ok: "connection_ok c \<Longrightarrow> c_state c \<noteq> CS_CLOSED \<Longrightarrow> connection_ok (snd (drain_incoming k rs result c))"
proof (induction k rs result c rule: drain_incoming.induct)
  case (2 k r rs result c)
  have "connection_ok (snd (receive_one k c r))" using receive_one_ok 2 by blast
  then show ?case using "2.IH" by (auto simp: Let_def split: prod.split)
qed simp

lemma finish_connect_ok:
  assumes "connection_ok c" "c_state c \<noteq> CS_CLOSED" "finish_connect e cr u c = (status, d)"
  shows "connection_ok d \<and> (status = ST_OK \<longrightarrow> c_state d \<noteq> CS_CLOSED)"
proof -
  have state: "connection_ok (c\<lparr>c_state := CS_AWAITING_WELCOME\<rparr>)"
    using assms(1) by (simp add: connection_ok_def queue_ok_def limits_ok_def used_def pending_keys_def)
  have peer: "connection_ok (d\<lparr>c_peer := (c_peer d)\<lparr>peer_pid := a, peer_uid := b, peer_gid := g\<rparr>, c_peer_credentials_read := True\<rparr>)"
    if "connection_ok d" for d a b g
    using that by (simp add: connection_ok_def queue_ok_def limits_ok_def used_def pending_keys_def)
  show ?thesis
    using assms(3) set_closed_ok errno_ok [OF assms(1)] errno_ok [OF state] peer [OF state]
    by (auto simp: finish_connect_def check_credentials_def read_peer_credentials_def Let_def split: if_splits sum.splits prod.splits)
qed

lemma process_poll_events_ok:
  assumes "connection_ok c"
  shows "connection_ok (snd (process_poll_events k p c))"
proof (cases "c_state c = CS_CLOSED")
  case False
  obtain s d where first: "(if c_state c = CS_CONNECTING \<and> pl_out p
    then finish_connect (pl_socket_error p) (pl_credentials p) (pl_euid p) c else (ST_OK, c)) = (s, d)" by fastforce
  have d: "connection_ok d" "s = ST_OK \<Longrightarrow> c_state d \<noteq> CS_CLOSED"
    using first finish_connect_ok [OF assms False] assms False by (auto split: if_splits)
  obtain t e where second: "(if \<not> c_server_side d \<and> c_state d = CS_AWAITING_WELCOME \<and> c_next_send_sequence d = 1
    then queue_hello k d else (ST_OK, d)) = (t, e)" by fastforce
  have e: "connection_ok e" "t = ST_OK \<Longrightarrow> c_state e \<noteq> CS_CLOSED" if "s = ST_OK"
  proof -
    have "queue_ok d" "c_state d \<noteq> CS_CLOSED" using d that by (auto dest: connection_ok_queue)
    from queue_internal_keeps [OF this reply_flags_ok(3)] queue_internal_ok [OF d(1) this(2) reply_flags_ok(3)]
    show "connection_ok e" "t = ST_OK \<Longrightarrow> c_state e \<noteq> CS_CLOSED"
      using second d that unfolding queue_hello_def keeps_def by (metis fst_conv snd_conv)+
  qed
  have rest: "connection_ok (snd (let (result, c) = (if pl_in p then drain_incoming k (pl_received p) ST_OK e else (ST_OK, e))
      in if pl_error p then (ST_DISCONNECTED, set_closed c) else poll_outgoing p result c))"
    if "s = ST_OK" "t = ST_OK"
  proof -
    obtain result f where f: "(if pl_in p then drain_incoming k (pl_received p) ST_OK e else (ST_OK, e)) = (result, f)"
      by fastforce
    have "connection_ok f"
      using drain_incoming_ok [OF e(1) e(2)] e(1) that f by (metis snd_conv)
    moreover from this have "connection_ok (snd (poll_outgoing p result f))"
      using flush_ok [of f "pl_sent p"] by (auto simp: poll_outgoing_def Let_def set_closed_ok split: prod.splits if_splits)
    ultimately show ?thesis by (simp add: f set_closed_ok)
  qed
  have step: "process_poll_events k p c = and_then (and_then (s, d) (\<lambda>d. if \<not> c_server_side d \<and> c_state d = CS_AWAITING_WELCOME \<and>
      c_next_send_sequence d = 1 then queue_hello k d else (ST_OK, d)))
    (\<lambda>e. let (result, c) = (if pl_in p then drain_incoming k (pl_received p) ST_OK e else (ST_OK, e))
      in if pl_error p then (ST_DISCONNECTED, set_closed c) else poll_outgoing p result c)"
    by (simp only: process_poll_events_def False if_False first)
  show ?thesis
  proof (cases "s = ST_OK \<and> t = ST_OK")
    case True
    then show ?thesis using rest unfolding step and_then_def fst_conv snd_conv second by (simp only: simp_thms if_True fst_conv snd_conv)
  next
    case False
    then show ?thesis using d(1) e(1) unfolding step and_then_def fst_conv snd_conv second by auto
  qed
qed (use assms in \<open>simp add: process_poll_events_def\<close>)


lemma used_fresh: "used c \<Longrightarrow> fresh_sequence c"
  by (auto simp: used_def pending_keys_def fresh_sequence_def Let_def fmlookup_dom'_iff fmlookup_dom_iff)

text \<open>The requests that were prepared are numbered with the sequence number to come.\<close>

definition prepared_keys :: "connection \<Rightarrow> connection \<Rightarrow> bool" where
  "prepared_keys c d \<longleftrightarrow> pending_keys d \<subseteq> insert (c_next_send_sequence c) (pending_keys c)"

lemma prepare_request_keys:
  assumes "prepare_request typ payload (c, no_changes (c_next_send_sequence c) r) = (status, d, ch)"
  shows "prepared_keys c d"
proof -
  have keys: "prepared_keys c (fst (snd (f typ payload (c, no_changes (c_next_send_sequence c) r))))"
    if "f \<in> {prepare_output_request, prepare_ping, prepare_frame_commit, prepare_policy_commit,
      prepare_synthetic_input, prepare_session_state}" for f
    using that
    by (elim insertE emptyE)
      (auto simp: prepare_defs prepared_keys_def pending_keys_def no_changes_def fm_emplace_def Let_def
        split: option.splits sum.splits if_splits)
  have if_both: "P (fst (snd a)) \<Longrightarrow> P (fst (snd b)) \<Longrightarrow> P (fst (snd (if q then a else b)))"
    for P and a b :: "gwipc_status \<times> connection \<times> correlation_changes" and q by simp
  have "prepared_keys c (fst (snd (prepare_request typ payload (c, no_changes (c_next_send_sequence c) r))))"
    unfolding prepare_request_cases
    by (intro if_both [of "prepared_keys c"] keys [of prepare_output_request] keys [of prepare_ping] keys [of prepare_frame_commit]
        keys [of prepare_policy_commit] keys [of prepare_synthetic_input] keys [of prepare_session_state])
      (simp_all add: prepared_keys_def subset_insertI)
  then show ?thesis by (simp add: assms)
qed

lemma prepared_keys_ok:
  assumes "prepared m c = (status, d, ch)"
  shows "prepared_keys c d"
proof -
  obtain s e ch' where r: "prepare_request (om_type m) (elements (om_payload m))
      (c, no_changes (c_next_send_sequence c) (om_reply_to m)) = (s, e, ch')" by (metis prod_cases3)
  have "d = e"
    using assms prepare_reply_state [of _ _ _ e ch' status d ch] by (auto simp: prepared_def r and_then_def split: if_splits)
  then show ?thesis using prepare_request_keys [OF r] by simp
qed

lemma enqueue_ok:
  assumes c: "connection_ok c" and e: "enqueue_with_sequence k c m = (status, c')"
  shows "connection_ok c'"
proof (cases "status = ST_OK")
  case False
  have "fresh_sequence c" using c used_fresh by (simp add: connection_ok_def)
  then show ?thesis using enqueue_refused [OF _ e False] c set_closed_ok errno_ok by auto
next
  case True
  then obtain s d ch snap where p: "prepared m c = (ST_OK, d, ch)" "queue_prepared k m snap (d, ch) = (ST_OK, c')"
    and m: "c_state c = CS_ESTABLISHED" "flags_ok (om_flags m) (om_reply_to m)"
    using e by (auto simp: enqueue_prepared valid_outgoing_flags_iff split: if_splits prod.splits)
  have view: "queue_view d = queue_view c"
    using prepared_undoes [OF used_fresh p(1)] c by (simp add: undoes_def connection_ok_def)
  have d: "queue_ok d" "c_state d \<noteq> CS_CLOSED" "c_next_send_sequence d = c_next_send_sequence c"
    using c m(1) view queue_view_ok [OF view] by (auto simp: connection_ok_def queue_view_def)
  obtain e where q: "queue_internal k d (om_type m) (om_flags m) (om_reply_to m) (elements (om_payload m))
      (elements (om_fds m)) = (ST_OK, e)"
    "c' = commit_replies (e\<lparr>c_outgoing_snapshot := snap, c_last_outgoing_session_generation :=
      (if cc_session_state_inserted ch then cc_session_generation ch else c_last_outgoing_session_generation e)\<rparr>, ch)"
    using p(2) by (auto simp: queue_prepared_def split: prod.splits if_splits)
  have queue: "queue_ok e" by (rule queue_internal_queue_ok [OF d(1,2) m(2) q(1)])
  have same: "queue_view c' = queue_view e" "pending_keys c' = pending_keys e" "c_next_send_sequence c' = c_next_send_sequence e"
    unfolding q(2) by (simp_all add: queue_view_def commit_replies_def Let_def pending_keys_def)
  have less: "c_next_send_sequence c < c_next_send_sequence e"
    using q(1) unat_next [of "c_next_send_sequence d"] d(3)
    by (auto simp: queue_internal_ok_iff with_record_def word_less_nat_alt)
  have "grows c e"
    using grows_queue_internal [of d k "om_type m" "om_flags m" "om_reply_to m" "elements (om_payload m)" "elements (om_fds m)"]
      prepared_keys_ok [OF p(1)] less d(3)
    by (auto simp: q(1) grows_def prepared_keys_def)
  moreover have "grows e c'" using same by (intro grows_same) simp_all
  ultimately show ?thesis using c queue_view_ok [OF same(1) queue] grows_trans connection_okI by blast
qed

section \<open>Reachable connections\<close>

text \<open>
  A connection is accepted by a listener or connects to one with a configuration that was checked; then it is
  polled, messages are enqueued on it and messages are taken from it, in any order and with any answers of the
  kernel.
\<close>

inductive reachable_connection :: "connection \<Rightarrow> bool" where
  accepted: "validate_config (li_config l) = ST_OK \<Longrightarrow> listener_accept l fd cr u = (Inr c, l') \<Longrightarrow> reachable_connection c"
| connected: "validate_config cfg = ST_OK \<Longrightarrow> connection_connect cfg fd in_progress cr u = Inr (status, c) \<Longrightarrow> reachable_connection c"
| polled: "reachable_connection c \<Longrightarrow> process_poll_events k p c = (status, c') \<Longrightarrow> reachable_connection c'"
| enqueued: "reachable_connection c \<Longrightarrow> enqueue_with_sequence k c m = (status, c') \<Longrightarrow> reachable_connection c'"
| taken: "reachable_connection c \<Longrightarrow> connection_receive c = (r, c') \<Longrightarrow> reachable_connection c'"

lemma new_connection_ok:
  assumes "validate_config cfg = ST_OK"
  shows "connection_ok ((new_connection cfg)\<lparr>c_fd := fd, c_server_side := b, c_state := s, c_assigned_connection_id := n,
    c_peer := no_peer\<lparr>peer_pid := x, peer_uid := y, peer_gid := z\<rparr>, c_peer_credentials_read := p\<rparr>)"
    "connection_ok ((new_connection cfg)\<lparr>c_fd := fd, c_state := s\<rparr>)"
  using assms
  by (auto simp: validate_config_def connection_ok_def queue_ok_def limits_ok_def used_def pending_keys_def
      new_connection_def no_peer_def not_less split: if_splits)

lemma reachable_connection_ok: "reachable_connection c \<Longrightarrow> connection_ok c"
proof (induction rule: reachable_connection.induct)
  case (accepted l fd cr u c l')
  from accepted(2) new_connection_ok(1) [OF accepted(1), where fd = fd and b = True and s = CS_AWAITING_HELLO] show ?case
    by (auto simp: listener_accept_def check_credentials_def read_peer_credentials_def Let_def new_connection_def
        split: if_splits sum.splits prod.splits)
next
  case (connected cfg fd in_progress cr u status c)
  from connected(2) new_connection_ok [OF connected(1), where fd = fd] show ?case
    by (auto simp: connection_connect_def check_credentials_def read_peer_credentials_def Let_def new_connection_def
        split: if_splits sum.splits prod.splits)
next
  case (polled c k p status c')
  then show ?case using process_poll_events_ok [of c k p] by simp
next
  case (enqueued c k m status c')
  then show ?case using enqueue_ok by simp
next
  case (taken c r c')
  then show ?case
    by (auto simp: connection_receive_def connection_ok_def queue_ok_def limits_ok_def used_def pending_keys_def
        split: list.splits)
qed

end
