(* ===== verification/Ipc_Session.thy ===== *)
theory Ipc_Session
  imports Ipc_Safety
begin

text \<open>
  Two connections that talk to each other. The specification of the correlation is two relations: which requests a
  connection has received and owes a reply to, and which it has sent and awaits a reply to. Two ends are linked
  when what one owes the other awaits, and when they agree on the numbers, the snapshots and the limits; a
  message accepted by the sender is then accepted by the receiver, and they are linked again.
\<close>

section \<open>Both directions of the validation\<close>

text \<open>The ends see each other: their roles are exchanged and they have negotiated the same.\<close>

definition mirrored :: "connection \<Rightarrow> connection \<Rightarrow> bool" where
  "mirrored a b \<longleftrightarrow>
     cf_local_role (c_config a) = peer_role (c_peer b) \<and> cf_local_role (c_config b) = peer_role (c_peer a) \<and>
     peer_capabilities (c_peer a) = peer_capabilities (c_peer b) \<and>
     peer_maximum_payload (c_peer a) = peer_maximum_payload (c_peer b) \<and>
     peer_maximum_fd_count (c_peer a) = peer_maximum_fd_count (c_peer b)"

text \<open>The receiver's descriptors are the sender's: the kernel says the same of them.\<close>

definition same_descriptor :: "kernel \<Rightarrow> kernel \<Rightarrow> int \<Rightarrow> int \<Rightarrow> bool" where
  "same_descriptor ka kb x y \<longleftrightarrow> k_status_flags ka x = k_status_flags kb y \<and> k_descriptor_flags ka x = k_descriptor_flags kb y \<and>
     k_stat ka x = k_stat kb y \<and> k_link ka x = k_link kb y"

definition same_descriptors :: "kernel \<Rightarrow> kernel \<Rightarrow> int list \<Rightarrow> int list \<Rightarrow> bool" where
  "same_descriptors ka kb = list_all2 (same_descriptor ka kb)"

lemma same_descriptors_length: "same_descriptors ka kb xs ys \<Longrightarrow> length xs = length ys"
  by (simp add: same_descriptors_def list_all2_lengthD)

lemma same_descriptors_nth:
  assumes "same_descriptors ka kb xs ys" "i < length xs"
  shows "k_status_flags ka (xs ! i) = k_status_flags kb (ys ! i)" "k_descriptor_flags ka (xs ! i) = k_descriptor_flags kb (ys ! i)"
    "k_stat ka (xs ! i) = k_stat kb (ys ! i)" "k_link ka (xs ! i) = k_link kb (ys ! i)"
  using list_all2_nthD [OF assms(1) [unfolded same_descriptors_def] assms(2)] by (simp_all add: same_descriptor_def)

lemma attachment_fds_positive: "attachment_fds v > 0" "attachment_fds v > 1 \<longleftrightarrow> wba_synchronization v = synchronization_event_fd"
  by (simp_all add: attachment_fds_def)

lemma validate_buffer_attach_same:
  assumes "same_descriptors ka kb xs ys"
  shows "validate_buffer_attach ka capabilities payload xs = validate_buffer_attach kb capabilities payload ys"
proof (cases "decode_buffer_attach payload")
  case (Inr v)
  show ?thesis
  proof (cases "length xs = attachment_fds v")
    case True
    have "readable_storage ka (xs ! 0) n = readable_storage kb (ys ! 0) n" for n
      using same_descriptors_nth [OF assms, of 0] True attachment_fds_positive(1) [of v] by (simp add: readable_storage_def)
    moreover have "usable_eventfd ka (xs ! 1) = usable_eventfd kb (ys ! 1)" if "wba_synchronization v = synchronization_event_fd"
      using same_descriptors_nth [OF assms, of 1] True that by (simp add: attachment_fds_def usable_eventfd_def is_eventfd_def)
    ultimately show ?thesis
      using same_descriptors_length [OF assms] by (auto simp: validate_buffer_attach_def Inr Let_def)
  qed (use same_descriptors_length [OF assms] in \<open>simp add: validate_buffer_attach_def Inr Let_def\<close>)
qed (simp add: validate_buffer_attach_def)

lemma validate_message_same:
  assumes "same_descriptors ka kb xs ys"
  shows "validate_message ka roles capabilities typ flags payload xs s = validate_message kb roles capabilities typ flags payload ys s"
proof -
  have empty: "xs = [] \<longleftrightarrow> ys = []" "length xs = length ys" using same_descriptors_length [OF assms] by auto
  have group: "validate_group ka capabilities typ flags payload xs s = validate_group kb capabilities typ flags payload ys s"
    unfolding validate_group_def validate_compositor_def validate_buffer_attach_same [OF assms] ..
  have count: "valid_descriptor_count typ payload xs = valid_descriptor_count typ payload ys"
    unfolding valid_descriptor_count_def empty ..
  have extension: "validate_output_extension roles capabilities typ flags payload xs s =
      validate_output_extension roles capabilities typ flags payload ys s"
    unfolding validate_output_extension_def empty(1) ..
  show ?thesis unfolding validate_message_def group count extension ..
qed

lemma mirrored_roles: "mirrored a b \<Longrightarrow> message_roles b Incoming = message_roles a Outgoing"
  by (simp add: mirrored_def message_roles_def)

lemma validate_mirrored:
  assumes "mirrored a b" "same_descriptors ka kb xs ys"
  shows "validate_application kb b typ flags payload ys s Incoming = validate_application ka a typ flags payload xs s Outgoing"
proof -
  have capabilities: "peer_capabilities (c_peer b) = peer_capabilities (c_peer a)" using assms(1) by (simp add: mirrored_def)
  show ?thesis
    unfolding validate_application_def mirrored_roles [OF assms(1)] capabilities validate_message_same [OF assms(2)] ..
qed

section \<open>Requests and replies\<close>

datatype request =
  Frame_Request u64 | Policy_Request u64 | Input_Request u64 | Session_Request session_correlation
| Output_Request output_correlation

fun owes :: "connection \<Rightarrow> u64 \<Rightarrow> request \<Rightarrow> bool" where
  "owes c n (Frame_Request v) \<longleftrightarrow> fmlookup (c_incoming_frame_commits c) n = Some v"
| "owes c n (Policy_Request v) \<longleftrightarrow> fmlookup (c_incoming_policy_commits c) n = Some v"
| "owes c n (Input_Request v) \<longleftrightarrow> fmlookup (c_incoming_synthetic_inputs c) n = Some v"
| "owes c n (Session_Request v) \<longleftrightarrow> fmlookup (c_incoming_session_states c) n = Some v"
| "owes c n (Output_Request v) \<longleftrightarrow> fmlookup (c_incoming_output_requests c) n = Some v"

fun awaits :: "connection \<Rightarrow> u64 \<Rightarrow> request \<Rightarrow> bool" where
  "awaits c n (Frame_Request v) \<longleftrightarrow> fmlookup (c_pending_frame_commits c) n = Some v"
| "awaits c n (Policy_Request v) \<longleftrightarrow> fmlookup (c_pending_policy_commits c) n = Some v"
| "awaits c n (Input_Request v) \<longleftrightarrow> fmlookup (c_pending_synthetic_inputs c) n = Some v"
| "awaits c n (Session_Request v) \<longleftrightarrow> fmlookup (c_pending_session_states c) n = Some v"
| "awaits c n (Output_Request v) \<longleftrightarrow> fmlookup (c_pending_output_requests c) n = Some v"

text \<open>The request a message makes, and whether a message replies to a request in the right way.\<close>

definition request_of :: "u16 \<Rightarrow> u8 list \<Rightarrow> request option" where
  "request_of typ payload =
     (if output_request typ
      then map_option (\<lambda>i. Output_Request \<lparr>oco_request_id = i, oco_request_type = typ\<rparr>) (output_request_identity typ payload)
      else if typ = GWIPC_MESSAGE_FRAME_COMMIT
      then map_option (\<lambda>v. Frame_Request (wfc_commit_id v)) (decoded_value (decode_wire_frame_commit payload))
      else if typ = GWIPC_MESSAGE_POLICY_COMMIT
      then map_option (\<lambda>v. Policy_Request (pco_commit_id v)) (decoded_value (decode_policy_commit payload))
      else if synthetic_input typ then map_option Input_Request (synthetic_input_id typ payload)
      else if typ = GWIPC_MESSAGE_SESSION_STATE_CHANGE
      then map_option (\<lambda>v. Session_Request \<lparr>sco_generation = sc_generation v, sco_state = sc_state v\<rparr>)
        (decoded_value (decode_session_state_change payload))
      else None)"

definition acknowledgement :: "u16 \<Rightarrow> bool" where
  "acknowledgement typ \<longleftrightarrow> typ \<in> {GWIPC_MESSAGE_OUTPUT_CONFIGURATION_ACKNOWLEDGED, GWIPC_MESSAGE_FRAME_ACKNOWLEDGED,
     GWIPC_MESSAGE_POLICY_ACKNOWLEDGED, GWIPC_MESSAGE_SYNTHETIC_INPUT_ACKNOWLEDGED, GWIPC_MESSAGE_SESSION_STATE_ACKNOWLEDGED}"

text \<open>The kind of request a type of acknowledgement is for.\<close>

fun acknowledges :: "u16 \<Rightarrow> request \<Rightarrow> bool" where
  "acknowledges typ (Frame_Request _) \<longleftrightarrow> typ = GWIPC_MESSAGE_FRAME_ACKNOWLEDGED"
| "acknowledges typ (Policy_Request _) \<longleftrightarrow> typ = GWIPC_MESSAGE_POLICY_ACKNOWLEDGED"
| "acknowledges typ (Input_Request _) \<longleftrightarrow> typ = GWIPC_MESSAGE_SYNTHETIC_INPUT_ACKNOWLEDGED"
| "acknowledges typ (Session_Request _) \<longleftrightarrow> typ = GWIPC_MESSAGE_SESSION_STATE_ACKNOWLEDGED"
| "acknowledges typ (Output_Request _) \<longleftrightarrow> typ = GWIPC_MESSAGE_OUTPUT_CONFIGURATION_ACKNOWLEDGED"

text \<open>The payload of an acknowledgement names its request.\<close>

fun names_request :: "u8 list \<Rightarrow> request \<Rightarrow> bool" where
  "names_request payload (Frame_Request n) \<longleftrightarrow>
     (\<exists>v. decode_wire_frame_acknowledged payload = Inr v \<and> wfa_commit_id v = n)"
| "names_request payload (Policy_Request n) \<longleftrightarrow>
     (\<exists>v. decode_policy_acknowledged payload = Inr v \<and> pak_commit_id v = n)"
| "names_request payload (Input_Request n) \<longleftrightarrow>
     (\<exists>v. decode_synthetic_input_acknowledged payload = Inr v \<and> sia_input_id v = n)"
| "names_request payload (Session_Request s) \<longleftrightarrow>
     (\<exists>v. decode_session_state_acknowledged payload = Inr v \<and> sa_generation v = sco_generation s \<and> sa_state v = sco_state s)"
| "names_request payload (Output_Request o') \<longleftrightarrow> acknowledgement_identity payload = Some (oco_request_id o')"

text \<open>What a step does to the requests owed and awaited.\<close>

definition effect_of_sending :: "connection \<Rightarrow> connection \<Rightarrow> u16 \<Rightarrow> u64 \<Rightarrow> u8 list \<Rightarrow> bool" where
  "effect_of_sending c c' typ reply_to payload \<longleftrightarrow>
     (\<forall>n r. awaits c' n r \<longleftrightarrow> awaits c n r \<or> (n = c_next_send_sequence c \<and> request_of typ payload = Some r)) \<and>
     (\<forall>n r. owes c' n r \<longleftrightarrow> owes c n r \<and> \<not> (n = reply_to \<and> acknowledges typ r)) \<and>
     (acknowledgement typ \<longrightarrow> (\<exists>r. owes c reply_to r \<and> acknowledges typ r \<and> names_request payload r))"

definition effect_of_receiving :: "connection \<Rightarrow> connection \<Rightarrow> u16 \<Rightarrow> u64 \<Rightarrow> u8 list \<Rightarrow> u64 \<Rightarrow> bool" where
  "effect_of_receiving c c' typ reply_to payload sequence \<longleftrightarrow>
     (\<forall>n r. owes c' n r \<longleftrightarrow> owes c n r \<or> (n = sequence \<and> request_of typ payload = Some r)) \<and>
     (\<forall>n r. awaits c' n r \<longleftrightarrow> awaits c n r \<and> \<not> (n = reply_to \<and> acknowledges typ r)) \<and>
     c_pending_replies c' = (if acknowledgement typ then c_pending_replies c |-| {|reply_to|} else c_pending_replies c)"


section \<open>Sending a message\<close>

lemma fm_emplace_fresh: "k |\<notin>| fmdom m \<Longrightarrow> fmlookup (fm_emplace k v m) n = (if n = k then Some v else fmlookup m n)"
  by (simp add: fm_emplace_def)

lemma decoded_value_Some [simp]: "decoded_value r = Some v \<longleftrightarrow> r = Inr v" "decoded_value r = None \<longleftrightarrow> (\<exists>e. r = Inl e)"
  by (cases r; simp add: decoded_value_def)+

lemma answers_iff: "answers expected value agree \<longleftrightarrow> (\<exists>e v. expected = Some e \<and> value = Some v \<and> agree e v)"
  by (auto simp: answers_def split: option.splits)

lemma owes_frame [simp]:
  "owes (c_pending_frame_commits_update f1 c) = owes c" "owes (c_pending_policy_commits_update f1 c) = owes c"
  "owes (c_pending_synthetic_inputs_update f1 c) = owes c" "owes (c_pending_ping_nonces_update f1 c) = owes c"
  "owes (c_pending_session_states_update f2 c) = owes c" "owes (c_pending_output_requests_update f3 c) = owes c"
  "owes (c_pending_replies_update f4 c) = owes c" "owes (c_incoming_update f5 c) = owes c"
  "owes (c_incoming_snapshot_update f6 c) = owes c" "owes (c_outgoing_snapshot_update f6 c) = owes c"
  "owes (c_last_outgoing_session_generation_update f7 c) = owes c"
  "owes (c_last_incoming_session_generation_update f7 c) = owes c"
  "owes (c_next_receive_sequence_update f7 c) = owes c"
  by (intro ext; case_tac xa; simp)+

lemma awaits_frame [simp]:
  "awaits (c_incoming_frame_commits_update f1 c) = awaits c" "awaits (c_incoming_policy_commits_update f1 c) = awaits c"
  "awaits (c_incoming_synthetic_inputs_update f1 c) = awaits c" "awaits (c_pending_ping_nonces_update f1 c) = awaits c"
  "awaits (c_incoming_session_states_update f2 c) = awaits c" "awaits (c_incoming_output_requests_update f3 c) = awaits c"
  "awaits (c_pending_replies_update f4 c) = awaits c" "awaits (c_incoming_update f5 c) = awaits c"
  "awaits (c_incoming_snapshot_update f6 c) = awaits c" "awaits (c_outgoing_snapshot_update f6 c) = awaits c"
  "awaits (c_last_outgoing_session_generation_update f7 c) = awaits c"
  "awaits (c_last_incoming_session_generation_update f7 c) = awaits c"
  "awaits (c_next_receive_sequence_update f7 c) = awaits c"
  by (intro ext; case_tac xa; simp)+

lemma awaits_emplace:
  "k |\<notin>| fmdom (c_pending_frame_commits c) \<Longrightarrow>
     awaits (c\<lparr>c_pending_frame_commits := fm_emplace k v1 (c_pending_frame_commits c)\<rparr>) n r \<longleftrightarrow>
     awaits c n r \<or> n = k \<and> r = Frame_Request v1"
  "k |\<notin>| fmdom (c_pending_policy_commits c) \<Longrightarrow>
     awaits (c\<lparr>c_pending_policy_commits := fm_emplace k v1 (c_pending_policy_commits c)\<rparr>) n r \<longleftrightarrow>
     awaits c n r \<or> n = k \<and> r = Policy_Request v1"
  "k |\<notin>| fmdom (c_pending_synthetic_inputs c) \<Longrightarrow>
     awaits (c\<lparr>c_pending_synthetic_inputs := fm_emplace k v1 (c_pending_synthetic_inputs c)\<rparr>) n r \<longleftrightarrow>
     awaits c n r \<or> n = k \<and> r = Input_Request v1"
  "k |\<notin>| fmdom (c_pending_session_states c) \<Longrightarrow>
     awaits (c\<lparr>c_pending_session_states := fm_emplace k v2 (c_pending_session_states c)\<rparr>) n r \<longleftrightarrow>
     awaits c n r \<or> n = k \<and> r = Session_Request v2"
  "k |\<notin>| fmdom (c_pending_output_requests c) \<Longrightarrow>
     awaits (c\<lparr>c_pending_output_requests := fm_emplace k v3 (c_pending_output_requests c)\<rparr>) n r \<longleftrightarrow>
     awaits c n r \<or> n = k \<and> r = Output_Request v3"
  by (cases r; auto simp: fm_emplace_fresh fmdom_notD)+

lemma owes_emplace:
  "k |\<notin>| fmdom (c_incoming_frame_commits c) \<Longrightarrow>
     owes (c_incoming_frame_commits_update (fm_emplace k v1) c) n r \<longleftrightarrow>
     owes c n r \<or> n = k \<and> r = Frame_Request v1"
  "k |\<notin>| fmdom (c_incoming_policy_commits c) \<Longrightarrow>
     owes (c_incoming_policy_commits_update (fm_emplace k v1) c) n r \<longleftrightarrow>
     owes c n r \<or> n = k \<and> r = Policy_Request v1"
  "k |\<notin>| fmdom (c_incoming_synthetic_inputs c) \<Longrightarrow>
     owes (c_incoming_synthetic_inputs_update (fm_emplace k v1) c) n r \<longleftrightarrow>
     owes c n r \<or> n = k \<and> r = Input_Request v1"
  "k |\<notin>| fmdom (c_incoming_session_states c) \<Longrightarrow>
     owes (c_incoming_session_states_update (fm_emplace k v2) c) n r \<longleftrightarrow>
     owes c n r \<or> n = k \<and> r = Session_Request v2"
  "k |\<notin>| fmdom (c_incoming_output_requests c) \<Longrightarrow>
     owes (c\<lparr>c_incoming_output_requests := fm_emplace k v3 (c_incoming_output_requests c)\<rparr>) n r \<longleftrightarrow>
     owes c n r \<or> n = k \<and> r = Output_Request v3"
  by (cases r; auto simp: fm_emplace_fresh fmdom_notD)+

text \<open>What the preparation of a request registers.\<close>

definition registered :: "connection \<Rightarrow> connection \<Rightarrow> u16 \<Rightarrow> u8 list \<Rightarrow> bool" where
  "registered c d typ payload \<longleftrightarrow> owes d = owes c \<and>
     (\<forall>n r. awaits d n r \<longleftrightarrow> awaits c n r \<or> (n = c_next_send_sequence c \<and> request_of typ payload = Some r))"

text \<open>The types whose payload must name a request.\<close>

definition tracked_type :: "u16 \<Rightarrow> bool" where
  "tracked_type typ \<longleftrightarrow> output_request typ \<or>
     typ \<in> {GWIPC_MESSAGE_FRAME_COMMIT, GWIPC_MESSAGE_POLICY_COMMIT, GWIPC_MESSAGE_SESSION_STATE_CHANGE}"

text \<open>No reply was prepared.\<close>

definition no_reply :: "u64 \<Rightarrow> correlation_changes \<Rightarrow> bool" where
  "no_reply reply_to ch \<longleftrightarrow> cc_reply_to ch = reply_to \<and> \<not> cc_frame_acknowledged ch \<and> \<not> cc_policy_acknowledged ch \<and>
     \<not> cc_synthetic_input_acknowledged ch \<and> \<not> cc_session_state_acknowledged ch \<and> \<not> cc_output_acknowledgement ch"

lemma prepare_request_registers:
  assumes fresh: "fresh_sequence c"
    and p: "prepare_request typ payload (c, no_changes (c_next_send_sequence c) reply_to) = (ST_OK, d, ch)"
  shows "registered c d typ payload \<and> no_reply reply_to ch \<and> (tracked_type typ \<longrightarrow> request_of typ payload \<noteq> None) \<and>
    (if typ = GWIPC_MESSAGE_SESSION_STATE_CHANGE
     then \<exists>v. decode_session_state_change payload = Inr v \<and> cc_session_state_inserted ch \<and>
       cc_session_generation ch = sc_generation v \<and> sc_generation v > c_last_outgoing_session_generation c
     else \<not> cc_session_state_inserted ch)"
proof -
  note f = fresh [unfolded fresh_sequence_def Let_def]
  note defs = prepare_request_cases registered_def no_changes_def request_of_def awaits_emplace no_reply_def fm_emplace_fresh tracked_type_def
  consider "output_request typ" | "typ = GWIPC_MESSAGE_PING" | "typ = GWIPC_MESSAGE_FRAME_COMMIT"
    | "typ = GWIPC_MESSAGE_POLICY_COMMIT" | "synthetic_input typ" | "typ = GWIPC_MESSAGE_SESSION_STATE_CHANGE"
    | "\<not> output_request typ" "typ \<noteq> GWIPC_MESSAGE_PING" "typ \<noteq> GWIPC_MESSAGE_FRAME_COMMIT"
      "typ \<noteq> GWIPC_MESSAGE_POLICY_COMMIT" "\<not> synthetic_input typ" "typ \<noteq> GWIPC_MESSAGE_SESSION_STATE_CHANGE"
    by blast
  then show ?thesis
  proof cases
    case 1
    then have "typ \<noteq> GWIPC_MESSAGE_SESSION_STATE_CHANGE" by (auto simp: output_request_def ipc)
    then show ?thesis
      using p 1 f by (auto simp: defs prepare_output_request_def split: option.splits if_splits)
  next
    case 5
    then have "typ \<notin> {GWIPC_MESSAGE_PING, GWIPC_MESSAGE_FRAME_COMMIT, GWIPC_MESSAGE_POLICY_COMMIT,
        GWIPC_MESSAGE_SESSION_STATE_CHANGE}" "\<not> output_request typ"
      by (auto simp: synthetic_input_def output_request_def ipc)
    then show ?thesis
      using p 5 f by (auto simp: defs prepare_synthetic_input_def split: option.splits if_splits)
  next
    case 6
    then show ?thesis
      using p f by (auto simp: defs prepare_session_state_def output_request_def synthetic_input_def ipc decoded_value_def not_le
          split: sum.splits if_splits)
  qed (use p f in \<open>auto simp: defs prepare_ping_def prepare_frame_commit_def prepare_policy_commit_def output_request_def
      synthetic_input_def ipc decoded_value_def split: sum.splits if_splits\<close>)
qed


lemma acknowledgement_no_request:
  assumes "acknowledgement typ"
  shows "\<not> output_request typ" "typ \<noteq> GWIPC_MESSAGE_PING" "typ \<noteq> GWIPC_MESSAGE_FRAME_COMMIT"
    "typ \<noteq> GWIPC_MESSAGE_POLICY_COMMIT" "\<not> synthetic_input typ" "typ \<noteq> GWIPC_MESSAGE_SESSION_STATE_CHANGE"
    "request_of typ payload = None" "prepare_request typ payload st = (ST_OK, st)"
  using assms
  by (auto simp: acknowledgement_def output_request_def synthetic_input_def ipc request_of_def prepare_request_cases)

lemma not_acknowledgement: "\<not> acknowledgement typ \<Longrightarrow> \<not> acknowledges typ r"
  by (cases r) (auto simp: acknowledgement_def)

lemma prepare_reply_other: "\<not> acknowledgement typ \<Longrightarrow> prepare_reply typ reply_to payload st = (ST_OK, st)"
  by (cases st) (auto simp: prepare_reply_def acknowledgement_def)

text \<open>A reply that was prepared answers a request that is owed, and its completion forgets exactly this request.\<close>

lemma prepare_reply_effect:
  assumes "acknowledgement typ" "no_reply reply_to ch" "prepare_reply typ reply_to payload (c, ch) = (ST_OK, d, ch')"
  shows "(\<exists>r. owes c reply_to r \<and> acknowledges typ r \<and> names_request payload r) \<and> d = c \<and>
    cc_session_state_inserted ch' = cc_session_state_inserted ch \<and>
    (\<forall>e n r. owes e = owes c \<longrightarrow> (owes (commit_replies (e, ch')) n r \<longleftrightarrow> owes e n r \<and> \<not> (n = reply_to \<and> acknowledges typ r)))"
proof -
  have *: "owes (commit_replies (e, ch')) n r \<longleftrightarrow> owes e n r \<and> \<not> (n = reply_to \<and> acknowledges typ r)" for e n r
    using assms
    by (cases r) (auto simp: prepare_reply_def commit_replies_def drop_if_def Let_def no_reply_def acknowledgement_def ipc
        split: if_splits)
  have "\<exists>r. owes c reply_to r \<and> acknowledges typ r \<and> names_request payload r"
  proof -
    consider (f) "typ = GWIPC_MESSAGE_FRAME_ACKNOWLEDGED" | (p) "typ = GWIPC_MESSAGE_POLICY_ACKNOWLEDGED"
      | (i) "typ = GWIPC_MESSAGE_SYNTHETIC_INPUT_ACKNOWLEDGED" | (s) "typ = GWIPC_MESSAGE_SESSION_STATE_ACKNOWLEDGED"
      | (o) "typ = GWIPC_MESSAGE_OUTPUT_CONFIGURATION_ACKNOWLEDGED"
      using assms(1) by (auto simp: acknowledgement_def)
    then show ?thesis
    proof cases
      case f
      then obtain n where "owes c reply_to (Frame_Request n)" "names_request payload (Frame_Request n)"
        using assms(3) by (auto simp: prepare_reply_def answers_iff ipc split: if_splits)
      then show ?thesis using f by (intro exI [of _ "Frame_Request n"]) simp
    next
      case p
      then obtain n where "owes c reply_to (Policy_Request n)" "names_request payload (Policy_Request n)"
        using assms(3) by (auto simp: prepare_reply_def answers_iff ipc split: if_splits)
      then show ?thesis using p by (intro exI [of _ "Policy_Request n"]) simp
    next
      case i
      then obtain n where "owes c reply_to (Input_Request n)" "names_request payload (Input_Request n)"
        using assms(3) by (auto simp: prepare_reply_def answers_iff ipc split: if_splits)
      then show ?thesis using i by (intro exI [of _ "Input_Request n"]) simp
    next
      case s
      then obtain n where "owes c reply_to (Session_Request n)" "names_request payload (Session_Request n)"
        using assms(3) by (auto simp: prepare_reply_def answers_iff ipc split: if_splits) metis
      then show ?thesis using s by (intro exI [of _ "Session_Request n"]) simp
    next
      case o
      then obtain n where "owes c reply_to (Output_Request n)" "names_request payload (Output_Request n)"
        using assms(3) by (auto simp: prepare_reply_def answers_iff ipc split: if_splits)
      then show ?thesis using o by (intro exI [of _ "Output_Request n"]) simp
    qed
  qed
  moreover have "cc_session_state_inserted ch' = cc_session_state_inserted ch"
    using assms(3) by (auto simp: prepare_reply_def split: if_splits)
  ultimately show ?thesis using * prepare_reply_state [OF assms(3)] by blast
qed


text \<open>What an accepted message does to its sender.\<close>

lemma enqueue_accepted:
  assumes fresh: "fresh_sequence c" and e: "enqueue_with_sequence k c m = (ST_OK, c')"
  shows "\<exists>ds s. valid_outgoing_flags m \<and> c_state c = CS_ESTABLISHED \<and>
    validate_application k c (om_type m) (om_flags m) (elements (om_payload m)) (elements (om_fds m))
      (c_outgoing_snapshot c) Outgoing = (ST_OK, s) \<and>
    c_next_send_sequence c \<noteq> 0 \<and> c_next_send_sequence c \<noteq> -1 \<and>
    length (elements (om_payload m)) \<le> unat (peer_maximum_payload (c_peer c)) \<and>
    length (elements (om_fds m)) \<le> unat (peer_maximum_fd_count (c_peer c)) \<and>
    duplicate_fds k (elements (om_fds m)) [] = Inr ds \<and>
    c_outgoing c' = c_outgoing c @ [sent_record c (om_type m) (om_flags m) (om_reply_to m) (elements (om_payload m))
      (elements (om_fds m)) ds] \<and>
    c_state c' = CS_ESTABLISHED \<and> c_config c' = c_config c \<and> c_peer c' = c_peer c \<and>
    c_next_send_sequence c' = c_next_send_sequence c + 1 \<and> c_next_receive_sequence c' = c_next_receive_sequence c \<and>
    c_outgoing_snapshot c' = s \<and> c_incoming_snapshot c' = c_incoming_snapshot c \<and>
    c_last_incoming_session_generation c' = c_last_incoming_session_generation c \<and>
    (if om_type m = GWIPC_MESSAGE_SESSION_STATE_CHANGE
     then \<exists>v. decode_session_state_change (elements (om_payload m)) = Inr v \<and>
       c_last_outgoing_session_generation c' = sc_generation v \<and> sc_generation v > c_last_outgoing_session_generation c
     else c_last_outgoing_session_generation c' = c_last_outgoing_session_generation c) \<and>
    c_pending_replies c' = (if om_flags m AND GWIPC_FLAG_ACK_REQUIRED \<noteq> 0
      then finsert (c_next_send_sequence c) (c_pending_replies c) else c_pending_replies c) \<and>
    (tracked_type (om_type m) \<longrightarrow> request_of (om_type m) (elements (om_payload m)) \<noteq> None) \<and>
    effect_of_sending c c' (om_type m) (om_reply_to m) (elements (om_payload m))"
proof -
  let ?t = "om_type m" and ?p = "elements (om_payload m)" and ?r = "om_reply_to m"
  obtain s d ch where m: "valid_outgoing_flags m" "c_state c = CS_ESTABLISHED"
    "validate_application k c ?t (om_flags m) ?p (elements (om_fds m)) (c_outgoing_snapshot c) Outgoing = (ST_OK, s)"
    and p: "prepared m c = (ST_OK, d, ch)" and q: "queue_prepared k m s (d, ch) = (ST_OK, c')"
    using e by (auto simp: enqueue_prepared split: if_splits prod.splits)
  obtain d0 ch0 where p0: "prepare_request ?t ?p (c, no_changes (c_next_send_sequence c) ?r) = (ST_OK, d0, ch0)"
    and p1: "prepare_reply ?t ?r ?p (d0, ch0) = (ST_OK, d, ch)"
    using p by (auto simp: prepared_def and_then_def split: if_splits) (metis prod_cases3 fst_conv snd_conv)
  note req = prepare_request_registers [OF fresh p0]
  have d: "d = d0" using prepare_reply_state [OF p1] .
  have view: "queue_view d = queue_view c" using prepared_undoes [OF fresh p] by (simp add: undoes_def)
  have rollback: "rollback_requests (d, ch) = c" using prepared_undoes [OF fresh p] by (simp add: undoes_def)
  obtain x where x: "queue_internal k d ?t (om_flags m) ?r ?p (elements (om_fds m)) = (ST_OK, x)"
    "c' = commit_replies (x\<lparr>c_outgoing_snapshot := s, c_last_outgoing_session_generation :=
      (if cc_session_state_inserted ch then cc_session_generation ch else c_last_outgoing_session_generation x)\<rparr>, ch)"
    using q by (auto simp: queue_prepared_def split: prod.splits if_splits)
  obtain ds where ds: "c_next_send_sequence d \<noteq> 0" "c_next_send_sequence d \<noteq> -1"
    "length ?p \<le> unat (maximum_payload_of d)" "length (elements (om_fds m)) \<le> unat (maximum_fds_of d)"
    "duplicate_fds k (elements (om_fds m)) [] = Inr ds"
    "x = with_record d (om_flags m) (sent_record d ?t (om_flags m) ?r ?p (elements (om_fds m)) ds)"
    using x(1) by (auto simp: queue_internal_ok_iff)
  have same: "c_config d = c_config c" "c_peer d = c_peer c" "c_outgoing d = c_outgoing c"
    "c_next_send_sequence d = c_next_send_sequence c" "c_state d = CS_ESTABLISHED"
    using view m(2) by (simp_all add: queue_view_def)
  have frame: "c_next_receive_sequence d = c_next_receive_sequence c" "c_incoming_snapshot d = c_incoming_snapshot c"
    "c_last_incoming_session_generation d = c_last_incoming_session_generation c"
    "c_last_outgoing_session_generation d = c_last_outgoing_session_generation c" "c_pending_replies d = c_pending_replies c"
    unfolding rollback [symmetric] by (simp_all add: rollback_requests_def Let_def)
  have sent: "sent_record d ?t (om_flags m) ?r ?p (elements (om_fds m)) ds =
      sent_record c ?t (om_flags m) ?r ?p (elements (om_fds m)) ds"
    by (simp add: sent_record_def outgoing_envelope_def same)
  have awaits: "awaits c' n r \<longleftrightarrow> awaits c n r \<or> (n = c_next_send_sequence c \<and> request_of ?t ?p = Some r)" for n r
  proof -
    have "awaits c' n r = awaits d n r"
      unfolding x(2) ds(6) by (cases r) (simp_all add: commit_replies_def Let_def with_record_def)
    then show ?thesis using req by (simp add: d registered_def)
  qed
  have owes: "owes c' n r \<longleftrightarrow> owes c n r \<and> \<not> (n = ?r \<and> acknowledges ?t r)" for n r
  proof -
    have x_owes: "owes (x\<lparr>c_outgoing_snapshot := s, c_last_outgoing_session_generation := g\<rparr>) = owes d" for g
    proof (intro ext)
      show "owes (x\<lparr>c_outgoing_snapshot := s, c_last_outgoing_session_generation := g\<rparr>) n r = owes d n r" for n r
        unfolding ds(6) by (cases r) (simp_all add: with_record_def)
    qed
    show ?thesis
    proof (cases "acknowledgement ?t")
      case True
      then show ?thesis
        using prepare_reply_effect [OF True _ p1] req x_owes unfolding x(2) by (simp add: d registered_def)
    next
      case False
      have "ch = ch0" using prepare_reply_other [OF False, of ?r ?p "(d0, ch0)"] p1 by simp
      then have "owes c' n r = owes d n r"
        using req x_owes unfolding x(2)
        by (cases r) (simp_all add: no_reply_def commit_replies_def Let_def drop_if_def ds(6) with_record_def)
      then show ?thesis using req not_acknowledgement [OF False] by (simp add: d registered_def)
    qed
  qed
  have replied: "acknowledgement ?t \<Longrightarrow> \<exists>r. owes c ?r r \<and> acknowledges ?t r \<and> names_request ?p r"
    using prepare_reply_effect [OF _ _ p1] req by (auto simp: registered_def)
  have inserted: "cc_session_state_inserted ch = cc_session_state_inserted ch0"
    "cc_session_generation ch = cc_session_generation ch0"
    using p1 by (auto simp: prepare_reply_def split: if_splits)
  have effect: "effect_of_sending c c' ?t ?r ?p"
    using awaits owes replied by (simp add: effect_of_sending_def)
  have c': "c_outgoing c' = c_outgoing c @ [sent_record c ?t (om_flags m) ?r ?p (elements (om_fds m)) ds]"
    "c_state c' = CS_ESTABLISHED" "c_config c' = c_config c" "c_peer c' = c_peer c"
    "c_next_send_sequence c' = c_next_send_sequence c + 1" "c_next_receive_sequence c' = c_next_receive_sequence c"
    "c_outgoing_snapshot c' = s" "c_incoming_snapshot c' = c_incoming_snapshot c"
    "c_last_incoming_session_generation c' = c_last_incoming_session_generation c"
    "c_last_outgoing_session_generation c' = (if cc_session_state_inserted ch0 then cc_session_generation ch0
       else c_last_outgoing_session_generation c)"
    "c_pending_replies c' = (if om_flags m AND GWIPC_FLAG_ACK_REQUIRED \<noteq> 0
      then finsert (c_next_send_sequence c) (c_pending_replies c) else c_pending_replies c)"
    unfolding x(2) ds(6) sent inserted
    by (simp_all add: commit_replies_def Let_def with_record_def same frame sent_record_def)
  have limits: "length ?p \<le> unat (peer_maximum_payload (c_peer c))" "length (elements (om_fds m)) \<le> unat (peer_maximum_fd_count (c_peer c))"
    using ds(3,4) by (simp_all add: maximum_payload_of_def maximum_fds_of_def same)
  show ?thesis
    using m ds(1,2,5) same(4) c' effect limits req by (intro exI [of _ ds] exI [of _ s]) auto
qed


section \<open>Receiving a message\<close>

text \<open>What receiving a reply or a request leaves alone.\<close>

definition session_view where
  "session_view c = (c_config c, c_peer c, c_state c, c_next_send_sequence c, c_next_receive_sequence c, c_outgoing c,
     c_incoming c, c_incoming_snapshot c, c_outgoing_snapshot c, c_last_outgoing_session_generation c,
     c_last_incoming_session_generation c)"

lemma awaits_drop:
  "awaits (c_pending_frame_commits_update (fmdrop k) c) n r \<longleftrightarrow> awaits c n r \<and> \<not> (n = k \<and> (\<exists>v. r = Frame_Request v))"
  "awaits (c_pending_policy_commits_update (fmdrop k) c) n r \<longleftrightarrow> awaits c n r \<and> \<not> (n = k \<and> (\<exists>v. r = Policy_Request v))"
  "awaits (c_pending_synthetic_inputs_update (fmdrop k) c) n r \<longleftrightarrow> awaits c n r \<and> \<not> (n = k \<and> (\<exists>v. r = Input_Request v))"
  "awaits (c_pending_session_states_update (fmdrop k) c) n r \<longleftrightarrow> awaits c n r \<and> \<not> (n = k \<and> (\<exists>v. r = Session_Request v))"
  "awaits (c_pending_output_requests_update (fmdrop k) c) n r \<longleftrightarrow> awaits c n r \<and> \<not> (n = k \<and> (\<exists>v. r = Output_Request v))"
  by (cases r; auto)+

lemma acknowledges_kind:
  "acknowledges GWIPC_MESSAGE_FRAME_ACKNOWLEDGED r \<longleftrightarrow> (\<exists>v. r = Frame_Request v)"
  "acknowledges GWIPC_MESSAGE_POLICY_ACKNOWLEDGED r \<longleftrightarrow> (\<exists>v. r = Policy_Request v)"
  "acknowledges GWIPC_MESSAGE_SYNTHETIC_INPUT_ACKNOWLEDGED r \<longleftrightarrow> (\<exists>v. r = Input_Request v)"
  "acknowledges GWIPC_MESSAGE_SESSION_STATE_ACKNOWLEDGED r \<longleftrightarrow> (\<exists>v. r = Session_Request v)"
  "acknowledges GWIPC_MESSAGE_OUTPUT_CONFIGURATION_ACKNOWLEDGED r \<longleftrightarrow> (\<exists>v. r = Output_Request v)"
  by (cases r; simp add: ipc)+

text \<open>The expected reply is taken: its request is no longer awaited.\<close>

definition reply_taken :: "connection \<Rightarrow> connection \<Rightarrow> u16 \<Rightarrow> u64 \<Rightarrow> bool" where
  "reply_taken c d typ reply_to \<longleftrightarrow> session_view d = session_view c \<and> owes d = owes c \<and>
     (\<forall>n r. awaits d n r \<longleftrightarrow> awaits c n r \<and> \<not> (n = reply_to \<and> acknowledges typ r)) \<and>
     c_pending_replies d = c_pending_replies c"

lemma take_pending_ok:
  "answers (fmlookup (entries c) (en_reply_to e)) value agree \<Longrightarrow>
     take_pending k e detail entries update value agree c = (ST_OK, update (fmdrop (en_reply_to e)) c)"
  by (simp add: take_pending_def)

lemma take_expected_effect:
  assumes r: "awaits c (en_reply_to e) r" "acknowledges (en_type e) r" "names_request payload r"
  shows "\<exists>d. take_expected k e payload c = (ST_OK, d) \<and> reply_taken c d (en_type e) (en_reply_to e)"
proof (cases r)
  case (Frame_Request n)
  then show ?thesis
    using r by (intro exI [of _ "c_pending_frame_commits_update (fmdrop (en_reply_to e)) c"] conjI)
      (auto simp: take_expected_def take_pending_ok answers_iff reply_taken_def session_view_def awaits_drop acknowledges_kind [unfolded ipc] ipc)
next
  case (Policy_Request n)
  then show ?thesis
    using r by (intro exI [of _ "c_pending_policy_commits_update (fmdrop (en_reply_to e)) c"] conjI)
      (auto simp: take_expected_def take_pending_ok answers_iff reply_taken_def session_view_def awaits_drop acknowledges_kind [unfolded ipc] ipc)
next
  case (Input_Request n)
  then show ?thesis
    using r by (intro exI [of _ "c_pending_synthetic_inputs_update (fmdrop (en_reply_to e)) c"] conjI)
      (auto simp: take_expected_def take_pending_ok answers_iff reply_taken_def session_view_def awaits_drop acknowledges_kind [unfolded ipc] ipc)
next
  case (Session_Request n)
  then show ?thesis
    using r by (intro exI [of _ "c_pending_session_states_update (fmdrop (en_reply_to e)) c"] conjI)
      (auto simp: take_expected_def take_pending_ok answers_iff reply_taken_def session_view_def awaits_drop acknowledges_kind [unfolded ipc] ipc)
next
  case (Output_Request n)
  then show ?thesis
    using r by (intro exI [of _ "c_pending_output_requests_update (fmdrop (en_reply_to e)) c"] conjI)
      (auto simp: take_expected_def take_pending_ok answers_iff reply_taken_def session_view_def awaits_drop acknowledges_kind [unfolded ipc] ipc)
qed

lemma incoming_reply_effect:
  assumes r: "awaits c (en_reply_to e) r" "acknowledges (en_type e) r" "names_request payload r"
    and pending: "en_reply_to e |\<in>| c_pending_replies c"
  shows "\<exists>d. validate_incoming_reply k c e payload =
      (ST_OK, d\<lparr>c_pending_replies := c_pending_replies c |-| {|en_reply_to e|}\<rparr>) \<and> reply_taken c d (en_type e) (en_reply_to e)"
proof -
  obtain d where "take_expected k e payload c = (ST_OK, d)" "reply_taken c d (en_type e) (en_reply_to e)"
    using take_expected_effect [OF r] by blast
  then show ?thesis
    using pending by (intro exI [of _ d]) (simp add: validate_incoming_reply_def take_reply_def reply_taken_def)
qed

text \<open>A request is remembered.\<close>

definition request_tracked :: "connection \<Rightarrow> connection \<Rightarrow> u16 \<Rightarrow> u8 list \<Rightarrow> u64 \<Rightarrow> bool" where
  "request_tracked c d typ payload sequence \<longleftrightarrow> session_view d = session_view c \<and> awaits d = awaits c \<and>
     (\<forall>n r. owes d n r \<longleftrightarrow> owes c n r \<or> (n = sequence \<and> request_of typ payload = Some r)) \<and>
     c_pending_replies d = c_pending_replies c"

definition has_room :: "connection \<Rightarrow> bool" where
  "has_room c \<longleftrightarrow> \<not> tracking_full c (c_incoming_frame_commits c) \<and> \<not> tracking_full c (c_incoming_policy_commits c) \<and>
     \<not> tracking_full c (c_incoming_synthetic_inputs c) \<and> \<not> tracking_full c (c_incoming_session_states c) \<and>
     \<not> tracking_full c (c_incoming_output_requests c) \<and>
     length (c_incoming c) < unat (cf_maximum_queued_messages (c_config c))"

lemma owes_fresh:
  assumes "\<And>r. \<not> owes c n r"
  shows "n |\<notin>| fmdom (c_incoming_frame_commits c)" "n |\<notin>| fmdom (c_incoming_policy_commits c)"
    "n |\<notin>| fmdom (c_incoming_synthetic_inputs c)" "n |\<notin>| fmdom (c_incoming_session_states c)"
    "n |\<notin>| fmdom (c_incoming_output_requests c)"
  using assms [of "Frame_Request _"] assms [of "Policy_Request _"] assms [of "Input_Request _"]
    assms [of "Session_Request _"] assms [of "Output_Request _"]
  by (auto simp: fmlookup_dom_iff)

lemma track_effect:
  assumes room: "has_room c" and fresh: "\<And>r. \<not> owes c (en_sequence e) r"
    and typed: "tracked_type (en_type e) \<longrightarrow> request_of (en_type e) payload \<noteq> None"
    and generation: "\<And>v. en_type e = GWIPC_MESSAGE_SESSION_STATE_CHANGE \<Longrightarrow> decode_session_state_change payload = Inr v \<Longrightarrow>
      sc_generation v > c_last_incoming_session_generation c"
  shows "\<exists>d. track_incoming_request k c e payload = (ST_OK, d) \<and> request_tracked c d (en_type e) payload (en_sequence e)"
proof -
  note f = owes_fresh [OF fresh]
  note defs = track_incoming_request_def track_pending_def request_tracked_def session_view_def owes_emplace request_of_def
    tracked_type_def decoded_value_def
  consider "output_request (en_type e)" | "en_type e = GWIPC_MESSAGE_FRAME_COMMIT"
    | "en_type e = GWIPC_MESSAGE_POLICY_COMMIT" | "synthetic_input (en_type e)" | "en_type e = GWIPC_MESSAGE_SESSION_STATE_CHANGE"
    | "\<not> output_request (en_type e)" "en_type e \<noteq> GWIPC_MESSAGE_FRAME_COMMIT"
      "en_type e \<noteq> GWIPC_MESSAGE_POLICY_COMMIT" "\<not> synthetic_input (en_type e)" "en_type e \<noteq> GWIPC_MESSAGE_SESSION_STATE_CHANGE"
    by blast
  then show ?thesis
  proof cases
    case 1
    then show ?thesis
      using room typed f(5) by (auto simp: defs has_room_def track_incoming_output_request_def)
  next
    case 4
    then have "en_type e \<notin> {GWIPC_MESSAGE_FRAME_COMMIT, GWIPC_MESSAGE_POLICY_COMMIT, GWIPC_MESSAGE_SESSION_STATE_CHANGE}"
      "\<not> output_request (en_type e)"
      by (auto simp: synthetic_input_def output_request_def ipc)
    then show ?thesis
      using room 4 f(3) by (cases "synthetic_input_id (en_type e) payload") (auto simp: defs has_room_def)
  next
    case 5
    then obtain v where "decode_session_state_change payload = Inr v"
      using typed by (auto simp: defs output_request_def synthetic_input_def ipc split: sum.splits)
    then show ?thesis
      using room 5 f(4) generation [of v]
      by (auto simp: defs has_room_def track_session_state_def output_request_def synthetic_input_def synthetic_input_id_other ipc
          dest: leD)
  next
    case 6
    then show ?thesis by (simp add: defs synthetic_input_id_other)
  qed (use room typed f in \<open>auto simp: defs has_room_def output_request_def synthetic_input_def ipc split: sum.splits\<close>)
qed


section \<open>Linked connections\<close>

text \<open>
  One direction: everything \<open>a\<close> has sent has been received by \<open>b\<close>. What either end owes, the other awaits; a
  number identifies one request; the numbers owed were received.
\<close>

definition synced :: "connection \<Rightarrow> connection \<Rightarrow> bool" where
  "synced a b \<longleftrightarrow> c_state a = CS_ESTABLISHED \<and> c_state b = CS_ESTABLISHED \<and> mirrored a b \<and>
     peer_wire_version (c_peer b) = (kWireMajor, kWireMinor) \<and>
     c_next_receive_sequence b = c_next_send_sequence a \<and> c_incoming_snapshot b = c_outgoing_snapshot a \<and>
     c_last_incoming_session_generation b = c_last_outgoing_session_generation a \<and>
     (\<forall>n r. owes a n r \<longrightarrow> awaits b n r \<and> n |\<in>| c_pending_replies b) \<and>
     (\<forall>n r r'. owes a n r \<longrightarrow> owes a n r' \<longrightarrow> r = r') \<and>
     (\<forall>n r. owes a n r \<longrightarrow> n < c_next_receive_sequence a)"

definition linked :: "connection \<Rightarrow> connection \<Rightarrow> bool" where
  "linked a b \<longleftrightarrow> connection_ok a \<and> connection_ok b \<and> synced a b \<and> synced b a"

text \<open>
  A message the receiver hands to its client: neither a ping nor one of its answers, of a type it knows, and
  a reply only if it acknowledges a request.
\<close>

definition deliverable :: "outgoing_message \<Rightarrow> bool" where
  "deliverable m \<longleftrightarrow> supported_established_type (om_type m) \<and>
     om_type m \<notin> {GWIPC_MESSAGE_PING, GWIPC_MESSAGE_PONG, GWIPC_MESSAGE_PROTOCOL_ERROR} \<and>
     (om_flags m AND GWIPC_FLAG_REPLY = 0 \<or> acknowledgement (om_type m))"

definition received_message :: "outgoing_message \<Rightarrow> u64 \<Rightarrow> int list \<Rightarrow> ipc_message" where
  "received_message m sequence fds = \<lparr>me_type = om_type m, me_flags = om_flags m, me_sequence = sequence,
     me_reply_to = om_reply_to m, me_payload = elements (om_payload m), me_fds = fds\<rparr>"

text \<open>Requests ask for an acknowledgement and acknowledgements are replies: the validation sees to it.\<close>

lemma flag_status_ok [simp]: "flag_status b = ST_OK \<longleftrightarrow> b"
  by (simp add: flag_status_def)

lemma validated_acknowledgement:
  assumes v: "validate_message k roles capabilities typ flags payload fds s = (ST_OK, s')" and t: "acknowledgement typ"
  shows "flags = GWIPC_FLAG_REPLY"
proof (cases "typ = GWIPC_MESSAGE_OUTPUT_CONFIGURATION_ACKNOWLEDGED")
  case True
  then show ?thesis
    using v by (auto simp: validate_message_def Let_def output_extension_message_def validate_output_extension_def
        validate_flags_and_snapshot_def ipc split: if_splits)
next
  case False
  then have *: "\<not> output_extension_message typ"
    using t by (auto simp: acknowledgement_def output_extension_message_def ipc)
  have "fst (validate_group k capabilities typ flags payload fds s) = ST_OK"
    using v * by (auto simp: validate_message_def Let_def split: if_splits prod.splits)
  then show ?thesis
    using t False by (auto simp: acknowledgement_def validate_group_def validate_compositor_def validate_policy_def
        validate_input_def validate_session_def snapshot_control_def Let_def ipc)
qed

lemma validated_request:
  assumes v: "validate_message k roles capabilities typ flags payload fds s = (ST_OK, s')" and t: "request_of typ payload = Some r"
  shows "flags = GWIPC_FLAG_ACK_REQUIRED"
proof (cases "output_request typ")
  case True
  then show ?thesis
    using v by (auto simp: output_request_def validate_message_def Let_def output_extension_message_def
        validate_output_extension_def validate_flags_and_snapshot_def ipc split: if_splits)
next
  case False
  then have request: "typ \<in> {GWIPC_MESSAGE_FRAME_COMMIT, GWIPC_MESSAGE_POLICY_COMMIT, GWIPC_MESSAGE_SESSION_STATE_CHANGE} \<or>
      synthetic_input typ"
    using t by (auto simp: request_of_def split: if_splits)
  then have *: "\<not> output_extension_message typ"
    by (auto simp: synthetic_input_def output_extension_message_def ipc)
  have "fst (validate_group k capabilities typ flags payload fds s) = ST_OK"
    using v * by (auto simp: validate_message_def Let_def split: if_splits prod.splits)
  then show ?thesis
    using request by (auto simp: synthetic_input_def validate_group_def validate_compositor_def validate_policy_def
        validate_input_def validate_session_def snapshot_control_def Let_def ipc)
qed

section \<open>Delivery\<close>

lemma collect_packet: "length fds \<le> 16 \<Longrightarrow> collect_descriptors (packet_of r fds) = (fds, False)"
  by (simp add: collect_descriptors_def packet_of_def ipc)

text \<open>A record within the limits of both ends is read back by the other end.\<close>

lemma receive_record_within:
  assumes a: "limits_ok a" "c_next_send_sequence a \<noteq> 0" "c_next_send_sequence a \<noteq> -1" and b: "limits_ok b"
    "c_next_receive_sequence b = c_next_send_sequence a" and f: "flags_ok flags reply_to"
    and p: "length payload \<le> unat (maximum_payload_of a)" "length payload \<le> unat (maximum_payload_of b)"
    and x: "length xs \<le> unat (maximum_fds_of a)" "length xs \<le> unat (maximum_fds_of b)" "length fds = length xs"
  shows "receive_record k b (Received (packet_of (sent_record a typ flags reply_to payload xs ds) fds)) =
    (Inr (outgoing_envelope a typ flags reply_to payload xs, payload, fds),
     b\<lparr>c_next_receive_sequence := c_next_receive_sequence b + 1\<rparr>)"
proof -
  let ?e = "outgoing_envelope a typ flags reply_to payload xs"
  have "length fds \<le> 16" using x(2,3) limits_of(2) [OF b(1)] by simp
  note collected = collect_packet [OF this]
  have "valid_envelope payload (length fds) (maximum_payload_of a) ?e"
    using outgoing_envelope_valid [OF a(1,2) f p(1) x(1)] x(3) by simp
  then have "valid_envelope payload (length fds) (maximum_payload_of b) ?e"
    using p(2) by (auto simp: valid_envelope_def word_le_nat_alt)
  then have decoded: "decode_envelope (encode_envelope ?e @ payload) (length fds) (maximum_payload_of b) = Inr ?e"
    unfolding decode_envelope_iff by blast
  have data: "pk_data (packet_of (sent_record a typ flags reply_to payload xs ds) fds) = encode_envelope ?e @ payload"
    by (simp add: packet_of_def sent_record_def)
  have nonempty: "encode_envelope ?e \<noteq> []"
    using encode_envelope_length [of ?e] by (auto simp: kEnvelopeSize_def)
  have "decode_record k b (encode_envelope ?e @ payload) fds False =
      (Inr ?e, b\<lparr>c_next_receive_sequence := c_next_receive_sequence b + 1\<rparr>)"
    using decoded p x a(3) b(2) by (simp add: decode_record_def Let_def encode_envelope_length not_less outgoing_envelope_def)
  then show ?thesis
    by (simp add: receive_record_def data nonempty collected encode_envelope_length)
qed

lemma receive_record_sent:
  assumes b: "connection_ok b" "c_state b = CS_ESTABLISHED" "mirrored a b" "c_next_receive_sequence b = c_next_send_sequence a"
    and a: "c_state a = CS_ESTABLISHED" "limits_ok a"
    and f: "flags_ok flags reply_to" and n: "c_next_send_sequence a \<noteq> 0" "c_next_send_sequence a \<noteq> -1"
    and p: "length payload \<le> unat (peer_maximum_payload (c_peer a))"
      "length xs \<le> unat (peer_maximum_fd_count (c_peer a))" "length fds = length xs"
  shows "receive_record k b (Received (packet_of (sent_record a typ flags reply_to payload xs ds) fds)) =
    (Inr (outgoing_envelope a typ flags reply_to payload xs, payload, fds),
     b\<lparr>c_next_receive_sequence := c_next_receive_sequence b + 1\<rparr>)"
proof (rule receive_record_within [OF a(2) n _ b(4) f])
  show "limits_ok b" using b(1) by (simp add: connection_ok_def queue_ok_def)
qed (use p a(1) b(2,3) in \<open>simp_all add: maximum_payload_of_def maximum_fds_of_def mirrored_def\<close>)

text \<open>The receiver accepts the message: it takes the reply, validates the message and remembers the request.\<close>

lemma supported_not_handshake:
  "supported_established_type typ \<Longrightarrow> typ \<notin> {GWIPC_MESSAGE_HELLO, GWIPC_MESSAGE_WELCOME, GWIPC_MESSAGE_REJECT}"
  by (auto simp: supported_established_type_def ipc)

lemma session_view_simps:
  assumes "session_view d = session_view c"
  shows "c_config d = c_config c" "c_peer d = c_peer c" "c_state d = c_state c" "c_next_send_sequence d = c_next_send_sequence c"
    "c_next_receive_sequence d = c_next_receive_sequence c" "c_outgoing d = c_outgoing c" "c_incoming d = c_incoming c"
    "c_incoming_snapshot d = c_incoming_snapshot c" "c_outgoing_snapshot d = c_outgoing_snapshot c"
    "c_last_outgoing_session_generation d = c_last_outgoing_session_generation c"
    "c_last_incoming_session_generation d = c_last_incoming_session_generation c"
  using assms by (simp_all add: session_view_def)

lemma reply_step:
  assumes deliver: "flags AND GWIPC_FLAG_REPLY = 0 \<or> acknowledgement (en_type e)" "en_flags e = flags"
    and ack: "acknowledgement (en_type e) \<Longrightarrow> flags AND GWIPC_FLAG_REPLY \<noteq> 0 \<and>
      (\<exists>r. awaits c (en_reply_to e) r \<and> acknowledges (en_type e) r \<and> names_request payload r) \<and> en_reply_to e |\<in>| c_pending_replies c"
  shows "\<exists>d. (if en_flags e AND GWIPC_FLAG_REPLY \<noteq> 0 then validate_incoming_reply k c e payload else (ST_OK, c)) = (ST_OK, d) \<and>
    session_view d = session_view c \<and> owes d = owes c \<and>
    (\<forall>n r. awaits d n r \<longleftrightarrow> awaits c n r \<and> \<not> (n = en_reply_to e \<and> acknowledges (en_type e) r)) \<and>
    c_pending_replies d = (if acknowledgement (en_type e) then c_pending_replies c |-| {|en_reply_to e|} else c_pending_replies c)"
proof (cases "acknowledgement (en_type e)")
  case True
  then obtain r where r: "awaits c (en_reply_to e) r" "acknowledges (en_type e) r" "names_request payload r"
    "en_reply_to e |\<in>| c_pending_replies c" "flags AND GWIPC_FLAG_REPLY \<noteq> 0" using ack by blast
  obtain d where d: "validate_incoming_reply k c e payload = (ST_OK, d\<lparr>c_pending_replies := c_pending_replies c |-| {|en_reply_to e|}\<rparr>)"
    "reply_taken c d (en_type e) (en_reply_to e)" using incoming_reply_effect [OF r(1-4)] by blast
  show ?thesis
    using d(2) True r(5) deliver(2)
    by (intro exI [of _ "d\<lparr>c_pending_replies := c_pending_replies c |-| {|en_reply_to e|}\<rparr>"])
      (simp add: d(1) reply_taken_def session_view_def)
next
  case False
  then show ?thesis using deliver not_acknowledgement [OF False] by (intro exI [of _ c]) auto
qed

text \<open>What is owed determines the maps of the requests that were received.\<close>

lemma owes_maps:
  assumes "owes d = owes c"
  shows "c_incoming_frame_commits d = c_incoming_frame_commits c" "c_incoming_policy_commits d = c_incoming_policy_commits c"
    "c_incoming_synthetic_inputs d = c_incoming_synthetic_inputs c" "c_incoming_session_states d = c_incoming_session_states c"
    "c_incoming_output_requests d = c_incoming_output_requests c"
proof -
  have same: "m = m'" if "\<And>n v. fmlookup m n = Some v \<longleftrightarrow> fmlookup m' n = Some v" for m m' :: "(u64, 'v) fmap"
    using that by (intro fmap_ext) (metis option.exhaust)
  have *: "owes d n r = owes c n r" for n r using assms by simp
  show "c_incoming_frame_commits d = c_incoming_frame_commits c" using * [of _ "Frame_Request _"] by (intro same) simp
  show "c_incoming_policy_commits d = c_incoming_policy_commits c" using * [of _ "Policy_Request _"] by (intro same) simp
  show "c_incoming_synthetic_inputs d = c_incoming_synthetic_inputs c" using * [of _ "Input_Request _"] by (intro same) simp
  show "c_incoming_session_states d = c_incoming_session_states c" using * [of _ "Session_Request _"] by (intro same) simp
  show "c_incoming_output_requests d = c_incoming_output_requests c" using * [of _ "Output_Request _"] by (intro same) simp
qed

lemma receiver_accepts:
  assumes c: "c_state c = CS_ESTABLISHED" "peer_wire_version (c_peer c) = (en_major e, en_minor e)"
    and known: "supported_established_type (en_type e)" "en_type e \<noteq> GWIPC_MESSAGE_PING"
    and deliver: "en_flags e AND GWIPC_FLAG_REPLY = 0 \<or> acknowledgement (en_type e)"
    and ack: "acknowledgement (en_type e) \<Longrightarrow> en_flags e AND GWIPC_FLAG_REPLY \<noteq> 0 \<and>
      (\<exists>r. awaits c (en_reply_to e) r \<and> acknowledges (en_type e) r \<and> names_request payload r) \<and> en_reply_to e |\<in>| c_pending_replies c"
    and valid: "validate_application k c (en_type e) (en_flags e) payload fds (c_incoming_snapshot c) Incoming = (ST_OK, s)"
    and room: "has_room c" and fresh: "\<And>r. \<not> owes c (en_sequence e) r"
    and typed: "tracked_type (en_type e) \<longrightarrow> request_of (en_type e) payload \<noteq> None"
    and generation: "\<And>v. en_type e = GWIPC_MESSAGE_SESSION_STATE_CHANGE \<Longrightarrow> decode_session_state_change payload = Inr v \<Longrightarrow>
      sc_generation v > c_last_incoming_session_generation c"
  shows "\<exists>d. dispatch_record k c e payload fds = (ST_OK, d) \<and>
    effect_of_receiving c d (en_type e) (en_reply_to e) payload (en_sequence e) \<and>
    session_view d = session_view (c\<lparr>c_incoming_snapshot := s, c_incoming := c_incoming c @
      [\<lparr>me_type = en_type e, me_flags = en_flags e, me_sequence = en_sequence e, me_reply_to = en_reply_to e,
        me_payload = payload, me_fds = fds\<rparr>],
      c_last_incoming_session_generation := (case (en_type e = GWIPC_MESSAGE_SESSION_STATE_CHANGE, decode_session_state_change payload) of
        (True, Inr v) \<Rightarrow> sc_generation v | _ \<Rightarrow> c_last_incoming_session_generation c)\<rparr>)"
proof -
  obtain c1 where c1: "(if en_flags e AND GWIPC_FLAG_REPLY \<noteq> 0 then validate_incoming_reply k c e payload else (ST_OK, c)) = (ST_OK, c1)"
    "session_view c1 = session_view c" "owes c1 = owes c"
    "\<forall>n r. awaits c1 n r \<longleftrightarrow> awaits c n r \<and> \<not> (n = en_reply_to e \<and> acknowledges (en_type e) r)"
    "c_pending_replies c1 = (if acknowledgement (en_type e) then c_pending_replies c |-| {|en_reply_to e|} else c_pending_replies c)"
    using reply_step [OF deliver refl ack] by blast
  note view1 = session_view_simps [OF c1(2)]
  define c2 where "c2 = c1\<lparr>c_incoming_snapshot := s\<rparr>"
  have v: "validate_supported k c1 e payload fds = (ST_OK, c2)"
    using valid by (simp add: validate_supported_def validate_application_def message_roles_def view1 c2_def Let_def)
  have established: "validate_established k c e payload fds = (ST_OK, c2)"
    unfolding validate_established_def c1(1) using c(2) known supported_not_handshake [OF known(1)] by (simp add: v)
  have room2: "has_room c2"
    using room owes_maps [OF c1(3)] by (simp add: has_room_def tracking_full_def c2_def view1)
  have owes2: "owes c2 = owes c" by (simp add: c2_def c1(3))
  have last2: "c_last_incoming_session_generation c2 = c_last_incoming_session_generation c" by (simp add: c2_def view1)
  obtain c3 where c3: "track_incoming_request k c2 e payload = (ST_OK, c3)"
    "request_tracked c2 c3 (en_type e) payload (en_sequence e)"
    using track_effect [OF room2 _ typed, of k] fresh generation by (auto simp: owes2 last2)
  let ?m = "\<lparr>me_type = en_type e, me_flags = en_flags e, me_sequence = en_sequence e, me_reply_to = en_reply_to e,
    me_payload = payload, me_fds = fds\<rparr>"
  let ?d = "commit_incoming_request (c3\<lparr>c_incoming := c_incoming c3 @ [?m]\<rparr>) e payload"
  have view3: "session_view c3 = session_view c2" using c3(2) by (simp add: request_tracked_def)
  note view3s = session_view_simps [OF view3]
  have received: "queue_received k c2 e payload fds = (ST_OK, ?d)"
    using room2 by (simp add: queue_received_def c3(1) has_room_def view3s)
  have d_owes: "owes ?d = owes c3" "awaits ?d = awaits c3" "c_pending_replies ?d = c_pending_replies c3"
    by (simp_all add: commit_incoming_request_def split: sum.split)
  have "effect_of_receiving c ?d (en_type e) (en_reply_to e) payload (en_sequence e)"
    using c3(2) c1(3-5) by (simp add: effect_of_receiving_def d_owes request_tracked_def owes2) (simp add: c2_def)
  moreover have "session_view ?d = session_view (c\<lparr>c_incoming_snapshot := s, c_incoming := c_incoming c @ [?m],
      c_last_incoming_session_generation := (case (en_type e = GWIPC_MESSAGE_SESSION_STATE_CHANGE, decode_session_state_change payload) of
        (True, Inr v) \<Rightarrow> sc_generation v | _ \<Rightarrow> c_last_incoming_session_generation c)\<rparr>)"
    by (simp add: session_view_def commit_incoming_request_def view3s c2_def view1 split: sum.split)
  ultimately show ?thesis
    using c(1) established received known by (intro exI [of _ ?d]) (simp add: dispatch_record_def)
qed


lemma word_less_successor: "(n :: u64) \<noteq> -1 \<Longrightarrow> n < n + 1"
  using unat_next [of n] by (simp add: word_less_nat_alt)

lemma synced_receiver:
  assumes ab: "synced a b" and ba: "synced b a" and n: "c_next_send_sequence a \<noteq> -1"
    and a': "c_state a' = CS_ESTABLISHED" "c_config a' = c_config a" "c_peer a' = c_peer a"
      "c_next_send_sequence a' = c_next_send_sequence a + 1" "c_next_receive_sequence a' = c_next_receive_sequence a"
      "c_incoming_snapshot a' = c_incoming_snapshot a" "c_last_incoming_session_generation a' = c_last_incoming_session_generation a"
    and b': "session_view b' = session_view (b\<lparr>c_next_receive_sequence := c_next_receive_sequence b + 1,
      c_incoming_snapshot := c_outgoing_snapshot a', c_incoming := q,
      c_last_incoming_session_generation := c_last_outgoing_session_generation a'\<rparr>)"
    and sent: "effect_of_sending a a' typ reply_to payload"
    and received: "effect_of_receiving b b' typ reply_to payload (c_next_send_sequence a)"
    and flags: "request_of typ payload \<noteq> None \<Longrightarrow> flags AND GWIPC_FLAG_ACK_REQUIRED \<noteq> 0"
      "c_pending_replies a' = (if flags AND GWIPC_FLAG_ACK_REQUIRED \<noteq> 0
         then finsert (c_next_send_sequence a) (c_pending_replies a) else c_pending_replies a)"
  shows "synced a' b' \<and> synced b' a'"
proof -
  note view = session_view_simps [OF b', simplified]
  have owed: "\<And>n r. owes a n r \<Longrightarrow> awaits b n r \<and> n |\<in>| c_pending_replies b" "\<And>n r r'. owes a n r \<Longrightarrow> owes a n r' \<Longrightarrow> r = r'"
    "\<And>n r. owes a n r \<Longrightarrow> n < c_next_receive_sequence a" "\<And>n r. owes b n r \<Longrightarrow> awaits a n r \<and> n |\<in>| c_pending_replies a"
    "\<And>n r r'. owes b n r \<Longrightarrow> owes b n r' \<Longrightarrow> r = r'" "\<And>n r. owes b n r \<Longrightarrow> n < c_next_receive_sequence b"
    using ab ba unfolding synced_def by blast+
  have number: "c_next_receive_sequence b = c_next_send_sequence a" using ab by (simp add: synced_def)
  note less = word_less_successor [OF n]
  have replied: "n \<noteq> reply_to" if "acknowledgement typ" "owes a n r" "\<not> (n = reply_to \<and> acknowledges typ r)" for n r
    using sent that owed(2) by (auto simp: effect_of_sending_def)
  have a_owes: "owes a' n r \<longleftrightarrow> owes a n r \<and> \<not> (n = reply_to \<and> acknowledges typ r)"
    and a_awaits: "awaits a' n r \<longleftrightarrow> awaits a n r \<or> (n = c_next_send_sequence a \<and> request_of typ payload = Some r)" for n r
    using sent by (simp_all add: effect_of_sending_def)
  have b_owes: "owes b' n r \<longleftrightarrow> owes b n r \<or> (n = c_next_send_sequence a \<and> request_of typ payload = Some r)"
    and b_awaits: "awaits b' n r \<longleftrightarrow> awaits b n r \<and> \<not> (n = reply_to \<and> acknowledges typ r)"
    and b_pending: "c_pending_replies b' = (if acknowledgement typ then c_pending_replies b |-| {|reply_to|} else c_pending_replies b)"
    for n r using received by (simp_all add: effect_of_receiving_def)
  have one: "awaits b' n r \<and> n |\<in>| c_pending_replies b'" if "owes a' n r" for n r
    using that owed(1) [of n r] replied [of n r] by (auto simp: a_owes b_awaits b_pending)
  have two: "awaits a' n r \<and> n |\<in>| c_pending_replies a'" if "owes b' n r" for n r
    using that owed(4) [of n r] flags by (auto simp: b_owes a_awaits)
  have three: "r = r'" if "owes b' n r" "owes b' n r'" for n r r'
    using that owed(5) [of n r r'] owed(6) number by (auto simp: b_owes)
  have four: "n < c_next_receive_sequence b'" if "owes b' n r" for n r
    using that owed(6) [of n r] number less by (auto simp: b_owes view)
  have five: "\<And>n r r'. owes a' n r \<Longrightarrow> owes a' n r' \<Longrightarrow> r = r'" "\<And>n r. owes a' n r \<Longrightarrow> n < c_next_receive_sequence a'"
    using owed(2,3) by (auto simp: a_owes a'(5))
  have rest: "c_state a = CS_ESTABLISHED" "c_state b = CS_ESTABLISHED" "mirrored a b" "mirrored b a"
    "peer_wire_version (c_peer b) = (kWireMajor, kWireMinor)" "peer_wire_version (c_peer a) = (kWireMajor, kWireMinor)"
    "c_next_receive_sequence a = c_next_send_sequence b" "c_incoming_snapshot a = c_outgoing_snapshot b"
    "c_last_incoming_session_generation a = c_last_outgoing_session_generation b"
    using ab ba by (simp_all add: synced_def)
  have mirror: "mirrored a' b'" "mirrored b' a'"
    using rest(3,4) by (simp_all add: mirrored_def a' view)
  have "synced a' b'"
    unfolding synced_def using mirror rest one five number by (simp add: a' view)
  moreover have "synced b' a'"
    unfolding synced_def using mirror rest two three four number by (simp add: a' view)
  ultimately show ?thesis ..
qed

lemma delivery:
  assumes l: "linked a b" and e: "enqueue_with_sequence ka a m = (ST_OK, a')" and m: "deliverable m"
    and fds: "same_descriptors ka kb (elements (om_fds m)) fds" and room: "has_room b"
  shows "\<exists>r b'. c_outgoing a' = c_outgoing a @ [r] \<and> receive_one kb b (Received (packet_of r fds)) = (ST_OK, b') \<and>
    linked a' b' \<and> c_incoming b' = c_incoming b @ [received_message m (c_next_send_sequence a) fds]"
proof -
  let ?t = "om_type m" and ?p = "elements (om_payload m)" and ?f = "om_flags m" and ?n = "om_reply_to m" and ?x = "elements (om_fds m)"
  have ok: "connection_ok a" "connection_ok b" and ab: "synced a b" and ba: "synced b a" using l by (auto simp: linked_def)
  have "fresh_sequence a" using ok(1) used_fresh by (simp add: connection_ok_def)
  from enqueue_accepted [OF this e] obtain ds s where
    acc: "valid_outgoing_flags m" "c_state a = CS_ESTABLISHED"
      "validate_application ka a ?t ?f ?p ?x (c_outgoing_snapshot a) Outgoing = (ST_OK, s)"
      "c_next_send_sequence a \<noteq> 0" "c_next_send_sequence a \<noteq> -1"
      "length ?p \<le> unat (peer_maximum_payload (c_peer a))" "length ?x \<le> unat (peer_maximum_fd_count (c_peer a))"
      "c_outgoing a' = c_outgoing a @ [sent_record a ?t ?f ?n ?p ?x ds]"
    and a': "c_state a' = CS_ESTABLISHED" "c_config a' = c_config a" "c_peer a' = c_peer a"
      "c_next_send_sequence a' = c_next_send_sequence a + 1" "c_next_receive_sequence a' = c_next_receive_sequence a"
      "c_outgoing_snapshot a' = s" "c_incoming_snapshot a' = c_incoming_snapshot a"
      "c_last_incoming_session_generation a' = c_last_incoming_session_generation a"
    and generation: "if ?t = GWIPC_MESSAGE_SESSION_STATE_CHANGE
       then \<exists>v. decode_session_state_change ?p = Inr v \<and> c_last_outgoing_session_generation a' = sc_generation v \<and>
         sc_generation v > c_last_outgoing_session_generation a
       else c_last_outgoing_session_generation a' = c_last_outgoing_session_generation a"
    and pending: "c_pending_replies a' = (if ?f AND GWIPC_FLAG_ACK_REQUIRED \<noteq> 0
       then finsert (c_next_send_sequence a) (c_pending_replies a) else c_pending_replies a)"
    and typed: "tracked_type ?t \<longrightarrow> request_of ?t ?p \<noteq> None" and sent: "effect_of_sending a a' ?t ?n ?p"
    by blast
  let ?e = "outgoing_envelope a ?t ?f ?n ?p ?x" and ?b = "b\<lparr>c_next_receive_sequence := c_next_receive_sequence b + 1\<rparr>"
  have env: "en_type ?e = ?t" "en_flags ?e = ?f" "en_reply_to ?e = ?n" "en_sequence ?e = c_next_send_sequence a"
    "en_major ?e = kWireMajor" "en_minor ?e = kWireMinor"
    by (simp_all add: outgoing_envelope_def)
  have bs: "c_state b = CS_ESTABLISHED" "mirrored a b" "c_next_receive_sequence b = c_next_send_sequence a"
    "peer_wire_version (c_peer b) = (kWireMajor, kWireMinor)" "c_incoming_snapshot b = c_outgoing_snapshot a"
    "c_last_incoming_session_generation b = c_last_outgoing_session_generation a"
    using ab by (simp_all add: synced_def)
  have limits: "limits_ok a" using ok(1) by (simp add: connection_ok_def queue_ok_def)
  have flags_ok: "flags_ok ?f ?n" using acc(1) by (simp add: valid_outgoing_flags_iff)
  have arrives: "receive_record kb b (Received (packet_of (sent_record a ?t ?f ?n ?p ?x ds) fds)) = (Inr (?e, ?p, fds), ?b)"
    by (rule receive_record_sent [OF ok(2) bs(1,2,3) acc(2) limits flags_ok acc(4,5,6,7)])
      (simp add: same_descriptors_length [OF fds])
  have valid: "validate_application kb ?b ?t ?f ?p fds (c_incoming_snapshot ?b) Incoming = (ST_OK, s)"
  proof -
    have "mirrored a ?b" using bs(2) by (simp add: mirrored_def)
    from validate_mirrored [OF this fds] have
      "validate_application kb ?b ?t ?f ?p fds (c_outgoing_snapshot a) Incoming = (ST_OK, s)" using acc(3) by simp
    then show ?thesis by (simp add: bs(5))
  qed
  have flags: "acknowledgement ?t \<Longrightarrow> ?f AND GWIPC_FLAG_REPLY \<noteq> 0" "request_of ?t ?p \<noteq> None \<Longrightarrow> ?f AND GWIPC_FLAG_ACK_REQUIRED \<noteq> 0"
  proof -
    note v = acc(3) [unfolded validate_application_def]
    show "?f AND GWIPC_FLAG_REPLY \<noteq> 0" if "acknowledgement ?t"
      using validated_acknowledgement [OF v that] by (simp add: ipc)
    show "?f AND GWIPC_FLAG_ACK_REQUIRED \<noteq> 0" if "request_of ?t ?p \<noteq> None"
      using validated_request [OF v] that by (auto simp: ipc)
  qed
  have ack: "?f AND GWIPC_FLAG_REPLY \<noteq> 0 \<and> (\<exists>r. awaits ?b ?n r \<and> acknowledges ?t r \<and> names_request ?p r) \<and>
      ?n |\<in>| c_pending_replies ?b" if "acknowledgement ?t"
    using sent that flags(1) ab by (fastforce simp: effect_of_sending_def synced_def)
  have fresh: "\<not> owes ?b (c_next_send_sequence a) r" for r
    using ba bs(3) by (auto simp: synced_def)
  have grown: "sc_generation v > c_last_incoming_session_generation ?b"
    if "?t = GWIPC_MESSAGE_SESSION_STATE_CHANGE" "decode_session_state_change ?p = Inr v" for v
    using generation that bs(6) by auto
  have room': "has_room ?b" using room by (simp add: has_room_def tracking_full_def)
  have known: "supported_established_type ?t" "?t \<noteq> GWIPC_MESSAGE_PING" "?f AND GWIPC_FLAG_REPLY = 0 \<or> acknowledgement ?t"
    using m by (simp_all add: deliverable_def)
  have state: "c_state ?b = CS_ESTABLISHED" "peer_wire_version (c_peer ?b) = (kWireMajor, kWireMinor)"
    using bs(1,4) by simp_all
  note accepted = receiver_accepts [where c = ?b and e = ?e and payload = ?p and fds = fds and s = s and k = kb,
      unfolded env, OF state known ack valid room' fresh typed grown, folded received_message_def]
  obtain b' where b': "dispatch_record kb ?b ?e ?p fds = (ST_OK, b')"
    "effect_of_receiving ?b b' ?t ?n ?p (c_next_send_sequence a)"
    "session_view b' = session_view (?b\<lparr>c_incoming_snapshot := s, c_incoming := c_incoming ?b @
      [received_message m (c_next_send_sequence a) fds],
      c_last_incoming_session_generation := (case (?t = GWIPC_MESSAGE_SESSION_STATE_CHANGE, decode_session_state_change ?p) of
        (True, Inr v) \<Rightarrow> sc_generation v | _ \<Rightarrow> c_last_incoming_session_generation ?b)\<rparr>)"
    using accepted by blast
  have latest: "(case (?t = GWIPC_MESSAGE_SESSION_STATE_CHANGE, decode_session_state_change ?p) of
      (True, Inr v) \<Rightarrow> sc_generation v | _ \<Rightarrow> c_last_incoming_session_generation ?b) = c_last_outgoing_session_generation a'"
    using generation bs(6) by (auto split: if_splits)
  have one: "receive_one kb b (Received (packet_of (sent_record a ?t ?f ?n ?p ?x ds) fds)) = (ST_OK, b')"
    by (simp add: receive_one_def arrives b'(1))
  have view: "session_view b' = session_view (b\<lparr>c_next_receive_sequence := c_next_receive_sequence b + 1,
      c_incoming_snapshot := c_outgoing_snapshot a',
      c_incoming := c_incoming b @ [received_message m (c_next_send_sequence a) fds],
      c_last_incoming_session_generation := c_last_outgoing_session_generation a'\<rparr>)"
    using b'(3) unfolding latest a'(6) by simp
  have received: "effect_of_receiving b b' ?t ?n ?p (c_next_send_sequence a)"
    using b'(2) by (simp add: effect_of_receiving_def)
  have "synced a' b' \<and> synced b' a'"
    by (rule synced_receiver [OF ab ba acc(5) a'(1-5) a'(7,8) view sent received flags(2) pending])
  moreover have "connection_ok a'" by (rule enqueue_ok [OF ok(1) e])
  moreover have "connection_ok b'"
  proof -
    have "c_state b \<noteq> CS_CLOSED" using bs(1) by simp
    from receive_one_ok [OF ok(2) this, of kb] one show ?thesis by (metis snd_conv)
  qed
  moreover have "c_incoming b' = c_incoming b @ [received_message m (c_next_send_sequence a) fds]"
    using session_view_simps(7) [OF view] by simp
  ultimately show ?thesis using acc(8) one by (auto simp: linked_def)
qed

end
