(* ===== verification/Ipc_Handshake.thy ===== *)
theory Ipc_Handshake
  imports Ipc_Session
begin

text \<open>
  The handshake of a client with a server: the hello, the welcome, and the agreement the two ends come to.
\<close>

text \<open>A configuration whose hello the peer can read.\<close>

definition presentable :: "config \<Rightarrow> bool" where
  "presentable cfg \<longleftrightarrow> validate_config cfg = ST_OK \<and> cf_maximum_payload cfg \<ge> 256 \<and> cf_maximum_queued_bytes cfg \<ge> 512 \<and>
     valid_utf8 (cf_label cfg) \<and> length (cf_instance_id cfg) = 16 \<and> nonzero (cf_instance_id cfg)"

text \<open>The server accepts the role of the client and the client that of the server, and what each requires is offered by both.\<close>

definition compatible :: "config \<Rightarrow> config \<Rightarrow> bool" where
  "compatible client server \<longleftrightarrow>
     cf_peer_roles server AND GWIPC_ROLE_BIT (cf_local_role client) \<noteq> 0 \<and>
     cf_peer_roles client AND GWIPC_ROLE_BIT (cf_local_role server) \<noteq> 0 \<and>
     (let common = cf_offered_capabilities client AND cf_offered_capabilities server AND kKnownCapabilities
      in cf_required_peer_capabilities client AND common = cf_required_peer_capabilities client \<and>
         cf_required_peer_capabilities server AND common = cf_required_peer_capabilities server)"

lemma role_round_trip: "valid_role role \<Longrightarrow> ucast (ucast role :: u16) = role"
  and role_range: "valid_role role \<Longrightarrow> ucast role \<ge> (1 :: u16)" "valid_role role \<Longrightarrow> ucast role \<le> (6 :: u16)"
proof -
  assume "valid_role role"
  then have "1 \<le> unat role" "unat role \<le> 6" by (simp_all add: valid_role_def ipc word_le_nat_alt)
  then have "unat role \<in> {1, 2, 3, 4, 5, 6}" by auto
  then have "role \<in> {1, 2, 3, 4, 5, 6}" by (auto simp: word_unat_eq_iff)
  then show "ucast (ucast role :: u16) = role" "ucast role \<ge> (1 :: u16)" "ucast role \<le> (6 :: u16)" by auto
qed

lemma presentable_valid_hello: "presentable cfg \<Longrightarrow> valid_hello (hello_of cfg)"
  using role_range [of "cf_local_role cfg"]
  by (auto simp: presentable_def validate_config_def valid_hello_def invalid_hello_def hello_of_def valid_version_range_def ipc
      wire kHardMaximumPayload_def kHardMaximumFds_def not_le not_less split: if_splits)

lemma encode_hello_length: "presentable cfg \<Longrightarrow> length (encode_hello (hello_of cfg)) \<le> 256"
  by (auto simp: presentable_def validate_config_def encode_hello_def hello_of_def fields wire split: if_splits)


text \<open>A connection as the listener accepts it and as the client has connected it.\<close>

lemma accepted_connection:
  assumes "listener_accept l fd cr u = (Inr s, l')"
  obtains pid uid gid where "s = (new_connection (li_config l))\<lparr>c_fd := fd, c_server_side := True, c_state := CS_AWAITING_HELLO,
      c_assigned_connection_id := li_next_connection_id l,
      c_peer := no_peer\<lparr>peer_pid := pid, peer_uid := uid, peer_gid := gid\<rparr>, c_peer_credentials_read := True\<rparr>"
    "li_next_connection_id l \<noteq> 0"
  using assms by (auto simp: listener_accept_def check_credentials_def read_peer_credentials_def Let_def new_connection_def
      split: if_splits sum.splits prod.splits)

lemma connected_connection:
  assumes "connection_connect cfg fd False cr u = Inr (status, c)"
  obtains pid uid gid where "c = (new_connection cfg)\<lparr>c_fd := fd, c_state := CS_AWAITING_WELCOME,
      c_peer := no_peer\<lparr>peer_pid := pid, peer_uid := uid, peer_gid := gid\<rparr>, c_peer_credentials_read := True\<rparr>"
  using assms by (auto simp: connection_connect_def check_credentials_def read_peer_credentials_def Let_def new_connection_def
      split: if_splits sum.splits prod.splits)

text \<open>The first message of a connection is queued when it fits.\<close>

lemma first_message_queued:
  assumes "c_next_send_sequence c = 1" "c_outgoing c = []" "c_queued_bytes c = 0" "c_pending_replies c = {||}"
    "length payload \<le> 256" "unat (maximum_payload_of c) \<ge> 256" "cf_maximum_queued_messages (c_config c) \<noteq> 0"
    "cf_maximum_queued_bytes (c_config c) \<ge> 512"
  shows "queue_internal k c typ flags reply_to payload [] =
    (ST_OK, with_record c flags (sent_record c typ flags reply_to payload [] []))"
proof -
  have "unat (cf_maximum_queued_messages (c_config c)) > 0" using assms(7) by (simp add: unat_gt_0)
  moreover have "unat (cf_maximum_queued_bytes (c_config c)) \<ge> 512" using assms(8) by (simp add: word_le_nat_alt)
  ultimately show ?thesis
    using assms by (auto simp: queue_internal_ok_iff queue_limit_exceeded_def kEnvelopeSize_def fcard.rep_eq)
qed

lemma flush_single:
  "c_outgoing c = [r] \<Longrightarrow> \<not> c_close_after_flush c \<Longrightarrow>
     flush [Sent (length (qr_bytes r))] c = (ST_OK, c\<lparr>c_queued_bytes := c_queued_bytes c - length (qr_bytes r), c_outgoing := []\<rparr>)"
  by (subst flush.simps, simp, subst flush.simps) simp

lemma common_capabilities:
  "(x AND y AND z) AND NOT x = (0 :: u64)" "(x AND y AND z) AND NOT z = 0" "(x AND y) AND NOT (x :: u64) = 0"
  by (rule bit_eqI; auto simp: bit_simps)+

lemma role_allowed_compatible:
  "valid_role role \<Longrightarrow> role_allowed cfg (ucast role) \<longleftrightarrow> cf_peer_roles cfg AND GWIPC_ROLE_BIT role \<noteq> 0"
  using role_range [of role] role_round_trip [of role] by (auto simp: role_allowed_def valid_role_def)

lemma presentable_role: "presentable cfg \<Longrightarrow> valid_role (cf_local_role cfg)"
  by (auto simp: presentable_def validate_config_def split: if_splits)

text \<open>The server's answer to the hello of a compatible client.\<close>

lemma hello_accepted:
  assumes p: "presentable client" "presentable server" and ok: "compatible client server"
    and s: "c_state s = CS_AWAITING_HELLO" "c_config s = server" "c_next_send_sequence s = 1" "c_outgoing s = []"
      "c_queued_bytes s = 0" "c_pending_replies s = {||}"
    and e: "en_type e = GWIPC_MESSAGE_HELLO" "en_flags e = 0" "en_fd_count e = 0" "en_sequence e = 1"
  shows "handle_hello k s e (encode_hello (hello_of client)) =
    (ST_OK, (with_record (negotiate s (hello_of client)) GWIPC_FLAG_REPLY
      (sent_record (negotiate s (hello_of client)) GWIPC_MESSAGE_WELCOME GWIPC_FLAG_REPLY 1
        (encode_welcome_message (welcome_of (negotiate s (hello_of client)))) [] []))\<lparr>c_state := CS_ESTABLISHED\<rparr>)"
proof -
  let ?h = "hello_of client" and ?n = "negotiate s (hello_of client)"
  have decoded: "decode_hello (encode_hello ?h) = Inr ?h"
    using presentable_valid_hello [OF p(1)] by (simp add: he.decode_iff)
  have roles: "role_allowed server (ucast (cf_local_role client))"
    using ok role_allowed_compatible [OF presentable_role [OF p(1)]] by (simp add: compatible_def)
  have limits: "\<not> cf_maximum_payload client > GWIPC_HARD_MAXIMUM_PAYLOAD" "cf_maximum_payload client \<noteq> 0"
    "\<not> cf_maximum_fd_count client > GWIPC_HARD_MAXIMUM_FDS" "cf_required_peer_capabilities client AND NOT kKnownCapabilities = 0"
    using p(1) by (auto simp: presentable_def validate_config_def not_less split: if_splits)
  have "length (encode_welcome_message (welcome_of ?n)) \<le> 256"
    using p(2) by (simp add: encode_welcome_message_def welcome_of_def presentable_def fields s(2) negotiate_def)
  moreover have "unat (maximum_payload_of ?n) \<ge> 256" "cf_maximum_queued_messages (c_config ?n) \<noteq> 0"
    "cf_maximum_queued_bytes (c_config ?n) \<ge> 512"
    using p(2) s by (auto simp: presentable_def validate_config_def maximum_payload_of_def negotiate_def word_le_nat_alt split: if_splits)
  ultimately have queued: "queue_internal k ?n GWIPC_MESSAGE_WELCOME GWIPC_FLAG_REPLY 1 (encode_welcome_message (welcome_of ?n)) [] =
      (ST_OK, with_record ?n GWIPC_FLAG_REPLY (sent_record ?n GWIPC_MESSAGE_WELCOME GWIPC_FLAG_REPLY 1
        (encode_welcome_message (welcome_of ?n)) [] []))"
    using s by (intro first_message_queued) (simp_all add: negotiate_def)
  have common: "negotiated_capabilities server ?h = cf_offered_capabilities client AND cf_offered_capabilities server AND kKnownCapabilities"
    by (simp add: negotiated_capabilities_def hello_of_def)
  have hello: "he_minimum_major ?h = kWireMajor" "he_maximum_major ?h = kWireMajor" "he_minimum_minor ?h = kWireMinor"
    "he_maximum_minor ?h = kWireMinor" "he_sender_role ?h = ucast (cf_local_role client)"
    "he_maximum_payload ?h = cf_maximum_payload client" "he_maximum_fd_count ?h = cf_maximum_fd_count client"
    "he_required_capabilities ?h = cf_required_peer_capabilities client"
    by (simp_all add: hello_of_def)
  show ?thesis
    using ok e(1,2,3) limits roles
    by (simp add: handle_hello_def decoded s(2) Let_def common hello compatible_def accept_hello_def e(4) queued kWireMinor_def
        del: word_not_simps)
qed


text \<open>The client takes the welcome.\<close>

lemma welcome_accepted:
  assumes p: "presentable client" "presentable server" and ok: "compatible client server"
    and n: "c_config s = server" "c_assigned_connection_id s \<noteq> 0"
    and c: "c_config c = client" "c_state c = CS_AWAITING_WELCOME"
    and e: "en_type e = GWIPC_MESSAGE_WELCOME" "en_flags e = GWIPC_FLAG_REPLY" "en_reply_to e = 1" "en_fd_count e = 0"
  shows "handle_welcome c e (encode_welcome_message (welcome_of (negotiate s (hello_of client)))) =
    (ST_OK, accept_welcome c (welcome_of (negotiate s (hello_of client))))"
proof -
  let ?w = "welcome_of (negotiate s (hello_of client))"
  have w: "we_selected_major ?w = kWireMajor" "we_selected_minor ?w = kWireMinor" "we_sender_role ?w = ucast (cf_local_role server)"
    "we_negotiated_capabilities ?w = cf_offered_capabilities client AND cf_offered_capabilities server AND kKnownCapabilities"
    "we_negotiated_maximum_payload ?w = min (cf_maximum_payload server) (cf_maximum_payload client)"
    "we_negotiated_maximum_fd_count ?w = min (cf_maximum_fd_count server) (cf_maximum_fd_count client)"
    "we_connection_id ?w = c_assigned_connection_id s" "we_sender_instance_id ?w = cf_instance_id server"
    by (simp_all add: welcome_of_def negotiate_def n(1) negotiated_capabilities_def hello_of_def)
  have limits: "cf_maximum_payload cfg \<le> kHardMaximumPayload" "cf_maximum_fd_count cfg \<le> kHardMaximumFds"
    "cf_maximum_payload cfg \<noteq> 0" if "presentable cfg" for cfg
    using that by (auto simp: presentable_def validate_config_def ipc kHardMaximumPayload_def kHardMaximumFds_def not_less split: if_splits)
  have "valid_welcome_message ?w"
    using limits p role_range [OF presentable_role [OF p(2)]] n(2) common_capabilities(2)
    by (simp add: valid_welcome_message_def w ipc presentable_def min_def)
  then have decoded: "decode_welcome_message (encode_welcome_message ?w) = Inr ?w" by (simp add: we.decode_iff)
  have roles: "role_allowed client (ucast (cf_local_role server))"
    using ok role_allowed_compatible [OF presentable_role [OF p(2)]] by (simp add: compatible_def)
  have not_reject: "en_type e \<noteq> GWIPC_MESSAGE_REJECT" using e(1) by (simp add: ipc)
  have mins: "\<not> min (cf_maximum_payload server) (cf_maximum_payload client) > cf_maximum_payload client"
    "\<not> min (cf_maximum_fd_count server) (cf_maximum_fd_count client) > cf_maximum_fd_count client"
    "min (cf_maximum_payload server) (cf_maximum_payload client) \<noteq> 0"
    using limits(3) [OF p(1)] limits(3) [OF p(2)] by (auto simp: min_def)
  have required: "cf_required_peer_capabilities client AND (cf_offered_capabilities client AND cf_offered_capabilities server AND
      kKnownCapabilities) = cf_required_peer_capabilities client"
    using ok by (simp add: compatible_def Let_def)
  show ?thesis
    unfolding handle_welcome_def decoded sum.case Let_def w c(1)
    using e not_reject roles mins common_capabilities(1) required n(2) by simp
qed


section \<open>The exchange\<close>

text \<open>A poll that can send one record of a length, and a poll that finds one record to receive.\<close>

definition writable :: "nat \<Rightarrow> poll_input" where
  "writable n = \<lparr>pl_in = False, pl_out = True, pl_error = False, pl_hangup = False, pl_socket_error = Inr 0,
     pl_credentials = Inr (0, 0, 0), pl_euid = 0, pl_received = [], pl_sent = [Sent n]\<rparr>"

definition readable :: "packet \<Rightarrow> poll_input" where
  "readable p = \<lparr>pl_in = True, pl_out = False, pl_error = False, pl_hangup = False, pl_socket_error = Inr 0,
     pl_credentials = Inr (0, 0, 0), pl_euid = 0, pl_received = [Received p], pl_sent = []\<rparr>"

definition hello_record :: "connection \<Rightarrow> queued_record" where
  "hello_record c = sent_record c GWIPC_MESSAGE_HELLO 0 0 (encode_hello (hello_of (c_config c))) [] []"

definition welcome_record :: "connection \<Rightarrow> hello \<Rightarrow> queued_record" where
  "welcome_record s hello = sent_record (negotiate s hello) GWIPC_MESSAGE_WELCOME GWIPC_FLAG_REPLY 1
     (encode_welcome_message (welcome_of (negotiate s hello))) [] []"

lemma poll_readable:
  assumes "c_state c \<notin> {CS_CLOSED, CS_CONNECTING}" "\<not> (\<not> c_server_side c \<and> c_state c = CS_AWAITING_WELCOME \<and> c_next_send_sequence c = 1)"
    and r: "receive_one k c (Received p) = (ST_OK, d)" "c_state d \<notin> {CS_CLOSED, CS_REJECTING}"
  shows "process_poll_events k (readable p) c = (ST_OK, d)"
  using assms by (auto simp: process_poll_events_def readable_def poll_outgoing_def)

lemma poll_writable:
  assumes "c_state c \<notin> {CS_CLOSED, CS_CONNECTING}" "\<not> (\<not> c_server_side c \<and> c_state c = CS_AWAITING_WELCOME \<and> c_next_send_sequence c = 1)"
    and "c_outgoing c = [r]" "\<not> c_close_after_flush c"
  shows "process_poll_events k (writable (length (qr_bytes r))) c =
    (ST_OK, c\<lparr>c_queued_bytes := c_queued_bytes c - length (qr_bytes r), c_outgoing := []\<rparr>)"
  using assms by (auto simp: process_poll_events_def writable_def poll_outgoing_def flush_single)

lemma client_says_hello:
  assumes p: "presentable (c_config c)" and c: "c_state c = CS_AWAITING_WELCOME" "\<not> c_server_side c" "c_next_send_sequence c = 1"
    "c_outgoing c = []" "c_queued_bytes c = 0" "c_pending_replies c = {||}" "\<not> c_close_after_flush c"
  shows "process_poll_events k (writable (length (qr_bytes (hello_record c)))) c =
    (ST_OK, c\<lparr>c_next_send_sequence := 2, c_queued_bytes := 0, c_outgoing := []\<rparr>)"
proof -
  have "unat (maximum_payload_of c) \<ge> 256" "cf_maximum_queued_messages (c_config c) \<noteq> 0" "cf_maximum_queued_bytes (c_config c) \<ge> 512"
    using p c(1) by (auto simp: presentable_def validate_config_def maximum_payload_of_def word_le_nat_alt split: if_splits)
  note queued = first_message_queued [OF c(3-6) encode_hello_length [OF p] this]
  have "c\<lparr>c_pending_replies := {||}\<rparr> = c" using c(6) by (cases c) simp
  then show ?thesis
    using c by (simp add: process_poll_events_def queue_hello_def queued writable_def poll_outgoing_def flush_single with_record_def
        hello_record_def Let_def)
qed


text \<open>A fresh connection of a presentable configuration has room for the records of the handshake.\<close>

lemma presentable_limits:
  assumes "presentable (c_config c)" "c_state c \<noteq> CS_ESTABLISHED"
  shows "unat (maximum_payload_of c) \<ge> 256" "cf_maximum_queued_messages (c_config c) \<noteq> 0"
    "cf_maximum_queued_bytes (c_config c) \<ge> 512"
  using assms by (auto simp: presentable_def validate_config_def maximum_payload_of_def word_le_nat_alt split: if_splits)

lemma presentable_config: "presentable cfg \<Longrightarrow> validate_config cfg = ST_OK"
  by (simp add: presentable_def)

lemma presentable_limits_ok:
  assumes "presentable (c_config c)" "peer_maximum_payload (c_peer c) \<le> cf_maximum_payload (c_config c)"
    "peer_maximum_fd_count (c_peer c) \<le> cf_maximum_fd_count (c_config c)"
  shows "limits_ok c"
  using assms by (auto simp: limits_ok_def presentable_def validate_config_def not_less split: if_splits)

lemma outgoing_envelope_fields [simp]:
  "en_type (outgoing_envelope c typ flags reply_to payload fds) = typ"
  "en_flags (outgoing_envelope c typ flags reply_to payload fds) = flags"
  "en_reply_to (outgoing_envelope c typ flags reply_to payload fds) = reply_to"
  "en_sequence (outgoing_envelope c typ flags reply_to payload fds) = c_next_send_sequence c"
  "en_fd_count (outgoing_envelope c typ flags reply_to payload fds) = of_nat (length fds)"
  by (simp_all add: outgoing_envelope_def)

text \<open>What each end has become when the hello and the welcome have crossed.\<close>

definition welcomed_server :: "connection \<Rightarrow> hello \<Rightarrow> connection" where
  "welcomed_server s hello = (negotiate s hello)\<lparr>c_next_receive_sequence := 2, c_next_send_sequence := 2,
     c_state := CS_ESTABLISHED\<rparr>"

lemma server_takes_hello:
  assumes p: "presentable (c_config c)" "presentable (c_config s)" and ok: "compatible (c_config c) (c_config s)"
    and c: "c_next_send_sequence c = 1" "limits_ok c" "c_state c \<noteq> CS_ESTABLISHED"
    and s: "c_state s = CS_AWAITING_HELLO" "c_server_side s" "c_next_send_sequence s = 1" "c_next_receive_sequence s = 1"
      "c_outgoing s = []" "c_queued_bytes s = 0" "c_pending_replies s = {||}" "limits_ok s"
  defines "h \<equiv> hello_of (c_config c)" and "t \<equiv> s\<lparr>c_next_receive_sequence := 2\<rparr>"
  shows "process_poll_events k (readable (packet_of (hello_record c) [])) s =
    (ST_OK, (with_record (negotiate t h) GWIPC_FLAG_REPLY (welcome_record t h))\<lparr>c_state := CS_ESTABLISHED\<rparr>)"
proof (rule poll_readable)
  have "length (encode_hello h) \<le> unat (maximum_payload_of c)" "length (encode_hello h) \<le> unat (maximum_payload_of s)"
    using encode_hello_length [OF p(1)] presentable_limits(1) [OF p(1) c(3)] presentable_limits(1) [OF p(2)] s(1) h_def by auto
  then have "receive_record k s (Received (packet_of (hello_record c) [])) =
      (Inr (outgoing_envelope c GWIPC_MESSAGE_HELLO 0 0 (encode_hello h) [], encode_hello h, []), t)"
    using receive_record_within [of c s 0 0 "encode_hello h" "[]" "[]" k GWIPC_MESSAGE_HELLO "[]"] c s
    by (simp add: hello_record_def h_def t_def flags_ok_def)
  moreover have "handle_hello k t (outgoing_envelope c GWIPC_MESSAGE_HELLO 0 0 (encode_hello h) []) (encode_hello h) =
      (ST_OK, (with_record (negotiate t h) GWIPC_FLAG_REPLY (welcome_record t h))\<lparr>c_state := CS_ESTABLISHED\<rparr>)"
    unfolding h_def welcome_record_def using p ok s c by (intro hello_accepted) (simp_all add: t_def)
  moreover have "c_state t = CS_AWAITING_HELLO" using s(1) t_def by simp
  ultimately show "receive_one k s (Received (packet_of (hello_record c) [])) =
      (ST_OK, (with_record (negotiate t h) GWIPC_FLAG_REPLY (welcome_record t h))\<lparr>c_state := CS_ESTABLISHED\<rparr>)"
    by (simp add: receive_one_def dispatch_record_def)
qed (use s in simp_all)

lemma server_sends_welcome:
  assumes s: "c_state s = CS_AWAITING_HELLO" "c_next_send_sequence s = 1" "c_outgoing s = []" "c_queued_bytes s = 0"
    "c_server_side s" "\<not> c_close_after_flush s"
  defines "t \<equiv> s\<lparr>c_next_receive_sequence := 2\<rparr>"
  shows "process_poll_events k (writable (length (qr_bytes (welcome_record t h))))
      ((with_record (negotiate t h) GWIPC_FLAG_REPLY (welcome_record t h))\<lparr>c_state := CS_ESTABLISHED\<rparr>) =
    (ST_OK, welcomed_server s h)"
proof -
  let ?t = "(with_record (negotiate t h) GWIPC_FLAG_REPLY (welcome_record t h))\<lparr>c_state := CS_ESTABLISHED\<rparr>"
  have "process_poll_events k (writable (length (qr_bytes (welcome_record t h)))) ?t =
      (ST_OK, ?t\<lparr>c_queued_bytes := c_queued_bytes ?t - length (qr_bytes (welcome_record t h)), c_outgoing := []\<rparr>)"
    using s by (intro poll_writable) (simp_all add: with_record_def negotiate_def t_def)
  also have "?t\<lparr>c_queued_bytes := c_queued_bytes ?t - length (qr_bytes (welcome_record t h)), c_outgoing := []\<rparr> =
      welcomed_server s h"
    using s(2-4) by (cases s) (simp add: with_record_def negotiate_def t_def welcomed_server_def ipc)
  finally show ?thesis .
qed

lemma client_takes_welcome:
  assumes p: "presentable (c_config c)" "presentable (c_config s)" and ok: "compatible (c_config c) (c_config s)"
    and s: "c_state s = CS_AWAITING_HELLO" "c_next_send_sequence s = 1" "c_assigned_connection_id s \<noteq> 0"
    and c: "c_state c = CS_AWAITING_WELCOME" "c_next_send_sequence c = 2" "c_next_receive_sequence c = 1" "limits_ok c"
  defines "h \<equiv> hello_of (c_config c)" and "t \<equiv> s\<lparr>c_next_receive_sequence := 2\<rparr>"
  shows "process_poll_events k (readable (packet_of (welcome_record t h) [])) c =
    (ST_OK, accept_welcome (c\<lparr>c_next_receive_sequence := 2\<rparr>) (welcome_of (negotiate t h)))"
proof (rule poll_readable)
  let ?n = "negotiate t h" and ?w = "encode_welcome_message (welcome_of (negotiate t h))"
  have n: "c_config ?n = c_config s" "c_next_send_sequence ?n = 1" "c_state ?n = CS_AWAITING_HELLO"
    using s by (simp_all add: negotiate_def t_def)
  have "limits_ok ?n"
    using p(2) n by (intro presentable_limits_ok) (simp_all add: negotiate_def t_def)
  moreover have "length ?w \<le> 256"
    using p(2) by (simp add: encode_welcome_message_def welcome_of_def presentable_def fields negotiate_def t_def)
  then have "length ?w \<le> unat (maximum_payload_of ?n)" "length ?w \<le> unat (maximum_payload_of c)"
    using presentable_limits(1) [of ?n] presentable_limits(1) [of c] p n c(1) by simp_all
  moreover have "flags_ok GWIPC_FLAG_REPLY 1" by (simp add: flags_ok_def ipc kKnownMessageFlags_def)
  ultimately have "receive_record k c (Received (packet_of (welcome_record t h) [])) =
      (Inr (outgoing_envelope ?n GWIPC_MESSAGE_WELCOME GWIPC_FLAG_REPLY 1 ?w [], ?w, []), c\<lparr>c_next_receive_sequence := 2\<rparr>)"
    using receive_record_within [of ?n c GWIPC_FLAG_REPLY 1 ?w "[]" "[]" k GWIPC_MESSAGE_WELCOME "[]"] c n
    by (simp add: welcome_record_def)
  moreover have "handle_welcome (c\<lparr>c_next_receive_sequence := 2\<rparr>)
      (outgoing_envelope ?n GWIPC_MESSAGE_WELCOME GWIPC_FLAG_REPLY 1 ?w []) ?w =
      (ST_OK, accept_welcome (c\<lparr>c_next_receive_sequence := 2\<rparr>) (welcome_of ?n))"
    unfolding h_def using p ok s c(1) by (intro welcome_accepted [where server = "c_config s"]) (simp_all add: t_def)
  ultimately show "receive_one k c (Received (packet_of (welcome_record t h) [])) =
      (ST_OK, accept_welcome (c\<lparr>c_next_receive_sequence := 2\<rparr>) (welcome_of ?n))"
    using c(1) by (simp add: receive_one_def dispatch_record_def)
qed (use c in \<open>simp_all add: accept_welcome_def\<close>)


text \<open>With nothing asked of either, the two ends are linked once both are established.\<close>

lemma awaits_nothing_owed:
  assumes "c_incoming_frame_commits c = fmempty" "c_incoming_policy_commits c = fmempty" "c_incoming_synthetic_inputs c = fmempty"
    "c_incoming_session_states c = fmempty" "c_incoming_output_requests c = fmempty"
  shows "\<not> owes c n r"
  using assms by (cases r) simp_all

lemma handshake:
  assumes p: "presentable client" "presentable (li_config l)" and ok: "compatible client (li_config l)"
    and c: "connection_connect client fdc False crc uc = Inr (status, c)"
    and s: "listener_accept l fds crs us = (Inr s, l')"
  shows "\<exists>c1 s1 s2 c2 w.
    process_poll_events kc (writable (length (qr_bytes (hello_record c)))) c = (ST_OK, c1) \<and>
    process_poll_events ks (readable (packet_of (hello_record c) [])) s = (ST_OK, s1) \<and> c_outgoing s1 = [w] \<and>
    process_poll_events ks (writable (length (qr_bytes w))) s1 = (ST_OK, s2) \<and>
    process_poll_events kc (readable (packet_of w [])) c1 = (ST_OK, c2) \<and> linked c2 s2 \<and>
    peer_capabilities (c_peer c2) = cf_offered_capabilities client AND cf_offered_capabilities (li_config l) AND kKnownCapabilities"
proof -
  have empty: "peer_maximum_payload (no_peer\<lparr>peer_pid := x, peer_uid := y, peer_gid := z\<rparr>) = 0"
    "peer_maximum_fd_count (no_peer\<lparr>peer_pid := x, peer_uid := y, peer_gid := z\<rparr>) = 0" for x y z
    by (simp_all add: no_peer_def)
  obtain x y z where c': "c = (new_connection client)\<lparr>c_fd := fdc, c_state := CS_AWAITING_WELCOME,
      c_peer := no_peer\<lparr>peer_pid := x, peer_uid := y, peer_gid := z\<rparr>, c_peer_credentials_read := True\<rparr>"
    using connected_connection [OF c] .
  obtain x' y' z' where s': "s = (new_connection (li_config l))\<lparr>c_fd := fds, c_server_side := True,
      c_state := CS_AWAITING_HELLO, c_assigned_connection_id := li_next_connection_id l,
      c_peer := no_peer\<lparr>peer_pid := x', peer_uid := y', peer_gid := z'\<rparr>, c_peer_credentials_read := True\<rparr>"
    and i: "li_next_connection_id l \<noteq> 0"
    using accepted_connection [OF s] .
  let ?h = "hello_of client"
  let ?t = "s\<lparr>c_next_receive_sequence := 2\<rparr>"
  let ?s1 = "(with_record (negotiate ?t ?h) GWIPC_FLAG_REPLY (welcome_record ?t ?h))\<lparr>c_state := CS_ESTABLISHED\<rparr>"
  let ?c1 = "c\<lparr>c_next_send_sequence := 2, c_queued_bytes := 0, c_outgoing := []\<rparr>"
  let ?s2 = "welcomed_server s ?h"
  let ?c2 = "accept_welcome (?c1\<lparr>c_next_receive_sequence := 2\<rparr>) (welcome_of (negotiate ?t ?h))"
  note new = new_connection_def
  have cf: "c_config c = client" "c_config s = li_config l" using c' s' by (simp_all add: new)
  have rc: "reachable_connection c" using presentable_config [OF p(1)] c by (rule connected)
  have rs: "reachable_connection s" using presentable_config [OF p(2)] s by (rule accepted)
  have lc: "limits_ok c" using reachable_connection_ok [OF rc] by (simp add: connection_ok_def queue_ok_def)
  have ls: "limits_ok s" using reachable_connection_ok [OF rs] by (simp add: connection_ok_def queue_ok_def)
  have one: "process_poll_events kc (writable (length (qr_bytes (hello_record c)))) c = (ST_OK, ?c1)"
    by (rule client_says_hello) (use p(1) cf c' in \<open>simp_all add: new\<close>)
  have two: "process_poll_events ks (readable (packet_of (hello_record c) [])) s = (ST_OK, ?s1)"
    using server_takes_hello [of c s ks] p ok cf lc ls c' s' by (simp add: new)
  have out: "c_outgoing ?s1 = [welcome_record ?t ?h]" using s' by (simp add: with_record_def negotiate_def new)
  have three: "process_poll_events ks (writable (length (qr_bytes (welcome_record ?t ?h)))) ?s1 = (ST_OK, ?s2)"
    by (rule server_sends_welcome) (use s' in \<open>simp_all add: new\<close>)
  have four: "process_poll_events kc (readable (packet_of (welcome_record ?t ?h) [])) ?c1 = (ST_OK, ?c2)"
    using client_takes_welcome [of ?c1 s kc] p ok cf lc c' s' i by (simp add: new limits_ok_def)
  have "reachable_connection ?c2" using polled [OF polled [OF rc one] four] .
  then have okc: "connection_ok ?c2" by (rule reachable_connection_ok)
  have "reachable_connection ?s2" using polled [OF polled [OF rs two] three] .
  then have oks: "connection_ok ?s2" by (rule reachable_connection_ok)
  have "\<not> owes ?c2 n r" for n r by (rule awaits_nothing_owed) (simp_all add: c' accept_welcome_def new)
  moreover have "\<not> owes ?s2 n r" for n r
    by (rule awaits_nothing_owed) (simp_all add: s' welcomed_server_def negotiate_def new)
  moreover have "ucast (ucast (cf_local_role client) :: u16) = cf_local_role client"
    "ucast (ucast (cf_local_role (li_config l)) :: u16) = cf_local_role (li_config l)"
    using role_round_trip presentable_role p by blast+
  ultimately have "synced ?c2 ?s2" "synced ?s2 ?c2"
    using c' s' by (simp_all add: synced_def mirrored_def accept_welcome_def welcomed_server_def welcome_of_def negotiate_def
        hello_of_def new del: owes.simps)
  then have "linked ?c2 ?s2" using okc oks by (simp add: linked_def)
  moreover have "peer_capabilities (c_peer ?c2) = cf_offered_capabilities client AND cf_offered_capabilities (li_config l) AND kKnownCapabilities"
    using cf by (simp add: accept_welcome_def welcome_of_def negotiate_def negotiated_capabilities_def hello_of_def)
  ultimately show ?thesis using one two out three four by blast
qed

end
