(* ===== verification/Ipc_Properties.thy ===== *)
theory Ipc_Properties
  imports Ipc_Handshake
begin

text \<open>
  What the connections of the processes promise: the invariant of every connection a process can come to
  hold, the atomicity of sending, the agreement of both ends on what is a valid message, the delivery of
  messages and the handshake that makes it possible.
\<close>

section \<open>A server and a compositor\<close>

text \<open>Configurations and ends of a connection on which the properties are instantiated.\<close>

definition example_config :: "u32 \<Rightarrow> u32 \<Rightarrow> config" where
  "example_config local peer = \<lparr>cf_path = [47, 116], cf_local_role = local, cf_peer_roles = GWIPC_ROLE_BIT peer,
     cf_offered_capabilities = GWIPC_CAP_FRAME_ACKNOWLEDGEMENT OR GWIPC_CAP_SNAPSHOTS,
     cf_required_peer_capabilities = GWIPC_CAP_FRAME_ACKNOWLEDGEMENT, cf_maximum_payload = 4096, cf_maximum_fd_count = 4,
     cf_maximum_queued_bytes = 8192, cf_maximum_queued_messages = 8, cf_label = [97], cf_instance_id = replicate 16 1,
     cf_require_same_uid = True\<rparr>"

definition example_end :: "u32 \<Rightarrow> u32 \<Rightarrow> connection" where
  "example_end local peer = (new_connection (example_config local peer))\<lparr>c_state := CS_ESTABLISHED,
     c_next_send_sequence := 2, c_next_receive_sequence := 2,
     c_peer := no_peer\<lparr>peer_role := peer, peer_wire_version := (kWireMajor, kWireMinor),
       peer_capabilities := GWIPC_CAP_FRAME_ACKNOWLEDGEMENT, peer_maximum_payload := 4096, peer_maximum_fd_count := 4\<rparr>\<rparr>"

definition example_server :: connection where
  "example_server = example_end GWIPC_ROLE_PROTOCOL_SERVER GWIPC_ROLE_COMPOSITOR"

definition example_compositor :: connection where
  "example_compositor = example_end GWIPC_ROLE_COMPOSITOR GWIPC_ROLE_PROTOCOL_SERVER"

definition example_frame :: outgoing_message where
  "example_frame = \<lparr>om_struct_size = 88, om_type = GWIPC_MESSAGE_FRAME_COMMIT, om_flags = GWIPC_FLAG_ACK_REQUIRED, om_reply_to = 0,
     om_payload = Array (encode_wire_frame_commit \<lparr>wfc_commit_id = 1, wfc_output_id = 0, wfc_producer_generation = 1, wfc_flags = 0\<rparr>),
     om_fds = Array [], om_reserved = []\<rparr>"

definition example_kernel :: kernel where
  "example_kernel = \<lparr>k_status_flags = \<lambda>_. 0, k_descriptor_flags = \<lambda>_. 0, k_stat = \<lambda>_. None, k_link = \<lambda>_. None,
     k_duplicate = \<lambda>_ _. Inl 9\<rparr>"

lemma example_linked: "linked example_server example_compositor"
proof -
  have "\<not> owes example_server n r" "\<not> owes example_compositor n r" for n r
    by (rule awaits_nothing_owed; simp add: example_server_def example_compositor_def example_end_def new_connection_def)+
  then show ?thesis
    by (simp add: linked_def synced_def mirrored_def connection_ok_def queue_ok_def limits_ok_def used_def pending_keys_def
        example_server_def example_compositor_def example_end_def example_config_def new_connection_def no_peer_def ipc del: owes.simps)
qed


definition example_listener :: listener where
  "example_listener = \<lparr>li_config = example_config GWIPC_ROLE_COMPOSITOR GWIPC_ROLE_PROTOCOL_SERVER, li_next_connection_id = 1\<rparr>"

lemma example_presentable:
  "presentable (example_config GWIPC_ROLE_COMPOSITOR GWIPC_ROLE_PROTOCOL_SERVER)"
  "presentable (example_config GWIPC_ROLE_PROTOCOL_SERVER GWIPC_ROLE_COMPOSITOR)"
  by (simp_all add: presentable_def validate_config_def example_config_def valid_role_def GWIPC_ROLE_BIT_def ipc nonzero_def
      kKnownCapabilities_def valid_utf8.simps utf8_first_def utf8_bad_def)

lemma example_compatible:
  "compatible (example_config GWIPC_ROLE_PROTOCOL_SERVER GWIPC_ROLE_COMPOSITOR) (li_config example_listener)"
  by (simp add: compatible_def example_config_def example_listener_def GWIPC_ROLE_BIT_def ipc kKnownCapabilities_def)

lemma example_connected:
  "\<exists>status c. connection_connect (example_config GWIPC_ROLE_PROTOCOL_SERVER GWIPC_ROLE_COMPOSITOR) 3 False (Inr (1, 0, 0)) 0 = Inr (status, c)"
  "\<exists>s l'. listener_accept example_listener 3 (Inr (1, 0, 0)) 0 = (Inr s, l')"
  by (simp_all add: connection_connect_def listener_accept_def example_listener_def check_credentials_def read_peer_credentials_def
      no_peer_def new_connection_def)

lemma example_decoded:
  "decode_wire_frame_commit (encode_wire_frame_commit \<lparr>wfc_commit_id = 1, wfc_output_id = 0, wfc_producer_generation = 1, wfc_flags = 0\<rparr>) =
    Inr \<lparr>wfc_commit_id = 1, wfc_output_id = 0, wfc_producer_generation = 1, wfc_flags = 0\<rparr>"
  by (simp add: wfc.decode_iff valid_wire_frame_commit_def)

lemma example_validated:
  "validate_application example_kernel example_server GWIPC_MESSAGE_FRAME_COMMIT GWIPC_FLAG_ACK_REQUIRED
     (encode_wire_frame_commit \<lparr>wfc_commit_id = 1, wfc_output_id = 0, wfc_producer_generation = 1, wfc_flags = 0\<rparr>) [] no_snapshot
     Outgoing = (ST_OK, no_snapshot)"
  by (simp add: validate_application_def validate_message_def message_roles_def example_server_def example_end_def example_config_def
      new_connection_def required_capability_def output_extension_message_def valid_direction_def validate_group_def
      validate_compositor_def example_decoded valid_descriptor_count_def validate_snapshot_def snapshot_control_def snapshot_takes_item_def no_snapshot_def
      flag_status_def decoded.simps ipc Let_def)

definition example_prepared :: "connection \<times> correlation_changes" where
  "example_prepared = (example_server\<lparr>c_pending_frame_commits := fm_emplace 2 1 fmempty\<rparr>,
     (no_changes 2 0)\<lparr>cc_frame_commit_inserted := True\<rparr>)"

lemma example_request_prepared:
  "prepare_request GWIPC_MESSAGE_FRAME_COMMIT (elements (om_payload example_frame)) (example_server, no_changes 2 0) =
     (ST_OK, example_prepared)"
  by (simp add: prepare_request_def prepare_output_request_def prepare_ping_def prepare_frame_commit_def prepare_policy_commit_def
      prepare_synthetic_input_def prepare_session_state_def and_then_def output_request_def synthetic_input_id_def
      example_frame_def example_decoded ipc tracking_full_def example_server_def example_end_def example_config_def
      new_connection_def fm_size_def no_changes_def example_prepared_def fcard.rep_eq)

lemma example_queued:
  "\<exists>c. queue_internal example_kernel (fst example_prepared) GWIPC_MESSAGE_FRAME_COMMIT GWIPC_FLAG_ACK_REQUIRED 0
     (elements (om_payload example_frame)) [] = (ST_OK, c)"
  by (simp add: queue_internal_ok_iff example_prepared_def example_server_def example_end_def example_config_def example_frame_def
      new_connection_def encode_wire_frame_commit_def fields queue_limit_exceeded_def maximum_payload_of_def maximum_fds_of_def ipc kEnvelopeSize_def
      fcard.rep_eq)

lemma example_enqueued:
  "\<exists>a'. enqueue_with_sequence example_kernel example_server example_frame = (ST_OK, a')"
proof -
  obtain c where c: "queue_internal example_kernel (fst example_prepared) GWIPC_MESSAGE_FRAME_COMMIT GWIPC_FLAG_ACK_REQUIRED 0
     (elements (om_payload example_frame)) [] = (ST_OK, c)" using example_queued ..
  have m: "om_type example_frame = GWIPC_MESSAGE_FRAME_COMMIT" "om_flags example_frame = GWIPC_FLAG_ACK_REQUIRED"
    "om_reply_to example_frame = 0" "elements (om_fds example_frame) = []" "valid_outgoing_message example_frame"
    "valid_outgoing_flags example_frame"
    by (simp_all add: example_frame_def valid_outgoing_message_def valid_outgoing_flags_def sizeof_outgoing_message_def ipc
        kKnownMessageFlags_def)
  have a: "c_state example_server = CS_ESTABLISHED" "c_next_send_sequence example_server = 2"
    "c_outgoing_snapshot example_server = no_snapshot"
    by (simp_all add: example_server_def example_end_def new_connection_def)
  have v: "validate_application example_kernel example_server GWIPC_MESSAGE_FRAME_COMMIT GWIPC_FLAG_ACK_REQUIRED
      (elements (om_payload example_frame)) [] no_snapshot Outgoing = (ST_OK, no_snapshot)"
    using example_validated by (simp add: example_frame_def)
  have r: "prepare_reply GWIPC_MESSAGE_FRAME_COMMIT 0 (elements (om_payload example_frame)) example_prepared = (ST_OK, example_prepared)"
    by (simp add: prepare_reply_def ipc split: prod.split)
  obtain d ch where p: "example_prepared = (d, ch)" by fastforce
  show ?thesis
    using c by (simp add: enqueue_with_sequence_def m a v example_request_prepared and_then_def r [unfolded p] queue_prepared_def p)
qed


lemma example_reachable: "\<exists>c. reachable_connection c \<and> c_state c = CS_AWAITING_WELCOME"
proof -
  obtain status c where c: "connection_connect (example_config GWIPC_ROLE_PROTOCOL_SERVER GWIPC_ROLE_COMPOSITOR) 3 False
      (Inr (1, 0, 0)) 0 = Inr (status, c)" using example_connected(1) by blast
  from connected [OF presentable_config [OF example_presentable(2)] c] have "reachable_connection c" .
  moreover have "c_state c = CS_AWAITING_WELCOME" by (rule connected_connection [OF c]) simp
  ultimately show ?thesis by blast
qed

section \<open>The properties\<close>

text \<open>
  C25. Every connection a process can come to hold, whatever the peer sends, the kernel answers and the
  client asks for, keeps its bounds and its books: the queued records are within the limits, their bytes
  are what is counted, each is a record the wire format accepts, they are numbered consecutively up to the
  next number, every pending request carries a number that was used, and a closed connection queues nothing.
\<close>

theorem connection_invariant:
  assumes "reachable_connection c"
  shows "length (c_outgoing c) \<le> unat (cf_maximum_queued_messages (c_config c)) \<and>
    c_queued_bytes c = sum_list (map (\<lambda>r. length (qr_bytes r)) (c_outgoing c)) \<and>
    c_queued_bytes c \<le> unat (cf_maximum_queued_bytes (c_config c)) \<and>
    (\<forall>r \<in> set (c_outgoing c). \<exists>e. decode_envelope (qr_bytes r) (length (qr_fds r)) GWIPC_HARD_MAXIMUM_PAYLOAD = Inr e \<and>
       en_sequence e = qr_sequence r) \<and>
    map (\<lambda>r. unat (qr_sequence r)) (c_outgoing c) =
      [unat (c_next_send_sequence c) - length (c_outgoing c) ..< unat (c_next_send_sequence c)] \<and>
    (\<forall>n \<in> pending_keys c. n < c_next_send_sequence c) \<and>
    (c_state c = CS_CLOSED \<longrightarrow> c_outgoing c = [])"
proof -
  note ok = reachable_connection_ok [OF assms, unfolded connection_ok_def queue_ok_def used_def]
  have "\<exists>e. decode_envelope (qr_bytes r) (length (qr_fds r)) GWIPC_HARD_MAXIMUM_PAYLOAD = Inr e \<and> en_sequence e = qr_sequence r"
    if "r \<in> set (c_outgoing c)" for r
    using ok that unfolding record_ok_def decode_envelope_iff by blast
  with ok show ?thesis by blast
qed

theorem connection_invariant_witness:
  "\<exists>c. reachable_connection c \<and> c_state c = CS_AWAITING_WELCOME \<and>
    c_queued_bytes c = sum_list (map (\<lambda>r. length (qr_bytes r)) (c_outgoing c))"
  using example_reachable connection_invariant by blast

text \<open>
  C26. Sending is all or nothing: a message that is refused, for whatever reason, leaves no trace in the
  connection (no pending request, no answered request forgotten, no sequence number used), unless the
  connection was closed or the error number of a failed system call was noted.
\<close>

theorem refused_message_leaves_no_trace:
  assumes "reachable_connection c" "enqueue_with_sequence k c m = (status, c')" "status \<noteq> ST_OK"
  shows "c' = c \<or> c' = set_closed c \<or> (\<exists>errno. c' = c\<lparr>c_system_errno := errno\<rparr>)"
  using enqueue_refused [OF used_fresh assms(2,3)] reachable_connection_ok [OF assms(1)] by (simp add: connection_ok_def)

theorem refused_message_leaves_no_trace_witness:
  "\<exists>c. reachable_connection c \<and> c_state c = CS_AWAITING_WELCOME \<and> enqueue_with_sequence example_kernel c example_frame = (ST_INVALID_STATE, c) \<and>
    (c = c \<or> c = set_closed c \<or> (\<exists>errno. c = c\<lparr>c_system_errno := errno\<rparr>))"
proof -
  obtain c where c: "reachable_connection c" "c_state c = CS_AWAITING_WELCOME" using example_reachable by blast
  have e: "enqueue_with_sequence example_kernel c example_frame = (ST_INVALID_STATE, c)"
    using c(2) by (simp add: enqueue_with_sequence_def valid_outgoing_message_def example_frame_def sizeof_outgoing_message_def)
  show ?thesis using refused_message_leaves_no_trace [OF c(1) e] c e by blast
qed

text \<open>
  Both ends of a connection judge a message alike: what the sender checks before it sends is what the
  receiver checks when it arrives, for every type, flag, payload, list of descriptors and snapshot in
  progress, if the ends see each other's roles and have agreed on the capabilities.
\<close>

lemma validation_mirrored:
  assumes "mirrored a b" "same_descriptors ka kb xs ys"
  shows "validate_application kb b typ flags payload ys s Incoming = validate_application ka a typ flags payload xs s Outgoing"
  by (rule validate_mirrored [OF assms])

text \<open>
  C10. A message that one end of a linked connection accepts for sending is accepted by the other end: the
  record that is queued, when it arrives, is handed to the receiving client unchanged and in order, and the
  ends remain linked, so that their sequence numbers, snapshots and outstanding requests keep agreeing. This
  is for messages that are deliverable: pings, pongs and protocol errors are not, since the connection itself
  answers them, nor is a message with the reply flag that is no acknowledgement, which the receiver refuses.
  The receiver must have room, in its queue of incoming messages and in each table of requests it tracks, and
  the descriptors must arrive as what they were sent as: the kernel says the same of both.
\<close>

theorem accepted_message_is_delivered:
  assumes "linked a b" "enqueue_with_sequence ka a m = (ST_OK, a')" "deliverable m"
    "same_descriptors ka kb (elements (om_fds m)) fds" "has_room b"
  shows "\<exists>r b'. c_outgoing a' = c_outgoing a @ [r] \<and> receive_one kb b (Received (packet_of r fds)) = (ST_OK, b') \<and>
    linked a' b' \<and> c_incoming b' = c_incoming b @ [received_message m (c_next_send_sequence a) fds]"
  by (rule delivery [OF assms])

theorem accepted_message_is_delivered_witness:
  "\<exists>a' r b'. enqueue_with_sequence example_kernel example_server example_frame = (ST_OK, a') \<and> c_outgoing a' = [r] \<and>
     receive_one example_kernel example_compositor (Received (packet_of r [])) = (ST_OK, b') \<and>
     c_incoming b' = [received_message example_frame 2 []]"
proof -
  obtain a' where a': "enqueue_with_sequence example_kernel example_server example_frame = (ST_OK, a')" using example_enqueued by blast
  have "deliverable example_frame"
    by (simp add: deliverable_def example_frame_def supported_established_type_def ipc)
  moreover have "same_descriptors example_kernel example_kernel (elements (om_fds example_frame)) []"
    by (simp add: same_descriptors_def example_frame_def)
  moreover have "has_room example_compositor"
    by (simp add: has_room_def tracking_full_def example_compositor_def example_end_def example_config_def new_connection_def
        fm_size_def fcard.rep_eq)
  moreover have "c_outgoing example_server = []" "c_incoming example_compositor = []" "c_next_send_sequence example_server = 2"
    by (simp_all add: example_server_def example_compositor_def example_end_def new_connection_def)
  ultimately show ?thesis using accepted_message_is_delivered [OF example_linked a'] a' by fastforce
qed

text \<open>
  C24. The handshake succeeds: a client whose configuration is valid and a server that allows its role, with
  required capabilities that both offer, reach the established state by one record each way, agree on the
  capabilities both offer, and are then linked.
\<close>

theorem handshake_links:
  assumes "presentable client" "presentable (li_config l)" "compatible client (li_config l)"
    and "connection_connect client fdc False crc uc = Inr (status, c)"
    and "listener_accept l fds crs us = (Inr s, l')"
  shows "\<exists>c1 s1 s2 c2 w.
    process_poll_events kc (writable (length (qr_bytes (hello_record c)))) c = (ST_OK, c1) \<and>
    process_poll_events ks (readable (packet_of (hello_record c) [])) s = (ST_OK, s1) \<and> c_outgoing s1 = [w] \<and>
    process_poll_events ks (writable (length (qr_bytes w))) s1 = (ST_OK, s2) \<and>
    process_poll_events kc (readable (packet_of w [])) c1 = (ST_OK, c2) \<and> linked c2 s2 \<and>
    peer_capabilities (c_peer c2) = cf_offered_capabilities client AND cf_offered_capabilities (li_config l) AND kKnownCapabilities"
  by (rule handshake [OF assms])

theorem handshake_links_witness:
  "\<exists>c s l' s1 c1 c2 w status. listener_accept example_listener 3 (Inr (1, 0, 0)) 0 = (Inr s, l') \<and>
     connection_connect (example_config GWIPC_ROLE_PROTOCOL_SERVER GWIPC_ROLE_COMPOSITOR) 3 False (Inr (1, 0, 0)) 0 = Inr (status, c) \<and>
     process_poll_events example_kernel (readable (packet_of (hello_record c) [])) s = (ST_OK, s1) \<and> c_outgoing s1 = [w] \<and>
     process_poll_events example_kernel (readable (packet_of w [])) c1 = (ST_OK, c2) \<and>
     c_state c2 = CS_ESTABLISHED"
proof -
  obtain status c where c: "connection_connect (example_config GWIPC_ROLE_PROTOCOL_SERVER GWIPC_ROLE_COMPOSITOR) 3 False
      (Inr (1, 0, 0)) 0 = Inr (status, c)" using example_connected(1) by blast
  obtain s l' where s: "listener_accept example_listener 3 (Inr (1, 0, 0)) 0 = (Inr s, l')" using example_connected(2) by blast
  have p: "presentable (li_config example_listener)" using example_presentable(1) by (simp add: example_listener_def)
  from handshake_links [OF example_presentable(2) p example_compatible c s, of example_kernel example_kernel]
  obtain s1 c1 c2 w where h: "process_poll_events example_kernel (readable (packet_of (hello_record c) [])) s = (ST_OK, s1)"
    "c_outgoing s1 = [w]" "process_poll_events example_kernel (readable (packet_of w [])) c1 = (ST_OK, c2)" "c_state c2 = CS_ESTABLISHED"
    unfolding linked_def synced_def by blast
  show ?thesis using c s h by blast
qed

end
