(* ===== verification/X11_Setup.thy ===== *)
theory X11_Setup
  imports X11_Request
begin

text \<open>
  The connection setup (\<open>protocol/x11/setup.cpp\<close>, \<open>screen_model.hpp\<close>): the parser of the client's request, what the
  server decides about it, and the two replies.
\<close>

section \<open>Model\<close>

definition kProtocolMajor :: u16 where "kProtocolMajor = 11"
definition kProtocolMinor :: u16 where "kProtocolMinor = 0"
definition kSetupRequestHeaderSize :: nat where "kSetupRequestHeaderSize = 12"

record setup_request =
  sr_byte_order :: byte_order
  sr_major :: u16
  sr_minor :: u16
  sr_authorization_name :: "u8 list"
  sr_authorization_data :: "u8 list"

definition no_setup :: setup_request where
  "no_setup = \<lparr>sr_byte_order = LittleEndian, sr_major = 0, sr_minor = 0, sr_authorization_name = [], sr_authorization_data = []\<rparr>"

datatype parse_status = PS_NeedMore | PS_Complete | PS_InvalidByteOrder | PS_MessageTooLarge | PS_LengthOverflow | PS_TruncatedInput

record setup_parser =
  sp_maximum :: u64
  sp_expected :: nat
  sp_name_size :: u64
  sp_name_padded_size :: u64
  sp_data_size :: u64
  sp_status :: parse_status
  sp_request :: setup_request
  sp_bytes :: "u8 list"

definition new_setup_parser :: "u64 \<Rightarrow> setup_parser" where
  "new_setup_parser maximum =
     \<lparr>sp_maximum = maximum, sp_expected = kSetupRequestHeaderSize, sp_name_size = 0, sp_name_padded_size = 0, sp_data_size = 0,
      sp_status = (if unat maximum < kSetupRequestHeaderSize then PS_MessageTooLarge else PS_NeedMore), sp_request = no_setup, sp_bytes = []\<rparr>"

text \<open>The four fields of the header; the fields read before a read past the end keep their values.\<close>

definition read_setup_header :: "setup_parser \<Rightarrow> (u16 \<times> u16) option \<times> setup_parser" where
  "read_setup_header p =
     (let order = sr_byte_order (sp_request p) in
      case skip_bytes 2 (sp_bytes p) of None \<Rightarrow> (None, p) | Some b \<Rightarrow>
      case x11_read_u16 order b of None \<Rightarrow> (None, p) | Some (major, b) \<Rightarrow>
      let p = p\<lparr>sp_request := (sp_request p)\<lparr>sr_major := major\<rparr>\<rparr> in
      case x11_read_u16 order b of None \<Rightarrow> (None, p) | Some (minor, b) \<Rightarrow>
      let p = p\<lparr>sp_request := (sp_request p)\<lparr>sr_minor := minor\<rparr>\<rparr> in
      case x11_read_u16 order b of None \<Rightarrow> (None, p) | Some (name_size, b) \<Rightarrow>
      case x11_read_u16 order b of None \<Rightarrow> (None, p) | Some (data_size, b) \<Rightarrow>
      if skip_bytes 2 b = None then (None, p) else (Some (name_size, data_size), p))"

definition inspect_setup_header :: "setup_parser \<Rightarrow> parse_status \<times> setup_parser" where
  "inspect_setup_header p0 =
     (case read_setup_header p0 of
        (None, p) \<Rightarrow> (PS_TruncatedInput, p)
      | (Some (name_size, data_size), p) \<Rightarrow>
          let p = p\<lparr>sp_name_size := ucast name_size, sp_data_size := ucast data_size\<rparr> in
          case (checked_align_up (sp_name_size p) 4, checked_align_up (sp_data_size p) 4) of
            (Some padded_name, Some padded_data) \<Rightarrow>
              let p = p\<lparr>sp_name_padded_size := padded_name\<rparr> in
              (case checked_add (of_nat kSetupRequestHeaderSize) padded_name \<bind> (\<lambda>after_name. checked_add after_name padded_data) of
                 None \<Rightarrow> (PS_LengthOverflow, p)
               | Some total_size \<Rightarrow>
                   if total_size > sp_maximum p then (PS_MessageTooLarge, p)
                   else (PS_NeedMore, p\<lparr>sp_expected := unat total_size\<rparr>))
          | _ \<Rightarrow> (PS_LengthOverflow, p))"

definition finish_setup :: "setup_parser \<Rightarrow> setup_parser" where
  "finish_setup p =
     (let name_offset = kSetupRequestHeaderSize; data_offset = name_offset + unat (sp_name_padded_size p)
      in p\<lparr>sp_request := (sp_request p)\<lparr>sr_authorization_name := take (unat (sp_name_size p)) (drop name_offset (sp_bytes p)),
           sr_authorization_data := take (unat (sp_data_size p)) (drop data_offset (sp_bytes p))\<rparr>\<rparr>)"

definition push_setup :: "u8 list \<Rightarrow> setup_parser \<Rightarrow> setup_parser" where
  "push_setup bytes p = p\<lparr>sp_bytes := sp_bytes p @ bytes\<rparr>"

text \<open>What the body of the loop does after it has copied, and what it does with the first byte of all.\<close>

definition settle_setup :: "setup_parser \<Rightarrow> setup_parser" where
  "settle_setup p0 =
     (let p = (if length (sp_bytes p0) = kSetupRequestHeaderSize \<and> sp_expected p0 = kSetupRequestHeaderSize
               then (case inspect_setup_header p0 of (status, p) \<Rightarrow> p\<lparr>sp_status := status\<rparr>) else p0)
      in if sp_status p \<noteq> PS_NeedMore then p
         else if length (sp_bytes p) = sp_expected p then (finish_setup p)\<lparr>sp_status := PS_Complete\<rparr>
         else p)"

definition first_byte :: "setup_parser \<Rightarrow> setup_parser" where
  "first_byte p = (case byte_order_from_marker (hd (sp_bytes p)) of
      None \<Rightarrow> p\<lparr>sp_status := PS_InvalidByteOrder\<rparr>
    | Some order \<Rightarrow> p\<lparr>sp_request := (sp_request p)\<lparr>sr_byte_order := order\<rparr>\<rparr>)"

partial_function (option) setup_loop :: "u8 list \<Rightarrow> nat \<Rightarrow> setup_parser \<Rightarrow> (setup_parser \<times> nat) option" where
  "setup_loop input0 consumed0 p0 =
     (if input0 = [] \<or> sp_status p0 \<noteq> PS_NeedMore then Some (p0, consumed0)
      else let (p, input, consumed) = (if sp_bytes p0 = [] then (first_byte (push_setup [hd input0] p0), tl input0, consumed0 + 1) else (p0, input0, consumed0))
           in if sp_status p \<noteq> PS_NeedMore then Some (p, consumed)
              else let copy_size = min (sp_expected p - length (sp_bytes p)) (length input)
                   in setup_loop (drop copy_size input) (consumed + copy_size) (settle_setup (push_setup (take copy_size input) p)))"

definition consume_setup :: "u8 list \<Rightarrow> setup_parser \<Rightarrow> ((parse_status \<times> nat) \<times> setup_parser) option" where
  "consume_setup input p =
     (if sp_status p \<noteq> PS_NeedMore then Some ((sp_status p, 0), p)
      else map_option (\<lambda>(p', consumed). ((sp_status p', consumed), p')) (setup_loop input 0 p))"

definition setup_eof :: "setup_parser \<Rightarrow> parse_status" where
  "setup_eof p = (if sp_status p = PS_NeedMore then PS_TruncatedInput else sp_status p)"

datatype setup_decision = Accepted | UnsupportedVersion | UnsupportedAuthorization

definition evaluate_setup_request :: "setup_request \<Rightarrow> setup_decision" where
  "evaluate_setup_request r =
     (if sr_major r \<noteq> kProtocolMajor \<or> sr_minor r \<noteq> kProtocolMinor then UnsupportedVersion
      else if sr_authorization_name r \<noteq> [] \<or> sr_authorization_data r \<noteq> [] then UnsupportedAuthorization
      else Accepted)"

section \<open>The parser reads a stream\<close>

definition setup_ready :: "setup_parser \<Rightarrow> bool" where
  "setup_ready p \<longleftrightarrow> (sp_status p = PS_NeedMore \<longrightarrow> length (sp_bytes p) < sp_expected p \<and> 12 \<le> sp_expected p \<and>
     (sp_bytes p \<noteq> [] \<longrightarrow> byte_order_from_marker (hd (sp_bytes p)) = Some (sr_byte_order (sp_request p))))"

lemma new_setup_ready: "setup_ready (new_setup_parser maximum)"
  by (simp add: setup_ready_def new_setup_parser_def kSetupRequestHeaderSize_def)

lemma push_setup_fields [simp]:
  "sp_bytes (push_setup a p) = sp_bytes p @ a" "sp_expected (push_setup a p) = sp_expected p" "sp_status (push_setup a p) = sp_status p"
  "sp_request (push_setup a p) = sp_request p" "sp_maximum (push_setup a p) = sp_maximum p"
  by (simp_all add: push_setup_def)

definition settle_next :: "setup_parser \<Rightarrow> setup_parser" where
  "settle_next p = (if length (sp_bytes p) = 1 then first_byte p else settle_setup p)"

definition setup_wanted :: "setup_parser \<Rightarrow> nat" where
  "setup_wanted p = (if sp_bytes p = [] then 1 else sp_expected p)"

lemma settle_setup_short: "length (sp_bytes p) < sp_expected p \<Longrightarrow> sp_status p = PS_NeedMore \<Longrightarrow> settle_setup p = p"
  by (auto simp: settle_setup_def Let_def kSetupRequestHeaderSize_def)

lemma settle_next_short:
  "setup_ready p \<Longrightarrow> sp_status p = PS_NeedMore \<Longrightarrow> length (sp_bytes p) < setup_wanted p \<Longrightarrow> settle_next p = p"
  by (auto simp: settle_next_def setup_ready_def setup_wanted_def first_byte_def settle_setup_short split: if_splits)

text \<open>Both sizes are of sixteen bits, so no sum overflows: the length of a request is its header and two padded fields.\<close>

definition round4 :: "nat \<Rightarrow> nat" where
  "round4 n = 4 * ((n + 3) div 4)"

lemma round4_bounds: "n \<le> round4 n" "round4 n < n + 4" "4 dvd round4 n"
  unfolding round4_def by presburger+

lemma align_up_u16: "\<exists>r. checked_align_up (ucast (n :: u16)) 4 = Some r \<and> unat r = round4 (unat n)"
proof -
  have wide: "uint (ucast n :: u64) = uint n" by (rule uint_up_ucast) (simp add: is_up)
  have small: "uint n < 65536" using unsigned_less [of n, where ?'a = int] by simp
  obtain r where r: "checked_align_up (ucast n) 4 = Some r" using small wide by (simp add: checked_align_up_def checked_add_spec)
  note spec = checked_align_up_spec [OF r]
  have "(4 :: int) dvd uint r" "uint n \<le> uint r" "uint r < uint n + 4" using spec wide by simp_all
  moreover have "uint r = int (unat r)" "uint n = int (unat n)" by simp_all
  ultimately have "4 dvd unat r" "unat n \<le> unat r" "unat r < unat n + 4" by presburger+
  then have "unat r = round4 (unat n)" unfolding round4_def by presburger
  then show ?thesis using r by blast
qed

lemma checked_add_small: "unat a + unat b < 2 ^ 64 \<Longrightarrow> \<exists>r. checked_add a b = Some r \<and> unat r = unat a + unat b" for a b :: u64
proof -
  assume small: "unat a + unat b < 2 ^ 64"
  have "int (unat a + unat b) < 2 ^ 64" using small by (metis of_nat_less_iff of_nat_numeral of_nat_power)
  then have "uint a + uint b < 2 ^ 64" by simp
  then have "checked_add a b = Some (a + b)" unfolding checked_add_spec u64_of_def by simp
  moreover have "unat (a + b) = unat a + unat b" using small unat_add_lem [of a b] by simp
  ultimately show ?thesis by blast
qed

definition setup_size :: "u16 \<Rightarrow> u16 \<Rightarrow> nat" where
  "setup_size name data = 12 + round4 (unat name) + round4 (unat data)"

lemma setup_total:
  assumes "checked_align_up (ucast (name :: u16)) 4 = Some padded_name" "checked_align_up (ucast (data :: u16)) 4 = Some padded_data"
  shows "\<exists>r. checked_add (of_nat kSetupRequestHeaderSize) padded_name \<bind> (\<lambda>after_name. checked_add after_name padded_data) = Some r \<and>
    unat r = setup_size name data"
proof -
  have "unat padded_name = round4 (unat name)" "unat padded_data = round4 (unat data)"
    using align_up_u16 [of name] align_up_u16 [of data] assms by auto
  moreover have "unat name < 65536" "unat data < 65536" using unsigned_less [of name, where ?'a = nat] unsigned_less [of data, where ?'a = nat] by simp_all
  moreover note round4_bounds(2) [of "unat name"] round4_bounds(2) [of "unat data"]
  ultimately have sizes: "unat padded_name = round4 (unat name)" "unat padded_data = round4 (unat data)" "round4 (unat name) < 65540" "round4 (unat data) < 65540"
    by linarith+
  have "\<exists>r. checked_add (12 :: u64) padded_name = Some r \<and> unat r = unat (12 :: u64) + unat padded_name"
    using sizes by (intro checked_add_small) simp
  then obtain r where r: "checked_add 12 padded_name = Some r" "unat r = 12 + round4 (unat name)" using sizes(1) by auto
  have "\<exists>r'. checked_add r padded_data = Some r' \<and> unat r' = unat r + unat padded_data" using sizes r(2) by (intro checked_add_small) simp
  then show ?thesis using r sizes by (auto simp: setup_size_def kSetupRequestHeaderSize_def)
qed

text \<open>A complete header.\<close>

definition setup_header :: "byte_order \<Rightarrow> u8 \<Rightarrow> u8 \<Rightarrow> u16 \<Rightarrow> u16 \<Rightarrow> u16 \<Rightarrow> u16 \<Rightarrow> u8 \<Rightarrow> u8 \<Rightarrow> u8 list" where
  "setup_header order marker unused1 major minor name data unused2 unused3 =
     [marker, unused1] @ x11_write_u16 order major @ x11_write_u16 order minor @ x11_write_u16 order name @ x11_write_u16 order data @ [unused2, unused3]"

lemma setup_header_decode:
  fixes p name data
  assumes "sp_bytes p = setup_header (sr_byte_order (sp_request p)) marker u1 major minor name data u2 u3"
  shows "\<exists>padded. unat padded = round4 (unat name) \<and> inspect_setup_header p =
    (let q = p\<lparr>sp_request := (sp_request p)\<lparr>sr_major := major, sr_minor := minor\<rparr>, sp_name_size := ucast name, sp_data_size := ucast data, sp_name_padded_size := padded\<rparr>
     in if setup_size name data > unat (sp_maximum p) then (PS_MessageTooLarge, q) else (PS_NeedMore, q\<lparr>sp_expected := setup_size name data\<rparr>))"
proof -
  obtain padded_name where n: "checked_align_up (ucast name) 4 = Some padded_name" "unat padded_name = round4 (unat name)" using align_up_u16 by blast
  obtain padded_data where d: "checked_align_up (ucast data) 4 = Some padded_data" using align_up_u16 by blast
  obtain r where r: "checked_add (of_nat kSetupRequestHeaderSize) padded_name \<bind> (\<lambda>after_name. checked_add after_name padded_data) = Some r"
    "unat r = setup_size name data" using setup_total [OF n(1) d] by blast
  have "read_setup_header p = (Some (name, data), p\<lparr>sp_request := (sp_request p)\<lparr>sr_major := major, sr_minor := minor\<rparr>\<rparr>)"
    by (simp add: read_setup_header_def assms setup_header_def skip_bytes_def Let_def x16.read_write)
  then show ?thesis using n(2) r(2)
    by (intro exI [of _ padded_name]) (simp add: inspect_setup_header_def n(1) d r(1) Let_def word_less_nat_alt)
qed

lemma full_header:
  assumes "length b = 12"
  shows "\<exists>marker u1 major minor name data u2 u3. b = setup_header order marker u1 major minor name data u2 u3"
proof -
  obtain marker u1 b1 where b1: "b = marker # u1 # b1" "length b1 = 10" using long_two [of b] assms by auto
  obtain major b2 where b2: "b1 = x11_write_u16 order major @ b2" using x16.read_long [of b1 order] b1 by (auto simp: x16.read_iff)
  then have l2: "length b2 = 8" using b1 by (simp add: x16.write_length)
  obtain minor b3 where b3: "b2 = x11_write_u16 order minor @ b3" using x16.read_long [of b2 order] l2 by (auto simp: x16.read_iff)
  then have l3: "length b3 = 6" using l2 by (simp add: x16.write_length)
  obtain name b4 where b4: "b3 = x11_write_u16 order name @ b4" using x16.read_long [of b3 order] l3 by (auto simp: x16.read_iff)
  then have l4: "length b4 = 4" using l3 by (simp add: x16.write_length)
  obtain data b5 where b5: "b4 = x11_write_u16 order data @ b5" using x16.read_long [of b4 order] l4 by (auto simp: x16.read_iff)
  then have "length b5 = 2" using l4 by (simp add: x16.write_length)
  then obtain u2 u3 where "b5 = [u2, u3]" using long_two [of b5] by auto
  then show ?thesis using b1 b2 b3 b4 b5 unfolding setup_header_def by auto
qed

lemma settle_setup_ready:
  assumes "length (sp_bytes p) = sp_expected p" "12 \<le> sp_expected p"
    "byte_order_from_marker (hd (sp_bytes p)) = Some (sr_byte_order (sp_request p))"
  shows "setup_ready (settle_setup p)"
proof (cases "sp_expected p = 12")
  case True
  then obtain marker u1 major minor name data u2 u3 where header:
    "sp_bytes p = setup_header (sr_byte_order (sp_request p)) marker u1 major minor name data u2 u3"
    using full_header [of "sp_bytes p"] assms(1) by metis
  obtain padded where "inspect_setup_header p =
    (let q = p\<lparr>sp_request := (sp_request p)\<lparr>sr_major := major, sr_minor := minor\<rparr>, sp_name_size := ucast name, sp_data_size := ucast data, sp_name_padded_size := padded\<rparr>
     in if setup_size name data > unat (sp_maximum p) then (PS_MessageTooLarge, q) else (PS_NeedMore, q\<lparr>sp_expected := setup_size name data\<rparr>))"
    using setup_header_decode [OF header] by blast
  then show ?thesis using assms True
    by (auto simp: settle_setup_def kSetupRequestHeaderSize_def Let_def setup_ready_def setup_size_def)
next
  case False
  then show ?thesis using assms by (simp add: settle_setup_def kSetupRequestHeaderSize_def Let_def setup_ready_def)
qed

lemma settle_next_ready:
  assumes "setup_ready p" "sp_status p = PS_NeedMore" "length (sp_bytes p) + length a = setup_wanted p"
  shows "setup_ready (settle_next (push_setup a p))"
proof (cases "sp_bytes p = []")
  case True
  then obtain byte where "a = [byte]" using assms(3) by (auto simp: setup_wanted_def length_Suc_conv)
  then show ?thesis using True assms by (auto simp: settle_next_def first_byte_def setup_ready_def split: option.splits)
next
  case False
  then have "settle_next (push_setup a p) = settle_setup (push_setup a p)"
    using assms by (auto simp: settle_next_def setup_wanted_def setup_ready_def)
  moreover have "setup_ready (settle_setup (push_setup a p))"
    by (rule settle_setup_ready) (use False assms in \<open>simp_all add: setup_wanted_def setup_ready_def\<close>)
  ultimately show ?thesis by simp
qed

lemma setup_loop_some:
  assumes "setup_ready p" "sp_bytes p \<noteq> []"
  shows "setup_loop input n p = (if input = [] \<or> sp_status p \<noteq> PS_NeedMore then Some (p, n)
     else let k = min (setup_wanted p - length (sp_bytes p)) (length input)
          in setup_loop (drop k input) (n + k) (settle_next (push_setup (take k input) p)))"
proof (cases "input = [] \<or> sp_status p \<noteq> PS_NeedMore")
  case False
  let ?k = "min (sp_expected p - length (sp_bytes p)) (length input)"
  have "0 < length (sp_bytes p)" "0 < ?k" using False assms by (auto simp: setup_ready_def)
  moreover have "length (sp_bytes (push_setup (take ?k input) p)) = length (sp_bytes p) + ?k" by simp
  ultimately have "length (sp_bytes (push_setup (take ?k input) p)) \<noteq> 1" by linarith
  then have "settle_next (push_setup (take ?k input) p) = settle_setup (push_setup (take ?k input) p)" by (simp add: settle_next_def)
  then show ?thesis using False assms(2) by (subst setup_loop.simps) (simp add: setup_wanted_def Let_def)
qed (subst setup_loop.simps, simp)

lemma setup_loop_none:
  assumes "setup_ready p" "sp_bytes p = []" "sp_status p = PS_NeedMore" "input \<noteq> []"
  shows "setup_loop input n p = setup_loop (drop 1 input) (n + 1) (settle_next (push_setup (take 1 input) p))"
proof -
  obtain byte rest where input: "input = byte # rest" using assms(4) by (cases input) auto
  let ?q = "first_byte (push_setup [byte] p)"
  have q: "settle_next (push_setup [byte] p) = ?q" using assms(2) by (simp add: settle_next_def)
  have ready: "setup_ready ?q" using settle_next_ready [of p "[byte]"] assms by (simp add: q setup_wanted_def)
  have bytes: "sp_bytes ?q = [byte]" using assms(2) by (simp add: first_byte_def split: option.split)
  have long: "settle_next (push_setup (take k rest) ?q) = settle_setup (push_setup (take k rest) ?q)" if "0 < k" "rest \<noteq> []" for k
  proof -
    have "length (sp_bytes (push_setup (take k rest) ?q)) \<noteq> 1" using that bytes by simp
    then show ?thesis by (simp add: settle_next_def)
  qed
  show ?thesis
  proof (cases "rest = [] \<or> sp_status ?q \<noteq> PS_NeedMore")
    case True
    then have "setup_loop rest (n + 1) ?q = Some (?q, n + 1)" by (subst setup_loop.simps) simp
    moreover have "setup_loop input n p = Some (?q, n + 1)"
    proof (cases "sp_status ?q = PS_NeedMore")
      case still: True
      then have "settle_setup (push_setup [] ?q) = ?q" using ready by (simp add: push_setup_def settle_setup_short setup_ready_def)
      then show ?thesis using True still assms calculation by (subst setup_loop.simps) (simp add: input Let_def)
    next
      case False
      then show ?thesis using assms by (subst setup_loop.simps) (simp add: input)
    qed
    ultimately show ?thesis by (simp add: input q)
  next
    case False
    let ?k = "min (sp_expected ?q - 1) (length rest)"
    have "0 < ?k" using False ready by (auto simp: setup_ready_def)
    then have "setup_loop rest (n + 1) ?q = setup_loop (drop ?k rest) (n + 1 + ?k) (settle_setup (push_setup (take ?k rest) ?q))"
      using False bytes long [of ?k] by (subst setup_loop_some [OF ready]) (simp_all add: setup_wanted_def Let_def)
    moreover have "setup_loop input n p = setup_loop (drop ?k rest) (n + 1 + ?k) (settle_setup (push_setup (take ?k rest) ?q))"
      using False assms bytes by (subst setup_loop.simps) (simp add: input Let_def)
    ultimately show ?thesis by (simp add: input q)
  qed
qed

lemma setup_loop_step:
  assumes "setup_ready p"
  shows "setup_loop input n p = (if input = [] \<or> \<not> sp_status p = PS_NeedMore then Some (p, n)
     else let k = min (setup_wanted p - length (sp_bytes p)) (length input)
          in setup_loop (drop k input) (n + k) (settle_next (push_setup (take k input) p)))"
proof (cases "sp_bytes p = [] \<and> sp_status p = PS_NeedMore \<and> input \<noteq> []")
  case True
  then have "min (setup_wanted p - length (sp_bytes p)) (length input) = 1" by (cases input) (simp_all add: setup_wanted_def)
  then show ?thesis using True setup_loop_none [OF assms] by (simp add: Let_def)
next
  case False
  then show ?thesis
  proof (cases "sp_bytes p = []")
    case True
    then show ?thesis using False by (subst setup_loop.simps) auto
  next
    case False
    then show ?thesis using setup_loop_some [OF assms] by simp
  qed
qed

interpretation setup_reader: incremental "\<lambda>p. sp_status p = PS_NeedMore" "\<lambda>p. length (sp_bytes p)" setup_wanted push_setup
    settle_next setup_ready setup_loop
proof
  show "push_setup b (push_setup a p) = push_setup (a @ b) p" for a b p by (simp add: push_setup_def)
  show "push_setup [] p = p" for p by (simp add: push_setup_def)
  show "setup_wanted (push_setup a p) = setup_wanted p" if "length (sp_bytes p) + length a < setup_wanted p" for a p
    using that by (auto simp: setup_wanted_def split: if_splits)
  show "setup_ready (push_setup a p)" if "setup_ready p" "length (sp_bytes p) + length a < setup_wanted p" for a p
    using that by (auto simp: setup_wanted_def setup_ready_def split: if_splits)
  show "length (sp_bytes p) < setup_wanted p" if "setup_ready p" "sp_status p = PS_NeedMore" for p
    using that by (simp add: setup_wanted_def setup_ready_def)
qed (simp_all add: settle_next_short settle_next_ready setup_loop_step)

section \<open>A request that arrives\<close>

definition order_marker :: "byte_order \<Rightarrow> u8" where
  "order_marker order = (if order = LittleEndian then 0x6c else 0x42)"

definition padded :: "u8 list \<Rightarrow> u8 list" where
  "padded b = b @ write_padding (round4 (length b) - length b)"

text \<open>The request as the protocol asks a client to send it.\<close>

definition setup_octets :: "setup_request \<Rightarrow> u8 list" where
  "setup_octets r =
     setup_header (sr_byte_order r) (order_marker (sr_byte_order r)) 0 (sr_major r) (sr_minor r)
       (of_nat (length (sr_authorization_name r))) (of_nat (length (sr_authorization_data r))) 0 0
     @ padded (sr_authorization_name r) @ padded (sr_authorization_data r)"

definition short_setup :: "setup_request \<Rightarrow> bool" where
  "short_setup r \<longleftrightarrow> length (sr_authorization_name r) < 65536 \<and> length (sr_authorization_data r) < 65536"

lemma order_marker_back: "byte_order_from_marker (order_marker order) = Some order"
  by (cases order) (simp_all add: byte_order_from_marker_def order_marker_def)

lemma padded_length: "length (padded b) = round4 (length b)"
  using round4_bounds(1) [of "length b"] by (simp add: padded_def write_padding_def)

lemma take_padded: "take (length b) (padded b) = b" "take (length b) (padded b @ rest) = b"
  by (simp_all add: padded_def)

lemma setup_octets_length:
  "length (setup_octets r) = 12 + round4 (length (sr_authorization_name r)) + round4 (length (sr_authorization_data r))"
  by (simp add: setup_octets_def setup_header_def padded_length x16.write_length)

lemma sizes_back:
  assumes "n < 65536"
  shows "unat (of_nat n :: u16) = n" "unat (ucast (of_nat n :: u16) :: u64) = n"
proof -
  show n: "unat (of_nat n :: u16) = n" using assms by (simp add: unat_of_nat)
  have "uint (ucast (of_nat n :: u16) :: u64) = uint (of_nat n :: u16)" by (rule uint_up_ucast) (simp add: is_up)
  then show "unat (ucast (of_nat n :: u16) :: u64) = n" using n by (metis nat_uint_eq)
qed

lemma consume_setup_octets:
  assumes "short_setup r" "12 \<le> unat maximum"
  shows "\<exists>p. consume_setup (setup_octets r @ rest) (new_setup_parser maximum) =
      Some (if length (setup_octets r) > unat maximum then (PS_MessageTooLarge, 12) else (PS_Complete, length (setup_octets r)), p) \<and>
    (length (setup_octets r) \<le> unat maximum \<longrightarrow> sp_request p = r)"
proof -
  obtain order major minor name data where r: "r = \<lparr>sr_byte_order = order, sr_major = major, sr_minor = minor, sr_authorization_name = name, sr_authorization_data = data\<rparr>"
    by (cases r)
  have lens: "length name < 65536" "length data < 65536" using assms(1) by (simp_all add: short_setup_def r)
  define header where "header = setup_header order (order_marker order) 0 major minor (of_nat (length name)) (of_nat (length data)) 0 0"
  define head where "head = tl header"
  define body where "body = padded name @ padded data"
  have header: "header = order_marker order # head" "length head = 11" by (simp_all add: head_def header_def setup_header_def x16.write_length)
  have octets: "setup_octets r = order_marker order # head @ body" using header by (simp add: r setup_octets_def body_def flip: header_def)
  have body_length: "length body = round4 (length name) + round4 (length data)" by (simp add: body_def padded_length)
  have size: "setup_size (of_nat (length name)) (of_nat (length data)) = 12 + length body" using lens by (simp add: setup_size_def sizes_back body_length)
  let ?p0 = "new_setup_parser maximum"
  define p1 where "p1 = settle_next (push_setup [order_marker order] ?p0)"
  have p1: "sp_bytes p1 = [order_marker order]" "sp_status p1 = PS_NeedMore" "sp_expected p1 = 12" "sp_maximum p1 = maximum"
    "sp_request p1 = no_setup\<lparr>sr_byte_order := order\<rparr>" "setup_ready p1"
    using assms(2) order_marker_back [of order]
    by (simp_all add: p1_def settle_next_def first_byte_def new_setup_parser_def push_setup_def kSetupRequestHeaderSize_def setup_ready_def)
  let ?p2 = "push_setup head p1"
  have "sp_bytes ?p2 = setup_header (sr_byte_order (sp_request ?p2)) (order_marker order) 0 major minor (of_nat (length name)) (of_nat (length data)) 0 0"
    using p1 header by (simp add: header_def [symmetric])
  from setup_header_decode [OF this, unfolded size sizes_back(1) [OF lens(1)]]
  obtain pad where pad: "unat pad = round4 (length name)" and decode: "inspect_setup_header ?p2 =
    (let q = ?p2\<lparr>sp_request := (sp_request ?p2)\<lparr>sr_major := major, sr_minor := minor\<rparr>, sp_name_size := ucast (of_nat (length name) :: u16),
        sp_data_size := ucast (of_nat (length data) :: u16), sp_name_padded_size := pad\<rparr>
     in if 12 + length body > unat (sp_maximum ?p2) then (PS_MessageTooLarge, q) else (PS_NeedMore, q\<lparr>sp_expected := 12 + length body\<rparr>))"
    by blast
  define q where "q = ?p2\<lparr>sp_request := \<lparr>sr_byte_order = order, sr_major = major, sr_minor = minor, sr_authorization_name = [], sr_authorization_data = []\<rparr>,
      sp_name_size := ucast (of_nat (length name) :: u16), sp_data_size := ucast (of_nat (length data) :: u16), sp_name_padded_size := pad\<rparr>"
  have q: "sp_bytes q = header" "sp_status q = PS_NeedMore" "sp_expected q = 12" using p1 header by (simp_all add: q_def)
  have decoded: "inspect_setup_header ?p2 = (if 12 + length body > unat maximum then (PS_MessageTooLarge, q) else (PS_NeedMore, q\<lparr>sp_expected := 12 + length body\<rparr>))"
    using decode p1 by (simp add: q_def Let_def no_setup_def)
  have drops: "drop 12 (header @ body) = padded name @ padded data" "drop (12 + round4 (length name)) (header @ body) = padded data"
  proof -
    show twelve: "drop 12 (header @ body) = padded name @ padded data" using header by (simp add: body_def)
    have "drop (12 + round4 (length name)) (header @ body) = drop (round4 (length name)) (drop 12 (header @ body))"
      by (simp only: drop_drop add.commute)
    then show "drop (12 + round4 (length name)) (header @ body) = padded data" unfolding twelve by (simp add: padded_length)
  qed
  have finished: "sp_request (finish_setup (q\<lparr>sp_expected := n, sp_bytes := header @ body\<rparr>)) = r" for n
    using drops pad by (simp add: finish_setup_def q_def kSetupRequestHeaderSize_def sizes_back lens r take_padded padded_length round4_bounds(1) Let_def del: drop_append)
  have one: "length [order_marker order] = 1" by simp
  have first: "setup_loop (order_marker order # head @ body @ rest) 0 ?p0 =
      (case setup_loop (head @ body @ rest) 0 p1 of None \<Rightarrow> None | Some (p, m) \<Rightarrow> Some (p, 1 + m))"
    using setup_reader.loop_exact [OF new_setup_ready, of maximum "[order_marker order]" "head @ body @ rest", unfolded one] assms(2) p1(2)
    by (simp add: p1_def [symmetric] Let_def) (simp add: new_setup_parser_def setup_wanted_def kSetupRequestHeaderSize_def)
  have waiting: "q\<lparr>sp_expected := n, sp_status := PS_NeedMore\<rparr> = q\<lparr>sp_expected := n\<rparr>" for n
    using q(2) by (metis setup_parser.surjective setup_parser.select_convs(6) setup_parser.update_convs(2,6))
  have settled: "settle_next ?p2 = settle_setup ?p2" "settle_setup ?p2 = (if 12 + length body > unat maximum then q\<lparr>sp_status := PS_MessageTooLarge\<rparr>
      else if body = [] then (finish_setup (q\<lparr>sp_expected := 12\<rparr>))\<lparr>sp_status := PS_Complete\<rparr> else q\<lparr>sp_expected := 12 + length body\<rparr>)"
    using p1 header q decoded by (auto simp: waiting settle_next_def settle_setup_def kSetupRequestHeaderSize_def Let_def)
  have "head \<noteq> []" using header(2) by auto
  then have second: "setup_loop (head @ more) 0 p1 = (if sp_status (settle_setup ?p2) = PS_NeedMore
      then (case setup_loop more 0 (settle_setup ?p2) of None \<Rightarrow> None | Some (p, m) \<Rightarrow> Some (p, 11 + m)) else Some (settle_setup ?p2, 11))" for more
    using setup_reader.loop_exact [OF p1(6,2), of head more, unfolded settled(1) header(2)] header p1 by (auto simp: Let_def setup_wanted_def)
  have whole: "setup_octets r @ rest = order_marker order # head @ body @ rest" "length (setup_octets r) = 12 + length body"
    using octets header by simp_all
  have start: "sp_status ?p0 = PS_NeedMore" using assms(2) by (simp add: new_setup_parser_def kSetupRequestHeaderSize_def)
  have decided: "consume_setup (setup_octets r @ rest) ?p0 = Some ((sp_status p, 1 + m), p)" if "setup_loop (head @ body @ rest) 0 p1 = Some (p, m)" for p m
    using that by (simp add: whole consume_setup_def start first)
  consider "12 + length body > unat maximum" | "\<not> 12 + length body > unat maximum" "body = []" | "\<not> 12 + length body > unat maximum" "body \<noteq> []" by blast
  then show ?thesis
  proof cases
    case 1
    then have refused: "settle_setup ?p2 = q\<lparr>sp_status := PS_MessageTooLarge\<rparr>" using settled(2) by simp
    then have "setup_loop (head @ body @ rest) 0 p1 = Some (q\<lparr>sp_status := PS_MessageTooLarge\<rparr>, 11)" using second by simp
    from decided [OF this] show ?thesis using 1 by (simp add: whole(2))
  next
    case 2
    have "q\<lparr>sp_expected := 12\<rparr> = q\<lparr>sp_expected := 12, sp_bytes := header @ body\<rparr>" using 2 q(1) by simp
    then have answer: "sp_request (finish_setup (q\<lparr>sp_expected := 12\<rparr>)) = r" by (metis finished)
    have complete: "settle_setup ?p2 = (finish_setup (q\<lparr>sp_expected := 12\<rparr>))\<lparr>sp_status := PS_Complete\<rparr>" using 2 settled(2) by simp
    then have "setup_loop (head @ body @ rest) 0 p1 = Some ((finish_setup (q\<lparr>sp_expected := 12\<rparr>))\<lparr>sp_status := PS_Complete\<rparr>, 11)" using second by simp
    from decided [OF this] show ?thesis using 2 answer by (simp add: whole(2))
  next
    case 3
    let ?p3 = "q\<lparr>sp_expected := 12 + length body\<rparr>"
    have p3: "settle_setup ?p2 = ?p3" using 3 settled(2) by simp
    have ready: "setup_ready ?p3" using setup_reader.ready_settle [OF p1(6,2), of head] settled(1) p3 header p1 by (simp add: setup_wanted_def)
    have complete: "settle_next (push_setup body ?p3) = (finish_setup (q\<lparr>sp_expected := 12 + length body, sp_bytes := header @ body\<rparr>))\<lparr>sp_status := PS_Complete\<rparr>"
      using q header 3 by (simp add: settle_next_def settle_setup_def push_setup_def kSetupRequestHeaderSize_def Let_def)
    have "setup_loop (body @ rest) 0 ?p3 = Some (settle_next (push_setup body ?p3), length body)"
      using setup_reader.loop_exact [OF ready, of body rest] 3 q header complete by (simp add: setup_wanted_def Let_def)
    then have "setup_loop (head @ body @ rest) 0 p1 = Some (settle_next (push_setup body ?p3), 11 + length body)" using second p3 q(2) by simp
    from decided [OF this] show ?thesis using 3 finished complete by (simp add: whole(2))
  qed
qed

end
