(* ===== verification/X11_Events.thy ===== *)
theory X11_Events
  imports X11_Wire
begin

text \<open>
  Replies and errors (\<open>protocol/x11/reply.cpp\<close>); what the server sends, read back with the layout the core protocol
  gives events and errors. Replies have the length they announce.
\<close>

section \<open>Replies and errors\<close>

text \<open>A length error that is thrown is \<open>None\<close>.\<close>

record reply_builder =
  rb_order :: byte_order
  rb_sequence :: u64
  rb_response_data :: u8
  rb_fixed :: "u8 list"
  rb_payload :: "u8 list"

definition new_reply :: "byte_order \<Rightarrow> u64 \<Rightarrow> u8 \<Rightarrow> reply_builder" where
  "new_reply order sequence response_data =
     \<lparr>rb_order = order, rb_sequence = sequence, rb_response_data = response_data, rb_fixed = [], rb_payload = []\<rparr>"

definition fixed_capacity :: "nat \<Rightarrow> reply_builder \<Rightarrow> bool" where
  "fixed_capacity octets b \<longleftrightarrow> \<not> (octets > 24 \<or> length (rb_fixed b) > 24 - octets)"

definition write_fixed :: "nat \<Rightarrow> u8 list \<Rightarrow> reply_builder \<Rightarrow> reply_builder option" where
  "write_fixed octets bytes b = (if fixed_capacity octets b then Some (b\<lparr>rb_fixed := rb_fixed b @ bytes\<rparr>) else None)"

definition reply_write_u8 :: "u8 \<Rightarrow> reply_builder \<Rightarrow> reply_builder option" where
  "reply_write_u8 v b = write_fixed 1 (write_u8 v) b"

definition reply_write_u16 :: "u16 \<Rightarrow> reply_builder \<Rightarrow> reply_builder option" where
  "reply_write_u16 v b = write_fixed 2 (x11_write_u16 (rb_order b) v) b"

definition reply_write_u32 :: "u32 \<Rightarrow> reply_builder \<Rightarrow> reply_builder option" where
  "reply_write_u32 v b = write_fixed 4 (x11_write_u32 (rb_order b) v) b"

definition reply_write_padding :: "nat \<Rightarrow> reply_builder \<Rightarrow> reply_builder option" where
  "reply_write_padding octets b = write_fixed octets (write_padding octets) b"

definition write_payload :: "u8 list \<Rightarrow> reply_builder \<Rightarrow> reply_builder" where
  "write_payload bytes b = b\<lparr>rb_payload := rb_payload b @ bytes\<rparr>"

definition write_payload_u16 :: "u16 \<Rightarrow> reply_builder \<Rightarrow> reply_builder" where
  "write_payload_u16 v b = b\<lparr>rb_payload := rb_payload b @ x11_write_u16 (rb_order b) v\<rparr>"

definition write_payload_u32 :: "u32 \<Rightarrow> reply_builder \<Rightarrow> reply_builder" where
  "write_payload_u32 v b = b\<lparr>rb_payload := rb_payload b @ x11_write_u32 (rb_order b) v\<rparr>"

definition padding_for :: "nat \<Rightarrow> nat" where
  "padding_for octets = (4 - octets mod 4) mod 4"

definition finish_reply :: "reply_builder \<Rightarrow> u8 list option" where
  "finish_reply b =
     (let fixed = rb_fixed b @ write_padding (24 - length (rb_fixed b));
          payload = rb_payload b @ write_padding (padding_for (length (rb_payload b)));
          units = length payload div 4
      in if units > 0xffffffff then None
         else Some (write_u8 1 @ write_u8 (rb_response_data b) @ x11_write_u16 (rb_order b) (wire_sequence (rb_sequence b)) @
                x11_write_u32 (rb_order b) (word_of_nat units) @ fixed @ payload))"

record core_error =
  ce_code :: core_error_code
  ce_sequence :: u64
  ce_bad_value :: u32
  ce_major_opcode :: u8
  ce_minor_opcode :: u16

definition encode_core_error :: "byte_order \<Rightarrow> core_error \<Rightarrow> u8 list" where
  "encode_core_error order e =
     write_u8 0 @ write_u8 (error_code (ce_code e)) @ x11_write_u16 order (wire_sequence (ce_sequence e)) @
     x11_write_u32 order (ce_bad_value e) @ x11_write_u16 order (ce_minor_opcode e) @ write_u8 (ce_major_opcode e) @ write_padding 21"

section \<open>Replies\<close>

text \<open>What the handlers of the requests do with a builder.\<close>

inductive reply_reachable :: "reply_builder \<Rightarrow> bool" where
  start: "reply_reachable (new_reply order sequence response_data)"
| u8: "reply_reachable b \<Longrightarrow> reply_write_u8 v8 b = Some b' \<Longrightarrow> reply_reachable b'"
| u16: "reply_reachable b \<Longrightarrow> reply_write_u16 v16 b = Some b' \<Longrightarrow> reply_reachable b'"
| u32: "reply_reachable b \<Longrightarrow> reply_write_u32 v32 b = Some b' \<Longrightarrow> reply_reachable b'"
| padding: "reply_reachable b \<Longrightarrow> reply_write_padding octets b = Some b' \<Longrightarrow> reply_reachable b'"
| payload: "reply_reachable b \<Longrightarrow> reply_reachable (write_payload bytes b)"
| payload_u16: "reply_reachable b \<Longrightarrow> reply_reachable (write_payload_u16 v16 b)"
| payload_u32: "reply_reachable b \<Longrightarrow> reply_reachable (write_payload_u32 v32 b)"

lemma reply_fixed_bound: "reply_reachable b \<Longrightarrow> length (rb_fixed b) \<le> 24"
  by (induction rule: reply_reachable.induct)
    (auto simp: new_reply_def reply_write_u8_def reply_write_u16_def reply_write_u32_def reply_write_padding_def write_fixed_def fixed_capacity_def
      write_payload_def write_payload_u16_def write_payload_u32_def x11_lengths write_u8_def write_padding_def split: if_splits)

lemma padding_whole: "(n + padding_for n) mod 4 = 0" "padding_for n < 4"
proof -
  have "(n + padding_for n) mod 4 = (n mod 4 + padding_for n) mod 4" by (simp add: mod_add_left_eq)
  moreover have "n mod 4 < 4" by simp
  then consider "n mod 4 = 0" | "n mod 4 = 1" | "n mod 4 = 2" | "n mod 4 = 3" by linarith
  then have "(n mod 4 + padding_for n) mod 4 = 0" by cases (simp_all add: padding_for_def)
  ultimately show "(n + padding_for n) mod 4 = 0" by simp
  show "padding_for n < 4" by (simp add: padding_for_def)
qed

lemma finish_reply_layout:
  assumes "reply_reachable b" "finish_reply b = Some r"
  shows "\<exists>fixed payload units. r = [1, rb_response_data b] @ x11_write_u16 (rb_order b) (wire_sequence (rb_sequence b)) @
      x11_write_u32 (rb_order b) units @ fixed @ payload \<and> length fixed = 24 \<and> length payload = 4 * unat units \<and>
      take (length (rb_fixed b)) fixed = rb_fixed b \<and> take (length (rb_payload b)) payload = rb_payload b"
proof -
  let ?n = "length (rb_payload b) + padding_for (length (rb_payload b))"
  have n: "?n div 4 * 4 = ?n" using padding_whole(1) [of "length (rb_payload b)"] by presburger
  have r: "?n div 4 \<le> 0xffffffff" "r = [1, rb_response_data b] @ x11_write_u16 (rb_order b) (wire_sequence (rb_sequence b)) @
      x11_write_u32 (rb_order b) (word_of_nat (?n div 4)) @ (rb_fixed b @ write_padding (24 - length (rb_fixed b))) @
      (rb_payload b @ write_padding (padding_for (length (rb_payload b))))"
    using assms(2) by (auto simp: finish_reply_def Let_def write_u8_def write_padding_def split: if_splits)
  have "unat (word_of_nat (?n div 4) :: u32) = ?n div 4" using r(1) by (simp add: unsigned_of_nat take_bit_nat_eq_self)
  then have "length (rb_payload b @ write_padding (padding_for (length (rb_payload b)))) = 4 * unat (word_of_nat (?n div 4) :: u32)"
    using n by (simp add: write_padding_def)
  moreover have "length (rb_fixed b @ write_padding (24 - length (rb_fixed b))) = 24"
    using reply_fixed_bound [OF assms(1)] by (simp add: write_padding_def)
  ultimately show ?thesis using r(2) by (intro exI conjI) (assumption | simp)+
qed

section \<open>The protocol's layout of events\<close>

text \<open>
  What a client reads: the fields of an event at the offsets the core protocol gives them, written from the protocol and
  not from the encoders. The numbers of details and modes are positions in a list.
\<close>

datatype x_event =
    X_Destroy destroy_notify | X_Unmap unmap_notify | X_Map map_notify | X_Configure configure_notify | X_Property property_notify
  | X_Clear selection_clear | X_Request selection_request | X_Notify selection_notify | X_Client client_message
  | X_Expose expose | X_Graphics graphics_expose | X_None no_expose | X_Input input_event | X_Crossing crossing_event | X_Focus focus_event

definition card8 :: "nat \<Rightarrow> u8 list \<Rightarrow> u8" where
  "card8 offset w = (case drop offset w of [] \<Rightarrow> 0 | v # _ \<Rightarrow> v)"

definition card16 :: "byte_order \<Rightarrow> nat \<Rightarrow> u8 list \<Rightarrow> u16" where
  "card16 order offset w = (case x11_read_u16 order (drop offset w) of None \<Rightarrow> 0 | Some (v, _) \<Rightarrow> v)"

definition card32 :: "byte_order \<Rightarrow> nat \<Rightarrow> u8 list \<Rightarrow> u32" where
  "card32 order offset w = (case x11_read_u32 order (drop offset w) of None \<Rightarrow> 0 | Some (v, _) \<Rightarrow> v)"

definition flag_at :: "nat \<Rightarrow> u8 list \<Rightarrow> bool" where
  "flag_at offset w \<longleftrightarrow> card8 offset w = 1"

definition sent_synthetic :: "u8 list \<Rightarrow> bool" where
  "sent_synthetic w \<longleftrightarrow> card8 0 w AND 0x80 \<noteq> 0"

definition all_details :: "notify_detail list" where
  "all_details = [Detail_Ancestor, Detail_Virtual, Detail_Inferior, Detail_Nonlinear, Detail_NonlinearVirtual, Detail_Pointer,
     Detail_PointerRoot, Detail_None]"

definition all_modes :: "notify_mode list" where
  "all_modes = [Mode_Normal, Mode_Grab, Mode_Ungrab, Mode_WhileGrabbed]"

definition read_input :: "byte_order \<Rightarrow> core_event_type \<Rightarrow> u8 list \<Rightarrow> x_event" where
  "read_input order type w = X_Input \<lparr>ie_type = type, ie_detail = card8 1 w, ie_time = card32 order 4 w, ie_root = card32 order 8 w,
     ie_event = card32 order 12 w, ie_child = card32 order 16 w, ie_root_x = card16 order 20 w, ie_root_y = card16 order 22 w,
     ie_event_x = card16 order 24 w, ie_event_y = card16 order 26 w, ie_state = card16 order 28 w, ie_same_screen = flag_at 30 w\<rparr>"

text \<open>In the last byte of a crossing event bit 0 tells the focus and bit 1 the same screen.\<close>

definition read_crossing :: "byte_order \<Rightarrow> core_event_type \<Rightarrow> u8 list \<Rightarrow> x_event" where
  "read_crossing order type w = X_Crossing \<lparr>xe_type = type, xe_detail = all_details ! unat (card8 1 w), xe_time = card32 order 4 w,
     xe_root = card32 order 8 w, xe_event = card32 order 12 w, xe_child = card32 order 16 w, xe_root_x = card16 order 20 w,
     xe_root_y = card16 order 22 w, xe_event_x = card16 order 24 w, xe_event_y = card16 order 26 w, xe_state = card16 order 28 w,
     xe_mode = all_modes ! unat (card8 30 w), xe_same_screen = bit (card8 31 w) 1, xe_focus = bit (card8 31 w) 0\<rparr>"

definition read_focus :: "byte_order \<Rightarrow> core_event_type \<Rightarrow> u8 list \<Rightarrow> x_event" where
  "read_focus order type w = X_Focus \<lparr>fe_type = type, fe_detail = all_details ! unat (card8 1 w), fe_event = card32 order 4 w,
     fe_mode = all_modes ! unat (card8 8 w)\<rparr>"

definition read_destroy :: "byte_order \<Rightarrow> u8 list \<Rightarrow> x_event" where
  "read_destroy order w = X_Destroy \<lparr>dn_event = card32 order 4 w, dn_window = card32 order 8 w\<rparr>"

definition read_unmap :: "byte_order \<Rightarrow> u8 list \<Rightarrow> x_event" where
  "read_unmap order w = X_Unmap \<lparr>un_event = card32 order 4 w, un_window = card32 order 8 w, un_from_configure = flag_at 12 w,
     un_synthetic = sent_synthetic w\<rparr>"

definition read_map :: "byte_order \<Rightarrow> u8 list \<Rightarrow> x_event" where
  "read_map order w = X_Map \<lparr>mn_event = card32 order 4 w, mn_window = card32 order 8 w, mn_override_redirect = flag_at 12 w\<rparr>"

definition read_configure :: "byte_order \<Rightarrow> u8 list \<Rightarrow> x_event" where
  "read_configure order w = X_Configure \<lparr>cn_event = card32 order 4 w, cn_window = card32 order 8 w, cn_above_sibling = card32 order 12 w,
     cn_x = card16 order 16 w, cn_y = card16 order 18 w, cn_width = card16 order 20 w, cn_height = card16 order 22 w,
     cn_border_width = card16 order 24 w, cn_override_redirect = flag_at 26 w\<rparr>"

definition read_property :: "byte_order \<Rightarrow> u8 list \<Rightarrow> x_event" where
  "read_property order w = X_Property \<lparr>pn_window = card32 order 4 w, pn_atom = card32 order 8 w, pn_time = card32 order 12 w,
     pn_state = (if card8 16 w = 0 then Property_NewValue else Property_Deleted)\<rparr>"

definition read_clear :: "byte_order \<Rightarrow> u8 list \<Rightarrow> x_event" where
  "read_clear order w = X_Clear \<lparr>sc_time = card32 order 4 w, sc_owner = card32 order 8 w, sc_selection = card32 order 12 w\<rparr>"

definition read_selection_request :: "byte_order \<Rightarrow> u8 list \<Rightarrow> x_event" where
  "read_selection_request order w = X_Request \<lparr>sq_time = card32 order 4 w, sq_owner = card32 order 8 w, sq_requestor = card32 order 12 w,
     sq_selection = card32 order 16 w, sq_target = card32 order 20 w, sq_property = card32 order 24 w\<rparr>"

definition read_selection_notify :: "byte_order \<Rightarrow> u8 list \<Rightarrow> x_event" where
  "read_selection_notify order w = X_Notify \<lparr>sn_time = card32 order 4 w, sn_requestor = card32 order 8 w, sn_selection = card32 order 12 w,
     sn_target = card32 order 16 w, sn_property = card32 order 20 w, sn_synthetic = sent_synthetic w\<rparr>"

definition read_expose :: "byte_order \<Rightarrow> u8 list \<Rightarrow> x_event" where
  "read_expose order w = X_Expose \<lparr>ex_window = card32 order 4 w, ex_x = card16 order 8 w, ex_y = card16 order 10 w,
     ex_width = card16 order 12 w, ex_height = card16 order 14 w, ex_count = card16 order 16 w\<rparr>"

definition read_graphics :: "byte_order \<Rightarrow> u8 list \<Rightarrow> x_event" where
  "read_graphics order w = X_Graphics \<lparr>gx_drawable = card32 order 4 w, gx_x = card16 order 8 w, gx_y = card16 order 10 w,
     gx_width = card16 order 12 w, gx_height = card16 order 14 w, gx_minor_opcode = card16 order 16 w, gx_count = card16 order 18 w,
     gx_major_opcode = card8 20 w\<rparr>"

definition read_no_expose :: "byte_order \<Rightarrow> u8 list \<Rightarrow> x_event" where
  "read_no_expose order w = X_None \<lparr>nx_drawable = card32 order 4 w, nx_minor_opcode = card16 order 8 w, nx_major_opcode = card8 10 w\<rparr>"

definition read_client_message :: "byte_order \<Rightarrow> u8 list \<Rightarrow> x_event" where
  "read_client_message order w = X_Client \<lparr>cm_window = card32 order 4 w, cm_type = card32 order 8 w,
     cm_data = (if card8 1 w = 8 then Client8 (take 20 (drop 12 w))
                else if card8 1 w = 16 then Client16 (map (\<lambda>i. card16 order (12 + 2 * i) w) [0..<10])
                else Client32 (map (\<lambda>i. card32 order (12 + 4 * i) w) [0..<5])),
     cm_synthetic = sent_synthetic w\<rparr>"

text \<open>The readers by the code of the event.\<close>

definition event_readers :: "byte_order \<Rightarrow> (u8 \<times> (u8 list \<Rightarrow> x_event)) list" where
  "event_readers order =
     [(2, read_input order Ev_KeyPress), (3, read_input order Ev_KeyRelease), (4, read_input order Ev_ButtonPress),
      (5, read_input order Ev_ButtonRelease), (6, read_input order Ev_MotionNotify), (7, read_crossing order Ev_EnterNotify),
      (8, read_crossing order Ev_LeaveNotify), (9, read_focus order Ev_FocusIn), (10, read_focus order Ev_FocusOut),
      (12, read_expose order), (13, read_graphics order), (14, read_no_expose order), (17, read_destroy order),
      (18, read_unmap order), (19, read_map order), (22, read_configure order), (28, read_property order), (29, read_clear order),
      (30, read_selection_request order), (31, read_selection_notify order), (33, read_client_message order)]"

definition read_event :: "byte_order \<Rightarrow> u8 list \<Rightarrow> (u16 \<times> x_event) option" where
  "read_event order w =
     (if length w \<noteq> 32 then None
      else map_option (\<lambda>read. (card16 order 2 w, read w)) (map_of (event_readers order) (card8 0 w AND 0x7f)))"

section \<open>Reading what the encoders write\<close>

lemmas event_lengths = x11_lengths finish_event_def event_header_def write_u8_def write_padding_def

lemma card8_simps [simp]:
  "card8 0 (v # w) = v"
  "0 < k \<Longrightarrow> card8 k (v # w) = card8 (k - 1) w"
  "2 \<le> k \<Longrightarrow> card8 k (x11_write_u16 order v16 @ w) = card8 (k - 2) w"
  "4 \<le> k \<Longrightarrow> card8 k (x11_write_u32 order v32 @ w) = card8 (k - 4) w"
  by (simp_all add: card8_def x11_lengths drop_Cons')

lemma card16_simps [simp]:
  "card16 order 0 (x11_write_u16 order v16 @ w) = v16"
  "0 < k \<Longrightarrow> card16 order k (v # w) = card16 order (k - 1) w"
  "2 \<le> k \<Longrightarrow> card16 order k (x11_write_u16 order v16 @ w) = card16 order (k - 2) w"
  "4 \<le> k \<Longrightarrow> card16 order k (x11_write_u32 order v32 @ w) = card16 order (k - 4) w"
  by (simp_all add: card16_def x11_lengths drop_Cons' x16.read_write)

lemma card32_simps [simp]:
  "card32 order 0 (x11_write_u32 order v32 @ w) = v32"
  "0 < k \<Longrightarrow> card32 order k (v # w) = card32 order (k - 1) w"
  "2 \<le> k \<Longrightarrow> card32 order k (x11_write_u16 order v16 @ w) = card32 order (k - 2) w"
  "4 \<le> k \<Longrightarrow> card32 order k (x11_write_u32 order v32 @ w) = card32 order (k - 4) w"
  by (simp_all add: card32_def x11_lengths drop_Cons' x32.read_write)

lemma flag_byte_back [simp]: "flag_byte b = 1 \<longleftrightarrow> b"
  by (simp add: flag_byte_def)

lemma code_back [simp]: "synthetic_code type b AND 0x7f = event_code type" "synthetic_code type b AND 0x80 = 0 \<longleftrightarrow> \<not> b"
  by (cases type; cases b; simp add: synthetic_code_def)+

lemma detail_back [simp]: "all_details ! unat (detail_code d) = d"
  by (cases d) (simp_all add: all_details_def)

lemma mode_back [simp]: "all_modes ! unat (notify_mode_code m) = m"
  by (cases m) (simp_all add: all_modes_def)

lemma state_back [simp]: "property_state_code p = 0 \<longleftrightarrow> p = Property_NewValue" "p \<noteq> Property_NewValue \<longleftrightarrow> p = Property_Deleted"
  by (cases p; simp)+

lemma event_code_back [simp]: "event_code type AND 0x7f = event_code type"
  by (cases type) simp_all

lemmas field_readers = flag_at_def sent_synthetic_def

lemmas plain_encoders = encode_destroy_notify_def encode_unmap_notify_def encode_map_notify_def encode_configure_notify_def
  encode_property_notify_def encode_selection_clear_def encode_selection_request_def encode_selection_notify_def
  encode_expose_def encode_graphics_expose_def encode_no_expose_def

lemma plain_lengths:
  "length (encode_destroy_notify order s d) = 32" "length (encode_unmap_notify order s u) = 32" "length (encode_map_notify order s m) = 32"
  "length (encode_configure_notify order s c) = 32" "length (encode_property_notify order s p) = 32" "length (encode_selection_clear order s sc) = 32"
  "length (encode_selection_request order s sq) = 32" "length (encode_selection_notify order s sn) = 32" "length (encode_expose order s ex) = 32"
  "length (encode_graphics_expose order s gx) = 32" "length (encode_no_expose order s nx) = 32"
  by (simp_all add: plain_encoders event_lengths)

text \<open>The head of an event.\<close>

lemma plain_heads:
  fixes order s type b w
  defines "w' \<equiv> finish_event (event_header order type s b @ w)"
  shows "card8 0 w' = synthetic_code type b" "card16 order 2 w' = wire_sequence s" "sent_synthetic w' = b"
  by (simp_all add: w'_def sent_synthetic_def finish_event_def event_header_def write_u8_def)

lemma window_events_read:
  "read_destroy order (encode_destroy_notify order s d) = X_Destroy d"
  "read_unmap order (encode_unmap_notify order s u) = X_Unmap u"
  "read_map order (encode_map_notify order s m) = X_Map m"
  "read_configure order (encode_configure_notify order s c) = X_Configure c"
  "read_property order (encode_property_notify order s p) = X_Property p"
  by (simp_all add: plain_encoders read_destroy_def read_unmap_def read_map_def read_configure_def read_property_def field_readers
      finish_event_def event_header_def write_u8_def)

lemma selection_events_read:
  "read_clear order (encode_selection_clear order s sc) = X_Clear sc"
  "read_selection_request order (encode_selection_request order s sq) = X_Request sq"
  "read_selection_notify order (encode_selection_notify order s sn) = X_Notify sn"
  by (simp_all add: plain_encoders read_clear_def read_selection_request_def read_selection_notify_def field_readers
      finish_event_def event_header_def write_u8_def)

lemma exposure_events_read:
  "read_expose order (encode_expose order s ex) = X_Expose ex"
  "read_graphics order (encode_graphics_expose order s gx) = X_Graphics gx"
  "read_no_expose order (encode_no_expose order s nx) = X_None nx"
  by (simp_all add: plain_encoders read_expose_def read_graphics_def read_no_expose_def finish_event_def event_header_def write_u8_def)

text \<open>An event of 32 bytes is read by the reader its code stands for.\<close>

lemma read_event_by_code:
  assumes "length w = 32" "card8 0 w AND 0x7f = event_code type" "card16 order 2 w = wire_sequence s"
    "map_of (event_readers order) (event_code type) = Some read"
  shows "read_event order w = Some (wire_sequence s, read w)"
  using assms by (simp add: read_event_def)

lemma read_plain:
  assumes "w = finish_event (event_header order type s b @ body)" "length w = 32" "map_of (event_readers order) (event_code type) = Some read"
  shows "read_event order w = Some (wire_sequence s, read w)"
  using assms(2,3) by (intro read_event_by_code [of w type]) (simp_all add: assms(1) plain_heads)

lemma input_event_read:
  assumes "encode_input_event order s e = Some w"
  shows "length w = 32" "read_event order w = Some (wire_sequence s, X_Input (if ie_type e = Ev_MotionNotify then e\<lparr>ie_detail := 0\<rparr> else e))"
proof -
  define v where "v = x11_write_u16 order (wire_sequence s) @ x11_write_u32 order (ie_time e) @ x11_write_u32 order (ie_root e) @
      x11_write_u32 order (ie_event e) @ x11_write_u32 order (ie_child e) @ x11_write_u16 order (ie_root_x e) @
      x11_write_u16 order (ie_root_y e) @ x11_write_u16 order (ie_event_x e) @ x11_write_u16 order (ie_event_y e) @
      x11_write_u16 order (ie_state e) @ [flag_byte (ie_same_screen e), 0]"
  have w: "w = event_code (ie_type e) # (if ie_type e = Ev_MotionNotify then 0 else ie_detail e) # v"
    "ie_type e \<in> {Ev_KeyPress, Ev_KeyRelease, Ev_ButtonPress, Ev_ButtonRelease, Ev_MotionNotify}"
    using assms by (simp_all add: encode_input_event_def v_def write_u8_def split: if_splits)
  show long: "length w = 32" by (simp add: w(1) v_def x11_lengths)
  have "read_input order (ie_type e) w = X_Input (e\<lparr>ie_detail := if ie_type e = Ev_MotionNotify then 0 else ie_detail e\<rparr>)"
    by (simp add: read_input_def w(1) v_def field_readers)
  moreover have "map_of (event_readers order) (event_code (ie_type e)) = Some (read_input order (ie_type e))"
    using w(2) by (auto simp: event_readers_def)
  then have "read_event order w = Some (wire_sequence s, read_input order (ie_type e) w)"
    by (intro read_event_by_code [OF long]) (simp_all add: w(1) v_def)
  ultimately show "read_event order w = Some (wire_sequence s, X_Input (if ie_type e = Ev_MotionNotify then e\<lparr>ie_detail := 0\<rparr> else e))"
    by (cases "ie_type e = Ev_MotionNotify") simp_all
qed

text \<open>The encoder has the two flags of a crossing event the other way round.\<close>

lemma crossing_event_read:
  assumes "encode_crossing_event order s e = Some w"
  shows "length w = 32" "read_event order w = Some (wire_sequence s, X_Crossing (e\<lparr>xe_same_screen := xe_focus e, xe_focus := xe_same_screen e\<rparr>))"
proof -
  define v where "v = x11_write_u16 order (wire_sequence s) @ x11_write_u32 order (xe_time e) @ x11_write_u32 order (xe_root e) @
      x11_write_u32 order (xe_event e) @ x11_write_u32 order (xe_child e) @ x11_write_u16 order (xe_root_x e) @
      x11_write_u16 order (xe_root_y e) @ x11_write_u16 order (xe_event_x e) @ x11_write_u16 order (xe_event_y e) @
      x11_write_u16 order (xe_state e) @ [notify_mode_code (xe_mode e), (if xe_same_screen e then 1 else 0) OR (if xe_focus e then 2 else 0)]"
  have w: "w = event_code (xe_type e) # detail_code (xe_detail e) # v" "xe_type e \<in> {Ev_EnterNotify, Ev_LeaveNotify}"
    using assms by (simp_all add: encode_crossing_event_def v_def write_u8_def split: if_splits)
  show long: "length w = 32" by (simp add: w(1) v_def x11_lengths)
  have "bit ((if a then 1 else 0) OR (if b then 2 else 0) :: u8) 0 = a" "bit ((if a then 1 else 0) OR (if b then 2 else 0) :: u8) 1 = b" for a b
    by (cases a; cases b; simp)+
  then have "read_crossing order (xe_type e) w = X_Crossing (e\<lparr>xe_same_screen := xe_focus e, xe_focus := xe_same_screen e\<rparr>)"
    by (simp add: read_crossing_def w(1) v_def)
  moreover have "map_of (event_readers order) (event_code (xe_type e)) = Some (read_crossing order (xe_type e))"
    using w(2) by (auto simp: event_readers_def)
  then have "read_event order w = Some (wire_sequence s, read_crossing order (xe_type e) w)"
    by (intro read_event_by_code [OF long]) (simp_all add: w(1) v_def)
  ultimately show "read_event order w = Some (wire_sequence s, X_Crossing (e\<lparr>xe_same_screen := xe_focus e, xe_focus := xe_same_screen e\<rparr>))"
    by simp
qed

lemma focus_event_read:
  assumes "encode_focus_event order s e = Some w"
  shows "length w = 32" "read_event order w = Some (wire_sequence s, X_Focus e)"
proof -
  define v where "v = x11_write_u16 order (wire_sequence s) @ x11_write_u32 order (fe_event e) @ [notify_mode_code (fe_mode e)] @ write_padding 23"
  have w: "w = event_code (fe_type e) # detail_code (fe_detail e) # v" "fe_type e \<in> {Ev_FocusIn, Ev_FocusOut}"
    using assms by (simp_all add: encode_focus_event_def v_def write_u8_def split: if_splits)
  show long: "length w = 32" by (simp add: w(1) v_def x11_lengths write_padding_def)
  have "read_focus order (fe_type e) w = X_Focus e" by (simp add: read_focus_def w(1) v_def)
  moreover have "map_of (event_readers order) (event_code (fe_type e)) = Some (read_focus order (fe_type e))"
    using w(2) by (auto simp: event_readers_def)
  then have "read_event order w = Some (wire_sequence s, read_focus order (fe_type e) w)"
    by (intro read_event_by_code [OF long]) (simp_all add: w(1) v_def)
  ultimately show "read_event order w = Some (wire_sequence s, X_Focus e)" by simp
qed

section \<open>Client messages\<close>

lemma sized_cases:
  assumes "client_data_sized d"
  obtains (eight) vs where "d = Client8 vs" "length vs = 20"
    | (sixteen) vs where "d = Client16 vs" "length vs = 10"
    | (thirtytwo) vs where "d = Client32 vs" "length vs = 5"
  using assms by (cases d) simp_all

lemma card16_list: "map (\<lambda>i. card16 order (2 * i) (concat (map (x11_write_u16 order) vs) @ w)) [0..<length vs] = vs"
proof (induction vs)
  case (Cons v vs)
  then show ?case by (simp add: upt_conv_Cons map_Suc_upt [symmetric] comp_def del: upt_Suc)
qed simp

lemma card32_list: "map (\<lambda>i. card32 order (4 * i) (concat (map (x11_write_u32 order) vs) @ w)) [0..<length vs] = vs"
proof (induction vs)
  case (Cons v vs)
  then show ?case by (simp add: upt_conv_Cons map_Suc_upt [symmetric] comp_def del: upt_Suc)
qed simp

lemma concat_map_length: "(\<And>v. length (f v) = octets) \<Longrightarrow> length (concat (map f vs)) = octets * length vs"
  by (induction vs) simp_all

lemma client_message_read:
  assumes "client_data_sized (cm_data e)"
  shows "length (encode_client_message order s e) = 32"
    "read_event order (encode_client_message order s e) = Some (wire_sequence s, X_Client e)"
proof -
  let ?w = "encode_client_message order s e"
  define v where "v = write_client_data order (cm_data e)"
  have v: "length v = 20"
    using assms by (cases rule: sized_cases)
      (simp_all add: v_def concat_map_length [where octets = 2] concat_map_length [where octets = 4] concat_map_length [where octets = 1] x11_lengths write_u8_def)
  have w: "?w = synthetic_code Ev_ClientMessage (cm_synthetic e) # client_format (cm_data e) # x11_write_u16 order (wire_sequence s) @
      x11_write_u32 order (cm_window e) @ x11_write_u32 order (cm_type e) @ v"
    by (simp add: encode_client_message_def v_def [symmetric] finish_event_def write_u8_def x11_lengths v write_padding_def)
  show long: "length ?w = 32" by (simp add: w v x11_lengths)
  have d: "(if client_format (cm_data e) = 8 then Client8 (take 20 (drop 12 ?w))
      else if client_format (cm_data e) = 16 then Client16 (map (\<lambda>i. card16 order (12 + 2 * i) ?w) [0..<10])
      else Client32 (map (\<lambda>i. card32 order (12 + 4 * i) ?w) [0..<5])) = cm_data e"
    using assms
  proof (cases rule: sized_cases)
    case (eight vs)
    have "drop 12 ?w = v" by (simp add: w x11_lengths)
    moreover have "concat (map write_u8 vs) = vs" by (induction vs) (simp_all add: write_u8_def)
    ultimately show ?thesis using eight by (simp add: v_def)
  next
    case (sixteen vs)
    have "card16 order (12 + 2 * i) ?w = card16 order (2 * i) v" for i by (simp add: w)
    then show ?thesis using card16_list [of order vs "[]"] sixteen by (simp add: v_def)
  next
    case (thirtytwo vs)
    have "card32 order (12 + 4 * i) ?w = card32 order (4 * i) v" for i by (simp add: w)
    then show ?thesis using card32_list [of order vs "[]"] thirtytwo by (simp add: v_def)
  qed
  have heads: "card32 order 4 ?w = cm_window e" "card32 order 8 ?w = cm_type e" "sent_synthetic ?w = cm_synthetic e" "card8 1 ?w = client_format (cm_data e)"
    by (simp_all add: w sent_synthetic_def)
  have "read_client_message order ?w = X_Client e" unfolding read_client_message_def by (simp only: heads d) simp
  moreover have "read_event order ?w = Some (wire_sequence s, read_client_message order ?w)"
    by (rule read_event_by_code [OF long, of Ev_ClientMessage]) (simp_all add: w event_readers_def)
  ultimately show "read_event order ?w = Some (wire_sequence s, X_Client e)" by simp
qed

section \<open>Errors\<close>

text \<open>An error has 32 bytes; the protocol's layout gives its parts back.\<close>

lemma core_error_read:
  fixes order e
  defines "w \<equiv> encode_core_error order e"
  shows "length w = 32" "card8 0 w = 0" "card8 1 w = error_code (ce_code e)" "card16 order 2 w = wire_sequence (ce_sequence e)"
    "card32 order 4 w = ce_bad_value e" "card16 order 8 w = ce_minor_opcode e" "card8 10 w = ce_major_opcode e"
  by (simp_all add: w_def encode_core_error_def x11_lengths write_u8_def write_padding_def)

end
