(* ===== verification/X11_Reply.thy ===== *)
theory X11_Reply
  imports X11_Setup X11_Events Srv_Types
begin

text \<open>
  The two replies to the connection setup (\<open>encode_setup_success\<close>, \<open>encode_setup_failure\<close> of \<open>protocol/x11/setup.cpp\<close>).
\<close>

section \<open>Model\<close>

record setup_reply_config =
  sc_resource_id_base :: u32
  sc_resource_id_mask :: u32
  sc_screen :: screen_model
  sc_game_compat :: bool

definition kVendor :: "u8 list" where
  "kVendor = map of_char ''Glasswyrm Milestone 1''"

definition pixmap_format :: "u8 \<Rightarrow> u8 \<Rightarrow> u8 list" where
  "pixmap_format depth bits_per_pixel = [depth, bits_per_pixel, 32] @ write_padding 5"

definition empty_depth :: "byte_order \<Rightarrow> u8 \<Rightarrow> u8 list" where
  "empty_depth order depth = [depth] @ write_padding 1 @ x11_write_u16 order 0 @ write_padding 4"

definition setup_success_body :: "byte_order \<Rightarrow> setup_reply_config \<Rightarrow> u8 list" where
  "setup_success_body order config =
     (let w16 = x11_write_u16 order; w32 = x11_write_u32 order; screen = sc_screen config; compat = sc_game_compat config in
      w32 1 @ w32 (sc_resource_id_base config) @ w32 (sc_resource_id_mask config) @ w32 0 @
      w16 (of_nat (length kVendor)) @ w16 (sm_maximum_request_length screen) @
      [1, if compat then 4 else 2, 0, 0, 32, 32, 8, 255] @ write_padding 4 @
      kVendor @ write_padding (padding_for (length kVendor)) @
      pixmap_format 1 1 @ (if compat then pixmap_format 8 8 else []) @ pixmap_format 24 32 @ (if compat then pixmap_format 32 32 else []) @
      w32 (sm_root_window screen) @ w32 (sm_default_colormap screen) @ w32 0x00ffffff @ w32 0 @ w32 0 @
      w16 (sm_width_pixels screen) @ w16 (sm_height_pixels screen) @ w16 (sm_width_millimeters screen) @ w16 (sm_height_millimeters screen) @
      w16 1 @ w16 1 @ w32 (sm_root_visual screen) @ [0, 0, sm_root_depth screen, if compat then 4 else 2] @
      [sm_root_depth screen] @ write_padding 1 @ w16 1 @ write_padding 4 @
      w32 (sm_root_visual screen) @ [4, 8] @ w16 256 @ w32 (sm_red_mask screen) @ w32 (sm_green_mask screen) @ w32 (sm_blue_mask screen) @ write_padding 4 @
      empty_depth order 1 @ (if compat then empty_depth order 8 @ empty_depth order 32 else []))"

text \<open>The reply, or the exception that its body is too large.\<close>

definition encode_setup_success :: "byte_order \<Rightarrow> setup_reply_config \<Rightarrow> u8 list option" where
  "encode_setup_success order config =
     (let body = setup_success_body order config; body_size = length body in
      if body_size mod 4 \<noteq> 0 \<or> body_size div 4 > 65535 then None
      else Some ([1, 0] @ x11_write_u16 order kProtocolMajor @ x11_write_u16 order kProtocolMinor @
                 x11_write_u16 order (of_nat (body_size div 4)) @ body))"

definition encode_setup_failure :: "byte_order \<Rightarrow> u8 list \<Rightarrow> u8 list option" where
  "encode_setup_failure order reason =
     (if length reason > 255 then None
      else let padding = padding_for (length reason); body_size = length reason + padding in
        Some ([0, of_nat (length reason)] @ x11_write_u16 order kProtocolMajor @ x11_write_u16 order kProtocolMinor @
              x11_write_u16 order (of_nat (body_size div 4)) @ reason @ write_padding padding))"

section \<open>The reader of a reply\<close>

text \<open>What a client reads: the code, the version and the words that follow, of which there are as many as announced.\<close>

definition read_setup_reply :: "byte_order \<Rightarrow> u8 list \<Rightarrow> ((u8 \<times> u8) \<times> u16 \<times> u16 \<times> u8 list) option" where
  "read_setup_reply order b =
     (case b of code # reason # b \<Rightarrow>
        (case x11_read_u16 order b of None \<Rightarrow> None | Some (major, b) \<Rightarrow>
         case x11_read_u16 order b of None \<Rightarrow> None | Some (minor, b) \<Rightarrow>
         case x11_read_u16 order b of None \<Rightarrow> None | Some (units, b) \<Rightarrow>
         if length b = 4 * unat units then Some ((code, reason), major, minor, b) else None)
      | _ \<Rightarrow> None)"

lemma vendor_length: "length kVendor = 21"
  by (simp add: kVendor_def)

lemma success_body_length: "length (setup_success_body order config) = (if sc_game_compat config then 184 else 152)"
  by (simp add: setup_success_body_def Let_def vendor_length x16.write_length x32.write_length write_padding_def pixmap_format_def
    empty_depth_def padding_for_def)

lemma read_setup_success:
  "\<exists>b. encode_setup_success order config = Some b \<and>
     read_setup_reply order b = Some ((1, 0), kProtocolMajor, kProtocolMinor, setup_success_body order config)"
  by (simp add: encode_setup_success_def Let_def success_body_length read_setup_reply_def x16.read_write)

lemma reason_length: "length reason \<le> 255 \<Longrightarrow>
  4 * unat (of_nat ((length reason + padding_for (length reason)) div 4) :: u16) = length reason + padding_for (length reason)"
proof -
  let ?n = "length reason + padding_for (length reason)"
  assume "length reason \<le> 255"
  then have small: "?n div 4 < 65536" using padding_whole(2) [of "length reason"] by linarith
  have "4 * (?n div 4) = ?n" using padding_whole(1) [of "length reason"] by presburger
  then show ?thesis using small by (simp add: sizes_back)
qed

lemma read_setup_failure:
  assumes "encode_setup_failure order reason = Some b"
  shows "\<exists>padding. read_setup_reply order b = Some ((0, of_nat (length reason)), kProtocolMajor, kProtocolMinor, reason @ padding) \<and>
    length padding < 4 \<and> unat (of_nat (length reason) :: u8) = length reason"
proof -
  have short: "length reason \<le> 255" using assms by (auto simp: encode_setup_failure_def split: if_splits)
  then have b: "b = [0, of_nat (length reason)] @ x11_write_u16 order kProtocolMajor @ x11_write_u16 order kProtocolMinor @
      x11_write_u16 order (of_nat ((length reason + padding_for (length reason)) div 4)) @ reason @ write_padding (padding_for (length reason))"
    using assms by (simp add: encode_setup_failure_def Let_def)
  have "unat (of_nat (length reason) :: u8) = length reason" using short by (simp add: unat_of_nat)
  then show ?thesis using reason_length [OF short] padding_whole(2) [of "length reason"]
    by (simp add: b read_setup_reply_def x16.read_write write_padding_def)
qed

end
