(* ===== verification/X11_Lifecycle.thy ===== *)
theory X11_Lifecycle
  imports X11_Wire
begin

text \<open>
  The requests that map, unmap and configure windows (\<open>protocol/x11/lifecycle_request.cpp\<close>). A decoder that fails leaves
  the request of its caller alone: its result is the status or the request. The wire form is stated once, as the bytes of
  a request, and the decoders are shown to accept nothing else.
\<close>

section \<open>Model\<close>

datatype lifecycle_decode_status = LD_BadLength | LD_BadValue | LD_BadMatch

definition op_MapWindow :: u8 where "op_MapWindow = 8"
definition op_MapSubwindows :: u8 where "op_MapSubwindows = 9"
definition op_UnmapWindow :: u8 where "op_UnmapWindow = 10"
definition op_UnmapSubwindows :: u8 where "op_UnmapSubwindows = 11"
definition op_ConfigureWindow :: u8 where "op_ConfigureWindow = 12"

datatype core_stack_mode = Core_Above | Core_Below | Core_TopIf | Core_BottomIf | Core_Opposite

fun stack_mode_code :: "core_stack_mode \<Rightarrow> u32" where
  "stack_mode_code Core_Above = 0"
| "stack_mode_code Core_Below = 1"
| "stack_mode_code Core_TopIf = 2"
| "stack_mode_code Core_BottomIf = 3"
| "stack_mode_code Core_Opposite = 4"

definition stack_mode_of :: "u32 \<Rightarrow> core_stack_mode" where
  "stack_mode_of v = (if v = 0 then Core_Above else if v = 1 then Core_Below else if v = 2 then Core_TopIf
     else if v = 3 then Core_BottomIf else Core_Opposite)"

definition valid_request_header :: "u8 list \<Rightarrow> byte_order \<Rightarrow> u8 \<Rightarrow> u16 \<Rightarrow> bool" where
  "valid_request_header bytes order opcode expected_units \<longleftrightarrow>
     length bytes = unat expected_units * 4 \<and> bytes \<noteq> [] \<and> bytes ! 0 = opcode \<and>
     (case x11_read_u16 order (take 2 (drop 2 bytes)) of None \<Rightarrow> False | Some (units, _) \<Rightarrow> units = expected_units)"

definition decode_window :: "u8 list \<Rightarrow> byte_order \<Rightarrow> u8 \<Rightarrow> lifecycle_decode_status + u32" where
  "decode_window bytes order opcode =
     (if \<not> valid_request_header bytes order opcode 2 then Inl LD_BadLength
      else case x11_read_u32 order (drop 4 bytes) of
        None \<Rightarrow> Inl LD_BadLength
      | Some (window, remaining) \<Rightarrow> if remaining \<noteq> [] then Inl LD_BadLength else Inr window)"

definition decode_map_window :: "u8 list \<Rightarrow> byte_order \<Rightarrow> lifecycle_decode_status + u32" where
  "decode_map_window bytes order = decode_window bytes order op_MapWindow"

definition decode_unmap_window :: "u8 list \<Rightarrow> byte_order \<Rightarrow> lifecycle_decode_status + u32" where
  "decode_unmap_window bytes order = decode_window bytes order op_UnmapWindow"

definition decode_map_subwindows :: "u8 list \<Rightarrow> byte_order \<Rightarrow> lifecycle_decode_status + u32" where
  "decode_map_subwindows bytes order = decode_window bytes order op_MapSubwindows"

definition decode_unmap_subwindows :: "u8 list \<Rightarrow> byte_order \<Rightarrow> lifecycle_decode_status + u32" where
  "decode_unmap_subwindows bytes order = decode_window bytes order op_UnmapSubwindows"

record configure_request =
  cq_window :: u32
  cq_value_mask :: u16
  cq_x :: "u32 option"
  cq_y :: "u32 option"
  cq_width :: "u32 option"
  cq_height :: "u32 option"
  cq_border_width :: "u32 option"
  cq_sibling :: "u32 option"
  cq_stack_mode :: "core_stack_mode option"

definition kKnownConfigureMask :: u16 where "kKnownConfigureMask = 0x007f"

definition popcount16 :: "u16 \<Rightarrow> nat" where
  "popcount16 v = length (filter (bit v) [0..<16])"

text \<open>The value of one bit of the mask, if it is set.\<close>

definition read_value :: "nat \<Rightarrow> u16 \<Rightarrow> byte_order \<Rightarrow> u8 list \<Rightarrow> (u32 option \<times> u8 list) option" where
  "read_value n value_mask order b =
     (if bit value_mask n then map_option (\<lambda>(v, rest). (Some v, rest)) (x11_read_u32 order b) else Some (None, b))"

definition decode_configure_values :: "u32 \<Rightarrow> u16 \<Rightarrow> byte_order \<Rightarrow> u8 list \<Rightarrow> lifecycle_decode_status + configure_request" where
  "decode_configure_values window value_mask order b =
     (case read_value 0 value_mask order b of None \<Rightarrow> Inl LD_BadLength | Some (x, b) \<Rightarrow>
      case read_value 1 value_mask order b of None \<Rightarrow> Inl LD_BadLength | Some (y, b) \<Rightarrow>
      case read_value 2 value_mask order b of None \<Rightarrow> Inl LD_BadLength | Some (width, b) \<Rightarrow>
      if width = Some 0 then Inl LD_BadValue else
      case read_value 3 value_mask order b of None \<Rightarrow> Inl LD_BadLength | Some (height, b) \<Rightarrow>
      if height = Some 0 then Inl LD_BadValue else
      case read_value 4 value_mask order b of None \<Rightarrow> Inl LD_BadLength | Some (border_width, b) \<Rightarrow>
      case read_value 5 value_mask order b of None \<Rightarrow> Inl LD_BadLength | Some (sibling, b) \<Rightarrow>
      case read_value 6 value_mask order b of None \<Rightarrow> Inl LD_BadLength | Some (stack, b) \<Rightarrow>
      if (case stack of None \<Rightarrow> False | Some v \<Rightarrow> v > 4) then Inl LD_BadValue
      else if sibling \<noteq> None \<and> stack = None then Inl LD_BadMatch
      else if sibling = Some window then Inl LD_BadMatch
      else if b \<noteq> [] then Inl LD_BadLength
      else Inr \<lparr>cq_window = window, cq_value_mask = value_mask, cq_x = x, cq_y = y, cq_width = width, cq_height = height,
                cq_border_width = border_width, cq_sibling = sibling, cq_stack_mode = map_option stack_mode_of stack\<rparr>)"

definition decode_configure_window :: "u8 list \<Rightarrow> byte_order \<Rightarrow> lifecycle_decode_status + configure_request" where
  "decode_configure_window bytes order =
     (if length bytes < 12 \<or> bytes ! 0 \<noteq> op_ConfigureWindow then Inl LD_BadLength
      else case skip_bytes 2 bytes of None \<Rightarrow> Inl LD_BadLength | Some b \<Rightarrow>
        case x11_read_u16 order b of None \<Rightarrow> Inl LD_BadLength | Some (units, b) \<Rightarrow>
        case x11_read_u32 order b of None \<Rightarrow> Inl LD_BadLength | Some (window, b) \<Rightarrow>
        case x11_read_u16 order b of None \<Rightarrow> Inl LD_BadLength | Some (value_mask, b) \<Rightarrow>
        case skip_bytes 2 b of None \<Rightarrow> Inl LD_BadLength | Some b \<Rightarrow>
        if value_mask AND NOT kKnownConfigureMask \<noteq> 0 then Inl LD_BadValue
        else let values = popcount16 value_mask in
          if unat units \<noteq> 3 + values \<or> length bytes \<noteq> unat units * 4 then Inl LD_BadLength
          else decode_configure_values window value_mask order b)"

section \<open>Windows\<close>

lemma decode_window_exact:
  "decode_window bytes order opcode = Inr window \<longleftrightarrow>
     (\<exists>unused. bytes = [opcode, unused] @ x11_write_u16 order 2 @ x11_write_u32 order window)"
proof
  assume "decode_window bytes order opcode = Inr window"
  then have header: "length bytes = 8" "bytes ! 0 = opcode" "x11_read_u16 order (take 2 (drop 2 bytes)) \<noteq> None"
      "\<And>units rest. x11_read_u16 order (take 2 (drop 2 bytes)) = Some (units, rest) \<Longrightarrow> units = 2"
    and body: "x11_read_u32 order (drop 4 bytes) = Some (window, [])"
    by (auto simp: decode_window_def valid_request_header_def split: if_splits option.splits)
  obtain a u tail where bytes: "bytes = a # u # tail" "length tail = 6" using long_two [of bytes] header(1) by auto
  obtain units rest where "x11_read_u16 order (take 2 tail) = Some (units, rest)" using header(3) bytes by auto
  then have "units = 2" "take 2 tail = x11_write_u16 order units @ rest" using header(4) [of units rest] bytes(1) by (simp_all add: x16.read_iff)
  moreover have "length (take 2 tail) = 2" using bytes(2) by simp
  ultimately have "take 2 tail = x11_write_u16 order 2" by (simp add: x16.write_length)
  moreover have "drop 2 tail = x11_write_u32 order window" using body bytes by (simp add: x32.read_iff)
  ultimately have "tail = x11_write_u16 order 2 @ x11_write_u32 order window" by (metis append_take_drop_id)
  then show "\<exists>unused. bytes = [opcode, unused] @ x11_write_u16 order 2 @ x11_write_u32 order window" using bytes header(2) by auto
next
  assume "\<exists>unused. bytes = [opcode, unused] @ x11_write_u16 order 2 @ x11_write_u32 order window"
  then obtain unused where bytes: "bytes = [opcode, unused] @ x11_write_u16 order 2 @ x11_write_u32 order window" by blast
  have "take 2 (x11_write_u16 order 2 @ x11_write_u32 order window) = x11_write_u16 order 2"
    "drop 2 (x11_write_u16 order 2 @ x11_write_u32 order window) = x11_write_u32 order window" by (simp_all add: x16.write_length)
  then show "decode_window bytes order opcode = Inr window"
    using x16.read_write [of order 2 "[]"] x32.read_write [of order window "[]"]
    by (simp add: bytes decode_window_def valid_request_header_def x16.write_length x32.write_length)
qed

section \<open>Configurations\<close>

definition value_octets :: "byte_order \<Rightarrow> u32 option \<Rightarrow> u8 list" where
  "value_octets order v = (case v of None \<Rightarrow> [] | Some v \<Rightarrow> x11_write_u32 order v)"

lemma read_value_exact: "read_value n value_mask order b = Some (v, rest) \<longleftrightarrow> b = value_octets order v @ rest \<and> (bit value_mask n \<longleftrightarrow> v \<noteq> None)"
  by (cases v) (auto simp: read_value_def value_octets_def x32.read_iff)

definition configure_values :: "configure_request \<Rightarrow> u32 option list" where
  "configure_values r = [cq_x r, cq_y r, cq_width r, cq_height r, cq_border_width r, cq_sibling r, map_option stack_mode_code (cq_stack_mode r)]"

text \<open>The mask has exactly the bits of the values that are there.\<close>

definition mask_of :: "'a option list \<Rightarrow> u16" where
  "mask_of vs = foldr (\<lambda>v value_mask. push_bit 1 value_mask OR (if v \<noteq> None then 1 else 0)) vs 0"

definition valid_configure :: "configure_request \<Rightarrow> bool" where
  "valid_configure r \<longleftrightarrow> cq_value_mask r = mask_of (configure_values r) \<and> cq_width r \<noteq> Some 0 \<and> cq_height r \<noteq> Some 0 \<and>
     (cq_sibling r \<noteq> None \<longrightarrow> cq_stack_mode r \<noteq> None) \<and> cq_sibling r \<noteq> Some (cq_window r)"

definition configure_octets :: "byte_order \<Rightarrow> u8 \<Rightarrow> u8 \<Rightarrow> u8 \<Rightarrow> configure_request \<Rightarrow> u8 list" where
  "configure_octets order u1 u2 u3 r =
     [op_ConfigureWindow, u1] @ x11_write_u16 order (of_nat (3 + length (filter (\<lambda>v. v \<noteq> None) (configure_values r)))) @
     x11_write_u32 order (cq_window r) @ x11_write_u16 order (cq_value_mask r) @ [u2, u3] @
     concat (map (value_octets order) (configure_values r))"

lemma stack_mode_back: "stack_mode_of (stack_mode_code mode) = mode" "stack_mode_code mode \<le> 4"
  "v \<le> 4 \<Longrightarrow> stack_mode_code (stack_mode_of v) = v"
proof -
  show "stack_mode_of (stack_mode_code mode) = mode" "stack_mode_code mode \<le> 4" by (cases mode; simp add: stack_mode_of_def)+
  assume "v \<le> 4"
  then have "unat v \<le> 4" by (simp add: word_le_nat_alt)
  then consider "unat v = unat (0 :: u32)" | "unat v = unat (1 :: u32)" | "unat v = unat (2 :: u32)" | "unat v = unat (3 :: u32)" | "unat v = unat (4 :: u32)"
    by fastforce
  then have "v = 0 \<or> v = 1 \<or> v = 2 \<or> v = 3 \<or> v = 4" by cases (simp_all only: word_unat_eq_iff [symmetric] simp_thms)
  then show "stack_mode_code (stack_mode_of v) = v" by (auto simp: stack_mode_of_def)
qed

lemma bit_mask_of: "length vs \<le> 16 \<Longrightarrow> bit (mask_of vs) n \<longleftrightarrow> n < length vs \<and> vs ! n \<noteq> None"
proof (induction vs arbitrary: n)
  case (Cons v vs)
  have rest: "mask_of (v # vs) = push_bit 1 (mask_of vs) OR (if v \<noteq> None then 1 else 0)" by (simp add: mask_of_def)
  show ?case
  proof (cases n)
    case 0
    then show ?thesis unfolding rest bit_or_iff bit_push_bit_iff by simp
  next
    case (Suc k)
    have "bit (push_bit 1 (mask_of vs)) (Suc k) \<longleftrightarrow> bit (mask_of vs) k"
    proof (cases "k < 15")
      case True
      then show ?thesis unfolding bit_push_bit_iff by simp
    next
      case False
      then have "\<not> bit (mask_of vs) k" using Cons by simp
      then show ?thesis unfolding bit_push_bit_iff by simp
    qed
    then show ?thesis unfolding rest bit_or_iff using Suc Cons by simp
  qed
qed (simp add: mask_of_def)

lemma popcount_mask_of: "length vs \<le> 16 \<Longrightarrow> popcount16 (mask_of vs) = length (filter (\<lambda>v. v \<noteq> None) vs)"
proof -
  assume short: "length vs \<le> 16"
  have "{i. i < length [0..<16] \<and> bit (mask_of vs) ([0..<16] ! i)} = {i. i < length vs \<and> vs ! i \<noteq> None}"
    using short by (auto simp: bit_mask_of)
  then show ?thesis unfolding popcount16_def by (simp only: length_filter_conv_card)
qed

lemma known: "bit kKnownConfigureMask n \<longleftrightarrow> n < 7"
proof -
  have eq: "kKnownConfigureMask = mask 7" by (simp add: kKnownConfigureMask_def mask_eq_exp_minus_1)
  show ?thesis unfolding eq bit_mask_iff by auto
qed

lemma mask_of_iff:
  assumes "length vs = 7"
  shows "value_mask = mask_of vs \<longleftrightarrow> value_mask AND NOT kKnownConfigureMask = 0 \<and> (\<forall>n < 7. bit value_mask n \<longleftrightarrow> vs ! n \<noteq> None)"
proof
  assume "value_mask = mask_of vs"
  then have bits: "bit value_mask n \<longleftrightarrow> n < 7 \<and> vs ! n \<noteq> None" for n using bit_mask_of [of vs n] assms by simp
  have "value_mask AND NOT kKnownConfigureMask = 0" by (rule bit_word_eqI) (simp add: bit_simps bits known)
  then show "value_mask AND NOT kKnownConfigureMask = 0 \<and> (\<forall>n < 7. bit value_mask n \<longleftrightarrow> vs ! n \<noteq> None)" using bits by simp
next
  assume *: "value_mask AND NOT kKnownConfigureMask = 0 \<and> (\<forall>n < 7. bit value_mask n \<longleftrightarrow> vs ! n \<noteq> None)"
  show "value_mask = mask_of vs"
  proof (rule bit_word_eqI)
    fix n assume n: "n < LENGTH(16)"
    have "\<not> bit (value_mask AND NOT kKnownConfigureMask) n" using * by simp
    then have "bit value_mask n \<Longrightarrow> n < 7" using n by (simp add: bit_simps known)
    then show "bit value_mask n \<longleftrightarrow> bit (mask_of vs) n" using * assms bit_mask_of [of vs n] by auto
  qed
qed

lemma decode_values_exact:
  "decode_configure_values window value_mask order b = Inr r \<longleftrightarrow>
     b = concat (map (value_octets order) (configure_values r)) \<and> cq_window r = window \<and> cq_value_mask r = value_mask \<and>
     (\<forall>n < 7. bit value_mask n \<longleftrightarrow> configure_values r ! n \<noteq> None) \<and> cq_width r \<noteq> Some 0 \<and> cq_height r \<noteq> Some 0 \<and>
     (cq_sibling r \<noteq> None \<longrightarrow> cq_stack_mode r \<noteq> None) \<and> cq_sibling r \<noteq> Some (cq_window r)" (is "?decode \<longleftrightarrow> ?octets")
proof
  assume ?decode
  then obtain x y width height border_width sibling stack b1 b2 b3 b4 b5 b6 where
    reads: "read_value 0 value_mask order b = Some (x, b1)" "read_value 1 value_mask order b1 = Some (y, b2)"
      "read_value 2 value_mask order b2 = Some (width, b3)" "read_value 3 value_mask order b3 = Some (height, b4)"
      "read_value 4 value_mask order b4 = Some (border_width, b5)" "read_value 5 value_mask order b5 = Some (sibling, b6)"
      "read_value 6 value_mask order b6 = Some (stack, [])"
    and ok: "width \<noteq> Some 0" "height \<noteq> Some 0" "\<And>v. stack = Some v \<Longrightarrow> v \<le> 4" "sibling \<noteq> None \<Longrightarrow> stack \<noteq> None" "sibling \<noteq> Some window"
    and r: "r = \<lparr>cq_window = window, cq_value_mask = value_mask, cq_x = x, cq_y = y, cq_width = width, cq_height = height,
                cq_border_width = border_width, cq_sibling = sibling, cq_stack_mode = map_option stack_mode_of stack\<rparr>"
    by (auto simp: decode_configure_values_def not_less split: option.splits if_splits)
  have stack: "map_option stack_mode_code (map_option stack_mode_of stack) = stack" using ok(3) by (cases stack) (simp_all add: stack_mode_back)
  have vs: "configure_values r = [x, y, width, height, border_width, sibling, stack]" by (simp add: configure_values_def r stack)
  have bits: "\<forall>n < 7. bit value_mask n \<longleftrightarrow> configure_values r ! n \<noteq> None"
  proof (intro allI impI)
    fix n :: nat assume "n < 7"
    then consider "n = 0" | "n = 1" | "n = 2" | "n = 3" | "n = 4" | "n = 5" | "n = 6" by linarith
    then show "bit value_mask n \<longleftrightarrow> configure_values r ! n \<noteq> None"
      by cases (use reads in \<open>simp_all only: vs read_value_exact, simp_all\<close>)
  qed
  have "b = concat (map (value_octets order) (configure_values r))" unfolding vs using reads by (simp add: read_value_exact)
  then show ?octets using ok bits by (simp add: r)
next
  assume octets: ?octets
  obtain x y width height border_width sibling stack where r: "r = \<lparr>cq_window = window, cq_value_mask = value_mask, cq_x = x, cq_y = y, cq_width = width, cq_height = height,
                cq_border_width = border_width, cq_sibling = sibling, cq_stack_mode = stack\<rparr>" using octets by (cases r) simp
  have vs: "configure_values r = [x, y, width, height, border_width, sibling, map_option stack_mode_code stack]" by (simp add: configure_values_def r)
  have bit: "bit value_mask n \<longleftrightarrow> configure_values r ! n \<noteq> None" if "n < 7" for n using octets that by blast
  have bits: "bit value_mask 0 \<longleftrightarrow> x \<noteq> None" "bit value_mask 1 \<longleftrightarrow> y \<noteq> None" "bit value_mask 2 \<longleftrightarrow> width \<noteq> None" "bit value_mask 3 \<longleftrightarrow> height \<noteq> None"
    "bit value_mask 4 \<longleftrightarrow> border_width \<noteq> None" "bit value_mask 5 \<longleftrightarrow> sibling \<noteq> None" "bit value_mask 6 \<longleftrightarrow> map_option stack_mode_code stack \<noteq> None"
    using bit [of 0] bit [of 1] bit [of 2] bit [of 3] bit [of 4] bit [of 5] bit [of 6] by (simp_all add: vs)
  have read: "read_value n value_mask order (value_octets order v @ rest) = Some (v, rest)" if "bit value_mask n \<longleftrightarrow> v \<noteq> None" for n v rest
    using that by (simp add: read_value_exact)
  have b: "b = value_octets order x @ value_octets order y @ value_octets order width @ value_octets order height @
      value_octets order border_width @ value_octets order sibling @ value_octets order (map_option stack_mode_code stack) @ []"
    using octets by (simp add: vs)
  have small: "\<not> (case map_option stack_mode_code stack of None \<Rightarrow> False | Some v \<Rightarrow> v > 4)"
    using stack_mode_back(2) by (cases stack) (simp_all add: not_less)
  have returns: "map_option stack_mode_of (map_option stack_mode_code stack) = stack" by (cases stack) (simp_all add: stack_mode_back(1))
  show ?decode
    unfolding b decode_configure_values_def read [OF bits(1)] read [OF bits(2)] read [OF bits(3)] read [OF bits(4)] read [OF bits(5)] read [OF bits(6)] read [OF bits(7)]
      option.case prod.case
    using octets small returns by (cases stack; cases sibling) (simp_all add: r)
qed

lemma units_back:
  assumes "length vs = 7"
  shows "unat (of_nat (3 + length (filter (\<lambda>v. v \<noteq> None) vs)) :: u16) = 3 + length (filter (\<lambda>v. v \<noteq> None) vs)"
proof -
  have "length (filter (\<lambda>v. v \<noteq> None) vs) \<le> 7" using length_filter_le [of "\<lambda>v. v \<noteq> None" vs] assms by simp
  then have "3 + length (filter (\<lambda>v. v \<noteq> None) vs) < 2 ^ LENGTH(16)" by simp
  then show ?thesis unfolding unat_of_nat by (rule mod_less)
qed

lemma values_length: "length (concat (map (value_octets order) vs)) = 4 * length (filter (\<lambda>v. v \<noteq> None) vs)"
  by (induction vs) (auto simp: value_octets_def x32.write_length)

lemma decode_configure_exact:
  "decode_configure_window bytes order = Inr r \<longleftrightarrow> (\<exists>u1 u2 u3. bytes = configure_octets order u1 u2 u3 r) \<and> valid_configure r"
proof
  assume decoded: "decode_configure_window bytes order = Inr r"
  obtain units window value_mask b1 b2 b3 where
    start: "12 \<le> length bytes" "bytes ! 0 = op_ConfigureWindow"
    and reads: "x11_read_u16 order (drop 2 bytes) = Some (units, b1)" "x11_read_u32 order b1 = Some (window, b2)" "x11_read_u16 order b2 = Some (value_mask, b3)"
    and sizes: "2 \<le> length b3" "value_mask AND NOT kKnownConfigureMask = 0" "unat units = 3 + popcount16 value_mask" "length bytes = unat units * 4"
    and vals: "decode_configure_values window value_mask order (drop 2 b3) = Inr r"
    using decoded by (auto simp: decode_configure_window_def skip_bytes_def Let_def not_less split: if_splits option.splits)
  note exact = vals [unfolded decode_values_exact]
  have seven: "length (configure_values r) = 7" by (simp add: configure_values_def)
  have m: "value_mask = mask_of (configure_values r)" using exact sizes(2) mask_of_iff [OF seven] by blast
  then have valid: "valid_configure r" using exact unfolding valid_configure_def by blast
  have size: "unat units = 3 + length (filter (\<lambda>v. v \<noteq> None) (configure_values r))"
    using sizes(3) popcount_mask_of [of "configure_values r"] seven unfolding m by simp
  have "units = of_nat (unat units)" by simp
  then have units: "units = of_nat (3 + length (filter (\<lambda>v. v \<noteq> None) (configure_values r)))" unfolding size .
  obtain u1 tail where tail: "bytes = op_ConfigureWindow # u1 # tail" using long_two [of bytes] start by auto
  obtain u2 u3 more where more: "b3 = u2 # u3 # more" using long_two [OF sizes(1)] by auto
  have "bytes = configure_octets order u1 u2 u3 r"
    using reads exact tail more units by (simp add: configure_octets_def x16.read_iff x32.read_iff)
  then show "(\<exists>u1 u2 u3. bytes = configure_octets order u1 u2 u3 r) \<and> valid_configure r" using valid by blast
next
  assume "(\<exists>u1 u2 u3. bytes = configure_octets order u1 u2 u3 r) \<and> valid_configure r"
  then obtain u1 u2 u3 where bytes: "bytes = configure_octets order u1 u2 u3 r" and valid: "valid_configure r" by blast
  have seven: "length (configure_values r) = 7" by (simp add: configure_values_def)
  have m: "cq_value_mask r AND NOT kKnownConfigureMask = 0" "\<forall>n < 7. bit (cq_value_mask r) n \<longleftrightarrow> configure_values r ! n \<noteq> None"
    using valid mask_of_iff [OF seven, of "cq_value_mask r"] by (simp_all add: valid_configure_def)
  have vals: "decode_configure_values (cq_window r) (cq_value_mask r) order (concat (map (value_octets order) (configure_values r))) = Inr r"
    unfolding decode_values_exact using valid m(2) by (simp add: valid_configure_def)
  have count: "popcount16 (cq_value_mask r) = length (filter (\<lambda>v. v \<noteq> None) (configure_values r))"
    using valid popcount_mask_of [of "configure_values r"] seven by (simp add: valid_configure_def)
  have "length bytes = 12 + 4 * length (filter (\<lambda>v. v \<noteq> None) (configure_values r))"
    by (simp add: bytes configure_octets_def values_length x16.write_length x32.write_length)
  then show "decode_configure_window bytes order = Inr r"
    using vals m(1) count units_back [OF seven]
    by (simp add: decode_configure_window_def bytes configure_octets_def skip_bytes_def x16.read_write x32.read_write)
qed

end
