(* ===== verification/X11_Properties.thy ===== *)
theory X11_Properties
  imports X11_Reply X11_Lifecycle
begin

text \<open>The properties of the X11 wire form.\<close>

section \<open>What the parsers of the server go through\<close>

text \<open>The calls the server makes on the parser of a connection.\<close>

inductive framer_reachable :: "request_framer \<Rightarrow> bool" where
  created: "new_framer order maximum = Some f \<Longrightarrow> framer_reachable f"
| enabled: "framer_reachable f \<Longrightarrow> enable_big_requests maximum f = Some f' \<Longrightarrow> framer_reachable f'"
| cleared: "framer_reachable f \<Longrightarrow> framer_reachable (reset_framer f)"
| consumed: "framer_reachable f \<Longrightarrow> consume_request input f = Some (result, f') \<Longrightarrow> framer_reachable f'"

lemma consume_request_ready:
  assumes "framer_ready f" "consume_request input f = Some (result, f')"
  shows "framer_ready f'"
  using assms framer.loop_feed [OF assms(1), of input 0] by (auto simp: consume_request_def split: if_splits prod.splits)

lemma framer_reachable_ready: "framer_reachable f \<Longrightarrow> framer_ready f"
proof (induction rule: framer_reachable.induct)
  case (created order maximum f)
  then show ?case using fresh_new fresh_ready by blast
next
  case (enabled f maximum f')
  then show ?case by (auto simp: enable_big_requests_def framer_ready_def split: if_splits)
next
  case (cleared f)
  then show ?case using fresh_reset fresh_ready by blast
next
  case (consumed f input result f')
  then show ?case using consume_request_ready by blast
qed

lemma consume_request_returns: "framer_ready f \<Longrightarrow> \<exists>status n f'. consume_request input f = Some ((status, n), f')"
  using framer.loop_feed [of f input 0] by (cases "framer.feed input f") (auto simp: consume_request_def)

inductive setup_reachable :: "setup_parser \<Rightarrow> bool" where
  opened: "setup_reachable (new_setup_parser maximum)"
| read_on: "setup_reachable p \<Longrightarrow> consume_setup input p = Some (result, p') \<Longrightarrow> setup_reachable p'"

lemma consume_setup_ready:
  assumes "setup_ready p" "consume_setup input p = Some (result, p')"
  shows "setup_ready p'"
  using assms setup_reader.loop_feed [OF assms(1), of input 0] by (auto simp: consume_setup_def split: if_splits prod.splits)

lemma setup_reachable_ready: "setup_reachable p \<Longrightarrow> setup_ready p"
  by (induction rule: setup_reachable.induct) (auto intro: new_setup_ready consume_setup_ready)

lemma consume_setup_returns: "setup_ready p \<Longrightarrow> \<exists>status n p'. consume_setup input p = Some ((status, n), p')"
  using setup_reader.loop_feed [of p input 0] by (cases "setup_reader.feed input p") (auto simp: consume_setup_def)

lemma consume_setup_pieces:
  assumes "setup_ready p"
  shows "consume_setup (a @ b) p = (case consume_setup a p of None \<Rightarrow> None | Some ((status, n), p') \<Rightarrow>
    if status \<noteq> PS_NeedMore then Some ((status, n), p')
    else (case consume_setup b p' of None \<Rightarrow> None | Some ((status', m), p'') \<Rightarrow> Some ((status', n + m), p'')))"
  using setup_reader.pieces [OF assms, of a b]
  by (auto simp: consume_setup_def split: option.splits)

section \<open>Requests\<close>

text \<open>
  C36. A fresh parser decides about the head of its input exactly as the protocol says, whatever follows: it waits for the
  rest, reports a length of zero or a length above the limit right after the header, with the extended header of
  BIG-REQUESTS when that is enabled, and otherwise delivers exactly the announced bytes with their opcode, data and
  length, and leaves what follows to the next request.
\<close>

theorem request_framed:
  assumes "fresh_framer f"
  shows "\<exists>f'. consume_request input f = Some (frame_request f input, f') \<and> rf_status f' = fst (frame_request f input) \<and>
    fq_bytes (rf_request f') = take (snd (frame_request f input)) input \<and>
    (rf_status f' = FS_Complete \<longrightarrow> fq_opcode (rf_request f') = input ! 0 \<and> fq_data (rf_request f') = input ! 1 \<and>
       4 * unat (fq_length_units (rf_request f')) = snd (frame_request f input))"
proof -
  obtain f' where run: "consume_request input f = Some (frame_request f input, f')" "framed_exactly f input f' (snd (frame_request f input))"
    using consume_request_frames [OF assms, of input] by blast
  then have "rf_status f' = fst (frame_request f input)" unfolding framed_exactly_def by (metis fst_conv)
  then show ?thesis using run unfolding framed_exactly_def by blast
qed

definition example_framer :: request_framer where
  "example_framer = \<lparr>rf_order = LittleEndian, rf_maximum = 16, rf_maximum_big = 1024, rf_big_enabled = True,
     rf_expected = 4, rf_status = FS_NeedMore, rf_request = no_request\<rparr>"

theorem request_framed_witness:
  "\<exists>f'. consume_request [8, 0, 2, 0, 1, 2, 3, 4, 43, 0] example_framer = Some ((FS_Complete, 8), f') \<and>
     fq_bytes (rf_request f') = [8, 0, 2, 0, 1, 2, 3, 4]"
proof -
  have "frame_request example_framer [8, 0, 2, 0, 1, 2, 3, 4, 43, 0] = (FS_Complete, 8)" by code_simp
  then show ?thesis using request_framed [of example_framer "[8, 0, 2, 0, 1, 2, 3, 4, 43, 0]"]
    by (auto simp: fresh_framer_def example_framer_def)
qed

text \<open>
  C37. How the input is cut into pieces makes no difference: in every state the parser of the requests or of the setup
  can reach, one call with two pieces returns, and the status, the number of bytes and the state are those of a call
  with the first piece and, when that asks for more, one with the second.
\<close>

theorem pieces_make_no_difference:
  assumes "framer_reachable f" "setup_reachable p"
  shows "(\<exists>status n f'. consume_request (a @ b) f = Some ((status, n), f')) \<and>
    consume_request (a @ b) f = (case consume_request a f of None \<Rightarrow> None | Some ((status, n), f') \<Rightarrow>
      if status \<noteq> FS_NeedMore then Some ((status, n), f')
      else (case consume_request b f' of None \<Rightarrow> None | Some ((status', m), f'') \<Rightarrow> Some ((status', n + m), f''))) \<and>
    (\<exists>status n p'. consume_setup (a @ b) p = Some ((status, n), p')) \<and>
    consume_setup (a @ b) p = (case consume_setup a p of None \<Rightarrow> None | Some ((status, n), p') \<Rightarrow>
      if status \<noteq> PS_NeedMore then Some ((status, n), p')
      else (case consume_setup b p' of None \<Rightarrow> None | Some ((status', m), p'') \<Rightarrow> Some ((status', n + m), p'')))"
proof (intro conjI)
  note ready = framer_reachable_ready [OF assms(1)] setup_reachable_ready [OF assms(2)]
  show "\<exists>status n f'. consume_request (a @ b) f = Some ((status, n), f')" by (rule consume_request_returns [OF ready(1)])
  show "\<exists>status n p'. consume_setup (a @ b) p = Some ((status, n), p')" by (rule consume_setup_returns [OF ready(2)])
qed (rule consume_request_pieces consume_setup_pieces, rule framer_reachable_ready setup_reachable_ready, rule assms)+

lemma example_framer_reachable: "framer_reachable (the (new_framer BigEndian 16))"
  by (rule framer_reachable.created [of BigEndian 16]) (simp add: new_framer_def)

theorem pieces_make_no_difference_witness:
  "\<exists>status n f'. consume_request ([43, 0, 0] @ [1]) (the (new_framer BigEndian 16)) = Some ((status, n), f')"
  using pieces_make_no_difference [OF example_framer_reachable setup_reachable.opened, of "[43, 0, 0]" "[1]"] by blast

text \<open>
  C38. A request to set up the connection is read back as it was sent, in the byte order it announces, however much
  follows it, and exactly its bytes are taken; one longer than the limit is refused after its header.
\<close>

theorem setup_request_roundtrip:
  assumes "short_setup r" "12 \<le> unat maximum"
  shows "\<exists>p. consume_setup (setup_octets r @ rest) (new_setup_parser maximum) =
      Some (if length (setup_octets r) > unat maximum then (PS_MessageTooLarge, 12) else (PS_Complete, length (setup_octets r)), p) \<and>
    (length (setup_octets r) \<le> unat maximum \<longrightarrow> sp_request p = r)"
  by (rule consume_setup_octets [OF assms])

definition example_setup :: setup_request where
  "example_setup = \<lparr>sr_byte_order = BigEndian, sr_major = 11, sr_minor = 0, sr_authorization_name = [77, 73, 84], sr_authorization_data = []\<rparr>"

theorem setup_request_roundtrip_witness:
  "\<exists>p. consume_setup (setup_octets example_setup @ [1, 2]) (new_setup_parser 64) = Some ((PS_Complete, 16), p) \<and> sp_request p = example_setup"
proof -
  have "short_setup example_setup" "length (setup_octets example_setup) = 16"
    by (simp_all add: short_setup_def example_setup_def setup_octets_length round4_def)
  then show ?thesis using setup_request_roundtrip [of example_setup 64 "[1, 2]"] by simp
qed

text \<open>
  C39. The decoders of the requests that map, unmap and configure windows accept exactly the bytes of valid requests, in
  either byte order: the length announced and the length there agree, a configuration has exactly the values its mask
  announces, its extents are not zero, and a sibling comes with a stacking mode and is another window.
\<close>

theorem lifecycle_requests_exact:
  "(decode_map_window bytes order = Inr window \<longleftrightarrow>
      (\<exists>unused. bytes = [op_MapWindow, unused] @ x11_write_u16 order 2 @ x11_write_u32 order window)) \<and>
   (decode_unmap_window bytes order = Inr window \<longleftrightarrow>
      (\<exists>unused. bytes = [op_UnmapWindow, unused] @ x11_write_u16 order 2 @ x11_write_u32 order window)) \<and>
   (decode_map_subwindows bytes order = Inr window \<longleftrightarrow>
      (\<exists>unused. bytes = [op_MapSubwindows, unused] @ x11_write_u16 order 2 @ x11_write_u32 order window)) \<and>
   (decode_unmap_subwindows bytes order = Inr window \<longleftrightarrow>
      (\<exists>unused. bytes = [op_UnmapSubwindows, unused] @ x11_write_u16 order 2 @ x11_write_u32 order window)) \<and>
   (decode_configure_window bytes order = Inr r \<longleftrightarrow>
      (\<exists>u1 u2 u3. bytes = configure_octets order u1 u2 u3 r) \<and> valid_configure r)"
  unfolding decode_map_window_def decode_unmap_window_def decode_map_subwindows_def decode_unmap_subwindows_def
  by (intro conjI decode_window_exact decode_configure_exact)

section \<open>Events\<close>

text \<open>What each of the encoders writes for its event; the arrays of a client message have their sizes.\<close>

fun x_event_octets :: "byte_order \<Rightarrow> u64 \<Rightarrow> x_event \<Rightarrow> u8 list option" where
  "x_event_octets order s (X_Destroy e) = Some (encode_destroy_notify order s e)"
| "x_event_octets order s (X_Unmap e) = Some (encode_unmap_notify order s e)"
| "x_event_octets order s (X_Map e) = Some (encode_map_notify order s e)"
| "x_event_octets order s (X_Configure e) = Some (encode_configure_notify order s e)"
| "x_event_octets order s (X_Property e) = Some (encode_property_notify order s e)"
| "x_event_octets order s (X_Clear e) = Some (encode_selection_clear order s e)"
| "x_event_octets order s (X_Request e) = Some (encode_selection_request order s e)"
| "x_event_octets order s (X_Notify e) = Some (encode_selection_notify order s e)"
| "x_event_octets order s (X_Client e) = (if client_data_sized (cm_data e) then Some (encode_client_message order s e) else None)"
| "x_event_octets order s (X_Expose e) = Some (encode_expose order s e)"
| "x_event_octets order s (X_Graphics e) = Some (encode_graphics_expose order s e)"
| "x_event_octets order s (X_None e) = Some (encode_no_expose order s e)"
| "x_event_octets order s (X_Input e) = encode_input_event order s e"
| "x_event_octets order s (X_Crossing e) = encode_crossing_event order s e"
| "x_event_octets order s (X_Focus e) = encode_focus_event order s e"

text \<open>The event that arrives: the detail of a motion event is not sent, and the two flags of a crossing event change places.\<close>

fun arriving :: "x_event \<Rightarrow> x_event" where
  "arriving (X_Input e) = X_Input (if ie_type e = Ev_MotionNotify then e\<lparr>ie_detail := 0\<rparr> else e)"
| "arriving (X_Crossing e) = X_Crossing (e\<lparr>xe_same_screen := xe_focus e, xe_focus := xe_same_screen e\<rparr>)"
| "arriving e = e"

lemmas plain_events_read = window_events_read selection_events_read exposure_events_read

lemma plain_event_read:
  "read_event order (encode_destroy_notify order s d) = Some (wire_sequence s, X_Destroy d)"
  "read_event order (encode_unmap_notify order s u) = Some (wire_sequence s, X_Unmap u)"
  "read_event order (encode_map_notify order s m) = Some (wire_sequence s, X_Map m)"
  "read_event order (encode_configure_notify order s c) = Some (wire_sequence s, X_Configure c)"
  "read_event order (encode_property_notify order s p) = Some (wire_sequence s, X_Property p)"
  "read_event order (encode_selection_clear order s sc) = Some (wire_sequence s, X_Clear sc)"
  "read_event order (encode_selection_request order s sq) = Some (wire_sequence s, X_Request sq)"
  "read_event order (encode_selection_notify order s sn) = Some (wire_sequence s, X_Notify sn)"
  "read_event order (encode_expose order s ex) = Some (wire_sequence s, X_Expose ex)"
  "read_event order (encode_graphics_expose order s gx) = Some (wire_sequence s, X_Graphics gx)"
  "read_event order (encode_no_expose order s nx) = Some (wire_sequence s, X_None nx)"
  using plain_lengths
  by (simp_all add: read_plain [OF encode_destroy_notify_def] read_plain [OF encode_unmap_notify_def] read_plain [OF encode_map_notify_def]
      read_plain [OF encode_configure_notify_def] read_plain [OF encode_property_notify_def] read_plain [OF encode_selection_clear_def]
      read_plain [OF encode_selection_request_def] read_plain [OF encode_selection_notify_def] read_plain [OF encode_expose_def]
      read_plain [OF encode_graphics_expose_def] read_plain [OF encode_no_expose_def] event_readers_def plain_events_read)

text \<open>
  C40. Every event takes exactly 32 bytes, and a reader that takes the fields from the offsets of the core protocol, in
  either byte order, finds there the low half of the sequence number and the event as it was given to the encoder, with two
  exceptions: a motion event arrives with the detail 0, and the flags \<open>same_screen\<close> and \<open>focus\<close> of a crossing event
  arrive exchanged, since the encoder puts them into each other's bit.
\<close>

theorem events_decodable:
  assumes "x_event_octets order s e = Some w"
  shows "length w = 32 \<and> read_event order w = Some (wire_sequence s, arriving e)"
proof (cases e)
  case (X_Input i)
  then show ?thesis using assms input_event_read [of order s i w] by simp
next
  case (X_Crossing x)
  then show ?thesis using assms crossing_event_read [of order s x w] by simp
next
  case (X_Focus f)
  then show ?thesis using assms focus_event_read [of order s f w] by simp
next
  case (X_Client m)
  then show ?thesis using assms client_message_read [of m order s] by (auto split: if_splits)
qed (use assms plain_lengths plain_event_read in auto)

text \<open>The pointer enters a window on the same screen that does not have the focus: the client reads that it has, on another screen.\<close>

definition example_event :: x_event where
  "example_event = X_Crossing \<lparr>xe_type = Ev_EnterNotify, xe_detail = Detail_Ancestor, xe_time = 5, xe_root = 1, xe_event = 0x400001,
     xe_child = 0, xe_root_x = 10, xe_root_y = 20, xe_event_x = 3, xe_event_y = 4, xe_state = 0, xe_mode = Mode_Normal,
     xe_same_screen = True, xe_focus = False\<rparr>"

theorem events_decodable_witness:
  "\<exists>w event. x_event_octets BigEndian 7 example_event = Some w \<and> length w = 32 \<and> read_event BigEndian w = Some (7, X_Crossing event) \<and>
     xe_focus event \<and> \<not> xe_same_screen event"
proof -
  obtain w where w: "x_event_octets BigEndian 7 example_event = Some w" by (simp add: example_event_def encode_crossing_event_def)
  moreover have "wire_sequence 7 = 7" by code_simp
  ultimately show ?thesis using events_decodable [OF w] by (fastforce simp: example_event_def)
qed

section \<open>Replies\<close>

text \<open>
  Every reply announces exactly the bytes that follow: the reply a builder makes has a fixed part of 24 bytes and as
  many words as its length says, with the written bytes at their head; the reply that accepts a connection always fits
  and has the words it announces; the one that refuses it carries its reason and less than one word of padding.
\<close>

lemma replies_announce_what_follows:
  assumes "reply_reachable b" "finish_reply b = Some r" "encode_setup_failure order reason = Some refusal"
  shows "(\<exists>fixed payload units. r = [1, rb_response_data b] @ x11_write_u16 (rb_order b) (wire_sequence (rb_sequence b)) @
      x11_write_u32 (rb_order b) units @ fixed @ payload \<and> length fixed = 24 \<and> length payload = 4 * unat units \<and>
      take (length (rb_fixed b)) fixed = rb_fixed b \<and> take (length (rb_payload b)) payload = rb_payload b) \<and>
    (\<exists>w. encode_setup_success order config = Some w \<and>
      read_setup_reply order w = Some ((1, 0), kProtocolMajor, kProtocolMinor, setup_success_body order config)) \<and>
    (\<exists>padding. read_setup_reply order refusal = Some ((0, of_nat (length reason)), kProtocolMajor, kProtocolMinor, reason @ padding) \<and>
      length padding < 4 \<and> unat (of_nat (length reason) :: u8) = length reason)"
  by (intro conjI finish_reply_layout [OF assms(1,2)] read_setup_success read_setup_failure [OF assms(3)])

end
