(* ===== verification/Spec2Isabelle.thy ===== *)
theory Spec2Isabelle
  imports Srv_Properties Srv_Resource_Properties Wm_Transaction Wm_Interactive Out_Layout Out_Identity Scene_Properties Wire_Properties Ipc_Properties X11_Properties
begin

text \<open>
  Verification of Glasswyrm, a display stack for X11 clients. The repository builds a display server (\<open>glasswyrmd\<close>), a
  compositor (\<open>gwcomp\<close>), a window manager (\<open>gwm\<close>) and a connection library between them (\<open>libgwipc\<close>). Paths are relative to
  \<open>src/src\<close>; the header of each theory names the files it translates.

  \<^bold>\<open>The parts and how they interact.\<close> Clients send X11 requests to the server, which keeps their resources and asks the window
  manager for placement, stacking and focus: it sends a raw state, the manager evaluates it to a policy. The server then publishes
  surfaces and outputs to the compositor, which keeps a scene and repaints what a commit damages. The three processes talk over
  \<open>libgwipc\<close>. Every part is a group of theories, in the order of the code:

    \<^item> Shared: \<open>Prelude\<close> (machine integers, lists, maps), \<open>Bytes\<close> (FNV-1a), \<open>Geometry\<close> (\<open>core/\<close>: checked arithmetic, rectangles,
      coalescing regions), \<open>Snapshot\<close> (the contract of an edit that can be aborted, for the policy and the scene).
    \<^item> Window management (\<open>wm/\<close>): \<open>Wm_Types\<close>, \<open>Wm_Validation\<close>, \<open>Wm_Ordering\<close>, \<open>Wm_Placement\<close>, \<open>Wm_Multi_Output\<close>, \<open>Wm_Focus\<close>,
      \<open>Wm_Hash\<close>, \<open>Wm_Engine\<close> (\<open>evaluate\<close>), \<open>Wm_Transaction\<close>, \<open>Wm_Interactive\<close>. The laws of \<open>evaluate\<close> are in this theory.
    \<^item> Outputs (\<open>output/model/\<close>): \<open>Out_Types\<close>, \<open>Out_Scale\<close>, \<open>Out_Transform\<close>, \<open>Out_Mapping\<close>, \<open>Out_Layout\<close>, \<open>Out_Identity\<close>.
    \<^item> Compositor (\<open>compositor/\<close>): \<open>Damage\<close>, \<open>Scene_Types\<close>, \<open>Scene_Validation\<close>, \<open>Scene_Model\<close>, \<open>Scene_Safety\<close>, \<open>Scene_Damage\<close>,
      \<open>Scene_Properties\<close>.
    \<^item> Messages (\<open>ipc/wire/\<close>): \<open>Wire_Bytes\<close>, \<open>Wire_Utf8\<close>, \<open>Wire_Policy\<close>, \<open>Wire_Control\<close>, \<open>Wire_Output\<close>, \<open>Wire_Compositor\<close>,
      \<open>Wire_Properties\<close>.
    \<^item> Connections (\<open>ipc/\<close>): \<open>Ipc_Types\<close>, \<open>Ipc_Validation\<close>, \<open>Ipc_Queue\<close>, \<open>Ipc_Receive\<close>, \<open>Ipc_Endpoint\<close> (the model), \<open>Ipc_Safety\<close>,
      \<open>Ipc_Session\<close>, \<open>Ipc_Handshake\<close>, \<open>Ipc_Properties\<close> (one connection, two connections that talk).
    \<^item> Server (\<open>glasswyrmd/\<close>): \<open>Srv_Region\<close> (XFIXES), \<open>Srv_Atoms\<close>, \<open>Srv_Selections\<close>, \<open>Srv_Grabs\<close>; the resource table in \<open>Srv_Types\<close>,
      \<open>Srv_Table\<close>, \<open>Srv_Windows\<close>, \<open>Srv_Stores\<close>, \<open>Srv_Cleanup\<close> (the model) and \<open>Srv_Invariant\<close>, \<open>Srv_Frames\<close>, \<open>Srv_Safety\<close>,
      \<open>Srv_Shared\<close>, \<open>Srv_Tree\<close>, \<open>Srv_Map\<close>, \<open>Srv_Destroy\<close>, \<open>Srv_End\<close>, \<open>Srv_Reachable\<close>, \<open>Srv_Reading\<close> (its proofs); the requests
      that create windows and change their attributes in \<open>Srv_Requests\<close>; \<open>Srv_Properties\<close>, \<open>Srv_Resource_Properties\<close>.
    \<^item> X11 on the wire (\<open>protocol/x11/\<close>): \<open>X11_Core\<close> and \<open>X11_Wire\<close> (numbers, fields, events), \<open>X11_Events\<close> (replies, errors, a reader of the protocol's layout of events),
      \<open>X11_Stream\<close> (parsers that are fed in pieces), \<open>X11_Request\<close>, \<open>X11_Setup\<close>, \<open>X11_Reply\<close>, \<open>X11_Lifecycle\<close>,
      \<open>X11_Properties\<close>.

  \<^bold>\<open>How the code is modelled.\<close> A struct is a record, an enum a datatype, or the word it is sent as where values that are no
  enumerator can occur. Unsigned integers are words; signed ones are read from words with \<open>sint\<close>; 64-bit intermediate results that
  provably fit are \<open>int\<close>. A \<open>std::map\<close> is a red-black tree, a hash table a finite map; what the code does in the order of a hash
  table it sorts afterwards, so the models sort the keys. A method is a function of the old state to the new one. An exception, a
  failed \<open>at\<close> and undefined behaviour are \<open>None\<close>. Results of the kernel (descriptors, \<open>recvmsg\<close>, \<open>sendmsg\<close>), of the allocator of
  pixel storage and of the clock are arguments.

  \<^bold>\<open>Interfaces.\<close> Locales state what one component relies on in another: \<open>rect_join\<close> (the join of a coalescing region), \<open>placement\<close>
  (what the engine needs of a placement, for one output and for several), \<open>snapshot\<close>, \<open>accumulator\<close> (what adds to damage),
  \<open>owned_store\<close> (a store of resources that a client owns), \<open>field\<close>, \<open>halves\<close>, \<open>codec\<close> and \<open>message\<close> (fields, messages), and
  \<open>incremental\<close> (a parser fed in pieces). Each is interpreted on the definitions of the components that keep it.

  \<^bold>\<open>What the lemmas show.\<close> Of the policy: what is accepted, that evaluation returns, and geometry, stacking, focus and
  visibility of what it returns; of transactions and scenes: invariants of reachable states, atomic commits, aborted snapshots; of
  outputs and damage: no pixel is lost; of messages: canonical encodings; of connections: limits, delivery, agreement of the two
  ends; of the server: the check of the resource table holds in every state it can reach, up to the cursors of windows that are
  created late, destruction and the end of a client are exact and return, grabs are consistent, selections follow the core
  protocol; of the X11 streams: independence of the pieces, exact framing, events as the core protocol lays them out.

  Where the code deviates from what it is meant to do, the theorem states what it does: an interaction whose pointer comes back
  leaves the window displaced (\<open>Wm_Interactive\<close>), a change of presentation flags is not repainted (\<open>Scene_Properties\<close>), a
  selection forgets the time of its last change with its owner (\<open>Srv_Properties\<close>), a window that is created late may have a
  stale cursor (\<open>Srv_Resource_Properties\<close>), and crossing events have two flags in each other's bit (\<open>X11_Properties\<close>).

  \<^bold>\<open>Bounds and fuel.\<close> \<open>emit_transient_tree\<close> has as fuel the number of windows and one more, which an acyclic transient relation
  never uses up. \<open>valid_utf8\<close> recurses on the bytes left. \<open>cursor_along\<close> has as fuel the resources and one more, since the
  parents of a window are a path. The walks over windows in \<open>Srv_Table\<close> and \<open>Srv_Cleanup\<close> and the loops of the X11 parsers are
  partial functions, where not to return is \<open>None\<close>; that they return is part of the theorems. The poll loop of a connection runs
  over the list of what the kernel returns in one call.

  \<^bold>\<open>Reachable states.\<close> \<open>table_step\<close> has one rule for each operation of the resource table and for each assignment that other
  code makes through the pointer a lookup returns; windows and their attributes come from the requests of \<open>Srv_Requests\<close>. Its
  guards are what the allocator gives (a new block of pixels has an address of its own) and the drawable that the caller of
  \<open>create_picture\<close> has looked up in the same request. \<open>server_run\<close> adds creations that are deferred: the request leaves its
  specification, and any number of steps later the window is created from it. Connections, scenes, transactions, interactions
  and grabs are reached from their constructors by their public operations, interactions from bindings whose minimum extents do
  not exceed the largest one, since \<open>std::clamp\<close> is not defined for others.

  \<^bold>\<open>Not modelled.\<close> The other request handlers, extensions, peers and the runtime of the server, the reactors of \<open>gwcomp\<close> and \<open>gwm\<close>, the
  input devices, the session launcher and the DRM, headless and GLES back ends mostly call the kernel, GL or libinput, or join
  the parts above; rendering compares pixels and is tested by golden images. Running out of memory is not modelled, except for
  the storage of pixels, whose allocator may refuse. Concurrency does not occur: every process is one reactor.
\<close>

section \<open>Concrete states\<close>

text \<open>
  Small states on which the theorems below are exercised: a screen with one output, a screen
  with two outputs, and a few windows of different kinds.
\<close>

definition plain_window :: "u32 \<Rightarrow> raw_window" where
  "plain_window wid = \<lparr>rw_window_id = wid, rw_parent_window_id = 1000, rw_transient_for = 0,
     rw_workspace_id = 0, rw_requested_x = 40, rw_requested_y = 30, rw_requested_width = 300,
     rw_requested_height = 200, rw_border_width = 0, rw_window_type = WT_Normal, rw_wants_map = True,
     rw_override_redirect = False, rw_decoration_preference = DP_Unknown,
     rw_fullscreen_requested = False, rw_maximized_requested = False, rw_minimized_requested = False,
     rw_attention_requested = False, rw_creation_serial = ucast wid, rw_map_serial = ucast wid,
     rw_focus_serial = 0, rw_flags = 0, rw_geometry_serial = 0, rw_stack_serial = 0,
     rw_stack_sibling = 0, rw_stack_mode = SM_None\<rparr>"

definition desktop_windows :: "(u32, raw_window) RBT.rbt" where
  "desktop_windows =
     RBT.insert 1 (plain_window 1)
       (RBT.insert 2 ((plain_window 2)\<lparr>rw_transient_for := 1, rw_window_type := WT_Dialog\<rparr>)
         (RBT.insert 3 ((plain_window 3)\<lparr>rw_override_redirect := True, rw_requested_x := -5\<rparr>)
           (RBT.insert 4 ((plain_window 4)\<lparr>rw_fullscreen_requested := True\<rparr>)
             (RBT.insert 5 ((plain_window 5)\<lparr>rw_minimized_requested := True\<rparr>) RBT.empty))))"

definition desktop_context :: "u32 \<Rightarrow> u32 \<Rightarrow> wm_context" where
  "desktop_context width height = \<lparr>root_window_id = 1000, context_workspace_id = 1, context_output_id = 7,
     work_x = 0, work_y = 0, work_width = width, work_height = height, context_flags = 0\<rparr>"

definition one_output_desktop :: raw_state where
  "one_output_desktop = default_raw_state\<lparr>raw_complete := True, raw_has_context := True,
     raw_context := desktop_context 800 600, raw_windows := desktop_windows\<rparr>"

definition plain_output :: "u64 \<Rightarrow> i32 \<Rightarrow> bool \<Rightarrow> output_context" where
  "plain_output oid left primary = \<lparr>oc_output_id = oid, oc_logical = make_rectangle left 0 800 600,
     oc_work = make_rectangle left 0 800 580, oc_scale_numerator = 1, oc_scale_denominator = 1,
     oc_transform = OT_Normal, oc_enabled = True, oc_primary = primary, oc_flags = 0\<rparr>"

definition two_output_desktop :: raw_state where
  "two_output_desktop = one_output_desktop\<lparr>raw_context := desktop_context 1600 600,
     raw_outputs := RBT.insert 7 (plain_output 7 0 True) (RBT.insert 9 (plain_output 9 800 False) RBT.empty)\<rparr>"

lemma one_output_accepted: "validate one_output_desktop = EE_None" "RBT.is_empty (raw_outputs one_output_desktop)"
  by code_simp+

lemma two_output_accepted: "validate two_output_desktop = EE_None" "\<not> RBT.is_empty (raw_outputs two_output_desktop)"
  by code_simp+

lemma desktop_lookup:
  "RBT.lookup (raw_windows one_output_desktop) 4 = Some ((plain_window 4)\<lparr>rw_fullscreen_requested := True\<rparr>)"
  "RBT.lookup (raw_windows two_output_desktop) 4 = Some ((plain_window 4)\<lparr>rw_fullscreen_requested := True\<rparr>)"
  by (simp_all add: one_output_desktop_def two_output_desktop_def desktop_windows_def)

lemma desktop_empty_outputs: "raw_outputs one_output_desktop = RBT.empty" "raw_outputs two_output_desktop \<noteq> RBT.empty"
  using one_output_accepted(2) two_output_accepted(2) by simp_all

section \<open>The policy engine\<close>

text \<open>
  C1. The policy engine always answers: no map access of the placement, focus, stacking and hash
  passes can throw and no recursion runs away. It accepts exactly the raw states that pass
  validation, with a non-zero generation.
\<close>

theorem evaluate_decides:
  "\<exists>e. evaluate raw generation = Some e \<and>
     (eval_error e = EE_None \<longleftrightarrow> validate raw = EE_None \<and> generation \<noteq> 0)"
proof (cases "validate raw = EE_None \<and> generation \<noteq> 0")
  case True
  then obtain policy where "evaluate raw generation = Some \<lparr>eval_error = EE_None, eval_policy = policy\<rparr>"
    by (auto elim: evaluate_accepted)
  with True show ?thesis by simp
next
  case False
  then have "validate raw \<noteq> EE_None \<or> generation = 0" by blast
  from evaluate_refused [OF this] this show ?thesis by auto
qed

text \<open>
  C5. With one output, every window is placed on it. An override-redirect window keeps the
  geometry it asked for; any other window lies inside the work area with a non-empty extent, and
  a fullscreen or maximized one fills the work area exactly.
\<close>

theorem single_output_geometry:
  assumes "validate raw = EE_None" "generation \<noteq> 0" "raw_outputs raw = RBT.empty"
  shows "\<exists>policy. evaluate raw generation = Some \<lparr>eval_error = EE_None, eval_policy = policy\<rparr> \<and>
     (\<forall>k w. RBT.lookup (raw_windows raw) k = Some w \<longrightarrow> (\<exists>s. RBT.lookup (ps_windows policy) k = Some s \<and>
        ws_output_id s = context_output_id (raw_context raw) \<and>
        (if rw_override_redirect w then window_rect s = requested_geometry w
         else rect_contains (work_area raw) (window_rect s) \<and> \<not> rect_empty (window_rect s) \<and>
              (applied_state_of w \<in> {AS_Fullscreen, AS_Maximized} \<longrightarrow> window_rect s = work_area raw))))"
proof -
  obtain policy focus trees overs hidden where
    e: "evaluate raw generation = Some \<lparr>eval_error = EE_None, eval_policy = policy\<rparr>"
    and a: "arranged raw (placement_guarantee raw) policy focus trees overs hidden"
    using assms(1,2) by (rule evaluate_accepted)
  have "\<exists>s. RBT.lookup (ps_windows policy) k = Some s \<and> single_guarantee raw w s"
    if "RBT.lookup (raw_windows raw) k = Some w" for k w
    using a that assms(3) same_keysD [of raw policy k w] by (auto simp: arranged_def placement_guarantee_def)
  with e show ?thesis unfolding single_guarantee_def single_good_def by blast
qed

theorem single_output_geometry_witness:
  "\<exists>policy s. evaluate one_output_desktop 1 = Some \<lparr>eval_error = EE_None, eval_policy = policy\<rparr> \<and>
     RBT.lookup (ps_windows policy) 4 = Some s \<and> window_rect s = make_rectangle 0 0 800 600"
proof -
  have "applied_state_of ((plain_window 4)\<lparr>rw_fullscreen_requested := True\<rparr>) = AS_Fullscreen"
    "work_area one_output_desktop = make_rectangle 0 0 800 600"
    "\<not> rw_override_redirect ((plain_window 4)\<lparr>rw_fullscreen_requested := True\<rparr>)"
    by (simp_all add: applied_state_of_def plain_window_def work_area_def one_output_desktop_def
        desktop_context_def make_rectangle_def)
  with single_output_geometry [OF one_output_accepted(1), of 1] desktop_empty_outputs(1) desktop_lookup(1)
  show ?thesis by fastforce
qed

text \<open>
  C6. With several outputs, every window is assigned to an enabled output. An override-redirect
  window has exactly the geometry it asks for, wherever that is, so it may lie outside every output.
  Of the other windows, a fullscreen or maximized one fills the work area of its output, and the
  rest have a pixel on some enabled output.
\<close>

theorem multi_output_geometry:
  assumes "validate raw = EE_None" "generation \<noteq> 0" "raw_outputs raw \<noteq> RBT.empty"
  shows "\<exists>policy. evaluate raw generation = Some \<lparr>eval_error = EE_None, eval_policy = policy\<rparr> \<and>
     (\<forall>k w. RBT.lookup (raw_windows raw) k = Some w \<longrightarrow> (\<exists>s out. RBT.lookup (ps_windows policy) k = Some s \<and>
        RBT.lookup (raw_outputs raw) (ws_output_id s) = Some out \<and> oc_enabled out \<and>
        (if rw_override_redirect w then window_rect s = requested_geometry w
         else if applied_state_of w \<in> {AS_Fullscreen, AS_Maximized} then window_rect s = oc_work out
         else \<exists>oid out'. RBT.lookup (raw_outputs raw) oid = Some out' \<and> oc_enabled out' \<and>
                rect_pts (oc_logical out') \<inter> rect_pts (window_rect s) \<noteq> {})))"
proof -
  obtain policy focus trees overs hidden where
    e: "evaluate raw generation = Some \<lparr>eval_error = EE_None, eval_policy = policy\<rparr>"
    and a: "arranged raw (placement_guarantee raw) policy focus trees overs hidden"
    using assms(1,2) by (rule evaluate_accepted)
  have "\<exists>s. RBT.lookup (ps_windows policy) k = Some s \<and> multi_good raw w s"
    if "RBT.lookup (raw_windows raw) k = Some w" for k w
    using a that assms(3) same_keysD [of raw policy k w] by (auto simp: arranged_def placement_guarantee_def)
  with e show ?thesis unfolding multi_good_def on_screen_def by blast
qed

theorem multi_output_geometry_witness:
  "\<exists>policy s out. evaluate two_output_desktop 1 = Some \<lparr>eval_error = EE_None, eval_policy = policy\<rparr> \<and>
     RBT.lookup (ps_windows policy) 4 = Some s \<and>
     RBT.lookup (raw_outputs two_output_desktop) (ws_output_id s) = Some out \<and> window_rect s = oc_work out"
proof -
  have "applied_state_of ((plain_window 4)\<lparr>rw_fullscreen_requested := True\<rparr>) = AS_Fullscreen"
    "\<not> rw_override_redirect ((plain_window 4)\<lparr>rw_fullscreen_requested := True\<rparr>)"
    by (simp_all add: applied_state_of_def plain_window_def)
  with multi_output_geometry [OF two_output_accepted(1), of 1] desktop_empty_outputs(2) desktop_lookup(2)
  show ?thesis by fastforce
qed

text \<open>
  A window is visible exactly when it asks to be mapped, is not minimized (an
  override-redirect window never counts as minimized) and, if it is a managed transient, the
  window it is transient for is visible.
\<close>

lemma evaluate_visibility:
  assumes "validate raw = EE_None" "generation \<noteq> 0"
  shows "\<exists>policy. evaluate raw generation = Some \<lparr>eval_error = EE_None, eval_policy = policy\<rparr> \<and>
     (\<forall>k w. RBT.lookup (raw_windows raw) k = Some w \<longrightarrow>
        visible_in policy k =
          (rw_wants_map w \<and> applied_state_of w \<noteq> AS_Minimized \<and>
           (\<not> rw_override_redirect w \<and> rw_transient_for w \<noteq> 0 \<longrightarrow> visible_in policy (rw_transient_for w))))"
proof -
  obtain policy focus trees overs hidden where
    e: "evaluate raw generation = Some \<lparr>eval_error = EE_None, eval_policy = policy\<rparr>"
    and a: "arranged raw (placement_guarantee raw) policy focus trees overs hidden"
    using assms by (rule evaluate_accepted)
  then show ?thesis
    by (auto simp: arranged_def visibility_spec_def base_visible_def managed_transient_def)
qed



text \<open>
  C7. The output order lists every window once: first the visible managed windows, then the
  visible override-redirect ones, then the hidden ones. A transient comes after the window it is
  transient for, a fullscreen root after every other root. The stacking number of a visible
  window is its position, that of a hidden one is minus one.
\<close>

theorem evaluate_stacking:
  assumes "validate raw = EE_None" "generation \<noteq> 0"
  shows "\<exists>policy trees overs hidden.
     evaluate raw generation = Some \<lparr>eval_error = EE_None, eval_policy = policy\<rparr> \<and>
     ps_output_order policy = trees @ overs @ hidden \<and> distinct (ps_output_order policy) \<and>
     set (ps_output_order policy) = dom (RBT.lookup (raw_windows raw)) \<and>
     stacking_spec raw policy trees overs \<and>
     (\<forall>i < length (trees @ overs). map_option (sint \<circ> ws_stacking)
        (RBT.lookup (ps_windows policy) (ps_output_order policy ! i)) = Some (int i)) \<and>
     (\<forall>k \<in> set hidden. map_option (sint \<circ> ws_stacking) (RBT.lookup (ps_windows policy) k) = Some (-1))"
proof -
  obtain policy focus trees overs hidden where
    e: "evaluate raw generation = Some \<lparr>eval_error = EE_None, eval_policy = policy\<rparr>"
    and a: "arranged raw (placement_guarantee raw) policy focus trees overs hidden"
    using assms by (rule evaluate_accepted)
  let ?shown = "trees @ overs"
  from a have n: "ps_output_order policy = ?shown @ hidden" "distinct (?shown @ hidden)"
    "set hidden = {k. visible_at policy k = Some False}"
    "\<forall>i < length ?shown. map_option ws_stacking (RBT.lookup (ps_windows policy) (?shown ! i)) = Some (i32_of (int i))"
    "\<forall>k \<in> set hidden. map_option ws_stacking (RBT.lookup (ps_windows policy) k) = Some (-1)"
    and st: "stacking_spec raw policy trees overs" and keys: "same_keys raw policy"
    by (auto simp: arranged_def numbered_def)
  have all: "set (ps_output_order policy) = dom (RBT.lookup (raw_windows raw))"
    by (rule order_covers [OF keys st n(1,3)])
  have "length ?shown \<le> length (ps_output_order policy)" by (simp add: n(1))
  also have "\<dots> = card (dom (RBT.lookup (raw_windows raw)))"
    using n(1,2) all by (metis distinct_card)
  also have "\<dots> \<le> 4096"
    using validate_cases(3) [OF assms(1)] by (simp add: map_size_card maximum_windows_def)
  finally have small: "sint (i32_of (int i)) = int i" if "i < length ?shown" for i
    using that by (intro sint_i32_of) auto
  have shown: "map_option (sint \<circ> ws_stacking) (RBT.lookup (ps_windows policy) (ps_output_order policy ! i)) = Some (int i)"
    if i: "i < length ?shown" for i
  proof -
    have "ps_output_order policy ! i = ?shown ! i" unfolding n(1) using i by (rule nth_append_left)
    with n(4) i small [OF i] show ?thesis by (auto simp: comp_def)
  qed
  have "map_option (sint \<circ> ws_stacking) (RBT.lookup (ps_windows policy) k) = Some (-1)" if "k \<in> set hidden" for k
    using n(5) that by auto
  with e n(1,2) all st shown show ?thesis
    by (intro exI [of _ policy] exI [of _ trees] exI [of _ overs] exI [of _ hidden]) simp
qed

theorem evaluate_stacking_witness:
  "\<exists>policy. evaluate one_output_desktop 1 = Some \<lparr>eval_error = EE_None, eval_policy = policy\<rparr> \<and>
     set (ps_output_order policy) = dom (RBT.lookup (raw_windows one_output_desktop))"
  using evaluate_stacking [OF one_output_accepted(1), of 1] by auto

text \<open>
  A managed transient is always on the output of the window it is transient for.
\<close>

lemma evaluate_transient_output:
  assumes "validate raw = EE_None" "generation \<noteq> 0"
    "RBT.lookup (raw_windows raw) k = Some w" "\<not> rw_override_redirect w" "rw_transient_for w \<noteq> 0"
  shows "\<exists>policy s p. evaluate raw generation = Some \<lparr>eval_error = EE_None, eval_policy = policy\<rparr> \<and>
     RBT.lookup (ps_windows policy) k = Some s \<and>
     RBT.lookup (ps_windows policy) (rw_transient_for w) = Some p \<and> ws_output_id s = ws_output_id p"
proof -
  obtain policy focus trees overs hidden where
    e: "evaluate raw generation = Some \<lparr>eval_error = EE_None, eval_policy = policy\<rparr>"
    and a: "arranged raw (placement_guarantee raw) policy focus trees overs hidden"
    using assms(1,2) by (rule evaluate_accepted)
  then have keys: "same_keys raw policy" and follow: "all_follow raw (ps_windows policy)"
    by (auto simp: arranged_def)
  obtain t where t: "RBT.lookup (raw_windows raw) (rw_transient_for w) = Some t"
    using assms(1,3,5) by (rule accepted_parent)
  obtain s p where "RBT.lookup (ps_windows policy) k = Some s"
    "RBT.lookup (ps_windows policy) (rw_transient_for w) = Some p"
    using same_keysD [OF keys assms(3)] same_keysD [OF keys t] by blast
  moreover from this follow assms(3-5) have "ws_output_id s = ws_output_id p"
    unfolding transients_follow_def managed_transient_def by blast
  ultimately show ?thesis using e by blast
qed

text \<open>
  The policy of an accepted evaluation carries the requested generation and the producer's
  context, and its hash field is the hash of the policy itself.
\<close>

lemma evaluate_hash:
  assumes "validate raw = EE_None" "generation \<noteq> 0"
  shows "\<exists>policy. evaluate raw generation = Some \<lparr>eval_error = EE_None, eval_policy = policy\<rparr> \<and>
     ps_generation policy = generation \<and> ps_context policy = raw_context raw \<and>
     policy_hash policy = Some (ps_hash policy)"
proof -
  obtain policy where "evaluate raw generation = Some \<lparr>eval_error = EE_None, eval_policy = policy\<rparr>"
    "ps_generation policy = generation" "ps_context policy = raw_context raw"
    "policy_hash policy = Some (ps_hash policy)"
    using assms by (rule evaluate_accepted)
  then show ?thesis by blast
qed

end
